(* ===== verification/Prelude.thy ===== *)
theory Prelude
  imports Main "HOL-Library.Word" "HOL-Library.Char_ord" "HOL-Library.List_Lexorder"
    "HOL-Library.Option_ord" "HOL-Library.Product_Lexorder"
begin

text \<open>
  What the components share. Machine integers: Rust's unsigned types are words of their width
  (\<open>u8\<close> to \<open>u128\<close>), its signed types are \<open>int\<close> with the bounds written out in every
  operation that can leave them (saturating and checked arithmetic). A \<open>Duration\<close> is its number
  of whole milliseconds. A Rust string is the list of its UTF-8 bytes, one \<open>char\<close> per byte, so
  that the bytewise order of Rust's \<open>str\<close> is the lexicographic order of \<open>List_Lexorder\<close>. A
  \<open>Result\<close> is a sum with the error on the left. A \<open>BTreeMap\<close> is an association list ordered
  by its keys; the interface its clients rely on is the locale \<open>ordered_map\<close>.
\<close>

section \<open>Collections of facts\<close>

named_theorems checked_simps \<open>how checked and saturating arithmetic read as arithmetic on int and nat\<close>
named_theorems result_simps \<open>how errors propagate through sequenced fallible calls\<close>
named_theorems btree_simps \<open>what an ordered map answers after each operation\<close>

section \<open>Machine integers\<close>

type_synonym u8 = "8 word"
type_synonym u16 = "16 word"
type_synonym u32 = "32 word"
type_synonym u64 = "64 word"
type_synonym u128 = "128 word"
type_synonym i64 = int
type_synonym i128 = int
type_synonym usize = nat
type_synonym duration = nat

definition i64_min :: i64 where "i64_min = - (2 ^ 63)"
definition i64_max :: i64 where "i64_max = 2 ^ 63 - 1"
definition i128_min :: i128 where "i128_min = - (2 ^ 127)"
definition i128_max :: i128 where "i128_max = 2 ^ 127 - 1"
definition usize_max :: usize where "usize_max = 2 ^ 64 - 1"

definition in_i64 :: "int \<Rightarrow> bool" where
  "in_i64 x \<longleftrightarrow> i64_min \<le> x \<and> x \<le> i64_max"

definition saturate_i64 :: "int \<Rightarrow> i64" where
  "saturate_i64 x = (if x < i64_min then i64_min else if i64_max < x then i64_max else x)"

definition saturating_add_i64 :: "i64 \<Rightarrow> i64 \<Rightarrow> i64" where
  "saturating_add_i64 a b = saturate_i64 (a + b)"

definition saturating_sub_i64 :: "i64 \<Rightarrow> i64 \<Rightarrow> i64" where
  "saturating_sub_i64 a b = saturate_i64 (a - b)"

definition saturating_mul_i64 :: "i64 \<Rightarrow> i64 \<Rightarrow> i64" where
  "saturating_mul_i64 a b = saturate_i64 (a * b)"

definition checked_mul_i64 :: "i64 \<Rightarrow> i64 \<Rightarrow> i64 option" where
  "checked_mul_i64 a b = (if in_i64 (a * b) then Some (a * b) else None)"

definition checked_sub_i64 :: "i64 \<Rightarrow> i64 \<Rightarrow> i64 option" where
  "checked_sub_i64 a b = (if in_i64 (a - b) then Some (a - b) else None)"

text \<open>\<open>i64::try_from(duration.as_millis()).unwrap_or(i64::MAX)\<close>.\<close>

definition duration_ms :: "duration \<Rightarrow> i64" where
  "duration_ms d = (if int d \<le> i64_max then int d else i64_max)"

definition checked_add_word :: "'a::len word \<Rightarrow> 'a word \<Rightarrow> 'a word option" where
  "checked_add_word a b = (if unat a + unat b < 2 ^ LENGTH('a) then Some (a + b) else None)"

definition checked_mul_word :: "'a::len word \<Rightarrow> 'a word \<Rightarrow> 'a word option" where
  "checked_mul_word a b = (if unat a * unat b < 2 ^ LENGTH('a) then Some (a * b) else None)"

lemmas i64_bounds = i64_min_def i64_max_def

lemma in_i64_saturate [simp]: "in_i64 (saturate_i64 x)"
  by (simp add: saturate_i64_def in_i64_def i64_bounds)

lemma saturate_i64_id [simp]: "in_i64 x \<Longrightarrow> saturate_i64 x = x"
  by (simp add: saturate_i64_def in_i64_def)

lemma saturate_i64_mono: "x \<le> y \<Longrightarrow> saturate_i64 x \<le> saturate_i64 y"
  by (simp add: saturate_i64_def i64_bounds)

lemma in_i64_saturating_add [simp]: "in_i64 (saturating_add_i64 a b)"
  by (simp add: saturating_add_i64_def)

lemma duration_ms_nonneg [simp]: "0 \<le> duration_ms d"
  by (simp add: duration_ms_def i64_bounds)

lemma duration_ms_pos: "0 < d \<Longrightarrow> 0 < duration_ms d"
  by (simp add: duration_ms_def i64_bounds)

lemma saturating_add_ge: "in_i64 a \<Longrightarrow> 0 \<le> b \<Longrightarrow> a \<le> saturating_add_i64 a b"
  by (simp add: saturating_add_i64_def saturate_i64_def in_i64_def)

lemma unat_bound: "unat x < 2 ^ LENGTH('a)" for x :: "'a::len word"
  by (rule unsigned_less)

lemma unat_add_small:
  "unat a + unat b < 2 ^ LENGTH('a) \<Longrightarrow> unat (a + b) = unat a + unat b" for a b :: "'a::len word"
  by (simp add: unat_word_ariths)

lemma unat_of_nat_small:
  "n < 2 ^ LENGTH('a) \<Longrightarrow> unat (of_nat n :: 'a::len word) = n"
  by (simp add: unat_of_nat)

lemma uint_of_nat_small:
  "n < 2 ^ LENGTH('a) \<Longrightarrow> uint (of_nat n :: 'a::len word) = int n"
  by (metis unat_of_nat_small uint_nat)

lemma checked_add_word_Some [checked_simps]:
  "checked_add_word a b = Some c \<longleftrightarrow> unat c = unat a + unat b"
  for a b c :: "'a::len word"
proof
  assume "checked_add_word a b = Some c"
  then show "unat c = unat a + unat b"
    by (auto simp: checked_add_word_def unat_word_ariths split: if_splits)
next
  assume u: "unat c = unat a + unat b"
  then have "unat a + unat b < 2 ^ LENGTH('a)" using unat_bound [of c] by simp
  moreover from this u have "c = a + b"
    by (intro word_unat_eq_iff [THEN iffD2]) (simp add: unat_word_ariths)
  ultimately show "checked_add_word a b = Some c" by (simp add: checked_add_word_def)
qed

lemma checked_add_word_None [checked_simps]:
  "checked_add_word a b = None \<longleftrightarrow> 2 ^ LENGTH('a) \<le> unat a + unat b"
  for a b :: "'a::len word"
  by (simp add: checked_add_word_def)

lemma checked_mul_word_Some [checked_simps]:
  "checked_mul_word a b = Some c \<longleftrightarrow> unat c = unat a * unat b"
  for a b c :: "'a::len word"
proof
  assume "checked_mul_word a b = Some c"
  then show "unat c = unat a * unat b"
    by (auto simp: checked_mul_word_def unat_word_ariths split: if_splits)
next
  assume u: "unat c = unat a * unat b"
  then have "unat a * unat b < 2 ^ LENGTH('a)" using unat_bound [of c] by simp
  moreover from this u have "c = a * b"
    by (intro word_unat_eq_iff [THEN iffD2]) (simp add: unat_word_ariths)
  ultimately show "checked_mul_word a b = Some c" by (simp add: checked_mul_word_def)
qed

lemma checked_mul_word_None [checked_simps]:
  "checked_mul_word a b = None \<longleftrightarrow> 2 ^ LENGTH('a) \<le> unat a * unat b"
  for a b :: "'a::len word"
  by (simp add: checked_mul_word_def)

text \<open>A 64-bit value fits a 128-bit one exactly: \<open>u128::from\<close>.\<close>

definition u128_from :: "u64 \<Rightarrow> u128" where
  "u128_from x = ucast x"

lemma unat_u128_from [simp]: "unat (u128_from x) = unat x"
  using unat_bound [of x] by (simp add: u128_from_def unsigned_ucast_eq take_bit_nat_eq_self)

lemma unat_u128_from_less: "unat (u128_from x) < 2 ^ 64"
  using unat_bound [of x] by simp

lemma u128_from_eq_0 [simp]: "u128_from x = 0 \<longleftrightarrow> x = 0"
  by (metis unat_u128_from unat_eq_zero)

lemma u128_from_inject [simp]: "u128_from x = u128_from y \<longleftrightarrow> x = y"
  by (metis unat_u128_from word_unat_eq_iff)

section \<open>Fallible calls\<close>

type_synonym ('e, 'a) result = "'e + 'a"

fun result_bind :: "('e, 'a) result \<Rightarrow> ('a \<Rightarrow> ('e, 'b) result) \<Rightarrow> ('e, 'b) result" where
  "result_bind (Inl e) f = Inl e"
| "result_bind (Inr x) f = f x"

definition ok_or :: "'e \<Rightarrow> 'a option \<Rightarrow> ('e, 'a) result" where
  "ok_or e x = (case x of None \<Rightarrow> Inl e | Some v \<Rightarrow> Inr v)"

definition result_ok :: "('e, 'a) result \<Rightarrow> 'a option" where
  "result_ok r = (case r of Inl _ \<Rightarrow> None | Inr v \<Rightarrow> Some v)"

definition map_err :: "('e \<Rightarrow> 'f) \<Rightarrow> ('e, 'a) result \<Rightarrow> ('f, 'a) result" where
  "map_err f r = (case r of Inl e \<Rightarrow> Inl (f e) | Inr v \<Rightarrow> Inr v)"

lemma map_sum_bind: "map_sum id f (result_bind r g) = result_bind r (\<lambda>x. map_sum id f (g x))"
  by (cases r) simp_all

lemma result_bind_Inr [result_simps]:
  "result_bind r f = Inr y \<longleftrightarrow> (\<exists>x. r = Inr x \<and> f x = Inr y)"
  by (cases r) auto

lemma result_bind_Inl [result_simps]:
  "result_bind r f = Inl e \<longleftrightarrow> r = Inl e \<or> (\<exists>x. r = Inr x \<and> f x = Inl e)"
  by (cases r) auto

lemma ok_or_simps [simp]: "ok_or e None = Inl e" "ok_or e (Some v) = Inr v"
  by (simp_all add: ok_or_def)

lemma ok_or_Inr [result_simps]: "ok_or e x = Inr v \<longleftrightarrow> x = Some v"
  by (cases x) simp_all

lemma ok_or_Inl [result_simps]: "ok_or e x = Inl e' \<longleftrightarrow> x = None \<and> e' = e"
  by (cases x) auto

lemma map_err_Inr [result_simps]: "map_err f r = Inr v \<longleftrightarrow> r = Inr v"
  by (cases r) (simp_all add: map_err_def)

end
