(* ===== verification/Text.thy ===== *)
theory Text
  imports Prelude
begin

text \<open>
  The operations of Rust's \<open>str\<close>, \<open>String\<close> and integer formatting and parsing that the sources
  use, on strings as lists of UTF-8 bytes: prefixes and suffixes, \<open>split_once\<close>, \<open>trim\<close> followed
  by \<open>is_empty\<close>, decimal \<open>Display\<close> and \<open>usize::from_str\<close>, and \<open>String::from_utf8\<close>.
\<close>

section \<open>Prefixes, suffixes and splitting\<close>

definition starts_with :: "'a list \<Rightarrow> 'a list \<Rightarrow> bool" where
  "starts_with p s \<longleftrightarrow> take (length p) s = p"

definition strip_prefix :: "'a list \<Rightarrow> 'a list \<Rightarrow> 'a list option" where
  "strip_prefix p s = (if starts_with p s then Some (drop (length p) s) else None)"

definition ends_with :: "'a list \<Rightarrow> 'a list \<Rightarrow> bool" where
  "ends_with p s \<longleftrightarrow> length p \<le> length s \<and> drop (length s - length p) s = p"

definition strip_suffix :: "'a list \<Rightarrow> 'a list \<Rightarrow> 'a list option" where
  "strip_suffix p s = (if ends_with p s then Some (take (length s - length p) s) else None)"

fun split_once :: "'a list \<Rightarrow> 'a list \<Rightarrow> ('a list \<times> 'a list) option" where
  "split_once p [] = (if p = [] then Some ([], []) else None)"
| "split_once p (c # cs) =
     (if starts_with p (c # cs) then Some ([], drop (length p) (c # cs))
      else map_option (\<lambda>(a, b). (c # a, b)) (split_once p cs))"

lemma starts_with_append [simp]: "starts_with p (p @ s)"
  by (simp add: starts_with_def)

lemma starts_with_iff: "starts_with p s \<longleftrightarrow> (\<exists>r. s = p @ r)"
  by (metis append_take_drop_id starts_with_append starts_with_def)

lemma strip_prefix_append [simp]: "strip_prefix p (p @ s) = Some s"
  by (simp add: strip_prefix_def)

lemma strip_prefix_Some: "strip_prefix p s = Some r \<longleftrightarrow> s = p @ r"
  by (auto simp: strip_prefix_def starts_with_iff)

lemma ends_with_append [simp]: "ends_with p (s @ p)"
  by (simp add: ends_with_def)

lemma ends_with_iff: "ends_with p s \<longleftrightarrow> (\<exists>r. s = r @ p)"
  by (metis append_take_drop_id ends_with_append ends_with_def)

lemma strip_suffix_append [simp]: "strip_suffix p (s @ p) = Some s"
  by (simp add: strip_suffix_def)

lemma strip_suffix_Some: "strip_suffix p s = Some r \<longleftrightarrow> s = r @ p"
  by (auto simp: strip_suffix_def ends_with_iff)

lemma split_once_Some: "split_once p s = Some (a, b) \<Longrightarrow> s = a @ p @ b"
proof (induction s arbitrary: a)
  case (Cons c cs)
  then show ?case
    by (auto simp: starts_with_iff split: if_splits)
qed (simp split: if_splits)

section \<open>White space\<close>

text \<open>\<open>u8::is_ascii_whitespace\<close>: space, tab, line feed, form feed and carriage return.\<close>

definition is_ascii_whitespace :: "char \<Rightarrow> bool" where
  "is_ascii_whitespace c \<longleftrightarrow> of_char c \<in> ({9, 10, 12, 13, 32} :: nat set)"

text \<open>
  \<open>s.trim().is_empty()\<close>: every character of \<open>s\<close> has Unicode's White_Space property. The
  characters concerned are one, two or three bytes long in UTF-8.
\<close>

definition white_space_1 :: "char \<Rightarrow> bool" where
  "white_space_1 c \<longleftrightarrow> (let b = of_char c :: nat in (9 \<le> b \<and> b \<le> 13) \<or> b = 32)"

definition white_space_2 :: "char \<Rightarrow> char \<Rightarrow> bool" where
  "white_space_2 c d \<longleftrightarrow>
     (let b = of_char c :: nat; b' = of_char d :: nat in b = 194 \<and> (b' = 133 \<or> b' = 160))"

definition white_space_3 :: "char \<Rightarrow> char \<Rightarrow> char \<Rightarrow> bool" where
  "white_space_3 c d e \<longleftrightarrow>
     (let b = of_char c :: nat; b' = of_char d :: nat; b'' = of_char e :: nat in
        (b = 225 \<and> b' = 154 \<and> b'' = 128)
        \<or> (b = 226 \<and> b' = 128 \<and> ((128 \<le> b'' \<and> b'' \<le> 138) \<or> b'' = 168 \<or> b'' = 169 \<or> b'' = 175))
        \<or> (b = 226 \<and> b' = 129 \<and> b'' = 159)
        \<or> (b = 227 \<and> b' = 128 \<and> b'' = 128))"

fun trim_is_empty :: "string \<Rightarrow> bool" where
  "trim_is_empty [] = True"
| "trim_is_empty (c # cs) =
     (if white_space_1 c then trim_is_empty cs
      else case cs of
        [] \<Rightarrow> False
      | d # ds \<Rightarrow>
          if white_space_2 c d then trim_is_empty ds
          else case ds of
            [] \<Rightarrow> False
          | e # es \<Rightarrow> white_space_3 c d e \<and> trim_is_empty es)"

lemma printable_not_blank:
  "33 \<le> (of_char c :: nat) \<Longrightarrow> (of_char c :: nat) < 128 \<Longrightarrow> \<not> trim_is_empty (c # cs)"
  by (auto simp: white_space_1_def white_space_2_def white_space_3_def Let_def split: list.splits)

section \<open>Decimal numbers\<close>

definition digit_char :: "nat \<Rightarrow> char" where
  "digit_char d = char_of (48 + d)"

definition digit_value :: "char \<Rightarrow> nat option" where
  "digit_value c = (let b = of_char c :: nat in if 48 \<le> b \<and> b \<le> 57 then Some (b - 48) else None)"

fun show_nat :: "nat \<Rightarrow> string" where
  "show_nat n = (if n < 10 then [digit_char n] else show_nat (n div 10) @ [digit_char (n mod 10)])"

declare show_nat.simps [simp del]

definition show_word :: "'a::len word \<Rightarrow> string" where
  "show_word w = show_nat (unat w)"

definition show_int :: "int \<Rightarrow> string" where
  "show_int i = (if i < 0 then CHR ''-'' # show_nat (nat (- i)) else show_nat (nat i))"

text \<open>
  \<open>from_str\<close> of an unsigned type reads decimal digits after an optional plus sign and fails on
  anything else, on no digits at all and on a value above the maximum of the type.
\<close>

fun parse_digits :: "nat \<Rightarrow> nat \<Rightarrow> string \<Rightarrow> nat option" where
  "parse_digits maximum acc [] = Some acc"
| "parse_digits maximum acc (c # cs) =
     (case digit_value c of
        None \<Rightarrow> None
      | Some d \<Rightarrow> if 10 * acc + d \<le> maximum then parse_digits maximum (10 * acc + d) cs else None)"

definition parse_unsigned :: "nat \<Rightarrow> string \<Rightarrow> nat option" where
  "parse_unsigned maximum s =
     (case s of
        [] \<Rightarrow> None
      | c # cs \<Rightarrow>
          if c = CHR ''+'' then (if cs = [] then None else parse_digits maximum 0 cs)
          else parse_digits maximum 0 s)"

definition parse_usize :: "string \<Rightarrow> usize option" where
  "parse_usize s = parse_unsigned usize_max s"

lemma digit_value_digit_char: "d < 10 \<Longrightarrow> digit_value (digit_char d) = Some d"
  by (simp add: digit_value_def digit_char_def)

lemma show_nat_nonempty [simp]: "show_nat n \<noteq> []"
  by (subst show_nat.simps) simp

lemma parse_digits_snoc:
  "parse_digits maximum acc (s @ [c]) =
     (case parse_digits maximum acc s of
        None \<Rightarrow> None
      | Some m \<Rightarrow> parse_digits maximum m [c])"
  by (induction s arbitrary: acc) (auto split: option.splits)

lemma parse_digits_show_nat: "n \<le> maximum \<Longrightarrow> parse_digits maximum 0 (show_nat n) = Some n"
proof (induction n rule: show_nat.induct)
  case (1 n)
  show ?case
  proof (cases "n < 10")
    case True
    with "1.prems" show ?thesis
      by (simp add: show_nat.simps [of n] digit_value_digit_char)
  next
    case False
    from "1.prems" have "n div 10 \<le> maximum" by simp
    with "1.IH" False have IH: "parse_digits maximum 0 (show_nat (n div 10)) = Some (n div 10)" by simp
    have "10 * (n div 10) + n mod 10 = n" by simp
    with IH False "1.prems" show ?thesis
      by (simp add: show_nat.simps [of n] parse_digits_snoc digit_value_digit_char)
  qed
qed

lemma show_nat_digits: "c \<in> set (show_nat n) \<Longrightarrow> \<exists>d < 10. c = digit_char d"
proof (induction n rule: show_nat.induct)
  case (1 n)
  then show ?case
    by (cases "n < 10") (auto simp: show_nat.simps [of n] intro: exI [of _ "n mod 10"])
qed

lemma digit_char_code [simp]: "d < 10 \<Longrightarrow> (of_char (digit_char d) :: nat) = 48 + d"
  by (simp add: digit_char_def)

lemma digit_char_neq:
  "d < 10 \<Longrightarrow> (of_char c :: nat) < 48 \<or> 57 < (of_char c :: nat) \<Longrightarrow> digit_char d \<noteq> c"
  using digit_char_code [of d] by auto

lemma show_nat_free:
  "(of_char c :: nat) < 48 \<or> 57 < (of_char c :: nat) \<Longrightarrow> c \<notin> set (show_nat n)"
  using show_nat_digits digit_char_neq by blast

lemma parse_unsigned_show_nat: "n \<le> maximum \<Longrightarrow> parse_unsigned maximum (show_nat n) = Some n"
proof -
  assume "n \<le> maximum"
  moreover have "hd (show_nat n) \<noteq> CHR ''+''"
    using show_nat_free [of "CHR ''+''" n] hd_in_set [of "show_nat n"] by fastforce
  ultimately show ?thesis
    using parse_digits_show_nat [of n maximum]
    by (cases "show_nat n") (auto simp: parse_unsigned_def)
qed

lemma parse_usize_show_nat: "n \<le> usize_max \<Longrightarrow> parse_usize (show_nat n) = Some n"
  by (simp add: parse_usize_def parse_unsigned_show_nat)

section \<open>UTF-8\<close>

text \<open>
  \<open>core::str::from_utf8\<close> accepts exactly the well-formed byte sequences of the Unicode standard:
  no overlong form, no surrogate, nothing above U+10FFFF.
\<close>

definition is_continuation :: "u8 \<Rightarrow> bool" where
  "is_continuation b \<longleftrightarrow> 128 \<le> b \<and> b \<le> 191"

fun valid_utf8 :: "u8 list \<Rightarrow> bool" where
  "valid_utf8 [] = True"
| "valid_utf8 (b # bs) =
     (if b < 128 then valid_utf8 bs
      else case bs of
        [] \<Rightarrow> False
      | c # cs \<Rightarrow>
          if 194 \<le> b \<and> b \<le> 223 then is_continuation c \<and> valid_utf8 cs
          else case cs of
            [] \<Rightarrow> False
          | d # ds \<Rightarrow>
              if 224 \<le> b \<and> b \<le> 239
              then is_continuation c \<and> is_continuation d
                   \<and> (b = 224 \<longrightarrow> 160 \<le> c) \<and> (b = 237 \<longrightarrow> c \<le> 159) \<and> valid_utf8 ds
              else case ds of
                [] \<Rightarrow> False
              | e # es \<Rightarrow>
                  240 \<le> b \<and> b \<le> 244
                  \<and> is_continuation c \<and> is_continuation d \<and> is_continuation e
                  \<and> (b = 240 \<longrightarrow> 144 \<le> c) \<and> (b = 244 \<longrightarrow> c \<le> 143) \<and> valid_utf8 es)"

definition char_of_byte :: "u8 \<Rightarrow> char" where
  "char_of_byte b = char_of (unat b)"

definition byte_of_char :: "char \<Rightarrow> u8" where
  "byte_of_char c = of_nat (of_char c)"

definition from_utf8 :: "u8 list \<Rightarrow> string option" where
  "from_utf8 bs = (if valid_utf8 bs then Some (map char_of_byte bs) else None)"

lemma byte_of_char_of_byte [simp]: "byte_of_char (char_of_byte b) = b"
  using unat_bound [of b] by (simp add: byte_of_char_def char_of_byte_def)

lemma map_byte_of_char_of_byte [simp]: "map byte_of_char (map char_of_byte bs) = bs"
  by (simp add: map_idI)

lemma from_utf8_inject: "from_utf8 bs = Some s \<Longrightarrow> from_utf8 cs = Some s \<Longrightarrow> bs = cs"
  by (metis from_utf8_def map_byte_of_char_of_byte option.distinct(1) option.inject)

lemma valid_utf8_ascii: "list_all (\<lambda>b. b < 128) bs \<Longrightarrow> valid_utf8 bs"
  by (induction bs) auto

end
