(* ===== verification/Ordered_Map.thy ===== *)
theory Ordered_Map
  imports Prelude "HOL-Library.Multiset"
begin

text \<open>
  Rust's \<open>BTreeMap\<close> as its clients see it: \<open>get\<close>, \<open>insert\<close> and iteration in key order. The
  interface is the locale \<open>ordered_map\<close>; what the metrics of a window and the log coverage need of
  it (sums and counts over the entries after an update) is proved once inside the locale. The
  model is an association list with strictly increasing keys. The section on \<open>sort_by\<close> models the
  stable \<open>slice::sort_by\<close>.
\<close>

section \<open>The interface\<close>

locale ordered_map =
  fixes empty :: "'m"
    and insert :: "'k::linorder \<Rightarrow> 'v \<Rightarrow> 'm \<Rightarrow> 'm"
    and lookup :: "'m \<Rightarrow> 'k \<Rightarrow> 'v option"
    and entries :: "'m \<Rightarrow> ('k \<times> 'v) list"
    and invar :: "'m \<Rightarrow> bool"
  assumes entries_empty: "entries empty = []"
    and lookup_entries: "invar m \<Longrightarrow> lookup m k = map_of (entries m) k"
    and lookup_insert: "invar m \<Longrightarrow> lookup (insert k v m) = (lookup m)(k \<mapsto> v)"
    and entries_increasing: "invar m \<Longrightarrow> sorted_wrt (<) (map fst (entries m))"
    and invar_empty: "invar empty"
    and invar_insert: "invar m \<Longrightarrow> invar (insert k v m)"
begin

lemma distinct_keys: "invar m \<Longrightarrow> distinct (map fst (entries m))"
  using entries_increasing strict_sorted_iff by blast

lemma lookup_Some_iff: "invar m \<Longrightarrow> lookup m k = Some v \<longleftrightarrow> (k, v) \<in> set (entries m)"
  by (simp add: lookup_entries distinct_keys)

lemma lookup_empty: "lookup empty k = None"
  by (simp add: lookup_entries [OF invar_empty] entries_empty)

lemma dom_lookup: "invar m \<Longrightarrow> dom (lookup m) = fst ` set (entries m)"
  using dom_map_of_conv_image_fst [of "entries m"] by (auto simp: lookup_entries dom_def)

lemma length_entries: "invar m \<Longrightarrow> length (entries m) = card (dom (lookup m))"
  using distinct_card [OF distinct_keys, of m] by (simp add: dom_lookup)

lemma mset_entries: "invar m \<Longrightarrow> distinct (entries m)"
  using distinct_keys [of m] by (simp add: distinct_map)

lemma length_filter_entries:
  assumes "invar m"
  shows "length (filter (\<lambda>(k, v). P v) (entries m)) = card {k. \<exists>v. lookup m k = Some v \<and> P v}"
proof -
  let ?f = "filter (\<lambda>(k, v). P v) (entries m)"
  have "distinct (map fst ?f)"
    using distinct_keys [OF assms] by (simp add: distinct_map_filter)
  then have "length ?f = card (set (map fst ?f))"
    using distinct_card by fastforce
  also have "set (map fst ?f) = {k. \<exists>v. lookup m k = Some v \<and> P v}"
    using assms by (force simp: lookup_Some_iff)
  finally show ?thesis .
qed

text \<open>A sum over the entries, as a sum over the keys the map holds.\<close>

lemma sum_entries:
  fixes f :: "'k \<Rightarrow> 'v \<Rightarrow> nat"
  assumes "invar m"
  shows "(\<Sum>(k, v)\<leftarrow>entries m. f k v) = (\<Sum>k\<in>dom (lookup m). f k (the (lookup m k)))"
proof -
  have "(\<Sum>(k, v)\<leftarrow>entries m. f k v) = (\<Sum>(k, v)\<in>set (entries m). f k v)"
    by (simp add: sum_list_distinct_conv_sum_set mset_entries assms)
  also have "\<dots> = (\<Sum>p\<in>set (entries m). f (fst p) (the (lookup m (fst p))))"
    using assms by (intro sum.cong) (auto simp: lookup_Some_iff [symmetric])
  also have "\<dots> = (\<Sum>k\<in>fst ` set (entries m). f k (the (lookup m k)))"
    using distinct_keys [OF assms] by (subst sum.reindex) (auto simp: distinct_map)
  finally show ?thesis by (simp add: dom_lookup assms)
qed

lemma finite_dom: "invar m \<Longrightarrow> finite (dom (lookup m))"
  by (simp add: dom_lookup)

text \<open>An update changes the sum by the difference it makes at its key.\<close>

lemma sum_entries_insert:
  fixes f :: "'k \<Rightarrow> 'v \<Rightarrow> nat"
  assumes "invar m"
  shows "(\<Sum>(k, v)\<leftarrow>entries (insert a b m). f k v)
           + (case lookup m a of None \<Rightarrow> 0 | Some old \<Rightarrow> f a old)
         = (\<Sum>(k, v)\<leftarrow>entries m. f k v) + f a b"
proof -
  let ?D = "dom (lookup m) - {a}"
  have "(\<Sum>k\<in>dom (lookup (insert a b m)). f k (the (lookup (insert a b m) k)))
          = f a b + (\<Sum>k\<in>?D. f k (the (lookup m k)))"
    using assms by (simp add: lookup_insert finite_dom sum.insert_remove)
  moreover have "(\<Sum>k\<in>dom (lookup m). f k (the (lookup m k)))
      = (case lookup m a of None \<Rightarrow> 0 | Some old \<Rightarrow> f a old) + (\<Sum>k\<in>?D. f k (the (lookup m k)))"
  proof (cases "lookup m a")
    case None
    then show ?thesis by (auto intro!: sum.cong)
  next
    case (Some old)
    then show ?thesis using assms
      by (subst sum.remove [of _ a]) (auto simp: finite_dom)
  qed
  ultimately show ?thesis
    using assms by (simp add: sum_entries invar_insert)
qed

end

section \<open>Association lists with increasing keys\<close>

type_synonym ('k, 'v) btree = "('k \<times> 'v) list"

definition btree_get :: "('k::linorder, 'v) btree \<Rightarrow> 'k \<Rightarrow> 'v option" where
  "btree_get m k = map_of m k"

fun btree_insert :: "'k::linorder \<Rightarrow> 'v \<Rightarrow> ('k, 'v) btree \<Rightarrow> ('k, 'v) btree" where
  "btree_insert k v [] = [(k, v)]"
| "btree_insert k v ((a, b) # m) =
     (if k < a then (k, v) # (a, b) # m
      else if k = a then (k, v) # m
      else (a, b) # btree_insert k v m)"

definition btree_ordered :: "('k::linorder, 'v) btree \<Rightarrow> bool" where
  "btree_ordered m \<longleftrightarrow> sorted_wrt (<) (map fst m)"

text \<open>\<open>entry(k).or_default()\<close>: the value at a key, the default where there is none.\<close>

definition btree_get_or :: "'v \<Rightarrow> ('k::linorder, 'v) btree \<Rightarrow> 'k \<Rightarrow> 'v" where
  "btree_get_or d m k = (case btree_get m k of None \<Rightarrow> d | Some v \<Rightarrow> v)"

lemma keys_btree_insert [simp]:
  "fst ` set (btree_insert k v m) = insert k (fst ` set m)"
  by (induction k v m rule: btree_insert.induct) auto

lemma map_of_btree_insert: "map_of (btree_insert k v m) = (map_of m)(k \<mapsto> v)"
  by (induction k v m rule: btree_insert.induct) (auto simp: fun_eq_iff)

lemma btree_ordered_insert:
  "sorted_wrt (<) (map fst m) \<Longrightarrow> sorted_wrt (<) (map fst (btree_insert k v m))"
proof (induction k v m rule: btree_insert.induct)
  case (2 k v a b m)
  then show ?case
    using keys_btree_insert [of k v m] by (auto simp: not_less le_less)
qed simp

interpretation btree: ordered_map "[]" btree_insert btree_get "\<lambda>m. m" btree_ordered
  by unfold_locales
     (auto simp: btree_get_def btree_ordered_def map_of_btree_insert fun_eq_iff btree_ordered_insert)

lemma btree_get_insert [btree_simps]:
  "btree_get (btree_insert k v m) = (btree_get m)(k \<mapsto> v)"
  by (auto simp: btree_get_def map_of_btree_insert fun_eq_iff)

lemma btree_get_empty [btree_simps]: "btree_get [] k = None"
  by (simp add: btree_get_def)

lemma btree_ordered_Nil [simp]: "btree_ordered []"
  by (rule btree.invar_empty)

lemma btree_ordered_btree_insert [simp]: "btree_ordered m \<Longrightarrow> btree_ordered (btree_insert k v m)"
  by (rule btree.invar_insert)

section \<open>Stable sorting\<close>

datatype ordering = Less | Equal | Greater

definition cmp :: "'a::linorder \<Rightarrow> 'a \<Rightarrow> ordering" where
  "cmp x y = (if x < y then Less else if x = y then Equal else Greater)"

definition then_with :: "ordering \<Rightarrow> ordering \<Rightarrow> ordering" where
  "then_with o1 o2 = (if o1 = Equal then o2 else o1)"

fun insert_by :: "('a \<Rightarrow> 'a \<Rightarrow> ordering) \<Rightarrow> 'a \<Rightarrow> 'a list \<Rightarrow> 'a list" where
  "insert_by c x [] = [x]"
| "insert_by c x (y # ys) = (if c x y = Greater then y # insert_by c x ys else x # y # ys)"

definition sort_by :: "('a \<Rightarrow> 'a \<Rightarrow> ordering) \<Rightarrow> 'a list \<Rightarrow> 'a list" where
  "sort_by c xs = foldr (insert_by c) xs []"

lemma cmp_simps [simp]:
  "cmp x y = Less \<longleftrightarrow> x < y" "cmp x y = Equal \<longleftrightarrow> x = y" "cmp x y = Greater \<longleftrightarrow> y < x"
  by (auto simp: cmp_def)

lemma then_with_cmp:
  "then_with (cmp a b) (cmp c d) = cmp (a, c) (b, d)"
  by (auto simp: then_with_def cmp_def)

lemma insert_by_key:
  "(\<And>x y. c x y = cmp (k x) (k y)) \<Longrightarrow> insert_by c x ys = insort_key k x ys"
  by (induction ys) auto

text \<open>A comparator that compares keys sorts as the library's stable \<open>sort_key\<close> does.\<close>

lemma sort_by_key:
  assumes "\<And>x y. c x y = cmp (k x) (k y)"
  shows "sort_by c xs = sort_key k xs"
proof -
  have "insert_by c = insort_key k"
    by (intro ext insert_by_key assms)
  then show ?thesis by (simp add: sort_by_def sort_key_def)
qed

text \<open>With distinct keys the sorted list depends on the elements only, not on their order.\<close>

lemma sort_key_unique:
  assumes "mset xs = mset ys" and "inj_on k (set xs)"
  shows "sort_key k xs = sort_key k ys"
proof -
  have "set xs = set ys" using assms(1) by (metis set_mset_mset)
  then have "inj_on k (set (sort_key k xs) \<union> set (sort_key k ys))"
    using assms(2) by simp
  moreover have "map k (sort_key k xs) = map k (sort_key k ys)"
  proof -
    have "sort (map k xs) = map k (sort_key k xs)" for xs
      by (rule properties_for_sort) simp_all
    moreover have "sort (map k xs) = sort (map k ys)"
      by (rule properties_for_sort) (simp_all add: assms(1))
    ultimately show ?thesis by simp
  qed
  ultimately show ?thesis by (metis inj_on_map_eq_map)
qed

end
