(* ===== verification/Domain.thy ===== *)
theory Domain
  imports Text Ordered_Map
begin

text \<open>
  The provider-neutral facts of \<open>crates/domain\<close>: networks, venues, market identity, chain
  coordinates, observation keys, normalized observations, rule results and scores; the
  deterministic verdicts of \<open>crates/risk-engine\<close>; and the venue facts of \<open>crates/source-raydium\<close>.
  Two functions of the program fold rule results into one decision, \<open>RiskAssessment::from_rules\<close>
  here and \<open>aggregate\<close> of the qualification component; what both promise is the locale
  \<open>verdict\<close>.
\<close>

section \<open>Markets\<close>

datatype network = SolanaMainnet | SolanaDevnet

datatype venue =
    VenuePumpBondingCurve
  | VenuePumpSwap
  | VenueRaydiumCpmm
  | VenueRaydiumClmm
  | VenueRaydiumAmmV4

record market_identity =
  market_network :: network
  mint :: string
  venue :: venue
  market_address :: string
  quote_mint :: "string option"

definition is_raydium :: "market_identity \<Rightarrow> bool" where
  "is_raydium m \<longleftrightarrow>
     (case venue m of
        VenueRaydiumCpmm \<Rightarrow> True
      | VenueRaydiumClmm \<Rightarrow> True
      | VenueRaydiumAmmV4 \<Rightarrow> True
      | _ \<Rightarrow> False)"

section \<open>Observations\<close>

datatype commitment = Processed | Confirmed | Finalized

datatype source_program =
    SourcePump
  | SourcePumpSwap
  | SourceRaydiumCpmm
  | SourceRaydiumClmm
  | SourceRaydiumAmmV4

datatype trade_side = Buy | Sell

record chain_coordinate =
  slot :: u64
  transaction_index :: "u64 option"
  signature :: string
  instruction_index :: u16
  event_index :: u16

record observation_key =
  key_network :: network
  key_program :: source_program
  key_coordinate :: chain_coordinate

datatype observation_payload =
    TokenCreated (payload_name: string) (payload_symbol: string) (payload_uri: string)
      (payload_creator: string) (payload_user: string)
  | MarketCreated (payload_creator: string) (base_amount_units: u64) (quote_amount_units: u64)
  | Trade (trade_payload_side: trade_side) (wallet: string) (base_amount_units: u64)
      (quote_amount_units: u64) (base_reserve_units: "u64 option")
      (quote_reserve_units: "u64 option")
  | LiquidityDeposited (provider: string) (base_amount_units: u64) (quote_amount_units: u64)
      (liquidity_base_reserve_units: u64) (liquidity_quote_reserve_units: u64)
      (lp_token_amount_units: u64) (lp_token_supply_units: u64)
  | LiquidityWithdrawn (provider: string) (base_amount_units: u64) (quote_amount_units: u64)
      (liquidity_base_reserve_units: u64) (liquidity_quote_reserve_units: u64)
      (lp_token_amount_units: u64) (lp_token_supply_units: u64)
  | MarketCompleted (payload_user: string)
  | MarketMigrated (payload_user: string) (destination_market: string) (base_amount_units: u64)
      (legacy_sol_amount_units: u64)

text \<open>
  The field \<open>source_details\<close> is a \<open>serde_json::Value\<close>, a type of a third-party crate: its type is
  the parameter \<open>'json\<close>.
\<close>

record 'json normalized_observation =
  obs_key :: observation_key
  obs_commitment :: commitment
  schema_version :: u16
  decoder_version :: string
  event_kind :: string
  obs_market :: market_identity
  source_event_time_unix_ms :: "i64 option"
  received_time_unix_ms :: i64
  raw_evidence_hash :: string
  source_evidence_base64 :: string
  source_details :: 'json
  payload :: observation_payload

section \<open>Verdicts\<close>

datatype assessment_decision = Pass | Reject | Unknown

lemma decision_pass_iff: "d = Pass \<longleftrightarrow> d \<noteq> Reject \<and> d \<noteq> Unknown"
  by (cases d) simp_all

record rule_result =
  rule_id :: string
  rule_version :: string
  rule_decision :: assessment_decision
  reason_code :: string
  evidence_reference :: "string option"
  observed_slot :: "u64 option"

definition rule_result_unknown :: "string \<Rightarrow> string \<Rightarrow> string \<Rightarrow> rule_result" where
  "rule_result_unknown rid version reason =
     \<lparr>rule_id = rid, rule_version = version, rule_decision = Unknown, reason_code = reason,
      evidence_reference = None, observed_slot = None\<rparr>"

text \<open>
  What a fold of rule results into one decision promises: a rejection dominates, then missing
  evidence, and a pass needs at least one rule and every rule to pass. The two implementations
  differ on an empty list of rules only, which the interface leaves open.
\<close>

locale verdict =
  fixes decide :: "rule_result list \<Rightarrow> assessment_decision"
  assumes decide_reject: "(\<exists>r\<in>set rs. rule_decision r = Reject) \<longleftrightarrow> decide rs = Reject"
    and decide_pass: "rs \<noteq> [] \<Longrightarrow> decide rs = Pass \<longleftrightarrow> (\<forall>r\<in>set rs. rule_decision r = Pass)"
begin

lemma decide_unknown:
  "rs \<noteq> [] \<Longrightarrow>
     decide rs = Unknown \<longleftrightarrow>
       (\<forall>r\<in>set rs. rule_decision r \<noteq> Reject) \<and> (\<exists>r\<in>set rs. rule_decision r = Unknown)"
  using decide_reject [of rs] decide_pass [of rs]
  by (metis assessment_decision.exhaust assessment_decision.distinct(1,3,5))

text \<open>The decision depends on the set of verdicts only, not on their order or number.\<close>

lemma decide_cong:
  assumes "rule_decision ` set rs = rule_decision ` set qs" and "rs \<noteq> []" and "qs \<noteq> []"
  shows "decide rs = decide qs"
proof -
  have image: "(\<exists>r\<in>set xs. rule_decision r = d) \<longleftrightarrow> d \<in> rule_decision ` set xs"
      "(\<forall>r\<in>set xs. rule_decision r = d) \<longleftrightarrow> rule_decision ` set xs \<subseteq> {d}" for xs d
    by auto
  have "decide rs = Reject \<longleftrightarrow> decide qs = Reject"
    unfolding decide_reject [symmetric] image assms(1) ..
  moreover have "decide rs = Pass \<longleftrightarrow> decide qs = Pass"
    unfolding decide_pass [OF assms(2)] decide_pass [OF assms(3)] image assms(1) ..
  ultimately show ?thesis
    by (cases "decide rs"; cases "decide qs") simp_all
qed

text \<open>More evidence never turns a rejection or an open question into a pass.\<close>

lemma decide_append:
  "rs \<noteq> [] \<Longrightarrow> decide (rs @ qs) = Pass \<Longrightarrow> decide rs = Pass"
  using decide_pass [of rs] decide_pass [of "rs @ qs"] by simp

end

section \<open>Scores\<close>

datatype score = Score u8

datatype score_out_of_range = ScoreOutOfRange u8

definition score_new :: "u8 \<Rightarrow> (score_out_of_range, score) result" where
  "score_new v = (if v \<le> 100 then Inr (Score v) else Inl (ScoreOutOfRange v))"

fun score_value :: "score \<Rightarrow> u8" where
  "score_value (Score v) = v"

text \<open>
  Serialization writes the byte; deserialization reads a byte (the format's own reader is a
  parameter: it may fail) and then goes through the same check as the constructor.
\<close>

datatype 'e score_deserialize_error = FormatError 'e | RangeError score_out_of_range

definition score_serialize :: "score \<Rightarrow> u8" where
  "score_serialize s = score_value s"

definition score_deserialize :: "('e, u8) result \<Rightarrow> ('e score_deserialize_error, score) result" where
  "score_deserialize read_u8 =
     result_bind (map_err FormatError read_u8) (\<lambda>v. map_err RangeError (score_new v))"

section \<open>Risk assessment\<close>

datatype evidence_availability = Available | Missing | Stale | Invalid

record risk_assessment =
  risk_decision :: assessment_decision
  risk_score :: "score option"
  opportunity_score :: "score option"
  risk_rules :: "rule_result list"

definition from_rules ::
    "rule_result list \<Rightarrow> score option \<Rightarrow> score option \<Rightarrow> risk_assessment" where
  "from_rules rules risk opportunity =
     \<lparr>risk_decision =
        (if list_ex (\<lambda>r. rule_decision r = Reject) rules then Reject
         else if list_ex (\<lambda>r. rule_decision r = Unknown) rules \<or> rules = [] then Unknown
         else Pass),
      risk_score = risk, opportunity_score = opportunity, risk_rules = rules\<rparr>"

definition required_evidence_rule :: "string \<Rightarrow> evidence_availability \<Rightarrow> rule_result" where
  "required_evidence_rule rid availability =
     (let (decision, reason) =
        (case availability of
           Available \<Rightarrow> (Pass, ''EVIDENCE_AVAILABLE'')
         | Missing \<Rightarrow> (Unknown, ''EVIDENCE_MISSING'')
         | Stale \<Rightarrow> (Unknown, ''EVIDENCE_STALE'')
         | Invalid \<Rightarrow> (Reject, ''EVIDENCE_INVALID''))
      in \<lparr>rule_id = rid, rule_version = ''1'', rule_decision = decision, reason_code = reason,
          evidence_reference = None, observed_slot = None\<rparr>)"

interpretation risk: verdict "\<lambda>rs. risk_decision (from_rules rs risk_score' opportunity')"
  for risk_score' opportunity'
proof
  show "(\<exists>r\<in>set rs. rule_decision r = Reject)
          \<longleftrightarrow> risk_decision (from_rules rs risk_score' opportunity') = Reject" for rs
    by (auto simp: from_rules_def list_ex_iff)
  show "risk_decision (from_rules rs risk_score' opportunity') = Pass
          \<longleftrightarrow> (\<forall>r\<in>set rs. rule_decision r = Pass)" if "rs \<noteq> []" for rs
    using that by (auto simp: from_rules_def list_ex_iff decision_pass_iff)
qed

lemma from_rules_empty: "risk_decision (from_rules [] a b) = Unknown"
  by (simp add: from_rules_def)

lemma required_evidence_rule_decision:
  "rule_decision (required_evidence_rule rid a) =
     (case a of Available \<Rightarrow> Pass | Missing \<Rightarrow> Unknown | Stale \<Rightarrow> Unknown | Invalid \<Rightarrow> Reject)"
  by (cases a) (simp_all add: required_evidence_rule_def)

lemma score_new_Inr: "score_new v = Inr s \<longleftrightarrow> v \<le> 100 \<and> s = Score v"
  by (auto simp: score_new_def)

lemma score_deserialize_serialize:
  "score_new v = Inr s \<Longrightarrow> score_deserialize (Inr (score_serialize s)) = Inr s"
  by (auto simp: score_deserialize_def score_serialize_def map_err_def score_new_def split: if_splits)

text \<open>
  The risk verdict is conservative. A token passes only on a nonempty list of rules that all
  pass, one rejection rejects it whatever the other rules say, and further evidence never turns a
  rejection or an open question into a pass.
\<close>

theorem risk_verdict_conservative:
  "(risk_decision (from_rules rs a b) = Pass \<longleftrightarrow> rs \<noteq> [] \<and> list_all (\<lambda>r. rule_decision r = Pass) rs)
   \<and> (risk_decision (from_rules rs a b) = Reject \<longleftrightarrow> list_ex (\<lambda>r. rule_decision r = Reject) rs)
   \<and> (risk_decision (from_rules (rs @ qs) a b) = Pass \<and> rs \<noteq> []
        \<longrightarrow> risk_decision (from_rules rs a b) = Pass)
   \<and> (risk_decision (from_rules rs a b) = Reject
        \<longrightarrow> risk_decision (from_rules (rs @ qs) a b) = Reject)"
  using risk.decide_reject [of rs a b] risk.decide_pass [of rs a b] risk.decide_append [of rs qs a b]
    risk.decide_reject [of "rs @ qs" a b] from_rules_empty [of a b]
  by (cases rs) (auto simp: list_all_iff list_ex_iff)

theorem risk_verdict_conservative_witness:
  "risk_decision (from_rules [required_evidence_rule ''mint'' Invalid] None None) = Reject
   \<and> risk_decision (from_rules ([required_evidence_rule ''mint'' Invalid]
        @ [required_evidence_rule ''pool'' Available]) None None) = Reject"
  using risk_verdict_conservative [of "[required_evidence_rule ''mint'' Invalid]" None None
      "[required_evidence_rule ''pool'' Available]"]
  by (simp add: required_evidence_rule_decision)

section \<open>Raydium venues\<close>

datatype raydium_program = RaydiumCpmm | RaydiumClmm | RaydiumAmmV4

definition RAYDIUM_AMM_V4_PROGRAM_ID :: string where
  "RAYDIUM_AMM_V4_PROGRAM_ID = ''675kPX9MHTjS2zt1qfr1NYHuzeLXfQM9H24wFSUt1Mp8''"

definition RAYDIUM_CPMM_PROGRAM_ID :: string where
  "RAYDIUM_CPMM_PROGRAM_ID = ''CPMMoo8L3F4NbTegBCKVNunggL7H1ZpdTHKxQB5qKP1C''"

definition RAYDIUM_CLMM_PROGRAM_ID :: string where
  "RAYDIUM_CLMM_PROGRAM_ID = ''CAMMCzo5YL8w4VFF8KVHrK22GGUsp5VTaW7grrKgrWqK''"

fun raydium_program_id :: "raydium_program \<Rightarrow> string" where
  "raydium_program_id RaydiumCpmm = RAYDIUM_CPMM_PROGRAM_ID"
| "raydium_program_id RaydiumClmm = RAYDIUM_CLMM_PROGRAM_ID"
| "raydium_program_id RaydiumAmmV4 = RAYDIUM_AMM_V4_PROGRAM_ID"

fun raydium_venue :: "raydium_program \<Rightarrow> venue" where
  "raydium_venue RaydiumCpmm = VenueRaydiumCpmm"
| "raydium_venue RaydiumClmm = VenueRaydiumClmm"
| "raydium_venue RaydiumAmmV4 = VenueRaydiumAmmV4"

fun raydium_source_program :: "raydium_program \<Rightarrow> source_program" where
  "raydium_source_program RaydiumCpmm = SourceRaydiumCpmm"
| "raydium_source_program RaydiumClmm = SourceRaydiumClmm"
| "raydium_source_program RaydiumAmmV4 = SourceRaydiumAmmV4"

definition raydium_supported_program :: "string \<Rightarrow> raydium_program option" where
  "raydium_supported_program pid =
     (if pid = RAYDIUM_CPMM_PROGRAM_ID then Some RaydiumCpmm
      else if pid = RAYDIUM_CLMM_PROGRAM_ID then Some RaydiumClmm
      else if pid = RAYDIUM_AMM_V4_PROGRAM_ID then Some RaydiumAmmV4
      else None)"

record raydium_pool_evidence =
  pool_program :: raydium_program
  pool_market :: market_identity
  pool_observed_slot :: u64
  liquidity_quote_units :: "u128 option"
  recent_volume_quote_units :: "u128 option"

datatype raydium_enrichment =
    NotChecked
  | NoSupportedPool
  | Pools "raydium_pool_evidence list"
  | Unavailable string

fun is_rejection :: "raydium_enrichment \<Rightarrow> bool" where
  "is_rejection _ = False"

lemmas raydium_program_ids =
  RAYDIUM_AMM_V4_PROGRAM_ID_def RAYDIUM_CPMM_PROGRAM_ID_def RAYDIUM_CLMM_PROGRAM_ID_def

lemma raydium_supported_program_Some:
  "raydium_supported_program pid = Some p \<longleftrightarrow> pid = raydium_program_id p"
  by (cases p) (auto simp: raydium_supported_program_def raydium_program_ids)

lemma is_raydium_venue: "is_raydium m \<longleftrightarrow> (\<exists>p. venue m = raydium_venue p)"
proof
  assume "is_raydium m"
  then show "\<exists>p. venue m = raydium_venue p"
    unfolding is_raydium_def
    by (cases "venue m") (auto intro: exI [of _ RaydiumCpmm] exI [of _ RaydiumClmm] exI [of _ RaydiumAmmV4])
next
  assume "\<exists>p. venue m = raydium_venue p"
  then obtain p where "venue m = raydium_venue p" ..
  then show "is_raydium m" by (cases p) (simp_all add: is_raydium_def)
qed

end
