(* ===== verification/Windows.thy ===== *)
theory Windows
  imports Domain
begin

text \<open>
  The registry of receipt-time observation windows, from \<open>crates/discovery-engine/src/lib.rs\<close>.

  A token of the program is a handle: a generation, the immutable window, and a bundle of \<open>Arc\<close>s
  to atomics. The bundle is allocated once and cloned as a whole, so its identity is one address of
  the store \<open>cells\<close>, and a handle is a generation, a window and such an address. Every operation
  of the registry runs under the registry's mutex and is one function on the record \<open>registry\<close>;
  the operations of a token are one compare-and-exchange each (\<open>cancel_with_reason\<close> two, of
  which the first only records a reason) and are functions on the token's cell. A retry loop around
  a compare-and-exchange ends at the first attempt when no other thread intervenes.

  The hash map of active windows is an association list whose order carries no meaning.
\<close>

section \<open>Targets and windows\<close>

datatype observation_target = PumpMint string | PumpSwapPool string

text \<open>The derived \<open>Ord\<close>: constructors in their order, then the string.\<close>

fun target_rank :: "observation_target \<Rightarrow> nat \<times> string" where
  "target_rank (PumpMint m) = (0, m)"
| "target_rank (PumpSwapPool p) = (1, p)"

lemma target_rank_inject [simp]: "target_rank a = target_rank b \<longleftrightarrow> a = b"
  by (cases a; cases b) simp_all

instantiation observation_target :: linorder
begin

definition less_eq_observation_target :: "observation_target \<Rightarrow> observation_target \<Rightarrow> bool" where
  "less_eq_observation_target a b \<longleftrightarrow> target_rank a \<le> target_rank b"

definition less_observation_target :: "observation_target \<Rightarrow> observation_target \<Rightarrow> bool" where
  "less_observation_target a b \<longleftrightarrow> target_rank a < target_rank b"

instance
  by standard
     (simp_all only: less_eq_observation_target_def less_observation_target_def less_le_not_le,
      auto dest: order.trans antisym simp: linear)

end

definition target_for_market :: "market_identity \<Rightarrow> observation_target option" where
  "target_for_market market =
     (case venue market of
        VenuePumpBondingCurve \<Rightarrow> Some (PumpMint (mint market))
      | VenuePumpSwap \<Rightarrow> Some (PumpSwapPool (market_address market))
      | VenueRaydiumCpmm \<Rightarrow> None
      | VenueRaydiumClmm \<Rightarrow> None
      | VenueRaydiumAmmV4 \<Rightarrow> None)"

fun target_source_program :: "observation_target \<Rightarrow> source_program" where
  "target_source_program (PumpMint _) = SourcePump"
| "target_source_program (PumpSwapPool _) = SourcePumpSwap"

record observation_window =
  win_target :: observation_target
  win_mint :: string
  opened_at_unix_ms :: i64
  closes_at_unix_ms :: i64

section \<open>States and reasons\<close>

text \<open>
  The state byte holds one of four named constants and is written by this module only, so the
  model reads it as an enumeration; the arms the code calls \<open>unreachable!\<close> have no counterpart.
\<close>

datatype window_state =
    WINDOW_PENDING
  | WINDOW_CONFIRMED
  | WINDOW_CANCELLED_PENDING
  | WINDOW_CANCELLED_CONFIRMED

definition WINDOW_COMPLETE :: u8 where
  "WINDOW_COMPLETE = 0"

datatype window_incomplete_reason =
    CapacityEvicted
  | QueueOverflow
  | SourceDisconnected
  | StreamStopped
  | PipelineRestarted
  | DecodeGap
  | ProcessingFailed
  | CpiInstructionDataUnavailable

fun reason_to_code :: "window_incomplete_reason \<Rightarrow> u8" where
  "reason_to_code CapacityEvicted = 1"
| "reason_to_code QueueOverflow = 2"
| "reason_to_code SourceDisconnected = 3"
| "reason_to_code StreamStopped = 4"
| "reason_to_code PipelineRestarted = 5"
| "reason_to_code DecodeGap = 6"
| "reason_to_code ProcessingFailed = 7"
| "reason_to_code CpiInstructionDataUnavailable = 8"

definition reason_from_code :: "u8 \<Rightarrow> window_incomplete_reason option" where
  "reason_from_code code =
     (if code = 1 then Some CapacityEvicted
      else if code = 2 then Some QueueOverflow
      else if code = 3 then Some SourceDisconnected
      else if code = 4 then Some StreamStopped
      else if code = 5 then Some PipelineRestarted
      else if code = 6 then Some DecodeGap
      else if code = 7 then Some ProcessingFailed
      else if code = 8 then Some CpiInstructionDataUnavailable
      else None)"

fun reason_as_str :: "window_incomplete_reason \<Rightarrow> string" where
  "reason_as_str CapacityEvicted = ''CAPACITY_EVICTED''"
| "reason_as_str QueueOverflow = ''QUEUE_OVERFLOW''"
| "reason_as_str SourceDisconnected = ''SOURCE_DISCONNECTED''"
| "reason_as_str StreamStopped = ''STREAM_STOPPED''"
| "reason_as_str PipelineRestarted = ''PIPELINE_RESTARTED''"
| "reason_as_str DecodeGap = ''DECODE_GAP''"
| "reason_as_str ProcessingFailed = ''PROCESSING_FAILED''"
| "reason_as_str CpiInstructionDataUnavailable = ''CPI_INSTRUCTION_DATA_UNAVAILABLE''"

datatype observation_window_status = WindowPending | WindowConfirmed | WindowCancelled

section \<open>The cell of a token\<close>

record token_cell =
  cell_state :: window_state
  cell_durable_window_id :: "i64 option"
  cell_admitted :: u64
  cell_settled :: u64
  cell_incomplete_reason :: u8
  cell_finalization_claimed :: bool
  cell_finalized :: bool

definition fresh_cell :: token_cell where
  "fresh_cell =
     \<lparr>cell_state = WINDOW_PENDING, cell_durable_window_id = None, cell_admitted = 0,
      cell_settled = 0, cell_incomplete_reason = WINDOW_COMPLETE,
      cell_finalization_claimed = False, cell_finalized = False\<rparr>"

fun token_status :: "token_cell \<Rightarrow> observation_window_status" where
  "token_status c =
     (case cell_state c of
        WINDOW_PENDING \<Rightarrow> WindowPending
      | WINDOW_CONFIRMED \<Rightarrow> WindowConfirmed
      | WINDOW_CANCELLED_PENDING \<Rightarrow> WindowCancelled
      | WINDOW_CANCELLED_CONFIRMED \<Rightarrow> WindowCancelled)"

definition is_open_at :: "observation_window \<Rightarrow> token_cell \<Rightarrow> i64 \<Rightarrow> bool" where
  "is_open_at w c observed_at \<longleftrightarrow>
     (cell_state c = WINDOW_PENDING \<or> cell_state c = WINDOW_CONFIRMED)
     \<and> opened_at_unix_ms w \<le> observed_at \<and> observed_at < closes_at_unix_ms w"

definition is_confirmed_at :: "observation_window \<Rightarrow> token_cell \<Rightarrow> i64 \<Rightarrow> bool" where
  "is_confirmed_at w c observed_at \<longleftrightarrow>
     cell_state c = WINDOW_CONFIRMED
     \<and> opened_at_unix_ms w \<le> observed_at \<and> observed_at < closes_at_unix_ms w"

definition confirm :: "token_cell \<Rightarrow> bool \<times> token_cell" where
  "confirm c =
     (case cell_state c of
        WINDOW_PENDING \<Rightarrow> (True, c\<lparr>cell_state := WINDOW_CONFIRMED\<rparr>)
      | WINDOW_CONFIRMED \<Rightarrow> (True, c)
      | _ \<Rightarrow> (False, c))"

definition cancel_if_pending :: "token_cell \<Rightarrow> token_cell" where
  "cancel_if_pending c =
     (if cell_state c = WINDOW_PENDING then c\<lparr>cell_state := WINDOW_CANCELLED_PENDING\<rparr> else c)"

definition mark_incomplete :: "window_incomplete_reason \<Rightarrow> token_cell \<Rightarrow> bool \<times> token_cell" where
  "mark_incomplete reason c =
     (if cell_incomplete_reason c = WINDOW_COMPLETE
      then (True, c\<lparr>cell_incomplete_reason := reason_to_code reason\<rparr>)
      else (False, c))"

definition incomplete_reason :: "token_cell \<Rightarrow> window_incomplete_reason option" where
  "incomplete_reason c = reason_from_code (cell_incomplete_reason c)"

definition cancel_with_reason :: "window_incomplete_reason \<Rightarrow> token_cell \<Rightarrow> token_cell" where
  "cancel_with_reason reason c =
     (case cell_state c of
        WINDOW_PENDING \<Rightarrow> c\<lparr>cell_state := WINDOW_CANCELLED_PENDING\<rparr>
      | WINDOW_CONFIRMED \<Rightarrow>
          (snd (mark_incomplete reason c))\<lparr>cell_state := WINDOW_CANCELLED_CONFIRMED\<rparr>
      | WINDOW_CANCELLED_PENDING \<Rightarrow> c
      | WINDOW_CANCELLED_CONFIRMED \<Rightarrow> c)"

definition was_confirmed :: "token_cell \<Rightarrow> bool" where
  "was_confirmed c \<longleftrightarrow>
     cell_state c = WINDOW_CONFIRMED \<or> cell_state c = WINDOW_CANCELLED_CONFIRMED"

definition set_durable_window_id :: "i64 \<Rightarrow> token_cell \<Rightarrow> bool \<times> token_cell" where
  "set_durable_window_id wid c =
     (if wid \<le> 0 \<or> \<not> was_confirmed c then (False, c)
      else case cell_durable_window_id c of
             Some existing \<Rightarrow> (existing = wid, c)
           | None \<Rightarrow> (True, c\<lparr>cell_durable_window_id := Some wid\<rparr>))"

definition mark_admitted :: "token_cell \<Rightarrow> bool \<times> token_cell" where
  "mark_admitted c =
     (if cell_finalized c then (False, c)
      else case checked_add_word (cell_admitted c) 1 of
             None \<Rightarrow> (False, c)
           | Some n \<Rightarrow> (True, c\<lparr>cell_admitted := n\<rparr>))"

definition mark_settled :: "token_cell \<Rightarrow> bool \<times> token_cell" where
  "mark_settled c =
     (if cell_admitted c \<le> cell_settled c then (False, c)
      else (True, c\<lparr>cell_settled := cell_settled c + 1\<rparr>))"

definition is_settled :: "token_cell \<Rightarrow> bool" where
  "is_settled c \<longleftrightarrow> cell_admitted c = cell_settled c"

definition try_claim_finalization :: "token_cell \<Rightarrow> bool \<times> token_cell" where
  "try_claim_finalization c =
     (if cell_finalization_claimed c then (False, c)
      else (True, c\<lparr>cell_finalization_claimed := True\<rparr>))"

definition release_finalization :: "token_cell \<Rightarrow> token_cell" where
  "release_finalization c = c\<lparr>cell_finalization_claimed := False\<rparr>"

definition mark_finalized :: "token_cell \<Rightarrow> bool \<times> token_cell" where
  "mark_finalized c =
     (if cell_finalized c then (False, c) else (True, c\<lparr>cell_finalized := True\<rparr>))"

section \<open>Tokens and the registry\<close>

record token =
  tok_generation :: u64
  tok_window :: observation_window
  tok_cell :: nat

text \<open>\<open>PartialEq\<close> compares generation and window, not the identity of the cell.\<close>

definition token_eq :: "token \<Rightarrow> token \<Rightarrow> bool" where
  "token_eq a b \<longleftrightarrow> tok_generation a = tok_generation b \<and> tok_window a = tok_window b"

abbreviation tok_target :: "token \<Rightarrow> observation_target" where
  "tok_target t \<equiv> win_target (tok_window t)"

record source_coverage_gap =
  gap_observed_at :: i64
  gap_reason :: window_incomplete_reason

record registry =
  cells :: "nat \<Rightarrow> token_cell"
  next_cell :: nat
  next_generation :: u64
  windows :: "(observation_target \<times> token) list"
  retained :: "token list"
  latest_source_coverage_gap :: "source_program \<Rightarrow> source_coverage_gap option"
  latest_source_progress :: "source_program \<Rightarrow> i64 option"
  maximum_active :: usize

record finalization_claim =
  claim_token :: token
  claim_incomplete_reason :: "window_incomplete_reason option"

record window_provision =
  prov_token :: token
  newly_opened :: bool

definition cell_of :: "registry \<Rightarrow> token \<Rightarrow> token_cell" where
  "cell_of r t = cells r (tok_cell t)"

definition update_cell :: "(token_cell \<Rightarrow> token_cell) \<Rightarrow> token \<Rightarrow> registry \<Rightarrow> registry" where
  "update_cell f t r = r\<lparr>cells := (cells r)(tok_cell t := f (cell_of r t))\<rparr>"

text \<open>\<open>assert!(maximum_active > 0)\<close>: no registry for a capacity of zero.\<close>

definition registry_new :: "usize \<Rightarrow> registry option" where
  "registry_new capacity =
     (if capacity = 0 then None
      else Some \<lparr>cells = (\<lambda>_. fresh_cell), next_cell = 0, next_generation = 0, windows = [],
                 retained = [], latest_source_coverage_gap = (\<lambda>_. None),
                 latest_source_progress = (\<lambda>_. None), maximum_active = capacity\<rparr>)"

definition windows_remove :: "observation_target \<Rightarrow> registry \<Rightarrow> registry" where
  "windows_remove target r = r\<lparr>windows := filter (\<lambda>(k, _). k \<noteq> target) (windows r)\<rparr>"

definition retain_if_durable :: "token \<Rightarrow> registry \<Rightarrow> registry" where
  "retain_if_durable t r =
     (if was_confirmed (cell_of r t) \<and> \<not> cell_finalized (cell_of r t)
      then r\<lparr>retained := retained r @ [t]\<rparr> else r)"

text \<open>\<open>if let Some(token) = windows.remove(target) { retain_if_durable(token) }\<close>\<close>

definition retire_target :: "observation_target \<Rightarrow> registry \<Rightarrow> registry" where
  "retire_target target r =
     (case map_of (windows r) target of
        None \<Rightarrow> r
      | Some t \<Rightarrow> retain_if_durable t (windows_remove target r))"

definition rotate_closed_windows :: "i64 \<Rightarrow> registry \<Rightarrow> registry" where
  "rotate_closed_windows now r =
     (let closed_targets = map fst (filter (\<lambda>(_, t).
            \<not> is_open_at (tok_window t) (cell_of r t) now
            \<or> closes_at_unix_ms (tok_window t) \<le> now) (windows r))
      in fold retire_target closed_targets r)"

fun min_by_key :: "('a \<Rightarrow> 'k::linorder) \<Rightarrow> 'a list \<Rightarrow> 'a option" where
  "min_by_key k [] = None"
| "min_by_key k (x # xs) =
     (case min_by_key k xs of
        None \<Rightarrow> Some x
      | Some y \<Rightarrow> if k x \<le> k y then Some x else Some y)"

definition evict_soonest :: "registry \<Rightarrow> registry" where
  "evict_soonest r =
     (case min_by_key (\<lambda>(target, t). (closes_at_unix_ms (tok_window t), target)) (windows r) of
        None \<Rightarrow> r
      | Some (target, _) \<Rightarrow>
          (case map_of (windows r) target of
             None \<Rightarrow> r
           | Some t \<Rightarrow>
               retain_if_durable t
                 (update_cell (cancel_with_reason CapacityEvicted) t (windows_remove target r))))"

definition open_window ::
    "registry \<Rightarrow> observation_target \<Rightarrow> string \<Rightarrow> i64 \<Rightarrow> i64 \<Rightarrow> token \<times> registry" where
  "open_window r target mint' opened closes =
     (let t = \<lparr>tok_generation = next_generation r,
               tok_window = \<lparr>win_target = target, win_mint = mint', opened_at_unix_ms = opened,
                             closes_at_unix_ms = closes\<rparr>,
               tok_cell = next_cell r\<rparr>;
          c = (case latest_source_coverage_gap r (target_source_program target) of
                 None \<Rightarrow> fresh_cell
               | Some gap \<Rightarrow>
                   if opened \<le> gap_observed_at gap \<and> gap_observed_at gap < closes
                   then snd (mark_incomplete (gap_reason gap) fresh_cell) else fresh_cell)
      in (t, r\<lparr>next_generation := next_generation r + 1, next_cell := next_cell r + 1,
               cells := (cells r)(next_cell r := c),
               windows := (target, t) # filter (\<lambda>(k, _). k \<noteq> target) (windows r)\<rparr>))"

definition matching_token :: "registry \<Rightarrow> observation_target \<Rightarrow> i64 \<Rightarrow> token option" where
  "matching_token r target observed_at =
     (case map_of (windows r) target of
        None \<Rightarrow> None
      | Some t \<Rightarrow> if is_open_at (tok_window t) (cell_of r t) observed_at then Some t else None)"

definition provision_target ::
    "registry \<Rightarrow> observation_target \<Rightarrow> string \<Rightarrow> i64 \<Rightarrow> duration \<Rightarrow> window_provision \<times> registry" where
  "provision_target r0 target mint' opened duration' =
     (let closes = saturating_add_i64 opened (duration_ms duration');
          r1 = rotate_closed_windows opened r0 in
      case matching_token r1 target opened of
        Some existing \<Rightarrow> (\<lparr>prov_token = existing, newly_opened = False\<rparr>, r1)
      | None \<Rightarrow>
          let r2 = (if maximum_active r1 \<le> length (windows r1) then evict_soonest r1 else r1);
              (t, r3) = open_window r2 target mint' opened closes
          in (\<lparr>prov_token = t, newly_opened = True\<rparr>, r3))"

definition open_market ::
    "registry \<Rightarrow> market_identity \<Rightarrow> i64 \<Rightarrow> duration \<Rightarrow> observation_window option \<times> registry" where
  "open_market r market opened duration' =
     (case target_for_market market of
        None \<Rightarrow> (None, r)
      | Some target \<Rightarrow>
          let (p, r1) = provision_target r target (mint market) opened duration';
              r2 = update_cell (snd \<circ> confirm) (prov_token p) r1
          in (Some (tok_window (prov_token p)), r2))"

definition admit_matching_token ::
    "registry \<Rightarrow> observation_target \<Rightarrow> i64 \<Rightarrow> token option \<times> registry" where
  "admit_matching_token r target observed_at =
     (case matching_token r target observed_at of
        None \<Rightarrow> (None, r)
      | Some t \<Rightarrow>
          if fst (mark_admitted (cell_of r t))
          then (Some t, update_cell (snd \<circ> mark_admitted) t r)
          else (None, update_cell (snd \<circ> mark_incomplete QueueOverflow) t r))"

definition is_active :: "registry \<Rightarrow> observation_target \<Rightarrow> i64 \<Rightarrow> bool" where
  "is_active r target now \<longleftrightarrow> matching_token r target now \<noteq> None"

definition active_count :: "registry \<Rightarrow> i64 \<Rightarrow> usize \<times> registry" where
  "active_count r now = (let r' = rotate_closed_windows now r in (length (windows r'), r'))"

definition record_source_progress :: "registry \<Rightarrow> source_program \<Rightarrow> i64 \<Rightarrow> registry" where
  "record_source_progress r program observed_at =
     r\<lparr>latest_source_progress := (latest_source_progress r)(program \<mapsto>
         (case latest_source_progress r program of
            None \<Rightarrow> observed_at | Some latest \<Rightarrow> max latest observed_at))\<rparr>"

definition in_gap :: "source_program \<Rightarrow> i64 \<Rightarrow> token_cell \<Rightarrow> token \<Rightarrow> bool" where
  "in_gap program observed_at c t \<longleftrightarrow>
     target_source_program (tok_target t) = program \<and> \<not> cell_finalized c
     \<and> opened_at_unix_ms (tok_window t) \<le> observed_at
     \<and> observed_at < closes_at_unix_ms (tok_window t)"

definition mark_gap ::
    "source_program \<Rightarrow> i64 \<Rightarrow> window_incomplete_reason \<Rightarrow> token \<Rightarrow> usize \<times> registry \<Rightarrow> usize \<times> registry" where
  "mark_gap program observed_at reason t acc =
     (let (n, r) = acc in
      if in_gap program observed_at (cell_of r t) t
      then (if fst (mark_incomplete reason (cell_of r t)) then n + 1 else n,
            update_cell (snd \<circ> mark_incomplete reason) t r)
      else (n, r))"

definition record_source_coverage_gap ::
    "registry \<Rightarrow> source_program \<Rightarrow> i64 \<Rightarrow> window_incomplete_reason \<Rightarrow> usize \<times> registry" where
  "record_source_coverage_gap r program observed_at reason =
     (let gap = \<lparr>gap_observed_at = observed_at, gap_reason = reason\<rparr>;
          latest = (case latest_source_coverage_gap r program of
              None \<Rightarrow> gap
            | Some old \<Rightarrow> if gap_observed_at old < observed_at then gap else old);
          r1 = r\<lparr>latest_source_coverage_gap := (latest_source_coverage_gap r)(program \<mapsto> latest)\<rparr>
      in fold (mark_gap program observed_at reason) (map snd (windows r1) @ retained r1) (0, r1))"

definition candidate :: "registry \<Rightarrow> token \<Rightarrow> bool" where
  "candidate r t \<longleftrightarrow>
     was_confirmed (cell_of r t) \<and> cell_durable_window_id (cell_of r t) \<noteq> None
     \<and> is_settled (cell_of r t) \<and> \<not> cell_finalization_claimed (cell_of r t)
     \<and> \<not> cell_finalized (cell_of r t)"

definition candidate_order :: "token \<Rightarrow> token \<Rightarrow> ordering" where
  "candidate_order a b =
     cmp (closes_at_unix_ms (tok_window a), tok_target a, tok_generation a)
         (closes_at_unix_ms (tok_window b), tok_target b, tok_generation b)"

definition finalization_candidates :: "registry \<Rightarrow> i64 \<Rightarrow> token list \<times> registry" where
  "finalization_candidates r now =
     (let r' = rotate_closed_windows now r
      in (sort_by candidate_order (filter (candidate r') (retained r')), r'))"

definition claimable :: "registry \<Rightarrow> token \<Rightarrow> token \<Rightarrow> bool" where
  "claimable r c t \<longleftrightarrow>
     token_eq t c \<and> tok_cell t = tok_cell c
     \<and> was_confirmed (cell_of r t) \<and> cell_durable_window_id (cell_of r t) \<noteq> None
     \<and> is_settled (cell_of r t) \<and> \<not> cell_finalized (cell_of r t)"

definition source_caught_up :: "registry \<Rightarrow> token \<Rightarrow> bool" where
  "source_caught_up r t \<longleftrightarrow>
     (case latest_source_progress r (target_source_program (tok_target t)) of
        None \<Rightarrow> False
      | Some watermark \<Rightarrow> closes_at_unix_ms (tok_window t) \<le> watermark)"

definition claim_finalization :: "registry \<Rightarrow> token \<Rightarrow> finalization_claim option \<times> registry" where
  "claim_finalization r c =
     (case find (claimable r c) (retained r) of
        None \<Rightarrow> (None, r)
      | Some t \<Rightarrow>
          if incomplete_reason (cell_of r t) = None \<and> \<not> source_caught_up r t then (None, r)
          else if \<not> fst (try_claim_finalization (cell_of r t)) then (None, r)
          else (Some \<lparr>claim_token = t, claim_incomplete_reason = incomplete_reason (cell_of r t)\<rparr>,
                update_cell (snd \<circ> try_claim_finalization) t r))"

text \<open>\<open>Drop\<close> of a claim, and \<open>mark_committed\<close>, which consumes the claim and so drops it.\<close>

definition claim_drop :: "finalization_claim \<Rightarrow> registry \<Rightarrow> registry" where
  "claim_drop cl r = update_cell release_finalization (claim_token cl) r"

definition claim_mark_committed :: "finalization_claim \<Rightarrow> registry \<Rightarrow> bool \<times> registry" where
  "claim_mark_committed cl r =
     (fst (mark_finalized (cell_of r (claim_token cl))),
      claim_drop cl (update_cell (snd \<circ> mark_finalized) (claim_token cl) r))"

definition cleanup_finalized :: "registry \<Rightarrow> usize \<times> registry" where
  "cleanup_finalized r =
     (let kept = filter (\<lambda>t. \<not> cell_finalized (cell_of r t)) (retained r)
      in (length (retained r) - length kept, r\<lparr>retained := kept\<rparr>))"

definition cancel_active ::
    "window_incomplete_reason \<Rightarrow> observation_target \<Rightarrow> usize \<times> registry \<Rightarrow> usize \<times> registry" where
  "cancel_active reason target acc =
     (let (n, r) = acc in
      case map_of (windows r) target of
        None \<Rightarrow> (n, r)
      | Some t \<Rightarrow>
          let r1 = windows_remove target r in
          if was_confirmed (cell_of r1 t)
          then (n + 1, retain_if_durable t (update_cell (cancel_with_reason reason) t r1))
          else (n, update_cell cancel_if_pending t r1))"

definition cancel_retained ::
    "window_incomplete_reason \<Rightarrow> (observation_target \<Rightarrow> bool) \<Rightarrow> token \<Rightarrow> usize \<times> registry
      \<Rightarrow> usize \<times> registry" where
  "cancel_retained reason matches_target t acc =
     (let (n, r) = acc in
      if matches_target (tok_target t) \<and> \<not> cell_finalized (cell_of r t)
         \<and> \<not> cell_finalization_claimed (cell_of r t)
         \<and> token_status (cell_of r t) = WindowConfirmed
      then (n + 1, update_cell (cancel_with_reason reason) t r)
      else (n, r))"

definition cancel_confirmed_matching ::
    "window_incomplete_reason \<Rightarrow> (observation_target \<Rightarrow> bool) \<Rightarrow> registry \<Rightarrow> usize \<times> registry" where
  "cancel_confirmed_matching reason matches_target r =
     (let targets = filter matches_target (map fst (windows r));
          (n, r1) = fold (cancel_active reason) targets (0, r)
      in fold (cancel_retained reason matches_target) (retained r1) (n, r1))"

definition cancel_all_confirmed :: "registry \<Rightarrow> window_incomplete_reason \<Rightarrow> usize \<times> registry" where
  "cancel_all_confirmed r reason = cancel_confirmed_matching reason (\<lambda>_. True) r"

definition cancel_source_confirmed ::
    "registry \<Rightarrow> source_program \<Rightarrow> window_incomplete_reason \<Rightarrow> usize \<times> registry" where
  "cancel_source_confirmed r program reason =
     cancel_confirmed_matching reason (\<lambda>target. target_source_program target = program) r"

end
