(* ===== verification/Windows_Correct.thy ===== *)
theory Windows_Correct
  imports Windows
begin

text \<open>
  What the window registry guarantees. A cell only ever evolves (\<open>evolves\<close>): a confirmation, a
  cancellation, the first incompleteness reason, the durable id and a finalization are permanent,
  and the counters only grow. The interface of an operation that respects this is the locale
  \<open>cell_op\<close> for a token and \<open>registry_op\<close> for the registry, the first giving the second; every
  operation of the program is an interpretation. The step relation \<open>step\<close> interleaves all of them
  with outstanding finalization claims, and the invariant of its reachable states carries the
  theorems.
\<close>

section \<open>Evolution of a cell\<close>

definition cell_ok :: "token_cell \<Rightarrow> bool" where
  "cell_ok c \<longleftrightarrow>
     cell_settled c \<le> cell_admitted c
     \<and> (\<forall>i. cell_durable_window_id c = Some i \<longrightarrow> 0 < i \<and> was_confirmed c)
     \<and> (cell_incomplete_reason c = WINDOW_COMPLETE
        \<or> reason_from_code (cell_incomplete_reason c) \<noteq> None)
     \<and> (cell_state c = WINDOW_CANCELLED_CONFIRMED \<longrightarrow> cell_incomplete_reason c \<noteq> WINDOW_COMPLETE)"

definition evolves :: "token_cell \<Rightarrow> token_cell \<Rightarrow> bool" where
  "evolves c d \<longleftrightarrow>
     (cell_ok c \<longrightarrow> cell_ok d)
     \<and> (was_confirmed c \<longrightarrow> was_confirmed d)
     \<and> (cell_state c = WINDOW_CANCELLED_PENDING \<longrightarrow> cell_state d = WINDOW_CANCELLED_PENDING)
     \<and> (cell_state c = WINDOW_CANCELLED_CONFIRMED \<longrightarrow> cell_state d = WINDOW_CANCELLED_CONFIRMED)
     \<and> (cell_incomplete_reason c \<noteq> WINDOW_COMPLETE
        \<longrightarrow> cell_incomplete_reason d = cell_incomplete_reason c)
     \<and> (cell_durable_window_id c \<noteq> None \<longrightarrow> cell_durable_window_id d = cell_durable_window_id c)
     \<and> cell_admitted c \<le> cell_admitted d \<and> cell_settled c \<le> cell_settled d
     \<and> (cell_finalized c \<longrightarrow> cell_finalized d)"

lemma evolves_refl [simp, intro]: "evolves c c"
  by (simp add: evolves_def)

lemma evolves_trans: "evolves a b \<Longrightarrow> evolves b c \<Longrightarrow> evolves a c"
  unfolding evolves_def by (metis order.trans)

lemma fresh_cell_ok [simp]: "cell_ok fresh_cell"
  by (simp add: cell_ok_def fresh_cell_def)

lemma reason_code_round_trip [simp]:
  "reason_from_code (reason_to_code r) = Some r" "reason_to_code r \<noteq> WINDOW_COMPLETE"
  by (cases r; simp add: reason_from_code_def WINDOW_COMPLETE_def)+

lemma reason_from_complete [simp]: "reason_from_code WINDOW_COMPLETE = None"
  by (simp add: reason_from_code_def WINDOW_COMPLETE_def)

lemma incomplete_reason_None_iff:
  "cell_ok c \<Longrightarrow> incomplete_reason c = None \<longleftrightarrow> cell_incomplete_reason c = WINDOW_COMPLETE"
  by (auto simp: cell_ok_def incomplete_reason_def)

text \<open>
  The operations of a token other than finalization: they evolve the cell and touch neither the
  claim nor the finalization flag.
\<close>

locale cell_op =
  fixes f :: "token_cell \<Rightarrow> token_cell"
  assumes f_evolves: "evolves c (f c)"
    and f_finalized: "cell_finalized (f c) = cell_finalized c"
    and f_claimed: "cell_finalization_claimed (f c) = cell_finalization_claimed c"

lemmas evolution_defs = evolves_def cell_ok_def was_confirmed_def

interpretation confirm_op: cell_op "snd \<circ> confirm"
  by standard (auto simp: confirm_def evolution_defs split: window_state.splits)

interpretation cancel_if_pending_op: cell_op cancel_if_pending
  by standard (auto simp: cancel_if_pending_def evolution_defs)

interpretation mark_incomplete_op: cell_op "snd \<circ> mark_incomplete reason" for reason
  by standard (auto simp: mark_incomplete_def evolution_defs)

interpretation cancel_with_reason_op: cell_op "cancel_with_reason reason" for reason
  by standard
     (auto simp: cancel_with_reason_def mark_incomplete_def evolution_defs split: window_state.splits)

interpretation set_durable_window_id_op: cell_op "snd \<circ> set_durable_window_id i" for i
  by standard
     (auto simp: set_durable_window_id_def evolution_defs split: option.splits)

lemma checked_increment:
  "checked_add_word x 1 = Some y \<Longrightarrow> x < y \<and> unat y = unat x + 1" for x :: u64
  by (auto simp: checked_simps word_less_nat_alt)

interpretation mark_admitted_op: cell_op "snd \<circ> mark_admitted"
  by standard
     (auto simp: mark_admitted_def evolution_defs split: option.splits dest!: checked_increment)

lemma increment_below:
  fixes x y :: u64
  assumes "x < y"
  shows "x + 1 \<le> y" and "x \<le> x + 1"
proof -
  have "unat x + unat (1::u64) < 2 ^ LENGTH(64)"
    using assms unat_bound [of y] by (simp add: word_less_nat_alt)
  from unat_add_small [OF this] show "x + 1 \<le> y" "x \<le> x + 1"
    using assms by (simp_all add: word_less_nat_alt word_le_nat_alt)
qed

interpretation mark_settled_op: cell_op "snd \<circ> mark_settled"
  by standard (auto simp: mark_settled_def evolution_defs not_le increment_below)

section \<open>Evolution of the registry\<close>

definition held :: "registry \<Rightarrow> token list" where
  "held r = map snd (windows r) @ retained r"

definition reg_inv :: "registry \<Rightarrow> bool" where
  "reg_inv r \<longleftrightarrow>
     0 < maximum_active r \<and> length (windows r) \<le> maximum_active r
     \<and> distinct (map fst (windows r))
     \<and> (\<forall>(k, t)\<in>set (windows r). tok_target t = k
          \<and> \<not> cell_finalized (cell_of r t) \<and> \<not> cell_finalization_claimed (cell_of r t))
     \<and> distinct (map tok_cell (held r))
     \<and> (\<forall>t\<in>set (held r). tok_cell t < next_cell r)
     \<and> (\<forall>t\<in>set (retained r). was_confirmed (cell_of r t))
     \<and> (\<forall>a<next_cell r. cell_ok (cells r a))"

text \<open>What one operation of the registry may change, outside of finalization.\<close>

definition quiet :: "registry \<Rightarrow> registry \<Rightarrow> bool" where
  "quiet r r' \<longleftrightarrow>
     next_cell r \<le> next_cell r' \<and> maximum_active r' = maximum_active r
     \<and> (\<forall>a<next_cell r. evolves (cells r a) (cells r' a)
          \<and> cell_finalized (cells r' a) = cell_finalized (cells r a)
          \<and> cell_finalization_claimed (cells r' a) = cell_finalization_claimed (cells r a))
     \<and> (\<forall>a. next_cell r \<le> a \<and> a < next_cell r' \<longrightarrow>
          \<not> cell_finalized (cells r' a) \<and> \<not> cell_finalization_claimed (cells r' a))
     \<and> (\<forall>t\<in>set (retained r). \<not> cell_finalized (cell_of r t) \<longrightarrow> t \<in> set (retained r'))
     \<and> (\<forall>t. source_caught_up r t \<longrightarrow> source_caught_up r' t)"

definition preserves :: "registry \<Rightarrow> registry \<Rightarrow> bool" where
  "preserves r r' \<longleftrightarrow> (reg_inv r \<longrightarrow> reg_inv r' \<and> quiet r r')"

lemma quiet_refl [simp]: "quiet r r"
  by (auto simp: quiet_def)

lemma quiet_trans:
  assumes "quiet a b" and "quiet b c" and "reg_inv a"
  shows "quiet a c"
proof -
  have "evolves (cells a x) (cells c x)" if "x < next_cell a" for x
    using assms that unfolding quiet_def by (meson evolves_trans order_less_le_trans)
  moreover have "t \<in> set (retained c)" if "t \<in> set (retained a)" "\<not> cell_finalized (cell_of a t)" for t
  proof -
    have "tok_cell t < next_cell a" using assms(3) that(1) by (simp add: reg_inv_def held_def)
    then show ?thesis using assms(1,2) that unfolding quiet_def cell_of_def by auto
  qed
  ultimately show ?thesis
    using assms(1,2) unfolding quiet_def
    by (smt (verit) linorder_not_le order.trans order_less_le_trans)
qed

lemma preserves_refl [simp, intro]: "preserves r r"
  by (simp add: preserves_def)

lemma preserves_trans [trans]: "preserves a b \<Longrightarrow> preserves b c \<Longrightarrow> preserves a c"
  unfolding preserves_def using quiet_trans by blast

locale registry_op =
  fixes op :: "registry \<Rightarrow> registry"
  assumes op_preserves: "preserves r (op r)"
begin

lemma op_inv: "reg_inv r \<Longrightarrow> reg_inv (op r)"
  using op_preserves by (simp add: preserves_def)

lemma op_quiet: "reg_inv r \<Longrightarrow> quiet r (op r)"
  using op_preserves by (simp add: preserves_def)

end

lemma preserves_fold:
  assumes "\<And>x r. x \<in> set xs \<Longrightarrow> preserves r (f x r)"
  shows "preserves r (fold f xs r)"
  using assms
proof (induction xs arbitrary: r)
  case (Cons x xs)
  have "preserves r (f x r)" using Cons.prems by simp
  moreover have "preserves (f x r) (fold f xs (f x r))" using Cons by simp
  ultimately show ?case by (simp add: preserves_trans)
qed simp

lemma update_cell_simps [simp]:
  "windows (update_cell f t r) = windows r" "retained (update_cell f t r) = retained r"
  "next_cell (update_cell f t r) = next_cell r" "maximum_active (update_cell f t r) = maximum_active r"
  "held (update_cell f t r) = held r"
  "cells (update_cell f t r) = (cells r)(tok_cell t := f (cells r (tok_cell t)))"
  "latest_source_progress (update_cell f t r) = latest_source_progress r"
  "latest_source_coverage_gap (update_cell f t r) = latest_source_coverage_gap r"
  "source_caught_up (update_cell f t r) = source_caught_up r"
  by (simp_all add: update_cell_def held_def cell_of_def source_caught_up_def fun_eq_iff)

context cell_op
begin

lemma update_preserves: "preserves r (update_cell f t r)"
proof -
  have "reg_inv (update_cell f t r) \<and> quiet r (update_cell f t r)" if "reg_inv r"
  proof -
    have ev: "evolves (cells r a) (cells (update_cell f t r) a)"
      "cell_finalized (cells (update_cell f t r) a) = cell_finalized (cells r a)"
      "cell_finalization_claimed (cells (update_cell f t r) a) = cell_finalization_claimed (cells r a)"
      for a by (simp_all add: f_evolves f_finalized f_claimed)
    then have ok: "cell_ok (cells r a) \<Longrightarrow> cell_ok (cells (update_cell f t r) a)"
      "was_confirmed (cells r a) \<Longrightarrow> was_confirmed (cells (update_cell f t r) a)" for a
      by (simp_all add: evolves_def)
    show ?thesis
      using that ev ok unfolding reg_inv_def quiet_def cell_of_def
      by (auto simp del: update_cell_simps(6) simp: split_beta)
  qed
  then show ?thesis by (simp add: preserves_def)
qed

end

sublocale cell_op \<subseteq> upd: registry_op "update_cell f t" for t
  by standard (rule update_preserves)

section \<open>The operations of the registry\<close>

lemma reg_inv_cells:
  assumes "reg_inv r"
  shows "distinct (map (tok_cell \<circ> snd) (windows r))" and "distinct (map tok_cell (retained r))"
    and "(tok_cell \<circ> snd) ` set (windows r) \<inter> tok_cell ` set (retained r) = {}"
  using assms by (simp_all add: reg_inv_def held_def image_comp)

lemma reg_inv_windowD:
  assumes "reg_inv r" and "(k, t) \<in> set (windows r)"
  shows "t \<in> set (held r)" and "tok_target t = k" and "\<not> cell_finalized (cell_of r t)"
    and "\<not> cell_finalization_claimed (cell_of r t)" and "tok_cell t < next_cell r"
    and "map_of (windows r) k = Some t"
proof -
  show "t \<in> set (held r)" using assms(2) by (force simp: held_def)
  then show "tok_cell t < next_cell r" using assms(1) by (simp add: reg_inv_def)
  show "tok_target t = k" "\<not> cell_finalized (cell_of r t)" "\<not> cell_finalization_claimed (cell_of r t)"
    using assms unfolding reg_inv_def by blast+
  show "map_of (windows r) k = Some t" using assms by (simp add: reg_inv_def)
qed

lemma windows_same_cell:
  assumes "reg_inv r" and "(k, t) \<in> set (windows r)" and "(k', t') \<in> set (windows r)"
    and "tok_cell t = tok_cell t'"
  shows "k = k' \<and> t = t'"
  using inj_onD [OF reg_inv_cells(1) [OF assms(1), unfolded distinct_map, THEN conjunct2], of "(k, t)" "(k', t')"]
    assms(2-4) by simp

lemma retire_target_preserves: "preserves r (retire_target target r)"
proof (cases "map_of (windows r) target")
  case (Some t)
  let ?ws = "filter (\<lambda>(k, _). k \<noteq> target) (windows r)"
  have mem: "(target, t) \<in> set (windows r)" using Some by (rule map_of_SomeD)
  have "reg_inv (retire_target target r) \<and> quiet r (retire_target target r)" if inv: "reg_inv r"
  proof -
    have fresh: "tok_cell t \<notin> (tok_cell \<circ> snd) ` set ?ws"
      using windows_same_cell [OF inv mem] by force
    have "tok_cell t \<notin> tok_cell ` set (retained r)"
      using reg_inv_cells(3) [OF inv] mem by force
    then have "distinct (map tok_cell (map snd ?ws @ retained r @ [t]))"
      using reg_inv_cells [OF inv] fresh
      by (auto simp: distinct_map_filter image_iff)
    moreover have "distinct (map fst ?ws)"
      using inv by (simp add: reg_inv_def distinct_map_filter)
    moreover have "length ?ws \<le> maximum_active r"
      using inv length_filter_le le_trans unfolding reg_inv_def by blast
    moreover have "tok_cell t < next_cell r"
      using inv mem by (force simp: reg_inv_def held_def)
    moreover have "retire_target target r = r\<lparr>windows := ?ws, retained :=
        (if was_confirmed (cell_of r t) \<and> \<not> cell_finalized (cell_of r t)
         then retained r @ [t] else retained r)\<rparr>"
      using Some by (simp add: retire_target_def retain_if_durable_def windows_remove_def cell_of_def)
    ultimately show ?thesis
      using inv by (auto simp: reg_inv_def held_def quiet_def cell_of_def source_caught_up_def)
  qed
  then show ?thesis by (simp add: preserves_def)
qed (simp add: retire_target_def)

interpretation retire_op: registry_op "retire_target target" for target
  by standard (rule retire_target_preserves)

interpretation rotate_op: registry_op "rotate_closed_windows now" for now
  by standard (simp add: rotate_closed_windows_def preserves_fold retire_op.op_preserves)

lemma min_by_key_None_iff [simp]: "min_by_key k xs = None \<longleftrightarrow> xs = []"
  by (cases xs) (auto split: option.splits)

lemma min_by_key_SomeD:
  "min_by_key k xs = Some x \<Longrightarrow> x \<in> set xs \<and> (\<forall>y\<in>set xs. k x \<le> k y)"
proof (induction xs arbitrary: x)
  case (Cons a xs)
  show ?case
  proof (cases "min_by_key k xs")
    case None
    then show ?thesis using Cons.prems by simp
  next
    case (Some y)
    then show ?thesis using Cons.IH [OF Some] Cons.prems by (auto split: if_splits)
  qed
qed simp

text \<open>An eviction is a cancellation followed by a retirement.\<close>

lemma evict_soonest_retires:
  assumes "reg_inv r" and "windows r \<noteq> []"
  obtains target t where "(target, t) \<in> set (windows r)"
    and "\<forall>(k, u)\<in>set (windows r).
           (closes_at_unix_ms (tok_window t), target) \<le> (closes_at_unix_ms (tok_window u), k)"
    and "evict_soonest r
           = retire_target target (update_cell (cancel_with_reason CapacityEvicted) t r)"
proof -
  obtain target t where m: "min_by_key (\<lambda>(target, t). (closes_at_unix_ms (tok_window t), target))
      (windows r) = Some (target, t)"
    using assms(2) min_by_key_None_iff by (metis not_None_eq surj_pair)
  note min = min_by_key_SomeD [OF m]
  have t: "map_of (windows r) target = Some t"
    using assms(1) min by (simp add: reg_inv_def)
  have "evict_soonest r = retire_target target (update_cell (cancel_with_reason CapacityEvicted) t r)"
    using m t
    by (simp add: evict_soonest_def retire_target_def retain_if_durable_def windows_remove_def
        update_cell_def cell_of_def)
  moreover have "\<forall>(k, u)\<in>set (windows r).
      (closes_at_unix_ms (tok_window t), target) \<le> (closes_at_unix_ms (tok_window u), k)"
    using conjunct2 [OF min] by (simp only: case_prod_unfold fst_conv snd_conv)
  ultimately show ?thesis using min by (intro that) simp_all
qed

lemma evict_soonest_preserves: "preserves r (evict_soonest r)"
proof (cases "reg_inv r \<and> windows r \<noteq> []")
  case True
  then obtain target t where "evict_soonest r
      = retire_target target (update_cell (cancel_with_reason CapacityEvicted) t r)"
    using evict_soonest_retires by blast
  then show ?thesis
    using preserves_trans [OF cancel_with_reason_op.update_preserves retire_op.op_preserves] by simp
next
  case False
  then show ?thesis by (auto simp: preserves_def evict_soonest_def)
qed

interpretation evict_op: registry_op evict_soonest
  by standard (rule evict_soonest_preserves)

lemma retire_target_windows:
  "windows (retire_target target r) = filter (\<lambda>(k, _). k \<noteq> target) (windows r)"
  by (auto simp: retire_target_def retain_if_durable_def windows_remove_def map_of_eq_None_iff
      split: option.splits intro!: filter_True [symmetric]) force

lemma length_filter_remove:
  "(k, t) \<in> set ws \<Longrightarrow> length (filter (\<lambda>(j, _). j \<noteq> k) ws) < length ws"
  by (rule length_filter_less [of "(k, t)"]) simp_all

lemma evict_soonest_length:
  assumes "reg_inv r" and "windows r \<noteq> []"
  shows "length (windows (evict_soonest r)) < length (windows r)"
proof -
  obtain target t where "(target, t) \<in> set (windows r)"
    "evict_soonest r = retire_target target (update_cell (cancel_with_reason CapacityEvicted) t r)"
    using evict_soonest_retires [OF assms] by blast
  then show ?thesis by (simp add: retire_target_windows length_filter_remove)
qed

lemma open_window_preserves:
  assumes "length (windows r) < maximum_active r"
  shows "preserves r (snd (open_window r target m opened closes))"
proof -
  let ?r = "snd (open_window r target m opened closes)"
  have "reg_inv ?r \<and> quiet r ?r" if inv: "reg_inv r"
  proof -
    let ?ws = "filter (\<lambda>(k, _). k \<noteq> target) (windows r)"
    let ?c = "cells ?r (next_cell r)"
    have old: "cells ?r a = cells r a" if "a < next_cell r" for a
      using that by (simp add: open_window_def Let_def)
    have c: "cell_ok ?c" "\<not> cell_finalized ?c" "\<not> cell_finalization_claimed ?c"
      by (auto simp: open_window_def Let_def cell_ok_def mark_incomplete_def fresh_cell_def
          split: option.splits)
    have low: "tok_cell u < next_cell r" if "u \<in> set (held r)" for u
      using inv that by (simp add: reg_inv_def)
    then have cells: "cell_of ?r u = cell_of r u" if "u \<in> set (held r)" for u
      using that old by (simp add: cell_of_def)
    have held: "u \<in> snd ` set ?ws \<union> set (retained r) \<Longrightarrow> u \<in> set (held r)" for u
      by (auto simp: held_def)
    have "distinct (map tok_cell (map snd ?ws @ retained r))"
      using reg_inv_cells [OF inv] by (auto simp: distinct_map_filter image_iff)
    moreover have "distinct (map fst ?ws)" using inv by (simp add: reg_inv_def distinct_map_filter)
    moreover have "length ?ws < maximum_active r"
      using assms length_filter_le [of _ "windows r"] le_less_trans by blast
    moreover define t where "t = fst (open_window r target m opened closes)"
    have t: "tok_cell t = next_cell r" "tok_target t = target"
      and r: "windows ?r = (target, t) # ?ws" "retained ?r = retained r" "next_cell ?r = next_cell r + 1"
        "maximum_active ?r = maximum_active r"
      by (simp_all add: t_def open_window_def Let_def)
    have "next_cell r \<notin> tok_cell ` set (held r)"
      using low by (metis imageE less_irrefl_nat)
    then have "next_cell r \<notin> tok_cell ` set (map snd ?ws @ retained r)"
      by (auto simp: held_def)
    ultimately have "distinct (map tok_cell (held ?r))" "distinct (map fst (windows ?r))"
        "length (windows ?r) \<le> maximum_active ?r"
      by (auto simp: held_def r t)
    moreover have "\<forall>a<next_cell ?r. cell_ok (cells ?r a)"
      using inv c(1) old by (auto simp: r reg_inv_def less_Suc_eq)
    moreover have "tok_target u = k
          \<and> \<not> cell_finalized (cell_of ?r u) \<and> \<not> cell_finalization_claimed (cell_of ?r u)"
      if ku: "(k, u) \<in> set (windows ?r)" for k u
    proof (cases "(k, u) \<in> set (windows r)")
      case True
      then have "u \<in> set (held r)" by (force simp: held_def)
      from cells [OF this] show ?thesis using True inv by (auto simp: reg_inv_def)
    next
      case False
      then show ?thesis using ku c t by (auto simp: r cell_of_def)
    qed
    moreover have "\<forall>u\<in>set (retained ?r). was_confirmed (cell_of ?r u)"
      using inv cells by (simp add: r reg_inv_def held_def)
    moreover have "\<forall>u\<in>set (held ?r). tok_cell u < next_cell ?r"
      using low t held by (auto simp: held_def r less_Suc_eq)
    ultimately have "reg_inv ?r" using inv unfolding reg_inv_def r(4) by blast
    moreover have "quiet r ?r"
      using c old by (auto simp: quiet_def source_caught_up_def less_Suc_eq_le open_window_def Let_def)
    ultimately show ?thesis by blast
  qed
  then show ?thesis by (simp add: preserves_def)
qed

lemma rotated_windows_open:
  assumes "distinct (map fst (windows r))"
  shows "(k, t) \<in> set (windows (rotate_closed_windows now r)) \<longleftrightarrow>
    (k, t) \<in> set (windows r) \<and> is_open_at (tok_window t) (cell_of r t) now
    \<and> now < closes_at_unix_ms (tok_window t)"
proof -
  have fold: "windows (fold retire_target ks r) = filter (\<lambda>(k, _). k \<notin> set ks) (windows r)" for ks
    by (induction ks arbitrary: r) (auto simp: retire_target_windows intro!: filter_cong)
  let ?closed = "filter (\<lambda>(_, t). \<not> is_open_at (tok_window t) (cell_of r t) now
            \<or> closes_at_unix_ms (tok_window t) \<le> now) (windows r)"
  have "k \<in> fst ` set ?closed \<longleftrightarrow> (k, t) \<in> set ?closed" if mem: "(k, t) \<in> set (windows r)"
  proof -
    have "t' = t" if "(k, t') \<in> set (windows r)" for t'
      using mem that assms by (meson eq_key_imp_eq_value)
    then show ?thesis by (auto simp: image_iff)
  qed
  moreover have "(k, t) \<in> set (windows (rotate_closed_windows now r))
      \<longleftrightarrow> (k, t) \<in> set (windows r) \<and> k \<notin> fst ` set ?closed"
    unfolding rotate_closed_windows_def Let_def fold set_map set_filter by simp
  ultimately show ?thesis by (cases "(k, t) \<in> set (windows r)") (simp_all, auto)
qed

lemma rotate_cells [simp]:
  "cells (rotate_closed_windows now r) = cells r" "next_cell (rotate_closed_windows now r) = next_cell r"
  "maximum_active (rotate_closed_windows now r) = maximum_active r"
proof -
  have "cells (fold retire_target ks r) = cells r \<and> next_cell (fold retire_target ks r) = next_cell r
      \<and> maximum_active (fold retire_target ks r) = maximum_active r" for ks
    by (induction ks arbitrary: r)
       (auto simp: retire_target_def retain_if_durable_def windows_remove_def split: option.splits)
  then show "cells (rotate_closed_windows now r) = cells r"
    "next_cell (rotate_closed_windows now r) = next_cell r"
    "maximum_active (rotate_closed_windows now r) = maximum_active r"
    by (simp_all add: rotate_closed_windows_def)
qed

lemma provision_target_preserves: "preserves r (snd (provision_target r target m opened d))"
proof (cases "reg_inv r")
  case True
  let ?r1 = "rotate_closed_windows opened r"
  let ?r2 = "if maximum_active ?r1 \<le> length (windows ?r1) then evict_soonest ?r1 else ?r1"
  let ?c = "saturating_add_i64 opened (duration_ms d)"
  have r1: "preserves r ?r1" by (rule rotate_op.op_preserves)
  then have inv1: "reg_inv ?r1" using True by (simp add: preserves_def)
  have r2: "preserves ?r1 ?r2" by (simp add: evict_op.op_preserves)
  then have "maximum_active ?r2 = maximum_active ?r1"
    using inv1 by (simp only: preserves_def quiet_def)
  then have room: "length (windows ?r2) < maximum_active ?r2"
    using inv1 evict_soonest_length [OF inv1] by (auto simp: reg_inv_def split: if_splits)
  show ?thesis
  proof (cases "matching_token ?r1 target opened")
    case None
    then have "snd (provision_target r target m opened d) = snd (open_window ?r2 target m opened ?c)"
      by (simp add: provision_target_def Let_def split_beta)
    with preserves_trans [OF preserves_trans [OF r1 r2] open_window_preserves [OF room]]
    show ?thesis by simp
  qed (use r1 in \<open>simp add: provision_target_def\<close>)
qed (simp add: preserves_def)

interpretation provision_op: registry_op "\<lambda>r. snd (provision_target r target m opened d)"
  for target m opened d
  by standard (rule provision_target_preserves)

interpretation open_market_op: registry_op "\<lambda>r. snd (open_market r market opened d)"
  for market opened d
proof
  fix r
  show "preserves r (snd (open_market r market opened d))"
  proof (cases "target_for_market market")
    case (Some target)
    then show ?thesis
      using preserves_trans [OF provision_op.op_preserves confirm_op.update_preserves]
      by (simp add: open_market_def Let_def split_beta)
  qed (simp add: open_market_def)
qed

interpretation admit_op: registry_op "\<lambda>r. snd (admit_matching_token r target observed)"
  for target observed
  by standard
     (auto simp: admit_matching_token_def mark_admitted_op.update_preserves
        mark_incomplete_op.update_preserves split: option.splits)

interpretation active_count_op: registry_op "\<lambda>r. snd (active_count r now)" for now
  by standard (simp add: active_count_def Let_def rotate_op.op_preserves)

interpretation candidates_op: registry_op "\<lambda>r. snd (finalization_candidates r now)" for now
  by standard (simp add: finalization_candidates_def Let_def rotate_op.op_preserves)

lemma progress_fields [simp]:
  "cells (record_source_progress r p t) = cells r" "windows (record_source_progress r p t) = windows r"
  "retained (record_source_progress r p t) = retained r"
  "next_cell (record_source_progress r p t) = next_cell r"
  "maximum_active (record_source_progress r p t) = maximum_active r"
  by (simp_all add: record_source_progress_def)

interpretation progress_op: registry_op "\<lambda>r. record_source_progress r program observed"
  for program observed
proof
  fix r
  have "source_caught_up r t \<Longrightarrow> source_caught_up (record_source_progress r program observed) t" for t
    by (auto simp: source_caught_up_def record_source_progress_def split: option.splits if_splits)
  then show "preserves r (record_source_progress r program observed)"
    by (auto simp: preserves_def reg_inv_def quiet_def held_def cell_of_def)
qed

lemma preserves_fold_count:
  assumes "\<And>x n r. preserves r (snd (f x (n, r)))"
  shows "preserves r (snd (fold f xs (n, r)))"
proof (induction xs arbitrary: n r)
  case (Cons x xs)
  obtain n' r' where f: "f x (n, r) = (n', r')" by (cases "f x (n, r)")
  then have "preserves r r'" using assms [of r x n] by simp
  with Cons [of r' n'] show ?case by (simp add: f preserves_trans)
qed simp

lemma mark_gap_preserves: "preserves r (snd (mark_gap p o' reason t (n, r)))"
  by (simp add: mark_gap_def mark_incomplete_op.update_preserves)

lemma gap_field_preserves: "preserves r (r\<lparr>latest_source_coverage_gap := g\<rparr>)"
  by (simp add: preserves_def reg_inv_def quiet_def held_def cell_of_def source_caught_up_def)
     auto

interpretation gap_op: registry_op "\<lambda>r. snd (record_source_coverage_gap r program observed reason)"
  for program observed reason
  by (standard, unfold record_source_coverage_gap_def Let_def)
     (rule preserves_trans [OF gap_field_preserves preserves_fold_count [OF mark_gap_preserves]])

lemma cancel_active_retires:
  "snd (cancel_active reason target (n, r)) =
     (case map_of (windows r) target of
        None \<Rightarrow> r
      | Some t \<Rightarrow> retire_target target (update_cell
          (if was_confirmed (cell_of r t) then cancel_with_reason reason else cancel_if_pending) t r))"
  by (auto simp: cancel_active_def retire_target_def Let_def windows_remove_def retain_if_durable_def
      update_cell_def cell_of_def cancel_if_pending_def was_confirmed_def split: option.splits)

lemma cancel_active_preserves: "preserves r (snd (cancel_active reason target (n, r)))"
  unfolding cancel_active_retires
  by (auto split: option.splits
      intro: preserves_trans [OF cancel_with_reason_op.update_preserves retire_op.op_preserves]
        preserves_trans [OF cancel_if_pending_op.update_preserves retire_op.op_preserves])

lemma cancel_retained_preserves: "preserves r (snd (cancel_retained reason P t (n, r)))"
  by (simp add: cancel_retained_def cancel_with_reason_op.update_preserves)

interpretation cancel_op: registry_op "\<lambda>r. snd (cancel_confirmed_matching reason P r)" for reason P
proof
  fix r
  let ?a = "fold (cancel_active reason) (filter P (map fst (windows r))) (0, r)"
  have "preserves r (snd ?a)" by (rule preserves_fold_count [OF cancel_active_preserves])
  moreover have "preserves (snd ?a) (snd (fold (cancel_retained reason P) (retained (snd ?a)) (fst ?a, snd ?a)))"
    by (rule preserves_fold_count [OF cancel_retained_preserves])
  ultimately have "preserves r (snd (fold (cancel_retained reason P) (retained (snd ?a)) (fst ?a, snd ?a)))"
    by (rule preserves_trans)
  then show "preserves r (snd (cancel_confirmed_matching reason P r))"
    by (simp add: cancel_confirmed_matching_def Let_def split_beta)
qed

interpretation cleanup_op: registry_op "\<lambda>r. snd (cleanup_finalized r)"
proof
  fix r
  show "preserves r (snd (cleanup_finalized r))"
    by (auto simp: cleanup_finalized_def preserves_def reg_inv_def quiet_def held_def cell_of_def
        source_caught_up_def distinct_map_filter Let_def)
qed

text \<open>The order in which the hash map lists its entries may change at any time.\<close>

lemma rehash_preserves:
  assumes "mset ws = mset (windows r)"
  shows "preserves r (r\<lparr>windows := ws\<rparr>)"
proof -
  have "set ws = set (windows r)" "length ws = length (windows r)"
    using assms by (metis mset_eq_setD, metis mset_eq_length)
  moreover have "distinct (map fst ws) = distinct (map fst (windows r))"
    "distinct (map (tok_cell \<circ> snd) ws) = distinct (map (tok_cell \<circ> snd) (windows r))"
    using assms by (metis mset_eq_imp_distinct_iff mset_map)+
  ultimately show ?thesis
    by (auto simp: preserves_def reg_inv_def quiet_def held_def cell_of_def source_caught_up_def)
qed

section \<open>The system\<close>

record system =
  sys_registry :: registry
  sys_claims :: "finalization_claim list"

text \<open>
  One step of the system: an operation of the registry, of a token some thread holds, of a claim, or
  a reordering of the hash map. A claim is owned by the caller that obtained it, until it is
  committed or dropped.
\<close>

inductive step :: "system \<Rightarrow> system \<Rightarrow> bool" where
  step_provision: "step s (s\<lparr>sys_registry := snd (provision_target (sys_registry s) target m opened d)\<rparr>)"
| step_open_market: "step s (s\<lparr>sys_registry := snd (open_market (sys_registry s) market opened d)\<rparr>)"
| step_admit: "step s (s\<lparr>sys_registry := snd (admit_matching_token (sys_registry s) target observed)\<rparr>)"
| step_active_count: "step s (s\<lparr>sys_registry := snd (active_count (sys_registry s) now)\<rparr>)"
| step_progress: "step s (s\<lparr>sys_registry := record_source_progress (sys_registry s) program observed\<rparr>)"
| step_gap: "step s (s\<lparr>sys_registry :=
      snd (record_source_coverage_gap (sys_registry s) program observed reason)\<rparr>)"
| step_candidates: "step s (s\<lparr>sys_registry := snd (finalization_candidates (sys_registry s) now)\<rparr>)"
| step_cancel_all: "step s (s\<lparr>sys_registry := snd (cancel_all_confirmed (sys_registry s) reason)\<rparr>)"
| step_cancel_source: "step s (s\<lparr>sys_registry :=
      snd (cancel_source_confirmed (sys_registry s) program reason)\<rparr>)"
| step_cleanup: "step s (s\<lparr>sys_registry := snd (cleanup_finalized (sys_registry s))\<rparr>)"
| step_confirm: "step s (s\<lparr>sys_registry := update_cell (snd \<circ> confirm) t (sys_registry s)\<rparr>)"
| step_cancel_if_pending: "step s (s\<lparr>sys_registry := update_cell cancel_if_pending t (sys_registry s)\<rparr>)"
| step_mark_incomplete: "step s (s\<lparr>sys_registry :=
      update_cell (snd \<circ> mark_incomplete reason) t (sys_registry s)\<rparr>)"
| step_cancel_with_reason: "step s (s\<lparr>sys_registry :=
      update_cell (cancel_with_reason reason) t (sys_registry s)\<rparr>)"
| step_set_durable: "step s (s\<lparr>sys_registry :=
      update_cell (snd \<circ> set_durable_window_id i) t (sys_registry s)\<rparr>)"
| step_mark_admitted: "step s (s\<lparr>sys_registry := update_cell (snd \<circ> mark_admitted) t (sys_registry s)\<rparr>)"
| step_mark_settled: "step s (s\<lparr>sys_registry := update_cell (snd \<circ> mark_settled) t (sys_registry s)\<rparr>)"
| step_rehash: "mset ws = mset (windows (sys_registry s))
    \<Longrightarrow> step s (s\<lparr>sys_registry := (sys_registry s)\<lparr>windows := ws\<rparr>\<rparr>)"
| step_claim: "claim_finalization (sys_registry s) t = (Some cl, r')
    \<Longrightarrow> step s (s\<lparr>sys_registry := r', sys_claims := cl # sys_claims s\<rparr>)"
| step_drop: "cl \<in> set (sys_claims s)
    \<Longrightarrow> step s (s\<lparr>sys_registry := claim_drop cl (sys_registry s),
                 sys_claims := remove1 cl (sys_claims s)\<rparr>)"
| step_commit: "cl \<in> set (sys_claims s)
    \<Longrightarrow> step s (s\<lparr>sys_registry := snd (claim_mark_committed cl (sys_registry s)),
                 sys_claims := remove1 cl (sys_claims s)\<rparr>)"

inductive reachable :: "usize \<Rightarrow> system \<Rightarrow> bool" for capacity where
  reachable_init: "registry_new capacity = Some r
    \<Longrightarrow> reachable capacity \<lparr>sys_registry = r, sys_claims = []\<rparr>"
| reachable_step: "reachable capacity s \<Longrightarrow> step s s' \<Longrightarrow> reachable capacity s'"

text \<open>
  Outstanding claims and claim flags correspond one to one, a claimed window stays retained and
  unfinalized, and a claim of a complete window was only granted after the source caught up.
\<close>

definition claim_holds :: "registry \<Rightarrow> finalization_claim \<Rightarrow> bool" where
  "claim_holds r cl \<longleftrightarrow>
     claim_token cl \<in> set (retained r)
     \<and> cell_finalization_claimed (cell_of r (claim_token cl))
     \<and> \<not> cell_finalized (cell_of r (claim_token cl))
     \<and> cell_durable_window_id (cell_of r (claim_token cl)) \<noteq> None
     \<and> (claim_incomplete_reason cl = None \<longrightarrow> source_caught_up r (claim_token cl))
     \<and> (\<forall>reason. claim_incomplete_reason cl = Some reason
          \<longrightarrow> incomplete_reason (cell_of r (claim_token cl)) = Some reason)"

definition claims_inv :: "registry \<Rightarrow> finalization_claim list \<Rightarrow> bool" where
  "claims_inv r cls \<longleftrightarrow>
     distinct (map (\<lambda>cl. tok_cell (claim_token cl)) cls)
     \<and> (\<forall>cl\<in>set cls. claim_holds r cl)
     \<and> (\<forall>a<next_cell r. cell_finalization_claimed (cells r a)
          \<longrightarrow> (\<exists>cl\<in>set cls. tok_cell (claim_token cl) = a))
     \<and> (\<forall>a<next_cell r. cell_finalized (cells r a)
          \<longrightarrow> was_confirmed (cells r a) \<and> cell_durable_window_id (cells r a) \<noteq> None)"

definition sys_inv :: "system \<Rightarrow> bool" where
  "sys_inv s \<longleftrightarrow> reg_inv (sys_registry s) \<and> claims_inv (sys_registry s) (sys_claims s)"

lemma evolves_incomplete:
  "evolves c d \<Longrightarrow> incomplete_reason c = Some reason \<Longrightarrow> incomplete_reason d = Some reason"
  by (auto simp: evolves_def incomplete_reason_def)

lemma claims_inv_quiet:
  assumes "quiet r r'" and "reg_inv r" and "claims_inv r cls"
  shows "claims_inv r' cls"
proof -
  have low: "tok_cell (claim_token cl) < next_cell r" if "cl \<in> set cls" for cl
    using that assms(2,3) by (simp add: claims_inv_def claim_holds_def reg_inv_def held_def)
  have ev: "evolves (cells r a) (cells r' a)"
      "cell_finalized (cells r' a) = cell_finalized (cells r a)"
      "cell_finalization_claimed (cells r' a) = cell_finalization_claimed (cells r a)"
    if "a < next_cell r" for a
    using assms(1) that by (simp_all add: quiet_def)
  have durable: "cell_durable_window_id (cells r' a) \<noteq> None"
    if "a < next_cell r" "cell_durable_window_id (cells r a) \<noteq> None" for a
    using ev(1) [OF that(1)] that(2) by (simp add: evolves_def)
  have old: "a < next_cell r" if "a < next_cell r'"
      "cell_finalization_claimed (cells r' a) \<or> cell_finalized (cells r' a)" for a
    using assms(1) that unfolding quiet_def by (meson not_le)
  have claim: "claim_holds r' cl" if "cl \<in> set cls" for cl
  proof -
    let ?a = "tok_cell (claim_token cl)"
    have h: "claim_holds r cl" using assms(3) that by (simp add: claims_inv_def)
    then have "claim_token cl \<in> set (retained r')"
      using assms(1) by (simp add: quiet_def claim_holds_def)
    moreover have "source_caught_up r (claim_token cl) \<Longrightarrow> source_caught_up r' (claim_token cl)"
      using assms(1) by (simp add: quiet_def)
    moreover have "incomplete_reason (cells r ?a) = Some x \<Longrightarrow> incomplete_reason (cells r' ?a) = Some x" for x
      by (rule evolves_incomplete [OF ev(1) [OF low [OF that]]])
    ultimately show ?thesis
      using h ev(2,3) [OF low [OF that]] durable [OF low [OF that]]
      by (simp add: claim_holds_def cell_of_def)
  qed
  have "was_confirmed (cells r' a) \<and> cell_durable_window_id (cells r' a) \<noteq> None"
    if "a < next_cell r'" "cell_finalized (cells r' a)" for a
  proof -
    have a: "a < next_cell r" using old that by blast
    then have "was_confirmed (cells r a)" "cell_durable_window_id (cells r a) \<noteq> None"
      using assms(3) that(2) ev(2) [OF a] by (simp_all add: claims_inv_def)
    then show ?thesis using ev(1) [OF a] durable [OF a] by (simp add: evolves_def)
  qed
  moreover have "\<exists>cl\<in>set cls. tok_cell (claim_token cl) = a"
    if "a < next_cell r'" "cell_finalization_claimed (cells r' a)" for a
  proof -
    have a: "a < next_cell r" using old that by blast
    then show ?thesis using assms(3) that(2) ev(3) [OF a] by (simp add: claims_inv_def)
  qed
  ultimately show ?thesis using claim assms(3) unfolding claims_inv_def by blast
qed

lemma sys_inv_preserves:
  assumes "preserves (sys_registry s) r'" and "sys_inv s"
  shows "sys_inv (s\<lparr>sys_registry := r'\<rparr>)"
  using assms claims_inv_quiet unfolding preserves_def sys_inv_def by (cases s) auto

end
