(* ===== verification/Windows_Claims.thy ===== *)
theory Windows_Claims
  imports Windows_Correct
begin

text \<open>
  Finalization claims and the theorems about every reachable state of the window registry: its
  structure and capacity, what is permanent about a window, exclusivity and soundness of claims, the
  effect of coverage gaps, admission, provisioning, eviction and cancellation.
\<close>

section \<open>Claims preserve the invariant\<close>

lemma retained_update_inv:
  assumes "reg_inv r" and "t \<in> set (retained r)" and ev: "evolves (cell_of r t) (f (cell_of r t))"
  shows "reg_inv (update_cell f t r)"
proof -
  have "tok_cell u \<noteq> tok_cell t" if "(k, u) \<in> set (windows r)" for k u
    using reg_inv_cells(3) [OF assms(1)] assms(2) that by force
  then have "cell_of (update_cell f t r) u = cell_of r u" if "(k, u) \<in> set (windows r)" for k u
    using that by (force simp: cell_of_def)
  moreover have "was_confirmed (cells (update_cell f t r) a)" if "was_confirmed (cells r a)" for a
    using that ev by (auto simp: evolves_def cell_of_def)
  moreover have "cell_ok (cells (update_cell f t r) a)" if "cell_ok (cells r a)" for a
    using that ev by (auto simp: evolves_def cell_of_def)
  ultimately show ?thesis
    using assms(1) unfolding reg_inv_def by (fastforce simp: cell_of_def simp del: update_cell_simps(6))
qed

lemma evolves_flags [simp]:
  "evolves c (snd (try_claim_finalization c))" "evolves c (release_finalization c)"
  "evolves c (snd (mark_finalized c))"
  by (auto simp: try_claim_finalization_def release_finalization_def mark_finalized_def evolution_defs)

lemma claim_finalization_SomeD:
  assumes "claim_finalization r t = (Some cl, r')"
  shows "claim_token cl \<in> set (retained r)" and "claimable r t (claim_token cl)"
    and "claim_incomplete_reason cl = incomplete_reason (cell_of r (claim_token cl))"
    and "claim_incomplete_reason cl = None \<longrightarrow> source_caught_up r (claim_token cl)"
    and "\<not> cell_finalization_claimed (cell_of r (claim_token cl))"
    and "r' = update_cell (snd \<circ> try_claim_finalization) (claim_token cl) r"
  using assms
  by (auto simp: claim_finalization_def find_Some_iff try_claim_finalization_def
      split: option.splits if_splits)

lemma claim_inv:
  assumes "sys_inv s" and claim: "claim_finalization (sys_registry s) t = (Some cl, r')"
  shows "sys_inv (s\<lparr>sys_registry := r', sys_claims := cl # sys_claims s\<rparr>)"
proof -
  let ?r = "sys_registry s" and ?t = "claim_token cl"
  note c = claim_finalization_SomeD [OF claim]
  have inv: "reg_inv ?r" and cls: "claims_inv ?r (sys_claims s)"
    using assms(1) by (simp_all add: sys_inv_def)
  have reg: "reg_inv r'" unfolding c(6) by (rule retained_update_inv [OF inv c(1)]) simp
  have t': "cell_of r' ?t = (cell_of ?r ?t)\<lparr>cell_finalization_claimed := True\<rparr>"
    using c(5) by (simp add: c(6) cell_of_def try_claim_finalization_def)
  have other: "cells r' a = cells ?r a" if "a \<noteq> tok_cell ?t" for a
    using that by (simp add: c(6))
  have new: "tok_cell (claim_token cl') \<noteq> tok_cell ?t" if "cl' \<in> set (sys_claims s)" for cl'
  proof
    assume "tok_cell (claim_token cl') = tok_cell ?t"
    then have "cell_finalization_claimed (cell_of ?r ?t)"
      using cls that unfolding claims_inv_def claim_holds_def by (metis cell_of_def)
    then show False using c(5) by simp
  qed
  have "retained r' = retained ?r" "next_cell r' = next_cell ?r" "source_caught_up r' = source_caught_up ?r"
    by (simp_all add: c(6))
  note fields = this
  have "distinct (map (\<lambda>cl. tok_cell (claim_token cl)) (cl # sys_claims s))"
    using cls new by (simp add: claims_inv_def) (metis imageE)
  moreover have "claim_holds r' cl" if "cl' = cl" for cl'
    using c(1-4) t' by (auto simp: claim_holds_def claimable_def fields incomplete_reason_def)
  moreover have "claim_holds r' cl'" if "cl' \<in> set (sys_claims s)" for cl'
    using cls that other [OF new [OF that]]
    by (simp add: claim_holds_def claims_inv_def fields cell_of_def)
  moreover have "\<exists>cl'\<in>set (cl # sys_claims s). tok_cell (claim_token cl') = a"
    if "a < next_cell r'" "cell_finalization_claimed (cells r' a)" for a
    using cls that other [of a] by (cases "a = tok_cell ?t") (auto simp: claims_inv_def fields)
  moreover have "was_confirmed (cells r' a) \<and> cell_durable_window_id (cells r' a) \<noteq> None"
    if "a < next_cell r'" "cell_finalized (cells r' a)" for a
  proof -
    have "a \<noteq> tok_cell ?t" using that(2) t' c(2) by (auto simp: cell_of_def claimable_def)
    then show ?thesis using that cls other [of a] by (simp add: claims_inv_def fields)
  qed
  ultimately have "claims_inv r' (cl # sys_claims s)" unfolding claims_inv_def by simp
  then show ?thesis using reg by (simp add: sys_inv_def)
qed

text \<open>Giving a claim back, with or without finalizing its window.\<close>

lemma release_inv:
  assumes "sys_inv s" and cl: "cl \<in> set (sys_claims s)"
    and ev: "evolves (cell_of (sys_registry s) (claim_token cl)) (f (cell_of (sys_registry s) (claim_token cl)))"
    and free: "\<not> cell_finalization_claimed (f (cell_of (sys_registry s) (claim_token cl)))"
  shows "sys_inv (s\<lparr>sys_registry := update_cell f (claim_token cl) (sys_registry s),
                    sys_claims := remove1 cl (sys_claims s)\<rparr>)"
proof -
  let ?r = "sys_registry s" and ?t = "claim_token cl" and ?cls = "remove1 cl (sys_claims s)"
  let ?r' = "update_cell f ?t ?r"
  have inv: "reg_inv ?r" and cls: "claims_inv ?r (sys_claims s)"
    using assms(1) by (simp_all add: sys_inv_def)
  have t: "?t \<in> set (retained ?r)" "cell_durable_window_id (cell_of ?r ?t) \<noteq> None"
    using cls cl by (simp_all add: claims_inv_def claim_holds_def)
  have reg: "reg_inv ?r'" by (rule retained_update_inv [of ?r ?t f, OF inv t(1) ev])
  have "was_confirmed (cell_of ?r ?t)" using inv t(1) by (simp add: reg_inv_def)
  then have t': "was_confirmed (cells ?r' (tok_cell ?t))"
      "cell_durable_window_id (cells ?r' (tok_cell ?t)) \<noteq> None"
    using ev t(2) by (simp_all add: evolves_def cell_of_def)
  have other: "cells ?r' a = cells ?r a" if "a \<noteq> tok_cell ?t" for a using that by simp
  have dist: "distinct (map (\<lambda>cl. tok_cell (claim_token cl)) (sys_claims s))"
    using cls by (simp add: claims_inv_def)
  have mem: "cl' \<in> set ?cls \<longleftrightarrow> cl' \<in> set (sys_claims s) \<and> cl' \<noteq> cl" for cl'
    using dist by (simp add: distinct_map)
  have diff: "tok_cell (claim_token cl') \<noteq> tok_cell ?t" if "cl' \<in> set ?cls" for cl'
    using dist that cl unfolding mem distinct_map inj_on_def by metis
  have "distinct (map (\<lambda>cl. tok_cell (claim_token cl)) ?cls)"
    using dist by (simp add: distinct_map inj_on_diff)
  moreover have "\<exists>cl'\<in>set ?cls. tok_cell (claim_token cl') = a"
    if flag: "a < next_cell ?r" "cell_finalization_claimed (cells ?r' a)" for a
  proof -
    have a: "a \<noteq> tok_cell ?t" using flag(2) free by (auto simp: cell_of_def)
    then obtain cl' where "cl' \<in> set (sys_claims s)" "tok_cell (claim_token cl') = a"
      using cls flag by (auto simp: claims_inv_def)
    then show ?thesis using a by (auto simp: mem)
  qed
  moreover have "was_confirmed (cells ?r' a) \<and> cell_durable_window_id (cells ?r' a) \<noteq> None"
    if "a < next_cell ?r" "cell_finalized (cells ?r' a)" for a
    using cls that t' other [of a] unfolding claims_inv_def by (cases "a = tok_cell ?t") auto
  ultimately have "claims_inv ?r' ?cls"
    using cls other diff
    unfolding claims_inv_def claim_holds_def cell_of_def by (auto simp: mem simp del: update_cell_simps(6))
  then show ?thesis using reg by (simp add: sys_inv_def)
qed

lemma claim_mark_committed_update:
  "snd (claim_mark_committed cl r)
     = update_cell (release_finalization \<circ> snd \<circ> mark_finalized) (claim_token cl) r"
  by (simp add: claim_mark_committed_def claim_drop_def update_cell_def cell_of_def)

lemma sys_inv_step: "step s s' \<Longrightarrow> sys_inv s \<Longrightarrow> sys_inv s'"
proof (induction rule: step.induct)
  case (step_claim s t cl r')
  then show ?case by (simp add: claim_inv)
next
  case (step_drop cl s)
  have "\<not> cell_finalization_claimed (release_finalization c)" for c
    by (simp add: release_finalization_def)
  then show ?case
    using release_inv [OF step_drop(2,1), of release_finalization] by (simp add: claim_drop_def)
next
  case (step_commit cl s)
  let ?c = "cell_of (sys_registry s) (claim_token cl)"
  have "evolves ?c ((release_finalization \<circ> snd \<circ> mark_finalized) ?c)"
    using evolves_trans [OF evolves_flags(3) evolves_flags(2)] by simp
  then show ?case
    using release_inv [OF step_commit(2,1), of "release_finalization \<circ> snd \<circ> mark_finalized"]
    by (simp add: claim_mark_committed_update release_finalization_def)
qed (simp_all add: sys_inv_preserves provision_op.op_preserves open_market_op.op_preserves
    admit_op.op_preserves active_count_op.op_preserves progress_op.op_preserves gap_op.op_preserves
    candidates_op.op_preserves cancel_op.op_preserves cleanup_op.op_preserves rehash_preserves
    cancel_all_confirmed_def cancel_source_confirmed_def confirm_op.update_preserves
    cancel_if_pending_op.update_preserves mark_incomplete_op.update_preserves
    cancel_with_reason_op.update_preserves set_durable_window_id_op.update_preserves
    mark_admitted_op.update_preserves mark_settled_op.update_preserves)

lemma reachable_inv: "reachable capacity s \<Longrightarrow> sys_inv s"
proof (induction rule: reachable.induct)
  case (reachable_init r)
  then show ?case
    by (auto simp: registry_new_def sys_inv_def reg_inv_def claims_inv_def held_def split: if_splits)
qed (rule sys_inv_step)

section \<open>What no step undoes\<close>

definition advances :: "registry \<Rightarrow> registry \<Rightarrow> bool" where
  "advances r r' \<longleftrightarrow> next_cell r \<le> next_cell r' \<and> maximum_active r' = maximum_active r
     \<and> (\<forall>a<next_cell r. evolves (cells r a) (cells r' a))"

lemma advances_refl [simp]: "advances r r"
  by (simp add: advances_def)

lemma advances_trans: "advances a b \<Longrightarrow> advances b c \<Longrightarrow> advances a c"
  unfolding advances_def by (metis evolves_trans order.trans order_less_le_trans)

lemma preserves_advances: "preserves r r' \<Longrightarrow> reg_inv r \<Longrightarrow> advances r r'"
  by (simp add: preserves_def quiet_def advances_def)

lemma update_advances:
  "(\<And>c. evolves c (f c)) \<Longrightarrow> advances r (update_cell f t r)"
  by (simp add: advances_def)

lemma step_advances:
  "step s s' \<Longrightarrow> sys_inv s \<Longrightarrow> advances (sys_registry s) (sys_registry s')"
proof (induction rule: step.induct)
  case (step_claim s t cl r')
  then show ?case
    using claim_finalization_SomeD(6) [OF step_claim(1)] by (simp add: update_advances)
next
  case (step_drop cl s)
  then show ?case by (simp add: claim_drop_def update_advances)
next
  case (step_commit cl s)
  have "evolves c ((release_finalization \<circ> snd \<circ> mark_finalized) c)" for c
    using evolves_trans [OF evolves_flags(3) evolves_flags(2)] by simp
  then show ?case by (simp add: claim_mark_committed_update update_advances)
qed (simp_all add: sys_inv_def preserves_advances provision_op.op_preserves open_market_op.op_preserves
    admit_op.op_preserves active_count_op.op_preserves progress_op.op_preserves gap_op.op_preserves
    candidates_op.op_preserves cancel_op.op_preserves cleanup_op.op_preserves rehash_preserves
    cancel_all_confirmed_def cancel_source_confirmed_def confirm_op.update_preserves
    cancel_if_pending_op.update_preserves mark_incomplete_op.update_preserves
    cancel_with_reason_op.update_preserves set_durable_window_id_op.update_preserves
    mark_admitted_op.update_preserves mark_settled_op.update_preserves)

lemma steps_advance:
  "step\<^sup>*\<^sup>* s s' \<Longrightarrow> sys_inv s \<Longrightarrow> sys_inv s' \<and> advances (sys_registry s) (sys_registry s')"
  by (induction rule: rtranclp_induct) (auto intro: sys_inv_step step_advances advances_trans)

lemma reachable_capacity: "reachable capacity s \<Longrightarrow> maximum_active (sys_registry s) = capacity"
proof (induction rule: reachable.induct)
  case (reachable_step s s')
  then show ?case using step_advances [of s s'] reachable_inv [of capacity s] by (simp add: advances_def)
qed (auto simp: registry_new_def split: if_splits)

text \<open>
  C15: in every reachable state the registry holds at most its capacity of active windows, one for
  each target and each filed under its own target; no two windows share their counters; every
  retained window was confirmed; an active window is neither claimed nor finalized; no window has
  settled more observations than it admitted; and a durable id is positive and belongs to a
  confirmed window.
\<close>

theorem registry_well_formed:
  assumes "reachable capacity s"
  defines "r \<equiv> sys_registry s"
  shows "length (windows r) \<le> capacity \<and> distinct (map fst (windows r))
    \<and> (\<forall>(k, t)\<in>set (windows r). tok_target t = k
         \<and> \<not> cell_finalized (cell_of r t) \<and> \<not> cell_finalization_claimed (cell_of r t))
    \<and> distinct (map tok_cell (held r))
    \<and> (\<forall>t\<in>set (retained r). was_confirmed (cell_of r t))
    \<and> (\<forall>a<next_cell r. unat (cell_settled (cells r a)) \<le> unat (cell_admitted (cells r a))
         \<and> (\<forall>i. cell_durable_window_id (cells r a) = Some i \<longrightarrow> 0 < i \<and> was_confirmed (cells r a)))"
  using reachable_inv [OF assms(1)] reachable_capacity [OF assms(1)]
  unfolding sys_inv_def reg_inv_def r_def by (simp add: cell_ok_def word_le_nat_alt)

text \<open>
  C19: what has happened to a window stays so, whatever the other threads do next: its first
  incompleteness reason, its durable id, its confirmation, its cancellation and its finalization
  are permanent, and its counters never decrease.
\<close>

theorem window_history_permanent:
  assumes "reachable capacity s" and "step\<^sup>*\<^sup>* s s'" and "a < next_cell (sys_registry s)"
  defines "c \<equiv> cells (sys_registry s) a" and "d \<equiv> cells (sys_registry s') a"
  shows "(\<forall>reason. incomplete_reason c = Some reason \<longrightarrow> incomplete_reason d = Some reason)
    \<and> (\<forall>i. cell_durable_window_id c = Some i \<longrightarrow> cell_durable_window_id d = Some i)
    \<and> (was_confirmed c \<longrightarrow> was_confirmed d)
    \<and> (token_status c = WindowCancelled \<longrightarrow> token_status d = WindowCancelled)
    \<and> (cell_finalized c \<longrightarrow> cell_finalized d)
    \<and> unat (cell_admitted c) \<le> unat (cell_admitted d) \<and> unat (cell_settled c) \<le> unat (cell_settled d)"
proof -
  have ev: "evolves c d"
    using steps_advance [OF assms(2) reachable_inv [OF assms(1)]] assms(3)
    by (simp add: advances_def c_def d_def)
  then have "token_status c = WindowCancelled \<longrightarrow> token_status d = WindowCancelled"
    by (cases "cell_state c") (simp_all add: evolves_def)
  then show ?thesis
    using ev evolves_incomplete [OF ev] by (simp add: evolves_def word_le_nat_alt)
qed

text \<open>
  C20: a window has at most one outstanding finalization claim. While it is outstanding no second
  claim on the window succeeds, and committing it finalizes the window for the first and only
  time.
\<close>

theorem claim_exclusive:
  assumes "reachable capacity s" and "cl \<in> set (sys_claims s)"
    and "tok_cell t = tok_cell (claim_token cl)"
  shows "fst (claim_finalization (sys_registry s) t) = None
    \<and> fst (claim_mark_committed cl (sys_registry s))
    \<and> cell_finalized (cell_of (snd (claim_mark_committed cl (sys_registry s))) t)
    \<and> (\<forall>cl'\<in>set (sys_claims s). tok_cell (claim_token cl') = tok_cell t \<longrightarrow> cl' = cl)"
proof -
  let ?r = "sys_registry s"
  have cls: "claims_inv ?r (sys_claims s)" using reachable_inv [OF assms(1)] by (simp add: sys_inv_def)
  then have flags: "cell_finalization_claimed (cell_of ?r t)" "\<not> cell_finalized (cell_of ?r (claim_token cl))"
    using assms(2,3) by (simp_all add: claims_inv_def claim_holds_def cell_of_def)
  have "fst (claim_finalization ?r t) = None"
  proof (cases "claim_finalization ?r t")
    case (Pair found r')
    show ?thesis
    proof (cases found)
      case (Some cl')
      then have "claim_finalization ?r t = (Some cl', r')" using Pair by simp
      from claim_finalization_SomeD(2,5) [OF this] flags(1) show ?thesis
        by (simp add: claimable_def cell_of_def)
    qed (simp add: Pair)
  qed
  moreover have "cl' = cl" if "cl' \<in> set (sys_claims s)" "tok_cell (claim_token cl') = tok_cell t" for cl'
    using cls that assms(2,3) unfolding claims_inv_def distinct_map inj_on_def by metis
  moreover have "fst (claim_mark_committed cl ?r)"
    using flags(2) by (simp add: claim_mark_committed_def mark_finalized_def)
  moreover have "cell_finalized (cell_of (snd (claim_mark_committed cl ?r)) t)"
    using assms(3) by (simp add: claim_mark_committed_update cell_of_def release_finalization_def
        mark_finalized_def)
  ultimately show ?thesis by blast
qed

text \<open>
  C4: a claim is only granted on a retained window that was confirmed, has a durable id, has settled
  every observation it admitted and is not finalized; and it only calls the window complete when
  no incompleteness was recorded and its source has been seen at or after the end of the window.
\<close>

theorem claim_sound:
  assumes "reachable capacity s" and "claim_finalization (sys_registry s) t = (Some cl, r')"
  defines "c \<equiv> cell_of (sys_registry s) (claim_token cl)"
  shows "claim_token cl \<in> set (retained (sys_registry s)) \<and> tok_cell (claim_token cl) = tok_cell t
    \<and> token_eq (claim_token cl) t \<and> was_confirmed c \<and> cell_durable_window_id c \<noteq> None
    \<and> cell_admitted c = cell_settled c \<and> \<not> cell_finalized c
    \<and> claim_incomplete_reason cl = incomplete_reason c
    \<and> (claim_incomplete_reason cl = None \<longrightarrow>
         cell_incomplete_reason c = WINDOW_COMPLETE
         \<and> (\<exists>watermark. latest_source_progress (sys_registry s)
                (target_source_program (tok_target (claim_token cl))) = Some watermark
              \<and> closes_at_unix_ms (tok_window (claim_token cl)) \<le> watermark))"
proof -
  note c = claim_finalization_SomeD [OF assms(2)]
  have "tok_cell (claim_token cl) < next_cell (sys_registry s)" and
    ok: "\<forall>a<next_cell (sys_registry s). cell_ok (cells (sys_registry s) a)"
    using reachable_inv [OF assms(1)] c(1) by (simp_all add: sys_inv_def reg_inv_def held_def)
  then have "cell_ok (cell_of (sys_registry s) (claim_token cl))" by (simp add: cell_of_def)
  then show ?thesis
    using c incomplete_reason_None_iff [of "cell_of (sys_registry s) (claim_token cl)"]
    by (auto simp: c_def claimable_def is_settled_def source_caught_up_def split: option.splits)
qed

section \<open>Coverage gaps\<close>

lemma mark_gap_cells:
  "cell_finalized (cells (snd (mark_gap p o' reason x (n, r))) a) = cell_finalized (cells r a)"
  "cell_incomplete_reason (cells r a) \<noteq> WINDOW_COMPLETE
     \<Longrightarrow> cell_incomplete_reason (cells (snd (mark_gap p o' reason x (n, r))) a) \<noteq> WINDOW_COMPLETE"
  "in_gap p o' (cell_of r x) x
     \<Longrightarrow> cell_incomplete_reason (cell_of (snd (mark_gap p o' reason x (n, r))) x) \<noteq> WINDOW_COMPLETE"
  by (simp_all add: mark_gap_def mark_incomplete_def cell_of_def)

lemma fold_mark_gap_keeps:
  "cell_incomplete_reason (cells r a) \<noteq> WINDOW_COMPLETE \<Longrightarrow>
     cell_incomplete_reason (cells (snd (fold (mark_gap p o' reason) xs (n, r))) a) \<noteq> WINDOW_COMPLETE"
proof (induction xs arbitrary: n r)
  case (Cons x xs)
  obtain n' r' where f: "mark_gap p o' reason x (n, r) = (n', r')" by (cases "mark_gap p o' reason x (n, r)")
  then show ?case using mark_gap_cells(2) [OF Cons.prems, of p o' reason x n] Cons.IH [of r' n'] by simp
qed simp

lemma fold_mark_gap_marks:
  "t \<in> set xs \<Longrightarrow> in_gap p o' (cell_of r t) t \<Longrightarrow>
     cell_incomplete_reason (cell_of (snd (fold (mark_gap p o' reason) xs (n, r))) t) \<noteq> WINDOW_COMPLETE"
proof (induction xs arbitrary: n r)
  case (Cons x xs)
  obtain n' r' where f: "mark_gap p o' reason x (n, r) = (n', r')" by (cases "mark_gap p o' reason x (n, r)")
  show ?case
  proof (cases "x = t")
    case True
    then show ?thesis
      using mark_gap_cells(3) [of p o' r t reason n] Cons.prems(2) f
        fold_mark_gap_keeps [of r' "tok_cell t" p o' reason xs n'] by (simp add: cell_of_def)
  next
    case False
    moreover have "in_gap p o' (cell_of r' t) t"
      using Cons.prems(2) mark_gap_cells(1) [of p o' reason x n r "tok_cell t"] f
      by (simp add: in_gap_def cell_of_def)
    ultimately show ?thesis using Cons f by simp
  qed
qed simp

lemma gap_marks:
  assumes "t \<in> set (held r)" and "in_gap program observed (cell_of r t) t"
  shows "cell_incomplete_reason
    (cell_of (snd (record_source_coverage_gap r program observed reason)) t) \<noteq> WINDOW_COMPLETE"
  using assms unfolding record_source_coverage_gap_def Let_def
  by (intro fold_mark_gap_marks) (simp_all add: held_def in_gap_def cell_of_def)

lemma marked_never_complete:
  assumes "sys_inv s" and "tok_cell t < next_cell (sys_registry s)"
    and "cell_incomplete_reason (cell_of (sys_registry s) t) \<noteq> WINDOW_COMPLETE"
    and "step\<^sup>*\<^sup>* s s'"
    and "claim_finalization (sys_registry s') u = (Some cl, r')" and "tok_cell u = tok_cell t"
  shows "claim_incomplete_reason cl \<noteq> None"
proof -
  have "evolves (cells (sys_registry s) (tok_cell t)) (cells (sys_registry s') (tok_cell t))"
    and inv': "sys_inv s'"
    using steps_advance [OF assms(4,1)] assms(2) by (simp_all add: advances_def)
  then have "cell_incomplete_reason (cell_of (sys_registry s') t) \<noteq> WINDOW_COMPLETE"
    using assms(3) by (simp add: evolves_def cell_of_def)
  moreover note c = claim_finalization_SomeD [OF assms(5)]
  have cell: "cell_of (sys_registry s') (claim_token cl) = cell_of (sys_registry s') t"
    using c(2) assms(6) by (simp add: claimable_def cell_of_def)
  have "cell_ok (cell_of (sys_registry s') (claim_token cl))"
    using inv' c(1) by (simp add: sys_inv_def reg_inv_def held_def cell_of_def)
  ultimately show ?thesis using c(3) incomplete_reason_None_iff cell by auto
qed

text \<open>
  C3: a coverage gap is never forgotten. When a gap of a source is recorded at a time inside a
  window of that source that is active or awaiting finalization, then however the system continues,
  no claim on that window ever calls it complete.
\<close>

theorem gap_excludes_completeness:
  assumes "reachable capacity s"
    and "t \<in> set (held (sys_registry s))" and "in_gap program observed (cell_of (sys_registry s) t) t"
    and "step\<^sup>*\<^sup>* (s\<lparr>sys_registry :=
           snd (record_source_coverage_gap (sys_registry s) program observed reason)\<rparr>) s'"
    and "claim_finalization (sys_registry s') u = (Some cl, r')" and "tok_cell u = tok_cell t"
  shows "claim_incomplete_reason cl \<noteq> None"
proof -
  let ?r1 = "snd (record_source_coverage_gap (sys_registry s) program observed reason)"
  have inv: "sys_inv s" by (rule reachable_inv [OF assms(1)])
  have inv1: "sys_inv (s\<lparr>sys_registry := ?r1\<rparr>)" by (rule sys_inv_preserves [OF gap_op.op_preserves inv])
  have "tok_cell t < next_cell (sys_registry s)"
    using inv assms(2) by (simp add: sys_inv_def reg_inv_def)
  moreover have "quiet (sys_registry s) ?r1" using gap_op.op_quiet inv by (simp add: sys_inv_def)
  ultimately show ?thesis
    using marked_never_complete [OF inv1 _ _ assms(4-6)] gap_marks [OF assms(2,3), of reason]
    by (simp add: quiet_def)
qed

section \<open>Provisioning\<close>

lemma rotate_gap [simp]:
  "latest_source_coverage_gap (rotate_closed_windows now r) = latest_source_coverage_gap r"
proof -
  have "latest_source_coverage_gap (fold retire_target ks r) = latest_source_coverage_gap r" for ks
    by (induction ks arbitrary: r)
       (auto simp: retire_target_def retain_if_durable_def windows_remove_def split: option.splits)
  then show ?thesis by (simp add: rotate_closed_windows_def)
qed

lemma evict_gap [simp]: "latest_source_coverage_gap (evict_soonest r) = latest_source_coverage_gap r"
  by (auto simp: evict_soonest_def retain_if_durable_def windows_remove_def split: option.splits)

definition expected_reason ::
    "registry \<Rightarrow> observation_target \<Rightarrow> i64 \<Rightarrow> i64 \<Rightarrow> window_incomplete_reason option" where
  "expected_reason r target opened closes =
     (case latest_source_coverage_gap r (target_source_program target) of
        None \<Rightarrow> None
      | Some gap \<Rightarrow> if opened \<le> gap_observed_at gap \<and> gap_observed_at gap < closes
                   then Some (gap_reason gap) else None)"

lemma open_window_result:
  assumes "open_window r target m opened closes = (t, r')"
  shows "tok_window t = \<lparr>win_target = target, win_mint = m, opened_at_unix_ms = opened,
                         closes_at_unix_ms = closes\<rparr>"
    and "(target, t) \<in> set (windows r')" and "cell_state (cell_of r' t) = WINDOW_PENDING"
    and "cell_admitted (cell_of r' t) = 0" and "cell_durable_window_id (cell_of r' t) = None"
    and "incomplete_reason (cell_of r' t) = expected_reason r target opened closes"
  using assms
  by (auto simp: open_window_def Let_def cell_of_def fresh_cell_def mark_incomplete_def
      incomplete_reason_def expected_reason_def split: option.splits if_splits)

text \<open>
  Provisioning never extends a window. If the target has an open window the very same token is
  returned; otherwise a new pending window of exactly the requested length is registered for it,
  with no admissions, no durable id and, when the source's latest coverage gap lies inside it, that
  gap's reason already recorded.
\<close>

theorem provision_non_extending:
  assumes "reachable capacity s" and "provision_target (sys_registry s) target m opened d = (p, r')"
  defines "r \<equiv> sys_registry s"
  shows "(\<not> newly_opened p \<longrightarrow>
        (target, prov_token p) \<in> set (windows r)
        \<and> is_open_at (tok_window (prov_token p)) (cell_of r (prov_token p)) opened)
     \<and> (newly_opened p \<longrightarrow>
        (\<forall>t. (target, t) \<in> set (windows r) \<longrightarrow> \<not> is_open_at (tok_window t) (cell_of r t) opened)
        \<and> tok_window (prov_token p) = \<lparr>win_target = target, win_mint = m, opened_at_unix_ms = opened,
             closes_at_unix_ms = saturating_add_i64 opened (duration_ms d)\<rparr>
        \<and> (target, prov_token p) \<in> set (windows r')
        \<and> token_status (cell_of r' (prov_token p)) = WindowPending
        \<and> cell_admitted (cell_of r' (prov_token p)) = 0
        \<and> cell_durable_window_id (cell_of r' (prov_token p)) = None
        \<and> incomplete_reason (cell_of r' (prov_token p))
            = expected_reason r target opened (saturating_add_i64 opened (duration_ms d)))"
proof -
  let ?r1 = "rotate_closed_windows opened r"
  let ?r2 = "if maximum_active ?r1 \<le> length (windows ?r1) then evict_soonest ?r1 else ?r1"
  let ?c = "saturating_add_i64 opened (duration_ms d)"
  have "reg_inv r" using reachable_inv [OF assms(1)] by (simp add: sys_inv_def r_def)
  then have dist: "distinct (map fst (windows r))" "distinct (map fst (windows ?r1))"
    using rotate_op.op_inv by (simp_all add: reg_inv_def)
  have rot: "(target, t) \<in> set (windows ?r1) \<longleftrightarrow>
      (target, t) \<in> set (windows r) \<and> is_open_at (tok_window t) (cell_of r t) opened" for t
    using rotated_windows_open [OF dist(1)] by (auto simp: is_open_at_def)
  show ?thesis
  proof (cases "matching_token ?r1 target opened")
    case (Some t)
    then have "p = \<lparr>prov_token = t, newly_opened = False\<rparr>" "(target, t) \<in> set (windows ?r1)"
      using assms(2) [folded r_def] by (auto simp: provision_target_def matching_token_def
          dest: map_of_SomeD split: option.splits if_splits)
    then show ?thesis using rot by simp
  next
    case None
    then obtain t where t: "open_window ?r2 target m opened ?c = (t, r')"
        and p: "p = \<lparr>prov_token = t, newly_opened = True\<rparr>"
      using assms(2) [folded r_def] by (auto simp: provision_target_def Let_def split: prod.splits)
    have "\<not> is_open_at (tok_window u) (cell_of r u) opened" if "(target, u) \<in> set (windows r)" for u
    proof
      assume "is_open_at (tok_window u) (cell_of r u) opened"
      then have "map_of (windows ?r1) target = Some u" using rot that dist(2) by simp
      then show False
        using None \<open>is_open_at (tok_window u) (cell_of r u) opened\<close>
        by (simp add: matching_token_def cell_of_def)
    qed
    moreover have "expected_reason ?r2 target opened ?c = expected_reason r target opened ?c"
      by (simp add: expected_reason_def)
    ultimately show ?thesis using open_window_result [OF t] by (simp add: p)
  qed
qed

lemma retire_target_cells [simp]: "cells (retire_target target r) = cells r"
  by (auto simp: retire_target_def retain_if_durable_def windows_remove_def split: option.splits)

lemma retire_target_retains:
  "map_of (windows r) target = Some t \<Longrightarrow> was_confirmed (cell_of r t) \<Longrightarrow> \<not> cell_finalized (cell_of r t)
     \<Longrightarrow> t \<in> set (retained (retire_target target r))"
  by (simp add: retire_target_def retain_if_durable_def windows_remove_def cell_of_def)

lemma cancel_with_reason_cancelled:
  "token_status (cancel_with_reason reason c) = WindowCancelled"
  by (simp add: cancel_with_reason_def split: window_state.splits)

lemma cancelled_incomplete:
  assumes "cell_ok c" and "was_confirmed c"
  shows "incomplete_reason (cancel_with_reason reason c) \<noteq> None"
proof -
  have ok: "cell_ok (cancel_with_reason reason c)"
    using cancel_with_reason_op.f_evolves assms(1) unfolding evolves_def by blast
  have "cell_state (cancel_with_reason reason c) = WINDOW_CANCELLED_CONFIRMED"
    using assms(2) by (auto simp: cancel_with_reason_def was_confirmed_def)
  then show ?thesis using ok incomplete_reason_None_iff [OF ok] by (simp add: cell_ok_def)
qed

lemma evict_soonest_effect:
  assumes "reg_inv r" and "(k, t) \<in> set (windows r)" and "(k, t) \<notin> set (windows (evict_soonest r))"
  shows "\<forall>(j, u)\<in>set (windows r). closes_at_unix_ms (tok_window t) \<le> closes_at_unix_ms (tok_window u)"
    and "cell_of (evict_soonest r) t = cancel_with_reason CapacityEvicted (cell_of r t)"
    and "was_confirmed (cell_of r t) \<Longrightarrow> t \<in> set (retained (evict_soonest r))"
proof -
  have ne: "windows r \<noteq> []" using assms(2) by auto
  obtain x u where x: "(x, u) \<in> set (windows r)"
    "\<forall>(j, v)\<in>set (windows r). (closes_at_unix_ms (tok_window u), x) \<le> (closes_at_unix_ms (tok_window v), j)"
    "evict_soonest r = retire_target x (update_cell (cancel_with_reason CapacityEvicted) u r)"
    by (rule evict_soonest_retires [OF assms(1) ne])
  have "k = x" using assms(2,3) x(3) by (auto simp: retire_target_windows)
  moreover have t: "map_of (windows r) k = Some t" using assms(1,2) by (simp add: reg_inv_def)
  ultimately have u: "u = t" "k = x" using assms(1) x(1) by (auto simp: reg_inv_def)
  show "\<forall>(j, u)\<in>set (windows r). closes_at_unix_ms (tok_window t) \<le> closes_at_unix_ms (tok_window u)"
    using x(2) u by (auto simp: less_eq_prod_def)
  show "cell_of (evict_soonest r) t = cancel_with_reason CapacityEvicted (cell_of r t)"
    by (simp add: x(3) u cell_of_def)
  show "t \<in> set (retained (evict_soonest r))" if "was_confirmed (cell_of r t)"
  proof -
    have "was_confirmed (cancel_with_reason CapacityEvicted (cell_of r t))"
      using cancel_with_reason_op.f_evolves that unfolding evolves_def by blast
    moreover have "\<not> cell_finalized (cell_of r t)" using assms(1,2) by (auto simp: reg_inv_def)
    ultimately show ?thesis
      using t u unfolding x(3)
      by (intro retire_target_retains) (simp_all add: cell_of_def cancel_with_reason_op.f_finalized)
  qed
qed

text \<open>
  Only the window that closes soonest is ever evicted for capacity, and an eviction is recorded:
  an open window that a provisioning removed closes no later than any other open window, is
  cancelled, and, if it was confirmed, is retained for finalization as incomplete.
\<close>

theorem eviction_is_soonest:
  assumes "reachable capacity s" and "provision_target (sys_registry s) target m opened d = (p, r')"
    and "(k, t) \<in> set (windows (sys_registry s))"
    and "is_open_at (tok_window t) (cell_of (sys_registry s) t) opened"
    and "(k, t) \<notin> set (windows r')"
  defines "r \<equiv> sys_registry s"
  shows "(\<forall>(j, u)\<in>set (windows r). is_open_at (tok_window u) (cell_of r u) opened
            \<longrightarrow> closes_at_unix_ms (tok_window t) \<le> closes_at_unix_ms (tok_window u))
     \<and> token_status (cell_of r' t) = WindowCancelled
     \<and> (was_confirmed (cell_of r t) \<longrightarrow> t \<in> set (retained r') \<and> incomplete_reason (cell_of r' t) \<noteq> None)"
proof -
  let ?r1 = "rotate_closed_windows opened r" and ?c = "saturating_add_i64 opened (duration_ms d)"
  let ?r2 = "evict_soonest ?r1"
  have inv: "reg_inv r" using reachable_inv [OF assms(1)] by (simp add: sys_inv_def r_def)
  then have dist: "distinct (map fst (windows r))" by (simp add: reg_inv_def)
  have inv1: "reg_inv ?r1" by (rule rotate_op.op_inv [OF inv])
  have rot: "(j, u) \<in> set (windows ?r1) \<longleftrightarrow>
      (j, u) \<in> set (windows r) \<and> is_open_at (tok_window u) (cell_of r u) opened" for j u
    using rotated_windows_open [OF dist] by (auto simp: is_open_at_def)
  then have kt: "(k, t) \<in> set (windows ?r1)" using assms(3,4) by (simp add: r_def)
  have none: "matching_token ?r1 target opened = None"
    using assms(2) [folded r_def] assms(5) kt
    by (cases "matching_token ?r1 target opened") (auto simp: provision_target_def)
  have "map_of (windows ?r1) k = Some t" using kt inv1 by (simp add: reg_inv_def)
  then have miss: "k \<noteq> target"
    using none assms(4) [folded r_def] by (auto simp: matching_token_def cell_of_def)
  have "r' = snd (open_window (if maximum_active ?r1 \<le> length (windows ?r1)
      then ?r2 else ?r1) target m opened ?c)"
    using assms(2) [folded r_def] none by (auto simp: provision_target_def Let_def split: prod.splits)
  then have r': "r' = snd (open_window ?r2 target m opened ?c)" and gone: "(k, t) \<notin> set (windows ?r2)"
    using assms(5) miss kt by (auto simp: open_window_def Let_def split: if_splits)
  note ev = evict_soonest_effect [OF inv1 kt gone]
  have low: "tok_cell t < next_cell ?r1" using inv1 kt by (force simp: reg_inv_def held_def)
  moreover have "next_cell ?r1 \<le> next_cell ?r2" using evict_op.op_quiet [OF inv1] by (simp add: quiet_def)
  ultimately have cell: "cell_of r' t = cancel_with_reason CapacityEvicted (cell_of r t)"
    using ev(2) by (simp add: r' open_window_def Let_def cell_of_def)
  have "cell_ok (cell_of r t)" using inv1 low by (simp add: reg_inv_def cell_of_def)
  then have "incomplete_reason (cell_of r' t) \<noteq> None" if "was_confirmed (cell_of r t)"
    unfolding cell using that by (rule cancelled_incomplete)
  moreover have "retained r' = retained ?r2" by (simp add: r' open_window_def Let_def)
  ultimately show ?thesis
    using ev(1,3) rot cell cancel_with_reason_cancelled by (auto simp: cell_of_def)
qed

text \<open>
  An admission counts exactly one observation on exactly one window: the active window of the
  target that is open at the time of receipt. No other window changes, in particular none that
  awaits finalization.
\<close>

theorem admission_exact:
  assumes "reachable capacity s"
    and "admit_matching_token (sys_registry s) target observed = (Some t, r')"
  shows "(target, t) \<in> set (windows (sys_registry s)) \<and> t \<notin> set (retained (sys_registry s))
    \<and> is_open_at (tok_window t) (cell_of (sys_registry s) t) observed
    \<and> unat (cell_admitted (cell_of r' t)) = unat (cell_admitted (cell_of (sys_registry s) t)) + 1
    \<and> (\<forall>u\<in>set (held (sys_registry s)). u \<noteq> t \<longrightarrow> cell_of r' u = cell_of (sys_registry s) u)"
proof -
  let ?r = "sys_registry s"
  have inv: "reg_inv ?r" using reachable_inv [OF assms(1)] by (simp add: sys_inv_def)
  have t: "(target, t) \<in> set (windows ?r)" "is_open_at (tok_window t) (cell_of ?r t) observed"
    "fst (mark_admitted (cell_of ?r t))" "r' = update_cell (snd \<circ> mark_admitted) t ?r"
    using assms(2) by (auto simp: admit_matching_token_def matching_token_def dest: map_of_SomeD
        split: option.splits if_splits)
  have held: "t \<in> set (held ?r)" using t(1) by (force simp: held_def)
  have "u = t" if "u \<in> set (held ?r)" "tok_cell u = tok_cell t" for u
    using inv held that unfolding reg_inv_def distinct_map inj_on_def by blast
  then have "\<forall>u\<in>set (held ?r). u \<noteq> t \<longrightarrow> cell_of r' u = cell_of ?r u"
    by (auto simp: t(4) cell_of_def)
  moreover have "t \<notin> set (retained ?r)" using reg_inv_cells(3) [OF inv] t(1) by force
  moreover have "unat (cell_admitted (cell_of r' t)) = unat (cell_admitted (cell_of ?r t)) + 1"
    using t(3) by (auto simp: t(4) cell_of_def mark_admitted_def dest: checked_increment
        split: if_splits option.splits)
  ultimately show ?thesis using t(1,2) by blast
qed

section \<open>Cancellation\<close>

text \<open>A cell no cancellation of the targets \<open>P\<close> may touch.\<close>

definition untouchable :: "(observation_target \<Rightarrow> bool) \<Rightarrow> registry \<Rightarrow> nat \<Rightarrow> bool" where
  "untouchable P r a \<longleftrightarrow> cell_finalization_claimed (cells r a)
     \<or> (\<forall>u\<in>set (held r). tok_cell u = a \<longrightarrow> \<not> P (tok_target u))"

lemma retire_target_held: "set (held (retire_target target r)) \<subseteq> set (held r)"
proof (cases "map_of (windows r) target")
  case (Some t)
  then have "t \<in> snd ` set (windows r)" by (force dest: map_of_SomeD)
  then show ?thesis
    by (auto simp: retire_target_def Some retain_if_durable_def windows_remove_def held_def)
qed (simp add: retire_target_def)

lemma cancel_active_facts:
  fixes n :: usize and x :: observation_target and reason :: window_incomplete_reason
  assumes "reg_inv r"
  defines "r' \<equiv> snd (cancel_active reason x (n, r))"
  shows "windows r' = filter (\<lambda>(k, _). k \<noteq> x) (windows r)"
    and "set (held r') \<subseteq> set (held r)"
    and "P x \<Longrightarrow> untouchable P r a \<Longrightarrow> cells r' a = cells r a"
    and "map_of (windows r) x = Some t \<Longrightarrow> was_confirmed (cell_of r t) \<Longrightarrow> t \<in> set (retained r')"
proof -
  show "windows r' = filter (\<lambda>(k, _). k \<noteq> x) (windows r)"
    unfolding r'_def cancel_active_retires
    by (auto simp: retire_target_windows map_of_eq_None_iff split: option.splits
        intro!: filter_True [symmetric]) force
  show "set (held r') \<subseteq> set (held r)"
    unfolding r'_def cancel_active_retires
    by (auto split: option.splits dest!: subsetD [OF retire_target_held])
  show "cells r' a = cells r a" if "P x" "untouchable P r a"
  proof (cases "map_of (windows r) x")
    case (Some u)
    then have "(x, u) \<in> set (windows r)" by (rule map_of_SomeD)
    from reg_inv_windowD [OF assms(1) this] have "a \<noteq> tok_cell u"
      using that by (auto simp: untouchable_def cell_of_def)
    then show ?thesis by (simp add: r'_def cancel_active_retires Some)
  qed (simp add: r'_def cancel_active_retires)
  show "t \<in> set (retained r')" if t: "map_of (windows r) x = Some t" "was_confirmed (cell_of r t)"
  proof -
    have "\<not> cell_finalized (cell_of r t)"
      by (rule reg_inv_windowD(3) [OF assms(1) map_of_SomeD [OF t(1)]])
    moreover have "was_confirmed (cancel_with_reason reason (cell_of r t))"
      using cancel_with_reason_op.f_evolves t(2) unfolding evolves_def by blast
    ultimately show ?thesis
      using t unfolding r'_def cancel_active_retires
      by (auto simp: cell_of_def cancel_with_reason_op.f_finalized intro!: retire_target_retains)
  qed
qed

lemma untouchable_keep:
  "untouchable P r a \<Longrightarrow> cells r' a = cells r a \<Longrightarrow> set (held r') \<subseteq> set (held r) \<Longrightarrow> untouchable P r' a"
  unfolding untouchable_def by auto

lemma fold_cancel_active:
  assumes "reg_inv r"
  shows "windows (snd (fold (cancel_active reason) ks (n, r))) = filter (\<lambda>(k, _). k \<notin> set ks) (windows r)
    \<and> set (held (snd (fold (cancel_active reason) ks (n, r)))) \<subseteq> set (held r)
    \<and> (\<forall>a. (\<forall>k\<in>set ks. P k) \<longrightarrow> untouchable P r a \<longrightarrow>
           cells (snd (fold (cancel_active reason) ks (n, r))) a = cells r a)
    \<and> (\<forall>k t. k \<in> set ks \<longrightarrow> (k, t) \<in> set (windows r) \<longrightarrow> was_confirmed (cell_of r t) \<longrightarrow>
           t \<in> set (retained (snd (fold (cancel_active reason) ks (n, r)))))"
  using assms
proof (induction ks arbitrary: n r)
  case (Cons x ks)
  obtain n' r' where f: "cancel_active reason x (n, r) = (n', r')" by (cases "cancel_active reason x (n, r)")
  note step = cancel_active_facts [OF Cons.prems, where reason = reason and x = x and n = n, unfolded f snd_conv]
  have pres: "preserves r r'" using cancel_active_preserves [of r reason x n] f by simp
  then have inv': "reg_inv r'" and q: "quiet r r'" using Cons.prems by (simp_all add: preserves_def)
  let ?r2 = "snd (fold (cancel_active reason) ks (n', r'))"
  note IH = Cons.IH [OF inv', of n']
  have "preserves r' ?r2" by (rule preserves_fold_count [OF cancel_active_preserves])
  then have q2: "quiet r' ?r2" using inv' by (simp add: preserves_def)
  have "windows ?r2 = filter (\<lambda>(k, _). k \<notin> set (x # ks)) (windows r)"
    using IH step(1) by (auto intro!: filter_cong)
  moreover have "cells ?r2 a = cells r a" if "\<forall>k\<in>set (x # ks). P k" "untouchable P r a" for a
  proof -
    have "cells r' a = cells r a" using step(3) that by simp
    with untouchable_keep [OF that(2) this step(2)] IH that(1) show ?thesis by simp
  qed
  moreover have "t \<in> set (retained ?r2)"
    if kt: "k \<in> set (x # ks)" "(k, t) \<in> set (windows r)" "was_confirmed (cell_of r t)" for k t
  proof (cases "k = x")
    case True
    note w = reg_inv_windowD [OF Cons.prems kt(2)]
    from True have "t \<in> set (retained r')" using kt(3) step(4) w(6) by simp
    moreover have "\<not> cell_finalized (cell_of r' t)"
      using q w(3,5) by (simp add: quiet_def cell_of_def)
    ultimately show ?thesis using q2 by (simp add: quiet_def)
  next
    case False
    have "was_confirmed (cell_of r' t)"
      using q kt(3) reg_inv_windowD(5) [OF Cons.prems kt(2)] by (simp add: quiet_def evolves_def cell_of_def)
    then show ?thesis using IH kt False step(1) by auto
  qed
  ultimately show ?case using IH step(2) f by auto
qed simp

lemma cancel_retained_cells:
  "cells (snd (cancel_retained reason P x (n, r))) a =
     (if a = tok_cell x \<and> P (tok_target x) \<and> \<not> cell_finalized (cells r a)
         \<and> \<not> cell_finalization_claimed (cells r a) \<and> cell_state (cells r a) = WINDOW_CONFIRMED
      then cancel_with_reason reason (cells r a) else cells r a)"
  "windows (snd (cancel_retained reason P x (n, r))) = windows r"
  "retained (snd (cancel_retained reason P x (n, r))) = retained r"
  by (auto simp: cancel_retained_def cell_of_def split: window_state.splits)

lemma fold_cancel_retained:
  "windows (snd (fold (cancel_retained reason P) xs (n, r))) = windows r
   \<and> retained (snd (fold (cancel_retained reason P) xs (n, r))) = retained r
   \<and> ((\<forall>u\<in>set xs. tok_cell u = a \<longrightarrow> \<not> P (tok_target u)) \<or> cell_finalization_claimed (cells r a)
       \<longrightarrow> cells (snd (fold (cancel_retained reason P) xs (n, r))) a = cells r a)
   \<and> ((\<exists>u\<in>set xs. tok_cell u = a \<and> P (tok_target u)) \<and> \<not> cell_finalized (cells r a)
       \<and> \<not> cell_finalization_claimed (cells r a)
       \<longrightarrow> cell_state (cells (snd (fold (cancel_retained reason P) xs (n, r))) a) \<noteq> WINDOW_CONFIRMED)
   \<and> (cell_state (cells r a) \<noteq> WINDOW_CONFIRMED
       \<longrightarrow> cells (snd (fold (cancel_retained reason P) xs (n, r))) a = cells r a)"
proof (induction xs arbitrary: n r)
  case (Cons x xs)
  obtain n' r' where f: "cancel_retained reason P x (n, r) = (n', r')"
    by (cases "cancel_retained reason P x (n, r)")
  note step = cancel_retained_cells [of reason P x n r, unfolded f snd_conv]
  have st: "cell_state (cancel_with_reason reason c) \<noteq> WINDOW_CONFIRMED" for c
    by (simp add: cancel_with_reason_def split: window_state.splits)
  note IH = Cons [of n' r']
  show ?case
  proof (cases "tok_cell x = a \<and> P (tok_target x) \<and> \<not> cell_finalized (cells r a)
         \<and> \<not> cell_finalization_claimed (cells r a) \<and> cell_state (cells r a) = WINDOW_CONFIRMED")
    case True
    then have "cells r' a = cancel_with_reason reason (cells r a)" using step(1) by auto
    then show ?thesis using IH True step(2,3) st by (auto simp: f)
  next
    case False
    then have "cells r' a = cells r a" using step(1) by auto
    then show ?thesis using IH False step(2,3) by (auto simp: f)
  qed
qed simp

text \<open>
  A source outage invalidates exactly the windows of that source. After it, no window of the
  source is active and every confirmed window of it that is not yet claimed or finalized is retained
  and incomplete; the active windows of other sources stay active, and neither their cells nor
  those of claimed windows change.
\<close>

theorem cancellation_exact:
  assumes "reachable capacity s"
    and "cancel_source_confirmed (sys_registry s) program reason = (n, r')"
  defines "r \<equiv> sys_registry s"
    and "P \<equiv> \<lambda>target. target_source_program target = program"
  shows "windows r' = filter (\<lambda>(k, _). \<not> P k) (windows r)
    \<and> (\<forall>t\<in>set (held r). P (tok_target t) \<longrightarrow> was_confirmed (cell_of r t)
          \<longrightarrow> \<not> cell_finalization_claimed (cell_of r t) \<longrightarrow> \<not> cell_finalized (cell_of r t)
          \<longrightarrow> t \<in> set (retained r') \<and> incomplete_reason (cell_of r' t) \<noteq> None)
    \<and> (\<forall>t\<in>set (held r). \<not> P (tok_target t) \<or> cell_finalization_claimed (cell_of r t)
          \<longrightarrow> cell_of r' t = cell_of r t)"
proof -
  let ?ks = "filter P (map fst (windows r))"
  define r1 where "r1 = snd (fold (cancel_active reason) ?ks (0, r))"
  obtain n1 where f1: "fold (cancel_active reason) ?ks (0, r) = (n1, r1)"
    by (metis r1_def prod.collapse)
  have r': "r' = snd (fold (cancel_retained reason P) (retained r1) (n1, r1))"
    using assms(2) [folded r_def]
    by (simp add: cancel_source_confirmed_def cancel_confirmed_matching_def P_def [symmetric] f1)
  have inv: "reg_inv r" using reachable_inv [OF assms(1)] by (simp add: sys_inv_def r_def)
  note one = fold_cancel_active [OF inv, of reason ?ks 0 P, folded r1_def]
  note two = fold_cancel_retained [of reason P "retained r1" n1 r1, folded r']
  have "preserves r r1" unfolding r1_def by (rule preserves_fold_count [OF cancel_active_preserves])
  then have q: "quiet r r1" using inv by (simp add: preserves_def)
  have "preserves r r'"
    using cancel_op.op_preserves [of r reason P] assms(2) [folded r_def]
    by (simp add: cancel_source_confirmed_def P_def [symmetric])
  then have inv': "reg_inv r'" and q': "quiet r r'" using inv by (simp_all add: preserves_def)
  have "filter (\<lambda>(k, _). k \<notin> set ?ks) (windows r) = filter (\<lambda>(k, _). \<not> P k) (windows r)"
    by (rule filter_cong) force+
  then have "windows r' = filter (\<lambda>(k, _). \<not> P k) (windows r)" using one two by simp
  moreover have "t \<in> set (retained r') \<and> incomplete_reason (cell_of r' t) \<noteq> None"
    if t: "t \<in> set (held r)" "P (tok_target t)" "was_confirmed (cell_of r t)"
      "\<not> cell_finalization_claimed (cell_of r t)" "\<not> cell_finalized (cell_of r t)" for t
  proof -
    have low: "tok_cell t < next_cell r" using inv t(1) by (simp add: reg_inv_def)
    have ret: "t \<in> set (retained r1)"
    proof (cases "t \<in> set (retained r)")
      case True
      then show ?thesis using q t(5) by (simp add: quiet_def)
    next
      case False
      then obtain k where k: "(k, t) \<in> set (windows r)" using t(1) by (force simp: held_def)
      then have "k \<in> set ?ks" using t(2) reg_inv_windowD(2) [OF inv k] by force
      then show ?thesis using one k t(3) by blast
    qed
    have "\<not> cell_finalized (cells r1 (tok_cell t))" "\<not> cell_finalization_claimed (cells r1 (tok_cell t))"
      using q low t(4,5) by (simp_all add: quiet_def cell_of_def)
    then have "cell_state (cell_of r' t) \<noteq> WINDOW_CONFIRMED"
      using two [of "tok_cell t"] ret t(2) by (auto simp: cell_of_def)
    moreover have "was_confirmed (cell_of r' t)"
      using q' low t(3) by (simp add: quiet_def evolves_def cell_of_def)
    moreover have ok: "cell_ok (cell_of r' t)"
      using inv' q' low by (simp add: reg_inv_def quiet_def cell_of_def)
    ultimately show ?thesis
      using incomplete_reason_None_iff [OF ok] ret two by (simp add: was_confirmed_def cell_ok_def)
  qed
  moreover have "cell_of r' t = cell_of r t"
    if t: "t \<in> set (held r)" "\<not> P (tok_target t) \<or> cell_finalization_claimed (cell_of r t)" for t
  proof -
    have "u = t" if "u \<in> set (held r)" "tok_cell u = tok_cell t" for u
      using inv t(1) that unfolding reg_inv_def distinct_map inj_on_def by blast
    then have u: "untouchable P r (tok_cell t)" using t(2) by (auto simp: untouchable_def cell_of_def)
    then have same: "cells r1 (tok_cell t) = cells r (tok_cell t)" using one by simp
    from untouchable_keep [OF u same] one have "untouchable P r1 (tok_cell t)" by simp
    then show ?thesis
      using two [of "tok_cell t"] same by (auto simp: untouchable_def held_def cell_of_def)
  qed
  ultimately show ?thesis by blast
qed

section \<open>Out-of-order receipt times\<close>

text \<open>
  C40: a provisioning whose receipt time lies before the opening of a pending window removes that
  window from the registry altogether: it is neither active nor retained afterwards, so that it
  can collect no observation and never be finalized, although it has not closed. The closing rule
  treats a window that is not open yet at the given time as closed.
\<close>

theorem early_rotation_drops_pending_window:
  assumes "reachable capacity s" and "(k, t) \<in> set (windows (sys_registry s))"
    and "cell_state (cell_of (sys_registry s) t) = WINDOW_PENDING"
    and "now < opened_at_unix_ms (tok_window t)"
  shows "t \<notin> set (held (rotate_closed_windows now (sys_registry s)))"
proof -
  let ?r = "sys_registry s" and ?r' = "rotate_closed_windows now (sys_registry s)"
  have inv: "reg_inv ?r" using reachable_inv [OF assms(1)] by (simp add: sys_inv_def)
  note w = reg_inv_windowD [OF inv assms(2)]
  have inv': "reg_inv ?r'" by (rule rotate_op.op_inv [OF inv])
  have "\<not> was_confirmed (cell_of ?r' t)" using assms(3) by (simp add: was_confirmed_def cell_of_def)
  then have "t \<notin> set (retained ?r')" using inv' by (auto simp: reg_inv_def)
  moreover have "(j, t) \<notin> set (windows ?r')" for j
    using rotated_windows_open [of ?r j t now] inv assms(4) by (auto simp: reg_inv_def is_open_at_def)
  ultimately show ?thesis by (auto simp: held_def)
qed

section \<open>A concrete history\<close>

text \<open>One window is opened, confirmed, made durable and closed; its source has moved past its end.\<close>

definition ex_new :: registry where
  "ex_new = \<lparr>cells = (\<lambda>_. fresh_cell), next_cell = 0, next_generation = 0, windows = [],
     retained = [], latest_source_coverage_gap = (\<lambda>_. None),
     latest_source_progress = (\<lambda>_. None), maximum_active = 1\<rparr>"

definition ex_target :: observation_target where
  "ex_target = PumpMint ''m''"

definition ex_token :: token where
  "ex_token = \<lparr>tok_generation = 0, tok_window = \<lparr>win_target = ex_target, win_mint = ''m'',
     opened_at_unix_ms = 0, closes_at_unix_ms = 10\<rparr>, tok_cell = 0\<rparr>"

definition ex_open :: registry where
  "ex_open = ex_new\<lparr>next_cell := 1, next_generation := 1, windows := [(ex_target, ex_token)],
     cells := (\<lambda>_. fresh_cell)(0 := fresh_cell)\<rparr>"

definition ex_confirmed :: registry where
  "ex_confirmed = update_cell (snd \<circ> confirm) ex_token ex_open"

definition ex_durable :: registry where
  "ex_durable = update_cell (snd \<circ> set_durable_window_id 1) ex_token ex_confirmed"

definition ex_closed :: registry where
  "ex_closed = snd (finalization_candidates (record_source_progress ex_durable SourcePump 20) 15)"

abbreviation idle :: "registry \<Rightarrow> system" where
  "idle r \<equiv> \<lparr>sys_registry = r, sys_claims = []\<rparr>"

lemmas ex_defs = ex_closed_def ex_durable_def ex_confirmed_def ex_open_def ex_new_def ex_token_def

lemma ex_provision: "provision_target ex_new ex_target ''m'' 0 10
    = (\<lparr>prov_token = ex_token, newly_opened = True\<rparr>, ex_open)"
  by (simp add: provision_target_def ex_open_def ex_new_def ex_token_def rotate_closed_windows_def
      matching_token_def open_window_def Let_def saturating_add_i64_def saturate_i64_def duration_ms_def
      i64_max_def i64_min_def)

lemma ex_idle_step:
  "reachable c (idle r) \<Longrightarrow> step (idle r) (idle r') \<Longrightarrow> reachable c (idle r')"
  by (rule reachable_step)

lemma reachable_new: "reachable 1 (idle ex_new)"
  by (rule reachable_init) (simp add: registry_new_def ex_new_def)

lemma reachable_open: "reachable 1 (idle ex_open)"
  using ex_idle_step [OF reachable_new, of ex_open] step_provision [of "idle ex_new" ex_target "''m''" 0 10]
  by (simp add: ex_provision)

lemma reachable_confirmed: "reachable 1 (idle ex_confirmed)"
  using ex_idle_step [OF reachable_open, of ex_confirmed] step_confirm [of "idle ex_open" ex_token]
  by (simp add: ex_confirmed_def)

lemma reachable_durable: "reachable 1 (idle ex_durable)"
  using ex_idle_step [OF reachable_confirmed, of ex_durable]
    step_set_durable [of "idle ex_confirmed" 1 ex_token] by (simp add: ex_durable_def)

lemma reachable_closed: "reachable 1 (idle ex_closed)"
proof -
  have "reachable 1 (idle (record_source_progress ex_durable SourcePump 20))"
    using ex_idle_step [OF reachable_durable] step_progress [of "idle ex_durable" SourcePump 20] by simp
  from ex_idle_step [OF this] show ?thesis
    using step_candidates [of "idle (record_source_progress ex_durable SourcePump 20)" 15]
    by (simp add: ex_closed_def)
qed

lemma ex_cell: "cells ex_durable 0 = fresh_cell\<lparr>cell_state := WINDOW_CONFIRMED, cell_durable_window_id := Some 1\<rparr>"
  by (simp add: ex_durable_def ex_confirmed_def ex_open_def ex_token_def confirm_def
      set_durable_window_id_def was_confirmed_def fresh_cell_def)

lemma ex_closed_fields:
  "retained ex_closed = [ex_token]" "windows ex_closed = []" "next_cell ex_closed = 1"
  "cells ex_closed 0 = cells ex_durable 0" "latest_source_progress ex_closed SourcePump = Some 20"
proof -
  have d: "windows ex_durable = [(ex_target, ex_token)]" "retained ex_durable = []" "next_cell ex_durable = 1"
    "latest_source_progress ex_durable = (\<lambda>_. None)"
    by (simp_all add: ex_durable_def ex_confirmed_def ex_open_def ex_new_def)
  show "retained ex_closed = [ex_token]" "windows ex_closed = []" "next_cell ex_closed = 1"
    "cells ex_closed 0 = cells ex_durable 0" "latest_source_progress ex_closed SourcePump = Some 20"
    using ex_cell
    by (simp_all add: ex_closed_def finalization_candidates_def Let_def rotate_closed_windows_def
        retire_target_def retain_if_durable_def windows_remove_def cell_of_def ex_token_def d
        is_open_at_def was_confirmed_def fresh_cell_def record_source_progress_def)
qed

definition ex_claim :: finalization_claim where
  "ex_claim = \<lparr>claim_token = ex_token, claim_incomplete_reason = None\<rparr>"

definition ex_claimed :: registry where
  "ex_claimed = update_cell (snd \<circ> try_claim_finalization) ex_token ex_closed"

lemma ex_claim_granted: "claim_finalization ex_closed ex_token = (Some ex_claim, ex_claimed)"
  using ex_cell ex_closed_fields
  by (simp add: claim_finalization_def claimable_def token_eq_def cell_of_def was_confirmed_def
      is_settled_def fresh_cell_def incomplete_reason_def reason_from_code_def WINDOW_COMPLETE_def
      source_caught_up_def ex_token_def ex_target_def try_claim_finalization_def ex_claim_def
      ex_claimed_def)

lemma reachable_claimed: "reachable 1 \<lparr>sys_registry = ex_claimed, sys_claims = [ex_claim]\<rparr>"
  using reachable_step [OF reachable_closed step_claim [of "idle ex_closed", simplified, OF ex_claim_granted]]
  by simp

theorem registry_well_formed_witness:
  "reachable 1 (idle ex_open) \<and> length (windows ex_open) \<le> 1"
  using registry_well_formed [OF reachable_open] reachable_open by simp

theorem window_history_permanent_witness:
  "cell_durable_window_id (cells ex_durable 0) = Some 1
   \<and> cell_durable_window_id (cells ex_closed 0) = Some 1"
proof -
  have "step\<^sup>*\<^sup>* (idle ex_durable) (idle ex_closed)"
    using step_progress [of "idle ex_durable" SourcePump 20]
      step_candidates [of "idle (record_source_progress ex_durable SourcePump 20)" 15]
    by (simp add: ex_closed_def rtranclp.rtrancl_into_rtrancl [OF rtranclp.rtrancl_into_rtrancl])
  from window_history_permanent [OF reachable_durable this, of 0] show ?thesis
    using ex_cell by (simp add: ex_durable_def ex_confirmed_def ex_open_def ex_new_def)
qed

theorem claim_exclusive_witness:
  "fst (claim_finalization ex_claimed ex_token) = None \<and> fst (claim_mark_committed ex_claim ex_claimed)"
  using claim_exclusive [OF reachable_claimed, of ex_claim ex_token] by (simp add: ex_claim_def)

theorem claim_sound_witness:
  "claim_finalization ex_closed ex_token = (Some ex_claim, ex_claimed)
   \<and> was_confirmed (cell_of ex_closed (claim_token ex_claim))"
  using claim_sound [OF reachable_closed, of ex_token ex_claim ex_claimed] ex_claim_granted by simp

definition ex_gap :: registry where
  "ex_gap = snd (record_source_coverage_gap ex_closed SourcePump 5 DecodeGap)"

lemma ex_gap_fields:
  "retained ex_gap = [ex_token]"
  "cells ex_gap 0 = (cells ex_durable 0)\<lparr>cell_incomplete_reason := 6\<rparr>"
  using ex_cell ex_closed_fields
  by (simp_all add: ex_gap_def record_source_coverage_gap_def Let_def mark_gap_def in_gap_def cell_of_def
      ex_token_def ex_target_def fresh_cell_def mark_incomplete_def WINDOW_COMPLETE_def)

lemma ex_gap_claim:
  "claim_finalization ex_gap ex_token
     = (Some \<lparr>claim_token = ex_token, claim_incomplete_reason = Some DecodeGap\<rparr>,
        update_cell (snd \<circ> try_claim_finalization) ex_token ex_gap)"
  using ex_cell ex_gap_fields
  by (simp add: claim_finalization_def claimable_def token_eq_def cell_of_def was_confirmed_def
      is_settled_def fresh_cell_def incomplete_reason_def reason_from_code_def ex_token_def
      try_claim_finalization_def)

theorem gap_excludes_completeness_witness:
  "claim_finalization ex_gap ex_token
     = (Some \<lparr>claim_token = ex_token, claim_incomplete_reason = Some DecodeGap\<rparr>,
        update_cell (snd \<circ> try_claim_finalization) ex_token ex_gap)
   \<and> claim_incomplete_reason (the (fst (claim_finalization ex_gap ex_token))) \<noteq> None"
proof -
  have "in_gap SourcePump 5 (cell_of ex_closed ex_token) ex_token"
    using ex_cell ex_closed_fields(4)
    by (simp add: in_gap_def cell_of_def ex_token_def ex_target_def fresh_cell_def)
  moreover have "ex_token \<in> set (held ex_closed)" by (simp add: held_def ex_closed_fields)
  ultimately show ?thesis
    using gap_excludes_completeness [OF reachable_closed, of ex_token SourcePump 5 DecodeGap "idle ex_gap"
        ex_token] ex_gap_claim by (simp add: ex_gap_def)
qed

theorem provision_non_extending_witness:
  "tok_window ex_token = \<lparr>win_target = ex_target, win_mint = ''m'', opened_at_unix_ms = 0,
     closes_at_unix_ms = saturating_add_i64 0 (duration_ms 10)\<rparr>
   \<and> (ex_target, ex_token) \<in> set (windows ex_open)"
  using provision_non_extending [OF reachable_new, of ex_target "''m''" 0 10] ex_provision by simp

lemma ex_confirmed_fields:
  "windows ex_confirmed = [(ex_target, ex_token)]" "maximum_active ex_confirmed = 1"
  "cells ex_confirmed 0 = fresh_cell\<lparr>cell_state := WINDOW_CONFIRMED\<rparr>" "retained ex_confirmed = []"
  "next_cell ex_confirmed = 1"
  by (simp_all add: ex_confirmed_def ex_open_def ex_new_def ex_token_def confirm_def fresh_cell_def)

lemma ex_evicting:
  "windows (snd (provision_target ex_confirmed (PumpMint ''n'') ''n'' 1 10))
     = [(PumpMint ''n'', prov_token (fst (provision_target ex_confirmed (PumpMint ''n'') ''n'' 1 10)))]"
  using ex_confirmed_fields
  by (simp add: provision_target_def rotate_closed_windows_def is_open_at_def cell_of_def ex_token_def
      fresh_cell_def matching_token_def ex_target_def evict_soonest_def open_window_def Let_def
      windows_remove_def retain_if_durable_def)

lemma ex_open_at: "is_open_at (tok_window ex_token) (cell_of ex_confirmed ex_token) 1"
  using ex_confirmed_fields(3) by (simp add: is_open_at_def cell_of_def ex_token_def)

theorem eviction_is_soonest_witness:
  "ex_token \<in> set (retained (snd (provision_target ex_confirmed (PumpMint ''n'') ''n'' 1 10)))"
proof -
  obtain p r' where p: "provision_target ex_confirmed (PumpMint ''n'') ''n'' 1 10 = (p, r')"
    by (cases "provision_target ex_confirmed (PumpMint ''n'') ''n'' 1 10")
  have "(ex_target, ex_token) \<notin> set (windows r')" using ex_evicting by (simp add: p ex_target_def)
  moreover have "was_confirmed (cell_of ex_confirmed ex_token)"
    using ex_confirmed_fields(3) by (simp add: was_confirmed_def cell_of_def ex_token_def)
  ultimately show ?thesis
    using eviction_is_soonest [OF reachable_confirmed, of "PumpMint ''n''" "''n''" 1 10 p r' ex_target ex_token]
      p ex_confirmed_fields(1) ex_open_at by simp
qed

theorem admission_exact_witness:
  "unat (cell_admitted (cell_of (snd (admit_matching_token ex_confirmed ex_target 1)) ex_token)) = 1"
proof -
  obtain r' where a: "admit_matching_token ex_confirmed ex_target 1 = (Some ex_token, r')"
    using ex_confirmed_fields ex_open_at
    by (simp add: admit_matching_token_def matching_token_def cell_of_def ex_token_def mark_admitted_def
        fresh_cell_def checked_add_word_def)
  then show ?thesis
    using admission_exact [OF reachable_confirmed, of ex_target 1 ex_token r'] ex_confirmed_fields(3)
    by (simp add: cell_of_def ex_token_def fresh_cell_def)
qed

theorem cancellation_exact_witness:
  "incomplete_reason (cell_of (snd (cancel_source_confirmed ex_confirmed SourcePump SourceDisconnected)) ex_token)
     \<noteq> None"
proof -
  obtain n r' where c: "cancel_source_confirmed ex_confirmed SourcePump SourceDisconnected = (n, r')"
    by (cases "cancel_source_confirmed ex_confirmed SourcePump SourceDisconnected")
  have "held ex_confirmed = [ex_token]" by (simp add: held_def ex_confirmed_fields)
  then show ?thesis
    using cancellation_exact [OF reachable_confirmed, of SourcePump SourceDisconnected n r'] c
      ex_confirmed_fields(3)
    by (simp add: cell_of_def ex_token_def ex_target_def was_confirmed_def fresh_cell_def)
qed

theorem early_rotation_drops_pending_window_witness:
  "(ex_target, ex_token) \<in> set (windows ex_open) \<and> ex_token \<notin> set (held (rotate_closed_windows (- 1) ex_open))"
  using early_rotation_drops_pending_window [OF reachable_open, of ex_target ex_token "- 1"]
  by (simp add: ex_open_def ex_token_def cell_of_def fresh_cell_def)

end
