(* ===== verification/Ratio.thy ===== *)
theory Ratio
  imports Complex_Main Domain
begin

text \<open>
  The exact arithmetic under the metrics of a window, from
  \<open>crates/discovery-engine/src/snapshot.rs\<close>: checked addition, the overflow-free scaled ratio by
  binary search, basis points, greatest common divisors and price ratios. Each routine is proved
  equal to the arithmetic expression it stands for, on every input where that expression fits its
  type, and to fail exactly where it does not.
\<close>

section \<open>Definitions\<close>

datatype snapshot_error =
    InvalidWindowBounds
  | MissingIncompleteReason
  | DuplicateObservation observation_key
  | ZeroTradeAmount
  | EmptyWallet
  | ArithmeticOverflow

definition BASIS_POINTS_SCALE :: u16 where
  "BASIS_POINTS_SCALE = 10000"

definition checked_add :: "'a::len word \<Rightarrow> 'a word \<Rightarrow> (snapshot_error, 'a word) result" where
  "checked_add left right = ok_or ArithmeticOverflow (checked_add_word left right)"

definition try_u16 :: "u128 \<Rightarrow> (snapshot_error, u16) result" where
  "try_u16 x = (if unat x < 2 ^ 16 then Inr (ucast x) else Inl ArithmeticOverflow)"

definition u128_from_u16 :: "u16 \<Rightarrow> u128" where
  "u128_from_u16 x = ucast x"

function greatest_common_divisor :: "u128 \<Rightarrow> u128 \<Rightarrow> u128" where
  "greatest_common_divisor left right =
     (if right \<noteq> 0 then greatest_common_divisor right (left mod right) else left)"
  by pat_completeness auto
termination
  by (relation "measure (unat \<circ> snd)")
     (auto simp: word_less_nat_alt [symmetric] word_mod_less_divisor word_gt_0)

declare greatest_common_divisor.simps [simp del]

definition ceil_scaled_denominator :: "u128 \<Rightarrow> u128 \<Rightarrow> u128 \<Rightarrow> (snapshot_error, u128) result" where
  "ceil_scaled_denominator multiplier value divisor =
     (if divisor = 0 \<or> divisor < multiplier then Inl ArithmeticOverflow
      else
        let quotient = value div divisor; remainder = value mod divisor in
        result_bind (ok_or ArithmeticOverflow (checked_mul_word quotient multiplier)) (\<lambda>whole.
        result_bind (ok_or ArithmeticOverflow (checked_mul_word remainder multiplier))
          (\<lambda>remainder_product.
            let rounded_fraction = remainder_product div divisor
                  + (if remainder_product mod divisor \<noteq> 0 then 1 else 0)
            in ok_or ArithmeticOverflow (checked_add_word whole rounded_fraction))))"

definition midpoint :: "u128 \<Rightarrow> u128 \<Rightarrow> u128" where
  "midpoint low high =
     low + ((high - low) div 2 + (if (high - low) mod 2 \<noteq> 0 then 1 else 0))"

lemma unat_midpoint:
  assumes "low < high"
  shows "unat (midpoint low high) = unat low + (unat high - unat low + 1) div 2"
proof -
  have lh: "unat low < unat high" using assms by (simp add: word_less_nat_alt)
  then have sub: "unat (high - low) = unat high - unat low"
    by (simp add: unat_sub word_le_nat_alt)
  let ?h = "(high - low) div 2 + (if (high - low) mod 2 \<noteq> 0 then 1 else 0)"
  have m2: "unat ((high - low) mod 2) = (unat high - unat low) mod 2"
    by (simp add: unat_mod sub)
  have d2: "unat ((high - low) div 2) = (unat high - unat low) div 2"
    by (simp add: unat_div sub)
  have small: "(unat high - unat low) div 2 + 1 < 2 ^ 128"
    using unat_bound [of high] by simp
  have half: "unat ?h = (unat high - unat low + 1) div 2"
  proof (cases "(high - low) mod 2 = 0")
    case True
    then have "(unat high - unat low) mod 2 = 0" using m2 by simp
    then show ?thesis using True d2 by simp presburger
  next
    case False
    then have odd: "(unat high - unat low) mod 2 = 1"
      using m2 by (metis One_nat_def not_mod_2_eq_0_eq_1 unat_eq_zero)
    have "unat ?h = (unat high - unat low) div 2 + 1"
      using False d2 small by (simp add: unat_word_ariths)
    moreover have "x div 2 + 1 = (x + 1) div 2" if "x mod 2 = 1" for x :: nat
      using that by presburger
    ultimately show ?thesis using odd by simp
  qed
  have "unat low + unat ?h < 2 ^ LENGTH(128)"
    using half lh unat_bound [of high] by simp
  then have "unat (low + ?h) = unat low + unat ?h" by (rule unat_add_small)
  then show ?thesis by (simp only: midpoint_def half)
qed

lemma midpoint_bounds:
  assumes "low < high"
  shows "low < midpoint low high" and "midpoint low high \<le> high"
    and "unat (midpoint low high - 1) = unat (midpoint low high) - 1"
proof -
  have lh: "unat low < unat high" using assms by (simp add: word_less_nat_alt)
  show lt: "low < midpoint low high"
    using lh by (simp add: word_less_nat_alt unat_midpoint assms)
  show "midpoint low high \<le> high"
    using lh by (simp add: word_le_nat_alt unat_midpoint assms)
  from lt have "1 \<le> midpoint low high"
    by (simp add: word_le_nat_alt word_less_nat_alt)
  then show "unat (midpoint low high - 1) = unat (midpoint low high) - 1"
    by (simp add: unat_sub)
qed

function scaled_search :: "u128 \<Rightarrow> u128 \<Rightarrow> u128 \<Rightarrow> u128 \<Rightarrow> u128 \<Rightarrow> (snapshot_error, u128) result" where
  "scaled_search numerator denominator scale low high =
     (if low < high
      then (case ceil_scaled_denominator (midpoint low high) denominator scale of
              Inl e \<Rightarrow> Inl e
            | Inr c \<Rightarrow>
                if c \<le> numerator
                then scaled_search numerator denominator scale (midpoint low high) high
                else scaled_search numerator denominator scale low (midpoint low high - 1))
      else Inr low)"
  by pat_completeness auto
termination
proof (relation "measure (\<lambda>(_, _, _, low, high). unat high - unat low)", goal_cases)
  case 1
  show ?case by simp
next
  case (2 numerator denominator scale low high c)
  then show ?case
    using midpoint_bounds [of low high] by (simp add: word_less_nat_alt word_le_nat_alt)
next
  case (3 numerator denominator scale low high c)
  then show ?case
    using midpoint_bounds [of low high] by (simp add: word_less_nat_alt word_le_nat_alt)
qed

declare scaled_search.simps [simp del]

definition scaled_proper_fraction :: "u128 \<Rightarrow> u128 \<Rightarrow> u128 \<Rightarrow> (snapshot_error, u128) result" where
  "scaled_proper_fraction numerator denominator scale =
     (if numerator = 0 \<or> scale = 0 then Inr 0
      else scaled_search numerator denominator scale 0 scale)"

definition checked_scaled_ratio :: "u128 \<Rightarrow> u128 \<Rightarrow> u128 \<Rightarrow> (snapshot_error, u128) result" where
  "checked_scaled_ratio numerator denominator scale =
     (if denominator = 0 then Inl ArithmeticOverflow
      else
        let whole = numerator div denominator; remainder = numerator mod denominator in
        result_bind (ok_or ArithmeticOverflow (checked_mul_word whole scale)) (\<lambda>whole_scaled.
        result_bind (scaled_proper_fraction remainder denominator scale) (\<lambda>fractional.
        ok_or ArithmeticOverflow (checked_add_word whole_scaled fractional))))"

definition fraction_within_basis_point_limit ::
    "u128 \<Rightarrow> u128 \<Rightarrow> u16 \<Rightarrow> (snapshot_error, bool) result" where
  "fraction_within_basis_point_limit numerator denominator maximum_bps =
     (if denominator = 0 \<or> BASIS_POINTS_SCALE < maximum_bps then Inl ArithmeticOverflow
      else
        result_bind
          (checked_scaled_ratio denominator (u128_from_u16 BASIS_POINTS_SCALE)
             (u128_from_u16 maximum_bps))
          (\<lambda>maximum_numerator. Inr (numerator \<le> maximum_numerator)))"

definition fraction_to_basis_points :: "u128 \<Rightarrow> u128 \<Rightarrow> (snapshot_error, u16) result" where
  "fraction_to_basis_points numerator denominator =
     (if denominator = 0 \<or> denominator < numerator then Inl ArithmeticOverflow
      else
        result_bind (checked_scaled_ratio numerator denominator (u128_from_u16 BASIS_POINTS_SCALE))
          (\<lambda>floor.
        result_bind (try_u16 floor) (\<lambda>floor_bps.
        result_bind (fraction_within_basis_point_limit numerator denominator floor_bps) (\<lambda>within_limit.
        result_bind (if within_limit then Inr floor
                     else ok_or ArithmeticOverflow (checked_add_word floor 1)) (\<lambda>value.
        try_u16 value)))))"

record price_ratio =
  ratio_quote_units :: u128
  ratio_base_units :: u128

definition price_ratio_new :: "u128 \<Rightarrow> u128 \<Rightarrow> (snapshot_error, price_ratio) result" where
  "price_ratio_new quote_units base_units =
     (if quote_units = 0 \<or> base_units = 0 then Inl ZeroTradeAmount
      else
        let divisor = greatest_common_divisor quote_units base_units in
        Inr \<lparr>ratio_quote_units = quote_units div divisor, ratio_base_units = base_units div divisor\<rparr>)"

definition checked_cmp :: "price_ratio \<Rightarrow> price_ratio \<Rightarrow> (snapshot_error, ordering) result" where
  "checked_cmp self other =
     result_bind (ok_or ArithmeticOverflow
       (checked_mul_word (ratio_quote_units self) (ratio_base_units other))) (\<lambda>left.
     result_bind (ok_or ArithmeticOverflow
       (checked_mul_word (ratio_quote_units other) (ratio_base_units self))) (\<lambda>right.
     Inr (cmp left right)))"

definition signed_magnitude :: "u128 \<Rightarrow> bool \<Rightarrow> (snapshot_error, i128) result" where
  "signed_magnitude magnitude negative =
     (if negative \<and> uint magnitude = i128_max + 1 then Inr i128_min
      else if uint magnitude \<le> i128_max
        then Inr (if negative then - uint magnitude else uint magnitude)
      else Inl ArithmeticOverflow)"

definition price_change_basis_points ::
    "price_ratio \<Rightarrow> price_ratio \<Rightarrow> (snapshot_error, i128) result" where
  "price_change_basis_points first latest =
     result_bind (ok_or ArithmeticOverflow
       (checked_mul_word (ratio_quote_units latest) (ratio_base_units first))) (\<lambda>last_cross.
     result_bind (ok_or ArithmeticOverflow
       (checked_mul_word (ratio_quote_units first) (ratio_base_units latest))) (\<lambda>first_cross.
     let (negative, difference) =
       (if first_cross \<le> last_cross then (False, last_cross - first_cross)
        else (True, first_cross - last_cross))
     in result_bind (checked_scaled_ratio difference first_cross (u128_from_u16 BASIS_POINTS_SCALE))
          (\<lambda>magnitude. signed_magnitude magnitude negative)))"

section \<open>Greatest common divisors\<close>

lemma unat_greatest_common_divisor:
  "unat (greatest_common_divisor a b) = gcd (unat a) (unat b)"
proof (induction a b rule: greatest_common_divisor.induct)
  case (1 left right)
  show ?case
  proof (cases "right = 0")
    case True
    then show ?thesis by (simp add: greatest_common_divisor.simps [of left 0])
  next
    case False
    then have "unat (greatest_common_divisor left right) = gcd (unat right) (unat (left mod right))"
      using "1.IH" by (simp add: greatest_common_divisor.simps [of left right])
    also have "\<dots> = gcd (unat left) (unat right)"
      by (metis gcd.commute gcd_red_nat unat_mod)
    finally show ?thesis .
  qed
qed

section \<open>Scaled ratios\<close>

lemma ceil_le_iff:
  fixes a d n :: nat
  assumes "0 < d"
  shows "a div d + (if a mod d \<noteq> 0 then 1 else 0) \<le> n \<longleftrightarrow> a \<le> n * d"
proof -
  have a: "a = a div d * d + a mod d" by simp
  have lt: "a mod d < d" using assms by simp
  show ?thesis
  proof (cases "a mod d = 0")
    case True
    then show ?thesis
      using assms by (metis add_0_right div_le_mono div_mult_mod_eq div_mult_self_is_m mult_le_mono1)
  next
    case False
    have "a div d < n \<longleftrightarrow> a \<le> n * d"
    proof
      assume "a div d < n"
      then have "Suc (a div d) * d \<le> n * d" by (intro mult_le_mono1) simp
      moreover have "a \<le> Suc (a div d) * d"
        using dividend_less_div_times [OF assms, of a] by simp
      ultimately show "a \<le> n * d" by (rule le_trans [rotated])
    next
      assume "a \<le> n * d"
      then have "a < n * d" using False by (metis le_neq_implies_less mod_mult_self2_is_0)
      then show "a div d < n" using assms by (simp add: less_mult_imp_div_less)
    qed
    then show ?thesis using False by (simp add: Suc_le_eq)
  qed
qed

text \<open>
  Where the divisor is at most \<open>2 ^ 64\<close> the routine cannot overflow, and its result is the
  ceiling of the exact quotient.
\<close>

lemma ceil_scaled_denominator_ok:
  assumes "divisor \<noteq> 0" and "multiplier \<le> divisor" and "unat divisor \<le> 2 ^ 64"
  obtains c where "ceil_scaled_denominator multiplier v divisor = Inr c"
    and "\<And>n. unat c \<le> n \<longleftrightarrow> unat multiplier * unat v \<le> n * unat divisor"
proof -
  let ?d = "unat divisor" let ?m = "unat multiplier" let ?v = "unat v"
  have d: "0 < ?d" using assms(1) by (simp add: unat_gt_0)
  have m: "?m \<le> ?d" using assms(2) by (simp add: word_le_nat_alt)
  have q: "unat (v div divisor) = ?v div ?d" by (simp add: unat_div)
  have r: "unat (v mod divisor) = ?v mod ?d" by (simp add: unat_mod)
  have qm: "?v div ?d * ?m \<le> ?v"
    using m by (metis div_times_less_eq_dividend le_trans mult_le_mono2)
  have rm: "?v mod ?d * ?m < 2 ^ 128"
  proof -
    have "?v mod ?d * ?m \<le> (2 ^ 64 - 1) * 2 ^ 64"
      using mod_less_divisor [OF d, of ?v] m assms(3) by (intro mult_le_mono) linarith+
    then show ?thesis by simp
  qed
  obtain whole where whole: "checked_mul_word (v div divisor) multiplier = Some whole"
      "unat whole = ?v div ?d * ?m"
    using qm unat_bound [of v]
    by (cases "checked_mul_word (v div divisor) multiplier") (auto simp: checked_simps q)
  obtain rp where rp: "checked_mul_word (v mod divisor) multiplier = Some rp"
      "unat rp = ?v mod ?d * ?m"
    using rm by (cases "checked_mul_word (v mod divisor) multiplier") (auto simp: checked_simps r)
  let ?f = "rp div divisor + (if rp mod divisor \<noteq> 0 then 1 else 0)"
  let ?a = "?v mod ?d * ?m"
  have rpd: "?a div ?d + 1 < 2 ^ 128"
  proof (cases "?d = 1")
    case False
    then have "?a div ?d \<le> ?a div 2" using d by (intro div_le_mono2) simp_all
    then show ?thesis using rm by simp
  qed simp
  have f: "unat ?f = ?a div ?d + (if ?a mod ?d \<noteq> 0 then 1 else 0)"
  proof -
    have z: "rp mod divisor = 0 \<longleftrightarrow> ?a mod ?d = 0"
      by (metis rp(2) unat_eq_zero unat_mod)
    show ?thesis
      using rpd by (simp add: z unat_word_ariths unat_div rp(2))
  qed
  let ?p = "?m * ?v"
  have p: "?p = ?v div ?d * ?m * ?d + ?a"
  proof -
    have "?p = ?m * (?v div ?d * ?d + ?v mod ?d)" by simp
    then show ?thesis by (simp only: add_mult_distrib2 ac_simps)
  qed
  have pd: "?p div ?d = ?v div ?d * ?m + ?a div ?d" using d by (simp add: p)
  have pm: "?p mod ?d = ?a mod ?d" by (simp add: p)
  have total: "unat whole + unat ?f = ?p div ?d + (if ?p mod ?d \<noteq> 0 then 1 else 0)"
    by (simp only: whole(2) f pd pm add.assoc)
  have le: "unat whole + unat ?f \<le> ?v"
    unfolding total using m by (subst ceil_le_iff [OF d]) simp
  then obtain c where c: "checked_add_word whole ?f = Some c" "unat c = unat whole + unat ?f"
    using unat_bound [of v] by (cases "checked_add_word whole ?f") (auto simp: checked_simps)
  show thesis
  proof (rule that)
    show "ceil_scaled_denominator multiplier v divisor = Inr c"
      using assms(1,2) whole(1) rp(1) c(1)
      by (simp add: ceil_scaled_denominator_def Let_def not_less)
    show "unat c \<le> n \<longleftrightarrow> ?m * ?v \<le> n * ?d" for n
      unfolding c(2) total by (rule ceil_le_iff [OF d])
  qed
qed

text \<open>
  The binary search ends at the largest multiplier whose scaled denominator still fits under the
  numerator: the floor of the exact quotient.
\<close>

lemma scaled_search_floor:
  assumes "denominator \<noteq> 0" and "unat scale \<le> 2 ^ 64" and "scale \<noteq> 0"
    and "low \<le> high" and "high \<le> scale"
    and "unat low \<le> unat numerator * unat scale div unat denominator"
    and "unat numerator * unat scale div unat denominator \<le> unat high"
  shows "\<exists>r. scaled_search numerator denominator scale low high = Inr r
             \<and> unat r = unat numerator * unat scale div unat denominator"
  using assms
proof (induction numerator denominator scale low high rule: scaled_search.induct)
  case (1 numerator denominator scale low high)
  let ?t = "unat numerator * unat scale div unat denominator"
  let ?m = "midpoint low high"
  have d: "0 < unat denominator" using "1.prems"(1) by (simp add: unat_gt_0)
  show ?case
  proof (cases "low < high")
    case False
    with "1.prems"(4) have "low = high" by simp
    with "1.prems"(6,7) show ?thesis by (simp add: scaled_search.simps [of _ _ _ high high])
  next
    case True
    note mid = midpoint_bounds [OF True]
    have "?m \<le> scale" using mid(2) "1.prems"(5) by simp
    then obtain c where c: "ceil_scaled_denominator ?m denominator scale = Inr c"
      and c_iff: "\<And>n. unat c \<le> n \<longleftrightarrow> unat ?m * unat denominator \<le> n * unat scale"
      using ceil_scaled_denominator_ok [OF "1.prems"(3) _ "1.prems"(2)] by blast
    have le_iff: "c \<le> numerator \<longleftrightarrow> unat ?m \<le> ?t"
      using d by (simp add: word_le_nat_alt c_iff less_eq_div_iff_mult_less_eq)
    show ?thesis
    proof (cases "c \<le> numerator")
      case le: True
      have "\<exists>r. scaled_search numerator denominator scale ?m high = Inr r \<and> unat r = ?t"
        using le le_iff mid "1.prems" by (intro "1.IH"(1) [OF True c le]) simp_all
      then show ?thesis using True c le by (simp add: scaled_search.simps [of _ _ _ low high])
    next
      case gt: False
      have "\<exists>r. scaled_search numerator denominator scale low (?m - 1) = Inr r \<and> unat r = ?t"
      proof (intro "1.IH"(2) [OF True c gt])
        show "low \<le> ?m - 1" using mid by (simp add: word_le_nat_alt word_less_nat_alt)
        show "?m - 1 \<le> scale"
          using mid(2,3) "1.prems"(5) by (simp add: word_le_nat_alt)
        show "?t \<le> unat (?m - 1)" using gt le_iff mid(3) by simp
      qed (use "1.prems" in simp_all)
      then show ?thesis using True c gt by (simp add: scaled_search.simps [of _ _ _ low high])
    qed
  qed
qed

lemma scaled_proper_fraction_floor:
  assumes "numerator < denominator" and "unat scale \<le> 2 ^ 64"
  shows "\<exists>r. scaled_proper_fraction numerator denominator scale = Inr r
             \<and> unat r = unat numerator * unat scale div unat denominator"
proof (cases "numerator = 0 \<or> scale = 0")
  case True
  then show ?thesis by (auto simp: scaled_proper_fraction_def)
next
  case False
  have lt: "unat numerator < unat denominator" using assms(1) by (simp add: word_less_nat_alt)
  have "unat numerator * unat scale div unat denominator \<le> unat scale"
  proof -
    have "unat numerator * unat scale \<le> unat scale * unat denominator"
      using lt by (simp add: mult.commute)
    then show ?thesis
      using lt by (metis div_le_mono div_mult_self_is_m gr_implies_not0 neq0_conv)
  qed
  then show ?thesis
    using False lt assms(2)
    by (auto simp: scaled_proper_fraction_def intro!: scaled_search_floor)
qed

text \<open>The scaled ratio is exact, and overflows only when its result does not fit 128 bits.\<close>

lemma checked_scaled_ratio_exact:
  assumes "denominator \<noteq> 0" and "unat scale \<le> 2 ^ 64"
  shows "checked_scaled_ratio numerator denominator scale =
    (let t = unat numerator * unat scale div unat denominator
     in if t < 2 ^ 128 then Inr (of_nat t) else Inl ArithmeticOverflow)"
proof -
  let ?n = "unat numerator" let ?d = "unat denominator" let ?s = "unat scale"
  have d: "0 < ?d" using assms(1) by (simp add: unat_gt_0)
  have lt: "numerator mod denominator < denominator"
    using assms(1) by (simp add: word_mod_less_divisor word_gt_0)
  obtain f where f: "scaled_proper_fraction (numerator mod denominator) denominator scale = Inr f"
      "unat f = ?n mod ?d * ?s div ?d"
    using scaled_proper_fraction_floor [OF lt assms(2)] by (auto simp: unat_mod)
  have split: "?n * ?s div ?d = ?n div ?d * ?s + ?n mod ?d * ?s div ?d"
  proof -
    have "?n * ?s = (?n div ?d * ?d + ?n mod ?d) * ?s" by simp
    also have "\<dots> = ?n div ?d * ?s * ?d + ?n mod ?d * ?s"
      by (simp only: distrib_left distrib_right ac_simps)
    finally show ?thesis using d by simp
  qed
  show ?thesis
  proof (cases "checked_mul_word (numerator div denominator) scale")
    case None
    then have "2 ^ 128 \<le> ?n div ?d * ?s" by (simp add: checked_simps unat_div)
    with None assms(1) show ?thesis by (simp add: checked_scaled_ratio_def Let_def split)
  next
    case (Some w)
    then have w: "unat w = ?n div ?d * ?s" by (simp add: checked_simps unat_div)
    show ?thesis
    proof (cases "checked_add_word w f")
      case None
      then have "2 ^ 128 \<le> ?n div ?d * ?s + ?n mod ?d * ?s div ?d" by (simp add: checked_simps w f(2))
      with None Some assms(1) f(1) show ?thesis by (simp add: checked_scaled_ratio_def Let_def split)
    next
      case (Some r)
      then have r: "unat r = ?n * ?s div ?d" by (simp add: checked_simps w f(2) split)
      then have "of_nat (?n * ?s div ?d) = r" by (simp flip: r)
      moreover have "?n * ?s div ?d < 2 ^ 128" using r unat_bound [of r] by simp
      ultimately show ?thesis
        using Some \<open>checked_mul_word _ _ = Some w\<close> assms(1) f(1)
        by (simp add: checked_scaled_ratio_def Let_def)
    qed
  qed
qed

section \<open>Basis points\<close>

lemma unat_u128_from_u16 [simp]: "unat (u128_from_u16 x) = unat x"
  using unat_bound [of x] by (simp add: u128_from_u16_def unsigned_ucast_eq take_bit_nat_eq_self)

lemma unat_BASIS_POINTS_SCALE [simp]: "unat BASIS_POINTS_SCALE = 10000"
  by (simp add: BASIS_POINTS_SCALE_def)

lemma try_u16_ok: "unat x < 2 ^ 16 \<Longrightarrow> \<exists>y. try_u16 x = Inr y \<and> unat y = unat x"
  by (simp add: try_u16_def unsigned_ucast_eq take_bit_nat_eq_self)

text \<open>The limit test is exact: no rounding can let a wallet slip over or under the limit.\<close>

lemma fraction_within_basis_point_limit_exact:
  assumes "denominator \<noteq> 0" and "maximum_bps \<le> BASIS_POINTS_SCALE"
  shows "fraction_within_basis_point_limit numerator denominator maximum_bps
           = Inr (unat numerator * 10000 \<le> unat denominator * unat maximum_bps)"
proof -
  let ?d = "unat denominator" let ?b = "unat maximum_bps"
  have b: "?b \<le> 10000" using assms(2) by (simp add: word_le_nat_alt)
  have s: "u128_from_u16 BASIS_POINTS_SCALE \<noteq> 0"
    by (metis unat_0 unat_BASIS_POINTS_SCALE unat_u128_from_u16 zero_neq_numeral)
  have bound: "?d * ?b div 10000 \<le> ?d"
    using div_le_mono [of "?d * ?b" "?d * 10000" 10000] b by simp
  then have small: "?d * ?b div 10000 < 2 ^ 128" using unat_bound [of denominator] by simp
  then have r: "checked_scaled_ratio denominator (u128_from_u16 BASIS_POINTS_SCALE)
      (u128_from_u16 maximum_bps) = Inr (of_nat (?d * ?b div 10000))"
    using b by (simp add: checked_scaled_ratio_exact [OF s] Let_def)
  have "numerator \<le> of_nat (?d * ?b div 10000) \<longleftrightarrow> unat numerator * 10000 \<le> ?d * ?b"
    using small by (simp add: word_le_nat_alt unat_of_nat less_eq_div_iff_mult_less_eq)
  with r assms show ?thesis
    by (simp add: fraction_within_basis_point_limit_def not_less)
qed

text \<open>
  A share in basis points is the exact share rounded up, so that a share compares with a limit as
  the exact fraction does.
\<close>

lemma fraction_to_basis_points_exact:
  assumes "denominator \<noteq> 0" and "numerator \<le> denominator"
  shows "\<exists>b. fraction_to_basis_points numerator denominator = Inr b \<and> b \<le> BASIS_POINTS_SCALE
    \<and> (\<forall>limit. unat b \<le> limit \<longleftrightarrow> unat numerator * 10000 \<le> limit * unat denominator)"
proof -
  let ?n = "unat numerator" let ?d = "unat denominator"
  let ?f = "?n * 10000 div ?d"
  have d: "0 < ?d" using assms(1) by (simp add: unat_gt_0)
  have nd: "?n \<le> ?d" using assms(2) by (simp add: word_le_nat_alt)
  have ceil: "?f + (if ?n * 10000 mod ?d \<noteq> 0 then 1 else 0) \<le> 10000"
    by (subst ceil_le_iff [OF d]) (use nd in simp)
  then have f: "?f \<le> 10000" by (simp split: if_splits)
  have ratio: "checked_scaled_ratio numerator denominator (u128_from_u16 BASIS_POINTS_SCALE)
      = Inr (of_nat ?f)"
    using f by (simp add: checked_scaled_ratio_exact [OF assms(1)] Let_def)
  have uf: "unat (of_nat ?f :: u128) = ?f" using f by (simp add: unat_of_nat)
  obtain fb where fb: "try_u16 (of_nat ?f) = Inr fb" "unat fb = ?f"
    using try_u16_ok [of "of_nat ?f"] f uf by auto
  have within: "fraction_within_basis_point_limit numerator denominator fb
      = Inr (?n * 10000 mod ?d = 0)"
  proof -
    have "?n * 10000 \<le> ?d * ?f \<longleftrightarrow> ?n * 10000 mod ?d = 0"
      using mult_div_mod_eq [of ?d "?n * 10000"] by linarith
    then show ?thesis
      using f fb(2) by (subst fraction_within_basis_point_limit_exact)
        (simp_all add: assms word_le_nat_alt)
  qed
  let ?v = "of_nat (?f + (if ?n * 10000 mod ?d \<noteq> 0 then 1 else 0)) :: u128"
  have uv: "unat ?v = ?f + (if ?n * 10000 mod ?d \<noteq> 0 then 1 else 0)"
    by (rule unat_of_nat_small) (use ceil in simp)
  have "(if ?n * 10000 mod ?d = 0 then Inr (of_nat ?f)
         else ok_or ArithmeticOverflow (checked_add_word (of_nat ?f) 1)) = Inr ?v"
    using f uf by (simp add: checked_add_word_def)
  moreover obtain b where b: "try_u16 ?v = Inr b" "unat b = unat ?v"
    using try_u16_ok [of ?v] ceil uv by auto
  ultimately have "fraction_to_basis_points numerator denominator = Inr b"
    using assms ratio fb(1) within
    by (simp add: fraction_to_basis_points_def not_less del: of_nat_add)
  moreover have "b \<le> BASIS_POINTS_SCALE" using b(2) uv ceil by (simp add: word_le_nat_alt)
  ultimately show ?thesis using b(2) uv ceil_le_iff [OF d, of "?n * 10000"] by metis
qed

section \<open>Price ratios\<close>

text \<open>A price is kept in lowest terms and denotes the same fraction as its amounts.\<close>

lemma price_ratio_new_reduced:
  assumes "price_ratio_new quote base = Inr r"
  shows "coprime (unat (ratio_quote_units r)) (unat (ratio_base_units r))"
    and "unat (ratio_quote_units r) * unat base = unat quote * unat (ratio_base_units r)"
    and "ratio_quote_units r \<noteq> 0" and "ratio_base_units r \<noteq> 0"
    and "ratio_quote_units r \<le> quote" and "ratio_base_units r \<le> base"
proof -
  let ?g = "gcd (unat quote) (unat base)"
  from assms have nz: "quote \<noteq> 0" "base \<noteq> 0"
    and r: "unat (ratio_quote_units r) = unat quote div ?g"
      "unat (ratio_base_units r) = unat base div ?g"
    by (auto simp: price_ratio_new_def Let_def unat_div unat_greatest_common_divisor split: if_splits)
  from nz have pos: "0 < unat quote" "0 < unat base" by (simp_all add: unat_gt_0)
  show "coprime (unat (ratio_quote_units r)) (unat (ratio_base_units r))"
    using pos by (simp add: r div_gcd_coprime)
  show "unat (ratio_quote_units r) * unat base = unat quote * unat (ratio_base_units r)"
    by (simp add: r) (metis div_mult_swap dvd_div_mult gcd_dvd1 gcd_dvd2)
  have "0 < unat (ratio_quote_units r)" "0 < unat (ratio_base_units r)"
    unfolding r using pos by (simp_all add: div_greater_zero_iff gcd_le1_nat gcd_le2_nat)
  then show "ratio_quote_units r \<noteq> 0" "ratio_base_units r \<noteq> 0" by auto
  show "ratio_quote_units r \<le> quote" "ratio_base_units r \<le> base"
    by (simp_all add: word_le_nat_alt r)
qed

text \<open>Prices of 64-bit amounts always compare, and compare as the fractions they denote.\<close>

definition ratio_fits :: "price_ratio \<Rightarrow> bool" where
  "ratio_fits r \<longleftrightarrow> unat (ratio_quote_units r) < 2 ^ 64 \<and> unat (ratio_base_units r) < 2 ^ 64
     \<and> 0 < unat (ratio_quote_units r) \<and> 0 < unat (ratio_base_units r)"

definition ratio_cross :: "price_ratio \<Rightarrow> price_ratio \<Rightarrow> nat" where
  "ratio_cross a b = unat (ratio_quote_units a) * unat (ratio_base_units b)"

lemma ratio_cross_fits: "ratio_fits a \<Longrightarrow> ratio_fits b \<Longrightarrow> ratio_cross a b < 2 ^ 128"
proof -
  assume "ratio_fits a" "ratio_fits b"
  then have "ratio_cross a b < 2 ^ 64 * 2 ^ 64"
    unfolding ratio_fits_def ratio_cross_def by (intro mult_strict_mono) simp_all
  then show ?thesis by simp
qed

lemma price_ratio_new_fits:
  "price_ratio_new (u128_from q) (u128_from b) = Inr r \<Longrightarrow> ratio_fits r"
  using price_ratio_new_reduced [of "u128_from q" "u128_from b" r]
    unat_u128_from_less [of q] unat_u128_from_less [of b]
  by (auto simp: ratio_fits_def word_le_nat_alt unat_gt_0)

lemma checked_mul_word_fits:
  fixes a b :: u128
  assumes "unat a * unat b < 2 ^ 128"
  obtains c where "checked_mul_word a b = Some c" and "unat c = unat a * unat b"
  using assms by (cases "checked_mul_word a b") (auto simp: checked_simps)

lemma checked_cmp_exact:
  assumes "ratio_fits a" and "ratio_fits b"
  shows "checked_cmp a b = Inr (cmp (ratio_cross a b) (ratio_cross b a))"
proof -
  obtain l where "checked_mul_word (ratio_quote_units a) (ratio_base_units b) = Some l"
      "unat l = ratio_cross a b"
    using ratio_cross_fits [OF assms] unfolding ratio_cross_def by (rule checked_mul_word_fits)
  moreover obtain r where "checked_mul_word (ratio_quote_units b) (ratio_base_units a) = Some r"
      "unat r = ratio_cross b a"
    using ratio_cross_fits [OF assms(2,1)] unfolding ratio_cross_def by (rule checked_mul_word_fits)
  ultimately show ?thesis
    by (simp add: checked_cmp_def cmp_def word_less_nat_alt word_unat_eq_iff)
qed

definition ratio_value :: "price_ratio \<Rightarrow> rat" where
  "ratio_value r = of_nat (unat (ratio_quote_units r)) / of_nat (unat (ratio_base_units r))"

lemma ratio_cross_value:
  assumes "ratio_fits a" and "ratio_fits b"
  shows "ratio_cross a b < ratio_cross b a \<longleftrightarrow> ratio_value a < ratio_value b"
proof -
  have "0 < unat (ratio_base_units a)" "0 < unat (ratio_base_units b)"
    using assms by (simp_all add: ratio_fits_def)
  then have "ratio_value a < ratio_value b \<longleftrightarrow>
      (of_nat (ratio_cross a b) :: rat) < of_nat (ratio_cross b a)"
    by (simp add: ratio_value_def ratio_cross_def divide_simps mult.commute del: of_nat_unat)
  then show ?thesis by (simp only: of_nat_less_iff)
qed

lemma checked_cmp_value:
  assumes "ratio_fits a" and "ratio_fits b"
  shows "checked_cmp a b = Inr (cmp (ratio_value a) (ratio_value b))"
  using checked_cmp_exact [OF assms] ratio_cross_value [OF assms] ratio_cross_value [OF assms(2,1)]
  by (auto simp: cmp_def not_less order.order_iff_strict)

lemma price_ratio_new_value:
  assumes "price_ratio_new (u128_from q) (u128_from b) = Inr r"
  shows "ratio_value r = of_nat (unat q) / of_nat (unat b)"
proof -
  have "0 < unat (ratio_base_units r)" "0 < unat b"
    using price_ratio_new_reduced(4) [OF assms] assms
    by (auto simp: unat_gt_0 price_ratio_new_def split: if_splits)
  moreover have "(of_nat (unat (ratio_quote_units r) * unat b) :: rat)
      = of_nat (unat q * unat (ratio_base_units r))"
    using price_ratio_new_reduced(2) [OF assms] by (simp only: unat_u128_from)
  ultimately show ?thesis
    by (simp add: ratio_value_def divide_simps del: of_nat_unat)
qed

lemma relative_change:
  fixes a b :: nat
  shows "a \<le> b \<Longrightarrow> \<bar>int b - int a\<bar> * 10000 div int a = int ((b - a) * 10000 div a)"
    and "b \<le> a \<Longrightarrow> \<bar>int b - int a\<bar> * 10000 div int a = int ((a - b) * 10000 div a)"
  by (simp_all add: zdiv_int of_nat_diff)

lemma signed_magnitude_of_nat:
  "t < 2 ^ 128 \<Longrightarrow> signed_magnitude (of_nat t) False
     = (if int t \<le> i128_max then Inr (int t) else Inl ArithmeticOverflow)"
  "t \<le> 10000 \<Longrightarrow> signed_magnitude (of_nat t) True = Inr (- int t)"
  by (simp_all add: signed_magnitude_def uint_of_nat_small i128_max_def)

text \<open>The price change is the exact relative change in basis points, truncated towards zero.\<close>

lemma price_change_exact:
  assumes "ratio_fits first" and "ratio_fits latest"
  defines "f \<equiv> int (ratio_cross first latest)" and "l \<equiv> int (ratio_cross latest first)"
  shows "price_change_basis_points first latest =
    (let m = \<bar>l - f\<bar> * 10000 div f
     in if f \<le> l \<and> m \<le> i128_max then Inr m
        else if l < f then Inr (- m)
        else Inl ArithmeticOverflow)"
proof -
  obtain lc where lc: "checked_mul_word (ratio_quote_units latest) (ratio_base_units first) = Some lc"
      "unat lc = ratio_cross latest first"
    using ratio_cross_fits [OF assms(2,1)] unfolding ratio_cross_def by (rule checked_mul_word_fits)
  obtain fc where fc: "checked_mul_word (ratio_quote_units first) (ratio_base_units latest) = Some fc"
      "unat fc = ratio_cross first latest"
    using ratio_cross_fits [OF assms(1,2)] unfolding ratio_cross_def by (rule checked_mul_word_fits)
  have nz: "fc \<noteq> 0"
    using assms(1,2) fc(2) by (auto simp: ratio_fits_def ratio_cross_def)
  have f: "f = int (unat fc)" and l: "l = int (unat lc)" by (simp_all add: f_def l_def lc fc)
  have pos: "0 < unat fc" using nz by (simp add: unat_gt_0)
  show ?thesis
  proof (cases "fc \<le> lc")
    case True
    then have le: "unat fc \<le> unat lc" by (simp add: word_le_nat_alt)
    have m: "\<bar>l - f\<bar> * 10000 div f = int ((unat lc - unat fc) * 10000 div unat fc)"
      unfolding f l by (rule relative_change(1) [OF le])
    have "checked_scaled_ratio (lc - fc) fc (u128_from_u16 BASIS_POINTS_SCALE) =
        (let t = (unat lc - unat fc) * 10000 div unat fc
         in if t < 2 ^ 128 then Inr (of_nat t) else Inl ArithmeticOverflow)"
      using True by (simp add: checked_scaled_ratio_exact [OF nz] unat_sub)
    then have "price_change_basis_points first latest =
        (let t = (unat lc - unat fc) * 10000 div unat fc
         in if t < 2 ^ 128 then signed_magnitude (of_nat t) False else Inl ArithmeticOverflow)"
      using True lc(1) fc(1) by (simp add: price_change_basis_points_def Let_def)
    moreover have "f \<le> l" using le by (simp only: f l of_nat_le_iff)
    ultimately show ?thesis
      unfolding m by (auto simp: Let_def signed_magnitude_of_nat i128_max_def not_less
          simp del: of_nat_unat)
  next
    case False
    then have lt: "unat lc < unat fc" by (simp add: word_le_nat_alt)
    have m: "\<bar>l - f\<bar> * 10000 div f = int ((unat fc - unat lc) * 10000 div unat fc)"
      unfolding f l by (rule relative_change(2) [OF less_imp_le [OF lt]])
    have small: "(unat fc - unat lc) * 10000 div unat fc \<le> 10000"
    proof -
      have "(unat fc - unat lc) * 10000 \<le> 10000 * unat fc" by simp
      then show ?thesis using pos by (metis div_le_mono div_mult_self_is_m)
    qed
    have "checked_scaled_ratio (fc - lc) fc (u128_from_u16 BASIS_POINTS_SCALE)
        = Inr (of_nat ((unat fc - unat lc) * 10000 div unat fc))"
      using small False by (simp add: checked_scaled_ratio_exact [OF nz] unat_sub Let_def)
    then have "price_change_basis_points first latest
        = signed_magnitude (of_nat ((unat fc - unat lc) * 10000 div unat fc)) True"
      using False lc(1) fc(1) by (simp add: price_change_basis_points_def Let_def)
    moreover have "l < f" using lt by (simp only: f l of_nat_less_iff)
    ultimately show ?thesis
      unfolding m signed_magnitude_of_nat(2) [OF small] by (simp add: Let_def not_le)
  qed
qed

section \<open>The search computes a quotient\<close>

text \<open>
  Scaling a fraction without a wider integer type is exact. The quotient and the binary search
  on 128-bit words return the mathematical floor of numerator times scale over denominator, for
  every scale up to 64 bits, although that product can need far more than 128 bits; they fail
  only when the result itself does not fit.
\<close>

theorem scaled_ratio_is_floor:
  assumes "denominator \<noteq> 0" and "unat scale \<le> 2 ^ 64"
  shows "checked_scaled_ratio numerator denominator scale =
    (let t = unat numerator * unat scale div unat denominator
     in if t < 2 ^ 128 then Inr (of_nat t) else Inl ArithmeticOverflow)"
  using assms by (rule checked_scaled_ratio_exact)

theorem scaled_ratio_is_floor_witness:
  "checked_scaled_ratio (2 ^ 127) (2 ^ 120 + 1) 10000 = Inr 1279999"
  using scaled_ratio_is_floor [of "2 ^ 120 + 1" 10000 "2 ^ 127"] by (simp add: Let_def)

end
