(* ===== verification/Snapshot.thy ===== *)
theory Snapshot
  imports Ratio
begin

text \<open>
  The immutable view of one market over one receipt-time window, from
  \<open>crates/discovery-engine/src/snapshot.rs\<close>. The loop of \<open>build_market_window_snapshot\<close> is the
  fold of \<open>snapshot_step\<close> over the observations of the window in their canonical order; its
  mutable locals are the fields of the record \<open>snapshot_locals\<close>.
\<close>

section \<open>Data\<close>

definition INVALID_TRADE_AMOUNT_REASON :: string where
  "INVALID_TRADE_AMOUNT_REASON = ''INVALID_TRADE_AMOUNT''"

definition INVALID_TRADE_WALLET_REASON :: string where
  "INVALID_TRADE_WALLET_REASON = ''INVALID_TRADE_WALLET''"

datatype snapshot_completeness = Complete | Incomplete string

definition is_complete :: "snapshot_completeness \<Rightarrow> bool" where
  "is_complete c \<longleftrightarrow> c = Complete"

fun completeness_reason_code :: "snapshot_completeness \<Rightarrow> string option" where
  "completeness_reason_code Complete = None"
| "completeness_reason_code (Incomplete reason) = Some reason"

record wallet_metrics =
  wm_trades :: u64
  wm_buys :: u64
  wm_sells :: u64
  wm_buy_base_units :: u128
  wm_sell_base_units :: u128
  wm_buy_quote_units :: u128
  wm_sell_quote_units :: u128

definition wallet_metrics_default :: wallet_metrics where
  "wallet_metrics_default =
     \<lparr>wm_trades = 0, wm_buys = 0, wm_sells = 0, wm_buy_base_units = 0, wm_sell_base_units = 0,
      wm_buy_quote_units = 0, wm_sell_quote_units = 0\<rparr>"

record wallet_volume_share =
  share_wallet :: string
  share_quote_volume_units :: u128
  share_bps :: u16

record creator_volume_share =
  creator_wallets :: "string list"
  creator_quote_volume_units :: u128
  creator_share_bps :: "u16 option"

record trade_sample =
  ts_key :: observation_key
  ts_received :: i64
  ts_source_time :: "i64 option"
  ts_side :: trade_side
  ts_wallet :: string
  ts_base_amount :: u128
  ts_quote_amount :: u128
  ts_base_reserve :: "u128 option"
  ts_quote_reserve :: "u128 option"

datatype liquidity_direction = Deposit | Withdraw

record liquidity_sample =
  ls_key :: observation_key
  ls_received :: i64
  ls_source_time :: "i64 option"
  ls_direction :: liquidity_direction
  ls_provider :: string
  ls_base_amount :: u128
  ls_quote_amount :: u128
  ls_base_reserve :: u128
  ls_quote_reserve :: u128
  ls_lp_token_amount :: u128
  ls_lp_token_supply :: u128

record reserve_sample =
  rs_key :: observation_key
  rs_received :: i64
  rs_base_units :: "u128 option"
  rs_quote_units :: "u128 option"

record reserve_extremum =
  re_key :: observation_key
  re_received :: i64
  re_units :: u128

record reserve_summary =
  reserve_first :: reserve_sample
  reserve_latest :: reserve_sample
  minimum_base :: "reserve_extremum option"
  maximum_base :: "reserve_extremum option"
  minimum_quote :: "reserve_extremum option"
  maximum_quote :: "reserve_extremum option"
  reserve_list :: "reserve_sample list"

record price_point =
  pp_key :: observation_key
  pp_received :: i64
  pp_ratio :: price_ratio

record price_summary =
  price_first :: price_point
  price_last :: price_point
  price_low :: price_point
  price_high :: price_point
  change_bps :: "i128 option"

record market_window_metrics =
  observations_count :: u64
  trades :: u64
  buys :: u64
  sells :: u64
  buy_base_units :: u128
  sell_base_units :: u128
  buy_quote_units :: u128
  sell_quote_units :: u128
  unique_traders :: u64
  unique_buyers :: u64
  unique_sellers :: u64
  wallets :: "(string, wallet_metrics) btree"
  largest_wallet_quote_volume :: "wallet_volume_share option"
  creator_quote_volume :: "creator_volume_share option"
  first_trade_received_at :: "i64 option"
  last_trade_received_at :: "i64 option"
  first_trade_slot :: "u64 option"
  last_trade_slot :: "u64 option"

record market_window_snapshot =
  snap_market :: market_identity
  snap_opened_at :: i64
  snap_closes_at :: i64
  completeness :: snapshot_completeness
  observation_keys :: "observation_key list"
  trade_samples :: "trade_sample list"
  liquidity_samples :: "liquidity_sample list"
  metrics :: market_window_metrics
  reserves :: "reserve_summary option"
  prices :: "price_summary option"
  completion_observed :: bool
  migration_observed :: bool
  completion_observation_keys :: "observation_key list"
  migration_observation_keys :: "observation_key list"
  latest_observed_slot :: "u64 option"

record metrics_accumulator =
  acc_trades :: u64
  acc_buys :: u64
  acc_sells :: u64
  acc_buy_base :: u128
  acc_sell_base :: u128
  acc_buy_quote :: u128
  acc_sell_quote :: u128
  acc_wallets :: "(string, wallet_metrics) btree"

definition metrics_accumulator_default :: metrics_accumulator where
  "metrics_accumulator_default =
     \<lparr>acc_trades = 0, acc_buys = 0, acc_sells = 0, acc_buy_base = 0, acc_sell_base = 0,
      acc_buy_quote = 0, acc_sell_quote = 0, acc_wallets = []\<rparr>"

section \<open>Metrics\<close>

definition wallet_checked_record ::
    "wallet_metrics \<Rightarrow> trade_side \<Rightarrow> u128 \<Rightarrow> u128 \<Rightarrow> (snapshot_error, wallet_metrics) result" where
  "wallet_checked_record self side base_units quote_units =
     result_bind (checked_add (wm_trades self) 1) (\<lambda>trades'.
     (case side of
        Buy \<Rightarrow>
          result_bind (checked_add (wm_buys self) 1) (\<lambda>buys'.
          result_bind (checked_add (wm_buy_base_units self) base_units) (\<lambda>base'.
          result_bind (checked_add (wm_buy_quote_units self) quote_units) (\<lambda>quote'.
          Inr (self\<lparr>wm_trades := trades', wm_buys := buys', wm_buy_base_units := base',
                    wm_buy_quote_units := quote'\<rparr>))))
      | Sell \<Rightarrow>
          result_bind (checked_add (wm_sells self) 1) (\<lambda>sells'.
          result_bind (checked_add (wm_sell_base_units self) base_units) (\<lambda>base'.
          result_bind (checked_add (wm_sell_quote_units self) quote_units) (\<lambda>quote'.
          Inr (self\<lparr>wm_trades := trades', wm_sells := sells', wm_sell_base_units := base',
                    wm_sell_quote_units := quote'\<rparr>))))))"

definition total_quote_units :: "wallet_metrics \<Rightarrow> (snapshot_error, u128) result" where
  "total_quote_units self = checked_add (wm_buy_quote_units self) (wm_sell_quote_units self)"

definition total_quote_volume_units :: "market_window_metrics \<Rightarrow> (snapshot_error, u128) result" where
  "total_quote_volume_units self = checked_add (buy_quote_units self) (sell_quote_units self)"

definition accumulator_checked_record ::
    "metrics_accumulator \<Rightarrow> trade_side \<Rightarrow> string \<Rightarrow> u128 \<Rightarrow> u128
      \<Rightarrow> (snapshot_error, metrics_accumulator) result" where
  "accumulator_checked_record self side w base_units quote_units =
     result_bind (checked_add (acc_trades self) 1) (\<lambda>next_trades.
     let current_wallet = btree_get_or wallet_metrics_default (acc_wallets self) w in
     result_bind (wallet_checked_record current_wallet side base_units quote_units) (\<lambda>next_wallet.
     result_bind
       (case side of
          Buy \<Rightarrow>
            result_bind (checked_add (acc_buys self) 1) (\<lambda>b.
            result_bind (checked_add (acc_buy_base self) base_units) (\<lambda>bb.
            result_bind (checked_add (acc_buy_quote self) quote_units) (\<lambda>bq.
            Inr (b, acc_sells self, bb, acc_sell_base self, bq, acc_sell_quote self))))
        | Sell \<Rightarrow>
            result_bind (checked_add (acc_sells self) 1) (\<lambda>s.
            result_bind (checked_add (acc_sell_base self) base_units) (\<lambda>sb.
            result_bind (checked_add (acc_sell_quote self) quote_units) (\<lambda>sq.
            Inr (acc_buys self, s, acc_buy_base self, sb, acc_buy_quote self, sq)))))
       (\<lambda>(next_buys, next_sells, next_buy_base, next_sell_base, next_buy_quote, next_sell_quote).
     Inr (self\<lparr>acc_trades := next_trades, acc_buys := next_buys, acc_sells := next_sells,
               acc_buy_base := next_buy_base, acc_sell_base := next_sell_base,
               acc_buy_quote := next_buy_quote, acc_sell_quote := next_sell_quote,
               acc_wallets := btree_insert w next_wallet (acc_wallets self)\<rparr>))))"

definition try_u64 :: "usize \<Rightarrow> (snapshot_error, u64) result" where
  "try_u64 n = (if n < 2 ^ 64 then Inr (of_nat n) else Inl ArithmeticOverflow)"

fun largest_wallet ::
    "u128 \<Rightarrow> wallet_volume_share option \<Rightarrow> (string \<times> wallet_metrics) list
      \<Rightarrow> (snapshot_error, wallet_volume_share option) result" where
  "largest_wallet total_volume largest [] = Inr largest"
| "largest_wallet total_volume largest ((w, m) # rest) =
     result_bind (total_quote_units m) (\<lambda>volume.
       if (case largest of None \<Rightarrow> True | Some l \<Rightarrow> share_quote_volume_units l < volume)
       then result_bind (fraction_to_basis_points volume total_volume) (\<lambda>bps.
              largest_wallet total_volume
                (Some \<lparr>share_wallet = w, share_quote_volume_units = volume, share_bps = bps\<rparr>) rest)
       else largest_wallet total_volume largest rest)"

fun creator_volume ::
    "(string, wallet_metrics) btree \<Rightarrow> u128 \<Rightarrow> string list \<Rightarrow> (snapshot_error, u128) result" where
  "creator_volume ws volume [] = Inr volume"
| "creator_volume ws volume (creator # rest) =
     (case btree_get ws creator of
        None \<Rightarrow> creator_volume ws volume rest
      | Some m \<Rightarrow>
          result_bind (total_quote_units m) (\<lambda>v.
          result_bind (checked_add volume v) (\<lambda>volume'. creator_volume ws volume' rest)))"

definition accumulator_finish ::
    "metrics_accumulator \<Rightarrow> u64 \<Rightarrow> string list \<Rightarrow> trade_sample option \<Rightarrow> trade_sample option
      \<Rightarrow> (snapshot_error, market_window_metrics) result" where
  "accumulator_finish self observations creators first_trade last_trade =
     result_bind (checked_add (acc_buy_quote self) (acc_sell_quote self)) (\<lambda>total_quote_volume.
     result_bind (try_u64 (length (acc_wallets self))) (\<lambda>traders'.
     result_bind (try_u64 (length (filter (\<lambda>(_, m). 0 < wm_buys m) (acc_wallets self)))) (\<lambda>buyers'.
     result_bind (try_u64 (length (filter (\<lambda>(_, m). 0 < wm_sells m) (acc_wallets self)))) (\<lambda>sellers'.
     result_bind (largest_wallet total_quote_volume None (acc_wallets self)) (\<lambda>largest'.
     result_bind
       (if creators = [] then Inr None
        else
          result_bind (creator_volume (acc_wallets self) 0 creators) (\<lambda>volume.
          result_bind
            (if 0 < total_quote_volume
             then result_bind (fraction_to_basis_points volume total_quote_volume) (\<lambda>b. Inr (Some b))
             else Inr None) (\<lambda>share.
          Inr (Some \<lparr>creator_wallets = creators, creator_quote_volume_units = volume,
                     creator_share_bps = share\<rparr>)))) (\<lambda>creator'.
     Inr \<lparr>observations_count = observations,
          trades = acc_trades self, buys = acc_buys self, sells = acc_sells self,
          buy_base_units = acc_buy_base self, sell_base_units = acc_sell_base self,
          buy_quote_units = acc_buy_quote self, sell_quote_units = acc_sell_quote self,
          unique_traders = traders', unique_buyers = buyers', unique_sellers = sellers',
          wallets = acc_wallets self,
          largest_wallet_quote_volume = largest', creator_quote_volume = creator',
          first_trade_received_at = map_option ts_received first_trade,
          last_trade_received_at = map_option ts_received last_trade,
          first_trade_slot = map_option (\<lambda>s. slot (key_coordinate (ts_key s))) first_trade,
          last_trade_slot = map_option (\<lambda>s. slot (key_coordinate (ts_key s))) last_trade\<rparr>))))))"

section \<open>Reserves and prices\<close>

definition update_extrema ::
    "reserve_extremum option \<Rightarrow> reserve_extremum option \<Rightarrow> reserve_sample \<Rightarrow> u128 option
      \<Rightarrow> reserve_extremum option \<times> reserve_extremum option" where
  "update_extrema minimum maximum sample units =
     (case units of
        None \<Rightarrow> (minimum, maximum)
      | Some u \<Rightarrow>
          let candidate = \<lparr>re_key = rs_key sample, re_received = rs_received sample, re_units = u\<rparr> in
          (if (case minimum of None \<Rightarrow> True | Some current \<Rightarrow> u < re_units current)
           then Some candidate else minimum,
           if (case maximum of None \<Rightarrow> True | Some current \<Rightarrow> re_units current < u)
           then Some candidate else maximum))"

fun reserve_extrema ::
    "(reserve_sample \<Rightarrow> u128 option) \<Rightarrow> reserve_extremum option \<Rightarrow> reserve_extremum option
      \<Rightarrow> reserve_sample list \<Rightarrow> reserve_extremum option \<times> reserve_extremum option" where
  "reserve_extrema units minimum maximum [] = (minimum, maximum)"
| "reserve_extrema units minimum maximum (sample # rest) =
     (let (minimum', maximum') = update_extrema minimum maximum sample (units sample)
      in reserve_extrema units minimum' maximum' rest)"

definition summarize_reserves :: "reserve_sample list \<Rightarrow> reserve_summary option" where
  "summarize_reserves samples =
     (case samples of
        [] \<Rightarrow> None
      | first # _ \<Rightarrow>
          let (min_base, max_base) = reserve_extrema rs_base_units None None samples;
              (min_quote, max_quote) = reserve_extrema rs_quote_units None None samples
          in Some \<lparr>reserve_first = first, reserve_latest = last samples,
                   minimum_base = min_base, maximum_base = max_base,
                   minimum_quote = min_quote, maximum_quote = max_quote,
                   reserve_list = samples\<rparr>)"

fun price_extrema ::
    "price_point \<Rightarrow> price_point \<Rightarrow> price_point list
      \<Rightarrow> (snapshot_error, price_point \<times> price_point) result" where
  "price_extrema low high [] = Inr (low, high)"
| "price_extrema low high (point # rest) =
     result_bind (checked_cmp (pp_ratio point) (pp_ratio low)) (\<lambda>below.
     let low' = (if below = Less then point else low) in
     result_bind (checked_cmp (pp_ratio point) (pp_ratio high)) (\<lambda>above.
     let high' = (if above = Greater then point else high) in
     price_extrema low' high' rest))"

definition summarize_prices :: "price_point list \<Rightarrow> (snapshot_error, price_summary option) result" where
  "summarize_prices points =
     (case points of
        [] \<Rightarrow> Inr None
      | first # rest \<Rightarrow>
          result_bind (price_extrema first first rest) (\<lambda>(low, high).
          Inr (Some \<lparr>price_first = first, price_last = last points, price_low = low,
                     price_high = high,
                     change_bps = result_ok (price_change_basis_points (pp_ratio first)
                                               (pp_ratio (last points)))\<rparr>)))"

section \<open>The canonical order of observations\<close>

fun source_program_rank :: "source_program \<Rightarrow> u8" where
  "source_program_rank SourcePump = 0"
| "source_program_rank SourcePumpSwap = 1"
| "source_program_rank SourceRaydiumCpmm = 2"
| "source_program_rank SourceRaydiumClmm = 3"
| "source_program_rank SourceRaydiumAmmV4 = 4"

definition observation_order ::
    "'json normalized_observation \<Rightarrow> 'json normalized_observation \<Rightarrow> ordering" where
  "observation_order left right =
     (let l = key_coordinate (obs_key left); r = key_coordinate (obs_key right) in
      then_with (then_with (then_with (then_with (then_with (then_with
        (cmp (received_time_unix_ms left) (received_time_unix_ms right))
        (cmp (slot l) (slot r)))
        (cmp (transaction_index l) (transaction_index r)))
        (cmp (signature l) (signature r)))
        (cmp (instruction_index l) (instruction_index r)))
        (cmp (event_index l) (event_index r)))
        (cmp (source_program_rank (key_program (obs_key left)))
             (source_program_rank (key_program (obs_key right)))))"

section \<open>Building a snapshot\<close>

definition mark_incomplete_if_complete :: "snapshot_completeness \<Rightarrow> string \<Rightarrow> snapshot_completeness" where
  "mark_incomplete_if_complete c reason = (if is_complete c then Incomplete reason else c)"

fun check_duplicates ::
    "observation_key set \<Rightarrow> 'json normalized_observation list \<Rightarrow> (snapshot_error, unit) result" where
  "check_duplicates seen [] = Inr ()"
| "check_duplicates seen (obs # rest) =
     (if obs_key obs \<in> seen then Inl (DuplicateObservation (obs_key obs))
      else check_duplicates (insert (obs_key obs) seen) rest)"

definition creator_of :: "observation_payload \<Rightarrow> string option" where
  "creator_of p =
     (case p of
        TokenCreated _ _ _ creator _ \<Rightarrow> Some creator
      | MarketCreated creator _ _ \<Rightarrow> Some creator
      | _ \<Rightarrow> None)"

definition creator_wallet_set :: "'json normalized_observation list \<Rightarrow> string list" where
  "creator_wallet_set matching =
     sort (remdups (filter (\<lambda>c. c \<noteq> []) (List.map_filter (\<lambda>o'. creator_of (payload o')) matching)))"

record snapshot_locals =
  loc_completeness :: snapshot_completeness
  loc_accumulator :: metrics_accumulator
  loc_trade_samples :: "trade_sample list"
  loc_liquidity_samples :: "liquidity_sample list"
  loc_reserve_samples :: "reserve_sample list"
  loc_price_points :: "price_point list"
  loc_completion_keys :: "observation_key list"
  loc_migration_keys :: "observation_key list"
  loc_observation_keys :: "observation_key list"
  loc_latest_slot :: "u64 option"

definition snapshot_locals_init :: "snapshot_completeness \<Rightarrow> snapshot_locals" where
  "snapshot_locals_init c =
     \<lparr>loc_completeness = c, loc_accumulator = metrics_accumulator_default,
      loc_trade_samples = [], loc_liquidity_samples = [], loc_reserve_samples = [],
      loc_price_points = [], loc_completion_keys = [], loc_migration_keys = [],
      loc_observation_keys = [], loc_latest_slot = None\<rparr>"

definition record_trade ::
    "snapshot_locals \<Rightarrow> 'json normalized_observation \<Rightarrow> trade_side \<Rightarrow> string \<Rightarrow> u64 \<Rightarrow> u64
      \<Rightarrow> u64 option \<Rightarrow> u64 option \<Rightarrow> (snapshot_error, snapshot_locals) result" where
  "record_trade s obs side w base quote base_reserve quote_reserve =
     (if trim_is_empty w
      then Inr (s\<lparr>loc_completeness :=
             mark_incomplete_if_complete (loc_completeness s) INVALID_TRADE_WALLET_REASON\<rparr>)
      else
        let base_amount = u128_from base; quote_amount = u128_from quote in
        if base_amount = 0 \<or> quote_amount = 0
        then Inr (s\<lparr>loc_completeness :=
               mark_incomplete_if_complete (loc_completeness s) INVALID_TRADE_AMOUNT_REASON\<rparr>)
        else
          result_bind (price_ratio_new quote_amount base_amount) (\<lambda>ratio.
          result_bind
            (accumulator_checked_record (loc_accumulator s) side w base_amount quote_amount) (\<lambda>acc.
          let sample =
                \<lparr>ts_key = obs_key obs, ts_received = received_time_unix_ms obs,
                 ts_source_time = source_event_time_unix_ms obs, ts_side = side, ts_wallet = w,
                 ts_base_amount = base_amount, ts_quote_amount = quote_amount,
                 ts_base_reserve = map_option u128_from base_reserve,
                 ts_quote_reserve = map_option u128_from quote_reserve\<rparr>;
              reserve =
                (if ts_base_reserve sample \<noteq> None \<or> ts_quote_reserve sample \<noteq> None
                 then [\<lparr>rs_key = obs_key obs, rs_received = received_time_unix_ms obs,
                        rs_base_units = ts_base_reserve sample,
                        rs_quote_units = ts_quote_reserve sample\<rparr>]
                 else []);
              point = \<lparr>pp_key = obs_key obs, pp_received = received_time_unix_ms obs,
                       pp_ratio = ratio\<rparr>
          in Inr (s\<lparr>loc_accumulator := acc,
                    loc_reserve_samples := loc_reserve_samples s @ reserve,
                    loc_price_points := loc_price_points s @ [point],
                    loc_trade_samples := loc_trade_samples s @ [sample]\<rparr>))))"

definition record_liquidity ::
    "snapshot_locals \<Rightarrow> 'json normalized_observation \<Rightarrow> liquidity_direction \<Rightarrow> string
      \<Rightarrow> u64 \<Rightarrow> u64 \<Rightarrow> u64 \<Rightarrow> u64 \<Rightarrow> u64 \<Rightarrow> u64 \<Rightarrow> snapshot_locals" where
  "record_liquidity s obs direction prov base quote base_reserve quote_reserve lp_amount lp_supply =
     s\<lparr>loc_liquidity_samples := loc_liquidity_samples s @
         [\<lparr>ls_key = obs_key obs, ls_received = received_time_unix_ms obs,
           ls_source_time = source_event_time_unix_ms obs, ls_direction = direction,
           ls_provider = prov, ls_base_amount = u128_from base, ls_quote_amount = u128_from quote,
           ls_base_reserve = u128_from base_reserve, ls_quote_reserve = u128_from quote_reserve,
           ls_lp_token_amount = u128_from lp_amount, ls_lp_token_supply = u128_from lp_supply\<rparr>],
       loc_reserve_samples := loc_reserve_samples s @
         [\<lparr>rs_key = obs_key obs, rs_received = received_time_unix_ms obs,
           rs_base_units = Some (u128_from base_reserve),
           rs_quote_units = Some (u128_from quote_reserve)\<rparr>]\<rparr>"

definition snapshot_step ::
    "snapshot_locals \<Rightarrow> 'json normalized_observation \<Rightarrow> (snapshot_error, snapshot_locals) result" where
  "snapshot_step s0 obs =
     (let observed = slot (key_coordinate (obs_key obs));
          s = s0\<lparr>loc_observation_keys := loc_observation_keys s0 @ [obs_key obs],
                loc_latest_slot := Some (case loc_latest_slot s0 of
                    None \<Rightarrow> observed | Some latest \<Rightarrow> max latest observed)\<rparr>
      in case payload obs of
           Trade side w base quote base_reserve quote_reserve \<Rightarrow>
             record_trade s obs side w base quote base_reserve quote_reserve
         | MarketCompleted _ \<Rightarrow>
             Inr (s\<lparr>loc_completion_keys := loc_completion_keys s @ [obs_key obs]\<rparr>)
         | MarketMigrated _ _ _ _ \<Rightarrow>
             Inr (s\<lparr>loc_migration_keys := loc_migration_keys s @ [obs_key obs]\<rparr>)
         | LiquidityDeposited prov base quote base_reserve quote_reserve lp_amount lp_supply \<Rightarrow>
             Inr (record_liquidity s obs Deposit prov base quote base_reserve quote_reserve
                    lp_amount lp_supply)
         | LiquidityWithdrawn prov base quote base_reserve quote_reserve lp_amount lp_supply \<Rightarrow>
             Inr (record_liquidity s obs Withdraw prov base quote base_reserve quote_reserve
                    lp_amount lp_supply)
         | TokenCreated _ _ _ _ _ \<Rightarrow> Inr s
         | MarketCreated _ _ _ \<Rightarrow> Inr s)"

fun snapshot_loop ::
    "snapshot_locals \<Rightarrow> 'json normalized_observation list \<Rightarrow> (snapshot_error, snapshot_locals) result" where
  "snapshot_loop s [] = Inr s"
| "snapshot_loop s (obs # rest) =
     result_bind (snapshot_step s obs) (\<lambda>s'. snapshot_loop s' rest)"

definition head_opt :: "'a list \<Rightarrow> 'a option" where
  "head_opt xs = (case xs of [] \<Rightarrow> None | x # _ \<Rightarrow> Some x)"

definition last_opt :: "'a list \<Rightarrow> 'a option" where
  "last_opt xs = (if xs = [] then None else Some (last xs))"

definition in_window ::
    "market_identity \<Rightarrow> i64 \<Rightarrow> i64 \<Rightarrow> 'json normalized_observation \<Rightarrow> bool" where
  "in_window market opened closes obs \<longleftrightarrow>
     obs_market obs = market \<and> opened \<le> received_time_unix_ms obs
       \<and> received_time_unix_ms obs < closes"

definition build_market_window_snapshot ::
    "market_identity \<Rightarrow> i64 \<Rightarrow> i64 \<Rightarrow> snapshot_completeness \<Rightarrow> 'json normalized_observation list
      \<Rightarrow> (snapshot_error, market_window_snapshot) result" where
  "build_market_window_snapshot market opened_at closes_at c observations =
     (if closes_at \<le> opened_at then Inl InvalidWindowBounds
      else if (case c of Incomplete reason \<Rightarrow> trim_is_empty reason | Complete \<Rightarrow> False)
        then Inl MissingIncompleteReason
      else
        let matching = sort_by observation_order
              (filter (in_window market opened_at closes_at) observations) in
        result_bind (check_duplicates {} matching) (\<lambda>_.
        let creators = creator_wallet_set matching in
        result_bind (snapshot_loop (snapshot_locals_init c) matching) (\<lambda>s.
        result_bind (try_u64 (length (loc_observation_keys s))) (\<lambda>count.
        result_bind (accumulator_finish (loc_accumulator s) count creators
            (head_opt (loc_trade_samples s)) (last_opt (loc_trade_samples s))) (\<lambda>metrics'.
        let reserves' = summarize_reserves (loc_reserve_samples s) in
        result_bind (summarize_prices (loc_price_points s)) (\<lambda>prices'.
        Inr \<lparr>snap_market = market, snap_opened_at = opened_at, snap_closes_at = closes_at,
             completeness = loc_completeness s, observation_keys = loc_observation_keys s,
             trade_samples = loc_trade_samples s, liquidity_samples = loc_liquidity_samples s,
             metrics = metrics', reserves = reserves', prices = prices',
             completion_observed = (loc_completion_keys s \<noteq> []),
             migration_observed = (loc_migration_keys s \<noteq> []),
             completion_observation_keys = loc_completion_keys s,
             migration_observation_keys = loc_migration_keys s,
             latest_observed_slot = loc_latest_slot s\<rparr>))))))"

end
