(* ===== verification/Snapshot_Correct.thy ===== *)
theory Snapshot_Correct
  imports Snapshot
begin

text \<open>
  What a snapshot says of a window. The specification reads the window as the list of its valid
  trades (\<open>facts_of\<close>) and states every metric as a count or a sum over that list of mathematical
  integers; the theorems show that the machine arithmetic of the snapshot computes exactly those
  numbers, that it cannot overflow, and that the result does not depend on the order in which the
  observations arrive.
\<close>

section \<open>The valid trades of a window\<close>

record trade_fact =
  tf_side :: trade_side
  tf_wallet :: string
  tf_base :: nat
  tf_quote :: nat

definition trade_fact_of :: "observation_payload \<Rightarrow> trade_fact option" where
  "trade_fact_of p =
     (case p of
        Trade side w base quote _ _ \<Rightarrow>
          if \<not> trim_is_empty w \<and> base \<noteq> 0 \<and> quote \<noteq> 0
          then Some \<lparr>tf_side = side, tf_wallet = w, tf_base = unat base, tf_quote = unat quote\<rparr>
          else None
      | _ \<Rightarrow> None)"

definition facts_of :: "'json normalized_observation list \<Rightarrow> trade_fact list" where
  "facts_of os = List.map_filter (\<lambda>ob. trade_fact_of (payload ob)) os"

definition invalid_trade :: "'json normalized_observation \<Rightarrow> bool" where
  "invalid_trade ob \<longleftrightarrow> is_Trade (payload ob) \<and> trade_fact_of (payload ob) = None"

definition side_count :: "trade_side \<Rightarrow> trade_fact list \<Rightarrow> nat" where
  "side_count s ts = length (filter (\<lambda>t. tf_side t = s) ts)"

definition side_base :: "trade_side \<Rightarrow> trade_fact list \<Rightarrow> nat" where
  "side_base s ts = (\<Sum>t\<leftarrow>filter (\<lambda>t. tf_side t = s) ts. tf_base t)"

definition side_quote :: "trade_side \<Rightarrow> trade_fact list \<Rightarrow> nat" where
  "side_quote s ts = (\<Sum>t\<leftarrow>filter (\<lambda>t. tf_side t = s) ts. tf_quote t)"

definition quote_volume :: "trade_fact list \<Rightarrow> nat" where
  "quote_volume ts = (\<Sum>t\<leftarrow>ts. tf_quote t)"

definition by_wallet :: "string \<Rightarrow> trade_fact list \<Rightarrow> trade_fact list" where
  "by_wallet w ts = filter (\<lambda>t. tf_wallet t = w) ts"

definition tally :: "trade_fact list \<Rightarrow> wallet_metrics" where
  "tally ts =
     \<lparr>wm_trades = of_nat (length ts), wm_buys = of_nat (side_count Buy ts),
      wm_sells = of_nat (side_count Sell ts), wm_buy_base_units = of_nat (side_base Buy ts),
      wm_sell_base_units = of_nat (side_base Sell ts),
      wm_buy_quote_units = of_nat (side_quote Buy ts),
      wm_sell_quote_units = of_nat (side_quote Sell ts)\<rparr>"

definition acc_tally :: "metrics_accumulator \<Rightarrow> trade_fact list \<Rightarrow> bool" where
  "acc_tally acc ts \<longleftrightarrow>
     acc_trades acc = of_nat (length ts)
     \<and> acc_buys acc = of_nat (side_count Buy ts) \<and> acc_sells acc = of_nat (side_count Sell ts)
     \<and> acc_buy_base acc = of_nat (side_base Buy ts) \<and> acc_sell_base acc = of_nat (side_base Sell ts)
     \<and> acc_buy_quote acc = of_nat (side_quote Buy ts)
     \<and> acc_sell_quote acc = of_nat (side_quote Sell ts)
     \<and> btree_ordered (acc_wallets acc)
     \<and> (\<forall>w. btree_get (acc_wallets acc) w =
              (if by_wallet w ts = [] then None else Some (tally (by_wallet w ts))))"

text \<open>Every amount of a trade is a 64-bit value and a window holds fewer than \<open>2 ^ 64\<close> trades.\<close>

definition bounded :: "trade_fact list \<Rightarrow> bool" where
  "bounded ts \<longleftrightarrow> length ts < 2 ^ 64
     \<and> (\<forall>t\<in>set ts. tf_base t < 2 ^ 64 \<and> tf_quote t < 2 ^ 64)"

lemmas side_defs = side_count_def side_base_def side_quote_def

lemma side_append [simp]:
  "side_count s (ts @ us) = side_count s ts + side_count s us"
  "side_base s (ts @ us) = side_base s ts + side_base s us"
  "side_quote s (ts @ us) = side_quote s ts + side_quote s us"
  by (simp_all add: side_defs)

lemma side_single [simp]:
  "side_count s [t] = (if tf_side t = s then 1 else 0)"
  "side_base s [t] = (if tf_side t = s then tf_base t else 0)"
  "side_quote s [t] = (if tf_side t = s then tf_quote t else 0)"
  by (simp_all add: side_defs)

lemma side_Nil [simp]: "side_count s [] = 0" "side_base s [] = 0" "side_quote s [] = 0"
  by (simp_all add: side_defs)

lemma by_wallet_append [simp]: "by_wallet w (ts @ us) = by_wallet w ts @ by_wallet w us"
  by (simp add: by_wallet_def)

lemma by_wallet_single [simp]: "by_wallet w [t] = (if tf_wallet t = w then [t] else [])"
  by (simp add: by_wallet_def)

lemma quote_volume_sides: "quote_volume ts = side_quote Buy ts + side_quote Sell ts"
proof (induction ts)
  case (Cons t ts)
  then show ?case by (cases "tf_side t") (simp_all add: quote_volume_def side_quote_def)
qed (simp add: quote_volume_def side_quote_def)

lemma side_count_sides: "side_count Buy ts + side_count Sell ts = length ts"
proof (induction ts)
  case (Cons t ts)
  then show ?case by (cases "tf_side t") (simp_all add: side_count_def)
qed (simp add: side_count_def)

section \<open>No overflow\<close>

lemma sum_list_bound:
  "(\<And>x. x \<in> set xs \<Longrightarrow> f x \<le> b) \<Longrightarrow> (\<Sum>x\<leftarrow>xs. f x) \<le> length xs * (b::nat)"
proof (induction xs)
  case (Cons x xs)
  then have "f x \<le> b" and "(\<Sum>x\<leftarrow>xs. f x) \<le> length xs * b" by simp_all
  then show ?case by (simp add: add_mono)
qed simp

lemma bounded_sum:
  fixes f :: "trade_fact \<Rightarrow> nat"
  assumes "bounded ts" and "\<And>t. t \<in> set ts \<Longrightarrow> f t < 2 ^ 64"
  shows "(\<Sum>t\<leftarrow>ts. f t) < 2 ^ 128"
proof -
  have "(\<Sum>t\<leftarrow>ts. f t) \<le> length ts * (2 ^ 64 - 1)"
    using assms(2) by (intro sum_list_bound) (simp add: less_Suc_eq_le [symmetric])
  also have "\<dots> \<le> (2 ^ 64 - 1) * (2 ^ 64 - 1)"
    using assms(1) by (intro mult_le_mono1) (simp add: bounded_def)
  finally show ?thesis by simp
qed

lemma bounded_filter: "bounded ts \<Longrightarrow> bounded (filter P ts)"
  unfolding bounded_def by (auto intro: le_less_trans [OF length_filter_le])

lemma bounded_prefix: "bounded (ts @ us) \<Longrightarrow> bounded ts"
  by (simp add: bounded_def)

lemma bounded_sides:
  assumes "bounded ts"
  shows "side_count s ts < 2 ^ 64" and "side_base s ts < 2 ^ 128" and "side_quote s ts < 2 ^ 128"
proof -
  note f = bounded_filter [OF assms, of "\<lambda>t. tf_side t = s"]
  show "side_count s ts < 2 ^ 64"
    using f by (simp add: bounded_def side_count_def)
  show "side_base s ts < 2 ^ 128"
    unfolding side_base_def by (rule bounded_sum [OF f]) (use assms in \<open>simp add: bounded_def\<close>)
  show "side_quote s ts < 2 ^ 128"
    unfolding side_quote_def by (rule bounded_sum [OF f]) (use assms in \<open>simp add: bounded_def\<close>)
qed

lemma bounded_quote_volume: "bounded ts \<Longrightarrow> quote_volume ts < 2 ^ 128"
  unfolding quote_volume_def by (rule bounded_sum) (simp_all add: bounded_def)

lemma checked_add_of_nat:
  "a + b < 2 ^ LENGTH('a) \<Longrightarrow>
     checked_add (of_nat a :: 'a::len word) (of_nat b) = Inr (of_nat (a + b))"
  by (simp add: checked_add_def checked_add_word_def unat_of_nat_small)

lemma checked_add_of_nat_1:
  "a + 1 < 2 ^ LENGTH('a) \<Longrightarrow>
     checked_add (of_nat a :: 'a::len word) 1 = Inr (of_nat (a + 1))"
  using checked_add_of_nat [of a 1] by simp

lemmas checked_add_64 = checked_add_of_nat_1 [where 'a = 64, simplified]
lemmas checked_add_128 = checked_add_of_nat [where 'a = 128, simplified]

section \<open>Recording one trade\<close>

lemma wallet_checked_record_tally:
  assumes "bounded (ts @ [t])"
  shows "wallet_checked_record (tally ts) (tf_side t) (of_nat (tf_base t)) (of_nat (tf_quote t))
           = Inr (tally (ts @ [t]))"
proof -
  note b = bounded_sides [OF assms]
  have "length ts + 1 < 2 ^ 64" using assms by (simp add: bounded_def)
  then show ?thesis
    using b [of Buy] b [of Sell]
    by (cases "tf_side t")
       (simp_all add: wallet_checked_record_def tally_def checked_add_64 checked_add_128)
qed

lemma accumulator_checked_record_tally:
  assumes "acc_tally acc ts" and "bounded (ts @ [t])"
  shows "\<exists>acc'. accumulator_checked_record acc (tf_side t) (tf_wallet t) (of_nat (tf_base t))
             (of_nat (tf_quote t)) = Inr acc' \<and> acc_tally acc' (ts @ [t])"
proof -
  let ?w = "tf_wallet t"
  note b = bounded_sides [OF assms(2)]
  have len: "length ts + 1 < 2 ^ 64" using assms(2) by (simp add: bounded_def)
  have "btree_get_or wallet_metrics_default (acc_wallets acc) ?w = tally (by_wallet ?w ts)"
    using assms(1)
    by (simp add: btree_get_or_def acc_tally_def wallet_metrics_default_def tally_def)
  moreover have "bounded (by_wallet ?w ts @ [t])"
    using bounded_filter [OF assms(2), of "\<lambda>u. tf_wallet u = ?w"] by (simp add: by_wallet_def)
  ultimately have wallet: "wallet_checked_record
      (btree_get_or wallet_metrics_default (acc_wallets acc) ?w)
      (tf_side t) (of_nat (tf_base t)) (of_nat (tf_quote t)) = Inr (tally (by_wallet ?w ts @ [t]))"
    by (simp add: wallet_checked_record_tally)
  let ?acc = "\<lparr>acc_trades = of_nat (length (ts @ [t])),
      acc_buys = of_nat (side_count Buy (ts @ [t])), acc_sells = of_nat (side_count Sell (ts @ [t])),
      acc_buy_base = of_nat (side_base Buy (ts @ [t])),
      acc_sell_base = of_nat (side_base Sell (ts @ [t])),
      acc_buy_quote = of_nat (side_quote Buy (ts @ [t])),
      acc_sell_quote = of_nat (side_quote Sell (ts @ [t])),
      acc_wallets = btree_insert ?w (tally (by_wallet ?w ts @ [t])) (acc_wallets acc)\<rparr>"
  have "accumulator_checked_record acc (tf_side t) ?w (of_nat (tf_base t)) (of_nat (tf_quote t))
      = Inr ?acc"
    using assms(1) len wallet b [of Buy] b [of Sell]
    by (cases "tf_side t"; cases acc)
       (simp_all add: accumulator_checked_record_def acc_tally_def Let_def checked_add_64
          checked_add_128)
  moreover have "acc_tally ?acc (ts @ [t])"
    using assms(1) by (simp add: acc_tally_def btree_simps)
  ultimately show ?thesis by blast
qed

lemma acc_tally_default: "acc_tally metrics_accumulator_default []"
  by (simp add: acc_tally_def metrics_accumulator_default_def btree_simps by_wallet_def)

section \<open>Recording the window\<close>

lemma facts_of_simps [simp]:
  "facts_of [] = []"
  "facts_of (ob # os) = (case trade_fact_of (payload ob) of None \<Rightarrow> facts_of os | Some t \<Rightarrow> t # facts_of os)"
  "facts_of (os @ ps) = facts_of os @ facts_of ps"
  by (simp_all add: facts_of_def List.map_filter_def split: option.splits)

definition sample_fact :: "trade_sample \<Rightarrow> trade_fact" where
  "sample_fact s = \<lparr>tf_side = ts_side s, tf_wallet = ts_wallet s,
     tf_base = unat (ts_base_amount s), tf_quote = unat (ts_quote_amount s)\<rparr>"

definition latest_slot :: "'json normalized_observation list \<Rightarrow> u64 option" where
  "latest_slot os = (if os = [] then None
     else Some (Max (set (map (\<lambda>ob. slot (key_coordinate (obs_key ob))) os))))"

lemma latest_slot_simps [simp]:
  "latest_slot [] = None"
  "latest_slot (os @ [ob]) = Some (case latest_slot os of
       None \<Rightarrow> slot (key_coordinate (obs_key ob))
     | Some latest \<Rightarrow> max latest (slot (key_coordinate (obs_key ob))))"
  by (auto simp: latest_slot_def max.commute)

definition fact_price :: "trade_fact \<Rightarrow> rat" where
  "fact_price t = of_nat (tf_quote t) / of_nat (tf_base t)"

definition point_price :: "price_point \<Rightarrow> rat" where
  "point_price p = ratio_value (pp_ratio p)"

text \<open>What the loop has established after the observations \<open>os\<close>.\<close>

definition loop_inv :: "snapshot_completeness \<Rightarrow> 'json normalized_observation list \<Rightarrow> snapshot_locals \<Rightarrow> bool" where
  "loop_inv c os s \<longleftrightarrow>
     acc_tally (loc_accumulator s) (facts_of os)
     \<and> loc_observation_keys s = map obs_key os
     \<and> map sample_fact (loc_trade_samples s) = facts_of os
     \<and> map ts_key (loc_trade_samples s) = map pp_key (loc_price_points s)
     \<and> (\<forall>p\<in>set (loc_price_points s). ratio_fits (pp_ratio p))
     \<and> map point_price (loc_price_points s) = map fact_price (facts_of os)
     \<and> loc_latest_slot s = latest_slot os
     \<and> (is_complete (loc_completeness s) \<longleftrightarrow> is_complete c \<and> \<not> list_ex invalid_trade os)
     \<and> (\<not> is_complete c \<longrightarrow> loc_completeness s = c)
     \<and> loc_completion_keys s = map obs_key (filter (is_MarketCompleted \<circ> payload) os)
     \<and> loc_migration_keys s = map obs_key (filter (is_MarketMigrated \<circ> payload) os)"

lemma loop_inv_init: "loop_inv c [] (snapshot_locals_init c)"
  by (simp add: loop_inv_def snapshot_locals_init_def acc_tally_default)

lemma u128_from_of_nat: "u128_from x = of_nat (unat x)"
  by (simp add: u128_from_def)

lemma mark_incomplete_facts [simp]:
  "\<not> is_complete (mark_incomplete_if_complete c r)"
  "\<not> is_complete c \<Longrightarrow> mark_incomplete_if_complete c r = c"
  by (simp_all add: mark_incomplete_if_complete_def is_complete_def)

lemma price_ratio_new_ok:
  assumes "q \<noteq> 0" and "b \<noteq> 0"
  shows "\<exists>r. price_ratio_new (u128_from q) (u128_from b) = Inr r \<and> ratio_fits r
    \<and> ratio_value r = of_nat (unat q) / of_nat (unat b)"
proof -
  obtain r where r: "price_ratio_new (u128_from q) (u128_from b) = Inr r"
    using assms by (auto simp: price_ratio_new_def Let_def)
  have "unat b \<noteq> 0" using assms(2) by (simp add: unat_eq_0)
  then have "ratio_value r = of_nat (unat q) / of_nat (unat b)"
    using price_ratio_new_value [OF r] by simp
  then show ?thesis using r price_ratio_new_fits [OF r] by blast
qed

text \<open>
  The fields every observation updates before its payload is looked at.
\<close>

definition observe :: "snapshot_locals \<Rightarrow> 'json normalized_observation \<Rightarrow> snapshot_locals" where
  "observe s ob =
     s\<lparr>loc_observation_keys := loc_observation_keys s @ [obs_key ob],
       loc_latest_slot := Some (case loc_latest_slot s of
           None \<Rightarrow> slot (key_coordinate (obs_key ob))
         | Some latest \<Rightarrow> max latest (slot (key_coordinate (obs_key ob))))\<rparr>"

lemma observe_fields [simp]:
  "loc_completeness (observe s ob) = loc_completeness s"
  "loc_accumulator (observe s ob) = loc_accumulator s"
  "loc_trade_samples (observe s ob) = loc_trade_samples s"
  "loc_price_points (observe s ob) = loc_price_points s"
  "loc_completion_keys (observe s ob) = loc_completion_keys s"
  "loc_migration_keys (observe s ob) = loc_migration_keys s"
  "loc_observation_keys (observe s ob) = loc_observation_keys s @ [obs_key ob]"
  "loc_latest_slot (observe s ob) = Some (case loc_latest_slot s of
       None \<Rightarrow> slot (key_coordinate (obs_key ob))
     | Some latest \<Rightarrow> max latest (slot (key_coordinate (obs_key ob))))"
  by (simp_all add: observe_def)

lemma record_trade_step:
  assumes inv: "loop_inv c os s" and p: "payload ob = Trade side w base quote br qr"
    and b: "bounded (facts_of (os @ [ob]))"
  shows "\<exists>s'. record_trade (observe s ob) ob side w base quote br qr = Inr s'
           \<and> loop_inv c (os @ [ob]) s'"
proof (cases "trim_is_empty w \<or> base = 0 \<or> quote = 0")
  case True
  then have "trade_fact_of (payload ob) = None" "invalid_trade ob"
    by (auto simp: p trade_fact_of_def invalid_trade_def)
  moreover have "record_trade (observe s ob) ob side w base quote br qr
      = Inr ((observe s ob)\<lparr>loc_completeness := mark_incomplete_if_complete (loc_completeness s)
          (if trim_is_empty w then INVALID_TRADE_WALLET_REASON else INVALID_TRADE_AMOUNT_REASON)\<rparr>)"
    using True by (auto simp: record_trade_def)
  ultimately show ?thesis using inv by (simp add: loop_inv_def p)
next
  case False
  let ?t = "\<lparr>tf_side = side, tf_wallet = w, tf_base = unat base, tf_quote = unat quote\<rparr>"
  from False have fact: "trade_fact_of (payload ob) = Some ?t"
    by (simp add: p trade_fact_of_def)
  then have valid: "\<not> invalid_trade ob" by (simp add: invalid_trade_def)
  obtain r where r: "price_ratio_new (u128_from quote) (u128_from base) = Inr r" "ratio_fits r"
      "ratio_value r = fact_price ?t"
    using price_ratio_new_ok [of quote base] False by (auto simp: fact_price_def)
  have "acc_tally (loc_accumulator s) (facts_of os)" "bounded (facts_of os @ [?t])"
    using inv b fact by (simp_all add: loop_inv_def)
  from accumulator_checked_record_tally [OF this] obtain acc where
    acc: "accumulator_checked_record (loc_accumulator s) side w (u128_from base) (u128_from quote)
        = Inr acc" "acc_tally acc (facts_of os @ [?t])"
    by (auto simp: u128_from_of_nat)
  show ?thesis
    using False r acc inv fact valid
    by (auto simp: record_trade_def Let_def loop_inv_def sample_fact_def p point_price_def)
qed

lemma snapshot_step_inv:
  assumes "loop_inv c os s" and "bounded (facts_of (os @ [ob]))"
  shows "\<exists>s'. snapshot_step s ob = Inr s' \<and> loop_inv c (os @ [ob]) s'"
proof (cases "is_Trade (payload ob)")
  case True
  then obtain side w base quote br qr where p: "payload ob = Trade side w base quote br qr"
    by (cases "payload ob") simp_all
  have "snapshot_step s ob = record_trade (observe s ob) ob side w base quote br qr"
    by (simp add: snapshot_step_def p observe_def Let_def)
  with record_trade_step [OF assms(1) p assms(2)] show ?thesis by simp
next
  case False
  then have "\<not> invalid_trade ob" "trade_fact_of (payload ob) = None"
    by (auto simp: invalid_trade_def trade_fact_of_def split: observation_payload.splits)
  then show ?thesis
    using False assms(1)
    by (cases "payload ob")
       (simp_all add: snapshot_step_def loop_inv_def Let_def record_liquidity_def)
qed

lemma snapshot_loop_inv:
  assumes "loop_inv c os s" and "bounded (facts_of (os @ ps))"
  shows "\<exists>s'. snapshot_loop s ps = Inr s' \<and> loop_inv c (os @ ps) s'"
  using assms
proof (induction ps arbitrary: os s)
  case Nil
  then show ?case by simp
next
  case (Cons ob ps)
  have "bounded (facts_of (os @ [ob]))"
    using Cons.prems(2) bounded_prefix [of "facts_of (os @ [ob])" "facts_of ps"]
    by (simp split: option.splits)
  from snapshot_step_inv [OF Cons.prems(1) this] obtain s' where
    s': "snapshot_step s ob = Inr s'" "loop_inv c (os @ [ob]) s'" by blast
  have "bounded (facts_of ((os @ [ob]) @ ps))" using Cons.prems(2) by simp
  from Cons.IH [OF s'(2) this] show ?case using s'(1) by simp
qed

lemma facts_of_memberE:
  assumes "t \<in> set (facts_of os)"
  obtains ob where "ob \<in> set os" and "trade_fact_of (payload ob) = Some t"
  using assms by (auto simp: facts_of_def List.map_filter_def)

lemma facts_of_bounded: "length os < 2 ^ 64 \<Longrightarrow> bounded (facts_of os)"
proof -
  assume len: "length os < 2 ^ 64"
  have "length (facts_of os) \<le> length os"
    by (simp add: facts_of_def List.map_filter_def le_trans [OF length_filter_le])
  moreover have "tf_base t < 2 ^ 64 \<and> tf_quote t < 2 ^ 64" if "t \<in> set (facts_of os)" for t
  proof -
    from that obtain ob where "ob \<in> set os" "trade_fact_of (payload ob) = Some t"
      by (rule facts_of_memberE)
    then show ?thesis
      by (auto simp: trade_fact_of_def unat_bound [where 'a = 64, simplified]
          split: observation_payload.splits if_splits)
  qed
  ultimately show ?thesis using len by (simp add: bounded_def)
qed

section \<open>Closing the metrics\<close>

lemma total_quote_units_tally:
  assumes "bounded ts"
  shows "total_quote_units (tally ts) = Inr (of_nat (quote_volume ts))"
  using bounded_quote_volume [OF assms]
  by (simp add: total_quote_units_def tally_def checked_add_128 quote_volume_sides)

lemma quote_volume_Nil [simp]: "quote_volume [] = 0"
  by (simp add: quote_volume_def)

lemma quote_volume_filter_le: "quote_volume (filter P ts) \<le> quote_volume ts"
  by (induction ts) (auto simp: quote_volume_def)

lemma quote_volume_by_wallet_le: "quote_volume (by_wallet w ts) \<le> quote_volume ts"
  by (simp add: by_wallet_def quote_volume_filter_le)

lemma quote_volume_by_wallets:
  "distinct ws \<Longrightarrow> (\<Sum>w\<leftarrow>ws. quote_volume (by_wallet w ts))
     = quote_volume (filter (\<lambda>t. tf_wallet t \<in> set ws) ts)"
proof (induction ws)
  case (Cons w ws)
  have "quote_volume (filter (\<lambda>t. tf_wallet t \<in> set (w # ws)) ts)
      = quote_volume (by_wallet w ts) + quote_volume (filter (\<lambda>t. tf_wallet t \<in> set ws) ts)"
    using Cons.prems by (induction ts) (auto simp: quote_volume_def by_wallet_def)
  with Cons show ?case by simp
qed (simp add: quote_volume_def)

definition share_exact :: "u128 \<Rightarrow> wallet_volume_share \<Rightarrow> bool" where
  "share_exact total_volume l \<longleftrightarrow>
     fraction_to_basis_points (share_quote_volume_units l) total_volume = Inr (share_bps l)"

text \<open>\<open>l\<close> is a largest share among the wallets \<open>ws\<close> and the share found before them.\<close>

definition picks_largest ::
    "u128 \<Rightarrow> wallet_volume_share option \<Rightarrow> (string \<times> wallet_metrics) list \<Rightarrow> wallet_volume_share \<Rightarrow> bool" where
  "picks_largest total_volume largest ws l \<longleftrightarrow>
     share_exact total_volume l
     \<and> (largest = Some l \<or> (\<exists>m. (share_wallet l, m) \<in> set ws
                    \<and> total_quote_units m = Inr (share_quote_volume_units l)))
     \<and> (\<forall>l0. largest = Some l0 \<longrightarrow> share_quote_volume_units l0 \<le> share_quote_volume_units l)
     \<and> (\<forall>w m v. (w, m) \<in> set ws \<longrightarrow> total_quote_units m = Inr v
           \<longrightarrow> v \<le> share_quote_volume_units l)"

lemma picks_largest_Cons:
  assumes "total_quote_units m = Inr v"
    and "picks_largest V (Some l0) ws l"
    and "v \<le> share_quote_volume_units l0"
    and "largest = Some l0
         \<or> (l0 = \<lparr>share_wallet = w, share_quote_volume_units = v, share_bps = b\<rparr>
            \<and> (\<forall>l1. largest = Some l1 \<longrightarrow> share_quote_volume_units l1 < v))"
  shows "picks_largest V largest ((w, m) # ws) l"
proof -
  have le: "share_quote_volume_units l0 \<le> share_quote_volume_units l"
    using assms(2) by (simp add: picks_largest_def)
  have "v \<le> share_quote_volume_units l" using assms(3) le by simp
  then show ?thesis using assms le unfolding picks_largest_def by fastforce
qed

lemma largest_wallet_max:
  assumes "\<forall>(w, m) \<in> set ws. \<exists>v. total_quote_units m = Inr v \<and> v \<le> V"
    and "V \<noteq> 0"
    and "\<forall>l. largest = Some l \<longrightarrow> share_exact V l"
    and "largest \<noteq> None \<or> ws \<noteq> []"
  shows "\<exists>l. largest_wallet V largest ws = Inr (Some l) \<and> picks_largest V largest ws l"
  using assms
proof (induction ws arbitrary: largest)
  case Nil
  then show ?case by (auto simp: picks_largest_def)
next
  case (Cons wm ws)
  obtain w m where wm: "wm = (w, m)" by (cases wm)
  obtain v where v: "total_quote_units m = Inr v" "v \<le> V"
    using Cons.prems(1) by (auto simp: wm)
  have rest: "\<forall>(w, m) \<in> set ws. \<exists>v. total_quote_units m = Inr v \<and> v \<le> V"
    using Cons.prems(1) by simp
  show ?case
  proof (cases "case largest of None \<Rightarrow> True | Some l \<Rightarrow> share_quote_volume_units l < v")
    case True
    obtain b where b: "fraction_to_basis_points v V = Inr b"
      using fraction_to_basis_points_exact [OF Cons.prems(2) v(2)] by blast
    let ?l = "\<lparr>share_wallet = w, share_quote_volume_units = v, share_bps = b\<rparr>"
    have "\<forall>l. Some ?l = Some l \<longrightarrow> share_exact V l" using b by (simp add: share_exact_def)
    from Cons.IH [OF rest Cons.prems(2) this] obtain l where
      l: "largest_wallet V (Some ?l) ws = Inr (Some l)" "picks_largest V (Some ?l) ws l" by auto
    have "picks_largest V largest (wm # ws) l"
      unfolding wm by (rule picks_largest_Cons [OF v(1) l(2)]) (use True in auto)
    then show ?thesis using True v(1) b l(1) by (auto simp: wm)
  next
    case False
    then obtain l0 where l0: "largest = Some l0" "v \<le> share_quote_volume_units l0"
      by (auto simp: not_less split: option.splits)
    from Cons.IH [OF rest Cons.prems(2,3)] l0(1) obtain l where
      l: "largest_wallet V largest ws = Inr (Some l)" "picks_largest V (Some l0) ws l" by auto
    have "picks_largest V largest (wm # ws) l"
      unfolding wm by (rule picks_largest_Cons [OF v(1) l(2) l0(2)]) (use l0 in auto)
    then show ?thesis using False v(1) l(1) l0 by (auto simp: wm)
  qed
qed

lemma acc_tally_entries:
  assumes "acc_tally acc ts"
  shows "(w, m) \<in> set (acc_wallets acc) \<longleftrightarrow> by_wallet w ts \<noteq> [] \<and> m = tally (by_wallet w ts)"
  using assms btree.lookup_Some_iff [of "acc_wallets acc" w m]
  by (auto simp: acc_tally_def split: if_splits)

lemma by_wallet_Nil_iff: "by_wallet w ts = [] \<longleftrightarrow> w \<notin> tf_wallet ` set ts"
  by (auto simp: by_wallet_def filter_empty_conv)

lemma bounded_by_wallet: "bounded ts \<Longrightarrow> bounded (by_wallet w ts)"
  unfolding by_wallet_def by (rule bounded_filter)

lemma set_by_wallet: "t \<in> set (by_wallet w ts) \<longleftrightarrow> t \<in> set ts \<and> tf_wallet t = w"
  by (auto simp: by_wallet_def)

definition side_wallets :: "trade_side \<Rightarrow> trade_fact list \<Rightarrow> string set" where
  "side_wallets s ts = tf_wallet ` {t \<in> set ts. tf_side t = s}"

lemma side_count_pos: "0 < side_count s ts \<longleftrightarrow> (\<exists>t\<in>set ts. tf_side t = s)"
  by (auto simp: side_count_def filter_empty_conv)

lemma of_nat_pos_64: "n < 2 ^ 64 \<Longrightarrow> 0 < (of_nat n :: u64) \<longleftrightarrow> 0 < n"
  by (simp add: word_less_nat_alt unat_of_nat_small)

lemma card_wallets_bound: "finite A \<Longrightarrow> A \<subseteq> tf_wallet ` set ts \<Longrightarrow> card A \<le> length ts"
  using card_mono [of "tf_wallet ` set ts" A] card_image_le [of "set ts" tf_wallet] card_length [of ts]
  by simp

lemma card_side_wallets: "card (side_wallets s ts) \<le> length ts"
  by (rule card_wallets_bound) (auto simp: side_wallets_def)

lemma wallet_counts:
  assumes "acc_tally acc ts" and "bounded ts"
  shows "length (acc_wallets acc) = card (tf_wallet ` set ts)"
    and "length (filter (\<lambda>(_, m). 0 < wm_buys m) (acc_wallets acc)) = card (side_wallets Buy ts)"
    and "length (filter (\<lambda>(_, m). 0 < wm_sells m) (acc_wallets acc)) = card (side_wallets Sell ts)"
proof -
  have ord: "btree_ordered (acc_wallets acc)"
    and get: "\<And>w. btree_get (acc_wallets acc) w =
              (if by_wallet w ts = [] then None else Some (tally (by_wallet w ts)))"
    using assms(1) by (simp_all add: acc_tally_def)
  have pos: "0 < (of_nat (side_count s (by_wallet w ts)) :: u64) \<longleftrightarrow> w \<in> side_wallets s ts" for s w
    using bounded_sides(1) [OF bounded_by_wallet [OF assms(2)]]
    by (auto simp: of_nat_pos_64 side_count_pos set_by_wallet side_wallets_def)
  have sub: "w \<in> side_wallets s ts \<Longrightarrow> by_wallet w ts \<noteq> []" for s w
    by (auto simp: side_wallets_def by_wallet_Nil_iff)
  show "length (acc_wallets acc) = card (tf_wallet ` set ts)"
    by (auto simp: btree.length_entries [OF ord] get dom_def by_wallet_Nil_iff
        intro!: arg_cong [where f = card] split: if_splits)
  show "length (filter (\<lambda>(_, m). 0 < wm_buys m) (acc_wallets acc)) = card (side_wallets Buy ts)"
    unfolding btree.length_filter_entries [OF ord]
    using sub by (auto simp: get tally_def pos intro!: arg_cong [where f = card])
  show "length (filter (\<lambda>(_, m). 0 < wm_sells m) (acc_wallets acc)) = card (side_wallets Sell ts)"
    unfolding btree.length_filter_entries [OF ord]
    using sub by (auto simp: get tally_def pos intro!: arg_cong [where f = card])
qed

lemma creator_volume_exact:
  assumes "acc_tally acc ts" and "bounded ts"
    and "v + (\<Sum>w\<leftarrow>cs. quote_volume (by_wallet w ts)) < 2 ^ 128"
  shows "creator_volume (acc_wallets acc) (of_nat v) cs
           = Inr (of_nat (v + (\<Sum>w\<leftarrow>cs. quote_volume (by_wallet w ts))))"
  using assms(3)
proof (induction cs arbitrary: v)
  case (Cons c cs)
  have get: "btree_get (acc_wallets acc) c =
              (if by_wallet c ts = [] then None else Some (tally (by_wallet c ts)))"
    using assms(1) by (simp add: acc_tally_def)
  show ?case
  proof (cases "by_wallet c ts = []")
    case True
    then show ?thesis using Cons by (simp add: get quote_volume_def)
  next
    case False
    let ?q = "quote_volume (by_wallet c ts)"
    have "(v + ?q) + (\<Sum>w\<leftarrow>cs. quote_volume (by_wallet w ts)) < 2 ^ 128"
      using Cons.prems by (simp add: add.assoc)
    from Cons.IH [OF this] Cons.prems False show ?thesis
      using total_quote_units_tally [OF bounded_by_wallet [OF assms(2)], of c]
      by (simp add: get checked_add_128 add.assoc)
  qed
qed simp

text \<open>
  What the finished metrics say of the valid trades \<open>ts\<close>: every counter and sum is the
  mathematical one, the largest share belongs to a wallet no other wallet traded more than, and
  the shares in basis points are the smallest ones that bound the exact fraction from above.
\<close>

definition share_rounds_up :: "nat \<Rightarrow> nat \<Rightarrow> nat \<Rightarrow> bool" where
  "share_rounds_up volume total_volume bps \<longleftrightarrow>
     (\<forall>limit. bps \<le> limit \<longleftrightarrow> volume * 10000 \<le> limit * total_volume)"

definition totals_exact :: "trade_fact list \<Rightarrow> market_window_metrics \<Rightarrow> bool" where
  "totals_exact ts m \<longleftrightarrow>
     unat (trades m) = length ts
     \<and> unat (buys m) = side_count Buy ts \<and> unat (sells m) = side_count Sell ts
     \<and> unat (buy_base_units m) = side_base Buy ts \<and> unat (sell_base_units m) = side_base Sell ts
     \<and> unat (buy_quote_units m) = side_quote Buy ts
     \<and> unat (sell_quote_units m) = side_quote Sell ts
     \<and> unat (unique_traders m) = card (tf_wallet ` set ts)
     \<and> unat (unique_buyers m) = card (side_wallets Buy ts)
     \<and> unat (unique_sellers m) = card (side_wallets Sell ts)"

definition largest_exact :: "trade_fact list \<Rightarrow> wallet_volume_share option \<Rightarrow> bool" where
  "largest_exact ts largest \<longleftrightarrow>
     (case largest of
        None \<Rightarrow> ts = []
      | Some l \<Rightarrow>
          share_wallet l \<in> tf_wallet ` set ts
          \<and> unat (share_quote_volume_units l) = quote_volume (by_wallet (share_wallet l) ts)
          \<and> (\<forall>w. quote_volume (by_wallet w ts) \<le> unat (share_quote_volume_units l))
          \<and> share_rounds_up (unat (share_quote_volume_units l)) (quote_volume ts)
               (unat (share_bps l)))"

definition creator_exact ::
    "trade_fact list \<Rightarrow> string list \<Rightarrow> creator_volume_share option \<Rightarrow> bool" where
  "creator_exact ts creators share \<longleftrightarrow>
     (case share of
        None \<Rightarrow> creators = []
      | Some c \<Rightarrow>
          creators \<noteq> [] \<and> creator_wallets c = creators
          \<and> unat (creator_quote_volume_units c)
              = quote_volume (filter (\<lambda>t. tf_wallet t \<in> set creators) ts)
          \<and> (case creator_share_bps c of
                None \<Rightarrow> ts = []
              | Some b \<Rightarrow> ts \<noteq> [] \<and> share_rounds_up (unat (creator_quote_volume_units c))
                                    (quote_volume ts) (unat b)))"

lemma fraction_to_basis_points_rounds_up:
  assumes "0 < d" and "n \<le> d" and "d < 2 ^ 128"
  shows "\<exists>b. fraction_to_basis_points (of_nat n) (of_nat d) = Inr b \<and> share_rounds_up n d (unat b)"
proof -
  have u: "unat (of_nat n :: u128) = n" "unat (of_nat d :: u128) = d"
    using assms by (simp_all add: unat_of_nat_small)
  then have "(of_nat d :: u128) \<noteq> 0" "(of_nat n :: u128) \<le> of_nat d"
    using assms by (auto simp: word_le_nat_alt)
  from fraction_to_basis_points_exact [OF this] show ?thesis by (auto simp: share_rounds_up_def u)
qed

lemma quote_volume_pos: "\<forall>t\<in>set ts. 0 < tf_quote t \<Longrightarrow> ts \<noteq> [] \<Longrightarrow> 0 < quote_volume ts"
  by (cases ts) (simp_all add: quote_volume_def)

lemma largest_wallet_exact:
  assumes "acc_tally acc ts" and "bounded ts" and "\<forall>t\<in>set ts. 0 < tf_quote t"
  shows "\<exists>largest. largest_wallet (of_nat (quote_volume ts)) None (acc_wallets acc) = Inr largest
           \<and> largest_exact ts largest"
proof (cases "ts = []")
  case True
  then have "acc_wallets acc = []" using wallet_counts(1) [OF assms(1,2)] by simp
  then show ?thesis using True by (simp add: largest_exact_def)
next
  case False
  note pos = quote_volume_pos [OF assms(3) False] and bq = bounded_quote_volume [OF assms(2)]
  let ?V = "of_nat (quote_volume ts) :: u128"
  have uV: "unat ?V = quote_volume ts" using bq by (simp add: unat_of_nat_small)
  have wallet: "total_quote_units (tally (by_wallet w ts)) = Inr (of_nat (quote_volume (by_wallet w ts)))"
    for w by (rule total_quote_units_tally [OF bounded_by_wallet [OF assms(2)]])
  have uw: "unat (of_nat (quote_volume (by_wallet w ts)) :: u128) = quote_volume (by_wallet w ts)" for w
    using bounded_quote_volume [OF bounded_by_wallet [OF assms(2)]] by (simp add: unat_of_nat_small)
  have "\<forall>(w, m) \<in> set (acc_wallets acc). \<exists>v. total_quote_units m = Inr v \<and> v \<le> ?V"
    by (auto simp: acc_tally_entries [OF assms(1)] wallet word_le_nat_alt uV uw
        quote_volume_by_wallet_le)
  moreover have "acc_wallets acc \<noteq> []" using wallet_counts(1) [OF assms(1,2)] False by auto
  moreover have "?V \<noteq> 0" using pos uV by auto
  ultimately obtain l where l: "largest_wallet ?V None (acc_wallets acc) = Inr (Some l)"
    "picks_largest ?V None (acc_wallets acc) l" using largest_wallet_max [of "acc_wallets acc" ?V None] by auto
  let ?q = "quote_volume (by_wallet (share_wallet l) ts)"
  have v: "share_quote_volume_units l = of_nat ?q" and w: "share_wallet l \<in> tf_wallet ` set ts"
    using l(2) by (auto simp: picks_largest_def acc_tally_entries [OF assms(1)] wallet by_wallet_Nil_iff)
  have max: "quote_volume (by_wallet w ts) \<le> ?q" for w
  proof (cases "by_wallet w ts = []")
    case True
    then show ?thesis by (simp add: quote_volume_def)
  next
    case False
    then have "(w, tally (by_wallet w ts)) \<in> set (acc_wallets acc)"
      by (simp add: acc_tally_entries [OF assms(1)])
    then have "of_nat (quote_volume (by_wallet w ts)) \<le> share_quote_volume_units l"
      using l(2) wallet by (simp add: picks_largest_def)
    then show ?thesis by (simp add: v word_le_nat_alt uw)
  qed
  have "share_rounds_up ?q (quote_volume ts) (unat (share_bps l))"
    using l(2) fraction_to_basis_points_rounds_up [OF pos quote_volume_by_wallet_le bq, of "share_wallet l"]
    by (auto simp: picks_largest_def share_exact_def v)
  then have "largest_exact ts (Some l)" using w max by (simp add: largest_exact_def v uw)
  with l(1) show ?thesis by blast
qed

lemma accumulator_finish_exact:
  assumes "acc_tally acc ts" and "bounded ts" and "\<forall>t\<in>set ts. 0 < tf_quote t"
    and "distinct creators"
  shows "\<exists>m. accumulator_finish acc n creators f l = Inr m \<and> observations_count m = n
     \<and> totals_exact ts m \<and> largest_exact ts (largest_wallet_quote_volume m)
     \<and> creator_exact ts creators (creator_quote_volume m)"
proof -
  note bq = bounded_quote_volume [OF assms(2)] and bs = bounded_sides [OF assms(2)]
  have len: "length ts < 2 ^ 64" using assms(2) by (simp add: bounded_def)
  let ?V = "of_nat (quote_volume ts) :: u128"
  have total_volume: "checked_add (acc_buy_quote acc) (acc_sell_quote acc) = Inr ?V"
    using assms(1) bq by (simp add: acc_tally_def checked_add_128 quote_volume_sides)
  have cards: "card (tf_wallet ` set ts) < 2 ^ 64" "card (side_wallets s ts) < 2 ^ 64" for s
    using card_wallets_bound [of "tf_wallet ` set ts" ts] card_side_wallets [of s ts] len by simp_all
  obtain largest where largest: "largest_wallet ?V None (acc_wallets acc) = Inr largest"
    "largest_exact ts largest" using largest_wallet_exact [OF assms(1-3)] by blast
  let ?c = "quote_volume (filter (\<lambda>t. tf_wallet t \<in> set creators) ts)"
  have c_le: "?c \<le> quote_volume ts" by (rule quote_volume_filter_le)
  have cv: "creator_volume (acc_wallets acc) 0 creators = Inr (of_nat ?c)"
    using creator_volume_exact [OF assms(1,2), of 0 creators] c_le bq
    by (simp add: quote_volume_by_wallets [OF assms(4)])
  have uc: "unat (of_nat ?c :: u128) = ?c" using c_le bq by (simp add: unat_of_nat_small)
  have V0: "0 < ?V \<longleftrightarrow> ts \<noteq> []"
    using quote_volume_pos [OF assms(3)] bq
    by (cases "ts = []") (auto simp: word_less_nat_alt unat_of_nat_small quote_volume_def)
  define creator_share where "creator_share = (if creators = [] then Inr None
        else
          result_bind (creator_volume (acc_wallets acc) 0 creators) (\<lambda>volume.
          result_bind
            (if 0 < ?V
             then result_bind (fraction_to_basis_points volume ?V) (\<lambda>b. Inr (Some b))
             else Inr None) (\<lambda>share.
          Inr (Some \<lparr>creator_wallets = creators, creator_quote_volume_units = volume,
                     creator_share_bps = share\<rparr>))))"
  have "\<exists>share. creator_share = Inr share \<and> creator_exact ts creators share"
    using fraction_to_basis_points_rounds_up [OF quote_volume_pos [OF assms(3)] c_le bq]
    by (cases "ts = []") (auto simp: creator_share_def cv V0 creator_exact_def uc)
  then obtain share where share: "creator_share = Inr share" "creator_exact ts creators share"
    by blast
  show ?thesis
    using largest share assms(1) bs len cards
    unfolding accumulator_finish_def total_volume result_bind.simps creator_share_def [symmetric]
    by (simp add: wallet_counts [OF assms(1,2)] try_u64_def totals_exact_def acc_tally_def
        unat_of_nat_small)
qed

section \<open>Prices and reserves\<close>

lemma price_extrema_exact:
  assumes "\<forall>p\<in>set (low # high # ps). ratio_fits (pp_ratio p)" and "point_price low \<le> point_price high"
  shows "\<exists>l h. price_extrema low high ps = Inr (l, h) \<and> l \<in> insert low (set ps)
     \<and> h \<in> insert high (set ps) \<and> point_price l \<le> point_price low \<and> point_price high \<le> point_price h
     \<and> (\<forall>p\<in>set ps. point_price l \<le> point_price p \<and> point_price p \<le> point_price h)"
  using assms
proof (induction ps arbitrary: low high)
  case (Cons p ps)
  let ?low = "if point_price p < point_price low then p else low"
  let ?high = "if point_price high < point_price p then p else high"
  have "price_extrema low high (p # ps) = price_extrema ?low ?high ps"
    using Cons.prems(1) by (simp add: checked_cmp_value point_price_def Let_def)
  moreover have "\<forall>q\<in>set (?low # ?high # ps). ratio_fits (pp_ratio q)"
    using Cons.prems(1) by simp
  moreover have "point_price ?low \<le> point_price ?high" using Cons.prems(2) by auto
  ultimately obtain l h where IH: "price_extrema low high (p # ps) = Inr (l, h)"
    "l \<in> insert ?low (set ps)" "h \<in> insert ?high (set ps)" "point_price l \<le> point_price ?low"
    "point_price ?high \<le> point_price h"
    "\<forall>p\<in>set ps. point_price l \<le> point_price p \<and> point_price p \<le> point_price h"
    using Cons.IH [of ?low ?high] by metis
  have "l \<in> insert low (set (p # ps))" "h \<in> insert high (set (p # ps))"
    using IH(2,3) by (auto split: if_splits)
  moreover have "point_price l \<le> point_price low" "point_price high \<le> point_price h"
    "point_price l \<le> point_price p" "point_price p \<le> point_price h"
    using IH(4,5) by (auto split: if_splits)
  ultimately show ?case using IH(1,6) by auto
qed simp

definition prices_exact :: "trade_fact list \<Rightarrow> price_summary option \<Rightarrow> bool" where
  "prices_exact ts summary \<longleftrightarrow>
     (case summary of
        None \<Rightarrow> ts = []
      | Some p \<Rightarrow> ts \<noteq> []
          \<and> point_price (price_first p) = fact_price (hd ts)
          \<and> point_price (price_last p) = fact_price (last ts)
          \<and> point_price (price_low p) = Min (fact_price ` set ts)
          \<and> point_price (price_high p) = Max (fact_price ` set ts))"

lemma summarize_prices_exact:
  assumes "\<forall>p\<in>set points. ratio_fits (pp_ratio p)" and "map point_price points = map fact_price ts"
  shows "\<exists>s. summarize_prices points = Inr s \<and> prices_exact ts s"
proof (cases points)
  case Nil
  then show ?thesis using assms(2) by (simp add: summarize_prices_def prices_exact_def)
next
  case (Cons p ps)
  have ts: "ts \<noteq> []" using assms(2) Cons by auto
  obtain l h where lh: "price_extrema p p ps = Inr (l, h)" "l \<in> set points" "h \<in> set points"
    "\<forall>q\<in>set points. point_price l \<le> point_price q \<and> point_price q \<le> point_price h"
    using price_extrema_exact [of p p ps] assms(1) Cons by auto
  have set: "point_price ` set points = fact_price ` set ts"
    using arg_cong [OF assms(2), of set] by simp
  have "point_price l = Min (fact_price ` set ts)" "point_price h = Max (fact_price ` set ts)"
    unfolding set [symmetric] using lh by (auto intro!: Min_eqI [symmetric] Max_eqI [symmetric])
  moreover have "point_price p = fact_price (hd ts)"
    using arg_cong [OF assms(2), of hd] Cons ts by (simp add: hd_map)
  moreover have "point_price (last points) = fact_price (last ts)"
    using arg_cong [OF assms(2), of last] ts Cons last_map [of points point_price]
    by (simp add: last_map)
  ultimately show ?thesis
    using lh(1) ts Cons by (simp add: summarize_prices_def prices_exact_def)
qed

section \<open>Building the snapshot\<close>

lemma sort_by_observation_order:
  "sort_by observation_order os = sort_key (\<lambda>ob.
     ((((((received_time_unix_ms ob, slot (key_coordinate (obs_key ob))),
       transaction_index (key_coordinate (obs_key ob))), signature (key_coordinate (obs_key ob))),
       instruction_index (key_coordinate (obs_key ob))), event_index (key_coordinate (obs_key ob))),
       source_program_rank (key_program (obs_key ob)))) os"
  by (rule sort_by_key) (simp add: observation_order_def Let_def then_with_cmp)

definition window_observations ::
    "market_identity \<Rightarrow> i64 \<Rightarrow> i64 \<Rightarrow> 'json normalized_observation list \<Rightarrow> 'json normalized_observation list" where
  "window_observations market opened closes os =
     sort_by observation_order (filter (in_window market opened closes) os)"

lemma mset_window_observations:
  "mset (window_observations market opened closes os) = mset (filter (in_window market opened closes) os)"
  by (simp add: window_observations_def sort_by_observation_order)

lemma window_observations_members:
  "set (window_observations market opened closes os) = {ob \<in> set os. in_window market opened closes ob}"
  "length (window_observations market opened closes os) \<le> length os"
  by (auto simp: window_observations_def sort_by_observation_order length_filter_le)

lemma check_duplicates_iff:
  "check_duplicates seen os = Inr () \<longleftrightarrow>
     distinct (map obs_key os) \<and> obs_key ` set os \<inter> seen = {}"
  by (induction seen os rule: check_duplicates.induct) auto

lemma check_duplicates_error:
  "check_duplicates seen os = Inl e \<Longrightarrow>
     \<exists>k. e = DuplicateObservation k \<and> k \<in> obs_key ` set os
       \<and> (k \<in> seen \<or> 2 \<le> length (filter (\<lambda>ob. obs_key ob = k) os))"
proof (induction seen os rule: check_duplicates.induct)
  case (2 seen ob rest)
  show ?case
  proof (cases "obs_key ob \<in> seen")
    case False
    then have "check_duplicates (insert (obs_key ob) seen) rest = Inl e" using "2.prems" by simp
    from "2.IH" [OF False this] obtain k where
      k: "e = DuplicateObservation k" "k \<in> obs_key ` set rest"
        "k = obs_key ob \<or> k \<in> seen \<or> 2 \<le> length (filter (\<lambda>ob. obs_key ob = k) rest)" by auto
    then have "filter (\<lambda>ob. obs_key ob = k) rest \<noteq> []" by (auto simp: filter_empty_conv)
    then have "1 \<le> length (filter (\<lambda>ob. obs_key ob = k) rest)"
      by (simp add: Suc_le_eq)
    with k show ?thesis by auto
  qed (use "2.prems" in auto)
qed simp

lemma creator_wallet_set_distinct: "distinct (creator_wallet_set os)"
  by (simp add: creator_wallet_set_def)

lemma facts_positive: "t \<in> set (facts_of os) \<Longrightarrow> 0 < tf_quote t \<and> 0 < tf_base t"
  by (erule facts_of_memberE)
     (auto simp: trade_fact_of_def unat_gt_0 split: observation_payload.splits if_splits)

text \<open>Everything a built snapshot says of the observations \<open>os\<close> of its window.\<close>

definition snapshot_exact ::
    "snapshot_completeness \<Rightarrow> 'json normalized_observation list \<Rightarrow> market_window_snapshot \<Rightarrow> bool" where
  "snapshot_exact c os s \<longleftrightarrow>
     observation_keys s = map obs_key os
     \<and> unat (observations_count (metrics s)) = length os
     \<and> map sample_fact (trade_samples s) = facts_of os
     \<and> totals_exact (facts_of os) (metrics s)
     \<and> largest_exact (facts_of os) (largest_wallet_quote_volume (metrics s))
     \<and> creator_exact (facts_of os) (creator_wallet_set os) (creator_quote_volume (metrics s))
     \<and> prices_exact (facts_of os) (prices s)
     \<and> (is_complete (completeness s) \<longleftrightarrow> is_complete c \<and> \<not> list_ex invalid_trade os)
     \<and> (\<not> is_complete c \<longrightarrow> completeness s = c)
     \<and> completion_observation_keys s = map obs_key (filter (is_MarketCompleted \<circ> payload) os)
     \<and> migration_observation_keys s = map obs_key (filter (is_MarketMigrated \<circ> payload) os)
     \<and> completion_observed s = list_ex (is_MarketCompleted \<circ> payload) os
     \<and> migration_observed s = list_ex (is_MarketMigrated \<circ> payload) os
     \<and> latest_observed_slot s = latest_slot os"

definition valid_request :: "i64 \<Rightarrow> i64 \<Rightarrow> snapshot_completeness \<Rightarrow> bool" where
  "valid_request opened closes c \<longleftrightarrow>
     opened < closes \<and> (\<forall>r. c = Incomplete r \<longrightarrow> \<not> trim_is_empty r)"

lemma filter_nonempty_list_ex: "filter P xs \<noteq> [] \<longleftrightarrow> list_ex P xs"
  by (auto simp: filter_empty_conv list_ex_iff)

lemma build_of_distinct:
  assumes "length os < 2 ^ 64" and "valid_request opened closes c"
    and "distinct (map obs_key (window_observations market opened closes os))"
  shows "\<exists>s. build_market_window_snapshot market opened closes c os = Inr s
    \<and> snapshot_exact c (window_observations market opened closes os) s
    \<and> snap_market s = market \<and> snap_opened_at s = opened \<and> snap_closes_at s = closes"
proof -
  let ?ws = "window_observations market opened closes os"
  have len: "length ?ws < 2 ^ 64"
    using window_observations_members(2) [of market opened closes os] assms(1) by simp
  note b = facts_of_bounded [OF len]
  from snapshot_loop_inv [OF loop_inv_init, of ?ws c] b obtain l where
    l: "snapshot_loop (snapshot_locals_init c) ?ws = Inr l" "loop_inv c ?ws l" by auto
  obtain m where m: "accumulator_finish (loc_accumulator l) (of_nat (length ?ws)) (creator_wallet_set ?ws)
        (head_opt (loc_trade_samples l)) (last_opt (loc_trade_samples l)) = Inr m"
      "observations_count m = of_nat (length ?ws)" "totals_exact (facts_of ?ws) m"
      "largest_exact (facts_of ?ws) (largest_wallet_quote_volume m)"
      "creator_exact (facts_of ?ws) (creator_wallet_set ?ws) (creator_quote_volume m)"
    using accumulator_finish_exact [OF _ b _ creator_wallet_set_distinct] l(2) facts_positive
    unfolding loop_inv_def by metis
  obtain p where p: "summarize_prices (loc_price_points l) = Inr p" "prices_exact (facts_of ?ws) p"
    using summarize_prices_exact l(2) unfolding loop_inv_def by metis
  have count: "try_u64 (length (loc_observation_keys l)) = Inr (of_nat (length ?ws))"
    using l(2) len by (simp add: loop_inv_def try_u64_def)
  have dup: "check_duplicates {} ?ws = Inr ()" using assms(3) by (simp add: check_duplicates_iff)
  have guard: "\<not> closes \<le> opened" "\<not> (case c of Incomplete reason \<Rightarrow> trim_is_empty reason | Complete \<Rightarrow> False)"
    using assms(2) by (auto simp: valid_request_def split: snapshot_completeness.splits)
  have "unat (of_nat (length ?ws) :: u64) = length ?ws" using len by (simp add: unat_of_nat_small)
  then show ?thesis
    using guard dup l m p count
    unfolding build_market_window_snapshot_def window_observations_def [symmetric]
    by (simp add: Let_def snapshot_exact_def loop_inv_def filter_nonempty_list_ex)
qed

lemma build_valid_request:
  assumes "build_market_window_snapshot market opened closes c os = Inr s"
  shows "valid_request opened closes c"
    and "distinct (map obs_key (window_observations market opened closes os))"
  using assms
  by (auto simp: build_market_window_snapshot_def valid_request_def result_simps Let_def
      check_duplicates_iff window_observations_def split: if_splits snapshot_completeness.splits)

lemma distinct_window_keys:
  "distinct (map obs_key (window_observations market opened closes os)) \<longleftrightarrow>
     distinct (map obs_key (filter (in_window market opened closes) os))"
proof -
  have "mset (map obs_key (window_observations market opened closes os))
      = mset (map obs_key (filter (in_window market opened closes) os))"
    using mset_window_observations [of market opened closes os] by (simp add: mset_map)
  then show ?thesis by (metis mset_eq_imp_distinct_iff)
qed

text \<open>
  A snapshot is built exactly when the request is well formed and no observation of the window
  appears twice; in particular none of the checked additions, multiplications or conversions of
  the builder ever fails for a window of 64-bit amounts.
\<close>

theorem snapshot_total:
  assumes "length os < 2 ^ 64"
  shows "(\<exists>s. build_market_window_snapshot market opened closes c os = Inr s) \<longleftrightarrow>
     valid_request opened closes c
     \<and> distinct (map obs_key (filter (in_window market opened closes) os))"
  using build_of_distinct [OF assms] build_valid_request
  by (metis distinct_window_keys)

text \<open>
  The error of a refused request says what is wrong with it: the bounds, a missing reason, or a
  key that two observations of the window share. No other error is possible.
\<close>

theorem snapshot_errors:
  assumes "length os < 2 ^ 64" and "build_market_window_snapshot market opened closes c os = Inl e"
  shows "(e = InvalidWindowBounds \<and> closes \<le> opened)
     \<or> (e = MissingIncompleteReason \<and> (\<exists>r. c = Incomplete r \<and> trim_is_empty r))
     \<or> (\<exists>k. e = DuplicateObservation k
          \<and> 2 \<le> length (filter (\<lambda>ob. obs_key ob = k) (filter (in_window market opened closes) os)))"
proof (cases "valid_request opened closes c")
  case True
  let ?ws = "window_observations market opened closes os"
  have "\<not> distinct (map obs_key ?ws)"
    using build_of_distinct [OF assms(1) True] assms(2) by force
  then obtain k where k: "check_duplicates {} ?ws = Inl (DuplicateObservation k)"
      "2 \<le> length (filter (\<lambda>ob. obs_key ob = k) ?ws)"
    using check_duplicates_iff [of "{}" ?ws] check_duplicates_error [of "{}" ?ws]
    by (cases "check_duplicates {} ?ws") auto
  have "e = DuplicateObservation k"
    using assms(2) k(1) True
    by (auto simp: build_market_window_snapshot_def window_observations_def valid_request_def Let_def
        split: if_splits snapshot_completeness.splits)
  moreover have "length (filter (\<lambda>ob. obs_key ob = k) ?ws)
      = length (filter (\<lambda>ob. obs_key ob = k) (filter (in_window market opened closes) os))"
    using mset_window_observations [of market opened closes os] by (metis mset_filter size_mset)
  ultimately show ?thesis using k(2) by auto
next
  case False
  then show ?thesis using assms(2)
    by (auto simp: build_market_window_snapshot_def valid_request_def
        split: if_splits snapshot_completeness.splits)
qed

text \<open>
  C1: a built snapshot is exact. Its counters and sums are those of the valid trades of the window
  over the mathematical integers, its unique wallets are the wallets that traded, the largest
  wallet is one no wallet exceeds, shares are exact fractions rounded up to a basis point, the first,
  last, lowest and highest prices are those of the trades as rational numbers, and the snapshot is
  complete exactly when the request was and every trade of the window is valid.
\<close>

theorem snapshot_is_exact:
  assumes "length os < 2 ^ 64" and "build_market_window_snapshot market opened closes c os = Inr s"
  shows "snapshot_exact c (window_observations market opened closes os) s
    \<and> snap_market s = market \<and> snap_opened_at s = opened \<and> snap_closes_at s = closes
    \<and> mset (window_observations market opened closes os)
        = mset (filter (in_window market opened closes) os)"
  using build_of_distinct [OF assms(1) build_valid_request [OF assms(2)]] assms(2)
    mset_window_observations [of market opened closes os] by auto

text \<open>
  The order in which the observations of a window were stored does not matter: two arrangements
  of the same observations give the same result.
\<close>

theorem snapshot_order_irrelevant:
  fixes os ps :: "'json normalized_observation list"
  assumes "mset os = mset ps"
    and "distinct (map obs_key (filter (in_window market opened closes) os))"
    and "\<forall>ob\<in>set os. key_network (obs_key ob) = market_network market"
  shows "build_market_window_snapshot market opened closes c os
       = build_market_window_snapshot market opened closes c ps"
proof -
  let ?os = "filter (in_window market opened closes) os"
  let ?ps = "filter (in_window market opened closes) ps"
  have "mset ?os = mset ?ps" using assms(1) by simp
  moreover have rank: "source_program_rank a = source_program_rank b \<longleftrightarrow> a = b" for a b
    by (cases a; cases b) simp_all
  have "obs_key a = obs_key b" if "a \<in> set ?os" "b \<in> set ?os"
      "key_coordinate (obs_key a) = key_coordinate (obs_key b)"
      "key_program (obs_key a) = key_program (obs_key b)" for a b
    using that assms(3) by (auto intro: observation_key.equality)
  then have "inj_on (\<lambda>ob.
     ((((((received_time_unix_ms ob, slot (key_coordinate (obs_key ob))),
       transaction_index (key_coordinate (obs_key ob))), signature (key_coordinate (obs_key ob))),
       instruction_index (key_coordinate (obs_key ob))), event_index (key_coordinate (obs_key ob))),
       source_program_rank (key_program (obs_key ob)))) (set ?os)"
    using assms(2) unfolding inj_on_def distinct_map
    by (simp add: rank)
  ultimately have "sort_by observation_order ?os = sort_by observation_order ?ps"
    unfolding sort_by_observation_order by (rule sort_key_unique)
  then show ?thesis by (simp add: build_market_window_snapshot_def)
qed

section \<open>A concrete window\<close>

definition example_market :: market_identity where
  "example_market = \<lparr>market_network = SolanaMainnet, mint = ''M'', venue = VenuePumpBondingCurve,
     market_address = ''A'', quote_mint = None\<rparr>"

definition example_trade :: "u16 \<Rightarrow> trade_side \<Rightarrow> string \<Rightarrow> u64 \<Rightarrow> u64 \<Rightarrow> unit normalized_observation" where
  "example_trade n side w base quote =
     \<lparr>obs_key = \<lparr>key_network = SolanaMainnet, key_program = SourcePump,
        key_coordinate = \<lparr>slot = 7, transaction_index = None, signature = ''S'',
                          instruction_index = 0, event_index = n\<rparr>\<rparr>,
      obs_commitment = Confirmed, schema_version = 1, decoder_version = ''v'', event_kind = ''trade'',
      obs_market = example_market, source_event_time_unix_ms = None,
      received_time_unix_ms = 5, raw_evidence_hash = [], source_evidence_base64 = [],
      source_details = (), payload = Trade side w base quote None None\<rparr>"

definition example_window :: "unit normalized_observation list" where
  "example_window = [example_trade 1 Buy ''x'' 10 30, example_trade 0 Sell ''y'' 4 10]"

lemma example_window_facts:
  "length example_window < 2 ^ 64"
  "distinct (map obs_key (filter (in_window example_market 0 10) example_window))"
  "valid_request 0 10 Complete"
  "\<forall>ob\<in>set example_window. key_network (obs_key ob) = market_network example_market"
  by (simp_all add: example_window_def example_trade_def in_window_def valid_request_def example_market_def)

lemma example_window_built:
  "\<exists>s. build_market_window_snapshot example_market 0 10 Complete example_window = Inr s"
  using build_of_distinct [OF example_window_facts(1,3), of example_market] example_window_facts(2)
  by (auto simp: distinct_window_keys)

theorem snapshot_total_witness:
  "length example_window < 2 ^ 64
   \<and> (\<exists>s. build_market_window_snapshot example_market 0 10 Complete example_window = Inr s)"
  using snapshot_total [OF example_window_facts(1), of example_market 0 10 Complete] example_window_facts
  by simp

theorem snapshot_errors_witness:
  "build_market_window_snapshot example_market 0 10 Complete
       [example_trade 1 Buy ''x'' 10 30, example_trade 1 Buy ''x'' 10 30]
     = Inl (DuplicateObservation (obs_key (example_trade 1 Buy ''x'' 10 30)))
   \<and> 2 \<le> length (filter (\<lambda>ob. obs_key ob = obs_key (example_trade 1 Buy ''x'' 10 30))
       (filter (in_window example_market 0 10)
          [example_trade 1 Buy ''x'' 10 30, example_trade 1 Buy ''x'' 10 30]))"
proof -
  let ?os = "[example_trade 1 Buy ''x'' 10 30, example_trade 1 Buy ''x'' 10 30]"
  have e: "build_market_window_snapshot example_market 0 10 Complete ?os
      = Inl (DuplicateObservation (obs_key (example_trade 1 Buy ''x'' 10 30)))"
    by (simp add: build_market_window_snapshot_def in_window_def example_trade_def sort_by_def
        observation_order_def Let_def then_with_def)
  show ?thesis using snapshot_errors [OF _ e] e by simp
qed

theorem snapshot_is_exact_witness:
  "\<exists>s. build_market_window_snapshot example_market 0 10 Complete example_window = Inr s
     \<and> snapshot_exact Complete (window_observations example_market 0 10 example_window) s"
  using snapshot_is_exact [OF example_window_facts(1)] example_window_built by blast

theorem snapshot_order_irrelevant_witness:
  "build_market_window_snapshot example_market 0 10 Complete example_window
     = build_market_window_snapshot example_market 0 10 Complete (rev example_window)"
  by (rule snapshot_order_irrelevant [OF _ example_window_facts(2,4)]) simp

end
