(* ===== verification/Qualification.thy ===== *)
theory Qualification
  imports Snapshot_Correct
begin

text \<open>
  The admission policy of \<open>crates/discovery-engine/src/qualification.rs\<close>: the thresholds, the
  eight versioned rules of one assessment and the decision folded from them. The theorems read a
  decision back to the trades of the window, through the exactness of the snapshot it rests on.
\<close>

section \<open>Quote assets\<close>

definition NATIVE_SOL_MINT :: string where
  "NATIVE_SOL_MINT = ''11111111111111111111111111111111''"

definition WRAPPED_SOL_MINT :: string where
  "WRAPPED_SOL_MINT = ''So11111111111111111111111111111111111111112''"

definition CANONICAL_USDC_MINT :: string where
  "CANONICAL_USDC_MINT = ''EPjFWdd5AufqSSqeM2qN1xzybapC8G4wEGGkZwyTDt1v''"

definition RULE_VERSION :: string where
  "RULE_VERSION = ''1''"

datatype quote_asset_class = QuoteNative | QuoteStable | QuoteUnsupported

definition classify_quote_asset :: "market_window_snapshot \<Rightarrow> quote_asset_class" where
  "classify_quote_asset snapshot =
     (case quote_mint (snap_market snapshot) of
        None \<Rightarrow> QuoteUnsupported
      | Some m \<Rightarrow>
          if m = NATIVE_SOL_MINT \<or> m = WRAPPED_SOL_MINT then QuoteNative
          else if m = CANONICAL_USDC_MINT \<and> market_network (snap_market snapshot) = SolanaMainnet
            then QuoteStable
          else QuoteUnsupported)"

section \<open>The policy\<close>

record qualification_policy =
  ruleset_version :: string
  minimum_trades :: u64
  minimum_unique_traders :: u64
  minimum_buys :: u64
  minimum_sells :: u64
  minimum_native_quote_volume_units :: u128
  minimum_stable_quote_volume_units :: u128
  maximum_single_wallet_quote_volume_bps :: u16

definition qualification_policy_default :: qualification_policy where
  "qualification_policy_default =
     \<lparr>ruleset_version = ''initial-qualification-v1'', minimum_trades = 5,
      minimum_unique_traders = 3, minimum_buys = 1, minimum_sells = 1,
      minimum_native_quote_volume_units = 50000000,
      minimum_stable_quote_volume_units = 5000000,
      maximum_single_wallet_quote_volume_bps = 9000\<rparr>"

datatype qualification_policy_error =
    MissingRulesetVersion
  | InvalidMaximumWalletShare u16
  | MinimumUniqueTradersExceedTrades
  | MinimumBuysExceedTrades
  | MinimumSellsExceedTrades
  | SnapshotFailure snapshot_error

definition policy_validate :: "qualification_policy \<Rightarrow> (qualification_policy_error, unit) result" where
  "policy_validate self =
     (if trim_is_empty (ruleset_version self) then Inl MissingRulesetVersion
      else if BASIS_POINTS_SCALE < maximum_single_wallet_quote_volume_bps self
        then Inl (InvalidMaximumWalletShare (maximum_single_wallet_quote_volume_bps self))
      else if minimum_trades self < minimum_unique_traders self
        then Inl MinimumUniqueTradersExceedTrades
      else if minimum_trades self < minimum_buys self then Inl MinimumBuysExceedTrades
      else if minimum_trades self < minimum_sells self then Inl MinimumSellsExceedTrades
      else Inr ())"

section \<open>Rules\<close>

datatype qualification_rule_id =
    CompleteWindow
  | SupportedQuoteAsset
  | MinimumTrades
  | MinimumUniqueTraders
  | MinimumBuys
  | MinimumSells
  | MinimumQuoteVolume
  | MaximumWalletConcentration

fun rule_id_as_str :: "qualification_rule_id \<Rightarrow> string" where
  "rule_id_as_str CompleteWindow = ''qualification.window-complete''"
| "rule_id_as_str SupportedQuoteAsset = ''qualification.supported-quote-asset''"
| "rule_id_as_str MinimumTrades = ''qualification.minimum-trades''"
| "rule_id_as_str MinimumUniqueTraders = ''qualification.minimum-unique-traders''"
| "rule_id_as_str MinimumBuys = ''qualification.minimum-buys''"
| "rule_id_as_str MinimumSells = ''qualification.minimum-sells''"
| "rule_id_as_str MinimumQuoteVolume = ''qualification.minimum-quote-volume''"
| "rule_id_as_str MaximumWalletConcentration = ''qualification.maximum-single-wallet-quote-volume''"

record qualification_assessment =
  qa_ruleset_version :: string
  qa_decision :: assessment_decision
  qa_rules :: "rule_result list"

definition all_rule_ids :: "qualification_rule_id list" where
  "all_rule_ids =
     [CompleteWindow, SupportedQuoteAsset, MinimumTrades, MinimumUniqueTraders, MinimumBuys,
      MinimumSells, MinimumQuoteVolume, MaximumWalletConcentration]"

definition rule ::
    "qualification_rule_id \<Rightarrow> assessment_decision \<Rightarrow> string \<Rightarrow> string option \<Rightarrow> u64 option \<Rightarrow> rule_result" where
  "rule rid decision reason evidence observed =
     \<lparr>rule_id = rule_id_as_str rid, rule_version = RULE_VERSION, rule_decision = decision,
      reason_code = reason, evidence_reference = evidence, observed_slot = observed\<rparr>"

definition minimum_reason_code :: "qualification_rule_id \<Rightarrow> bool \<Rightarrow> string" where
  "minimum_reason_code rid passes =
     (case rid of
        MinimumTrades \<Rightarrow> if passes then ''MINIMUM_TRADES_MET'' else ''TRADES_BELOW_MINIMUM''
      | MinimumUniqueTraders \<Rightarrow>
          if passes then ''MINIMUM_UNIQUE_TRADERS_MET'' else ''UNIQUE_TRADERS_BELOW_MINIMUM''
      | MinimumBuys \<Rightarrow> if passes then ''MINIMUM_BUYS_MET'' else ''BUYS_BELOW_MINIMUM''
      | MinimumSells \<Rightarrow> if passes then ''MINIMUM_SELLS_MET'' else ''SELLS_BELOW_MINIMUM''
      | MinimumQuoteVolume \<Rightarrow>
          if passes then ''MINIMUM_QUOTE_VOLUME_MET'' else ''QUOTE_VOLUME_BELOW_MINIMUM''
      | _ \<Rightarrow> if passes then ''MINIMUM_MET'' else ''BELOW_MINIMUM'')"

definition minimum_rule ::
    "qualification_rule_id \<Rightarrow> 'a::len word \<Rightarrow> 'a word \<Rightarrow> u64 option \<Rightarrow> rule_result" where
  "minimum_rule rid actual minimum observed =
     (let passes = minimum \<le> actual in
      rule rid (if passes then Pass else Reject) (minimum_reason_code rid passes)
        (Some (''actual='' @ show_word actual @ '';minimum='' @ show_word minimum)) observed)"

definition aggregate :: "rule_result list \<Rightarrow> assessment_decision" where
  "aggregate rules =
     (if list_ex (\<lambda>r. rule_decision r = Reject) rules then Reject
      else if list_ex (\<lambda>r. rule_decision r = Unknown) rules then Unknown
      else Pass)"

definition window_evidence :: "market_window_snapshot \<Rightarrow> string" where
  "window_evidence snapshot =
     ''market='' @ market_address (snap_market snapshot) @
     '';opened_at_unix_ms='' @ show_int (snap_opened_at snapshot) @
     '';closes_at_unix_ms='' @ show_int (snap_closes_at snapshot) @
     '';observations='' @ show_word (observations_count (metrics snapshot))"

section \<open>Evaluation\<close>

definition incomplete_assessment ::
    "market_window_snapshot \<Rightarrow> qualification_policy \<Rightarrow> qualification_assessment" where
  "incomplete_assessment snapshot policy =
     (let reason = (case completeness_reason_code (completeness snapshot) of
            None \<Rightarrow> ''WINDOW_INCOMPLETE'' | Some r \<Rightarrow> r)
      in \<lparr>qa_ruleset_version = ruleset_version policy, qa_decision = Unknown,
          qa_rules = map (\<lambda>rid. rule rid Unknown reason (Some (window_evidence snapshot))
                            (latest_observed_slot snapshot)) all_rule_ids\<rparr>)"

definition quote_asset_rule :: "market_window_snapshot \<Rightarrow> rule_result" where
  "quote_asset_rule snapshot =
     (case classify_quote_asset snapshot of
        QuoteNative \<Rightarrow> rule SupportedQuoteAsset Pass ''SUPPORTED_NATIVE_QUOTE_ASSET''
          (quote_mint (snap_market snapshot)) (latest_observed_slot snapshot)
      | QuoteStable \<Rightarrow> rule SupportedQuoteAsset Pass ''SUPPORTED_STABLE_QUOTE_ASSET''
          (quote_mint (snap_market snapshot)) (latest_observed_slot snapshot)
      | QuoteUnsupported \<Rightarrow> rule SupportedQuoteAsset Reject ''UNSUPPORTED_QUOTE_ASSET''
          (Some (case quote_mint (snap_market snapshot) of None \<Rightarrow> ''NONE'' | Some m \<Rightarrow> m))
          (latest_observed_slot snapshot))"

definition quote_volume_rule :: "market_window_snapshot \<Rightarrow> qualification_policy \<Rightarrow> u128 \<Rightarrow> rule_result" where
  "quote_volume_rule snapshot policy total_volume =
     (case classify_quote_asset snapshot of
        QuoteNative \<Rightarrow> minimum_rule MinimumQuoteVolume total_volume
          (minimum_native_quote_volume_units policy) (latest_observed_slot snapshot)
      | QuoteStable \<Rightarrow> minimum_rule MinimumQuoteVolume total_volume
          (minimum_stable_quote_volume_units policy) (latest_observed_slot snapshot)
      | QuoteUnsupported \<Rightarrow> rule MinimumQuoteVolume Unknown ''QUOTE_VOLUME_THRESHOLD_UNAVAILABLE''
          (Some (''observed_units='' @ show_word total_volume)) (latest_observed_slot snapshot))"

definition concentration_rule :: "market_window_snapshot \<Rightarrow> qualification_policy \<Rightarrow> u128 \<Rightarrow> rule_result" where
  "concentration_rule snapshot policy total_volume =
     (case largest_wallet_quote_volume (metrics snapshot) of
        Some largest \<Rightarrow>
          let passes = share_bps largest \<le> maximum_single_wallet_quote_volume_bps policy in
          rule MaximumWalletConcentration (if passes then Pass else Reject)
            (if passes then ''WALLET_CONCENTRATION_WITHIN_LIMIT''
             else ''WALLET_CONCENTRATION_EXCEEDS_LIMIT'')
            (Some (''wallet='' @ share_wallet largest @
                   '';actual_bps='' @ show_word (share_bps largest) @
                   '';maximum_bps='' @ show_word (maximum_single_wallet_quote_volume_bps policy)))
            (latest_observed_slot snapshot)
      | None \<Rightarrow> rule MaximumWalletConcentration Unknown ''WALLET_CONCENTRATION_UNAVAILABLE''
          (Some (''observed_quote_units='' @ show_word total_volume))
          (latest_observed_slot snapshot))"

definition complete_rules :: "market_window_snapshot \<Rightarrow> qualification_policy \<Rightarrow> u128 \<Rightarrow> rule_result list" where
  "complete_rules snapshot policy total_volume =
     (let m = metrics snapshot; observed = latest_observed_slot snapshot in
      [rule CompleteWindow Pass ''WINDOW_COMPLETE'' (Some (window_evidence snapshot)) observed,
       quote_asset_rule snapshot,
       minimum_rule MinimumTrades (trades m) (minimum_trades policy) observed,
       minimum_rule MinimumUniqueTraders (unique_traders m) (minimum_unique_traders policy) observed,
       minimum_rule MinimumBuys (buys m) (minimum_buys policy) observed,
       minimum_rule MinimumSells (sells m) (minimum_sells policy) observed,
       quote_volume_rule snapshot policy total_volume,
       concentration_rule snapshot policy total_volume])"

definition evaluate_qualification ::
    "market_window_snapshot \<Rightarrow> qualification_policy
      \<Rightarrow> (qualification_policy_error, qualification_assessment) result" where
  "evaluate_qualification snapshot policy =
     result_bind (policy_validate policy) (\<lambda>_.
     if \<not> is_complete (completeness snapshot) then Inr (incomplete_assessment snapshot policy)
     else
       result_bind (map_err SnapshotFailure (total_quote_volume_units (metrics snapshot)))
         (\<lambda>total_volume.
       let rules = complete_rules snapshot policy total_volume in
       Inr \<lparr>qa_ruleset_version = ruleset_version policy, qa_decision = aggregate rules,
            qa_rules = rules\<rparr>))"

section \<open>Verdicts\<close>

interpretation qualification: verdict aggregate
proof
  show "(\<exists>r\<in>set rs. rule_decision r = Reject) \<longleftrightarrow> aggregate rs = Reject" for rs
    by (auto simp: aggregate_def list_ex_iff)
  show "aggregate rs = Pass \<longleftrightarrow> (\<forall>r\<in>set rs. rule_decision r = Pass)" for rs
    by (auto simp: aggregate_def list_ex_iff decision_pass_iff)
qed

lemma rule_decision_simps [simp]:
  "rule_decision (rule rid d reason evidence observed) = d"
  "rule_id (rule rid d reason evidence observed) = rule_id_as_str rid"
  by (simp_all add: rule_def)

lemma minimum_rule_decision [simp]:
  "rule_decision (minimum_rule rid actual minimum observed) = (if minimum \<le> actual then Pass else Reject)"
  by (simp add: minimum_rule_def Let_def)

lemma rule_ids_inj: "inj rule_id_as_str"
proof (rule injI)
  fix a b assume "rule_id_as_str a = rule_id_as_str b"
  then show "a = b" by (cases a; cases b) simp_all
qed

text \<open>What the policy asks of the trades \<open>ts\<close> of a complete window.\<close>

definition minimum_quote_volume_of :: "qualification_policy \<Rightarrow> quote_asset_class \<Rightarrow> nat option" where
  "minimum_quote_volume_of policy class =
     (case class of
        QuoteNative \<Rightarrow> Some (unat (minimum_native_quote_volume_units policy))
      | QuoteStable \<Rightarrow> Some (unat (minimum_stable_quote_volume_units policy))
      | QuoteUnsupported \<Rightarrow> None)"

definition activity_sufficient :: "qualification_policy \<Rightarrow> trade_fact list \<Rightarrow> bool" where
  "activity_sufficient policy ts \<longleftrightarrow>
     unat (minimum_trades policy) \<le> length ts
     \<and> unat (minimum_unique_traders policy) \<le> card (tf_wallet ` set ts)
     \<and> unat (minimum_buys policy) \<le> side_count Buy ts
     \<and> unat (minimum_sells policy) \<le> side_count Sell ts"

definition concentration_acceptable :: "qualification_policy \<Rightarrow> trade_fact list \<Rightarrow> bool" where
  "concentration_acceptable policy ts \<longleftrightarrow>
     (\<forall>w. quote_volume (by_wallet w ts) * 10000
            \<le> unat (maximum_single_wallet_quote_volume_bps policy) * quote_volume ts)"

definition volume_sufficient ::
    "qualification_policy \<Rightarrow> quote_asset_class \<Rightarrow> trade_fact list \<Rightarrow> bool" where
  "volume_sufficient policy class ts \<longleftrightarrow>
     (case minimum_quote_volume_of policy class of
        None \<Rightarrow> False | Some v \<Rightarrow> v \<le> quote_volume ts)"

lemma unat_eq_of_nat: "unat x = n \<Longrightarrow> x = of_nat n"
  by auto

lemma total_quote_volume_exact:
  assumes "totals_exact ts m" and "bounded ts"
  shows "total_quote_volume_units m = Inr (of_nat (quote_volume ts))"
proof -
  have "buy_quote_units m = of_nat (side_quote Buy ts)" "sell_quote_units m = of_nat (side_quote Sell ts)"
    using assms(1) by (auto simp: totals_exact_def dest: unat_eq_of_nat)
  then show ?thesis
    using bounded_quote_volume [OF assms(2)]
    by (simp add: total_quote_volume_units_def checked_add_128 quote_volume_sides)
qed

lemma quote_asset_rule_decision:
  "rule_decision (quote_asset_rule s)
     = (if classify_quote_asset s = QuoteUnsupported then Reject else Pass)"
  by (simp add: quote_asset_rule_def split: quote_asset_class.splits)

lemma quote_volume_rule_decision:
  assumes "bounded ts"
  shows "rule_decision (quote_volume_rule s policy (of_nat (quote_volume ts)))
     = (if classify_quote_asset s = QuoteUnsupported then Unknown
        else if volume_sufficient policy (classify_quote_asset s) ts then Pass else Reject)"
  using bounded_quote_volume [OF assms]
  by (simp add: quote_volume_rule_def volume_sufficient_def minimum_quote_volume_of_def
      word_le_nat_alt unat_of_nat_small split: quote_asset_class.splits)

lemma concentration_rule_decision:
  assumes "largest_exact ts (largest_wallet_quote_volume (metrics s))"
  shows "rule_decision (concentration_rule s policy v)
     = (if ts = [] then Unknown else if concentration_acceptable policy ts then Pass else Reject)"
proof (cases "largest_wallet_quote_volume (metrics s)")
  case None
  then show ?thesis using assms by (simp add: largest_exact_def concentration_rule_def)
next
  case (Some l)
  let ?limit = "unat (maximum_single_wallet_quote_volume_bps policy)"
  let ?q = "unat (share_quote_volume_units l)"
  have l: "ts \<noteq> []" "?q = quote_volume (by_wallet (share_wallet l) ts)"
      "\<And>w. quote_volume (by_wallet w ts) \<le> ?q"
      "share_rounds_up ?q (quote_volume ts) (unat (share_bps l))"
    using assms Some by (auto simp: largest_exact_def)
  have "share_bps l \<le> maximum_single_wallet_quote_volume_bps policy
      \<longleftrightarrow> ?q * 10000 \<le> ?limit * quote_volume ts"
    using l(4) by (simp add: share_rounds_up_def word_le_nat_alt)
  also have "\<dots> \<longleftrightarrow> concentration_acceptable policy ts"
    unfolding concentration_acceptable_def
    using l(2) le_trans [OF mult_le_mono1 [OF l(3), of _ 10000]] by (auto simp del: mult_le_cancel2)
  finally show ?thesis using Some l(1) by (simp add: concentration_rule_def Let_def)
qed

lemma rule_id_minimum_rule [simp]:
  "rule_id (minimum_rule rid actual minimum observed) = rule_id_as_str rid"
  unfolding minimum_rule_def Let_def by (rule rule_decision_simps)

lemma rule_id_quote_asset_rule [simp]:
  "rule_id (quote_asset_rule s) = rule_id_as_str SupportedQuoteAsset"
  unfolding quote_asset_rule_def
  by (cases "classify_quote_asset s") (simp_all only: quote_asset_class.case rule_decision_simps)

lemma rule_id_quote_volume_rule [simp]:
  "rule_id (quote_volume_rule s policy v) = rule_id_as_str MinimumQuoteVolume"
  unfolding quote_volume_rule_def
  by (cases "classify_quote_asset s")
     (simp_all only: quote_asset_class.case rule_decision_simps rule_id_minimum_rule)

lemma rule_id_concentration_rule [simp]:
  "rule_id (concentration_rule s policy v) = rule_id_as_str MaximumWalletConcentration"
  unfolding concentration_rule_def Let_def
  by (cases "largest_wallet_quote_volume (metrics s)") (simp_all only: option.case rule_decision_simps)

lemma complete_rules_facts:
  "complete_rules s policy v \<noteq> []"
  "map rule_id (complete_rules s policy v) = map rule_id_as_str all_rule_ids"
  by (simp_all add: complete_rules_def Let_def all_rule_ids_def del: rule_id_as_str.simps)

lemma complete_rules_decision:
  fixes policy :: qualification_policy
  assumes "totals_exact ts (metrics s)" and "bounded ts"
    and "largest_exact ts (largest_wallet_quote_volume (metrics s))"
  defines "d \<equiv> aggregate (complete_rules s policy (of_nat (quote_volume ts)))"
    and "ok \<equiv> activity_sufficient policy ts
           \<and> volume_sufficient policy (classify_quote_asset s) ts \<and> concentration_acceptable policy ts"
  shows "d = (if \<not> ok then Reject else if ts = [] then Unknown else Pass)"
proof -
  have unsupported: "classify_quote_asset s = QuoteUnsupported \<Longrightarrow> \<not> ok"
    by (simp add: ok_def volume_sufficient_def minimum_quote_volume_of_def)
  have empty: "ts = [] \<Longrightarrow> concentration_acceptable policy ts"
    by (simp add: concentration_acceptable_def by_wallet_def)
  note rules = complete_rules_def Let_def quote_asset_rule_decision
    quote_volume_rule_decision [OF assms(2)] concentration_rule_decision [OF assms(3)]
  have "d = Reject \<longleftrightarrow> \<not> ok"
    unfolding d_def qualification.decide_reject [symmetric]
    using assms(1) empty unsupported
    by (auto simp: rules totals_exact_def ok_def activity_sufficient_def word_le_nat_alt)
  moreover have "d = Pass \<longleftrightarrow> ok \<and> ts \<noteq> []"
    unfolding d_def qualification.decide_pass [OF complete_rules_facts(1)]
    using assms(1) empty unsupported
    by (auto simp: rules totals_exact_def ok_def activity_sufficient_def word_le_nat_alt)
  ultimately show ?thesis by (cases d) auto
qed

lemma snapshot_exact_of_build:
  assumes "length os < 2 ^ 64" and "build_market_window_snapshot market opened closes c os = Inr s"
  shows "snapshot_exact c (window_observations market opened closes os) s"
    and "bounded (facts_of (window_observations market opened closes os))"
  using build_of_distinct [OF assms(1) build_valid_request [OF assms(2)]] assms
    facts_of_bounded [of "window_observations market opened closes os"]
    window_observations_members(2) [of market opened closes os] by auto

lemma evaluate_complete:
  assumes "length os < 2 ^ 64" and "build_market_window_snapshot market opened closes c os = Inr s"
    and "policy_validate policy = Inr ()"
  defines "ts \<equiv> facts_of (window_observations market opened closes os)"
  shows "evaluate_qualification s policy =
    (if is_complete (completeness s)
     then Inr \<lparr>qa_ruleset_version = ruleset_version policy,
               qa_decision = aggregate (complete_rules s policy (of_nat (quote_volume ts))),
               qa_rules = complete_rules s policy (of_nat (quote_volume ts))\<rparr>
     else Inr (incomplete_assessment s policy))"
proof -
  have "total_quote_volume_units (metrics s) = Inr (of_nat (quote_volume ts))"
    using snapshot_exact_of_build [OF assms(1,2)] total_quote_volume_exact
    unfolding snapshot_exact_def ts_def by blast
  then show ?thesis using assms(3) by (simp add: evaluate_qualification_def map_err_def Let_def)
qed

text \<open>
  C2: the decision on a window reads back to its trades. A window is REJECTED exactly when it is
  complete and the activity, the quote volume or the concentration misses a threshold of the policy
  (an unsupported quote asset has no volume threshold it could meet); it PASSES exactly when it is
  complete, holds a trade and meets all of them; everything else is UNKNOWN. Complete means that
  collection was and that every trade of the window is valid. Concentration is judged on the exact
  fraction of the volume each wallet traded, in spite of the rounding to basis points.
\<close>

theorem qualification_decides_on_trades:
  assumes "length os < 2 ^ 64" and "build_market_window_snapshot market opened closes c os = Inr s"
    and "policy_validate policy = Inr ()"
  defines "ws \<equiv> window_observations market opened closes os"
    and "ok \<equiv> \<lambda>ts. activity_sufficient policy ts
           \<and> volume_sufficient policy (classify_quote_asset s) ts \<and> concentration_acceptable policy ts"
  shows "\<exists>a. evaluate_qualification s policy = Inr a
    \<and> qa_decision a =
        (if \<not> is_complete c \<or> list_ex invalid_trade ws then Unknown
         else if \<not> ok (facts_of ws) then Reject
         else if facts_of ws = [] then Unknown else Pass)"
proof -
  note exact = snapshot_exact_of_build [OF assms(1,2), folded ws_def]
  have "is_complete (completeness s) \<longleftrightarrow> is_complete c \<and> \<not> list_ex invalid_trade ws"
    using exact(1) by (simp add: snapshot_exact_def)
  then show ?thesis
    using complete_rules_decision [OF _ exact(2)] exact(1)
    unfolding evaluate_complete [OF assms(1-3)] ws_def [symmetric] ok_def
    by (auto simp: incomplete_assessment_def Let_def snapshot_exact_def)
qed

text \<open>
  An assessment always lists the eight rules, once each and in the same order; where collection
  is incomplete every one of them is UNKNOWN with the reason of the incompleteness, so that no
  window is passed or rejected on partial evidence.
\<close>

theorem qualification_rules_complete:
  assumes "evaluate_qualification s policy = Inr a"
  shows "map rule_id (qa_rules a) = map rule_id_as_str all_rule_ids
    \<and> distinct (map rule_id (qa_rules a))
    \<and> qa_ruleset_version a = ruleset_version policy
    \<and> (\<not> is_complete (completeness s) \<longrightarrow>
         qa_decision a = Unknown
         \<and> (\<forall>r\<in>set (qa_rules a). rule_decision r = Unknown
              \<and> Some (reason_code r) = completeness_reason_code (completeness s)))"
proof -
  have ids: "map rule_id (qa_rules a) = map rule_id_as_str all_rule_ids"
    using assms complete_rules_facts(2)
    by (auto simp: evaluate_qualification_def result_simps incomplete_assessment_def Let_def
        split: if_splits)
  moreover have "distinct (map rule_id_as_str all_rule_ids)"
    by (simp add: all_rule_ids_def)
  ultimately show ?thesis
    using assms
    by (cases "completeness s")
       (auto simp: evaluate_qualification_def result_simps incomplete_assessment_def Let_def
        is_complete_def rule_def split: if_splits)
qed

text \<open>
  An evaluation fails for an invalid policy only, with the first violated condition; a snapshot
  the builder made never makes it fail.
\<close>

theorem qualification_fails_on_policy_only:
  assumes "length os < 2 ^ 64" and "build_market_window_snapshot market opened closes c os = Inr s"
  shows "evaluate_qualification s policy = Inl e \<longleftrightarrow> policy_validate policy = Inl e"
proof (cases "policy_validate policy")
  case (Inr u)
  then show ?thesis using evaluate_complete [OF assms] by simp
qed (simp add: evaluate_qualification_def)

theorem qualification_decides_on_trades_witness:
  "\<exists>s a. build_market_window_snapshot example_market 0 10 Complete example_window = Inr s
     \<and> evaluate_qualification s qualification_policy_default = Inr a \<and> qa_decision a = Reject"
proof -
  obtain s where s: "build_market_window_snapshot example_market 0 10 Complete example_window = Inr s"
    using example_window_built by blast
  have ws: "window_observations example_market 0 10 example_window
      = [example_trade 0 Sell ''y'' 4 10, example_trade 1 Buy ''x'' 10 30]"
    by (simp add: window_observations_def example_window_def in_window_def example_trade_def sort_by_def
        observation_order_def Let_def then_with_def cmp_def)
  have "policy_validate qualification_policy_default = Inr ()"
    by (simp add: policy_validate_def qualification_policy_default_def BASIS_POINTS_SCALE_def
        white_space_1_def white_space_2_def white_space_3_def)
  from qualification_decides_on_trades [OF example_window_facts(1) s this] show ?thesis
    using s
    by (auto simp: ws is_complete_def invalid_trade_def example_trade_def trade_fact_of_def
        white_space_1_def white_space_2_def white_space_3_def activity_sufficient_def qualification_policy_default_def)
qed

theorem qualification_rules_complete_witness:
  "\<exists>s a. build_market_window_snapshot example_market 0 10 (Incomplete ''GAP'') example_window = Inr s
     \<and> evaluate_qualification s qualification_policy_default = Inr a \<and> qa_decision a = Unknown
     \<and> map rule_id (qa_rules a) = map rule_id_as_str all_rule_ids"
proof -
  have "valid_request 0 10 (Incomplete ''GAP'')" by (simp add: valid_request_def white_space_1_def white_space_2_def white_space_3_def)
  then obtain s where s: "build_market_window_snapshot example_market 0 10 (Incomplete ''GAP'') example_window = Inr s"
    and "snapshot_exact (Incomplete ''GAP'') (window_observations example_market 0 10 example_window) s"
    using build_of_distinct [OF example_window_facts(1), of 0 10 "Incomplete ''GAP''" example_market]
      example_window_facts(2) by (auto simp: distinct_window_keys)
  then have inc: "\<not> is_complete (completeness s)" by (simp add: snapshot_exact_def is_complete_def)
  then have "evaluate_qualification s qualification_policy_default
      = Inr (incomplete_assessment s qualification_policy_default)"
    by (simp add: evaluate_qualification_def policy_validate_def qualification_policy_default_def
        BASIS_POINTS_SCALE_def white_space_1_def white_space_2_def white_space_3_def)
  with qualification_rules_complete [OF this] inc s show ?thesis by auto
qed

theorem qualification_fails_on_policy_only_witness:
  "\<exists>s. build_market_window_snapshot example_market 0 10 Complete example_window = Inr s
     \<and> evaluate_qualification s (qualification_policy_default\<lparr>ruleset_version := '' ''\<rparr>)
         = Inl MissingRulesetVersion"
proof -
  obtain s where s: "build_market_window_snapshot example_market 0 10 Complete example_window = Inr s"
    using example_window_built by blast
  show ?thesis
    using s qualification_fails_on_policy_only [OF example_window_facts(1) s]
    by (auto simp: policy_validate_def white_space_1_def white_space_2_def white_space_3_def)
qed

end
