(* ===== verification/Pump_Model.thy ===== *)
theory Pump_Model
  imports Domain
begin

text \<open>
  The events of Pump and PumpSwap: the constants pinned to the public IDL
  (\<open>crates/source-pump/src/idl.rs\<close>), the programs (\<open>lib.rs\<close>) and the event types (\<open>model.rs\<close>).
  The fields of a record keep the names of the source behind a prefix for their event.
\<close>

section \<open>Programs\<close>

datatype pump_program = Pump | PumpSwap

definition PUMP_PROGRAM_ID :: string where
  "PUMP_PROGRAM_ID = ''6EF8rrecthR5Dkzon8Nwu78hRvfCKubJ14M5uBEwF6P''"

definition PUMP_SWAP_PROGRAM_ID :: string where
  "PUMP_SWAP_PROGRAM_ID = ''pAMMBay6oceH9fJKBRHGP5D4bD4sWpmSwMn52FMfXEA''"

fun pump_program_id :: "pump_program \<Rightarrow> string" where
  "pump_program_id Pump = PUMP_PROGRAM_ID"
| "pump_program_id PumpSwap = PUMP_SWAP_PROGRAM_ID"

fun pump_source_program :: "pump_program \<Rightarrow> source_program" where
  "pump_source_program Pump = SourcePump"
| "pump_source_program PumpSwap = SourcePumpSwap"

definition supported_program :: "string \<Rightarrow> pump_program option" where
  "supported_program program_id =
     (if program_id = PUMP_PROGRAM_ID then Some Pump
      else if program_id = PUMP_SWAP_PROGRAM_ID then Some PumpSwap
      else None)"

section \<open>The pinned IDL\<close>

definition IDL_SOURCE_REVISION :: string where
  "IDL_SOURCE_REVISION = ''9c82f61cb711b044a17f770ab8ce9f9bdf78f333''"

definition DECODER_SCHEMA_VERSION :: u16 where
  "DECODER_SCHEMA_VERSION = 1"

text \<open>The last part is the version of the workspace in \<open>Cargo.toml\<close>.\<close>

definition DECODER_VERSION :: string where
  "DECODER_VERSION = ''pump-idl-9c82f61cb711b044a17f770ab8ce9f9bdf78f333-soldisco-'' @ ''0.1.0''"

definition ANCHOR_EVENT_CPI_DISCRIMINATOR :: "u8 list" where
  "ANCHOR_EVENT_CPI_DISCRIMINATOR = [228, 69, 165, 46, 81, 203, 154, 29]"

definition COMPLETE_EVENT_DISCRIMINATOR :: "u8 list" where
  "COMPLETE_EVENT_DISCRIMINATOR = [95, 114, 97, 156, 212, 46, 152, 8]"

definition COMPLETE_PUMP_AMM_MIGRATION_EVENT_DISCRIMINATOR :: "u8 list" where
  "COMPLETE_PUMP_AMM_MIGRATION_EVENT_DISCRIMINATOR = [189, 233, 93, 185, 92, 148, 234, 148]"

definition CREATE_EVENT_DISCRIMINATOR :: "u8 list" where
  "CREATE_EVENT_DISCRIMINATOR = [27, 114, 169, 77, 222, 235, 99, 118]"

definition TRADE_EVENT_DISCRIMINATOR :: "u8 list" where
  "TRADE_EVENT_DISCRIMINATOR = [189, 219, 127, 211, 78, 230, 97, 238]"

definition CREATE_POOL_EVENT_DISCRIMINATOR :: "u8 list" where
  "CREATE_POOL_EVENT_DISCRIMINATOR = [177, 49, 12, 210, 160, 118, 167, 116]"

definition PUMP_SWAP_BUY_EVENT_DISCRIMINATOR :: "u8 list" where
  "PUMP_SWAP_BUY_EVENT_DISCRIMINATOR = [103, 244, 82, 31, 44, 245, 119, 119]"

definition PUMP_SWAP_SELL_EVENT_DISCRIMINATOR :: "u8 list" where
  "PUMP_SWAP_SELL_EVENT_DISCRIMINATOR = [62, 47, 55, 10, 165, 3, 220, 42]"

definition PUMP_SWAP_DEPOSIT_EVENT_DISCRIMINATOR :: "u8 list" where
  "PUMP_SWAP_DEPOSIT_EVENT_DISCRIMINATOR = [120, 248, 61, 83, 31, 142, 107, 144]"

definition PUMP_SWAP_WITHDRAW_EVENT_DISCRIMINATOR :: "u8 list" where
  "PUMP_SWAP_WITHDRAW_EVENT_DISCRIMINATOR = [22, 9, 133, 26, 160, 44, 71, 192]"

definition PUMP_EVENT_DISCRIMINATORS :: "u8 list list" where
  "PUMP_EVENT_DISCRIMINATORS =
     [[64, 69, 192, 104, 29, 30, 25, 107],
      [245, 59, 70, 34, 75, 185, 109, 92],
      [147, 250, 108, 120, 247, 29, 67, 222],
      [226, 214, 246, 33, 7, 242, 147, 229],
      [79, 172, 246, 49, 205, 91, 206, 232],
      [146, 159, 189, 172, 146, 88, 56, 244],
      [122, 2, 127, 1, 14, 191, 12, 175],
      COMPLETE_EVENT_DISCRIMINATOR,
      COMPLETE_PUMP_AMM_MIGRATION_EVENT_DISCRIMINATOR,
      CREATE_EVENT_DISCRIMINATOR,
      [165, 55, 129, 112, 4, 179, 202, 40],
      [97, 97, 215, 144, 93, 146, 22, 124],
      [134, 36, 13, 72, 232, 101, 130, 216],
      [155, 167, 104, 220, 213, 108, 243, 3],
      [168, 216, 132, 239, 235, 182, 49, 52],
      [43, 188, 250, 18, 221, 75, 187, 95],
      [237, 52, 123, 37, 245, 251, 72, 210],
      [142, 203, 6, 32, 127, 105, 191, 162],
      [223, 195, 159, 246, 62, 48, 143, 131],
      [197, 122, 167, 124, 116, 81, 91, 255],
      TRADE_EVENT_DISCRIMINATOR,
      [182, 195, 137, 42, 35, 206, 207, 247],
      [117, 123, 228, 182, 161, 168, 220, 214]]"

definition PUMP_SWAP_EVENT_DISCRIMINATORS :: "u8 list list" where
  "PUMP_SWAP_EVENT_DISCRIMINATORS =
     [[45, 220, 93, 24, 25, 97, 172, 104],
      [147, 250, 108, 120, 247, 29, 67, 222],
      [63, 69, 28, 22, 48, 92, 194, 185],
      PUMP_SWAP_BUY_EVENT_DISCRIMINATOR,
      [226, 214, 246, 33, 7, 242, 147, 229],
      [79, 172, 246, 49, 205, 91, 206, 232],
      [146, 159, 189, 172, 146, 88, 56, 244],
      [232, 245, 194, 238, 234, 218, 58, 89],
      [107, 52, 89, 129, 55, 226, 81, 22],
      CREATE_POOL_EVENT_DISCRIMINATOR,
      [120, 248, 61, 83, 31, 142, 107, 144],
      [107, 253, 193, 76, 228, 202, 27, 104],
      [97, 97, 215, 144, 93, 146, 22, 124],
      [174, 124, 74, 249, 4, 81, 246, 17],
      [134, 36, 13, 72, 232, 101, 130, 216],
      [170, 221, 82, 199, 147, 165, 247, 46],
      [43, 188, 250, 18, 221, 75, 187, 95],
      PUMP_SWAP_SELL_EVENT_DISCRIMINATOR,
      [242, 231, 235, 102, 65, 99, 189, 211],
      [89, 128, 240, 141, 91, 202, 71, 105],
      [150, 107, 199, 123, 124, 207, 102, 228],
      [197, 122, 167, 124, 116, 81, 91, 255],
      [225, 152, 171, 87, 246, 63, 66, 234],
      [90, 23, 65, 35, 62, 244, 188, 208],
      [22, 9, 133, 26, 160, 44, 71, 192]]"

definition is_pinned_event_discriminator :: "pump_program \<Rightarrow> u8 list \<Rightarrow> bool" where
  "is_pinned_event_discriminator program discriminator \<longleftrightarrow>
     (case program of
        Pump \<Rightarrow> discriminator \<in> set PUMP_EVENT_DISCRIMINATORS
      | PumpSwap \<Rightarrow> discriminator \<in> set PUMP_SWAP_EVENT_DISCRIMINATORS)"

section \<open>Events\<close>

datatype pump_event_kind =
    KindCreate
  | KindTrade
  | KindLiquidityDeposit
  | KindLiquidityWithdraw
  | KindComplete
  | KindCompletePumpAmmMigration
  | KindCreatePool

datatype trade_direction = DirectionBuy | DirectionSell

record pump_shareholder =
  sh_address :: string
  sh_share_basis_points :: u16

record pump_create_event =
  create_name :: string
  create_symbol :: string
  create_uri :: string
  create_mint :: string
  create_bonding_curve :: string
  create_user :: string
  create_creator :: string
  create_timestamp :: i64
  create_virtual_token_reserves :: u64
  create_virtual_sol_reserves :: u64
  create_real_token_reserves :: u64
  create_token_total_supply :: u64
  create_token_program :: string
  create_is_mayhem_mode :: bool
  create_is_cashback_enabled :: bool
  create_quote_mint :: string
  create_virtual_quote_reserves :: u64

record pump_trade_event =
  trade_mint :: string
  trade_legacy_sol_amount :: u64
  trade_token_amount :: u64
  trade_direction :: trade_direction
  trade_user :: string
  trade_timestamp :: i64
  trade_virtual_sol_reserves :: u64
  trade_virtual_token_reserves :: u64
  trade_real_sol_reserves :: u64
  trade_real_token_reserves :: u64
  trade_fee_recipient :: string
  trade_fee_basis_points :: u64
  trade_fee_amount :: u64
  trade_creator :: string
  trade_creator_fee_basis_points :: u64
  trade_creator_fee_amount :: u64
  trade_track_volume :: bool
  trade_total_unclaimed_tokens :: u64
  trade_total_claimed_tokens :: u64
  trade_current_sol_volume :: u64
  trade_last_update_timestamp :: i64
  trade_instruction_name :: string
  trade_mayhem_mode :: bool
  trade_cashback_fee_basis_points :: u64
  trade_cashback_amount :: u64
  trade_buyback_fee_basis_points :: u64
  trade_buyback_fee_amount :: u64
  trade_shareholders :: "pump_shareholder list"
  trade_quote_mint :: string
  trade_quote_amount :: u64
  trade_virtual_quote_reserves :: u64
  trade_real_quote_reserves :: u64

record pump_complete_event =
  complete_user :: string
  complete_mint :: string
  complete_bonding_curve :: string
  complete_timestamp :: i64
  complete_quote_mint :: string

record pump_migration_event =
  migration_user :: string
  migration_mint :: string
  migration_mint_amount :: u64
  migration_legacy_sol_amount :: u64
  migration_pool_migration_fee :: u64
  migration_bonding_curve :: string
  migration_timestamp :: i64
  migration_pool :: string
  migration_quote_mint :: string

record pump_swap_create_pool_event =
  pool_timestamp :: i64
  pool_index :: u16
  pool_creator :: string
  pool_base_mint :: string
  pool_quote_mint :: string
  pool_base_mint_decimals :: u8
  pool_quote_mint_decimals :: u8
  pool_base_amount_in :: u64
  pool_quote_amount_in :: u64
  pool_pool_base_amount :: u64
  pool_pool_quote_amount :: u64
  pool_minimum_liquidity :: u64
  pool_initial_liquidity :: u64
  pool_lp_token_amount_out :: u64
  pool_pool_bump :: u8
  pool_pool :: string
  pool_lp_mint :: string
  pool_user_base_token_account :: string
  pool_user_quote_token_account :: string
  pool_coin_creator :: string
  pool_is_mayhem_mode :: bool

record pump_swap_buy_event =
  buy_timestamp :: i64
  buy_base_amount_out :: u64
  buy_max_quote_amount_in :: u64
  buy_user_base_token_reserves :: u64
  buy_user_quote_token_reserves :: u64
  buy_pool_base_token_reserves :: u64
  buy_pool_quote_token_reserves :: u64
  buy_quote_amount_in :: u64
  buy_lp_fee_basis_points :: u64
  buy_lp_fee_amount :: u64
  buy_protocol_fee_basis_points :: u64
  buy_protocol_fee_amount :: u64
  buy_quote_amount_in_with_lp_fee :: u64
  buy_user_quote_amount_in :: u64
  buy_pool :: string
  buy_user :: string
  buy_user_base_token_account :: string
  buy_user_quote_token_account :: string
  buy_protocol_fee_recipient :: string
  buy_protocol_fee_recipient_token_account :: string
  buy_coin_creator :: string
  buy_coin_creator_fee_basis_points :: u64
  buy_coin_creator_fee_amount :: u64
  buy_track_volume :: bool
  buy_total_unclaimed_tokens :: u64
  buy_total_claimed_tokens :: u64
  buy_current_sol_volume :: u64
  buy_last_update_timestamp :: i64
  buy_min_base_amount_out :: u64
  buy_instruction_name :: string
  buy_cashback_fee_basis_points :: u64
  buy_cashback_amount :: u64
  buy_buyback_fee_basis_points :: u64
  buy_buyback_fee_amount :: u64
  buy_virtual_quote_reserves :: i128
  buy_can_boost :: bool
  buy_base_supply :: u64

record pump_swap_sell_event =
  sell_timestamp :: i64
  sell_base_amount_in :: u64
  sell_min_quote_amount_out :: u64
  sell_user_base_token_reserves :: u64
  sell_user_quote_token_reserves :: u64
  sell_pool_base_token_reserves :: u64
  sell_pool_quote_token_reserves :: u64
  sell_quote_amount_out :: u64
  sell_lp_fee_basis_points :: u64
  sell_lp_fee_amount :: u64
  sell_protocol_fee_basis_points :: u64
  sell_protocol_fee_amount :: u64
  sell_quote_amount_out_without_lp_fee :: u64
  sell_user_quote_amount_out :: u64
  sell_pool :: string
  sell_user :: string
  sell_user_base_token_account :: string
  sell_user_quote_token_account :: string
  sell_protocol_fee_recipient :: string
  sell_protocol_fee_recipient_token_account :: string
  sell_coin_creator :: string
  sell_coin_creator_fee_basis_points :: u64
  sell_coin_creator_fee_amount :: u64
  sell_cashback_fee_basis_points :: u64
  sell_cashback_amount :: u64
  sell_buyback_fee_basis_points :: u64
  sell_buyback_fee_amount :: u64
  sell_virtual_quote_reserves :: i128
  sell_can_boost :: bool
  sell_base_supply :: u64

record pump_swap_deposit_event =
  deposit_timestamp :: i64
  deposit_lp_token_amount_out :: u64
  deposit_max_base_amount_in :: u64
  deposit_max_quote_amount_in :: u64
  deposit_user_base_token_reserves :: u64
  deposit_user_quote_token_reserves :: u64
  deposit_pool_base_token_reserves :: u64
  deposit_pool_quote_token_reserves :: u64
  deposit_base_amount_in :: u64
  deposit_quote_amount_in :: u64
  deposit_lp_mint_supply :: u64
  deposit_pool :: string
  deposit_user :: string
  deposit_user_base_token_account :: string
  deposit_user_quote_token_account :: string
  deposit_user_pool_token_account :: string

record pump_swap_withdraw_event =
  withdraw_timestamp :: i64
  withdraw_lp_token_amount_in :: u64
  withdraw_min_base_amount_out :: u64
  withdraw_min_quote_amount_out :: u64
  withdraw_user_base_token_reserves :: u64
  withdraw_user_quote_token_reserves :: u64
  withdraw_pool_base_token_reserves :: u64
  withdraw_pool_quote_token_reserves :: u64
  withdraw_base_amount_out :: u64
  withdraw_quote_amount_out :: u64
  withdraw_lp_mint_supply :: u64
  withdraw_pool :: string
  withdraw_user :: string
  withdraw_user_base_token_account :: string
  withdraw_user_quote_token_account :: string
  withdraw_user_pool_token_account :: string

datatype pump_event =
    EventCreate pump_create_event
  | EventTrade pump_trade_event
  | EventComplete pump_complete_event
  | EventCompletePumpAmmMigration pump_migration_event
  | EventPumpSwapCreatePool pump_swap_create_pool_event
  | EventPumpSwapBuy pump_swap_buy_event
  | EventPumpSwapSell pump_swap_sell_event
  | EventPumpSwapDeposit pump_swap_deposit_event
  | EventPumpSwapWithdraw pump_swap_withdraw_event

fun pump_event_kind_of :: "pump_event \<Rightarrow> pump_event_kind" where
  "pump_event_kind_of (EventCreate _) = KindCreate"
| "pump_event_kind_of (EventTrade _) = KindTrade"
| "pump_event_kind_of (EventPumpSwapBuy _) = KindTrade"
| "pump_event_kind_of (EventPumpSwapSell _) = KindTrade"
| "pump_event_kind_of (EventPumpSwapDeposit _) = KindLiquidityDeposit"
| "pump_event_kind_of (EventPumpSwapWithdraw _) = KindLiquidityWithdraw"
| "pump_event_kind_of (EventComplete _) = KindComplete"
| "pump_event_kind_of (EventCompletePumpAmmMigration _) = KindCompletePumpAmmMigration"
| "pump_event_kind_of (EventPumpSwapCreatePool _) = KindCreatePool"

fun pump_event_timestamp :: "pump_event \<Rightarrow> i64" where
  "pump_event_timestamp (EventCreate e) = create_timestamp e"
| "pump_event_timestamp (EventTrade e) = trade_timestamp e"
| "pump_event_timestamp (EventComplete e) = complete_timestamp e"
| "pump_event_timestamp (EventCompletePumpAmmMigration e) = migration_timestamp e"
| "pump_event_timestamp (EventPumpSwapCreatePool e) = pool_timestamp e"
| "pump_event_timestamp (EventPumpSwapBuy e) = buy_timestamp e"
| "pump_event_timestamp (EventPumpSwapSell e) = sell_timestamp e"
| "pump_event_timestamp (EventPumpSwapDeposit e) = deposit_timestamp e"
| "pump_event_timestamp (EventPumpSwapWithdraw e) = withdraw_timestamp e"

record decoded_pump_event =
  decoded_program :: pump_program
  decoded_coordinate :: chain_coordinate
  decoded_event :: pump_event

definition decoded_event_kind :: "decoded_pump_event \<Rightarrow> pump_event_kind" where
  "decoded_event_kind d = pump_event_kind_of (decoded_event d)"

definition source_event_time_unix_seconds :: "decoded_pump_event \<Rightarrow> i64" where
  "source_event_time_unix_seconds d = pump_event_timestamp (decoded_event d)"

lemmas discriminator_defs =
  COMPLETE_EVENT_DISCRIMINATOR_def COMPLETE_PUMP_AMM_MIGRATION_EVENT_DISCRIMINATOR_def
  CREATE_EVENT_DISCRIMINATOR_def TRADE_EVENT_DISCRIMINATOR_def CREATE_POOL_EVENT_DISCRIMINATOR_def
  PUMP_SWAP_BUY_EVENT_DISCRIMINATOR_def PUMP_SWAP_SELL_EVENT_DISCRIMINATOR_def
  PUMP_SWAP_DEPOSIT_EVENT_DISCRIMINATOR_def PUMP_SWAP_WITHDRAW_EVENT_DISCRIMINATOR_def
  ANCHOR_EVENT_CPI_DISCRIMINATOR_def

lemma supported_program_id: "supported_program (pump_program_id p) = Some p"
  by (cases p) (simp_all add: supported_program_def PUMP_PROGRAM_ID_def PUMP_SWAP_PROGRAM_ID_def)

lemma supported_program_SomeD: "supported_program i = Some p \<Longrightarrow> i = pump_program_id p"
  by (auto simp: supported_program_def split: if_splits)

end
