(* ===== verification/Borsh.thy ===== *)
theory Borsh
  imports Domain
begin

text \<open>
  The strict Borsh reader of \<open>crates/source-pump/src/decoder.rs\<close> and the base-58 rendering of public
  keys. A reader is a function from the reader's state to an error or a value and the advanced
  state; \<open>reader_bind\<close> is the \<open>?\<close> of the source. What a reader of one layout promises is the
  locale \<open>codec\<close>: it accepts exactly the encodings of its values, consumes exactly them and returns
  the value; round trips, injectivity and the absence of ambiguity are proved once inside it.
\<close>

section \<open>Errors\<close>

text \<open>The error of the base64 crate is the parameter \<open>'b\<close>, the program of an unknown event \<open>'p\<close>.\<close>

datatype ('p, 'b) decode_error =
    UnsupportedProgram string
  | EmptySignature
  | MissingDiscriminator
  | MissingCpiDiscriminator
  | UnknownDiscriminator 'p "u8 list"
  | Truncated string usize usize
  | InvalidUtf8 string
  | InvalidBoolean string u8
  | LimitExceeded string usize usize
  | TrailingBytes usize
  | InvalidProgramDataLog
  | InvalidBase64 'b
  | TooManyEvents u16

section \<open>The reader\<close>

record borsh_reader =
  reader_data :: "u8 list"
  reader_position :: usize

type_synonym ('p, 'b, 'a) reader = "borsh_reader \<Rightarrow> (('p, 'b) decode_error, 'a \<times> borsh_reader) result"

definition reader_new :: "u8 list \<Rightarrow> borsh_reader" where
  "reader_new bs = \<lparr>reader_data = bs, reader_position = 0\<rparr>"

definition reader_bind :: "('p, 'b, 'a) reader \<Rightarrow> ('a \<Rightarrow> ('p, 'b, 'c) reader) \<Rightarrow> ('p, 'b, 'c) reader" where
  "reader_bind f g r = result_bind (f r) (\<lambda>(x, r'). g x r')"

definition reader_return :: "'a \<Rightarrow> ('p, 'b, 'a) reader" where
  "reader_return x r = Inr (x, r)"

definition reader_fail :: "('p, 'b) decode_error \<Rightarrow> ('p, 'b, 'a) reader" where
  "reader_fail e r = Inl e"

definition reader_finish :: "borsh_reader \<Rightarrow> (('p, 'b) decode_error, unit) result" where
  "reader_finish r =
     (let remaining = length (reader_data r) - reader_position r in
      if remaining = 0 then Inr () else Inl (TrailingBytes remaining))"

definition reader_take :: "string \<Rightarrow> usize \<Rightarrow> ('p, 'b, u8 list) reader" where
  "reader_take field n r =
     (let remaining = length (reader_data r) - reader_position r in
      if remaining < n then Inl (Truncated field n remaining)
      else Inr (take n (drop (reader_position r) (reader_data r)),
                r\<lparr>reader_position := reader_position r + n\<rparr>))"

section \<open>Little-endian integers\<close>

definition le_value :: "u8 list \<Rightarrow> nat" where
  "le_value bs = foldr (\<lambda>b n. unat b + 256 * n) bs 0"

fun le_bytes :: "nat \<Rightarrow> nat \<Rightarrow> u8 list" where
  "le_bytes 0 n = []"
| "le_bytes (Suc k) n = of_nat (n mod 256) # le_bytes k (n div 256)"

text \<open>Two's complement: the value of \<open>w\<close> bits read as a signed integer, and back.\<close>

definition signed_of :: "nat \<Rightarrow> nat \<Rightarrow> int" where
  "signed_of w n = (if n < 2 ^ (w - 1) then int n else int n - 2 ^ w)"

definition unsigned_of :: "nat \<Rightarrow> int \<Rightarrow> nat" where
  "unsigned_of w i = nat (i mod 2 ^ w)"

definition reader_u8 :: "string \<Rightarrow> ('p, 'b, u8) reader" where
  "reader_u8 field = reader_bind (reader_take field 1) (\<lambda>bs. reader_return (hd bs))"

definition reader_u16 :: "string \<Rightarrow> ('p, 'b, u16) reader" where
  "reader_u16 field = reader_bind (reader_take field 2) (\<lambda>bs. reader_return (of_nat (le_value bs)))"

definition reader_u32 :: "string \<Rightarrow> ('p, 'b, u32) reader" where
  "reader_u32 field = reader_bind (reader_take field 4) (\<lambda>bs. reader_return (of_nat (le_value bs)))"

definition reader_u64 :: "string \<Rightarrow> ('p, 'b, u64) reader" where
  "reader_u64 field = reader_bind (reader_take field 8) (\<lambda>bs. reader_return (of_nat (le_value bs)))"

definition reader_i64 :: "string \<Rightarrow> ('p, 'b, i64) reader" where
  "reader_i64 field =
     reader_bind (reader_take field 8) (\<lambda>bs. reader_return (signed_of 64 (le_value bs)))"

definition reader_i128 :: "string \<Rightarrow> ('p, 'b, i128) reader" where
  "reader_i128 field =
     reader_bind (reader_take field 16) (\<lambda>bs. reader_return (signed_of 128 (le_value bs)))"

definition reader_boolean :: "string \<Rightarrow> ('p, 'b, bool) reader" where
  "reader_boolean field =
     reader_bind (reader_u8 field) (\<lambda>v.
       if v = 0 then reader_return False
       else if v = 1 then reader_return True
       else reader_fail (InvalidBoolean field v))"

definition reader_string :: "string \<Rightarrow> usize \<Rightarrow> ('p, 'b, string) reader" where
  "reader_string field limit =
     reader_bind (reader_u32 field) (\<lambda>n.
       let len = unat n in
       if limit < len then reader_fail (LimitExceeded field limit len)
       else reader_bind (reader_take field len) (\<lambda>bs.
              case from_utf8 bs of
                None \<Rightarrow> reader_fail (InvalidUtf8 field)
              | Some s \<Rightarrow> reader_return s))"

section \<open>Base 58\<close>

text \<open>
  Digits and carry are kept as natural numbers: a digit is below 58 and the carry below 256
  (\<open>base58_digit_step_bounds\<close>), far inside the \<open>u8\<close> and \<open>u32\<close> of the code.
\<close>

definition ALPHABET :: string where
  "ALPHABET = ''123456789ABCDEFGHJKLMNPQRSTUVWXYZabcdefghijkmnopqrstuvwxyz''"

fun base58_carry_digits :: "nat \<Rightarrow> nat list" where
  "base58_carry_digits carry =
     (if carry = 0 then [] else carry mod 58 # base58_carry_digits (carry div 58))"

declare base58_carry_digits.simps [simp del]

fun base58_add_byte :: "nat \<Rightarrow> nat list \<Rightarrow> nat list" where
  "base58_add_byte carry [] = base58_carry_digits carry"
| "base58_add_byte carry (d # ds) =
     ((d * 256 + carry) mod 58) # base58_add_byte ((d * 256 + carry) div 58) ds"

fun base58_digits :: "nat list \<Rightarrow> u8 list \<Rightarrow> nat list" where
  "base58_digits digits [] = digits"
| "base58_digits digits (b # bs) = base58_digits (base58_add_byte (unat b) digits) bs"

text \<open>\<open>while digits.len() > 1 \<and> digits.last() == 0 { digits.pop() }\<close>\<close>

fun base58_trim :: "nat list \<Rightarrow> nat list" where
  "base58_trim digits =
     (if 1 < length digits \<and> last digits = 0 then base58_trim (butlast digits) else digits)"

declare base58_trim.simps [simp del]

definition encode_base58 :: "u8 list \<Rightarrow> string" where
  "encode_base58 bytes =
     (let leading_zeroes = length (takeWhile (\<lambda>b. b = 0) bytes);
          digits = base58_trim (base58_digits [0] bytes)
      in replicate leading_zeroes (CHR ''1'') @
         (if leading_zeroes \<noteq> length bytes then map (\<lambda>d. ALPHABET ! d) (rev digits) else []))"

definition reader_pubkey :: "string \<Rightarrow> ('p, 'b, string) reader" where
  "reader_pubkey field = reader_bind (reader_take field 32) (\<lambda>bs. reader_return (encode_base58 bs))"

section \<open>What a reader promises\<close>

definition rest :: "borsh_reader \<Rightarrow> u8 list" where
  "rest r = drop (reader_position r) (reader_data r)"

definition advance :: "usize \<Rightarrow> borsh_reader \<Rightarrow> borsh_reader" where
  "advance n r = r\<lparr>reader_position := reader_position r + n\<rparr>"

lemma rest_new [simp]: "rest (reader_new bs) = bs"
  by (simp add: rest_def reader_new_def)

lemma rest_advance [simp]: "rest (advance n r) = drop n (rest r)"
  by (simp add: rest_def advance_def add.commute)

lemma advance_simps [simp]:
  "advance 0 r = r" "advance m (advance n r) = advance (n + m) r"
  by (simp_all add: advance_def)

text \<open>\<open>f\<close> reads exactly the bytes \<open>bs\<close>, wherever they stand and whatever follows.\<close>

definition reads :: "('p, 'b, 'a) reader \<Rightarrow> 'a \<Rightarrow> u8 list \<Rightarrow> bool" where
  "reads f v bs \<longleftrightarrow> (\<forall>r post. rest r = bs @ post \<longrightarrow> f r = Inr (v, advance (length bs) r))"

lemma reads_bind:
  assumes "reads f x bs" and "reads (g x) v cs"
  shows "reads (reader_bind f g) v (bs @ cs)"
  using assms unfolding reads_def reader_bind_def by simp

lemma reads_return [simp]: "reads (reader_return v) v []"
  by (simp add: reads_def reader_return_def)

lemma reader_bindE:
  assumes "reader_bind f g r = Inr (v, r')"
  obtains x r1 where "f r = Inr (x, r1)" and "g x r1 = Inr (v, r')"
  using assms by (auto simp: reader_bind_def result_simps)

locale codec =
  fixes read :: "('p, 'b, 'a) reader" and encode :: "'a \<Rightarrow> u8 list" and valid :: "'a \<Rightarrow> bool"
  assumes read_encode: "valid v \<Longrightarrow> reads read v (encode v)"
    and read_sound: "read r = Inr (v, r') \<Longrightarrow>
          valid v \<and> rest r = encode v @ rest r' \<and> r' = advance (length (encode v)) r"
begin

lemma read_iff:
  "read r = Inr (v, r') \<longleftrightarrow>
     valid v \<and> (\<exists>post. rest r = encode v @ post) \<and> r' = advance (length (encode v)) r"
  using read_encode read_sound unfolding reads_def by blast

lemma encode_inj: "valid v \<Longrightarrow> valid w \<Longrightarrow> encode v @ bs = encode w @ cs \<Longrightarrow> v = w"
  using read_iff [of "reader_new (encode v @ bs)" v] read_iff [of "reader_new (encode v @ bs)" w]
  by (metis Inr_inject prod.inject rest_new)

lemma whole_input:
  "(\<exists>r'. read (reader_new bs) = Inr (v, r') \<and> reader_finish r' = (Inr () :: (('p, 'b) decode_error, unit) result))
     \<longleftrightarrow> valid v \<and> bs = encode v"
  by (auto simp: read_iff reader_finish_def Let_def advance_def reader_new_def rest_def)

end

lemma reader_take_iff:
  "reader_take field n r = Inr (bs, r') \<longleftrightarrow>
     length bs = n \<and> (\<exists>post. rest r = bs @ post) \<and> r' = advance n r"
proof -
  have "n \<le> length (rest r) \<and> bs = take n (rest r) \<longleftrightarrow> length bs = n \<and> (\<exists>post. rest r = bs @ post)"
    by (metis append_eq_conv_conj append_take_drop_id length_append length_take le_add1 min.absorb2)
  then show ?thesis
    by (auto simp: reader_take_def Let_def advance_def rest_def not_less)
qed

lemma reads_take: "length bs = n \<Longrightarrow> reads (reader_take field n) bs bs"
  unfolding reads_def using reader_take_iff by blast

text \<open>
  How the two laws of a codec are proved for a sequence of reads: forwards with \<open>reads\<close>, backwards
  with \<open>accepts\<close>.
\<close>

definition consumes :: "borsh_reader \<Rightarrow> borsh_reader \<Rightarrow> u8 list \<Rightarrow> bool" where
  "consumes r r' bs \<longleftrightarrow> rest r = bs @ rest r' \<and> r' = advance (length bs) r"

definition accepts :: "('p, 'b, 'a) reader \<Rightarrow> ('a \<Rightarrow> u8 list \<Rightarrow> bool) \<Rightarrow> bool" where
  "accepts f Q \<longleftrightarrow> (\<forall>r v r'. f r = Inr (v, r') \<longrightarrow> (\<exists>bs. Q v bs \<and> consumes r r' bs))"

lemma consumes_trans: "consumes r r1 bs \<Longrightarrow> consumes r1 r2 cs \<Longrightarrow> consumes r r2 (bs @ cs)"
  unfolding consumes_def by (metis append.assoc advance_simps(2) length_append)

lemma accepts_bind:
  assumes "accepts f P" and "\<And>x bs. P x bs \<Longrightarrow> accepts (g x) (\<lambda>v cs. Q v (bs @ cs))"
  shows "accepts (reader_bind f g) Q"
  unfolding accepts_def
proof (intro allI impI)
  fix r v r' assume "reader_bind f g r = Inr (v, r')"
  then obtain x r1 where x: "f r = Inr (x, r1)" "g x r1 = Inr (v, r')" by (rule reader_bindE)
  obtain bs where bs: "P x bs" "consumes r r1 bs"
    using assms(1) x(1) unfolding accepts_def by blast
  obtain cs where cs: "Q v (bs @ cs)" "consumes r1 r' cs"
    using assms(2) [OF bs(1)] x(2) unfolding accepts_def by blast
  show "\<exists>bs. Q v bs \<and> consumes r r' bs" using cs(1) consumes_trans [OF bs(2) cs(2)] by blast
qed

lemma accepts_return: "Q v [] \<Longrightarrow> accepts (reader_return v) Q"
  by (auto simp: accepts_def reader_return_def consumes_def)

lemma accepts_fail: "accepts (reader_fail e) Q"
  by (simp add: accepts_def reader_fail_def)

lemma codecI:
  assumes "\<And>v. valid v \<Longrightarrow> reads f v (enc v)" and "accepts f (\<lambda>v bs. valid v \<and> bs = enc v)"
  shows "codec f enc valid"
  using assms by unfold_locales (auto simp: accepts_def consumes_def)

context codec
begin

lemma read_accepts: "accepts read (\<lambda>v bs. valid v \<and> bs = encode v)"
  using read_sound by (auto simp: accepts_def consumes_def)

lemma accepts_read_bind:
  "(\<And>v. valid v \<Longrightarrow> accepts (g v) (\<lambda>w cs. Q w (encode v @ cs))) \<Longrightarrow> accepts (reader_bind read g) Q"
  using accepts_bind [OF read_accepts, of g Q] by blast

lemma reads_read_bind:
  "valid v \<Longrightarrow> reads (g v) w cs \<Longrightarrow> reads (reader_bind read g) w (encode v @ cs)"
  by (rule reads_bind [OF read_encode])

end

section \<open>Layouts of fixed width\<close>

lemma fixed_codec:
  assumes "\<And>bs. length bs = n \<Longrightarrow> valid (dec bs) \<and> enc (dec bs) = bs"
    and "\<And>v. valid v \<Longrightarrow> length (enc v) = n \<and> dec (enc v) = v"
  shows "codec (reader_bind (reader_take field n) (\<lambda>bs. reader_return (dec bs))) enc valid"
proof
  show "reads (reader_bind (reader_take field n) (\<lambda>bs. reader_return (dec bs))) v (enc v)"
    if "valid v" for v
    using reads_bind [OF reads_take, of "enc v" n "\<lambda>bs. reader_return (dec bs)" v "[]" field]
      assms(2) [OF that] by (metis append_Nil2 reads_return)
  show "valid v \<and> rest r = enc v @ rest r' \<and> r' = advance (length (enc v)) r"
    if "reader_bind (reader_take field n) (\<lambda>bs. reader_return (dec bs)) r = Inr (v, r')" for r v r'
    using that assms(1) by (auto simp: reader_return_def reader_take_iff elim!: reader_bindE)
qed

lemma le_value_simps [simp]: "le_value [] = 0" "le_value (b # bs) = unat b + 256 * le_value bs"
  by (simp_all add: le_value_def)

lemma length_le_bytes [simp]: "length (le_bytes k n) = k"
  by (induction k n rule: le_bytes.induct) simp_all

lemma le_value_bound: "le_value bs < 256 ^ length bs"
proof (induction bs)
  case (Cons b bs)
  then have "le_value bs + 1 \<le> 256 ^ length bs" by simp
  then have "256 * (le_value bs + 1) \<le> 256 ^ length (b # bs)" by simp
  then show ?case using unat_bound [of b] by simp
qed simp

lemma le_bytes_le_value [simp]: "le_bytes (length bs) (le_value bs) = bs"
proof (induction bs)
  case (Cons b bs)
  have "(unat b + 256 * le_value bs) mod 256 = unat b" "(unat b + 256 * le_value bs) div 256 = le_value bs"
    using unat_bound [of b] by simp_all
  then show ?case using Cons by simp
qed simp

lemma le_value_le_bytes: "n < 256 ^ k \<Longrightarrow> le_value (le_bytes k n) = n"
proof (induction k n rule: le_bytes.induct)
  case (2 k n)
  then have "n div 256 < 256 ^ k" by (simp add: div_less_iff_less_mult mult.commute)
  moreover have "unat (of_nat (n mod 256) :: u8) = n mod 256"
    by (rule unat_of_nat_small) simp
  ultimately show ?case using "2.IH" by simp
qed simp

text \<open>A word of \<open>8 * k\<close> bits in \<open>k\<close> bytes.\<close>

definition word_bytes :: "nat \<Rightarrow> 'a::len word \<Rightarrow> u8 list" where
  "word_bytes k w = le_bytes k (unat w)"

lemma word_codec:
  assumes "LENGTH('a::len) = 8 * k"
  shows "codec (reader_bind (reader_take field k) (\<lambda>bs. reader_return (of_nat (le_value bs) :: 'a word)))
           (word_bytes k) (\<lambda>_. True)"
proof (rule fixed_codec)
  have w: "2 ^ LENGTH('a) = (256::nat) ^ k" by (simp add: assms power_mult)
  show "True \<and> word_bytes k (of_nat (le_value bs) :: 'a word) = bs" if "length bs = k" for bs
    using unat_of_nat_small [where 'a = 'a, of "le_value bs"] le_value_bound [of bs]
      le_bytes_le_value [of bs] unfolding that w word_bytes_def by simp
  show "length (word_bytes k v) = k \<and> of_nat (le_value (word_bytes k v)) = v" if True for v :: "'a word"
    using unat_bound [of v] by (simp add: word_bytes_def le_value_le_bytes w)
qed

interpretation u8_codec: codec "reader_u8 field" "\<lambda>b. [b]" "\<lambda>_. True" for field
  unfolding reader_u8_def by (rule fixed_codec) (auto simp: length_Suc_conv)

interpretation u16_codec: codec "reader_u16 field" "word_bytes 2" "\<lambda>_. True" for field
  unfolding reader_u16_def by (rule word_codec) simp

interpretation u32_codec: codec "reader_u32 field" "word_bytes 4" "\<lambda>_. True" for field
  unfolding reader_u32_def by (rule word_codec) simp

interpretation u64_codec: codec "reader_u64 field" "word_bytes 8" "\<lambda>_. True" for field
  unfolding reader_u64_def by (rule word_codec) simp

definition int_bytes :: "nat \<Rightarrow> int \<Rightarrow> u8 list" where
  "int_bytes k i = le_bytes k (unsigned_of (8 * k) i)"

definition in_range :: "nat \<Rightarrow> int \<Rightarrow> bool" where
  "in_range w i \<longleftrightarrow> - (2 ^ (w - 1)) \<le> i \<and> i < 2 ^ (w - 1)"

lemma signed_round_trip:
  assumes "0 < w"
  shows "n < 2 ^ w \<Longrightarrow> in_range w (signed_of w n) \<and> unsigned_of w (signed_of w n) = n"
    and "in_range w i \<Longrightarrow> unsigned_of w i < 2 ^ w \<and> signed_of w (unsigned_of w i) = i"
proof -
  obtain v where w: "w = Suc v" using assms by (cases w) simp_all
  have n: "int n < 2 ^ k \<longleftrightarrow> n < 2 ^ k" for k by (metis of_nat_less_iff of_nat_numeral of_nat_power)
  show "in_range w (signed_of w n) \<and> unsigned_of w (signed_of w n) = n" if "n < 2 ^ w"
  proof -
    have lt: "int n < 2 ^ w" using that n [of w] by simp
    then have m: "int n mod 2 ^ w = int n" "(int n - 2 ^ w) mod 2 ^ w = int n" by simp_all
    show ?thesis
      using lt n [of v] m by (cases "n < 2 ^ v") (simp_all add: signed_of_def unsigned_of_def in_range_def w)
  qed
  show "unsigned_of w i < 2 ^ w \<and> signed_of w (unsigned_of w i) = i" if "in_range w i"
  proof (cases "0 \<le> i")
    case True
    then show ?thesis using that n [of v] n [of w]
      by (auto simp: signed_of_def unsigned_of_def in_range_def w mod_pos_pos_trivial nat_less_iff)
  next
    case False
    then have "i mod 2 ^ w = i + 2 ^ w"
      using that mod_pos_pos_trivial [of "i + 2 ^ w" "2 ^ w"] by (simp add: in_range_def w)
    then show ?thesis using that False
      by (auto simp: signed_of_def unsigned_of_def in_range_def w nat_less_iff)
  qed
qed

lemma int_codec:
  assumes "0 < k"
  shows "codec (reader_bind (reader_take field k) (\<lambda>bs. reader_return (signed_of (8 * k) (le_value bs))))
           (int_bytes k) (in_range (8 * k))"
proof (rule fixed_codec)
  have w: "2 ^ (8 * k) = (256::nat) ^ k" by (simp add: power_mult)
  show "in_range (8 * k) (signed_of (8 * k) (le_value bs))
      \<and> int_bytes k (signed_of (8 * k) (le_value bs)) = bs" if "length bs = k" for bs
    using le_value_bound [of bs] signed_round_trip(1) [of "8 * k" "le_value bs"] assms
      le_bytes_le_value [of bs] unfolding that w int_bytes_def by simp
  show "length (int_bytes k v) = k \<and> signed_of (8 * k) (le_value (int_bytes k v)) = v"
    if "in_range (8 * k) v" for v
    using signed_round_trip(2) [OF _ that] assms by (simp add: int_bytes_def le_value_le_bytes w)
qed

interpretation i64_codec: codec "reader_i64 field" "int_bytes 8" "in_range 64" for field
  using int_codec [of 8 field] unfolding reader_i64_def by simp

interpretation i128_codec: codec "reader_i128 field" "int_bytes 16" "in_range 128" for field
  using int_codec [of 16 field] unfolding reader_i128_def by simp

section \<open>Booleans and strings\<close>

definition bool_bytes :: "bool \<Rightarrow> u8 list" where
  "bool_bytes b = [if b then 1 else 0]"

interpretation bool_codec: codec "reader_boolean field" bool_bytes "\<lambda>_. True" for field
proof
  show "reads (reader_boolean field) v (bool_bytes v)" for v
  proof -
    have "reads (reader_boolean field) v ([if v then 1 else 0] @ [])"
      unfolding reader_boolean_def by (rule reads_bind [OF u8_codec.read_encode [OF TrueI]]) simp
    then show ?thesis by (simp add: bool_bytes_def)
  qed
  show "True \<and> rest r = bool_bytes v @ rest r' \<and> r' = advance (length (bool_bytes v)) r"
    if "reader_boolean field r = Inr (v, r')" for r v r'
    using that unfolding reader_boolean_def
    by (auto simp: reader_return_def reader_fail_def bool_bytes_def u8_codec.read_iff
        elim!: reader_bindE split: if_splits)
qed

definition string_bytes :: "string \<Rightarrow> u8 list" where
  "string_bytes s = word_bytes 4 (of_nat (length s) :: u32) @ map byte_of_char s"

definition valid_string :: "usize \<Rightarrow> string \<Rightarrow> bool" where
  "valid_string limit s \<longleftrightarrow> length s \<le> limit \<and> from_utf8 (map byte_of_char s) = Some s"

lemma from_utf8_Some: "from_utf8 bs = Some s \<Longrightarrow> bs = map byte_of_char s \<and> length s = length bs"
  by (auto simp: from_utf8_def comp_def split: if_splits)

lemma string_codec:
  assumes "limit < 2 ^ 32"
  shows "codec (reader_string field limit :: ('p, 'b, string) reader) string_bytes (valid_string limit)"
proof
  show "reads (reader_string field limit :: ('p, 'b, string) reader) s (string_bytes s)"
    if "valid_string limit s" for s
  proof -
    have n: "unat (of_nat (length s) :: u32) = length s" "length s \<le> limit"
      using that assms by (simp_all add: valid_string_def unat_of_nat_small)
    have "reads (reader_bind (reader_take field (length s))
        (\<lambda>bs. case from_utf8 bs of None \<Rightarrow> reader_fail (InvalidUtf8 field) | Some s \<Rightarrow> reader_return s))
        s (map byte_of_char s @ [])"
      using that by (intro reads_bind [OF reads_take]) (simp_all add: valid_string_def)
    then show ?thesis
      unfolding reader_string_def string_bytes_def
      by (intro reads_bind [OF u32_codec.read_encode]) (simp_all add: n Let_def leD)
  qed
  show "valid_string limit s \<and> rest r = string_bytes s @ rest r' \<and> r' = advance (length (string_bytes s)) r"
    if "(reader_string field limit :: ('p, 'b, string) reader) r = Inr (s, r')" for r s r'
  proof -
    from that [unfolded reader_string_def Let_def] obtain n r1 where
      n1: "(reader_u32 field :: ('p, 'b, u32) reader) r = Inr (n, r1)" and n2: "((if limit < unat n
          then reader_fail (LimitExceeded field limit (unat n))
          else reader_bind (reader_take field (unat n)) (\<lambda>bs. case from_utf8 bs of
            None \<Rightarrow> reader_fail (InvalidUtf8 field) | Some s \<Rightarrow> reader_return s))
          :: ('p, 'b, string) reader) r1 = Inr (s, r')"
      by (rule reader_bindE)
    from n2 have n: "unat n \<le> limit"
      and k: "(reader_bind (reader_take field (unat n)) (\<lambda>bs. case from_utf8 bs of
          None \<Rightarrow> reader_fail (InvalidUtf8 field) | Some s \<Rightarrow> reader_return s)
          :: ('p, 'b, string) reader) r1 = Inr (s, r')"
      by (simp_all add: reader_fail_def split: if_splits)
    from k obtain bs where
      bs: "(reader_take field (unat n) :: ('p, 'b, u8 list) reader) r1 = Inr (bs, r')" "from_utf8 bs = Some s"
      by (auto simp: reader_fail_def reader_return_def elim!: reader_bindE split: option.splits)
    have len: "length bs = unat n" and r1: "\<exists>post. rest r1 = bs @ post" "r' = advance (unat n) r1"
      using bs(1) by (simp_all add: reader_take_iff)
    have "bs = map byte_of_char s" "length s = unat n" using from_utf8_Some [OF bs(2)] len by simp_all
    then show ?thesis
      using n n1 bs(2) r1 by (auto simp: u32_codec.read_iff valid_string_def string_bytes_def)
  qed
qed

section \<open>Public keys\<close>

definition val58 :: "nat list \<Rightarrow> nat" where
  "val58 ds = foldr (\<lambda>d n. d + 58 * n) ds 0"

lemma val58_simps [simp]: "val58 [] = 0" "val58 (d # ds) = d + 58 * val58 ds"
  by (simp_all add: val58_def)

lemma val58_snoc_0 [simp]: "val58 (ds @ [0]) = val58 ds"
  by (induction ds) simp_all

lemma val58_carry_digits: "val58 (base58_carry_digits c) = c"
proof (induction c rule: base58_carry_digits.induct)
  case (1 c)
  then show ?case by (subst base58_carry_digits.simps) simp
qed

lemma val58_add_byte: "val58 (base58_add_byte c ds) = 256 * val58 ds + c"
proof (induction c ds rule: base58_add_byte.induct)
  case (2 c d ds)
  have "(d * 256 + c) mod 58 + 58 * (256 * val58 ds + (d * 256 + c) div 58)
      = 256 * (58 * val58 ds) + ((d * 256 + c) mod 58 + 58 * ((d * 256 + c) div 58))"
    by (simp add: algebra_simps)
  also have "\<dots> = 256 * (58 * val58 ds) + (d * 256 + c)" by simp
  finally show ?case using 2 by simp
qed (simp add: val58_carry_digits)

lemma carry_digits_small: "d \<in> set (base58_carry_digits c) \<Longrightarrow> d < 58"
proof (induction c rule: base58_carry_digits.induct)
  case (1 c)
  show ?case
  proof (cases "c = 0")
    case False
    then have "d = c mod 58 \<or> d \<in> set (base58_carry_digits (c div 58))"
      using "1.prems" by (subst (asm) base58_carry_digits.simps) simp
    then show ?thesis using "1.IH" [OF False] by auto
  qed (use "1.prems" in \<open>simp add: base58_carry_digits.simps\<close>)
qed

lemma add_byte_small: "d \<in> set (base58_add_byte c ds) \<Longrightarrow> d < 58"
  by (induction c ds rule: base58_add_byte.induct) (auto simp: carry_digits_small)

text \<open>No digit and no carry leaves the range of the integers the code uses.\<close>

lemma base58_digit_step_bounds:
  fixes d c :: nat
  assumes "d < 58" and "c < 256"
  shows "d * 256 + c < 2 ^ 32" and "(d * 256 + c) mod 58 < 2 ^ 8" and "(d * 256 + c) div 58 < 256"
  using assms mod_less_divisor [of 58 "d * 256 + c"] by (simp_all add: div_less_iff_less_mult)

definition be_value :: "u8 list \<Rightarrow> nat" where
  "be_value bs = le_value (rev bs)"

lemma le_value_snoc: "le_value (bs @ [b]) = le_value bs + unat b * 256 ^ length bs"
  by (induction bs) (simp_all add: algebra_simps)

lemma val58_digits:
  "val58 (base58_digits ds bs) = val58 ds * 256 ^ length bs + be_value bs"
  by (induction ds bs rule: base58_digits.induct)
     (simp_all add: val58_add_byte be_value_def le_value_snoc algebra_simps)

lemma base58_digits_small: "\<forall>d\<in>set ds. d < 58 \<Longrightarrow> d \<in> set (base58_digits ds bs) \<Longrightarrow> d < 58"
  by (induction ds bs rule: base58_digits.induct) (auto dest: add_byte_small)

lemma base58_trim_facts: "val58 (base58_trim ds) = val58 ds \<and> set (base58_trim ds) \<subseteq> set ds"
proof (induction ds rule: base58_trim.induct)
  case (1 ds)
  show ?case
  proof (cases "1 < length ds \<and> last ds = 0")
    case True
    then have "ds = butlast ds @ [0]" by (metis append_butlast_last_id length_0_conv not_less0)
    then have "val58 (butlast ds) = val58 ds" by (metis val58_snoc_0)
    moreover have "set (butlast ds) \<subseteq> set ds" by (auto dest: in_set_butlastD)
    ultimately show ?thesis using "1.IH" [OF True] True by (subst (1 2) base58_trim.simps) auto
  next
    case False
    then show ?thesis by (subst (1 2) base58_trim.simps) auto
  qed
qed

text \<open>The value of a base-58 numeral and the 32 bytes it stands for.\<close>

definition base58_index :: "char \<Rightarrow> nat" where
  "base58_index c = length (takeWhile (\<lambda>a. a \<noteq> c) ALPHABET)"

definition base58_value :: "string \<Rightarrow> nat" where
  "base58_value s = fold (\<lambda>c n. 58 * n + base58_index c) s 0"

definition pubkey_bytes :: "string \<Rightarrow> u8 list" where
  "pubkey_bytes s = rev (le_bytes 32 (base58_value s))"

definition valid_pubkey :: "string \<Rightarrow> bool" where
  "valid_pubkey s \<longleftrightarrow> encode_base58 (pubkey_bytes s) = s"

lemma length_takeWhile_nth:
  "distinct xs \<Longrightarrow> i < length xs \<Longrightarrow> length (takeWhile (\<lambda>a. a \<noteq> xs ! i) xs) = i"
proof (induction xs arbitrary: i)
  case (Cons x xs)
  then show ?case by (cases i) auto
qed simp

lemma base58_index_nth: "d < 58 \<Longrightarrow> base58_index (ALPHABET ! d) = d"
  unfolding base58_index_def by (rule length_takeWhile_nth) (simp_all add: ALPHABET_def)

lemma fold_digits:
  "\<forall>d\<in>set ds. d < 58 \<Longrightarrow>
     fold (\<lambda>c n. 58 * n + base58_index c) (map (\<lambda>d. ALPHABET ! d) (rev ds)) 0 = val58 ds"
  by (induction ds) (simp_all add: base58_index_nth)

lemma base58_index_one [simp]: "base58_index (CHR ''1'') = 0"
  by (simp add: base58_index_def ALPHABET_def)

lemma fold_ones: "((\<lambda>n. 58 * n) ^^ k) (0::nat) = 0"
  by (induction k) simp_all

lemma be_value_zeroes: "length (takeWhile (\<lambda>b. b = 0) bs) = length bs \<Longrightarrow> be_value bs = 0"
proof -
  assume "length (takeWhile (\<lambda>b. b = 0) bs) = length bs"
  then have "takeWhile (\<lambda>b. b = 0) bs = bs" by (metis takeWhile_eq_take take_all order_refl)
  then have "\<forall>b\<in>set (rev bs). b = 0" by (metis set_rev set_takeWhileD)
  moreover have "\<forall>b\<in>set cs. b = 0 \<Longrightarrow> le_value cs = 0" for cs by (induction cs) simp_all
  ultimately show ?thesis by (simp add: be_value_def)
qed

lemma base58_value_encode: "base58_value (encode_base58 bs) = be_value bs"
proof (cases "length (takeWhile (\<lambda>b. b = 0) bs) = length bs")
  case True
  then show ?thesis
    by (simp add: encode_base58_def base58_value_def fold_ones be_value_zeroes)
next
  case False
  let ?ds = "base58_trim (base58_digits [0] bs)"
  have "\<forall>d\<in>set ?ds. d < 58"
    using base58_trim_facts base58_digits_small [where ds = "[0]"] by fastforce
  then show ?thesis
    using False val58_digits [of "[0]" bs] base58_trim_facts
    by (simp add: encode_base58_def base58_value_def Let_def fold_ones fold_digits)
qed

lemma pubkey_bytes_encode: "length bs = 32 \<Longrightarrow> pubkey_bytes (encode_base58 bs) = bs"
  using le_bytes_le_value [of "rev bs"] by (simp add: pubkey_bytes_def base58_value_encode be_value_def)

interpretation pubkey_codec: codec "reader_pubkey field" pubkey_bytes valid_pubkey for field
  unfolding reader_pubkey_def
  by (rule fixed_codec) (simp_all add: valid_pubkey_def pubkey_bytes_encode, simp add: pubkey_bytes_def)

text \<open>
  The base-58 rendering of a public key loses nothing: the 32 bytes of a key are recovered from
  its text by reading the numeral, so that no two keys have the same text.
\<close>

theorem base58_injective:
  assumes "length bs = 32"
  shows "pubkey_bytes (encode_base58 bs) = bs
    \<and> (\<forall>cs. length cs = 32 \<longrightarrow> encode_base58 cs = encode_base58 bs \<longrightarrow> cs = bs)"
  using assms pubkey_bytes_encode by metis

theorem base58_injective_witness:
  "length (replicate 32 (7::u8)) = 32
   \<and> pubkey_bytes (encode_base58 (replicate 32 7)) = replicate 32 (7::u8)"
  using base58_injective [of "replicate 32 7"] by simp

end
