(* ===== verification/Pump_Decoder.thy ===== *)
theory Pump_Decoder
  imports Pump_Model Borsh
begin

text \<open>
  The strict decoder of \<open>crates/source-pump/src/decoder.rs\<close>: one reader per event layout, the
  dispatch on program and discriminator, and the entry points for inner instructions and
  \<open>Program data:\<close> logs. The base64 engine is a third-party crate: its decoder is the parameter
  \<open>base64_decode\<close>.

  Every layout is an interpretation of the interface \<open>codec\<close>, against an encoder that writes the
  fields of the pinned IDL in their order; from these the theorems follow that say exactly which
  byte strings decode, and to what.
\<close>

section \<open>Limits\<close>

definition PROGRAM_DATA_PREFIX :: string where
  "PROGRAM_DATA_PREFIX = ''Program data: ''"

definition MAX_NAME_BYTES :: usize where
  "MAX_NAME_BYTES = 256"

definition MAX_SYMBOL_BYTES :: usize where
  "MAX_SYMBOL_BYTES = 64"

definition MAX_URI_BYTES :: usize where
  "MAX_URI_BYTES = 4096"

definition MAX_INSTRUCTION_NAME_BYTES :: usize where
  "MAX_INSTRUCTION_NAME_BYTES = 96"

definition MAX_SHAREHOLDERS :: usize where
  "MAX_SHAREHOLDERS = 64"

lemmas limit_defs = MAX_NAME_BYTES_def MAX_SYMBOL_BYTES_def MAX_URI_BYTES_def
  MAX_INSTRUCTION_NAME_BYTES_def MAX_SHAREHOLDERS_def

type_synonym ('b, 'a) pump_reader = "(pump_program, 'b, 'a) reader"
type_synonym 'b pump_error = "(pump_program, 'b) decode_error"

section \<open>Layouts\<close>

fun reader_shareholder_loop :: "nat \<Rightarrow> ('b, pump_shareholder list) pump_reader" where
  "reader_shareholder_loop 0 = reader_return []"
| "reader_shareholder_loop (Suc n) =
     reader_bind (reader_pubkey ''shareholder.address'') (\<lambda>address'.
     reader_bind (reader_u16 ''shareholder.share_bps'') (\<lambda>share'.
     reader_bind (reader_shareholder_loop n) (\<lambda>others.
     reader_return (\<lparr>sh_address = address', sh_share_basis_points = share'\<rparr> # others))))"

definition reader_shareholders :: "('b, pump_shareholder list) pump_reader" where
  "reader_shareholders =
     reader_bind (reader_u32 ''shareholders'') (\<lambda>n.
       let count = unat n in
       if MAX_SHAREHOLDERS < count
       then reader_fail (LimitExceeded ''shareholders'' MAX_SHAREHOLDERS count)
       else reader_shareholder_loop count)"

definition decode_pump_create :: "('b, pump_create_event) pump_reader" where
  "decode_pump_create =
     reader_bind (reader_string ''name'' MAX_NAME_BYTES) (\<lambda>name'.
     reader_bind (reader_string ''symbol'' MAX_SYMBOL_BYTES) (\<lambda>symbol'.
     reader_bind (reader_string ''uri'' MAX_URI_BYTES) (\<lambda>uri'.
     reader_bind (reader_pubkey ''mint'') (\<lambda>mint'.
     reader_bind (reader_pubkey ''bonding_curve'') (\<lambda>bonding_curve'.
     reader_bind (reader_pubkey ''user'') (\<lambda>user'.
     reader_bind (reader_pubkey ''creator'') (\<lambda>creator'.
     reader_bind (reader_i64 ''timestamp'') (\<lambda>timestamp'.
     reader_bind (reader_u64 ''virtual_token_reserves'') (\<lambda>virtual_token_reserves'.
     reader_bind (reader_u64 ''virtual_sol_reserves'') (\<lambda>virtual_sol_reserves'.
     reader_bind (reader_u64 ''real_token_reserves'') (\<lambda>real_token_reserves'.
     reader_bind (reader_u64 ''token_total_supply'') (\<lambda>token_total_supply'.
     reader_bind (reader_pubkey ''token_program'') (\<lambda>token_program'.
     reader_bind (reader_boolean ''is_mayhem_mode'') (\<lambda>is_mayhem_mode'.
     reader_bind (reader_boolean ''is_cashback_enabled'') (\<lambda>is_cashback_enabled'.
     reader_bind (reader_pubkey ''quote_mint'') (\<lambda>quote_mint'.
     reader_bind (reader_u64 ''virtual_quote_reserves'') (\<lambda>virtual_quote_reserves'.
     reader_return \<lparr>create_name = name', create_symbol = symbol', create_uri = uri', create_mint = mint',
       create_bonding_curve = bonding_curve', create_user = user', create_creator = creator',
       create_timestamp = timestamp', create_virtual_token_reserves = virtual_token_reserves',
       create_virtual_sol_reserves = virtual_sol_reserves',
       create_real_token_reserves = real_token_reserves',
       create_token_total_supply = token_total_supply', create_token_program = token_program',
       create_is_mayhem_mode = is_mayhem_mode', create_is_cashback_enabled = is_cashback_enabled',
       create_quote_mint = quote_mint', create_virtual_quote_reserves = virtual_quote_reserves'\<rparr>)))))))))))))))))"

definition decode_pump_trade :: "('b, pump_trade_event) pump_reader" where
  "decode_pump_trade =
     reader_bind (reader_pubkey ''mint'') (\<lambda>mint'.
     reader_bind (reader_u64 ''sol_amount'') (\<lambda>legacy_sol_amount'.
     reader_bind (reader_u64 ''token_amount'') (\<lambda>token_amount'.
     reader_bind (reader_boolean ''is_buy'') (\<lambda>direction'.
     reader_bind (reader_pubkey ''user'') (\<lambda>user'.
     reader_bind (reader_i64 ''timestamp'') (\<lambda>timestamp'.
     reader_bind (reader_u64 ''virtual_sol_reserves'') (\<lambda>virtual_sol_reserves'.
     reader_bind (reader_u64 ''virtual_token_reserves'') (\<lambda>virtual_token_reserves'.
     reader_bind (reader_u64 ''real_sol_reserves'') (\<lambda>real_sol_reserves'.
     reader_bind (reader_u64 ''real_token_reserves'') (\<lambda>real_token_reserves'.
     reader_bind (reader_pubkey ''fee_recipient'') (\<lambda>fee_recipient'.
     reader_bind (reader_u64 ''fee_basis_points'') (\<lambda>fee_basis_points'.
     reader_bind (reader_u64 ''fee'') (\<lambda>fee_amount'.
     reader_bind (reader_pubkey ''creator'') (\<lambda>creator'.
     reader_bind (reader_u64 ''creator_fee_basis_points'') (\<lambda>creator_fee_basis_points'.
     reader_bind (reader_u64 ''creator_fee'') (\<lambda>creator_fee_amount'.
     reader_bind (reader_boolean ''track_volume'') (\<lambda>track_volume'.
     reader_bind (reader_u64 ''total_unclaimed_tokens'') (\<lambda>total_unclaimed_tokens'.
     reader_bind (reader_u64 ''total_claimed_tokens'') (\<lambda>total_claimed_tokens'.
     reader_bind (reader_u64 ''current_sol_volume'') (\<lambda>current_sol_volume'.
     reader_bind (reader_i64 ''last_update_timestamp'') (\<lambda>last_update_timestamp'.
     reader_bind (reader_string ''ix_name'' MAX_INSTRUCTION_NAME_BYTES) (\<lambda>instruction_name'.
     reader_bind (reader_boolean ''mayhem_mode'') (\<lambda>mayhem_mode'.
     reader_bind (reader_u64 ''cashback_fee_basis_points'') (\<lambda>cashback_fee_basis_points'.
     reader_bind (reader_u64 ''cashback'') (\<lambda>cashback_amount'.
     reader_bind (reader_u64 ''buyback_fee_basis_points'') (\<lambda>buyback_fee_basis_points'.
     reader_bind (reader_u64 ''buyback_fee'') (\<lambda>buyback_fee_amount'.
     reader_bind (reader_shareholders) (\<lambda>shareholders'.
     reader_bind (reader_pubkey ''quote_mint'') (\<lambda>quote_mint'.
     reader_bind (reader_u64 ''quote_amount'') (\<lambda>quote_amount'.
     reader_bind (reader_u64 ''virtual_quote_reserves'') (\<lambda>virtual_quote_reserves'.
     reader_bind (reader_u64 ''real_quote_reserves'') (\<lambda>real_quote_reserves'.
     reader_return \<lparr>trade_mint = mint', trade_legacy_sol_amount = legacy_sol_amount',
       trade_token_amount = token_amount',
       trade_direction = (if direction' then DirectionBuy else DirectionSell), trade_user = user',
       trade_timestamp = timestamp', trade_virtual_sol_reserves = virtual_sol_reserves',
       trade_virtual_token_reserves = virtual_token_reserves',
       trade_real_sol_reserves = real_sol_reserves',
       trade_real_token_reserves = real_token_reserves', trade_fee_recipient = fee_recipient',
       trade_fee_basis_points = fee_basis_points', trade_fee_amount = fee_amount',
       trade_creator = creator', trade_creator_fee_basis_points = creator_fee_basis_points',
       trade_creator_fee_amount = creator_fee_amount', trade_track_volume = track_volume',
       trade_total_unclaimed_tokens = total_unclaimed_tokens',
       trade_total_claimed_tokens = total_claimed_tokens',
       trade_current_sol_volume = current_sol_volume',
       trade_last_update_timestamp = last_update_timestamp',
       trade_instruction_name = instruction_name', trade_mayhem_mode = mayhem_mode',
       trade_cashback_fee_basis_points = cashback_fee_basis_points',
       trade_cashback_amount = cashback_amount',
       trade_buyback_fee_basis_points = buyback_fee_basis_points',
       trade_buyback_fee_amount = buyback_fee_amount', trade_shareholders = shareholders',
       trade_quote_mint = quote_mint', trade_quote_amount = quote_amount',
       trade_virtual_quote_reserves = virtual_quote_reserves',
       trade_real_quote_reserves = real_quote_reserves'\<rparr>))))))))))))))))))))))))))))))))"

definition decode_pump_complete :: "('b, pump_complete_event) pump_reader" where
  "decode_pump_complete =
     reader_bind (reader_pubkey ''user'') (\<lambda>user'.
     reader_bind (reader_pubkey ''mint'') (\<lambda>mint'.
     reader_bind (reader_pubkey ''bonding_curve'') (\<lambda>bonding_curve'.
     reader_bind (reader_i64 ''timestamp'') (\<lambda>timestamp'.
     reader_bind (reader_pubkey ''quote_mint'') (\<lambda>quote_mint'.
     reader_return \<lparr>complete_user = user', complete_mint = mint', complete_bonding_curve = bonding_curve',
       complete_timestamp = timestamp', complete_quote_mint = quote_mint'\<rparr>)))))"

definition decode_pump_migration :: "('b, pump_migration_event) pump_reader" where
  "decode_pump_migration =
     reader_bind (reader_pubkey ''user'') (\<lambda>user'.
     reader_bind (reader_pubkey ''mint'') (\<lambda>mint'.
     reader_bind (reader_u64 ''mint_amount'') (\<lambda>mint_amount'.
     reader_bind (reader_u64 ''sol_amount'') (\<lambda>legacy_sol_amount'.
     reader_bind (reader_u64 ''pool_migration_fee'') (\<lambda>pool_migration_fee'.
     reader_bind (reader_pubkey ''bonding_curve'') (\<lambda>bonding_curve'.
     reader_bind (reader_i64 ''timestamp'') (\<lambda>timestamp'.
     reader_bind (reader_pubkey ''pool'') (\<lambda>pool'.
     reader_bind (reader_pubkey ''quote_mint'') (\<lambda>quote_mint'.
     reader_return \<lparr>migration_user = user', migration_mint = mint', migration_mint_amount = mint_amount',
       migration_legacy_sol_amount = legacy_sol_amount',
       migration_pool_migration_fee = pool_migration_fee', migration_bonding_curve = bonding_curve',
       migration_timestamp = timestamp', migration_pool = pool', migration_quote_mint = quote_mint'\<rparr>)))))))))"

definition decode_pump_swap_create_pool :: "('b, pump_swap_create_pool_event) pump_reader" where
  "decode_pump_swap_create_pool =
     reader_bind (reader_i64 ''timestamp'') (\<lambda>timestamp'.
     reader_bind (reader_u16 ''index'') (\<lambda>index'.
     reader_bind (reader_pubkey ''creator'') (\<lambda>creator'.
     reader_bind (reader_pubkey ''base_mint'') (\<lambda>base_mint'.
     reader_bind (reader_pubkey ''quote_mint'') (\<lambda>quote_mint'.
     reader_bind (reader_u8 ''base_mint_decimals'') (\<lambda>base_mint_decimals'.
     reader_bind (reader_u8 ''quote_mint_decimals'') (\<lambda>quote_mint_decimals'.
     reader_bind (reader_u64 ''base_amount_in'') (\<lambda>base_amount_in'.
     reader_bind (reader_u64 ''quote_amount_in'') (\<lambda>quote_amount_in'.
     reader_bind (reader_u64 ''pool_base_amount'') (\<lambda>pool_base_amount'.
     reader_bind (reader_u64 ''pool_quote_amount'') (\<lambda>pool_quote_amount'.
     reader_bind (reader_u64 ''minimum_liquidity'') (\<lambda>minimum_liquidity'.
     reader_bind (reader_u64 ''initial_liquidity'') (\<lambda>initial_liquidity'.
     reader_bind (reader_u64 ''lp_token_amount_out'') (\<lambda>lp_token_amount_out'.
     reader_bind (reader_u8 ''pool_bump'') (\<lambda>pool_bump'.
     reader_bind (reader_pubkey ''pool'') (\<lambda>pool'.
     reader_bind (reader_pubkey ''lp_mint'') (\<lambda>lp_mint'.
     reader_bind (reader_pubkey ''user_base_token_account'') (\<lambda>user_base_token_account'.
     reader_bind (reader_pubkey ''user_quote_token_account'') (\<lambda>user_quote_token_account'.
     reader_bind (reader_pubkey ''coin_creator'') (\<lambda>coin_creator'.
     reader_bind (reader_boolean ''is_mayhem_mode'') (\<lambda>is_mayhem_mode'.
     reader_return \<lparr>pool_timestamp = timestamp', pool_index = index', pool_creator = creator',
       pool_base_mint = base_mint', pool_quote_mint = quote_mint',
       pool_base_mint_decimals = base_mint_decimals',
       pool_quote_mint_decimals = quote_mint_decimals', pool_base_amount_in = base_amount_in',
       pool_quote_amount_in = quote_amount_in', pool_pool_base_amount = pool_base_amount',
       pool_pool_quote_amount = pool_quote_amount', pool_minimum_liquidity = minimum_liquidity',
       pool_initial_liquidity = initial_liquidity', pool_lp_token_amount_out = lp_token_amount_out',
       pool_pool_bump = pool_bump', pool_pool = pool', pool_lp_mint = lp_mint',
       pool_user_base_token_account = user_base_token_account',
       pool_user_quote_token_account = user_quote_token_account', pool_coin_creator = coin_creator',
       pool_is_mayhem_mode = is_mayhem_mode'\<rparr>)))))))))))))))))))))"

definition decode_pump_swap_buy :: "('b, pump_swap_buy_event) pump_reader" where
  "decode_pump_swap_buy =
     reader_bind (reader_i64 ''timestamp'') (\<lambda>timestamp'.
     reader_bind (reader_u64 ''base_amount_out'') (\<lambda>base_amount_out'.
     reader_bind (reader_u64 ''max_quote_amount_in'') (\<lambda>max_quote_amount_in'.
     reader_bind (reader_u64 ''user_base_token_reserves'') (\<lambda>user_base_token_reserves'.
     reader_bind (reader_u64 ''user_quote_token_reserves'') (\<lambda>user_quote_token_reserves'.
     reader_bind (reader_u64 ''pool_base_token_reserves'') (\<lambda>pool_base_token_reserves'.
     reader_bind (reader_u64 ''pool_quote_token_reserves'') (\<lambda>pool_quote_token_reserves'.
     reader_bind (reader_u64 ''quote_amount_in'') (\<lambda>quote_amount_in'.
     reader_bind (reader_u64 ''lp_fee_basis_points'') (\<lambda>lp_fee_basis_points'.
     reader_bind (reader_u64 ''lp_fee'') (\<lambda>lp_fee_amount'.
     reader_bind (reader_u64 ''protocol_fee_basis_points'') (\<lambda>protocol_fee_basis_points'.
     reader_bind (reader_u64 ''protocol_fee'') (\<lambda>protocol_fee_amount'.
     reader_bind (reader_u64 ''quote_amount_in_with_lp_fee'') (\<lambda>quote_amount_in_with_lp_fee'.
     reader_bind (reader_u64 ''user_quote_amount_in'') (\<lambda>user_quote_amount_in'.
     reader_bind (reader_pubkey ''pool'') (\<lambda>pool'.
     reader_bind (reader_pubkey ''user'') (\<lambda>user'.
     reader_bind (reader_pubkey ''user_base_token_account'') (\<lambda>user_base_token_account'.
     reader_bind (reader_pubkey ''user_quote_token_account'') (\<lambda>user_quote_token_account'.
     reader_bind (reader_pubkey ''protocol_fee_recipient'') (\<lambda>protocol_fee_recipient'.
     reader_bind (reader_pubkey ''protocol_fee_recipient_token_account'') (\<lambda>protocol_fee_recipient_token_account'.
     reader_bind (reader_pubkey ''coin_creator'') (\<lambda>coin_creator'.
     reader_bind (reader_u64 ''coin_creator_fee_basis_points'') (\<lambda>coin_creator_fee_basis_points'.
     reader_bind (reader_u64 ''coin_creator_fee'') (\<lambda>coin_creator_fee_amount'.
     reader_bind (reader_boolean ''track_volume'') (\<lambda>track_volume'.
     reader_bind (reader_u64 ''total_unclaimed_tokens'') (\<lambda>total_unclaimed_tokens'.
     reader_bind (reader_u64 ''total_claimed_tokens'') (\<lambda>total_claimed_tokens'.
     reader_bind (reader_u64 ''current_sol_volume'') (\<lambda>current_sol_volume'.
     reader_bind (reader_i64 ''last_update_timestamp'') (\<lambda>last_update_timestamp'.
     reader_bind (reader_u64 ''min_base_amount_out'') (\<lambda>min_base_amount_out'.
     reader_bind (reader_string ''ix_name'' MAX_INSTRUCTION_NAME_BYTES) (\<lambda>instruction_name'.
     reader_bind (reader_u64 ''cashback_fee_basis_points'') (\<lambda>cashback_fee_basis_points'.
     reader_bind (reader_u64 ''cashback'') (\<lambda>cashback_amount'.
     reader_bind (reader_u64 ''buyback_fee_basis_points'') (\<lambda>buyback_fee_basis_points'.
     reader_bind (reader_u64 ''buyback_fee'') (\<lambda>buyback_fee_amount'.
     reader_bind (reader_i128 ''virtual_quote_reserves'') (\<lambda>virtual_quote_reserves'.
     reader_bind (reader_boolean ''can_boost'') (\<lambda>can_boost'.
     reader_bind (reader_u64 ''base_supply'') (\<lambda>base_supply'.
     reader_return \<lparr>buy_timestamp = timestamp', buy_base_amount_out = base_amount_out',
       buy_max_quote_amount_in = max_quote_amount_in',
       buy_user_base_token_reserves = user_base_token_reserves',
       buy_user_quote_token_reserves = user_quote_token_reserves',
       buy_pool_base_token_reserves = pool_base_token_reserves',
       buy_pool_quote_token_reserves = pool_quote_token_reserves',
       buy_quote_amount_in = quote_amount_in', buy_lp_fee_basis_points = lp_fee_basis_points',
       buy_lp_fee_amount = lp_fee_amount',
       buy_protocol_fee_basis_points = protocol_fee_basis_points',
       buy_protocol_fee_amount = protocol_fee_amount',
       buy_quote_amount_in_with_lp_fee = quote_amount_in_with_lp_fee',
       buy_user_quote_amount_in = user_quote_amount_in', buy_pool = pool', buy_user = user',
       buy_user_base_token_account = user_base_token_account',
       buy_user_quote_token_account = user_quote_token_account',
       buy_protocol_fee_recipient = protocol_fee_recipient',
       buy_protocol_fee_recipient_token_account = protocol_fee_recipient_token_account',
       buy_coin_creator = coin_creator',
       buy_coin_creator_fee_basis_points = coin_creator_fee_basis_points',
       buy_coin_creator_fee_amount = coin_creator_fee_amount', buy_track_volume = track_volume',
       buy_total_unclaimed_tokens = total_unclaimed_tokens',
       buy_total_claimed_tokens = total_claimed_tokens',
       buy_current_sol_volume = current_sol_volume',
       buy_last_update_timestamp = last_update_timestamp',
       buy_min_base_amount_out = min_base_amount_out', buy_instruction_name = instruction_name',
       buy_cashback_fee_basis_points = cashback_fee_basis_points',
       buy_cashback_amount = cashback_amount',
       buy_buyback_fee_basis_points = buyback_fee_basis_points',
       buy_buyback_fee_amount = buyback_fee_amount',
       buy_virtual_quote_reserves = virtual_quote_reserves', buy_can_boost = can_boost',
       buy_base_supply = base_supply'\<rparr>)))))))))))))))))))))))))))))))))))))"

definition decode_pump_swap_sell :: "('b, pump_swap_sell_event) pump_reader" where
  "decode_pump_swap_sell =
     reader_bind (reader_i64 ''timestamp'') (\<lambda>timestamp'.
     reader_bind (reader_u64 ''base_amount_in'') (\<lambda>base_amount_in'.
     reader_bind (reader_u64 ''min_quote_amount_out'') (\<lambda>min_quote_amount_out'.
     reader_bind (reader_u64 ''user_base_token_reserves'') (\<lambda>user_base_token_reserves'.
     reader_bind (reader_u64 ''user_quote_token_reserves'') (\<lambda>user_quote_token_reserves'.
     reader_bind (reader_u64 ''pool_base_token_reserves'') (\<lambda>pool_base_token_reserves'.
     reader_bind (reader_u64 ''pool_quote_token_reserves'') (\<lambda>pool_quote_token_reserves'.
     reader_bind (reader_u64 ''quote_amount_out'') (\<lambda>quote_amount_out'.
     reader_bind (reader_u64 ''lp_fee_basis_points'') (\<lambda>lp_fee_basis_points'.
     reader_bind (reader_u64 ''lp_fee'') (\<lambda>lp_fee_amount'.
     reader_bind (reader_u64 ''protocol_fee_basis_points'') (\<lambda>protocol_fee_basis_points'.
     reader_bind (reader_u64 ''protocol_fee'') (\<lambda>protocol_fee_amount'.
     reader_bind (reader_u64 ''quote_amount_out_without_lp_fee'') (\<lambda>quote_amount_out_without_lp_fee'.
     reader_bind (reader_u64 ''user_quote_amount_out'') (\<lambda>user_quote_amount_out'.
     reader_bind (reader_pubkey ''pool'') (\<lambda>pool'.
     reader_bind (reader_pubkey ''user'') (\<lambda>user'.
     reader_bind (reader_pubkey ''user_base_token_account'') (\<lambda>user_base_token_account'.
     reader_bind (reader_pubkey ''user_quote_token_account'') (\<lambda>user_quote_token_account'.
     reader_bind (reader_pubkey ''protocol_fee_recipient'') (\<lambda>protocol_fee_recipient'.
     reader_bind (reader_pubkey ''protocol_fee_recipient_token_account'') (\<lambda>protocol_fee_recipient_token_account'.
     reader_bind (reader_pubkey ''coin_creator'') (\<lambda>coin_creator'.
     reader_bind (reader_u64 ''coin_creator_fee_basis_points'') (\<lambda>coin_creator_fee_basis_points'.
     reader_bind (reader_u64 ''coin_creator_fee'') (\<lambda>coin_creator_fee_amount'.
     reader_bind (reader_u64 ''cashback_fee_basis_points'') (\<lambda>cashback_fee_basis_points'.
     reader_bind (reader_u64 ''cashback'') (\<lambda>cashback_amount'.
     reader_bind (reader_u64 ''buyback_fee_basis_points'') (\<lambda>buyback_fee_basis_points'.
     reader_bind (reader_u64 ''buyback_fee'') (\<lambda>buyback_fee_amount'.
     reader_bind (reader_i128 ''virtual_quote_reserves'') (\<lambda>virtual_quote_reserves'.
     reader_bind (reader_boolean ''can_boost'') (\<lambda>can_boost'.
     reader_bind (reader_u64 ''base_supply'') (\<lambda>base_supply'.
     reader_return \<lparr>sell_timestamp = timestamp', sell_base_amount_in = base_amount_in',
       sell_min_quote_amount_out = min_quote_amount_out',
       sell_user_base_token_reserves = user_base_token_reserves',
       sell_user_quote_token_reserves = user_quote_token_reserves',
       sell_pool_base_token_reserves = pool_base_token_reserves',
       sell_pool_quote_token_reserves = pool_quote_token_reserves',
       sell_quote_amount_out = quote_amount_out', sell_lp_fee_basis_points = lp_fee_basis_points',
       sell_lp_fee_amount = lp_fee_amount',
       sell_protocol_fee_basis_points = protocol_fee_basis_points',
       sell_protocol_fee_amount = protocol_fee_amount',
       sell_quote_amount_out_without_lp_fee = quote_amount_out_without_lp_fee',
       sell_user_quote_amount_out = user_quote_amount_out', sell_pool = pool', sell_user = user',
       sell_user_base_token_account = user_base_token_account',
       sell_user_quote_token_account = user_quote_token_account',
       sell_protocol_fee_recipient = protocol_fee_recipient',
       sell_protocol_fee_recipient_token_account = protocol_fee_recipient_token_account',
       sell_coin_creator = coin_creator',
       sell_coin_creator_fee_basis_points = coin_creator_fee_basis_points',
       sell_coin_creator_fee_amount = coin_creator_fee_amount',
       sell_cashback_fee_basis_points = cashback_fee_basis_points',
       sell_cashback_amount = cashback_amount',
       sell_buyback_fee_basis_points = buyback_fee_basis_points',
       sell_buyback_fee_amount = buyback_fee_amount',
       sell_virtual_quote_reserves = virtual_quote_reserves', sell_can_boost = can_boost',
       sell_base_supply = base_supply'\<rparr>))))))))))))))))))))))))))))))"

definition decode_pump_swap_deposit :: "('b, pump_swap_deposit_event) pump_reader" where
  "decode_pump_swap_deposit =
     reader_bind (reader_i64 ''timestamp'') (\<lambda>timestamp'.
     reader_bind (reader_u64 ''lp_token_amount_out'') (\<lambda>lp_token_amount_out'.
     reader_bind (reader_u64 ''max_base_amount_in'') (\<lambda>max_base_amount_in'.
     reader_bind (reader_u64 ''max_quote_amount_in'') (\<lambda>max_quote_amount_in'.
     reader_bind (reader_u64 ''user_base_token_reserves'') (\<lambda>user_base_token_reserves'.
     reader_bind (reader_u64 ''user_quote_token_reserves'') (\<lambda>user_quote_token_reserves'.
     reader_bind (reader_u64 ''pool_base_token_reserves'') (\<lambda>pool_base_token_reserves'.
     reader_bind (reader_u64 ''pool_quote_token_reserves'') (\<lambda>pool_quote_token_reserves'.
     reader_bind (reader_u64 ''base_amount_in'') (\<lambda>base_amount_in'.
     reader_bind (reader_u64 ''quote_amount_in'') (\<lambda>quote_amount_in'.
     reader_bind (reader_u64 ''lp_mint_supply'') (\<lambda>lp_mint_supply'.
     reader_bind (reader_pubkey ''pool'') (\<lambda>pool'.
     reader_bind (reader_pubkey ''user'') (\<lambda>user'.
     reader_bind (reader_pubkey ''user_base_token_account'') (\<lambda>user_base_token_account'.
     reader_bind (reader_pubkey ''user_quote_token_account'') (\<lambda>user_quote_token_account'.
     reader_bind (reader_pubkey ''user_pool_token_account'') (\<lambda>user_pool_token_account'.
     reader_return \<lparr>deposit_timestamp = timestamp', deposit_lp_token_amount_out = lp_token_amount_out',
       deposit_max_base_amount_in = max_base_amount_in',
       deposit_max_quote_amount_in = max_quote_amount_in',
       deposit_user_base_token_reserves = user_base_token_reserves',
       deposit_user_quote_token_reserves = user_quote_token_reserves',
       deposit_pool_base_token_reserves = pool_base_token_reserves',
       deposit_pool_quote_token_reserves = pool_quote_token_reserves',
       deposit_base_amount_in = base_amount_in', deposit_quote_amount_in = quote_amount_in',
       deposit_lp_mint_supply = lp_mint_supply', deposit_pool = pool', deposit_user = user',
       deposit_user_base_token_account = user_base_token_account',
       deposit_user_quote_token_account = user_quote_token_account',
       deposit_user_pool_token_account = user_pool_token_account'\<rparr>))))))))))))))))"

definition decode_pump_swap_withdraw :: "('b, pump_swap_withdraw_event) pump_reader" where
  "decode_pump_swap_withdraw =
     reader_bind (reader_i64 ''timestamp'') (\<lambda>timestamp'.
     reader_bind (reader_u64 ''lp_token_amount_in'') (\<lambda>lp_token_amount_in'.
     reader_bind (reader_u64 ''min_base_amount_out'') (\<lambda>min_base_amount_out'.
     reader_bind (reader_u64 ''min_quote_amount_out'') (\<lambda>min_quote_amount_out'.
     reader_bind (reader_u64 ''user_base_token_reserves'') (\<lambda>user_base_token_reserves'.
     reader_bind (reader_u64 ''user_quote_token_reserves'') (\<lambda>user_quote_token_reserves'.
     reader_bind (reader_u64 ''pool_base_token_reserves'') (\<lambda>pool_base_token_reserves'.
     reader_bind (reader_u64 ''pool_quote_token_reserves'') (\<lambda>pool_quote_token_reserves'.
     reader_bind (reader_u64 ''base_amount_out'') (\<lambda>base_amount_out'.
     reader_bind (reader_u64 ''quote_amount_out'') (\<lambda>quote_amount_out'.
     reader_bind (reader_u64 ''lp_mint_supply'') (\<lambda>lp_mint_supply'.
     reader_bind (reader_pubkey ''pool'') (\<lambda>pool'.
     reader_bind (reader_pubkey ''user'') (\<lambda>user'.
     reader_bind (reader_pubkey ''user_base_token_account'') (\<lambda>user_base_token_account'.
     reader_bind (reader_pubkey ''user_quote_token_account'') (\<lambda>user_quote_token_account'.
     reader_bind (reader_pubkey ''user_pool_token_account'') (\<lambda>user_pool_token_account'.
     reader_return \<lparr>withdraw_timestamp = timestamp', withdraw_lp_token_amount_in = lp_token_amount_in',
       withdraw_min_base_amount_out = min_base_amount_out',
       withdraw_min_quote_amount_out = min_quote_amount_out',
       withdraw_user_base_token_reserves = user_base_token_reserves',
       withdraw_user_quote_token_reserves = user_quote_token_reserves',
       withdraw_pool_base_token_reserves = pool_base_token_reserves',
       withdraw_pool_quote_token_reserves = pool_quote_token_reserves',
       withdraw_base_amount_out = base_amount_out', withdraw_quote_amount_out = quote_amount_out',
       withdraw_lp_mint_supply = lp_mint_supply', withdraw_pool = pool', withdraw_user = user',
       withdraw_user_base_token_account = user_base_token_account',
       withdraw_user_quote_token_account = user_quote_token_account',
       withdraw_user_pool_token_account = user_pool_token_account'\<rparr>))))))))))))))))"

section \<open>Decoding one event\<close>

definition is_anchor_event_cpi :: "u8 list \<Rightarrow> bool" where
  "is_anchor_event_cpi data \<longleftrightarrow> take 8 data = ANCHOR_EVENT_CPI_DISCRIMINATOR"

definition strip_cpi_prefix :: "u8 list \<Rightarrow> u8 list" where
  "strip_cpi_prefix data = (if is_anchor_event_cpi data then drop 8 data else data)"

definition reader_map :: "('a \<Rightarrow> 'c) \<Rightarrow> ('p, 'b, 'a) reader \<Rightarrow> ('p, 'b, 'c) reader" where
  "reader_map h f = reader_bind f (\<lambda>x. reader_return (h x))"

definition event_reader :: "pump_program \<Rightarrow> u8 list \<Rightarrow> ('b, pump_event) pump_reader" where
  "event_reader program discriminator =
     (case program of
        Pump \<Rightarrow>
          if discriminator = CREATE_EVENT_DISCRIMINATOR
          then reader_map EventCreate decode_pump_create
          else if discriminator = TRADE_EVENT_DISCRIMINATOR
          then reader_map EventTrade decode_pump_trade
          else if discriminator = COMPLETE_EVENT_DISCRIMINATOR
          then reader_map EventComplete decode_pump_complete
          else if discriminator = COMPLETE_PUMP_AMM_MIGRATION_EVENT_DISCRIMINATOR
          then reader_map EventCompletePumpAmmMigration decode_pump_migration
          else reader_fail (UnknownDiscriminator program discriminator)
      | PumpSwap \<Rightarrow>
          if discriminator = CREATE_POOL_EVENT_DISCRIMINATOR
          then reader_map EventPumpSwapCreatePool decode_pump_swap_create_pool
          else if discriminator = PUMP_SWAP_BUY_EVENT_DISCRIMINATOR
          then reader_map EventPumpSwapBuy decode_pump_swap_buy
          else if discriminator = PUMP_SWAP_SELL_EVENT_DISCRIMINATOR
          then reader_map EventPumpSwapSell decode_pump_swap_sell
          else if discriminator = PUMP_SWAP_DEPOSIT_EVENT_DISCRIMINATOR
          then reader_map EventPumpSwapDeposit decode_pump_swap_deposit
          else if discriminator = PUMP_SWAP_WITHDRAW_EVENT_DISCRIMINATOR
          then reader_map EventPumpSwapWithdraw decode_pump_swap_withdraw
          else reader_fail (UnknownDiscriminator program discriminator))"

definition decode_anchor_event ::
    "string \<Rightarrow> chain_coordinate \<Rightarrow> u8 list \<Rightarrow> ('b pump_error, decoded_pump_event) result" where
  "decode_anchor_event program_id coordinate data =
     result_bind (ok_or (UnsupportedProgram program_id) (supported_program program_id)) (\<lambda>program.
     if signature coordinate = [] then Inl EmptySignature
     else
       let event_data = strip_cpi_prefix data in
       if length event_data < 8 then Inl MissingDiscriminator
       else
         result_bind (event_reader program (take 8 event_data) (reader_new (drop 8 event_data)))
           (\<lambda>(event, reader).
         result_bind (reader_finish reader) (\<lambda>_.
         Inr \<lparr>decoded_program = program, decoded_coordinate = coordinate, decoded_event = event\<rparr>)))"

definition decode_cpi_event ::
    "string \<Rightarrow> chain_coordinate \<Rightarrow> u8 list \<Rightarrow> ('b pump_error, decoded_pump_event) result" where
  "decode_cpi_event program_id coordinate data =
     (if \<not> is_anchor_event_cpi data then Inl MissingCpiDiscriminator
      else decode_anchor_event program_id coordinate data)"

section \<open>Decoding logs and batches\<close>

definition decode_program_data_bytes ::
    "(string \<Rightarrow> ('b, u8 list) result) \<Rightarrow> string \<Rightarrow> ('b pump_error, u8 list) result" where
  "decode_program_data_bytes base64_decode log =
     result_bind (ok_or InvalidProgramDataLog (strip_prefix PROGRAM_DATA_PREFIX log)) (\<lambda>encoded.
     map_err InvalidBase64 (base64_decode encoded))"

definition decode_program_data_log ::
    "(string \<Rightarrow> ('b, u8 list) result) \<Rightarrow> string \<Rightarrow> chain_coordinate \<Rightarrow> string
      \<Rightarrow> ('b pump_error, decoded_pump_event) result" where
  "decode_program_data_log base64_decode program_id coordinate log =
     result_bind (decode_program_data_bytes base64_decode log)
       (decode_anchor_event program_id coordinate)"

definition event_coordinate :: "u64 \<Rightarrow> string \<Rightarrow> u16 \<Rightarrow> usize \<Rightarrow> chain_coordinate" where
  "event_coordinate slot' sig instruction event =
     \<lparr>slot = slot', transaction_index = None, signature = sig, instruction_index = instruction,
      event_index = of_nat event\<rparr>"

fun decode_events_from ::
    "usize \<Rightarrow> string \<Rightarrow> u64 \<Rightarrow> string \<Rightarrow> u16 \<Rightarrow> u8 list list
      \<Rightarrow> ('b pump_error, decoded_pump_event list) result" where
  "decode_events_from event program_id slot' sig instruction [] = Inr []"
| "decode_events_from event program_id slot' sig instruction (payload' # rest') =
     (if 2 ^ 16 \<le> event then Inl (TooManyEvents 65535)
      else
        result_bind (decode_anchor_event program_id (event_coordinate slot' sig instruction event)
            payload') (\<lambda>d.
        result_bind (decode_events_from (event + 1) program_id slot' sig instruction rest') (\<lambda>ds.
        Inr (d # ds))))"

definition decode_instruction_events ::
    "string \<Rightarrow> u64 \<Rightarrow> string \<Rightarrow> u16 \<Rightarrow> u8 list list
      \<Rightarrow> ('b pump_error, decoded_pump_event list) result" where
  "decode_instruction_events program_id slot' sig instruction payloads =
     decode_events_from 0 program_id slot' sig instruction payloads"

fun decode_logs_from ::
    "(string \<Rightarrow> ('b, u8 list) result) \<Rightarrow> decoded_pump_event list \<Rightarrow> string \<Rightarrow> u64 \<Rightarrow> string \<Rightarrow> u16
      \<Rightarrow> string list \<Rightarrow> ('b pump_error, decoded_pump_event list) result" where
  "decode_logs_from base64_decode events program_id slot' sig instruction [] = Inr events"
| "decode_logs_from base64_decode events program_id slot' sig instruction (log # logs) =
     (if \<not> starts_with PROGRAM_DATA_PREFIX log
      then decode_logs_from base64_decode events program_id slot' sig instruction logs
      else if 2 ^ 16 \<le> length events then Inl (TooManyEvents 65535)
      else
        result_bind (decode_program_data_log base64_decode program_id
            (event_coordinate slot' sig instruction (length events)) log) (\<lambda>d.
        decode_logs_from base64_decode (events @ [d]) program_id slot' sig instruction logs))"

definition decode_instruction_program_data_logs ::
    "(string \<Rightarrow> ('b, u8 list) result) \<Rightarrow> string \<Rightarrow> u64 \<Rightarrow> string \<Rightarrow> u16 \<Rightarrow> string list
      \<Rightarrow> ('b pump_error, decoded_pump_event list) result" where
  "decode_instruction_program_data_logs base64_decode program_id slot' sig instruction logs =
     decode_logs_from base64_decode [] program_id slot' sig instruction logs"

section \<open>Codecs of the layouts\<close>

interpretation name_codec: codec "reader_string field MAX_NAME_BYTES" string_bytes
    "valid_string MAX_NAME_BYTES" for field
  by (rule string_codec) (simp add: limit_defs)

interpretation symbol_codec: codec "reader_string field MAX_SYMBOL_BYTES" string_bytes
    "valid_string MAX_SYMBOL_BYTES" for field
  by (rule string_codec) (simp add: limit_defs)

interpretation uri_codec: codec "reader_string field MAX_URI_BYTES" string_bytes
    "valid_string MAX_URI_BYTES" for field
  by (rule string_codec) (simp add: limit_defs)

interpretation instruction_name_codec: codec "reader_string field MAX_INSTRUCTION_NAME_BYTES"
    string_bytes "valid_string MAX_INSTRUCTION_NAME_BYTES" for field
  by (rule string_codec) (simp add: limit_defs)

definition shareholder_bytes :: "pump_shareholder \<Rightarrow> u8 list" where
  "shareholder_bytes s = pubkey_bytes (sh_address s) @ word_bytes 2 (sh_share_basis_points s)"

definition shareholders_bytes :: "pump_shareholder list \<Rightarrow> u8 list" where
  "shareholders_bytes ss = word_bytes 4 (of_nat (length ss) :: u32) @ concat (map shareholder_bytes ss)"

definition valid_shareholders :: "pump_shareholder list \<Rightarrow> bool" where
  "valid_shareholders ss \<longleftrightarrow> length ss \<le> MAX_SHAREHOLDERS \<and> list_all (\<lambda>s. valid_pubkey (sh_address s)) ss"

lemma shareholder_eta: "\<lparr>sh_address = sh_address s, sh_share_basis_points = sh_share_basis_points s\<rparr> = s"
  by simp

lemma direction_if [simp]: "(if d = DirectionBuy then DirectionBuy else DirectionSell) = d"
  by (cases d) simp_all

lemma shareholder_loop_codec:
  "codec (reader_shareholder_loop n :: ('b, pump_shareholder list) pump_reader)
     (\<lambda>ss. concat (map shareholder_bytes ss))
     (\<lambda>ss. length ss = n \<and> list_all (\<lambda>s. valid_pubkey (sh_address s)) ss)"
proof (induction n)
  case 0
  show ?case by (rule codecI) (auto intro!: accepts_return)
next
  case (Suc n)
  note reads_n = codec.read_encode [OF Suc] and accepts_n = codec.read_accepts [OF Suc]
  show ?case
  proof (rule codecI)
    fix ss :: "pump_shareholder list"
    assume ss: "length ss = Suc n \<and> list_all (\<lambda>s. valid_pubkey (sh_address s)) ss"
    then obtain s ts where s: "ss = s # ts" by (cases ss) simp_all
    have "reads (reader_shareholder_loop (Suc n) :: ('b, pump_shareholder list) pump_reader) ss
        (pubkey_bytes (sh_address s) @ word_bytes 2 (sh_share_basis_points s)
          @ concat (map shareholder_bytes ts) @ [])"
      unfolding reader_shareholder_loop.simps
      using ss by (intro pubkey_codec.reads_read_bind u16_codec.reads_read_bind
          codec.reads_read_bind [OF Suc]) (simp_all add: s shareholder_eta)
    then show "reads (reader_shareholder_loop (Suc n) :: ('b, pump_shareholder list) pump_reader) ss
        (concat (map shareholder_bytes ss))"
      by (simp add: s shareholder_bytes_def)
  next
    show "accepts (reader_shareholder_loop (Suc n) :: ('b, pump_shareholder list) pump_reader)
        (\<lambda>ss bs. (length ss = Suc n \<and> list_all (\<lambda>s. valid_pubkey (sh_address s)) ss)
           \<and> bs = concat (map shareholder_bytes ss))"
      unfolding reader_shareholder_loop.simps
      by (intro pubkey_codec.accepts_read_bind u16_codec.accepts_read_bind
          codec.accepts_read_bind [OF Suc] accepts_return)
         (simp add: shareholder_bytes_def [abs_def])
  qed
qed

interpretation shareholders_codec: codec reader_shareholders shareholders_bytes valid_shareholders
proof (rule codecI)
  fix ss assume ss: "valid_shareholders ss"
  then have n: "unat (of_nat (length ss) :: u32) = length ss" "\<not> MAX_SHAREHOLDERS < length ss"
    by (simp_all add: valid_shareholders_def limit_defs unat_of_nat_small)
  show "reads reader_shareholders ss (shareholders_bytes ss)"
    unfolding reader_shareholders_def shareholders_bytes_def
    using ss codec.read_encode [OF shareholder_loop_codec, of ss "length ss"]
    by (intro u32_codec.reads_read_bind) (simp_all add: n Let_def valid_shareholders_def)
next
  have "accepts (let count = unat n in
       if MAX_SHAREHOLDERS < count
       then reader_fail (LimitExceeded ''shareholders'' MAX_SHAREHOLDERS count)
       else reader_shareholder_loop count)
      (\<lambda>ss cs. valid_shareholders ss \<and> word_bytes 4 n @ cs = shareholders_bytes ss)" for n :: u32
  proof (cases "MAX_SHAREHOLDERS < unat n")
    case False
    show ?thesis
      using codec.read_accepts [OF shareholder_loop_codec, of "unat n"] False
      unfolding accepts_def Let_def shareholders_bytes_def valid_shareholders_def
      by (simp add: not_less) fastforce
  qed (simp add: accepts_fail Let_def)
  then show "accepts reader_shareholders (\<lambda>ss bs. valid_shareholders ss \<and> bs = shareholders_bytes ss)"
    unfolding reader_shareholders_def by (intro u32_codec.accepts_read_bind) simp
qed

lemmas codec_binds =
  u8_codec.reads_read_bind u16_codec.reads_read_bind u64_codec.reads_read_bind
  i64_codec.reads_read_bind i128_codec.reads_read_bind bool_codec.reads_read_bind
  pubkey_codec.reads_read_bind name_codec.reads_read_bind symbol_codec.reads_read_bind
  uri_codec.reads_read_bind instruction_name_codec.reads_read_bind
  shareholders_codec.reads_read_bind
  u8_codec.reads_read_bind [unfolded append_Cons append_Nil]

lemmas codec_accepts =
  u8_codec.accepts_read_bind u16_codec.accepts_read_bind u64_codec.accepts_read_bind
  i64_codec.accepts_read_bind i128_codec.accepts_read_bind bool_codec.accepts_read_bind
  pubkey_codec.accepts_read_bind name_codec.accepts_read_bind symbol_codec.accepts_read_bind
  uri_codec.accepts_read_bind instruction_name_codec.accepts_read_bind
  shareholders_codec.accepts_read_bind

definition encode_pump_create :: "pump_create_event \<Rightarrow> u8 list" where
  "encode_pump_create e = concat
     [string_bytes (create_name e), string_bytes (create_symbol e), string_bytes (create_uri e),
      pubkey_bytes (create_mint e), pubkey_bytes (create_bonding_curve e),
      pubkey_bytes (create_user e), pubkey_bytes (create_creator e),
      int_bytes 8 (create_timestamp e), word_bytes 8 (create_virtual_token_reserves e),
      word_bytes 8 (create_virtual_sol_reserves e), word_bytes 8 (create_real_token_reserves e),
      word_bytes 8 (create_token_total_supply e), pubkey_bytes (create_token_program e),
      bool_bytes (create_is_mayhem_mode e), bool_bytes (create_is_cashback_enabled e),
      pubkey_bytes (create_quote_mint e), word_bytes 8 (create_virtual_quote_reserves e)]"

definition valid_pump_create :: "pump_create_event \<Rightarrow> bool" where
  "valid_pump_create e \<longleftrightarrow>
     valid_string MAX_NAME_BYTES (create_name e) \<and>
     valid_string MAX_SYMBOL_BYTES (create_symbol e) \<and>
     valid_string MAX_URI_BYTES (create_uri e) \<and> valid_pubkey (create_mint e) \<and>
     valid_pubkey (create_bonding_curve e) \<and> valid_pubkey (create_user e) \<and>
     valid_pubkey (create_creator e) \<and> in_range 64 (create_timestamp e) \<and>
     valid_pubkey (create_token_program e) \<and> valid_pubkey (create_quote_mint e)"

interpretation pump_create_codec: codec decode_pump_create encode_pump_create valid_pump_create
proof (rule codecI)
  show "reads decode_pump_create e (encode_pump_create e)" if "valid_pump_create e" for e
    using that unfolding decode_pump_create_def encode_pump_create_def valid_pump_create_def concat.simps
    by (cases e) (auto intro!: codec_binds simp del: append_Nil2)
  show "accepts decode_pump_create (\<lambda>e bs. valid_pump_create e \<and> bs = encode_pump_create e)"
    unfolding decode_pump_create_def
    by (intro codec_accepts accepts_return) (simp add: encode_pump_create_def valid_pump_create_def)
qed

definition encode_pump_trade :: "pump_trade_event \<Rightarrow> u8 list" where
  "encode_pump_trade e = concat
     [pubkey_bytes (trade_mint e), word_bytes 8 (trade_legacy_sol_amount e),
      word_bytes 8 (trade_token_amount e), bool_bytes (trade_direction e = DirectionBuy),
      pubkey_bytes (trade_user e), int_bytes 8 (trade_timestamp e),
      word_bytes 8 (trade_virtual_sol_reserves e), word_bytes 8 (trade_virtual_token_reserves e),
      word_bytes 8 (trade_real_sol_reserves e), word_bytes 8 (trade_real_token_reserves e),
      pubkey_bytes (trade_fee_recipient e), word_bytes 8 (trade_fee_basis_points e),
      word_bytes 8 (trade_fee_amount e), pubkey_bytes (trade_creator e),
      word_bytes 8 (trade_creator_fee_basis_points e), word_bytes 8 (trade_creator_fee_amount e),
      bool_bytes (trade_track_volume e), word_bytes 8 (trade_total_unclaimed_tokens e),
      word_bytes 8 (trade_total_claimed_tokens e), word_bytes 8 (trade_current_sol_volume e),
      int_bytes 8 (trade_last_update_timestamp e), string_bytes (trade_instruction_name e),
      bool_bytes (trade_mayhem_mode e), word_bytes 8 (trade_cashback_fee_basis_points e),
      word_bytes 8 (trade_cashback_amount e), word_bytes 8 (trade_buyback_fee_basis_points e),
      word_bytes 8 (trade_buyback_fee_amount e), shareholders_bytes (trade_shareholders e),
      pubkey_bytes (trade_quote_mint e), word_bytes 8 (trade_quote_amount e),
      word_bytes 8 (trade_virtual_quote_reserves e), word_bytes 8 (trade_real_quote_reserves e)]"

definition valid_pump_trade :: "pump_trade_event \<Rightarrow> bool" where
  "valid_pump_trade e \<longleftrightarrow>
     valid_pubkey (trade_mint e) \<and> valid_pubkey (trade_user e) \<and>
     in_range 64 (trade_timestamp e) \<and> valid_pubkey (trade_fee_recipient e) \<and>
     valid_pubkey (trade_creator e) \<and> in_range 64 (trade_last_update_timestamp e) \<and>
     valid_string MAX_INSTRUCTION_NAME_BYTES (trade_instruction_name e) \<and>
     valid_shareholders (trade_shareholders e) \<and> valid_pubkey (trade_quote_mint e)"

interpretation pump_trade_codec: codec decode_pump_trade encode_pump_trade valid_pump_trade
proof (rule codecI)
  show "reads decode_pump_trade e (encode_pump_trade e)" if "valid_pump_trade e" for e
    using that unfolding decode_pump_trade_def encode_pump_trade_def valid_pump_trade_def concat.simps
    by (cases e) (auto intro!: codec_binds simp del: append_Nil2)
  show "accepts decode_pump_trade (\<lambda>e bs. valid_pump_trade e \<and> bs = encode_pump_trade e)"
    unfolding decode_pump_trade_def
    by (intro codec_accepts accepts_return) (simp add: encode_pump_trade_def valid_pump_trade_def)
qed

definition encode_pump_complete :: "pump_complete_event \<Rightarrow> u8 list" where
  "encode_pump_complete e = concat
     [pubkey_bytes (complete_user e), pubkey_bytes (complete_mint e),
      pubkey_bytes (complete_bonding_curve e), int_bytes 8 (complete_timestamp e),
      pubkey_bytes (complete_quote_mint e)]"

definition valid_pump_complete :: "pump_complete_event \<Rightarrow> bool" where
  "valid_pump_complete e \<longleftrightarrow>
     valid_pubkey (complete_user e) \<and> valid_pubkey (complete_mint e) \<and>
     valid_pubkey (complete_bonding_curve e) \<and> in_range 64 (complete_timestamp e) \<and>
     valid_pubkey (complete_quote_mint e)"

interpretation pump_complete_codec: codec decode_pump_complete encode_pump_complete valid_pump_complete
proof (rule codecI)
  show "reads decode_pump_complete e (encode_pump_complete e)" if "valid_pump_complete e" for e
    using that unfolding decode_pump_complete_def encode_pump_complete_def valid_pump_complete_def concat.simps
    by (cases e) (auto intro!: codec_binds simp del: append_Nil2)
  show "accepts decode_pump_complete (\<lambda>e bs. valid_pump_complete e \<and> bs = encode_pump_complete e)"
    unfolding decode_pump_complete_def
    by (intro codec_accepts accepts_return) (simp add: encode_pump_complete_def valid_pump_complete_def)
qed

definition encode_pump_migration :: "pump_migration_event \<Rightarrow> u8 list" where
  "encode_pump_migration e = concat
     [pubkey_bytes (migration_user e), pubkey_bytes (migration_mint e),
      word_bytes 8 (migration_mint_amount e), word_bytes 8 (migration_legacy_sol_amount e),
      word_bytes 8 (migration_pool_migration_fee e), pubkey_bytes (migration_bonding_curve e),
      int_bytes 8 (migration_timestamp e), pubkey_bytes (migration_pool e),
      pubkey_bytes (migration_quote_mint e)]"

definition valid_pump_migration :: "pump_migration_event \<Rightarrow> bool" where
  "valid_pump_migration e \<longleftrightarrow>
     valid_pubkey (migration_user e) \<and> valid_pubkey (migration_mint e) \<and>
     valid_pubkey (migration_bonding_curve e) \<and> in_range 64 (migration_timestamp e) \<and>
     valid_pubkey (migration_pool e) \<and> valid_pubkey (migration_quote_mint e)"

interpretation pump_migration_codec: codec decode_pump_migration encode_pump_migration valid_pump_migration
proof (rule codecI)
  show "reads decode_pump_migration e (encode_pump_migration e)" if "valid_pump_migration e" for e
    using that unfolding decode_pump_migration_def encode_pump_migration_def valid_pump_migration_def concat.simps
    by (cases e) (auto intro!: codec_binds simp del: append_Nil2)
  show "accepts decode_pump_migration (\<lambda>e bs. valid_pump_migration e \<and> bs = encode_pump_migration e)"
    unfolding decode_pump_migration_def
    by (intro codec_accepts accepts_return) (simp add: encode_pump_migration_def valid_pump_migration_def)
qed

definition encode_pump_swap_create_pool :: "pump_swap_create_pool_event \<Rightarrow> u8 list" where
  "encode_pump_swap_create_pool e = concat
     [int_bytes 8 (pool_timestamp e), word_bytes 2 (pool_index e), pubkey_bytes (pool_creator e),
      pubkey_bytes (pool_base_mint e), pubkey_bytes (pool_quote_mint e),
      [pool_base_mint_decimals e], [pool_quote_mint_decimals e],
      word_bytes 8 (pool_base_amount_in e), word_bytes 8 (pool_quote_amount_in e),
      word_bytes 8 (pool_pool_base_amount e), word_bytes 8 (pool_pool_quote_amount e),
      word_bytes 8 (pool_minimum_liquidity e), word_bytes 8 (pool_initial_liquidity e),
      word_bytes 8 (pool_lp_token_amount_out e), [pool_pool_bump e], pubkey_bytes (pool_pool e),
      pubkey_bytes (pool_lp_mint e), pubkey_bytes (pool_user_base_token_account e),
      pubkey_bytes (pool_user_quote_token_account e), pubkey_bytes (pool_coin_creator e),
      bool_bytes (pool_is_mayhem_mode e)]"

definition valid_pump_swap_create_pool :: "pump_swap_create_pool_event \<Rightarrow> bool" where
  "valid_pump_swap_create_pool e \<longleftrightarrow>
     in_range 64 (pool_timestamp e) \<and> valid_pubkey (pool_creator e) \<and>
     valid_pubkey (pool_base_mint e) \<and> valid_pubkey (pool_quote_mint e) \<and>
     valid_pubkey (pool_pool e) \<and> valid_pubkey (pool_lp_mint e) \<and>
     valid_pubkey (pool_user_base_token_account e) \<and>
     valid_pubkey (pool_user_quote_token_account e) \<and> valid_pubkey (pool_coin_creator e)"

interpretation pump_swap_create_pool_codec: codec decode_pump_swap_create_pool encode_pump_swap_create_pool valid_pump_swap_create_pool
proof (rule codecI)
  show "reads decode_pump_swap_create_pool e (encode_pump_swap_create_pool e)" if "valid_pump_swap_create_pool e" for e
    using that unfolding decode_pump_swap_create_pool_def encode_pump_swap_create_pool_def valid_pump_swap_create_pool_def concat.simps
    by (cases e) (auto intro!: codec_binds simp del: append_Nil2)
  show "accepts decode_pump_swap_create_pool (\<lambda>e bs. valid_pump_swap_create_pool e \<and> bs = encode_pump_swap_create_pool e)"
    unfolding decode_pump_swap_create_pool_def
    by (intro codec_accepts accepts_return) (simp add: encode_pump_swap_create_pool_def valid_pump_swap_create_pool_def)
qed

definition encode_pump_swap_buy :: "pump_swap_buy_event \<Rightarrow> u8 list" where
  "encode_pump_swap_buy e = concat
     [int_bytes 8 (buy_timestamp e), word_bytes 8 (buy_base_amount_out e),
      word_bytes 8 (buy_max_quote_amount_in e), word_bytes 8 (buy_user_base_token_reserves e),
      word_bytes 8 (buy_user_quote_token_reserves e), word_bytes 8 (buy_pool_base_token_reserves e),
      word_bytes 8 (buy_pool_quote_token_reserves e), word_bytes 8 (buy_quote_amount_in e),
      word_bytes 8 (buy_lp_fee_basis_points e), word_bytes 8 (buy_lp_fee_amount e),
      word_bytes 8 (buy_protocol_fee_basis_points e), word_bytes 8 (buy_protocol_fee_amount e),
      word_bytes 8 (buy_quote_amount_in_with_lp_fee e), word_bytes 8 (buy_user_quote_amount_in e),
      pubkey_bytes (buy_pool e), pubkey_bytes (buy_user e),
      pubkey_bytes (buy_user_base_token_account e), pubkey_bytes (buy_user_quote_token_account e),
      pubkey_bytes (buy_protocol_fee_recipient e),
      pubkey_bytes (buy_protocol_fee_recipient_token_account e), pubkey_bytes (buy_coin_creator e),
      word_bytes 8 (buy_coin_creator_fee_basis_points e),
      word_bytes 8 (buy_coin_creator_fee_amount e), bool_bytes (buy_track_volume e),
      word_bytes 8 (buy_total_unclaimed_tokens e), word_bytes 8 (buy_total_claimed_tokens e),
      word_bytes 8 (buy_current_sol_volume e), int_bytes 8 (buy_last_update_timestamp e),
      word_bytes 8 (buy_min_base_amount_out e), string_bytes (buy_instruction_name e),
      word_bytes 8 (buy_cashback_fee_basis_points e), word_bytes 8 (buy_cashback_amount e),
      word_bytes 8 (buy_buyback_fee_basis_points e), word_bytes 8 (buy_buyback_fee_amount e),
      int_bytes 16 (buy_virtual_quote_reserves e), bool_bytes (buy_can_boost e),
      word_bytes 8 (buy_base_supply e)]"

definition valid_pump_swap_buy :: "pump_swap_buy_event \<Rightarrow> bool" where
  "valid_pump_swap_buy e \<longleftrightarrow>
     in_range 64 (buy_timestamp e) \<and> valid_pubkey (buy_pool e) \<and>
     valid_pubkey (buy_user e) \<and> valid_pubkey (buy_user_base_token_account e) \<and>
     valid_pubkey (buy_user_quote_token_account e) \<and>
     valid_pubkey (buy_protocol_fee_recipient e) \<and>
     valid_pubkey (buy_protocol_fee_recipient_token_account e) \<and>
     valid_pubkey (buy_coin_creator e) \<and> in_range 64 (buy_last_update_timestamp e) \<and>
     valid_string MAX_INSTRUCTION_NAME_BYTES (buy_instruction_name e) \<and>
     in_range 128 (buy_virtual_quote_reserves e)"

interpretation pump_swap_buy_codec: codec decode_pump_swap_buy encode_pump_swap_buy valid_pump_swap_buy
proof (rule codecI)
  show "reads decode_pump_swap_buy e (encode_pump_swap_buy e)" if "valid_pump_swap_buy e" for e
    using that unfolding decode_pump_swap_buy_def encode_pump_swap_buy_def valid_pump_swap_buy_def concat.simps
    by (cases e) (auto intro!: codec_binds simp del: append_Nil2)
  show "accepts decode_pump_swap_buy (\<lambda>e bs. valid_pump_swap_buy e \<and> bs = encode_pump_swap_buy e)"
    unfolding decode_pump_swap_buy_def
    by (intro codec_accepts accepts_return) (simp add: encode_pump_swap_buy_def valid_pump_swap_buy_def)
qed

definition encode_pump_swap_sell :: "pump_swap_sell_event \<Rightarrow> u8 list" where
  "encode_pump_swap_sell e = concat
     [int_bytes 8 (sell_timestamp e), word_bytes 8 (sell_base_amount_in e),
      word_bytes 8 (sell_min_quote_amount_out e), word_bytes 8 (sell_user_base_token_reserves e),
      word_bytes 8 (sell_user_quote_token_reserves e),
      word_bytes 8 (sell_pool_base_token_reserves e),
      word_bytes 8 (sell_pool_quote_token_reserves e), word_bytes 8 (sell_quote_amount_out e),
      word_bytes 8 (sell_lp_fee_basis_points e), word_bytes 8 (sell_lp_fee_amount e),
      word_bytes 8 (sell_protocol_fee_basis_points e), word_bytes 8 (sell_protocol_fee_amount e),
      word_bytes 8 (sell_quote_amount_out_without_lp_fee e),
      word_bytes 8 (sell_user_quote_amount_out e), pubkey_bytes (sell_pool e),
      pubkey_bytes (sell_user e), pubkey_bytes (sell_user_base_token_account e),
      pubkey_bytes (sell_user_quote_token_account e), pubkey_bytes (sell_protocol_fee_recipient e),
      pubkey_bytes (sell_protocol_fee_recipient_token_account e),
      pubkey_bytes (sell_coin_creator e), word_bytes 8 (sell_coin_creator_fee_basis_points e),
      word_bytes 8 (sell_coin_creator_fee_amount e),
      word_bytes 8 (sell_cashback_fee_basis_points e), word_bytes 8 (sell_cashback_amount e),
      word_bytes 8 (sell_buyback_fee_basis_points e), word_bytes 8 (sell_buyback_fee_amount e),
      int_bytes 16 (sell_virtual_quote_reserves e), bool_bytes (sell_can_boost e),
      word_bytes 8 (sell_base_supply e)]"

definition valid_pump_swap_sell :: "pump_swap_sell_event \<Rightarrow> bool" where
  "valid_pump_swap_sell e \<longleftrightarrow>
     in_range 64 (sell_timestamp e) \<and> valid_pubkey (sell_pool e) \<and>
     valid_pubkey (sell_user e) \<and> valid_pubkey (sell_user_base_token_account e) \<and>
     valid_pubkey (sell_user_quote_token_account e) \<and>
     valid_pubkey (sell_protocol_fee_recipient e) \<and>
     valid_pubkey (sell_protocol_fee_recipient_token_account e) \<and>
     valid_pubkey (sell_coin_creator e) \<and> in_range 128 (sell_virtual_quote_reserves e)"

interpretation pump_swap_sell_codec: codec decode_pump_swap_sell encode_pump_swap_sell valid_pump_swap_sell
proof (rule codecI)
  show "reads decode_pump_swap_sell e (encode_pump_swap_sell e)" if "valid_pump_swap_sell e" for e
    using that unfolding decode_pump_swap_sell_def encode_pump_swap_sell_def valid_pump_swap_sell_def concat.simps
    by (cases e) (auto intro!: codec_binds simp del: append_Nil2)
  show "accepts decode_pump_swap_sell (\<lambda>e bs. valid_pump_swap_sell e \<and> bs = encode_pump_swap_sell e)"
    unfolding decode_pump_swap_sell_def
    by (intro codec_accepts accepts_return) (simp add: encode_pump_swap_sell_def valid_pump_swap_sell_def)
qed

definition encode_pump_swap_deposit :: "pump_swap_deposit_event \<Rightarrow> u8 list" where
  "encode_pump_swap_deposit e = concat
     [int_bytes 8 (deposit_timestamp e), word_bytes 8 (deposit_lp_token_amount_out e),
      word_bytes 8 (deposit_max_base_amount_in e), word_bytes 8 (deposit_max_quote_amount_in e),
      word_bytes 8 (deposit_user_base_token_reserves e),
      word_bytes 8 (deposit_user_quote_token_reserves e),
      word_bytes 8 (deposit_pool_base_token_reserves e),
      word_bytes 8 (deposit_pool_quote_token_reserves e), word_bytes 8 (deposit_base_amount_in e),
      word_bytes 8 (deposit_quote_amount_in e), word_bytes 8 (deposit_lp_mint_supply e),
      pubkey_bytes (deposit_pool e), pubkey_bytes (deposit_user e),
      pubkey_bytes (deposit_user_base_token_account e),
      pubkey_bytes (deposit_user_quote_token_account e),
      pubkey_bytes (deposit_user_pool_token_account e)]"

definition valid_pump_swap_deposit :: "pump_swap_deposit_event \<Rightarrow> bool" where
  "valid_pump_swap_deposit e \<longleftrightarrow>
     in_range 64 (deposit_timestamp e) \<and> valid_pubkey (deposit_pool e) \<and>
     valid_pubkey (deposit_user e) \<and> valid_pubkey (deposit_user_base_token_account e) \<and>
     valid_pubkey (deposit_user_quote_token_account e) \<and>
     valid_pubkey (deposit_user_pool_token_account e)"

interpretation pump_swap_deposit_codec: codec decode_pump_swap_deposit encode_pump_swap_deposit valid_pump_swap_deposit
proof (rule codecI)
  show "reads decode_pump_swap_deposit e (encode_pump_swap_deposit e)" if "valid_pump_swap_deposit e" for e
    using that unfolding decode_pump_swap_deposit_def encode_pump_swap_deposit_def valid_pump_swap_deposit_def concat.simps
    by (cases e) (auto intro!: codec_binds simp del: append_Nil2)
  show "accepts decode_pump_swap_deposit (\<lambda>e bs. valid_pump_swap_deposit e \<and> bs = encode_pump_swap_deposit e)"
    unfolding decode_pump_swap_deposit_def
    by (intro codec_accepts accepts_return) (simp add: encode_pump_swap_deposit_def valid_pump_swap_deposit_def)
qed

definition encode_pump_swap_withdraw :: "pump_swap_withdraw_event \<Rightarrow> u8 list" where
  "encode_pump_swap_withdraw e = concat
     [int_bytes 8 (withdraw_timestamp e), word_bytes 8 (withdraw_lp_token_amount_in e),
      word_bytes 8 (withdraw_min_base_amount_out e), word_bytes 8 (withdraw_min_quote_amount_out e),
      word_bytes 8 (withdraw_user_base_token_reserves e),
      word_bytes 8 (withdraw_user_quote_token_reserves e),
      word_bytes 8 (withdraw_pool_base_token_reserves e),
      word_bytes 8 (withdraw_pool_quote_token_reserves e),
      word_bytes 8 (withdraw_base_amount_out e), word_bytes 8 (withdraw_quote_amount_out e),
      word_bytes 8 (withdraw_lp_mint_supply e), pubkey_bytes (withdraw_pool e),
      pubkey_bytes (withdraw_user e), pubkey_bytes (withdraw_user_base_token_account e),
      pubkey_bytes (withdraw_user_quote_token_account e),
      pubkey_bytes (withdraw_user_pool_token_account e)]"

definition valid_pump_swap_withdraw :: "pump_swap_withdraw_event \<Rightarrow> bool" where
  "valid_pump_swap_withdraw e \<longleftrightarrow>
     in_range 64 (withdraw_timestamp e) \<and> valid_pubkey (withdraw_pool e) \<and>
     valid_pubkey (withdraw_user e) \<and> valid_pubkey (withdraw_user_base_token_account e) \<and>
     valid_pubkey (withdraw_user_quote_token_account e) \<and>
     valid_pubkey (withdraw_user_pool_token_account e)"

interpretation pump_swap_withdraw_codec: codec decode_pump_swap_withdraw encode_pump_swap_withdraw valid_pump_swap_withdraw
proof (rule codecI)
  show "reads decode_pump_swap_withdraw e (encode_pump_swap_withdraw e)" if "valid_pump_swap_withdraw e" for e
    using that unfolding decode_pump_swap_withdraw_def encode_pump_swap_withdraw_def valid_pump_swap_withdraw_def concat.simps
    by (cases e) (auto intro!: codec_binds simp del: append_Nil2)
  show "accepts decode_pump_swap_withdraw (\<lambda>e bs. valid_pump_swap_withdraw e \<and> bs = encode_pump_swap_withdraw e)"
    unfolding decode_pump_swap_withdraw_def
    by (intro codec_accepts accepts_return) (simp add: encode_pump_swap_withdraw_def valid_pump_swap_withdraw_def)
qed

section \<open>Exactly the pinned events decode\<close>

fun event_program :: "pump_event \<Rightarrow> pump_program" where
  "event_program (EventCreate _) = Pump"
| "event_program (EventTrade _) = Pump"
| "event_program (EventComplete _) = Pump"
| "event_program (EventCompletePumpAmmMigration _) = Pump"
| "event_program (EventPumpSwapCreatePool _) = PumpSwap"
| "event_program (EventPumpSwapBuy _) = PumpSwap"
| "event_program (EventPumpSwapSell _) = PumpSwap"
| "event_program (EventPumpSwapDeposit _) = PumpSwap"
| "event_program (EventPumpSwapWithdraw _) = PumpSwap"

fun event_discriminator :: "pump_event \<Rightarrow> u8 list" where
  "event_discriminator (EventCreate _) = CREATE_EVENT_DISCRIMINATOR"
| "event_discriminator (EventTrade _) = TRADE_EVENT_DISCRIMINATOR"
| "event_discriminator (EventComplete _) = COMPLETE_EVENT_DISCRIMINATOR"
| "event_discriminator (EventCompletePumpAmmMigration _) = COMPLETE_PUMP_AMM_MIGRATION_EVENT_DISCRIMINATOR"
| "event_discriminator (EventPumpSwapCreatePool _) = CREATE_POOL_EVENT_DISCRIMINATOR"
| "event_discriminator (EventPumpSwapBuy _) = PUMP_SWAP_BUY_EVENT_DISCRIMINATOR"
| "event_discriminator (EventPumpSwapSell _) = PUMP_SWAP_SELL_EVENT_DISCRIMINATOR"
| "event_discriminator (EventPumpSwapDeposit _) = PUMP_SWAP_DEPOSIT_EVENT_DISCRIMINATOR"
| "event_discriminator (EventPumpSwapWithdraw _) = PUMP_SWAP_WITHDRAW_EVENT_DISCRIMINATOR"

fun event_body :: "pump_event \<Rightarrow> u8 list" where
  "event_body (EventCreate e) = encode_pump_create e"
| "event_body (EventTrade e) = encode_pump_trade e"
| "event_body (EventComplete e) = encode_pump_complete e"
| "event_body (EventCompletePumpAmmMigration e) = encode_pump_migration e"
| "event_body (EventPumpSwapCreatePool e) = encode_pump_swap_create_pool e"
| "event_body (EventPumpSwapBuy e) = encode_pump_swap_buy e"
| "event_body (EventPumpSwapSell e) = encode_pump_swap_sell e"
| "event_body (EventPumpSwapDeposit e) = encode_pump_swap_deposit e"
| "event_body (EventPumpSwapWithdraw e) = encode_pump_swap_withdraw e"

fun valid_event :: "pump_event \<Rightarrow> bool" where
  "valid_event (EventCreate e) = valid_pump_create e"
| "valid_event (EventTrade e) = valid_pump_trade e"
| "valid_event (EventComplete e) = valid_pump_complete e"
| "valid_event (EventCompletePumpAmmMigration e) = valid_pump_migration e"
| "valid_event (EventPumpSwapCreatePool e) = valid_pump_swap_create_pool e"
| "valid_event (EventPumpSwapBuy e) = valid_pump_swap_buy e"
| "valid_event (EventPumpSwapSell e) = valid_pump_swap_sell e"
| "valid_event (EventPumpSwapDeposit e) = valid_pump_swap_deposit e"
| "valid_event (EventPumpSwapWithdraw e) = valid_pump_swap_withdraw e"

definition event_bytes :: "pump_event \<Rightarrow> u8 list" where
  "event_bytes ev = event_discriminator ev @ event_body ev"

text \<open>A reader that succeeds on a whole input and leaves nothing behind.\<close>

definition reads_all :: "('b, 'a) pump_reader \<Rightarrow> u8 list \<Rightarrow> 'a \<Rightarrow> bool" where
  "reads_all f bs v \<longleftrightarrow> (\<exists>r. f (reader_new bs) = Inr (v, r)
     \<and> reader_finish r = (Inr () :: ('b pump_error, unit) result))"

lemma reads_all_map:
  "reads_all (reader_map h f) bs ev \<longleftrightarrow> (\<exists>v. reads_all f bs v \<and> ev = h v)"
  by (auto simp: reads_all_def reader_map_def reader_bind_def reader_return_def result_simps)

lemma reads_all_fail [simp]: "\<not> reads_all (reader_fail e) bs ev"
  by (simp add: reads_all_def reader_fail_def)

lemmas reads_all_layouts =
  pump_create_codec.whole_input [folded reads_all_def]
  pump_trade_codec.whole_input [folded reads_all_def]
  pump_complete_codec.whole_input [folded reads_all_def]
  pump_migration_codec.whole_input [folded reads_all_def]
  pump_swap_create_pool_codec.whole_input [folded reads_all_def]
  pump_swap_buy_codec.whole_input [folded reads_all_def]
  pump_swap_sell_codec.whole_input [folded reads_all_def]
  pump_swap_deposit_codec.whole_input [folded reads_all_def]
  pump_swap_withdraw_codec.whole_input [folded reads_all_def]

lemma discriminators_distinct:
  "distinct [CREATE_EVENT_DISCRIMINATOR, TRADE_EVENT_DISCRIMINATOR, COMPLETE_EVENT_DISCRIMINATOR,
     COMPLETE_PUMP_AMM_MIGRATION_EVENT_DISCRIMINATOR, CREATE_POOL_EVENT_DISCRIMINATOR,
     PUMP_SWAP_BUY_EVENT_DISCRIMINATOR, PUMP_SWAP_SELL_EVENT_DISCRIMINATOR,
     PUMP_SWAP_DEPOSIT_EVENT_DISCRIMINATOR, PUMP_SWAP_WITHDRAW_EVENT_DISCRIMINATOR]"
  by (simp add: discriminator_defs)

lemma event_reader_all:
  "reads_all (event_reader p d) bs ev \<longleftrightarrow>
     event_program ev = p \<and> valid_event ev \<and> d = event_discriminator ev \<and> bs = event_body ev"
  using discriminators_distinct
  by (cases p; cases ev) (auto simp: event_reader_def reads_all_map reads_all_layouts)

lemma event_discriminator_facts [simp]:
  "length (event_discriminator ev) = 8" "event_discriminator ev \<noteq> ANCHOR_EVENT_CPI_DISCRIMINATOR"
  "length ANCHOR_EVENT_CPI_DISCRIMINATOR = 8"
  by (cases ev; simp add: discriminator_defs)+

lemma take_drop_event:
  "8 \<le> length bs \<Longrightarrow> take 8 bs = event_discriminator ev \<and> drop 8 bs = event_body ev \<longleftrightarrow> bs = event_bytes ev"
  by (metis append_eq_conv_conj append_take_drop_id event_bytes_def event_discriminator_facts(1))

lemma strip_cpi_prefix_event:
  "strip_cpi_prefix data = event_bytes ev \<longleftrightarrow>
     data = event_bytes ev \<or> data = ANCHOR_EVENT_CPI_DISCRIMINATOR @ event_bytes ev"
proof -
  have "take 8 (event_bytes ev) \<noteq> ANCHOR_EVENT_CPI_DISCRIMINATOR"
    by (simp add: event_bytes_def)
  moreover have "take 8 data = ANCHOR_EVENT_CPI_DISCRIMINATOR \<Longrightarrow>
      data = ANCHOR_EVENT_CPI_DISCRIMINATOR @ drop 8 data"
    by (metis append_take_drop_id)
  ultimately show ?thesis
    by (auto simp: strip_cpi_prefix_def is_anchor_event_cpi_def)
qed

lemma decode_anchor_event_iff:
  "decode_anchor_event program_id coordinate data = (Inr d :: ('b pump_error, decoded_pump_event) result)
   \<longleftrightarrow> program_id = pump_program_id (event_program (decoded_event d)) \<and> signature coordinate \<noteq> []
     \<and> decoded_program d = event_program (decoded_event d) \<and> decoded_coordinate d = coordinate
     \<and> valid_event (decoded_event d) \<and> strip_cpi_prefix data = event_bytes (decoded_event d)"
  (is "?lhs \<longleftrightarrow> ?rhs")
proof -
  let ?bs = "strip_cpi_prefix data" and ?ev = "decoded_event d"
  have "decode_anchor_event program_id coordinate data = (Inr d :: ('b pump_error, decoded_pump_event) result)
      \<longleftrightarrow> (\<exists>p. supported_program program_id = Some p \<and> signature coordinate \<noteq> [] \<and> 8 \<le> length ?bs
           \<and> reads_all (event_reader p (take 8 ?bs) :: ('b, pump_event) pump_reader) (drop 8 ?bs) ?ev
           \<and> decoded_program d = p \<and> decoded_coordinate d = coordinate)"
    by (cases d)
       (auto simp: decode_anchor_event_def result_simps reads_all_def Let_def split: if_splits)
  also have "\<dots> \<longleftrightarrow> supported_program program_id = Some (event_program ?ev) \<and> signature coordinate \<noteq> []
      \<and> valid_event ?ev \<and> 8 \<le> length ?bs \<and> ?bs = event_bytes ?ev
      \<and> decoded_program d = event_program ?ev \<and> decoded_coordinate d = coordinate"
    using take_drop_event [of ?bs ?ev] by (auto simp: event_reader_all)
  finally have *: "?lhs \<longleftrightarrow> supported_program program_id = Some (event_program ?ev) \<and> signature coordinate \<noteq> []
      \<and> valid_event ?ev \<and> 8 \<le> length ?bs \<and> ?bs = event_bytes ?ev
      \<and> decoded_program d = event_program ?ev \<and> decoded_coordinate d = coordinate" .
  have "8 \<le> length (event_bytes ?ev)"
    by (simp add: event_bytes_def)
  then show ?thesis
    unfolding * using supported_program_id supported_program_SomeD by auto
qed

text \<open>
  C5: the decoder accepts exactly the encodings of the pinned layouts. A payload decodes to an event
  if and only if the program is the one that emits it, the transaction has a signature, and the
  payload is the event's discriminator followed by its fields in IDL order, each well formed, with
  nothing missing and nothing left over, and at most Anchor's CPI prefix in front.
\<close>

theorem decoder_exact:
  "decode_anchor_event program_id coordinate data = (Inr d :: ('b pump_error, decoded_pump_event) result)
   \<longleftrightarrow> program_id = pump_program_id (event_program (decoded_event d)) \<and> signature coordinate \<noteq> []
     \<and> decoded_program d = event_program (decoded_event d) \<and> decoded_coordinate d = coordinate
     \<and> valid_event (decoded_event d)
     \<and> (data = event_bytes (decoded_event d)
        \<or> data = ANCHOR_EVENT_CPI_DISCRIMINATOR @ event_bytes (decoded_event d))"
  by (simp only: decode_anchor_event_iff strip_cpi_prefix_event)

text \<open>A completed bonding curve, as one concrete authoritative event.\<close>

definition example_complete :: pump_event where
  "example_complete = EventComplete \<lparr>complete_user = encode_base58 (replicate 32 3),
     complete_mint = encode_base58 (replicate 32 4), complete_bonding_curve = encode_base58 (replicate 32 5),
     complete_timestamp = 1700000000, complete_quote_mint = encode_base58 (replicate 32 0)\<rparr>"

definition example_coordinate :: chain_coordinate where
  "example_coordinate = event_coordinate 7 ''sig'' 2 0"

definition example_decoded :: decoded_pump_event where
  "example_decoded = \<lparr>decoded_program = Pump, decoded_coordinate = example_coordinate,
     decoded_event = example_complete\<rparr>"

lemma valid_pubkey_encode: "length bs = 32 \<Longrightarrow> valid_pubkey (encode_base58 bs)"
  by (simp add: valid_pubkey_def pubkey_bytes_encode)

lemma example_decodes:
  "decode_anchor_event PUMP_PROGRAM_ID example_coordinate (event_bytes example_complete)
     = (Inr example_decoded :: ('b pump_error, decoded_pump_event) result)"
  "decode_cpi_event PUMP_PROGRAM_ID example_coordinate
       (ANCHOR_EVENT_CPI_DISCRIMINATOR @ event_bytes example_complete)
     = (Inr example_decoded :: ('b pump_error, decoded_pump_event) result)"
proof -
  have valid: "valid_event example_complete"
    by (simp add: example_complete_def valid_pump_complete_def valid_pubkey_encode in_range_def)
  have shape: "event_program example_complete = Pump" "signature example_coordinate \<noteq> []"
    by (simp_all add: example_complete_def example_coordinate_def event_coordinate_def)
  have stripped: "strip_cpi_prefix (event_bytes example_complete) = event_bytes example_complete"
    "strip_cpi_prefix (ANCHOR_EVENT_CPI_DISCRIMINATOR @ event_bytes example_complete)
       = event_bytes example_complete"
    by (simp_all add: strip_cpi_prefix_event)
  show "decode_anchor_event PUMP_PROGRAM_ID example_coordinate (event_bytes example_complete)
     = (Inr example_decoded :: ('b pump_error, decoded_pump_event) result)"
    unfolding decode_anchor_event_iff using valid shape stripped by (simp add: example_decoded_def)
  show "decode_cpi_event PUMP_PROGRAM_ID example_coordinate
       (ANCHOR_EVENT_CPI_DISCRIMINATOR @ event_bytes example_complete)
     = (Inr example_decoded :: ('b pump_error, decoded_pump_event) result)"
    using valid shape stripped
    by (simp add: decode_cpi_event_def decode_anchor_event_iff is_anchor_event_cpi_def example_decoded_def)
qed

text \<open>
  Decoding loses nothing: two authoritative inner instructions that decode to the same event are
  the same bytes.
\<close>

theorem decoder_injective:
  assumes "decode_cpi_event program_id coordinate data = (Inr d :: ('b pump_error, decoded_pump_event) result)"
    and "decode_cpi_event program_id' coordinate' data' = (Inr d :: ('b pump_error, decoded_pump_event) result)"
  shows "data = data' \<and> program_id = program_id' \<and> coordinate = coordinate'"
proof -
  have bytes: "x = ANCHOR_EVENT_CPI_DISCRIMINATOR @ event_bytes (decoded_event d)"
    if "decode_cpi_event i c x = (Inr d :: ('b pump_error, decoded_pump_event) result)" for i c x
  proof -
    have "is_anchor_event_cpi x" "strip_cpi_prefix x = event_bytes (decoded_event d)"
      using that by (auto simp: decode_cpi_event_def decode_anchor_event_iff split: if_splits)
    then show ?thesis by (metis append_take_drop_id is_anchor_event_cpi_def strip_cpi_prefix_def)
  qed
  have "data = data'" using bytes [OF assms(1)] bytes [OF assms(2)] by simp
  then show ?thesis
    using assms by (auto simp: decode_cpi_event_def decode_anchor_event_iff split: if_splits)
qed

theorem decoder_injective_witness:
  "decode_cpi_event PUMP_PROGRAM_ID example_coordinate
       (ANCHOR_EVENT_CPI_DISCRIMINATOR @ event_bytes example_complete)
     = (Inr example_decoded :: (unit pump_error, decoded_pump_event) result)
   \<and> (ANCHOR_EVENT_CPI_DISCRIMINATOR @ event_bytes example_complete
        = ANCHOR_EVENT_CPI_DISCRIMINATOR @ event_bytes example_complete
      \<and> PUMP_PROGRAM_ID = PUMP_PROGRAM_ID \<and> example_coordinate = example_coordinate)"
  using example_decodes(2) decoder_injective [OF example_decodes(2) example_decodes(2)] by blast

section \<open>Batches\<close>

lemma decode_events_from_indices:
  "decode_events_from k program_id slot' sig instruction ps = (Inr ds :: ('b pump_error, decoded_pump_event list) result)
   \<Longrightarrow> length ds = length ps \<and> k + length ps \<le> max k (2 ^ 16)
     \<and> (\<forall>i<length ps. decode_anchor_event program_id (event_coordinate slot' sig instruction (k + i)) (ps ! i)
          = (Inr (ds ! i) :: ('b pump_error, decoded_pump_event) result))"
proof (induction k program_id slot' sig instruction ps arbitrary: ds rule: decode_events_from.induct)
  case (2 k program_id slot' sig instruction p ps)
  then obtain d es where d: "k < 2 ^ 16"
    "decode_anchor_event program_id (event_coordinate slot' sig instruction k) p
       = (Inr d :: ('b pump_error, decoded_pump_event) result)"
    "decode_events_from (k + 1) program_id slot' sig instruction ps
       = (Inr es :: ('b pump_error, decoded_pump_event list) result)" "ds = d # es"
    by (auto simp: result_simps split: if_splits)
  from "2.IH" [OF _ d(3)] d(1) have IH: "length es = length ps" "k + 1 + length ps \<le> max (k + 1) (2 ^ 16)"
    "\<forall>i<length ps. decode_anchor_event program_id (event_coordinate slot' sig instruction (k + 1 + i)) (ps ! i)
          = (Inr (es ! i) :: ('b pump_error, decoded_pump_event) result)" by simp_all
  have "decode_anchor_event program_id (event_coordinate slot' sig instruction (k + i)) ((p # ps) ! i)
      = (Inr (ds ! i) :: ('b pump_error, decoded_pump_event) result)" if "i < length (p # ps)" for i
    using IH(3) d that by (cases i) simp_all
  then show ?case using IH d by simp
qed simp

lemma decode_events_from_ok:
  "k + length ps \<le> 2 ^ 16 \<Longrightarrow>
   \<forall>i<length ps. \<exists>d. decode_anchor_event program_id (event_coordinate slot' sig instruction (k + i)) (ps ! i)
        = (Inr d :: ('b pump_error, decoded_pump_event) result) \<Longrightarrow>
   \<exists>ds. decode_events_from k program_id slot' sig instruction ps
        = (Inr ds :: ('b pump_error, decoded_pump_event list) result)"
proof (induction k program_id slot' sig instruction ps rule: decode_events_from.induct)
  case (2 k program_id slot' sig instruction p ps)
  let ?dec = "\<lambda>i q. decode_anchor_event program_id (event_coordinate slot' sig instruction i) q
      :: ('b pump_error, decoded_pump_event) result"
  obtain d where d: "?dec k p = Inr d" using 2(3) by force
  have "\<exists>d. ?dec (k + 1 + i) (ps ! i) = Inr d" if "i < length ps" for i
    using 2(3) that by (metis Suc_less_eq add_Suc_right add_Suc_shift length_Cons nth_Cons_Suc One_nat_def add.commute plus_1_eq_Suc)
  moreover have "k < 2 ^ 16" using 2(2) by simp
  ultimately obtain ds where "decode_events_from (k + 1) program_id slot' sig instruction ps
      = (Inr ds :: ('b pump_error, decoded_pump_event list) result)"
    using "2.IH" 2(2) d by auto
  then show ?case using d \<open>k < 2 ^ 16\<close> by simp
qed simp

text \<open>
  A batch decodes all or nothing. It decodes exactly when it has at most 65536 payloads and each
  of them decodes, under the event index of its position; one malformed payload fails the batch.
\<close>

theorem batch_decodes_iff:
  "(\<exists>ds. decode_instruction_events program_id slot' sig instruction ps
      = (Inr ds :: ('b pump_error, decoded_pump_event list) result))
   \<longleftrightarrow> length ps \<le> 2 ^ 16
     \<and> (\<forall>i<length ps. \<exists>d. decode_anchor_event program_id (event_coordinate slot' sig instruction i) (ps ! i)
          = (Inr d :: ('b pump_error, decoded_pump_event) result))"
proof -
  let ?dec = "\<lambda>i q. decode_anchor_event program_id (event_coordinate slot' sig instruction i) q
      :: ('b pump_error, decoded_pump_event) result"
  have "length ps \<le> 2 ^ 16 \<and> (\<forall>i<length ps. \<exists>d. ?dec i (ps ! i) = Inr d)"
    if "decode_instruction_events program_id slot' sig instruction ps
      = (Inr ds :: ('b pump_error, decoded_pump_event list) result)" for ds
    using decode_events_from_indices [OF that [unfolded decode_instruction_events_def]] by auto
  then show ?thesis
    using decode_events_from_ok [of 0 ps program_id slot' sig instruction]
    by (auto simp: decode_instruction_events_def)
qed

theorem batch_decodes_iff_witness:
  "\<exists>ds. decode_instruction_events PUMP_PROGRAM_ID 7 ''sig'' 2 [event_bytes example_complete]
      = (Inr ds :: (unit pump_error, decoded_pump_event list) result)"
  unfolding batch_decodes_iff using example_decodes(1) by (auto simp: example_coordinate_def)

text \<open>
  The events of a batch keep their places. When the payloads of an instruction decode, every payload has
  its event, in order, under the event index of its position, and no two events share their
  coordinate.
\<close>

theorem batch_keeps_places:
  assumes "decode_instruction_events program_id slot' sig instruction ps
    = (Inr ds :: ('b pump_error, decoded_pump_event list) result)"
  shows "length ds = length ps
    \<and> (\<forall>i<length ps. decode_anchor_event program_id (decoded_coordinate (ds ! i)) (ps ! i)
          = (Inr (ds ! i) :: ('b pump_error, decoded_pump_event) result)
        \<and> unat (event_index (decoded_coordinate (ds ! i))) = i)
    \<and> distinct (map decoded_coordinate ds)"
proof -
  have ix: "length ds = length ps" "length ps \<le> 2 ^ 16"
    "\<And>i. i < length ps \<Longrightarrow> decode_anchor_event program_id (event_coordinate slot' sig instruction i) (ps ! i)
          = (Inr (ds ! i) :: ('b pump_error, decoded_pump_event) result)"
    using decode_events_from_indices [OF assms [unfolded decode_instruction_events_def]] by simp_all
  have coord: "decoded_coordinate (ds ! i) = event_coordinate slot' sig instruction i" if "i < length ps" for i
    using ix(3) [OF that] by (simp add: decode_anchor_event_iff)
  have idx: "unat (event_index (decoded_coordinate (ds ! i))) = i" if "i < length ps" for i
    using ix(2) that by (simp add: coord event_coordinate_def unat_of_nat_small)
  have "distinct (map decoded_coordinate ds)"
    unfolding distinct_conv_nth using idx ix(1) by (simp) metis
  then show ?thesis using ix coord idx by simp
qed

theorem batch_keeps_places_witness:
  "decode_instruction_events PUMP_PROGRAM_ID 7 ''sig'' 2 [event_bytes example_complete]
     = (Inr [example_decoded] :: (unit pump_error, decoded_pump_event list) result)
   \<and> distinct (map decoded_coordinate [example_decoded])"
proof -
  have "decode_instruction_events PUMP_PROGRAM_ID 7 ''sig'' 2 [event_bytes example_complete]
     = (Inr [example_decoded] :: (unit pump_error, decoded_pump_event list) result)"
    using example_decodes(1)
    by (simp add: decode_instruction_events_def result_simps example_coordinate_def)
  then show ?thesis using batch_keeps_places by blast
qed

end
