(* ===== verification/Normalization.thy ===== *)
theory Normalization
  imports Qualification Windows Pump_Decoder
begin

text \<open>
  From decoded events to observations: \<open>apps/server/src/jobs/pump_swap_pair.rs\<close>, which brings a
  pool's pair of mints into token/quote order, and \<open>apps/server/src/jobs/normalization.rs\<close>, the
  registry of known markets and the translation of every event into a normalized observation.

  Three third-party functions are parameters: \<open>to_value\<close> (serde's JSON value of an event), \<open>sha256\<close>
  and \<open>base64_encode\<close>. A registry whose lock is poisoned answers every call with an error; the
  flag \<open>registry_poisoned\<close> stands for that.
\<close>

section \<open>Pairs\<close>

datatype source_orientation = BaseIsToken | QuoteIsToken

record pump_swap_pair =
  pair_token_mint :: string
  pair_quote_mint :: string
  pair_source_orientation :: source_orientation

definition is_supported_quote_mint :: "network \<Rightarrow> string \<Rightarrow> bool" where
  "is_supported_quote_mint n m \<longleftrightarrow>
     m = NATIVE_SOL_MINT \<or> m = WRAPPED_SOL_MINT \<or> (n = SolanaMainnet \<and> m = CANONICAL_USDC_MINT)"

definition normalize_pump_swap_pair :: "network \<Rightarrow> string \<Rightarrow> string \<Rightarrow> pump_swap_pair option" where
  "normalize_pump_swap_pair n source_base source_quote =
     (case (is_supported_quote_mint n source_base, is_supported_quote_mint n source_quote) of
        (False, True) \<Rightarrow> Some \<lparr>pair_token_mint = source_base, pair_quote_mint = source_quote,
                              pair_source_orientation = BaseIsToken\<rparr>
      | (True, False) \<Rightarrow> Some \<lparr>pair_token_mint = source_quote, pair_quote_mint = source_base,
                              pair_source_orientation = QuoteIsToken\<rparr>
      | _ \<Rightarrow> None)"

section \<open>The registry of markets\<close>

datatype market_lookup_key = LookupPumpMint string | LookupPumpSwapPool string

record registered_market =
  reg_identity :: market_identity
  reg_orientation :: "source_orientation option"

record market_registry =
  markets :: "market_lookup_key \<Rightarrow> registered_market option"
  registry_poisoned :: bool

datatype 'j normalization_error =
    RegistryUnavailable
  | PumpMarketUnresolved string
  | PumpSwapMarketUnresolved string
  | UnsupportedPumpSwapPair string string
  | PumpSwapSourceOrientationRequired
  | QuoteMintMismatch string
  | ZeroTradeAmountError
  | SourceDetails 'j

record 'json normalized_pump_event =
  norm_observation :: "'json normalized_observation"
  norm_discovered_market :: "market_identity option"

definition market_registry_default :: market_registry where
  "market_registry_default = \<lparr>markets = (\<lambda>_. None), registry_poisoned = False\<rparr>"

definition pump_swap_market_identity :: "network \<Rightarrow> string \<Rightarrow> pump_swap_pair \<Rightarrow> market_identity" where
  "pump_swap_market_identity n pool pair =
     \<lparr>market_network = n, mint = pair_token_mint pair, venue = VenuePumpSwap, market_address = pool,
      quote_mint = Some (pair_quote_mint pair)\<rparr>"

definition markets_insert ::
    "market_lookup_key \<Rightarrow> registered_market \<Rightarrow> market_registry
      \<Rightarrow> ('j normalization_error, unit) result \<times> market_registry" where
  "markets_insert key m reg =
     (if registry_poisoned reg then (Inl RegistryUnavailable, reg)
      else (Inr (), reg\<lparr>markets := (markets reg)(key \<mapsto> m)\<rparr>))"

definition register ::
    "market_identity \<Rightarrow> market_registry \<Rightarrow> ('j normalization_error, unit) result \<times> market_registry" where
  "register market reg =
     (case venue market of
        VenuePumpBondingCurve \<Rightarrow>
          markets_insert (LookupPumpMint (mint market))
            \<lparr>reg_identity = market, reg_orientation = None\<rparr> reg
      | VenuePumpSwap \<Rightarrow> (Inl PumpSwapSourceOrientationRequired, reg)
      | VenueRaydiumCpmm \<Rightarrow> (Inr (), reg)
      | VenueRaydiumClmm \<Rightarrow> (Inr (), reg)
      | VenueRaydiumAmmV4 \<Rightarrow> (Inr (), reg))"

definition register_pump_swap_pool ::
    "network \<Rightarrow> string \<Rightarrow> string \<Rightarrow> string \<Rightarrow> market_registry
      \<Rightarrow> ('j normalization_error, market_identity option) result \<times> market_registry" where
  "register_pump_swap_pool n pool source_base source_quote reg =
     (case normalize_pump_swap_pair n source_base source_quote of
        None \<Rightarrow> (Inr None, reg)
      | Some pair \<Rightarrow>
          let market = pump_swap_market_identity n pool pair;
              (res, reg') = markets_insert (LookupPumpSwapPool pool)
                \<lparr>reg_identity = market, reg_orientation = Some (pair_source_orientation pair)\<rparr> reg
          in (result_bind res (\<lambda>_. Inr (Some market)), reg'))"

fun register_all ::
    "market_identity list \<Rightarrow> market_registry \<Rightarrow> ('j normalization_error, unit) result \<times> market_registry" where
  "register_all [] reg = (Inr (), reg)"
| "register_all (m # ms) reg =
     (case register m reg of
        (Inl e, reg') \<Rightarrow> (Inl e, reg')
      | (Inr _, reg') \<Rightarrow> register_all ms reg')"

definition retire_pump_market ::
    "string \<Rightarrow> market_registry \<Rightarrow> ('j normalization_error, unit) result \<times> market_registry" where
  "retire_pump_market m reg =
     (if registry_poisoned reg then (Inl RegistryUnavailable, reg)
      else (Inr (), reg\<lparr>markets := (markets reg)(LookupPumpMint m := None)\<rparr>))"

definition pump_market ::
    "market_registry \<Rightarrow> string \<Rightarrow> ('j normalization_error, market_identity) result" where
  "pump_market reg m =
     (if registry_poisoned reg then Inl RegistryUnavailable
      else ok_or (PumpMarketUnresolved m) (map_option reg_identity (markets reg (LookupPumpMint m))))"

definition pump_swap_market ::
    "market_registry \<Rightarrow> string \<Rightarrow> ('j normalization_error, registered_market) result" where
  "pump_swap_market reg pool =
     (if registry_poisoned reg then Inl RegistryUnavailable
      else ok_or (PumpSwapMarketUnresolved pool) (markets reg (LookupPumpSwapPool pool)))"

section \<open>Normalization\<close>

definition orient_source_amounts :: "source_orientation \<Rightarrow> u64 \<Rightarrow> u64 \<Rightarrow> u64 \<times> u64" where
  "orient_source_amounts o' source_base source_quote =
     (case o' of
        BaseIsToken \<Rightarrow> (source_base, source_quote)
      | QuoteIsToken \<Rightarrow> (source_quote, source_base))"

fun trade_side_of :: "trade_direction \<Rightarrow> trade_side" where
  "trade_side_of DirectionBuy = Buy"
| "trade_side_of DirectionSell = Sell"

definition require_non_zero_trade_amounts :: "u64 \<Rightarrow> u64 \<Rightarrow> ('j normalization_error, unit) result" where
  "require_non_zero_trade_amounts base quote =
     (if base = 0 \<or> quote = 0 then Inl ZeroTradeAmountError else Inr ())"

definition hex_digit :: "nat \<Rightarrow> char" where
  "hex_digit n = ''0123456789abcdef'' ! n"

definition evidence_hash :: "(u8 list \<Rightarrow> u8 list) \<Rightarrow> u8 list \<Rightarrow> string" where
  "evidence_hash sha256 raw =
     concat (map (\<lambda>b. [hex_digit (unat b div 16), hex_digit (unat b mod 16)]) (sha256 raw))"

type_synonym normalized_parts =
  "string \<times> market_identity \<times> observation_payload \<times> market_identity option"

definition bonding_curve_market :: "network \<Rightarrow> string \<Rightarrow> string \<Rightarrow> string \<Rightarrow> market_identity" where
  "bonding_curve_market n m curve quote =
     \<lparr>market_network = n, mint = m, venue = VenuePumpBondingCurve, market_address = curve,
      quote_mint = Some quote\<rparr>"

definition normalize_trade ::
    "pump_trade_event \<Rightarrow> market_registry \<Rightarrow> ('j normalization_error, normalized_parts) result" where
  "normalize_trade e reg =
     result_bind (require_non_zero_trade_amounts (trade_token_amount e) (trade_quote_amount e)) (\<lambda>_.
     result_bind (pump_market reg (trade_mint e)) (\<lambda>market.
     if quote_mint market \<noteq> Some (trade_quote_mint e) then Inl (QuoteMintMismatch (trade_mint e))
     else Inr (''TRADE'', market,
       Trade (trade_side_of (trade_direction e)) (trade_user e) (trade_token_amount e)
         (trade_quote_amount e) (Some (trade_virtual_token_reserves e))
         (Some (trade_virtual_quote_reserves e)), None)))"

definition normalize_create_pool ::
    "network \<Rightarrow> pump_swap_create_pool_event \<Rightarrow> ('j normalization_error, normalized_parts) result" where
  "normalize_create_pool n e =
     result_bind (ok_or (UnsupportedPumpSwapPair (pool_base_mint e) (pool_quote_mint e))
       (normalize_pump_swap_pair n (pool_base_mint e) (pool_quote_mint e))) (\<lambda>pair.
     let market = pump_swap_market_identity n (pool_pool e) pair;
         (base, quote) = orient_source_amounts (pair_source_orientation pair)
           (pool_base_amount_in e) (pool_quote_amount_in e)
     in Inr (''CREATE_POOL'', market, MarketCreated (pool_creator e) base quote, Some market))"

definition oriented_pool ::
    "market_registry \<Rightarrow> string
      \<Rightarrow> ('j normalization_error, market_identity \<times> source_orientation) result" where
  "oriented_pool reg pool =
     result_bind (pump_swap_market reg pool) (\<lambda>registered.
     result_bind (ok_or PumpSwapSourceOrientationRequired (reg_orientation registered)) (\<lambda>o'.
     Inr (reg_identity registered, o')))"

definition trade_event_kind :: "trade_side \<Rightarrow> string" where
  "trade_event_kind side = (case side of Buy \<Rightarrow> ''BUY'' | Sell \<Rightarrow> ''SELL'')"

definition normalize_buy ::
    "pump_swap_buy_event \<Rightarrow> market_registry \<Rightarrow> ('j normalization_error, normalized_parts) result" where
  "normalize_buy e reg =
     result_bind (require_non_zero_trade_amounts (buy_base_amount_out e) (buy_quote_amount_in e)) (\<lambda>_.
     result_bind (oriented_pool reg (buy_pool e)) (\<lambda>(identity, o').
     let (side, base, quote) =
           (case o' of
              BaseIsToken \<Rightarrow> (Buy, buy_base_amount_out e, buy_quote_amount_in e)
            | QuoteIsToken \<Rightarrow> (Sell, buy_quote_amount_in e, buy_base_amount_out e));
         (base_reserve, quote_reserve) = orient_source_amounts o'
           (buy_pool_base_token_reserves e) (buy_pool_quote_token_reserves e)
     in Inr (trade_event_kind side, identity,
          Trade side (buy_user e) base quote (Some base_reserve) (Some quote_reserve), None)))"

definition normalize_sell ::
    "pump_swap_sell_event \<Rightarrow> market_registry \<Rightarrow> ('j normalization_error, normalized_parts) result" where
  "normalize_sell e reg =
     result_bind (require_non_zero_trade_amounts (sell_base_amount_in e) (sell_quote_amount_out e)) (\<lambda>_.
     result_bind (oriented_pool reg (sell_pool e)) (\<lambda>(identity, o').
     let (side, base, quote) =
           (case o' of
              BaseIsToken \<Rightarrow> (Sell, sell_base_amount_in e, sell_quote_amount_out e)
            | QuoteIsToken \<Rightarrow> (Buy, sell_quote_amount_out e, sell_base_amount_in e));
         (base_reserve, quote_reserve) = orient_source_amounts o'
           (sell_pool_base_token_reserves e) (sell_pool_quote_token_reserves e)
     in Inr (trade_event_kind side, identity,
          Trade side (sell_user e) base quote (Some base_reserve) (Some quote_reserve), None)))"

definition normalize_deposit ::
    "pump_swap_deposit_event \<Rightarrow> market_registry \<Rightarrow> ('j normalization_error, normalized_parts) result" where
  "normalize_deposit e reg =
     result_bind (oriented_pool reg (deposit_pool e)) (\<lambda>(identity, o').
     let (base, quote) = orient_source_amounts o' (deposit_base_amount_in e) (deposit_quote_amount_in e);
         (base_reserve, quote_reserve) = orient_source_amounts o'
           (deposit_pool_base_token_reserves e) (deposit_pool_quote_token_reserves e)
     in Inr (''LIQUIDITY_DEPOSIT'', identity,
          LiquidityDeposited (deposit_user e) base quote base_reserve quote_reserve
            (deposit_lp_token_amount_out e) (deposit_lp_mint_supply e), None))"

definition normalize_withdraw ::
    "pump_swap_withdraw_event \<Rightarrow> market_registry \<Rightarrow> ('j normalization_error, normalized_parts) result" where
  "normalize_withdraw e reg =
     result_bind (oriented_pool reg (withdraw_pool e)) (\<lambda>(identity, o').
     let (base, quote) = orient_source_amounts o' (withdraw_base_amount_out e) (withdraw_quote_amount_out e);
         (base_reserve, quote_reserve) = orient_source_amounts o'
           (withdraw_pool_base_token_reserves e) (withdraw_pool_quote_token_reserves e)
     in Inr (''LIQUIDITY_WITHDRAW'', identity,
          LiquidityWithdrawn (withdraw_user e) base quote base_reserve quote_reserve
            (withdraw_lp_token_amount_in e) (withdraw_lp_mint_supply e), None))"

fun normalize_parts ::
    "network \<Rightarrow> market_registry \<Rightarrow> pump_event \<Rightarrow> ('j normalization_error, normalized_parts) result" where
  "normalize_parts n reg (EventCreate e) =
     (let market = bonding_curve_market n (create_mint e) (create_bonding_curve e) (create_quote_mint e)
      in Inr (''CREATE'', market,
           TokenCreated (create_name e) (create_symbol e) (create_uri e) (create_creator e) (create_user e),
           Some market))"
| "normalize_parts n reg (EventTrade e) = normalize_trade e reg"
| "normalize_parts n reg (EventComplete e) =
     Inr (''COMPLETE'',
       bonding_curve_market n (complete_mint e) (complete_bonding_curve e) (complete_quote_mint e),
       MarketCompleted (complete_user e), None)"
| "normalize_parts n reg (EventCompletePumpAmmMigration e) =
     Inr (''COMPLETE_PUMP_AMM_MIGRATION'',
       bonding_curve_market n (migration_mint e) (migration_bonding_curve e) (migration_quote_mint e),
       MarketMigrated (migration_user e) (migration_pool e) (migration_mint_amount e)
         (migration_legacy_sol_amount e), None)"
| "normalize_parts n reg (EventPumpSwapCreatePool e) = normalize_create_pool n e"
| "normalize_parts n reg (EventPumpSwapBuy e) = normalize_buy e reg"
| "normalize_parts n reg (EventPumpSwapSell e) = normalize_sell e reg"
| "normalize_parts n reg (EventPumpSwapDeposit e) = normalize_deposit e reg"
| "normalize_parts n reg (EventPumpSwapWithdraw e) = normalize_withdraw e reg"

definition source_event_time :: "decoded_pump_event \<Rightarrow> i64 option" where
  "source_event_time d =
     (case checked_mul_i64 (source_event_time_unix_seconds d) 1000 of
        None \<Rightarrow> None
      | Some t \<Rightarrow> if 0 \<le> t then Some t else None)"

definition normalize_pump_event ::
    "(pump_event \<Rightarrow> ('j, 'json) result) \<Rightarrow> (u8 list \<Rightarrow> u8 list) \<Rightarrow> (u8 list \<Rightarrow> string)
      \<Rightarrow> decoded_pump_event \<Rightarrow> network \<Rightarrow> commitment \<Rightarrow> i64 \<Rightarrow> u8 list \<Rightarrow> market_registry
      \<Rightarrow> ('j normalization_error, 'json normalized_pump_event) result" where
  "normalize_pump_event to_value sha256 base64_encode d n commitment' received raw reg =
     result_bind (map_err SourceDetails (to_value (decoded_event d))) (\<lambda>details.
     result_bind (normalize_parts n reg (decoded_event d)) (\<lambda>(kind, market, payload', discovered).
     Inr \<lparr>norm_observation =
            \<lparr>obs_key = \<lparr>key_network = n, key_program = pump_source_program (decoded_program d),
                        key_coordinate = decoded_coordinate d\<rparr>,
             obs_commitment = commitment', schema_version = DECODER_SCHEMA_VERSION,
             decoder_version = DECODER_VERSION, event_kind = kind, obs_market = market,
             source_event_time_unix_ms = source_event_time d, received_time_unix_ms = received,
             raw_evidence_hash = evidence_hash sha256 raw,
             source_evidence_base64 = base64_encode raw, source_details = details,
             payload = payload'\<rparr>,
          norm_discovered_market = discovered\<rparr>))"

end
