(* ===== verification/Normalization_Correct.thy ===== *)
theory Normalization_Correct
  imports Normalization
begin

text \<open>
  What normalization promises: the registry of markets stays consistent with its keys, a pool's
  events come out in token/quote order whatever the order of the pool's own pair, an event is
  refused for a stated reason only, every trade that passes is valid for the snapshot, and the
  stored evidence replays to the event it came from.
\<close>

section \<open>Consistent registries\<close>

definition registered_consistent :: "market_lookup_key \<Rightarrow> registered_market \<Rightarrow> bool" where
  "registered_consistent key m \<longleftrightarrow>
     (case key of
        LookupPumpMint i \<Rightarrow> venue (reg_identity m) = VenuePumpBondingCurve \<and> mint (reg_identity m) = i
      | LookupPumpSwapPool p \<Rightarrow>
          venue (reg_identity m) = VenuePumpSwap \<and> market_address (reg_identity m) = p
          \<and> reg_orientation m \<noteq> None)"

definition registry_ok :: "market_registry \<Rightarrow> bool" where
  "registry_ok reg \<longleftrightarrow> \<not> registry_poisoned reg
     \<and> (\<forall>key m. markets reg key = Some m \<longrightarrow> registered_consistent key m)"

text \<open>An operation on the registry keeps it consistent, so that a sequence of them does.\<close>

locale market_operation =
  fixes f :: "market_registry \<Rightarrow> market_registry"
  assumes keeps: "registry_ok reg \<Longrightarrow> registry_ok (f reg)"
begin

lemma keeps_lookup:
  "registry_ok reg \<Longrightarrow> markets (f reg) key = Some m \<Longrightarrow> registered_consistent key m"
  using keeps by (auto simp: registry_ok_def)

lemma keeps_iterated: "registry_ok reg \<Longrightarrow> registry_ok ((f ^^ k) reg)"
  by (induction k) (simp_all add: keeps)

end

lemma registry_ok_insert:
  assumes "registry_ok reg" and "registered_consistent key m"
  shows "registry_ok (snd (markets_insert key m reg :: ('j normalization_error, unit) result \<times> market_registry))"
  using assms by (auto simp: registry_ok_def markets_insert_def split: if_splits)

interpretation register_op: market_operation
  "\<lambda>reg. snd (register market reg :: ('j normalization_error, unit) result \<times> market_registry)" for market
  by unfold_locales
     (auto simp: register_def registered_consistent_def intro: registry_ok_insert split: venue.splits)

interpretation register_pool_op: market_operation
  "\<lambda>reg. snd (register_pump_swap_pool n pool b q reg
      :: ('j normalization_error, market_identity option) result \<times> market_registry)" for n pool b q
proof unfold_locales
  fix reg assume "registry_ok reg"
  then show "registry_ok (snd (register_pump_swap_pool n pool b q reg
      :: ('j normalization_error, market_identity option) result \<times> market_registry))"
    using registry_ok_insert [of reg "LookupPumpSwapPool pool", where 'j = 'j]
    by (auto simp: register_pump_swap_pool_def Let_def case_prod_unfold registered_consistent_def
        pump_swap_market_identity_def split: option.splits)
qed

interpretation retire_op: market_operation
  "\<lambda>reg. snd (retire_pump_market m reg :: ('j normalization_error, unit) result \<times> market_registry)" for m
  by unfold_locales (auto simp: retire_pump_market_def registry_ok_def)

interpretation register_all_op: market_operation
  "\<lambda>reg. snd (register_all ms reg :: ('j normalization_error, unit) result \<times> market_registry)" for ms
proof unfold_locales
  fix reg assume "registry_ok reg"
  then show "registry_ok (snd (register_all ms reg :: ('j normalization_error, unit) result \<times> market_registry))"
  proof (induction ms arbitrary: reg)
    case (Cons m ms)
    obtain res :: "('j normalization_error, unit) result" and reg' where r: "register m reg = (res, reg')"
      by fastforce
    have "registry_ok (snd (register m reg :: ('j normalization_error, unit) result \<times> market_registry))"
      by (rule register_op.keeps [OF Cons.prems])
    then have "registry_ok reg'" by (simp add: r)
    then show ?case using Cons.IH by (cases res) (simp_all add: r)
  qed simp
qed

text \<open>The registries a running server can hold.\<close>

inductive market_reachable :: "market_registry \<Rightarrow> bool" where
  reach_default: "market_reachable market_registry_default"
| reach_register: "market_reachable reg \<Longrightarrow>
    market_reachable (snd (register market reg :: (unit normalization_error, unit) result \<times> market_registry))"
| reach_pool: "market_reachable reg \<Longrightarrow>
    market_reachable (snd (register_pump_swap_pool n pool b q reg
      :: (unit normalization_error, market_identity option) result \<times> market_registry))"
| reach_all: "market_reachable reg \<Longrightarrow>
    market_reachable (snd (register_all ms reg :: (unit normalization_error, unit) result \<times> market_registry))"
| reach_retire: "market_reachable reg \<Longrightarrow>
    market_reachable (snd (retire_pump_market m reg :: (unit normalization_error, unit) result \<times> market_registry))"

lemma market_reachable_ok: "market_reachable reg \<Longrightarrow> registry_ok reg"
proof (induction rule: market_reachable.induct)
  case reach_default
  show ?case by (simp add: registry_ok_def market_registry_default_def)
qed (blast intro: register_op.keeps register_pool_op.keeps register_all_op.keeps retire_op.keeps)+

lemma registry_ok_pump:
  "registry_ok reg \<Longrightarrow> pump_market reg m = Inr market \<Longrightarrow>
     venue market = VenuePumpBondingCurve \<and> mint market = m"
  by (auto simp: registry_ok_def pump_market_def result_simps registered_consistent_def
      split: if_splits market_lookup_key.splits)

lemma registry_ok_pool:
  "registry_ok reg \<Longrightarrow> oriented_pool reg p = Inr (market, o') \<Longrightarrow>
     venue market = VenuePumpSwap \<and> market_address market = p"
  by (auto simp: registry_ok_def oriented_pool_def pump_swap_market_def result_simps
      registered_consistent_def split: if_splits market_lookup_key.splits)

lemma oriented_pool_ok:
  assumes "registry_ok reg"
  shows "(\<exists>x. oriented_pool reg p = Inr x) \<longleftrightarrow> markets reg (LookupPumpSwapPool p) \<noteq> None"
  using assms
  by (fastforce simp: registry_ok_def oriented_pool_def pump_swap_market_def result_simps
      registered_consistent_def split: market_lookup_key.splits)

section \<open>Orientation\<close>

text \<open>
  The pool an event concerns, who acted, on which side of the pool's own base mint, and the amounts
  and reserves in the pool's own order.
\<close>

fun pool_flow :: "pump_event \<Rightarrow> (string \<times> trade_side option \<times> string \<times> u64 \<times> u64 \<times> u64 \<times> u64) option" where
  "pool_flow (EventPumpSwapBuy e) =
     Some (buy_pool e, Some Buy, buy_user e, buy_base_amount_out e, buy_quote_amount_in e,
       buy_pool_base_token_reserves e, buy_pool_quote_token_reserves e)"
| "pool_flow (EventPumpSwapSell e) =
     Some (sell_pool e, Some Sell, sell_user e, sell_base_amount_in e, sell_quote_amount_out e,
       sell_pool_base_token_reserves e, sell_pool_quote_token_reserves e)"
| "pool_flow (EventPumpSwapDeposit e) =
     Some (deposit_pool e, None, deposit_user e, deposit_base_amount_in e, deposit_quote_amount_in e,
       deposit_pool_base_token_reserves e, deposit_pool_quote_token_reserves e)"
| "pool_flow (EventPumpSwapWithdraw e) =
     Some (withdraw_pool e, None, withdraw_user e, withdraw_base_amount_out e, withdraw_quote_amount_out e,
       withdraw_pool_base_token_reserves e, withdraw_pool_quote_token_reserves e)"
| "pool_flow _ = None"

text \<open>The same facts as a normalized payload states them, in token/quote order.\<close>

fun payload_flow :: "observation_payload \<Rightarrow> (trade_side option \<times> string \<times> u64 \<times> u64 \<times> u64 \<times> u64) option" where
  "payload_flow (Trade s w b q (Some br) (Some qr)) = Some (Some s, w, b, q, br, qr)"
| "payload_flow (LiquidityDeposited w b q br qr _ _) = Some (None, w, b, q, br, qr)"
| "payload_flow (LiquidityWithdrawn w b q br qr _ _) = Some (None, w, b, q, br, qr)"
| "payload_flow _ = None"

fun opposite_side :: "trade_side \<Rightarrow> trade_side" where
  "opposite_side Buy = Sell"
| "opposite_side Sell = Buy"

definition oriented_flow ::
    "source_orientation \<Rightarrow> trade_side option \<times> string \<times> u64 \<times> u64 \<times> u64 \<times> u64
      \<Rightarrow> trade_side option \<times> string \<times> u64 \<times> u64 \<times> u64 \<times> u64" where
  "oriented_flow o' flow = (let (s, w, b, q, br, qr) = flow in
     case o' of BaseIsToken \<Rightarrow> (s, w, b, q, br, qr)
      | QuoteIsToken \<Rightarrow> (map_option opposite_side s, w, q, b, qr, br))"

lemmas normalize_pool_defs =
  normalize_buy_def normalize_sell_def normalize_deposit_def normalize_withdraw_def

lemma normalize_parts_flow:
  assumes "normalize_parts n reg ev = (Inr (kind, market, p, disc) :: ('j normalization_error, normalized_parts) result)"
    and "pool_flow ev = Some (pool, flow)"
  shows "\<exists>o'. oriented_pool reg pool = (Inr (market, o') :: ('j normalization_error, _) result)
    \<and> payload_flow p = Some (oriented_flow o' flow)"
proof (cases "oriented_pool reg pool :: ('j normalization_error, market_identity \<times> source_orientation) result")
  case (Inl e)
  then show ?thesis
    using assms by (cases ev) (auto simp: normalize_pool_defs require_non_zero_trade_amounts_def split: if_splits)
next
  case (Inr mo)
  obtain m o' where mo: "mo = (m, o')" by fastforce
  show ?thesis
    using assms Inr
    by (cases ev; cases o')
       (auto simp: mo normalize_pool_defs require_non_zero_trade_amounts_def oriented_flow_def
         orient_source_amounts_def split: if_splits)
qed

lemma normalize_pair_cases:
  assumes "normalize_pump_swap_pair n b q = Some pair"
  shows "b \<noteq> q \<and> is_supported_quote_mint n (pair_quote_mint pair)
    \<and> \<not> is_supported_quote_mint n (pair_token_mint pair)
    \<and> (if pair_token_mint pair = b then pair_quote_mint pair = q \<and> pair_source_orientation pair = BaseIsToken
       else pair_token_mint pair = q \<and> pair_quote_mint pair = b \<and> pair_source_orientation pair = QuoteIsToken)"
  using assms by (auto simp: normalize_pump_swap_pair_def split: bool.splits)

lemma normalize_pump_event_Inr:
  "normalize_pump_event to_value sha256 base64_encode d n c received raw reg = Inr ne \<longleftrightarrow>
    (\<exists>details kind market p disc.
      to_value (decoded_event d) = Inr details
      \<and> normalize_parts n reg (decoded_event d) = (Inr (kind, market, p, disc) :: ('j normalization_error, _) result)
      \<and> ne = \<lparr>norm_observation =
            \<lparr>obs_key = \<lparr>key_network = n, key_program = pump_source_program (decoded_program d),
                        key_coordinate = decoded_coordinate d\<rparr>,
             obs_commitment = c, schema_version = DECODER_SCHEMA_VERSION,
             decoder_version = DECODER_VERSION, event_kind = kind, obs_market = market,
             source_event_time_unix_ms = source_event_time d, received_time_unix_ms = received,
             raw_evidence_hash = evidence_hash sha256 raw,
             source_evidence_base64 = base64_encode raw, source_details = details,
             payload = p\<rparr>,
          norm_discovered_market = disc\<rparr>)"
  for to_value :: "pump_event \<Rightarrow> ('j, 'json) result"
  by (auto simp: normalize_pump_event_def result_simps)

text \<open>
  C27: whatever the order in which a pool lists its two mints, its events are recorded in
  token/quote order. For a registered pool exactly one of the two mints is a supported quote asset;
  the recorded base amounts and reserves are those of the other one, the token, and a swap that
  buys the pool's base mint is a sale of the token when the token is the pool's quote mint.
\<close>

theorem pool_orientation_exact:
  fixes to_value :: "pump_event \<Rightarrow> ('j, 'json) result"
  assumes "register_pump_swap_pool n pool b q reg
      = (Inr (Some market) :: ('j normalization_error, _) result, reg')"
    and "normalize_pump_event to_value sha256 base64_encode d n c received raw reg' = Inr ne"
    and "pool_flow (decoded_event d) = Some (pool, side, user, base, quote, base_reserve, quote_reserve)"
  shows "obs_market (norm_observation ne) = market
    \<and> (mint market = b \<and> quote_mint market = Some q \<or> mint market = q \<and> quote_mint market = Some b)
    \<and> b \<noteq> q \<and> \<not> is_supported_quote_mint n (mint market)
    \<and> payload_flow (payload (norm_observation ne)) =
        Some (if mint market = b then (side, user, base, quote, base_reserve, quote_reserve)
              else (map_option opposite_side side, user, quote, base, quote_reserve, base_reserve))"
proof -
  from assms(1) obtain pair where pair: "normalize_pump_swap_pair n b q = Some pair"
      "market = pump_swap_market_identity n pool pair" "\<not> registry_poisoned reg"
      "reg' = reg\<lparr>markets := (markets reg)(LookupPumpSwapPool pool \<mapsto>
          \<lparr>reg_identity = market, reg_orientation = Some (pair_source_orientation pair)\<rparr>)\<rparr>"
    by (auto simp: register_pump_swap_pool_def Let_def markets_insert_def split: option.splits if_splits)
  from assms(2) obtain kind p disc where parts:
      "normalize_parts n reg' (decoded_event d)
        = (Inr (kind, obs_market (norm_observation ne), p, disc) :: ('j normalization_error, _) result)"
      "payload (norm_observation ne) = p"
    by (auto simp: normalize_pump_event_Inr)
  from normalize_parts_flow [OF parts(1) assms(3)] obtain o' where o':
      "oriented_pool reg' pool = (Inr (obs_market (norm_observation ne), o') :: ('j normalization_error, _) result)"
      "payload_flow p = Some (oriented_flow o' (side, user, base, quote, base_reserve, quote_reserve))"
    by blast
  then have "obs_market (norm_observation ne) = market \<and> o' = pair_source_orientation pair"
    by (simp add: pair(3,4) oriented_pool_def pump_swap_market_def)
  then show ?thesis
    using normalize_pair_cases [OF pair(1)] o'(2) parts(2)
    by (auto simp: pair(2) pump_swap_market_identity_def oriented_flow_def split: if_splits)
qed

definition example_deposit :: pump_swap_deposit_event where
  "example_deposit = \<lparr>deposit_timestamp = 1700000000, deposit_lp_token_amount_out = 9,
     deposit_max_base_amount_in = 3, deposit_max_quote_amount_in = 7,
     deposit_user_base_token_reserves = 0, deposit_user_quote_token_reserves = 0,
     deposit_pool_base_token_reserves = 30, deposit_pool_quote_token_reserves = 70,
     deposit_base_amount_in = 3, deposit_quote_amount_in = 7, deposit_lp_mint_supply = 100,
     deposit_pool = ''pool'', deposit_user = ''user'', deposit_user_base_token_account = ''a'',
     deposit_user_quote_token_account = ''b'', deposit_user_pool_token_account = ''c''\<rparr>"

definition example_deposit_event :: decoded_pump_event where
  "example_deposit_event = \<lparr>decoded_program = PumpSwap, decoded_coordinate = example_coordinate,
     decoded_event = EventPumpSwapDeposit example_deposit\<rparr>"

lemma quote_mints_distinct [simp]:
  "WRAPPED_SOL_MINT \<noteq> ''token''" "NATIVE_SOL_MINT \<noteq> ''token''" "CANONICAL_USDC_MINT \<noteq> ''token''"
  "''token'' \<noteq> WRAPPED_SOL_MINT" "''token'' \<noteq> NATIVE_SOL_MINT" "''token'' \<noteq> CANONICAL_USDC_MINT"
  by (simp_all add: WRAPPED_SOL_MINT_def NATIVE_SOL_MINT_def CANONICAL_USDC_MINT_def)

text \<open>A pool whose base mint is wrapped SOL, so that the token is its quote mint.\<close>

definition example_pool_registry :: "string \<Rightarrow> market_registry" where
  "example_pool_registry pool = snd (register_pump_swap_pool SolanaMainnet pool WRAPPED_SOL_MINT ''token''
     market_registry_default :: (unit normalization_error, _) result \<times> _)"

definition example_pool_market :: "string \<Rightarrow> market_identity" where
  "example_pool_market pool = \<lparr>market_network = SolanaMainnet, mint = ''token'', venue = VenuePumpSwap,
     market_address = pool, quote_mint = Some WRAPPED_SOL_MINT\<rparr>"

lemma example_registration:
  "register_pump_swap_pool SolanaMainnet pool WRAPPED_SOL_MINT ''token'' market_registry_default
     = (Inr (Some (example_pool_market pool)) :: (unit normalization_error, _) result, example_pool_registry pool)"
  by (simp add: example_pool_registry_def example_pool_market_def register_pump_swap_pool_def
      normalize_pump_swap_pair_def is_supported_quote_mint_def markets_insert_def
      market_registry_default_def pump_swap_market_identity_def Let_def)

lemma example_pool_lookup:
  "oriented_pool (example_pool_registry pool) pool
     = (Inr (example_pool_market pool, QuoteIsToken) :: ('j normalization_error, _) result)"
  by (simp add: example_pool_registry_def example_pool_market_def register_pump_swap_pool_def
      normalize_pump_swap_pair_def is_supported_quote_mint_def markets_insert_def
      market_registry_default_def pump_swap_market_identity_def oriented_pool_def pump_swap_market_def Let_def)

text \<open>Stand-ins for the third-party functions: JSON as a unit, a constant digest, bytes as characters.\<close>

definition example_to_value :: "pump_event \<Rightarrow> (unit, unit) result" where
  "example_to_value ev = Inr ()"

definition example_sha256 :: "u8 list \<Rightarrow> u8 list" where
  "example_sha256 bs = replicate 32 (of_nat (length bs))"

definition example_encode :: "u8 list \<Rightarrow> string" where
  "example_encode = map char_of_byte"

definition example_decode :: "string \<Rightarrow> (unit, u8 list) result" where
  "example_decode s = Inr (map byte_of_char s)"

lemma example_base64: "example_decode (example_encode bs) = Inr bs"
  by (simp add: example_decode_def example_encode_def del: map_map)

definition example_normalized :: "unit normalized_pump_event" where
  "example_normalized =
     \<lparr>norm_observation =
        \<lparr>obs_key = \<lparr>key_network = SolanaMainnet, key_program = SourcePumpSwap,
                    key_coordinate = example_coordinate\<rparr>,
         obs_commitment = Confirmed, schema_version = DECODER_SCHEMA_VERSION,
         decoder_version = DECODER_VERSION, event_kind = ''LIQUIDITY_DEPOSIT'',
         obs_market = example_pool_market ''pool'', source_event_time_unix_ms = Some 1700000000000,
         received_time_unix_ms = 5, raw_evidence_hash = evidence_hash example_sha256 [1],
         source_evidence_base64 = example_encode [1], source_details = (),
         payload = LiquidityDeposited ''user'' 7 3 70 30 9 100\<rparr>,
      norm_discovered_market = None\<rparr>"

lemma example_normalizes:
  "normalize_pump_event example_to_value example_sha256 example_encode example_deposit_event
     SolanaMainnet Confirmed 5 [1] (example_pool_registry ''pool'') = Inr example_normalized"
  by (simp add: normalize_pump_event_Inr example_to_value_def example_deposit_event_def
      normalize_deposit_def example_pool_lookup example_deposit_def orient_source_amounts_def
      example_normalized_def source_event_time_def source_event_time_unix_seconds_def
      checked_mul_i64_def in_i64_def i64_bounds)

theorem pool_orientation_exact_witness:
  "payload_flow (payload (norm_observation example_normalized)) = Some (None, ''user'', 7, 3, 70, 30)"
  using pool_orientation_exact [OF example_registration example_normalizes,
      of None "''user''" 3 7 30 70]
  by (simp add: example_deposit_event_def example_deposit_def example_pool_market_def)

section \<open>When an event normalizes\<close>

text \<open>What the registry and the event must satisfy for the event to become an observation.\<close>

fun normalizable :: "network \<Rightarrow> market_registry \<Rightarrow> pump_event \<Rightarrow> bool" where
  "normalizable n reg (EventCreate e) = True"
| "normalizable n reg (EventComplete e) = True"
| "normalizable n reg (EventCompletePumpAmmMigration e) = True"
| "normalizable n reg (EventTrade e) =
     (trade_token_amount e \<noteq> 0 \<and> trade_quote_amount e \<noteq> 0
      \<and> (case markets reg (LookupPumpMint (trade_mint e)) of
           None \<Rightarrow> False | Some m \<Rightarrow> quote_mint (reg_identity m) = Some (trade_quote_mint e)))"
| "normalizable n reg (EventPumpSwapCreatePool e) =
     (is_supported_quote_mint n (pool_base_mint e) \<noteq> is_supported_quote_mint n (pool_quote_mint e))"
| "normalizable n reg (EventPumpSwapBuy e) =
     (buy_base_amount_out e \<noteq> 0 \<and> buy_quote_amount_in e \<noteq> 0
      \<and> markets reg (LookupPumpSwapPool (buy_pool e)) \<noteq> None)"
| "normalizable n reg (EventPumpSwapSell e) =
     (sell_base_amount_in e \<noteq> 0 \<and> sell_quote_amount_out e \<noteq> 0
      \<and> markets reg (LookupPumpSwapPool (sell_pool e)) \<noteq> None)"
| "normalizable n reg (EventPumpSwapDeposit e) = (markets reg (LookupPumpSwapPool (deposit_pool e)) \<noteq> None)"
| "normalizable n reg (EventPumpSwapWithdraw e) = (markets reg (LookupPumpSwapPool (withdraw_pool e)) \<noteq> None)"

lemma normalize_pool_ok:
  assumes "pool_flow ev = Some (pool, side, user, b, q, br, qr)"
  shows "(\<exists>x. normalize_parts n reg ev = (Inr x :: ('j normalization_error, normalized_parts) result)) \<longleftrightarrow>
    (side \<noteq> None \<longrightarrow> b \<noteq> 0 \<and> q \<noteq> 0)
    \<and> (\<exists>x. oriented_pool reg pool = (Inr x :: ('j normalization_error, market_identity \<times> source_orientation) result))"
proof (cases "oriented_pool reg pool :: ('j normalization_error, market_identity \<times> source_orientation) result")
  case (Inl e)
  then show ?thesis
    using assms by (cases ev) (auto simp: normalize_pool_defs require_non_zero_trade_amounts_def)
next
  case (Inr mo)
  obtain m o' where mo: "mo = (m, o')" by fastforce
  show ?thesis
    using assms Inr
    by (cases ev; cases o')
       (auto simp: mo normalize_pool_defs require_non_zero_trade_amounts_def orient_source_amounts_def)
qed

lemma normalize_parts_ok:
  assumes "registry_ok reg"
  shows "(\<exists>x. normalize_parts n reg ev = (Inr x :: ('j normalization_error, normalized_parts) result))
    \<longleftrightarrow> normalizable n reg ev"
proof (cases "pool_flow ev")
  case (Some flow)
  obtain pool side user b q br qr where "flow = (pool, side, user, b, q, br, qr)" by (cases flow) auto
  with Some show ?thesis
    using normalize_pool_ok [of ev pool side user b q br qr n reg, where 'j = 'j]
      oriented_pool_ok [OF assms, of pool, where 'a = 'j]
    by (cases ev) auto
next
  case None
  have trade: "(\<exists>x. normalize_trade e reg = (Inr x :: ('j normalization_error, normalized_parts) result))
      \<longleftrightarrow> normalizable n reg (EventTrade e)" for e
    using assms
    by (auto simp: normalize_trade_def require_non_zero_trade_amounts_def pump_market_def registry_ok_def
        split: option.splits)
  have pool: "(\<exists>x. normalize_create_pool n e = (Inr x :: ('j normalization_error, normalized_parts) result))
      \<longleftrightarrow> normalizable n reg (EventPumpSwapCreatePool e)" for e
    by (simp add: normalize_create_pool_def normalize_pump_swap_pair_def orient_source_amounts_def Let_def
        split: bool.splits)
  from None show ?thesis using trade pool by (cases ev) (auto simp: Let_def)
qed

text \<open>
  An event becomes an observation exactly when the registry knows its market, a trade's amounts
  are not zero and its quote mint is the market's, and a new pool has exactly one supported quote
  mint. Creations, completions and migrations always normalize.
\<close>

theorem normalization_total:
  fixes to_value :: "pump_event \<Rightarrow> ('j, 'json) result"
  assumes "market_reachable reg"
  shows "(\<exists>ne. normalize_pump_event to_value sha256 base64_encode d n c received raw reg = Inr ne)
    \<longleftrightarrow> (\<exists>v. to_value (decoded_event d) = Inr v) \<and> normalizable n reg (decoded_event d)"
  unfolding normalize_parts_ok [OF market_reachable_ok [OF assms], where 'j = 'j, symmetric]
  by (auto simp: normalize_pump_event_Inr)

lemma example_reachable: "market_reachable (example_pool_registry pool)"
  unfolding example_pool_registry_def by (intro market_reachable.intros)

theorem normalization_total_witness:
  "\<exists>ne. normalize_pump_event example_to_value example_sha256 example_encode example_deposit_event
     SolanaMainnet Confirmed 5 [1] (example_pool_registry ''pool'') = Inr ne"
  using normalization_total [OF example_reachable, of example_to_value example_sha256 example_encode
      example_deposit_event SolanaMainnet Confirmed 5 "[1]"] example_normalizes
  by (auto simp: example_to_value_def)

section \<open>Trades are valid, evidence replays\<close>

lemma alphabet_printable: "list_all (\<lambda>c. 33 \<le> (of_char c :: nat) \<and> (of_char c :: nat) < 128) ALPHABET"
  by (simp add: ALPHABET_def)

lemma length_ALPHABET: "length ALPHABET = 58"
  by (simp add: ALPHABET_def)

lemma encode_base58_alphabet: "set (encode_base58 bs) \<subseteq> set ALPHABET"
proof -
  have "d < 58" if "d \<in> set (base58_trim (base58_digits [0] bs))" for d
    using that base58_trim_facts base58_digits_small [where ds = "[0]"] by fastforce
  then have "ALPHABET ! d \<in> set ALPHABET" if "d \<in> set (base58_trim (base58_digits [0] bs))" for d
    using that by (simp add: length_ALPHABET)
  moreover have "CHR ''1'' \<in> set ALPHABET" by (simp add: ALPHABET_def)
  ultimately show ?thesis by (auto simp: encode_base58_def Let_def)
qed

lemma encode_base58_not_blank:
  assumes "length bs = 32"
  shows "\<not> trim_is_empty (encode_base58 bs)"
proof (cases "encode_base58 bs")
  case Nil
  then have "be_value bs = 0" using base58_value_encode [of bs] by (simp add: base58_value_def)
  then have "bs = replicate 32 0"
    using pubkey_bytes_encode [OF assms] pubkey_bytes_encode [of "replicate 32 0"]
      base58_value_encode [of bs] base58_value_encode [of "replicate 32 0"]
    by (simp add: pubkey_bytes_def be_value_zeroes)
  with Nil show ?thesis by (simp add: encode_base58_def)
next
  case (Cons c cs)
  then have "c \<in> set ALPHABET" using encode_base58_alphabet [of bs] by auto
  with Cons show ?thesis using alphabet_printable printable_not_blank by (auto simp: list_all_iff)
qed

text \<open>The wallet and the amounts of a trade, as an event states them.\<close>

fun event_trade :: "pump_event \<Rightarrow> (string \<times> u64 \<times> u64) option" where
  "event_trade (EventTrade e) = Some (trade_user e, trade_token_amount e, trade_quote_amount e)"
| "event_trade (EventPumpSwapBuy e) = Some (buy_user e, buy_base_amount_out e, buy_quote_amount_in e)"
| "event_trade (EventPumpSwapSell e) = Some (sell_user e, sell_base_amount_in e, sell_quote_amount_out e)"
| "event_trade _ = None"

lemma valid_event_wallet:
  "valid_event ev \<Longrightarrow> event_trade ev = Some (w, b, q) \<Longrightarrow> valid_pubkey w"
  by (cases ev) (auto simp: valid_pump_trade_def valid_pump_swap_buy_def valid_pump_swap_sell_def)

lemma normalize_parts_trade:
  assumes "normalize_parts n reg ev = (Inr (kind, market, Trade s w b q br qr, disc)
      :: ('j normalization_error, normalized_parts) result)"
  shows "b \<noteq> 0 \<and> q \<noteq> 0 \<and> (\<exists>b' q'. event_trade ev = Some (w, b', q'))"
proof (cases "pool_flow ev")
  case (Some flow)
  obtain pool side user b' q' br' qr' where flow: "flow = (pool, side, user, b', q', br', qr')"
    by (cases flow) auto
  obtain o' where "payload_flow (Trade s w b q br qr) = Some (oriented_flow o' (side, user, b', q', br', qr'))"
    using normalize_parts_flow [OF assms Some [unfolded flow]] by blast
  moreover have "side \<noteq> None \<longrightarrow> b' \<noteq> 0 \<and> q' \<noteq> 0"
    using normalize_pool_ok [OF Some [unfolded flow], of n reg, where 'j = 'j] assms by blast
  ultimately show ?thesis
    using Some flow
    by (cases ev; cases br; cases qr; cases o') (auto simp: oriented_flow_def)
next
  case None
  with assms show ?thesis
    by (cases ev)
       (auto simp: normalize_trade_def normalize_create_pool_def require_non_zero_trade_amounts_def
         result_simps Let_def split: if_splits prod.splits)
qed

text \<open>
  C39: no event that was decoded and normalized can spoil the completeness of its window. The wallet
  of a decoded trade is a rendered key, hence not blank, and trades with a zero amount are refused,
  so that every trade the snapshot builder receives on this path is valid.
\<close>

theorem decoded_trades_are_valid:
  fixes to_value :: "pump_event \<Rightarrow> ('j, 'json) result"
  assumes "decode_anchor_event program_id coordinate bytes
      = (Inr d :: ('b pump_error, decoded_pump_event) result)"
    and "normalize_pump_event to_value sha256 base64_encode d n c received raw reg = Inr ne"
  shows "\<not> invalid_trade (norm_observation ne)"
proof -
  have valid: "valid_event (decoded_event d)"
    using assms(1) by (simp add: decode_anchor_event_iff)
  from assms(2) obtain kind disc where parts: "normalize_parts n reg (decoded_event d)
      = (Inr (kind, obs_market (norm_observation ne), payload (norm_observation ne), disc)
          :: ('j normalization_error, _) result)"
    by (auto simp: normalize_pump_event_Inr)
  show ?thesis
  proof (cases "payload (norm_observation ne)")
    case (Trade s w b q br qr)
    from normalize_parts_trade [OF parts [unfolded Trade]] valid
    have "b \<noteq> 0" "q \<noteq> 0" "valid_pubkey w" by (auto dest: valid_event_wallet)
    then have "\<not> trim_is_empty w"
      using encode_base58_not_blank [of "pubkey_bytes w"]
      by (simp add: valid_pubkey_def pubkey_bytes_def)
    with \<open>b \<noteq> 0\<close> \<open>q \<noteq> 0\<close> show ?thesis by (simp add: invalid_trade_def trade_fact_of_def Trade)
  qed (simp_all add: invalid_trade_def)
qed

text \<open>
  The stored evidence replays. Whenever the base64 decoder undoes the encoder, the evidence of an
  observation that came from a program data log decodes again, under the coordinate stored in
  its key, to the very event the observation was made from.
\<close>

theorem evidence_replays:
  fixes to_value :: "pump_event \<Rightarrow> ('j, 'json) result"
  assumes "\<And>bs. base64_decode (base64_encode bs) = (Inr bs :: ('b, u8 list) result)"
    and "decode_program_data_log base64_decode program_id coordinate line = Inr d"
    and "decode_program_data_bytes base64_decode line = Inr raw"
    and "normalize_pump_event to_value sha256 base64_encode d n c received raw reg = Inr ne"
  defines "ob \<equiv> norm_observation ne"
  shows "decode_program_data_log base64_decode program_id (key_coordinate (obs_key ob))
      (PROGRAM_DATA_PREFIX @ source_evidence_base64 ob) = Inr d"
proof -
  have "decode_anchor_event program_id coordinate raw = (Inr d :: ('b pump_error, _) result)"
    using assms(2,3) by (simp add: decode_program_data_log_def)
  moreover from this have "decoded_coordinate d = coordinate" by (simp add: decode_anchor_event_iff)
  moreover have "key_coordinate (obs_key ob) = decoded_coordinate d" "source_evidence_base64 ob = base64_encode raw"
    using assms(4) by (auto simp: normalize_pump_event_Inr ob_def)
  ultimately show ?thesis
    by (simp add: decode_program_data_log_def decode_program_data_bytes_def assms(1) map_err_def)
qed

text \<open>A sale on a pool, with rendered keys as its addresses.\<close>

definition example_key :: "u8 \<Rightarrow> string" where
  "example_key k = encode_base58 (replicate 32 k)"

definition example_sell :: pump_swap_sell_event where
  "example_sell = \<lparr>sell_timestamp = 1700000000, sell_base_amount_in = 5, sell_min_quote_amount_out = 1,
     sell_user_base_token_reserves = 0, sell_user_quote_token_reserves = 0,
     sell_pool_base_token_reserves = 50, sell_pool_quote_token_reserves = 80, sell_quote_amount_out = 8,
     sell_lp_fee_basis_points = 0, sell_lp_fee_amount = 0, sell_protocol_fee_basis_points = 0,
     sell_protocol_fee_amount = 0, sell_quote_amount_out_without_lp_fee = 8, sell_user_quote_amount_out = 8,
     sell_pool = example_key 9, sell_user = example_key 1, sell_user_base_token_account = example_key 2,
     sell_user_quote_token_account = example_key 3, sell_protocol_fee_recipient = example_key 4,
     sell_protocol_fee_recipient_token_account = example_key 5, sell_coin_creator = example_key 6,
     sell_coin_creator_fee_basis_points = 0, sell_coin_creator_fee_amount = 0,
     sell_cashback_fee_basis_points = 0, sell_cashback_amount = 0, sell_buyback_fee_basis_points = 0,
     sell_buyback_fee_amount = 0, sell_virtual_quote_reserves = 0, sell_can_boost = False,
     sell_base_supply = 1000\<rparr>"

definition example_sell_event :: decoded_pump_event where
  "example_sell_event = \<lparr>decoded_program = PumpSwap, decoded_coordinate = example_coordinate,
     decoded_event = EventPumpSwapSell example_sell\<rparr>"

lemma example_sell_decodes:
  "decode_anchor_event PUMP_SWAP_PROGRAM_ID example_coordinate (event_bytes (EventPumpSwapSell example_sell))
     = (Inr example_sell_event :: ('b pump_error, decoded_pump_event) result)"
proof -
  have "valid_event (EventPumpSwapSell example_sell)"
    by (simp add: example_sell_def example_key_def valid_pump_swap_sell_def valid_pubkey_encode in_range_def)
  moreover have "strip_cpi_prefix (event_bytes ev) = event_bytes ev" for ev
    by (simp add: strip_cpi_prefix_event)
  ultimately show ?thesis
    unfolding decode_anchor_event_iff
    by (simp add: example_sell_event_def example_coordinate_def event_coordinate_def)
qed

definition example_sale :: "u8 list \<Rightarrow> (unit normalization_error, unit normalized_pump_event) result" where
  "example_sale raw = normalize_pump_event example_to_value example_sha256 example_encode
     example_sell_event SolanaMainnet Confirmed 5 raw (example_pool_registry (example_key 9))"

lemma example_sale_ok: "\<exists>ne. example_sale raw = Inr ne \<and> is_Trade (payload (norm_observation ne))"
  unfolding example_sale_def
  by (simp add: normalize_pump_event_def example_to_value_def map_err_def example_sell_event_def
      normalize_sell_def example_sell_def require_non_zero_trade_amounts_def example_pool_lookup
      orient_source_amounts_def Let_def)

theorem decoded_trades_are_valid_witness:
  "\<exists>ne. example_sale [] = Inr ne \<and> is_Trade (payload (norm_observation ne))
     \<and> \<not> invalid_trade (norm_observation ne)"
  using example_sale_ok [of "[]"]
    decoded_trades_are_valid [OF example_sell_decodes [where 'b = unit]] unfolding example_sale_def by blast

theorem evidence_replays_witness:
  "\<exists>ne. example_sale (event_bytes (EventPumpSwapSell example_sell)) = Inr ne
     \<and> decode_program_data_log example_decode PUMP_SWAP_PROGRAM_ID
          (key_coordinate (obs_key (norm_observation ne)))
          (PROGRAM_DATA_PREFIX @ source_evidence_base64 (norm_observation ne)) = Inr example_sell_event"
proof -
  let ?raw = "event_bytes (EventPumpSwapSell example_sell)"
  let ?line = "PROGRAM_DATA_PREFIX @ example_encode ?raw"
  have bytes: "decode_program_data_bytes example_decode ?line = (Inr ?raw :: (unit pump_error, _) result)"
    by (simp add: decode_program_data_bytes_def example_base64 map_err_def)
  then have log: "decode_program_data_log example_decode PUMP_SWAP_PROGRAM_ID example_coordinate ?line
      = Inr example_sell_event"
    by (simp add: decode_program_data_log_def example_sell_decodes)
  from example_sale_ok [of ?raw] obtain ne where ne: "example_sale ?raw = Inr ne" by blast
  with evidence_replays [OF example_base64 log bytes ne [unfolded example_sale_def]] show ?thesis
    by blast
qed

end
