(* ===== verification/Log_Scope.thy ===== *)
theory Log_Scope
  imports Pump_Decoder
begin

text \<open>
  The walk over a transaction's execution logs in \<open>apps/server/src/jobs/intake.rs\<close>: recognizing
  invocations and exits, attributing \<open>Program data:\<close> records to top-level instructions
  (\<open>scope_program_data_logs\<close>), and pairing them with silent self-calls
  (\<open>successful_self_cpi_coverage\<close>). Both walks keep a stack of active invocations; the model keeps
  its top at the head of a list. The maps keyed by instruction are ordered association lists.
\<close>

section \<open>Log lines\<close>

definition is_plausible_program_id :: "string \<Rightarrow> bool" where
  "is_plausible_program_id pid \<longleftrightarrow> pid \<noteq> [] \<and> \<not> list_ex is_ascii_whitespace pid"

definition is_log_truncation_marker :: "string \<Rightarrow> bool" where
  "is_log_truncation_marker line \<longleftrightarrow>
     line = ''Log truncated'' \<or> starts_with ''Log truncated: '' line"

definition parse_invoke :: "string \<Rightarrow> (string \<times> usize) option" where
  "parse_invoke line =
     (case strip_prefix ''Program '' line of
        None \<Rightarrow> None
      | Some suffix \<Rightarrow>
          (case split_once '' invoke ['' suffix of
             None \<Rightarrow> None
           | Some (pid, depth) \<Rightarrow>
               if \<not> is_plausible_program_id pid then None
               else case strip_suffix '']'' depth of
                 None \<Rightarrow> None
               | Some digits \<Rightarrow>
                   (case parse_usize digits of None \<Rightarrow> None | Some n \<Rightarrow> Some (pid, n))))"

definition parse_exit :: "string \<Rightarrow> (string \<times> bool) option" where
  "parse_exit line =
     (case strip_prefix ''Program '' line of
        None \<Rightarrow> None
      | Some suffix \<Rightarrow>
          (case (case strip_suffix '' success'' suffix of
                   Some pid \<Rightarrow> Some (pid, True)
                 | None \<Rightarrow> map_option (\<lambda>(pid, _). (pid, False)) (split_once '' failed:'' suffix)) of
             None \<Rightarrow> None
           | Some ext \<Rightarrow> if is_plausible_program_id (fst ext) then Some ext else None))"

definition is_compute_consumed_log :: "string \<Rightarrow> string \<Rightarrow> bool" where
  "is_compute_consumed_log pid line \<longleftrightarrow>
     (case strip_prefix ''Program '' line of
        None \<Rightarrow> False
      | Some suffix \<Rightarrow>
          (case strip_prefix pid suffix of
             None \<Rightarrow> False
           | Some tail \<Rightarrow> starts_with '' consumed '' tail \<and> ends_with '' compute units'' tail))"

definition notification_mentions_program :: "string \<Rightarrow> string list \<Rightarrow> bool" where
  "notification_mentions_program pid logs \<longleftrightarrow>
     list_ex (\<lambda>line. case parse_invoke line of None \<Rightarrow> False | Some (i, _) \<Rightarrow> i = pid) logs"

section \<open>Attributing program data\<close>

datatype log_scope_error =
    LogEmptySignature
  | TruncatedLogs
  | InvalidInvocationDepth usize
  | UnexpectedProgramExit string
  | UnclosedInvocations usize
  | TooManyInstructions u16
  | TooManyLogEvents u16

record scoped_program_data =
  scoped_coordinate :: chain_coordinate
  scoped_log :: string

record scope_state =
  scope_stack :: "(string \<times> u16) list"
  scope_next_instruction :: u16
  scope_event_indexes :: "(u16, u16) btree"
  scope_scoped :: "scoped_program_data list"

definition scope_init :: scope_state where
  "scope_init = \<lparr>scope_stack = [], scope_next_instruction = 0, scope_event_indexes = [], scope_scoped = []\<rparr>"

definition saturating_add_usize :: "usize \<Rightarrow> usize \<Rightarrow> usize" where
  "saturating_add_usize a b = min usize_max (a + b)"

definition u16_max :: u16 where
  "u16_max = 65535"

definition scope_invoke :: "string \<Rightarrow> usize \<Rightarrow> scope_state \<Rightarrow> (log_scope_error, scope_state) result" where
  "scope_invoke pid depth s =
     (if depth = 0 \<or> depth \<noteq> saturating_add_usize (length (scope_stack s)) 1
      then Inl (InvalidInvocationDepth depth)
      else if depth = 1 then
        result_bind (ok_or (TooManyInstructions u16_max) (checked_add_word (scope_next_instruction s) 1))
          (\<lambda>next'. Inr (s\<lparr>scope_stack := (pid, scope_next_instruction s) # scope_stack s,
                         scope_next_instruction := next'\<rparr>))
      else
        (case scope_stack s of
           [] \<Rightarrow> Inl (InvalidInvocationDepth depth)
         | (_, instruction) # _ \<Rightarrow> Inr (s\<lparr>scope_stack := (pid, instruction) # scope_stack s\<rparr>)))"

definition scope_exit :: "string \<Rightarrow> scope_state \<Rightarrow> (log_scope_error, scope_state) result" where
  "scope_exit pid s =
     (case scope_stack s of
        [] \<Rightarrow> Inl (UnexpectedProgramExit pid)
      | (active, _) # rest' \<Rightarrow>
          if active \<noteq> pid then Inl (UnexpectedProgramExit pid) else Inr (s\<lparr>scope_stack := rest'\<rparr>))"

definition scope_data ::
    "string \<Rightarrow> u64 \<Rightarrow> u64 option \<Rightarrow> string \<Rightarrow> string \<Rightarrow> scope_state
      \<Rightarrow> (log_scope_error, scope_state) result" where
  "scope_data program_id slot' tx sig line s =
     (case scope_stack s of
        [] \<Rightarrow> Inr s
      | (active, instruction) # _ \<Rightarrow>
          if active \<noteq> program_id then Inr s
          else
            let event = btree_get_or 0 (scope_event_indexes s) instruction;
                coordinate = \<lparr>slot = slot', transaction_index = tx, signature = sig,
                              instruction_index = instruction, event_index = event\<rparr>
            in result_bind (ok_or (TooManyLogEvents u16_max) (checked_add_word event 1)) (\<lambda>event'.
               Inr (s\<lparr>scope_event_indexes := btree_insert instruction event' (scope_event_indexes s),
                      scope_scoped := scope_scoped s @ [\<lparr>scoped_coordinate = coordinate, scoped_log = line\<rparr>]\<rparr>)))"

definition scope_step ::
    "string \<Rightarrow> u64 \<Rightarrow> u64 option \<Rightarrow> string \<Rightarrow> string \<Rightarrow> scope_state
      \<Rightarrow> (log_scope_error, scope_state) result" where
  "scope_step program_id slot' tx sig line s =
     (if is_log_truncation_marker line then Inl TruncatedLogs
      else case parse_invoke line of
        Some (pid, depth) \<Rightarrow> scope_invoke pid depth s
      | None \<Rightarrow>
          (case parse_exit line of
             Some (pid, _) \<Rightarrow> scope_exit pid s
           | None \<Rightarrow>
               if \<not> starts_with PROGRAM_DATA_PREFIX line then Inr s
               else scope_data program_id slot' tx sig line s))"

text \<open>A loop over the lines that stops at the first error, with any step function.\<close>

fun walk :: "('a \<Rightarrow> 's \<Rightarrow> ('e, 's) result) \<Rightarrow> 'a list \<Rightarrow> 's \<Rightarrow> ('e, 's) result" where
  "walk step' [] s = Inr s"
| "walk step' (x # xs) s = result_bind (step' x s) (walk step' xs)"

definition scope_program_data_logs ::
    "string \<Rightarrow> u64 \<Rightarrow> u64 option \<Rightarrow> string \<Rightarrow> string list
      \<Rightarrow> (log_scope_error, scoped_program_data list) result" where
  "scope_program_data_logs program_id slot' tx sig logs =
     (if trim_is_empty sig then Inl LogEmptySignature
      else result_bind (walk (scope_step program_id slot' tx sig) logs scope_init) (\<lambda>s.
        if scope_stack s \<noteq> [] then Inl (UnclosedInvocations (length (scope_stack s)))
        else Inr (scope_scoped s)))"

section \<open>Pairing events with silent self-calls\<close>

record direct_event_coverage =
  eligible_events :: u16
  invalid_event :: bool

record self_cpi_coverage =
  successful_event_calls :: u16
  pending_direct_event :: bool
  pairing_gap :: bool

record invocation_frame =
  frame_program_id :: string
  frame_instruction_index :: u16
  is_target_self_cpi :: bool
  silent_candidate :: bool
  candidate_for_pending_event :: bool

definition direct_default :: direct_event_coverage where
  "direct_default = \<lparr>eligible_events = 0, invalid_event = False\<rparr>"

definition self_cpi_default :: self_cpi_coverage where
  "self_cpi_default = \<lparr>successful_event_calls = 0, pending_direct_event = False, pairing_gap = False\<rparr>"

record cpi_state =
  cpi_stack :: "invocation_frame list"
  cpi_next_instruction :: u16
  cpi_coverage :: "(u16, self_cpi_coverage) btree"

definition cpi_init :: cpi_state where
  "cpi_init = \<lparr>cpi_stack = [], cpi_next_instruction = 0, cpi_coverage = []\<rparr>"

text \<open>\<open>coverage.entry(i).or_default()\<close> followed by an update in place.\<close>

definition update_coverage ::
    "u16 \<Rightarrow> (self_cpi_coverage \<Rightarrow> self_cpi_coverage) \<Rightarrow> cpi_state \<Rightarrow> cpi_state" where
  "update_coverage i f s =
     s\<lparr>cpi_coverage := btree_insert i (f (btree_get_or self_cpi_default (cpi_coverage s) i)) (cpi_coverage s)\<rparr>"

definition top_silenced :: "cpi_state \<Rightarrow> cpi_state" where
  "top_silenced s =
     (case cpi_stack s of
        [] \<Rightarrow> s
      | frame # rest' \<Rightarrow>
          if is_target_self_cpi frame then s\<lparr>cpi_stack := frame\<lparr>silent_candidate := False\<rparr> # rest'\<rparr> else s)"

definition cpi_instruction :: "usize \<Rightarrow> cpi_state \<Rightarrow> (log_scope_error, u16 \<times> cpi_state) result" where
  "cpi_instruction depth s =
     (if depth = 1 then
        result_bind (ok_or (TooManyInstructions u16_max) (checked_add_word (cpi_next_instruction s) 1))
          (\<lambda>next'. Inr (cpi_next_instruction s, s\<lparr>cpi_next_instruction := next'\<rparr>))
      else
        (case cpi_stack s of
           [] \<Rightarrow> Inl (InvalidInvocationDepth depth)
         | frame # _ \<Rightarrow> Inr (frame_instruction_index frame, s)))"

definition under_target :: "string \<Rightarrow> cpi_state \<Rightarrow> bool" where
  "under_target program_id s \<longleftrightarrow>
     (case cpi_stack s of
        [] \<Rightarrow> False
      | parent # _ \<Rightarrow> frame_program_id parent = program_id \<and> \<not> is_target_self_cpi parent)"

definition abandon_pending :: "self_cpi_coverage \<Rightarrow> self_cpi_coverage" where
  "abandon_pending c =
     (if pending_direct_event c then c\<lparr>pairing_gap := True, pending_direct_event := False\<rparr> else c)"

definition cpi_invoke ::
    "string \<Rightarrow> string \<Rightarrow> usize \<Rightarrow> cpi_state \<Rightarrow> (log_scope_error, cpi_state) result" where
  "cpi_invoke program_id pid depth s =
     (if depth = 0 \<or> depth \<noteq> saturating_add_usize (length (cpi_stack s)) 1
      then Inl (InvalidInvocationDepth depth)
      else result_bind (cpi_instruction depth s) (\<lambda>(instruction, s1).
        let self_call = (pid = program_id
              \<and> list_ex (\<lambda>frame. frame_program_id frame = program_id) (cpi_stack s1));
            s2 = top_silenced s1;
            candidate = (under_target program_id s2 \<and> self_call
              \<and> (case btree_get (cpi_coverage s2) instruction of
                   None \<Rightarrow> False | Some entry \<Rightarrow> pending_direct_event entry));
            s3 = (if under_target program_id s2
                  then update_coverage instruction
                    (if candidate then (\<lambda>c. c) else abandon_pending) s2
                  else s2);
            frame = \<lparr>frame_program_id = pid, frame_instruction_index = instruction,
                     is_target_self_cpi = self_call, silent_candidate = self_call,
                     candidate_for_pending_event = candidate\<rparr>
        in Inr (s3\<lparr>cpi_stack := frame # cpi_stack s3\<rparr>)))"

definition close_candidate ::
    "invocation_frame \<Rightarrow> bool \<Rightarrow> self_cpi_coverage \<Rightarrow> (log_scope_error, self_cpi_coverage) result" where
  "close_candidate frame succeeded c =
     (if candidate_for_pending_event frame then
        result_bind
          (if succeeded \<and> silent_candidate frame \<and> pending_direct_event c
           then result_bind (ok_or (TooManyLogEvents u16_max) (checked_add_word (successful_event_calls c) 1))
                  (\<lambda>n. Inr (c\<lparr>successful_event_calls := n\<rparr>))
           else Inr (c\<lparr>pairing_gap := True\<rparr>))
          (\<lambda>c'. Inr (c'\<lparr>pending_direct_event := False\<rparr>))
      else if succeeded \<and> silent_candidate frame then Inr (c\<lparr>pairing_gap := True\<rparr>)
      else Inr c)"

definition cpi_exit ::
    "string \<Rightarrow> string \<Rightarrow> bool \<Rightarrow> cpi_state \<Rightarrow> (log_scope_error, cpi_state) result" where
  "cpi_exit program_id pid succeeded s =
     (case cpi_stack s of
        [] \<Rightarrow> Inl (UnexpectedProgramExit pid)
      | frame # rest' \<Rightarrow>
          if frame_program_id frame \<noteq> pid then Inl (UnexpectedProgramExit pid)
          else
            let i = frame_instruction_index frame;
                c = btree_get_or self_cpi_default (cpi_coverage s) i
            in result_bind
                 (if is_target_self_cpi frame then close_candidate frame succeeded c
                  else if frame_program_id frame = program_id then Inr (abandon_pending c)
                  else Inr c)
                 (\<lambda>c'. Inr (update_coverage i (\<lambda>_. c') (s\<lparr>cpi_stack := rest'\<rparr>))))"

definition note_direct_event :: "self_cpi_coverage \<Rightarrow> self_cpi_coverage" where
  "note_direct_event c =
     (if pending_direct_event c then c\<lparr>pairing_gap := True\<rparr> else c)\<lparr>pending_direct_event := True\<rparr>"

definition cpi_data :: "string \<Rightarrow> cpi_state \<Rightarrow> cpi_state" where
  "cpi_data program_id s =
     (case cpi_stack s of
        [] \<Rightarrow> s
      | frame # _ \<Rightarrow>
          if is_target_self_cpi frame then top_silenced s
          else if frame_program_id frame = program_id
          then update_coverage (frame_instruction_index frame) note_direct_event s
          else s)"

definition cpi_other :: "string \<Rightarrow> string \<Rightarrow> cpi_state \<Rightarrow> cpi_state" where
  "cpi_other program_id line s =
     (case cpi_stack s of
        [] \<Rightarrow> s
      | frame # _ \<Rightarrow>
          if is_target_self_cpi frame
          then (if is_compute_consumed_log (frame_program_id frame) line then s else top_silenced s)
          else if frame_program_id frame = program_id
          then update_coverage (frame_instruction_index frame)
            (if is_compute_consumed_log (frame_program_id frame) line then (\<lambda>c. c) else abandon_pending) s
          else s)"

definition cpi_step :: "string \<Rightarrow> string \<Rightarrow> cpi_state \<Rightarrow> (log_scope_error, cpi_state) result" where
  "cpi_step program_id line s =
     (if is_log_truncation_marker line then Inl TruncatedLogs
      else case parse_invoke line of
        Some (pid, depth) \<Rightarrow> cpi_invoke program_id pid depth s
      | None \<Rightarrow>
          (case parse_exit line of
             Some (pid, succeeded) \<Rightarrow> cpi_exit program_id pid succeeded s
           | None \<Rightarrow>
               if starts_with PROGRAM_DATA_PREFIX line then Inr (cpi_data program_id s)
               else Inr (cpi_other program_id line s)))"

definition successful_self_cpi_coverage ::
    "string \<Rightarrow> string list \<Rightarrow> (log_scope_error, (u16, self_cpi_coverage) btree) result" where
  "successful_self_cpi_coverage program_id logs =
     result_bind (walk (cpi_step program_id) logs cpi_init) (\<lambda>s.
       if cpi_stack s \<noteq> [] then Inl (UnclosedInvocations (length (cpi_stack s)))
       else Inr (cpi_coverage s))"

definition event_cpi_coverage_is_incomplete ::
    "(u16, self_cpi_coverage) btree \<Rightarrow> (u16, direct_event_coverage) btree \<Rightarrow> bool" where
  "event_cpi_coverage_is_incomplete self_cpi direct \<longleftrightarrow>
     list_ex (\<lambda>(i, cpi).
       let d = btree_get_or direct_default direct i in
       pairing_gap cpi \<or> pending_direct_event cpi \<or> invalid_event d
       \<or> successful_event_calls cpi \<noteq> eligible_events d) self_cpi
     \<or> list_ex (\<lambda>(i, d).
       btree_get self_cpi i = None \<and> (invalid_event d \<or> 0 < eligible_events d)) direct"

end
