(* ===== verification/Rpc_Model.thy ===== *)
theory Rpc_Model
  imports Pump_Model
begin

text \<open>
  The provider-neutral records of \<open>crates/solana-rpc/src/model.rs\<close>: transactions, signatures, pages,
  log notifications and errors.
\<close>

definition MAX_SIGNATURE_PAGE_SIZE :: usize where
  "MAX_SIGNATURE_PAGE_SIZE = 1000"

record recovery_checkpoint =
  cp_program_id :: string
  cp_last_slot :: u64
  cp_last_transaction_index :: "u64 option"
  cp_last_signature :: string

record transaction_instruction_record =
  outer_instruction_index :: u16
  inner_instruction_index :: "u16 option"
  stack_height :: "u32 option"
  instr_program_id :: string
  instr_data :: "u8 list"

definition is_inner :: "transaction_instruction_record \<Rightarrow> bool" where
  "is_inner r \<longleftrightarrow> inner_instruction_index r \<noteq> None"

record transaction_record =
  tx_slot :: u64
  tx_transaction_index :: "u64 option"
  tx_signature :: string
  tx_block_time_unix_seconds :: "i64 option"
  tx_instructions :: "transaction_instruction_record list"
  tx_log_messages :: "string list"
  tx_transaction_error :: "string option"

definition transaction_succeeded :: "transaction_record \<Rightarrow> bool" where
  "transaction_succeeded t \<longleftrightarrow> tx_transaction_error t = None"

record account_record =
  account_address :: string
  account_owner :: string
  account_slot :: u64
  account_encoded_data :: string
  account_lamports :: u64
  account_executable :: bool

datatype rpc_health = RpcUp | RpcDegraded | RpcDown

record read_context =
  ctx_commitment :: commitment
  ctx_minimum_slot :: "u64 option"

record signature_page_request =
  req_program_id :: string
  req_before :: "string option"
  req_limit :: usize
  req_context :: read_context

datatype rpc_error =
    RpcTimeout
  | RpcRateLimited
  | RpcTransport string
  | RpcHttpStatus u16 string
  | RpcCode i64 string
  | RpcInvalidRequest string
  | RpcUnavailable string
  | RpcInvalidResponse string
  | RecoveryCheckpointNotFound string u64 string
  | RecoveryLimitExceeded usize
  | RecoveryProtocol string
  | SubscriptionClosed string

definition signature_page_request_new ::
    "string \<Rightarrow> string option \<Rightarrow> usize \<Rightarrow> read_context \<Rightarrow> (rpc_error, signature_page_request) result" where
  "signature_page_request_new pid before limit context' =
     (if pid = [] then Inl (RpcInvalidRequest ''program id cannot be empty'')
      else if \<not> (1 \<le> limit \<and> limit \<le> MAX_SIGNATURE_PAGE_SIZE)
      then Inl (RpcInvalidRequest (''signature page limit must be between 1 and ''
             @ show_nat MAX_SIGNATURE_PAGE_SIZE))
      else if before = Some [] then Inl (RpcInvalidRequest ''before signature cannot be empty'')
      else Inr \<lparr>req_program_id = pid, req_before = before, req_limit = limit, req_context = context'\<rparr>)"

record signature_record =
  sig_slot :: u64
  sig_transaction_index :: "u64 option"
  sig_signature :: string
  sig_block_time_unix_seconds :: "i64 option"
  sig_confirmation_status :: "string option"
  sig_transaction_error :: "string option"

definition signature_succeeded :: "signature_record \<Rightarrow> bool" where
  "signature_succeeded r \<longleftrightarrow> sig_transaction_error r = None"

record signature_page =
  page_request :: signature_page_request
  records_newest_first :: "signature_record list"
  next_before :: "string option"
  exhausted :: bool

record program_log_notification =
  subscription_id :: u64
  note_slot :: u64
  note_signature :: string
  note_log_messages :: "string list"
  note_transaction_error :: "string option"

definition notification_succeeded :: "program_log_notification \<Rightarrow> bool" where
  "notification_succeeded n \<longleftrightarrow> note_transaction_error n = None"

end
