(* ===== verification/Intake.thy ===== *)
theory Intake
  imports Normalization Log_Scope Rpc_Model
begin

text \<open>
  The intake of live notifications, \<open>apps/server/src/jobs/intake.rs\<close>: which events open a window,
  which belong to an open one, and the classification of a notification with its effects on the
  window registry. Each call on the registry is one critical section of its lock; the model runs
  the calls of one notification in sequence, and the correctness theory shows that each of them is
  a step of the registry's transition system, so that interleaved steps of other threads are
  covered there.

  The source adds one to a 16-bit counter with \<open>expect\<close>: the model returns \<open>None\<close> where that would
  panic.
\<close>

section \<open>Events and targets\<close>

datatype batch_purpose = Discovery | TrackedActivity

datatype intake_drop_reason = FailedTransaction | Irrelevant | MalformedLogs | StaleDiscovery

record discovery_seed =
  seed_target :: observation_target
  seed_mint :: string
  seed_source_event_time_unix_ms :: i64

datatype notification_disposition =
    FetchDiscovery "discovery_seed list" "token list"
  | CollectTrackedActivity "token list"
  | DropNotification intake_drop_reason

definition MAX_SOURCE_CLOCK_SKEW :: duration where
  "MAX_SOURCE_CLOCK_SKEW = 10000"

definition PUMP_PROGRAMS :: "pump_program list" where
  "PUMP_PROGRAMS = [Pump, PumpSwap]"

fun is_discovery_event :: "pump_event \<Rightarrow> bool" where
  "is_discovery_event (EventCreate _) = True"
| "is_discovery_event (EventPumpSwapCreatePool _) = True"
| "is_discovery_event _ = False"

fun discovery_seed_of :: "pump_event \<Rightarrow> network \<Rightarrow> discovery_seed option" where
  "discovery_seed_of (EventCreate e) n =
     Some \<lparr>seed_target = PumpMint (create_mint e), seed_mint = create_mint e,
           seed_source_event_time_unix_ms = saturating_mul_i64 (create_timestamp e) 1000\<rparr>"
| "discovery_seed_of (EventPumpSwapCreatePool e) n =
     (case normalize_pump_swap_pair n (pool_base_mint e) (pool_quote_mint e) of
        None \<Rightarrow> None
      | Some pair \<Rightarrow>
          Some \<lparr>seed_target = PumpSwapPool (pool_pool e), seed_mint = pair_token_mint pair,
                seed_source_event_time_unix_ms = saturating_mul_i64 (pool_timestamp e) 1000\<rparr>)"
| "discovery_seed_of _ n = None"

definition discovery_event_is_fresh :: "pump_event \<Rightarrow> i64 \<Rightarrow> duration \<Rightarrow> bool" where
  "discovery_event_is_fresh ev now maximum_age \<longleftrightarrow>
     is_discovery_event ev
     \<and> (case checked_mul_i64 (pump_event_timestamp ev) 1000 of
          None \<Rightarrow> False
        | Some event_ms \<Rightarrow>
            saturating_sub_i64 now (duration_ms maximum_age) \<le> event_ms
            \<and> event_ms \<le> saturating_add_i64 now (duration_ms MAX_SOURCE_CLOCK_SKEW))"

fun event_tracking_target :: "pump_event \<Rightarrow> observation_target option" where
  "event_tracking_target (EventTrade e) = Some (PumpMint (trade_mint e))"
| "event_tracking_target (EventComplete e) = Some (PumpMint (complete_mint e))"
| "event_tracking_target (EventCompletePumpAmmMigration e) = Some (PumpMint (migration_mint e))"
| "event_tracking_target (EventPumpSwapBuy e) = Some (PumpSwapPool (buy_pool e))"
| "event_tracking_target (EventPumpSwapSell e) = Some (PumpSwapPool (sell_pool e))"
| "event_tracking_target (EventPumpSwapDeposit e) = Some (PumpSwapPool (deposit_pool e))"
| "event_tracking_target (EventPumpSwapWithdraw e) = Some (PumpSwapPool (withdraw_pool e))"
| "event_tracking_target _ = None"

definition event_is_in_active_window :: "pump_event \<Rightarrow> registry \<Rightarrow> i64 \<Rightarrow> bool" where
  "event_is_in_active_window ev r observed_at \<longleftrightarrow>
     (case event_tracking_target ev of
        None \<Rightarrow> False
      | Some target \<Rightarrow> matching_token r target observed_at \<noteq> None)"

definition event_matches_confirmed_window :: "pump_event \<Rightarrow> registry \<Rightarrow> token list \<Rightarrow> i64 \<Rightarrow> bool" where
  "event_matches_confirmed_window ev r tokens observed_at \<longleftrightarrow>
     (case event_tracking_target ev of
        None \<Rightarrow> False
      | Some target \<Rightarrow>
          list_ex (\<lambda>t. tok_target t = target \<and> is_confirmed_at (tok_window t) (cell_of r t) observed_at) tokens)"

section \<open>Classification\<close>

text \<open>The inner \<open>record_source_coverage_gap\<close> only adds a debug message to the registry's operation.\<close>

definition record_gap ::
    "pump_program \<Rightarrow> i64 \<Rightarrow> window_incomplete_reason \<Rightarrow> registry \<Rightarrow> registry" where
  "record_gap program observed_at reason r =
     snd (record_source_coverage_gap r (pump_source_program program) observed_at reason)"

record decode_locals =
  dec_direct :: "(u16, direct_event_coverage) btree"
  dec_events :: "decoded_pump_event list"
  dec_gap :: bool

definition dec_init :: decode_locals where
  "dec_init = \<lparr>dec_direct = [], dec_events = [], dec_gap = False\<rparr>"

definition count_eligible :: "u16 \<Rightarrow> decode_locals \<Rightarrow> decode_locals option" where
  "count_eligible i l =
     (let c = btree_get_or direct_default (dec_direct l) i in
      case checked_add_word (eligible_events c) 1 of
        None \<Rightarrow> None
      | Some n \<Rightarrow> Some (l\<lparr>dec_direct := btree_insert i (c\<lparr>eligible_events := n\<rparr>) (dec_direct l)\<rparr>))"

definition note_invalid :: "u16 \<Rightarrow> decode_locals \<Rightarrow> decode_locals" where
  "note_invalid i l =
     (let c = btree_get_or direct_default (dec_direct l) i in
      l\<lparr>dec_direct := btree_insert i (c\<lparr>invalid_event := True\<rparr>) (dec_direct l), dec_gap := True\<rparr>)"

definition decode_record ::
    "(string \<Rightarrow> ('b, u8 list) result) \<Rightarrow> pump_program \<Rightarrow> scoped_program_data \<Rightarrow> decode_locals
      \<Rightarrow> decode_locals option" where
  "decode_record base64_decode program rec l =
     (let i = instruction_index (scoped_coordinate rec) in
      case decode_program_data_log base64_decode (pump_program_id program) (scoped_coordinate rec)
             (scoped_log rec) of
        Inr d \<Rightarrow> map_option (\<lambda>l'. l'\<lparr>dec_events := dec_events l' @ [d]\<rparr>) (count_eligible i l)
      | Inl (UnknownDiscriminator p disc) \<Rightarrow>
          if is_pinned_event_discriminator p disc then count_eligible i l else Some (note_invalid i l)
      | Inl _ \<Rightarrow> Some (note_invalid i l))"

fun decode_records ::
    "(string \<Rightarrow> ('b, u8 list) result) \<Rightarrow> pump_program \<Rightarrow> scoped_program_data list \<Rightarrow> decode_locals
      \<Rightarrow> decode_locals option" where
  "decode_records base64_decode program [] l = Some l"
| "decode_records base64_decode program (rec # recs) l =
     (case decode_record base64_decode program rec l of
        None \<Rightarrow> None
      | Some l' \<Rightarrow> decode_records base64_decode program recs l')"

record classify_locals =
  cls_discoveries :: "discovery_seed list"
  cls_tracked :: "token list"
  cls_stale :: bool
  cls_malformed :: bool
  cls_registry :: registry

definition classify_event ::
    "network \<Rightarrow> duration \<Rightarrow> i64 \<Rightarrow> i64 \<Rightarrow> pump_event \<Rightarrow> classify_locals \<Rightarrow> classify_locals" where
  "classify_event n maximum_age observed_at now ev l =
     (case discovery_seed_of ev n of
        Some seed \<Rightarrow>
          if discovery_event_is_fresh ev now maximum_age
          then (if list_ex (\<lambda>old. seed_target old = seed_target seed) (cls_discoveries l) then l
                else l\<lparr>cls_discoveries := cls_discoveries l @ [seed]\<rparr>)
          else l\<lparr>cls_stale := True\<rparr>
      | None \<Rightarrow>
          (case event_tracking_target ev of
             None \<Rightarrow> l
           | Some target \<Rightarrow>
               if list_ex (\<lambda>t. tok_target t = target) (cls_tracked l) then l
               else case admit_matching_token (cls_registry l) target observed_at of
                 (None, r') \<Rightarrow> l\<lparr>cls_registry := r'\<rparr>
               | (Some t, r') \<Rightarrow> l\<lparr>cls_registry := r', cls_tracked := cls_tracked l @ [t]\<rparr>))"

definition malformed_gap :: "pump_program \<Rightarrow> i64 \<Rightarrow> classify_locals \<Rightarrow> classify_locals" where
  "malformed_gap program observed_at l =
     l\<lparr>cls_malformed := True, cls_registry := record_gap program observed_at DecodeGap (cls_registry l)\<rparr>"

definition classify_decoded ::
    "network \<Rightarrow> duration \<Rightarrow> i64 \<Rightarrow> i64 \<Rightarrow> pump_program \<Rightarrow> (u16, self_cpi_coverage) btree \<Rightarrow> decode_locals
      \<Rightarrow> classify_locals \<Rightarrow> classify_locals" where
  "classify_decoded n maximum_age observed_at now program coverage dl l =
     (let l1 = (if dec_gap dl then malformed_gap program observed_at l
                else if event_cpi_coverage_is_incomplete coverage (dec_direct dl)
                then l\<lparr>cls_registry :=
                  record_gap program observed_at CpiInstructionDataUnavailable (cls_registry l)\<rparr>
                else l)
      in fold (classify_event n maximum_age observed_at now) (map decoded_event (dec_events dl)) l1)"

definition classify_program ::
    "(string \<Rightarrow> ('b, u8 list) result) \<Rightarrow> network \<Rightarrow> duration \<Rightarrow> i64 \<Rightarrow> i64
      \<Rightarrow> program_log_notification \<Rightarrow> pump_program \<Rightarrow> classify_locals \<Rightarrow> classify_locals option" where
  "classify_program base64_decode n maximum_age observed_at now note program l =
     (let pid = pump_program_id program; logs = note_log_messages note in
      if \<not> notification_mentions_program pid logs then Some l
      else case successful_self_cpi_coverage pid logs of
        Inl _ \<Rightarrow> Some (malformed_gap program observed_at l)
      | Inr coverage \<Rightarrow>
          (case scope_program_data_logs pid (note_slot note) None (note_signature note) logs of
             Inl _ \<Rightarrow> Some (malformed_gap program observed_at l)
           | Inr scoped \<Rightarrow>
               map_option (\<lambda>dl. classify_decoded n maximum_age observed_at now program coverage dl l)
                 (decode_records base64_decode program scoped dec_init)))"

fun classify_programs ::
    "(string \<Rightarrow> ('b, u8 list) result) \<Rightarrow> network \<Rightarrow> duration \<Rightarrow> i64 \<Rightarrow> i64
      \<Rightarrow> program_log_notification \<Rightarrow> pump_program list \<Rightarrow> classify_locals \<Rightarrow> classify_locals option" where
  "classify_programs base64_decode n maximum_age observed_at now note [] l = Some l"
| "classify_programs base64_decode n maximum_age observed_at now note (p # ps) l =
     (case classify_program base64_decode n maximum_age observed_at now note p l of
        None \<Rightarrow> None
      | Some l' \<Rightarrow> classify_programs base64_decode n maximum_age observed_at now note ps l')"

definition disposition_of :: "classify_locals \<Rightarrow> notification_disposition" where
  "disposition_of l =
     (if cls_discoveries l \<noteq> [] then FetchDiscovery (cls_discoveries l) (cls_tracked l)
      else if cls_tracked l \<noteq> [] then CollectTrackedActivity (cls_tracked l)
      else if cls_stale l then DropNotification StaleDiscovery
      else if cls_malformed l then DropNotification MalformedLogs
      else DropNotification Irrelevant)"

definition classify_notification ::
    "(string \<Rightarrow> ('b, u8 list) result) \<Rightarrow> program_log_notification \<Rightarrow> registry \<Rightarrow> network \<Rightarrow> duration
      \<Rightarrow> i64 \<Rightarrow> i64 \<Rightarrow> (notification_disposition \<times> registry) option" where
  "classify_notification base64_decode note r n maximum_age observed_at now =
     (if \<not> notification_succeeded note then Some (DropNotification FailedTransaction, r)
      else map_option (\<lambda>l. (disposition_of l, cls_registry l))
        (classify_programs base64_decode n maximum_age observed_at now note PUMP_PROGRAMS
           \<lparr>cls_discoveries = [], cls_tracked = [], cls_stale = False, cls_malformed = False,
            cls_registry = r\<rparr>))"

end
