(* ===== verification/Log_Scope_Correct.thy ===== *)
theory Log_Scope_Correct
  imports Log_Scope
begin

text \<open>
  The log walks against a specification. An execution is a forest of calls with log lines between
  them; printing it gives the log of the transaction. The walk recovers from the printed log exactly
  the program data of the watched program, under the index of its top-level instruction and its
  position within it.
\<close>

section \<open>Executions and their logs\<close>

datatype outcome = Succeeded | Failed string

datatype log_tree = Line string | Call string "log_tree list" outcome

definition invoke_line :: "string \<Rightarrow> usize \<Rightarrow> string" where
  "invoke_line pid depth = ''Program '' @ pid @ '' invoke ['' @ show_nat depth @ '']''"

definition exit_line :: "string \<Rightarrow> outcome \<Rightarrow> string" where
  "exit_line pid oc =
     ''Program '' @ pid @ (case oc of Succeeded \<Rightarrow> '' success'' | Failed reason \<Rightarrow> '' failed:'' @ reason)"

fun render :: "usize \<Rightarrow> log_tree \<Rightarrow> string list" where
  "render depth (Line line) = [line]"
| "render depth (Call pid body oc) =
     invoke_line pid depth # concat (map (render (depth + 1)) body) @ [exit_line pid oc]"

text \<open>A line that the walk takes for neither an invocation, an exit nor a truncation.\<close>

definition plain_line :: "string \<Rightarrow> bool" where
  "plain_line line \<longleftrightarrow>
     \<not> is_log_truncation_marker line \<and> parse_invoke line = None \<and> parse_exit line = None"

fun outcome_ok :: "outcome \<Rightarrow> bool" where
  "outcome_ok Succeeded = True"
| "outcome_ok (Failed reason) = (\<not> ends_with '' success'' ('' failed:'' @ reason))"

fun height :: "log_tree \<Rightarrow> nat" where
  "height (Line line) = 0"
| "height (Call pid body oc) = Suc (fold max (map height body) 0)"

fun well_formed :: "log_tree \<Rightarrow> bool" where
  "well_formed (Line line) = plain_line line"
| "well_formed (Call pid body oc) =
     (is_plausible_program_id pid \<and> outcome_ok oc \<and> list_all well_formed body)"

section \<open>The lines parse back\<close>

lemma ends_with_append_long: "length p \<le> length t \<Longrightarrow> ends_with p (a @ t) \<longleftrightarrow> ends_with p t"
  by (simp add: ends_with_def)

lemma split_once_first:
  "c \<notin> set a \<Longrightarrow> split_once (c # p) (a @ (c # p) @ b) = Some (a, b)"
proof (induction a)
  case Nil
  have "starts_with (c # p) ((c # p) @ b)" by (rule starts_with_append)
  then show ?case by simp
next
  case (Cons x a)
  then have "\<not> starts_with (c # p) (x # a @ (c # p) @ b)" by (auto simp: starts_with_iff)
  with Cons show ?case by simp
qed

lemma plausible_no_space: "is_plausible_program_id pid \<Longrightarrow> CHR '' '' \<notin> set pid"
  by (auto simp: is_plausible_program_id_def list_ex_iff is_ascii_whitespace_def)

lemma implausible_space: "CHR '' '' \<in> set pid \<Longrightarrow> \<not> is_plausible_program_id pid"
  using plausible_no_space by blast

lemma program_prefix: "strip_prefix ''Program '' (''Program '' @ s) = Some s"
  by (rule strip_prefix_append)

lemma not_truncation [simp]:
  "\<not> is_log_truncation_marker (invoke_line pid depth)" "\<not> is_log_truncation_marker (exit_line pid oc)"
  by (simp_all add: is_log_truncation_marker_def starts_with_def invoke_line_def exit_line_def)

lemma parse_invoke_line:
  assumes "is_plausible_program_id pid" and "depth \<le> usize_max"
  shows "parse_invoke (invoke_line pid depth) = Some (pid, depth)"
proof -
  have "split_once '' invoke ['' (pid @ '' invoke ['' @ show_nat depth @ '']'')
      = Some (pid, show_nat depth @ '']'')"
    using split_once_first [OF plausible_no_space [OF assms(1)], of "''invoke [''"] by simp
  moreover have "strip_suffix '']'' (show_nat depth @ '']'') = Some (show_nat depth)"
    by (rule strip_suffix_append)
  ultimately show ?thesis
    unfolding parse_invoke_def invoke_line_def program_prefix
    using assms by (simp add: parse_usize_show_nat)
qed

lemma split_once_later:
  "c \<notin> set a \<Longrightarrow> \<not> starts_with p r \<Longrightarrow> split_once (c # p) (a @ c # r) = Some (x, y) \<Longrightarrow> c \<in> set x"
  by (induction a arbitrary: x) (auto simp: starts_with_def split: if_splits)

lemma parse_invoke_exit_line:
  assumes "is_plausible_program_id pid"
  shows "parse_invoke (exit_line pid oc) = None"
proof -
  obtain r where r: "(case oc of Succeeded \<Rightarrow> '' success'' | Failed reason \<Rightarrow> '' failed:'' @ reason) = CHR '' '' # r"
      "\<not> starts_with ''invoke ['' r"
    by (cases oc) (simp_all add: starts_with_def)
  have "\<not> is_plausible_program_id x" if "split_once '' invoke ['' (pid @ CHR '' '' # r) = Some (x, y)" for x y
    using split_once_later [OF plausible_no_space [OF assms] r(2), of x y] that implausible_space by auto
  then show ?thesis
    unfolding parse_invoke_def exit_line_def program_prefix r(1) by (auto split: option.split)
qed

lemma parse_exit_line:
  assumes "is_plausible_program_id pid" and "outcome_ok oc"
  shows "parse_exit (exit_line pid oc) = Some (pid, oc = Succeeded)"
proof (cases oc)
  case Succeeded
  then show ?thesis
    using assms unfolding parse_exit_def exit_line_def program_prefix by simp
next
  case (Failed reason)
  have "\<not> ends_with '' success'' (pid @ '' failed:'' @ reason)"
    using assms(2) Failed ends_with_append_long [of "'' success''" "'' failed:'' @ reason" pid] by simp
  moreover have "split_once '' failed:'' (pid @ '' failed:'' @ reason) = Some (pid, reason)"
    using split_once_first [OF plausible_no_space [OF assms(1)], of "''failed:''" reason] by simp
  ultimately show ?thesis
    unfolding parse_exit_def exit_line_def program_prefix using assms(1) Failed
    by (simp add: strip_suffix_def)
qed

section \<open>The walk\<close>

lemma walk_append: "walk f (xs @ ys) s = result_bind (walk f xs s) (walk f ys)"
proof (induction xs arbitrary: s)
  case (Cons x xs)
  then show ?case by (cases "f x s") simp_all
qed simp

text \<open>The data lines of the watched program below a frame of program \<open>q\<close>, in order.\<close>

fun data_lines :: "string \<Rightarrow> string \<Rightarrow> log_tree \<Rightarrow> string list" where
  "data_lines pid q (Line line) = (if q = pid \<and> starts_with PROGRAM_DATA_PREFIX line then [line] else [])"
| "data_lines pid q (Call p body oc) = concat (map (data_lines pid p) body)"

definition emit :: "u64 \<Rightarrow> u64 option \<Rightarrow> string \<Rightarrow> u16 \<Rightarrow> string \<Rightarrow> scope_state \<Rightarrow> scope_state" where
  "emit slot' tx sig i line s =
     (let event = btree_get_or 0 (scope_event_indexes s) i in
      s\<lparr>scope_event_indexes := btree_insert i (event + 1) (scope_event_indexes s),
        scope_scoped := scope_scoped s @ [\<lparr>scoped_coordinate = \<lparr>slot = slot', transaction_index = tx,
          signature = sig, instruction_index = i, event_index = event\<rparr>, scoped_log = line\<rparr>]\<rparr>)"

definition next_event :: "scope_state \<Rightarrow> u16 \<Rightarrow> u16" where
  "next_event s i = btree_get_or 0 (scope_event_indexes s) i"

lemma emit_frame [simp]:
  "scope_stack (emit slot' tx sig i line s) = scope_stack s"
  "scope_next_instruction (emit slot' tx sig i line s) = scope_next_instruction s"
  by (simp_all add: emit_def Let_def)

lemma fold_emit_frame [simp]:
  "scope_stack (fold (emit slot' tx sig i) ls s) = scope_stack s"
  "scope_next_instruction (fold (emit slot' tx sig i) ls s) = scope_next_instruction s"
  by (induction ls arbitrary: s) simp_all

lemma next_event_emit [simp]:
  "next_event (emit slot' tx sig i line s) j = (if j = i then next_event s i + 1 else next_event s j)"
  by (simp add: emit_def next_event_def Let_def btree_get_or_def btree_simps)

lemma next_event_fold_emit:
  "next_event (fold (emit slot' tx sig i) ls s) j
     = (if j = i then next_event s i + of_nat (length ls) else next_event s j)"
  by (induction ls arbitrary: s) simp_all

lemma emit_push [simp]:
  "emit slot' tx sig i line (s\<lparr>scope_stack := st\<rparr>) = (emit slot' tx sig i line s)\<lparr>scope_stack := st\<rparr>"
  by (simp add: emit_def Let_def)

lemma fold_emit_push:
  "fold (emit slot' tx sig i) ls (s\<lparr>scope_stack := st\<rparr>) = (fold (emit slot' tx sig i) ls s)\<lparr>scope_stack := st\<rparr>"
  by (induction ls arbitrary: s) simp_all

lemma max_height: "t \<in> set ts \<Longrightarrow> height t \<le> fold max (map height ts) 0"
proof -
  have "x \<le> fold max xs a" if "x \<in> set xs \<or> x \<le> a" for x a :: nat and xs
    using that by (induction xs arbitrary: a) (auto simp: le_max_iff_disj)
  from this [of "height t" "map height ts" 0]
  show "t \<in> set ts \<Longrightarrow> height t \<le> fold max (map height ts) 0" by simp
qed

text \<open>
  Within a frame of program \<open>q\<close> the walk emits the data lines of a printed tree, and only them;
  then it does so for the trees of a whole body.
\<close>

definition walks :: "string \<Rightarrow> u64 \<Rightarrow> u64 option \<Rightarrow> string \<Rightarrow> log_tree \<Rightarrow> bool" where
  "walks pid slot' tx sig t \<longleftrightarrow>
     (\<forall>s q i st. well_formed t \<longrightarrow> height t + length (scope_stack s) < usize_max
        \<longrightarrow> scope_stack s = (q, i) # st
        \<longrightarrow> unat (next_event s i) + length (data_lines pid q t) < 2 ^ 16
        \<longrightarrow> walk (scope_step pid slot' tx sig) (render (length (scope_stack s) + 1) t) s
              = Inr (fold (emit slot' tx sig i) (data_lines pid q t) s))"

lemma walk_body:
  assumes "\<forall>t\<in>set ts. walks pid slot' tx sig t \<and> well_formed t \<and> height t + Suc (length st) < usize_max"
    and "scope_stack s = (q, i) # st"
    and "unat (next_event s i) + length (concat (map (data_lines pid q) ts)) < 2 ^ 16"
  shows "walk (scope_step pid slot' tx sig) (concat (map (render (length st + 2)) ts)) s
    = Inr (fold (emit slot' tx sig i) (concat (map (data_lines pid q) ts)) s)"
  using assms
proof (induction ts arbitrary: s)
  case (Cons t ts)
  let ?e = "emit slot' tx sig i"
  have "walk (scope_step pid slot' tx sig) (render (length st + 2) t) s = Inr (fold ?e (data_lines pid q t) s)"
    using Cons.prems unfolding walks_def by (auto dest!: spec [of _ s])
  moreover have "unat (next_event (fold ?e (data_lines pid q t) s) i)
      = unat (next_event s i) + length (data_lines pid q t)"
    using Cons.prems(3) by (simp add: next_event_fold_emit unat_add_small unat_of_nat_small)
  ultimately show ?case
    using Cons.IH [of "fold ?e (data_lines pid q t) s"] Cons.prems by (simp add: walk_append)
qed simp

lemma step_exit_line:
  assumes "is_plausible_program_id p" and "outcome_ok oc"
  shows "scope_step pid slot' tx sig (exit_line p oc) (u\<lparr>scope_stack := (p, i) # st\<rparr>)
    = Inr (u\<lparr>scope_stack := st\<rparr>)"
  using assms by (simp add: scope_step_def parse_invoke_exit_line parse_exit_line scope_exit_def)

lemma walks_tree: "walks pid slot' tx sig t"
proof (induction t)
  case (Line line)
  show ?case
    by (auto simp: walks_def scope_step_def plain_line_def scope_data_def emit_def next_event_def Let_def
        checked_add_word_def unat_add_small)
next
  case (Call p body oc)
  show ?case
    unfolding walks_def
  proof (intro allI impI)
    fix s q i st
    assume wf: "well_formed (Call p body oc)"
      and h: "height (Call p body oc) + length (scope_stack s) < usize_max"
      and st: "scope_stack s = (q, i) # st"
      and n: "unat (next_event s i) + length (data_lines pid q (Call p body oc)) < 2 ^ 16"
    let ?f = "scope_step pid slot' tx sig" and ?s = "s\<lparr>scope_stack := (p, i) # scope_stack s\<rparr>"
    have "?f (invoke_line p (length (scope_stack s) + 1)) s = Inr ?s"
      using wf h st by (simp add: scope_step_def parse_invoke_line scope_invoke_def saturating_add_usize_def)
    moreover have "walk ?f (concat (map (render (length (scope_stack s) + 2)) body)) ?s
        = Inr (fold (emit slot' tx sig i) (concat (map (data_lines pid p) body)) ?s)"
    proof (rule walk_body [where q = p])
      show "\<forall>t\<in>set body. walks pid slot' tx sig t \<and> well_formed t \<and> height t + Suc (length (scope_stack s)) < usize_max"
        using Call.IH wf h max_height [of _ body] by (fastforce simp: list_all_iff)
      show "unat (next_event ?s i) + length (concat (map (data_lines pid p) body)) < 2 ^ 16"
        using n by (simp add: next_event_def)
    qed simp
    ultimately show "walk ?f (render (length (scope_stack s) + 1) (Call p body oc)) s
        = Inr (fold (emit slot' tx sig i) (data_lines pid q (Call p body oc)) s)"
      using wf by (simp add: walk_append fold_emit_push step_exit_line)
  qed
qed

section \<open>Transactions\<close>

text \<open>The scoped records of one instruction and of a transaction, by specification.\<close>

definition scoped_of :: "u64 \<Rightarrow> u64 option \<Rightarrow> string \<Rightarrow> u16 \<Rightarrow> nat \<Rightarrow> string list \<Rightarrow> scoped_program_data list" where
  "scoped_of slot' tx sig i k ls = map (\<lambda>(e, line).
     \<lparr>scoped_coordinate = \<lparr>slot = slot', transaction_index = tx, signature = sig, instruction_index = i,
        event_index = of_nat e\<rparr>, scoped_log = line\<rparr>) (enumerate k ls)"

definition scoped_spec ::
    "string \<Rightarrow> u64 \<Rightarrow> u64 option \<Rightarrow> string \<Rightarrow> nat \<Rightarrow> log_tree list \<Rightarrow> scoped_program_data list" where
  "scoped_spec pid slot' tx sig k ts =
     concat (map (\<lambda>(i, t). scoped_of slot' tx sig (of_nat i) 0 (data_lines pid [] t)) (enumerate k ts))"

lemma scope_scoped_fold_emit:
  "scope_scoped (fold (emit slot' tx sig i) ls s)
     = scope_scoped s @ scoped_of slot' tx sig i (unat (next_event s i)) ls"
  if "unat (next_event s i) + length ls < 2 ^ 16"
  using that
proof (induction ls arbitrary: s)
  case (Cons l ls)
  have "unat (next_event (emit slot' tx sig i l s) i) = unat (next_event s i) + 1"
    using Cons.prems by (simp add: unat_add_small)
  then show ?case
    using Cons by (simp add: scoped_of_def) (simp add: emit_def next_event_def Let_def)
qed (simp add: scoped_of_def)

fun is_call :: "log_tree \<Rightarrow> bool" where
  "is_call (Call _ _ _) = True"
| "is_call _ = False"

definition execution :: "string \<Rightarrow> log_tree list \<Rightarrow> bool" where
  "execution pid ts \<longleftrightarrow> length ts < 2 ^ 16
     \<and> (\<forall>t\<in>set ts. is_call t \<and> well_formed t \<and> height t < usize_max \<and> length (data_lines pid [] t) < 2 ^ 16)"

lemma walk_forest:
  assumes "\<forall>t\<in>set ts. is_call t \<and> well_formed t \<and> height t < usize_max \<and> length (data_lines pid [] t) < 2 ^ 16"
    and "scope_stack s = []" and "scope_next_instruction s = of_nat k" and "k + length ts < 2 ^ 16"
    and "\<forall>j. k \<le> unat j \<longrightarrow> next_event s j = 0"
  shows "\<exists>s'. walk (scope_step pid slot' tx sig) (concat (map (render 1) ts)) s = Inr s'
    \<and> scope_stack s' = [] \<and> scope_scoped s' = scope_scoped s @ scoped_spec pid slot' tx sig k ts"
  using assms
proof (induction ts arbitrary: s k)
  case (Cons t ts)
  let ?f = "scope_step pid slot' tx sig"
  let ?i = "of_nat k :: u16"
  obtain p body oc where t: "t = Call p body oc" using Cons.prems(1) by (cases t) auto
  have k: "unat ?i = k" using Cons.prems(4) by (simp add: unat_of_nat_small)
  let ?s = "s\<lparr>scope_next_instruction := of_nat (Suc k), scope_stack := [(p, ?i)]\<rparr>"
  let ?ls = "data_lines pid [] t"
  let ?u = "(fold (emit slot' tx sig ?i) ?ls ?s)\<lparr>scope_stack := []\<rparr>"
  have ev: "next_event ?s ?i = 0" using Cons.prems(5) k by (simp add: next_event_def)
  have invoke: "?f (invoke_line p 1) s = Inr ?s"
    using Cons.prems(1-4) k
    by (cases s)
       (simp add: t scope_step_def parse_invoke_line usize_max_def scope_invoke_def saturating_add_usize_def
        checked_add_word_def unat_of_nat_small)
  have "\<forall>t\<in>set body. walks pid slot' tx sig t \<and> well_formed t \<and> height t + Suc 0 < usize_max"
    using walks_tree Cons.prems(1) max_height [of _ body] by (fastforce simp: t list_all_iff)
  moreover have "unat (next_event ?s ?i) + length (concat (map (data_lines pid p) body)) < 2 ^ 16"
    using Cons.prems(1) ev by (simp add: t)
  ultimately have "walk ?f (concat (map (render 2) body)) ?s = Inr (fold (emit slot' tx sig ?i) ?ls ?s)"
    using walk_body [of body pid slot' tx sig "[]" ?s p ?i] by (simp add: t numeral_2_eq_2)
  then have "walk ?f (render 1 t) s = Inr ?u"
    using Cons.prems(1) invoke by (simp add: t walk_append fold_emit_push step_exit_line numeral_2_eq_2)
  moreover have "next_event ?u j = 0" if "Suc k \<le> unat j" for j
    using that Cons.prems(5) k next_event_fold_emit [of slot' tx sig ?i ?ls ?s j]
    by (auto simp: next_event_def)
  moreover have "scope_scoped ?u = scope_scoped s @ scoped_of slot' tx sig ?i 0 ?ls"
    using scope_scoped_fold_emit [of ?s ?i ?ls slot' tx sig] Cons.prems(1) ev by simp
  ultimately show ?case
    using Cons.IH [of ?u "Suc k"] Cons.prems
    by (auto simp: walk_append scoped_spec_def)
qed (simp add: scoped_spec_def)

lemma scope_printed:
  assumes "execution pid ts" and "\<not> trim_is_empty sig"
  shows "scope_program_data_logs pid slot' tx sig (concat (map (render 1) ts))
    = Inr (scoped_spec pid slot' tx sig 0 ts)"
proof -
  have "\<exists>s'. walk (scope_step pid slot' tx sig) (concat (map (render 1) ts)) scope_init = Inr s'
    \<and> scope_stack s' = [] \<and> scope_scoped s' = scope_scoped scope_init @ scoped_spec pid slot' tx sig 0 ts"
    using assms(1) by (intro walk_forest)
      (auto simp: execution_def scope_init_def next_event_def btree_get_or_def btree_simps)
  then show ?thesis
    using assms(2) by (auto simp: scope_program_data_logs_def scope_init_def)
qed


text \<open>A transaction of two instructions, the second of which calls the watched program.\<close>

definition example_execution :: "log_tree list" where
  "example_execution =
     [Call ''Compute'' [] Succeeded,
      Call ''Router'' [Line ''Program log: swap'',
        Call ''Watched'' [Line ''Program data: AAAA'', Call ''Token'' [Line ''Program data: BBBB''] Succeeded,
          Line ''Program data: CCCC''] Succeeded] Succeeded]"

lemma example_execution_ok: "execution ''Watched'' example_execution"
  by (simp add: execution_def example_execution_def is_plausible_program_id_def is_ascii_whitespace_def
      plain_line_def is_log_truncation_marker_def parse_invoke_def parse_exit_def strip_prefix_def
      starts_with_def strip_suffix_def ends_with_def PROGRAM_DATA_PREFIX_def usize_max_def)


section \<open>Whatever the log, coordinates are unique\<close>

text \<open>What every step of a walk keeps, the whole walk keeps.\<close>

locale log_walk =
  fixes step' :: "'a \<Rightarrow> 's \<Rightarrow> ('e, 's) result" and inv :: "'s \<Rightarrow> bool"
  assumes step_inv: "inv s \<Longrightarrow> step' x s = Inr s' \<Longrightarrow> inv s'"
begin

lemma walk_inv: "walk step' xs s = Inr s' \<Longrightarrow> inv s \<Longrightarrow> inv s'"
  by (induction xs arbitrary: s) (auto simp: result_simps dest: step_inv)

end

abbreviation rec_instruction :: "scoped_program_data \<Rightarrow> u16" where
  "rec_instruction r \<equiv> instruction_index (scoped_coordinate r)"

abbreviation rec_event :: "scoped_program_data \<Rightarrow> u16" where
  "rec_event r \<equiv> event_index (scoped_coordinate r)"

definition scope_inv :: "u64 \<Rightarrow> u64 option \<Rightarrow> string \<Rightarrow> scope_state \<Rightarrow> bool" where
  "scope_inv slot' tx sig s \<longleftrightarrow>
     (\<forall>i. map rec_event (filter (\<lambda>r. rec_instruction r = i) (scope_scoped s))
           = map of_nat [0..<unat (next_event s i)])
     \<and> (\<forall>r\<in>set (scope_scoped s). starts_with PROGRAM_DATA_PREFIX (scoped_log r)
          \<and> slot (scoped_coordinate r) = slot' \<and> transaction_index (scoped_coordinate r) = tx
          \<and> signature (scoped_coordinate r) = sig)"

lemma scope_inv_frame:
  "scope_inv slot' tx sig s \<Longrightarrow> scope_scoped s' = scope_scoped s \<Longrightarrow>
   scope_event_indexes s' = scope_event_indexes s \<Longrightarrow> scope_inv slot' tx sig s'"
  by (simp add: scope_inv_def next_event_def)

lemma scope_inv_emit:
  assumes "scope_inv slot' tx sig s" and "starts_with PROGRAM_DATA_PREFIX line"
    and "unat (next_event s i) + 1 < 2 ^ 16"
  shows "scope_inv slot' tx sig (emit slot' tx sig i line s)"
proof -
  have "unat (next_event s i + 1) = Suc (unat (next_event s i))"
    using assms(3) by (simp add: unat_add_small)
  moreover have "(of_nat (unat (next_event s i)) :: u16) = next_event s i" by simp
  ultimately show ?thesis
    using assms(1,2) unfolding scope_inv_def next_event_emit
    by (auto simp: emit_def Let_def next_event_def)
qed

lemma scope_data_emit:
  assumes "scope_data pid slot' tx sig line s = Inr s'"
  shows "s' = s \<or> (\<exists>i. s' = emit slot' tx sig i line s \<and> unat (next_event s i) + 1 < 2 ^ 16)"
  using assms
  by (auto simp: scope_data_def Let_def result_simps checked_add_word_def emit_def next_event_def
      split: if_splits list.splits prod.splits)

interpretation scope_walk: log_walk "scope_step pid slot' tx sig" "scope_inv slot' tx sig"
  for pid slot' tx sig
proof unfold_locales
  fix s line s'
  assume inv: "scope_inv slot' tx sig s" and "scope_step pid slot' tx sig line s = Inr s'"
  then consider "scope_scoped s' = scope_scoped s" "scope_event_indexes s' = scope_event_indexes s"
    | "scope_data pid slot' tx sig line s = Inr s'" "starts_with PROGRAM_DATA_PREFIX line"
    by (auto simp: scope_step_def scope_invoke_def scope_exit_def result_simps
        split: if_splits option.splits list.splits prod.splits)
  then show "scope_inv slot' tx sig s'"
    by cases (use inv in \<open>auto intro: scope_inv_frame scope_inv_emit dest!: scope_data_emit\<close>)
qed

lemma distinct_by_groups:
  assumes "\<forall>i. distinct (map g (filter (\<lambda>r. f r = i) xs))" and "\<And>x y. h x = h y \<Longrightarrow> f x = f y \<and> g x = g y"
  shows "distinct (map h xs)"
  using assms(1)
proof (induction xs)
  case (Cons x xs)
  have "g x \<notin> g ` set (filter (\<lambda>r. f r = f x) xs)" using spec [OF Cons.prems, of "f x"] by simp
  then have "h x \<noteq> h y" if "y \<in> set xs" for y
    using assms(2) [of x y] that by auto
  then have "h x \<notin> h ` set xs" by blast
  moreover have "\<forall>i. distinct (map g (filter (\<lambda>r. f r = i) xs))"
  proof
    fix i show "distinct (map g (filter (\<lambda>r. f r = i) xs))"
      using spec [OF Cons.prems, of i] by (cases "f x = i") simp_all
  qed
  ultimately show ?case using Cons.IH by simp
qed simp

lemma scope_program_data_inv:
  assumes "scope_program_data_logs pid slot' tx sig logs = Inr scoped"
  shows "\<exists>s. scope_inv slot' tx sig s \<and> scope_scoped s = scoped"
proof -
  have "scope_inv slot' tx sig scope_init"
    by (simp add: scope_inv_def scope_init_def next_event_def btree_get_or_def btree_simps)
  then show ?thesis
    using assms
    by (auto simp: scope_program_data_logs_def result_simps dest!: scope_walk.walk_inv split: if_splits)
qed

text \<open>The number of records of one instruction fits the 16-bit counter that numbers them.\<close>

lemma scoped_count:
  assumes "scope_program_data_logs pid slot' tx sig logs = Inr scoped"
  shows "length (filter (\<lambda>r. rec_instruction r = i) scoped) < 2 ^ 16"
proof -
  obtain s where s: "scope_inv slot' tx sig s" "scope_scoped s = scoped"
    using scope_program_data_inv [OF assms] by blast
  then have "length (map rec_event (filter (\<lambda>r. rec_instruction r = i) scoped)) = unat (next_event s i)"
    unfolding scope_inv_def by (metis length_map length_upt minus_nat.diff_0)
  then show ?thesis using unat_bound [of "next_event s i"] by simp
qed

text \<open>
  Whatever the log, no two records that the walk returns share their chain coordinate, so that
  no two observations collide on their key; each record is a program data line and carries the
  slot and signature of the transaction; and the records of an instruction are numbered from zero
  without gaps.
\<close>

theorem scoped_coordinates_unique:
  assumes "scope_program_data_logs pid slot' tx sig logs = Inr scoped"
  shows "distinct (map scoped_coordinate scoped)
    \<and> (\<forall>r\<in>set scoped. starts_with PROGRAM_DATA_PREFIX (scoped_log r)
         \<and> slot (scoped_coordinate r) = slot' \<and> signature (scoped_coordinate r) = sig)
    \<and> (\<forall>i. \<exists>n. map (event_index \<circ> scoped_coordinate)
           (filter (\<lambda>r. instruction_index (scoped_coordinate r) = i) scoped) = map of_nat [0..<n])"
proof -
  obtain s where s: "scope_inv slot' tx sig s" "scope_scoped s = scoped"
    using scope_program_data_inv [OF assms] by blast
  have "inj_on (of_nat :: nat \<Rightarrow> u16) {0..<n}" if "n < 2 ^ 16" for n
  proof (rule inj_onI)
    fix x y assume xy: "x \<in> {0..<n}" "y \<in> {0..<n}" and eq: "(of_nat x :: u16) = of_nat y"
    from xy that have u: "unat (of_nat x :: u16) = x" "unat (of_nat y :: u16) = y"
      by (simp_all add: unat_of_nat_small)
    have "unat (of_nat x :: u16) = unat (of_nat y :: u16)" by (rule arg_cong [OF eq])
    then show "x = y" unfolding u .
  qed
  then have "distinct (map rec_event (filter (\<lambda>r. rec_instruction r = i) scoped))" for i
    using s unat_bound [of "next_event s i"] by (auto simp: scope_inv_def distinct_map)
  then have "distinct (map scoped_coordinate scoped)"
    by (intro distinct_by_groups [of rec_event rec_instruction]) auto
  moreover have "\<forall>i. \<exists>n. map (event_index \<circ> scoped_coordinate)
      (filter (\<lambda>r. instruction_index (scoped_coordinate r) = i) scoped) = map of_nat [0..<n]"
    using s unfolding scope_inv_def comp_def by blast
  ultimately show ?thesis using s by (auto simp: scope_inv_def)
qed

theorem scoped_coordinates_unique_witness:
  "\<exists>scoped. scope_program_data_logs ''Watched'' 7 None ''sig'' (concat (map (render 1) example_execution))
      = Inr scoped \<and> distinct (map scoped_coordinate scoped)"
proof -
  have "\<not> trim_is_empty ''sig''" by (simp add: white_space_1_def white_space_2_def white_space_3_def)
  from scope_printed [OF example_execution_ok this, of 7 None] show ?thesis
    using scoped_coordinates_unique by blast
qed

end
