(* ===== verification/Log_Pairing.thy ===== *)
theory Log_Pairing
  imports Log_Scope_Correct
begin

text \<open>
  The pairing of events with silent self-calls against a specification by recursion on the
  execution. Inside the outermost frame of the watched program every data line has to be followed
  by one silent, successful call of the program to itself; anything else, and every silent
  successful self-call without its line, is a gap. The stack machine of
  \<open>successful_self_cpi_coverage\<close> computes exactly this.
\<close>

section \<open>Specification\<close>

fun silent_item :: "string \<Rightarrow> log_tree \<Rightarrow> bool" where
  "silent_item P (Line line) = (\<not> starts_with PROGRAM_DATA_PREFIX line \<and> is_compute_consumed_log P line)"
| "silent_item P (Call q body oc) = False"

text \<open>A silent successful self-call that no data line announced.\<close>

fun stray :: "string \<Rightarrow> log_tree \<Rightarrow> bool" where
  "stray P (Line line) = False"
| "stray P (Call q body oc) =
     (q = P \<and> oc = Succeeded \<and> list_all (silent_item P) body \<or> list_ex (stray P) body)"

definition gap_if :: "bool \<Rightarrow> self_cpi_coverage \<Rightarrow> self_cpi_coverage" where
  "gap_if b c = (if b then c\<lparr>pairing_gap := True\<rparr> else c)"

fun pair_item :: "string \<Rightarrow> log_tree \<Rightarrow> self_cpi_coverage \<Rightarrow> self_cpi_coverage" where
  "pair_item P (Line line) c =
     (if starts_with PROGRAM_DATA_PREFIX line then note_direct_event c
      else if is_compute_consumed_log P line then c
      else abandon_pending c)"
| "pair_item P (Call q body oc) c =
     (if q = P \<and> pending_direct_event c
      then (if oc = Succeeded \<and> list_all (silent_item P) body
            then c\<lparr>successful_event_calls := successful_event_calls c + 1, pending_direct_event := False\<rparr>
            else c\<lparr>pairing_gap := True, pending_direct_event := False\<rparr>)
      else gap_if (stray P (Call q body oc)) (abandon_pending c))"

fun cover :: "string \<Rightarrow> log_tree \<Rightarrow> self_cpi_coverage \<Rightarrow> self_cpi_coverage" where
  "cover P (Line line) c = c"
| "cover P (Call q body oc) c =
     (if q = P then abandon_pending (fold (pair_item P) body c) else fold (cover P) body c)"

section \<open>Effects on the coverage\<close>

definition cov :: "cpi_state \<Rightarrow> u16 \<Rightarrow> self_cpi_coverage" where
  "cov s i = btree_get_or self_cpi_default (cpi_coverage s) i"

definition keys_of :: "cpi_state \<Rightarrow> u16 set" where
  "keys_of s = fst ` set (cpi_coverage s)"

definition eff :: "u16 \<Rightarrow> (self_cpi_coverage \<Rightarrow> self_cpi_coverage) \<Rightarrow> invocation_frame list
    \<Rightarrow> cpi_state \<Rightarrow> cpi_state \<Rightarrow> bool" where
  "eff i g stk s s' \<longleftrightarrow>
     cpi_stack s' = stk \<and> cpi_next_instruction s' = cpi_next_instruction s
     \<and> cov s' = (cov s)(i := g (cov s i))
     \<and> keys_of s \<subseteq> keys_of s' \<and> keys_of s' \<subseteq> insert i (keys_of s)"

lemma eff_refl: "eff i (\<lambda>c. c) (cpi_stack s) s s"
  by (auto simp: eff_def)

lemma eff_trans: "eff i g stk s s' \<Longrightarrow> eff i h stk' s' s'' \<Longrightarrow> eff i (\<lambda>c. h (g c)) stk' s s''"
  by (auto simp: eff_def)

lemma cov_update [simp]: "cov (update_coverage i f s) = (cov s)(i := f (cov s i))"
  by (auto simp: cov_def update_coverage_def btree_get_or_def btree_simps fun_eq_iff)

lemma update_coverage_frame [simp]:
  "cpi_stack (update_coverage i f s) = cpi_stack s"
  "cpi_next_instruction (update_coverage i f s) = cpi_next_instruction s"
  "keys_of (update_coverage i f s) = insert i (keys_of s)"
  by (simp_all add: update_coverage_def keys_of_def)

lemma cov_frame [simp]:
  "cov (s\<lparr>cpi_stack := stk\<rparr>) = cov s" "cov (s\<lparr>cpi_next_instruction := k\<rparr>) = cov s"
  "keys_of (s\<lparr>cpi_stack := stk\<rparr>) = keys_of s" "keys_of (s\<lparr>cpi_next_instruction := k\<rparr>) = keys_of s"
  by (simp_all add: cov_def keys_of_def fun_eq_iff)

lemma eff_update: "eff i f (cpi_stack s) s (update_coverage i f s)"
  by (auto simp: eff_def)

lemma eff_push: "eff i g stk s s' \<Longrightarrow> eff i g stk' s (s'\<lparr>cpi_stack := stk'\<rparr>)"
  by (auto simp: eff_def)

definition frame_ok :: "string \<Rightarrow> invocation_frame \<Rightarrow> bool" where
  "frame_ok P f \<longleftrightarrow> (is_target_self_cpi f \<longrightarrow> frame_program_id f = P)"

definition silence :: "string \<Rightarrow> log_tree \<Rightarrow> invocation_frame \<Rightarrow> invocation_frame" where
  "silence P t f =
     (if is_target_self_cpi f \<and> \<not> silent_item P t then f\<lparr>silent_candidate := False\<rparr> else f)"

lemma silence_frame [simp]:
  "frame_program_id (silence P t f) = frame_program_id f"
  "frame_instruction_index (silence P t f) = frame_instruction_index f"
  "is_target_self_cpi (silence P t f) = is_target_self_cpi f"
  "candidate_for_pending_event (silence P t f) = candidate_for_pending_event f"
  by (simp_all add: silence_def)

lemma fold_silence [simp]:
  "frame_program_id (fold (silence P) ts f) = frame_program_id f"
  "frame_instruction_index (fold (silence P) ts f) = frame_instruction_index f"
  "is_target_self_cpi (fold (silence P) ts f) = is_target_self_cpi f"
  "candidate_for_pending_event (fold (silence P) ts f) = candidate_for_pending_event f"
  by (induction ts arbitrary: f) simp_all

lemma fold_silence_candidate:
  "is_target_self_cpi f \<Longrightarrow>
   silent_candidate (fold (silence P) ts f) = (silent_candidate f \<and> list_all (silent_item P) ts)"
  by (induction ts arbitrary: f) (auto simp: silence_def)

lemma gap_if_simps [simp]:
  "gap_if False = (\<lambda>c. c)" "gap_if a (gap_if b c) = gap_if (a \<or> b) c"
  "pending_direct_event (gap_if b c) = pending_direct_event c"
  "successful_event_calls (gap_if b c) = successful_event_calls c"
  by (auto simp: gap_if_def fun_eq_iff)

lemma fold_gap_if: "fold (\<lambda>t. gap_if (p t)) ts c = gap_if (list_ex p ts) c"
  by (induction ts arbitrary: c) (auto simp: gap_if_def)

lemma step_exit: "is_plausible_program_id p \<Longrightarrow> outcome_ok oc \<Longrightarrow>
    cpi_step P (exit_line p oc) s = cpi_exit P p (oc = Succeeded) s"
  by (simp add: cpi_step_def parse_invoke_exit_line parse_exit_line)

lemma step_invoke: "is_plausible_program_id p \<Longrightarrow> depth \<le> usize_max \<Longrightarrow>
    cpi_step P (invoke_line p depth) s = cpi_invoke P p depth s"
  by (simp add: cpi_step_def parse_invoke_line)

section \<open>Below the watched program\<close>

text \<open>
  Under a self-call or under another program called by the watched one, a tree can only silence its
  frame and add strays. First for a body, given its trees; then for every tree.
\<close>

definition walks_below :: "string \<Rightarrow> log_tree \<Rightarrow> bool" where
  "walks_below P t \<longleftrightarrow>
     (\<forall>s f st. well_formed t \<longrightarrow> height t + length (cpi_stack s) < usize_max
        \<longrightarrow> cpi_stack s = f # st \<longrightarrow> list_ex (\<lambda>f. frame_program_id f = P) (f # st)
        \<longrightarrow> is_target_self_cpi f = (frame_program_id f = P)
        \<longrightarrow> (\<exists>s'. walk (cpi_step P) (render (length (cpi_stack s) + 1) t) s = Inr s'
              \<and> eff (frame_instruction_index f) (gap_if (stray P t)) (silence P t f # st) s s'))"

lemma walk_below_body:
  assumes "\<forall>t\<in>set ts. walks_below P t \<and> well_formed t \<and> height t + Suc (length st) < usize_max"
    and "cpi_stack s = f # st" and "list_ex (\<lambda>f. frame_program_id f = P) (f # st)"
    and "is_target_self_cpi f = (frame_program_id f = P)"
  shows "\<exists>s'. walk (cpi_step P) (concat (map (render (length st + 2)) ts)) s = Inr s'
    \<and> eff (frame_instruction_index f) (gap_if (list_ex (stray P) ts)) (fold (silence P) ts f # st) s s'"
  using assms
proof (induction ts arbitrary: s f)
  case Nil
  then show ?case using eff_refl [of "frame_instruction_index f" s] by simp
next
  case (Cons t ts)
  let ?i = "frame_instruction_index f"
  obtain u where u: "walk (cpi_step P) (render (length st + 2) t) s = Inr u"
      "eff ?i (gap_if (stray P t)) (silence P t f # st) s u"
    using Cons.prems unfolding walks_below_def by (auto dest!: spec [of _ s])
  have "\<exists>s'. walk (cpi_step P) (concat (map (render (length st + 2)) ts)) u = Inr s'
    \<and> eff (frame_instruction_index (silence P t f)) (gap_if (list_ex (stray P) ts))
        (fold (silence P) ts (silence P t f) # st) u s'"
    by (rule Cons.IH) (use Cons.prems u(2) in \<open>auto simp: eff_def\<close>)
  then obtain s' where "walk (cpi_step P) (concat (map (render (length st + 2)) ts)) u = Inr s'"
      "eff ?i (gap_if (list_ex (stray P) ts)) (fold (silence P) ts (silence P t f) # st) u s'" by auto
  with u eff_trans [OF u(2) this(2)] show ?case by (auto simp: walk_append disj_commute)
qed

definition pushed :: "string \<Rightarrow> string \<Rightarrow> u16 \<Rightarrow> bool \<Rightarrow> invocation_frame" where
  "pushed P q i candidate = \<lparr>frame_program_id = q, frame_instruction_index = i, is_target_self_cpi = (q = P),
     silent_candidate = (q = P), candidate_for_pending_event = candidate\<rparr>"

lemma pushed_simps [simp]:
  "frame_program_id (pushed P q i b) = q" "frame_instruction_index (pushed P q i b) = i"
  "is_target_self_cpi (pushed P q i b) = (q = P)" "silent_candidate (pushed P q i b) = (q = P)"
  "candidate_for_pending_event (pushed P q i b) = b"
  by (simp_all add: pushed_def)

text \<open>The invocation under a frame that is not the outermost one of the watched program.\<close>

lemma invoke_below:
  assumes "cpi_stack s = f # st" and "list_ex (\<lambda>f. frame_program_id f = P) (f # st)"
    and "is_target_self_cpi f = (frame_program_id f = P)" and "Suc (length (cpi_stack s)) \<le> usize_max"
  shows "cpi_invoke P q (length (cpi_stack s) + 1) s
    = Inr (s\<lparr>cpi_stack := pushed P q (frame_instruction_index f) False # silence P (Call q body oc) f # st\<rparr>)"
  using assms
  by (auto simp: cpi_invoke_def saturating_add_usize_def cpi_instruction_def top_silenced_def
      under_target_def silence_def pushed_def Let_def list_ex_iff)

lemma walks_below_line: "walks_below P (Line line)"
proof -
  have "cpi_step P line s = Inr (s\<lparr>cpi_stack := silence P (Line line) f # st\<rparr>)"
    if "plain_line line" "cpi_stack s = f # st" "is_target_self_cpi f = (frame_program_id f = P)" for s f st
    using that
    by (cases s) (auto simp: cpi_step_def plain_line_def cpi_data_def cpi_other_def top_silenced_def silence_def)
  moreover have "eff i (\<lambda>c. c) stk s (s\<lparr>cpi_stack := stk\<rparr>)" for i stk s
    by (auto simp: eff_def)
  ultimately show ?thesis by (auto simp: walks_below_def)
qed

lemma walks_below_tree: "walks_below P t"
proof (induction t)
  case (Line line)
  show ?case by (rule walks_below_line)
next
  case (Call q body oc)
  show ?case
    unfolding walks_below_def
  proof (intro allI impI)
    fix s :: cpi_state and f st
    assume wf: "well_formed (Call q body oc)" and h: "height (Call q body oc) + length (cpi_stack s) < usize_max"
      and st: "cpi_stack s = f # st" and P: "list_ex (\<lambda>f. frame_program_id f = P) (f # st)"
      and f: "is_target_self_cpi f = (frame_program_id f = P)"
    let ?i = "frame_instruction_index f" and ?f = "silence P (Call q body oc) f"
    let ?g = "pushed P q ?i False"
    let ?s = "s\<lparr>cpi_stack := ?g # ?f # st\<rparr>"
    have inv: "cpi_step P (invoke_line q (length (cpi_stack s) + 1)) s = Inr ?s"
      using wf h invoke_below [OF st P f] by (simp add: step_invoke)
    have "\<forall>t\<in>set body. walks_below P t \<and> well_formed t \<and> height t + Suc (length (?f # st)) < usize_max"
      using Call.IH wf h st max_height [of _ body] by (fastforce simp: list_all_iff)
    from walk_below_body [OF this, of ?s ?g] P obtain u where
      u: "walk (cpi_step P) (concat (map (render (length (?f # st) + 2)) body)) ?s = Inr u"
        "eff ?i (gap_if (list_ex (stray P) body)) (fold (silence P) body ?g # ?f # st) ?s u" by auto
    let ?b = "q = P \<and> oc = Succeeded \<and> list_all (silent_item P) body"
    have "cpi_step P (exit_line q oc) u = Inr (update_coverage ?i (gap_if ?b) (u\<lparr>cpi_stack := ?f # st\<rparr>))"
      using wf u(2)
      by (cases "q = P")
         (auto simp: step_exit cpi_exit_def eff_def Let_def close_candidate_def fold_silence_candidate
           cov_def [symmetric] gap_if_def update_coverage_def)
    moreover have "eff ?i (gap_if (stray P (Call q body oc))) (?f # st) s
        (update_coverage ?i (gap_if ?b) (u\<lparr>cpi_stack := ?f # st\<rparr>))"
      using u(2) by (auto simp: eff_def)
    ultimately show "\<exists>s'. walk (cpi_step P) (render (length (cpi_stack s) + 1) (Call q body oc)) s = Inr s'
        \<and> eff ?i (gap_if (stray P (Call q body oc))) (?f # st) s s'"
      using inv u(1) by (auto simp: walk_append st)
  qed
qed

section \<open>Inside the watched program\<close>

lemma pending_cov:
  "(case btree_get (cpi_coverage s) i of None \<Rightarrow> False | Some e \<Rightarrow> pending_direct_event e)
     = pending_direct_event (cov s i)"
  by (auto simp: cov_def btree_get_or_def self_cpi_default_def split: option.split)

text \<open>The invocation directly under the outermost frame of the watched program.\<close>

lemma invoke_inside:
  fixes q :: string
  assumes "cpi_stack s = f # st" and "frame_program_id f = P" and "\<not> is_target_self_cpi f"
    and "Suc (length (cpi_stack s)) \<le> usize_max"
  defines "i \<equiv> frame_instruction_index f"
  defines "candidate \<equiv> q = P \<and> pending_direct_event (cov s i)"
  shows "cpi_invoke P q (length (cpi_stack s) + 1) s
    = Inr ((update_coverage i (if candidate then (\<lambda>c. c) else abandon_pending) s)
        \<lparr>cpi_stack := pushed P q i candidate # f # st\<rparr>)"
proof -
  have top: "top_silenced s = s" using assms(1,3) by (simp add: top_silenced_def)
  have under: "under_target P s" using assms(1-3) by (simp add: under_target_def)
  show ?thesis
    using assms(1-4)
    by (auto simp: cpi_invoke_def saturating_add_usize_def cpi_instruction_def top under pending_cov
        pushed_def candidate_def i_def Let_def)
qed

fun items :: "log_tree \<Rightarrow> nat" where
  "items (Line line) = 1"
| "items (Call p body oc) = Suc (sum_list (map items body))"

lemma items_pos: "0 < items t"
  by (cases t) simp_all

lemma length_items: "length ts \<le> sum_list (map items ts)"
proof (induction ts)
  case (Cons t ts)
  then show ?case using items_pos [of t] by simp
qed simp

lemma abandon_successful [simp]:
  "successful_event_calls (abandon_pending c) = successful_event_calls c"
  "\<not> pending_direct_event (abandon_pending c)"
  by (simp_all add: abandon_pending_def)

lemma pair_item_count:
  "unat (successful_event_calls c) + 1 < 2 ^ 16 \<Longrightarrow>
   unat (successful_event_calls (pair_item P t c)) \<le> unat (successful_event_calls c) + 1"
  by (cases t) (auto simp: note_direct_event_def unat_add_small)

lemma fold_pair_item_count:
  "unat (successful_event_calls c) + length ts < 2 ^ 16 \<Longrightarrow>
   unat (successful_event_calls (fold (pair_item P) ts c)) \<le> unat (successful_event_calls c) + length ts"
proof (induction ts arbitrary: c)
  case (Cons t ts)
  have "unat (successful_event_calls (pair_item P t c)) \<le> unat (successful_event_calls c) + 1"
    using Cons.prems by (intro pair_item_count) simp
  then show ?case using Cons.IH [of "pair_item P t c"] Cons.prems by simp
qed simp

lemma walk_inside:
  assumes "well_formed t" and "height t + length (cpi_stack s) < usize_max"
    and "cpi_stack s = f # st" and "frame_program_id f = P" and "\<not> is_target_self_cpi f"
    and "unat (successful_event_calls (cov s (frame_instruction_index f))) + 1 < 2 ^ 16"
  shows "\<exists>s'. walk (cpi_step P) (render (length (cpi_stack s) + 1) t) s = Inr s'
    \<and> eff (frame_instruction_index f) (pair_item P t) (f # st) s s'"
proof (cases t)
  case (Line line)
  let ?i = "frame_instruction_index f"
  have "\<exists>s'. cpi_step P line s = Inr s' \<and> eff ?i (pair_item P t) (f # st) s s'"
    using assms(1,3-5) eff_update [of ?i _ s] eff_refl [of ?i s]
    by (auto simp: Line cpi_step_def plain_line_def cpi_data_def cpi_other_def eff_def)
  then show ?thesis using Line by auto
next
  case (Call q body oc)
  let ?i = "frame_instruction_index f"
  let ?cand = "q = P \<and> pending_direct_event (cov s ?i)"
  let ?g = "pushed P q ?i ?cand" and ?h = "if ?cand then (\<lambda>c. c) else abandon_pending"
  let ?s = "(update_coverage ?i ?h s)\<lparr>cpi_stack := ?g # f # st\<rparr>"
  have inv: "cpi_step P (invoke_line q (length (cpi_stack s) + 1)) s = Inr ?s"
    using assms(1,2) Call invoke_inside [OF assms(3-5), of q] by (simp add: step_invoke)
  have "\<forall>t\<in>set body. walks_below P t \<and> well_formed t \<and> height t + Suc (length (f # st)) < usize_max"
    using walks_below_tree assms(1-3) Call max_height [of _ body] by (fastforce simp: list_all_iff)
  from walk_below_body [OF this, of ?s ?g] assms(4) obtain u where
    u: "walk (cpi_step P) (concat (map (render (length (f # st) + 2)) body)) ?s = Inr u"
      "eff ?i (gap_if (list_ex (stray P) body)) (fold (silence P) body ?g # f # st) ?s u" by auto
  have cu: "cov u ?i = gap_if (list_ex (stray P) body) (?h (cov s ?i))"
    "cpi_stack u = fold (silence P) body ?g # f # st"
    using u(2) by (auto simp: eff_def)
  have nostray: "list_all (silent_item P) body \<Longrightarrow> \<not> list_ex (stray P) body"
    by (induction body) (auto elim: silent_item.elims)
  obtain v where v: "cpi_step P (exit_line q oc) u = Inr v"
      "eff ?i (\<lambda>_. pair_item P t (cov s ?i)) (f # st) u v"
  proof -
    have "\<exists>c. (if q = P then close_candidate (fold (silence P) body ?g) (oc = Succeeded) (cov u ?i)
          else Inr (cov u ?i)) = Inr c \<and> c = pair_item P t (cov s ?i)"
      using assms(6) nostray
      by (cases "q = P"; cases "pending_direct_event (cov s ?i)")
         (auto simp: Call cu close_candidate_def fold_silence_candidate checked_add_word_def gap_if_def
           abandon_pending_def)
    then have "cpi_step P (exit_line q oc) u
        = Inr (update_coverage ?i (\<lambda>_. pair_item P t (cov s ?i)) (u\<lparr>cpi_stack := f # st\<rparr>))"
      using assms(1) by (auto simp: Call step_exit cpi_exit_def Let_def cu(2) cov_def [symmetric] split: if_splits)
    then show ?thesis by (rule that) (auto simp: eff_def)
  qed
  have "eff ?i (pair_item P t) (f # st) s v"
    using u(2) v(2) by (auto simp: eff_def)
  then show ?thesis using inv u(1) v(1) by (auto simp: Call walk_append assms(3))
qed

lemma walk_inside_body:
  assumes "\<forall>t\<in>set ts. well_formed t \<and> height t + Suc (length st) < usize_max"
    and "cpi_stack s = f # st" and "frame_program_id f = P" and "\<not> is_target_self_cpi f"
    and "unat (successful_event_calls (cov s (frame_instruction_index f))) + length ts < 2 ^ 16"
  shows "\<exists>s'. walk (cpi_step P) (concat (map (render (length st + 2)) ts)) s = Inr s'
    \<and> eff (frame_instruction_index f) (fold (pair_item P) ts) (f # st) s s'"
  using assms
proof (induction ts arbitrary: s)
  case Nil
  then show ?case using eff_refl [of "frame_instruction_index f" s] by (simp add: id_def)
next
  case (Cons t ts)
  let ?i = "frame_instruction_index f"
  obtain u where u: "walk (cpi_step P) (render (length st + 2) t) s = Inr u"
      "eff ?i (pair_item P t) (f # st) s u"
    using walk_inside [of t s f st P] Cons.prems by auto
  have "unat (successful_event_calls (cov u ?i)) \<le> unat (successful_event_calls (cov s ?i)) + 1"
    using u(2) pair_item_count [of "cov s ?i" P t] Cons.prems(5) by (simp add: eff_def)
  then have "\<exists>s'. walk (cpi_step P) (concat (map (render (length st + 2)) ts)) u = Inr s'
      \<and> eff ?i (fold (pair_item P) ts) (f # st) u s'"
    using Cons.prems u(2) by (intro Cons.IH) (auto simp: eff_def)
  then show ?case using u eff_trans [OF u(2)] by (auto simp: walk_append comp_def)
qed

section \<open>Outside the watched program\<close>

definition outer :: "string \<Rightarrow> u16 \<Rightarrow> invocation_frame" where
  "outer q i = \<lparr>frame_program_id = q, frame_instruction_index = i, is_target_self_cpi = False,
     silent_candidate = False, candidate_for_pending_event = False\<rparr>"

lemma outer_simps [simp]:
  "frame_program_id (outer q i) = q" "frame_instruction_index (outer q i) = i"
  "\<not> is_target_self_cpi (outer q i)"
  by (simp_all add: outer_def)

abbreviation unwatched :: "string \<Rightarrow> invocation_frame list \<Rightarrow> bool" where
  "unwatched P st \<equiv> \<not> list_ex (\<lambda>f. frame_program_id f = P) st"

lemma cover_facts:
  "unat (successful_event_calls c) + items t < 2 ^ 16 \<Longrightarrow> \<not> pending_direct_event c \<Longrightarrow>
   \<not> pending_direct_event (cover P t c)
   \<and> unat (successful_event_calls (cover P t c)) \<le> unat (successful_event_calls c) + items t"
proof (induction t arbitrary: c)
  case (Call q body oc)
  show ?case
  proof (cases "q = P")
    case True
    then show ?thesis
      using Call.prems length_items [of body] fold_pair_item_count [of c body P] by simp
  next
    case False
    have "\<not> pending_direct_event (fold (cover P) ts d)
        \<and> unat (successful_event_calls (fold (cover P) ts d)) \<le> unat (successful_event_calls d) + sum_list (map items ts)"
      if "set ts \<subseteq> set body" "\<not> pending_direct_event d"
        "unat (successful_event_calls d) + sum_list (map items ts) < 2 ^ 16" for ts d
      using that
    proof (induction ts arbitrary: d)
      case (Cons t ts)
      have "\<not> pending_direct_event (cover P t d)
          \<and> unat (successful_event_calls (cover P t d)) \<le> unat (successful_event_calls d) + items t"
        using Cons.prems by (intro Call.IH) auto
      then show ?case using Cons.IH [of "cover P t d"] Cons.prems by simp
    qed simp
    from this [of body c] show ?thesis using False Call.prems by auto
  qed
qed simp

definition walks_outside :: "string \<Rightarrow> log_tree \<Rightarrow> bool" where
  "walks_outside P t \<longleftrightarrow>
     (\<forall>s q i st. well_formed t \<longrightarrow> height t + length (cpi_stack s) < usize_max
        \<longrightarrow> cpi_stack s = outer q i # st \<longrightarrow> q \<noteq> P \<longrightarrow> unwatched P st \<longrightarrow> \<not> pending_direct_event (cov s i)
        \<longrightarrow> unat (successful_event_calls (cov s i)) + items t < 2 ^ 16
        \<longrightarrow> (\<exists>s'. walk (cpi_step P) (render (length (cpi_stack s) + 1) t) s = Inr s'
              \<and> eff i (cover P t) (cpi_stack s) s s'))"

lemma walks_outsideD:
  assumes "walks_outside P t" and "well_formed t" and "height t + length (cpi_stack s) < usize_max"
    and "cpi_stack s = outer q i # st" and "q \<noteq> P" and "unwatched P st" and "\<not> pending_direct_event (cov s i)"
    and "unat (successful_event_calls (cov s i)) + items t < 2 ^ 16"
  shows "\<exists>s'. walk (cpi_step P) (render (length (cpi_stack s) + 1) t) s = Inr s'
    \<and> eff i (cover P t) (cpi_stack s) s s'"
  using assms unfolding walks_outside_def by blast

lemma walk_outside_body:
  assumes "\<forall>t\<in>set ts. walks_outside P t \<and> well_formed t \<and> height t + Suc (length st) < usize_max"
    and "cpi_stack s = outer q i # st" and "q \<noteq> P" and "unwatched P st" and "\<not> pending_direct_event (cov s i)"
    and "unat (successful_event_calls (cov s i)) + sum_list (map items ts) < 2 ^ 16"
  shows "\<exists>s'. walk (cpi_step P) (concat (map (render (length st + 2)) ts)) s = Inr s'
    \<and> eff i (fold (cover P) ts) (outer q i # st) s s'"
  using assms
proof (induction ts arbitrary: s)
  case Nil
  then show ?case using eff_refl [of i s] by (simp add: id_def)
next
  case (Cons t ts)
  obtain u where u: "walk (cpi_step P) (render (length st + 2) t) s = Inr u"
      "eff i (cover P t) (outer q i # st) s u"
    using walks_outsideD [of P t s q i st] Cons.prems by auto
  have "\<not> pending_direct_event (cov u i) \<and> unat (successful_event_calls (cov u i))
      \<le> unat (successful_event_calls (cov s i)) + items t"
    using u(2) cover_facts [of "cov s i" t P] Cons.prems(5,6) by (simp add: eff_def)
  then have "\<exists>s'. walk (cpi_step P) (concat (map (render (length st + 2)) ts)) u = Inr s'
      \<and> eff i (fold (cover P) ts) (outer q i # st) u s'"
    using Cons.prems u(2) by (intro Cons.IH) (auto simp: eff_def)
  then show ?case using u eff_trans [OF u(2)] by (auto simp: walk_append comp_def)
qed

text \<open>The rest of a call whose frame has just been pushed.\<close>

lemma walk_call:
  assumes "well_formed (Call q body oc)" and "height (Call q body oc) + length st < usize_max"
    and "\<forall>t\<in>set body. walks_outside P t" and "cpi_stack s = outer q i # st" and "unwatched P st"
    and "\<not> pending_direct_event (cov s i)"
    and "unat (successful_event_calls (cov s i)) + items (Call q body oc) < 2 ^ 16"
  shows "\<exists>s'. walk (cpi_step P) (concat (map (render (length st + 2)) body) @ [exit_line q oc]) s = Inr s'
    \<and> eff i (cover P (Call q body oc)) st s s' \<and> i \<in> keys_of s'"
proof -
  have h: "height t + Suc (length st) < usize_max" if "t \<in> set body" for t
    using max_height [OF that] assms(2) by simp
  let ?g = "if q = P then fold (pair_item P) body else fold (cover P) body"
  have "\<exists>u. walk (cpi_step P) (concat (map (render (length st + 2)) body)) s = Inr u
      \<and> eff i ?g (outer q i # st) s u"
  proof (cases "q = P")
    case True
    have "unat (successful_event_calls (cov s i)) + length body < 2 ^ 16"
      using assms(7) length_items [of body] by simp
    then show ?thesis
      using walk_inside_body [of body st s "outer q i" P] assms(1,4) h True by (auto simp: list_all_iff)
  next
    case False
    then show ?thesis
      using walk_outside_body [of body P st s q i] assms(1,3-7) h by (auto simp: list_all_iff)
  qed
  then obtain u where u: "walk (cpi_step P) (concat (map (render (length st + 2)) body)) s = Inr u"
      "eff i ?g (outer q i # st) s u" by blast
  let ?h = "if q = P then abandon_pending else (\<lambda>c. c)"
  have "cpi_step P (exit_line q oc) u = Inr (update_coverage i ?h (u\<lparr>cpi_stack := st\<rparr>))"
    using assms(1) u(2)
    by (auto simp: step_exit cpi_exit_def eff_def Let_def cov_def [symmetric] update_coverage_def)
  moreover have "eff i (cover P (Call q body oc)) st s (update_coverage i ?h (u\<lparr>cpi_stack := st\<rparr>))"
    using u(2) by (auto simp: eff_def)
  ultimately show ?thesis using u(1) by (auto simp: walk_append)
qed

lemma invoke_outside:
  assumes "cpi_stack s = outer p i # st" and "p \<noteq> P" and "unwatched P st"
    and "Suc (length (cpi_stack s)) \<le> usize_max"
  shows "cpi_invoke P q (length (cpi_stack s) + 1) s = Inr (s\<lparr>cpi_stack := outer q i # cpi_stack s\<rparr>)"
  using assms
  by (auto simp: cpi_invoke_def saturating_add_usize_def cpi_instruction_def top_silenced_def
      under_target_def outer_def Let_def)

lemma walks_outside_tree: "walks_outside P t"
proof (induction t)
  case (Line line)
  have "cpi_step P line s = Inr s" if "plain_line line" "cpi_stack s = outer q i # st" "q \<noteq> P" for s q i st
    using that by (auto simp: cpi_step_def plain_line_def cpi_data_def cpi_other_def)
  moreover have "eff i (\<lambda>c. c) (cpi_stack s) s s" for i s by (rule eff_refl)
  ultimately show ?case
    unfolding walks_outside_def by (auto simp: fun_eq_iff eff_def)
next
  case (Call q body oc)
  show ?case
    unfolding walks_outside_def
  proof (intro allI impI)
    fix s :: cpi_state and p i st
    assume wf: "well_formed (Call q body oc)" and h: "height (Call q body oc) + length (cpi_stack s) < usize_max"
      and st: "cpi_stack s = outer p i # st" and p: "p \<noteq> P" and P: "unwatched P st"
      and pend: "\<not> pending_direct_event (cov s i)"
      and n: "unat (successful_event_calls (cov s i)) + items (Call q body oc) < 2 ^ 16"
    let ?s = "s\<lparr>cpi_stack := outer q i # cpi_stack s\<rparr>"
    have inv: "cpi_step P (invoke_line q (length (cpi_stack s) + 1)) s = Inr ?s"
      using wf h invoke_outside [OF st p P] by (simp add: step_invoke)
    have "\<exists>s'. walk (cpi_step P) (concat (map (render (length (cpi_stack s) + 2)) body) @ [exit_line q oc]) ?s = Inr s'
        \<and> eff i (cover P (Call q body oc)) (cpi_stack s) ?s s' \<and> i \<in> keys_of s'"
      using Call.IH wf h p P pend n by (intro walk_call) (auto simp: st)
    then show "\<exists>s'. walk (cpi_step P) (render (length (cpi_stack s) + 1) (Call q body oc)) s = Inr s'
        \<and> eff i (cover P (Call q body oc)) (cpi_stack s) s s'"
      using inv by (auto simp: eff_def)
  qed
qed

section \<open>Transactions\<close>

lemma walk_transaction:
  assumes "\<forall>t\<in>set ts. is_call t \<and> well_formed t \<and> height t < usize_max \<and> items t < 2 ^ 16"
    and "cpi_stack s = []" and "cpi_next_instruction s = of_nat k" and "k + length ts < 2 ^ 16"
    and "\<forall>j. k \<le> unat j \<longrightarrow> cov s j = self_cpi_default"
  shows "\<exists>s'. walk (cpi_step P) (concat (map (render 1) ts)) s = Inr s' \<and> cpi_stack s' = []
    \<and> (\<forall>j. cov s' j = (if k \<le> unat j \<and> unat j < k + length ts
          then cover P (ts ! (unat j - k)) self_cpi_default else cov s j))
    \<and> keys_of s' = keys_of s \<union> of_nat ` {k..<k + length ts}"
  using assms
proof (induction ts arbitrary: s k)
  case (Cons t ts)
  let ?i = "of_nat k :: u16"
  obtain q body oc where t: "t = Call q body oc" using Cons.prems(1) by (cases t) auto
  have k: "unat ?i = k" using Cons.prems(4) by (simp add: unat_of_nat_small)
  let ?s = "s\<lparr>cpi_next_instruction := of_nat (Suc k), cpi_stack := [outer q ?i]\<rparr>"
  have inv: "cpi_step P (invoke_line q 1) s = Inr ?s"
    using Cons.prems(1-4) k
    by (cases s)
       (simp add: t step_invoke usize_max_def cpi_invoke_def saturating_add_usize_def cpi_instruction_def
        checked_add_word_def top_silenced_def under_target_def outer_def Let_def)
  have c0: "cov ?s ?i = self_cpi_default" using Cons.prems(5) k by simp
  have "\<exists>u. walk (cpi_step P) (concat (map (render (length ([] :: invocation_frame list) + 2)) body) @ [exit_line q oc]) ?s = Inr u
      \<and> eff ?i (cover P (Call q body oc)) [] ?s u \<and> ?i \<in> keys_of u"
    using Cons.prems(1) walks_outside_tree c0
    by (intro walk_call) (auto simp: t self_cpi_default_def)
  then obtain u where u: "walk (cpi_step P) (render 1 t) s = Inr u" "eff ?i (cover P t) [] ?s u" "?i \<in> keys_of u"
    using inv by (auto simp: t numeral_2_eq_2)
  have covu: "cov u j = (if j = ?i then cover P t self_cpi_default else cov s j)" for j
    using u(2) c0 by (auto simp: eff_def)
  have "\<forall>j. Suc k \<le> unat j \<longrightarrow> cov u j = self_cpi_default"
    using covu Cons.prems(5) k by auto
  then obtain s' where s': "walk (cpi_step P) (concat (map (render 1) ts)) u = Inr s'" "cpi_stack s' = []"
      "\<forall>j. cov s' j = (if Suc k \<le> unat j \<and> unat j < Suc k + length ts
          then cover P (ts ! (unat j - Suc k)) self_cpi_default else cov u j)"
      "keys_of s' = keys_of u \<union> of_nat ` {Suc k..<Suc k + length ts}"
    using Cons.IH [of u "Suc k"] Cons.prems u(2) by (auto simp: eff_def)
  have "cov s' j = (if k \<le> unat j \<and> unat j < k + length (t # ts)
      then cover P ((t # ts) ! (unat j - k)) self_cpi_default else cov s j)" for j
  proof (cases "unat j = k")
    case True
    then have "j = ?i" using k by (metis word_unat_eq_iff)
    then show ?thesis using s'(3) covu k by auto
  next
    case False
    then have "j \<noteq> ?i" using k by auto
    then show ?thesis using s'(3) covu False by (auto simp: nth_Cons' Suc_diff_le)
  qed
  moreover have "keys_of u = insert ?i (keys_of s)" using u(2,3) by (auto simp: eff_def)
  moreover have "{k..<k + length (t # ts)} = insert k {Suc k..<Suc k + length ts}" by auto
  ultimately show ?case using u(1) s' by (auto simp: walk_append)
qed auto

lemma coverage_printed:
  assumes "length ts < 2 ^ 16"
    and "\<forall>t\<in>set ts. is_call t \<and> well_formed t \<and> height t < usize_max \<and> items t < 2 ^ 16"
  shows "\<exists>m. successful_self_cpi_coverage P (concat (map (render 1) ts)) = Inr m
    \<and> (\<forall>j. btree_get m j = (if unat j < length ts then Some (cover P (ts ! unat j) self_cpi_default) else None))"
proof -
  have "cov cpi_init j = self_cpi_default" for j
    by (simp add: cov_def cpi_init_def btree_get_or_def btree_simps)
  then obtain s where s: "walk (cpi_step P) (concat (map (render 1) ts)) cpi_init = Inr s" "cpi_stack s = []"
      "\<forall>j. cov s j = (if unat j < length ts then cover P (ts ! unat j) self_cpi_default else self_cpi_default)"
      "keys_of s = of_nat ` {0..<length ts}"
    using walk_transaction [of ts cpi_init 0 P] assms by (auto simp: cpi_init_def keys_of_def)
  have "btree_get (cpi_coverage s) j = None \<longleftrightarrow> j \<notin> keys_of s" for j
    by (simp add: btree_get_def keys_of_def map_of_eq_None_iff)
  moreover have "j \<in> keys_of s \<longleftrightarrow> unat j < length ts" for j
  proof -
    have "j \<in> of_nat ` {0..<length ts}" if "unat j < length ts"
      using that by (intro image_eqI [of _ _ "unat j"]) auto
    moreover have "unat (of_nat n :: u16) < length ts" if "n < length ts" for n
      using that assms(1) by (simp add: unat_of_nat_small)
    ultimately show ?thesis unfolding s(4) by fastforce
  qed
  ultimately have "btree_get (cpi_coverage s) j
      = (if unat j < length ts then Some (cover P (ts ! unat j) self_cpi_default) else None)" for j
    using spec [OF s(3), of j] by (auto simp: cov_def btree_get_or_def split: option.splits)
  then show ?thesis using s(1,2) by (auto simp: successful_self_cpi_coverage_def)
qed


definition paired_execution :: "log_tree list" where
  "paired_execution =
     [Call ''Watched'' [Line ''Program data: AAAA'',
        Call ''Watched'' [Line ''Program Watched consumed 2000 of 200000 compute units''] Succeeded,
        Line ''Program Watched consumed 9000 of 200000 compute units''] Succeeded]"

lemma paired_execution_ok:
  "length paired_execution < 2 ^ 16"
  "\<forall>t\<in>set paired_execution. is_call t \<and> well_formed t \<and> height t < usize_max \<and> items t < 2 ^ 16"
  by (simp_all add: paired_execution_def is_plausible_program_id_def is_ascii_whitespace_def
      plain_line_def is_log_truncation_marker_def parse_invoke_def parse_exit_def strip_prefix_def
      starts_with_def strip_suffix_def ends_with_def PROGRAM_DATA_PREFIX_def usize_max_def)

lemma paired_cover:
  "cover ''Watched'' (paired_execution ! 0) self_cpi_default
     = \<lparr>successful_event_calls = 1, pending_direct_event = False, pairing_gap = False\<rparr>"
  by (simp add: paired_execution_def starts_with_def PROGRAM_DATA_PREFIX_def is_compute_consumed_log_def
      strip_prefix_def ends_with_def note_direct_event_def abandon_pending_def self_cpi_default_def)


section \<open>No gap means that every line is paired\<close>

text \<open>The data lines written by the outermost frames of the watched program themselves.\<close>

fun direct_lines :: "string \<Rightarrow> log_tree \<Rightarrow> string list" where
  "direct_lines P (Line line) = []"
| "direct_lines P (Call q body oc) =
     (if q = P then concat (map (data_lines P P) (filter (\<lambda>t. \<not> is_call t) body))
      else concat (map (direct_lines P) body))"

definition balance :: "self_cpi_coverage \<Rightarrow> nat" where
  "balance c = unat (successful_event_calls c) + (if pending_direct_event c then 1 else 0)"

lemma pair_item_balance:
  assumes "\<not> pairing_gap (pair_item P t c)" and "unat (successful_event_calls c) + 1 < 2 ^ 16"
  shows "\<not> pairing_gap c \<and> balance (pair_item P t c)
    = balance c + length (if is_call t then [] else data_lines P P t)"
  using assms
  by (cases t)
     (auto simp: balance_def note_direct_event_def abandon_pending_def gap_if_def unat_add_small
       split: if_splits)

lemma fold_pair_item_balance:
  assumes "\<not> pairing_gap (fold (pair_item P) ts c)" and "unat (successful_event_calls c) + length ts < 2 ^ 16"
  shows "\<not> pairing_gap c \<and> balance (fold (pair_item P) ts c)
    = balance c + length (concat (map (data_lines P P) (filter (\<lambda>t. \<not> is_call t) ts)))"
  using assms
proof (induction ts arbitrary: c)
  case (Cons t ts)
  have "unat (successful_event_calls (pair_item P t c)) \<le> unat (successful_event_calls c) + 1"
    using Cons.prems(2) by (intro pair_item_count) simp
  then have "\<not> pairing_gap (pair_item P t c) \<and> balance (fold (pair_item P) ts (pair_item P t c))
      = balance (pair_item P t c) + length (concat (map (data_lines P P) (filter (\<lambda>t. \<not> is_call t) ts)))"
    using Cons.IH [of "pair_item P t c"] Cons.prems by simp
  then show ?case using pair_item_balance [of P t c] Cons.prems(2) by auto
qed simp

lemma cover_balance:
  "\<not> pairing_gap (cover P t c) \<Longrightarrow> \<not> pending_direct_event c \<Longrightarrow>
   unat (successful_event_calls c) + items t < 2 ^ 16 \<Longrightarrow>
   \<not> pairing_gap c \<and> unat (successful_event_calls (cover P t c))
     = unat (successful_event_calls c) + length (direct_lines P t)"
proof (induction t arbitrary: c)
  case (Call q body oc)
  show ?case
  proof (cases "q = P")
    case True
    let ?d = "fold (pair_item P) body c"
    have d: "\<not> pairing_gap ?d" "\<not> pending_direct_event ?d"
      using Call.prems(1) True by (auto simp: abandon_pending_def split: if_splits)
    then show ?thesis
      using fold_pair_item_balance [of P body c] Call.prems(2,3) length_items [of body] True
      by (simp add: balance_def)
  next
    case False
    have "\<not> pairing_gap d \<and> unat (successful_event_calls (fold (cover P) ts d))
        = unat (successful_event_calls d) + length (concat (map (direct_lines P) ts))"
      if "set ts \<subseteq> set body" "\<not> pairing_gap (fold (cover P) ts d)" "\<not> pending_direct_event d"
        "unat (successful_event_calls d) + sum_list (map items ts) < 2 ^ 16" for ts d
      using that
    proof (induction ts arbitrary: d)
      case (Cons t ts)
      have f: "\<not> pending_direct_event (cover P t d)
          \<and> unat (successful_event_calls (cover P t d)) \<le> unat (successful_event_calls d) + items t"
        using Cons.prems by (intro cover_facts) auto
      then have "\<not> pairing_gap (cover P t d) \<and> unat (successful_event_calls (fold (cover P) ts (cover P t d)))
          = unat (successful_event_calls (cover P t d)) + length (concat (map (direct_lines P) ts))"
        using Cons.prems by (intro Cons.IH) auto
      then show ?case using Call.IH [of t d] Cons.prems by auto
    qed simp
    from this [of body c] show ?thesis using False Call.prems by auto
  qed
qed simp

text \<open>
  No gap means that every event is corroborated. Where the coverage of an instruction shows no
  gap, the number of successful self-calls it counts is the number of data lines that the outermost
  frames of the watched program wrote there, for the log of any execution.
\<close>

theorem no_gap_all_paired:
  assumes "length ts < 2 ^ 16"
    and "\<forall>t\<in>set ts. is_call t \<and> well_formed t \<and> height t < usize_max \<and> items t < 2 ^ 16"
    and "successful_self_cpi_coverage P (concat (map (render 1) ts)) = Inr m"
    and "btree_get m j = Some c" and "\<not> pairing_gap c"
  shows "unat j < length ts \<and> \<not> pending_direct_event c
    \<and> unat (successful_event_calls c) = length (direct_lines P (ts ! unat j))"
proof -
  have c: "unat j < length ts" "c = cover P (ts ! unat j) self_cpi_default"
    using coverage_printed [OF assms(1,2), of P] assms(3,4) by (auto split: if_splits)
  have "items (ts ! unat j) < 2 ^ 16" using assms(2) c(1) by simp
  then show ?thesis
    using c cover_balance [of P "ts ! unat j" self_cpi_default]
      cover_facts [of self_cpi_default "ts ! unat j" P] assms(5)
    by (simp add: self_cpi_default_def)
qed

theorem no_gap_all_paired_witness:
  "\<exists>m c. successful_self_cpi_coverage ''Watched'' (concat (map (render 1) paired_execution)) = Inr m
    \<and> btree_get m 0 = Some c \<and> \<not> pairing_gap c
    \<and> unat (successful_event_calls c) = length (direct_lines ''Watched'' (paired_execution ! 0))"
proof -
  note ok = paired_execution_ok
  obtain m where m: "successful_self_cpi_coverage ''Watched'' (concat (map (render 1) paired_execution)) = Inr m"
      "btree_get m 0 = Some (cover ''Watched'' (paired_execution ! 0) self_cpi_default)"
    using coverage_printed [OF ok, of "''Watched''"] by (fastforce simp: paired_execution_def)
  from no_gap_all_paired [OF ok m] show ?thesis using m paired_cover by fastforce
qed

end
