(* ===== verification/Intake_Correct.thy ===== *)
theory Intake_Correct
  imports Intake Windows_Claims Log_Pairing
begin

text \<open>
  What the classification of a notification guarantees: it always returns, it is a sequence of
  steps of the window registry, it counts every admitted market once, and it records a coverage gap
  exactly when the evidence of a mentioned program is not complete.
\<close>

section \<open>Decoding the records of one program\<close>

definition understood ::
    "(string \<Rightarrow> ('b, u8 list) result) \<Rightarrow> pump_program \<Rightarrow> scoped_program_data \<Rightarrow> bool" where
  "understood base64_decode program r \<longleftrightarrow>
     (case decode_program_data_log base64_decode (pump_program_id program) (scoped_coordinate r)
             (scoped_log r) of
        Inr d \<Rightarrow> True
      | Inl (UnknownDiscriminator p disc) \<Rightarrow> is_pinned_event_discriminator p disc
      | Inl _ \<Rightarrow> False)"

definition record_events ::
    "(string \<Rightarrow> ('b, u8 list) result) \<Rightarrow> pump_program \<Rightarrow> scoped_program_data \<Rightarrow> decoded_pump_event list" where
  "record_events base64_decode program r =
     (case decode_program_data_log base64_decode (pump_program_id program) (scoped_coordinate r)
             (scoped_log r) of
        Inr d \<Rightarrow> [d] | Inl _ \<Rightarrow> [])"

lemma decode_record_alt:
  "decode_record base64_decode program r l =
     (if understood base64_decode program r
      then map_option (\<lambda>l'. l'\<lparr>dec_events := dec_events l' @ record_events base64_decode program r\<rparr>)
        (count_eligible (rec_instruction r) l)
      else Some (note_invalid (rec_instruction r) l))"
proof (cases "count_eligible (rec_instruction r) l")
  case None
  then show ?thesis
    by (auto simp: decode_record_def understood_def Let_def split: sum.splits decode_error.splits)
next
  case (Some l')
  then show ?thesis
    by (auto simp: decode_record_def understood_def record_events_def Let_def
        split: sum.splits decode_error.splits)
qed

text \<open>The locals of the decode loop, in terms of the records it has seen.\<close>

abbreviation of_instruction :: "u16 \<Rightarrow> scoped_program_data list \<Rightarrow> scoped_program_data list" where
  "of_instruction i rs \<equiv> filter (\<lambda>r. rec_instruction r = i) rs"

definition direct_of ::
    "(scoped_program_data \<Rightarrow> bool) \<Rightarrow> scoped_program_data list \<Rightarrow> direct_event_coverage" where
  "direct_of good rs =
     \<lparr>eligible_events = of_nat (length (filter good rs)), invalid_event = (\<exists>r\<in>set rs. \<not> good r)\<rparr>"

definition dec_inv ::
    "(string \<Rightarrow> ('b, u8 list) result) \<Rightarrow> pump_program \<Rightarrow> scoped_program_data list \<Rightarrow> decode_locals \<Rightarrow> bool" where
  "dec_inv base64_decode program seen l \<longleftrightarrow>
     btree_ordered (dec_direct l)
     \<and> (\<forall>i. btree_get (dec_direct l) i =
          (if of_instruction i seen = [] then None
           else Some (direct_of (understood base64_decode program) (of_instruction i seen))))
     \<and> dec_gap l = (\<exists>r\<in>set seen. \<not> understood base64_decode program r)
     \<and> dec_events l = concat (map (record_events base64_decode program) seen)"

lemma record_events_not_understood:
  "\<not> understood base64_decode program r \<Longrightarrow> record_events base64_decode program r = []"
  by (auto simp: understood_def record_events_def split: sum.splits)

lemma dec_inv_get_or:
  "dec_inv base64_decode program seen l \<Longrightarrow>
     btree_get_or direct_default (dec_direct l) i
       = direct_of (understood base64_decode program) (of_instruction i seen)"
proof (cases "of_instruction i seen")
  case Nil
  then have "direct_of good (of_instruction i seen) = direct_default" for good
    by (simp add: direct_of_def direct_default_def)
  moreover assume "dec_inv base64_decode program seen l"
  ultimately show ?thesis using Nil by (simp add: dec_inv_def btree_get_or_def)
qed (auto simp: dec_inv_def btree_get_or_def)

lemma decode_record_inv:
  assumes "dec_inv base64_decode program seen l"
    and "length (of_instruction (rec_instruction r) (seen @ [r])) < 2 ^ 16"
  shows "\<exists>l'. decode_record base64_decode program r l = Some l' \<and> dec_inv base64_decode program (seen @ [r]) l'"
proof (cases "understood base64_decode program r")
  case True
  let ?rs = "of_instruction (rec_instruction r) seen"
  let ?n = "length (filter (understood base64_decode program) ?rs)"
  have le: "?n \<le> length ?rs" by (rule length_filter_le)
  have n: "?n + 1 < 2 ^ 16" using assms(2) le by simp
  have u: "unat (of_nat ?n :: u16) = ?n" using n by (simp add: unat_of_nat_small)
  have inc: "checked_add_word (of_nat ?n :: u16) 1 = Some (of_nat (?n + 1))"
    using n u by (simp add: checked_add_word_def)
  from True show ?thesis
    using inc assms(1)
    by (auto simp: decode_record_alt count_eligible_def Let_def dec_inv_get_or [OF assms(1)] direct_of_def
        dec_inv_def btree_simps btree.invar_insert)
next
  case False
  then show ?thesis
    using assms(1)
    by (auto simp: decode_record_alt note_invalid_def Let_def dec_inv_get_or [OF assms(1)] direct_of_def
        dec_inv_def btree_simps btree.invar_insert record_events_not_understood)
qed

lemma decode_records_inv:
  "dec_inv base64_decode program seen l \<Longrightarrow>
   (\<And>i. length (of_instruction i (seen @ rs)) < 2 ^ 16) \<Longrightarrow>
   \<exists>l'. decode_records base64_decode program rs l = Some l' \<and> dec_inv base64_decode program (seen @ rs) l'"
proof (induction rs arbitrary: seen l)
  case (Cons r rs)
  have "length (of_instruction (rec_instruction r) (seen @ [r])) < 2 ^ 16"
    using Cons.prems(2) [of "rec_instruction r"] by simp
  then obtain l' where "decode_record base64_decode program r l = Some l'"
      "dec_inv base64_decode program (seen @ [r]) l'"
    using decode_record_inv [OF Cons.prems(1)] by blast
  then show ?case using Cons.IH [of "seen @ [r]" l'] Cons.prems(2) by simp
qed simp

lemma decode_scoped:
  assumes "scope_program_data_logs pid slot' tx sig logs = Inr scoped"
  obtains dl where "decode_records base64_decode program scoped dec_init = Some dl"
    and "dec_inv base64_decode program scoped dl"
proof -
  have "dec_inv base64_decode program [] dec_init"
    by (simp add: dec_inv_def dec_init_def btree.invar_empty btree_get_def)
  then show ?thesis using decode_records_inv [of base64_decode program "[]" dec_init scoped]
      scoped_count [OF assms] that by auto
qed

section \<open>Complete evidence\<close>

text \<open>
  The evidence of a program in a notification is complete when both walks over the log succeed,
  every record is understood, and in every instruction each record was followed by its silent
  successful self-call and nothing is left over.
\<close>

definition instruction_complete ::
    "(u16, self_cpi_coverage) btree \<Rightarrow> scoped_program_data list \<Rightarrow> u16 \<Rightarrow> bool" where
  "instruction_complete coverage scoped i \<longleftrightarrow>
     (case btree_get coverage i of
        None \<Rightarrow> of_instruction i scoped = []
      | Some c \<Rightarrow> \<not> pairing_gap c \<and> \<not> pending_direct_event c
          \<and> unat (successful_event_calls c) = length (of_instruction i scoped))"

definition evidence_complete ::
    "(string \<Rightarrow> ('b, u8 list) result) \<Rightarrow> pump_program \<Rightarrow> program_log_notification \<Rightarrow> bool" where
  "evidence_complete base64_decode program note \<longleftrightarrow>
     (\<exists>coverage scoped.
        successful_self_cpi_coverage (pump_program_id program) (note_log_messages note) = Inr coverage
        \<and> scope_program_data_logs (pump_program_id program) (note_slot note) None (note_signature note)
             (note_log_messages note) = Inr scoped
        \<and> (\<forall>r\<in>set scoped. understood base64_decode program r)
        \<and> (\<forall>i. instruction_complete coverage scoped i))"

lemma coverage_ordered_update:
  "btree_ordered (cpi_coverage s) \<Longrightarrow> btree_ordered (cpi_coverage (update_coverage i f s))"
  by (simp add: update_coverage_def btree.invar_insert)

lemma coverage_top_silenced [simp]: "cpi_coverage (top_silenced s) = cpi_coverage s"
  by (simp add: top_silenced_def split: list.splits)

lemma cpi_instruction_coverage: "cpi_instruction depth s = Inr (i, s') \<Longrightarrow> cpi_coverage s' = cpi_coverage s"
  by (auto simp: cpi_instruction_def result_simps split: if_splits list.splits)

interpretation cpi_ordered: log_walk "cpi_step program_id" "\<lambda>s. btree_ordered (cpi_coverage s)" for program_id
proof
  fix s s' x
  assume o: "btree_ordered (cpi_coverage s)" and st: "cpi_step program_id x s = Inr s'"
  show "btree_ordered (cpi_coverage s')"
    using st o
    by (auto simp: cpi_step_def cpi_invoke_def cpi_exit_def cpi_data_def cpi_other_def Let_def result_simps
        dest!: cpi_instruction_coverage intro!: coverage_ordered_update
        split: if_splits option.splits list.splits)
qed

lemma coverage_ordered:
  "successful_self_cpi_coverage pid logs = Inr coverage \<Longrightarrow> btree_ordered coverage"
  by (auto simp: successful_self_cpi_coverage_def result_simps cpi_init_def btree.invar_empty
      dest!: cpi_ordered.walk_inv split: if_splits)

lemma list_ex_entries:
  "btree_ordered m \<Longrightarrow> list_ex (\<lambda>(i, v). P i v) m \<longleftrightarrow> (\<exists>i v. btree_get m i = Some v \<and> P i v)"
  by (force simp: list_ex_iff btree.lookup_Some_iff)

lemma coverage_incomplete_iff:
  assumes "dec_inv base64_decode program scoped dl" and "\<not> dec_gap dl" and "btree_ordered coverage"
    and "\<And>i. length (of_instruction i scoped) < 2 ^ 16"
  shows "event_cpi_coverage_is_incomplete coverage (dec_direct dl)
    \<longleftrightarrow> (\<exists>i. \<not> instruction_complete coverage scoped i)"
proof -
  let ?n = "\<lambda>i. length (of_instruction i scoped)"
  have good: "filter (understood base64_decode program) (of_instruction i scoped) = of_instruction i scoped" for i
    using assms(1,2) by (simp add: dec_inv_def filter_id_conv del: filter_filter)
  have d: "btree_get_or direct_default (dec_direct dl) i = \<lparr>eligible_events = of_nat (?n i), invalid_event = False\<rparr>" for i
    using assms(1,2) by (auto simp: dec_inv_get_or [OF assms(1)] direct_of_def good simp del: filter_filter)
      (auto simp: dec_inv_def)
  have get: "btree_get (dec_direct dl) i = (if of_instruction i scoped = [] then None
      else Some \<lparr>eligible_events = of_nat (?n i), invalid_event = False\<rparr>)" for i
    using assms(1) d [of i] by (auto simp: dec_inv_def btree_get_or_def)
  have u: "unat (of_nat (?n i) :: u16) = ?n i" for i
    using assms(4) [of i] by (simp add: unat_of_nat_small)
  have eq: "c = of_nat (?n i) \<longleftrightarrow> unat c = ?n i" for c :: u16 and i
    using u [of i] by (simp only: word_unat_eq_iff)
  have pos: "0 < (of_nat (?n i) :: u16) \<longleftrightarrow> of_instruction i scoped \<noteq> []" for i
    using u [of i] by (simp add: word_less_nat_alt)
  have incomplete: "\<not> instruction_complete coverage scoped i \<longleftrightarrow>
      (\<exists>c. btree_get coverage i = Some c \<and> (pairing_gap c \<or> pending_direct_event c
         \<or> unat (successful_event_calls c) \<noteq> ?n i))
      \<or> btree_get coverage i = None \<and> of_instruction i scoped \<noteq> []" for i
    by (cases "btree_get coverage i") (auto simp: instruction_complete_def)
  have ord: "btree_ordered (dec_direct dl)" using assms(1) by (simp add: dec_inv_def)
  show ?thesis
    unfolding event_cpi_coverage_is_incomplete_def Let_def list_ex_entries [OF assms(3)] list_ex_entries [OF ord]
    by (auto simp: d get eq pos incomplete split: if_splits)
qed

section \<open>A normal form of the classification\<close>

definition evidence_readable ::
    "(string \<Rightarrow> ('b, u8 list) result) \<Rightarrow> pump_program \<Rightarrow> program_log_notification \<Rightarrow> bool" where
  "evidence_readable base64_decode program note \<longleftrightarrow>
     (\<exists>coverage scoped.
        successful_self_cpi_coverage (pump_program_id program) (note_log_messages note) = Inr coverage
        \<and> scope_program_data_logs (pump_program_id program) (note_slot note) None (note_signature note)
             (note_log_messages note) = Inr scoped
        \<and> (\<forall>r\<in>set scoped. understood base64_decode program r))"

abbreviation mentions :: "program_log_notification \<Rightarrow> pump_program \<Rightarrow> bool" where
  "mentions note program \<equiv> notification_mentions_program (pump_program_id program) (note_log_messages note)"

text \<open>The events of one program that the classification looks at, and the gap it records first.\<close>

definition program_events ::
    "(string \<Rightarrow> ('b, u8 list) result) \<Rightarrow> program_log_notification \<Rightarrow> pump_program \<Rightarrow> pump_event list" where
  "program_events base64_decode note program =
     (if \<not> mentions note program then []
      else case (successful_self_cpi_coverage (pump_program_id program) (note_log_messages note),
                 scope_program_data_logs (pump_program_id program) (note_slot note) None
                   (note_signature note) (note_log_messages note)) of
        (Inr _, Inr scoped) \<Rightarrow> map decoded_event (concat (map (record_events base64_decode program) scoped))
      | _ \<Rightarrow> [])"

definition note_gap ::
    "(string \<Rightarrow> ('b, u8 list) result) \<Rightarrow> i64 \<Rightarrow> program_log_notification \<Rightarrow> pump_program
      \<Rightarrow> classify_locals \<Rightarrow> classify_locals" where
  "note_gap base64_decode observed_at note program l =
     (if \<not> mentions note program then l
      else if \<not> evidence_readable base64_decode program note then malformed_gap program observed_at l
      else if \<not> evidence_complete base64_decode program note
      then l\<lparr>cls_registry := record_gap program observed_at CpiInstructionDataUnavailable (cls_registry l)\<rparr>
      else l)"

lemma classify_program_normal:
  "classify_program base64_decode n age observed_at now note program l =
     Some (fold (classify_event n age observed_at now) (program_events base64_decode note program)
       (note_gap base64_decode observed_at note program l))"
proof (cases "mentions note program")
  case True
  let ?cov = "successful_self_cpi_coverage (pump_program_id program) (note_log_messages note)"
  let ?scope = "scope_program_data_logs (pump_program_id program) (note_slot note) None
    (note_signature note) (note_log_messages note)"
  show ?thesis
  proof (cases ?cov)
    case (Inl e)
    then show ?thesis using True
      by (simp add: classify_program_def program_events_def note_gap_def evidence_readable_def)
  next
    case cov: (Inr coverage)
    show ?thesis
    proof (cases ?scope)
      case (Inl e)
      then show ?thesis using True cov
        by (simp add: classify_program_def program_events_def note_gap_def evidence_readable_def)
    next
      case scope: (Inr scoped)
      obtain dl where dl: "decode_records base64_decode program scoped dec_init = Some dl"
          "dec_inv base64_decode program scoped dl"
        using decode_scoped [OF scope] by blast
      have gap: "dec_gap dl \<longleftrightarrow> \<not> evidence_readable base64_decode program note"
        using dl(2) cov scope by (auto simp: dec_inv_def evidence_readable_def)
      have inc: "event_cpi_coverage_is_incomplete coverage (dec_direct dl)
          \<longleftrightarrow> \<not> evidence_complete base64_decode program note" if "\<not> dec_gap dl"
        using coverage_incomplete_iff [OF dl(2) that coverage_ordered [OF cov] scoped_count [OF scope]]
          that dl(2) cov scope by (auto simp: dec_inv_def evidence_complete_def)
      have "map decoded_event (dec_events dl) = program_events base64_decode note program"
        using True cov scope dl(2) by (simp add: program_events_def dec_inv_def)
      then show ?thesis
        using True cov scope dl(1) gap inc
        by (auto simp: classify_program_def classify_decoded_def note_gap_def Let_def)
    qed
  qed
qed (simp add: classify_program_def program_events_def note_gap_def)

definition classify_spec ::
    "(string \<Rightarrow> ('b, u8 list) result) \<Rightarrow> network \<Rightarrow> duration \<Rightarrow> i64 \<Rightarrow> i64
      \<Rightarrow> program_log_notification \<Rightarrow> pump_program \<Rightarrow> classify_locals \<Rightarrow> classify_locals" where
  "classify_spec base64_decode n age observed_at now note program l =
     fold (classify_event n age observed_at now) (program_events base64_decode note program)
       (note_gap base64_decode observed_at note program l)"

lemma classify_programs_normal:
  "classify_programs base64_decode n age observed_at now note ps l =
     Some (fold (classify_spec base64_decode n age observed_at now note) ps l)"
  by (induction ps arbitrary: l) (simp_all add: classify_program_normal classify_spec_def)

definition classify_start :: "registry \<Rightarrow> classify_locals" where
  "classify_start r = \<lparr>cls_discoveries = [], cls_tracked = [], cls_stale = False, cls_malformed = False,
     cls_registry = r\<rparr>"

lemma classify_notification_normal:
  "classify_notification base64_decode note r n age observed_at now =
     Some (if notification_succeeded note
       then (let l = fold (classify_spec base64_decode n age observed_at now note) PUMP_PROGRAMS (classify_start r)
             in (disposition_of l, cls_registry l))
       else (DropNotification FailedTransaction, r))"
  by (simp add: classify_notification_def classify_programs_normal classify_start_def Let_def)

section \<open>Effects on the registry\<close>

text \<open>
  The classification calls two operations of the registry: it records gaps, which changes the
  incompleteness of cells only, and it admits, which changes one counter or marks the one cell whose
  counter is exhausted. Neither moves a window.
\<close>

definition framed :: "registry \<Rightarrow> registry \<Rightarrow> bool" where
  "framed r r' \<longleftrightarrow>
     windows r' = windows r \<and> retained r' = retained r \<and> next_cell r' = next_cell r
     \<and> (\<forall>a. cell_state (cells r' a) = cell_state (cells r a)
          \<and> cell_finalized (cells r' a) = cell_finalized (cells r a)
          \<and> cell_settled (cells r' a) = cell_settled (cells r a)
          \<and> (cell_incomplete_reason (cells r a) \<noteq> WINDOW_COMPLETE
               \<longrightarrow> cell_incomplete_reason (cells r' a) = cell_incomplete_reason (cells r a)))"

definition same_counts :: "registry \<Rightarrow> registry \<Rightarrow> bool" where
  "same_counts r r' \<longleftrightarrow> (\<forall>a. cell_admitted (cells r' a) = cell_admitted (cells r a))"

lemma framed_refl [simp]: "framed r r"
  by (simp add: framed_def)

lemma framed_trans: "framed a b \<Longrightarrow> framed b c \<Longrightarrow> framed a c"
  by (simp add: framed_def)

lemma framed_held: "framed r r' \<Longrightarrow> held r' = held r"
  by (simp add: framed_def held_def)

lemma framed_in_gap: "framed r r' \<Longrightarrow> in_gap p o' (cell_of r' t) t = in_gap p o' (cell_of r t) t"
  by (simp add: framed_def in_gap_def cell_of_def)

lemma framed_matching: "framed r r' \<Longrightarrow> matching_token r' target o' = matching_token r target o'"
  by (auto simp: framed_def matching_token_def is_open_at_def cell_of_def split: option.splits)

lemma mark_gap_framed:
  "framed r (snd (mark_gap p o' reason t (n, r))) \<and> same_counts r (snd (mark_gap p o' reason t (n, r)))"
  by (simp add: mark_gap_def framed_def same_counts_def update_cell_def mark_incomplete_def cell_of_def)

lemma fold_mark_gap_framed:
  "framed r (snd (fold (mark_gap p o' reason) xs (n, r)))
     \<and> same_counts r (snd (fold (mark_gap p o' reason) xs (n, r)))"
proof (induction xs arbitrary: n r)
  case (Cons x xs)
  obtain n' r' where f: "mark_gap p o' reason x (n, r) = (n', r')" by (cases "mark_gap p o' reason x (n, r)")
  then show ?case using mark_gap_framed [of r p o' reason x n] Cons.IH [of r' n'] framed_trans [of r r']
    by (simp add: same_counts_def)
qed (simp add: same_counts_def)

lemma record_gap_framed: "framed r (record_gap program o' reason r) \<and> same_counts r (record_gap program o' reason r)"
proof -
  obtain g xs where g: "record_gap program o' reason r
      = snd (fold (mark_gap (pump_source_program program) o' reason) xs (0, r\<lparr>latest_source_coverage_gap := g\<rparr>))"
    unfolding record_gap_def record_source_coverage_gap_def Let_def by blast
  have "framed r (r\<lparr>latest_source_coverage_gap := g\<rparr>)" "same_counts r (r\<lparr>latest_source_coverage_gap := g\<rparr>)"
    by (simp_all add: framed_def same_counts_def)
  with fold_mark_gap_framed [of "r\<lparr>latest_source_coverage_gap := g\<rparr>" "pump_source_program program" o' reason xs 0]
  show ?thesis unfolding g using framed_trans by (simp add: same_counts_def)
qed

lemma admit_framed: "framed r (snd (admit_matching_token r target o'))"
  by (auto simp: admit_matching_token_def framed_def update_cell_def mark_admitted_def mark_incomplete_def
      cell_of_def split: option.splits)

definition registry_steps :: "registry \<Rightarrow> registry \<Rightarrow> bool" where
  "registry_steps r r' \<longleftrightarrow>
     (\<forall>cls. step\<^sup>*\<^sup>* \<lparr>sys_registry = r, sys_claims = cls\<rparr> \<lparr>sys_registry = r', sys_claims = cls\<rparr>)"

lemma registry_steps_refl [simp]: "registry_steps r r"
  by (simp add: registry_steps_def)

lemma registry_steps_trans: "registry_steps a b \<Longrightarrow> registry_steps b c \<Longrightarrow> registry_steps a c"
  unfolding registry_steps_def by (meson rtranclp_trans)

lemma record_gap_steps: "registry_steps r (record_gap program o' reason r)"
  unfolding registry_steps_def record_gap_def
proof
  fix cls
  show "step\<^sup>*\<^sup>* \<lparr>sys_registry = r, sys_claims = cls\<rparr>
    \<lparr>sys_registry = snd (record_source_coverage_gap r (pump_source_program program) o' reason), sys_claims = cls\<rparr>"
    using step_gap [of "\<lparr>sys_registry = r, sys_claims = cls\<rparr>"] by (simp add: r_into_rtranclp)
qed

lemma admit_steps: "registry_steps r (snd (admit_matching_token r target o'))"
  unfolding registry_steps_def
proof
  fix cls
  show "step\<^sup>*\<^sup>* \<lparr>sys_registry = r, sys_claims = cls\<rparr>
    \<lparr>sys_registry = snd (admit_matching_token r target o'), sys_claims = cls\<rparr>"
    using step_admit [of "\<lparr>sys_registry = r, sys_claims = cls\<rparr>"] by (simp add: r_into_rtranclp)
qed

text \<open>What a run of the classification relates: its registry before and after.\<close>

definition moves :: "classify_locals \<Rightarrow> classify_locals \<Rightarrow> bool" where
  "moves l l' \<longleftrightarrow> registry_steps (cls_registry l) (cls_registry l') \<and> framed (cls_registry l) (cls_registry l')"

lemma moves_refl [simp]: "moves l l"
  by (simp add: moves_def)

lemma moves_trans: "moves a b \<Longrightarrow> moves b c \<Longrightarrow> moves a c"
  unfolding moves_def by (meson registry_steps_trans framed_trans)

lemma moves_fold: "(\<And>x l. moves l (f x l)) \<Longrightarrow> moves l (fold f xs l)"
  by (induction xs arbitrary: l) (auto intro: moves_trans)

lemma classify_event_moves: "moves l (classify_event n age o' now ev l)"
proof (cases "event_tracking_target ev")
  case (Some target)
  obtain m r' where a: "admit_matching_token (cls_registry l) target o' = (m, r')" by fastforce
  then have "registry_steps (cls_registry l) r'" "framed (cls_registry l) r'"
    using admit_steps [of "cls_registry l" target o'] admit_framed [of "cls_registry l" target o'] by simp_all
  then show ?thesis using Some a
    by (auto simp: classify_event_def moves_def split: option.splits)
qed (auto simp: classify_event_def moves_def split: option.splits)

lemma note_gap_moves: "moves l (note_gap base64_decode o' note program l)"
  using record_gap_steps record_gap_framed by (simp add: note_gap_def malformed_gap_def moves_def)

lemma classify_spec_moves: "moves l (classify_spec base64_decode n age o' now note program l)"
  unfolding classify_spec_def by (rule moves_trans [OF note_gap_moves moves_fold [OF classify_event_moves]])

lemma classification_moves: "moves (classify_start r) (fold (classify_spec base64_decode n age o' now note) ps (classify_start r))"
  by (rule moves_fold [OF classify_spec_moves])

section \<open>Incomplete evidence\<close>

abbreviation marked :: "registry \<Rightarrow> token \<Rightarrow> bool" where
  "marked r t \<equiv> cell_incomplete_reason (cell_of r t) \<noteq> WINDOW_COMPLETE"

lemma moves_marked: "moves l l' \<Longrightarrow> marked (cls_registry l) t \<Longrightarrow> marked (cls_registry l') t"
  by (simp add: moves_def framed_def cell_of_def)

lemma note_gap_marks:
  assumes "mentions note program" and "\<not> evidence_complete base64_decode program note"
    and "t \<in> set (held (cls_registry l))"
    and "in_gap (pump_source_program program) o' (cell_of (cls_registry l) t) t"
  shows "marked (cls_registry (note_gap base64_decode o' note program l)) t"
  using assms gap_marks [OF assms(3,4)] by (simp add: note_gap_def malformed_gap_def record_gap_def)

lemma classify_fold_marks:
  assumes "mentions note program" and "\<not> evidence_complete base64_decode program note"
    and "program \<in> set ps" and "t \<in> set (held (cls_registry l))"
    and "in_gap (pump_source_program program) o' (cell_of (cls_registry l) t) t"
  shows "marked (cls_registry (fold (classify_spec base64_decode n age o' now note) ps l)) t"
  using assms(3-5)
proof (induction ps arbitrary: l)
  case (Cons p ps)
  let ?l = "classify_spec base64_decode n age o' now note p l"
  show ?case
  proof (cases "p = program")
    case True
    have "marked (cls_registry (note_gap base64_decode o' note program l)) t"
      by (rule note_gap_marks [OF assms(1,2) Cons.prems(2,3)])
    then have "marked (cls_registry ?l) t"
      unfolding True classify_spec_def by (rule moves_marked [OF moves_fold [OF classify_event_moves]])
    then show ?thesis using moves_marked [OF moves_fold [OF classify_spec_moves]] by simp
  next
    case False
    have "moves l ?l" by (rule classify_spec_moves)
    then have "framed (cls_registry l) (cls_registry ?l)" by (simp add: moves_def)
    then show ?thesis
      using Cons False by (simp add: framed_held framed_in_gap)
  qed
qed simp


definition truncated_note :: program_log_notification where
  "truncated_note = \<lparr>subscription_id = 1, note_slot = 7, note_signature = ''sig'',
     note_log_messages = [invoke_line (pump_program_id Pump) 1, ''Log truncated''],
     note_transaction_error = None\<rparr>"

lemma plausible_pump: "is_plausible_program_id (pump_program_id p)"
  by (cases p) (simp_all add: is_plausible_program_id_def is_ascii_whitespace_def PUMP_PROGRAM_ID_def
      PUMP_SWAP_PROGRAM_ID_def)

lemma parse_invoke_pump: "parse_invoke (invoke_line (pump_program_id p) 1) = Some (pump_program_id p, 1)"
  by (rule parse_invoke_line [OF plausible_pump]) (simp add: usize_max_def)

lemma truncated_note_mentions:
  "notification_mentions_program (pump_program_id Pump) (note_log_messages truncated_note)"
  "\<not> notification_mentions_program (pump_program_id PumpSwap) (note_log_messages truncated_note)"
proof -
  have none: "parse_invoke ''Log truncated'' = None"
    by (simp add: parse_invoke_def strip_prefix_def starts_with_def)
  have "pump_program_id Pump \<noteq> pump_program_id PumpSwap"
    by (simp add: PUMP_PROGRAM_ID_def PUMP_SWAP_PROGRAM_ID_def)
  with none show "notification_mentions_program (pump_program_id Pump) (note_log_messages truncated_note)"
    "\<not> notification_mentions_program (pump_program_id PumpSwap) (note_log_messages truncated_note)"
    using parse_invoke_pump [of Pump]
    by (simp_all add: notification_mentions_program_def truncated_note_def del: pump_program_id.simps)
qed

lemma truncated_note_walk:
  "successful_self_cpi_coverage (pump_program_id Pump) (note_log_messages truncated_note) = Inl TruncatedLogs"
proof -
  have "cpi_step (pump_program_id Pump) (invoke_line (pump_program_id Pump) 1) cpi_init
      = cpi_invoke (pump_program_id Pump) (pump_program_id Pump) 1 cpi_init"
    by (rule step_invoke [OF plausible_pump]) (simp add: usize_max_def)
  then show ?thesis
    by (simp add: successful_self_cpi_coverage_def truncated_note_def cpi_invoke_def cpi_init_def
        cpi_instruction_def saturating_add_usize_def usize_max_def checked_add_word_def ok_or_def
        top_silenced_def under_target_def Let_def cpi_step_def is_log_truncation_marker_def
        del: pump_program_id.simps)
qed

lemma truncated_note_classified:
  "classify_notification base64_decode truncated_note r n age observed_at now =
     Some (DropNotification MalformedLogs, record_gap Pump observed_at DecodeGap r)"
  using truncated_note_mentions truncated_note_walk
  by (simp add: classify_notification_def PUMP_PROGRAMS_def classify_program_def malformed_gap_def
      disposition_of_def truncated_note_def notification_succeeded_def)


section \<open>What is admitted\<close>

lemma matching_tokenD:
  assumes "reg_inv r" and "matching_token r target o' = Some t"
  shows "(target, t) \<in> set (windows r)" and "tok_target t = target" and "\<not> cell_finalized (cell_of r t)"
proof -
  show w: "(target, t) \<in> set (windows r)"
    using assms(2) by (auto simp: matching_token_def dest: map_of_SomeD split: option.splits if_splits)
  show "tok_target t = target" "\<not> cell_finalized (cell_of r t)"
    using reg_inv_windowD [OF assms(1) w] by simp_all
qed

text \<open>A window takes one more observation when it is the open one of its target and its counter has room.\<close>

definition admissible :: "registry \<Rightarrow> i64 \<Rightarrow> token \<Rightarrow> bool" where
  "admissible r o' t \<longleftrightarrow>
     matching_token r (tok_target t) o' = Some t \<and> unat (cell_admitted (cell_of r t)) + 1 < 2 ^ 64"

definition tracked_inv :: "registry \<Rightarrow> i64 \<Rightarrow> pump_event list \<Rightarrow> classify_locals \<Rightarrow> bool" where
  "tracked_inv r o' evs l \<longleftrightarrow>
     framed r (cls_registry l) \<and> distinct (map tok_target (cls_tracked l))
     \<and> (\<forall>t. t \<in> set (cls_tracked l) \<longleftrightarrow> admissible r o' t
          \<and> Some (tok_target t) \<in> event_tracking_target ` set evs)
     \<and> (\<forall>a. unat (cell_admitted (cells (cls_registry l) a)) = unat (cell_admitted (cells r a))
          + (if a \<in> tok_cell ` set (cls_tracked l) then 1 else 0))"

lemma seed_excludes_target: "discovery_seed_of ev n = Some seed \<Longrightarrow> event_tracking_target ev = None"
  by (cases ev) auto

lemma tracked_inv_keep:
  assumes "tracked_inv r o' evs l" and "cls_tracked l' = cls_tracked l"
    and "framed r (cls_registry l')" and "same_counts (cls_registry l) (cls_registry l')"
    and "\<And>t. event_tracking_target ev = Some (tok_target t) \<Longrightarrow> admissible r o' t \<Longrightarrow> t \<in> set (cls_tracked l)"
  shows "tracked_inv r o' (evs @ [ev]) l'"
  using assms(1,2,3,4) assms(5) unfolding tracked_inv_def same_counts_def
  by (auto simp: image_iff) metis+

lemma admissible_unique:
  "admissible r o' t \<Longrightarrow> admissible r o' t' \<Longrightarrow> tok_target t = tok_target t' \<Longrightarrow> t = t'"
  by (simp add: admissible_def)

lemma tracked_inv_uncounted:
  assumes "tracked_inv r o' evs l" and "a \<notin> tok_cell ` set (cls_tracked l)"
  shows "cell_admitted (cells (cls_registry l) a) = cell_admitted (cells r a)"
proof -
  have "unat (cell_admitted (cells (cls_registry l) a)) = unat (cell_admitted (cells r a))"
    using assms unfolding tracked_inv_def by simp
  then show ?thesis by (simp only: word_unat_eq_iff)
qed

lemma new_target_uncounted:
  assumes "reg_inv r" and "tracked_inv r o' evs l" and "matching_token r target o' = Some t"
    and "target \<notin> tok_target ` set (cls_tracked l)"
  shows "tok_cell t \<notin> tok_cell ` set (cls_tracked l)"
proof
  assume "tok_cell t \<in> tok_cell ` set (cls_tracked l)"
  then obtain u where u: "u \<in> set (cls_tracked l)" "tok_cell t = tok_cell u" by blast
  then have "(tok_target u, u) \<in> set (windows r)"
    using assms(2) matching_tokenD(1) [OF assms(1)] by (auto simp: admissible_def tracked_inv_def)
  then have "t = u"
    using windows_same_cell [OF assms(1) matching_tokenD(1) [OF assms(1,3)] _ u(2)] by blast
  then show False using assms(4) u(1) matching_tokenD(2) [OF assms(1,3)] by blast
qed

lemma admit_cases:
  assumes "reg_inv r" and "framed r r1" and "matching_token r target o' = Some t"
    and "cell_admitted (cell_of r1 t) = cell_admitted (cell_of r t)"
  shows "admit_matching_token r1 target o' =
    (if admissible r o' t then (Some t, update_cell (snd \<circ> mark_admitted) t r1)
     else (None, update_cell (snd \<circ> mark_incomplete QueueOverflow) t r1))"
proof -
  have "\<not> cell_finalized (cell_of r1 t)"
    using assms(2) matching_tokenD(3) [OF assms(1,3)] by (simp add: framed_def cell_of_def)
  then have "fst (mark_admitted (cell_of r1 t)) \<longleftrightarrow> unat (cell_admitted (cell_of r t)) + 1 < 2 ^ 64"
    using assms(4) by (simp add: mark_admitted_def checked_add_word_def)
  then show ?thesis
    using assms(3) matching_tokenD(2) [OF assms(1,3)]
    by (simp add: admit_matching_token_def framed_matching [OF assms(2)] admissible_def)
qed

lemma tracked_inv_admitted:
  assumes "reg_inv r" and "tracked_inv r o' evs l" and "event_tracking_target ev = Some (tok_target t)"
    and "admissible r o' t" and "tok_target t \<notin> tok_target ` set (cls_tracked l)"
    and "tok_cell t \<notin> tok_cell ` set (cls_tracked l)"
    and "framed r (update_cell (snd \<circ> mark_admitted) t (cls_registry l))"
  shows "tracked_inv r o' (evs @ [ev])
    (l\<lparr>cls_registry := update_cell (snd \<circ> mark_admitted) t (cls_registry l), cls_tracked := cls_tracked l @ [t]\<rparr>)"
proof -
  let ?c = "cells (cls_registry l) (tok_cell t)"
  have same: "cell_admitted ?c = cell_admitted (cell_of r t)"
    using tracked_inv_uncounted [OF assms(2,6)] by (simp add: cell_of_def)
  have "\<not> cell_finalized ?c"
    using assms(2) assms(4) matching_tokenD(3) [OF assms(1)]
    by (fastforce simp: tracked_inv_def framed_def cell_of_def admissible_def)
  then have "unat (cell_admitted (snd (mark_admitted ?c))) = unat (cell_admitted ?c) + 1"
    using same assms(4) by (simp add: mark_admitted_def checked_add_word_def admissible_def unat_add_small)
  moreover have "unat (cell_admitted ?c) = unat (cell_admitted (cells r (tok_cell t)))"
    using same by (simp add: cell_of_def)
  ultimately have counts: "unat (cell_admitted (cells (update_cell (snd \<circ> mark_admitted) t (cls_registry l)) a))
      = unat (cell_admitted (cells r a)) + (if a \<in> tok_cell ` set (cls_tracked l @ [t]) then 1 else 0)" for a
    using assms(2,6) by (simp add: tracked_inv_def update_cell_def cell_of_def)
  have mem: "u \<in> set (cls_tracked l @ [t]) \<longleftrightarrow> admissible r o' u
      \<and> Some (tok_target u) \<in> event_tracking_target ` set (evs @ [ev])" for u
  proof (cases "tok_target u = tok_target t")
    case True
    then have "u \<notin> set (cls_tracked l)" using assms(5) by (metis image_eqI)
    moreover have "Some (tok_target u) \<in> event_tracking_target ` set (evs @ [ev])"
      using assms(3) True by simp
    ultimately show ?thesis using assms(4) admissible_unique [OF assms(4), of u] True by auto
  next
    case False
    then show ?thesis using assms(2,3) by (auto simp: tracked_inv_def)
  qed
  have "distinct (map tok_target (cls_tracked l @ [t]))"
    using assms(2,5) by (simp add: tracked_inv_def)
  then show ?thesis
    unfolding tracked_inv_def using assms(7) counts mem by simp
qed

lemma tracked_inv_event:
  assumes "reg_inv r" and "tracked_inv r o' evs l"
  shows "tracked_inv r o' (evs @ [ev]) (classify_event n age o' now ev l)"
proof (cases "event_tracking_target ev")
  case None
  show ?thesis
    by (rule tracked_inv_keep [OF assms(2)])
       (use None assms(2) in \<open>auto simp: classify_event_def same_counts_def tracked_inv_def split: option.splits\<close>)
next
  case (Some target)
  then have seed: "discovery_seed_of ev n = None" using seed_excludes_target by fastforce
  let ?r1 = "cls_registry l"
  have fr: "framed r ?r1" and adm: "\<And>t. t \<in> set (cls_tracked l) \<Longrightarrow> admissible r o' t"
    using assms(2) by (auto simp: tracked_inv_def)
  have keep: "tracked_inv r o' (evs @ [ev]) (l\<lparr>cls_registry := r'\<rparr>)"
    if "framed ?r1 r'" "same_counts ?r1 r'" "\<And>t. tok_target t = target \<Longrightarrow> admissible r o' t \<Longrightarrow> t \<in> set (cls_tracked l)" for r'
    by (rule tracked_inv_keep [OF assms(2)]) (use that Some framed_trans [OF fr] in auto)
  show ?thesis
  proof (cases "target \<in> tok_target ` set (cls_tracked l)")
    case True
    then have "classify_event n age o' now ev l = l\<lparr>cls_registry := ?r1\<rparr>"
      using Some seed by (auto simp: classify_event_def list_ex_iff)
    moreover obtain u where u: "u \<in> set (cls_tracked l)" "tok_target u = target" using True by blast
    have "t \<in> set (cls_tracked l)" if "tok_target t = target" "admissible r o' t" for t
      using admissible_unique [OF adm [OF u(1)] that(2)] u that(1) by simp
    ultimately show ?thesis
      using keep [of ?r1] by (simp add: same_counts_def)
  next
    case new: False
    then have ce: "classify_event n age o' now ev l = (case admit_matching_token ?r1 target o' of
        (None, r') \<Rightarrow> l\<lparr>cls_registry := r'\<rparr>
      | (Some t, r') \<Rightarrow> l\<lparr>cls_registry := r', cls_tracked := cls_tracked l @ [t]\<rparr>)"
      using Some seed by (auto simp: classify_event_def list_ex_iff)
    show ?thesis
    proof (cases "matching_token r target o'")
      case None
      then have "admit_matching_token ?r1 target o' = (None, ?r1)"
        by (simp add: admit_matching_token_def framed_matching [OF fr])
      then show ?thesis using keep [of ?r1] None by (auto simp: ce same_counts_def admissible_def)
    next
      case (Some t)
      note t = matching_tokenD [OF assms(1) Some]
      have cell: "tok_cell t \<notin> tok_cell ` set (cls_tracked l)"
        by (rule new_target_uncounted [OF assms Some new])
      then have "cell_admitted (cell_of ?r1 t) = cell_admitted (cell_of r t)"
        using tracked_inv_uncounted [OF assms(2)] by (simp add: cell_of_def)
      note admit = admit_cases [OF assms(1) fr Some this]
      have fr': "framed ?r1 (snd (admit_matching_token ?r1 target o'))" by (rule admit_framed)
      show ?thesis
      proof (cases "admissible r o' t")
        case True
        then show ?thesis
          using tracked_inv_admitted [OF assms, of ev t] cell new fr' framed_trans [OF fr fr'] admit
            \<open>event_tracking_target ev = Some target\<close> t(2) by (simp add: ce)
      next
        case False
        then show ?thesis
          using keep [of "snd (admit_matching_token ?r1 target o')"] fr' admit Some
          by (auto simp: ce same_counts_def update_cell_def cell_of_def mark_incomplete_def admissible_def)
      qed
    qed
  qed
qed

lemma note_gap_frame:
  "cls_tracked (note_gap base64_decode o' note program l) = cls_tracked l"
  "cls_discoveries (note_gap base64_decode o' note program l) = cls_discoveries l"
  "cls_stale (note_gap base64_decode o' note program l) = cls_stale l"
  "same_counts (cls_registry l) (cls_registry (note_gap base64_decode o' note program l))"
  using record_gap_framed by (simp_all add: note_gap_def malformed_gap_def same_counts_def)

lemma tracked_inv_gap:
  assumes "tracked_inv r o' evs l"
  shows "tracked_inv r o' evs (note_gap base64_decode o' note program l)"
proof -
  have "moves l (note_gap base64_decode o' note program l)" by (rule note_gap_moves)
  moreover have "cls_tracked (note_gap base64_decode o' note program l) = cls_tracked l"
    "same_counts (cls_registry l) (cls_registry (note_gap base64_decode o' note program l))"
    by (rule note_gap_frame)+
  ultimately show ?thesis
    using assms framed_trans by (simp add: tracked_inv_def moves_def same_counts_def) blast
qed

text \<open>Seeds: the first fresh creation of each target, and whether some creation was stale.\<close>

definition fresh_seed :: "network \<Rightarrow> duration \<Rightarrow> i64 \<Rightarrow> pump_event list \<Rightarrow> discovery_seed \<Rightarrow> bool" where
  "fresh_seed n age now evs sd \<longleftrightarrow>
     (\<exists>e\<in>set evs. discovery_seed_of e n = Some sd \<and> discovery_event_is_fresh e now age)"

definition stale_seed :: "network \<Rightarrow> duration \<Rightarrow> i64 \<Rightarrow> pump_event list \<Rightarrow> bool" where
  "stale_seed n age now evs \<longleftrightarrow>
     (\<exists>e\<in>set evs. discovery_seed_of e n \<noteq> None \<and> \<not> discovery_event_is_fresh e now age)"

definition seeds_inv :: "network \<Rightarrow> duration \<Rightarrow> i64 \<Rightarrow> pump_event list \<Rightarrow> classify_locals \<Rightarrow> bool" where
  "seeds_inv n age now evs l \<longleftrightarrow>
     distinct (map seed_target (cls_discoveries l))
     \<and> (\<forall>sd\<in>set (cls_discoveries l). fresh_seed n age now evs sd)
     \<and> (\<forall>sd. fresh_seed n age now evs sd \<longrightarrow> seed_target sd \<in> seed_target ` set (cls_discoveries l))
     \<and> cls_stale l = stale_seed n age now evs"

lemma classify_event_seeds:
  "cls_discoveries (classify_event n age o' now ev l) =
     (case discovery_seed_of ev n of
        Some sd \<Rightarrow> if discovery_event_is_fresh ev now age \<and> seed_target sd \<notin> seed_target ` set (cls_discoveries l)
          then cls_discoveries l @ [sd] else cls_discoveries l
      | None \<Rightarrow> cls_discoveries l)"
  "cls_stale (classify_event n age o' now ev l) =
     (cls_stale l \<or> discovery_seed_of ev n \<noteq> None \<and> \<not> discovery_event_is_fresh ev now age)"
  "cls_malformed (classify_event n age o' now ev l) = cls_malformed l"
proof -
  have known: "list_ex (\<lambda>old. seed_target old = x) ds \<longleftrightarrow> x \<in> seed_target ` set ds" for x and ds :: "discovery_seed list"
    by (auto simp: list_ex_iff)
  show "cls_discoveries (classify_event n age o' now ev l) =
     (case discovery_seed_of ev n of
        Some sd \<Rightarrow> if discovery_event_is_fresh ev now age \<and> seed_target sd \<notin> seed_target ` set (cls_discoveries l)
          then cls_discoveries l @ [sd] else cls_discoveries l
      | None \<Rightarrow> cls_discoveries l)"
    "cls_stale (classify_event n age o' now ev l) =
     (cls_stale l \<or> discovery_seed_of ev n \<noteq> None \<and> \<not> discovery_event_is_fresh ev now age)"
    "cls_malformed (classify_event n age o' now ev l) = cls_malformed l"
    by (simp_all add: classify_event_def known split: option.split prod.split)
qed

lemma seeds_inv_event:
  assumes "seeds_inv n age now evs l"
  shows "seeds_inv n age now (evs @ [ev]) (classify_event n age o' now ev l)"
proof -
  have fresh: "fresh_seed n age now (evs @ [ev]) sd \<longleftrightarrow> fresh_seed n age now evs sd
      \<or> discovery_seed_of ev n = Some sd \<and> discovery_event_is_fresh ev now age" for sd
    by (auto simp: fresh_seed_def)
  have stale: "stale_seed n age now (evs @ [ev]) \<longleftrightarrow> stale_seed n age now evs
      \<or> discovery_seed_of ev n \<noteq> None \<and> \<not> discovery_event_is_fresh ev now age"
    by (auto simp: stale_seed_def)
  show ?thesis
    using assms unfolding seeds_inv_def fresh stale classify_event_seeds
    by (auto split: option.splits)
qed

definition events_inv ::
    "registry \<Rightarrow> network \<Rightarrow> duration \<Rightarrow> i64 \<Rightarrow> i64 \<Rightarrow> pump_event list \<Rightarrow> classify_locals \<Rightarrow> bool" where
  "events_inv r n age o' now evs l \<longleftrightarrow> tracked_inv r o' evs l \<and> seeds_inv n age now evs l"

lemma events_inv_fold:
  assumes "reg_inv r" and "events_inv r n age o' now evs l"
  shows "events_inv r n age o' now (evs @ es) (fold (classify_event n age o' now) es l)"
  using assms(2)
proof (induction es arbitrary: evs l)
  case (Cons e es)
  have "events_inv r n age o' now (evs @ [e]) (classify_event n age o' now e l)"
    using Cons.prems tracked_inv_event [OF assms(1)] seeds_inv_event by (simp add: events_inv_def)
  then show ?case using Cons.IH [of "evs @ [e]"] by simp
qed simp

lemma events_inv_programs:
  assumes "reg_inv r" and "events_inv r n age o' now evs l"
  shows "events_inv r n age o' now (evs @ concat (map (program_events base64_decode note) ps))
    (fold (classify_spec base64_decode n age o' now note) ps l)"
  using assms(2)
proof (induction ps arbitrary: evs l)
  case (Cons p ps)
  have "events_inv r n age o' now evs (note_gap base64_decode o' note p l)"
    using Cons.prems tracked_inv_gap [of r o' evs l base64_decode "note" p]
    by (simp add: events_inv_def seeds_inv_def note_gap_frame)
  then have "events_inv r n age o' now (evs @ program_events base64_decode note p)
      (classify_spec base64_decode n age o' now note p l)"
    unfolding classify_spec_def by (rule events_inv_fold [OF assms(1)])
  then show ?case using Cons.IH [of "evs @ program_events base64_decode note p"] by simp
qed simp

lemma classify_malformed:
  "cls_malformed (fold (classify_spec base64_decode n age o' now note) ps l) \<longleftrightarrow> cls_malformed l
     \<or> (\<exists>p\<in>set ps. mentions note p \<and> \<not> evidence_readable base64_decode p note)"
proof (induction ps arbitrary: l)
  case (Cons p ps)
  have "cls_malformed (fold (classify_event n age o' now) es l') = cls_malformed l'" for es l'
    by (induction es arbitrary: l') (simp_all add: classify_event_seeds)
  then have "cls_malformed (classify_spec base64_decode n age o' now note p l) \<longleftrightarrow> cls_malformed l
      \<or> mentions note p \<and> \<not> evidence_readable base64_decode p note"
    by (simp add: classify_spec_def note_gap_def malformed_gap_def)
  then show ?case by (auto simp: Cons.IH)
qed simp

abbreviation notification_events ::
    "(string \<Rightarrow> ('b, u8 list) result) \<Rightarrow> program_log_notification \<Rightarrow> pump_event list" where
  "notification_events base64_decode note \<equiv> concat (map (program_events base64_decode note) PUMP_PROGRAMS)"

lemma every_program [simp]: "set PUMP_PROGRAMS = UNIV"
proof -
  have "p \<in> set PUMP_PROGRAMS" for p by (cases p) (simp_all add: PUMP_PROGRAMS_def)
  then show ?thesis by blast
qed

lemma events_inv_start: "events_inv r n age o' now [] (classify_start r)"
  by (simp add: events_inv_def tracked_inv_def seeds_inv_def classify_start_def fresh_seed_def stale_seed_def)

text \<open>
  C25: the classification of a successful notification, in full. Its seeds are the fresh creations
  among the decoded events, one for each target; it tracks exactly the windows that are open for
  the target of some other decoded event and whose counter has room, each once, and adds exactly one
  to the counter of each of them and to no other; it drops the notification only when it has
  neither, as stale if some creation was too old or too far ahead, else as malformed if the logs of
  a mentioned program could not be read, else as irrelevant. All it does to the registry is a
  sequence of steps of the registry.
\<close>

theorem classification_exact:
  fixes base64_decode :: "string \<Rightarrow> ('b, u8 list) result"
  assumes "reachable capacity s" and "notification_succeeded note"
  defines "evs \<equiv> notification_events base64_decode note"
  shows "\<exists>seeds tracked r'.
    classify_notification base64_decode note (sys_registry s) n age observed_at now =
      Some (if seeds \<noteq> [] then FetchDiscovery seeds tracked
            else if tracked \<noteq> [] then CollectTrackedActivity tracked
            else DropNotification
              (if stale_seed n age now evs then StaleDiscovery
               else if \<exists>p. mentions note p \<and> \<not> evidence_readable base64_decode p note then MalformedLogs
               else Irrelevant), r')
    \<and> distinct (map seed_target seeds) \<and> (\<forall>sd\<in>set seeds. fresh_seed n age now evs sd)
    \<and> (\<forall>sd. fresh_seed n age now evs sd \<longrightarrow> seed_target sd \<in> seed_target ` set seeds)
    \<and> distinct (map tok_target tracked)
    \<and> (\<forall>t. t \<in> set tracked \<longleftrightarrow> admissible (sys_registry s) observed_at t
         \<and> Some (tok_target t) \<in> event_tracking_target ` set evs)
    \<and> (\<forall>a. unat (cell_admitted (cells r' a)) = unat (cell_admitted (cells (sys_registry s) a))
         + (if a \<in> tok_cell ` set tracked then 1 else 0))
    \<and> step\<^sup>*\<^sup>* s (s\<lparr>sys_registry := r'\<rparr>)"
proof -
  let ?r = "sys_registry s"
  let ?l = "fold (classify_spec base64_decode n age observed_at now note) PUMP_PROGRAMS (classify_start ?r)"
  have inv: "reg_inv ?r" using reachable_inv [OF assms(1)] by (simp add: sys_inv_def)
  have ev: "events_inv ?r n age observed_at now evs ?l"
    using events_inv_programs [OF inv events_inv_start, of n age observed_at now base64_decode "note" PUMP_PROGRAMS]
    by (simp add: evs_def)
  have mal: "cls_malformed ?l \<longleftrightarrow> (\<exists>p. mentions note p \<and> \<not> evidence_readable base64_decode p note)"
    by (simp add: classify_malformed classify_start_def)
  have "moves (classify_start ?r) ?l" by (rule classification_moves)
  then have "registry_steps ?r (cls_registry ?l)" by (simp add: moves_def classify_start_def)
  then have steps: "step\<^sup>*\<^sup>* s (s\<lparr>sys_registry := cls_registry ?l\<rparr>)" by (cases s) (simp add: registry_steps_def)
  have c: "classify_notification base64_decode note ?r n age observed_at now = Some (disposition_of ?l, cls_registry ?l)"
    using assms(2) by (simp add: classify_notification_normal Let_def)
  have d: "disposition_of ?l = (if cls_discoveries ?l \<noteq> [] then FetchDiscovery (cls_discoveries ?l) (cls_tracked ?l)
      else if cls_tracked ?l \<noteq> [] then CollectTrackedActivity (cls_tracked ?l)
      else DropNotification (if stale_seed n age now evs then StaleDiscovery
        else if \<exists>p. mentions note p \<and> \<not> evidence_readable base64_decode p note then MalformedLogs else Irrelevant))"
    using ev unfolding mal [symmetric] by (simp add: disposition_of_def events_inv_def seeds_inv_def)
  note parts = ev [unfolded events_inv_def tracked_inv_def seeds_inv_def]
  show ?thesis
    by (intro exI [of _ "cls_discoveries ?l"] exI [of _ "cls_tracked ?l"] exI [of _ "cls_registry ?l"] conjI)
       (use c [unfolded d] parts steps in blast)+
qed

theorem classification_exact_witness:
  "\<exists>r'. classify_notification (\<lambda>_. Inl ()) truncated_note ex_closed SolanaMainnet 60 5 5
      = Some (DropNotification MalformedLogs, r') \<and> step\<^sup>*\<^sup>* (idle ex_closed) (idle r')"
  using classification_exact [OF reachable_closed, of truncated_note "\<lambda>_. Inl ()" SolanaMainnet 60 5 5]
    truncated_note_classified [of "\<lambda>_. Inl ()" ex_closed SolanaMainnet 60 5 5]
  by (auto simp: truncated_note_def notification_succeeded_def split: if_splits)

text \<open>
  The classification never panics. The counter of records per instruction that it increments
  with an expectation cannot overflow, whatever the log, because the walk refuses a log in which an
  instruction has more records than the counter can number.
\<close>

theorem classification_never_panics:
  "\<exists>disposition r'. classify_notification base64_decode note r n age observed_at now = Some (disposition, r')"
  by (simp add: classify_notification_normal Let_def)

section \<open>Complete evidence marks nothing\<close>

definition unmarked :: "registry \<Rightarrow> registry \<Rightarrow> bool" where
  "unmarked r r' \<longleftrightarrow>
     latest_source_coverage_gap r' = latest_source_coverage_gap r
     \<and> (\<forall>a. cell_incomplete_reason (cells r' a) = cell_incomplete_reason (cells r a))"

abbreviation roomy :: "registry \<Rightarrow> bool" where
  "roomy r \<equiv> \<forall>t\<in>set (held r). unat (cell_admitted (cell_of r t)) + 1 < 2 ^ 64"

lemma mark_admitted_unmarked: "unmarked r (update_cell (snd \<circ> mark_admitted) t r)"
  by (simp add: unmarked_def mark_admitted_def cell_of_def update_cell_def split: option.splits)

lemma classify_event_unmarked:
  assumes "reg_inv r" and "roomy r" and "tracked_inv r o' evs l" and "unmarked r (cls_registry l)"
  shows "unmarked r (cls_registry (classify_event n age o' now ev l))"
proof (cases "cls_registry (classify_event n age o' now ev l) = cls_registry l")
  case False
  let ?r1 = "cls_registry l"
  obtain target where target: "event_tracking_target ev = Some target"
      "target \<notin> tok_target ` set (cls_tracked l)"
      "cls_registry (classify_event n age o' now ev l) = snd (admit_matching_token ?r1 target o')"
    using False by (fastforce simp: classify_event_def list_ex_iff split: option.splits if_splits prod.splits)
  then obtain t where t: "matching_token r target o' = Some t"
    using False assms(3) framed_matching [of r ?r1]
    by (auto simp: admit_matching_token_def tracked_inv_def split: option.splits)
  note td = matching_tokenD [OF assms(1) t]
  have "tok_cell t \<notin> tok_cell ` set (cls_tracked l)"
    by (rule new_target_uncounted [OF assms(1,3) t target(2)])
  then have same: "cell_admitted (cell_of ?r1 t) = cell_admitted (cell_of r t)"
    using tracked_inv_uncounted [OF assms(3)] by (simp add: cell_of_def)
  have "admissible r o' t"
    using t td assms(2) by (force simp: admissible_def held_def)
  moreover have "framed r ?r1" using assms(3) by (simp add: tracked_inv_def)
  ultimately show ?thesis
    using admit_cases [OF assms(1) _ t same] target(3) assms(4) mark_admitted_unmarked [of ?r1 t]
    by (simp add: unmarked_def)
qed (use assms(4) in simp)

lemma unmarked_fold:
  assumes "reg_inv r" and "roomy r"
    and "events_inv r n age o' now evs l" and "unmarked r (cls_registry l)"
  shows "unmarked r (cls_registry (fold (classify_event n age o' now) es l))"
  using assms(3,4)
proof (induction es arbitrary: evs l)
  case (Cons e es)
  have "events_inv r n age o' now (evs @ [e]) (classify_event n age o' now e l)"
    using events_inv_fold [OF assms(1) Cons.prems(1), of "[e]"] by simp
  moreover have "unmarked r (cls_registry (classify_event n age o' now e l))"
    using classify_event_unmarked [OF assms(1,2) Cons.prems(1) [unfolded events_inv_def, THEN conjunct1] Cons.prems(2)] .
  ultimately show ?case using Cons.IH by simp
qed simp

lemma unmarked_programs:
  assumes "reg_inv r" and "roomy r" and "\<And>p. mentions note p \<Longrightarrow> evidence_complete base64_decode p note"
    and "events_inv r n age o' now evs l" and "unmarked r (cls_registry l)"
  shows "unmarked r (cls_registry (fold (classify_spec base64_decode n age o' now note) ps l))"
  using assms(4,5)
proof (induction ps arbitrary: evs l)
  case (Cons p ps)
  have "note_gap base64_decode o' note p l = l"
    using assms(3) [of p] by (auto simp: note_gap_def evidence_readable_def evidence_complete_def)
  then have spec: "classify_spec base64_decode n age o' now note p l
      = fold (classify_event n age o' now) (program_events base64_decode note p) l"
    by (simp add: classify_spec_def)
  show ?case
    using Cons.IH [OF events_inv_fold [OF assms(1) Cons.prems(1)] unmarked_fold [OF assms(1,2) Cons.prems]]
    by (simp add: spec)
qed simp

text \<open>
  Complete evidence costs nothing. When the evidence of every mentioned program is complete and
  no counter is exhausted, classifying the notification leaves the incompleteness of every window
  and the record of coverage gaps as they were.
\<close>

theorem complete_evidence_marks_nothing:
  assumes "reachable capacity s"
    and "\<forall>t\<in>set (held (sys_registry s)). unat (cell_admitted (cell_of (sys_registry s) t)) + 1 < 2 ^ 64"
    and "\<forall>p. mentions note p \<longrightarrow> evidence_complete base64_decode p note"
    and "classify_notification base64_decode note (sys_registry s) n age observed_at now = Some (d, r')"
  shows "latest_source_coverage_gap r' = latest_source_coverage_gap (sys_registry s)
    \<and> (\<forall>t. incomplete_reason (cell_of r' t) = incomplete_reason (cell_of (sys_registry s) t))"
proof -
  let ?r = "sys_registry s"
  have inv: "reg_inv ?r" using reachable_inv [OF assms(1)] by (simp add: sys_inv_def)
  have "unmarked ?r (cls_registry (classify_start ?r))" by (simp add: unmarked_def classify_start_def)
  then have "unmarked ?r (cls_registry
      (fold (classify_spec base64_decode n age observed_at now note) PUMP_PROGRAMS (classify_start ?r)))"
    using unmarked_programs [OF inv assms(2) _ events_inv_start] assms(3) by blast
  then have "unmarked ?r r'"
    using assms(4) by (auto simp: classify_notification_normal Let_def unmarked_def split: if_splits)
  then show ?thesis by (simp add: unmarked_def incomplete_reason_def cell_of_def)
qed

text \<open>A call of the watched program that writes no data.\<close>

definition quiet_note :: program_log_notification where
  "quiet_note = \<lparr>subscription_id = 1, note_slot = 7, note_signature = ''sig'',
     note_log_messages = concat (map (render 1) [Call (pump_program_id Pump) [] Succeeded]),
     note_transaction_error = None\<rparr>"

lemma quiet_note_complete: "evidence_complete base64_decode p quiet_note"
proof -
  let ?ts = "[Call (pump_program_id Pump) [] Succeeded]"
  have ex: "execution (pump_program_id p) ?ts"
    using plausible_pump [of Pump] by (simp add: execution_def usize_max_def)
  have scoped: "scope_program_data_logs (pump_program_id p) 7 None ''sig'' (concat (map (render 1) ?ts)) = Inr []"
    using scope_printed [OF ex, of "''sig''" 7 None]
    by (simp add: white_space_1_def white_space_2_def white_space_3_def scoped_spec_def scoped_of_def del: render.simps)
  obtain m where m: "successful_self_cpi_coverage (pump_program_id p) (concat (map (render 1) ?ts)) = Inr m"
      "\<forall>j. btree_get m j = (if unat j < length ?ts
         then Some (cover (pump_program_id p) (?ts ! unat j) self_cpi_default) else None)"
    using coverage_printed [of ?ts "pump_program_id p"] plausible_pump [of Pump]
    by (auto simp: usize_max_def simp del: render.simps)
  have "instruction_complete m [] i" for i
    using m(2) by (simp add: instruction_complete_def self_cpi_default_def abandon_pending_def)
  then show ?thesis
    using scoped m(1) unfolding evidence_complete_def quiet_note_def by fastforce
qed

theorem complete_evidence_marks_nothing_witness:
  "\<exists>d r'. classify_notification (\<lambda>_. Inl ()) quiet_note ex_confirmed SolanaMainnet 60 5 5 = Some (d, r')
     \<and> incomplete_reason (cell_of r' ex_token) = None"
proof -
  obtain d r' where c: "classify_notification (\<lambda>_. Inl ()) quiet_note ex_confirmed SolanaMainnet 60 5 5 = Some (d, r')"
    using classify_notification_normal [of "\<lambda>_. Inl ()" quiet_note] by (metis surj_pair)
  have "\<forall>t\<in>set (held ex_confirmed). unat (cell_admitted (cell_of ex_confirmed t)) + 1 < 2 ^ 64"
    by (simp add: ex_confirmed_fields held_def cell_of_def fresh_cell_def ex_token_def)
  moreover have "incomplete_reason (cell_of ex_confirmed ex_token) = None"
    by (simp add: ex_confirmed_fields cell_of_def fresh_cell_def ex_token_def incomplete_reason_def)
  ultimately show ?thesis
    using complete_evidence_marks_nothing [OF reachable_confirmed, of quiet_note "\<lambda>_. Inl ()" SolanaMainnet 60 5 5 d r']
      c quiet_note_complete [of "\<lambda>_. Inl ()"] by simp
qed

end
