(* ===== verification/Ledger.thy ===== *)
theory Ledger
  imports Intake_Correct "HOL-Library.Multiset"
begin

text \<open>
  The ledger of admissions. A window counts every observation that was admitted to it and every one
  that was settled, and is finalized only when the two agree. Between admission and settlement an
  observation is owned by exactly one value of the program: a guard of a running task or a batch on
  its way through the pipeline. The ledger adds to the registry the multiset of the cells that are
  owed a settlement, and a step of the system either admits and adds an owner, settles and removes
  one, or leaves the counters alone.
\<close>

section \<open>Steps of the ledger\<close>

definition counts_kept :: "registry \<Rightarrow> registry \<Rightarrow> bool" where
  "counts_kept r r' \<longleftrightarrow>
     next_cell r \<le> next_cell r'
     \<and> (\<forall>a<next_cell r. cell_admitted (cells r' a) = cell_admitted (cells r a)
          \<and> cell_settled (cells r' a) = cell_settled (cells r a))
     \<and> (\<forall>a. next_cell r \<le> a \<and> a < next_cell r' \<longrightarrow>
          cell_admitted (cells r' a) = 0 \<and> cell_settled (cells r' a) = 0)"

definition owed_by :: "token list \<Rightarrow> nat multiset" where
  "owed_by ts = mset (map tok_cell ts)"

lemma owed_by_simps [simp]:
  "owed_by [] = {#}" "owed_by (t # ts) = add_mset (tok_cell t) (owed_by ts)"
  "owed_by (ts @ us) = owed_by ts + owed_by us"
  by (simp_all add: owed_by_def)

inductive ledger_step :: "system \<times> nat multiset \<Rightarrow> system \<times> nat multiset \<Rightarrow> bool" where
  ledger_admit: "admit_matching_token (sys_registry s) target observed = (m, r')
    \<Longrightarrow> ledger_step (s, M) (s\<lparr>sys_registry := r'\<rparr>, M + (case m of None \<Rightarrow> {#} | Some t \<Rightarrow> {#tok_cell t#}))"
| ledger_admit_new: "tok_cell t < next_cell (sys_registry s) \<Longrightarrow> fst (mark_admitted (cell_of (sys_registry s) t))
    \<Longrightarrow> ledger_step (s, M) (s\<lparr>sys_registry := update_cell (snd \<circ> mark_admitted) t (sys_registry s)\<rparr>,
          add_mset (tok_cell t) M)"
| ledger_settle: "tok_cell t \<in># M
    \<Longrightarrow> ledger_step (s, M) (s\<lparr>sys_registry := update_cell (snd \<circ> mark_settled) t (sys_registry s)\<rparr>,
          M - {#tok_cell t#})"
| ledger_other: "step s s' \<Longrightarrow> counts_kept (sys_registry s) (sys_registry s')
    \<Longrightarrow> ledger_step (s, M) (s', M)"

definition balanced :: "registry \<Rightarrow> nat multiset \<Rightarrow> bool" where
  "balanced r M \<longleftrightarrow>
     (\<forall>a<next_cell r. unat (cell_admitted (cells r a)) = unat (cell_settled (cells r a)) + count M a)
     \<and> (\<forall>a\<in>#M. a < next_cell r)"

definition ledger_inv :: "system \<times> nat multiset \<Rightarrow> bool" where
  "ledger_inv sM \<longleftrightarrow> sys_inv (fst sM) \<and> balanced (sys_registry (fst sM)) (snd sM)"

lemma ledger_step_is_steps: "ledger_step sM sM' \<Longrightarrow> step\<^sup>*\<^sup>* (fst sM) (fst sM')"
proof (induction rule: ledger_step.induct)
  case (ledger_admit s target observed m r' M)
  then show ?case using step_admit [of s target observed] by simp
qed (auto intro: step_mark_admitted step_mark_settled)

lemma mark_admitted_counts:
  "fst (mark_admitted c) \<Longrightarrow> unat (cell_admitted (snd (mark_admitted c))) = unat (cell_admitted c) + 1"
  "cell_settled (snd (mark_admitted c)) = cell_settled c"
  by (auto simp: mark_admitted_def dest: checked_increment split: option.splits if_splits)

lemma mark_settled_counts:
  assumes "cell_settled c < cell_admitted c"
  shows "unat (cell_settled (snd (mark_settled c))) = unat (cell_settled c) + 1"
    and "cell_admitted (snd (mark_settled c)) = cell_admitted c"
proof -
  have "unat (cell_settled c) + unat (1 :: u64) < 2 ^ LENGTH(64)"
    using assms unat_bound [of "cell_admitted c"] by (simp add: word_less_nat_alt)
  from unat_add_small [OF this] show "unat (cell_settled (snd (mark_settled c))) = unat (cell_settled c) + 1"
    using assms by (simp add: mark_settled_def not_le)
qed (simp add: mark_settled_def)

lemma ledger_inv_step:
  assumes "ledger_step sM sM'" and "ledger_inv sM"
  shows "ledger_inv sM'"
proof -
  have sys: "sys_inv (fst sM')"
    using steps_advance [OF ledger_step_is_steps [OF assms(1)]] assms(2) by (simp add: ledger_inv_def)
  have "balanced (sys_registry (fst sM')) (snd sM')"
    using assms
  proof (induction rule: ledger_step.induct)
    case (ledger_admit s target observed m r' M)
    let ?r = "sys_registry s"
    have inv: "reg_inv ?r" and bal: "balanced ?r M"
      using ledger_admit.prems by (simp_all add: ledger_inv_def sys_inv_def)
    show ?case
    proof (cases "matching_token ?r target observed")
      case None
      then show ?thesis using ledger_admit.hyps bal by (simp add: admit_matching_token_def)
    next
      case (Some t)
      have low: "tok_cell t < next_cell ?r"
        using reg_inv_windowD(5) [OF inv matching_tokenD(1) [OF inv Some]] .
      show ?thesis
      proof (cases "fst (mark_admitted (cell_of ?r t))")
        case True
        then have "m = Some t" "r' = update_cell (snd \<circ> mark_admitted) t ?r"
          using ledger_admit.hyps Some by (simp_all add: admit_matching_token_def)
        then show ?thesis
          using True bal low mark_admitted_counts [of "cell_of ?r t"]
          by (auto simp: balanced_def cell_of_def)
      next
        case False
        then have "m = None" "r' = update_cell (snd \<circ> mark_incomplete QueueOverflow) t ?r"
          using ledger_admit.hyps Some by (simp_all add: admit_matching_token_def)
        then show ?thesis
          using bal by (auto simp: balanced_def cell_of_def mark_incomplete_def)
      qed
    qed
  next
    case (ledger_admit_new t s M)
    then show ?case
      using mark_admitted_counts [of "cell_of (sys_registry s) t"]
      by (auto simp: ledger_inv_def balanced_def cell_of_def)
  next
    case (ledger_settle t M s)
    let ?c = "cell_of (sys_registry s) t"
    have bal: "balanced (sys_registry s) M" using ledger_settle.prems by (simp add: ledger_inv_def)
    have low: "tok_cell t < next_cell (sys_registry s)" using bal ledger_settle.hyps by (simp add: balanced_def)
    have pos: "0 < count M (tok_cell t)" using ledger_settle.hyps by simp
    then have "cell_settled ?c < cell_admitted ?c"
      using bal low by (auto simp: balanced_def cell_of_def word_less_nat_alt)
    note c = mark_settled_counts [OF this]
    have "\<forall>a\<in># M - {#tok_cell t#}. a < next_cell (sys_registry s)"
      using bal by (meson balanced_def in_diffD)
    then show ?case
      using bal low pos c by (auto simp: balanced_def cell_of_def)
  next
    case (ledger_other s s' M)
    then have bal: "balanced (sys_registry s) M" by (simp add: ledger_inv_def)
    have fresh: "count M a = 0" if "next_cell (sys_registry s) \<le> a" for a
      using bal that by (metis balanced_def count_inI not_le)
    note kept = ledger_other.hyps(2) [unfolded counts_kept_def]
    have "unat (cell_admitted (cells (sys_registry s') a)) = unat (cell_settled (cells (sys_registry s') a)) + count M a"
      if "a < next_cell (sys_registry s')" for a
      using bal kept fresh [of a] that by (cases "a < next_cell (sys_registry s)") (simp_all add: balanced_def)
    then show ?case using bal kept by (auto simp: balanced_def)
  qed
  with sys show ?thesis by (simp add: ledger_inv_def)
qed

lemma ledger_inv_steps: "ledger_step\<^sup>*\<^sup>* sM sM' \<Longrightarrow> ledger_inv sM \<Longrightarrow> ledger_inv sM'"
  by (induction rule: rtranclp_induct) (auto intro: ledger_inv_step)

text \<open>With no owner left, every window is settled.\<close>

lemma balanced_settled: "balanced r {#} \<Longrightarrow> a < next_cell r \<Longrightarrow> is_settled (cells r a)"
  by (simp add: balanced_def is_settled_def word_unat_eq_iff)

section \<open>Accounts of a computation\<close>

text \<open>
  A piece of code takes a registry and the owners to a registry and the owners after it by steps of
  the ledger. The claims of other threads do not matter to it.
\<close>

definition pays :: "registry \<Rightarrow> nat multiset \<Rightarrow> registry \<Rightarrow> nat multiset \<Rightarrow> bool" where
  "pays r M r' M' \<longleftrightarrow>
     (\<forall>cls. ledger_step\<^sup>*\<^sup>* (\<lparr>sys_registry = r, sys_claims = cls\<rparr>, M) (\<lparr>sys_registry = r', sys_claims = cls\<rparr>, M'))"

lemma pays_refl [simp, intro]: "pays r M r M"
  by (simp add: pays_def)

lemma pays_trans [trans]: "pays r M r1 M1 \<Longrightarrow> pays r1 M1 r2 M2 \<Longrightarrow> pays r M r2 M2"
  unfolding pays_def by (meson rtranclp_trans)

lemma pays_step:
  "(\<And>cls. ledger_step (\<lparr>sys_registry = r, sys_claims = cls\<rparr>, M) (\<lparr>sys_registry = r', sys_claims = cls\<rparr>, M'))
     \<Longrightarrow> pays r M r' M'"
  unfolding pays_def by blast

lemma pays_other:
  "(\<And>cls. step \<lparr>sys_registry = r, sys_claims = cls\<rparr> \<lparr>sys_registry = r', sys_claims = cls\<rparr>)
     \<Longrightarrow> counts_kept r r' \<Longrightarrow> pays r M r' M"
  by (rule pays_step) (simp add: ledger_other)

lemma pays_settle: "tok_cell t \<in># M \<Longrightarrow> pays r M (update_cell (snd \<circ> mark_settled) t r) (M - {#tok_cell t#})"
  using ledger_settle [of t M "\<lparr>sys_registry = r, sys_claims = cls\<rparr>" for cls] by (intro pays_step) simp

lemma pays_settle_owned:
  "pays r (add_mset (tok_cell t) M) (update_cell (snd \<circ> mark_settled) t r) M"
  using pays_settle [of t "add_mset (tok_cell t) M" r] by simp

text \<open>A kind of owner: what it owes, and what releasing it does to the registry.\<close>

locale owner =
  fixes owed :: "'o \<Rightarrow> nat multiset" and release :: "'o \<Rightarrow> registry \<Rightarrow> registry"
  assumes release_pays: "pays r (owed x + M) (release x r) M"
begin

lemma release_all_pays: "pays r (sum_list (map owed xs) + M) (fold release xs r) M"
proof (induction xs arbitrary: r)
  case (Cons x xs)
  have "pays r (owed x + (sum_list (map owed xs) + M)) (release x r) (sum_list (map owed xs) + M)"
    by (rule release_pays)
  also have "pays (release x r) (sum_list (map owed xs) + M) (fold release xs (release x r)) M"
    by (rule Cons.IH)
  finally show ?case by (simp add: add.assoc)
qed simp

end

section \<open>Operations that leave the counters alone\<close>

lemma counts_kept_same:
  "next_cell r' = next_cell r
     \<Longrightarrow> (\<And>a. cell_admitted (cells r' a) = cell_admitted (cells r a) \<and> cell_settled (cells r' a) = cell_settled (cells r a))
     \<Longrightarrow> counts_kept r r'"
  by (auto simp: counts_kept_def)

lemma counts_kept_refl [simp]: "counts_kept r r"
  by (rule counts_kept_same) simp_all

lemma counts_kept_update:
  "(\<And>c. cell_admitted (f c) = cell_admitted c \<and> cell_settled (f c) = cell_settled c)
     \<Longrightarrow> counts_kept r (update_cell f t r)"
  by (rule counts_kept_same) (simp_all add: update_cell_def cell_of_def)

lemma counts_kept_framed: "framed r r' \<Longrightarrow> same_counts r r' \<Longrightarrow> counts_kept r r'"
  by (rule counts_kept_same) (simp_all add: framed_def same_counts_def)

lemma mark_incomplete_keeps:
  "cell_admitted (snd (mark_incomplete reason c)) = cell_admitted c"
  "cell_settled (snd (mark_incomplete reason c)) = cell_settled c"
  by (simp_all add: mark_incomplete_def)

lemma cancel_keeps:
  "cell_admitted (cancel_with_reason reason c) = cell_admitted c"
  "cell_settled (cancel_with_reason reason c) = cell_settled c"
  "cell_admitted (cancel_if_pending c) = cell_admitted c"
  "cell_settled (cancel_if_pending c) = cell_settled c"
  by (simp_all add: cancel_with_reason_def cancel_if_pending_def mark_incomplete_def split: window_state.splits)

lemma pays_mark_incomplete: "pays r M (update_cell (snd \<circ> mark_incomplete reason) t r) M"
  by (rule pays_other)
     (use step_mark_incomplete [of "\<lparr>sys_registry = r, sys_claims = cls\<rparr>" for cls] in
       \<open>simp_all add: counts_kept_update mark_incomplete_keeps\<close>)

lemma pays_cancel_with_reason: "pays r M (update_cell (cancel_with_reason reason) t r) M"
  by (rule pays_other)
     (use step_cancel_with_reason [of "\<lparr>sys_registry = r, sys_claims = cls\<rparr>" for cls] in
       \<open>simp_all add: counts_kept_update cancel_keeps\<close>)

lemma pays_cancel_if_pending: "pays r M (update_cell cancel_if_pending t r) M"
  by (rule pays_other)
     (use step_cancel_if_pending [of "\<lparr>sys_registry = r, sys_claims = cls\<rparr>" for cls] in
       \<open>simp_all add: counts_kept_update cancel_keeps\<close>)

lemma pays_progress: "pays r M (record_source_progress r program o') M"
  by (rule pays_other)
     (use step_progress [of "\<lparr>sys_registry = r, sys_claims = cls\<rparr>" for cls] in
       \<open>simp_all add: counts_kept_same record_source_progress_def\<close>)

lemma pays_gap: "pays r M (record_gap program o' reason r) M"
  by (rule pays_other)
     (use step_gap [of "\<lparr>sys_registry = r, sys_claims = cls\<rparr>" for cls] record_gap_framed counts_kept_framed in
       \<open>simp_all add: record_gap_def\<close>)

lemma evict_counts:
  "next_cell (evict_soonest r) = next_cell r"
  "cell_admitted (cells (evict_soonest r) a) = cell_admitted (cells r a)"
  "cell_settled (cells (evict_soonest r) a) = cell_settled (cells r a)"
  "cell_finalized (cells (evict_soonest r) a) = cell_finalized (cells r a)"
  by (auto simp: evict_soonest_def retain_if_durable_def update_cell_def windows_remove_def cell_of_def
      cancel_with_reason_def mark_incomplete_def split: option.splits window_state.splits)

lemma provision_counts:
  assumes "provision_target r target m opened d = (p, r')"
  shows "counts_kept r r'"
    and "newly_opened p \<Longrightarrow> tok_cell (prov_token p) = next_cell r \<and> next_cell r' = next_cell r + 1
       \<and> cell_admitted (cells r' (next_cell r)) = 0 \<and> \<not> cell_finalized (cells r' (next_cell r))"
    and "\<not> newly_opened p \<Longrightarrow> next_cell r' = next_cell r"
    and "a < next_cell r \<Longrightarrow> cell_finalized (cells r' a) = cell_finalized (cells r a)"
  using assms evict_counts
  by (auto simp: provision_target_def Let_def open_window_def counts_kept_def fresh_cell_def mark_incomplete_def
      split: option.splits if_splits prod.splits)

lemma pays_provision: "pays r M (snd (provision_target r target m opened d)) M"
  by (rule pays_other)
     (use step_provision [of "\<lparr>sys_registry = r, sys_claims = cls\<rparr>" for cls] provision_counts(1) in
       \<open>auto simp: prod_eq_iff\<close>)

lemma pays_admit:
  "admit_matching_token r target o' = (m, r')
     \<Longrightarrow> pays r M r' (M + (case m of None \<Rightarrow> {#} | Some t \<Rightarrow> {#tok_cell t#}))"
  using ledger_admit [of "\<lparr>sys_registry = r, sys_claims = cls\<rparr>" target o' m r' M for cls]
  by (intro pays_step) simp

section \<open>The classification pays for what it tracks\<close>

lemma classify_event_pays:
  "pays (cls_registry l) (owed_by (cls_tracked l) + M)
     (cls_registry (classify_event n age o' now ev l))
     (owed_by (cls_tracked (classify_event n age o' now ev l)) + M)"
proof (cases "event_tracking_target ev")
  case (Some target)
  obtain m r' where a: "admit_matching_token (cls_registry l) target o' = (m, r')" by fastforce
  have p: "pays (cls_registry l) (owed_by (cls_tracked l) + M) r'
      (owed_by (cls_tracked l) + M + (case m of None \<Rightarrow> {#} | Some t \<Rightarrow> {#tok_cell t#}))"
    by (rule pays_admit [OF a])
  have seed: "discovery_seed_of ev n = None" using Some seed_excludes_target by fastforce
  show ?thesis
  proof (cases "list_ex (\<lambda>t. tok_target t = target) (cls_tracked l)")
    case False
    then show ?thesis using p Some seed a by (cases m) (simp_all add: classify_event_def)
  qed (simp add: classify_event_def Some seed)
qed (auto simp: classify_event_def split: option.splits)

lemma classify_fold_pays:
  "pays (cls_registry l) (owed_by (cls_tracked l) + M)
     (cls_registry (fold (classify_event n age o' now) evs l))
     (owed_by (cls_tracked (fold (classify_event n age o' now) evs l)) + M)"
proof (induction evs arbitrary: l)
  case (Cons e evs)
  show ?case using pays_trans [OF classify_event_pays Cons.IH] by simp
qed simp

lemma note_gap_pays:
  "pays (cls_registry l) M (cls_registry (note_gap base64_decode o' note program l)) M"
  by (simp add: note_gap_def malformed_gap_def pays_gap)

lemma classify_programs_pays:
  "pays (cls_registry l) (owed_by (cls_tracked l) + M)
     (cls_registry (fold (classify_spec base64_decode n age o' now note) ps l))
     (owed_by (cls_tracked (fold (classify_spec base64_decode n age o' now note) ps l)) + M)"
proof (induction ps arbitrary: l)
  case (Cons p ps)
  let ?g = "note_gap base64_decode o' note p l"
  have "pays (cls_registry l) (owed_by (cls_tracked l) + M) (cls_registry ?g) (owed_by (cls_tracked ?g) + M)"
    unfolding note_gap_frame by (rule note_gap_pays)
  also have "pays (cls_registry ?g) (owed_by (cls_tracked ?g) + M)
      (cls_registry (classify_spec base64_decode n age o' now note p l))
      (owed_by (cls_tracked (classify_spec base64_decode n age o' now note p l)) + M)"
    unfolding classify_spec_def by (rule classify_fold_pays)
  finally show ?case using pays_trans [OF _ Cons.IH] by simp
qed simp

fun disposition_tokens :: "notification_disposition \<Rightarrow> token list" where
  "disposition_tokens (FetchDiscovery seeds tracked) = tracked"
| "disposition_tokens (CollectTrackedActivity tracked) = tracked"
| "disposition_tokens (DropNotification _) = []"

lemma classification_pays:
  assumes "classify_notification base64_decode note r n age o' now = Some (d, r')"
  shows "pays r M r' (owed_by (disposition_tokens d) + M)"
proof -
  let ?l = "fold (classify_spec base64_decode n age o' now note) PUMP_PROGRAMS (classify_start r)"
  have "pays (cls_registry (classify_start r)) (owed_by (cls_tracked (classify_start r)) + M)
      (cls_registry ?l) (owed_by (cls_tracked ?l) + M)"
    by (rule classify_programs_pays)
  moreover have "disposition_tokens (disposition_of l) = cls_tracked l" for l
    by (simp add: disposition_of_def)
  ultimately show ?thesis
    using assms by (auto simp: classify_notification_normal classify_start_def Let_def split: if_splits)
qed

end
