(* ===== verification/Discovery_Rpc.thy ===== *)
theory Discovery_Rpc
  imports Text
begin

text \<open>
  The admission control of discovery reads, \<open>apps/server/src/jobs/discovery_rpc.rs\<close>: a semaphore, a
  pacing state that spaces request starts, and the set of recently claimed signatures. Instants and
  durations are counted in nanoseconds. An instant is read under the lock that guards the state it
  is compared with, so a sequence of calls sees a nondecreasing sequence of instants.
\<close>

type_synonym instant = nat

section \<open>Claimed signatures\<close>

record recent_signatures =
  retention :: nat
  expirations :: "(instant \<times> string) list"
  sig_values :: "string \<Rightarrow> instant option"

definition recent_signatures_new :: "nat \<Rightarrow> recent_signatures" where
  "recent_signatures_new r = \<lparr>retention = r, expirations = [], sig_values = (\<lambda>_. None)\<rparr>"

text \<open>The loop that removes expired claims from the front of the queue.\<close>

fun expire ::
    "instant \<Rightarrow> (instant \<times> string) list \<Rightarrow> (string \<Rightarrow> instant option)
      \<Rightarrow> (instant \<times> string) list \<times> (string \<Rightarrow> instant option)" where
  "expire now [] v = ([], v)"
| "expire now ((expires_at, s) # q) v =
     (if now < expires_at then ((expires_at, s) # q, v)
      else expire now q (if v s = Some expires_at then v(s := None) else v))"

definition claim_at :: "string \<Rightarrow> instant \<Rightarrow> recent_signatures \<Rightarrow> bool \<times> recent_signatures" where
  "claim_at s now rs =
     (let (q, v) = expire now (expirations rs) (sig_values rs) in
      if v s \<noteq> None then (False, rs\<lparr>expirations := q, sig_values := v\<rparr>)
      else
        let expires_at = now + retention rs in
        (True, rs\<lparr>expirations := q @ [(expires_at, s)], sig_values := v(s \<mapsto> expires_at)\<rparr>))"

section \<open>Pacing\<close>

record pacing_state =
  next_allowed :: "instant option"
  cooldown_until :: "instant option"

definition pacing_default :: pacing_state where
  "pacing_default = \<lparr>next_allowed = None, cooldown_until = None\<rparr>"

definition ready_at :: "instant \<Rightarrow> pacing_state \<Rightarrow> instant" where
  "ready_at now p =
     (case (next_allowed p, cooldown_until p) of
        (None, None) \<Rightarrow> now
      | (Some a, None) \<Rightarrow> a
      | (None, Some c) \<Rightarrow> c
      | (Some a, Some c) \<Rightarrow> max a c)"

definition reserve_if_ready :: "instant \<Rightarrow> nat \<Rightarrow> pacing_state \<Rightarrow> instant option \<times> pacing_state" where
  "reserve_if_ready now interval p =
     (if now < ready_at now p then (Some (ready_at now p), p)
      else
        let p1 = p\<lparr>next_allowed := Some (now + interval)\<rparr> in
        (None, case cooldown_until p1 of
                 None \<Rightarrow> p1
               | Some c \<Rightarrow> if c \<le> now then p1\<lparr>cooldown_until := None\<rparr> else p1))"

definition pacing_rate_limited :: "instant \<Rightarrow> nat \<Rightarrow> pacing_state \<Rightarrow> pacing_state" where
  "pacing_rate_limited now cooldown p =
     (let until = now + cooldown in
      p\<lparr>cooldown_until := Some (case cooldown_until p of None \<Rightarrow> until | Some c \<Rightarrow> max c until)\<rparr>)"

section \<open>The gate\<close>

record discovery_rpc_gate =
  permits :: nat
  pacing :: pacing_state
  request_interval :: nat
  rate_limit_cooldown :: nat
  signatures :: recent_signatures

text \<open>The three assertions of the constructor: no gate for a zero parameter.\<close>

definition NANOS_PER_SECOND :: nat where
  "NANOS_PER_SECOND = 1000000000"

definition gate_new :: "nat \<Rightarrow> nat \<Rightarrow> nat \<Rightarrow> nat \<Rightarrow> discovery_rpc_gate option" where
  "gate_new maximum_in_flight requests_per_second cooldown signature_retention =
     (if maximum_in_flight = 0 \<or> requests_per_second = 0 \<or> signature_retention = 0 then None
      else Some \<lparr>permits = maximum_in_flight, pacing = pacing_default,
                 request_interval = NANOS_PER_SECOND div min requests_per_second 1000000000,
                 rate_limit_cooldown = cooldown,
                 signatures = recent_signatures_new signature_retention\<rparr>)"

definition claim_signature :: "string \<Rightarrow> instant \<Rightarrow> discovery_rpc_gate \<Rightarrow> bool \<times> discovery_rpc_gate" where
  "claim_signature s now g =
     (let (ok, rs) = claim_at s now (signatures g) in (ok, g\<lparr>signatures := rs\<rparr>))"

text \<open>
  \<open>acquire\<close> in its two waiting points: taking a permit of the semaphore, possible when one is
  left, and one round of the pacing loop, which either reserves the start slot or says until when
  to sleep. A permit is given back when it is dropped.
\<close>

definition acquire_permit :: "discovery_rpc_gate \<Rightarrow> discovery_rpc_gate option" where
  "acquire_permit g = (if permits g = 0 then None else Some (g\<lparr>permits := permits g - 1\<rparr>))"

definition acquire_round :: "instant \<Rightarrow> discovery_rpc_gate \<Rightarrow> instant option \<times> discovery_rpc_gate" where
  "acquire_round now g =
     (let (wait, p) = reserve_if_ready now (request_interval g) (pacing g) in (wait, g\<lparr>pacing := p\<rparr>))"

definition release_permit :: "discovery_rpc_gate \<Rightarrow> discovery_rpc_gate" where
  "release_permit g = g\<lparr>permits := permits g + 1\<rparr>"

definition record_rate_limit :: "instant \<Rightarrow> discovery_rpc_gate \<Rightarrow> discovery_rpc_gate" where
  "record_rate_limit now g = g\<lparr>pacing := pacing_rate_limited now (rate_limit_cooldown g) (pacing g)\<rparr>"

section \<open>A signature is claimed once within its retention\<close>

text \<open>
  The reference: the list of granted claims, newest first. A claim is granted exactly when the
  signature was not granted within the last \<open>retention\<close> nanoseconds.
\<close>

definition recently_granted :: "nat \<Rightarrow> (instant \<times> string) list \<Rightarrow> string \<Rightarrow> instant \<Rightarrow> bool" where
  "recently_granted ret granted s now \<longleftrightarrow> list_ex (\<lambda>(t, s'). s' = s \<and> now < t + ret) granted"

lemma recently_granted_iff:
  "recently_granted ret granted s now \<longleftrightarrow> (\<exists>t. (t, s) \<in> set granted \<and> now < t + ret)"
  by (force simp: recently_granted_def list_ex_iff)

fun run_claims :: "(string \<times> instant) list \<Rightarrow> recent_signatures \<Rightarrow> bool list \<times> recent_signatures" where
  "run_claims [] rs = ([], rs)"
| "run_claims ((s, now) # cs) rs =
     (let (ok, rs1) = claim_at s now rs; (oks, rs2) = run_claims cs rs1 in (ok # oks, rs2))"

fun spec_claims :: "nat \<Rightarrow> (string \<times> instant) list \<Rightarrow> (instant \<times> string) list \<Rightarrow> bool list" where
  "spec_claims ret [] granted = []"
| "spec_claims ret ((s, now) # cs) granted =
     (let ok = \<not> recently_granted ret granted s now
      in ok # spec_claims ret cs (if ok then (now, s) # granted else granted))"

text \<open>The queue and the map agree with the granted claims that have not expired.\<close>

definition claims_match :: "recent_signatures \<Rightarrow> (instant \<times> string) list \<Rightarrow> instant \<Rightarrow> bool" where
  "claims_match rs granted now \<longleftrightarrow>
     sorted (map fst (expirations rs))
     \<and> (\<forall>(e, s)\<in>set (expirations rs). sig_values rs s = Some e)
     \<and> (\<forall>s e. sig_values rs s = Some e \<longrightarrow> (e, s) \<in> set (expirations rs)
          \<and> (\<exists>t. (t, s) \<in> set granted \<and> e = t + retention rs))
     \<and> (\<forall>(t, s)\<in>set granted. t \<le> now \<and> (now < t + retention rs \<longrightarrow> sig_values rs s = Some (t + retention rs)))
     \<and> (\<forall>(e, s)\<in>set (expirations rs). e \<le> now + retention rs)
     \<and> distinct (map snd (expirations rs))"

lemma expire_effect:
  assumes "sorted (map fst q)" and "\<forall>(e, s)\<in>set q. v s = Some e" and "distinct (map snd q)"
  shows "expire now q v = (filter (\<lambda>(e, s). now < e) q,
    \<lambda>s. case v s of None \<Rightarrow> None | Some e \<Rightarrow> if (e, s) \<in> set q \<and> e \<le> now then None else Some e)"
  using assms
proof (induction q arbitrary: v)
  case Nil
  then show ?case by (auto simp: fun_eq_iff split: option.splits)
next
  case (Cons a q)
  obtain e s where a: "a = (e, s)" by force
  have vs: "v s = Some e" using Cons.prems(2) a by simp
  show ?case
  proof (cases "now < e")
    case True
    then have later: "now < fst x" if "x \<in> set (a # q)" for x
      using Cons.prems(1) a that by auto
    then have "filter (\<lambda>(e, s). now < e) (a # q) = a # q" by (intro filter_True) fastforce
    moreover have "v = (\<lambda>s. case v s of None \<Rightarrow> None | Some e \<Rightarrow> if (e, s) \<in> set (a # q) \<and> e \<le> now then None else Some e)"
      using later by (fastforce simp: fun_eq_iff split: option.splits)
    ultimately show ?thesis using True a by simp
  next
    case False
    have keep: "\<forall>(e', s')\<in>set q. (v(s := None)) s' = Some e'"
      using Cons.prems(2,3) a by (force simp: image_iff)
    have "expire now q (v(s := None)) = (filter (\<lambda>(e, s). now < e) q,
        \<lambda>s'. case (v(s := None)) s' of None \<Rightarrow> None | Some e \<Rightarrow> if (e, s') \<in> set q \<and> e \<le> now then None else Some e)"
      by (rule Cons.IH [OF _ keep]) (use Cons.prems(1,3) a in simp_all)
    moreover have "(\<lambda>s'. case (v(s := None)) s' of None \<Rightarrow> None | Some e \<Rightarrow> if (e, s') \<in> set q \<and> e \<le> now then None else Some e)
        = (\<lambda>s'. case v s' of None \<Rightarrow> None | Some e \<Rightarrow> if (e, s') \<in> set (a # q) \<and> e \<le> now then None else Some e)"
      using False vs a by (auto simp: fun_eq_iff split: option.splits)
    ultimately show ?thesis using False vs a by simp
  qed
qed

text \<open>What expiring leaves: exactly the claims that are still retained.\<close>

lemma expire_match:
  assumes "claims_match rs granted now0" and "now0 \<le> now"
    and "expire now (expirations rs) (sig_values rs) = (q, v)"
  shows "claims_match (rs\<lparr>expirations := q, sig_values := v\<rparr>) granted now"
    and "v s \<noteq> None \<longleftrightarrow> recently_granted (retention rs) granted s now"
    and "q = filter (\<lambda>(e, s). now < e) (expirations rs)"
proof -
  note m = assms(1) [unfolded claims_match_def]
  have e: "q = filter (\<lambda>(e, s). now < e) (expirations rs)"
    "v = (\<lambda>s. case sig_values rs s of None \<Rightarrow> None
       | Some e \<Rightarrow> if (e, s) \<in> set (expirations rs) \<and> e \<le> now then None else Some e)"
    using expire_effect [of "expirations rs" "sig_values rs" now] m assms(3) by auto
  then show "q = filter (\<lambda>(e, s). now < e) (expirations rs)" by simp
  have v: "v s = (case sig_values rs s of None \<Rightarrow> None | Some e \<Rightarrow> if e \<le> now then None else Some e)" for s
    using m by (auto simp: e split: option.splits)
  have sorted: "sorted (map fst q)"
    unfolding e(1) using m by (simp add: sorted_filter)
  have dist: "distinct (map snd q)"
    unfolding e(1) using m by (simp add: distinct_map_filter)
  have old: "t \<le> now0" "now0 < t + retention rs \<Longrightarrow> sig_values rs s = Some (t + retention rs)"
    if "(t, s) \<in> set granted" for t s
    using m that by auto
  have granted: "t \<le> now \<and> (now < t + retention rs \<longrightarrow> v s = Some (t + retention rs))"
    if "(t, s) \<in> set granted" for t s
    using old [OF that] assms(2) by (auto simp: v)
  show "claims_match (rs\<lparr>expirations := q, sig_values := v\<rparr>) granted now"
    unfolding claims_match_def
    using sorted dist granted m assms(2) by (fastforce simp: v e(1) split: option.splits if_splits)
  show "v s \<noteq> None \<longleftrightarrow> recently_granted (retention rs) granted s now"
  proof
    assume "v s \<noteq> None"
    then obtain x where x: "sig_values rs s = Some x" "now < x"
      by (auto simp: v split: option.splits if_splits)
    then show "recently_granted (retention rs) granted s now"
      using m unfolding recently_granted_iff by blast
  next
    assume "recently_granted (retention rs) granted s now"
    then show "v s \<noteq> None" using granted unfolding recently_granted_iff by fastforce
  qed
qed

lemma claim_at_match:
  assumes "claims_match rs granted now0" and "now0 \<le> now" and "claim_at s now rs = (ok, rs')"
  shows "ok \<longleftrightarrow> \<not> recently_granted (retention rs) granted s now"
    and "claims_match rs' (if ok then (now, s) # granted else granted) now" and "retention rs' = retention rs"
proof -
  obtain q v where e: "expire now (expirations rs) (sig_values rs) = (q, v)" by force
  note x = expire_match [OF assms(1,2) e]
  show ok: "ok \<longleftrightarrow> \<not> recently_granted (retention rs) granted s now"
    using assms(3) x(2) [of s] by (auto simp: claim_at_def e Let_def split: if_splits)
  show "retention rs' = retention rs"
    using assms(3) by (auto simp: claim_at_def e Let_def split: if_splits)
  show "claims_match rs' (if ok then (now, s) # granted else granted) now"
  proof (cases ok)
    case False
    then show ?thesis using assms(3) x(1) by (auto simp: claim_at_def e Let_def split: if_splits)
  next
    case True
    then have rs': "rs' = rs\<lparr>expirations := q @ [(now + retention rs, s)], sig_values := v(s \<mapsto> now + retention rs)\<rparr>"
      and vs: "v s = None"
      using assms(3) by (auto simp: claim_at_def e Let_def split: if_splits)
    note m = x(1) [unfolded claims_match_def]
    have fresh: "s \<notin> snd ` set q" using m vs by force
    have sorted: "sorted (map fst (q @ [(now + retention rs, s)]))"
      using m by (auto simp: sorted_append)
    have "t + retention rs \<le> now" if "(t, s) \<in> set granted" for t
      using m vs that by force
    then show ?thesis
      unfolding claims_match_def rs' using True m sorted fresh
      by (force simp: image_iff)
  qed
qed

lemma run_claims_match:
  "claims_match rs granted now0 \<Longrightarrow> sorted (now0 # map snd cs) \<Longrightarrow>
     fst (run_claims cs rs) = spec_claims (retention rs) cs granted"
proof (induction cs arbitrary: rs granted now0)
  case (Cons c cs)
  obtain s now where c: "c = (s, now)" by force
  obtain ok rs' where claim: "claim_at s now rs = (ok, rs')" by force
  have le: "now0 \<le> now" using Cons.prems(2) c by simp
  note m = claim_at_match [OF Cons.prems(1) le claim]
  have "fst (run_claims cs rs') = spec_claims (retention rs') cs (if ok then (now, s) # granted else granted)"
    by (rule Cons.IH [OF m(2)]) (use Cons.prems(2) c in simp)
  then show ?case using m(1,3) claim by (simp add: c Let_def split_beta)
qed simp

text \<open>
  A signature is claimed once within its retention. For any sequence of claims at nondecreasing
  instants, the queue and the map answer exactly as the list of all granted claims would: a claim
  succeeds if and only if the same signature was not granted within the retention before it.
\<close>

theorem claims_refine_history:
  assumes "sorted (map snd cs)"
  shows "fst (run_claims cs (recent_signatures_new ret)) = spec_claims ret cs []"
proof -
  have "claims_match (recent_signatures_new ret) [] 0"
    by (simp add: claims_match_def recent_signatures_new_def)
  from run_claims_match [OF this, of cs] assms show ?thesis by (simp add: recent_signatures_new_def)
qed

theorem claims_refine_history_witness:
  "fst (run_claims [(''a'', 0), (''b'', 1), (''a'', 2), (''a'', 5), (''b'', 5)] (recent_signatures_new 5))
     = [True, True, False, True, False]"
  using claims_refine_history [of "[(''a'', 0), (''b'', 1), (''a'', 2), (''a'', 5), (''b'', 5)]" 5]
  by (simp add: recently_granted_def Let_def)

section \<open>Request starts are paced\<close>

datatype gate_event = AcquireRound instant | RateLimitResponse instant

text \<open>The instants at which a start slot was reserved, over any sequence of rounds and rate limits.\<close>

fun gate_starts :: "gate_event list \<Rightarrow> discovery_rpc_gate \<Rightarrow> instant list" where
  "gate_starts [] g = []"
| "gate_starts (AcquireRound now # es) g =
     (case acquire_round now g of
        (None, g') \<Rightarrow> now # gate_starts es g'
      | (Some _, g') \<Rightarrow> gate_starts es g')"
| "gate_starts (RateLimitResponse now # es) g = gate_starts es (record_rate_limit now g)"

fun gate_after :: "gate_event list \<Rightarrow> discovery_rpc_gate \<Rightarrow> discovery_rpc_gate" where
  "gate_after [] g = g"
| "gate_after (AcquireRound now # es) g = gate_after es (snd (acquire_round now g))"
| "gate_after (RateLimitResponse now # es) g = gate_after es (record_rate_limit now g)"

definition not_before :: "discovery_rpc_gate \<Rightarrow> instant \<Rightarrow> bool" where
  "not_before g x \<longleftrightarrow>
     (\<forall>a. next_allowed (pacing g) = Some a \<longrightarrow> a \<le> x) \<and> (\<forall>c. cooldown_until (pacing g) = Some c \<longrightarrow> c \<le> x)"

lemma ready_at_le: "ready_at now p \<le> now \<longleftrightarrow>
    (\<forall>a. next_allowed p = Some a \<longrightarrow> a \<le> now) \<and> (\<forall>c. cooldown_until p = Some c \<longrightarrow> c \<le> now)"
  by (auto simp: ready_at_def split: option.splits)

lemma reserve_if_ready_cases:
  "reserve_if_ready now i p =
     (if ready_at now p \<le> now then (None, \<lparr>next_allowed = Some (now + i), cooldown_until = None\<rparr>)
      else (Some (ready_at now p), p))"
  using ready_at_le [of now p]
  by (cases p) (auto simp: reserve_if_ready_def Let_def split: option.splits)

lemma acquire_round_None:
  "acquire_round now g = (None, g') \<longleftrightarrow> not_before g now
     \<and> g' = g\<lparr>pacing := \<lparr>next_allowed = Some (now + request_interval g), cooldown_until = None\<rparr>\<rparr>"
  unfolding not_before_def ready_at_le [symmetric]
  by (auto simp: acquire_round_def reserve_if_ready_cases)

lemma acquire_round_Some: "acquire_round now g = (Some w, g') \<Longrightarrow> g' = g"
  by (auto simp: acquire_round_def reserve_if_ready_def Let_def split: if_splits)

lemma record_rate_limit_fields [simp]:
  "request_interval (record_rate_limit now g) = request_interval g"
  "next_allowed (pacing (record_rate_limit now g)) = next_allowed (pacing g)"
  by (simp_all add: record_rate_limit_def pacing_rate_limited_def Let_def)

lemma record_rate_limit_later: "not_before (record_rate_limit now g) x \<Longrightarrow> not_before g x \<and> now + rate_limit_cooldown g \<le> x"
  by (auto simp: not_before_def record_rate_limit_def pacing_rate_limited_def Let_def split: option.splits)

lemma gate_starts_not_before: "x \<in> set (gate_starts es g) \<Longrightarrow> not_before g x"
proof (induction es g rule: gate_starts.induct)
  case (2 now es g)
  show ?case
  proof (cases "acquire_round now g")
    case (Pair w g')
    show ?thesis
    proof (cases w)
      case None
      note n = Pair [unfolded None acquire_round_None]
      have "x = now \<or> now + request_interval g \<le> x"
        using 2 Pair None n by (auto simp: not_before_def)
      then show ?thesis using n by (auto simp: not_before_def)
    next
      case (Some _)
      then show ?thesis using 2 Pair acquire_round_Some by fastforce
    qed
  qed
qed (auto dest: record_rate_limit_later)

lemma gate_after_fields [simp]:
  "request_interval (gate_after es g) = request_interval g"
  "rate_limit_cooldown (gate_after es g) = rate_limit_cooldown g"
  by (induction es g rule: gate_after.induct)
     (auto simp: acquire_round_def record_rate_limit_def Let_def split: prod.splits)

lemma gate_starts_append: "gate_starts (es @ fs) g = gate_starts es g @ gate_starts fs (gate_after es g)"
  by (induction es g rule: gate_starts.induct) (auto split: prod.splits option.splits)

lemma gate_starts_spaced: "sorted_wrt (\<lambda>x y. x + request_interval g \<le> y) (gate_starts es g)"
proof (induction es g rule: gate_starts.induct)
  case (2 now es g)
  obtain w g' where r: "acquire_round now g = (w, g')" by force
  show ?case
  proof (cases w)
    case None
    note g' = r [unfolded None acquire_round_None]
    have "now + request_interval g \<le> x" if "x \<in> set (gate_starts es g')" for x
      using gate_starts_not_before [OF that] g' by (simp add: not_before_def)
    then show ?thesis using 2(1) [OF r [symmetric] None] r None g' by simp
  next
    case (Some v)
    then show ?thesis using 2(2) [OF r [symmetric] Some] r acquire_round_Some by fastforce
  qed
qed simp_all

lemma spaced_nth:
  assumes "sorted_wrt (\<lambda>x y. x + i \<le> y) xs" and "k + d < length xs"
  shows "xs ! k + d * i \<le> (xs ! (k + d) :: nat)"
  using assms(2)
proof (induction d)
  case (Suc d)
  have "xs ! (k + d) + i \<le> xs ! (k + Suc d)"
    using sorted_wrt_nth_less [OF assms(1), of "k + d" "k + Suc d"] Suc.prems by simp
  then show ?case using Suc by simp
qed simp

lemma spaced_count:
  assumes "sorted_wrt (\<lambda>x y. x + i \<le> y) xs" and "\<forall>x\<in>set xs. a \<le> x \<and> x < a + w" and "xs \<noteq> []"
  shows "(length xs - 1) * i < (w :: nat)"
proof -
  have "xs ! 0 + (length xs - 1) * i \<le> xs ! (length xs - 1)"
    using spaced_nth [OF assms(1), of 0 "length xs - 1"] assms(3) by (cases xs) simp_all
  moreover have "a \<le> xs ! 0" "xs ! (length xs - 1) < a + w"
    using assms(2,3) by (simp_all add: nth_mem)
  ultimately show ?thesis by linarith
qed

text \<open>
  Request starts are paced. Over any sequence of acquire rounds and rate-limit responses, in
  any interleaving, each start comes at least the request interval after the one before it, and no
  start comes within the cool-down after a rate-limit response.
\<close>

theorem request_starts_paced:
  "sorted_wrt (\<lambda>x y. x + request_interval g \<le> y) (gate_starts (es @ RateLimitResponse now # fs) g)
   \<and> (\<exists>later. gate_starts (es @ RateLimitResponse now # fs) g = gate_starts es g @ later
        \<and> list_all (\<lambda>x. now + rate_limit_cooldown g \<le> x) later)"
  using gate_starts_spaced [of g "es @ RateLimitResponse now # fs"]
  by (auto simp: gate_starts_append list_all_iff
      dest!: gate_starts_not_before [THEN record_rate_limit_later])

text \<open>
  The request rate is bounded. A gate built for a number of requests per second starts at most
  one more than that many requests in any second, and no more than that many when the number divides
  a second into whole nanoseconds.
\<close>

theorem request_rate_bounded:
  fixes a :: nat and es :: "gate_event list"
  assumes "gate_new maximum_in_flight rps cooldown ret = Some g" and "rps * rps \<le> NANOS_PER_SECOND"
  defines "starts \<equiv> filter (\<lambda>x. a \<le> x \<and> x < a + NANOS_PER_SECOND) (gate_starts es g)"
  shows "length starts \<le> rps + 1 \<and> (rps dvd NANOS_PER_SECOND \<longrightarrow> length starts \<le> rps)"
proof (cases "starts = []")
  case False
  let ?i = "NANOS_PER_SECOND div rps"
  have rps: "0 < rps" using assms(1) by (auto simp: gate_new_def split: if_splits)
  have "rps \<le> 1000000000"
  proof -
    have "rps \<le> rps * rps" by simp
    with assms(2) have "rps \<le> NANOS_PER_SECOND" by (rule order.trans [rotated])
    then show ?thesis by (simp add: NANOS_PER_SECOND_def)
  qed
  then have i: "request_interval g = ?i"
    using assms(1) by (auto simp: gate_new_def split: if_splits)
  have "sorted_wrt (\<lambda>x y. x + ?i \<le> y) starts"
    unfolding starts_def i [symmetric] by (rule sorted_wrt_filter [OF gate_starts_spaced])
  then have c: "(length starts - 1) * ?i < NANOS_PER_SECOND"
    by (rule spaced_count [where a = a]) (use False in \<open>auto simp: starts_def\<close>)
  have mod: "rps * ?i + NANOS_PER_SECOND mod rps = NANOS_PER_SECOND" by simp
  have big: "rps \<le> ?i" using assms(2) rps by (simp add: less_eq_div_iff_mult_less_eq)
  have "NANOS_PER_SECOND mod rps < rps" using rps by simp
  moreover have "(rps + 1) * ?i = rps * ?i + ?i" by simp
  ultimately have "NANOS_PER_SECOND < (rps + 1) * ?i" using mod big by linarith
  with c have "(length starts - 1) * ?i < (rps + 1) * ?i" by linarith
  then have "length starts - 1 < rps + 1" using mult_less_cancel2 by blast
  moreover have "length starts \<le> rps" if "rps dvd NANOS_PER_SECOND"
  proof -
    have "rps * ?i = NANOS_PER_SECOND" using that by simp
    with c have "(length starts - 1) * ?i < rps * ?i" by simp
    then have "length starts - 1 < rps" using mult_less_cancel2 by blast
    then show ?thesis using False by (cases starts) simp_all
  qed
  ultimately show ?thesis by simp
qed simp

theorem request_rate_bounded_witness:
  "\<exists>g. gate_new 2 20 5 7 = Some g
     \<and> length (filter (\<lambda>x. 0 \<le> x \<and> x < 0 + NANOS_PER_SECOND)
         (gate_starts [AcquireRound 0, AcquireRound 1, AcquireRound 50000000] g)) \<le> 20"
proof -
  obtain g where g: "gate_new 2 20 5 7 = Some g" by (simp add: gate_new_def)
  have "(20 :: nat) dvd NANOS_PER_SECOND" unfolding NANOS_PER_SECOND_def by (rule dvdI [of _ _ 50000000]) simp
  then show ?thesis
    using request_rate_bounded [OF g, of 0 "[AcquireRound 0, AcquireRound 1, AcquireRound 50000000]"] g
    by (auto simp: NANOS_PER_SECOND_def)
qed

end
