(* ===== verification/Collector.thy ===== *)
theory Collector
  imports Intake Discovery_Rpc
begin

text \<open>
  The live collector, \<open>apps/server/src/jobs/collector.rs\<close>: batches and the guards that own
  admissions, the task that turns one notification into batches, and the loop that reconnects a
  source.

  The task \<open>collect_live_notification\<close> is an \<open>async\<close> function. The model cuts it at its waiting
  points: \<open>collect_begin\<close> runs to the first of them, the functions after it run from one waiting
  point to the next, and \<open>collect_drop\<close> is what happens when the future is dropped while it
  waits. Clock readings are arguments. Channels, tracing and the HTTP client are outside: their
  answers are arguments too, and the health updates that the task sends are recorded in its state.
\<close>

section \<open>Configuration and records\<close>

record collector_runtime_config =
  col_network :: network
  col_commitment :: commitment
  reconnect_delay :: duration
  request_timeout :: duration
  rpc_max_in_flight :: usize
  notification_processing_capacity :: usize
  subscription_idle_timeout :: duration
  maximum_discovery_age :: duration
  observation_window_duration :: duration

record program_log_batch =
  batch_purpose_of :: batch_purpose
  batch_slot :: u64
  batch_transaction_index :: "u64 option"
  batch_signature :: string
  batch_received_time :: i64
  batch_instructions :: "transaction_instruction_record list"
  batch_log_messages :: "string list"
  batch_transaction_error :: "string option"
  window_tokens :: "token list"
  processing_succeeded :: bool

datatype source_connection_state = Connecting | Ready | Disconnected

record source_connection_update =
  update_source_program :: source_program
  update_state :: source_connection_state

datatype discovery_rpc_health_update = HealthFailed | HealthRateLimited | HealthSuccessful

datatype collector_error = ProcessingQueueClosed

record received_notification =
  received_note :: program_log_notification
  received_time :: i64

datatype live_source_exit = ExitSubscription rpc_error | ExitEnded

datatype live_notification_outcome =
    OutcomeBatches "program_log_batch list"
  | OutcomeSkipped
  | OutcomeSubscription rpc_error

section \<open>Batches and guards\<close>

definition settle :: "token \<Rightarrow> registry \<Rightarrow> registry" where
  "settle t r = update_cell (snd \<circ> mark_settled) t r"

definition fail_and_settle :: "token \<Rightarrow> registry \<Rightarrow> registry" where
  "fail_and_settle t r = settle t (update_cell (snd \<circ> mark_incomplete ProcessingFailed) t r)"

text \<open>\<open>Drop for ProgramLogBatch\<close>\<close>

definition batch_drop :: "program_log_batch \<Rightarrow> registry \<Rightarrow> registry" where
  "batch_drop b r =
     fold (\<lambda>t. if processing_succeeded b then settle t else fail_and_settle t) (window_tokens b) r"

definition mark_processing_succeeded :: "program_log_batch \<Rightarrow> program_log_batch" where
  "mark_processing_succeeded b = b\<lparr>processing_succeeded := True\<rparr>"

record tracked_admission_guard =
  tracked_tokens :: "token list"

definition tracked_guard_new :: "token list \<Rightarrow> tracked_admission_guard" where
  "tracked_guard_new ts = \<lparr>tracked_tokens = ts\<rparr>"

definition tracked_guard_drop :: "tracked_admission_guard \<Rightarrow> registry \<Rightarrow> registry" where
  "tracked_guard_drop g r = fold fail_and_settle (tracked_tokens g) r"

record provisional_window_guard =
  provisions :: "window_provision list"
  armed :: bool

definition new_tokens :: "window_provision list \<Rightarrow> token list" where
  "new_tokens ps = map prov_token (filter newly_opened ps)"

definition guard_admit :: "token \<Rightarrow> registry \<Rightarrow> registry" where
  "guard_admit t r =
     (if fst (mark_admitted (cell_of r t)) then update_cell (snd \<circ> mark_admitted) t r
      else update_cell (cancel_with_reason QueueOverflow) t r)"

definition provisional_guard_new ::
    "window_provision list \<Rightarrow> registry \<Rightarrow> provisional_window_guard \<times> registry" where
  "provisional_guard_new ps r = (\<lparr>provisions = ps, armed = True\<rparr>, fold guard_admit (new_tokens ps) r)"

definition has_new_open_token_at :: "provisional_window_guard \<Rightarrow> registry \<Rightarrow> i64 \<Rightarrow> bool" where
  "has_new_open_token_at g r observed_at \<longleftrightarrow>
     list_ex (\<lambda>p. newly_opened p
        \<and> is_open_at (tok_window (prov_token p)) (cell_of r (prov_token p)) observed_at) (provisions g)"

text \<open>\<open>into_new_tokens\<close> consumes the guard disarmed, so that its drop does nothing.\<close>

definition into_new_tokens :: "provisional_window_guard \<Rightarrow> token list" where
  "into_new_tokens g = new_tokens (provisions g)"

definition cancel_new_provisions :: "window_provision list \<Rightarrow> registry \<Rightarrow> registry" where
  "cancel_new_provisions ps r = fold (update_cell cancel_if_pending) (new_tokens ps) r"

definition provisional_guard_drop :: "provisional_window_guard \<Rightarrow> registry \<Rightarrow> registry" where
  "provisional_guard_drop g r =
     (if armed g then fold settle (new_tokens (provisions g)) (cancel_new_provisions (provisions g) r)
      else r)"

definition transaction_batch ::
    "transaction_record \<Rightarrow> i64 \<Rightarrow> batch_purpose \<Rightarrow> token list \<Rightarrow> program_log_batch" where
  "transaction_batch tx received purpose tokens =
     \<lparr>batch_purpose_of = purpose, batch_slot = tx_slot tx,
      batch_transaction_index = tx_transaction_index tx, batch_signature = tx_signature tx,
      batch_received_time = received, batch_instructions = tx_instructions tx,
      batch_log_messages = tx_log_messages tx, batch_transaction_error = tx_transaction_error tx,
      window_tokens = tokens, processing_succeeded = False\<rparr>"

definition notification_batch ::
    "received_notification \<Rightarrow> batch_purpose \<Rightarrow> token list \<Rightarrow> program_log_batch" where
  "notification_batch received purpose tokens =
     \<lparr>batch_purpose_of = purpose, batch_slot = note_slot (received_note received),
      batch_transaction_index = None, batch_signature = note_signature (received_note received),
      batch_received_time = received_time received, batch_instructions = [],
      batch_log_messages = note_log_messages (received_note received),
      batch_transaction_error = note_transaction_error (received_note received),
      window_tokens = tokens, processing_succeeded = False\<rparr>"

definition tracked_activity_or_skip ::
    "received_notification \<Rightarrow> tracked_admission_guard \<Rightarrow> live_notification_outcome" where
  "tracked_activity_or_skip received g =
     (if tracked_tokens g = [] then OutcomeSkipped
      else OutcomeBatches [notification_batch received TrackedActivity (tracked_tokens g)])"

definition discovery_admission_timeout ::
    "discovery_seed list \<Rightarrow> duration \<Rightarrow> i64 \<Rightarrow> i64 \<Rightarrow> duration option" where
  "discovery_admission_timeout seeds maximum_age received now =
     (if seeds = [] then None
      else
        let deadlines = map (\<lambda>seed. saturating_add_i64 (seed_source_event_time_unix_ms seed)
              (duration_ms maximum_age)) seeds;
            source_deadline = Max (set deadlines);
            receipt_deadline = saturating_add_i64 received (duration_ms maximum_age);
            deadline = min source_deadline receipt_deadline
        in case checked_sub_i64 deadline now of
             None \<Rightarrow> None
           | Some remaining \<Rightarrow> if 0 < remaining then Some (nat remaining) else None)"

section \<open>The task of one notification\<close>

record collector_state =
  col_windows :: registry
  col_gate :: discovery_rpc_gate
  col_health :: "discovery_rpc_health_update list"

text \<open>The locals that live across the waiting points.\<close>

record collect_frame =
  frame_received :: received_notification
  frame_guard :: provisional_window_guard
  frame_tracked :: tracked_admission_guard
  frame_timeout :: duration

datatype collect_task =
    AwaitingPermit collect_frame
  | AwaitingSlot collect_frame
  | AwaitingTransaction collect_frame

datatype collect_progress = Finished live_notification_outcome | Suspended collect_task

definition on_windows :: "(registry \<Rightarrow> registry) \<Rightarrow> collector_state \<Rightarrow> collector_state" where
  "on_windows f st = st\<lparr>col_windows := f (col_windows st)\<rparr>"

definition on_gate :: "(discovery_rpc_gate \<Rightarrow> discovery_rpc_gate) \<Rightarrow> collector_state \<Rightarrow> collector_state" where
  "on_gate f st = st\<lparr>col_gate := f (col_gate st)\<rparr>"

definition send_health :: "discovery_rpc_health_update \<Rightarrow> collector_state \<Rightarrow> collector_state" where
  "send_health u st = st\<lparr>col_health := col_health st @ [u]\<rparr>"

fun provision_seeds ::
    "discovery_seed list \<Rightarrow> i64 \<Rightarrow> duration \<Rightarrow> registry \<Rightarrow> window_provision list \<times> registry" where
  "provision_seeds [] received d r = ([], r)"
| "provision_seeds (seed # seeds) received d r =
     (let (p, r1) = provision_target r (seed_target seed) (seed_mint seed) received d;
          (ps, r2) = provision_seeds seeds received d r1
      in (p # ps, r2))"

text \<open>
  Every early return of the task after the guard exists: the tracked tokens go into a batch and
  the guard is dropped.
\<close>

definition return_tracked :: "collect_frame \<Rightarrow> collector_state \<Rightarrow> collect_progress \<times> collector_state" where
  "return_tracked f st =
     (Finished (tracked_activity_or_skip (frame_received f) (frame_tracked f)),
      on_windows (provisional_guard_drop (frame_guard f)) st)"

definition collect_discovery ::
    "collector_runtime_config \<Rightarrow> received_notification \<Rightarrow> discovery_seed list \<Rightarrow> tracked_admission_guard
      \<Rightarrow> i64 \<Rightarrow> instant \<Rightarrow> collector_state \<Rightarrow> collect_progress \<times> collector_state" where
  "collect_discovery config received seeds tracked now claimed_at st =
     (let (claimed, gate) = claim_signature (note_signature (received_note received)) claimed_at (col_gate st);
          st1 = st\<lparr>col_gate := gate\<rparr> in
      if \<not> claimed then (Finished (tracked_activity_or_skip received tracked), st1)
      else
        let timeout = discovery_admission_timeout seeds (maximum_discovery_age config)
              (received_time received) now;
            (ps, r1) = provision_seeds seeds (received_time received)
              (observation_window_duration config) (col_windows st1);
            (guard, r2) = provisional_guard_new ps r1;
            st2 = st1\<lparr>col_windows := r2\<rparr>;
            frame = \<lparr>frame_received = received, frame_guard = guard, frame_tracked = tracked,
                     frame_timeout = (case timeout of None \<Rightarrow> 0 | Some d \<Rightarrow> d)\<rparr> in
        if timeout = None \<or> \<not> has_new_open_token_at guard r2 (received_time received)
        then return_tracked frame st2
        else (Suspended (AwaitingPermit frame), st2))"

definition collect_begin ::
    "(string \<Rightarrow> ('b, u8 list) result) \<Rightarrow> collector_runtime_config \<Rightarrow> pump_program \<Rightarrow> received_notification
      \<Rightarrow> i64 \<Rightarrow> i64 \<Rightarrow> instant \<Rightarrow> collector_state \<Rightarrow> (collect_progress \<times> collector_state) option" where
  "collect_begin base64_decode config program received now_classified now claimed_at st =
     (let st1 = on_windows (\<lambda>r. record_source_progress r (pump_source_program program)
            (received_time received)) st in
      case classify_notification base64_decode (received_note received) (col_windows st1)
             (col_network config) (maximum_discovery_age config) (received_time received) now_classified of
        None \<Rightarrow> None
      | Some (disposition, r) \<Rightarrow>
          let st2 = st1\<lparr>col_windows := r\<rparr> in
          Some (case disposition of
             DropNotification _ \<Rightarrow> (Finished OutcomeSkipped, st2)
           | CollectTrackedActivity tokens \<Rightarrow>
               (Finished (tracked_activity_or_skip received (tracked_guard_new tokens)), st2)
           | FetchDiscovery seeds tokens \<Rightarrow>
               collect_discovery config received seeds (tracked_guard_new tokens) now claimed_at st2))"

text \<open>The waiting points: a permit of the semaphore, a start slot, and the transaction.\<close>

definition collect_permit :: "collect_frame \<Rightarrow> collector_state \<Rightarrow> collect_progress \<times> collector_state" where
  "collect_permit f st =
     (case acquire_permit (col_gate st) of
        None \<Rightarrow> (Suspended (AwaitingPermit f), st)
      | Some gate \<Rightarrow> (Suspended (AwaitingSlot f), st\<lparr>col_gate := gate\<rparr>))"

definition collect_slot :: "instant \<Rightarrow> collect_frame \<Rightarrow> collector_state \<Rightarrow> collect_progress \<times> collector_state" where
  "collect_slot now f st =
     (let (wait, gate) = acquire_round now (col_gate st); st1 = st\<lparr>col_gate := gate\<rparr> in
      case wait of
        Some _ \<Rightarrow> (Suspended (AwaitingSlot f), st1)
      | None \<Rightarrow>
          if has_new_open_token_at (frame_guard f) (col_windows st1) (received_time (frame_received f))
          then (Suspended (AwaitingTransaction f), st1)
          else return_tracked f (on_gate release_permit st1))"

datatype fetch_result =
    Fetched "transaction_record option"
  | FetchFailed rpc_error
  | FetchTimedOut

definition collect_matched :: "transaction_record \<Rightarrow> collect_frame \<Rightarrow> live_notification_outcome" where
  "collect_matched tx f =
     OutcomeBatches
       (transaction_batch tx (received_time (frame_received f)) Discovery (into_new_tokens (frame_guard f))
        # (if tracked_tokens (frame_tracked f) = [] then []
           else [transaction_batch tx (received_time (frame_received f)) TrackedActivity
                   (tracked_tokens (frame_tracked f))]))"

definition collect_transaction ::
    "instant \<Rightarrow> fetch_result \<Rightarrow> collect_frame \<Rightarrow> collector_state \<Rightarrow> collect_progress \<times> collector_state" where
  "collect_transaction now result f st =
     (let done = on_gate release_permit; note = received_note (frame_received f) in
      case result of
        Fetched (Some tx) \<Rightarrow>
          if tx_slot tx \<noteq> note_slot note \<or> tx_signature tx \<noteq> note_signature note \<or> \<not> transaction_succeeded tx
          then return_tracked f (done (send_health HealthFailed st))
          else (Finished (collect_matched tx f), done (send_health HealthSuccessful st))
      | Fetched None \<Rightarrow> return_tracked f (done (send_health HealthFailed st))
      | FetchFailed error \<Rightarrow>
          if error = RpcRateLimited
          then return_tracked f (done (send_health HealthRateLimited (on_gate (record_rate_limit now) st)))
          else return_tracked f (done (send_health HealthFailed st))
      | FetchTimedOut \<Rightarrow> return_tracked f (done (send_health HealthFailed st)))"

text \<open>The admission timeout fires while the task waits for a permit or a slot.\<close>

fun collect_timeout :: "collect_task \<Rightarrow> collector_state \<Rightarrow> collect_progress \<times> collector_state" where
  "collect_timeout (AwaitingPermit f) st = return_tracked f st"
| "collect_timeout (AwaitingSlot f) st = return_tracked f (on_gate release_permit st)"
| "collect_timeout (AwaitingTransaction f) st = (Suspended (AwaitingTransaction f), st)"

fun task_frame :: "collect_task \<Rightarrow> collect_frame" where
  "task_frame (AwaitingPermit f) = f"
| "task_frame (AwaitingSlot f) = f"
| "task_frame (AwaitingTransaction f) = f"

fun holds_permit :: "collect_task \<Rightarrow> bool" where
  "holds_permit (AwaitingPermit _) = False"
| "holds_permit (AwaitingSlot _) = True"
| "holds_permit (AwaitingTransaction _) = True"

text \<open>The future is dropped at a waiting point: its locals are.\<close>

definition collect_drop :: "collect_task \<Rightarrow> collector_state \<Rightarrow> collector_state" where
  "collect_drop task st =
     (let f = task_frame task in
      on_windows (tracked_guard_drop (frame_tracked f) \<circ> provisional_guard_drop (frame_guard f))
        (if holds_permit task then on_gate release_permit st else st))"

section \<open>The source loop\<close>

definition MAX_PUBSUB_RECONNECT_DELAY :: duration where
  "MAX_PUBSUB_RECONNECT_DELAY = 30000"

text \<open>
  The multiplication saturates at the longest duration there is, which changes nothing below the
  minimum that follows it.
\<close>

definition next_reconnect_delay :: "duration \<Rightarrow> duration \<Rightarrow> duration" where
  "next_reconnect_delay current configured_minimum =
     min (current * 2) (max MAX_PUBSUB_RECONNECT_DELAY configured_minimum)"

text \<open>
  One round of \<open>run_program_source\<close> that is not cancelled: the subscription fails, times out, or
  is served for some time and then ends.
\<close>

datatype source_attempt = SubscribeFailed rpc_error | SubscribeTimedOut | Served duration live_source_exit

definition source_round ::
    "collector_runtime_config \<Rightarrow> source_attempt \<Rightarrow> duration
      \<Rightarrow> source_connection_state list \<times> duration \<times> duration" where
  "source_round config attempt delay =
     (case attempt of
        Served elapsed exit' \<Rightarrow>
          let delay1 = (if subscription_idle_timeout config \<le> elapsed then reconnect_delay config else delay)
          in ([Connecting, Ready, Disconnected], delay1, next_reconnect_delay delay1 (reconnect_delay config))
      | _ \<Rightarrow> ([Connecting, Disconnected], delay, next_reconnect_delay delay (reconnect_delay config)))"

fun source_waits :: "collector_runtime_config \<Rightarrow> source_attempt list \<Rightarrow> duration \<Rightarrow> duration list" where
  "source_waits config [] delay = []"
| "source_waits config (a # as) delay =
     (let (_, wait, delay') = source_round config a delay in wait # source_waits config as delay')"

end
