(* ===== verification/Pending_Activity.thy ===== *)
theory Pending_Activity
  imports Collector
begin

text \<open>
  The bounded holding area for activity whose provisional window is not yet resolved,
  \<open>apps/server/src/jobs/pending_activity.rs\<close>. A batch that is refused is dropped on return, after
  its windows have been cancelled.
\<close>

record pending_activity_batch =
  pending_batch :: program_log_batch
  release_at_unix_ms :: i64

record pending_activity_queue =
  queue_capacity :: usize
  maximum_hold :: duration
  pending_batches :: "pending_activity_batch list"

datatype pending_activity_admission = AdmissionReady program_log_batch | AdmissionDeferred | AdmissionDropped

definition pending_queue_new :: "usize \<Rightarrow> duration \<Rightarrow> pending_activity_queue option" where
  "pending_queue_new capacity hold =
     (if capacity = 0 \<or> hold = 0 then None
      else Some \<lparr>queue_capacity = capacity, maximum_hold = hold, pending_batches = []\<rparr>)"

definition has_pending_token :: "registry \<Rightarrow> program_log_batch \<Rightarrow> bool" where
  "has_pending_token r b \<longleftrightarrow> list_ex (\<lambda>t. token_status (cell_of r t) = WindowPending) (window_tokens b)"

definition pending_admit ::
    "program_log_batch \<Rightarrow> i64 \<Rightarrow> pending_activity_queue \<Rightarrow> registry
      \<Rightarrow> pending_activity_admission \<times> pending_activity_queue \<times> registry" where
  "pending_admit b now q r =
     (if batch_purpose_of b \<noteq> TrackedActivity \<or> \<not> has_pending_token r b then (AdmissionReady b, q, r)
      else if queue_capacity q \<le> length (pending_batches q)
      then (AdmissionDropped, q,
            batch_drop b (fold (update_cell (cancel_with_reason QueueOverflow)) (window_tokens b) r))
      else (AdmissionDeferred,
            q\<lparr>pending_batches := pending_batches q
               @ [\<lparr>pending_batch = b, release_at_unix_ms = saturating_add_i64 now (duration_ms (maximum_hold q))\<rparr>]\<rparr>,
            r))"

text \<open>The loop that rotates the queue once, with a counter.\<close>

fun drain_loop ::
    "nat \<Rightarrow> i64 \<Rightarrow> registry \<Rightarrow> pending_activity_batch list \<Rightarrow> program_log_batch list
      \<Rightarrow> pending_activity_batch list \<times> program_log_batch list" where
  "drain_loop 0 now r q ready = (q, ready)"
| "drain_loop (Suc n) now r q ready =
     (case q of
        [] \<Rightarrow> ([], ready)
      | p # q' \<Rightarrow>
          if has_pending_token r (pending_batch p) \<and> now < release_at_unix_ms p
          then drain_loop n now r (q' @ [p]) ready
          else drain_loop n now r q' (ready @ [pending_batch p]))"

definition drain_resolved ::
    "i64 \<Rightarrow> registry \<Rightarrow> pending_activity_queue \<Rightarrow> program_log_batch list \<times> pending_activity_queue" where
  "drain_resolved now r q =
     (let (left, ready) = drain_loop (length (pending_batches q)) now r (pending_batches q) []
      in (ready, q\<lparr>pending_batches := left\<rparr>))"

section \<open>Draining keeps the order and waits for nothing forever\<close>

definition held_back :: "i64 \<Rightarrow> registry \<Rightarrow> pending_activity_batch \<Rightarrow> bool" where
  "held_back now r p \<longleftrightarrow> has_pending_token r (pending_batch p) \<and> now < release_at_unix_ms p"

lemma drain_loop_rotates:
  "drain_loop (length xs) now r (xs @ ys) ready =
     (ys @ filter (held_back now r) xs, ready @ map pending_batch (filter (\<lambda>p. \<not> held_back now r p) xs))"
proof (induction xs arbitrary: ys ready)
  case (Cons x xs)
  show ?case using Cons.IH [of "ys @ [x]" ready] Cons.IH [of ys "ready @ [pending_batch x]"]
    by (simp add: held_back_def)
qed simp

lemma drain_resolved_filter:
  "drain_resolved now r q =
     (map pending_batch (filter (\<lambda>p. \<not> held_back now r p) (pending_batches q)),
      q\<lparr>pending_batches := filter (held_back now r) (pending_batches q)\<rparr>)"
  using drain_loop_rotates [of "pending_batches q" now r "[]" "[]"] by (simp add: drain_resolved_def)

end
