(* ===== verification/Collector_Correct.thy ===== *)
theory Collector_Correct
  imports Ledger Pending_Activity
begin

text \<open>
  The collector never loses an admission. Every guard, task and batch is an owner in the sense of
  the ledger, and each function of the collector accounts for what it takes over, hands on and
  releases. From that follows that a window cannot stay unsettled once the work in flight is gone,
  that work which is dropped without being processed leaves its windows incomplete, and that the
  requests in flight never exceed the permits.
\<close>

section \<open>Owners\<close>

definition owed_guard :: "provisional_window_guard \<Rightarrow> nat multiset" where
  "owed_guard g = (if armed g then owed_by (new_tokens (provisions g)) else {#})"

abbreviation owed_batch :: "program_log_batch \<Rightarrow> nat multiset" where
  "owed_batch b \<equiv> owed_by (window_tokens b)"

abbreviation owed_tracked :: "tracked_admission_guard \<Rightarrow> nat multiset" where
  "owed_tracked g \<equiv> owed_by (tracked_tokens g)"

definition owed_frame :: "collect_frame \<Rightarrow> nat multiset" where
  "owed_frame f = owed_guard (frame_guard f) + owed_tracked (frame_tracked f)"

definition owed_batches :: "program_log_batch list \<Rightarrow> nat multiset" where
  "owed_batches bs = sum_list (map owed_batch bs)"

fun owed_outcome :: "live_notification_outcome \<Rightarrow> nat multiset" where
  "owed_outcome (OutcomeBatches bs) = owed_batches bs"
| "owed_outcome OutcomeSkipped = {#}"
| "owed_outcome (OutcomeSubscription _) = {#}"

fun owed_progress :: "collect_progress \<Rightarrow> nat multiset" where
  "owed_progress (Finished out) = owed_outcome out"
| "owed_progress (Suspended task) = owed_frame (task_frame task)"

lemma settle_pays: "pays r (add_mset (tok_cell t) M) (settle t r) M"
  unfolding settle_def by (rule pays_settle_owned)

lemma fail_and_settle_pays: "pays r (add_mset (tok_cell t) M) (fail_and_settle t r) M"
  unfolding fail_and_settle_def by (rule pays_trans [OF pays_mark_incomplete settle_pays])

interpretation settle_owner: owner "\<lambda>t. {#tok_cell t#}" settle
  by unfold_locales (use settle_pays in simp)

interpretation fail_owner: owner "\<lambda>t. {#tok_cell t#}" fail_and_settle
  by unfold_locales (use fail_and_settle_pays in simp)

lemma owed_by_sum: "sum_list (map (\<lambda>t. {#tok_cell t#}) ts) = owed_by ts"
  by (induction ts) (simp_all add: owed_by_def)

lemmas settle_all_pays = settle_owner.release_all_pays [unfolded owed_by_sum]
lemmas fail_all_pays = fail_owner.release_all_pays [unfolded owed_by_sum]

interpretation batch_owner: owner owed_batch batch_drop
proof
  fix r x M
  show "pays r (owed_batch x + M) (batch_drop x r) M"
    using settle_all_pays [of r "window_tokens x" M] fail_all_pays [of r "window_tokens x" M]
    by (cases "processing_succeeded x") (simp_all add: batch_drop_def)
qed

interpretation tracked_owner: owner owed_tracked tracked_guard_drop
  by unfold_locales
     (use fail_all_pays in \<open>simp add: tracked_guard_drop_def\<close>)

lemma pays_fold: "(\<And>t r. pays r M (f t r) M) \<Longrightarrow> pays r M (fold f ts r) M"
  by (induction ts arbitrary: r) (auto intro: pays_trans)

lemma cancel_new_provisions_pays: "pays r M (cancel_new_provisions ps r) M"
  unfolding cancel_new_provisions_def by (rule pays_fold [OF pays_cancel_if_pending])

interpretation guard_owner: owner owed_guard provisional_guard_drop
proof
  fix r x M
  show "pays r (owed_guard x + M) (provisional_guard_drop x r) M"
    using pays_trans [OF cancel_new_provisions_pays
        settle_all_pays [of _ "new_tokens (provisions x)" M]]
    by (simp add: provisional_guard_drop_def owed_guard_def)
qed

definition task_release :: "collect_task \<Rightarrow> registry \<Rightarrow> registry" where
  "task_release task = tracked_guard_drop (frame_tracked (task_frame task))
     \<circ> provisional_guard_drop (frame_guard (task_frame task))"

lemma collect_drop_windows: "col_windows (collect_drop task st) = task_release task (col_windows st)"
  by (simp add: collect_drop_def task_release_def on_windows_def on_gate_def Let_def)

interpretation task_owner: owner "\<lambda>task. owed_frame (task_frame task)" task_release
proof
  fix r and x :: collect_task and M
  have "pays r (owed_guard (frame_guard (task_frame x)) + (owed_tracked (frame_tracked (task_frame x)) + M))
      (provisional_guard_drop (frame_guard (task_frame x)) r) (owed_tracked (frame_tracked (task_frame x)) + M)"
    by (rule guard_owner.release_pays)
  then show "pays r (owed_frame (task_frame x) + M) (task_release x r) M"
    using pays_trans [OF _ tracked_owner.release_pays] by (simp add: owed_frame_def task_release_def add.assoc)
qed

section \<open>The functions of the task\<close>

lemma owed_tracked_or_skip: "owed_outcome (tracked_activity_or_skip received g) = owed_tracked g"
  by (simp add: tracked_activity_or_skip_def owed_batches_def notification_batch_def)

lemma return_tracked_pays:
  assumes "return_tracked f st = (p, st')"
  shows "pays (col_windows st) (owed_frame f + M) (col_windows st') (owed_progress p + M)"
  using assms guard_owner.release_pays [of "col_windows st" "frame_guard f" "owed_tracked (frame_tracked f) + M"]
  by (auto simp: return_tracked_def owed_tracked_or_skip owed_frame_def on_windows_def add.assoc)

lemma provision_seeds_new:
  assumes "provision_seeds seeds received d r = (ps, r')"
  shows "distinct (map tok_cell (new_tokens ps)) \<and> next_cell r \<le> next_cell r'
    \<and> (\<forall>t\<in>set (new_tokens ps). next_cell r \<le> tok_cell t \<and> tok_cell t < next_cell r'
         \<and> cell_admitted (cell_of r' t) = 0 \<and> \<not> cell_finalized (cell_of r' t))
    \<and> (\<forall>a<next_cell r. cell_admitted (cells r' a) = cell_admitted (cells r a)
         \<and> cell_finalized (cells r' a) = cell_finalized (cells r a))"
  using assms
proof (induction seeds arbitrary: r ps)
  case (Cons seed seeds)
  obtain p r1 where p: "provision_target r (seed_target seed) (seed_mint seed) received d = (p, r1)" by force
  obtain qs where qs: "provision_seeds seeds received d r1 = (qs, r')" "ps = p # qs"
    using Cons.prems p by (auto split: prod.splits)
  note IH = Cons.IH [OF qs(1)]
  note c = provision_counts [OF p]
  have keep: "next_cell r \<le> next_cell r1"
      "a < next_cell r \<Longrightarrow> cell_admitted (cells r1 a) = cell_admitted (cells r a)" for a
    using c(1) by (auto simp: counts_kept_def)
  show ?case
  proof (cases "newly_opened p")
    case True
    note n = c(2) [OF True]
    have first: "cell_admitted (cell_of r' (prov_token p)) = 0" "\<not> cell_finalized (cell_of r' (prov_token p))"
      using IH n by (auto simp: cell_of_def)
    then show ?thesis using IH n keep c(4) qs(2) True by (force simp: new_tokens_def)
  next
    case False
    then show ?thesis using IH keep c(3,4) qs(2) by (force simp: new_tokens_def)
  qed
qed (simp add: new_tokens_def)

lemma provision_seeds_pays: "pays r M (snd (provision_seeds seeds received d r)) M"
proof (induction seeds arbitrary: r)
  case (Cons seed seeds)
  show ?case
    using pays_trans [OF pays_provision [of r M "seed_target seed" "seed_mint seed" received d] Cons.IH]
    by (simp add: split_beta Let_def)
qed simp

lemma guard_admit_pays:
  assumes "distinct (map tok_cell ts)"
    and "\<forall>t\<in>set ts. tok_cell t < next_cell r \<and> cell_admitted (cell_of r t) = 0 \<and> \<not> cell_finalized (cell_of r t)"
  shows "pays r M (fold guard_admit ts r) (owed_by ts + M)"
  using assms
proof (induction ts arbitrary: r M)
  case (Cons t ts)
  have ok: "fst (mark_admitted (cell_of r t))"
    using Cons.prems(2) by (simp add: mark_admitted_def checked_add_word_def)
  let ?r = "update_cell (snd \<circ> mark_admitted) t r"
  have g: "guard_admit t r = ?r" using ok by (simp add: guard_admit_def)
  have other: "cell_of ?r u = cell_of r u" if "u \<in> set ts" for u
  proof -
    have "tok_cell u \<noteq> tok_cell t" using Cons.prems(1) that by (auto simp: rev_image_eqI)
    then show ?thesis by (simp add: cell_of_def)
  qed
  have "pays r M ?r (add_mset (tok_cell t) M)"
    using ledger_admit_new [of t "\<lparr>sys_registry = r, sys_claims = cls\<rparr>" M for cls] ok Cons.prems(2)
    by (intro pays_step) simp
  moreover have "pays ?r (add_mset (tok_cell t) M) (fold guard_admit ts ?r) (owed_by ts + add_mset (tok_cell t) M)"
    by (rule Cons.IH) (use Cons.prems other in auto)
  ultimately show ?case using pays_trans by (fastforce simp: g)
qed simp

lemma collect_discovery_pays:
  assumes "collect_discovery config received seeds tracked now claimed_at st = (p, st')"
  shows "pays (col_windows st) (owed_tracked tracked + M) (col_windows st') (owed_progress p + M)"
proof -
  obtain claimed gate where cl: "claim_signature (note_signature (received_note received)) claimed_at (col_gate st)
      = (claimed, gate)" by force
  obtain ps r1 where ps: "provision_seeds seeds (received_time received) (observation_window_duration config)
      (col_windows st) = (ps, r1)" by force
  let ?r2 = "fold guard_admit (new_tokens ps) r1"
  show ?thesis
  proof (cases claimed)
    case False
    then show ?thesis using assms cl by (auto simp: collect_discovery_def owed_tracked_or_skip)
  next
    case True
    have "pays (col_windows st) (owed_tracked tracked + M) r1 (owed_tracked tracked + M)"
      using provision_seeds_pays [of "col_windows st" _ seeds "received_time received"] ps by (metis snd_conv)
    also have "pays r1 (owed_tracked tracked + M) ?r2 (owed_by (new_tokens ps) + (owed_tracked tracked + M))"
      by (rule guard_admit_pays) (use provision_seeds_new [OF ps] in auto)
    finally have opened: "pays (col_windows st) (owed_tracked tracked + M) ?r2
      (owed_by (new_tokens ps) + (owed_tracked tracked + M))" .
    define frame where "frame = \<lparr>frame_received = received,
      frame_guard = \<lparr>provisions = ps, armed = True\<rparr>, frame_tracked = tracked,
      frame_timeout = (case discovery_admission_timeout seeds (maximum_discovery_age config)
        (received_time received) now of None \<Rightarrow> 0 | Some d \<Rightarrow> d)\<rparr>"
    let ?st2 = "st\<lparr>col_gate := gate, col_windows := ?r2\<rparr>"
    have owed: "owed_frame frame = owed_by (new_tokens ps) + owed_tracked tracked"
      by (simp add: frame_def owed_frame_def owed_guard_def)
    have "(p, st') = return_tracked frame ?st2 \<or> (p, st') = (Suspended (AwaitingPermit frame), ?st2)"
      using assms True cl ps
      by (simp add: collect_discovery_def provisional_guard_new_def frame_def Let_def split: if_splits)
    then show ?thesis
    proof
      assume "(p, st') = return_tracked frame ?st2"
      from return_tracked_pays [OF this [symmetric], of M] pays_trans [OF opened] owed
      show ?thesis by (simp add: add.assoc)
    next
      assume "(p, st') = (Suspended (AwaitingPermit frame), ?st2)"
      then show ?thesis using opened owed by (simp add: add.assoc)
    qed
  qed
qed

lemma collect_begin_pays:
  assumes "collect_begin base64_decode config program received now_classified now claimed_at st = Some (p, st')"
  shows "pays (col_windows st) M (col_windows st') (owed_progress p + M)"
proof -
  let ?r1 = "record_source_progress (col_windows st) (pump_source_program program) (received_time received)"
  obtain d r where c: "classify_notification base64_decode (received_note received) ?r1 (col_network config)
      (maximum_discovery_age config) (received_time received) now_classified = Some (d, r)"
    using assms by (auto simp: collect_begin_def on_windows_def Let_def split: option.splits)
  let ?st2 = "st\<lparr>col_windows := r\<rparr>"
  have p1: "pays (col_windows st) M r (owed_by (disposition_tokens d) + M)"
    by (rule pays_trans [OF pays_progress classification_pays [OF c]])
  show ?thesis
  proof (cases d)
    case (FetchDiscovery seeds tokens)
    then have "collect_discovery config received seeds (tracked_guard_new tokens) now claimed_at ?st2 = (p, st')"
      using assms c by (simp add: collect_begin_def on_windows_def Let_def)
    from collect_discovery_pays [OF this, of M] pays_trans [OF p1] FetchDiscovery
    show ?thesis by (simp add: tracked_guard_new_def)
  next
    case (CollectTrackedActivity tokens)
    then show ?thesis
      using assms c p1 by (auto simp: collect_begin_def on_windows_def Let_def owed_tracked_or_skip tracked_guard_new_def)
  next
    case (DropNotification reason)
    then show ?thesis using assms c p1 by (auto simp: collect_begin_def on_windows_def Let_def)
  qed
qed

lemma collect_permit_pays:
  "collect_permit f st = (p, st') \<Longrightarrow> pays (col_windows st) (owed_frame f + M) (col_windows st') (owed_progress p + M)"
  by (auto simp: collect_permit_def split: option.splits)

lemma on_windows_frame [simp]:
  "col_windows (on_gate f st) = col_windows st" "col_windows (send_health u st) = col_windows st"
  "col_windows (on_windows h st) = h (col_windows st)" "col_gate (on_windows h st) = col_gate st"
  "col_gate (on_gate f st) = f (col_gate st)" "col_gate (send_health u st) = col_gate st"
  by (simp_all add: on_gate_def send_health_def on_windows_def)

lemma collect_slot_pays:
  assumes "collect_slot now f st = (p, st')"
  shows "pays (col_windows st) (owed_frame f + M) (col_windows st') (owed_progress p + M)"
proof -
  obtain w g where a: "acquire_round now (col_gate st) = (w, g)" by force
  show ?thesis
    using assms return_tracked_pays [of f "on_gate release_permit (st\<lparr>col_gate := g\<rparr>)" p st' M]
    by (auto simp: collect_slot_def a Let_def split: option.splits if_splits)
qed

lemma collect_timeout_pays:
  assumes "collect_timeout task st = (p, st')"
  shows "pays (col_windows st) (owed_frame (task_frame task) + M) (col_windows st') (owed_progress p + M)"
  using assms return_tracked_pays [of "task_frame task"]
  by (cases task) fastforce+

lemma collect_transaction_pays:
  assumes "collect_transaction now result f st = (p, st')" and "armed (frame_guard f)"
  shows "pays (col_windows st) (owed_frame f + M) (col_windows st') (owed_progress p + M)"
proof (cases "\<exists>st1. return_tracked f st1 = (p, st') \<and> col_windows st1 = col_windows st")
  case True
  then show ?thesis using return_tracked_pays by metis
next
  case False
  have "return_tracked f st1 \<noteq> (p, st')" if "col_windows st1 = col_windows st" for st1
    using False that by blast
  then obtain tx where "p = Finished (collect_matched tx f)" "col_windows st' = col_windows st"
    using assms(1) by (auto simp: collect_transaction_def Let_def split: fetch_result.splits option.splits if_splits)
  moreover have "owed_outcome (collect_matched tx f) = owed_frame f"
    using assms(2) by (simp add: collect_matched_def owed_batches_def transaction_batch_def owed_frame_def
        owed_guard_def into_new_tokens_def)
  ultimately show ?thesis by simp
qed

end
