(* ===== verification/Intake_Example.thy ===== *)
theory Intake_Example
  imports Intake_Correct
begin

text \<open>
  One concrete notification, followed from its log lines to the event it carries: a bonding curve
  completed, with complete evidence. The witnesses of the collector's properties run on it.
\<close>

section \<open>A notification with one event\<close>

text \<open>A completed bonding curve, logged by the program and followed by its silent self-call.\<close>

definition active_forest :: "log_tree list" where
  "active_forest = [Call (pump_program_id Pump)
     [Line ''Program data: AA'', Call (pump_program_id Pump) [] Succeeded] Succeeded]"

definition active_note :: program_log_notification where
  "active_note = \<lparr>subscription_id = 1, note_slot = 7, note_signature = ''sig'',
     note_log_messages = concat (map (render 1) active_forest), note_transaction_error = None\<rparr>"

definition active_decode :: "string \<Rightarrow> (unit, u8 list) result" where
  "active_decode text = Inr (event_bytes example_complete)"

definition active_mint :: string where
  "active_mint = encode_base58 (replicate 32 4)"

definition active_record :: scoped_program_data where
  "active_record = \<lparr>scoped_coordinate = event_coordinate 7 ''sig'' 0 0, scoped_log = ''Program data: AA''\<rparr>"

lemma data_line_plain: "plain_line ''Program data: AA''"
  by (simp add: plain_line_def is_log_truncation_marker_def parse_invoke_def parse_exit_def strip_prefix_def
      starts_with_def strip_suffix_def ends_with_def)

lemma active_forest_ok:
  "length active_forest < 2 ^ 16"
  "\<forall>t\<in>set active_forest. is_call t \<and> well_formed t \<and> height t < usize_max \<and> items t < 2 ^ 16"
  using plausible_pump [of Pump] data_line_plain
  by (simp_all add: active_forest_def usize_max_def del: pump_program_id.simps)

lemma active_scoped:
  "scope_program_data_logs (pump_program_id Pump) 7 None ''sig'' (note_log_messages active_note) = Inr [active_record]"
proof -
  have ex: "execution (pump_program_id Pump) active_forest"
    using active_forest_ok by (simp add: execution_def active_forest_def starts_with_def PROGRAM_DATA_PREFIX_def
        del: pump_program_id.simps)
  have "scoped_spec (pump_program_id Pump) 7 None ''sig'' 0 active_forest = [active_record]"
    by (simp add: scoped_spec_def active_forest_def scoped_of_def active_record_def event_coordinate_def
        starts_with_def PROGRAM_DATA_PREFIX_def del: pump_program_id.simps)
  then show ?thesis
    using scope_printed [OF ex, of "''sig''" 7 None]
    by (simp add: active_note_def white_space_1_def white_space_2_def white_space_3_def
        del: render.simps pump_program_id.simps)
qed

lemma active_decodes:
  "decode_program_data_log active_decode (pump_program_id Pump) (scoped_coordinate active_record)
     (scoped_log active_record)
   = Inr \<lparr>decoded_program = Pump, decoded_coordinate = event_coordinate 7 ''sig'' 0 0, decoded_event = example_complete\<rparr>"
proof -
  have "valid_event example_complete"
    by (simp add: example_complete_def valid_pump_complete_def valid_pubkey_encode in_range_def)
  then have "decode_anchor_event (pump_program_id Pump) (event_coordinate 7 ''sig'' 0 0) (event_bytes example_complete)
      = (Inr \<lparr>decoded_program = Pump, decoded_coordinate = event_coordinate 7 ''sig'' 0 0,
              decoded_event = example_complete\<rparr> :: (unit pump_error, _) result)"
    unfolding decode_anchor_event_iff by (simp add: strip_cpi_prefix_event example_complete_def event_coordinate_def)
  then show ?thesis
    by (simp add: decode_program_data_log_def decode_program_data_bytes_def active_decode_def active_record_def
        strip_prefix_def starts_with_def PROGRAM_DATA_PREFIX_def ok_or_def map_err_def)
qed

lemma active_understood: "understood active_decode Pump active_record"
  using active_decodes by (simp add: understood_def del: pump_program_id.simps)

lemma active_coverage:
  obtains m where "successful_self_cpi_coverage (pump_program_id Pump) (note_log_messages active_note) = Inr m"
    and "\<forall>i. instruction_complete m [active_record] i"
proof -
  obtain m where m: "successful_self_cpi_coverage (pump_program_id Pump) (concat (map (render 1) active_forest)) = Inr m"
      "\<forall>j. btree_get m j = (if unat j < length active_forest
         then Some (cover (pump_program_id Pump) (active_forest ! unat j) self_cpi_default) else None)"
    using coverage_printed [OF active_forest_ok, of "pump_program_id Pump"] by blast
  have "cover (pump_program_id Pump) (active_forest ! 0) self_cpi_default
      = \<lparr>successful_event_calls = 1, pending_direct_event = False, pairing_gap = False\<rparr>"
    by (simp add: active_forest_def starts_with_def PROGRAM_DATA_PREFIX_def is_compute_consumed_log_def
        strip_prefix_def ends_with_def note_direct_event_def abandon_pending_def self_cpi_default_def
        del: pump_program_id.simps)
  moreover have "rec_instruction active_record = 0" by (simp add: active_record_def event_coordinate_def)
  ultimately have "instruction_complete m [active_record] i" for i
    using m(2) by (cases "i = 0") (simp_all add: instruction_complete_def active_forest_def unat_eq_zero)
  then have "\<forall>i. instruction_complete m [active_record] i" by blast
  then show ?thesis by (rule that [rotated]) (use m(1) in \<open>simp add: active_note_def del: pump_program_id.simps\<close>)
qed

lemma active_mentions: "mentions active_note Pump" "\<not> mentions active_note PumpSwap"
proof -
  have "pump_program_id Pump \<noteq> pump_program_id PumpSwap"
    by (simp add: PUMP_PROGRAM_ID_def PUMP_SWAP_PROGRAM_ID_def)
  moreover have "parse_invoke (invoke_line (pump_program_id Pump) 2) = Some (pump_program_id Pump, 2)"
    by (rule parse_invoke_line [OF plausible_pump]) (simp add: usize_max_def)
  ultimately show "mentions active_note Pump" "\<not> mentions active_note PumpSwap"
    using parse_invoke_pump [of Pump] parse_invoke_exit_line [OF plausible_pump] data_line_plain
    by (simp_all add: notification_mentions_program_def active_note_def active_forest_def plain_line_def
        numeral_2_eq_2 del: pump_program_id.simps)
qed

lemma active_complete: "evidence_complete active_decode Pump active_note"
proof (rule active_coverage)
  fix m assume "successful_self_cpi_coverage (pump_program_id Pump) (note_log_messages active_note) = Inr m"
    "\<forall>i. instruction_complete m [active_record] i"
  then show ?thesis
    using active_scoped active_understood
    by (fastforce simp: evidence_complete_def active_note_def simp del: pump_program_id.simps)
qed

lemma active_events:
  "program_events active_decode active_note Pump = [example_complete]"
  "program_events active_decode active_note PumpSwap = []"
proof (rule active_coverage)
  fix m assume "successful_self_cpi_coverage (pump_program_id Pump) (note_log_messages active_note) = Inr m"
  then show "program_events active_decode active_note Pump = [example_complete]"
    using active_mentions active_scoped active_decodes
    by (simp add: program_events_def record_events_def active_note_def del: pump_program_id.simps)
qed (use active_mentions in \<open>simp add: program_events_def\<close>)

lemma active_note_classified:
  assumes "admit_matching_token r (PumpMint active_mint) o' = (Some t, r')"
  shows "classify_notification active_decode active_note r n age o' now = Some (CollectTrackedActivity [t], r')"
proof -
  have "note_gap active_decode o' active_note p l = l" for p l
    using active_complete active_mentions(2)
    by (cases p) (auto simp: note_gap_def evidence_readable_def evidence_complete_def)
  then show ?thesis
    using assms active_events
    by (simp add: classify_notification_normal Let_def PUMP_PROGRAMS_def classify_spec_def classify_event_def
        example_complete_def active_mint_def [symmetric] classify_start_def disposition_of_def
        active_note_def notification_succeeded_def)
qed

end
