(* ===== verification/Collector_System.thy ===== *)
theory Collector_System
  imports Collector_Correct Intake_Example
begin

text \<open>
  The collector as a system: the tasks of the two sources, the batches on their way to the
  processor, and the other threads that work on the window registry. A step runs one task to its
  next waiting point, moves or drops one batch, or lets another thread perform a step of the
  registry that concerns neither admission nor settlement (confirmation, durable ids, finalization,
  cancellation and so on). Times and the answers of the network are arbitrary.
\<close>

section \<open>The system\<close>

record collector_system =
  cs_state :: collector_state
  cs_claims :: "finalization_claim list"
  cs_tasks :: "collect_task list"
  cs_sending :: "program_log_batch list"
  cs_channel :: "program_log_batch list"
  cs_pending :: pending_activity_queue
  cs_processing :: "program_log_batch list"

text \<open>What becomes of a task that ran: \<open>process_live_notifications\<close> sends the batches of a finished one.\<close>

fun absorb :: "collect_progress \<Rightarrow> collector_system \<Rightarrow> collector_system" where
  "absorb (Finished (OutcomeBatches bs)) s = s\<lparr>cs_sending := cs_sending s @ bs\<rparr>"
| "absorb (Finished OutcomeSkipped) s = s"
| "absorb (Finished (OutcomeSubscription _)) s = s"
| "absorb (Suspended task) s = s\<lparr>cs_tasks := task # cs_tasks s\<rparr>"

fun admitted_to :: "pending_activity_admission \<Rightarrow> collector_system \<Rightarrow> collector_system" where
  "admitted_to (AdmissionReady b) s = s\<lparr>cs_processing := b # cs_processing s\<rparr>"
| "admitted_to AdmissionDeferred s = s"
| "admitted_to AdmissionDropped s = s"

abbreviation drop_in :: "program_log_batch \<Rightarrow> collector_state \<Rightarrow> collector_state" where
  "drop_in b \<equiv> on_windows (batch_drop b)"

inductive collector_step ::
    "(string \<Rightarrow> ('b, u8 list) result) \<Rightarrow> collector_system \<Rightarrow> collector_system \<Rightarrow> bool" for base64_decode where
  run_begin: "collect_begin base64_decode config program received t1 t2 t3 (cs_state s) = Some (p, st)
    \<Longrightarrow> collector_step base64_decode s (absorb p (s\<lparr>cs_state := st\<rparr>))"
| run_permit: "cs_tasks s = ts @ AwaitingPermit f # us \<Longrightarrow> collect_permit f (cs_state s) = (p, st)
    \<Longrightarrow> collector_step base64_decode s (absorb p (s\<lparr>cs_state := st, cs_tasks := ts @ us\<rparr>))"
| run_slot: "cs_tasks s = ts @ AwaitingSlot f # us \<Longrightarrow> collect_slot now f (cs_state s) = (p, st)
    \<Longrightarrow> collector_step base64_decode s (absorb p (s\<lparr>cs_state := st, cs_tasks := ts @ us\<rparr>))"
| run_transaction: "cs_tasks s = ts @ AwaitingTransaction f # us
    \<Longrightarrow> collect_transaction now result f (cs_state s) = (p, st)
    \<Longrightarrow> collector_step base64_decode s (absorb p (s\<lparr>cs_state := st, cs_tasks := ts @ us\<rparr>))"
| run_timeout: "cs_tasks s = ts @ task # us \<Longrightarrow> collect_timeout task (cs_state s) = (p, st)
    \<Longrightarrow> collector_step base64_decode s (absorb p (s\<lparr>cs_state := st, cs_tasks := ts @ us\<rparr>))"
| drop_task: "cs_tasks s = ts @ task # us
    \<Longrightarrow> collector_step base64_decode s (s\<lparr>cs_state := collect_drop task (cs_state s), cs_tasks := ts @ us\<rparr>)"
| send_batch: "cs_sending s = bs @ b # cs
    \<Longrightarrow> collector_step base64_decode s (s\<lparr>cs_sending := bs @ cs, cs_channel := cs_channel s @ [b]\<rparr>)"
| drop_sending: "cs_sending s = bs @ b # cs
    \<Longrightarrow> collector_step base64_decode s (s\<lparr>cs_state := drop_in b (cs_state s), cs_sending := bs @ cs\<rparr>)"
| receive_batch: "cs_channel s = b # cs
    \<Longrightarrow> pending_admit b now (cs_pending s) (col_windows (cs_state s)) = (adm, q, r)
    \<Longrightarrow> collector_step base64_decode s (admitted_to adm
          (s\<lparr>cs_state := (cs_state s)\<lparr>col_windows := r\<rparr>, cs_channel := cs, cs_pending := q\<rparr>))"
| drop_channel: "cs_channel s = bs @ b # cs
    \<Longrightarrow> collector_step base64_decode s (s\<lparr>cs_state := drop_in b (cs_state s), cs_channel := bs @ cs\<rparr>)"
| drain_pending: "drain_resolved now (col_windows (cs_state s)) (cs_pending s) = (ready, q)
    \<Longrightarrow> collector_step base64_decode s (s\<lparr>cs_pending := q, cs_processing := ready @ cs_processing s\<rparr>)"
| drop_pending: "pending_batches (cs_pending s) = ps @ p # qs
    \<Longrightarrow> collector_step base64_decode s (s\<lparr>cs_state := drop_in (pending_batch p) (cs_state s),
          cs_pending := (cs_pending s)\<lparr>pending_batches := ps @ qs\<rparr>\<rparr>)"
| processed: "cs_processing s = bs @ b # cs
    \<Longrightarrow> collector_step base64_decode s (s\<lparr>cs_state := drop_in (mark_processing_succeeded b) (cs_state s),
          cs_processing := bs @ cs\<rparr>)"
| drop_processing: "cs_processing s = bs @ b # cs
    \<Longrightarrow> collector_step base64_decode s (s\<lparr>cs_state := drop_in b (cs_state s), cs_processing := bs @ cs\<rparr>)"
| other_thread: "step \<lparr>sys_registry = col_windows (cs_state s), sys_claims = cs_claims s\<rparr>
      \<lparr>sys_registry = r, sys_claims = cls\<rparr>
    \<Longrightarrow> counts_kept (col_windows (cs_state s)) r
    \<Longrightarrow> collector_step base64_decode s (s\<lparr>cs_state := (cs_state s)\<lparr>col_windows := r\<rparr>, cs_claims := cls\<rparr>)"

text \<open>A fresh pipeline: an empty registry, a new gate, an empty holding queue and nothing in flight.\<close>

definition initial_system ::
    "usize \<Rightarrow> nat \<Rightarrow> nat \<Rightarrow> nat \<Rightarrow> nat \<Rightarrow> usize \<Rightarrow> duration \<Rightarrow> collector_system option" where
  "initial_system max_windows in_flight rps cooldown ret capacity hold =
     (case (registry_new max_windows, gate_new in_flight rps cooldown ret, pending_queue_new capacity hold) of
        (Some r, Some g, Some q) \<Rightarrow>
          Some \<lparr>cs_state = \<lparr>col_windows = r, col_gate = g, col_health = []\<rparr>, cs_claims = [],
                cs_tasks = [], cs_sending = [], cs_channel = [], cs_pending = q, cs_processing = []\<rparr>
      | _ \<Rightarrow> None)"

inductive collector_reachable ::
    "(string \<Rightarrow> ('b, u8 list) result) \<Rightarrow> usize \<Rightarrow> usize \<Rightarrow> collector_system \<Rightarrow> bool"
  for base64_decode in_flight capacity where
  collector_init: "initial_system max_windows in_flight rps cooldown ret capacity hold = Some s
    \<Longrightarrow> collector_reachable base64_decode in_flight capacity s"
| collector_next: "collector_reachable base64_decode in_flight capacity s \<Longrightarrow> collector_step base64_decode s s'
    \<Longrightarrow> collector_reachable base64_decode in_flight capacity s'"

section \<open>The ledger of the system\<close>

definition owed_tasks :: "collect_task list \<Rightarrow> nat multiset" where
  "owed_tasks ts = sum_list (map (\<lambda>task. owed_frame (task_frame task)) ts)"

lemma owed_lists [simp]:
  "owed_tasks [] = {#}" "owed_tasks (t # ts) = owed_frame (task_frame t) + owed_tasks ts"
  "owed_tasks (ts @ us) = owed_tasks ts + owed_tasks us"
  "owed_batches [] = {#}" "owed_batches (b # bs) = owed_batch b + owed_batches bs"
  "owed_batches (bs @ cs) = owed_batches bs + owed_batches cs"
  by (simp_all add: owed_tasks_def owed_batches_def)

definition owed_system :: "collector_system \<Rightarrow> nat multiset" where
  "owed_system s = owed_tasks (cs_tasks s) + owed_batches (cs_sending s) + owed_batches (cs_channel s)
     + owed_batches (map pending_batch (pending_batches (cs_pending s))) + owed_batches (cs_processing s)"

definition system_ledger :: "collector_system \<Rightarrow> system \<times> nat multiset" where
  "system_ledger s = (\<lparr>sys_registry = col_windows (cs_state s), sys_claims = cs_claims s\<rparr>, owed_system s)"

definition tasks_armed :: "collector_system \<Rightarrow> bool" where
  "tasks_armed s \<longleftrightarrow> (\<forall>task\<in>set (cs_tasks s). armed (frame_guard (task_frame task)))"

lemma absorb_fields [simp]:
  "cs_state (absorb p s) = cs_state s" "cs_claims (absorb p s) = cs_claims s"
  "owed_system (absorb p s) = owed_progress p + owed_system s"
proof -
  show "cs_state (absorb p s) = cs_state s" "cs_claims (absorb p s) = cs_claims s"
    by (induction p s rule: absorb.induct) simp_all
  show "owed_system (absorb p s) = owed_progress p + owed_system s"
    by (induction p s rule: absorb.induct) (simp_all add: owed_system_def ac_simps)
qed

lemma pays_ledger:
  "pays (col_windows (cs_state s)) (owed_system s) (col_windows (cs_state s')) (owed_system s')
     \<Longrightarrow> cs_claims s' = cs_claims s \<Longrightarrow> ledger_step\<^sup>*\<^sup>* (system_ledger s) (system_ledger s')"
  by (simp add: pays_def system_ledger_def)

lemma owed_remove:
  "cs_tasks s = ts @ t # us \<Longrightarrow> owed_system s = owed_frame (task_frame t) + owed_system (s\<lparr>cs_tasks := ts @ us\<rparr>)"
  "cs_sending s = bs @ b # cs \<Longrightarrow> owed_system s = owed_batch b + owed_system (s\<lparr>cs_sending := bs @ cs\<rparr>)"
  "cs_channel s = bs @ b # cs \<Longrightarrow> owed_system s = owed_batch b + owed_system (s\<lparr>cs_channel := bs @ cs\<rparr>)"
  "cs_processing s = bs @ b # cs \<Longrightarrow> owed_system s = owed_batch b + owed_system (s\<lparr>cs_processing := bs @ cs\<rparr>)"
  "pending_batches (cs_pending s) = ps @ p # qs \<Longrightarrow> owed_system s = owed_batch (pending_batch p)
     + owed_system (s\<lparr>cs_pending := (cs_pending s)\<lparr>pending_batches := ps @ qs\<rparr>\<rparr>)"
  by (simp_all add: owed_system_def ac_simps)

lemma owed_state [simp]:
  "owed_system (s\<lparr>cs_state := st\<rparr>) = owed_system s"
  "owed_system (s\<lparr>cs_state := st, cs_tasks := ts\<rparr>) = owed_system (s\<lparr>cs_tasks := ts\<rparr>)"
  "owed_system (s\<lparr>cs_state := st, cs_sending := bs\<rparr>) = owed_system (s\<lparr>cs_sending := bs\<rparr>)"
  "owed_system (s\<lparr>cs_state := st, cs_channel := bs\<rparr>) = owed_system (s\<lparr>cs_channel := bs\<rparr>)"
  "owed_system (s\<lparr>cs_state := st, cs_processing := bs\<rparr>) = owed_system (s\<lparr>cs_processing := bs\<rparr>)"
  "owed_system (s\<lparr>cs_state := st, cs_pending := q\<rparr>) = owed_system (s\<lparr>cs_pending := q\<rparr>)"
  by (simp_all add: owed_system_def)

text \<open>A task that ran from a waiting point, and a batch that was dropped.\<close>

lemma task_ran:
  assumes "cs_tasks s = ts @ task # us"
    and "\<And>M. pays (col_windows (cs_state s)) (owed_frame (task_frame task) + M) (col_windows st) (owed_progress p + M)"
  shows "ledger_step\<^sup>*\<^sup>* (system_ledger s) (system_ledger (absorb p (s\<lparr>cs_state := st, cs_tasks := ts @ us\<rparr>)))"
  by (rule pays_ledger) (use owed_remove(1) [OF assms(1)] assms(2) in simp_all)

lemma batch_dropped:
  assumes "owed_system s = owed_batch b + owed_system s'" and "cs_claims s' = cs_claims s"
    and "cs_state s' = drop_in b (cs_state s)"
  shows "ledger_step\<^sup>*\<^sup>* (system_ledger s) (system_ledger s')"
  by (rule pays_ledger) (use assms batch_owner.release_pays in simp_all)

fun owed_admission :: "pending_activity_admission \<Rightarrow> nat multiset" where
  "owed_admission (AdmissionReady b) = owed_batch b"
| "owed_admission AdmissionDeferred = {#}"
| "owed_admission AdmissionDropped = {#}"

abbreviation owed_queue :: "pending_activity_queue \<Rightarrow> nat multiset" where
  "owed_queue q \<equiv> owed_batches (map pending_batch (pending_batches q))"

lemma pending_admit_pays:
  assumes "pending_admit b now q r = (adm, q', r')"
  shows "pays r (owed_batch b + (owed_queue q + M)) r' (owed_admission adm + (owed_queue q' + M))"
proof -
  have "pays r (owed_batch b + (owed_queue q + M))
      (batch_drop b (fold (update_cell (cancel_with_reason QueueOverflow)) (window_tokens b) r)) (owed_queue q + M)"
    by (rule pays_trans [OF pays_fold [OF pays_cancel_with_reason] batch_owner.release_pays])
  then show ?thesis
    using assms by (auto simp: pending_admit_def ac_simps split: if_splits)
qed

lemma admitted_to_fields [simp]:
  "cs_state (admitted_to adm s) = cs_state s" "cs_claims (admitted_to adm s) = cs_claims s"
  "owed_system (admitted_to adm s) = owed_admission adm + owed_system s"
  by (cases adm; simp add: owed_system_def ac_simps)+

lemma owed_drained:
  "drain_resolved now r q = (ready, q') \<Longrightarrow> owed_queue q = owed_batches ready + owed_queue q'"
proof -
  have "owed_batches (map pending_batch ps) = owed_batches (map pending_batch (filter (\<lambda>p. \<not> P p) ps))
      + owed_batches (map pending_batch (filter P ps))" for P and ps :: "pending_activity_batch list"
    by (induction ps) (simp_all add: ac_simps)
  then show "drain_resolved now r q = (ready, q') \<Longrightarrow> owed_queue q = owed_batches ready + owed_queue q'"
    by (auto simp: drain_resolved_filter)
qed

lemma collector_step_ledger:
  assumes "collector_step base64_decode s s'" and "tasks_armed s"
  shows "ledger_step\<^sup>*\<^sup>* (system_ledger s) (system_ledger s')"
  using assms
proof (induction rule: collector_step.induct)
  case (run_begin config program received t1 t2 t3 s p st)
  show ?case by (rule pays_ledger) (use collect_begin_pays [OF run_begin(1)] in simp_all)
next
  case (run_permit s ts f us p st)
  show ?case by (rule task_ran [OF run_permit(1)]) (use collect_permit_pays [OF run_permit(2)] in simp)
next
  case (run_slot s ts f us now p st)
  show ?case by (rule task_ran [OF run_slot(1)]) (use collect_slot_pays [OF run_slot(2)] in simp)
next
  case (run_transaction s ts f us now result p st)
  then have "armed (frame_guard f)" by (simp add: tasks_armed_def)
  from collect_transaction_pays [OF run_transaction(2) this]
  show ?case by (intro task_ran [OF run_transaction(1)]) simp
next
  case (run_timeout s ts task us p st)
  show ?case by (rule task_ran [OF run_timeout(1)]) (rule collect_timeout_pays [OF run_timeout(2)])
next
  case (drop_task s ts task us)
  show ?case
    by (rule pays_ledger) (use task_owner.release_pays owed_remove(1) [OF drop_task(1)] in \<open>simp_all add: collect_drop_windows\<close>)
next
  case (send_batch s bs b cs)
  then show ?case by (intro pays_ledger) (simp_all add: owed_system_def ac_simps)
next
  case (drop_sending s bs b cs)
  show ?case by (rule batch_dropped) (use owed_remove(2) [OF drop_sending(1)] in simp_all)
next
  case (receive_batch s b cs now adm q r)
  let ?rest = "owed_tasks (cs_tasks s) + owed_batches (cs_sending s) + owed_batches cs + owed_batches (cs_processing s)"
  have "pays (col_windows (cs_state s)) (owed_system s) r (owed_admission adm + (owed_queue q + ?rest))"
    using pending_admit_pays [OF receive_batch(2), of ?rest] receive_batch(1) by (simp add: owed_system_def ac_simps)
  moreover have "owed_system (s\<lparr>cs_state := (cs_state s)\<lparr>col_windows := r\<rparr>, cs_channel := cs, cs_pending := q\<rparr>)
      = owed_queue q + ?rest"
    by (simp add: owed_system_def ac_simps)
  ultimately show ?case by (intro pays_ledger) simp_all
next
  case (drop_channel s bs b cs)
  show ?case by (rule batch_dropped) (use owed_remove(3) [OF drop_channel(1)] in simp_all)
next
  case (drain_pending now s ready q)
  show ?case by (rule pays_ledger) (simp_all add: owed_system_def owed_drained [OF drain_pending(1)] ac_simps)
next
  case (drop_pending s ps p qs)
  show ?case by (rule batch_dropped) (use owed_remove(5) [OF drop_pending(1)] in simp_all)
next
  case (processed s bs b cs)
  have "owed_batch (mark_processing_succeeded b) = owed_batch b" by (simp add: mark_processing_succeeded_def)
  then show ?case by (intro batch_dropped) (use owed_remove(4) [OF processed(1)] in simp_all)
next
  case (drop_processing s bs b cs)
  show ?case by (rule batch_dropped) (use owed_remove(4) [OF drop_processing(1)] in simp_all)
next
  case (other_thread s r cls)
  then show ?case
    using ledger_other [of _ _ "owed_system s"] by (auto simp: system_ledger_def owed_system_def)
qed

section \<open>Armed guards, permits and the holding queue\<close>

definition permits_total :: "collector_system \<Rightarrow> nat" where
  "permits_total s = permits (col_gate (cs_state s)) + length (filter holds_permit (cs_tasks s))"

fun progress_permits :: "collect_progress \<Rightarrow> nat" where
  "progress_permits (Suspended task) = (if holds_permit task then 1 else 0)"
| "progress_permits (Finished _) = 0"

fun progress_armed :: "collect_progress \<Rightarrow> bool" where
  "progress_armed (Suspended task) = armed (frame_guard (task_frame task))"
| "progress_armed (Finished _) = True"

lemma absorb_tasks:
  "tasks_armed (absorb p s) \<longleftrightarrow> progress_armed p \<and> tasks_armed s"
  "permits_total (absorb p s) = progress_permits p + permits_total s"
  "cs_pending (absorb p s) = cs_pending s"
  by (induction p s rule: absorb.induct) (simp_all add: tasks_armed_def permits_total_def)

lemma return_tracked_gate:
  "return_tracked f st = (p, st') \<Longrightarrow> col_gate st' = col_gate st \<and> progress_permits p = 0 \<and> progress_armed p"
  by (auto simp: return_tracked_def)

lemma claim_signature_permits: "claim_signature sg now g = (ok, g') \<Longrightarrow> permits g' = permits g"
  by (auto simp: claim_signature_def Let_def split: prod.splits)

lemma collect_begin_permits:
  assumes "collect_begin base64_decode config program received t1 t2 t3 st = Some (p, st')"
  shows "permits (col_gate st') + progress_permits p = permits (col_gate st) \<and> progress_armed p"
proof -
  have disc: "permits (col_gate st') + progress_permits p = permits (col_gate st0) \<and> progress_armed p"
    if "collect_discovery config received seeds tracked t2 t3 st0 = (p, st')" for seeds tracked st0
  proof -
    obtain ok g where c: "claim_signature (note_signature (received_note received)) t3 (col_gate st0) = (ok, g)" by force
    from that c claim_signature_permits [OF c] show ?thesis
      by (auto simp: collect_discovery_def Let_def provisional_guard_new_def split: if_splits prod.splits
          dest!: return_tracked_gate)
  qed
  show ?thesis
    using assms by (auto simp: collect_begin_def Let_def split: option.splits notification_disposition.splits
        dest!: disc)
qed

lemma collect_permit_permits:
  "collect_permit f st = (p, st') \<Longrightarrow>
     permits (col_gate st') + progress_permits p = permits (col_gate st)
     \<and> (armed (frame_guard f) \<longrightarrow> progress_armed p)"
  by (auto simp: collect_permit_def acquire_permit_def split: option.splits if_splits)

lemma acquire_round_permits: "acquire_round now g = (w, g') \<Longrightarrow> permits g' = permits g"
  by (auto simp: acquire_round_def Let_def split: prod.splits)

lemma collect_slot_permits:
  assumes "collect_slot now f st = (p, st')"
  shows "permits (col_gate st') + progress_permits p = permits (col_gate st) + 1
    \<and> (armed (frame_guard f) \<longrightarrow> progress_armed p)"
proof -
  obtain w g where a: "acquire_round now (col_gate st) = (w, g)" by force
  show ?thesis
    using assms acquire_round_permits [OF a]
    by (auto simp: collect_slot_def a Let_def release_permit_def split: option.splits if_splits
        dest!: return_tracked_gate)
qed

lemma collect_transaction_permits:
  "collect_transaction now result f st = (p, st') \<Longrightarrow>
     permits (col_gate st') + progress_permits p = permits (col_gate st) + 1 \<and> progress_armed p"
  by (auto simp: collect_transaction_def Let_def release_permit_def record_rate_limit_def
      split: fetch_result.splits option.splits if_splits dest!: return_tracked_gate)

lemma collect_timeout_permits:
  "collect_timeout task st = (p, st') \<Longrightarrow>
     permits (col_gate st') + progress_permits p = permits (col_gate st) + (if holds_permit task then 1 else 0)
     \<and> (armed (frame_guard (task_frame task)) \<longrightarrow> progress_armed p)"
  by (cases task) (auto simp: release_permit_def dest!: return_tracked_gate)

definition queue_bounded :: "usize \<Rightarrow> collector_system \<Rightarrow> bool" where
  "queue_bounded capacity s \<longleftrightarrow>
     queue_capacity (cs_pending s) = capacity \<and> length (pending_batches (cs_pending s)) \<le> capacity"

lemma pending_admit_bounded:
  "pending_admit b now q r = (adm, q', r') \<Longrightarrow> length (pending_batches q) \<le> queue_capacity q \<Longrightarrow>
     queue_capacity q' = queue_capacity q \<and> length (pending_batches q') \<le> queue_capacity q"
  by (auto simp: pending_admit_def split: if_splits)

definition structure_inv :: "usize \<Rightarrow> usize \<Rightarrow> collector_system \<Rightarrow> bool" where
  "structure_inv in_flight capacity s \<longleftrightarrow>
     tasks_armed s \<and> permits_total s = in_flight \<and> queue_bounded capacity s"

lemma structure_inv_absorb:
  "structure_inv in_flight capacity (absorb p s) \<longleftrightarrow>
     progress_armed p \<and> tasks_armed s \<and> progress_permits p + permits_total s = in_flight \<and> queue_bounded capacity s"
  by (simp add: structure_inv_def absorb_tasks queue_bounded_def)

lemma task_ran_structure:
  assumes "structure_inv in_flight capacity s" and "cs_tasks s = ts @ task # us"
    and "permits (col_gate st) + progress_permits p
      = permits (col_gate (cs_state s)) + (if holds_permit task then 1 else 0)"
    and "armed (frame_guard (task_frame task)) \<longrightarrow> progress_armed p"
  shows "structure_inv in_flight capacity (absorb p (s\<lparr>cs_state := st, cs_tasks := ts @ us\<rparr>))"
  using assms unfolding structure_inv_absorb
  by (auto simp: structure_inv_def tasks_armed_def permits_total_def queue_bounded_def)

lemma structure_inv_step:
  assumes "collector_step base64_decode s s'" and "structure_inv in_flight capacity s"
  shows "structure_inv in_flight capacity s'"
  using assms
proof (induction rule: collector_step.induct)
  case (run_begin config program received t1 t2 t3 s p st)
  then show ?case
    using collect_begin_permits [OF run_begin(1)] unfolding structure_inv_absorb
    by (auto simp: structure_inv_def tasks_armed_def permits_total_def queue_bounded_def)
next
  case (run_permit s ts f us p st)
  show ?case
    by (rule task_ran_structure [OF run_permit(3,1)]) (use collect_permit_permits [OF run_permit(2)] in simp_all)
next
  case (run_slot s ts f us now p st)
  show ?case
    by (rule task_ran_structure [OF run_slot(3,1)]) (use collect_slot_permits [OF run_slot(2)] in simp_all)
next
  case (run_transaction s ts f us now result p st)
  show ?case
    by (rule task_ran_structure [OF run_transaction(3,1)])
       (use collect_transaction_permits [OF run_transaction(2)] in simp_all)
next
  case (run_timeout s ts task us p st)
  show ?case
    by (rule task_ran_structure [OF run_timeout(3,1)])
       (use collect_timeout_permits [OF run_timeout(2)] in simp_all)
next
  case (receive_batch s b cs now adm q r)
  then show ?case
    using pending_admit_bounded [OF receive_batch(2)]
    by (cases adm) (auto simp: structure_inv_def tasks_armed_def permits_total_def queue_bounded_def)
next
  case (drain_pending now s ready q)
  then show ?case
    using order.trans [OF length_filter_le]
    by (fastforce simp: structure_inv_def tasks_armed_def permits_total_def queue_bounded_def drain_resolved_filter)
qed (auto simp: structure_inv_def tasks_armed_def permits_total_def queue_bounded_def collect_drop_def Let_def
    release_permit_def)

section \<open>Reachable states\<close>

lemma initial_inv:
  assumes "initial_system max_windows in_flight rps cooldown ret capacity hold = Some s"
  shows "structure_inv in_flight capacity s \<and> ledger_inv (system_ledger s)"
proof -
  from assms obtain r g q where s: "registry_new max_windows = Some r" "gate_new in_flight rps cooldown ret = Some g"
      "pending_queue_new capacity hold = Some q"
      "s = \<lparr>cs_state = \<lparr>col_windows = r, col_gate = g, col_health = []\<rparr>, cs_claims = [], cs_tasks = [],
            cs_sending = [], cs_channel = [], cs_pending = q, cs_processing = []\<rparr>"
    by (auto simp: initial_system_def split: option.splits)
  have "sys_inv \<lparr>sys_registry = r, sys_claims = []\<rparr>" by (rule reachable_inv [OF reachable_init [OF s(1)]])
  moreover have "next_cell r = 0" using s(1) by (auto simp: registry_new_def split: if_splits)
  moreover have "pending_batches q = []" "queue_capacity q = capacity"
    using s(3) by (auto simp: pending_queue_new_def split: if_splits)
  moreover have "permits g = in_flight" using s(2) by (auto simp: gate_new_def split: if_splits)
  ultimately show ?thesis
    by (simp add: s(4) structure_inv_def tasks_armed_def permits_total_def queue_bounded_def system_ledger_def
        ledger_inv_def balanced_def owed_system_def)
qed

lemma collector_inv:
  "collector_reachable base64_decode in_flight capacity s
     \<Longrightarrow> structure_inv in_flight capacity s \<and> ledger_inv (system_ledger s)"
proof (induction rule: collector_reachable.induct)
  case (collector_init max_windows rps cooldown ret hold s)
  then show ?case by (rule initial_inv)
next
  case (collector_next s s')
  then show ?case
    using structure_inv_step [OF collector_next(2)] collector_step_ledger [OF collector_next(2)] ledger_inv_steps
    by (auto simp: structure_inv_def)
qed

abbreviation collector_steps ::
    "(string \<Rightarrow> ('b, u8 list) result) \<Rightarrow> collector_system \<Rightarrow> collector_system \<Rightarrow> bool" where
  "collector_steps base64_decode \<equiv> (collector_step base64_decode)\<^sup>*\<^sup>*"

lemma collector_steps_reachable:
  "collector_steps base64_decode s s' \<Longrightarrow> collector_reachable base64_decode in_flight capacity s
     \<Longrightarrow> collector_reachable base64_decode in_flight capacity s'"
  by (induction rule: rtranclp_induct) (auto intro: collector_next)

lemma ledger_steps_are_steps: "ledger_step\<^sup>*\<^sup>* sM sM' \<Longrightarrow> step\<^sup>*\<^sup>* (fst sM) (fst sM')"
  by (induction rule: rtranclp_induct) (auto dest: ledger_step_is_steps)

text \<open>Every run of the collector is a run of the registry's transition system.\<close>

lemma collector_refines_registry:
  assumes "collector_steps base64_decode s s'" and "collector_reachable base64_decode in_flight capacity s"
  shows "step\<^sup>*\<^sup>* (fst (system_ledger s)) (fst (system_ledger s'))"
  using assms
proof (induction rule: rtranclp_induct)
  case (step s1 s2)
  have "tasks_armed s1"
    using collector_inv [OF collector_steps_reachable [OF step(1,4)]] by (simp add: structure_inv_def)
  from ledger_steps_are_steps [OF collector_step_ledger [OF step(2) this]] step show ?case by simp
qed simp

section \<open>Draining\<close>

definition in_flight_items :: "collector_system \<Rightarrow> nat" where
  "in_flight_items s = length (cs_tasks s) + length (cs_sending s) + length (cs_channel s)
     + length (pending_batches (cs_pending s)) + length (cs_processing s)"

text \<open>In every state each item in flight can be dropped at once, and then there is one fewer.\<close>

lemma drop_one:
  assumes "in_flight_items s = Suc n"
  shows "\<exists>s'. collector_step base64_decode s s' \<and> in_flight_items s' = n"
proof -
  have "cs_tasks s \<noteq> [] \<or> cs_sending s \<noteq> [] \<or> cs_channel s \<noteq> [] \<or> pending_batches (cs_pending s) \<noteq> []
      \<or> cs_processing s \<noteq> []"
    using assms by (auto simp: in_flight_items_def)
  then consider t ts where "cs_tasks s = [] @ t # ts" | b bs where "cs_sending s = [] @ b # bs"
    | b bs where "cs_channel s = [] @ b # bs" | p ps where "pending_batches (cs_pending s) = [] @ p # ps"
    | b bs where "cs_processing s = [] @ b # bs"
    by (auto simp: neq_Nil_conv)
  then show ?thesis
  proof cases
    case 1
    from drop_task [OF this, of base64_decode] assms 1 show ?thesis by (intro exI conjI) (auto simp: in_flight_items_def)
  next
    case 2
    from drop_sending [OF this, of base64_decode] assms 2 show ?thesis by (intro exI conjI) (auto simp: in_flight_items_def)
  next
    case 3
    from drop_channel [OF this, of base64_decode] assms 3 show ?thesis by (intro exI conjI) (auto simp: in_flight_items_def)
  next
    case 4
    from drop_pending [OF this, of base64_decode] assms 4 show ?thesis by (intro exI conjI) (auto simp: in_flight_items_def)
  next
    case 5
    from drop_processing [OF this, of base64_decode] assms 5 show ?thesis by (intro exI conjI) (auto simp: in_flight_items_def)
  qed
qed

lemma drain: "\<exists>s'. collector_steps base64_decode s s' \<and> in_flight_items s' = 0"
proof (induction "in_flight_items s" arbitrary: s)
  case 0
  then show ?case by (metis rtranclp.rtrancl_refl)
next
  case (Suc n)
  then show ?case using drop_one [of s n] by (metis converse_rtranclp_into_rtranclp)
qed

lemma nothing_owed: "in_flight_items s = 0 \<Longrightarrow> owed_system s = {#}"
  by (simp add: in_flight_items_def owed_system_def)

lemma settled_claimable:
  assumes "reg_inv r" and "t \<in> set (retained r)" and "is_settled (cell_of r t)"
    and "cell_durable_window_id (cell_of r t) \<noteq> None" and "\<not> cell_finalized (cell_of r t)"
    and "\<not> cell_finalization_claimed (cell_of r t)"
    and "incomplete_reason (cell_of r t) \<noteq> None \<or> source_caught_up r t"
  shows "\<exists>cl r'. claim_finalization r t = (Some cl, r')"
proof -
  have "claimable r t t"
    using assms by (simp add: claimable_def token_eq_def reg_inv_def)
  then obtain u where u: "find (claimable r t) (retained r) = Some u" "claimable r t u"
    using assms(2) by (metis find_None_iff find_Some_iff not_None_eq)
  then have "u = t" by (cases u; cases t) (simp add: claimable_def token_eq_def)
  then show ?thesis
    using assms(6,7) u(1) by (auto simp: claim_finalization_def try_claim_finalization_def)
qed


definition example_system :: collector_system where
  "example_system =
     \<lparr>cs_state = \<lparr>col_windows = ex_new,
        col_gate = \<lparr>permits = 2, pacing = pacing_default, request_interval = 50000000,
          rate_limit_cooldown = 5, signatures = recent_signatures_new 7\<rparr>, col_health = []\<rparr>,
      cs_claims = [], cs_tasks = [], cs_sending = [], cs_channel = [],
      cs_pending = \<lparr>queue_capacity = 4, maximum_hold = 9, pending_batches = []\<rparr>, cs_processing = []\<rparr>"

lemma example_system_reachable: "collector_reachable base64_decode 2 4 example_system"
proof (rule collector_init)
  show "initial_system 1 2 20 5 7 4 9 = Some example_system"
    by (simp add: initial_system_def registry_new_def gate_new_def pending_queue_new_def example_system_def
        ex_new_def NANOS_PER_SECOND_def)
qed

text \<open>
  The work in flight is bounded. In every reachable state the tasks that hold a permit, among
  them all that have an HTTP request running, together with the free permits are exactly the
  configured number, so that no more requests run at once; and the holding queue never exceeds its
  capacity.
\<close>

theorem requests_in_flight_bounded:
  assumes "collector_reachable base64_decode in_flight capacity s"
  shows "length (filter holds_permit (cs_tasks s)) + permits (col_gate (cs_state s)) = in_flight
    \<and> length (filter (\<lambda>task. \<exists>f. task = AwaitingTransaction f) (cs_tasks s)) \<le> in_flight
    \<and> length (pending_batches (cs_pending s)) \<le> capacity"
proof -
  have "length (filter (\<lambda>task. \<exists>f. task = AwaitingTransaction f) ts) \<le> length (filter holds_permit ts)" for ts
    by (induction ts) auto
  then show ?thesis
    using collector_inv [OF assms]
    by (auto simp: structure_inv_def permits_total_def queue_bounded_def intro: le_trans [of _ "length (filter holds_permit (cs_tasks s))"])
qed

section \<open>Work that is lost\<close>

lemma settle_keeps_reason:
  "cell_incomplete_reason (cells (settle t r) a) = cell_incomplete_reason (cells r a)"
  by (simp add: settle_def mark_settled_def cell_of_def)

lemma fail_and_settle_marks:
  "marked (fail_and_settle t r) t"
  "cell_incomplete_reason (cells r a) \<noteq> WINDOW_COMPLETE
     \<Longrightarrow> cell_incomplete_reason (cells (fail_and_settle t r) a) \<noteq> WINDOW_COMPLETE"
  by (simp_all add: fail_and_settle_def settle_keeps_reason cell_of_def mark_incomplete_def WINDOW_COMPLETE_def)

lemma fail_all_marks: "t \<in> set ts \<or> marked r t \<Longrightarrow> marked (fold fail_and_settle ts r) t"
proof (induction ts arbitrary: r)
  case (Cons u ts)
  show ?case
    using Cons.IH [of "fail_and_settle u r"] Cons.prems fail_and_settle_marks(1) [of u r]
      fail_and_settle_marks(2) [of r "tok_cell t" u] by (auto simp: cell_of_def)
qed simp

definition batches_in_flight :: "collector_system \<Rightarrow> program_log_batch list" where
  "batches_in_flight s = cs_sending s @ cs_channel s @ map pending_batch (pending_batches (cs_pending s))
     @ cs_processing s"

text \<open>A step loses a token when it drops an unprocessed batch or a task that holds it.\<close>

definition loses :: "collector_system \<Rightarrow> collector_system \<Rightarrow> token \<Rightarrow> bool" where
  "loses s s' t \<longleftrightarrow>
     (\<exists>b\<in>set (batches_in_flight s). \<not> processing_succeeded b \<and> t \<in> set (window_tokens b)
          \<and> cs_state s' = drop_in b (cs_state s))
     \<or> (\<exists>task\<in>set (cs_tasks s). t \<in> set (tracked_tokens (frame_tracked (task_frame task)))
          \<and> cs_state s' = collect_drop task (cs_state s))"

lemma loses_marks: "loses s s' t \<Longrightarrow> marked (col_windows (cs_state s')) t"
  by (auto simp: loses_def batch_drop_def collect_drop_windows task_release_def tracked_guard_drop_def
      fail_all_marks)


text \<open>
  A run in which work is lost: a window is opened, confirmed and made durable, an event of it is
  admitted, and its batch is dropped before it reaches the channel.
\<close>

definition run_token :: token where
  "run_token = \<lparr>tok_generation = 0, tok_window = \<lparr>win_target = PumpMint active_mint, win_mint = active_mint,
     opened_at_unix_ms = 0, closes_at_unix_ms = 10\<rparr>, tok_cell = 0\<rparr>"

definition run_open :: registry where
  "run_open = ex_new\<lparr>next_cell := 1, next_generation := 1, windows := [(PumpMint active_mint, run_token)],
     cells := (\<lambda>_. fresh_cell)(0 := fresh_cell)\<rparr>"

definition run_durable :: registry where
  "run_durable = update_cell (snd \<circ> set_durable_window_id 1) run_token (update_cell (snd \<circ> confirm) run_token run_open)"

definition run_at :: "registry \<Rightarrow> collector_system" where
  "run_at r = example_system\<lparr>cs_state := (cs_state example_system)\<lparr>col_windows := r\<rparr>\<rparr>"

lemma run_at_other:
  assumes "step \<lparr>sys_registry = r, sys_claims = []\<rparr> \<lparr>sys_registry = r', sys_claims = []\<rparr>"
    and "counts_kept r r'" and "collector_reachable base64_decode 2 4 (run_at r)"
  shows "collector_reachable base64_decode 2 4 (run_at r')"
proof -
  have "collector_step base64_decode (run_at r) (run_at r')"
    using other_thread [of "run_at r" r' "[]" base64_decode] assms(1,2) by (simp add: run_at_def example_system_def)
  then show ?thesis using assms(3) by (rule collector_next [rotated])
qed

lemma run_provision: "provision_target ex_new (PumpMint active_mint) active_mint 0 10
    = (\<lparr>prov_token = run_token, newly_opened = True\<rparr>, run_open)"
  by (simp add: provision_target_def run_open_def ex_new_def run_token_def rotate_closed_windows_def
      matching_token_def open_window_def Let_def saturating_add_i64_def saturate_i64_def duration_ms_def
      i64_max_def i64_min_def)

lemma run_durable_reachable: "collector_reachable base64_decode 2 4 (run_at run_durable)"
proof -
  have "run_at ex_new = example_system" by (simp add: run_at_def example_system_def)
  then have "collector_reachable base64_decode 2 4 (run_at ex_new)" using example_system_reachable by simp
  then have "collector_reachable base64_decode 2 4 (run_at run_open)"
    by (rule run_at_other [rotated 2])
       (use step_provision [of "\<lparr>sys_registry = ex_new, sys_claims = []\<rparr>" "PumpMint active_mint" active_mint 0 10]
          provision_counts(1) [OF run_provision] in \<open>simp_all add: run_provision\<close>)
  then have "collector_reachable base64_decode 2 4 (run_at (update_cell (snd \<circ> confirm) run_token run_open))"
    by (rule run_at_other [rotated 2])
       (use step_confirm [of "\<lparr>sys_registry = run_open, sys_claims = []\<rparr>" run_token] in
         \<open>simp_all add: counts_kept_update confirm_def split: window_state.splits\<close>)
  then show ?thesis unfolding run_durable_def
    by (rule run_at_other [rotated 2])
       (use step_set_durable [of "\<lparr>sys_registry = update_cell (snd \<circ> confirm) run_token run_open, sys_claims = []\<rparr>" 1 run_token] in
         \<open>simp_all add: counts_kept_update set_durable_window_id_def split: option.splits\<close>)
qed

definition run_config :: collector_runtime_config where
  "run_config = \<lparr>col_network = SolanaMainnet, col_commitment = Confirmed, reconnect_delay = 1000,
     request_timeout = 5000, rpc_max_in_flight = 2, notification_processing_capacity = 4,
     subscription_idle_timeout = 60000, maximum_discovery_age = 10000, observation_window_duration = 10\<rparr>"

definition run_received :: received_notification where
  "run_received = \<lparr>received_note = active_note, received_time = 5\<rparr>"

definition run_batch :: program_log_batch where
  "run_batch = notification_batch run_received TrackedActivity [run_token]"

definition run_admitted :: registry where
  "run_admitted = update_cell (snd \<circ> mark_admitted) run_token (record_source_progress run_durable SourcePump 5)"

definition run_lost :: registry where
  "run_lost = batch_drop run_batch run_admitted"

definition run_closed :: registry where
  "run_closed = snd (finalization_candidates (record_source_progress run_lost SourcePump 20) 15)"

lemma run_durable_fields:
  "windows run_durable = [(PumpMint active_mint, run_token)]" "retained run_durable = []"
  "cells run_durable 0 = fresh_cell\<lparr>cell_state := WINDOW_CONFIRMED, cell_durable_window_id := Some 1\<rparr>"
  "latest_source_progress run_durable = (\<lambda>_. None)" "next_cell run_durable = 1"
  by (simp_all add: run_durable_def run_open_def ex_new_def run_token_def confirm_def fresh_cell_def
      set_durable_window_id_def was_confirmed_def)

lemma run_admits:
  "admit_matching_token (record_source_progress run_durable SourcePump 5) (PumpMint active_mint) 5
     = (Some run_token, run_admitted)"
  by (simp add: admit_matching_token_def matching_token_def run_durable_fields run_admitted_def is_open_at_def
      cell_of_def run_token_def fresh_cell_def mark_admitted_def checked_add_word_def)

lemma run_begins:
  "collect_begin active_decode run_config Pump run_received 5 5 0 (cs_state (run_at run_durable))
     = Some (Finished (OutcomeBatches [run_batch]), cs_state (run_at run_admitted))"
  using active_note_classified [OF run_admits]
  by (simp add: collect_begin_def run_received_def run_at_def on_windows_def Let_def tracked_activity_or_skip_def
      tracked_guard_new_def run_batch_def)

definition run_sending :: collector_system where
  "run_sending = (run_at run_admitted)\<lparr>cs_sending := [run_batch]\<rparr>"

lemma run_sending_reachable: "collector_reachable active_decode 2 4 run_sending"
proof -
  have "collector_step active_decode (run_at run_durable) run_sending"
    using run_begin [OF run_begins] by (simp add: run_sending_def run_at_def example_system_def)
  then show ?thesis by (rule collector_next [OF run_durable_reachable])
qed

lemma run_drops: "collector_step active_decode run_sending (run_at run_lost)"
  using drop_sending [of run_sending "[]" run_batch "[]" active_decode]
  by (simp add: run_sending_def run_at_def example_system_def run_lost_def on_windows_def)

lemma run_admitted_fields:
  "windows run_admitted = [(PumpMint active_mint, run_token)]" "retained run_admitted = []"
  "cells run_admitted 0 = (cells run_durable 0)\<lparr>cell_admitted := 1\<rparr>" "next_cell run_admitted = 1"
  by (simp_all add: run_admitted_def run_durable_fields run_token_def fresh_cell_def mark_admitted_def
      checked_add_word_def)

lemma run_lost_fields:
  "windows run_lost = [(PumpMint active_mint, run_token)]" "retained run_lost = []" "next_cell run_lost = 1"
  "cells run_lost 0 = (cells run_durable 0)\<lparr>cell_admitted := 1, cell_settled := 1, cell_incomplete_reason := 7\<rparr>"
  by (simp_all add: run_lost_def batch_drop_def run_batch_def notification_batch_def fail_and_settle_def settle_def
      run_admitted_fields run_durable_fields run_token_def fresh_cell_def mark_incomplete_def WINDOW_COMPLETE_def
      mark_settled_def cell_of_def)

lemma run_closed_fields:
  "retained run_closed = [run_token]" "cells run_closed 0 = cells run_lost 0"
  by (simp_all add: run_closed_def finalization_candidates_def Let_def rotate_closed_windows_def
      record_source_progress_def run_lost_fields run_durable_fields is_open_at_def run_token_def cell_of_def
      retire_target_def windows_remove_def retain_if_durable_def was_confirmed_def fresh_cell_def)

lemma run_continues: "collector_steps active_decode (run_at run_lost) (run_at run_closed)"
proof -
  let ?r = "record_source_progress run_lost SourcePump 20"
  have "collector_step active_decode (run_at run_lost) (run_at ?r)"
    using other_thread [of "run_at run_lost" ?r "[]" active_decode]
      step_progress [of "\<lparr>sys_registry = run_lost, sys_claims = []\<rparr>" SourcePump 20]
    by (simp add: run_at_def example_system_def counts_kept_same record_source_progress_def)
  moreover have "collector_step active_decode (run_at ?r) (run_at run_closed)"
    using other_thread [of "run_at ?r" run_closed "[]" active_decode]
      step_candidates [of "\<lparr>sys_registry = ?r, sys_claims = []\<rparr>" 15]
    by (simp add: run_at_def example_system_def run_closed_def finalization_candidates_def Let_def counts_kept_same)
  ultimately show ?thesis by (meson converse_rtranclp_into_rtranclp rtranclp.rtrancl_refl)
qed

lemma run_claim:
  "\<exists>cl r'. claim_finalization run_closed run_token = (Some cl, r')"
  by (simp add: claim_finalization_def run_closed_fields claimable_def token_eq_def cell_of_def run_lost_fields
      run_durable_fields run_token_def was_confirmed_def is_settled_def fresh_cell_def incomplete_reason_def
      reason_from_code_def try_claim_finalization_def)



theorem requests_in_flight_bounded_witness:
  "length (filter holds_permit (cs_tasks run_sending)) + permits (col_gate (cs_state run_sending)) = 2
   \<and> length (filter (\<lambda>task. \<exists>f. task = AwaitingTransaction f) (cs_tasks run_sending)) \<le> 2"
  using requests_in_flight_bounded [OF run_sending_reachable] by blast

section \<open>Reconnecting\<close>

lemma source_waits_bounds:
  assumes "reconnect_delay config \<le> delay" and "delay \<le> max MAX_PUBSUB_RECONNECT_DELAY (reconnect_delay config)"
  shows "list_all (\<lambda>w. reconnect_delay config \<le> w \<and> w \<le> max MAX_PUBSUB_RECONNECT_DELAY (reconnect_delay config))
    (source_waits config attempts delay)"
  using assms
proof (induction attempts arbitrary: delay)
  case (Cons a attempts)
  have next': "reconnect_delay config \<le> next_reconnect_delay d (reconnect_delay config)"
      "next_reconnect_delay d (reconnect_delay config) \<le> max MAX_PUBSUB_RECONNECT_DELAY (reconnect_delay config)"
    if "reconnect_delay config \<le> d" for d
    using that by (auto simp: next_reconnect_delay_def)
  show ?case
    using Cons.IH [OF next'] Cons.prems by (cases a) (auto simp: source_round_def Let_def)
qed simp

lemma capped_doubling: "min (min (d * 2) m * 2 ^ n) m = min (d * 2 * 2 ^ n) (m :: nat)"
proof (cases "d * 2 \<le> m")
  case False
  have "m * 1 \<le> m * 2 ^ n" "d * 2 * 1 \<le> d * 2 * 2 ^ n" by (rule mult_le_mono2; simp)+
  with False have "m \<le> m * 2 ^ n" "m \<le> d * 2 * 2 ^ n" by linarith+
  then show ?thesis using False by (simp add: min_absorb2)
qed (simp add: min_absorb1)

lemma failing_waits:
  assumes "list_all (\<lambda>a. \<forall>elapsed exit'. a \<noteq> Served elapsed exit') attempts"
    and "delay \<le> max MAX_PUBSUB_RECONNECT_DELAY (reconnect_delay config)"
  shows "source_waits config attempts delay
    = map (\<lambda>n. min (delay * 2 ^ n) (max MAX_PUBSUB_RECONNECT_DELAY (reconnect_delay config))) [0..<length attempts]"
  using assms
proof (induction attempts arbitrary: delay)
  case (Cons a attempts)
  let ?m = "max MAX_PUBSUB_RECONNECT_DELAY (reconnect_delay config)"
  have round: "source_round config a delay
      = ([Connecting, Disconnected], delay, next_reconnect_delay delay (reconnect_delay config))"
    using Cons.prems(1) by (cases a) (simp_all add: source_round_def)
  have "min (min (delay * 2) ?m * 2 ^ n) ?m = min (delay * 2 ^ Suc n) ?m" for n
    using capped_doubling [of delay ?m n] by (simp add: mult.assoc)
  then show ?case
    using Cons.IH [of "next_reconnect_delay delay (reconnect_delay config)"] Cons.prems
    by (simp add: round next_reconnect_delay_def upt_conv_Cons map_Suc_upt [symmetric] comp_def
        del: upt_Suc power_Suc)
qed simp

text \<open>
  A source backs off within bounds. Whatever happens to its subscriptions, a source waits at
  least the configured delay and at most the longer of that delay and thirty seconds before it
  reconnects; and while no subscription succeeds the waits double exactly until they reach the bound.
\<close>

theorem reconnect_backoff_exact:
  "list_all (\<lambda>w. reconnect_delay config \<le> w \<and> w \<le> max MAX_PUBSUB_RECONNECT_DELAY (reconnect_delay config))
     (source_waits config attempts (reconnect_delay config))
   \<and> (list_all (\<lambda>a. \<forall>elapsed exit'. a \<noteq> Served elapsed exit') attempts \<longrightarrow>
       source_waits config attempts (reconnect_delay config)
         = map (\<lambda>n. min (reconnect_delay config * 2 ^ n) (max MAX_PUBSUB_RECONNECT_DELAY (reconnect_delay config)))
             [0..<length attempts])"
  using source_waits_bounds [of config "reconnect_delay config" attempts]
    failing_waits [of attempts "reconnect_delay config" config] by simp

theorem reconnect_backoff_exact_witness:
  "source_waits run_config (replicate 6 SubscribeTimedOut) 1000 = [1000, 2000, 4000, 8000, 16000, 30000]"
proof -
  have "[0..<6] = [0, 1, 2, 3, 4, 5 :: nat]" by (simp add: upt_rec)
  then show ?thesis
    using reconnect_backoff_exact [of run_config "replicate 6 SubscribeTimedOut"]
    by (simp add: run_config_def MAX_PUBSUB_RECONNECT_DELAY_def list_all_iff)
qed

end
