(* ===== verification/Batch_Decode.thy ===== *)
theory Batch_Decode
  imports Intake_Correct Collector
begin

text \<open>
  Decoding a batch in \<open>apps/server/src/jobs/pipeline.rs\<close>: the direct events of the log are the
  canonical stream, the event CPIs of the fetched transaction corroborate them, and everything that
  is not understood or not corroborated is set aside as quarantined evidence. A \<open>reason_detail\<close> is
  the text of an error; the model keeps the error.
\<close>

section \<open>The model\<close>

record decoded_evidence =
  ev_decoded :: decoded_pump_event
  ev_raw_evidence :: "u8 list"

datatype ('b, 'j) reason_detail =
    DecodeDetail "'b pump_error"
  | ScopeDetail log_scope_error
  | NormalizationDetail "'j normalization_error"
  | TextDetail string

record ('b, 'j) quarantined_evidence =
  quar_coordinate :: chain_coordinate
  quar_reason_code :: string
  quar_reason_detail :: "('b, 'j) reason_detail"
  quar_raw_evidence :: "u8 list"

record ('b, 'j) decoded_batch =
  db_events :: "decoded_evidence list"
  db_quarantines :: "('b, 'j) quarantined_evidence list"

definition batch_coordinate :: "program_log_batch \<Rightarrow> u16 \<Rightarrow> u16 \<Rightarrow> chain_coordinate" where
  "batch_coordinate b instruction event =
     \<lparr>slot = batch_slot b, transaction_index = batch_transaction_index b, signature = batch_signature b,
      instruction_index = instruction, event_index = event\<rparr>"

text \<open>
  The three arms that both loops share: an event, a pinned event that is not of interest, or
  evidence that is set aside.
\<close>

definition sort_decoded ::
    "chain_coordinate \<Rightarrow> u8 list \<Rightarrow> ('b pump_error, decoded_pump_event) result
      \<Rightarrow> decoded_evidence list \<times> ('b, 'j) quarantined_evidence list" where
  "sort_decoded coordinate raw result =
     (case result of
        Inr d \<Rightarrow> ([\<lparr>ev_decoded = d, ev_raw_evidence = raw\<rparr>], [])
      | Inl (UnknownDiscriminator p disc) \<Rightarrow>
          if is_pinned_event_discriminator p disc then ([], [])
          else ([], [\<lparr>quar_coordinate = coordinate, quar_reason_code = ''UNKNOWN_PUMP_EVENT_DISCRIMINATOR'',
                      quar_reason_detail = DecodeDetail (UnknownDiscriminator p disc),
                      quar_raw_evidence = raw\<rparr>])
      | Inl source \<Rightarrow>
          ([], [\<lparr>quar_coordinate = coordinate, quar_reason_code = ''MALFORMED_PUMP_EVENT'',
                 quar_reason_detail = DecodeDetail source, quar_raw_evidence = raw\<rparr>]))"

text \<open>The loop over the event CPIs of the program, with a counter for each outer instruction.\<close>

definition event_cpis :: "pump_program \<Rightarrow> program_log_batch \<Rightarrow> transaction_instruction_record list" where
  "event_cpis program b =
     filter (\<lambda>i. is_inner i \<and> instr_program_id i = pump_program_id program \<and> is_anchor_event_cpi (instr_data i))
       (batch_instructions b)"

fun decode_cpis ::
    "program_log_batch \<Rightarrow> pump_program \<Rightarrow> transaction_instruction_record list \<Rightarrow> (u16, u16) btree
      \<Rightarrow> decoded_evidence list \<Rightarrow> ('b, 'j) quarantined_evidence list
      \<Rightarrow> (log_scope_error, decoded_evidence list \<times> ('b, 'j) quarantined_evidence list) result" where
  "decode_cpis b program [] indexes events quarantines = Inr (events, quarantines)"
| "decode_cpis b program (i # is) indexes events quarantines =
     (let outer = outer_instruction_index i;
          event_index = btree_get_or 0 indexes outer;
          coordinate = batch_coordinate b outer event_index in
      case checked_add_word event_index 1 of
        None \<Rightarrow> Inl (TooManyLogEvents u16_max)
      | Some next' \<Rightarrow>
          let (es, qs) = sort_decoded coordinate (instr_data i)
                (decode_cpi_event (pump_program_id program) coordinate (instr_data i))
          in decode_cpis b program is (btree_insert outer next' indexes) (events @ es) (quarantines @ qs))"

text \<open>The loop over the scoped log records.\<close>

fun decode_scoped ::
    "(string \<Rightarrow> ('b, u8 list) result) \<Rightarrow> pump_program \<Rightarrow> scoped_program_data list
      \<Rightarrow> decoded_evidence list \<times> ('b, 'j) quarantined_evidence list" where
  "decode_scoped base64_decode program [] = ([], [])"
| "decode_scoped base64_decode program (rec # recs) =
     (let (es, qs) =
            (case decode_program_data_bytes base64_decode (scoped_log rec) of
               Inl source \<Rightarrow>
                 ([], [\<lparr>quar_coordinate = scoped_coordinate rec, quar_reason_code = ''MALFORMED_PROGRAM_DATA'',
                        quar_reason_detail = DecodeDetail source,
                        quar_raw_evidence = map byte_of_char (scoped_log rec)\<rparr>])
             | Inr raw \<Rightarrow>
                 sort_decoded (scoped_coordinate rec) raw
                   (decode_anchor_event (pump_program_id program) (scoped_coordinate rec) raw));
          (es', qs') = decode_scoped base64_decode program recs
      in (es @ es', qs @ qs'))"

text \<open>Matching each event CPI with a direct event that is not taken yet.\<close>

definition corroborates :: "decoded_evidence \<Rightarrow> decoded_evidence \<Rightarrow> bool" where
  "corroborates cpi direct \<longleftrightarrow>
     instruction_index (decoded_coordinate (ev_decoded direct))
       = instruction_index (decoded_coordinate (ev_decoded cpi))
     \<and> decoded_event (ev_decoded direct) = decoded_event (ev_decoded cpi)"

definition unmatched_cpi :: "decoded_evidence \<Rightarrow> ('b, 'j) quarantined_evidence" where
  "unmatched_cpi cpi =
     \<lparr>quar_coordinate = decoded_coordinate (ev_decoded cpi),
      quar_reason_code = ''CPI_EVENT_WITHOUT_CANONICAL_LOG'',
      quar_reason_detail =
        TextDetail ''decoded Anchor event CPI had no matching direct program-data event'',
      quar_raw_evidence = ev_raw_evidence cpi\<rparr>"

fun match_cpis ::
    "decoded_evidence list \<Rightarrow> bool list \<Rightarrow> decoded_evidence list \<Rightarrow> ('b, 'j) quarantined_evidence list" where
  "match_cpis decoded matched [] = []"
| "match_cpis decoded matched (cpi # cpis) =
     (case find (\<lambda>(index, direct). \<not> matched ! index \<and> corroborates cpi direct) (enumerate 0 decoded) of
        Some (index, _) \<Rightarrow> match_cpis decoded (matched[index := True]) cpis
      | None \<Rightarrow> unmatched_cpi cpi # match_cpis decoded matched cpis)"

fun join_lines :: "string list \<Rightarrow> string" where
  "join_lines [] = []"
| "join_lines [line] = line"
| "join_lines (line # lines) = line @ CHR 0x0A # join_lines lines"

definition decode_batch_events ::
    "(string \<Rightarrow> ('b, u8 list) result) \<Rightarrow> program_log_batch \<Rightarrow> pump_program
      \<Rightarrow> (log_scope_error, ('b, 'j) decoded_batch) result" where
  "decode_batch_events base64_decode b program =
     result_bind (decode_cpis b program (event_cpis program b) [] [] []) (\<lambda>(cpi_events, quarantines).
       case scope_program_data_logs (pump_program_id program) (batch_slot b) (batch_transaction_index b)
              (batch_signature b) (batch_log_messages b) of
         Inl error \<Rightarrow>
           Inr \<lparr>db_events = [],
                db_quarantines = quarantines @
                  [\<lparr>quar_coordinate = batch_coordinate b 0 0, quar_reason_code = ''MALFORMED_LOG_SCOPE'',
                    quar_reason_detail = ScopeDetail error,
                    quar_raw_evidence = map byte_of_char (join_lines (batch_log_messages b))\<rparr>]\<rparr>
       | Inr scoped_logs \<Rightarrow>
           let (decoded, qs) = decode_scoped base64_decode program scoped_logs
           in Inr \<lparr>db_events = decoded,
                   db_quarantines = quarantines @ qs
                     @ match_cpis decoded (replicate (length decoded) False) cpi_events\<rparr>)"

section \<open>Matching is inclusion of multisets\<close>

definition event_place :: "decoded_evidence \<Rightarrow> u16 \<times> pump_event" where
  "event_place e = (instruction_index (decoded_coordinate (ev_decoded e)), decoded_event (ev_decoded e))"

lemma corroborates_place: "corroborates cpi direct \<longleftrightarrow> event_place direct = event_place cpi"
  by (simp add: corroborates_def event_place_def)

definition free_places :: "decoded_evidence list \<Rightarrow> bool list \<Rightarrow> (u16 \<times> pump_event) multiset" where
  "free_places decoded matched =
     mset (map (event_place \<circ> fst) (filter (\<lambda>p. \<not> snd p) (zip decoded matched)))"

lemma free_places_update:
  "length matched = length decoded \<Longrightarrow> i < length decoded \<Longrightarrow> \<not> matched ! i
     \<Longrightarrow> free_places decoded matched = add_mset (event_place (decoded ! i)) (free_places decoded (matched[i := True]))"
proof (induction decoded arbitrary: matched i)
  case (Cons d ds)
  then obtain m ms where m: "matched = m # ms" by (cases matched) auto
  show ?case
  proof (cases i)
    case (Suc j)
    with Cons m show ?thesis using Cons.IH [of ms j] by (auto simp: free_places_def)
  qed (use Cons.prems m in \<open>simp add: free_places_def\<close>)
qed simp

lemma free_places_iff:
  "length matched = length decoded \<Longrightarrow>
     k \<in># free_places decoded matched \<longleftrightarrow> (\<exists>i<length decoded. \<not> matched ! i \<and> event_place (decoded ! i) = k)"
  by (force simp: free_places_def set_zip)

lemma find_enumerate_None:
  "find P (enumerate 0 xs) = None \<longleftrightarrow> (\<forall>i<length xs. \<not> P (i, xs ! i))"
  by (auto simp: find_None_iff in_set_enumerate_eq)

lemma find_enumerate_Some:
  "find P (enumerate 0 xs) = Some (i, x) \<Longrightarrow> i < length xs \<and> x = xs ! i \<and> P (i, x)"
  by (auto simp: find_Some_iff nth_enumerate_eq)

lemma match_cpis_places:
  "length matched = length decoded \<Longrightarrow>
     \<exists>left. match_cpis decoded matched cpis = (map unmatched_cpi left :: ('b, 'j) quarantined_evidence list)
       \<and> set left \<subseteq> set cpis
       \<and> mset (map event_place left) = mset (map event_place cpis) - free_places decoded matched"
proof (induction cpis arbitrary: matched)
  case (Cons c cs)
  let ?P = "\<lambda>(index, direct). \<not> matched ! index \<and> corroborates c direct"
  show ?case
  proof (cases "find ?P (enumerate 0 decoded)")
    case None
    then have "event_place c \<notin># free_places decoded matched"
      using Cons.prems by (auto simp: find_enumerate_None free_places_iff corroborates_place)
    moreover obtain left where "match_cpis decoded matched cs = (map unmatched_cpi left :: ('b, 'j) quarantined_evidence list)"
        "set left \<subseteq> set cs" "mset (map event_place left) = mset (map event_place cs) - free_places decoded matched"
      using Cons.IH [OF Cons.prems] by blast
    ultimately show ?thesis using None
      by (intro exI [of _ "c # left"]) (auto simp: add_mset_diff_bothsides)
  next
    case (Some p)
    obtain i d where p: "p = (i, d)" by (cases p)
    have i: "i < length decoded" "\<not> matched ! i" "event_place (decoded ! i) = event_place c"
      using find_enumerate_Some [of ?P decoded i d] Some p by (auto simp: corroborates_place)
    obtain left where left: "match_cpis decoded (matched[i := True]) cs = (map unmatched_cpi left :: ('b, 'j) quarantined_evidence list)"
        "set left \<subseteq> set cs"
        "mset (map event_place left) = mset (map event_place cs) - free_places decoded (matched[i := True])"
      using Cons.IH [of "matched[i := True]"] Cons.prems by auto
    show ?thesis
      using left Some p i free_places_update [of matched decoded i] Cons.prems
      by (intro exI [of _ left]) auto
  qed
qed simp

lemma match_cpis_new:
  "\<exists>left. match_cpis decoded (replicate (length decoded) False) cpis
       = (map unmatched_cpi left :: ('b, 'j) quarantined_evidence list)
     \<and> set left \<subseteq> set cpis
     \<and> mset (map event_place left) = mset (map event_place cpis) - mset (map event_place decoded)"
proof -
  have "free_places decoded (replicate (length decoded) False) = mset (map event_place decoded)"
    by (induction decoded) (simp_all add: free_places_def)
  then show ?thesis using match_cpis_places [where 'b = 'b and 'j = 'j, of "replicate (length decoded) False" decoded cpis] by simp
qed

end
