(* ===== verification/Batch_Decode_Correct.thy ===== *)
theory Batch_Decode_Correct
  imports Batch_Decode Intake_Example
begin

text \<open>
  What decoding a batch guarantees: exactly the understood records of the log become events,
  nothing that was not understood or not corroborated goes unnoticed, and the identity of an event
  does not depend on the path on which its transaction was collected.
\<close>

section \<open>Both loops sort what they decode\<close>

definition decodes_or_pinned :: "('b pump_error, 'a) result \<Rightarrow> bool" where
  "decodes_or_pinned result \<longleftrightarrow>
     (case result of
        Inr _ \<Rightarrow> True
      | Inl (UnknownDiscriminator p disc) \<Rightarrow> is_pinned_event_discriminator p disc
      | Inl _ \<Rightarrow> False)"

lemma sort_decoded_parts:
  "fst (sort_decoded c raw result) =
     (case result of Inr d \<Rightarrow> [\<lparr>ev_decoded = d, ev_raw_evidence = raw\<rparr>] | Inl _ \<Rightarrow> [])"
  "snd (sort_decoded c raw result) = [] \<longleftrightarrow> decodes_or_pinned result"
  by (auto simp: sort_decoded_def decodes_or_pinned_def split: sum.split decode_error.split)

lemma understood_iff:
  "understood base64_decode program r \<longleftrightarrow>
     decodes_or_pinned (decode_program_data_log base64_decode (pump_program_id program) (scoped_coordinate r) (scoped_log r))"
  by (auto simp: understood_def decodes_or_pinned_def split: sum.split decode_error.split)

lemma program_data_bytes_error:
  "decode_program_data_bytes base64_decode line = Inl e \<Longrightarrow> e = InvalidProgramDataLog \<or> (\<exists>b. e = InvalidBase64 b)"
  by (auto simp: decode_program_data_bytes_def ok_or_def map_err_def split: option.splits sum.splits)

text \<open>What one record of the log contributes.\<close>

definition record_evidence ::
    "(string \<Rightarrow> ('b, u8 list) result) \<Rightarrow> pump_program \<Rightarrow> scoped_program_data \<Rightarrow> decoded_evidence list" where
  "record_evidence base64_decode program r =
     (case decode_program_data_bytes base64_decode (scoped_log r) of
        Inl _ \<Rightarrow> []
      | Inr raw \<Rightarrow> map (\<lambda>d. \<lparr>ev_decoded = d, ev_raw_evidence = raw\<rparr>) (record_events base64_decode program r))"

lemma decode_scoped_events:
  fixes base64_decode :: "string \<Rightarrow> ('b, u8 list) result"
  shows "fst (decode_scoped base64_decode program rs :: _ \<times> ('b, 'j) quarantined_evidence list)
     = concat (map (record_evidence base64_decode program) rs)"
proof (induction rs)
  case (Cons r rs)
  then show ?case
    by (auto simp: record_evidence_def record_events_def decode_program_data_log_def
        sort_decoded_parts case_prod_unfold Let_def split: sum.split)
qed simp

lemma decode_scoped_quarantines:
  fixes base64_decode :: "string \<Rightarrow> ('b, u8 list) result"
  shows "snd (decode_scoped base64_decode program rs :: _ \<times> ('b, 'j) quarantined_evidence list) = []
     \<longleftrightarrow> (\<forall>r\<in>set rs. understood base64_decode program r)"
proof (induction rs)
  case (Cons r rs)
  then show ?case
    by (auto simp: understood_iff decode_program_data_log_def decodes_or_pinned_def
        sort_decoded_parts case_prod_unfold Let_def split: sum.split dest!: program_data_bytes_error)
qed simp

section \<open>The event CPIs\<close>

text \<open>Decoding an inner instruction does not depend on the index its event gets.\<close>

definition cpi_result ::
    "program_log_batch \<Rightarrow> pump_program \<Rightarrow> transaction_instruction_record
      \<Rightarrow> ('b pump_error, decoded_pump_event) result" where
  "cpi_result b program i =
     decode_cpi_event (pump_program_id program) (batch_coordinate b (outer_instruction_index i) 0) (instr_data i)"

definition cpi_places ::
    "program_log_batch \<Rightarrow> pump_program \<Rightarrow> transaction_instruction_record \<Rightarrow> (u16 \<times> pump_event) list" where
  "cpi_places b program i =
     (case cpi_result b program i :: (unit pump_error, decoded_pump_event) result of
        Inr d \<Rightarrow> [(outer_instruction_index i, decoded_event d)]
      | Inl _ \<Rightarrow> [])"

lemma decode_cpi_event_iff:
  "decode_cpi_event pid c data = (Inr d :: ('b pump_error, decoded_pump_event) result) \<longleftrightarrow>
     is_anchor_event_cpi data \<and> pid = pump_program_id (event_program (decoded_event d)) \<and> signature c \<noteq> []
     \<and> decoded_program d = event_program (decoded_event d) \<and> decoded_coordinate d = c
     \<and> valid_event (decoded_event d) \<and> strip_cpi_prefix data = event_bytes (decoded_event d)"
  by (simp add: decode_cpi_event_def decode_anchor_event_iff)

lemma case_Inr_cong: "\<forall>d. x = Inr d \<longleftrightarrow> y = Inr d \<Longrightarrow> case_sum (\<lambda>_. z) f x = case_sum (\<lambda>_. z) f y"
  by (cases x; cases y) (auto, metis)

lemma decode_at_index:
  fixes f :: "chain_coordinate \<Rightarrow> chain_coordinate"
  assumes "signature (f c) = signature c"
  shows "decode_anchor_event pid (f c) data =
     (map_sum id (\<lambda>d. d\<lparr>decoded_coordinate := f c\<rparr>) (decode_anchor_event pid c data)
        :: ('b pump_error, decoded_pump_event) result)"
  using assms
  by (cases "supported_program pid") (auto simp: decode_anchor_event_def ok_or_def Let_def map_sum_bind case_prod_unfold)

lemma decodes_or_pinned_map [simp]: "decodes_or_pinned (map_sum id f x) = decodes_or_pinned x"
  by (cases x) (simp_all add: decodes_or_pinned_def)

lemma cpi_at_index:
  "decode_cpi_event pid (batch_coordinate b o' k) data =
     (map_sum id (\<lambda>d. d\<lparr>decoded_coordinate := batch_coordinate b o' k\<rparr>)
        (decode_cpi_event pid (batch_coordinate b o' 0) data) :: ('b pump_error, decoded_pump_event) result)"
  using decode_at_index [where 'b = 'b, of "\<lambda>_. batch_coordinate b o' k" "batch_coordinate b o' 0" pid data]
  by (simp add: decode_cpi_event_def batch_coordinate_def)

lemma cpi_places_result:
  "cpi_places b program i =
     (case cpi_result b program i :: ('b pump_error, decoded_pump_event) result of
        Inr d \<Rightarrow> [(outer_instruction_index i, decoded_event d)]
      | Inl _ \<Rightarrow> [])"
  unfolding cpi_places_def by (rule case_Inr_cong) (simp add: cpi_result_def decode_cpi_event_iff)

lemma sorted_cpi:
  fixes c b program i k
  defines "c \<equiv> batch_coordinate b (outer_instruction_index i) k"
  defines "p \<equiv> sort_decoded c (instr_data i)
    (decode_cpi_event (pump_program_id program) c (instr_data i) :: ('b pump_error, decoded_pump_event) result)
      :: _ \<times> ('b, 'j) quarantined_evidence list"
  shows "map event_place (fst p) = cpi_places b program i"
    and "snd p = [] \<longleftrightarrow> decodes_or_pinned (cpi_result b program i :: ('b pump_error, decoded_pump_event) result)"
proof -
  have r: "decode_cpi_event (pump_program_id program) c (instr_data i) =
      (map_sum id (\<lambda>d. d\<lparr>decoded_coordinate := c\<rparr>) (cpi_result b program i)
        :: ('b pump_error, decoded_pump_event) result)"
    unfolding c_def cpi_result_def by (rule cpi_at_index)
  show "map event_place (fst p) = cpi_places b program i"
    unfolding p_def r sort_decoded_parts cpi_places_result [where 'b = 'b]
    by (simp add: event_place_def c_def batch_coordinate_def split: sum.split)
  show "snd p = [] \<longleftrightarrow> decodes_or_pinned (cpi_result b program i :: ('b pump_error, decoded_pump_event) result)"
    unfolding p_def r sort_decoded_parts by simp
qed

lemma decode_cpis_parts:
  assumes "decode_cpis b program is m events quarantines
    = Inr (es, qs :: ('b, 'j) quarantined_evidence list)"
  shows "\<exists>es' qs'. es = events @ es' \<and> qs = quarantines @ qs'
    \<and> map event_place es' = concat (map (cpi_places b program) is)
    \<and> (qs' = [] \<longleftrightarrow> (\<forall>i\<in>set is. decodes_or_pinned
          (cpi_result b program i :: ('b pump_error, decoded_pump_event) result)))"
  using assms
proof (induction "is" arbitrary: m events quarantines)
  case (Cons i "is")
  let ?k = "btree_get_or 0 m (outer_instruction_index i)"
  let ?c = "batch_coordinate b (outer_instruction_index i) ?k"
  let ?p = "sort_decoded ?c (instr_data i)
    (decode_cpi_event (pump_program_id program) ?c (instr_data i) :: ('b pump_error, decoded_pump_event) result)
      :: _ \<times> ('b, 'j) quarantined_evidence list"
  obtain k' where "decode_cpis b program is (btree_insert (outer_instruction_index i) k' m)
      (events @ fst ?p) (quarantines @ snd ?p) = Inr (es, qs)"
    using Cons.prems by (auto simp: Let_def case_prod_unfold split: option.splits)
  from Cons.IH [OF this] obtain es' qs' where "es = events @ fst ?p @ es'" "qs = quarantines @ snd ?p @ qs'"
      "map event_place es' = concat (map (cpi_places b program) is)"
      "qs' = [] \<longleftrightarrow> (\<forall>i\<in>set is. decodes_or_pinned
          (cpi_result b program i :: ('b pump_error, decoded_pump_event) result))"
    by auto
  then show ?case
    using sorted_cpi [where 'b = 'b and 'j = 'j, of b i ?k program]
    by (intro exI [of _ "fst ?p @ es'"] exI [of _ "snd ?p @ qs'"]) auto
qed auto

text \<open>The counters overflow exactly when an instruction has more event CPIs than they can number.\<close>

lemma decode_cpis_fails:
  "btree_ordered m \<Longrightarrow>
     (decode_cpis b program is m events quarantines
        :: (_, _ \<times> ('b, 'j) quarantined_evidence list) result) = Inl e
     \<longleftrightarrow> e = TooManyLogEvents u16_max
       \<and> (\<exists>j. 2 ^ 16 \<le> unat (btree_get_or 0 m j) + length (filter (\<lambda>i. outer_instruction_index i = j) is))"
proof (induction "is" arbitrary: m events quarantines)
  case Nil
  have "\<not> 2 ^ 16 \<le> unat (btree_get_or 0 m j)" for j :: u16
    using unat_bound [of "btree_get_or 0 m j"] by simp
  then show ?case by simp
next
  case (Cons i "is")
  let ?o = "outer_instruction_index i"
  let ?k = "btree_get_or 0 m ?o"
  show ?case
  proof (cases "checked_add_word ?k 1")
    case None
    then have "2 ^ 16 \<le> unat ?k + 1" by (simp add: checked_simps)
    with None show ?thesis by (auto simp: Let_def intro!: exI [of _ ?o])
  next
    case (Some k')
    then have k': "unat k' = unat ?k + 1" by (simp add: checked_simps)
    let ?m = "btree_insert ?o k' m"
    have "unat (btree_get_or 0 ?m j) + length (filter (\<lambda>i. outer_instruction_index i = j) is)
        = unat (btree_get_or 0 m j) + length (filter (\<lambda>i. outer_instruction_index i = j) (i # is))" for j
      using k' Cons.prems by (simp add: btree_get_or_def btree_simps)
    then show ?thesis
      using Cons.IH [of ?m] Cons.prems Some by (simp add: Let_def case_prod_unfold btree.invar_insert)
  qed
qed

section \<open>Decoding a batch\<close>

abbreviation batch_scope :: "program_log_batch \<Rightarrow> pump_program \<Rightarrow> (log_scope_error, scoped_program_data list) result" where
  "batch_scope b program \<equiv> scope_program_data_logs (pump_program_id program) (batch_slot b)
     (batch_transaction_index b) (batch_signature b) (batch_log_messages b)"

lemma decode_batch_events_cases:
  fixes base64_decode :: "string \<Rightarrow> ('b, u8 list) result"
  assumes "decode_batch_events base64_decode b program = Inr (r :: ('b, 'j) decoded_batch)"
  obtains (Unscoped) e where "batch_scope b program = Inl e" "db_events r = []" "db_quarantines r \<noteq> []"
  | (Scoped) scoped cs qs where "batch_scope b program = Inr scoped"
      "decode_cpis b program (event_cpis program b) [] [] [] = Inr (cs, qs :: ('b, 'j) quarantined_evidence list)"
      "db_events r = concat (map (record_evidence base64_decode program) scoped)"
      "db_quarantines r = qs @ snd (decode_scoped base64_decode program scoped)
         @ match_cpis (db_events r) (replicate (length (db_events r)) False) cs"
proof (cases "batch_scope b program")
  case (Inl e)
  with assms Unscoped show ?thesis by (auto simp: decode_batch_events_def result_simps)
next
  case (Inr scoped)
  with assms obtain cs qs where
      "decode_cpis b program (event_cpis program b) [] [] [] = Inr (cs, qs :: ('b, 'j) quarantined_evidence list)"
      "r = \<lparr>db_events = fst (decode_scoped base64_decode program scoped :: _ \<times> ('b, 'j) quarantined_evidence list),
            db_quarantines = qs @ snd (decode_scoped base64_decode program scoped)
              @ match_cpis (fst (decode_scoped base64_decode program scoped :: _ \<times> ('b, 'j) quarantined_evidence list))
                (replicate (length (fst (decode_scoped base64_decode program scoped :: _ \<times> ('b, 'j) quarantined_evidence list))) False) cs\<rparr>"
    by (auto simp: decode_batch_events_def result_simps Let_def case_prod_unfold)
  then show ?thesis by (intro Scoped [OF Inr]) (simp_all add: decode_scoped_events)
qed

text \<open>
  C35: decoding sets aside exactly the evidence that does not hold up. The events of a decoded batch
  are those of the scoped records of its log, in order and each with the bytes it was read from; and
  nothing is set aside if and only if the log could be scoped, every record and every event CPI of
  the program decodes or is a pinned event that is not of interest, and the events of the CPIs of
  each instruction are, counted with multiplicity, among the direct events of that instruction.
\<close>

theorem quarantine_exact:
  fixes base64_decode :: "string \<Rightarrow> ('b, u8 list) result"
  assumes "decode_batch_events base64_decode b program = Inr (r :: ('b, 'j) decoded_batch)"
  shows "db_events r = (case batch_scope b program of
        Inl _ \<Rightarrow> [] | Inr scoped \<Rightarrow> concat (map (record_evidence base64_decode program) scoped))
    \<and> (db_quarantines r = [] \<longleftrightarrow>
        (\<exists>scoped. batch_scope b program = Inr scoped \<and> (\<forall>rec\<in>set scoped. understood base64_decode program rec))
        \<and> (\<forall>i\<in>set (event_cpis program b).
             decodes_or_pinned (cpi_result b program i :: ('b pump_error, decoded_pump_event) result))
        \<and> mset (concat (map (cpi_places b program) (event_cpis program b))) \<subseteq># mset (map event_place (db_events r)))"
  using assms
proof (cases rule: decode_batch_events_cases)
  case (Scoped scoped cs qs)
  obtain left where left: "match_cpis (db_events r) (replicate (length (db_events r)) False) cs
        = (map unmatched_cpi left :: ('b, 'j) quarantined_evidence list)"
      "mset (map event_place left) = mset (map event_place cs) - mset (map event_place (db_events r))"
    using match_cpis_new [where 'b = 'b and 'j = 'j, of "db_events r" cs] by blast
  have cs: "map event_place cs = concat (map (cpi_places b program) (event_cpis program b))"
    "qs = [] \<longleftrightarrow> (\<forall>i\<in>set (event_cpis program b).
        decodes_or_pinned (cpi_result b program i :: ('b pump_error, decoded_pump_event) result))"
    using decode_cpis_parts [OF Scoped(2)] by auto
  have "left = [] \<longleftrightarrow> mset (map event_place cs) \<subseteq># mset (map event_place (db_events r))"
    using left(2) by (metis Diff_eq_empty_iff_mset map_is_Nil_conv mset_zero_iff)
  then show ?thesis using Scoped left(1) cs decode_scoped_quarantines [where 'b = 'b and 'j = 'j, of base64_decode program scoped]
    by auto
qed simp

lemma decode_batch_Inl:
  fixes base64_decode :: "string \<Rightarrow> ('b, u8 list) result"
  shows "(decode_batch_events base64_decode b program :: (_, ('b, 'j) decoded_batch) result) = Inl e
    \<longleftrightarrow> e = TooManyLogEvents u16_max
      \<and> (\<exists>j. 2 ^ 16 \<le> length (filter (\<lambda>i. outer_instruction_index i = j) (event_cpis program b)))"
proof -
  have "(decode_batch_events base64_decode b program :: (_, ('b, 'j) decoded_batch) result) = Inl e
      \<longleftrightarrow> (decode_cpis b program (event_cpis program b) [] [] []
             :: (_, _ \<times> ('b, 'j) quarantined_evidence list) result) = Inl e"
    by (cases "batch_scope b program") (auto simp: decode_batch_events_def result_simps Let_def case_prod_unfold)
  then show ?thesis
    using decode_cpis_fails [where 'b = 'b and 'j = 'j, of "[]" b program "event_cpis program b" "[]" "[]" e]
    by (simp add: btree_get_or_def btree_simps)
qed

lemma decode_batch_total:
  fixes base64_decode :: "string \<Rightarrow> ('b, u8 list) result"
  assumes "length (event_cpis program b) < 2 ^ 16"
  obtains r where "decode_batch_events base64_decode b program = Inr (r :: ('b, 'j) decoded_batch)"
proof -
  have "\<not> 2 ^ 16 \<le> length (filter P (event_cpis program b))" for P
    using assms length_filter_le [of P "event_cpis program b"] by linarith
  then show ?thesis
    using decode_batch_Inl [where 'b = 'b and 'j = 'j, of base64_decode b program] that
    by (cases "decode_batch_events base64_decode b program :: (_, ('b, 'j) decoded_batch) result") auto
qed

section \<open>One identity on every path\<close>

definition at_transaction_index :: "u64 option \<Rightarrow> chain_coordinate \<Rightarrow> chain_coordinate" where
  "at_transaction_index tx c = c\<lparr>transaction_index := tx\<rparr>"

definition scoped_at :: "u64 option \<Rightarrow> scoped_program_data \<Rightarrow> scoped_program_data" where
  "scoped_at tx r = r\<lparr>scoped_coordinate := at_transaction_index tx (scoped_coordinate r)\<rparr>"

definition evidence_at :: "u64 option \<Rightarrow> decoded_evidence \<Rightarrow> decoded_evidence" where
  "evidence_at tx e = e\<lparr>ev_decoded := (ev_decoded e)\<lparr>decoded_coordinate :=
     at_transaction_index tx (decoded_coordinate (ev_decoded e))\<rparr>\<rparr>"

definition state_at :: "u64 option \<Rightarrow> scope_state \<Rightarrow> scope_state" where
  "state_at tx s = s\<lparr>scope_scoped := map (scoped_at tx) (scope_scoped s)\<rparr>"

lemma scope_step_at:
  "scope_step pid slot' tx' sig line (state_at tx' s) = map_sum id (state_at tx') (scope_step pid slot' tx sig line s)"
  by (auto simp: scope_step_def scope_invoke_def scope_exit_def scope_data_def state_at_def scoped_at_def
      at_transaction_index_def ok_or_def Let_def map_sum_bind split: option.split list.split)

lemma walk_scope_at:
  "walk (scope_step pid slot' tx' sig) logs (state_at tx' s)
     = map_sum id (state_at tx') (walk (scope_step pid slot' tx sig) logs s)"
proof (induction logs arbitrary: s)
  case (Cons line logs)
  show ?case
    using Cons.IH by (cases "scope_step pid slot' tx sig line s") (simp_all add: scope_step_at [of pid slot' tx' sig line s tx])
qed simp

lemma scope_at:
  "scope_program_data_logs pid slot' tx' sig logs
     = map_sum id (map (scoped_at tx')) (scope_program_data_logs pid slot' tx sig logs)"
proof -
  have "state_at tx' scope_init = scope_init" by (simp add: state_at_def scope_init_def)
  then have "walk (scope_step pid slot' tx' sig) logs scope_init
      = map_sum id (state_at tx') (walk (scope_step pid slot' tx sig) logs scope_init)"
    using walk_scope_at [of pid slot' tx' sig logs scope_init tx] by simp
  then show ?thesis
    by (cases "walk (scope_step pid slot' tx sig) logs scope_init")
      (simp_all add: scope_program_data_logs_def state_at_def)
qed

lemma record_evidence_at:
  fixes base64_decode :: "string \<Rightarrow> ('b, u8 list) result"
  shows "record_evidence base64_decode program (scoped_at tx r) = map (evidence_at tx) (record_evidence base64_decode program r)"
proof (cases "decode_program_data_bytes base64_decode (scoped_log r)")
  case (Inr raw)
  have "decode_anchor_event (pump_program_id program) (at_transaction_index tx (scoped_coordinate r)) raw =
      (map_sum id (\<lambda>d. d\<lparr>decoded_coordinate := at_transaction_index tx (scoped_coordinate r)\<rparr>)
        (decode_anchor_event (pump_program_id program) (scoped_coordinate r) raw)
          :: ('b pump_error, decoded_pump_event) result)"
    by (rule decode_at_index) (simp add: at_transaction_index_def)
  moreover have "decoded_coordinate d = scoped_coordinate r"
    if "decode_anchor_event (pump_program_id program) (scoped_coordinate r) raw
      = (Inr d :: ('b pump_error, decoded_pump_event) result)" for d
    using that by (simp add: decode_anchor_event_iff)
  ultimately show ?thesis using Inr
    by (cases "decode_anchor_event (pump_program_id program) (scoped_coordinate r) raw
          :: ('b pump_error, decoded_pump_event) result")
      (simp_all add: record_evidence_def record_events_def decode_program_data_log_def scoped_at_def evidence_at_def)
qed (simp add: record_evidence_def scoped_at_def)

text \<open>
  C36: an event has one identity on every path. However a transaction was collected, from the
  notification or by fetching it with its inner instructions, the same log gives the same events,
  each with the same slot, signature, instruction, event index and evidence; only the transaction
  index, which a notification does not carry, is that of the batch.
\<close>

theorem identity_path_independent:
  fixes base64_decode :: "string \<Rightarrow> ('b, u8 list) result"
  assumes "decode_batch_events base64_decode b program = Inr (r :: ('b, 'j) decoded_batch)"
    and "decode_batch_events base64_decode b' program = Inr (r' :: ('b, 'j) decoded_batch)"
    and "batch_slot b' = batch_slot b" and "batch_signature b' = batch_signature b"
    and "batch_log_messages b' = batch_log_messages b"
  shows "db_events r' = map (evidence_at (batch_transaction_index b')) (db_events r)"
proof -
  have scope: "batch_scope b' program = map_sum id (map (scoped_at (batch_transaction_index b'))) (batch_scope b program)"
    unfolding assms(3,4,5) by (rule scope_at)
  have events: "db_events x = (case batch_scope y program of
      Inl _ \<Rightarrow> [] | Inr scoped \<Rightarrow> concat (map (record_evidence base64_decode program) scoped))"
    if "decode_batch_events base64_decode y program = Inr (x :: ('b, 'j) decoded_batch)" for x y
    using that by (cases rule: decode_batch_events_cases) simp_all
  show ?thesis
    unfolding events [OF assms(1)] events [OF assms(2)] scope
    by (cases "batch_scope b program") (simp_all add: record_evidence_at map_concat comp_def)
qed

section \<open>An example\<close>

definition active_cpi :: transaction_instruction_record where
  "active_cpi = \<lparr>outer_instruction_index = 0, inner_instruction_index = Some 0, stack_height = Some 2,
     instr_program_id = pump_program_id Pump,
     instr_data = ANCHOR_EVENT_CPI_DISCRIMINATOR @ event_bytes example_complete\<rparr>"

definition active_transaction :: transaction_record where
  "active_transaction = \<lparr>tx_slot = 7, tx_transaction_index = Some 3, tx_signature = ''sig'',
     tx_block_time_unix_seconds = None, tx_instructions = [active_cpi],
     tx_log_messages = note_log_messages active_note, tx_transaction_error = None\<rparr>"

abbreviation active_fetched :: "token list \<Rightarrow> program_log_batch" where
  "active_fetched ts \<equiv> transaction_batch active_transaction 5 TrackedActivity ts"

abbreviation active_notified :: "token list \<Rightarrow> program_log_batch" where
  "active_notified ts \<equiv> notification_batch \<lparr>received_note = active_note, received_time = 5\<rparr> TrackedActivity ts"

definition active_evidence :: decoded_evidence where
  "active_evidence = \<lparr>ev_decoded = \<lparr>decoded_program = Pump, decoded_coordinate = event_coordinate 7 ''sig'' 0 0,
     decoded_event = example_complete\<rparr>, ev_raw_evidence = event_bytes example_complete\<rparr>"

lemma active_record_evidence: "record_evidence active_decode Pump active_record = [active_evidence]"
  using active_decodes
  by (simp add: record_evidence_def record_events_def active_evidence_def decode_program_data_bytes_def
      active_decode_def active_record_def strip_prefix_def starts_with_def PROGRAM_DATA_PREFIX_def ok_or_def
      map_err_def del: pump_program_id.simps)

lemma active_scopes:
  "batch_scope (active_notified ts) Pump = Inr [active_record]"
  "batch_scope (active_fetched ts) Pump = Inr [scoped_at (Some 3) active_record]"
  using active_scoped scope_at [of "pump_program_id Pump" 7 "Some 3" "''sig''" "note_log_messages active_note" None]
  by (simp_all add: notification_batch_def transaction_batch_def active_transaction_def active_note_def
      del: pump_program_id.simps)

lemma active_cpis:
  "event_cpis Pump (active_notified ts) = []" "event_cpis Pump (active_fetched ts) = [active_cpi]"
  by (simp_all add: event_cpis_def notification_batch_def transaction_batch_def active_transaction_def
      active_cpi_def is_inner_def is_anchor_event_cpi_def ANCHOR_EVENT_CPI_DISCRIMINATOR_def del: pump_program_id.simps)

lemma example_complete_valid: "valid_event example_complete"
  by (simp add: example_complete_def valid_pump_complete_def valid_pubkey_encode in_range_def)

lemma active_cpi_result:
  "cpi_result (active_fetched ts) Pump active_cpi =
     (Inr \<lparr>decoded_program = Pump, decoded_coordinate = batch_coordinate (active_fetched ts) 0 0,
           decoded_event = example_complete\<rparr> :: ('b pump_error, decoded_pump_event) result)"
  unfolding cpi_result_def decode_cpi_event_iff
  using example_complete_valid
  by (simp add: active_cpi_def is_anchor_event_cpi_def strip_cpi_prefix_def ANCHOR_EVENT_CPI_DISCRIMINATOR_def
      batch_coordinate_def transaction_batch_def active_transaction_def example_complete_def)

lemma active_understood_at: "understood active_decode Pump (scoped_at tx active_record)"
proof -
  have "record_evidence active_decode Pump (scoped_at tx active_record) \<noteq> []"
    by (simp add: record_evidence_at active_record_evidence)
  then show ?thesis
    using record_events_not_understood [of active_decode Pump "scoped_at tx active_record"]
    by (auto simp: record_evidence_def split: sum.splits)
qed

theorem quarantine_exact_witness:
  "\<exists>r :: (unit, unit) decoded_batch. decode_batch_events active_decode (active_fetched []) Pump = Inr r
     \<and> db_events r = [evidence_at (Some 3) active_evidence] \<and> db_quarantines r = []"
proof (rule decode_batch_total [where 'j = unit])
  show "length (event_cpis Pump (active_fetched [])) < 2 ^ 16" by (simp add: active_cpis)
  fix r :: "(unit, unit) decoded_batch"
  assume r: "decode_batch_events active_decode (active_fetched []) Pump = Inr r"
  have e: "db_events r = [evidence_at (Some 3) active_evidence]"
    using quarantine_exact [OF r]
    by (simp add: active_scopes record_evidence_at active_record_evidence del: pump_program_id.simps)
  have "cpi_places (active_fetched []) Pump active_cpi = [(0, example_complete)]"
    by (simp add: cpi_places_def active_cpi_result) (simp add: active_cpi_def)
  moreover have "event_place (evidence_at (Some 3) active_evidence) = (0, example_complete)"
    by (simp add: event_place_def evidence_at_def active_evidence_def event_coordinate_def at_transaction_index_def)
  ultimately have "db_quarantines r = []"
    using quarantine_exact [OF r] e
    by (simp add: active_scopes active_cpis active_cpi_result decodes_or_pinned_def active_understood_at
        del: pump_program_id.simps)
  with r e show ?thesis by blast
qed

theorem identity_path_independent_witness:
  "\<exists>(r :: (unit, unit) decoded_batch) (r' :: (unit, unit) decoded_batch).
     decode_batch_events active_decode (active_notified []) Pump = Inr r
     \<and> decode_batch_events active_decode (active_fetched []) Pump = Inr r'
     \<and> db_events r' = map (evidence_at (Some 3)) (db_events r)"
proof (rule decode_batch_total [where 'j = unit and b = "active_notified []" and program = Pump])
  show "length (event_cpis Pump (active_notified [])) < 2 ^ 16" by (simp add: active_cpis)
  fix r :: "(unit, unit) decoded_batch"
  assume r: "decode_batch_events active_decode (active_notified []) Pump = Inr r"
  show ?thesis
  proof (rule decode_batch_total [where 'j = unit and b = "active_fetched []" and program = Pump])
    show "length (event_cpis Pump (active_fetched [])) < 2 ^ 16" by (simp add: active_cpis)
    fix r' :: "(unit, unit) decoded_batch"
    assume r': "decode_batch_events active_decode (active_fetched []) Pump = Inr r'"
    have "db_events r' = map (evidence_at (batch_transaction_index (active_fetched []))) (db_events r)"
      by (rule identity_path_independent [OF r r'])
        (simp_all add: notification_batch_def transaction_batch_def active_transaction_def active_note_def)
    then have "db_events r' = map (evidence_at (Some 3)) (db_events r)"
      by (simp add: transaction_batch_def active_transaction_def)
    with r r' show ?thesis by blast
  qed
qed

end
