(* ===== verification/Contracts.thy ===== *)
theory Contracts
  imports Domain Text
begin

text \<open>
  The data that the server exchanges with the browser and stores as settings,
  \<open>crates/api-contracts/src/lib.rs\<close>, and the validation of the two groups of settings. The
  serde derives are not modelled.
\<close>

section \<open>Discovery data\<close>

datatype stream_status =
    StatusStopped
  | StatusStarting
  | StatusRunning
  | StatusDegraded
  | StatusError
  | StatusStopping

datatype discovery_mode = ObserveAll | QualifiedOnly | ApprovedOnly

datatype discovery_stage = StageObserved | StageQualified | StageApproved

record discovery_counters =
  cnt_observed :: u64
  cnt_pending :: u64
  cnt_qualified :: u64
  cnt_qualification_pending :: u64
  cnt_qualification_rejected :: u64
  cnt_qualification_unknown :: u64
  cnt_processing_failures :: u64
  cnt_approved :: u64
  cnt_rejected :: u64
  cnt_flow_per_minute :: "u64 option"

record discovery_activity =
  act_trades :: u64
  act_buys :: u64
  act_sells :: u64
  act_unique_traders :: u64
  act_base_volume_units :: string
  act_quote_volume_units :: string

datatype qualification_decision = DecisionPass | DecisionReject | DecisionUnknown

datatype window_completeness = WindowComplete | WindowIncomplete

record discovery_window_summary =
  sum_window_revision :: u64
  sum_ruleset_revision :: u64
  sum_opened_unix_ms :: i64
  sum_closed_unix_ms :: i64
  sum_evaluated_unix_ms :: i64
  sum_decision :: qualification_decision
  sum_completeness :: window_completeness
  sum_reason_codes :: "string list"
  sum_trades :: u64
  sum_buys :: u64
  sum_sells :: u64
  sum_unique_traders :: u64
  sum_unique_buyers :: u64
  sum_unique_sellers :: u64
  sum_buy_base_volume_units :: string
  sum_sell_base_volume_units :: string
  sum_buy_quote_volume_units :: string
  sum_sell_quote_volume_units :: string
  sum_maximum_single_wallet_quote_share_bps :: "u16 option"
  sum_price_change_bps :: "i64 option"
  sum_first_base_reserve_units :: "string option"
  sum_first_quote_reserve_units :: "string option"
  sum_latest_base_reserve_units :: "string option"
  sum_latest_quote_reserve_units :: "string option"

record discovery_token =
  dt_mint :: string
  dt_name :: "string option"
  dt_symbol :: "string option"
  dt_primary_venue :: venue
  dt_market_address :: string
  dt_quote_mint :: "string option"
  dt_source_program :: source_program
  dt_stage :: discovery_stage
  dt_last_event_kind :: string
  dt_observed_slot :: u64
  dt_first_observed_unix_ms :: i64
  dt_last_observed_unix_ms :: i64
  dt_latest_signature :: string
  dt_activity :: discovery_activity
  dt_qualification :: "discovery_window_summary option"
  dt_risk_score :: "score option"
  dt_opportunity_score :: "score option"

section \<open>Bounds\<close>

record integer_bounds =
  bound_minimum :: u64
  bound_maximum :: u64

definition within_bounds :: "u64 \<Rightarrow> integer_bounds \<Rightarrow> bool" where
  "within_bounds v b \<longleftrightarrow> bound_minimum b \<le> v \<and> v \<le> bound_maximum b"

abbreviation bounds :: "u64 \<Rightarrow> u64 \<Rightarrow> integer_bounds" where
  "bounds lo hi \<equiv> \<lparr>bound_minimum = lo, bound_maximum = hi\<rparr>"

section \<open>Prefilter settings\<close>

record prefilter_defaults_bounds =
  pb_max_event_age_ms :: integer_bounds
  pb_observation_window_ms :: integer_bounds
  pb_max_active_windows :: integer_bounds
  pb_rpc_requests_per_second :: integer_bounds
  pb_rpc_max_in_flight :: integer_bounds
  pb_rpc_request_timeout_ms :: integer_bounds
  pb_rpc_rate_limit_cooldown_ms :: integer_bounds

definition PREFILTER_SUPPORTED :: prefilter_defaults_bounds where
  "PREFILTER_SUPPORTED =
     \<lparr>pb_max_event_age_ms = bounds 1000 300000, pb_observation_window_ms = bounds 1000 3600000,
      pb_max_active_windows = bounds 1 100000, pb_rpc_requests_per_second = bounds 1 1000,
      pb_rpc_max_in_flight = bounds 1 128, pb_rpc_request_timeout_ms = bounds 1 300000,
      pb_rpc_rate_limit_cooldown_ms = bounds 100 300000\<rparr>"

record prefilter_defaults =
  pd_max_event_age_ms :: u64
  pd_observation_window_ms :: u64
  pd_max_active_windows :: u32
  pd_rpc_requests_per_second :: u32
  pd_rpc_max_in_flight :: u32
  pd_rpc_request_timeout_ms :: u64
  pd_rpc_rate_limit_cooldown_ms :: u64

datatype prefilter_defaults_validation_error =
    PrefilterOutOfBounds string u64 integer_bounds
  | RpcTimeoutExceedsMaximumEventAge
  | ObservationWindowShorterThanRpcTimeout

fun prefilter_error_field :: "prefilter_defaults_validation_error \<Rightarrow> string" where
  "prefilter_error_field (PrefilterOutOfBounds field _ _) = field"
| "prefilter_error_field RpcTimeoutExceedsMaximumEventAge = ''rpc_request_timeout_ms''"
| "prefilter_error_field ObservationWindowShorterThanRpcTimeout = ''observation_window_ms''"

definition validate_integer ::
    "string \<Rightarrow> u64 \<Rightarrow> integer_bounds \<Rightarrow> (prefilter_defaults_validation_error, unit) result" where
  "validate_integer field v b =
     (if within_bounds v b then Inr () else Inl (PrefilterOutOfBounds field v b))"

definition prefilter_validate :: "prefilter_defaults \<Rightarrow> (prefilter_defaults_validation_error, unit) result" where
  "prefilter_validate self =
     (let b = PREFILTER_SUPPORTED in
      result_bind (validate_integer ''max_event_age_ms'' (pd_max_event_age_ms self) (pb_max_event_age_ms b)) (\<lambda>_.
      result_bind (validate_integer ''observation_window_ms'' (pd_observation_window_ms self)
        (pb_observation_window_ms b)) (\<lambda>_.
      result_bind (validate_integer ''max_active_windows'' (ucast (pd_max_active_windows self))
        (pb_max_active_windows b)) (\<lambda>_.
      result_bind (validate_integer ''rpc_requests_per_second'' (ucast (pd_rpc_requests_per_second self))
        (pb_rpc_requests_per_second b)) (\<lambda>_.
      result_bind (validate_integer ''rpc_max_in_flight'' (ucast (pd_rpc_max_in_flight self))
        (pb_rpc_max_in_flight b)) (\<lambda>_.
      result_bind (validate_integer ''rpc_request_timeout_ms'' (pd_rpc_request_timeout_ms self)
        (pb_rpc_request_timeout_ms b)) (\<lambda>_.
      result_bind (validate_integer ''rpc_rate_limit_cooldown_ms'' (pd_rpc_rate_limit_cooldown_ms self)
        (pb_rpc_rate_limit_cooldown_ms b)) (\<lambda>_.
      if pd_max_event_age_ms self < pd_rpc_request_timeout_ms self then Inl RpcTimeoutExceedsMaximumEventAge
      else if pd_observation_window_ms self < pd_rpc_request_timeout_ms self
        then Inl ObservationWindowShorterThanRpcTimeout
      else Inr ()))))))))"

section \<open>Qualification settings\<close>

record qualification_defaults_bounds =
  qb_minimum_trades :: integer_bounds
  qb_minimum_unique_traders :: integer_bounds
  qb_minimum_buys :: integer_bounds
  qb_minimum_sells :: integer_bounds
  qb_minimum_native_quote_volume_units :: integer_bounds
  qb_minimum_stable_quote_volume_units :: integer_bounds
  qb_maximum_single_wallet_quote_share_bps :: integer_bounds

definition QUALIFICATION_SUPPORTED :: qualification_defaults_bounds where
  "QUALIFICATION_SUPPORTED =
     \<lparr>qb_minimum_trades = bounds 1 10000, qb_minimum_unique_traders = bounds 1 10000,
      qb_minimum_buys = bounds 0 10000, qb_minimum_sells = bounds 0 10000,
      qb_minimum_native_quote_volume_units = bounds 0 9007199254740991,
      qb_minimum_stable_quote_volume_units = bounds 0 9007199254740991,
      qb_maximum_single_wallet_quote_share_bps = bounds 1000 10000\<rparr>"

record qualification_defaults =
  qd_minimum_trades :: u32
  qd_minimum_unique_traders :: u32
  qd_minimum_buys :: u32
  qd_minimum_sells :: u32
  qd_minimum_native_quote_volume_units :: u64
  qd_minimum_stable_quote_volume_units :: u64
  qd_maximum_single_wallet_quote_share_bps :: u16

definition QUALIFICATION_SAFE_INITIAL :: qualification_defaults where
  "QUALIFICATION_SAFE_INITIAL =
     \<lparr>qd_minimum_trades = 5, qd_minimum_unique_traders = 3, qd_minimum_buys = 1, qd_minimum_sells = 1,
      qd_minimum_native_quote_volume_units = 50000000, qd_minimum_stable_quote_volume_units = 5000000,
      qd_maximum_single_wallet_quote_share_bps = 9000\<rparr>"

datatype qualification_defaults_validation_error =
    QualificationOutOfBounds string u64 integer_bounds
  | MinimumUniqueTradersExceedMinimumTrades
  | MinimumBuysExceedMinimumTrades
  | MinimumSellsExceedMinimumTrades

fun qualification_error_field :: "qualification_defaults_validation_error \<Rightarrow> string" where
  "qualification_error_field (QualificationOutOfBounds field _ _) = field"
| "qualification_error_field MinimumUniqueTradersExceedMinimumTrades = ''minimum_unique_traders''"
| "qualification_error_field MinimumBuysExceedMinimumTrades = ''minimum_buys''"
| "qualification_error_field MinimumSellsExceedMinimumTrades = ''minimum_sells''"

definition validate_qualification_integer ::
    "string \<Rightarrow> u64 \<Rightarrow> integer_bounds \<Rightarrow> (qualification_defaults_validation_error, unit) result" where
  "validate_qualification_integer field v b =
     (if within_bounds v b then Inr () else Inl (QualificationOutOfBounds field v b))"

definition qualification_validate ::
    "qualification_defaults \<Rightarrow> (qualification_defaults_validation_error, unit) result" where
  "qualification_validate self =
     (let b = QUALIFICATION_SUPPORTED in
      result_bind (validate_qualification_integer ''minimum_trades'' (ucast (qd_minimum_trades self))
        (qb_minimum_trades b)) (\<lambda>_.
      result_bind (validate_qualification_integer ''minimum_unique_traders'' (ucast (qd_minimum_unique_traders self))
        (qb_minimum_unique_traders b)) (\<lambda>_.
      result_bind (validate_qualification_integer ''minimum_buys'' (ucast (qd_minimum_buys self))
        (qb_minimum_buys b)) (\<lambda>_.
      result_bind (validate_qualification_integer ''minimum_sells'' (ucast (qd_minimum_sells self))
        (qb_minimum_sells b)) (\<lambda>_.
      result_bind (validate_qualification_integer ''minimum_native_quote_volume_units''
        (qd_minimum_native_quote_volume_units self) (qb_minimum_native_quote_volume_units b)) (\<lambda>_.
      result_bind (validate_qualification_integer ''minimum_stable_quote_volume_units''
        (qd_minimum_stable_quote_volume_units self) (qb_minimum_stable_quote_volume_units b)) (\<lambda>_.
      result_bind (validate_qualification_integer ''maximum_single_wallet_quote_share_bps''
        (ucast (qd_maximum_single_wallet_quote_share_bps self))
        (qb_maximum_single_wallet_quote_share_bps b)) (\<lambda>_.
      if qd_minimum_trades self < qd_minimum_unique_traders self then Inl MinimumUniqueTradersExceedMinimumTrades
      else if qd_minimum_trades self < qd_minimum_buys self then Inl MinimumBuysExceedMinimumTrades
      else if qd_minimum_trades self < qd_minimum_sells self then Inl MinimumSellsExceedMinimumTrades
      else Inr ()))))))))"

section \<open>What a validated group of settings satisfies\<close>

lemma validate_integer_Inr [result_simps]: "validate_integer f v b = Inr u \<longleftrightarrow> within_bounds v b"
  by (simp add: validate_integer_def)

lemma validate_qualification_integer_Inr [result_simps]:
  "validate_qualification_integer f v b = Inr u \<longleftrightarrow> within_bounds v b"
  by (simp add: validate_qualification_integer_def)

lemma within_bounds_unat:
  "within_bounds v (bounds lo hi) \<longleftrightarrow> unat lo \<le> unat v \<and> unat v \<le> unat hi"
  by (simp add: within_bounds_def word_le_nat_alt)

lemma unat_ucast_up:
  fixes w :: "'a::len word"
  assumes "LENGTH('a) \<le> LENGTH('b::len)"
  shows "unat (ucast w :: 'b word) = unat w"
proof -
  have "unat w < 2 ^ LENGTH('b)"
    using unat_bound [of w] assms by (meson less_le_trans one_le_numeral power_increasing)
  then show ?thesis by (simp add: unsigned_ucast_eq take_bit_nat_eq_self)
qed

lemma prefilter_validate_Inr:
  "prefilter_validate p = Inr () \<longleftrightarrow>
     1000 \<le> unat (pd_max_event_age_ms p) \<and> unat (pd_max_event_age_ms p) \<le> 300000
     \<and> 1000 \<le> unat (pd_observation_window_ms p) \<and> unat (pd_observation_window_ms p) \<le> 3600000
     \<and> 1 \<le> unat (pd_max_active_windows p) \<and> unat (pd_max_active_windows p) \<le> 100000
     \<and> 1 \<le> unat (pd_rpc_requests_per_second p) \<and> unat (pd_rpc_requests_per_second p) \<le> 1000
     \<and> 1 \<le> unat (pd_rpc_max_in_flight p) \<and> unat (pd_rpc_max_in_flight p) \<le> 128
     \<and> 1 \<le> unat (pd_rpc_request_timeout_ms p) \<and> unat (pd_rpc_request_timeout_ms p) \<le> 300000
     \<and> 100 \<le> unat (pd_rpc_rate_limit_cooldown_ms p) \<and> unat (pd_rpc_rate_limit_cooldown_ms p) \<le> 300000
     \<and> unat (pd_rpc_request_timeout_ms p) \<le> unat (pd_max_event_age_ms p)
     \<and> unat (pd_rpc_request_timeout_ms p) \<le> unat (pd_observation_window_ms p)"
  unfolding prefilter_validate_def Let_def
  by (auto simp: result_simps PREFILTER_SUPPORTED_def within_bounds_unat unat_ucast_up word_less_nat_alt)

lemma qualification_validate_Inr:
  "qualification_validate q = Inr () \<longleftrightarrow>
     1 \<le> unat (qd_minimum_trades q) \<and> unat (qd_minimum_trades q) \<le> 10000
     \<and> 1 \<le> unat (qd_minimum_unique_traders q) \<and> unat (qd_minimum_unique_traders q) \<le> unat (qd_minimum_trades q)
     \<and> unat (qd_minimum_buys q) \<le> unat (qd_minimum_trades q)
     \<and> unat (qd_minimum_sells q) \<le> unat (qd_minimum_trades q)
     \<and> unat (qd_minimum_native_quote_volume_units q) \<le> 9007199254740991
     \<and> unat (qd_minimum_stable_quote_volume_units q) \<le> 9007199254740991
     \<and> 1000 \<le> unat (qd_maximum_single_wallet_quote_share_bps q)
     \<and> unat (qd_maximum_single_wallet_quote_share_bps q) \<le> 10000"
  unfolding qualification_validate_def Let_def
  by (auto simp: result_simps QUALIFICATION_SUPPORTED_def within_bounds_unat unat_ucast_up word_less_nat_alt)

end
