(* ===== verification/Persistence_Values.thy ===== *)
theory Persistence_Values
  imports Contracts Qualification
begin

text \<open>
  Errors and stored names of the persistence layer: \<open>crates/persistence/src/error.rs\<close> and
  \<open>values.rs\<close>. Errors of the database driver, of migrations and of JSON are values of the type
  \<open>'x\<close>.
\<close>

section \<open>Errors\<close>

datatype 'x persistence_error =
    DatabaseError 'x
  | MigrationError 'x
  | SerializationError 'x
  | NetworkMismatch
  | ObservationEvidenceConflict string string string u16 u16
  | DatabaseNetworkMismatch network network
  | ValueOutOfRange string
  | EmptyField string
  | MustBePositive string
  | LimitTooLarge string u32
  | InvalidPrefilterDefaults prefilter_defaults_validation_error
  | PrefilterDefaultsRevisionConflict u64 "u64 option"
  | InvalidQualificationDefaults qualification_defaults_validation_error
  | InvalidDiscoveryWindowSnapshot snapshot_error
  | InvalidQualificationPolicy qualification_policy_error
  | QualificationDefaultsRevisionConflict u64 "u64 option"
  | InvalidBase64Field string
  | FieldTooLong string usize
  | WorkLeaseLost i64 string
  | DiscoveryOutcomeRequired i64
  | UnexpectedWorkKind i64 string string
  | InvalidStoredValue string string
  | DiscoverySourceMismatch string
  | ObservationMustBeUnapproved
  | ApprovalMustBeExplicit
  | CandidateNotObserved string
  | CandidateNotQualified string
  | InvalidActivityTotals
  | InvalidUnsignedDecimal string
  | ScreeningDecisionMismatch
  | EmptyPassingRules
  | ScreeningRunConflict i64
  | InvalidDiscoveryWindowBounds
  | DiscoveryWindowIdentityConflict i64
  | DiscoveryWindowObservationMismatch i64 string
  | DiscoveryWindowNotActive i64
  | DiscoveryWindowFinalizationConflict i64
  | DiscoveryWindowFinalizationEvidenceMismatch i64
  | DiscoveryWindowEvidenceChanged i64
  | DiscoveryWindowProjectionMissing i64
  | IdenticalPoolMints
  | PumpSwapPoolIdentityConflict string
  | InvalidGapResolution

section \<open>Numbers\<close>

definition to_i64 :: "u64 \<Rightarrow> string \<Rightarrow> ('x persistence_error, i64) result" where
  "to_i64 v field = (if int (unat v) \<le> i64_max then Inr (int (unat v)) else Inl (ValueOutOfRange field))"

lemma to_i64_small: "unat x < 2 ^ 63 \<Longrightarrow> to_i64 x field = Inr (int (unat x))"
proof -
  assume "unat x < 2 ^ 63"
  then have "int (unat x) < int (2 ^ 63)" using of_nat_less_iff by blast
  then show ?thesis unfolding to_i64_def i64_max_def by simp
qed

definition to_u64 :: "i64 \<Rightarrow> string \<Rightarrow> ('x persistence_error, u64) result" where
  "to_u64 v field = (if 0 \<le> v then Inr (of_int v) else Inl (InvalidStoredValue field (show_int v)))"

definition duration_millis :: "duration \<Rightarrow> string \<Rightarrow> bool \<Rightarrow> ('x persistence_error, i64) result" where
  "duration_millis d field allow_zero =
     (if \<not> allow_zero \<and> d = 0 then Inl (MustBePositive field)
      else if int d \<le> i64_max then Inr (int d) else Inl (ValueOutOfRange field))"

definition require_non_empty :: "string \<Rightarrow> string \<Rightarrow> ('x persistence_error, unit) result" where
  "require_non_empty v field = (if trim_is_empty v then Inl (EmptyField field) else Inr ())"

section \<open>Names\<close>

fun network_name :: "network \<Rightarrow> string" where
  "network_name SolanaMainnet = ''SOLANA_MAINNET''"
| "network_name SolanaDevnet = ''SOLANA_DEVNET''"

definition parse_network :: "string \<Rightarrow> ('x persistence_error, network) result" where
  "parse_network v =
     (if v = ''SOLANA_MAINNET'' then Inr SolanaMainnet
      else if v = ''SOLANA_DEVNET'' then Inr SolanaDevnet
      else Inl (InvalidStoredValue ''network'' v))"

fun source_program_name :: "source_program \<Rightarrow> string" where
  "source_program_name SourcePump = ''PUMP''"
| "source_program_name SourcePumpSwap = ''PUMP_SWAP''"
| "source_program_name SourceRaydiumCpmm = ''RAYDIUM_CPMM''"
| "source_program_name SourceRaydiumClmm = ''RAYDIUM_CLMM''"
| "source_program_name SourceRaydiumAmmV4 = ''RAYDIUM_AMM_V4''"

definition parse_source_program :: "string \<Rightarrow> ('x persistence_error, source_program) result" where
  "parse_source_program v =
     (if v = ''PUMP'' then Inr SourcePump
      else if v = ''PUMP_SWAP'' then Inr SourcePumpSwap
      else if v = ''RAYDIUM_CPMM'' then Inr SourceRaydiumCpmm
      else if v = ''RAYDIUM_CLMM'' then Inr SourceRaydiumClmm
      else if v = ''RAYDIUM_AMM_V4'' then Inr SourceRaydiumAmmV4
      else Inl (InvalidStoredValue ''source_program'' v))"

fun commitment_name :: "commitment \<Rightarrow> string" where
  "commitment_name Processed = ''PROCESSED''"
| "commitment_name Confirmed = ''CONFIRMED''"
| "commitment_name Finalized = ''FINALIZED''"

fun venue_name :: "venue \<Rightarrow> string" where
  "venue_name VenuePumpBondingCurve = ''PUMP_BONDING_CURVE''"
| "venue_name VenuePumpSwap = ''PUMP_SWAP''"
| "venue_name VenueRaydiumCpmm = ''RAYDIUM_CPMM''"
| "venue_name VenueRaydiumClmm = ''RAYDIUM_CLMM''"
| "venue_name VenueRaydiumAmmV4 = ''RAYDIUM_AMM_V4''"

definition parse_venue :: "string \<Rightarrow> ('x persistence_error, venue) result" where
  "parse_venue v =
     (if v = ''PUMP_BONDING_CURVE'' then Inr VenuePumpBondingCurve
      else if v = ''PUMP_SWAP'' then Inr VenuePumpSwap
      else if v = ''RAYDIUM_CPMM'' then Inr VenueRaydiumCpmm
      else if v = ''RAYDIUM_CLMM'' then Inr VenueRaydiumClmm
      else if v = ''RAYDIUM_AMM_V4'' then Inr VenueRaydiumAmmV4
      else Inl (InvalidStoredValue ''venue'' v))"

fun discovery_mode_name :: "discovery_mode \<Rightarrow> string" where
  "discovery_mode_name ObserveAll = ''OBSERVE_ALL''"
| "discovery_mode_name QualifiedOnly = ''QUALIFIED_ONLY''"
| "discovery_mode_name ApprovedOnly = ''APPROVED_ONLY''"

definition parse_discovery_mode :: "string \<Rightarrow> ('x persistence_error, discovery_mode) result" where
  "parse_discovery_mode v =
     (if v = ''OBSERVE_ALL'' then Inr ObserveAll
      else if v = ''QUALIFIED_ONLY'' then Inr QualifiedOnly
      else if v = ''APPROVED_ONLY'' then Inr ApprovedOnly
      else Inl (InvalidStoredValue ''discovery_projection_state.mode'' v))"

fun discovery_stage_name :: "discovery_stage \<Rightarrow> string" where
  "discovery_stage_name StageObserved = ''OBSERVED''"
| "discovery_stage_name StageQualified = ''QUALIFIED''"
| "discovery_stage_name StageApproved = ''APPROVED''"

fun assessment_decision_name :: "assessment_decision \<Rightarrow> string" where
  "assessment_decision_name Pass = ''PASS''"
| "assessment_decision_name Reject = ''REJECT''"
| "assessment_decision_name Unknown = ''UNKNOWN''"

section \<open>Names read back\<close>

lemma parse_network_name [simp]: "parse_network (network_name n) = Inr n"
  by (cases n) (simp_all add: parse_network_def)

lemma parse_source_program_name [simp]: "parse_source_program (source_program_name p) = Inr p"
  by (cases p) (simp_all add: parse_source_program_def)

lemma parse_venue_name [simp]: "parse_venue (venue_name v) = Inr v"
  by (cases v) (simp_all add: parse_venue_def)

lemma parse_discovery_mode_name [simp]: "parse_discovery_mode (discovery_mode_name m) = Inr m"
  by (cases m) (simp_all add: parse_discovery_mode_def)

lemma to_u64_Inr [result_simps]: "to_u64 v field = Inr w \<longleftrightarrow> 0 \<le> v \<and> w = of_int v"
  by (auto simp: to_u64_def)

end
