(* ===== verification/Window_Finalization.thy ===== *)
theory Window_Finalization
  imports Persistence_Values Windows
begin

text \<open>
  Durable observation windows, \<open>crates/persistence/src/discovery_windows.rs\<close>: what a new window,
  a member and a finalization must satisfy, the canonical finalization payload, and the finalizing
  transaction. The rows a transaction reads are its arguments and the rows it writes are its
  result; an error of the database itself, which rolls the transaction back, is not modelled. JSON
  encoding is a parameter.
\<close>

section \<open>Records\<close>

definition MARKET_WINDOW_FEATURE_VERSION :: string where
  "MARKET_WINDOW_FEATURE_VERSION = ''market-window-features-v1''"

datatype window_target_kind = KindPumpMint | KindPumpSwapPool

fun target_kind_name :: "window_target_kind \<Rightarrow> string" where
  "target_kind_name KindPumpMint = ''PUMP_MINT''"
| "target_kind_name KindPumpSwapPool = ''PUMP_SWAP_POOL''"

record stored_qualification_defaults =
  sq_values :: qualification_defaults
  sq_revision :: u64

record new_discovery_window =
  nw_target_kind :: window_target_kind
  nw_target_address :: string
  nw_opened_at_unix_ms :: i64
  nw_closes_at_unix_ms :: i64
  nw_collector_run_id :: string
  nw_prefilter_revision :: u64
  nw_prefilter_values :: prefilter_defaults
  nw_qualification :: stored_qualification_defaults

record opened_discovery_window =
  opened_window_id :: i64
  opened_observation_inserted :: bool
  opened_window_created :: bool
  opened_replayed :: bool

record 'json discovery_window_record =
  dwr_window_id :: i64
  dwr_market :: market_identity
  dwr_source_program :: source_program
  dwr_opened_at_unix_ms :: i64
  dwr_closes_at_unix_ms :: i64
  dwr_collector_run_id :: string
  dwr_prefilter_revision :: u64
  dwr_prefilter_values :: prefilter_defaults
  dwr_qualification_revision :: u64
  dwr_qualification_values :: qualification_defaults
  dwr_observations :: "'json normalized_observation list"

datatype projection_readiness = ReadinessPending | ReadinessReady | OpeningProjectionUnavailable

record 'v finalize_discovery_window =
  fin_window_id :: i64
  fin_finalized_at_unix_ms :: i64
  fin_completeness :: window_completeness
  fin_completeness_reason :: "string option"
  fin_feature_version :: string
  fin_snapshot :: 'v
  fin_observation_count :: u64
  fin_decision :: assessment_decision
  fin_assessment :: 'v
  fin_rules :: "rule_result list"
  fin_summary :: discovery_window_summary

record 'v window_identity_row =
  row_id :: i64
  row_network :: string
  row_source_program :: string
  row_venue :: string
  row_market_address :: string
  row_mint :: string
  row_quote_mint :: string
  row_target_kind :: string
  row_target_address :: string
  row_opened_at_unix_ms :: i64
  row_closes_at_unix_ms :: i64
  row_collector_run_id :: string
  row_prefilter_revision :: i64
  row_prefilter_values :: 'v
  row_qualification_revision :: i64
  row_qualification_values :: 'v
  row_status :: string

record 'v current_projection_row =
  cur_token :: 'v
  cur_belongs_to_window :: bool

record projection_readiness_row =
  opening_work_status :: "string option"
  projection_work_pending :: bool
  candidate_projection_present :: bool

record 'v stored_finalization_row =
  sf_feature_version :: string
  sf_observation_count :: i64
  sf_snapshot :: 'v
  sf_decision :: string
  sf_assessment :: 'v
  sf_summary :: 'v
  sf_completeness :: string
  sf_completeness_reason :: "string option"

text \<open>The JSON encodings the transaction uses.\<close>

record ('x, 'v) window_json =
  snapshot_to_value :: "market_window_snapshot \<Rightarrow> ('x, 'v) result"
  assessment_to_value :: "qualification_assessment \<Rightarrow> ('x, 'v) result"
  summary_to_value :: "discovery_window_summary \<Rightarrow> ('x, 'v) result"
  summary_from_value :: "'v \<Rightarrow> ('x, discovery_window_summary) result"
  prefilter_from_value :: "'v \<Rightarrow> ('x, prefilter_defaults) result"
  qualification_from_value :: "'v \<Rightarrow> ('x, qualification_defaults) result"
  token_to_value :: "discovery_token \<Rightarrow> ('x, 'v) result"
  token_from_value :: "'v \<Rightarrow> ('x, discovery_token) result"

section \<open>The canonical finalization\<close>

definition window_qualification_policy :: "'json discovery_window_record \<Rightarrow> qualification_policy" where
  "window_qualification_policy w =
     (let q = dwr_qualification_values w in
      \<lparr>ruleset_version = ''qualification-revision-'' @ show_word (dwr_qualification_revision w),
       minimum_trades = ucast (qd_minimum_trades q), minimum_unique_traders = ucast (qd_minimum_unique_traders q),
       minimum_buys = ucast (qd_minimum_buys q), minimum_sells = ucast (qd_minimum_sells q),
       minimum_native_quote_volume_units = ucast (qd_minimum_native_quote_volume_units q),
       minimum_stable_quote_volume_units = ucast (qd_minimum_stable_quote_volume_units q),
       maximum_single_wallet_quote_volume_bps = qd_maximum_single_wallet_quote_share_bps q\<rparr>)"

fun summary_decision :: "assessment_decision \<Rightarrow> qualification_decision" where
  "summary_decision Pass = DecisionPass"
| "summary_decision Reject = DecisionReject"
| "summary_decision Unknown = DecisionUnknown"

definition contract_completeness :: "snapshot_completeness \<Rightarrow> window_completeness" where
  "contract_completeness c = (if is_complete c then WindowComplete else WindowIncomplete)"

text \<open>The set of reasons of the rules that agree with the decision, in the order of a \<open>BTreeSet\<close>.\<close>

definition decisive_reasons :: "assessment_decision \<Rightarrow> rule_result list \<Rightarrow> string list" where
  "decisive_reasons decision rules =
     sorted_list_of_set (reason_code ` set (filter (\<lambda>r. rule_decision r = decision) rules))"

definition try_i64 :: "i128 \<Rightarrow> i64 option" where
  "try_i64 v = (if in_i64 v then Some v else None)"

definition canonical_discovery_summary ::
    "'json discovery_window_record \<Rightarrow> market_window_snapshot \<Rightarrow> qualification_assessment \<Rightarrow> i64
      \<Rightarrow> ('x persistence_error, discovery_window_summary) result" where
  "canonical_discovery_summary w snapshot assessment evaluated =
     (let m = metrics snapshot;
          first_reserves = map_option reserve_first (reserves snapshot);
          latest_reserves = map_option reserve_latest (reserves snapshot) in
      if dwr_window_id w < 0 then Inl (ValueOutOfRange ''window id'')
      else Inr
        \<lparr>sum_window_revision = of_int (dwr_window_id w),
         sum_ruleset_revision = dwr_qualification_revision w,
         sum_opened_unix_ms = dwr_opened_at_unix_ms w, sum_closed_unix_ms = dwr_closes_at_unix_ms w,
         sum_evaluated_unix_ms = evaluated, sum_decision = summary_decision (qa_decision assessment),
         sum_completeness = contract_completeness (completeness snapshot),
         sum_reason_codes = decisive_reasons (qa_decision assessment) (qa_rules assessment),
         sum_trades = trades m, sum_buys = buys m, sum_sells = sells m,
         sum_unique_traders = unique_traders m, sum_unique_buyers = unique_buyers m,
         sum_unique_sellers = unique_sellers m,
         sum_buy_base_volume_units = show_word (buy_base_units m),
         sum_sell_base_volume_units = show_word (sell_base_units m),
         sum_buy_quote_volume_units = show_word (buy_quote_units m),
         sum_sell_quote_volume_units = show_word (sell_quote_units m),
         sum_maximum_single_wallet_quote_share_bps = map_option share_bps (largest_wallet_quote_volume m),
         sum_price_change_bps =
           Option.bind (Option.bind (prices snapshot) change_bps) try_i64,
         sum_first_base_reserve_units = map_option show_word (Option.bind first_reserves rs_base_units),
         sum_first_quote_reserve_units = map_option show_word (Option.bind first_reserves rs_quote_units),
         sum_latest_base_reserve_units = map_option show_word (Option.bind latest_reserves rs_base_units),
         sum_latest_quote_reserve_units = map_option show_word (Option.bind latest_reserves rs_quote_units)\<rparr>)"

definition requested_completeness :: "string option \<Rightarrow> snapshot_completeness" where
  "requested_completeness reason = (case reason of Some r \<Rightarrow> Incomplete r | None \<Rightarrow> Complete)"

definition build_discovery_window_finalization ::
    "('x, 'v) window_json \<Rightarrow> 'json discovery_window_record \<Rightarrow> i64 \<Rightarrow> string option
      \<Rightarrow> ('x persistence_error, 'v finalize_discovery_window) result" where
  "build_discovery_window_finalization j w finalized_at reason =
     result_bind (map_err InvalidDiscoveryWindowSnapshot
       (build_market_window_snapshot (dwr_market w) (dwr_opened_at_unix_ms w) (dwr_closes_at_unix_ms w)
          (requested_completeness reason) (dwr_observations w))) (\<lambda>snapshot.
     result_bind (map_err InvalidQualificationPolicy
       (evaluate_qualification snapshot (window_qualification_policy w))) (\<lambda>assessment.
     result_bind (canonical_discovery_summary w snapshot assessment finalized_at) (\<lambda>summary.
     result_bind (map_err SerializationError (snapshot_to_value j snapshot)) (\<lambda>snapshot_value.
     result_bind (map_err SerializationError (assessment_to_value j assessment)) (\<lambda>assessment_value.
     Inr \<lparr>fin_window_id = dwr_window_id w, fin_finalized_at_unix_ms = finalized_at,
          fin_completeness = contract_completeness (completeness snapshot),
          fin_completeness_reason = completeness_reason_code (completeness snapshot),
          fin_feature_version = MARKET_WINDOW_FEATURE_VERSION, fin_snapshot = snapshot_value,
          fin_observation_count = observations_count (metrics snapshot),
          fin_decision = qa_decision assessment, fin_assessment = assessment_value,
          fin_rules = qa_rules assessment, fin_summary = summary\<rparr>)))))"

section \<open>Validation\<close>

definition u128_max :: nat where
  "u128_max = 2 ^ 128 - 1"

definition checked_decimal_sum ::
    "string \<Rightarrow> string \<Rightarrow> string \<Rightarrow> ('x persistence_error, string) result" where
  "checked_decimal_sum left right field =
     result_bind (ok_or (InvalidUnsignedDecimal field) (parse_unsigned u128_max left)) (\<lambda>l.
     result_bind (ok_or (InvalidUnsignedDecimal field) (parse_unsigned u128_max right)) (\<lambda>r.
     if l + r \<le> u128_max then Inr (show_nat (l + r)) else Inl (ValueOutOfRange field)))"

definition validate_projection_matches_window ::
    "discovery_token \<Rightarrow> 'v window_identity_row \<Rightarrow> ('x persistence_error, unit) result" where
  "validate_projection_matches_window t row =
     (if dt_mint t \<noteq> row_mint row \<or> source_program_name (dt_source_program t) \<noteq> row_source_program row
         \<or> venue_name (dt_primary_venue t) \<noteq> row_venue row \<or> dt_market_address t \<noteq> row_market_address row
         \<or> (case dt_quote_mint t of None \<Rightarrow> [] | Some m \<Rightarrow> m) \<noteq> row_quote_mint row
      then Inl (DiscoveryWindowIdentityConflict (row_id row)) else Inr ())"

fun completeness_name :: "window_completeness \<Rightarrow> string" where
  "completeness_name WindowComplete = ''COMPLETE''"
| "completeness_name WindowIncomplete = ''INCOMPLETE''"

definition finalization_matches ::
    "('x, 'v) window_json \<Rightarrow> 'v stored_finalization_row \<Rightarrow> 'v finalize_discovery_window \<Rightarrow> bool" where
  "finalization_matches j stored f \<longleftrightarrow>
     (case summary_from_value j (sf_summary stored) of
        Inl _ \<Rightarrow> False
      | Inr s \<Rightarrow>
          sf_feature_version stored = fin_feature_version f
          \<and> sf_observation_count stored
              = (if int (unat (fin_observation_count f)) \<le> i64_max
                 then int (unat (fin_observation_count f)) else i64_min)
          \<and> sf_snapshot stored = fin_snapshot f
          \<and> sf_decision stored = assessment_decision_name (fin_decision f)
          \<and> sf_assessment stored = fin_assessment f
          \<and> s\<lparr>sum_evaluated_unix_ms := 0\<rparr> = (fin_summary f)\<lparr>sum_evaluated_unix_ms := 0\<rparr>
          \<and> sf_completeness stored = completeness_name (fin_completeness f)
          \<and> sf_completeness_reason stored = fin_completeness_reason f)"

definition validate_finalization_for_window ::
    "'v window_identity_row \<Rightarrow> 'v finalize_discovery_window \<Rightarrow> ('x persistence_error, unit) result" where
  "validate_finalization_for_window row f =
     (let s = fin_summary f in
      if row_id row < 0 then Inl (ValueOutOfRange ''window id'')
      else result_bind (to_u64 (row_qualification_revision row) ''qualification_revision'') (\<lambda>revision.
        if sum_window_revision s \<noteq> of_int (row_id row) \<or> sum_ruleset_revision s \<noteq> revision
           \<or> sum_opened_unix_ms s \<noteq> row_opened_at_unix_ms row
           \<or> sum_closed_unix_ms s \<noteq> row_closes_at_unix_ms row
           \<or> sum_evaluated_unix_ms s \<noteq> fin_finalized_at_unix_ms f
           \<or> sum_completeness s \<noteq> fin_completeness f
        then Inl (DiscoveryWindowIdentityConflict (row_id row))
        else if reason_code ` set (filter (\<lambda>r. rule_decision r = fin_decision f) (fin_rules f)) \<noteq> set (sum_reason_codes s)
           \<or> card (set (sum_reason_codes s)) \<noteq> length (sum_reason_codes s)
           \<or> checked_add_word (sum_buys s) (sum_sells s) \<noteq> Some (sum_trades s)
           \<or> sum_trades s < sum_unique_traders s \<or> sum_buys s < sum_unique_buyers s
           \<or> sum_sells s < sum_unique_sellers s
           \<or> (case sum_maximum_single_wallet_quote_share_bps s of None \<Rightarrow> False | Some share \<Rightarrow> 10000 < share)
        then Inl ScreeningDecisionMismatch
        else
          result_bind (checked_decimal_sum (sum_buy_base_volume_units s) (sum_sell_base_volume_units s)
            ''qualification base volume'') (\<lambda>_.
          result_bind (checked_decimal_sum (sum_buy_quote_volume_units s) (sum_sell_quote_volume_units s)
            ''qualification quote volume'') (\<lambda>_. Inr ()))))"

fun validate_rules :: "string set \<Rightarrow> rule_result list \<Rightarrow> ('x persistence_error, unit) result" where
  "validate_rules ids [] = Inr ()"
| "validate_rules ids (r # rs) =
     (if trim_is_empty (rule_id r) \<or> trim_is_empty (rule_version r) \<or> trim_is_empty (reason_code r)
      then Inl (EmptyField ''qualification rule'')
      else if rule_id r \<in> ids then Inl (InvalidStoredValue ''qualification rule_id'' (rule_id r))
      else validate_rules (insert (rule_id r) ids) rs)"

fun expected_decision :: "qualification_decision \<Rightarrow> assessment_decision" where
  "expected_decision DecisionPass = Pass"
| "expected_decision DecisionReject = Reject"
| "expected_decision DecisionUnknown = Unknown"

definition finalization_aggregate :: "rule_result list \<Rightarrow> assessment_decision" where
  "finalization_aggregate rules =
     (if list_ex (\<lambda>r. rule_decision r = Reject) rules then Reject
      else if rules = [] \<or> list_ex (\<lambda>r. rule_decision r = Unknown) rules then Unknown
      else Pass)"

definition validate_finalization :: "'v finalize_discovery_window \<Rightarrow> ('x persistence_error, unit) result" where
  "validate_finalization f =
     (if trim_is_empty (fin_feature_version f) then Inl (EmptyField ''feature_version'')
      else if fin_completeness f = WindowComplete
          \<and> fin_finalized_at_unix_ms f < sum_closed_unix_ms (fin_summary f)
      then Inl (InvalidStoredValue ''window finalized_at_unix_ms'' (show_int (fin_finalized_at_unix_ms f)))
      else result_bind (validate_rules {} (fin_rules f)) (\<lambda>_.
        if expected_decision (sum_decision (fin_summary f)) \<noteq> fin_decision f then Inl ScreeningDecisionMismatch
        else if fin_completeness f = WindowComplete \<and> fin_completeness_reason f \<noteq> None
        then Inl (InvalidStoredValue ''window completeness_reason'' ''present for COMPLETE'')
        else if fin_completeness f = WindowIncomplete
            \<and> (case fin_completeness_reason f of None \<Rightarrow> True | Some r \<Rightarrow> trim_is_empty r)
        then Inl (EmptyField ''window completeness_reason'')
        else if finalization_aggregate (fin_rules f) \<noteq> fin_decision f then Inl ScreeningDecisionMismatch
        else Inr ()))"

definition observation_quote_mint :: "market_identity \<Rightarrow> string" where
  "observation_quote_mint market = (case quote_mint market of None \<Rightarrow> [] | Some m \<Rightarrow> m)"

definition opening_target_matches ::
    "'json normalized_observation \<Rightarrow> new_discovery_window \<Rightarrow> bool" where
  "opening_target_matches obs w \<longleftrightarrow>
     (if event_kind obs = ''CREATE'' \<and> key_program (obs_key obs) = SourcePump
         \<and> venue (obs_market obs) = VenuePumpBondingCurve \<and> nw_target_kind w = KindPumpMint
      then nw_target_address w = mint (obs_market obs)
      else if event_kind obs = ''CREATE_POOL'' \<and> key_program (obs_key obs) = SourcePumpSwap
         \<and> venue (obs_market obs) = VenuePumpSwap \<and> nw_target_kind w = KindPumpSwapPool
      then nw_target_address w = market_address (obs_market obs)
      else False)"

definition validate_new_window ::
    "'json normalized_observation \<Rightarrow> new_discovery_window \<Rightarrow> ('x persistence_error, unit) result" where
  "validate_new_window obs w =
     (if nw_closes_at_unix_ms w \<le> nw_opened_at_unix_ms w then Inl InvalidDiscoveryWindowBounds
      else if trim_is_empty (nw_target_address w) then Inl (EmptyField ''window target_address'')
      else if trim_is_empty (nw_collector_run_id w) then Inl (EmptyField ''collector_run_id'')
      else if \<not> opening_target_matches obs w
        then Inl (DiscoveryWindowObservationMismatch 0 ''opening target'')
      else if received_time_unix_ms obs \<noteq> nw_opened_at_unix_ms w
        then Inl (DiscoveryWindowObservationMismatch 0 ''opened_at_unix_ms'')
      else Inr ())"

definition validate_existing_window ::
    "'v window_identity_row \<Rightarrow> 'json normalized_observation \<Rightarrow> new_discovery_window
      \<Rightarrow> ('x persistence_error, unit) result" where
  "validate_existing_window row obs w =
     (if row_network row \<noteq> network_name (key_network (obs_key obs))
         \<or> row_source_program row \<noteq> source_program_name (key_program (obs_key obs))
         \<or> row_venue row \<noteq> venue_name (venue (obs_market obs))
         \<or> row_market_address row \<noteq> market_address (obs_market obs)
         \<or> row_mint row \<noteq> mint (obs_market obs)
         \<or> row_quote_mint row \<noteq> observation_quote_mint (obs_market obs)
         \<or> row_target_kind row \<noteq> target_kind_name (nw_target_kind w)
         \<or> row_target_address row \<noteq> nw_target_address w
      then Inl (DiscoveryWindowIdentityConflict (row_id row)) else Inr ())"

fun first_mismatch :: "(bool \<times> string) list \<Rightarrow> string option" where
  "first_mismatch [] = None"
| "first_mismatch ((matches, field) # checks) = (if matches then first_mismatch checks else Some field)"

definition membership_checks ::
    "'v window_identity_row \<Rightarrow> 'json normalized_observation \<Rightarrow> (bool \<times> string) list" where
  "membership_checks row obs =
     [(row_network row = network_name (key_network (obs_key obs)), ''network''),
      (row_source_program row = source_program_name (key_program (obs_key obs)), ''source_program''),
      (row_venue row = venue_name (venue (obs_market obs)), ''venue''),
      (row_market_address row = market_address (obs_market obs), ''market_address''),
      (row_mint row = mint (obs_market obs), ''mint''),
      (row_quote_mint row = observation_quote_mint (obs_market obs), ''quote_mint''),
      (row_opened_at_unix_ms row \<le> received_time_unix_ms obs
         \<and> received_time_unix_ms obs < row_closes_at_unix_ms row, ''received_time_unix_ms'')]"

definition validate_window_membership ::
    "'v window_identity_row \<Rightarrow> 'json normalized_observation \<Rightarrow> ('x persistence_error, unit) result" where
  "validate_window_membership row obs =
     (if row_status row \<noteq> ''ACTIVE'' then Inl (DiscoveryWindowNotActive (row_id row))
      else case first_mismatch (membership_checks row obs) of
        None \<Rightarrow> Inr ()
      | Some field \<Rightarrow> Inl (DiscoveryWindowObservationMismatch (row_id row) field))"

definition into_record ::
    "('x, 'v) window_json \<Rightarrow> 'v window_identity_row \<Rightarrow> 'json normalized_observation list
      \<Rightarrow> ('x persistence_error, 'json discovery_window_record) result" where
  "into_record j row observations =
     result_bind (parse_network (row_network row)) (\<lambda>n.
     result_bind (parse_source_program (row_source_program row)) (\<lambda>program.
     result_bind (parse_venue (row_venue row)) (\<lambda>v.
     result_bind (map_err SerializationError (prefilter_from_value j (row_prefilter_values row))) (\<lambda>prefilter.
     result_bind (map_err InvalidPrefilterDefaults (prefilter_validate prefilter)) (\<lambda>_.
     result_bind (map_err SerializationError (qualification_from_value j (row_qualification_values row)))
       (\<lambda>qualification.
     result_bind (map_err InvalidQualificationDefaults (qualification_validate qualification)) (\<lambda>_.
     result_bind (to_u64 (row_prefilter_revision row) ''prefilter_revision'') (\<lambda>prefilter_revision.
     result_bind (to_u64 (row_qualification_revision row) ''qualification_revision'') (\<lambda>qualification_revision.
     Inr \<lparr>dwr_window_id = row_id row,
          dwr_market = \<lparr>market_network = n, mint = row_mint row, venue = v,
            market_address = row_market_address row,
            quote_mint = (if row_quote_mint row = [] then None else Some (row_quote_mint row))\<rparr>,
          dwr_source_program = program, dwr_opened_at_unix_ms = row_opened_at_unix_ms row,
          dwr_closes_at_unix_ms = row_closes_at_unix_ms row,
          dwr_collector_run_id = row_collector_run_id row, dwr_prefilter_revision = prefilter_revision,
          dwr_prefilter_values = prefilter, dwr_qualification_revision = qualification_revision,
          dwr_qualification_values = qualification, dwr_observations = observations\<rparr>)))))))))"

definition readiness_of :: "projection_readiness_row \<Rightarrow> projection_readiness" where
  "readiness_of row =
     (if projection_work_pending row then ReadinessPending
      else if opening_work_status row = Some ''COMPLETE'' \<and> candidate_projection_present row then ReadinessReady
      else OpeningProjectionUnavailable)"

section \<open>The finalizing transaction\<close>

text \<open>What its queries answer, in the order in which they run.\<close>

record ('v, 'json, 'x) finalization_reads =
  read_lock_identity :: "(string \<times> string) option"
  read_window :: "'v window_identity_row option"
  read_existing :: "'v stored_finalization_row option"
  read_readiness :: "projection_readiness_row option"
  read_observation_count :: i64
  read_observations :: "('x persistence_error, 'json normalized_observation list) result"
  read_projection :: "'v current_projection_row option"
  read_newer_window_exists :: bool

text \<open>What it writes when it commits.\<close>

record 'v finalization_writes =
  write_stored :: "'v stored_finalization_row"
  write_rules :: "rule_result list"
  write_token :: "discovery_token option"
  write_finalized_at :: i64
  write_qualified_delta :: int
  write_rejected :: int
  write_unknown :: int
  write_approval_removed :: int
  write_reasons :: "string list"
  write_projection_applied :: bool

definition next_stage :: "discovery_stage \<Rightarrow> assessment_decision \<Rightarrow> discovery_stage" where
  "next_stage stage decision =
     (if decision = Pass then (if stage = StageApproved then StageApproved else StageQualified)
      else StageObserved)"

definition is_qualified_stage :: "discovery_stage \<Rightarrow> bool" where
  "is_qualified_stage stage \<longleftrightarrow> stage = StageQualified \<or> stage = StageApproved"

definition apply_to_token ::
    "'v finalize_discovery_window \<Rightarrow> discovery_token \<Rightarrow> ('x persistence_error, discovery_token) result" where
  "apply_to_token f t =
     (let s = fin_summary f in
      result_bind (checked_decimal_sum (sum_buy_base_volume_units s) (sum_sell_base_volume_units s)
        ''qualification base volume'') (\<lambda>base.
      result_bind (checked_decimal_sum (sum_buy_quote_volume_units s) (sum_sell_quote_volume_units s)
        ''qualification quote volume'') (\<lambda>quote.
      Inr (t\<lparr>dt_stage := next_stage (dt_stage t) (fin_decision f), dt_qualification := Some s,
             dt_activity := \<lparr>act_trades = sum_trades s, act_buys = sum_buys s, act_sells = sum_sells s,
               act_unique_traders = sum_unique_traders s, act_base_volume_units = base,
               act_quote_volume_units = quote\<rparr>\<rparr>))))"

definition stored_row ::
    "('x, 'v) window_json \<Rightarrow> 'v finalize_discovery_window \<Rightarrow> ('x persistence_error, 'v stored_finalization_row) result" where
  "stored_row j f =
     result_bind (to_i64 (fin_observation_count f) ''window observation_count'') (\<lambda>count.
     result_bind (map_err SerializationError (summary_to_value j (fin_summary f))) (\<lambda>summary.
     Inr \<lparr>sf_feature_version = fin_feature_version f, sf_observation_count = count,
          sf_snapshot = fin_snapshot f, sf_decision = assessment_decision_name (fin_decision f),
          sf_assessment = fin_assessment f, sf_summary = summary,
          sf_completeness = completeness_name (fin_completeness f),
          sf_completeness_reason = fin_completeness_reason f\<rparr>))"

fun rules_fit :: "rule_result list \<Rightarrow> ('x persistence_error, unit) result" where
  "rules_fit [] = Inr ()"
| "rules_fit (r # rs) =
     (case observed_slot r of
        None \<Rightarrow> rules_fit rs
      | Some s \<Rightarrow> result_bind (to_i64 s ''qualification observed_slot'') (\<lambda>_. rules_fit rs))"

definition finalization_token ::
    "('x, 'v) window_json \<Rightarrow> 'v window_identity_row \<Rightarrow> 'v finalize_discovery_window \<Rightarrow> 'v \<Rightarrow>
      ('x persistence_error, discovery_token \<times> discovery_token) result" where
  "finalization_token j row f v =
     result_bind (map_err SerializationError (token_from_value j v)) (\<lambda>t.
     result_bind (validate_projection_matches_window t row) (\<lambda>_.
     result_bind (apply_to_token f t) (\<lambda>t'.
     result_bind (map_err SerializationError (token_to_value j t')) (\<lambda>_. Inr (t, t')))))"

definition finalization_commit ::
    "('x, 'v) window_json \<Rightarrow> ('v, 'json, 'x) finalization_reads \<Rightarrow> 'v window_identity_row
      \<Rightarrow> 'v finalize_discovery_window \<Rightarrow> ('x persistence_error, 'v finalization_writes) result" where
  "finalization_commit j reads row f =
     (let current = (case read_projection reads of
            Some p \<Rightarrow> if cur_belongs_to_window p \<and> \<not> read_newer_window_exists reads then Some (cur_token p) else None
          | None \<Rightarrow> None) in
      result_bind (stored_row j f) (\<lambda>stored.
      result_bind (rules_fit (fin_rules f)) (\<lambda>_.
      result_bind (case current of
          None \<Rightarrow> Inr None
        | Some v \<Rightarrow> result_bind (finalization_token j row f v) (\<lambda>p. Inr (Some p))) (\<lambda>token.
      let now_qualified = fin_decision f = Pass;
          was_qualified = (case token of None \<Rightarrow> False | Some (t, _) \<Rightarrow> is_qualified_stage (dt_stage t));
          was_approved = (case token of None \<Rightarrow> False | Some (t, _) \<Rightarrow> dt_stage t = StageApproved) in
      Inr \<lparr>write_stored = stored, write_rules = fin_rules f, write_token = map_option snd token,
           write_finalized_at = fin_finalized_at_unix_ms f,
           write_qualified_delta =
             (if token = None then 0 else of_bool now_qualified - of_bool was_qualified),
           write_rejected = of_bool (fin_decision f = Reject),
           write_unknown = of_bool (fin_decision f = Unknown),
           write_approval_removed = (if token = None then 0 else of_bool (was_approved \<and> \<not> now_qualified)),
           write_reasons = (if fin_decision f = Pass then []
             else decisive_reasons (fin_decision f) (fin_rules f)),
           write_projection_applied = (token \<noteq> None)\<rparr>))))"

text \<open>\<open>Ok(true)\<close> is the value \<open>Some\<close> with what was written, \<open>Ok(false)\<close> is \<open>None\<close>.\<close>

definition finalize_window ::
    "('x, 'v) window_json \<Rightarrow> ('v, 'json, 'x) finalization_reads \<Rightarrow> 'v finalize_discovery_window
      \<Rightarrow> ('x persistence_error, 'v finalization_writes option) result" where
  "finalize_window j reads f =
     (let wid = fin_window_id f in
      result_bind (validate_finalization f) (\<lambda>_.
      result_bind (ok_or (DiscoveryWindowNotActive wid) (read_lock_identity reads)) (\<lambda>(locked_network, locked_mint).
      result_bind (ok_or (DiscoveryWindowNotActive wid) (read_window reads)) (\<lambda>row.
      if row_network row \<noteq> locked_network \<or> row_mint row \<noteq> locked_mint
      then Inl (DiscoveryWindowIdentityConflict wid)
      else result_bind (validate_finalization_for_window row f) (\<lambda>_.
      if row_status row = ''FINALIZED''
      then (case read_existing reads of
              Some existing \<Rightarrow>
                if finalization_matches j existing f then Inr None
                else Inl (DiscoveryWindowFinalizationConflict wid)
            | None \<Rightarrow> Inl (DiscoveryWindowFinalizationConflict wid))
      else result_bind (ok_or (DiscoveryWindowNotActive wid) (read_readiness reads)) (\<lambda>readiness.
      if readiness_of readiness = ReadinessPending then Inl (DiscoveryWindowProjectionMissing wid)
      else if readiness_of readiness = OpeningProjectionUnavailable
          \<and> fin_completeness_reason f \<noteq> Some (reason_as_str ProcessingFailed)
      then Inl (DiscoveryWindowFinalizationEvidenceMismatch wid)
      else result_bind (to_i64 (fin_observation_count f) ''window observation_count'') (\<lambda>count.
      if read_observation_count reads \<noteq> count then Inl (DiscoveryWindowEvidenceChanged wid)
      else result_bind (read_observations reads) (\<lambda>observations.
      result_bind (into_record j row observations) (\<lambda>canonical_window.
      result_bind (build_discovery_window_finalization j canonical_window (fin_finalized_at_unix_ms f)
        (fin_completeness_reason f)) (\<lambda>canonical.
      if canonical \<noteq> f then Inl (DiscoveryWindowFinalizationEvidenceMismatch wid)
      else result_bind (finalization_commit j reads row f) (\<lambda>writes. Inr (Some writes))))))))))))"

end
