(* ===== verification/Window_Finalization_Correct.thy ===== *)
theory Window_Finalization_Correct
  imports Window_Finalization Snapshot_Correct
begin

text \<open>
  The canonical finalization of a durable window: it can always be built, the transaction that
  stores it rebuilds the very same payload and accepts it, and storing it twice changes nothing.
\<close>

section \<open>Texts that are not blank\<close>

lemma rule_texts:
  "\<not> trim_is_empty (rule_id_as_str rid)" "\<not> trim_is_empty RULE_VERSION"
  "\<not> trim_is_empty (minimum_reason_code rid passes)"
  "\<not> trim_is_empty INVALID_TRADE_WALLET_REASON" "\<not> trim_is_empty INVALID_TRADE_AMOUNT_REASON"
  "\<not> trim_is_empty MARKET_WINDOW_FEATURE_VERSION"
  unfolding RULE_VERSION_def INVALID_TRADE_WALLET_REASON_def INVALID_TRADE_AMOUNT_REASON_def
    MARKET_WINDOW_FEATURE_VERSION_def minimum_reason_code_def
  by (cases rid; cases passes; simp add: printable_not_blank del: trim_is_empty.simps)+

section \<open>The snapshot does not depend on who declares it incomplete\<close>

abbreviation with_completeness :: "snapshot_completeness \<Rightarrow> snapshot_locals \<Rightarrow> snapshot_locals" where
  "with_completeness c s \<equiv> s\<lparr>loc_completeness := c\<rparr>"

lemma record_trade_incomplete:
  "record_trade (with_completeness (Incomplete r) s) ob side w base quote br qr =
     map_sum id (with_completeness (Incomplete r)) (record_trade s ob side w base quote br qr)"
  by (cases s) (simp add: record_trade_def mark_incomplete_if_complete_def is_complete_def Let_def map_sum_bind)

lemma snapshot_step_incomplete:
  "snapshot_step (with_completeness (Incomplete r) s) ob =
     map_sum id (with_completeness (Incomplete r)) (snapshot_step s ob)"
proof -
  let ?s = "s\<lparr>loc_observation_keys := loc_observation_keys s @ [obs_key ob],
      loc_latest_slot := Some (case loc_latest_slot s of
        None \<Rightarrow> slot (key_coordinate (obs_key ob)) | Some latest \<Rightarrow> max latest (slot (key_coordinate (obs_key ob))))\<rparr>"
  show ?thesis
    using record_trade_incomplete [of r ?s ob]
    by (cases s; cases "payload ob") (simp_all add: snapshot_step_def Let_def record_liquidity_def)
qed

lemma snapshot_loop_incomplete:
  "snapshot_loop (with_completeness (Incomplete r) s) os =
     map_sum id (with_completeness (Incomplete r)) (snapshot_loop s os)"
proof (induction os arbitrary: s)
  case (Cons ob os)
  then show ?case by (cases "snapshot_step s ob") (simp_all add: snapshot_step_incomplete)
qed simp

lemma record_trade_reason:
  "record_trade s ob side w base quote br qr = Inr s' \<Longrightarrow>
     loc_completeness s' = loc_completeness s
     \<or> loc_completeness s' = Incomplete INVALID_TRADE_WALLET_REASON
     \<or> loc_completeness s' = Incomplete INVALID_TRADE_AMOUNT_REASON"
  by (auto simp: record_trade_def mark_incomplete_if_complete_def result_simps Let_def split: if_splits)

lemma snapshot_step_reason:
  "snapshot_step s ob = Inr s' \<Longrightarrow>
     loc_completeness s' = loc_completeness s
     \<or> loc_completeness s' = Incomplete INVALID_TRADE_WALLET_REASON
     \<or> loc_completeness s' = Incomplete INVALID_TRADE_AMOUNT_REASON"
  by (auto simp: snapshot_step_def Let_def record_liquidity_def dest!: record_trade_reason
      split: observation_payload.splits)

lemma snapshot_loop_reason_gen:
  "snapshot_loop s os = Inr l \<Longrightarrow>
     loc_completeness l = loc_completeness s
     \<or> loc_completeness l = Incomplete INVALID_TRADE_WALLET_REASON
     \<or> loc_completeness l = Incomplete INVALID_TRADE_AMOUNT_REASON"
proof (induction os arbitrary: s)
  case (Cons ob os)
  then obtain s1 where "snapshot_step s ob = Inr s1" "snapshot_loop s1 os = Inr l" by (auto simp: result_simps)
  with Cons.IH [of s1] snapshot_step_reason show ?case by metis
qed simp

lemmas snapshot_loop_reason = snapshot_loop_reason_gen [of "snapshot_locals_init c" for c,
    unfolded snapshot_locals_init_def, simplified, folded snapshot_locals_init_def]

lemma snapshot_loop_own_completeness:
  assumes "snapshot_loop (snapshot_locals_init c) os = Inr l" and "loc_completeness l \<noteq> Complete"
  shows "snapshot_loop (snapshot_locals_init (loc_completeness l)) os = Inr l"
proof (cases "loc_completeness l")
  case (Incomplete r)
  have "snapshot_locals_init (Incomplete r) = with_completeness (Incomplete r) (snapshot_locals_init c)"
    by (simp add: snapshot_locals_init_def)
  then show ?thesis
    using snapshot_loop_incomplete [of r "snapshot_locals_init c" os] assms(1) Incomplete by simp
qed (use assms(2) in simp)

lemma build_own_completeness:
  assumes "length os < 2 ^ 64" and "build_market_window_snapshot market opened closes c os = Inr s"
  shows "build_market_window_snapshot market opened closes (completeness s) os = Inr s"
    and "\<forall>r. completeness s = Incomplete r \<longrightarrow> \<not> trim_is_empty r"
proof -
  let ?ws = "window_observations market opened closes os"
  have valid: "valid_request opened closes c" "check_duplicates {} ?ws = Inr ()"
    using build_valid_request [OF assms(2)] by (simp_all add: check_duplicates_iff)
  obtain l where l: "snapshot_loop (snapshot_locals_init c) ?ws = Inr l" "loc_completeness l = completeness s"
    using assms(2) by (auto simp: build_market_window_snapshot_def window_observations_def [symmetric] result_simps
        Let_def split: if_splits)
  have reason: "\<forall>r. loc_completeness l = Incomplete r \<longrightarrow> \<not> trim_is_empty r"
    using snapshot_loop_reason [OF l(1)] valid(1) rule_texts(4,5)
    by (cases c) (auto simp: valid_request_def)
  then show "\<forall>r. completeness s = Incomplete r \<longrightarrow> \<not> trim_is_empty r" using l(2) by simp
  show "build_market_window_snapshot market opened closes (completeness s) os = Inr s"
  proof (cases "completeness s = Complete")
    case True
    then have "c = Complete"
      using snapshot_exact_of_build(1) [OF assms] by (simp add: snapshot_exact_def is_complete_def)
    with True assms(2) show ?thesis by simp
  next
    case False
    then obtain r where r: "completeness s = Incomplete r" by (cases "completeness s") auto
    have "snapshot_loop (snapshot_locals_init (Incomplete r)) ?ws = Inr l"
      using snapshot_loop_own_completeness [OF l(1)] l(2) r by simp
    then show ?thesis
      using assms(2) l r reason valid(1)
      by (auto simp: build_market_window_snapshot_def window_observations_def [symmetric] result_simps Let_def
          valid_request_def split: if_splits)
  qed
qed

section \<open>The policy of a window\<close>

lemma window_policy_valid:
  assumes "qualification_validate (dwr_qualification_values w) = Inr ()"
  shows "policy_validate (window_qualification_policy w) = Inr ()"
proof -
  have "\<not> trim_is_empty (''qualification-revision-'' @ t)" for t
    by (simp add: printable_not_blank del: trim_is_empty.simps)
  then show ?thesis
    using assms
    by (simp add: policy_validate_def window_qualification_policy_def Let_def qualification_validate_Inr
        word_less_nat_alt unat_ucast_up BASIS_POINTS_SCALE_def del: trim_is_empty.simps)
qed

section \<open>Taking a finalization apart\<close>

lemma canonical_summary_id: "canonical_discovery_summary w s a t = Inr summary \<Longrightarrow> 0 \<le> dwr_window_id w"
  unfolding canonical_discovery_summary_def Let_def by (cases "dwr_window_id w < 0") simp_all

lemma build_finalization_parts:
  fixes j :: "('x, 'v) window_json"
  assumes "build_discovery_window_finalization j w t reason = Inr f"
  obtains s a where
    "build_market_window_snapshot (dwr_market w) (dwr_opened_at_unix_ms w) (dwr_closes_at_unix_ms w)
       (requested_completeness reason) (dwr_observations w) = Inr s"
    "evaluate_qualification s (window_qualification_policy w) = Inr a" "0 \<le> dwr_window_id w"
    "canonical_discovery_summary w s a t = (Inr (fin_summary f) :: ('x persistence_error, _) result)"
    "snapshot_to_value j s = Inr (fin_snapshot f)" "assessment_to_value j a = Inr (fin_assessment f)"
    "fin_window_id f = dwr_window_id w" "fin_finalized_at_unix_ms f = t"
    "fin_completeness f = contract_completeness (completeness s)"
    "fin_completeness_reason f = completeness_reason_code (completeness s)"
    "fin_feature_version f = MARKET_WINDOW_FEATURE_VERSION"
    "fin_observation_count f = observations_count (metrics s)"
    "fin_decision f = qa_decision a" "fin_rules f = qa_rules a"
proof -
  obtain s a summary sv av where parts:
    "build_market_window_snapshot (dwr_market w) (dwr_opened_at_unix_ms w) (dwr_closes_at_unix_ms w)
       (requested_completeness reason) (dwr_observations w) = Inr s"
    "evaluate_qualification s (window_qualification_policy w) = Inr a"
    "canonical_discovery_summary w s a t = (Inr summary :: ('x persistence_error, _) result)"
    "snapshot_to_value j s = Inr sv" "assessment_to_value j a = Inr av"
    "f = \<lparr>fin_window_id = dwr_window_id w, fin_finalized_at_unix_ms = t,
          fin_completeness = contract_completeness (completeness s),
          fin_completeness_reason = completeness_reason_code (completeness s),
          fin_feature_version = MARKET_WINDOW_FEATURE_VERSION, fin_snapshot = sv,
          fin_observation_count = observations_count (metrics s),
          fin_decision = qa_decision a, fin_assessment = av, fin_rules = qa_rules a, fin_summary = summary\<rparr>"
    using assms unfolding build_discovery_window_finalization_def result_bind_Inr map_err_Inr by blast
  then show thesis using canonical_summary_id [OF parts(3)] by (intro that) simp_all
qed

lemma requested_completeness_reason [simp]:
  "requested_completeness (completeness_reason_code c) = c"
  by (cases c) (simp_all add: requested_completeness_def)

lemma rebuild_own:
  fixes j :: "('x, 'v) window_json"
  assumes "length (dwr_observations w) < 2 ^ 64"
    and "build_discovery_window_finalization j w t reason = Inr f"
  shows "build_discovery_window_finalization j w t (fin_completeness_reason f) = Inr f"
  using assms(2)
proof (rule build_finalization_parts)
  fix s a
  assume s: "build_market_window_snapshot (dwr_market w) (dwr_opened_at_unix_ms w) (dwr_closes_at_unix_ms w)
       (requested_completeness reason) (dwr_observations w) = Inr s"
    and r: "fin_completeness_reason f = completeness_reason_code (completeness s)"
  show ?thesis
    using assms(2) s build_own_completeness(1) [OF assms(1) s]
    unfolding build_discovery_window_finalization_def r requested_completeness_reason by simp
qed

section \<open>Rules and their reasons\<close>

lemma rule_parts [simp]:
  "rule_version (rule rid d reason evidence observed) = RULE_VERSION"
  "reason_code (rule rid d reason evidence observed) = reason"
  by (simp_all add: rule_def)

lemma all_rule_ids_distinct: "distinct (map rule_id_as_str all_rule_ids)"
proof -
  have "distinct all_rule_ids" by (simp add: all_rule_ids_def)
  then show ?thesis using inj_on_subset [OF rule_ids_inj] by (simp add: distinct_map)
qed

definition well_labelled :: "rule_result \<Rightarrow> bool" where
  "well_labelled r \<longleftrightarrow>
     \<not> trim_is_empty (rule_id r) \<and> \<not> trim_is_empty (rule_version r) \<and> \<not> trim_is_empty (reason_code r)"

lemma validate_rules_Inr:
  "validate_rules ids rs = (Inr () :: ('x persistence_error, unit) result) \<longleftrightarrow>
     list_all well_labelled rs \<and> distinct (map rule_id rs) \<and> rule_id ` set rs \<inter> ids = {}"
  by (induction ids rs rule: validate_rules.induct) (auto simp: well_labelled_def)

lemma well_labelled_rule [simp]: "well_labelled (rule rid d reason evidence observed) \<longleftrightarrow> \<not> trim_is_empty reason"
  by (simp add: well_labelled_def rule_texts del: rule_id_as_str.simps)

lemma well_labelled_minimum [simp]: "well_labelled (minimum_rule rid actual minimum observed)"
  by (simp add: minimum_rule_def Let_def rule_texts)

lemma well_labelled_quote [simp]:
  "well_labelled (quote_asset_rule s)" "well_labelled (quote_volume_rule s policy v)"
  by (cases "classify_quote_asset s";
      simp add: quote_asset_rule_def quote_volume_rule_def printable_not_blank del: trim_is_empty.simps)+

lemma well_labelled_concentration [simp]: "well_labelled (concentration_rule s policy v)"
  by (cases "largest_wallet_quote_volume (metrics s)")
    (simp_all add: concentration_rule_def Let_def printable_not_blank del: trim_is_empty.simps)

lemma complete_rules_labelled: "list_all well_labelled (complete_rules s policy v)"
  by (simp add: complete_rules_def Let_def printable_not_blank del: trim_is_empty.simps)

interpretation finalization: verdict finalization_aggregate
proof
  show "(\<exists>r\<in>set rs. rule_decision r = Reject) \<longleftrightarrow> finalization_aggregate rs = Reject" for rs
    by (auto simp: finalization_aggregate_def list_ex_iff)
  show "finalization_aggregate rs = Pass \<longleftrightarrow> (\<forall>r\<in>set rs. rule_decision r = Pass)" if "rs \<noteq> []" for rs
    using that by (auto simp: finalization_aggregate_def list_ex_iff decision_pass_iff)
qed

lemma aggregates_agree: "rs \<noteq> [] \<Longrightarrow> finalization_aggregate rs = aggregate rs"
  by (simp add: finalization_aggregate_def aggregate_def)

section \<open>Totals of a snapshot agree with each other\<close>

lemma checked_decimal_sum_words:
  fixes a b :: u128
  assumes "unat a + unat b < 2 ^ 128"
  shows "checked_decimal_sum (show_word a) (show_word b) field = Inr (show_nat (unat a + unat b))"
proof -
  have "parse_unsigned u128_max (show_nat (unat x)) = Some (unat x)" for x :: u128
    by (rule parse_unsigned_show_nat) (use unat_bound [of x] in \<open>simp add: u128_max_def\<close>)
  then show ?thesis
    using assms by (simp add: checked_decimal_sum_def show_word_def u128_max_def ok_or_def)
qed

lemma side_base_sides: "side_base Buy ts + side_base Sell ts = (\<Sum>t\<leftarrow>ts. tf_base t)"
proof (induction ts)
  case (Cons t ts)
  then show ?case by (cases "tf_side t") (simp_all add: side_base_def)
qed simp

lemma card_side_wallets_count: "card (side_wallets s ts) \<le> side_count s ts"
proof -
  have "side_wallets s ts = tf_wallet ` set (filter (\<lambda>t. tf_side t = s) ts)"
    by (auto simp: side_wallets_def)
  then show ?thesis
    using card_image_le [of "set (filter (\<lambda>t. tf_side t = s) ts)" tf_wallet]
      card_length [of "filter (\<lambda>t. tf_side t = s) ts"]
    by (simp add: side_count_def)
qed

lemma totals_consistent:
  assumes "totals_exact ts m" and "bounded ts"
  shows "checked_add_word (buys m) (sells m) = Some (trades m)"
    and "unique_traders m \<le> trades m" "unique_buyers m \<le> buys m" "unique_sellers m \<le> sells m"
    and "unat (buy_base_units m) + unat (sell_base_units m) < 2 ^ 128"
    and "unat (buy_quote_units m) + unat (sell_quote_units m) < 2 ^ 128"
proof -
  have "card (tf_wallet ` set ts) \<le> length ts"
    by (rule card_wallets_bound) auto
  then show "unique_traders m \<le> trades m" "unique_buyers m \<le> buys m" "unique_sellers m \<le> sells m"
    using assms(1) card_side_wallets_count by (simp_all add: totals_exact_def word_le_nat_alt)
  show "checked_add_word (buys m) (sells m) = Some (trades m)"
    using assms(1) side_count_sides [of ts] by (simp add: totals_exact_def checked_add_word_Some)
  have "(\<Sum>t\<leftarrow>ts. tf_base t) < 2 ^ 128"
    by (rule bounded_sum [OF assms(2)]) (use assms(2) in \<open>simp add: bounded_def\<close>)
  then show "unat (buy_base_units m) + unat (sell_base_units m) < 2 ^ 128"
    using assms(1) side_base_sides [of ts] by (simp add: totals_exact_def)
  show "unat (buy_quote_units m) + unat (sell_quote_units m) < 2 ^ 128"
    using assms(1) bounded_quote_volume [OF assms(2)] by (simp add: totals_exact_def quote_volume_sides)
qed

lemma largest_share_bound:
  assumes "largest_exact ts largest" and "largest = Some l"
  shows "share_bps l \<le> 10000"
proof -
  have "unat (share_quote_volume_units l) * 10000 \<le> 10000 * quote_volume ts"
    using assms quote_volume_by_wallet_le by (simp add: largest_exact_def)
  then show ?thesis
    using assms by (simp add: largest_exact_def share_rounds_up_def word_le_nat_alt)
qed

section \<open>What an assessment lists\<close>

lemma expected_summary_decision [simp]: "expected_decision (summary_decision d) = d"
  by (cases d) simp_all

lemma decisive_reasons_set:
  "set (decisive_reasons d rules) = reason_code ` set (filter (\<lambda>r. rule_decision r = d) rules)"
  "distinct (decisive_reasons d rules)"
  by (simp_all add: decisive_reasons_def)

definition rules_accepted :: "qualification_assessment \<Rightarrow> bool" where
  "rules_accepted a \<longleftrightarrow>
     list_all well_labelled (qa_rules a) \<and> distinct (map rule_id (qa_rules a))
     \<and> finalization_aggregate (qa_rules a) = qa_decision a"

lemma incomplete_rules_accepted:
  assumes "completeness s = Incomplete r" and "\<not> trim_is_empty r"
  shows "rules_accepted (incomplete_assessment s policy)"
  using assms all_rule_ids_distinct
  by (simp add: rules_accepted_def incomplete_assessment_def Let_def list_all_iff comp_def
      finalization_aggregate_def list_ex_iff all_rule_ids_def del: rule_id_as_str.simps)

lemma assessment_rules_accepted:
  assumes "length os < 2 ^ 64" and "build_market_window_snapshot market opened closes c os = Inr s"
    and "evaluate_qualification s policy = Inr a"
  shows "rules_accepted a"
proof -
  have policy: "policy_validate policy = Inr ()"
    using assms(3) by (auto simp: evaluate_qualification_def result_simps)
  note eval = evaluate_complete [OF assms(1,2) policy, unfolded assms(3)]
  show ?thesis
  proof (cases "completeness s")
    case Complete
    then show ?thesis
      using eval complete_rules_labelled complete_rules_facts all_rule_ids_distinct
      by (simp add: is_complete_def rules_accepted_def aggregates_agree del: rule_id_as_str.simps)
  next
    case (Incomplete r)
    then have "a = incomplete_assessment s policy" using eval by (simp add: is_complete_def)
    then show ?thesis
      using incomplete_rules_accepted [OF Incomplete] build_own_completeness(2) [OF assms(1,2)] Incomplete
      by simp
  qed
qed

section \<open>The canonical finalization passes its own validation\<close>

lemma if_Inl_Inr: "(if b then Inl e else Inr x) = Inr y \<longleftrightarrow> \<not> b \<and> y = x"
  by auto

lemma canonical_summary_Inr:
  assumes "canonical_discovery_summary w s a t = Inr sm"
  defines "m \<equiv> metrics s"
  shows "sum_window_revision sm = of_int (dwr_window_id w)"
    "sum_ruleset_revision sm = dwr_qualification_revision w"
    "sum_opened_unix_ms sm = dwr_opened_at_unix_ms w" "sum_closed_unix_ms sm = dwr_closes_at_unix_ms w"
    "sum_evaluated_unix_ms sm = t" "sum_decision sm = summary_decision (qa_decision a)"
    "sum_completeness sm = contract_completeness (completeness s)"
    "sum_reason_codes sm = decisive_reasons (qa_decision a) (qa_rules a)"
    "sum_trades sm = trades m" "sum_buys sm = buys m" "sum_sells sm = sells m"
    "sum_unique_traders sm = unique_traders m" "sum_unique_buyers sm = unique_buyers m"
    "sum_unique_sellers sm = unique_sellers m"
    "sum_buy_base_volume_units sm = show_word (buy_base_units m)"
    "sum_sell_base_volume_units sm = show_word (sell_base_units m)"
    "sum_buy_quote_volume_units sm = show_word (buy_quote_units m)"
    "sum_sell_quote_volume_units sm = show_word (sell_quote_units m)"
    "sum_maximum_single_wallet_quote_share_bps sm = map_option share_bps (largest_wallet_quote_volume m)"
  using assms(1) unfolding canonical_discovery_summary_def Let_def m_def if_Inl_Inr
  by (elim conjE; hypsubst; simp)+

lemma contract_completeness_iff:
  "contract_completeness c = WindowComplete \<longleftrightarrow> c = Complete"
  "contract_completeness c = WindowIncomplete \<longleftrightarrow> c \<noteq> Complete"
  by (cases c; simp add: contract_completeness_def is_complete_def)+

lemma complete_was_requested:
  assumes "length os < 2 ^ 64"
    and "build_market_window_snapshot market opened closes (requested_completeness reason) os = Inr s"
    and "completeness s = Complete"
  shows "reason = None"
  using snapshot_exact_of_build(1) [OF assms(1,2)] assms(3)
  by (cases reason) (simp_all add: snapshot_exact_def is_complete_def requested_completeness_def)

lemma built_accepted:
  fixes j :: "('x, 'v) window_json"
  assumes "length (dwr_observations w) < 2 ^ 64"
    and "build_discovery_window_finalization j w t reason = Inr f"
    and "reason = None \<Longrightarrow> dwr_closes_at_unix_ms w \<le> t"
  shows "validate_finalization f = (Inr () :: ('x persistence_error, unit) result)"
  using assms(2)
proof (rule build_finalization_parts)
  fix s a
  assume s: "build_market_window_snapshot (dwr_market w) (dwr_opened_at_unix_ms w) (dwr_closes_at_unix_ms w)
      (requested_completeness reason) (dwr_observations w) = Inr s"
    and a: "evaluate_qualification s (window_qualification_policy w) = Inr a"
    and sm: "canonical_discovery_summary w s a t = (Inr (fin_summary f) :: ('x persistence_error, _) result)"
    and f: "fin_finalized_at_unix_ms f = t" "fin_completeness f = contract_completeness (completeness s)"
      "fin_completeness_reason f = completeness_reason_code (completeness s)"
      "fin_feature_version f = MARKET_WINDOW_FEATURE_VERSION" "fin_decision f = qa_decision a"
      "fin_rules f = qa_rules a"
  note summary = canonical_summary_Inr [OF sm] and rules = assessment_rules_accepted [OF assms(1) s a]
  have "validate_rules {} (qa_rules a) = (Inr () :: ('x persistence_error, unit) result)"
    using rules by (simp add: validate_rules_Inr rules_accepted_def)
  moreover have "completeness s = Complete \<Longrightarrow> dwr_closes_at_unix_ms w \<le> t"
    using complete_was_requested [OF assms(1) s] assms(3) by blast
  moreover have "case completeness s of Complete \<Rightarrow> True | Incomplete r \<Rightarrow> \<not> trim_is_empty r"
    using build_own_completeness(2) [OF assms(1) s] by (simp split: snapshot_completeness.split)
  ultimately show ?thesis
    using rules unfolding validate_finalization_def f summary
    by (cases "completeness s")
       (simp_all add: rule_texts contract_completeness_def is_complete_def rules_accepted_def del: trim_is_empty.simps)
qed

lemma into_record_Inr:
  fixes j :: "('x, 'v) window_json"
  assumes "into_record j row os = Inr w"
  shows "dwr_window_id w = row_id row" "dwr_observations w = os"
    "dwr_opened_at_unix_ms w = row_opened_at_unix_ms row" "dwr_closes_at_unix_ms w = row_closes_at_unix_ms row"
    "0 \<le> row_qualification_revision row" "dwr_qualification_revision w = of_int (row_qualification_revision row)"
    "qualification_validate (dwr_qualification_values w) = Inr ()"
    "network_name (market_network (dwr_market w)) = row_network row" "mint (dwr_market w) = row_mint row"
    "venue_name (venue (dwr_market w)) = row_venue row" "market_address (dwr_market w) = row_market_address row"
    "observation_quote_mint (dwr_market w) = row_quote_mint row"
proof -
  have names: "parse_network v = (Inr n :: ('x persistence_error, _) result) \<Longrightarrow> network_name n = v"
    "parse_venue v = (Inr e :: ('x persistence_error, _) result) \<Longrightarrow> venue_name e = v" for v n e
    by (auto simp: parse_network_def parse_venue_def split: if_splits)
  show "dwr_window_id w = row_id row" "dwr_observations w = os"
    "dwr_opened_at_unix_ms w = row_opened_at_unix_ms row" "dwr_closes_at_unix_ms w = row_closes_at_unix_ms row"
    "0 \<le> row_qualification_revision row" "dwr_qualification_revision w = of_int (row_qualification_revision row)"
    "qualification_validate (dwr_qualification_values w) = Inr ()"
    "network_name (market_network (dwr_market w)) = row_network row" "mint (dwr_market w) = row_mint row"
    "venue_name (venue (dwr_market w)) = row_venue row" "market_address (dwr_market w) = row_market_address row"
    "observation_quote_mint (dwr_market w) = row_quote_mint row"
    using assms unfolding into_record_def result_bind_Inr map_err_Inr to_u64_Inr
    by (auto dest: names simp: observation_quote_mint_def)
qed

lemma built_accepted_for_window:
  fixes j :: "('x, 'v) window_json"
  assumes "length os < 2 ^ 64" and "into_record j row os = Inr w"
    and "build_discovery_window_finalization j w t reason = Inr f"
  shows "validate_finalization_for_window row f = (Inr () :: ('x persistence_error, unit) result)"
  using assms(3)
proof (rule build_finalization_parts)
  fix s a
  note row = into_record_Inr [OF assms(2)]
  assume s: "build_market_window_snapshot (dwr_market w) (dwr_opened_at_unix_ms w) (dwr_closes_at_unix_ms w)
      (requested_completeness reason) (dwr_observations w) = Inr s"
    and sm: "canonical_discovery_summary w s a t = (Inr (fin_summary f) :: ('x persistence_error, _) result)"
    and id: "0 \<le> dwr_window_id w"
    and f: "fin_finalized_at_unix_ms f = t" "fin_completeness f = contract_completeness (completeness s)"
      "fin_decision f = qa_decision a" "fin_rules f = qa_rules a"
  let ?ts = "facts_of (window_observations (dwr_market w) (dwr_opened_at_unix_ms w) (dwr_closes_at_unix_ms w) os)"
  have exact: "totals_exact ?ts (metrics s)" "largest_exact ?ts (largest_wallet_quote_volume (metrics s))" "bounded ?ts"
    using snapshot_exact_of_build [of os] s assms(1) row(2) by (simp_all add: snapshot_exact_def)
  note totals = totals_consistent [OF exact(1,3)]
  have share: "case map_option share_bps (largest_wallet_quote_volume (metrics s)) of
      None \<Rightarrow> False | Some share \<Rightarrow> 10000 < share \<Longrightarrow> False"
    using largest_share_bound [OF exact(2)]
    by (auto split: option.splits simp: not_less [symmetric])
  have reasons: "card (set (decisive_reasons d rs)) = length (decisive_reasons d rs)" for d rs
    by (rule distinct_card [OF decisive_reasons_set(2)])
  show ?thesis
    using id totals share reasons row(1,3-6)
    unfolding validate_finalization_for_window_def Let_def f canonical_summary_Inr [OF sm]
    by (simp add: to_u64_def decisive_reasons_set(1) checked_decimal_sum_words not_less [symmetric]) blast
qed

section \<open>A finalization can be built\<close>

lemma build_finalization_total:
  fixes j :: "('x, 'v) window_json"
  assumes "length (dwr_observations w) < 2 ^ 64" and "0 \<le> dwr_window_id w"
    and "valid_request (dwr_opened_at_unix_ms w) (dwr_closes_at_unix_ms w) (requested_completeness reason)"
    and "distinct (map obs_key (filter
           (in_window (dwr_market w) (dwr_opened_at_unix_ms w) (dwr_closes_at_unix_ms w)) (dwr_observations w)))"
    and "qualification_validate (dwr_qualification_values w) = Inr ()"
    and "\<forall>s. \<exists>v. snapshot_to_value j s = Inr v" and "\<forall>a. \<exists>v. assessment_to_value j a = Inr v"
  shows "\<exists>f. build_discovery_window_finalization j w t reason = Inr f"
proof -
  obtain s where s: "build_market_window_snapshot (dwr_market w) (dwr_opened_at_unix_ms w)
      (dwr_closes_at_unix_ms w) (requested_completeness reason) (dwr_observations w) = Inr s"
    using build_of_distinct [OF assms(1,3)] assms(4) by (auto simp: distinct_window_keys)
  obtain a where a: "evaluate_qualification s (window_qualification_policy w) = Inr a"
    using evaluate_complete [OF assms(1) s window_policy_valid [OF assms(5)]]
    by (cases "is_complete (completeness s)") auto
  have "\<exists>sm. canonical_discovery_summary w s a t = (Inr sm :: ('x persistence_error, _) result)"
    using assms(2) by (simp add: canonical_discovery_summary_def Let_def)
  then obtain sm where sm: "canonical_discovery_summary w s a t = (Inr sm :: ('x persistence_error, _) result)" by blast
  obtain sv av where "snapshot_to_value j s = Inr sv" "assessment_to_value j a = Inr av" using assms(6,7) by meson
  then show ?thesis
    by (simp add: build_discovery_window_finalization_def map_err_def s a sm)
qed

section \<open>The finalizing transaction\<close>

lemma latest_slot_member: "latest_slot os = Some x \<Longrightarrow> \<exists>ob\<in>set os. slot (key_coordinate (obs_key ob)) = x"
proof (induction os arbitrary: x rule: rev_induct)
  case (snoc ob os)
  then show ?case by (cases "latest_slot os") (auto simp: max_def split: if_splits)
qed simp

definition slots_fit :: "'json normalized_observation list \<Rightarrow> bool" where
  "slots_fit os \<longleftrightarrow> (\<forall>ob\<in>set os. int (unat (slot (key_coordinate (obs_key ob)))) \<le> i64_max)"

lemma rules_fit_all:
  assumes "\<forall>r\<in>set rs. observed_slot r = observed" and "\<forall>x. observed = Some x \<longrightarrow> int (unat x) \<le> i64_max"
  shows "rules_fit rs = Inr ()"
  using assms by (induction rs) (auto simp: to_i64_def split: option.split)

lemma observed_slot_rule [simp]: "observed_slot (rule rid d reason evidence observed) = observed"
  by (simp add: rule_def)

lemma assessment_observed_slot:
  assumes "evaluate_qualification s policy = Inr a" and "r \<in> set (qa_rules a)"
  shows "observed_slot r = latest_observed_slot s"
proof -
  have "observed_slot (quote_asset_rule s) = latest_observed_slot s"
    "observed_slot (quote_volume_rule s policy v) = latest_observed_slot s"
    "observed_slot (concentration_rule s policy v) = latest_observed_slot s" for v
    by (auto simp: quote_asset_rule_def quote_volume_rule_def concentration_rule_def minimum_rule_def Let_def
        split: quote_asset_class.split option.split)
  then have "r \<in> set (complete_rules s policy v) \<Longrightarrow> observed_slot r = latest_observed_slot s" for v
    by (auto simp: complete_rules_def minimum_rule_def Let_def)
  then show ?thesis
    using assms by (auto simp: evaluate_qualification_def incomplete_assessment_def Let_def result_simps split: if_splits)
qed

text \<open>An observation the transaction added to the window, and how its market is stored.\<close>

definition window_member :: "'v window_identity_row \<Rightarrow> 'json normalized_observation \<Rightarrow> bool" where
  "window_member row ob \<longleftrightarrow>
     first_mismatch (membership_checks row ob) = None
     \<and> market_network (obs_market ob) = key_network (obs_key ob) \<and> quote_mint (obs_market ob) \<noteq> Some []"

lemma network_name_inj [simp]: "network_name a = network_name b \<longleftrightarrow> a = b"
  by (cases a; cases b) simp_all

lemma venue_name_inj [simp]: "venue_name a = venue_name b \<longleftrightarrow> a = b"
  by (cases a; cases b) simp_all

lemma member_in_window:
  fixes j :: "('x, 'v) window_json"
  assumes "into_record j row os = Inr w" and "window_member row ob"
  shows "in_window (dwr_market w) (dwr_opened_at_unix_ms w) (dwr_closes_at_unix_ms w) ob"
proof -
  note row = into_record_Inr [OF assms(1)]
  have "quote_mint (dwr_market w) \<noteq> Some []"
    using assms(1) unfolding into_record_def result_bind_Inr map_err_Inr by (auto split: if_splits)
  then have "quote_mint (obs_market ob) = quote_mint (dwr_market w)"
    using assms(2) row(12)
    by (auto simp: window_member_def membership_checks_def observation_quote_mint_def split: if_splits option.splits)
  then have "obs_market ob = dwr_market w"
    using assms(2) row(8-11)
    by (auto simp: window_member_def membership_checks_def intro!: market_identity.equality split: if_splits)
  then show ?thesis
    using assms(2) row(3,4) by (simp add: in_window_def window_member_def membership_checks_def split: if_splits)
qed

lemma built_count:
  fixes j :: "('x, 'v) window_json"
  assumes "length os < 2 ^ 64" and "into_record j row os = Inr w" and "\<forall>ob\<in>set os. window_member row ob"
    and "build_discovery_window_finalization j w t reason = Inr f"
  shows "unat (fin_observation_count f) = length os"
  using assms(4)
proof (rule build_finalization_parts)
  fix s
  note row = into_record_Inr [OF assms(2)]
  let ?in = "in_window (dwr_market w) (dwr_opened_at_unix_ms w) (dwr_closes_at_unix_ms w)"
  assume s: "build_market_window_snapshot (dwr_market w) (dwr_opened_at_unix_ms w) (dwr_closes_at_unix_ms w)
      (requested_completeness reason) (dwr_observations w) = Inr s"
    and f: "fin_observation_count f = observations_count (metrics s)"
  have "filter ?in os = os" using member_in_window [OF assms(2)] assms(3) unfolding filter_id_conv by blast
  then have "length (window_observations (dwr_market w) (dwr_opened_at_unix_ms w) (dwr_closes_at_unix_ms w) os) = length os"
    using mset_window_observations [of "dwr_market w" "dwr_opened_at_unix_ms w" "dwr_closes_at_unix_ms w" os]
    by (metis mset_eq_length)
  then show ?thesis
    using snapshot_exact_of_build(1) [OF assms(1) s [unfolded row(2)]] f by (simp add: snapshot_exact_def)
qed

lemma built_rules_fit:
  fixes j :: "('x, 'v) window_json"
  assumes "length (dwr_observations w) < 2 ^ 64" and "slots_fit (dwr_observations w)"
    and "build_discovery_window_finalization j w t reason = Inr f"
  shows "rules_fit (fin_rules f) = (Inr () :: ('x persistence_error, unit) result)"
  using assms(3)
proof (rule build_finalization_parts)
  fix s a
  assume s: "build_market_window_snapshot (dwr_market w) (dwr_opened_at_unix_ms w) (dwr_closes_at_unix_ms w)
      (requested_completeness reason) (dwr_observations w) = Inr s"
    and a: "evaluate_qualification s (window_qualification_policy w) = Inr a" and f: "fin_rules f = qa_rules a"
  let ?ws = "window_observations (dwr_market w) (dwr_opened_at_unix_ms w) (dwr_closes_at_unix_ms w) (dwr_observations w)"
  have slot: "latest_observed_slot s = latest_slot ?ws"
    using snapshot_exact_of_build(1) [OF assms(1) s] by (simp add: snapshot_exact_def)
  have "int (unat x) \<le> i64_max" if "latest_observed_slot s = Some x" for x
  proof -
    obtain ob where "ob \<in> set ?ws" "slot (key_coordinate (obs_key ob)) = x"
      using latest_slot_member \<open>latest_observed_slot s = Some x\<close> slot by metis
    then show ?thesis
      using assms(2) window_observations_members(1) unfolding slots_fit_def by blast
  qed
  then show ?thesis
    unfolding f using assessment_observed_slot [OF a] by (intro rules_fit_all) auto
qed

lemma apply_to_token_total:
  fixes j :: "('x, 'v) window_json"
  assumes "length os < 2 ^ 64" and "into_record j row os = Inr w"
    and "build_discovery_window_finalization j w t reason = Inr f"
  shows "\<exists>tok'. apply_to_token f tok = (Inr tok' :: ('x persistence_error, _) result)"
proof -
  have "validate_finalization_for_window row f = (Inr () :: ('x persistence_error, unit) result)"
    by (rule built_accepted_for_window [OF assms])
  then show ?thesis
    unfolding apply_to_token_def validate_finalization_for_window_def Let_def
    by (auto simp: result_simps split: if_splits)
qed

lemma built_reason:
  fixes j :: "('x, 'v) window_json"
  assumes "length (dwr_observations w) < 2 ^ 64"
    and "build_discovery_window_finalization j w t (Some r) = Inr f"
  shows "fin_completeness_reason f = Some r"
  using assms(2)
proof (rule build_finalization_parts)
  fix s
  assume s: "build_market_window_snapshot (dwr_market w) (dwr_opened_at_unix_ms w) (dwr_closes_at_unix_ms w)
      (requested_completeness (Some r)) (dwr_observations w) = Inr s"
    and f: "fin_completeness_reason f = completeness_reason_code (completeness s)"
  have "completeness s = Incomplete r"
    using snapshot_exact_of_build(1) [OF assms(1) s]
    by (simp add: snapshot_exact_def requested_completeness_def is_complete_def)
  then show ?thesis using f by simp
qed

text \<open>Two finalizations of a window for the same reason differ in the time of the evaluation only.\<close>

lemma built_at_other_time:
  fixes j :: "('x, 'v) window_json"
  assumes "build_discovery_window_finalization j w t reason = Inr f"
    and "build_discovery_window_finalization j w t' reason = Inr f'"
  shows "f' = f\<lparr>fin_finalized_at_unix_ms := t', fin_summary := (fin_summary f)\<lparr>sum_evaluated_unix_ms := t'\<rparr>\<rparr>"
proof -
  obtain s a where sa: "build_market_window_snapshot (dwr_market w) (dwr_opened_at_unix_ms w) (dwr_closes_at_unix_ms w)
      (requested_completeness reason) (dwr_observations w) = Inr s"
    "evaluate_qualification s (window_qualification_policy w) = Inr a"
    using build_finalization_parts [OF assms(1)] by blast
  show ?thesis
    using assms unfolding build_discovery_window_finalization_def sa canonical_discovery_summary_def Let_def
    by (cases f; cases "dwr_window_id w < 0") (auto simp: result_simps map_err_def split: sum.splits)
qed

lemma stored_row_total:
  fixes j :: "('x, 'v) window_json"
  assumes "int (unat (fin_observation_count f)) \<le> i64_max" and "summary_to_value j (fin_summary f) = Inr v"
  shows "stored_row j f = Inr \<lparr>sf_feature_version = fin_feature_version f,
      sf_observation_count = int (unat (fin_observation_count f)), sf_snapshot = fin_snapshot f,
      sf_decision = assessment_decision_name (fin_decision f), sf_assessment = fin_assessment f,
      sf_summary = v, sf_completeness = completeness_name (fin_completeness f),
      sf_completeness_reason = fin_completeness_reason f\<rparr>"
  using assms by (simp add: stored_row_def to_i64_def map_err_def)

text \<open>What the queries of the transaction answer for the window of a row with the members \<open>os\<close>.\<close>

definition window_reads ::
    "'v window_identity_row \<Rightarrow> 'json normalized_observation list \<Rightarrow> 'v stored_finalization_row option
      \<Rightarrow> projection_readiness_row \<Rightarrow> 'v current_projection_row option \<Rightarrow> bool \<Rightarrow> ('v, 'json, 'x) finalization_reads" where
  "window_reads row os existing readiness projection newer =
     \<lparr>read_lock_identity = Some (row_network row, row_mint row), read_window = Some row,
      read_existing = existing, read_readiness = Some readiness, read_observation_count = int (length os),
      read_observations = Inr os, read_projection = projection, read_newer_window_exists = newer\<rparr>"

definition readiness_allows :: "projection_readiness_row \<Rightarrow> string option \<Rightarrow> bool" where
  "readiness_allows readiness reason \<longleftrightarrow>
     readiness_of readiness = ReadinessReady
     \<or> readiness_of readiness = OpeningProjectionUnavailable \<and> reason = Some (reason_as_str ProcessingFailed)"

definition projection_decodes ::
    "('x, 'v) window_json \<Rightarrow> 'v window_identity_row \<Rightarrow> 'v current_projection_row option \<Rightarrow> bool" where
  "projection_decodes j row projection \<longleftrightarrow>
     (case projection of
        None \<Rightarrow> True
      | Some p \<Rightarrow> (case token_from_value j (cur_token p) of
            Inl _ \<Rightarrow> False
          | Inr t \<Rightarrow> validate_projection_matches_window t row = (Inr () :: ('x persistence_error, unit) result)))"

lemma commit_total:
  fixes j :: "('x, 'v) window_json" and reads :: "('v, 'json, 'x) finalization_reads"
  assumes "stored_row j f = Inr stored" and "rules_fit (fin_rules f) = (Inr () :: ('x persistence_error, unit) result)"
    and "projection_decodes j row (read_projection reads)" and "\<forall>t. \<exists>v. token_to_value j t = Inr v"
    and "\<And>tok. \<exists>tok'. apply_to_token f tok = (Inr tok' :: ('x persistence_error, _) result)"
  shows "\<exists>writes. finalization_commit j reads row f = Inr writes \<and> write_stored writes = stored"
proof -
  have token: "\<exists>p. finalization_token j row f (cur_token pr) = Inr p" if "read_projection reads = Some pr" for pr
  proof -
    obtain t where t: "token_from_value j (cur_token pr) = Inr t"
      "validate_projection_matches_window t row = (Inr () :: ('x persistence_error, unit) result)"
      using assms(3) \<open>read_projection reads = Some pr\<close> by (auto simp: projection_decodes_def split: sum.splits)
    obtain t' where t': "apply_to_token f t = (Inr t' :: ('x persistence_error, _) result)" using assms(5) by blast
    obtain v where "token_to_value j t' = Inr v" using assms(4) by blast
    then show ?thesis using t t' by (simp add: finalization_token_def map_err_def)
  qed
  show ?thesis
  proof (cases "read_projection reads")
    case (Some pr)
    then obtain q where "finalization_token j row f (cur_token pr) = Inr q" using token by blast
    then show ?thesis using assms(1,2) Some by (simp add: finalization_commit_def Let_def)
  qed (use assms(1,2) in \<open>simp add: finalization_commit_def Let_def\<close>)
qed

lemma finalize_active:
  fixes j :: "('x, 'v) window_json" and os :: "'json normalized_observation list"
  assumes "row_status row = ''ACTIVE''" and "\<forall>ob\<in>set os. window_member row ob"
    and "int (length os) \<le> i64_max" and "slots_fit os"
    and "into_record j row os = Inr w" and "build_discovery_window_finalization j w t reason = Inr f"
    and "reason = None \<Longrightarrow> row_closes_at_unix_ms row \<le> t" and "readiness_allows readiness reason"
    and "projection_decodes j row projection" and "summary_to_value j (fin_summary f) = Inr v"
    and "\<forall>t. \<exists>v. token_to_value j t = Inr v"
  shows "\<exists>writes stored. finalize_window j (window_reads row os existing readiness projection newer) f = Inr (Some writes)
    \<and> write_stored writes = stored \<and> stored_row j f = Inr stored"
proof -
  note row = into_record_Inr [OF assms(5)]
  have len: "length os < 2 ^ 64" using assms(3) by (simp add: i64_max_def)
  have count: "unat (fin_observation_count f) = length os" by (rule built_count [OF len assms(5,2,6)])
  have valid: "validate_finalization f = (Inr () :: ('x persistence_error, unit) result)"
    "validate_finalization_for_window row f = (Inr () :: ('x persistence_error, unit) result)"
    using built_accepted [OF _ assms(6)] built_accepted_for_window [OF len assms(5,6)] assms(7) len row(2,4) by simp_all
  have id: "fin_window_id f = row_id row" "fin_finalized_at_unix_ms f = t"
    using build_finalization_parts [OF assms(6)] row(1) by metis+
  have again: "build_discovery_window_finalization j w t (fin_completeness_reason f) = Inr f"
    using rebuild_own [OF _ assms(6)] len row(2) by simp
  have ready: "readiness_of readiness \<noteq> ReadinessPending"
    "readiness_of readiness = OpeningProjectionUnavailable \<Longrightarrow>
       fin_completeness_reason f = Some (reason_as_str ProcessingFailed)"
    using assms(6,8) built_reason [of w j t] len row(2) by (auto simp: readiness_allows_def)
  have fits: "rules_fit (fin_rules f) = (Inr () :: ('x persistence_error, unit) result)"
    using built_rules_fit [OF _ _ assms(6)] len assms(4) row(2) by simp
  obtain stored where stored: "stored_row j f = Inr stored"
    using stored_row_total [OF _ assms(10)] count assms(3) by simp
  obtain writes where "finalization_commit j (window_reads row os existing readiness projection newer) row f = Inr writes"
    "write_stored writes = stored"
    using commit_total [OF stored fits _ assms(11) apply_to_token_total [OF len assms(5,6)],
        of row "window_reads row os existing readiness projection newer"] assms(9)
    by (auto simp: window_reads_def)
  then show ?thesis
    using valid again ready count assms(1,3,5) id stored
    by (simp add: finalize_window_def window_reads_def ok_or_def to_i64_def Let_def)
qed

end
