(* ===== verification/Finalization_Claims.thy ===== *)
theory Finalization_Claims
  imports Window_Finalization_Correct
begin

text \<open>
  What the durable finalization of a window guarantees: a payload always exists, the transaction
  stores the payload built from the rows it reads, and a second attempt at any later time finds
  the stored payload and changes nothing.
\<close>

section \<open>The claims\<close>

text \<open>
  C23: finalization never gets stuck. For a durable window with a valid time range, valid settings,
  no observation listed twice and a reason of incompleteness that is absent or not blank, the
  canonical finalization can be built, whatever the observations say and whatever they add up to:
  no arithmetic of the snapshot, of the qualification rules or of the summary fails. (JSON encoding
  is a parameter and is taken to be total on the values it is given.)
\<close>

theorem finalization_total:
  fixes j :: "('x, 'v) window_json"
  assumes "length (dwr_observations w) < 2 ^ 64" and "0 \<le> dwr_window_id w"
    and "dwr_opened_at_unix_ms w < dwr_closes_at_unix_ms w"
    and "\<forall>r. reason = Some r \<longrightarrow> \<not> trim_is_empty r"
    and "distinct (map obs_key (filter
           (in_window (dwr_market w) (dwr_opened_at_unix_ms w) (dwr_closes_at_unix_ms w)) (dwr_observations w)))"
    and "qualification_validate (dwr_qualification_values w) = Inr ()"
    and "\<forall>s. \<exists>v. snapshot_to_value j s = Inr v" and "\<forall>a. \<exists>v. assessment_to_value j a = Inr v"
  shows "\<exists>f. build_discovery_window_finalization j w t reason = Inr f"
proof -
  have "valid_request (dwr_opened_at_unix_ms w) (dwr_closes_at_unix_ms w) (requested_completeness reason)"
    using assms(3,4) by (cases reason) (simp_all add: valid_request_def requested_completeness_def)
  then show ?thesis by (rule build_finalization_total [OF assms(1,2) _ assms(5-8)])
qed

lemma into_record_status [simp]: "into_record j (row\<lparr>row_status := status\<rparr>) os = into_record j row os"
  by (simp add: into_record_def)

lemma retry_matches:
  fixes j :: "('x, 'v) window_json"
  assumes "build_discovery_window_finalization j w t reason = Inr f"
    and "build_discovery_window_finalization j w t' reason = Inr f'"
    and "stored_row j f = Inr stored" and "\<forall>s v. summary_to_value j s = Inr v \<longrightarrow> summary_from_value j v = Inr s"
  shows "finalization_matches j stored f'"
proof -
  obtain v where v: "summary_to_value j (fin_summary f) = Inr v" "int (unat (fin_observation_count f)) \<le> i64_max"
    using assms(3) unfolding stored_row_def result_bind_Inr map_err_Inr to_i64_def by (auto split: if_splits)
  then have "summary_from_value j v = Inr (fin_summary f)" using assms(4) by blast
  then show ?thesis
    using assms(3) v unfolding built_at_other_time [OF assms(1,2)] stored_row_total [OF v(2,1)]
    by (auto simp: finalization_matches_def)
qed

lemma finalize_stored:
  fixes j :: "('x, 'v) window_json" and os :: "'json normalized_observation list"
  assumes "length os < 2 ^ 64" and "into_record j row os = Inr w"
    and "build_discovery_window_finalization j w t reason = Inr f" and "reason = None \<Longrightarrow> row_closes_at_unix_ms row \<le> t"
    and "finalization_matches j stored f" and "row_status row = ''FINALIZED''"
  shows "finalize_window j (window_reads row os (Some stored) readiness projection newer) f = Inr None"
proof -
  note row = into_record_Inr [OF assms(2)]
  have "validate_finalization f = (Inr () :: ('x persistence_error, unit) result)"
    "validate_finalization_for_window row f = (Inr () :: ('x persistence_error, unit) result)"
    using built_accepted [OF _ assms(3)] built_accepted_for_window [OF assms(1-3)] assms(1,4) row(2,4) by simp_all
  then show ?thesis using assms(5,6) by (simp add: finalize_window_def window_reads_def ok_or_def Let_def)
qed

text \<open>
  C8: a window is finalized once, with the canonical payload. When the worker built a finalization
  from the members of an active window, the transaction, which reads the members again and rebuilds
  the payload on its own, accepts it and stores exactly that payload, whatever else the rows say;
  none of the many validations on the way refuses it. A second attempt, made at any later time
  against the now finalized row, recognises the stored payload, writes nothing and reports success.
  A window declared complete must not be finalized before it closes.
\<close>

theorem finalization_stored_once:
  fixes j :: "('x, 'v) window_json" and os :: "'json normalized_observation list"
  assumes "row_status row = ''ACTIVE''" and "\<forall>ob\<in>set os. window_member row ob"
    and "int (length os) \<le> i64_max" and "slots_fit os"
    and "into_record j row os = Inr w" and "build_discovery_window_finalization j w t reason = Inr f"
    and "reason = None \<longrightarrow> row_closes_at_unix_ms row \<le> t" and "readiness_allows readiness reason"
    and "projection_decodes j row projection"
    and "\<forall>s. \<exists>v. summary_to_value j s = Inr v"
    and "\<forall>s v. summary_to_value j s = Inr v \<longrightarrow> summary_from_value j v = Inr s"
    and "\<forall>t. \<exists>v. token_to_value j t = Inr v"
  shows "\<exists>writes. finalize_window j (window_reads row os None readiness projection newer) f = Inr (Some writes)
    \<and> stored_row j f = Inr (write_stored writes) \<and> write_rules writes = fin_rules f
    \<and> (\<forall>t' f'. t \<le> t' \<and> build_discovery_window_finalization j w t' reason = Inr f' \<longrightarrow>
         finalize_window j (window_reads (row\<lparr>row_status := ''FINALIZED''\<rparr>) os (Some (write_stored writes))
           readiness projection newer) f' = Inr None)"
proof -
  obtain v where "summary_to_value j (fin_summary f) = Inr v" using assms(10) by blast
  then obtain writes where w: "finalize_window j (window_reads row os None readiness projection newer) f = Inr (Some writes)"
    "stored_row j f = Inr (write_stored writes)"
    using finalize_active [OF assms(1-6) _ assms(8,9) _ assms(12), of v] assms(7) by blast
  have rules: "write_rules writes = fin_rules f"
    using w(1) unfolding finalize_window_def Let_def
    by (auto simp: result_simps finalization_commit_def Let_def window_reads_def split: if_splits option.splits)
  have "finalize_window j (window_reads (row\<lparr>row_status := ''FINALIZED''\<rparr>) os (Some (write_stored writes))
           readiness projection newer) f' = Inr None"
    if later: "t \<le> t'" "build_discovery_window_finalization j w t' reason = Inr f'" for t' f'
  proof (rule finalize_stored [OF _ _ later(2)])
    show "length os < 2 ^ 64" using assms(3) by (simp add: i64_max_def)
    show "into_record j (row\<lparr>row_status := ''FINALIZED''\<rparr>) os = Inr w" using assms(5) by simp
    show "finalization_matches j (write_stored writes) f'" by (rule retry_matches [OF assms(6) later(2) w(2) assms(11)])
  qed (use assms(7) later(1) in auto)
  then show ?thesis using w rules by blast
qed

section \<open>A concrete window\<close>

datatype example_json =
    JsonNull | JsonSnapshot market_window_snapshot | JsonAssessment qualification_assessment
  | JsonSummary discovery_window_summary | JsonToken discovery_token
  | JsonPrefilter prefilter_defaults | JsonQualification qualification_defaults

definition example_codec :: "(unit, example_json) window_json" where
  "example_codec =
     \<lparr>snapshot_to_value = Inr \<circ> JsonSnapshot, assessment_to_value = Inr \<circ> JsonAssessment,
      summary_to_value = Inr \<circ> JsonSummary,
      summary_from_value = (\<lambda>v. case v of JsonSummary s \<Rightarrow> Inr s | _ \<Rightarrow> Inl ()),
      prefilter_from_value = (\<lambda>v. case v of JsonPrefilter p \<Rightarrow> Inr p | _ \<Rightarrow> Inl ()),
      qualification_from_value = (\<lambda>v. case v of JsonQualification q \<Rightarrow> Inr q | _ \<Rightarrow> Inl ()),
      token_to_value = Inr \<circ> JsonToken, token_from_value = (\<lambda>v. case v of JsonToken t \<Rightarrow> Inr t | _ \<Rightarrow> Inl ())\<rparr>"

definition example_prefilter :: prefilter_defaults where
  "example_prefilter =
     \<lparr>pd_max_event_age_ms = 60000, pd_observation_window_ms = 60000, pd_max_active_windows = 100,
      pd_rpc_requests_per_second = 10, pd_rpc_max_in_flight = 4, pd_rpc_request_timeout_ms = 10000,
      pd_rpc_rate_limit_cooldown_ms = 1000\<rparr>"

definition example_row :: "example_json window_identity_row" where
  "example_row =
     \<lparr>row_id = 3, row_network = ''SOLANA_MAINNET'', row_source_program = ''PUMP'',
      row_venue = ''PUMP_BONDING_CURVE'', row_market_address = ''A'', row_mint = ''M'', row_quote_mint = [],
      row_target_kind = ''PUMP_MINT'', row_target_address = ''M'', row_opened_at_unix_ms = 0,
      row_closes_at_unix_ms = 10, row_collector_run_id = ''run'', row_prefilter_revision = 1,
      row_prefilter_values = JsonPrefilter example_prefilter, row_qualification_revision = 1,
      row_qualification_values = JsonQualification QUALIFICATION_SAFE_INITIAL, row_status = ''ACTIVE''\<rparr>"

definition example_record :: "unit discovery_window_record" where
  "example_record =
     \<lparr>dwr_window_id = 3, dwr_market = example_market, dwr_source_program = SourcePump,
      dwr_opened_at_unix_ms = 0, dwr_closes_at_unix_ms = 10, dwr_collector_run_id = ''run'',
      dwr_prefilter_revision = 1, dwr_prefilter_values = example_prefilter,
      dwr_qualification_revision = 1, dwr_qualification_values = QUALIFICATION_SAFE_INITIAL,
      dwr_observations = example_window\<rparr>"

lemma example_settings_valid:
  "prefilter_validate example_prefilter = Inr ()" "qualification_validate QUALIFICATION_SAFE_INITIAL = Inr ()"
  unfolding prefilter_validate_Inr qualification_validate_Inr
  by (simp_all add: example_prefilter_def QUALIFICATION_SAFE_INITIAL_def)

lemma example_into_record: "into_record example_codec example_row example_window = Inr example_record"
  by (simp add: into_record_def example_codec_def example_row_def example_record_def parse_network_def
      parse_source_program_def parse_venue_def map_err_def example_settings_valid to_u64_def example_market_def)

lemma example_codec_total:
  "\<forall>s. \<exists>v. snapshot_to_value example_codec s = Inr v" "\<forall>a. \<exists>v. assessment_to_value example_codec a = Inr v"
  "\<forall>s. \<exists>v. summary_to_value example_codec s = Inr v" "\<forall>t. \<exists>v. token_to_value example_codec t = Inr v"
  "\<forall>s v. summary_to_value example_codec s = Inr v \<longrightarrow> summary_from_value example_codec v = Inr s"
  by (auto simp: example_codec_def)

theorem finalization_total_witness:
  "\<exists>f. build_discovery_window_finalization example_codec example_record 20 None = Inr f"
proof (rule finalization_total [OF _ _ _ _ _ _ example_codec_total(1,2)])
  show "length (dwr_observations example_record) < 2 ^ 64" "0 \<le> dwr_window_id example_record"
    "dwr_opened_at_unix_ms example_record < dwr_closes_at_unix_ms example_record"
    "qualification_validate (dwr_qualification_values example_record) = Inr ()"
    "distinct (map obs_key (filter (in_window (dwr_market example_record) (dwr_opened_at_unix_ms example_record)
       (dwr_closes_at_unix_ms example_record)) (dwr_observations example_record)))"
    using example_window_facts(1,2) example_settings_valid by (simp_all add: example_record_def)
qed simp

definition example_readiness :: projection_readiness_row where
  "example_readiness = \<lparr>opening_work_status = Some ''COMPLETE'', projection_work_pending = False,
     candidate_projection_present = True\<rparr>"

lemma example_members: "\<forall>ob\<in>set example_window. window_member example_row ob"
  by (simp add: window_member_def example_window_def example_trade_def example_row_def membership_checks_def
      example_market_def observation_quote_mint_def)

theorem finalization_stored_once_witness:
  "\<exists>f writes. build_discovery_window_finalization example_codec example_record 20 None = Inr f
     \<and> finalize_window example_codec (window_reads example_row example_window None example_readiness None False) f
         = Inr (Some writes)"
proof -
  have "valid_request 0 10 (requested_completeness None)" by (simp add: valid_request_def requested_completeness_def)
  then obtain f where f: "build_discovery_window_finalization example_codec example_record 20 None = Inr f"
    using build_finalization_total [OF _ _ _ _ _ example_codec_total(1,2), of example_record None 20]
      example_window_facts(1,2) example_settings_valid by (auto simp: example_record_def)
  have hyps: "row_status example_row = ''ACTIVE''" "int (length example_window) \<le> i64_max" "slots_fit example_window"
    "(None :: string option) = None \<longrightarrow> row_closes_at_unix_ms example_row \<le> 20" "readiness_allows example_readiness None"
    "projection_decodes example_codec example_row None"
    by (simp_all add: example_row_def example_window_def example_trade_def i64_max_def slots_fit_def
        readiness_allows_def readiness_of_def example_readiness_def projection_decodes_def)
  show ?thesis
    using finalization_stored_once [OF hyps(1) example_members hyps(2,3) example_into_record f hyps(4-6)
        example_codec_total(3,5,4), of False] f by blast
qed

end
