(* ===== verification/Maintenance.thy ===== *)
theory Maintenance
  imports Persistence_Values
begin

text \<open>
  Storage maintenance: \<open>apps/server/src/jobs/maintenance.rs\<close> and the statements of
  \<open>crates/persistence/src/retention.rs\<close>. A table is the list of its rows; an observation carries
  its work rows and whether a window that is still active has it as a member, which are the
  subqueries of the statement. What happens around a round of the loop is its environment: whether
  the task is cancelled, which rows other transactions hold locked, whether the database fails, and
  what other tasks do to the tables before the next round.
\<close>

section \<open>Retention\<close>

definition MAX_RETENTION_BATCH_SIZE :: u32 where
  "MAX_RETENTION_BATCH_SIZE = 10000"

record retention_policy =
  terminal_history_before :: i64
  projection_events_before :: i64
  quarantine_before :: i64
  policy_batch_size :: u32

record retention_prune_result =
  pruned_terminal_observations :: u64
  pruned_projection_events :: u64
  pruned_quarantine_records :: u64

definition saturating_add_u64 :: "u64 \<Rightarrow> u64 \<Rightarrow> u64" where
  "saturating_add_u64 a b = (case checked_add_word a b of None \<Rightarrow> - 1 | Some c \<Rightarrow> c)"

definition total_rows :: "retention_prune_result \<Rightarrow> u64" where
  "total_rows p =
     saturating_add_u64 (saturating_add_u64 (pruned_terminal_observations p) (pruned_projection_events p))
       (pruned_quarantine_records p)"

record work_row =
  work_status :: string
  work_finished_at :: "i64 option"

record observation_row =
  or_id :: i64
  or_first_seen_at :: i64
  or_work :: "work_row list"
  or_active_member :: bool

record event_row =
  er_sequence :: i64
  er_created_at :: i64

record quarantine_row =
  qr_id :: i64
  qr_last_seen_at :: i64

record retained_tables =
  chain_observations :: "observation_row list"
  projection_events :: "event_row list"
  intake_quarantine :: "quarantine_row list"

record row_locks =
  locked_observations :: "i64 list"
  locked_events :: "i64 list"
  locked_quarantine :: "i64 list"

definition work_retained :: "i64 \<Rightarrow> work_row \<Rightarrow> bool" where
  "work_retained before w \<longleftrightarrow>
     \<not> (work_status w = ''COMPLETE'' \<or> work_status w = ''FAILED'')
     \<or> (case work_finished_at w of None \<Rightarrow> True | Some t \<Rightarrow> before \<le> t)"

definition terminal_candidate :: "i64 \<Rightarrow> observation_row \<Rightarrow> bool" where
  "terminal_candidate before row \<longleftrightarrow>
     or_first_seen_at row < before \<and> or_work row \<noteq> [] \<and> \<not> list_ex (work_retained before) (or_work row)
     \<and> \<not> or_active_member row"

text \<open>
  \<open>ORDER BY time, id LIMIT n FOR UPDATE SKIP LOCKED\<close>, and the deletion of the rows whose id was
  selected. The limit counts the rows that are not skipped.
\<close>

definition select_ids :: "('r \<Rightarrow> i64 \<times> i64) \<Rightarrow> ('r \<Rightarrow> bool) \<Rightarrow> i64 list \<Rightarrow> nat \<Rightarrow> 'r list \<Rightarrow> i64 list" where
  "select_ids key candidate locked limit rows =
     take limit (filter (\<lambda>i. i \<notin> set locked) (map (snd \<circ> key) (sort_key key (filter candidate rows))))"

definition delete_ids :: "('r \<Rightarrow> i64 \<times> i64) \<Rightarrow> i64 list \<Rightarrow> 'r list \<Rightarrow> u64 \<times> 'r list" where
  "delete_ids key ids rows =
     (of_nat (length (filter (\<lambda>r. snd (key r) \<in> set ids) rows)), filter (\<lambda>r. snd (key r) \<notin> set ids) rows)"

definition delete_batch ::
    "('r \<Rightarrow> i64 \<times> i64) \<Rightarrow> ('r \<Rightarrow> bool) \<Rightarrow> i64 list \<Rightarrow> u32 \<Rightarrow> 'r list \<Rightarrow> u64 \<times> 'r list" where
  "delete_batch key candidate locked limit rows =
     delete_ids key (select_ids key candidate locked (unat limit) rows) rows"

definition validate_retention_policy :: "retention_policy \<Rightarrow> ('x persistence_error, unit) result" where
  "validate_retention_policy p =
     (if policy_batch_size p = 0 then Inl (MustBePositive ''retention batch_size'')
      else if MAX_RETENTION_BATCH_SIZE < policy_batch_size p
      then Inl (LimitTooLarge ''retention batch_size'' MAX_RETENTION_BATCH_SIZE)
      else Inr ())"

abbreviation observation_order_key :: "observation_row \<Rightarrow> i64 \<times> i64" where
  "observation_order_key r \<equiv> (or_first_seen_at r, or_id r)"

abbreviation event_order_key :: "event_row \<Rightarrow> i64 \<times> i64" where
  "event_order_key r \<equiv> (er_created_at r, er_sequence r)"

abbreviation quarantine_order_key :: "quarantine_row \<Rightarrow> i64 \<times> i64" where
  "quarantine_order_key r \<equiv> (qr_last_seen_at r, qr_id r)"

definition prune_retained_history ::
    "row_locks \<Rightarrow> retention_policy \<Rightarrow> retained_tables
      \<Rightarrow> ('x persistence_error, retention_prune_result) result \<times> retained_tables" where
  "prune_retained_history locks p tables =
     (case validate_retention_policy p of
        Inl e \<Rightarrow> (Inl e, tables)
      | Inr _ \<Rightarrow>
          let (n1, observations) = delete_batch observation_order_key
                (terminal_candidate (terminal_history_before p)) (locked_observations locks)
                (policy_batch_size p) (chain_observations tables);
              (n2, events) = delete_batch event_order_key (\<lambda>r. er_created_at r < projection_events_before p)
                (locked_events locks) (policy_batch_size p) (projection_events tables);
              (n3, quarantine) = delete_batch quarantine_order_key (\<lambda>r. qr_last_seen_at r < quarantine_before p)
                (locked_quarantine locks) (policy_batch_size p) (intake_quarantine tables)
          in (Inr \<lparr>pruned_terminal_observations = n1, pruned_projection_events = n2,
                   pruned_quarantine_records = n3\<rparr>,
              \<lparr>chain_observations = observations, projection_events = events, intake_quarantine = quarantine\<rparr>))"

section \<open>The maintenance task\<close>

record maintenance_runtime_config =
  terminal_history_retention :: duration
  projection_event_retention :: duration
  quarantine_retention :: duration
  maintenance_interval :: duration
  maintenance_batch_size :: u32
  database_max_bytes :: u64

datatype 'x maintenance_error =
    MaintenancePersistence "'x persistence_error"
  | StorageLimitReached u64 u64

definition ensure_storage_capacity ::
    "('x persistence_error, u64) result \<Rightarrow> u64 \<Rightarrow> ('x maintenance_error, u64) result" where
  "ensure_storage_capacity database_size_bytes maximum_bytes =
     result_bind (map_err MaintenancePersistence database_size_bytes) (\<lambda>current_bytes.
     if maximum_bytes \<le> current_bytes then Inl (StorageLimitReached current_bytes maximum_bytes)
     else Inr current_bytes)"

definition cutoff :: "i64 \<Rightarrow> duration \<Rightarrow> i64" where
  "cutoff now retention = saturating_sub_i64 now (duration_ms retention)"

definition retention_policy_at :: "maintenance_runtime_config \<Rightarrow> i64 \<Rightarrow> retention_policy" where
  "retention_policy_at config now =
     \<lparr>terminal_history_before = cutoff now (terminal_history_retention config),
      projection_events_before = cutoff now (projection_event_retention config),
      quarantine_before = cutoff now (quarantine_retention config),
      policy_batch_size = maintenance_batch_size config\<rparr>"

record 'x prune_environment =
  env_cancelled :: bool
  env_locks :: row_locks
  env_failure :: "'x persistence_error option"
  env_others :: "retained_tables \<Rightarrow> retained_tables"

definition prune_total :: "retention_prune_result \<Rightarrow> retention_prune_result \<Rightarrow> retention_prune_result" where
  "prune_total so_far pruned =
     \<lparr>pruned_terminal_observations =
        saturating_add_u64 (pruned_terminal_observations so_far) (pruned_terminal_observations pruned),
      pruned_projection_events =
        saturating_add_u64 (pruned_projection_events so_far) (pruned_projection_events pruned),
      pruned_quarantine_records =
        saturating_add_u64 (pruned_quarantine_records so_far) (pruned_quarantine_records pruned)\<rparr>"

definition prune_exhausted :: "u32 \<Rightarrow> retention_prune_result \<Rightarrow> bool" where
  "prune_exhausted batch_size pruned \<longleftrightarrow>
     pruned_terminal_observations pruned < ucast batch_size
     \<and> pruned_projection_events pruned < ucast batch_size
     \<and> pruned_quarantine_records pruned < ucast batch_size"

text \<open>The loop: round \<open>n\<close> runs in the environment \<open>env n\<close>. Not returning is the value \<open>None\<close>.\<close>

partial_function (option) prune_loop ::
    "(nat \<Rightarrow> 'x prune_environment) \<Rightarrow> retention_policy \<Rightarrow> nat \<Rightarrow> retention_prune_result \<Rightarrow> retained_tables
      \<Rightarrow> (('x persistence_error, retention_prune_result) result \<times> retained_tables) option" where
  "prune_loop env p n so_far tables =
     (if env_cancelled (env n) then Some (Inr so_far, tables)
      else case env_failure (env n) of
        Some e \<Rightarrow> Some (Inl e, tables)
      | None \<Rightarrow>
          (case prune_retained_history (env_locks (env n)) p tables of
             (Inl e, tables') \<Rightarrow> Some (Inl e, tables')
           | (Inr pruned, tables') \<Rightarrow>
               if prune_exhausted (policy_batch_size p) pruned then Some (Inr (prune_total so_far pruned), tables')
               else prune_loop env p (Suc n) (prune_total so_far pruned) (env_others (env n) tables')))"

definition prune_result_default :: retention_prune_result where
  "prune_result_default =
     \<lparr>pruned_terminal_observations = 0, pruned_projection_events = 0, pruned_quarantine_records = 0\<rparr>"

definition prune_expired_history ::
    "(nat \<Rightarrow> 'x prune_environment) \<Rightarrow> maintenance_runtime_config \<Rightarrow> i64 \<Rightarrow> retained_tables
      \<Rightarrow> (('x persistence_error, retention_prune_result) result \<times> retained_tables) option" where
  "prune_expired_history env config now tables =
     prune_loop env (retention_policy_at config now) 0 prune_result_default tables"

definition run_maintenance_cycle ::
    "(nat \<Rightarrow> 'x prune_environment) \<Rightarrow> ('x persistence_error, u64) result \<Rightarrow> maintenance_runtime_config
      \<Rightarrow> i64 \<Rightarrow> retained_tables \<Rightarrow> (('x maintenance_error, retention_prune_result) result \<times> retained_tables) option" where
  "run_maintenance_cycle env database_size_bytes config now tables =
     map_option (\<lambda>(res, tables').
       (result_bind (map_err MaintenancePersistence res) (\<lambda>pruned.
        result_bind (ensure_storage_capacity database_size_bytes (database_max_bytes config)) (\<lambda>_. Inr pruned)),
        tables')) (prune_expired_history env config now tables)"

section \<open>What a batch deletes\<close>

abbreviation row_id_of :: "('r \<Rightarrow> i64 \<times> i64) \<Rightarrow> 'r \<Rightarrow> i64" where
  "row_id_of key r \<equiv> snd (key r)"

lemma select_ids_subset:
  "set (select_ids key candidate locked limit rows) \<subseteq> row_id_of key ` {r \<in> set rows. candidate r}"
  unfolding select_ids_def by (auto dest!: in_set_takeD)

lemma select_ids_distinct:
  assumes "distinct (map (snd \<circ> key) rows)"
  shows "distinct (select_ids key candidate locked limit rows)"
proof -
  let ?ids = "map (snd \<circ> key) (sort_key key (filter candidate rows))"
  have "mset ?ids = mset (map (snd \<circ> key) (filter candidate rows))" by (simp add: mset_map)
  moreover have "distinct (map (snd \<circ> key) (filter candidate rows))" using assms by (rule distinct_map_filter)
  ultimately have "distinct ?ids" by (metis mset_eq_imp_distinct_iff)
  then show ?thesis unfolding select_ids_def by (intro distinct_take distinct_filter)
qed

lemma same_id_same_row:
  "distinct (map (snd \<circ> key) rows) \<Longrightarrow> r \<in> set rows \<Longrightarrow> r' \<in> set rows \<Longrightarrow> row_id_of key r = row_id_of key r' \<Longrightarrow> r = r'"
  unfolding distinct_map inj_on_def by auto

definition expired_rows :: "('r \<Rightarrow> bool) \<Rightarrow> 'r list \<Rightarrow> nat" where
  "expired_rows candidate rows = length (filter candidate rows)"

lemma delete_batch_exact:
  assumes "distinct (map (snd \<circ> key) rows)" and "delete_batch key candidate locked limit rows = (n, rows')"
  shows "\<And>r. r \<in> set rows \<Longrightarrow> r \<notin> set rows' \<Longrightarrow> candidate r"
    and "expired_rows candidate rows = expired_rows candidate rows' + unat n" and "unat n \<le> unat limit"
    and "distinct (map (snd \<circ> key) rows')" and "set rows' \<subseteq> set rows"
proof -
  let ?ids = "select_ids key candidate locked (unat limit) rows"
  have rows': "rows' = filter (\<lambda>r. row_id_of key r \<notin> set ?ids) rows"
    and n: "n = of_nat (length (filter (\<lambda>r. row_id_of key r \<in> set ?ids) rows))"
    using assms(2) by (simp_all add: delete_batch_def delete_ids_def)
  show cand: "candidate r" if "r \<in> set rows" "r \<notin> set rows'" for r
  proof -
    have "row_id_of key r \<in> set ?ids" using that rows' by simp
    then obtain r' where "r' \<in> set rows" "candidate r'" "row_id_of key r' = row_id_of key r"
      using select_ids_subset by fastforce
    then show ?thesis using same_id_same_row [OF assms(1)] that(1) by metis
  qed
  have deleted: "set (map (snd \<circ> key) (filter (\<lambda>r. row_id_of key r \<in> set ?ids) rows)) \<subseteq> set ?ids"
    by auto
  have "distinct (map (snd \<circ> key) (filter (\<lambda>r. row_id_of key r \<in> set ?ids) rows))"
    using assms(1) by (rule distinct_map_filter)
  then have "length (filter (\<lambda>r. row_id_of key r \<in> set ?ids) rows) \<le> length ?ids"
    using deleted card_mono [OF finite_set deleted] distinct_card select_ids_distinct [OF assms(1)]
    by (metis length_map)
  also have "\<dots> \<le> unat limit" by (simp add: select_ids_def)
  finally have le: "length (filter (\<lambda>r. row_id_of key r \<in> set ?ids) rows) \<le> unat limit" .
  moreover have "unat limit < 2 ^ 32" using unat_bound [of limit] by simp
  ultimately have count: "unat n = length (filter (\<lambda>r. row_id_of key r \<in> set ?ids) rows)"
    unfolding n by (intro unat_of_nat_small) simp
  then show "unat n \<le> unat limit" using le by simp
  have "filter candidate (filter (\<lambda>r. row_id_of key r \<in> set ?ids) rows) = filter (\<lambda>r. row_id_of key r \<in> set ?ids) rows"
    using cand rows' by (auto simp: filter_id_conv simp del: filter_filter)
  then have "length (filter (\<lambda>r. row_id_of key r \<in> set ?ids) (filter candidate rows)) = unat n"
    using count by (simp add: conj_commute)
  then show "expired_rows candidate rows = expired_rows candidate rows' + unat n"
    using sum_length_filter_compl [of "\<lambda>r. row_id_of key r \<in> set ?ids" "filter candidate rows"]
    unfolding rows' expired_rows_def by (simp add: conj_commute)
  show "distinct (map (snd \<circ> key) rows')" "set rows' \<subseteq> set rows"
    unfolding rows' using assms(1) by (auto intro: distinct_map_filter)
qed

definition tables_keyed :: "retained_tables \<Rightarrow> bool" where
  "tables_keyed t \<longleftrightarrow>
     distinct (map or_id (chain_observations t)) \<and> distinct (map er_sequence (projection_events t))
     \<and> distinct (map qr_id (intake_quarantine t))"

text \<open>How many rows the policy would delete.\<close>

definition expired :: "retention_policy \<Rightarrow> retained_tables \<Rightarrow> nat" where
  "expired p t =
     expired_rows (terminal_candidate (terminal_history_before p)) (chain_observations t)
     + expired_rows (\<lambda>r. er_created_at r < projection_events_before p) (projection_events t)
     + expired_rows (\<lambda>r. qr_last_seen_at r < quarantine_before p) (intake_quarantine t)"

lemma key_ids [simp]:
  "snd \<circ> (\<lambda>r. (or_first_seen_at r, or_id r)) = or_id" "snd \<circ> (\<lambda>r. (er_created_at r, er_sequence r)) = er_sequence"
  "snd \<circ> (\<lambda>r. (qr_last_seen_at r, qr_id r)) = qr_id"
  by (simp_all add: comp_def)

lemma prune_round:
  assumes "tables_keyed t"
    and "prune_retained_history locks p t = ((Inr pruned :: ('x persistence_error, _) result), t')"
  shows "tables_keyed t'"
    and "expired p t = expired p t' + unat (pruned_terminal_observations pruned)
           + unat (pruned_projection_events pruned) + unat (pruned_quarantine_records pruned)"
    and "0 < policy_batch_size p"
    and "\<And>row. row \<in> set (chain_observations t) \<Longrightarrow> row \<notin> set (chain_observations t') \<Longrightarrow>
           terminal_candidate (terminal_history_before p) row"
    and "\<And>e. e \<in> set (projection_events t) \<Longrightarrow> e \<notin> set (projection_events t') \<Longrightarrow>
           er_created_at e < projection_events_before p"
    and "\<And>q. q \<in> set (intake_quarantine t) \<Longrightarrow> q \<notin> set (intake_quarantine t') \<Longrightarrow>
           qr_last_seen_at q < quarantine_before p"
    and "unat (pruned_terminal_observations pruned) \<le> unat (policy_batch_size p)"
proof -
  obtain n1 obs where d1: "delete_batch observation_order_key (terminal_candidate (terminal_history_before p))
      (locked_observations locks) (policy_batch_size p) (chain_observations t) = (n1, obs)" by (rule prod.exhaust)
  obtain n2 evs where d2: "delete_batch event_order_key (\<lambda>r. er_created_at r < projection_events_before p)
      (locked_events locks) (policy_batch_size p) (projection_events t) = (n2, evs)" by (rule prod.exhaust)
  obtain n3 qs where d3: "delete_batch quarantine_order_key (\<lambda>r. qr_last_seen_at r < quarantine_before p)
      (locked_quarantine locks) (policy_batch_size p) (intake_quarantine t) = (n3, qs)" by (rule prod.exhaust)
  note d = d1 d2 d3
  have valid: "validate_retention_policy p = (Inr () :: ('x persistence_error, unit) result)"
    using assms(2)
    by (cases "validate_retention_policy p :: ('x persistence_error, unit) result") (simp_all add: prune_retained_history_def)
  have parts: "pruned = \<lparr>pruned_terminal_observations = n1, pruned_projection_events = n2, pruned_quarantine_records = n3\<rparr>"
    "t' = \<lparr>chain_observations = obs, projection_events = evs, intake_quarantine = qs\<rparr>" "policy_batch_size p \<noteq> 0"
    using assms(2) unfolding prune_retained_history_def valid d
    by (simp_all, auto) (use valid in \<open>simp add: validate_retention_policy_def\<close>)
  note e1 = delete_batch_exact [OF _ d(1)] and e2 = delete_batch_exact [OF _ d(2)] and e3 = delete_batch_exact [OF _ d(3)]
  have keyed: "distinct (map or_id (chain_observations t))" "distinct (map er_sequence (projection_events t))"
    "distinct (map qr_id (intake_quarantine t))" using assms(1) by (simp_all add: tables_keyed_def)
  show "tables_keyed t'" using e1(4) e2(4) e3(4) keyed parts(2) by (simp add: tables_keyed_def)
  show "expired p t = expired p t' + unat (pruned_terminal_observations pruned)
           + unat (pruned_projection_events pruned) + unat (pruned_quarantine_records pruned)"
    using e1(2) e2(2) e3(2) keyed parts(1,2) by (simp add: expired_def)
  show "0 < policy_batch_size p" using parts(3) word_neq_0_conv by blast
  show "\<And>row. row \<in> set (chain_observations t) \<Longrightarrow> row \<notin> set (chain_observations t') \<Longrightarrow>
           terminal_candidate (terminal_history_before p) row" using e1(1) keyed parts(2) by simp
  show "\<And>e. e \<in> set (projection_events t) \<Longrightarrow> e \<notin> set (projection_events t') \<Longrightarrow>
           er_created_at e < projection_events_before p" using e2(1) keyed parts(2) by simp
  show "\<And>q. q \<in> set (intake_quarantine t) \<Longrightarrow> q \<notin> set (intake_quarantine t') \<Longrightarrow>
           qr_last_seen_at q < quarantine_before p" using e3(1) keyed parts(2) by simp
  show "unat (pruned_terminal_observations pruned) \<le> unat (policy_batch_size p)" using e1(3) keyed parts(1) by simp
qed

lemma prune_retained_error: "prune_retained_history locks p t = (Inl e, t') \<Longrightarrow> t' = t"
  by (auto simp: prune_retained_history_def Let_def split: sum.splits prod.splits)

section \<open>The loop ends\<close>

lemma prune_not_exhausted:
  assumes "\<not> prune_exhausted b pruned" and "0 < b"
  shows "0 < unat (pruned_terminal_observations pruned) + unat (pruned_projection_events pruned)
    + unat (pruned_quarantine_records pruned)"
proof -
  have "0 < unat b" using assms(2) by (simp add: word_less_nat_alt)
  then show ?thesis
    using assms(1) by (auto simp: prune_exhausted_def word_less_nat_alt unat_ucast_up)
qed

lemma prune_loop_ends:
  fixes env :: "nat \<Rightarrow> 'x prune_environment"
  assumes "tables_keyed t"
    and "\<And>n t. tables_keyed t \<Longrightarrow> tables_keyed (env_others (env n) t) \<and> expired p (env_others (env n) t) \<le> expired p t"
  shows "\<exists>r t'. prune_loop env p n so_far t = Some (r, t')"
  using assms(1)
proof (induction "expired p t" arbitrary: t n so_far rule: less_induct)
  case less
  show ?case
  proof (cases "prune_retained_history (env_locks (env n)) p t :: ('x persistence_error, _) result \<times> _" rule: prod.exhaust)
    case (Pair res t1)
    show ?thesis
    proof (cases res)
      case (Inl e)
      then show ?thesis using Pair by (simp add: prune_loop.simps [of env p n] split: option.split)
    next
      case (Inr pruned)
      note round = prune_round [OF less.prems Pair [unfolded Inr]]
      show ?thesis
      proof (cases "prune_exhausted (policy_batch_size p) pruned")
        case True
        then show ?thesis using Pair Inr by (simp add: prune_loop.simps [of env p n] split: option.split)
      next
        case False
        have "expired p (env_others (env n) t1) < expired p t"
          using prune_not_exhausted [OF False round(3)] round(2) assms(2) [OF round(1), of n] by linarith
        then obtain r t' where "prune_loop env p (Suc n) (prune_total so_far pruned) (env_others (env n) t1) = Some (r, t')"
          using less.hyps assms(2) [OF round(1)] by blast
        then show ?thesis using Pair Inr False by (simp add: prune_loop.simps [of env p n] split: option.split)
      qed
    qed
  qed
qed

section \<open>The claims\<close>

text \<open>
  C31: pruning ends. However many rows have expired, however many of them other transactions hold
  locked and whatever other tasks do between two rounds, as long as they keep the keys of the tables
  unique and let no row expire that had not, the loop returns: every round that does not end it has
  deleted a row.
\<close>

theorem pruning_terminates:
  assumes "tables_keyed tables"
    and "\<forall>n t. tables_keyed t \<longrightarrow> tables_keyed (env_others (env n) t)
           \<and> expired (retention_policy_at config now) (env_others (env n) t) \<le> expired (retention_policy_at config now) t"
  shows "\<exists>r tables'. prune_expired_history env config now tables = Some (r, tables')"
  unfolding prune_expired_history_def by (rule prune_loop_ends) (use assms in auto)

text \<open>
  C30: pruning deletes history only. An observation that a round deletes was first seen before the
  cutoff, all of its work was finished before the cutoff, and no window that is still active counts
  it; a projection event or a quarantine record that it deletes is older than its own cutoff; and no
  row is deleted when the policy is refused.
\<close>

theorem pruning_deletes_history_only:
  assumes "tables_keyed t" and "prune_retained_history locks p t = (r, t')"
  shows "(\<forall>row\<in>set (chain_observations t) - set (chain_observations t').
            or_first_seen_at row < terminal_history_before p \<and> \<not> or_active_member row
            \<and> or_work row \<noteq> [] \<and> (\<forall>w\<in>set (or_work row). work_status w \<in> {''COMPLETE'', ''FAILED''}
                 \<and> (\<exists>finished. work_finished_at w = Some finished \<and> finished < terminal_history_before p)))
    \<and> (\<forall>e\<in>set (projection_events t) - set (projection_events t'). er_created_at e < projection_events_before p)
    \<and> (\<forall>q\<in>set (intake_quarantine t) - set (intake_quarantine t'). qr_last_seen_at q < quarantine_before p)
    \<and> (\<forall>e. r = Inl e \<longrightarrow> t' = t)"
proof (cases r)
  case (Inl e)
  then have "t' = t" using prune_retained_error assms(2) by blast
  then show ?thesis by simp
next
  case (Inr pruned)
  note round = prune_round [OF assms(1) assms(2) [unfolded Inr]]
  have "work_status w \<in> {''COMPLETE'', ''FAILED''}
      \<and> (\<exists>finished. work_finished_at w = Some finished \<and> finished < before)" if "\<not> work_retained before w" for w before
    using that by (auto simp: work_retained_def split: option.splits)
  then show ?thesis
    using round(4-6) Inr unfolding terminal_candidate_def list_ex_iff by blast
qed

section \<open>Concrete tables\<close>

definition example_tables :: retained_tables where
  "example_tables =
     \<lparr>chain_observations =
        [\<lparr>or_id = 1, or_first_seen_at = 0, or_work = [\<lparr>work_status = ''COMPLETE'', work_finished_at = Some 1\<rparr>],
          or_active_member = False\<rparr>,
         \<lparr>or_id = 2, or_first_seen_at = 0, or_work = [\<lparr>work_status = ''COMPLETE'', work_finished_at = Some 1\<rparr>],
          or_active_member = True\<rparr>],
      projection_events = [\<lparr>er_sequence = 1, er_created_at = 50\<rparr>], intake_quarantine = []\<rparr>"

definition example_maintenance :: maintenance_runtime_config where
  "example_maintenance =
     \<lparr>terminal_history_retention = 10, projection_event_retention = 10, quarantine_retention = 10,
      maintenance_interval = 5, maintenance_batch_size = 1, database_max_bytes = 1000\<rparr>"

definition example_environment :: "unit prune_environment" where
  "example_environment =
     \<lparr>env_cancelled = False, env_locks = \<lparr>locked_observations = [], locked_events = [], locked_quarantine = []\<rparr>,
      env_failure = None, env_others = id\<rparr>"

lemma example_tables_keyed: "tables_keyed example_tables"
  by (simp add: tables_keyed_def example_tables_def)

theorem pruning_terminates_witness:
  "\<exists>r tables'. prune_expired_history (\<lambda>_. example_environment) example_maintenance 100 example_tables = Some (r, tables')"
  by (rule pruning_terminates [OF example_tables_keyed]) (simp add: example_environment_def)

lemma example_prune:
  "prune_retained_history (env_locks example_environment) (retention_policy_at example_maintenance 100) example_tables =
     (Inr \<lparr>pruned_terminal_observations = 1, pruned_projection_events = 1, pruned_quarantine_records = 0\<rparr>,
      \<lparr>chain_observations = [chain_observations example_tables ! 1], projection_events = [], intake_quarantine = []\<rparr>)"
  by (simp add: prune_retained_history_def validate_retention_policy_def retention_policy_at_def example_maintenance_def
      MAX_RETENTION_BATCH_SIZE_def delete_batch_def delete_ids_def select_ids_def example_tables_def
      example_environment_def cutoff_def saturating_sub_i64_def saturate_i64_def duration_ms_def i64_bounds
      terminal_candidate_def work_retained_def)

theorem pruning_deletes_history_only_witness:
  "\<exists>t'. prune_retained_history (env_locks example_environment) (retention_policy_at example_maintenance 100)
          example_tables = (Inr \<lparr>pruned_terminal_observations = 1, pruned_projection_events = 1,
            pruned_quarantine_records = 0\<rparr> :: (unit persistence_error, _) result, t')
     \<and> (\<forall>row\<in>set (chain_observations example_tables) - set (chain_observations t'). \<not> or_active_member row)"
  using pruning_deletes_history_only [OF example_tables_keyed example_prune [where ?'a = unit]] example_prune [where ?'a = unit]
  by blast

end
