(* ===== verification/Effects.thy ===== *)
theory Effects
  imports Prelude
begin

text \<open>
  Fallible code that works on a state: a computation takes the state and gives a result and the
  new state, and a \<open>?\<close> in the source is a \<open>exec_bind\<close>, which stops at the first error and keeps
  the state reached so far. The locale \<open>effect_order\<close> carries a reflexive and transitive relation
  from the single effects of a computation to the whole of it.
\<close>

section \<open>Computations\<close>

type_synonym ('s, 'e, 'a) exec = "'s \<Rightarrow> ('e, 'a) result \<times> 's"

definition exec_return :: "'a \<Rightarrow> ('s, 'e, 'a) exec" where
  "exec_return x s = (Inr x, s)"

definition exec_fail :: "'e \<Rightarrow> ('s, 'e, 'a) exec" where
  "exec_fail e s = (Inl e, s)"

definition exec_result :: "('e, 'a) result \<Rightarrow> ('s, 'e, 'a) exec" where
  "exec_result r s = (r, s)"

definition exec_gets :: "('s \<Rightarrow> 'a) \<Rightarrow> ('s, 'e, 'a) exec" where
  "exec_gets f s = (Inr (f s), s)"

definition exec_modify :: "('s \<Rightarrow> 's) \<Rightarrow> ('s, 'e, unit) exec" where
  "exec_modify f s = (Inr (), f s)"

definition exec_bind :: "('s, 'e, 'a) exec \<Rightarrow> ('a \<Rightarrow> ('s, 'e, 'b) exec) \<Rightarrow> ('s, 'e, 'b) exec" where
  "exec_bind m f s = (case m s of (Inl e, s') \<Rightarrow> (Inl e, s') | (Inr x, s') \<Rightarrow> f x s')"

definition exec_map_err :: "('e \<Rightarrow> 'f) \<Rightarrow> ('s, 'e, 'a) exec \<Rightarrow> ('s, 'f, 'a) exec" where
  "exec_map_err g m s = (case m s of (r, s') \<Rightarrow> (map_err g r, s'))"

text \<open>A \<open>for\<close> loop that carries locals from one round to the next.\<close>

fun exec_fold :: "('x \<Rightarrow> 'l \<Rightarrow> ('s, 'e, 'l) exec) \<Rightarrow> 'x list \<Rightarrow> 'l \<Rightarrow> ('s, 'e, 'l) exec" where
  "exec_fold f [] l = exec_return l"
| "exec_fold f (x # xs) l = exec_bind (f x l) (exec_fold f xs)"

definition exec_each :: "('x \<Rightarrow> ('s, 'e, unit) exec) \<Rightarrow> 'x list \<Rightarrow> ('s, 'e, unit) exec" where
  "exec_each f xs = exec_fold (\<lambda>x _. f x) xs ()"

section \<open>Running them\<close>

named_theorems exec_simps \<open>how computations run on a state\<close>

lemma exec_run [exec_simps]:
  "exec_return x s = (Inr x, s)" "exec_fail e s = (Inl e, s)" "exec_result r s = (r, s)"
  "exec_gets g s = (Inr (g s), s)" "exec_modify h s = (Inr (), h s)"
  by (simp_all add: exec_return_def exec_fail_def exec_result_def exec_gets_def exec_modify_def)

lemma exec_bind_simps [simp]:
  "m s = (Inl e, s') \<Longrightarrow> exec_bind m f s = (Inl e, s')"
  "m s = (Inr x, s') \<Longrightarrow> exec_bind m f s = f x s'"
  by (simp_all add: exec_bind_def)

lemma exec_bind_InrE:
  assumes "exec_bind m f s = (Inr y, s'')"
  obtains x s' where "m s = (Inr x, s')" "f x s' = (Inr y, s'')"
  using assms by (auto simp: exec_bind_def split: prod.splits sum.splits)

lemma exec_bind_cases:
  assumes "exec_bind m f s = (r, s'')"
  obtains (failed) e where "m s = (Inl e, s'')" "r = Inl e"
    | (went_on) x s' where "m s = (Inr x, s')" "f x s' = (r, s'')"
  using assms by (auto simp: exec_bind_def split: prod.splits sum.splits)

lemma exec_each_simps [simp]:
  "exec_each f [] = exec_return ()" "exec_each f (x # xs) = exec_bind (f x) (\<lambda>_. exec_each f xs)"
  by (simp_all add: exec_each_def)

section \<open>What holds from the start of a computation to its end\<close>

definition confined :: "('s \<Rightarrow> 's \<Rightarrow> bool) \<Rightarrow> ('s, 'e, 'a) exec \<Rightarrow> bool" where
  "confined R m \<longleftrightarrow> (\<forall>s. R s (snd (m s)))"

locale effect_order =
  fixes R :: "'s \<Rightarrow> 's \<Rightarrow> bool"
  assumes effect_refl: "R s s"
    and effect_trans: "R s s' \<Longrightarrow> R s' s'' \<Longrightarrow> R s s''"
begin

lemma confined_run: "confined R m \<Longrightarrow> m s = (r, s') \<Longrightarrow> R s s'"
  unfolding confined_def by (metis snd_conv)

lemma confined_pure:
  "confined R (exec_return x)" "confined R (exec_fail e)" "confined R (exec_result r)" "confined R (exec_gets g)"
  by (simp_all add: confined_def exec_simps effect_refl)

lemma confined_modify: "(\<And>s. R s (f s)) \<Longrightarrow> confined R (exec_modify f)"
  by (simp add: confined_def exec_simps)

lemma confined_bind:
  assumes "confined R m" and "\<And>x. confined R (f x)"
  shows "confined R (exec_bind m f)"
  unfolding confined_def
proof
  fix s
  obtain r s' where m: "m s = (r, s')" by fastforce
  have step: "R s s'" by (rule confined_run [OF assms(1) m])
  show "R s (snd (exec_bind m f s))"
  proof (cases r)
    case (Inl e)
    with m step show ?thesis by simp
  next
    case (Inr x)
    with m have "exec_bind m f s = f x s'" by simp
    moreover have "R s' (snd (f x s'))" using assms(2) by (simp add: confined_def)
    ultimately show ?thesis using step effect_trans by simp
  qed
qed

lemma confined_fold: "(\<And>x l. confined R (f x l)) \<Longrightarrow> confined R (exec_fold f xs l)"
  by (induction xs arbitrary: l) (simp_all add: confined_pure confined_bind)

lemma confined_each: "(\<And>x. confined R (f x)) \<Longrightarrow> confined R (exec_each f xs)"
  by (simp add: exec_each_def confined_fold)

lemmas confined_rules = confined_pure confined_modify confined_bind confined_fold confined_each

end

end
