(* ===== verification/Batch_Process.thy ===== *)
theory Batch_Process
  imports Effects Maintenance Batch_Decode Window_Finalization
begin

text \<open>
  Processing a batch in \<open>apps/server/src/jobs/pipeline.rs\<close>: decode and quarantine, select, normalize,
  store, open or extend durable windows, and settle the admissions the batch holds.

  The database is a parameter: a record with one function for each call the code awaits. Other
  tasks run while a call is awaited, so a call works on the shared window registry too: it takes the
  registry and the world (the database and everything else outside) and gives its answer with what
  both have become. The market registry belongs to the processor alone. The functions of serde,
  sha2 and base64 that the code uses are the record \<open>codecs\<close>.
\<close>

section \<open>Configuration and errors\<close>

record pipeline_config =
  pc_http_url :: string
  pc_ws_url :: string
  pc_collector :: collector_runtime_config
  pc_maintenance :: maintenance_runtime_config
  pc_queue_capacity :: usize
  pc_maximum_active_windows :: usize
  pc_discovery_rpc_requests_per_second :: u32
  pc_discovery_rpc_rate_limit_cooldown :: duration
  pc_prefilter_revision :: u64
  pc_prefilter_values :: prefilter_defaults
  pc_collector_run_id :: string

datatype 'x qualification_worker_error =
    QualificationPersistence "'x persistence_error"
  | WindowIdOutOfRange

datatype ('x, 'j) pipeline_error =
    PipelineRpc rpc_error
  | PipelinePersistence "'x persistence_error"
  | PipelineCollector collector_error
  | PipelineLogScope log_scope_error
  | PipelineNormalization "'j normalization_error"
  | PipelineMaintenance "'x maintenance_error"
  | NetworkVerification rpc_error
  | NetworkGenesisMismatch network string string
  | UnexpectedTaskExit string
  | PipelineJoin string
  | WindowLifecycle string
  | PipelineQualification "'x qualification_worker_error"

record pump_swap_pool_row =
  swap_pool_network :: network
  swap_pool_address :: string
  swap_pool_base_mint :: string
  swap_pool_quote_mint :: string
  swap_pool_observed_slot :: u64
  swap_pool_observed_signature :: string

record ('b, 'j) intake_quarantine_record =
  iq_key :: observation_key
  iq_decoder_version :: string
  iq_reason_code :: string
  iq_reason_detail :: "('b, 'j) reason_detail"
  iq_evidence_base64 :: string

section \<open>What the processor calls\<close>

type_synonym ('w, 'x, 'a) db_call = "(registry \<times> 'w, 'x persistence_error, 'a) exec"

record ('w, 'x, 'b, 'j, 'json) pipeline_database =
  record_intake_quarantine :: "('b, 'j) intake_quarantine_record \<Rightarrow> ('w, 'x, u64) db_call"
  load_qualification_defaults :: "('w, 'x, stored_qualification_defaults) db_call"
  open_discovery_window ::
    "'json normalized_observation \<Rightarrow> new_discovery_window \<Rightarrow> ('w, 'x, opened_discovery_window) db_call"
  insert_window_observation :: "i64 \<Rightarrow> 'json normalized_observation \<Rightarrow> ('w, 'x, bool) db_call"
  insert_observation :: "'json normalized_observation \<Rightarrow> ('w, 'x, bool) db_call"
  upsert_pump_swap_pool :: "pump_swap_pool_row \<Rightarrow> ('w, 'x, bool) db_call"

record ('b, 'j, 'json) codecs =
  codec_base64_decode :: "string \<Rightarrow> ('b, u8 list) result"
  codec_base64_encode :: "u8 list \<Rightarrow> string"
  codec_sha256 :: "u8 list \<Rightarrow> u8 list"
  codec_to_value :: "pump_event \<Rightarrow> ('j, 'json) result"

record 'w processor_state =
  pr_windows :: registry
  pr_world :: 'w
  pr_markets :: market_registry

definition await :: "('w, 'x, 'a) db_call \<Rightarrow> ('w processor_state, ('x, 'j) pipeline_error, 'a) exec" where
  "await call st =
     (case call (pr_windows st, pr_world st) of
        (res, r, w) \<Rightarrow> (map_err PipelinePersistence res, st\<lparr>pr_windows := r, pr_world := w\<rparr>))"

definition exec_windows :: "(registry \<Rightarrow> registry) \<Rightarrow> ('w processor_state, 'e, unit) exec" where
  "exec_windows f = exec_modify (\<lambda>st. st\<lparr>pr_windows := f (pr_windows st)\<rparr>)"

text \<open>An operation on the cell of a token that answers whether it took effect.\<close>

definition exec_token :: "(token_cell \<Rightarrow> bool \<times> token_cell) \<Rightarrow> token \<Rightarrow> ('w processor_state, 'e, bool) exec" where
  "exec_token f t st =
     (Inr (fst (f (cell_of (pr_windows st) t))),
      st\<lparr>pr_windows := update_cell (snd \<circ> f) t (pr_windows st)\<rparr>)"

definition exec_markets ::
    "(market_registry \<Rightarrow> ('j normalization_error, 'a) result \<times> market_registry)
      \<Rightarrow> ('w processor_state, ('x, 'j) pipeline_error, 'a) exec" where
  "exec_markets f st =
     (case f (pr_markets st) of (res, m) \<Rightarrow> (map_err PipelineNormalization res, st\<lparr>pr_markets := m\<rparr>))"

section \<open>Quarantine\<close>

definition MAX_QUARANTINE_EVIDENCE_BASE64_BYTES :: usize where
  "MAX_QUARANTINE_EVIDENCE_BASE64_BYTES = 16384"

definition MAX_QUARANTINE_RAW_BYTES :: usize where
  "MAX_QUARANTINE_RAW_BYTES = (MAX_QUARANTINE_EVIDENCE_BASE64_BYTES div 4) * 3"

definition encode_quarantine_evidence :: "(u8 list \<Rightarrow> string) \<Rightarrow> u8 list \<Rightarrow> string" where
  "encode_quarantine_evidence base64_encode raw =
     base64_encode (if raw = [] then map byte_of_char ''<empty-evidence>'' else take MAX_QUARANTINE_RAW_BYTES raw)"

definition record_pipeline_quarantine ::
    "('b, 'j, 'json) codecs \<Rightarrow> ('w, 'x, 'b, 'j, 'json) pipeline_database \<Rightarrow> network \<Rightarrow> source_program
      \<Rightarrow> ('b, 'j) quarantined_evidence \<Rightarrow> ('w processor_state, ('x, 'j) pipeline_error, unit) exec" where
  "record_pipeline_quarantine codecs db n program q =
     exec_bind (await (record_intake_quarantine db
       \<lparr>iq_key = \<lparr>key_network = n, key_program = program, key_coordinate = quar_coordinate q\<rparr>,
        iq_decoder_version = DECODER_VERSION, iq_reason_code = quar_reason_code q,
        iq_reason_detail = quar_reason_detail q,
        iq_evidence_base64 = encode_quarantine_evidence (codec_base64_encode codecs) (quar_raw_evidence q)\<rparr>))
     (\<lambda>_. exec_return ())"

section \<open>Selecting events\<close>

definition tokens_open_for :: "program_log_batch \<Rightarrow> registry \<Rightarrow> observation_target \<Rightarrow> token \<Rightarrow> bool" where
  "tokens_open_for b r target t \<longleftrightarrow>
     tok_target t = target \<and> is_open_at (tok_window t) (cell_of r t) (batch_received_time b)"

definition batch_selects_event :: "program_log_batch \<Rightarrow> pump_event \<Rightarrow> network \<Rightarrow> duration \<Rightarrow> registry \<Rightarrow> bool" where
  "batch_selects_event b ev n maximum_age r \<longleftrightarrow>
     (case batch_purpose_of b of
        Discovery \<Rightarrow>
          (case discovery_seed_of ev n of
             None \<Rightarrow> False
           | Some seed \<Rightarrow> list_ex (tokens_open_for b r (seed_target seed)) (window_tokens b))
          \<and> discovery_event_is_fresh ev (batch_received_time b) maximum_age
          \<or> event_matches_confirmed_window ev r (window_tokens b) (batch_received_time b)
      | TrackedActivity \<Rightarrow> event_matches_confirmed_window ev r (window_tokens b) (batch_received_time b))"

fun window_target_parts :: "observation_target \<Rightarrow> window_target_kind \<times> string" where
  "window_target_parts (PumpMint m) = (KindPumpMint, m)"
| "window_target_parts (PumpSwapPool p) = (KindPumpSwapPool, p)"

fun retire_pump_mint :: "pump_event \<Rightarrow> string option" where
  "retire_pump_mint (EventComplete e) = Some (complete_mint e)"
| "retire_pump_mint (EventCompletePumpAmmMigration e) = Some (migration_mint e)"
| "retire_pump_mint _ = None"

fun pump_swap_pool_of :: "network \<Rightarrow> chain_coordinate \<Rightarrow> pump_event \<Rightarrow> pump_swap_pool_row option" where
  "pump_swap_pool_of n coordinate (EventPumpSwapCreatePool e) =
     Some \<lparr>swap_pool_network = n, swap_pool_address = pool_pool e, swap_pool_base_mint = pool_base_mint e,
           swap_pool_quote_mint = pool_quote_mint e, swap_pool_observed_slot = slot coordinate,
           swap_pool_observed_signature = signature coordinate\<rparr>"
| "pump_swap_pool_of n coordinate _ = None"

text \<open>The errors of normalization that set an event aside; every other one fails the batch.\<close>

fun quarantine_reason :: "'j normalization_error \<Rightarrow> string option" where
  "quarantine_reason (PumpMarketUnresolved _) = Some ''UNRESOLVED_PUMP_MARKET''"
| "quarantine_reason (PumpSwapMarketUnresolved _) = Some ''UNRESOLVED_PUMP_SWAP_MARKET''"
| "quarantine_reason (QuoteMintMismatch _) = Some ''PUMP_QUOTE_MINT_MISMATCH''"
| "quarantine_reason (UnsupportedPumpSwapPair _ _) = Some ''UNSUPPORTED_PUMP_SWAP_PAIR''"
| "quarantine_reason ZeroTradeAmountError = Some ''ZERO_TRADE_AMOUNT''"
| "quarantine_reason _ = None"

section \<open>One event\<close>

record batch_locals =
  bl_inserted :: usize
  bl_complete :: bool
  bl_selected :: usize

definition matching_window_token :: "program_log_batch \<Rightarrow> market_identity \<Rightarrow> registry \<Rightarrow> token option" where
  "matching_window_token b market r =
     (case target_for_market market of
        None \<Rightarrow> None
      | Some target \<Rightarrow> find (tokens_open_for b r target) (window_tokens b))"

text \<open>A discovery: \<open>None\<close> is the \<open>continue\<close> for a replayed one.\<close>

definition open_durable_window ::
    "('w, 'x, 'b, 'j, 'json) pipeline_database \<Rightarrow> pipeline_config \<Rightarrow> 'json normalized_observation \<Rightarrow> token
      \<Rightarrow> ('w processor_state, ('x, 'j) pipeline_error, bool option) exec" where
  "open_durable_window db config obs t =
     exec_bind (await (load_qualification_defaults db)) (\<lambda>qualification.
     exec_bind (await (open_discovery_window db obs
       \<lparr>nw_target_kind = fst (window_target_parts (tok_target t)),
        nw_target_address = snd (window_target_parts (tok_target t)),
        nw_opened_at_unix_ms = opened_at_unix_ms (tok_window t),
        nw_closes_at_unix_ms = closes_at_unix_ms (tok_window t),
        nw_collector_run_id = pc_collector_run_id config,
        nw_prefilter_revision = pc_prefilter_revision config,
        nw_prefilter_values = pc_prefilter_values config, nw_qualification = qualification\<rparr>)) (\<lambda>opened.
     if opened_replayed opened
     then exec_bind (exec_windows (update_cell cancel_if_pending t)) (\<lambda>_. exec_return None)
     else
       exec_bind (exec_token confirm t) (\<lambda>confirmed.
       if \<not> confirmed
       then exec_fail (WindowLifecycle ''durable discovery window could not confirm its provisional token'')
       else
         exec_bind (exec_token (set_durable_window_id (opened_window_id opened)) t) (\<lambda>accepted.
         if \<not> accepted then exec_fail (WindowLifecycle ''confirmed token rejected its durable window id'')
         else exec_return (Some (opened_observation_inserted opened))))))"

definition store_normalized ::
    "('w, 'x, 'b, 'j, 'json) pipeline_database \<Rightarrow> pipeline_config \<Rightarrow> program_log_batch
      \<Rightarrow> 'json normalized_pump_event \<Rightarrow> ('w processor_state, ('x, 'j) pipeline_error, bool option) exec" where
  "store_normalized db config b nev =
     (let obs = norm_observation nev in
      exec_bind (exec_gets (\<lambda>st. matching_window_token b (obs_market obs) (pr_windows st))) (\<lambda>token.
      case norm_discovered_market nev of
        Some market \<Rightarrow>
          (case token of
             None \<Rightarrow> exec_fail (WindowLifecycle ''normalized discovery had no matching provisional token'')
           | Some t \<Rightarrow> open_durable_window db config obs t)
      | None \<Rightarrow>
          exec_bind (exec_gets (\<lambda>st. Option.bind token (\<lambda>t. cell_durable_window_id (cell_of (pr_windows st) t))))
            (\<lambda>window_id.
          exec_bind (case window_id of
              Some wid \<Rightarrow> await (insert_window_observation db wid obs)
            | None \<Rightarrow> await (insert_observation db obs)) (\<lambda>inserted. exec_return (Some inserted)))))"

definition register_pool ::
    "('w, 'x, 'b, 'j, 'json) pipeline_database \<Rightarrow> pump_swap_pool_row option \<Rightarrow> market_identity option
      \<Rightarrow> ('w processor_state, ('x, 'j) pipeline_error, unit) exec" where
  "register_pool db pool discovered =
     (case pool of
        None \<Rightarrow> exec_return ()
      | Some p \<Rightarrow>
          exec_bind (await (upsert_pump_swap_pool db p)) (\<lambda>_.
          exec_bind (exec_markets (register_pump_swap_pool (swap_pool_network p) (swap_pool_address p)
            (swap_pool_base_mint p) (swap_pool_quote_mint p))) (\<lambda>registered.
          if registered \<noteq> discovered
          then exec_fail (WindowLifecycle ''PumpSwap source orientation disagreed with normalized discovery'')
          else exec_return ())))"

definition register_discovered ::
    "market_identity option \<Rightarrow> ('w processor_state, ('x, 'j) pipeline_error, unit) exec" where
  "register_discovered discovered =
     (case discovered of
        Some market \<Rightarrow>
          if venue market = VenuePumpBondingCurve then exec_markets (register market) else exec_return ()
      | None \<Rightarrow> exec_return ())"

definition retire_mint :: "string option \<Rightarrow> ('w processor_state, ('x, 'j) pipeline_error, unit) exec" where
  "retire_mint m = (case m of Some mint' \<Rightarrow> exec_markets (retire_pump_market mint') | None \<Rightarrow> exec_return ())"

definition process_normalized ::
    "('w, 'x, 'b, 'j, 'json) pipeline_database \<Rightarrow> pipeline_config \<Rightarrow> program_log_batch \<Rightarrow> decoded_pump_event
      \<Rightarrow> 'json normalized_pump_event \<Rightarrow> batch_locals \<Rightarrow> ('w processor_state, ('x, 'j) pipeline_error, batch_locals) exec" where
  "process_normalized db config b d nev l =
     exec_bind (store_normalized db config b nev) (\<lambda>stored.
     case stored of
       None \<Rightarrow> exec_return l
     | Some inserted \<Rightarrow>
         let l' = (if inserted then l\<lparr>bl_inserted := saturating_add_usize (bl_inserted l) 1\<rparr> else l) in
         exec_bind (register_pool db (pump_swap_pool_of (col_network (pc_collector config)) (decoded_coordinate d)
             (decoded_event d)) (norm_discovered_market nev)) (\<lambda>_.
         exec_bind (register_discovered (norm_discovered_market nev)) (\<lambda>_.
         exec_bind (retire_mint (retire_pump_mint (decoded_event d))) (\<lambda>_. exec_return l'))))"

definition process_event ::
    "('b, 'j, 'json) codecs \<Rightarrow> ('w, 'x, 'b, 'j, 'json) pipeline_database \<Rightarrow> pipeline_config \<Rightarrow> program_log_batch
      \<Rightarrow> decoded_evidence \<Rightarrow> batch_locals \<Rightarrow> ('w processor_state, ('x, 'j) pipeline_error, batch_locals) exec" where
  "process_event codecs db config b e l =
     (let d = ev_decoded e; n = col_network (pc_collector config) in
      exec_bind (exec_gets (\<lambda>st. batch_selects_event b (decoded_event d) n
        (maximum_discovery_age (pc_collector config)) (pr_windows st))) (\<lambda>selected.
      if \<not> selected then exec_return l
      else
        let l1 = l\<lparr>bl_selected := saturating_add_usize (bl_selected l) 1\<rparr> in
        exec_bind (exec_gets (\<lambda>st. normalize_pump_event (codec_to_value codecs) (codec_sha256 codecs)
          (codec_base64_encode codecs) d n (col_commitment (pc_collector config)) (batch_received_time b)
          (ev_raw_evidence e) (pr_markets st))) (\<lambda>normalized.
        case normalized of
          Inr nev \<Rightarrow> process_normalized db config b d nev l1
        | Inl error \<Rightarrow>
            (case quarantine_reason error of
               None \<Rightarrow> exec_fail (PipelineNormalization error)
             | Some code \<Rightarrow>
                 exec_bind (record_pipeline_quarantine codecs db n (pump_source_program (decoded_program d))
                   \<lparr>quar_coordinate = decoded_coordinate d, quar_reason_code = code,
                    quar_reason_detail = NormalizationDetail error, quar_raw_evidence = ev_raw_evidence e\<rparr>)
                 (\<lambda>_. exec_return (l1\<lparr>bl_complete := False\<rparr>))))))"

section \<open>One batch\<close>

record batch_processing_outcome =
  outcome_inserted :: usize
  outcome_complete :: bool

definition decode_program ::
    "('b, 'j, 'json) codecs \<Rightarrow> ('w, 'x, 'b, 'j, 'json) pipeline_database \<Rightarrow> pipeline_config \<Rightarrow> program_log_batch
      \<Rightarrow> pump_program \<Rightarrow> decoded_evidence list \<times> batch_locals
      \<Rightarrow> ('w processor_state, ('x, 'j) pipeline_error, decoded_evidence list \<times> batch_locals) exec" where
  "decode_program codecs db config b program acc =
     (case acc of (events, l) \<Rightarrow>
      exec_bind (exec_result (map_err PipelineLogScope (decode_batch_events (codec_base64_decode codecs) b program)))
        (\<lambda>decoded.
      let l' = (if db_quarantines decoded \<noteq> [] then l\<lparr>bl_complete := False\<rparr> else l) in
      exec_bind (exec_each (record_pipeline_quarantine codecs db (col_network (pc_collector config))
          (pump_source_program program)) (db_quarantines decoded)) (\<lambda>_.
      exec_return (events @ db_events decoded, l'))))"

fun program_order :: "pump_program \<Rightarrow> nat" where
  "program_order Pump = 0"
| "program_order PumpSwap = 1"

definition event_order :: "decoded_evidence \<Rightarrow> bool \<times> nat \<times> u16 \<times> u16" where
  "event_order e =
     (let d = ev_decoded e in
      (\<not> is_discovery_event (decoded_event d), program_order (decoded_program d),
       instruction_index (decoded_coordinate d), event_index (decoded_coordinate d)))"

definition process_batch ::
    "('b, 'j, 'json) codecs \<Rightarrow> ('w, 'x, 'b, 'j, 'json) pipeline_database \<Rightarrow> pipeline_config \<Rightarrow> program_log_batch
      \<Rightarrow> ('w processor_state, ('x, 'j) pipeline_error, batch_processing_outcome) exec" where
  "process_batch codecs db config b =
     (let l0 = \<lparr>bl_inserted = 0, bl_complete = (batch_transaction_error b = None), bl_selected = 0\<rparr> in
      exec_bind (if batch_transaction_error b = None
        then exec_bind (exec_fold (decode_program codecs db config b) PUMP_PROGRAMS ([], l0)) (\<lambda>(events, l).
             exec_fold (process_event codecs db config b) (sort_key event_order events) l)
        else exec_return l0) (\<lambda>l.
      exec_bind (if batch_purpose_of b = Discovery
        then exec_windows (fold (update_cell cancel_if_pending) (window_tokens b)) else exec_return ()) (\<lambda>_.
      exec_return \<lparr>outcome_inserted = bl_inserted l,
        outcome_complete = (bl_complete l \<and> (window_tokens b = [] \<or> bl_selected l \<noteq> 0))\<rparr>)))"

text \<open>
  The batch is owned by \<open>process_and_record_batch\<close> and dropped when it returns, with or without an
  error. The answer is the number of observations to note in the flow and whether the discovery
  worker is woken.
\<close>

definition process_and_record_batch ::
    "('b, 'j, 'json) codecs \<Rightarrow> ('w, 'x, 'b, 'j, 'json) pipeline_database \<Rightarrow> pipeline_config \<Rightarrow> program_log_batch
      \<Rightarrow> ('w processor_state, ('x, 'j) pipeline_error, usize \<times> bool) exec" where
  "process_and_record_batch codecs db config b st =
     (case process_batch codecs db config b st of
        (Inl e, st') \<Rightarrow> (Inl e, st'\<lparr>pr_windows := batch_drop b (pr_windows st')\<rparr>)
      | (Inr out, st') \<Rightarrow>
          let r1 = (if outcome_complete out then pr_windows st'
                    else fold (update_cell (snd \<circ> mark_incomplete DecodeGap)) (window_tokens b) (pr_windows st'))
          in (Inr (outcome_inserted out, 0 < outcome_inserted out),
              st'\<lparr>pr_windows := batch_drop (mark_processing_succeeded b) r1\<rparr>))"

end
