(* ===== verification/Pipeline.thy ===== *)
theory Pipeline
  imports Batch_Process Pending_Activity
begin

text \<open>
  The pipeline around the batches, \<open>apps/server/src/jobs/pipeline.rs\<close>: the settings that overlay the
  configuration, the loop that supervises attempts, the checks and the hydration an attempt starts
  with, the loop that turns updates of the sources into the status of the stream, and the loop of the
  batch processor. Each arm of a \<open>select!\<close> is a function; what the channels, the timers and the
  network bring is its argument.
\<close>

section \<open>Settings\<close>

record stored_prefilter_defaults =
  sp_values :: prefilter_defaults
  sp_revision :: u64

definition PIPELINE_RESTART_INITIAL_DELAY :: duration where
  "PIPELINE_RESTART_INITIAL_DELAY = 1000"

definition PIPELINE_RESTART_MAX_DELAY :: duration where
  "PIPELINE_RESTART_MAX_DELAY = 30000"

definition SOLANA_MAINNET_GENESIS_HASH :: string where
  "SOLANA_MAINNET_GENESIS_HASH = ''5eykt4UsFv8P8NJdTREpY1vzqKqZKvdpKuc147dw2N9d''"

definition SOLANA_DEVNET_GENESIS_HASH :: string where
  "SOLANA_DEVNET_GENESIS_HASH = ''EtWTRABZaYq6iMfeYKouRu166VU2xqa1wcaWoxPkrZBG''"

definition DISCOVERY_RPC_FAILURES_BEFORE_DEGRADED :: u32 where
  "DISCOVERY_RPC_FAILURES_BEFORE_DEGRADED = 3"

definition DISCOVERY_SIGNATURE_RETENTION_MARGIN :: duration where
  "DISCOVERY_SIGNATURE_RETENTION_MARGIN = 11000"

definition with_prefilter_defaults :: "pipeline_config \<Rightarrow> stored_prefilter_defaults \<Rightarrow> pipeline_config" where
  "with_prefilter_defaults config stored =
     (let values = sp_values stored in
      config\<lparr>pc_collector := (pc_collector config)
        \<lparr>maximum_discovery_age := unat (pd_max_event_age_ms values),
         observation_window_duration := unat (pd_observation_window_ms values),
         rpc_max_in_flight := unat (pd_rpc_max_in_flight values),
         request_timeout := unat (pd_rpc_request_timeout_ms values)\<rparr>,
       pc_maximum_active_windows := unat (pd_max_active_windows values),
       pc_discovery_rpc_requests_per_second := pd_rpc_requests_per_second values,
       pc_discovery_rpc_rate_limit_cooldown := unat (pd_rpc_rate_limit_cooldown_ms values),
       pc_prefilter_revision := sp_revision stored, pc_prefilter_values := values\<rparr>)"

text \<open>The gate counts time in nanoseconds. The saturating addition of durations is exact below their maximum.\<close>

definition NANOS_PER_MILLI :: nat where
  "NANOS_PER_MILLI = 1000000"

definition config_discovery_rpc_gate :: "pipeline_config \<Rightarrow> discovery_rpc_gate option" where
  "config_discovery_rpc_gate config =
     gate_new (rpc_max_in_flight (pc_collector config)) (unat (pc_discovery_rpc_requests_per_second config))
       (pc_discovery_rpc_rate_limit_cooldown config * NANOS_PER_MILLI)
       ((maximum_discovery_age (pc_collector config) + DISCOVERY_SIGNATURE_RETENTION_MARGIN) * NANOS_PER_MILLI)"

section \<open>Supervision\<close>

fun pipeline_error_is_retryable :: "('x, 'j) pipeline_error \<Rightarrow> bool" where
  "pipeline_error_is_retryable (PipelineMaintenance (StorageLimitReached _ _)) = False"
| "pipeline_error_is_retryable (NetworkGenesisMismatch _ _ _) = False"
| "pipeline_error_is_retryable _ = True"

fun expected_genesis_hash :: "network \<Rightarrow> string" where
  "expected_genesis_hash SolanaMainnet = SOLANA_MAINNET_GENESIS_HASH"
| "expected_genesis_hash SolanaDevnet = SOLANA_DEVNET_GENESIS_HASH"

definition verify_rpc_network :: "(rpc_error, string) result \<Rightarrow> network \<Rightarrow> (('x, 'j) pipeline_error, unit) result" where
  "verify_rpc_network genesis_hash n =
     result_bind (map_err NetworkVerification genesis_hash) (\<lambda>actual.
     if actual \<noteq> expected_genesis_hash n
     then Inl (NetworkGenesisMismatch n (expected_genesis_hash n) actual) else Inr ())"

definition next_restart_delay :: "duration \<Rightarrow> duration" where
  "next_restart_delay current = min (current * 2) PIPELINE_RESTART_MAX_DELAY"

fun register_pools ::
    "pump_swap_pool_row list \<Rightarrow> market_registry \<Rightarrow> ('j normalization_error, market_registry) result" where
  "register_pools [] reg = Inr reg"
| "register_pools (p # ps) reg =
     (case register_pump_swap_pool (swap_pool_network p) (swap_pool_address p) (swap_pool_base_mint p)
             (swap_pool_quote_mint p) reg of
        (Inl e, _) \<Rightarrow> Inl e
      | (Inr _, reg') \<Rightarrow> register_pools ps reg')"

definition hydrate_market_registry ::
    "('x persistence_error, market_identity list) result \<Rightarrow> ('x persistence_error, pump_swap_pool_row list) result
      \<Rightarrow> (('x, 'j) pipeline_error, market_registry) result" where
  "hydrate_market_registry discovery_markets pools =
     result_bind (map_err PipelinePersistence discovery_markets) (\<lambda>ms.
     case register_all (filter (\<lambda>m. venue m = VenuePumpBondingCurve) ms) market_registry_default of
       (Inl e, _) \<Rightarrow> Inl (PipelineNormalization e)
     | (Inr _, reg) \<Rightarrow>
         result_bind (map_err PipelinePersistence pools) (\<lambda>ps. map_err PipelineNormalization (register_pools ps reg)))"

text \<open>
  What one attempt meets: the answers of its steps in their order, and whether the token was
  cancelled when it was looked at (before the attempt, after maintenance, after the attempt) or
  while the supervisor waited.
\<close>

record ('x, 'j) pipeline_attempt =
  at_cancelled_before :: bool
  at_http_client :: "(rpc_error, unit) result"
  at_genesis_hash :: "(rpc_error, string) result"
  at_bind_network :: "('x persistence_error, unit) result"
  at_maintenance :: "('x maintenance_error, retention_prune_result) result"
  at_cancelled_in_between :: bool
  at_pubsub_client :: "(rpc_error, unit) result"
  at_markets :: "('x persistence_error, market_identity list) result"
  at_pools :: "('x persistence_error, pump_swap_pool_row list) result"
  at_run :: "(('x, 'j) pipeline_error, unit) result"
  at_cancelled_after :: bool
  at_cancelled_waiting :: bool

definition attempt_result :: "network \<Rightarrow> ('x, 'j) pipeline_attempt \<Rightarrow> (('x, 'j) pipeline_error, unit) result" where
  "attempt_result n a =
     result_bind (map_err PipelineRpc (at_http_client a)) (\<lambda>_.
     result_bind (verify_rpc_network (at_genesis_hash a) n) (\<lambda>_.
     result_bind (map_err PipelinePersistence (at_bind_network a)) (\<lambda>_.
     result_bind (map_err PipelineMaintenance (at_maintenance a)) (\<lambda>_.
     if at_cancelled_in_between a then Inr ()
     else
       result_bind (map_err PipelineRpc (at_pubsub_client a)) (\<lambda>_.
       result_bind (hydrate_market_registry (at_markets a) (at_pools a)) (\<lambda>_. at_run a))))))"

record ('x, 'j) supervision =
  sup_statuses :: "stream_status list"
  sup_waits :: "duration list"
  sup_outcome :: "(('x, 'j) pipeline_error, unit) result option"

definition emit :: "stream_status list \<Rightarrow> ('x, 'j) supervision \<Rightarrow> ('x, 'j) supervision" where
  "emit ss s = s\<lparr>sup_statuses := ss @ sup_statuses s\<rparr>"

text \<open>
  The statuses that are published, the delays that are waited for and the outcome, over the attempts
  that are made; the outcome \<open>None\<close> means that the loop goes on after them.
\<close>

fun run_supervised_pipeline ::
    "network \<Rightarrow> bool \<Rightarrow> duration \<Rightarrow> ('x, 'j) pipeline_attempt list \<Rightarrow> ('x, 'j) supervision" where
  "run_supervised_pipeline n first delay [] = \<lparr>sup_statuses = [], sup_waits = [], sup_outcome = None\<rparr>"
| "run_supervised_pipeline n first delay (a # as) =
     (if at_cancelled_before a then \<lparr>sup_statuses = [], sup_waits = [], sup_outcome = Some (Inr ())\<rparr>
      else emit [if first then StatusStarting else StatusDegraded]
        (if at_cancelled_after a then \<lparr>sup_statuses = [], sup_waits = [], sup_outcome = Some (Inr ())\<rparr>
         else
           let error = (case attempt_result n a of Inr _ \<Rightarrow> UnexpectedTaskExit ''pipeline-attempt'' | Inl e \<Rightarrow> e) in
           if \<not> pipeline_error_is_retryable error
           then \<lparr>sup_statuses = [StatusError], sup_waits = [], sup_outcome = Some (Inl error)\<rparr>
           else emit [StatusDegraded]
             (if at_cancelled_waiting a then \<lparr>sup_statuses = [], sup_waits = [delay], sup_outcome = Some (Inr ())\<rparr>
              else
                let rest = run_supervised_pipeline n False (next_restart_delay delay) as
                in rest\<lparr>sup_waits := delay # sup_waits rest\<rparr>)))"

section \<open>The status of the stream\<close>

definition stream_status_of :: "bool \<Rightarrow> bool \<Rightarrow> u32 \<Rightarrow> stream_status" where
  "stream_status_of all_sources_ready connection_failed failures =
     (let discovery_rpc_degraded = DISCOVERY_RPC_FAILURES_BEFORE_DEGRADED \<le> failures in
      if all_sources_ready \<and> \<not> discovery_rpc_degraded then StatusRunning
      else if connection_failed \<or> discovery_rpc_degraded then StatusDegraded
      else StatusStarting)"

record pipeline_loop =
  pl_ready_sources :: "source_program set"
  pl_sources_ready_once :: "source_program set"
  pl_connection_failed :: bool
  pl_rpc_failures :: u32
  pl_status :: stream_status
  pl_registry :: registry

definition pipeline_loop_new :: "registry \<Rightarrow> stream_status \<Rightarrow> pipeline_loop" where
  "pipeline_loop_new r status =
     \<lparr>pl_ready_sources = {}, pl_sources_ready_once = {}, pl_connection_failed = False, pl_rpc_failures = 0,
      pl_status = status, pl_registry = r\<rparr>"

definition all_sources_ready :: "pipeline_loop \<Rightarrow> bool" where
  "all_sources_ready s \<longleftrightarrow> SourcePump \<in> pl_ready_sources s \<and> SourcePumpSwap \<in> pl_ready_sources s"

definition publish_status :: "pipeline_loop \<Rightarrow> pipeline_loop" where
  "publish_status s =
     s\<lparr>pl_status := stream_status_of (all_sources_ready s) (pl_connection_failed s) (pl_rpc_failures s)\<rparr>"

definition apply_connection_state :: "source_connection_update \<Rightarrow> pipeline_loop \<Rightarrow> pipeline_loop" where
  "apply_connection_state u s =
     (let p = update_source_program u in
      case update_state u of
        Ready \<Rightarrow> s\<lparr>pl_ready_sources := insert p (pl_ready_sources s),
                    pl_sources_ready_once := insert p (pl_sources_ready_once s)\<rparr>
      | Disconnected \<Rightarrow> s\<lparr>pl_ready_sources := pl_ready_sources s - {p}, pl_connection_failed := True,
                          pl_registry := snd (cancel_source_confirmed (pl_registry s) p SourceDisconnected)\<rparr>
      | Connecting \<Rightarrow> s\<lparr>pl_ready_sources := pl_ready_sources s - {p},
                        pl_connection_failed := (pl_connection_failed s \<or> p \<in> pl_sources_ready_once s)\<rparr>)"

definition on_connection_update :: "source_connection_update \<Rightarrow> pipeline_loop \<Rightarrow> pipeline_loop" where
  "on_connection_update u s =
     (let s1 = apply_connection_state u s;
          s2 = (if all_sources_ready s1 then s1\<lparr>pl_connection_failed := False\<rparr> else s1)
      in publish_status s2)"

definition saturating_add_u32 :: "u32 \<Rightarrow> u32 \<Rightarrow> u32" where
  "saturating_add_u32 a b = (case checked_add_word a b of None \<Rightarrow> - 1 | Some c \<Rightarrow> c)"

definition on_health_update :: "discovery_rpc_health_update \<Rightarrow> pipeline_loop \<Rightarrow> pipeline_loop" where
  "on_health_update u s =
     publish_status (s\<lparr>pl_rpc_failures :=
       (case u of
          HealthSuccessful \<Rightarrow> 0
        | HealthFailed \<Rightarrow> saturating_add_u32 (pl_rpc_failures s) 1
        | HealthRateLimited \<Rightarrow> DISCOVERY_RPC_FAILURES_BEFORE_DEGRADED)\<rparr>)"

text \<open>What the \<open>select!\<close> of the loop receives. A closed channel is an update that is \<open>None\<close>.\<close>

datatype ('x, 'j) joined_task =
    TaskReturned string "(('x, 'j) pipeline_error, unit) result"
  | TaskPanicked string
  | TaskSetEmpty

datatype ('x, 'j) pipeline_signal =
    SignalCancelled
  | SignalConnection "source_connection_update option"
  | SignalHealth "discovery_rpc_health_update option"
  | SignalJoined "('x, 'j) joined_task"

definition finish_with_error ::
    "('x, 'j) pipeline_error \<Rightarrow> pipeline_loop \<Rightarrow> (('x, 'j) pipeline_error, unit) result option \<times> pipeline_loop" where
  "finish_with_error e s = (Some (Inl e), s\<lparr>pl_status := StatusDegraded\<rparr>)"

fun joined_error :: "('x, 'j) joined_task \<Rightarrow> ('x, 'j) pipeline_error" where
  "joined_error (TaskReturned name (Inr _)) = UnexpectedTaskExit name"
| "joined_error (TaskReturned name (Inl e)) = e"
| "joined_error (TaskPanicked text') = PipelineJoin text'"
| "joined_error TaskSetEmpty = UnexpectedTaskExit ''task-set''"

fun on_signal ::
    "('x, 'j) pipeline_signal \<Rightarrow> pipeline_loop \<Rightarrow> (('x, 'j) pipeline_error, unit) result option \<times> pipeline_loop" where
  "on_signal SignalCancelled s =
     (Some (Inr ()), s\<lparr>pl_status := StatusStopping,
        pl_registry := snd (cancel_all_confirmed (pl_registry s) StreamStopped)\<rparr>)"
| "on_signal (SignalConnection (Some u)) s = (None, on_connection_update u s)"
| "on_signal (SignalConnection None) s = finish_with_error (UnexpectedTaskExit ''source-status-channel'') s"
| "on_signal (SignalHealth (Some u)) s = (None, on_health_update u s)"
| "on_signal (SignalHealth None) s = finish_with_error (UnexpectedTaskExit ''discovery-rpc-health-channel'') s"
| "on_signal (SignalJoined j) s = finish_with_error (joined_error j) s"

fun run_pipeline_loop ::
    "('x, 'j) pipeline_signal list \<Rightarrow> pipeline_loop \<Rightarrow> (('x, 'j) pipeline_error, unit) result option \<times> pipeline_loop" where
  "run_pipeline_loop [] s = (None, s)"
| "run_pipeline_loop (sig # sigs) s =
     (case on_signal sig s of
        (None, s') \<Rightarrow> run_pipeline_loop sigs s'
      | (Some outcome, s') \<Rightarrow> (Some outcome, s'))"

section \<open>The batch processor\<close>

definition FLOW_WINDOW :: nat where
  "FLOW_WINDOW = 60 * NANOS_PER_SECOND"

text \<open>An instant counts the nanoseconds since the earliest one there is, below which a subtraction fails.\<close>

definition prune_flow :: "instant \<Rightarrow> instant list \<Rightarrow> instant list" where
  "prune_flow now observations =
     (let cutoff = (if FLOW_WINDOW \<le> now then now - FLOW_WINDOW else now)
      in dropWhile (\<lambda>observed. observed < cutoff) observations)"

record 'w processor_loop =
  lp_state :: "'w processor_state"
  lp_recent :: "instant list"
  lp_pending :: pending_activity_queue
  lp_flow :: "u64 option"
  lp_wakes :: nat

definition processor_loop_new :: "pipeline_config \<Rightarrow> 'w processor_state \<Rightarrow> 'w processor_loop option" where
  "processor_loop_new config st =
     map_option (\<lambda>q. \<lparr>lp_state = st, lp_recent = [], lp_pending = q, lp_flow = None, lp_wakes = 0\<rparr>)
       (pending_queue_new (pc_queue_capacity config)
         (maximum_discovery_age (pc_collector config) + request_timeout (pc_collector config)))"

text \<open>Returning drops what the function owns: the batches it was about to process and those it holds back.\<close>

definition leave_processor :: "program_log_batch list \<Rightarrow> 'w processor_loop \<Rightarrow> 'w processor_loop" where
  "leave_processor bs s =
     (let owned = bs @ map pending_batch (pending_batches (lp_pending s)) in
      s\<lparr>lp_state := (lp_state s)\<lparr>pr_windows := fold batch_drop owned (pr_windows (lp_state s))\<rparr>,
        lp_pending := (lp_pending s)\<lparr>pending_batches := []\<rparr>\<rparr>)"

definition record_one ::
    "('b, 'j, 'json) codecs \<Rightarrow> ('w, 'x, 'b, 'j, 'json) pipeline_database \<Rightarrow> pipeline_config \<Rightarrow> instant \<Rightarrow> program_log_batch
      \<Rightarrow> ('w processor_loop, ('x, 'j) pipeline_error, unit) exec" where
  "record_one codecs db config now b s =
     (case process_and_record_batch codecs db config b (lp_state s) of
        (Inl e, st) \<Rightarrow> (Inl e, s\<lparr>lp_state := st\<rparr>)
      | (Inr (inserted, wake), st) \<Rightarrow>
          (Inr (), s\<lparr>lp_state := st, lp_recent := lp_recent s @ replicate inserted now,
                    lp_wakes := (if wake then Suc (lp_wakes s) else lp_wakes s)\<rparr>))"

fun process_ready ::
    "('b, 'j, 'json) codecs \<Rightarrow> ('w, 'x, 'b, 'j, 'json) pipeline_database \<Rightarrow> pipeline_config \<Rightarrow> instant
      \<Rightarrow> program_log_batch list \<Rightarrow> ('w processor_loop, ('x, 'j) pipeline_error, unit) exec" where
  "process_ready codecs db config now [] s = (Inr (), s)"
| "process_ready codecs db config now (b # bs) s =
     (case record_one codecs db config now b s of
        (Inl e, s') \<Rightarrow> (Inl e, leave_processor bs s')
      | (Inr _, s') \<Rightarrow> process_ready codecs db config now bs s')"

definition on_pending_tick ::
    "('b, 'j, 'json) codecs \<Rightarrow> ('w, 'x, 'b, 'j, 'json) pipeline_database \<Rightarrow> pipeline_config \<Rightarrow> i64 \<Rightarrow> instant
      \<Rightarrow> ('w processor_loop, ('x, 'j) pipeline_error, unit) exec" where
  "on_pending_tick codecs db config now_unix now s =
     (case drain_resolved now_unix (pr_windows (lp_state s)) (lp_pending s) of
        (ready, q) \<Rightarrow> process_ready codecs db config now ready (s\<lparr>lp_pending := q\<rparr>))"

definition on_batch ::
    "('b, 'j, 'json) codecs \<Rightarrow> ('w, 'x, 'b, 'j, 'json) pipeline_database \<Rightarrow> pipeline_config \<Rightarrow> i64 \<Rightarrow> i64 \<Rightarrow> instant
      \<Rightarrow> program_log_batch option \<Rightarrow> ('w processor_loop, ('x, 'j) pipeline_error, unit) exec" where
  "on_batch codecs db config admitted_unix drained_unix now received s =
     (case received of
        None \<Rightarrow> (Inl (UnexpectedTaskExit ''collector-queue''), leave_processor [] s)
      | Some b \<Rightarrow>
          (case pending_admit b admitted_unix (lp_pending s) (pr_windows (lp_state s)) of
             (admission, q, r) \<Rightarrow>
               let s1 = s\<lparr>lp_pending := q, lp_state := (lp_state s)\<lparr>pr_windows := r\<rparr>\<rparr>;
                   ready = (case admission of AdmissionReady b' \<Rightarrow> [b'] | _ \<Rightarrow> [])
               in (case process_ready codecs db config now ready s1 of
                     (Inl e, s2) \<Rightarrow> (Inl e, s2)
                   | (Inr _, s2) \<Rightarrow> on_pending_tick codecs db config drained_unix now s2)))"

definition on_storage_tick ::
    "('x persistence_error, u64) result \<Rightarrow> pipeline_config \<Rightarrow> ('w processor_loop, ('x, 'j) pipeline_error, unit) exec" where
  "on_storage_tick database_size config s =
     (case ensure_storage_capacity database_size (database_max_bytes (pc_maintenance config)) of
        Inl e \<Rightarrow> (Inl (PipelineMaintenance e), leave_processor [] s)
      | Inr _ \<Rightarrow> (Inr (), s))"

text \<open>\<open>set_flow\<close> is the answer of \<open>set_discovery_flow_per_minute\<close>; the last part says whether a change is published.\<close>

definition on_flow_tick ::
    "instant \<Rightarrow> (u64 option \<Rightarrow> ('x persistence_error, bool) result)
      \<Rightarrow> ('w processor_loop, ('x, 'j) pipeline_error, bool) exec" where
  "on_flow_tick now set_flow s =
     (let recent = prune_flow now (lp_recent s);
          s1 = s\<lparr>lp_recent := recent\<rparr>;
          next_flow = Some (if length recent < 2 ^ 64 then of_nat (length recent) else - 1) in
      if next_flow = lp_flow s1 then (Inr False, s1)
      else case set_flow next_flow of
        Inl e \<Rightarrow> (Inl (PipelinePersistence e), leave_processor [] s1)
      | Inr changed \<Rightarrow> (Inr changed, s1\<lparr>lp_flow := next_flow\<rparr>))"

end
