(* ===== verification/Batch_Process_Correct.thy ===== *)
theory Batch_Process_Correct
  imports Batch_Process Batch_Decode_Correct Collector_System
begin

text \<open>
  Processing a batch as part of the collector system: whatever the database answers and whatever
  other tasks do while it is awaited, the processor moves the system by steps of the collector and
  ends with the batch settled; evidence that it could not use leaves its mark on every window of the
  batch, for good.
\<close>

section \<open>A processor inside the collector system\<close>

definition with_windows :: "registry \<Rightarrow> collector_system \<Rightarrow> collector_system" where
  "with_windows r s = s\<lparr>cs_state := (cs_state s)\<lparr>col_windows := r\<rparr>\<rparr>"

abbreviation windows_of :: "collector_system \<Rightarrow> registry" where
  "windows_of s \<equiv> col_windows (cs_state s)"

lemma with_windows_simps [simp]:
  "windows_of (with_windows r s) = r" "with_windows r (with_windows r' s) = with_windows r s"
  "with_windows (windows_of s) s = s" "cs_processing (with_windows r s) = cs_processing s"
  "cs_claims (with_windows r s) = cs_claims s"
  by (simp_all add: with_windows_def)

text \<open>A view of the state of the processor as the state of the whole system.\<close>

definition views :: "('w processor_state \<Rightarrow> collector_system) \<Rightarrow> bool" where
  "views sys \<longleftrightarrow>
     (\<forall>st. windows_of (sys st) = pr_windows st)
     \<and> (\<forall>st r. sys (st\<lparr>pr_windows := r\<rparr>) = with_windows r (sys st))
     \<and> (\<forall>st m. sys (st\<lparr>pr_markets := m\<rparr>) = sys st)"

lemma viewsD:
  assumes "views sys"
  shows "windows_of (sys st) = pr_windows st" "sys (st\<lparr>pr_windows := r\<rparr>) = with_windows r (sys st)"
    "sys (st\<lparr>pr_markets := m\<rparr>) = sys st"
  using assms by (auto simp: views_def)

text \<open>While the batch is being processed, the system runs and the batch stays where it is.\<close>

definition runs_holding ::
    "(string \<Rightarrow> ('b, u8 list) result) \<Rightarrow> program_log_batch \<Rightarrow> collector_system \<Rightarrow> collector_system \<Rightarrow> bool" where
  "runs_holding base64_decode b s s' \<longleftrightarrow>
     (b \<in> set (cs_processing s) \<longrightarrow> collector_steps base64_decode s s' \<and> b \<in> set (cs_processing s'))"

interpretation run: effect_order "\<lambda>st st'. runs_holding base64_decode b (sys st) (sys st')" for base64_decode b sys
  by unfold_locales (auto simp: runs_holding_def)

definition interleaves ::
    "(string \<Rightarrow> ('b, u8 list) result) \<Rightarrow> program_log_batch \<Rightarrow> ('w processor_state \<Rightarrow> collector_system)
      \<Rightarrow> ('w, 'x, 'a) db_call \<Rightarrow> bool" where
  "interleaves base64_decode b sys call \<longleftrightarrow>
     (\<forall>st. case call (pr_windows st, pr_world st) of
        (_, r, w) \<Rightarrow> runs_holding base64_decode b (sys st) (sys (st\<lparr>pr_windows := r, pr_world := w\<rparr>)))"

text \<open>The database lets other tasks of the collector run while a call is awaited, and nothing else.\<close>

definition database_interleaves ::
    "(string \<Rightarrow> ('c, u8 list) result) \<Rightarrow> program_log_batch \<Rightarrow> ('w processor_state \<Rightarrow> collector_system)
      \<Rightarrow> ('w, 'x, 'b, 'j, 'json) pipeline_database \<Rightarrow> bool" where
  "database_interleaves base64_decode b sys db \<longleftrightarrow>
     (\<forall>q. interleaves base64_decode b sys (record_intake_quarantine db q))
     \<and> interleaves base64_decode b sys (load_qualification_defaults db)
     \<and> (\<forall>obs w. interleaves base64_decode b sys (open_discovery_window db obs w))
     \<and> (\<forall>i obs. interleaves base64_decode b sys (insert_window_observation db i obs))
     \<and> (\<forall>obs. interleaves base64_decode b sys (insert_observation db obs))
     \<and> (\<forall>p. interleaves base64_decode b sys (upsert_pump_swap_pool db p))"

section \<open>The steps the processor takes itself\<close>

lemma own_step:
  assumes "step \<lparr>sys_registry = windows_of s, sys_claims = cs_claims s\<rparr> \<lparr>sys_registry = r, sys_claims = cs_claims s\<rparr>"
    and "counts_kept (windows_of s) r"
  shows "collector_steps base64_decode s (with_windows r s)"
  using other_thread [OF assms, of base64_decode] by (auto simp: with_windows_def)

text \<open>Operations on the cell of a token that the processor uses outside of settlement.\<close>

definition quiet_cell_op :: "(token_cell \<Rightarrow> token_cell) \<Rightarrow> bool" where
  "quiet_cell_op f \<longleftrightarrow>
     f = cancel_if_pending \<or> f = snd \<circ> confirm \<or> (\<exists>i. f = snd \<circ> set_durable_window_id i)
     \<or> (\<exists>reason. f = snd \<circ> mark_incomplete reason)"

lemma quiet_cell_op_intros [simp]:
  "quiet_cell_op cancel_if_pending" "quiet_cell_op (snd \<circ> confirm)"
  "quiet_cell_op (snd \<circ> set_durable_window_id i)" "quiet_cell_op (snd \<circ> mark_incomplete reason)"
  by (auto simp: quiet_cell_op_def)

lemma quiet_cell_op_counts:
  assumes "quiet_cell_op f"
  shows "cell_admitted (f c) = cell_admitted c \<and> cell_settled (f c) = cell_settled c"
  using assms
  by (auto simp: quiet_cell_op_def cancel_keeps mark_incomplete_keeps confirm_def set_durable_window_id_def
      split: window_state.splits option.splits)

lemma quiet_cell_op_step:
  assumes "quiet_cell_op f"
  shows "step s (s\<lparr>sys_registry := update_cell f t (sys_registry s)\<rparr>)"
  using assms
  by (auto simp: quiet_cell_op_def intro: step_confirm step_cancel_if_pending step_mark_incomplete step_set_durable)

lemma cell_op_steps:
  assumes "quiet_cell_op f"
  shows "collector_steps base64_decode s (with_windows (update_cell f t (windows_of s)) s)"
proof (rule own_step)
  show "counts_kept (windows_of s) (update_cell f t (windows_of s))"
    using quiet_cell_op_counts [OF assms] by (rule counts_kept_update)
  show "step \<lparr>sys_registry = windows_of s, sys_claims = cs_claims s\<rparr>
      \<lparr>sys_registry = update_cell f t (windows_of s), sys_claims = cs_claims s\<rparr>"
    using quiet_cell_op_step [OF assms, of "\<lparr>sys_registry = windows_of s, sys_claims = cs_claims s\<rparr>" t] by simp
qed

lemma cell_ops_steps:
  assumes "quiet_cell_op f"
  shows "collector_steps base64_decode s (with_windows (fold (update_cell f) ts (windows_of s)) s)"
proof (induction ts arbitrary: s)
  case (Cons t ts)
  show ?case
    using cell_op_steps [OF assms, of base64_decode s t] Cons.IH [of "with_windows (update_cell f t (windows_of s)) s"]
    by simp
qed simp

section \<open>What carries over from the effects to a whole batch\<close>

locale processor = effect_order R for R :: "'w processor_state \<Rightarrow> 'w processor_state \<Rightarrow> bool" +
  fixes db :: "('w, 'x, 'b, 'j, 'json) pipeline_database"
  assumes call_quarantine: "confined R (await (record_intake_quarantine db q)
        :: ('w processor_state, ('x, 'j) pipeline_error, u64) exec)"
    and call_qualification: "confined R (await (load_qualification_defaults db)
        :: ('w processor_state, ('x, 'j) pipeline_error, stored_qualification_defaults) exec)"
    and call_open: "confined R (await (open_discovery_window db obs w)
        :: ('w processor_state, ('x, 'j) pipeline_error, opened_discovery_window) exec)"
    and call_insert_window: "confined R (await (insert_window_observation db i obs)
        :: ('w processor_state, ('x, 'j) pipeline_error, bool) exec)"
    and call_insert: "confined R (await (insert_observation db obs)
        :: ('w processor_state, ('x, 'j) pipeline_error, bool) exec)"
    and call_pool: "confined R (await (upsert_pump_swap_pool db p)
        :: ('w processor_state, ('x, 'j) pipeline_error, bool) exec)"
    and own_cell: "quiet_cell_op f \<Longrightarrow> R st (st\<lparr>pr_windows := update_cell f t (pr_windows st)\<rparr>)"
    and own_markets: "R st (st\<lparr>pr_markets := m\<rparr>)"
begin

lemma confined_token: "quiet_cell_op (snd \<circ> f) \<Longrightarrow> confined R (exec_token f t)"
  using own_cell by (simp add: confined_def exec_token_def)

lemma confined_markets: "confined R (exec_markets f)"
  using own_markets by (auto simp: confined_def exec_markets_def split: prod.split)

lemma confined_cells:
  assumes "quiet_cell_op f"
  shows "confined R (exec_windows (fold (update_cell f) ts))"
  unfolding exec_windows_def
proof (rule confined_modify)
  show "R st (st\<lparr>pr_windows := fold (update_cell f) ts (pr_windows st)\<rparr>)" for st
  proof (induction ts arbitrary: st)
    case (Cons t ts)
    show ?case
      using effect_trans [OF own_cell [OF assms, of st t] Cons.IH [of "st\<lparr>pr_windows := update_cell f t (pr_windows st)\<rparr>"]]
      by simp
  qed (simp add: effect_refl)
qed

lemma confined_cell: "quiet_cell_op f \<Longrightarrow> confined R (exec_windows (update_cell f t))"
  using confined_cells [of f "[t]"] by simp

lemmas call_rules = call_quarantine call_qualification call_open call_insert_window call_insert call_pool
  confined_token confined_markets confined_cells confined_cell quiet_cell_op_intros confined_pure

lemma confined_quarantine: "confined R (record_pipeline_quarantine codecs db n program q
    :: ('w processor_state, ('x, 'j) pipeline_error, unit) exec)"
  unfolding record_pipeline_quarantine_def by (intro confined_bind call_rules)

lemma confined_open: "confined R (open_durable_window db config obs t)"
  unfolding open_durable_window_def
  by (intro confined_bind call_rules | simp only: if_split | intro conjI impI)+

lemma confined_store: "confined R (store_normalized db config b nev)"
  unfolding store_normalized_def Let_def
  by (intro confined_bind call_rules confined_open | (simp only: option.split, intro conjI impI allI))+

lemma confined_normalized: "confined R (process_normalized db config b d nev l)"
  unfolding process_normalized_def register_pool_def register_discovered_def retire_mint_def Let_def
  by (intro confined_bind confined_store call_rules
    | (simp only: option.split, intro conjI impI allI) | (simp only: if_split, intro conjI impI))+

lemma confined_event: "confined R (process_event codecs db config b e l)"
  unfolding process_event_def Let_def
  by (intro confined_bind confined_normalized confined_quarantine call_rules
    | (simp only: option.split, intro conjI impI allI) | (simp only: sum.split, intro conjI impI allI)
    | (simp only: if_split, intro conjI impI))+

lemma confined_decode: "confined R (decode_program codecs db config b program acc)"
  unfolding decode_program_def Let_def
  by (cases acc) (auto intro!: confined_bind confined_each confined_quarantine confined_pure)

lemma confined_batch: "confined R (process_batch codecs db config b)"
  unfolding process_batch_def Let_def
  by (auto intro!: confined_bind confined_fold confined_decode confined_event call_rules split: prod.split)

end

section \<open>The processor in the collector system\<close>

lemma confined_await:
  assumes "H \<Longrightarrow> interleaves base64_decode b sys call"
  shows "confined (\<lambda>st st'. H \<longrightarrow> runs_holding base64_decode b (sys st) (sys st')) (await call)"
  unfolding confined_def
proof (intro allI impI)
  fix st assume H
  with assms have "interleaves base64_decode b sys call" by simp
  then show "runs_holding base64_decode b (sys st) (sys (snd (await call st)))"
    unfolding interleaves_def by (cases "call (pr_windows st, pr_world st)") (auto simp: await_def dest!: spec [of _ st])
qed

interpretation processing: processor
  "\<lambda>st st'. views sys \<and> database_interleaves base64_decode b sys db \<longrightarrow>
     runs_holding base64_decode b (sys st) (sys st')" db
  for base64_decode b sys db
proof
  show "views sys \<and> database_interleaves base64_decode b sys db \<longrightarrow>
      runs_holding base64_decode b (sys st) (sys (st\<lparr>pr_windows := update_cell f t (pr_windows st)\<rparr>))"
    if "quiet_cell_op f" for f st t
  proof (intro impI)
    assume "views sys \<and> database_interleaves base64_decode b sys db"
    then have v: "views sys" by simp
    show "runs_holding base64_decode b (sys st) (sys (st\<lparr>pr_windows := update_cell f t (pr_windows st)\<rparr>))"
      using cell_op_steps [OF that, of base64_decode "sys st" t] viewsD [OF v] by (simp add: runs_holding_def)
  qed
  show "views sys \<and> database_interleaves base64_decode b sys db \<longrightarrow>
      runs_holding base64_decode b (sys st) (sys (st\<lparr>pr_markets := m\<rparr>))" for st m
    by (auto simp: runs_holding_def viewsD)
qed ((rule confined_await, simp add: database_interleaves_def) | fastforce simp: runs_holding_def)+

lemma process_batch_runs:
  assumes "views sys" and "database_interleaves base64_decode b sys db" and "b \<in> set (cs_processing (sys st))"
    and "process_batch codecs db config b st = (res, st')"
  shows "collector_steps base64_decode (sys st) (sys st')" and "b \<in> set (cs_processing (sys st'))"
  using processing.confined_run [OF processing.confined_batch assms(4), of sys base64_decode b] assms(1-3)
  by (auto simp: runs_holding_def)

section \<open>Marks\<close>

lemma settle_all_keep: "marked (fold settle ts r) t \<longleftrightarrow> marked r t"
  by (induction ts arbitrary: r) (simp_all add: cell_of_def settle_keeps_reason)

lemma mark_all_marks:
  "t \<in> set ts \<or> marked r t \<Longrightarrow> marked (fold (update_cell (snd \<circ> mark_incomplete reason)) ts r) t"
proof (induction ts arbitrary: r)
  case (Cons u ts)
  have "marked (update_cell (snd \<circ> mark_incomplete reason) u r) v" if "u = v \<or> marked r v" for v
    using that by (auto simp: cell_of_def update_cell_def mark_incomplete_def WINDOW_COMPLETE_def) (cases reason; simp)+
  then show ?case
    using Cons.IH [of "update_cell (snd \<circ> mark_incomplete reason) u r"] Cons.prems
    unfolding fold_simps list.set(2) insert_iff by blast
qed simp

lemma drop_settled: "batch_drop (mark_processing_succeeded b) r = fold settle (window_tokens b) r"
  by (simp add: batch_drop_def mark_processing_succeeded_def)

text \<open>The batch was not used in full: an error stopped it, or some of its evidence was set aside.\<close>

definition used_in_full :: "('e, batch_processing_outcome) result \<Rightarrow> bool" where
  "used_in_full res = (case res of Inl _ \<Rightarrow> False | Inr out \<Rightarrow> outcome_complete out)"

lemma unused_marks:
  assumes "process_and_record_batch codecs db config b st = (res, st')"
    and "\<not> used_in_full (fst (process_batch codecs db config b st))" and "\<not> processing_succeeded b"
    and "t \<in> set (window_tokens b)"
  shows "marked (pr_windows st') t"
proof -
  obtain r1 st1 where run: "process_batch codecs db config b st = (r1, st1)" by (rule prod.exhaust)
  show ?thesis
  proof (cases r1)
    case (Inl e)
    then have "pr_windows st' = fold fail_and_settle (window_tokens b) (pr_windows st1)"
      using assms(1,3) run by (auto simp: process_and_record_batch_def batch_drop_def)
    then show ?thesis using fail_all_marks assms(4) by metis
  next
    case (Inr out)
    then have "pr_windows st' = fold settle (window_tokens b)
        (fold (update_cell (snd \<circ> mark_incomplete DecodeGap)) (window_tokens b) (pr_windows st1))"
      using assms(1,2) run by (auto simp: process_and_record_batch_def used_in_full_def drop_settled)
    then show ?thesis using mark_all_marks assms(4) by (simp add: settle_all_keep)
  qed
qed

section \<open>A batch leaves the system settled\<close>

definition finished :: "program_log_batch \<Rightarrow> collector_system \<Rightarrow> collector_system" where
  "finished b s = s\<lparr>cs_processing := remove1 b (cs_processing s)\<rparr>"

lemma drop_processing_step:
  assumes "b \<in> set (cs_processing s)" and "c = b \<or> c = mark_processing_succeeded b"
  shows "collector_step base64_decode s (finished b (with_windows (batch_drop c (windows_of s)) s))"
proof -
  obtain bs cs where split: "cs_processing s = bs @ b # cs" "b \<notin> set bs" using assms(1) by (metis split_list_first)
  have "finished b (with_windows (batch_drop c (windows_of s)) s)
      = s\<lparr>cs_state := drop_in c (cs_state s), cs_processing := bs @ cs\<rparr>"
    using split by (simp add: finished_def with_windows_def on_windows_def remove1_append)
  then show ?thesis
    using assms(2) processed [OF split(1), of base64_decode] drop_processing [OF split(1), of base64_decode] by auto
qed

lemma record_batch_runs:
  assumes "views sys" and "database_interleaves base64_decode b sys db" and "b \<in> set (cs_processing (sys st))"
    and "process_and_record_batch codecs db config b st = (res, st')"
  shows "collector_steps base64_decode (sys st) (finished b (sys st'))"
proof -
  obtain r1 st1 where run: "process_batch codecs db config b st = (r1, st1)" by (rule prod.exhaust)
  note steps = process_batch_runs [OF assms(1-3) run]
  show ?thesis
  proof (cases r1)
    case (Inl e)
    then have "sys st' = with_windows (batch_drop b (windows_of (sys st1))) (sys st1)"
      using assms(4) run viewsD [OF assms(1)] by (auto simp: process_and_record_batch_def)
    then show ?thesis
      using drop_processing_step [OF steps(2), of b base64_decode] steps(1) by (simp add: rtranclp.rtrancl_into_rtrancl)
  next
    case (Inr out)
    let ?r = "if outcome_complete out then pr_windows st1
      else fold (update_cell (snd \<circ> mark_incomplete DecodeGap)) (window_tokens b) (pr_windows st1)"
    have mark: "collector_steps base64_decode (sys st1) (with_windows ?r (sys st1))"
      using cell_ops_steps [of "snd \<circ> mark_incomplete DecodeGap" base64_decode "sys st1" "window_tokens b"]
        viewsD(1) [OF assms(1), of st1] with_windows_simps(3) [of "sys st1"] by auto
    have "sys st' = with_windows (batch_drop (mark_processing_succeeded b) ?r) (sys st1)"
      using Inr assms(4) run viewsD [OF assms(1)] by (auto simp: process_and_record_batch_def Let_def)
    then have "collector_step base64_decode (with_windows ?r (sys st1)) (finished b (sys st'))"
      using drop_processing_step [of b "with_windows ?r (sys st1)" "mark_processing_succeeded b" base64_decode] steps(2)
      by simp
    then show ?thesis using steps(1) mark by (metis rtranclp.rtrancl_into_rtrancl rtranclp_trans)
  qed
qed

lemma processing_cells:
  assumes "collector_reachable base64_decode in_flight capacity s" and "b \<in> set (cs_processing s)"
    and "t \<in> set (window_tokens b)"
  shows "tok_cell t < next_cell (windows_of s)"
proof -
  have "tok_cell t \<in># owed_system s"
    using assms(2,3) by (auto simp: owed_system_def owed_batches_def owed_by_def dest!: split_list)
  then show ?thesis
    using collector_inv [OF assms(1)] by (auto simp: ledger_inv_def system_ledger_def balanced_def)
qed

lemma steps_next_cell:
  assumes "collector_steps base64_decode s s'" and "collector_reachable base64_decode in_flight capacity s"
  shows "next_cell (windows_of s) \<le> next_cell (windows_of s')"
  using steps_advance [OF collector_refines_registry [OF assms]] collector_inv [OF assms(2)]
  by (auto simp: ledger_inv_def system_ledger_def advances_def)

text \<open>
  C6: processing a batch is a run of the collector system that settles the batch. Whatever the
  database answers, in success or in failure, and whatever steps other tasks take while its calls
  are awaited, the system moves by its own steps from the state before the batch to the state in
  which the batch is gone: no admission is settled twice, none is left behind, and every guarantee
  proved of the collector holds across the processor as well.
\<close>

theorem batch_processing_refines:
  assumes "views sys" and "database_interleaves base64_decode b sys db" and "b \<in> set (cs_processing (sys st))"
    and "process_and_record_batch codecs db config b st = (res, st')"
  shows "collector_steps base64_decode (sys st) (finished b (sys st'))"
  by (rule record_batch_runs [OF assms])


section \<open>No provisional window outlives its discovery\<close>

lemma cancel_pending_resolves:
  "token_status (cell_of (fold (update_cell cancel_if_pending) ts r) t) \<noteq> WindowPending"
  if "t \<in> set ts \<or> token_status (cell_of r t) \<noteq> WindowPending"
  using that
proof (induction ts arbitrary: r)
  case (Cons u ts)
  have "token_status (cell_of (update_cell cancel_if_pending u r) v) \<noteq> WindowPending"
    if "u = v \<or> token_status (cell_of r v) \<noteq> WindowPending" for v
    using that by (auto simp: cell_of_def update_cell_def cancel_if_pending_def split: window_state.splits if_splits)
  then show ?case
    using Cons.IH [of "update_cell cancel_if_pending u r"] Cons.prems
    unfolding fold_simps list.set(2) insert_iff by blast
qed simp

text \<open>
  A discovery resolves its windows. When a batch that was collected for a discovery has been
  processed, then none of the windows that were opened provisionally for it is still provisional:
  each was confirmed by a durable window or is cancelled, also where the transaction failed, where
  the discovery was a replay and where the database knew better.
\<close>

theorem discovery_resolves_windows:
  assumes "process_batch codecs db config b st = (Inr out, st')" and "batch_purpose_of b = Discovery"
    and "t \<in> set (window_tokens b)"
  shows "token_status (cell_of (pr_windows st') t) \<noteq> WindowPending"
proof -
  obtain r where "pr_windows st' = fold (update_cell cancel_if_pending) (window_tokens b) r"
    using assms(1,2) unfolding process_batch_def Let_def
    by (auto elim!: exec_bind_InrE simp: exec_simps exec_windows_def split: if_splits)
  then show ?thesis using cancel_pending_resolves assms(3) by metis
qed

section \<open>A batch the database refuses\<close>

text \<open>
  The batch of the collector's example has reached the processor, none of its evidence decodes, and
  the database refuses every call.
\<close>

definition example_view :: "collector_system processor_state \<Rightarrow> collector_system" where
  "example_view st = with_windows (pr_windows st) (pr_world st)"

definition refuse :: "('w, unit, 'a) db_call" where
  "refuse s = (Inl (DatabaseError ()), s)"

definition refusing_database :: "('w, unit, unit, unit, unit) pipeline_database" where
  "refusing_database =
     \<lparr>record_intake_quarantine = (\<lambda>_. refuse), load_qualification_defaults = refuse,
      open_discovery_window = (\<lambda>_ _. refuse), insert_window_observation = (\<lambda>_ _. refuse),
      insert_observation = (\<lambda>_. refuse), upsert_pump_swap_pool = (\<lambda>_. refuse)\<rparr>"

definition example_codecs :: "(unit, unit, unit) codecs" where
  "example_codecs = \<lparr>codec_base64_decode = (\<lambda>_. Inl ()), codec_base64_encode = (\<lambda>_. ''AA''),
     codec_sha256 = id, codec_to_value = (\<lambda>_. Inr ())\<rparr>"

lemma example_views: "views example_view"
  by (simp add: views_def example_view_def)

lemma refusing_interleaves: "database_interleaves base64_decode b example_view refusing_database"
  by (auto simp: database_interleaves_def interleaves_def refusing_database_def refuse_def runs_holding_def)

definition run_processing :: collector_system where
  "run_processing = (run_at run_admitted)\<lparr>cs_processing := [run_batch]\<rparr>"

lemma run_processing_reachable: "collector_reachable active_decode 2 4 run_processing"
proof -
  let ?channel = "(run_at run_admitted)\<lparr>cs_channel := [run_batch]\<rparr>"
  have "collector_step active_decode run_sending ?channel"
    using send_batch [of run_sending "[]" run_batch "[]" active_decode]
    by (simp add: run_sending_def run_at_def example_system_def)
  then have 1: "collector_reachable active_decode 2 4 ?channel" by (rule collector_next [OF run_sending_reachable])
  have "\<not> has_pending_token run_admitted run_batch"
    by (simp add: has_pending_token_def run_batch_def notification_batch_def run_token_def cell_of_def
        run_admitted_fields run_durable_fields)
  then have "pending_admit run_batch 6 (cs_pending ?channel) run_admitted
      = (AdmissionReady run_batch, cs_pending ?channel, run_admitted)"
    by (simp add: pending_admit_def)
  then have "collector_step active_decode ?channel run_processing"
    using receive_batch [of ?channel run_batch "[]" 6 "AdmissionReady run_batch" "cs_pending ?channel" run_admitted active_decode]
    by (simp add: run_processing_def run_at_def example_system_def)
  then show ?thesis by (rule collector_next [OF 1])
qed

definition example_state :: "collector_system processor_state" where
  "example_state = \<lparr>pr_windows = run_admitted, pr_world = run_processing, pr_markets = market_registry_default\<rparr>"

lemma example_state_view [simp]: "example_view example_state = run_processing"
  by (simp add: example_view_def example_state_def run_processing_def run_at_def with_windows_def)

lemma run_batch_fields:
  "batch_transaction_error run_batch = None" "window_tokens run_batch = [run_token]" "\<not> processing_succeeded run_batch"
  by (simp_all add: run_batch_def notification_batch_def run_received_def active_note_def)

lemma example_decode:
  "\<exists>q qs. decode_batch_events (codec_base64_decode example_codecs) run_batch Pump
     = Inr \<lparr>db_events = [], db_quarantines = (q :: (unit, unit) quarantined_evidence) # qs\<rparr>"
proof -
  have "run_batch = active_notified [run_token]" by (simp add: run_batch_def run_received_def)
  then show ?thesis
    using active_scopes(1) [of "[run_token]"] active_cpis(1) [of "[run_token]"]
    by (simp add: decode_batch_events_def example_codecs_def decode_program_data_bytes_def active_record_def
        strip_prefix_def starts_with_def PROGRAM_DATA_PREFIX_def ok_or_def map_err_def del: pump_program_id.simps)
qed

definition example_pipeline :: pipeline_config where
  "example_pipeline =
     \<lparr>pc_http_url = ''http'', pc_ws_url = ''ws'', pc_collector = run_config, pc_maintenance = example_maintenance,
      pc_queue_capacity = 4, pc_maximum_active_windows = 100, pc_discovery_rpc_requests_per_second = 10,
      pc_discovery_rpc_rate_limit_cooldown = 1000, pc_prefilter_revision = 1,
      pc_prefilter_values = \<lparr>pd_max_event_age_ms = 60000, pd_observation_window_ms = 60000,
        pd_max_active_windows = 100, pd_rpc_requests_per_second = 10, pd_rpc_max_in_flight = 4,
        pd_rpc_request_timeout_ms = 10000, pd_rpc_rate_limit_cooldown_ms = 1000\<rparr>,
      pc_collector_run_id = ''run''\<rparr>"

lemma example_processing:
  "\<exists>e. process_batch example_codecs refusing_database config run_batch example_state = (Inl e, example_state)"
proof -
  have "record_pipeline_quarantine example_codecs refusing_database n program q st
      = (Inl (PipelinePersistence (DatabaseError ())), st)" for n program q and st :: "collector_system processor_state"
    by (cases st) (simp add: record_pipeline_quarantine_def exec_bind_def await_def refusing_database_def refuse_def map_err_def)
  then show ?thesis
    using example_decode
    by (auto simp: process_batch_def run_batch_fields PUMP_PROGRAMS_def decode_program_def exec_bind_def exec_simps
        map_err_def Let_def)
qed

lemma example_recorded:
  "\<exists>e. process_and_record_batch example_codecs refusing_database config run_batch example_state
     = (Inl e, example_state\<lparr>pr_windows := run_lost\<rparr>)"
  using example_processing [of config] by (auto simp: process_and_record_batch_def run_lost_def example_state_def)

lemma example_finished: "finished run_batch (example_view (example_state\<lparr>pr_windows := run_lost\<rparr>)) = run_at run_lost"
  by (simp add: finished_def example_view_def with_windows_def example_state_def run_processing_def run_at_def
      example_system_def)

theorem batch_processing_refines_witness:
  "collector_steps active_decode run_processing (run_at run_lost)"
proof -
  let ?c = example_pipeline
  obtain e where run: "process_and_record_batch example_codecs refusing_database ?c run_batch example_state
      = (Inl e, example_state\<lparr>pr_windows := run_lost\<rparr>)" using example_recorded by blast
  have "run_batch \<in> set (cs_processing (example_view example_state))" by (simp add: run_processing_def)
  from batch_processing_refines [OF example_views refusing_interleaves this run] show ?thesis
    unfolding example_finished by simp
qed


text \<open>A discovery whose transaction failed: its provisional window is cancelled.\<close>

definition failed_discovery :: program_log_batch where
  "failed_discovery = run_batch\<lparr>batch_purpose_of := Discovery, batch_transaction_error := Some ''failed''\<rparr>"

theorem discovery_resolves_windows_witness:
  "\<exists>out st'. process_batch example_codecs refusing_database example_pipeline failed_discovery
       (example_state\<lparr>pr_windows := run_open\<rparr>) = (Inr out, st')
     \<and> token_status (cell_of (pr_windows st') run_token) \<noteq> WindowPending"
proof -
  obtain out st' where run: "process_batch example_codecs refusing_database example_pipeline failed_discovery
       (example_state\<lparr>pr_windows := run_open\<rparr>) = (Inr out, st')"
    by (auto simp: process_batch_def failed_discovery_def exec_bind_def exec_simps exec_windows_def Let_def)
  from discovery_resolves_windows [OF run] have "token_status (cell_of (pr_windows st') run_token) \<noteq> WindowPending"
    by (simp add: failed_discovery_def run_batch_fields)
  with run show ?thesis by blast
qed

end
