(* ===== verification/Pipeline_Correct.thy ===== *)
theory Pipeline_Correct
  imports Pipeline Batch_Process_Correct
begin

text \<open>
  The pipeline around the batches: the published status reads back to the history of the updates,
  the supervisor stops exactly where it should and waits as long as it should, a restart finds every
  market the database knows, saved settings never make a constructor panic, and the flow counts the
  observations of the last minute.
\<close>

section \<open>The status and the history of updates\<close>

datatype stream_update =
    FromSource source_connection_update
  | FromRpc discovery_rpc_health_update

fun signal_of :: "stream_update \<Rightarrow> ('x, 'j) pipeline_signal" where
  "signal_of (FromSource u) = SignalConnection (Some u)"
| "signal_of (FromRpc u) = SignalHealth (Some u)"

fun states_of :: "source_program \<Rightarrow> stream_update list \<Rightarrow> source_connection_state list" where
  "states_of p [] = []"
| "states_of p (FromSource u # us) = (if update_source_program u = p then [update_state u] else []) @ states_of p us"
| "states_of p (FromRpc _ # us) = states_of p us"

fun rpc_history :: "stream_update list \<Rightarrow> discovery_rpc_health_update list" where
  "rpc_history [] = []"
| "rpc_history (FromSource _ # us) = rpc_history us"
| "rpc_history (FromRpc h # us) = h # rpc_history us"

definition source_ready :: "source_program \<Rightarrow> stream_update list \<Rightarrow> bool" where
  "source_ready p us \<longleftrightarrow> states_of p us \<noteq> [] \<and> last (states_of p us) = Ready"

definition was_ready :: "source_program \<Rightarrow> stream_update list \<Rightarrow> bool" where
  "was_ready p us \<longleftrightarrow> Ready \<in> set (states_of p us)"

definition both_ready :: "stream_update list \<Rightarrow> bool" where
  "both_ready us \<longleftrightarrow> source_ready SourcePump us \<and> source_ready SourcePumpSwap us"

text \<open>An update after the history \<open>us\<close> that means a source was lost.\<close>

definition is_loss :: "stream_update list \<Rightarrow> stream_update \<Rightarrow> bool" where
  "is_loss us x \<longleftrightarrow>
     (case x of
        FromSource u \<Rightarrow> update_state u = Disconnected
          \<or> update_state u = Connecting \<and> was_ready (update_source_program u) us
      | FromRpc _ \<Rightarrow> False)"

text \<open>A source was lost and the two sources have not been ready together since.\<close>

definition lost :: "stream_update list \<Rightarrow> bool" where
  "lost us \<longleftrightarrow>
     (\<exists>xs x ys. us = xs @ x # ys \<and> is_loss xs x
        \<and> (\<forall>zs zs'. ys = zs @ zs' \<longrightarrow> \<not> both_ready (xs @ x # zs)))"

text \<open>The failures since the RPC last answered, where being rate limited counts as three of them.\<close>

definition failure_count :: "stream_update list \<Rightarrow> nat" where
  "failure_count us =
     (let hs = rev (rpc_history us) in
      length (takeWhile (\<lambda>h. h = HealthFailed) hs)
      + (case dropWhile (\<lambda>h. h = HealthFailed) hs of HealthRateLimited # _ \<Rightarrow> 3 | _ \<Rightarrow> 0))"

definition status_spec :: "stream_update list \<Rightarrow> stream_status" where
  "status_spec us =
     (if both_ready us \<and> failure_count us < 3 then StatusRunning
      else if lost us \<or> 3 \<le> failure_count us then StatusDegraded
      else StatusStarting)"

lemma history_append [simp]:
  "states_of p (us @ vs) = states_of p us @ states_of p vs" "rpc_history (us @ vs) = rpc_history us @ rpc_history vs"
  by (induction us rule: rpc_history.induct) simp_all

lemma source_ready_snoc [simp]:
  "source_ready p (us @ [FromSource u]) \<longleftrightarrow> (if update_source_program u = p then update_state u = Ready else source_ready p us)"
  "source_ready p (us @ [FromRpc h]) \<longleftrightarrow> source_ready p us"
  by (simp_all add: source_ready_def)

lemma was_ready_snoc [simp]:
  "was_ready p (us @ [FromSource u]) \<longleftrightarrow> was_ready p us \<or> update_source_program u = p \<and> update_state u = Ready"
  "was_ready p (us @ [FromRpc h]) \<longleftrightarrow> was_ready p us"
  by (auto simp: was_ready_def)

lemma failure_count_snoc [simp]:
  "failure_count (us @ [FromSource u]) = failure_count us"
  "failure_count (us @ [FromRpc HealthFailed]) = Suc (failure_count us)"
  "failure_count (us @ [FromRpc HealthSuccessful]) = 0" "failure_count (us @ [FromRpc HealthRateLimited]) = 3"
  by (simp_all add: failure_count_def Let_def)

lemma lost_not_ready: "lost us \<Longrightarrow> \<not> both_ready us"
  unfolding lost_def by (metis append_Nil2)

lemma lost_snoc: "lost (us @ [x]) \<longleftrightarrow> \<not> both_ready (us @ [x]) \<and> (lost us \<or> is_loss us x)"
proof
  assume "lost (us @ [x])"
  then obtain xs y ys where split: "us @ [x] = xs @ y # ys" "is_loss xs y"
      "\<And>zs zs'. ys = zs @ zs' \<Longrightarrow> \<not> both_ready (xs @ y # zs)"
    unfolding lost_def by blast
  have "\<not> both_ready (us @ [x])" using split(3) [of ys "[]"] split(1) by simp
  moreover have "lost us \<or> is_loss us x"
  proof (cases ys rule: rev_cases)
    case Nil
    then show ?thesis using split(1,2) by simp
  next
    case (snoc ys' y')
    then have us: "us = xs @ y # ys'" using split(1) by simp
    have "\<not> both_ready (xs @ y # zs)" if "ys' = zs @ zs'" for zs zs'
      using split(3) [of zs "zs' @ [y']"] snoc that by simp
    then show ?thesis using us split(2) unfolding lost_def by blast
  qed
  ultimately show "\<not> both_ready (us @ [x]) \<and> (lost us \<or> is_loss us x)" ..
next
  assume asm: "\<not> both_ready (us @ [x]) \<and> (lost us \<or> is_loss us x)"
  show "lost (us @ [x])"
  proof (cases "is_loss us x")
    case True
    then show ?thesis using asm unfolding lost_def by (intro exI [of _ us] exI [of _ x] exI [of _ "[]"]) simp
  next
    case False
    then obtain xs y ys where split: "us = xs @ y # ys" "is_loss xs y"
        "\<And>zs zs'. ys = zs @ zs' \<Longrightarrow> \<not> both_ready (xs @ y # zs)"
      using asm unfolding lost_def by blast
    have "\<not> both_ready (xs @ y # zs)" if "ys @ [x] = zs @ zs'" for zs zs'
    proof (cases zs' rule: rev_cases)
      case Nil
      then show ?thesis using that asm split(1) by simp
    next
      case (snoc ws w)
      then show ?thesis using that split(3) [of zs ws] by simp
    qed
    then show ?thesis using split(1,2) unfolding lost_def
      by (intro exI [of _ xs] exI [of _ y] exI [of _ "ys @ [x]"]) simp
  qed
qed

fun on_update :: "stream_update \<Rightarrow> pipeline_loop \<Rightarrow> pipeline_loop" where
  "on_update (FromSource u) = on_connection_update u"
| "on_update (FromRpc h) = on_health_update h"

lemma loop_updates: "run_pipeline_loop (map signal_of us) s = (None, fold on_update us s)"
proof (induction us arbitrary: s)
  case (Cons u us)
  then show ?case by (cases u) simp_all
qed simp

definition status_inv :: "stream_update list \<Rightarrow> pipeline_loop \<Rightarrow> bool" where
  "status_inv us s \<longleftrightarrow>
     pl_ready_sources s = {p. source_ready p us} \<and> pl_sources_ready_once s = {p. was_ready p us}
     \<and> pl_connection_failed s = lost us \<and> unat (pl_rpc_failures s) = min (2 ^ 32 - 1) (failure_count us)
     \<and> (us \<noteq> [] \<longrightarrow> pl_status s = status_spec us)"

lemma status_inv_new: "status_inv [] (pipeline_loop_new r status)"
  by (simp add: status_inv_def pipeline_loop_new_def source_ready_def was_ready_def lost_def failure_count_def)

lemma all_sources_ready_iff: "pl_ready_sources s = {p. source_ready p us} \<Longrightarrow> all_sources_ready s \<longleftrightarrow> both_ready us"
  by (simp add: all_sources_ready_def both_ready_def)

lemma published:
  assumes "pl_ready_sources s = {p. source_ready p us}" and "pl_connection_failed s = lost us"
    and "unat (pl_rpc_failures s) = min (2 ^ 32 - 1) (failure_count us)"
  shows "pl_status (publish_status s) = status_spec us"
  using assms all_sources_ready_iff [OF assms(1)]
  by (auto simp: publish_status_def stream_status_of_def status_spec_def Let_def word_le_nat_alt
      DISCOVERY_RPC_FAILURES_BEFORE_DEGRADED_def)

lemma publish_fields [simp]:
  "pl_ready_sources (publish_status s) = pl_ready_sources s"
  "pl_sources_ready_once (publish_status s) = pl_sources_ready_once s"
  "pl_connection_failed (publish_status s) = pl_connection_failed s"
  "pl_rpc_failures (publish_status s) = pl_rpc_failures s"
  by (simp_all add: publish_status_def)

lemma status_inv_source:
  assumes "status_inv us s"
  shows "status_inv (us @ [FromSource u]) (on_connection_update u s)"
proof -
  let ?us = "us @ [FromSource u]" and ?s1 = "apply_connection_state u s"
  let ?s2 = "if all_sources_ready ?s1 then ?s1\<lparr>pl_connection_failed := False\<rparr> else ?s1"
  have s1: "pl_ready_sources ?s1 = {p. source_ready p ?us}" "pl_sources_ready_once ?s1 = {p. was_ready p ?us}"
    "pl_rpc_failures ?s1 = pl_rpc_failures s" "pl_connection_failed ?s1 = (lost us \<or> is_loss us (FromSource u))"
    using assms
    by (cases "update_state u"; auto simp: apply_connection_state_def Let_def status_inv_def is_loss_def split: if_splits)+
  have "pl_connection_failed ?s2 = lost ?us"
    using all_sources_ready_iff [OF s1(1)] s1(4) by (simp add: lost_snoc)
  moreover have "pl_ready_sources ?s2 = {p. source_ready p ?us}" "pl_sources_ready_once ?s2 = {p. was_ready p ?us}"
    "unat (pl_rpc_failures ?s2) = min (2 ^ 32 - 1) (failure_count ?us)"
    using s1 assms by (simp_all add: status_inv_def)
  ultimately show ?thesis
    using published [of ?s2 ?us] unfolding status_inv_def on_connection_update_def Let_def publish_fields by simp
qed

lemma unat_saturating_add_u32: "unat (saturating_add_u32 a 1) = min (2 ^ 32 - 1) (unat a + 1)"
proof -
  have "unat a < 2 ^ 32" using unat_bound [of a] by simp
  moreover have "unat (- 1 :: u32) = 2 ^ 32 - 1" by (simp add: unsigned_minus_1_eq_mask mask_eq_exp_minus_1)
  moreover have "unat (a + 1) = unat a + 1" if "unat a + 1 < 2 ^ 32"
    using that by (subst unat_add_lem [THEN iffD1]) simp_all
  ultimately show ?thesis by (simp add: saturating_add_u32_def checked_add_word_def)
qed

lemma status_inv_rpc:
  assumes "status_inv us s"
  shows "status_inv (us @ [FromRpc h]) (on_health_update h s)"
proof -
  let ?us = "us @ [FromRpc h]"
  have same: "both_ready ?us = both_ready us" "lost ?us = lost us"
    using lost_not_ready [of us] by (auto simp: both_ready_def lost_snoc is_loss_def)
  have "unat (case h of HealthSuccessful \<Rightarrow> 0 | HealthFailed \<Rightarrow> saturating_add_u32 (pl_rpc_failures s) 1
      | HealthRateLimited \<Rightarrow> DISCOVERY_RPC_FAILURES_BEFORE_DEGRADED) = min (2 ^ 32 - 1) (failure_count ?us)"
    using assms
    by (cases h) (auto simp: status_inv_def unat_saturating_add_u32 DISCOVERY_RPC_FAILURES_BEFORE_DEGRADED_def)
  then show ?thesis
    using assms published [of "s\<lparr>pl_rpc_failures := case h of HealthSuccessful \<Rightarrow> 0
        | HealthFailed \<Rightarrow> saturating_add_u32 (pl_rpc_failures s) 1
        | HealthRateLimited \<Rightarrow> DISCOVERY_RPC_FAILURES_BEFORE_DEGRADED\<rparr>" ?us] same
    unfolding status_inv_def on_health_update_def publish_fields by simp
qed

lemma status_inv_updates: "status_inv us (fold on_update us (pipeline_loop_new r status))"
proof (induction us rule: rev_induct)
  case (snoc u us)
  then show ?case by (cases u) (simp_all add: status_inv_source status_inv_rpc)
qed (simp add: status_inv_new)

text \<open>
  The status of the stream says what happened. After any history of updates of the sources and
  of the discovery RPC, the stream is RUNNING exactly when the latest state of both sources is ready
  and the RPC is healthy; otherwise it is DEGRADED exactly when the RPC is not healthy or a source
  was lost and the two have not been ready together since, and STARTING in the remaining case. The
  RPC is not healthy when it failed three times since it last answered, or was rate limited since.
\<close>

theorem stream_status_exact:
  assumes "us \<noteq> []"
  shows "\<exists>s. run_pipeline_loop (map signal_of us) (pipeline_loop_new r status) = (None, s)
    \<and> pl_status s = (if both_ready us \<and> failure_count us < 3 then StatusRunning
                      else if lost us \<or> 3 \<le> failure_count us then StatusDegraded else StatusStarting)"
  using status_inv_updates [of us r status] assms unfolding loop_updates status_inv_def status_spec_def by simp

section \<open>Supervision\<close>

definition attempt_error :: "network \<Rightarrow> ('x, 'j) pipeline_attempt \<Rightarrow> ('x, 'j) pipeline_error" where
  "attempt_error n a =
     (case attempt_result n a of Inr _ \<Rightarrow> UnexpectedTaskExit ''pipeline-attempt'' | Inl e \<Rightarrow> e)"

definition cancelled_at :: "('x, 'j) pipeline_attempt \<Rightarrow> bool" where
  "cancelled_at a \<longleftrightarrow> at_cancelled_before a \<or> at_cancelled_after a"

text \<open>After the attempt the supervisor waits and makes another one.\<close>

definition restarts :: "network \<Rightarrow> ('x, 'j) pipeline_attempt \<Rightarrow> bool" where
  "restarts n a \<longleftrightarrow>
     \<not> cancelled_at a \<and> pipeline_error_is_retryable (attempt_error n a) \<and> \<not> at_cancelled_waiting a"

definition stops_with :: "network \<Rightarrow> ('x, 'j) pipeline_attempt \<Rightarrow> (('x, 'j) pipeline_error, unit) result" where
  "stops_with n a =
     (if \<not> cancelled_at a \<and> \<not> pipeline_error_is_retryable (attempt_error n a) then Inl (attempt_error n a) else Inr ())"

lemma supervised_restart:
  assumes "restarts n a"
  shows "sup_outcome (run_supervised_pipeline n first d (a # as)) = sup_outcome (run_supervised_pipeline n False (next_restart_delay d) as)"
    and "sup_waits (run_supervised_pipeline n first d (a # as)) = d # sup_waits (run_supervised_pipeline n False (next_restart_delay d) as)"
    and "StatusError \<in> set (sup_statuses (run_supervised_pipeline n first d (a # as)))
      \<longleftrightarrow> StatusError \<in> set (sup_statuses (run_supervised_pipeline n False (next_restart_delay d) as))"
  using assms
  by (simp_all add: restarts_def cancelled_at_def attempt_error_def [symmetric] emit_def Let_def)

lemma supervised_stop:
  assumes "\<not> restarts n a"
  shows "sup_outcome (run_supervised_pipeline n first d (a # as)) = Some (stops_with n a)"
    and "StatusError \<in> set (sup_statuses (run_supervised_pipeline n first d (a # as))) \<longleftrightarrow> (\<exists>e. stops_with n a = Inl e)"
    and "length (sup_waits (run_supervised_pipeline n first d (a # as))) \<le> 1"
    and "\<forall>w\<in>set (sup_waits (run_supervised_pipeline n first d (a # as))). w = d"
  using assms
  by (auto simp: restarts_def cancelled_at_def stops_with_def attempt_error_def [symmetric] emit_def Let_def)

lemma supervised_outcome:
  "sup_outcome (run_supervised_pipeline n first d as) =
     map_option (stops_with n) (find (\<lambda>a. \<not> restarts n a) as)"
proof (induction as arbitrary: first d)
  case (Cons a as)
  then show ?case by (cases "restarts n a") (simp_all only: supervised_restart supervised_stop find.simps if_True if_False not_not option.map not_False_eq_True simp_thms)
qed simp

lemma supervised_error:
  "StatusError \<in> set (sup_statuses (run_supervised_pipeline n first d as)) \<longleftrightarrow>
     (\<exists>a e. find (\<lambda>a. \<not> restarts n a) as = Some a \<and> stops_with n a = Inl e)"
proof (induction as arbitrary: first d)
  case (Cons a as)
  show ?case
  proof (cases "restarts n a")
    case True
    with Cons show ?thesis unfolding supervised_restart(3) [OF True] by simp
  next
    case False
    then show ?thesis unfolding supervised_stop(2) [OF False] by simp
  qed
qed simp

lemma next_restart_delay_power: "next_restart_delay (min (2 ^ k * 1000) 30000) = min (2 ^ Suc k * 1000) 30000"
  by (simp add: next_restart_delay_def PIPELINE_RESTART_MAX_DELAY_def min_def)

lemma supervised_waits:
  assumes "d = min (2 ^ k * 1000) 30000"
  shows "sup_waits (run_supervised_pipeline n first d as) =
    map (\<lambda>i. min (2 ^ (k + i) * 1000) 30000) [0..<length (sup_waits (run_supervised_pipeline n first d as))]"
  using assms
proof (induction as arbitrary: first d k)
  case (Cons a as)
  show ?case
  proof (cases "restarts n a")
    case True
    have "next_restart_delay d = min (2 ^ Suc k * 1000) 30000" unfolding Cons.prems by (rule next_restart_delay_power)
    note IH = Cons.IH [OF this, of False]
    let ?ws = "sup_waits (run_supervised_pipeline n False (next_restart_delay d) as)"
    have "d # ?ws = map (\<lambda>i. min (2 ^ (k + i) * 1000) 30000) (0 # map Suc [0..<length ?ws])"
      using IH Cons.prems by (simp add: comp_def)
    then show ?thesis
      unfolding supervised_restart(2) [OF True] map_Suc_upt list.size add_Suc_right add_0_right
      by (metis upt_conv_Cons zero_less_Suc)
  next
    case False
    have "length ws \<le> 1 \<Longrightarrow> \<forall>w\<in>set ws. w = d \<Longrightarrow> ws = map (\<lambda>i. min (2 ^ (k + i) * 1000) 30000) [0..<length ws]" for ws
      using Cons.prems by (cases ws) auto
    then show ?thesis using supervised_stop(3,4) [OF False] by blast
  qed
qed simp

text \<open>
  C34: the supervisor stops when it should and only then. Over any sequence of attempts it goes on
  past every attempt that fails with a retryable error and is not cancelled, and stops at the first
  other one: with success when it was cancelled, and with the error when the error must not be
  retried (the storage limit is reached, or the RPC serves another network). The status ERROR is
  published exactly in the last case. The waits in between are one second, then twice the last one,
  and never more than thirty seconds.
\<close>

theorem supervision_exact:
  "let out = run_supervised_pipeline n True PIPELINE_RESTART_INITIAL_DELAY as in
     sup_outcome out = map_option (stops_with n) (find (\<lambda>a. \<not> restarts n a) as)
     \<and> (StatusError \<in> set (sup_statuses out) \<longleftrightarrow> (\<exists>e. sup_outcome out = Some (Inl e)))
     \<and> sup_waits out = map (\<lambda>i. min (2 ^ i * 1000) 30000) [0..<length (sup_waits out)]"
proof -
  have d: "PIPELINE_RESTART_INITIAL_DELAY = min (2 ^ 0 * 1000) 30000" by (simp add: PIPELINE_RESTART_INITIAL_DELAY_def)
  show ?thesis
    unfolding Let_def supervised_outcome supervised_error
    using supervised_waits [OF d, of n True as, unfolded add_0] by (auto simp: map_option_case split: option.split)
qed

section \<open>Hydration\<close>

lemma find_unique:
  assumes "y \<in> set xs" and "P y" and "\<And>x. x \<in> set xs \<Longrightarrow> P x \<Longrightarrow> x = y"
  shows "find P xs = Some y"
proof (cases "find P xs")
  case None
  with assms(1,2) show ?thesis by (simp add: find_None_iff)
next
  case (Some x)
  then have "x \<in> set xs" "P x" by (auto simp: find_Some_iff)
  with assms(3) Some show ?thesis by blast
qed

definition pool_market :: "pump_swap_pool_row \<Rightarrow> registered_market option" where
  "pool_market p =
     map_option (\<lambda>pair. \<lparr>reg_identity = pump_swap_market_identity (swap_pool_network p) (swap_pool_address p) pair,
         reg_orientation = Some (pair_source_orientation pair)\<rparr>)
       (normalize_pump_swap_pair (swap_pool_network p) (swap_pool_base_mint p) (swap_pool_quote_mint p))"

lemma register_all_curves:
  assumes "\<forall>m\<in>set ms. venue m = VenuePumpBondingCurve" and "\<not> registry_poisoned reg"
  shows "register_all ms reg = (Inr (), reg\<lparr>markets :=
    fold (\<lambda>m f. f(LookupPumpMint (mint m) \<mapsto> \<lparr>reg_identity = m, reg_orientation = None\<rparr>)) ms (markets reg)\<rparr>)"
  using assms by (induction ms arbitrary: reg) (simp_all add: register_def markets_insert_def)

definition add_pool ::
    "pump_swap_pool_row \<Rightarrow> (market_lookup_key \<Rightarrow> registered_market option) \<Rightarrow> market_lookup_key \<Rightarrow> registered_market option" where
  "add_pool p f = (case pool_market p of None \<Rightarrow> f | Some m \<Rightarrow> f(LookupPumpSwapPool (swap_pool_address p) \<mapsto> m))"

lemma register_pools_all:
  assumes "\<not> registry_poisoned reg"
  shows "register_pools ps reg = Inr (reg\<lparr>markets := fold add_pool ps (markets reg)\<rparr>)"
  using assms
  by (induction ps arbitrary: reg)
     (simp_all add: register_pump_swap_pool_def markets_insert_def add_pool_def pool_market_def Let_def split: option.split)

lemma fold_curves_lookup:
  "fold (\<lambda>m f. f(LookupPumpMint (mint m) \<mapsto> \<lparr>reg_identity = m, reg_orientation = None\<rparr>)) ms f (LookupPumpMint x) =
     (case find (\<lambda>m. mint m = x) (rev ms) of
        None \<Rightarrow> f (LookupPumpMint x) | Some m \<Rightarrow> Some \<lparr>reg_identity = m, reg_orientation = None\<rparr>)"
  by (induction ms rule: rev_induct) (auto split: option.split)

lemma fold_pools_other: "fold add_pool ps f (LookupPumpMint x) = f (LookupPumpMint x)"
  by (induction ps rule: rev_induct) (simp_all add: add_pool_def split: option.split)

lemma fold_curves_other:
  "fold (\<lambda>m f. f(LookupPumpMint (mint m) \<mapsto> \<lparr>reg_identity = m, reg_orientation = None\<rparr>)) ms f (LookupPumpSwapPool x)
     = f (LookupPumpSwapPool x)"
  by (induction ms rule: rev_induct) simp_all

lemma fold_pools_lookup:
  assumes "distinct (map swap_pool_address ps)"
  shows "fold add_pool ps f (LookupPumpSwapPool x) =
    (case find (\<lambda>p. swap_pool_address p = x) ps of
       None \<Rightarrow> f (LookupPumpSwapPool x)
     | Some p \<Rightarrow> (case pool_market p of None \<Rightarrow> f (LookupPumpSwapPool x) | Some m \<Rightarrow> Some m))"
  using assms
proof (induction ps arbitrary: f)
  case (Cons p ps)
  have "find (\<lambda>q. swap_pool_address q = x) ps = None" if "swap_pool_address p = x"
    using Cons.prems that by (auto simp: find_None_iff image_iff)
  then show ?case using Cons by (auto simp: add_pool_def split: option.split)
qed simp

text \<open>
  A restart finds every market again. From whatever the database lists, the registry is built
  without an error; afterwards a mint resolves to the bonding curve listed for it, and a pool
  resolves to its token, its quote asset and the orientation of its pair exactly when its pair has
  one supported quote asset, just as when its creation was first processed.
\<close>

theorem hydration_complete:
  assumes "distinct (map mint (filter (\<lambda>m. venue m = VenuePumpBondingCurve) ms))"
    and "distinct (map swap_pool_address ps)"
  shows "\<exists>reg. hydrate_market_registry (Inr ms) (Inr ps) = (Inr reg :: (('x, 'j) pipeline_error, market_registry) result)
    \<and> (\<forall>m\<in>set ms. venue m = VenuePumpBondingCurve \<longrightarrow>
         pump_market reg (mint m) = (Inr m :: ('j normalization_error, market_identity) result))
    \<and> (\<forall>p\<in>set ps. pump_swap_market reg (swap_pool_address p) =
         (ok_or (PumpSwapMarketUnresolved (swap_pool_address p)) (pool_market p)
            :: ('j normalization_error, registered_market) result))"
proof -
  let ?cs = "filter (\<lambda>m. venue m = VenuePumpBondingCurve) ms"
  let ?f = "fold add_pool ps (fold (\<lambda>m f. f(LookupPumpMint (mint m) \<mapsto> \<lparr>reg_identity = m, reg_orientation = None\<rparr>))
      ?cs (\<lambda>_. None))"
  let ?reg = "\<lparr>markets = ?f, registry_poisoned = False\<rparr>"
  have "hydrate_market_registry (Inr ms) (Inr ps) = (Inr ?reg :: (('x, 'j) pipeline_error, market_registry) result)"
    by (simp add: hydrate_market_registry_def map_err_def register_all_curves register_pools_all market_registry_default_def)
  moreover have "pump_market ?reg (mint m) = (Inr m :: ('j normalization_error, market_identity) result)"
    if "m \<in> set ms" "venue m = VenuePumpBondingCurve" for m
  proof -
    have "find (\<lambda>m'. mint m' = mint m) (rev ?cs) = Some m"
    proof (rule find_unique)
      show "m \<in> set (rev ?cs)" using that by simp
      show "x = m" if "x \<in> set (rev ?cs)" "mint x = mint m" for x
        using that \<open>m \<in> set ms\<close> \<open>venue m = VenuePumpBondingCurve\<close> assms(1) by (auto simp: distinct_map dest: inj_onD)
    qed simp
    then show ?thesis by (simp add: pump_market_def ok_or_def fold_pools_other fold_curves_lookup)
  qed
  moreover have "pump_swap_market ?reg (swap_pool_address p) =
      (ok_or (PumpSwapMarketUnresolved (swap_pool_address p)) (pool_market p) :: ('j normalization_error, _) result)"
    if "p \<in> set ps" for p
  proof -
    have "find (\<lambda>q. swap_pool_address q = swap_pool_address p) ps = Some p"
    proof (rule find_unique [OF that])
      show "x = p" if "x \<in> set ps" "swap_pool_address x = swap_pool_address p" for x
        using that \<open>p \<in> set ps\<close> assms(2) by (auto simp: distinct_map dest: inj_onD)
    qed simp
    then show ?thesis
      by (simp add: pump_swap_market_def fold_pools_lookup [OF assms(2)] fold_curves_other split: option.split)
  qed
  ultimately show ?thesis by blast
qed

section \<open>Settings\<close>

text \<open>
  Saved settings never make a constructor panic. For every set of prefilter values that passes
  validation, and a queue that holds at least one batch, the window registry, the discovery RPC gate
  and the holding queue of a pipeline with these settings can be built: none of the assertions in
  their constructors fails. The settings change the admission fields and nothing else.
\<close>

theorem saved_settings_accepted:
  assumes "prefilter_validate (sp_values stored) = Inr ()" and "0 < pc_queue_capacity config"
  defines "c \<equiv> with_prefilter_defaults config stored"
  shows "registry_new (pc_maximum_active_windows c) \<noteq> None \<and> config_discovery_rpc_gate c \<noteq> None
    \<and> processor_loop_new c st \<noteq> None
    \<and> pc_queue_capacity c = pc_queue_capacity config \<and> pc_maintenance c = pc_maintenance config
    \<and> col_network (pc_collector c) = col_network (pc_collector config)
    \<and> reconnect_delay (pc_collector c) = reconnect_delay (pc_collector config)"
proof -
  note bounds = assms(1) [unfolded prefilter_validate_Inr]
  have "registry_new (pc_maximum_active_windows c) \<noteq> None"
    using bounds by (auto simp: registry_new_def c_def with_prefilter_defaults_def Let_def)
  moreover have "config_discovery_rpc_gate c \<noteq> None"
    using bounds
    by (auto simp: config_discovery_rpc_gate_def gate_new_def c_def with_prefilter_defaults_def Let_def
        NANOS_PER_MILLI_def)
  moreover have "processor_loop_new c st \<noteq> None"
    using bounds assms(2)
    by (auto simp: processor_loop_new_def pending_queue_new_def c_def with_prefilter_defaults_def Let_def)
  ultimately show ?thesis by (simp add: c_def with_prefilter_defaults_def Let_def)
qed

section \<open>The flow of observations\<close>

lemma dropWhile_sorted: "sorted xs \<Longrightarrow> dropWhile (\<lambda>x. x < c) xs = filter (\<lambda>x. c \<le> x) (xs :: nat list)"
proof (induction xs)
  case (Cons x xs)
  show ?case
  proof (cases "x < c")
    case False
    then have "\<forall>y\<in>set xs. c \<le> y" using Cons.prems by auto
    with False show ?thesis by simp
  qed (use Cons in simp)
qed simp

lemma prune_flow_exact:
  assumes "sorted xs" and "FLOW_WINDOW \<le> now"
  shows "prune_flow now xs = filter (\<lambda>x. now \<le> x + FLOW_WINDOW) xs"
proof -
  have "(now - FLOW_WINDOW \<le> x) = (now \<le> x + FLOW_WINDOW)" for x by linarith
  then show ?thesis using assms unfolding prune_flow_def Let_def dropWhile_sorted [OF assms(1)] by (simp cong: filter_cong)
qed

lemma flow_tick_exact:
  assumes "sorted (lp_recent s)" and "FLOW_WINDOW \<le> now" and "length (lp_recent s) < 2 ^ 64"
    and "on_flow_tick now set_flow s = (Inr published, s')"
  shows "lp_flow s' = Some (of_nat (length (filter (\<lambda>x. now \<le> x + FLOW_WINDOW) (lp_recent s))))"
proof -
  have "length (filter (\<lambda>x. now \<le> x + FLOW_WINDOW) (lp_recent s)) < 2 ^ 64"
    using assms(3) length_filter_le le_less_trans by blast
  then show ?thesis
    using assms(4) prune_flow_exact [OF assms(1,2)]
    by (auto simp: on_flow_tick_def Let_def split: if_splits sum.splits)
qed

section \<open>Concrete histories\<close>

definition example_history :: "stream_update list" where
  "example_history =
     [FromSource \<lparr>update_source_program = SourcePump, update_state = Ready\<rparr>,
      FromSource \<lparr>update_source_program = SourcePumpSwap, update_state = Ready\<rparr>, FromRpc HealthFailed]"

theorem stream_status_exact_witness:
  "\<exists>s. run_pipeline_loop (map signal_of example_history :: (unit, unit) pipeline_signal list)
       (pipeline_loop_new ex_new StatusStarting) = (None, s)
     \<and> pl_status s = StatusRunning"
proof -
  have "both_ready example_history \<and> failure_count example_history < 3"
    by (simp add: example_history_def both_ready_def source_ready_def failure_count_def)
  then show ?thesis using stream_status_exact [of example_history] by (simp add: example_history_def)
qed

definition example_pool :: pump_swap_pool_row where
  "example_pool = \<lparr>swap_pool_network = SolanaMainnet, swap_pool_address = ''P'', swap_pool_base_mint = ''T'',
     swap_pool_quote_mint = WRAPPED_SOL_MINT, swap_pool_observed_slot = 7, swap_pool_observed_signature = ''S''\<rparr>"

theorem hydration_complete_witness:
  "\<exists>reg. hydrate_market_registry (Inr []) (Inr [example_pool]) = (Inr reg :: ((unit, unit) pipeline_error, _) result)
     \<and> pump_swap_market reg ''P'' = (Inr \<lparr>reg_identity = \<lparr>market_network = SolanaMainnet, mint = ''T'',
         venue = VenuePumpSwap, market_address = ''P'', quote_mint = Some WRAPPED_SOL_MINT\<rparr>,
         reg_orientation = Some BaseIsToken\<rparr> :: (unit normalization_error, registered_market) result)"
  using hydration_complete [of "[]" "[example_pool]", where 'x = unit and 'j = unit]
  by (auto simp: example_pool_def pool_market_def normalize_pump_swap_pair_def is_supported_quote_mint_def
      NATIVE_SOL_MINT_def WRAPPED_SOL_MINT_def CANONICAL_USDC_MINT_def pump_swap_market_identity_def ok_or_def)

definition example_stored :: stored_prefilter_defaults where
  "example_stored = \<lparr>sp_values = \<lparr>pd_max_event_age_ms = 60000, pd_observation_window_ms = 60000,
        pd_max_active_windows = 100, pd_rpc_requests_per_second = 10, pd_rpc_max_in_flight = 4,
        pd_rpc_request_timeout_ms = 10000, pd_rpc_rate_limit_cooldown_ms = 1000\<rparr>, sp_revision = 2\<rparr>"

theorem saved_settings_accepted_witness:
  "prefilter_validate (sp_values example_stored) = Inr () \<and> 0 < pc_queue_capacity example_pipeline
     \<and> config_discovery_rpc_gate (with_prefilter_defaults example_pipeline example_stored) \<noteq> None"
proof -
  have valid: "prefilter_validate (sp_values example_stored) = Inr ()" "0 < pc_queue_capacity example_pipeline"
    unfolding prefilter_validate_Inr by (simp_all add: example_stored_def example_pipeline_def)
  show ?thesis using saved_settings_accepted [OF valid] valid by blast
qed

end
