(* ===== verification/Finalizer.thy ===== *)
theory Finalizer
  imports Batch_Process
begin

text \<open>
  The worker that finalizes windows, \<open>apps/server/src/jobs/qualification.rs\<close>. As in the batch
  processor, a call that is awaited works on the window registry and the world, so that other tasks
  may run meanwhile. Clocks are readings of the world. The event bus is outside of the model.
\<close>

section \<open>The retry schedule\<close>

type_synonym retry_schedule = "i64 \<Rightarrow> instant option"

definition retry_schedule_default :: retry_schedule where
  "retry_schedule_default = (\<lambda>_. None)"

definition is_due :: "retry_schedule \<Rightarrow> i64 \<Rightarrow> instant \<Rightarrow> bool" where
  "is_due s wid now \<longleftrightarrow> (case s wid of None \<Rightarrow> True | Some retry_at \<Rightarrow> retry_at \<le> now)"

definition defer_retry :: "i64 \<Rightarrow> instant \<Rightarrow> nat \<Rightarrow> retry_schedule \<Rightarrow> retry_schedule" where
  "defer_retry wid now delay s = s(wid \<mapsto> now + delay)"

definition clear_retry :: "i64 \<Rightarrow> retry_schedule \<Rightarrow> retry_schedule" where
  "clear_retry wid s = s(wid := None)"

section \<open>Finalizing one window\<close>

definition SHUTDOWN_DRAIN_LIMIT :: nat where
  "SHUTDOWN_DRAIN_LIMIT = 2 * NANOS_PER_SECOND"

definition FINALIZER_RETRY_DELAY :: nat where
  "FINALIZER_RETRY_DELAY = NANOS_PER_SECOND"

definition SHUTDOWN_SLEEP :: nat where
  "SHUTDOWN_SLEEP = 25 * (NANOS_PER_SECOND div 1000)"

text \<open>\<open>sleep_call\<close> is the sleep of \<open>SHUTDOWN_SLEEP\<close> between two rounds of the drain.\<close>

record ('w, 'x, 'v, 'json) finalizer_database =
  load_interrupted_window_ids :: "string \<Rightarrow> ('w, 'x, i64 list) db_call"
  load_active_window_ids :: "string option \<Rightarrow> ('w, 'x, i64 list) db_call"
  load_projection_readiness :: "i64 \<Rightarrow> ('w, 'x, projection_readiness) db_call"
  load_discovery_window :: "i64 \<Rightarrow> ('w, 'x, 'json discovery_window_record) db_call"
  finalize_discovery_window_call :: "'v finalize_discovery_window \<Rightarrow> ('w, 'x, bool) db_call"
  unix_now :: "'w \<Rightarrow> i64"
  instant_now :: "'w \<Rightarrow> instant"
  sleep_call :: "('w, 'x, unit) db_call"

record 'w finalizer_state =
  fz_windows :: registry
  fz_world :: 'w
  fz_retries :: retry_schedule

definition await_call :: "('w, 'x, 'a) db_call \<Rightarrow> ('w finalizer_state, 'x qualification_worker_error, 'a) exec" where
  "await_call call st =
     (case call (fz_windows st, fz_world st) of
        (res, r, w) \<Rightarrow> (map_err QualificationPersistence res, st\<lparr>fz_windows := r, fz_world := w\<rparr>))"

definition terminal_incomplete_reason ::
    "projection_readiness \<Rightarrow> window_incomplete_reason option \<Rightarrow> window_incomplete_reason option" where
  "terminal_incomplete_reason readiness reason =
     (if readiness = OpeningProjectionUnavailable then Some ProcessingFailed else reason)"

definition finalize_one ::
    "('x, 'v) window_json \<Rightarrow> ('w, 'x, 'v, 'json) finalizer_database \<Rightarrow> i64 \<Rightarrow> window_incomplete_reason option
      \<Rightarrow> ('w finalizer_state, 'x qualification_worker_error, bool) exec" where
  "finalize_one j db wid reason =
     exec_bind (await_call (load_discovery_window db wid)) (\<lambda>w.
     exec_bind (exec_gets (\<lambda>st. unix_now db (fz_world st))) (\<lambda>finalized_at.
     exec_bind (exec_result (map_err QualificationPersistence
       (build_discovery_window_finalization j w finalized_at (map_option reason_as_str reason)))) (\<lambda>f.
     await_call (finalize_discovery_window_call db f))))"

text \<open>The errors that mean that the durable evidence has yet to settle.\<close>

fun waits_for_evidence :: "'x qualification_worker_error \<Rightarrow> bool" where
  "waits_for_evidence (QualificationPersistence (DiscoveryWindowProjectionMissing _)) = True"
| "waits_for_evidence (QualificationPersistence (DiscoveryWindowEvidenceChanged _)) = True"
| "waits_for_evidence _ = False"

definition settle_outcome ::
    "('w finalizer_state, 'x qualification_worker_error, bool) exec
      \<Rightarrow> ('w finalizer_state, 'x qualification_worker_error, bool option) exec" where
  "settle_outcome m st =
     (case m st of
        (Inr committed, st') \<Rightarrow> (Inr (Some committed), st')
      | (Inl e, st') \<Rightarrow> (if waits_for_evidence e then Inr None else Inl e, st'))"

definition attempt_finalize_window ::
    "('x, 'v) window_json \<Rightarrow> ('w, 'x, 'v, 'json) finalizer_database \<Rightarrow> i64 \<Rightarrow> window_incomplete_reason option
      \<Rightarrow> ('w finalizer_state, 'x qualification_worker_error, bool option) exec" where
  "attempt_finalize_window j db wid reason =
     exec_bind (await_call (load_projection_readiness db wid)) (\<lambda>readiness.
     if readiness = ReadinessPending then exec_return None
     else settle_outcome (finalize_one j db wid (terminal_incomplete_reason readiness reason)))"

definition finalize_abandoned_windows ::
    "('x, 'v) window_json \<Rightarrow> ('w, 'x, 'v, 'json) finalizer_database \<Rightarrow> string
      \<Rightarrow> ('w finalizer_state, 'x qualification_worker_error, usize) exec" where
  "finalize_abandoned_windows j db run_id =
     exec_bind (await_call (load_interrupted_window_ids db run_id)) (\<lambda>ids.
     exec_fold (\<lambda>wid finalized.
       exec_bind (attempt_finalize_window j db wid (Some PipelineRestarted)) (\<lambda>committed.
       exec_return (if committed = Some True then Suc finalized else finalized))) ids 0)"

section \<open>Finalizing what is ready\<close>

text \<open>
  A claim is dropped when the round of the loop that holds it ends, unless it was committed; an
  error drops it too.
\<close>

definition with_claim ::
    "('x, 'v) window_json \<Rightarrow> ('w, 'x, 'v, 'json) finalizer_database \<Rightarrow> nat \<Rightarrow> i64 \<Rightarrow> finalization_claim \<Rightarrow> usize
      \<Rightarrow> ('w finalizer_state, 'x qualification_worker_error, usize) exec" where
  "with_claim j db delay wid claim finalized st =
     (case attempt_finalize_window j db wid (claim_incomplete_reason claim) st of
        (Inl e, st') \<Rightarrow> (Inl e, st'\<lparr>fz_windows := claim_drop claim (fz_windows st')\<rparr>)
      | (Inr None, st') \<Rightarrow>
          (Inr finalized, st'\<lparr>fz_retries := defer_retry wid (instant_now db (fz_world st')) delay (fz_retries st'),
                             fz_windows := claim_drop claim (fz_windows st')\<rparr>)
      | (Inr (Some committed), st') \<Rightarrow>
          (Inr (if committed then Suc finalized else finalized),
           st'\<lparr>fz_retries := clear_retry wid (fz_retries st'),
               fz_windows := snd (claim_mark_committed claim (fz_windows st'))\<rparr>))"

definition finalize_candidate ::
    "('x, 'v) window_json \<Rightarrow> ('w, 'x, 'v, 'json) finalizer_database \<Rightarrow> nat \<Rightarrow> token \<Rightarrow> usize
      \<Rightarrow> ('w finalizer_state, 'x qualification_worker_error, usize) exec" where
  "finalize_candidate j db delay t finalized st =
     (case cell_durable_window_id (cell_of (fz_windows st) t) of
        None \<Rightarrow> (Inl WindowIdOutOfRange, st)
      | Some wid \<Rightarrow>
          if \<not> is_due (fz_retries st) wid (instant_now db (fz_world st)) then (Inr finalized, st)
          else (case claim_finalization (fz_windows st) t of
                  (None, r) \<Rightarrow> (Inr finalized, st\<lparr>fz_windows := r\<rparr>)
                | (Some claim, r) \<Rightarrow> with_claim j db delay wid claim finalized (st\<lparr>fz_windows := r\<rparr>)))"

definition finalize_ready_tokens ::
    "('x, 'v) window_json \<Rightarrow> ('w, 'x, 'v, 'json) finalizer_database \<Rightarrow> nat
      \<Rightarrow> ('w finalizer_state, 'x qualification_worker_error, usize) exec" where
  "finalize_ready_tokens j db delay st =
     (let (candidates, r) = finalization_candidates (fz_windows st) (unix_now db (fz_world st)) in
      exec_bind (exec_fold (finalize_candidate j db delay) candidates 0) (\<lambda>finalized.
      exec_bind (exec_modify (\<lambda>s. s\<lparr>fz_windows := snd (cleanup_finalized (fz_windows s))\<rparr>)) (\<lambda>_.
      exec_return finalized)) (st\<lparr>fz_windows := r\<rparr>))"

section \<open>Shutting down\<close>

text \<open>The loop until the deadline. Not returning is the value \<open>None\<close>.\<close>

partial_function (option) drain_loop_until ::
    "('x, 'v) window_json \<Rightarrow> ('w, 'x, 'v, 'json) finalizer_database \<Rightarrow> string \<Rightarrow> instant \<Rightarrow> 'w finalizer_state
      \<Rightarrow> (('x qualification_worker_error, bool) result \<times> 'w finalizer_state) option" where
  "drain_loop_until j db run_id deadline st =
     (if deadline \<le> instant_now db (fz_world st) then Some (Inr False, st)
      else case exec_bind (finalize_ready_tokens j db 0) (\<lambda>_.
             await_call (load_active_window_ids db (Some run_id))) st of
        (Inl e, st') \<Rightarrow> Some (Inl e, st')
      | (Inr ids, st') \<Rightarrow>
          if ids = [] then Some (Inr True, st')
          else (case await_call (sleep_call db) st' of
                  (Inl e, st'') \<Rightarrow> Some (Inl e, st'')
                | (Inr _, st'') \<Rightarrow> drain_loop_until j db run_id deadline st''))"

definition drain_shutdown ::
    "('x, 'v) window_json \<Rightarrow> ('w, 'x, 'v, 'json) finalizer_database \<Rightarrow> string \<Rightarrow> 'w finalizer_state
      \<Rightarrow> (('x qualification_worker_error, unit) result \<times> 'w finalizer_state) option" where
  "drain_shutdown j db run_id st =
     map_option (\<lambda>(res, st').
       (case res of
          Inl e \<Rightarrow> (Inl e, st')
        | Inr True \<Rightarrow> (Inr (), st')
        | Inr False \<Rightarrow>
            exec_bind (await_call (load_active_window_ids db (Some run_id))) (\<lambda>ids.
            exec_each (\<lambda>wid. exec_bind (attempt_finalize_window j db wid (Some StreamStopped)) (\<lambda>_. exec_return ())) ids)
            st'))
       (drain_loop_until j db run_id (instant_now db (fz_world st) + SHUTDOWN_DRAIN_LIMIT)
          (st\<lparr>fz_retries := retry_schedule_default\<rparr>))"

section \<open>The arms of the worker's loop\<close>

definition on_finalizer_tick ::
    "('x, 'v) window_json \<Rightarrow> ('w, 'x, 'v, 'json) finalizer_database
      \<Rightarrow> ('w finalizer_state, 'x qualification_worker_error, unit) exec" where
  "on_finalizer_tick j db = exec_bind (finalize_ready_tokens j db FINALIZER_RETRY_DELAY) (\<lambda>_. exec_return ())"

definition on_abandoned_tick ::
    "('x, 'v) window_json \<Rightarrow> ('w, 'x, 'v, 'json) finalizer_database \<Rightarrow> string
      \<Rightarrow> ('w finalizer_state, 'x qualification_worker_error, unit) exec" where
  "on_abandoned_tick j db run_id = exec_bind (finalize_abandoned_windows j db run_id) (\<lambda>_. exec_return ())"

definition on_finalizer_cancelled ::
    "('x, 'v) window_json \<Rightarrow> ('w, 'x, 'v, 'json) finalizer_database \<Rightarrow> string \<Rightarrow> 'w finalizer_state
      \<Rightarrow> (('x qualification_worker_error, unit) result \<times> 'w finalizer_state) option" where
  "on_finalizer_cancelled j db run_id st =
     drain_shutdown j db run_id (st\<lparr>fz_windows := snd (cancel_all_confirmed (fz_windows st) StreamStopped)\<rparr>)"

end
