(* ===== verification/Finalizer_Correct.thy ===== *)
theory Finalizer_Correct
  imports Finalizer Finalization_Claims Windows_Claims
begin

text \<open>
  The finalizing worker: it moves the registry by steps of its transition system and keeps no claim
  when it is done, it never has a window stored as complete that its claim calls incomplete, and its
  shutdown ends.
\<close>

section \<open>What carries over from the calls to an attempt\<close>

locale finalizer_calls = effect_order R for R :: "'w finalizer_state \<Rightarrow> 'w finalizer_state \<Rightarrow> bool" +
  fixes db :: "('w, 'x, 'v, 'json) finalizer_database"
  assumes call_interrupted: "confined R (await_call (load_interrupted_window_ids db run_id))"
    and call_active: "confined R (await_call (load_active_window_ids db filter_id))"
    and call_readiness: "confined R (await_call (load_projection_readiness db wid))"
    and call_window: "confined R (await_call (load_discovery_window db wid))"
    and call_finalize: "confined R (await_call (finalize_discovery_window_call db f))"
    and call_sleep: "confined R (await_call (sleep_call db))"
begin

lemma confined_settle: "confined R m \<Longrightarrow> confined R (settle_outcome m)"
  by (auto simp: confined_def settle_outcome_def split: prod.split sum.split) (metis snd_conv)+

lemma confined_attempt: "confined R (attempt_finalize_window j db wid reason)"
  unfolding attempt_finalize_window_def finalize_one_def
  by (auto intro!: confined_bind confined_settle confined_pure call_readiness call_window call_finalize)

lemma confined_abandoned: "confined R (finalize_abandoned_windows j db run_id)"
  unfolding finalize_abandoned_windows_def
  by (intro confined_bind confined_fold confined_attempt confined_pure call_interrupted)

end

section \<open>Steps of the registry\<close>

abbreviation owns :: "registry \<Rightarrow> finalization_claim list \<Rightarrow> system" where
  "owns r claims \<equiv> \<lparr>sys_registry = r, sys_claims = claims\<rparr>"

text \<open>Whatever claims the worker holds, the call moves the registry and leaves the claims alone.\<close>

definition moves_registry :: "('w, 'x, 'a) db_call \<Rightarrow> bool" where
  "moves_registry call \<longleftrightarrow>
     (\<forall>r w claims. case call (r, w) of (_, r', _) \<Rightarrow> step\<^sup>*\<^sup>* (owns r claims) (owns r' claims))"

definition finalizer_moves :: "('w, 'x, 'v, 'json) finalizer_database \<Rightarrow> bool" where
  "finalizer_moves db \<longleftrightarrow>
     (\<forall>i. moves_registry (load_interrupted_window_ids db i)) \<and> (\<forall>i. moves_registry (load_active_window_ids db i))
     \<and> (\<forall>i. moves_registry (load_projection_readiness db i)) \<and> (\<forall>i. moves_registry (load_discovery_window db i))
     \<and> (\<forall>f. moves_registry (finalize_discovery_window_call db f)) \<and> moves_registry (sleep_call db)"

definition registry_steps :: "'w finalizer_state \<Rightarrow> 'w finalizer_state \<Rightarrow> bool" where
  "registry_steps st st' \<longleftrightarrow> (\<forall>claims. step\<^sup>*\<^sup>* (owns (fz_windows st) claims) (owns (fz_windows st') claims))"

lemma await_moves:
  assumes "H \<Longrightarrow> moves_registry call"
  shows "confined (\<lambda>st st'. H \<longrightarrow> registry_steps st st') (await_call call)"
  unfolding confined_def
proof (intro allI impI)
  fix st assume H
  then have "moves_registry call" by (rule assms)
  then show "registry_steps st (snd (await_call call st))"
    by (cases "call (fz_windows st, fz_world st)")
      (auto simp: moves_registry_def registry_steps_def await_call_def dest!: spec [of _ "fz_windows st"] spec [of _ "fz_world st"])
qed

interpretation finalizing: finalizer_calls "\<lambda>st st'. finalizer_moves db \<longrightarrow> registry_steps st st'" db for db
proof
  show "finalizer_moves db \<longrightarrow> registry_steps st st" for st :: "'a finalizer_state" by (simp add: registry_steps_def)
  show "finalizer_moves db \<longrightarrow> registry_steps s s''"
    if "finalizer_moves db \<longrightarrow> registry_steps s s'" "finalizer_moves db \<longrightarrow> registry_steps s' s''"
    for s s' s'' :: "'a finalizer_state"
    using that by (auto simp: registry_steps_def intro: rtranclp_trans)
qed (rule await_moves, simp add: finalizer_moves_def)+

section \<open>No claim is left behind\<close>

lemma attempt_moves:
  assumes "finalizer_moves db" and "attempt_finalize_window j db wid reason st = (res, st')"
  shows "step\<^sup>*\<^sup>* (owns (fz_windows st) claims) (owns (fz_windows st') claims)"
  using finalizing.confined_run [OF finalizing.confined_attempt assms(2)] assms(1) by (simp add: registry_steps_def)

lemma drop_claim_step: "step (owns r (cl # claims)) (owns (claim_drop cl r) claims)"
  using step_drop [of cl "owns r (cl # claims)"] by simp

lemma commit_claim_step: "step (owns r (cl # claims)) (owns (snd (claim_mark_committed cl r)) claims)"
  using step_commit [of cl "owns r (cl # claims)"] by simp

lemma with_claim_moves:
  assumes "finalizer_moves db" and "with_claim j db delay wid cl n st = (res, st')"
  shows "step\<^sup>*\<^sup>* (owns (fz_windows st) (cl # claims)) (owns (fz_windows st') claims)"
proof -
  obtain r1 st1 where run: "attempt_finalize_window j db wid (claim_incomplete_reason cl) st = (r1, st1)"
    by (rule prod.exhaust)
  have "fz_windows st' = claim_drop cl (fz_windows st1) \<or> fz_windows st' = snd (claim_mark_committed cl (fz_windows st1))"
    using assms(2) run by (auto simp: with_claim_def split: sum.splits option.splits)
  then have "step (owns (fz_windows st1) (cl # claims)) (owns (fz_windows st') claims)"
    using drop_claim_step commit_claim_step by metis
  with attempt_moves [OF assms(1) run, of "cl # claims"] show ?thesis by (rule rtranclp.rtrancl_into_rtrancl)
qed

lemma claim_none: "claim_finalization r t = (None, r') \<Longrightarrow> r' = r"
  by (auto simp: claim_finalization_def Let_def split: option.splits if_splits)

lemma candidate_moves:
  fixes db :: "('w, 'x, 'v, 'json) finalizer_database"
  shows "confined (\<lambda>st st'. finalizer_moves db \<longrightarrow> registry_steps st st') (finalize_candidate j db delay t n)"
  unfolding confined_def registry_steps_def
proof (intro allI impI)
  fix st :: "'w finalizer_state" and claims
  assume moves: "finalizer_moves db"
  obtain c r where claim: "claim_finalization (fz_windows st) t = (c, r)" by (rule prod.exhaust)
  show "step\<^sup>*\<^sup>* (owns (fz_windows st) claims) (owns (fz_windows (snd (finalize_candidate j db delay t n st))) claims)"
  proof (cases "cell_durable_window_id (cell_of (fz_windows st) t)")
    case (Some wid)
    show ?thesis
    proof (cases c)
      case None
      then show ?thesis using Some claim claim_none by (auto simp: finalize_candidate_def)
    next
      case (Some cl)
      have "step (owns (fz_windows st) claims) (owns r (cl # claims))"
        using step_claim [of "owns (fz_windows st) claims" t cl r] claim Some by simp
      moreover obtain res st' where w: "with_claim j db delay wid cl n (st\<lparr>fz_windows := r\<rparr>) = (res, st')"
        by (rule prod.exhaust)
      moreover note with_claim_moves [OF moves w, of claims]
      ultimately show ?thesis
        using Some claim \<open>cell_durable_window_id (cell_of (fz_windows st) t) = Some wid\<close>
        by (auto simp: finalize_candidate_def intro: converse_rtranclp_into_rtranclp)
    qed
  qed (simp add: finalize_candidate_def)
qed

lemma ready_tokens_move:
  fixes db :: "('w, 'x, 'v, 'json) finalizer_database"
  assumes "finalizer_moves db" and "finalize_ready_tokens j db delay st = (res, st')"
  shows "step\<^sup>*\<^sup>* (owns (fz_windows st) claims) (owns (fz_windows st') claims)"
proof -
  obtain cands r where c: "finalization_candidates (fz_windows st) (unix_now db (fz_world st)) = (cands, r)"
    by (rule prod.exhaust)
  let ?body = "exec_bind (exec_fold (finalize_candidate j db delay) cands 0) (\<lambda>finalized.
      exec_bind (exec_modify (\<lambda>s. s\<lparr>fz_windows := snd (cleanup_finalized (fz_windows s))\<rparr>)) (\<lambda>_. exec_return finalized))"
  have "registry_steps s (s\<lparr>fz_windows := snd (cleanup_finalized (fz_windows s))\<rparr>)" for s :: "'w finalizer_state"
    using step_cleanup [of "owns (fz_windows s) cls" for cls] by (auto simp: registry_steps_def)
  then have "confined (\<lambda>st st'. finalizer_moves db \<longrightarrow> registry_steps st st') ?body"
    by (intro finalizing.confined_bind finalizing.confined_fold candidate_moves finalizing.confined_modify
        finalizing.confined_pure) simp
  then have "step\<^sup>*\<^sup>* (owns r claims) (owns (fz_windows st') claims)"
    using finalizing.confined_run [of db ?body "st\<lparr>fz_windows := r\<rparr>" res st'] assms c
    by (simp add: finalize_ready_tokens_def registry_steps_def)
  moreover have "step (owns (fz_windows st) claims) (owns r claims)"
    using step_candidates [of "owns (fz_windows st) claims" "unix_now db (fz_world st)"] c by simp
  ultimately show ?thesis by (rule converse_rtranclp_into_rtranclp [rotated])
qed

section \<open>Shutting down ends\<close>

definition never_turns_back :: "('w \<Rightarrow> instant) \<Rightarrow> ('w, 'x, 'a) db_call \<Rightarrow> bool" where
  "never_turns_back clock call \<longleftrightarrow> (\<forall>r w. case call (r, w) of (_, _, w') \<Rightarrow> clock w \<le> clock w')"

text \<open>No call turns the clock back, and a sleep that returns took its 25 ms.\<close>

definition monotonic_clock :: "('w, 'x, 'v, 'json) finalizer_database \<Rightarrow> bool" where
  "monotonic_clock db \<longleftrightarrow>
     (\<forall>i. never_turns_back (instant_now db) (load_interrupted_window_ids db i))
     \<and> (\<forall>i. never_turns_back (instant_now db) (load_active_window_ids db i))
     \<and> (\<forall>i. never_turns_back (instant_now db) (load_projection_readiness db i))
     \<and> (\<forall>i. never_turns_back (instant_now db) (load_discovery_window db i))
     \<and> (\<forall>f. never_turns_back (instant_now db) (finalize_discovery_window_call db f))
     \<and> never_turns_back (instant_now db) (sleep_call db)
     \<and> (\<forall>r w. case sleep_call db (r, w) of (res, _, w') \<Rightarrow>
          res = Inr () \<longrightarrow> instant_now db w + SHUTDOWN_SLEEP \<le> instant_now db w')"

definition clock_advances :: "('w, 'x, 'v, 'json) finalizer_database \<Rightarrow> 'w finalizer_state \<Rightarrow> 'w finalizer_state \<Rightarrow> bool" where
  "clock_advances db st st' \<longleftrightarrow>
     (monotonic_clock db \<longrightarrow> instant_now db (fz_world st) \<le> instant_now db (fz_world st'))"

lemma await_advances:
  assumes "monotonic_clock db \<Longrightarrow> never_turns_back (instant_now db) call"
  shows "confined (clock_advances db) (await_call call)"
  unfolding confined_def clock_advances_def
proof (intro allI impI)
  fix st assume "monotonic_clock db"
  then have "never_turns_back (instant_now db) call" by (rule assms)
  then show "instant_now db (fz_world st) \<le> instant_now db (fz_world (snd (await_call call st)))"
    by (cases "call (fz_windows st, fz_world st)")
      (auto simp: never_turns_back_def await_call_def dest!: spec [of _ "fz_windows st"] spec [of _ "fz_world st"])
qed

interpretation timed: finalizer_calls "clock_advances db" db for db
proof
  show "clock_advances db st st" for st by (simp add: clock_advances_def)
  show "clock_advances db s s''" if "clock_advances db s s'" "clock_advances db s' s''" for s s' s''
    using that by (auto simp: clock_advances_def)
qed (rule await_advances, simp add: monotonic_clock_def)+

lemma with_claim_advances: "confined (clock_advances db) (with_claim j db delay wid cl n)"
  using timed.confined_attempt [of db j wid "claim_incomplete_reason cl"]
  by (auto simp: confined_def with_claim_def clock_advances_def split: prod.split sum.split option.split)
    (metis snd_conv)+

lemma candidate_advances:
  fixes db :: "('w, 'x, 'v, 'json) finalizer_database"
  shows "confined (clock_advances db) (finalize_candidate j db delay t n)"
  unfolding confined_def
proof
  fix st :: "'w finalizer_state"
  obtain c r where claim: "claim_finalization (fz_windows st) t = (c, r)" by (rule prod.exhaust)
  have "clock_advances db (st\<lparr>fz_windows := r\<rparr>) (snd (with_claim j db delay wid cl n (st\<lparr>fz_windows := r\<rparr>)))" for wid cl
    using with_claim_advances [of db j delay wid cl n] unfolding confined_def by blast
  then show "clock_advances db st (snd (finalize_candidate j db delay t n st))"
    using claim by (auto simp: finalize_candidate_def clock_advances_def split: option.split)
qed

lemma ready_tokens_advance:
  fixes db :: "('w, 'x, 'v, 'json) finalizer_database"
  shows "confined (clock_advances db) (finalize_ready_tokens j db delay)"
  unfolding confined_def
proof
  fix st :: "'w finalizer_state"
  obtain cands r where c: "finalization_candidates (fz_windows st) (unix_now db (fz_world st)) = (cands, r)"
    by (rule prod.exhaust)
  let ?body = "exec_bind (exec_fold (finalize_candidate j db delay) cands 0) (\<lambda>finalized.
      exec_bind (exec_modify (\<lambda>s. s\<lparr>fz_windows := snd (cleanup_finalized (fz_windows s))\<rparr>)) (\<lambda>_. exec_return finalized))"
  have "confined (clock_advances db) ?body"
    by (intro timed.confined_bind timed.confined_fold candidate_advances timed.confined_modify timed.confined_pure)
      (simp add: clock_advances_def)
  then show "clock_advances db st (snd (finalize_ready_tokens j db delay st))"
    using c by (auto simp: confined_def finalize_ready_tokens_def clock_advances_def dest: spec [of _ "st\<lparr>fz_windows := r\<rparr>"])
qed

lemma drain_loop_ends:
  assumes "monotonic_clock db"
  shows "\<exists>res st'. drain_loop_until j db run_id deadline st = Some (res, st')"
proof (induction "deadline - instant_now db (fz_world st)" arbitrary: st rule: less_induct)
  case less
  let ?round = "exec_bind (finalize_ready_tokens j db 0) (\<lambda>_. await_call (load_active_window_ids db (Some run_id)))"
  obtain r1 st1 where run: "?round st = (r1, st1)" by (rule prod.exhaust)
  obtain r2 st2 where sleep: "await_call (sleep_call db) st1 = (r2, st2)" by (rule prod.exhaust)
  have "confined (clock_advances db) ?round"
    by (intro timed.confined_bind ready_tokens_advance timed.call_active)
  then have t1: "instant_now db (fz_world st) \<le> instant_now db (fz_world st1)"
    using timed.confined_run [of db ?round st r1 st1] run assms by (simp add: clock_advances_def)
  have t2: "instant_now db (fz_world st1) < instant_now db (fz_world st2)" if "r2 = Inr x" for x
    using that sleep assms unfolding monotonic_clock_def
    by (cases "sleep_call db (fz_windows st1, fz_world st1)")
      (auto simp: await_call_def map_err_def SHUTDOWN_SLEEP_def NANOS_PER_SECOND_def split: sum.splits
        dest!: spec [of _ "fz_windows st1"] spec [of _ "fz_world st1"])
  have again: "\<exists>res st'. drain_loop_until j db run_id deadline st2 = Some (res, st')"
    if "instant_now db (fz_world st) < deadline" "r2 = Inr x" for x
    using that t1 t2 [OF that(2)] by (intro less) linarith
  show ?case
    using run sleep again by (auto simp: drain_loop_until.simps [of j db run_id deadline st] not_le split: sum.split)
qed

section \<open>Requests to store a window\<close>

lemma incomplete_payload:
  assumes "build_discovery_window_finalization j w t (Some r) = Inr f"
  shows "fin_completeness f = WindowIncomplete"
proof -
  obtain s where s: "build_market_window_snapshot (dwr_market w) (dwr_opened_at_unix_ms w) (dwr_closes_at_unix_ms w)
      (Incomplete r) (dwr_observations w) = Inr s" and f: "fin_completeness f = contract_completeness (completeness s)"
    using assms unfolding build_discovery_window_finalization_def requested_completeness_def
    by (auto simp: result_bind_Inr map_err_Inr)
  have "loc_completeness l = Incomplete r" if "snapshot_loop (snapshot_locals_init (Incomplete r)) os = Inr l" for l os
    using that snapshot_loop_incomplete [of r "snapshot_locals_init (Incomplete r)" os]
    by (cases l) (auto simp: snapshot_locals_init_def)
  then have "completeness s = Incomplete r"
    using s unfolding build_market_window_snapshot_def Let_def by (auto simp: result_bind_Inr split: if_splits)
  then show ?thesis using f by (simp add: contract_completeness_def is_complete_def)
qed

section \<open>The claims of the worker\<close>

text \<open>
  C29: the finalizing worker leaves no claim behind. Started on a registry that the system can reach
  and in which nobody holds a claim, a pass over the ready windows, whether it ends well or with any
  error, and whatever other tasks do to the registry while the worker waits for the database, ends
  in a reachable registry in which no window is marked as claimed; so a later pass can take every
  unfinished window up again.
\<close>

theorem finalizer_leaks_no_claim:
  assumes "reachable capacity (owns (fz_windows st) [])" and "finalizer_moves db"
    and "finalize_ready_tokens j db delay st = (res, st')"
  shows "reachable capacity (owns (fz_windows st') [])
    \<and> (\<forall>a<next_cell (fz_windows st'). \<not> cell_finalization_claimed (cells (fz_windows st') a))"
proof -
  have "reachable capacity (owns (fz_windows st') [])"
    using ready_tokens_move [OF assms(2,3), of "[]"] assms(1)
    by (induction rule: rtranclp_induct) (auto intro: reachable_step)
  moreover from this have "sys_inv (owns (fz_windows st') [])" by (rule reachable_inv)
  ultimately show ?thesis by (auto simp: sys_inv_def claims_inv_def)
qed

text \<open>
  A window whose claim calls it incomplete is never stored as complete. The attempt to finalize
  such a window runs exactly as it would against a database that answers differently, in any way,
  when it is asked to store a complete window: no such request is made.
\<close>

theorem incomplete_claim_never_stored_complete:
  fixes db :: "('w, 'x, 'v, 'json) finalizer_database"
  assumes "\<And>f. fin_completeness f \<noteq> WindowComplete \<Longrightarrow> other f = finalize_discovery_window_call db f"
  shows "attempt_finalize_window j (db\<lparr>finalize_discovery_window_call := other\<rparr>) wid (Some reason) st
    = attempt_finalize_window j db wid (Some reason) st"
proof -
  let ?db = "db\<lparr>finalize_discovery_window_call := other\<rparr>"
  have same: "fin_completeness f \<noteq> WindowComplete \<Longrightarrow> await_call (other f) = await_call (finalize_discovery_window_call db f)" for f
    using assms by simp
  have "fin_completeness f \<noteq> WindowComplete"
    if "map_err QualificationPersistence (build_discovery_window_finalization j w t (Some r)) = Inr f"
    for w :: "'json discovery_window_record" and t r f
    using that incomplete_payload by (force simp: map_err_Inr)
  then have "finalize_one j ?db wid (Some why) = finalize_one j db wid (Some why)" for why
    using same by (auto simp: finalize_one_def exec_bind_def exec_simps fun_eq_iff split: prod.split sum.split)
  moreover have "\<exists>why. terminal_incomplete_reason readiness (Some reason) = Some why" for readiness
    by (simp add: terminal_incomplete_reason_def)
  ultimately have "finalize_one j ?db wid (terminal_incomplete_reason readiness (Some reason))
      = finalize_one j db wid (terminal_incomplete_reason readiness (Some reason))" for readiness
    by metis
  then show ?thesis by (simp add: attempt_finalize_window_def cong: if_cong)
qed

text \<open>
  C33: shutting the finalizing worker down ends. As long as no call turns the monotonic clock back
  and a sleep of 25 ms takes 25 ms, the drain returns, with success or with the error of a call, no
  matter what other tasks do and how many windows stay active.
\<close>

theorem shutdown_drain_ends:
  assumes "monotonic_clock db"
  shows "\<exists>res st'. drain_shutdown j db run_id st = Some (res, st')"
  using drain_loop_ends [OF assms, of j run_id "instant_now db (fz_world st) + SHUTDOWN_DRAIN_LIMIT"
      "st\<lparr>fz_retries := retry_schedule_default\<rparr>"]
  by (auto simp: drain_shutdown_def intro: prod.exhaust)

section \<open>A quiet database\<close>

text \<open>
  A database in which one window stays active for ever and in which nobody else runs; its clock is
  the world.
\<close>

definition quiet_database :: "(nat, unit, example_json, unit) finalizer_database" where
  "quiet_database =
     \<lparr>load_interrupted_window_ids = (\<lambda>_ (r, w). (Inr [], r, w)),
      load_active_window_ids = (\<lambda>_ (r, w). (Inr [3], r, w)),
      load_projection_readiness = (\<lambda>_ (r, w). (Inr ReadinessReady, r, w)),
      load_discovery_window = (\<lambda>_ (r, w). (Inr example_record, r, w)),
      finalize_discovery_window_call = (\<lambda>_ (r, w). (Inr True, r, w)),
      unix_now = int, instant_now = id,
      sleep_call = (\<lambda>(r, w). (Inr (), r, w + SHUTDOWN_SLEEP))\<rparr>"

lemma quiet_database_moves: "finalizer_moves quiet_database"
  by (simp add: finalizer_moves_def quiet_database_def moves_registry_def)

lemma quiet_database_clock: "monotonic_clock quiet_database"
  by (simp add: monotonic_clock_def quiet_database_def never_turns_back_def)

definition quiet_state :: "nat finalizer_state" where
  "quiet_state = \<lparr>fz_windows = the (registry_new 4), fz_world = 7, fz_retries = retry_schedule_default\<rparr>"

lemma quiet_state_reachable: "reachable 4 (owns (fz_windows quiet_state) [])"
  using reachable_init [of 4 "the (registry_new 4)"] by (simp add: quiet_state_def registry_new_def)

theorem finalizer_leaks_no_claim_witness:
  "\<exists>res st'. finalize_ready_tokens example_codec quiet_database 0 quiet_state = (res, st')
     \<and> reachable 4 (owns (fz_windows st') [])"
  using finalizer_leaks_no_claim [OF quiet_state_reachable quiet_database_moves, of example_codec 0] by (metis prod.exhaust)

theorem incomplete_claim_never_stored_complete_witness:
  "attempt_finalize_window example_codec (quiet_database\<lparr>finalize_discovery_window_call := (\<lambda>f (r, w).
       (if fin_completeness f = WindowComplete then Inl (EmptyField ''complete'') else Inr True, r, w))\<rparr>)
     3 (Some StreamStopped) quiet_state
   = attempt_finalize_window example_codec quiet_database 3 (Some StreamStopped) quiet_state"
  by (rule incomplete_claim_never_stored_complete) (simp add: quiet_database_def fun_eq_iff)

theorem shutdown_drain_ends_witness:
  "\<exists>res st'. drain_shutdown example_codec quiet_database ''run'' quiet_state = Some (res, st')"
  by (rule shutdown_drain_ends [OF quiet_database_clock])

end
