(* ===== verification/Rpc_Client.thy ===== *)
theory Rpc_Client
  imports Rpc_Model Log_Scope Borsh
begin

text \<open>
  The HTTP client of \<open>crates/solana-rpc/src/http.rs\<close>. What the network and the JSON library bring is
  a parameter: the chunks of a response body, the parsed envelope, the typed result. What the client
  makes of it, every check included, is modelled. Bytes and carries of the base-58 decoder are
  natural numbers.
\<close>

section \<open>One call\<close>

definition MAX_RPC_RESPONSE_BYTES :: usize where
  "MAX_RPC_RESPONSE_BYTES = 16 * 1024 * 1024"

record 'v json_rpc_envelope =
  envelope_jsonrpc :: string
  envelope_id :: "u64 option"
  envelope_result :: "'v option"
  envelope_error :: "(i64 \<times> string) option"

record http_response =
  response_status :: u16
  response_content_length :: "u64 option"
  response_chunks :: "(rpc_error, u8 list) result list"

definition response_too_large :: "usize \<Rightarrow> rpc_error" where
  "response_too_large maximum = RpcInvalidResponse (''response exceeded '' @ show_nat maximum @ '' bytes'')"

definition append_bounded :: "u8 list \<Rightarrow> u8 list \<Rightarrow> usize \<Rightarrow> (rpc_error, u8 list) result" where
  "append_bounded body chunk maximum =
     (if maximum < saturating_add_usize (length body) (length chunk) then Inl (response_too_large maximum)
      else Inr (body @ chunk))"

fun read_chunks :: "usize \<Rightarrow> u8 list \<Rightarrow> (rpc_error, u8 list) result list \<Rightarrow> (rpc_error, u8 list) result" where
  "read_chunks maximum body [] = Inr body"
| "read_chunks maximum body (c # cs) =
     result_bind c (\<lambda>chunk. result_bind (append_bounded body chunk maximum) (\<lambda>body'. read_chunks maximum body' cs))"

definition read_bounded_body :: "http_response \<Rightarrow> usize \<Rightarrow> (rpc_error, u8 list) result" where
  "read_bounded_body r maximum =
     (if (case response_content_length r of None \<Rightarrow> False | Some len \<Rightarrow> maximum < unat len)
      then Inl (response_too_large maximum)
      else read_chunks maximum [] (response_chunks r))"

text \<open>
  \<open>parse\<close> stands for the JSON parser, \<open>from_value\<close> for the conversion of the result, \<open>compact\<close> for
  the shortened text of an error body and \<open>show_id\<close> for the debug text of an optional id; 200 to 299
  are the success codes.
\<close>

record ('v, 'a) rpc_decoding =
  dec_parse :: "u8 list \<Rightarrow> (string, 'v json_rpc_envelope) result"
  dec_from_value :: "'v \<Rightarrow> (string, 'a) result"
  dec_compact :: "u8 list \<Rightarrow> string"
  dec_show_id :: "u64 option \<Rightarrow> string"

definition rpc_call ::
    "('v, 'a) rpc_decoding \<Rightarrow> u64 \<Rightarrow> (rpc_error, http_response) result \<Rightarrow> (rpc_error, 'a) result" where
  "rpc_call dec id' sent =
     result_bind sent (\<lambda>response.
     result_bind (read_bounded_body response MAX_RPC_RESPONSE_BYTES) (\<lambda>bytes.
     if response_status response = 429 then Inl RpcRateLimited
     else if \<not> (200 \<le> response_status response \<and> response_status response < 300)
     then Inl (RpcHttpStatus (response_status response) (dec_compact dec bytes))
     else result_bind (map_err RpcInvalidResponse (dec_parse dec bytes)) (\<lambda>envelope.
     if envelope_jsonrpc envelope \<noteq> ''2.0'' then Inl (RpcInvalidResponse ''response is not JSON-RPC 2.0'')
     else if envelope_id envelope \<noteq> Some id'
     then Inl (RpcInvalidResponse (''response id '' @ dec_show_id dec (envelope_id envelope)
            @ '' did not match request id '' @ show_nat (unat id')))
     else case envelope_error envelope of
        Some (code, message) \<Rightarrow>
          if code = 429 \<or> code = - 32005 then Inl RpcRateLimited else Inl (RpcCode code message)
      | None \<Rightarrow>
          result_bind (ok_or (RpcInvalidResponse ''response omitted result'') (envelope_result envelope)) (\<lambda>v.
          map_err RpcInvalidResponse (dec_from_value dec v)))))"

definition genesis_hash :: "(rpc_error, string) result \<Rightarrow> (rpc_error, string) result" where
  "genesis_hash answer =
     result_bind answer (\<lambda>hash.
     if hash = [] \<or> 128 < length hash \<or> \<not> list_all (\<lambda>c. c \<in> set ALPHABET) hash
     then Inl (RpcInvalidResponse ''getGenesisHash returned an invalid base58 value'') else Inr hash)"

fun client_health :: "(rpc_error, string) result \<Rightarrow> rpc_health" where
  "client_health (Inr value) = (if value = ''ok'' then RpcUp else RpcDegraded)"
| "client_health (Inl RpcTimeout) = RpcDegraded"
| "client_health (Inl RpcRateLimited) = RpcDegraded"
| "client_health (Inl (RpcCode _ _)) = RpcDegraded"
| "client_health (Inl _) = RpcDown"

section \<open>Pages of signatures\<close>

record 'v rpc_signature_record =
  rsr_slot :: u64
  rsr_transaction_index :: "u64 option"
  rsr_signature :: string
  rsr_block_time :: "i64 option"
  rsr_confirmation_status :: "string option"
  rsr_error :: "'v option"

definition compact_error :: "('v \<Rightarrow> (string, string) result) \<Rightarrow> 'v option \<Rightarrow> (rpc_error, string option) result" where
  "compact_error json_text error =
     (case error of None \<Rightarrow> Inr None
      | Some v \<Rightarrow> map_err RpcInvalidResponse (map_sum id Some (json_text v)))"

fun signature_records ::
    "('v \<Rightarrow> (string, string) result) \<Rightarrow> u64 \<Rightarrow> string set \<Rightarrow> 'v rpc_signature_record list
      \<Rightarrow> (rpc_error, signature_record list) result" where
  "signature_records json_text previous_slot signatures [] = Inr []"
| "signature_records json_text previous_slot signatures (r # rs) =
     (if rsr_signature r = [] then Inl (RpcInvalidResponse ''signature page contained an empty signature'')
      else if rsr_signature r \<in> signatures
      then Inl (RpcInvalidResponse (''signature page repeated '' @ rsr_signature r))
      else if previous_slot < rsr_slot r
      then Inl (RpcInvalidResponse ''signature page was not newest-to-oldest'')
      else result_bind (compact_error json_text (rsr_error r)) (\<lambda>error.
           result_bind (signature_records json_text (rsr_slot r) (insert (rsr_signature r) signatures) rs) (\<lambda>rest.
           Inr (\<lparr>sig_slot = rsr_slot r, sig_transaction_index = rsr_transaction_index r,
                 sig_signature = rsr_signature r, sig_block_time_unix_seconds = rsr_block_time r,
                 sig_confirmation_status = rsr_confirmation_status r, sig_transaction_error = error\<rparr> # rest))))"

definition last_signature_of :: "signature_record list \<Rightarrow> string option" where
  "last_signature_of rs = (if rs = [] then None else Some (sig_signature (last rs)))"

definition client_signature_page ::
    "('v \<Rightarrow> (string, string) result) \<Rightarrow> (signature_page_request \<Rightarrow> (rpc_error, 'v rpc_signature_record list) result)
      \<Rightarrow> signature_page_request \<Rightarrow> (rpc_error, signature_page) result" where
  "client_signature_page json_text node request =
     result_bind (signature_page_request_new (req_program_id request) (req_before request) (req_limit request)
       (req_context request)) (\<lambda>_.
     result_bind (node request) (\<lambda>records.
     if req_limit request < length records
     then Inl (RpcInvalidResponse (''signature page returned '' @ show_nat (length records)
            @ '' records for limit '' @ show_nat (req_limit request)))
     else result_bind (signature_records json_text (- 1) {} records) (\<lambda>newest_first.
     let exhausted' = (length newest_first < req_limit request) in
     Inr \<lparr>page_request = request, records_newest_first = newest_first,
          next_before = (if exhausted' then None else last_signature_of newest_first), exhausted = exhausted'\<rparr>)))"

section \<open>Instructions of a transaction\<close>

record rpc_compiled_instruction =
  rci_program_id_index :: u16
  rci_data :: string
  rci_stack_height :: "u32 option"

record rpc_inner_instruction_group =
  group_index :: u16
  group_instructions :: "rpc_compiled_instruction list"

record rpc_json_transaction =
  rjt_signatures :: "string list"
  rjt_account_keys :: "string list"
  rjt_instructions :: "rpc_compiled_instruction list"

record 'v rpc_transaction_meta =
  meta_error :: "'v option"
  meta_log_messages :: "string list option"
  meta_inner_instructions :: "rpc_inner_instruction_group list"
  meta_loaded_writable :: "string list"
  meta_loaded_readonly :: "string list"

record 'v rpc_transaction =
  rtx_slot :: u64
  rtx_transaction_index :: "u64 option"
  rtx_block_time :: "i64 option"
  rtx_transaction :: rpc_json_transaction
  rtx_meta :: "'v rpc_transaction_meta option"

definition MAX_INSTRUCTION_DATA_BYTES :: usize where
  "MAX_INSTRUCTION_DATA_BYTES = 16 * 1024"

text \<open>The position of the first element that satisfies a predicate, as \<open>Iterator::position\<close>.\<close>

fun position :: "('a \<Rightarrow> bool) \<Rightarrow> 'a list \<Rightarrow> nat option" where
  "position f [] = None"
| "position f (x # xs) = (if f x then Some 0 else map_option Suc (position f xs))"

fun base256_carry_bytes :: "nat \<Rightarrow> nat list" where
  "base256_carry_bytes carry =
     (if carry = 0 then [] else carry mod 256 # base256_carry_bytes (carry div 256))"

declare base256_carry_bytes.simps [simp del]

fun base256_add_digit :: "nat \<Rightarrow> nat list \<Rightarrow> nat list" where
  "base256_add_digit carry [] = base256_carry_bytes carry"
| "base256_add_digit carry (b # bs) =
     ((b * 58 + carry) mod 256) # base256_add_digit ((b * 58 + carry) div 256) bs"

fun base58_bytes :: "nat \<Rightarrow> nat list \<Rightarrow> string \<Rightarrow> (rpc_error, nat list) result" where
  "base58_bytes leading_zeroes bytes [] = Inr bytes"
| "base58_bytes leading_zeroes bytes (c # cs) =
     result_bind (ok_or (RpcInvalidResponse (''instruction data contains invalid base58 byte ''
            @ show_nat (of_char c))) (position (\<lambda>a. a = c) ALPHABET)) (\<lambda>digit.
     let bytes' = base256_add_digit digit bytes in
     if MAX_INSTRUCTION_DATA_BYTES < saturating_add_usize (length bytes') leading_zeroes
     then Inl (RpcInvalidResponse (''instruction data exceeded '' @ show_nat MAX_INSTRUCTION_DATA_BYTES
            @ '' decoded bytes''))
     else base58_bytes leading_zeroes bytes' cs)"

definition decode_base58 :: "string \<Rightarrow> (rpc_error, u8 list) result" where
  "decode_base58 encoded =
     (if encoded = [] then Inr []
      else
        let leading_zeroes = length (takeWhile (\<lambda>c. c = CHR ''1'') encoded) in
        result_bind (base58_bytes leading_zeroes [0] encoded) (\<lambda>bytes.
        Inr (replicate leading_zeroes 0 @
          (if leading_zeroes \<noteq> length encoded then map of_nat (rev (base58_trim bytes)) else []))))"

definition decode_instruction ::
    "string list \<Rightarrow> u16 \<Rightarrow> u16 option \<Rightarrow> rpc_compiled_instruction
      \<Rightarrow> (rpc_error, transaction_instruction_record) result" where
  "decode_instruction account_keys outer inner i =
     (let index = unat (rci_program_id_index i) in
      result_bind (ok_or (RpcInvalidResponse (''program id index '' @ show_nat index @ '' is outside ''
             @ show_nat (length account_keys) @ '' account keys''))
        (if index < length account_keys then Some (account_keys ! index) else None)) (\<lambda>program_id.
      result_bind (decode_base58 (rci_data i)) (\<lambda>data.
      Inr \<lparr>outer_instruction_index = outer, inner_instruction_index = inner,
           stack_height = rci_stack_height i, instr_program_id = program_id, instr_data = data\<rparr>)))"

text \<open>The table of inner groups, by the index of their top-level instruction.\<close>

fun collect_groups ::
    "rpc_inner_instruction_group list \<Rightarrow> rpc_inner_instruction_group option list
      \<Rightarrow> (rpc_error, rpc_inner_instruction_group option list) result" where
  "collect_groups [] groups = Inr groups"
| "collect_groups (g # gs) groups =
     (let index = unat (group_index g) in
      if length groups \<le> index
      then Inl (RpcInvalidResponse (''inner instruction group '' @ show_nat index @ '' has no top-level instruction''))
      else if groups ! index \<noteq> None
      then Inl (RpcInvalidResponse (''duplicate inner instruction group '' @ show_nat index))
      else collect_groups gs (groups[index := Some g]))"

definition narrow_u16 :: "string \<Rightarrow> nat \<Rightarrow> (rpc_error, u16) result" where
  "narrow_u16 message n = (if n < 2 ^ 16 then Inr (of_nat n) else Inl (RpcInvalidResponse message))"

fun decode_inner ::
    "string list \<Rightarrow> u16 \<Rightarrow> nat \<Rightarrow> rpc_compiled_instruction list
      \<Rightarrow> (rpc_error, transaction_instruction_record list) result" where
  "decode_inner account_keys outer n [] = Inr []"
| "decode_inner account_keys outer n (i # is) =
     result_bind (narrow_u16 ''too many inner instructions'' n) (\<lambda>inner.
     result_bind (decode_instruction account_keys outer (Some inner) i) (\<lambda>r.
     result_bind (decode_inner account_keys outer (Suc n) is) (\<lambda>rs. Inr (r # rs))))"

fun decode_outer ::
    "string list \<Rightarrow> nat \<Rightarrow> (rpc_compiled_instruction \<times> rpc_inner_instruction_group option) list
      \<Rightarrow> (rpc_error, transaction_instruction_record list) result" where
  "decode_outer account_keys n [] = Inr []"
| "decode_outer account_keys n ((i, grp) # is) =
     result_bind (narrow_u16 ''too many top-level instructions'' n) (\<lambda>outer.
     result_bind (decode_instruction account_keys outer None i) (\<lambda>r.
     result_bind (case grp of None \<Rightarrow> Inr [] | Some g \<Rightarrow> decode_inner account_keys outer 0 (group_instructions g)) (\<lambda>inner.
     result_bind (decode_outer account_keys (Suc n) is) (\<lambda>rs. Inr (r # inner @ rs)))))"

definition decode_instructions ::
    "rpc_json_transaction \<Rightarrow> 'v rpc_transaction_meta \<Rightarrow> (rpc_error, transaction_instruction_record list) result" where
  "decode_instructions tx meta =
     (let account_keys = rjt_account_keys tx @ meta_loaded_writable meta @ meta_loaded_readonly meta in
      result_bind (collect_groups (meta_inner_instructions meta) (replicate (length (rjt_instructions tx)) None)) (\<lambda>groups.
      decode_outer account_keys 0 (zip (rjt_instructions tx) groups)))"

definition validate_primary_signature :: "string \<Rightarrow> rpc_json_transaction \<Rightarrow> (rpc_error, unit) result" where
  "validate_primary_signature requested tx =
     (case rjt_signatures tx of
        [] \<Rightarrow> Inl (RpcInvalidResponse ''getTransaction returned a transaction without a primary signature'')
      | s # _ \<Rightarrow>
          if s \<noteq> requested
          then Inl (RpcInvalidResponse ''getTransaction primary signature did not match the request'') else Inr ())"

definition transaction_parts ::
    "('v \<Rightarrow> (string, string) result) \<Rightarrow> string \<Rightarrow> 'v rpc_transaction \<Rightarrow> (rpc_error, transaction_record) result" where
  "transaction_parts json_text sig t =
     result_bind (ok_or (RpcInvalidResponse ''getTransaction omitted transaction meta'') (rtx_meta t)) (\<lambda>meta.
     result_bind (decode_instructions (rtx_transaction t) meta) (\<lambda>instructions.
     result_bind (ok_or (RpcInvalidResponse ''getTransaction omitted log messages'') (meta_log_messages meta)) (\<lambda>logs.
     result_bind (compact_error json_text (meta_error meta)) (\<lambda>error.
     Inr \<lparr>tx_slot = rtx_slot t, tx_transaction_index = rtx_transaction_index t, tx_signature = sig,
          tx_block_time_unix_seconds = rtx_block_time t, tx_instructions = instructions,
          tx_log_messages = logs, tx_transaction_error = error\<rparr>))))"

definition client_transaction ::
    "('v \<Rightarrow> (string, string) result) \<Rightarrow> string \<Rightarrow> read_context \<Rightarrow> (rpc_error, 'v rpc_transaction option) result
      \<Rightarrow> (rpc_error, transaction_record option) result" where
  "client_transaction json_text sig context' answer =
     (if sig = [] then Inl (RpcInvalidRequest ''transaction signature cannot be empty'')
      else result_bind answer (\<lambda>found.
      case found of
        None \<Rightarrow> Inr None
      | Some t \<Rightarrow>
          result_bind (validate_primary_signature sig (rtx_transaction t)) (\<lambda>_.
          case ctx_minimum_slot context' of
            Some minimum \<Rightarrow>
              if rtx_slot t < minimum
              then Inl (RpcUnavailable (''transaction slot '' @ show_nat (unat (rtx_slot t))
                     @ '' is below required minimum '' @ show_nat (unat minimum)))
              else map_sum id Some (transaction_parts json_text sig t)
          | None \<Rightarrow> map_sum id Some (transaction_parts json_text sig t))))"

section \<open>Accounts\<close>

record rpc_account =
  racc_data :: "string \<times> string"
  racc_executable :: bool
  racc_lamports :: u64
  racc_owner :: string

definition client_account ::
    "string \<Rightarrow> (rpc_error, u64 \<times> rpc_account option) result \<Rightarrow> (rpc_error, account_record option) result" where
  "client_account address answer =
     (if address = [] then Inl (RpcInvalidRequest ''account address cannot be empty'')
      else result_bind answer (\<lambda>(context_slot, found).
      case found of
        None \<Rightarrow> Inr None
      | Some a \<Rightarrow>
          if snd (racc_data a) \<noteq> ''base64''
          then Inl (RpcInvalidResponse (''getAccountInfo returned unsupported encoding '' @ snd (racc_data a)))
          else Inr (Some \<lparr>account_address = address, account_owner = racc_owner a, account_slot = context_slot,
                         account_encoded_data = fst (racc_data a), account_lamports = racc_lamports a,
                         account_executable = racc_executable a\<rparr>)))"

end
