(* ===== verification/Recovery.thy ===== *)
theory Recovery
  imports Rpc_Client
begin

text \<open>
  Recovering the signatures of a program after an outage, \<open>crates/solana-rpc/src/recovery.rs\<close>. The
  pager is a record; a method that takes \<open>&mut self\<close> returns the changed pager beside its result,
  also where it fails half way. The loop that asks for pages and hands them to the pager is the
  caller's: \<open>drive\<close> stands for it, with the server as a function from requests to pages.
\<close>

section \<open>The pager\<close>

record recovery_batch =
  rb_program_id :: string
  records_oldest_first :: "signature_record list"
  rb_head_checkpoint :: "recovery_checkpoint option"
  rb_pages_fetched :: usize

datatype recovery_progress = RecoveryMore | RecoveryComplete recovery_batch

record recovery_pager =
  pg_program_id :: string
  pg_context :: read_context
  pg_page_size :: usize
  pg_max_records :: usize
  pg_checkpoint :: "recovery_checkpoint option"
  pg_before :: "string option"
  pg_records :: "signature_record list"
  pg_pages_fetched :: usize
  pg_complete :: bool

definition initial_head :: "string \<Rightarrow> usize \<Rightarrow> read_context \<Rightarrow> (rpc_error, recovery_pager) result" where
  "initial_head program_id page_size context' =
     result_bind (signature_page_request_new program_id None page_size context') (\<lambda>_.
     Inr \<lparr>pg_program_id = program_id, pg_context = context', pg_page_size = page_size,
          pg_max_records = page_size, pg_checkpoint = None, pg_before = None, pg_records = [],
          pg_pages_fetched = 0, pg_complete = False\<rparr>)"

definition after_checkpoint ::
    "recovery_checkpoint \<Rightarrow> usize \<Rightarrow> usize \<Rightarrow> read_context \<Rightarrow> (rpc_error, recovery_pager) result" where
  "after_checkpoint checkpoint page_size max_records context' =
     (if cp_program_id checkpoint = [] \<or> cp_last_signature checkpoint = []
      then Inl (RpcInvalidRequest ''recovery checkpoint program and signature cannot be empty'')
      else result_bind (signature_page_request_new (cp_program_id checkpoint) None page_size context') (\<lambda>_.
      if max_records < page_size
      then Inl (RpcInvalidRequest ''recovery max_records cannot be smaller than page_size'')
      else Inr \<lparr>pg_program_id = cp_program_id checkpoint, pg_context = context', pg_page_size = page_size,
                pg_max_records = max_records, pg_checkpoint = Some checkpoint, pg_before = None,
                pg_records = [], pg_pages_fetched = 0, pg_complete = False\<rparr>))"

definition next_request :: "recovery_pager \<Rightarrow> (rpc_error, signature_page_request) result" where
  "next_request p =
     (if pg_complete p then Inl (RecoveryProtocol ''pager is already complete'')
      else signature_page_request_new (pg_program_id p) (pg_before p) (pg_page_size p) (pg_context p))"

definition validate_page_shape :: "signature_page \<Rightarrow> (rpc_error, unit) result" where
  "validate_page_shape page =
     (if req_limit (page_request page) < length (records_newest_first page)
      then Inl (RecoveryProtocol ''page exceeded requested limit'')
      else if exhausted page \<and> next_before page \<noteq> None
      then Inl (RecoveryProtocol ''exhausted page included next_before'')
      else if \<not> exhausted page \<and> next_before page \<noteq> last_signature_of (records_newest_first page)
      then Inl (RecoveryProtocol ''next_before did not identify the oldest page record'')
      else Inr ())"

definition ensure_capacity :: "recovery_pager \<Rightarrow> nat \<Rightarrow> (rpc_error, unit) result" where
  "ensure_capacity p additional =
     (if pg_max_records p < saturating_add_usize (length (pg_records p)) additional
      then Inl (RecoveryLimitExceeded (pg_max_records p)) else Inr ())"

definition checkpoint_of :: "recovery_pager \<Rightarrow> signature_record \<Rightarrow> recovery_checkpoint" where
  "checkpoint_of p r =
     \<lparr>cp_program_id = pg_program_id p, cp_last_slot = sig_slot r,
      cp_last_transaction_index = sig_transaction_index r, cp_last_signature = sig_signature r\<rparr>"

definition head_checkpoint :: "recovery_pager \<Rightarrow> recovery_checkpoint option" where
  "head_checkpoint p =
     (case pg_records p of r # _ \<Rightarrow> Some (checkpoint_of p r) | [] \<Rightarrow> pg_checkpoint p)"

definition finish_batch :: "recovery_checkpoint option \<Rightarrow> recovery_pager \<Rightarrow> recovery_batch \<times> recovery_pager" where
  "finish_batch head p =
     (let records = pg_records p;
          head' = (case head of
              Some c \<Rightarrow> Some c
            | None \<Rightarrow> (case records of r # _ \<Rightarrow> Some (checkpoint_of p r) | [] \<Rightarrow> None))
      in (\<lparr>rb_program_id = pg_program_id p, records_oldest_first = rev records,
           rb_head_checkpoint = head', rb_pages_fetched = pg_pages_fetched p\<rparr>,
          p\<lparr>pg_complete := True, pg_records := []\<rparr>))"

definition accept_page :: "signature_page \<Rightarrow> recovery_pager \<Rightarrow> (rpc_error, recovery_progress) result \<times> recovery_pager" where
  "accept_page page p =
     (case next_request p of
        Inl e \<Rightarrow> (Inl e, p)
      | Inr expected \<Rightarrow>
     if page_request page \<noteq> expected
     then (Inl (RecoveryProtocol ''page does not match the outstanding request''), p)
     else case validate_page_shape page of
        Inl e \<Rightarrow> (Inl e, p)
      | Inr _ \<Rightarrow>
     let p1 = p\<lparr>pg_pages_fetched := pg_pages_fetched p + 1\<rparr>; records = records_newest_first page in
     case pg_checkpoint p1 of
        None \<Rightarrow>
          (case finish_batch None (p1\<lparr>pg_records := pg_records p1 @ records\<rparr>) of
             (batch, p2) \<Rightarrow> (Inr (RecoveryComplete batch), p2))
      | Some checkpoint \<Rightarrow>
     case position (\<lambda>r. sig_signature r = cp_last_signature checkpoint) records of
        Some index \<Rightarrow>
          if sig_slot (records ! index) \<noteq> cp_last_slot checkpoint
          then (Inl (RecoveryProtocol (''checkpoint signature slot '' @ show_nat (unat (sig_slot (records ! index)))
                  @ '' did not match durable slot '' @ show_nat (unat (cp_last_slot checkpoint)))), p1)
          else (case ensure_capacity p1 index of
             Inl e \<Rightarrow> (Inl e, p1)
           | Inr _ \<Rightarrow>
               let p2 = p1\<lparr>pg_records := pg_records p1 @ take index records\<rparr> in
               (case finish_batch (head_checkpoint p2) p2 of
                  (batch, p3) \<Rightarrow> (Inr (RecoveryComplete batch), p3)))
      | None \<Rightarrow>
     case ensure_capacity p1 (length records) of
        Inl e \<Rightarrow> (Inl e, p1)
      | Inr _ \<Rightarrow>
     let p2 = p1\<lparr>pg_records := pg_records p1 @ records\<rparr> in
     if exhausted page
     then (Inl (RecoveryCheckpointNotFound (cp_program_id checkpoint) (cp_last_slot checkpoint)
             (cp_last_signature checkpoint)), p2)
     else case next_before page of
        None \<Rightarrow> (Inl (RecoveryProtocol ''non-exhausted page omitted next_before''), p2)
      | Some cursor \<Rightarrow>
          if pg_before p2 = Some cursor
          then (Inl (RecoveryProtocol ''signature cursor did not advance''), p2)
          else (Inr RecoveryMore, p2\<lparr>pg_before := Some cursor\<rparr>))"

section \<open>The caller\<close>

text \<open>
  At most so many pages are asked for; \<open>None\<close> means that the pager still wanted another one. The
  server answers a request with a page or an error, and may answer the same request differently
  from one time to the next: it is told how many pages it has served.
\<close>

fun drive ::
    "(nat \<Rightarrow> signature_page_request \<Rightarrow> (rpc_error, signature_page) result) \<Rightarrow> nat \<Rightarrow> recovery_pager
      \<Rightarrow> (rpc_error, recovery_batch) result option" where
  "drive server 0 p = None"
| "drive server (Suc n) p =
     (case next_request p of
        Inl e \<Rightarrow> Some (Inl e)
      | Inr request \<Rightarrow>
          (case server (pg_pages_fetched p) request of
             Inl e \<Rightarrow> Some (Inl e)
           | Inr page \<Rightarrow>
               (case accept_page page p of
                  (Inl e, _) \<Rightarrow> Some (Inl e)
                | (Inr (RecoveryComplete batch), _) \<Rightarrow> Some (Inr batch)
                | (Inr RecoveryMore, p') \<Rightarrow> drive server n p')))"

end
