(* ===== verification/Recovery_Correct.thy ===== *)
theory Recovery_Correct
  imports Recovery
begin

text \<open>
  Recovery after an outage: the pager ends after a bounded number of pages whatever the server
  answers, releases nothing but the whole gap up to its checkpoint, and with a node that serves the
  history of the program it releases exactly the records that are newer than the checkpoint.
\<close>

section \<open>One page\<close>

lemma position_None: "position f xs = None \<longleftrightarrow> (\<forall>x\<in>set xs. \<not> f x)"
  by (induction xs) auto

lemma position_Some: "position f xs = Some i \<longleftrightarrow> i < length xs \<and> f (xs ! i) \<and> (\<forall>x\<in>set (take i xs). \<not> f x)"
proof (induction xs arbitrary: i)
  case (Cons x xs)
  then show ?case by (cases i) auto
qed simp

lemma position_map: "position f (map g xs) = position (\<lambda>x. f (g x)) xs"
  by (induction xs) simp_all

definition asks_for :: "recovery_checkpoint \<Rightarrow> signature_record \<Rightarrow> bool" where
  "asks_for cp r \<longleftrightarrow> sig_signature r = cp_last_signature cp"

lemma fits: "ensure_capacity p n = Inr u \<Longrightarrow> pg_max_records p < usize_max \<Longrightarrow> length (pg_records p) + n \<le> pg_max_records p"
  by (auto simp: ensure_capacity_def saturating_add_usize_def split: if_splits)

lemma accept_page_more:
  assumes "accept_page page p = (Inr RecoveryMore, p')" and "pg_checkpoint p = Some cp" and "pg_max_records p < usize_max"
  shows "records_newest_first page \<noteq> []"
    and "\<forall>r\<in>set (records_newest_first page). \<not> asks_for cp r"
    and "p' = p\<lparr>pg_pages_fetched := pg_pages_fetched p + 1, pg_records := pg_records p @ records_newest_first page,
                pg_before := last_signature_of (records_newest_first page)\<rparr>"
    and "length (pg_records p') \<le> pg_max_records p'"
proof -
  let ?rs = "records_newest_first page"
  from assms obtain cursor where
      shape: "validate_page_shape page = Inr ()" and none: "position (\<lambda>r. sig_signature r = cp_last_signature cp) ?rs = None"
      and cap: "ensure_capacity (p\<lparr>pg_pages_fetched := pg_pages_fetched p + 1\<rparr>) (length ?rs) = Inr ()"
      and cursor: "\<not> exhausted page" "next_before page = Some cursor"
      and p': "p' = p\<lparr>pg_pages_fetched := pg_pages_fetched p + 1, pg_records := pg_records p @ ?rs, pg_before := Some cursor\<rparr>"
    by (auto simp: accept_page_def Let_def split: sum.splits option.splits if_splits prod.splits)
  have "Some cursor = last_signature_of ?rs"
    using shape cursor by (auto simp: validate_page_shape_def split: if_splits)
  then show "?rs \<noteq> []" and "p' = p\<lparr>pg_pages_fetched := pg_pages_fetched p + 1, pg_records := pg_records p @ ?rs,
      pg_before := last_signature_of ?rs\<rparr>"
    using p' by (auto simp: last_signature_of_def)
  show "\<forall>r\<in>set ?rs. \<not> asks_for cp r" using none by (auto simp: position_None asks_for_def)
  show "length (pg_records p') \<le> pg_max_records p'" using fits [OF cap] assms(3) p' by simp
qed

section \<open>Recovery ends\<close>

lemma drive_ends:
  assumes "pg_checkpoint p = Some cp" and "pg_max_records p < usize_max"
    and "pg_max_records p < n + length (pg_records p)"
    and "length (pg_records p) \<le> pg_max_records p"
  shows "drive server n p \<noteq> None"
  using assms
proof (induction n arbitrary: p)
  case (Suc n)
  have "drive server n p' \<noteq> None" if more: "accept_page page p = (Inr RecoveryMore, p')" for page p'
  proof (rule Suc.IH)
    note m = accept_page_more [OF more Suc.prems(1,2)]
    show "pg_checkpoint p' = Some cp" "pg_max_records p' < usize_max" using Suc.prems(1,2) m(3) by simp_all
    show "length (pg_records p') \<le> pg_max_records p'" by (rule m(4))
    show "pg_max_records p' < n + length (pg_records p')" using Suc.prems(3) m(1,3) by (cases "records_newest_first page") auto
  qed
  then show ?case by (auto split: sum.splits prod.splits recovery_progress.splits)
qed simp

section \<open>The interface between the pager and its source of pages\<close>

text \<open>A chain of records, newest first; the cursor behind a number of them; the page that comes next.\<close>

definition cursor_at :: "signature_record list \<Rightarrow> nat \<Rightarrow> string option" where
  "cursor_at chain m = (if m = 0 then None else Some (sig_signature (chain ! (m - 1))))"

definition page_of :: "signature_record list \<Rightarrow> nat \<Rightarrow> signature_page_request \<Rightarrow> signature_page" where
  "page_of chain m request =
     (let rs = take (req_limit request) (drop m chain); exhausted' = (length rs < req_limit request) in
      \<lparr>page_request = request, records_newest_first = rs,
       next_before = (if exhausted' then None else last_signature_of rs), exhausted = exhausted'\<rparr>)"

text \<open>The place of the checkpoint in the chain, and the batch of everything that is newer.\<close>

definition found_at :: "recovery_checkpoint \<Rightarrow> usize \<Rightarrow> signature_record list \<Rightarrow> nat \<Rightarrow> bool" where
  "found_at cp maximum chain k \<longleftrightarrow>
     k < length chain \<and> asks_for cp (chain ! k) \<and> sig_slot (chain ! k) = cp_last_slot cp \<and> k \<le> maximum"

definition gap_batch :: "recovery_checkpoint \<Rightarrow> usize \<Rightarrow> signature_record list \<Rightarrow> nat \<Rightarrow> recovery_batch" where
  "gap_batch cp size' chain k =
     \<lparr>rb_program_id = cp_program_id cp, records_oldest_first = rev (take k chain),
      rb_head_checkpoint = Some (if k = 0 then cp
        else \<lparr>cp_program_id = cp_program_id cp, cp_last_slot = sig_slot (chain ! 0),
              cp_last_transaction_index = sig_transaction_index (chain ! 0), cp_last_signature = sig_signature (chain ! 0)\<rparr>),
      rb_pages_fetched = k div size' + 1\<rparr>"

text \<open>The pager after so many full pages.\<close>

definition pager_at ::
    "recovery_checkpoint \<Rightarrow> usize \<Rightarrow> usize \<Rightarrow> read_context \<Rightarrow> signature_record list \<Rightarrow> nat \<Rightarrow> recovery_pager" where
  "pager_at cp size' maximum ctx chain j =
     \<lparr>pg_program_id = cp_program_id cp, pg_context = ctx, pg_page_size = size', pg_max_records = maximum,
      pg_checkpoint = Some cp, pg_before = cursor_at chain (j * size'),
      pg_records = take (j * size') chain, pg_pages_fetched = j, pg_complete = False\<rparr>"

definition pages_wanted :: "recovery_checkpoint \<Rightarrow> usize \<Rightarrow> usize \<Rightarrow> bool" where
  "pages_wanted cp size' maximum \<longleftrightarrow>
     cp_program_id cp \<noteq> [] \<and> 0 < size' \<and> size' \<le> MAX_SIGNATURE_PAGE_SIZE \<and> maximum < usize_max"

locale page_source =
  fixes source :: "signature_page_request \<Rightarrow> (rpc_error, signature_page) result" and chain :: "signature_record list"
  assumes chain_distinct: "distinct (map sig_signature chain)"
    and chain_named: "r \<in> set chain \<Longrightarrow> sig_signature r \<noteq> []"
    and source_page: "signature_page_request_new program before limit ctx = Inr request \<Longrightarrow>
      m \<le> length chain \<Longrightarrow> before = cursor_at chain m \<Longrightarrow> source request = Inr (page_of chain m request)"
begin

lemma place_unique: "i < length chain \<Longrightarrow> k < length chain \<Longrightarrow> sig_signature (chain ! i) = sig_signature (chain ! k) \<Longrightarrow> i = k"
  using chain_distinct nth_eq_iff_index_eq [of "map sig_signature chain" i k] by simp

lemma request_at:
  assumes "pages_wanted cp size' maximum" and "j * size' \<le> length chain"
  obtains request where "next_request (pager_at cp size' maximum ctx chain j) = Inr request" "req_limit request = size'"
    "source request = Inr (page_of chain (j * size') request)"
proof -
  let ?request = "\<lparr>req_program_id = cp_program_id cp, req_before = cursor_at chain (j * size'), req_limit = size', req_context = ctx\<rparr>"
  have "cursor_at chain (j * size') \<noteq> Some []"
  proof (cases "j * size' = 0")
    case False
    then have "j * size' - 1 < length chain" using assms(2) by linarith
    then show ?thesis using False chain_named [OF nth_mem] by (simp add: cursor_at_def)
  qed (simp add: cursor_at_def)
  then have new: "signature_page_request_new (cp_program_id cp) (cursor_at chain (j * size')) size' ctx = Inr ?request"
    using assms(1) by (simp add: signature_page_request_new_def pages_wanted_def)
  then have "next_request (pager_at cp size' maximum ctx chain j) = Inr ?request"
    by (simp add: next_request_def pager_at_def)
  then show ?thesis using that [of ?request] source_page [OF new assms(2) refl] by simp
qed

end

section \<open>What the pager makes of the next page\<close>

lemma page_of_simps [simp]:
  "page_request (page_of chain m request) = request"
  "records_newest_first (page_of chain m request) = take (req_limit request) (drop m chain)"
  "exhausted (page_of chain m request) \<longleftrightarrow> length chain - m < req_limit request"
  "next_before (page_of chain m request) =
     (if length chain - m < req_limit request then None else last_signature_of (take (req_limit request) (drop m chain)))"
  by (simp_all add: page_of_def Let_def min_def)

lemma page_shape: "validate_page_shape (page_of chain m request) = Inr ()"
  by (auto simp: validate_page_shape_def)

lemma capacity_at:
  assumes "maximum < usize_max" and "j * size' \<le> length chain"
  shows "ensure_capacity ((pager_at cp size' maximum ctx chain j)\<lparr>pg_pages_fetched := n\<rparr>) i =
      (if maximum < j * size' + i then Inl (RecoveryLimitExceeded maximum) else Inr ())"
  using assms by (auto simp: ensure_capacity_def pager_at_def saturating_add_usize_def min_def)

lemma released:
  assumes "i < size'" and "j * size' + i < length chain"
    and "p = (pager_at cp size' maximum ctx chain j)\<lparr>pg_pages_fetched := j + 1, pg_records := take (j * size' + i) chain\<rparr>"
  shows "finish_batch (head_checkpoint p) p = (gap_batch cp size' chain (j * size' + i), p\<lparr>pg_complete := True, pg_records := []\<rparr>)"
proof -
  have "(j * size' + i) div size' = j" using assms(1) by simp
  moreover obtain r rs where "chain = r # rs" using assms(2) by (cases chain) auto
  ultimately show ?thesis
    using assms(3) by (cases "j * size' + i")
      (simp_all add: finish_batch_def head_checkpoint_def gap_batch_def pager_at_def checkpoint_of_def Let_def)
qed

lemma accept_found:
  assumes "next_request (pager_at cp size' maximum ctx chain j) = Inr request" and "req_limit request = size'"
    and "maximum < usize_max" and "j * size' \<le> length chain"
    and i: "position (asks_for cp) (take size' (drop (j * size') chain)) = Some i"
  shows "accept_page (page_of chain (j * size') request) (pager_at cp size' maximum ctx chain j) =
    (let k = j * size' + i; p1 = (pager_at cp size' maximum ctx chain j)\<lparr>pg_pages_fetched := j + 1\<rparr> in
     if sig_slot (chain ! k) \<noteq> cp_last_slot cp
     then (Inl (RecoveryProtocol (''checkpoint signature slot '' @ show_nat (unat (sig_slot (chain ! k)))
             @ '' did not match durable slot '' @ show_nat (unat (cp_last_slot cp)))), p1)
     else if maximum < k then (Inl (RecoveryLimitExceeded maximum), p1)
     else (Inr (RecoveryComplete (gap_batch cp size' chain k)), p1\<lparr>pg_records := [], pg_complete := True\<rparr>))"
proof -
  let ?k = "j * size' + i" and ?rs = "take size' (drop (j * size') chain)"
    and ?p1 = "(pager_at cp size' maximum ctx chain j)\<lparr>pg_pages_fetched := j + 1\<rparr>"
  have f: "i < size'" "?k < length chain" "?rs ! i = chain ! ?k" using i by (auto simp: position_Some)
  have records: "pg_records ?p1 @ take i ?rs = take ?k chain" using f(1) by (simp add: pager_at_def take_add min_def)
  have "position (\<lambda>r. sig_signature r = cp_last_signature cp) ?rs = Some i" using i by (simp add: asks_for_def [abs_def])
  moreover have "pg_pages_fetched (pager_at cp size' maximum ctx chain j) = j" "pg_checkpoint ?p1 = Some cp"
    by (simp_all add: pager_at_def)
  ultimately show ?thesis
    using assms(1,2) page_shape [of chain "j * size'" request] f records capacity_at [OF assms(3,4)] released [OF f(1,2) refl]
    by (simp add: accept_page_def Let_def)
qed

lemma accept_missing:
  assumes "next_request (pager_at cp size' maximum ctx chain j) = Inr request" and "req_limit request = size'"
    and "maximum < usize_max" and "j * size' \<le> length chain"
    and none: "position (asks_for cp) (take size' (drop (j * size') chain)) = None"
  shows "maximum < j * size' + length (take size' (drop (j * size') chain)) \<or> length chain < Suc j * size' \<Longrightarrow>
      \<exists>e p'. accept_page (page_of chain (j * size') request) (pager_at cp size' maximum ctx chain j) = (Inl e, p')"
    and "Suc j * size' \<le> length chain \<Longrightarrow> Suc j * size' \<le> maximum \<Longrightarrow> 0 < size' \<Longrightarrow> distinct (map sig_signature chain) \<Longrightarrow>
      accept_page (page_of chain (j * size') request) (pager_at cp size' maximum ctx chain j)
        = (Inr RecoveryMore, pager_at cp size' maximum ctx chain (Suc j))"
proof -
  let ?at = "pager_at cp size' maximum ctx chain" and ?rs = "take size' (drop (j * size') chain)"
  have "position (\<lambda>r. sig_signature r = cp_last_signature cp) ?rs = None" using none by (simp add: asks_for_def [abs_def])
  note simps = this assms(1,2) page_shape [of chain "j * size'" request] capacity_at [OF assms(3,4)]
  have fields: "pg_pages_fetched (?at j) = j" "pg_checkpoint (?at j) = Some cp" by (simp_all add: pager_at_def)
  show "\<exists>e p'. accept_page (page_of chain (j * size') request) (?at j) = (Inl e, p')"
    if "maximum < j * size' + length ?rs \<or> length chain < Suc j * size'"
  proof (cases "maximum < j * size' + length ?rs")
    case True
    then show ?thesis using simps fields by (simp add: accept_page_def Let_def)
  next
    case False
    then have "length chain - j * size' < size'" using that assms(4) by auto
    then show ?thesis using False simps fields by (simp add: accept_page_def Let_def)
  qed
  show "accept_page (page_of chain (j * size') request) (?at j) = (Inr RecoveryMore, ?at (Suc j))"
    if m: "Suc j * size' \<le> length chain" "Suc j * size' \<le> maximum" "0 < size'" "distinct (map sig_signature chain)"
  proof -
    have len: "length ?rs = size'" using m(1) by simp
    have "last ?rs = chain ! (Suc j * size' - 1)" using m by (simp add: last_conv_nth add.commute)
    moreover have "?rs \<noteq> []" using len m(3) by (metis length_0_conv less_irrefl)
    ultimately have cursor: "last_signature_of ?rs = cursor_at chain (Suc j * size')"
      using m(3) by (simp add: last_signature_of_def cursor_at_def)
    have "sig_signature (chain ! (j * size' - 1)) \<noteq> sig_signature (chain ! (Suc j * size' - 1))" if "0 < j * size'"
    proof -
      have less: "j * size' - 1 < length chain" "Suc j * size' - 1 < length chain" "j * size' - 1 \<noteq> Suc j * size' - 1"
        using that m(1,3) unfolding mult_Suc by linarith+
      then show ?thesis using nth_eq_iff_index_eq [OF m(4), of "j * size' - 1" "Suc j * size' - 1"] by simp
    qed
    then have "cursor_at chain (j * size') \<noteq> cursor_at chain (Suc j * size')" using m(3) by (simp add: cursor_at_def)
    moreover have "take (Suc j * size') chain = take (j * size') chain @ ?rs" by (simp add: take_add [symmetric] add.commute)
    ultimately show ?thesis
      using simps fields m len cursor by (auto simp: accept_page_def Let_def pager_at_def cursor_at_def add.commute)
  qed
qed

context page_source
begin

lemma found_unique: "found_at cp maximum chain k \<Longrightarrow> k' < length chain \<Longrightarrow> asks_for cp (chain ! k') \<Longrightarrow> k = k'"
  using place_unique [of k k'] by (simp add: found_at_def asks_for_def)

lemma drive_chain:
  assumes "pages_wanted cp size' maximum"
    and "drive (\<lambda>_. source) n (pager_at cp size' maximum ctx chain j) = Some res"
    and "j * size' \<le> length chain" and "\<forall>r\<in>set (take (j * size') chain). \<not> asks_for cp r"
  shows "res = Inr batch \<longleftrightarrow> (\<exists>k. found_at cp maximum chain k \<and> batch = gap_batch cp size' chain k)"
  using assms(2-)
proof (induction n arbitrary: j)
  case (Suc n)
  let ?at = "pager_at cp size' maximum ctx chain" and ?rs = "take size' (drop (j * size') chain)"
  have wanted: "maximum < usize_max" "0 < size'" using assms(1) by (simp_all add: pages_wanted_def)
  obtain request where r: "next_request (?at j) = Inr request" "req_limit request = size'"
    "source request = Inr (page_of chain (j * size') request)"
    using request_at [OF assms(1) Suc.prems(2)] .
  show ?case
  proof (cases "position (asks_for cp) ?rs")
    case (Some i)
    note accept = accept_found [OF r(1,2) wanted(1) Suc.prems(2) Some]
    have k: "j * size' + i < length chain" "asks_for cp (chain ! (j * size' + i))" using Some by (auto simp: position_Some)
    have "\<exists>e. res = Inl e" if "\<not> found_at cp maximum chain (j * size' + i)"
      using that Suc.prems(1) r accept k by (auto simp: found_at_def Let_def split: if_splits)
    moreover have "res = Inr (gap_batch cp size' chain (j * size' + i))" if "found_at cp maximum chain (j * size' + i)"
      using that Suc.prems(1) r accept by (auto simp: found_at_def Let_def)
    ultimately show ?thesis using found_unique [OF _ k] by (cases "found_at cp maximum chain (j * size' + i)") blast+
  next
    case None
    note accept = accept_missing [OF r(1,2) wanted(1) Suc.prems(2) None]
    have "take (j * size' + length ?rs) chain = take (j * size') chain @ ?rs" by (simp add: take_add min_def)
    then have unseen: "\<forall>r\<in>set (take (j * size' + length ?rs) chain). \<not> asks_for cp r"
      using Suc.prems(3) None by (auto simp: position_None)
    have late: "j * size' + length ?rs \<le> k" if "found_at cp maximum chain k" for k
    proof (rule ccontr)
      assume "\<not> ?thesis"
      then have "chain ! k \<in> set (take (j * size' + length ?rs) chain)" using that by (force simp: found_at_def in_set_conv_nth)
      then show False using unseen that by (auto simp: found_at_def)
    qed
    show ?thesis
    proof (cases "maximum < j * size' + length ?rs \<or> length chain < Suc j * size'")
      case True
      then have "\<not> found_at cp maximum chain k" for k using late [of k] Suc.prems(2) by (auto simp: found_at_def)
      then show ?thesis using accept(1) [OF True] Suc.prems(1) r by auto
    next
      case False
      then have next': "Suc j * size' \<le> length chain" "Suc j * size' \<le> maximum" by auto
      have "drive (\<lambda>_. source) n (?at (Suc j)) = Some res"
        using accept(2) [OF next' wanted(2) chain_distinct] Suc.prems(1) r by simp
      moreover have "\<forall>r\<in>set (take (Suc j * size') chain). \<not> asks_for cp r" using unseen next'(1) by (simp add: add.commute)
      ultimately show ?thesis using Suc.IH [of "Suc j"] next'(1) by blast
    qed
  qed
qed simp

end

section \<open>The client as a source of pages\<close>

text \<open>The records that are older than a cursor, and the answer of a node that has the whole history.\<close>

fun older_than :: "string option \<Rightarrow> 'v rpc_signature_record list \<Rightarrow> 'v rpc_signature_record list" where
  "older_than None hs = hs"
| "older_than (Some cursor) hs = drop 1 (dropWhile (\<lambda>r. rsr_signature r \<noteq> cursor) hs)"

definition serves :: "'v rpc_signature_record list \<Rightarrow> signature_page_request \<Rightarrow> (rpc_error, 'v rpc_signature_record list) result" where
  "serves hs request = Inr (take (req_limit request) (older_than (req_before request) hs))"

text \<open>What the client makes of a record, when its error can be shown.\<close>

definition converted :: "('v \<Rightarrow> (string, string) result) \<Rightarrow> 'v rpc_signature_record \<Rightarrow> signature_record" where
  "converted json_text r =
     \<lparr>sig_slot = rsr_slot r, sig_transaction_index = rsr_transaction_index r, sig_signature = rsr_signature r,
      sig_block_time_unix_seconds = rsr_block_time r, sig_confirmation_status = rsr_confirmation_status r,
      sig_transaction_error = (case compact_error json_text (rsr_error r) of Inr e \<Rightarrow> e | Inl _ \<Rightarrow> None)\<rparr>"

lemma converted_simps [simp]:
  "sig_slot (converted json_text r) = rsr_slot r" "sig_signature (converted json_text r) = rsr_signature r"
  by (simp_all add: converted_def)

text \<open>A history: newest first, every signature once, no signature empty, every error can be shown.\<close>

definition valid_history :: "('v \<Rightarrow> (string, string) result) \<Rightarrow> 'v rpc_signature_record list \<Rightarrow> bool" where
  "valid_history json_text hs \<longleftrightarrow>
     sorted_wrt (\<lambda>r r'. rsr_slot r' \<le> rsr_slot r) hs \<and> distinct (map rsr_signature hs)
     \<and> (\<forall>r\<in>set hs. rsr_signature r \<noteq> [] \<and> (\<exists>e. compact_error json_text (rsr_error r) = Inr e))"

lemma signature_records_converted:
  assumes "valid_history json_text hs" and "\<forall>r\<in>set hs. rsr_slot r \<le> previous \<and> rsr_signature r \<notin> seen"
  shows "signature_records json_text previous seen hs = Inr (map (converted json_text) hs)"
  using assms
proof (induction hs arbitrary: previous seen)
  case (Cons r hs)
  have "signature_records json_text (rsr_slot r) (insert (rsr_signature r) seen) hs = Inr (map (converted json_text) hs)"
    using Cons.prems by (intro Cons.IH) (auto simp: valid_history_def image_iff)
  then show ?case using Cons.prems by (auto simp: valid_history_def converted_def not_less)
qed simp

lemma valid_history_part: "valid_history json_text hs \<Longrightarrow> valid_history json_text (take n (drop m hs))"
  unfolding valid_history_def
  by (auto simp: sorted_wrt_take sorted_wrt_drop take_map [symmetric] drop_map [symmetric] distinct_take distinct_drop
      dest!: in_set_takeD in_set_dropD)

lemma older_at:
  assumes "distinct (map rsr_signature hs)" and "m \<le> length hs"
  shows "older_than (cursor_at (map (converted json_text) hs) m) hs = drop m hs"
proof (cases "m = 0")
  case False
  let ?f = "\<lambda>r. rsr_signature r \<noteq> rsr_signature (hs ! (m - 1))"
  have "length (takeWhile (\<lambda>a. a \<noteq> map rsr_signature hs ! (m - 1)) (map rsr_signature hs)) = m - 1"
    by (rule length_takeWhile_nth) (use assms False in simp_all)
  then have "length (takeWhile ?f hs) = m - 1" using assms False by (simp add: takeWhile_map comp_def)
  then have "dropWhile ?f hs = drop (m - 1) hs" by (simp add: dropWhile_eq_drop)
  then show ?thesis using False assms by (simp add: cursor_at_def)
qed (simp add: cursor_at_def)

text \<open>The history, where it is valid.\<close>

definition checked_history :: "('v \<Rightarrow> (string, string) result) \<Rightarrow> 'v rpc_signature_record list \<Rightarrow> 'v rpc_signature_record list" where
  "checked_history json_text hs = (if valid_history json_text hs then hs else [])"

lemma checked_history_valid: "valid_history json_text (checked_history json_text hs)"
  by (simp add: checked_history_def) (simp add: valid_history_def)

interpretation client: page_source
    "client_signature_page json_text (serves (checked_history json_text hs))"
    "map (converted json_text) (checked_history json_text hs)" for json_text hs
proof
  let ?hs = "checked_history json_text hs"
  have valid: "valid_history json_text ?hs" by (rule checked_history_valid)
  then have sigs: "distinct (map rsr_signature ?hs)" by (simp add: valid_history_def)
  then show "distinct (map sig_signature (map (converted json_text) ?hs))" by (simp add: comp_def)
  show "sig_signature r \<noteq> []" if "r \<in> set (map (converted json_text) ?hs)" for r
    using that valid by (auto simp: valid_history_def)
  show "client_signature_page json_text (serves ?hs) request = Inr (page_of (map (converted json_text) ?hs) m request)"
    if new: "signature_page_request_new program before limit ctx = Inr request"
      and m: "m \<le> length (map (converted json_text) ?hs)" and before: "before = cursor_at (map (converted json_text) ?hs) m"
    for program before limit ctx request m
  proof -
    have request: "request = \<lparr>req_program_id = program, req_before = before, req_limit = limit, req_context = ctx\<rparr>"
      using new by (simp add: signature_page_request_new_def split: if_splits)
    have "older_than (req_before request) ?hs = drop m ?hs" using older_at [OF sigs] m before request by simp
    moreover have "signature_records json_text (- 1) {} (take limit (drop m ?hs)) = Inr (map (converted json_text) (take limit (drop m ?hs)))"
      by (rule signature_records_converted [OF valid_history_part [OF valid]]) simp
    ultimately show ?thesis
      using new request by (simp add: client_signature_page_def serves_def page_of_def Let_def take_map drop_map)
  qed
qed

section \<open>The claims\<close>

lemma after_checkpoint_Inr:
  assumes "after_checkpoint cp size' maximum ctx = Inr p"
  shows "cp_program_id cp \<noteq> []" and "0 < size'" and "size' \<le> MAX_SIGNATURE_PAGE_SIZE"
    and "p = pager_at cp size' maximum ctx chain 0"
  using assms
  by (auto simp: after_checkpoint_def signature_page_request_new_def pager_at_def cursor_at_def split: if_splits)

lemma drive_initial_ends:
  assumes "after_checkpoint cp size' maximum ctx = Inr p" and "maximum < usize_max"
  shows "\<exists>res. drive server (Suc maximum) p = Some res"
proof -
  have "drive server (Suc maximum) p \<noteq> None"
    using after_checkpoint_Inr(4) [OF assms(1), of "[]"] assms(2)
    by (intro drive_ends [of p cp]) (simp_all add: pager_at_def)
  then show ?thesis by blast
qed

text \<open>
  C32: recovery ends whatever the server does. A pager for a checkpoint, driven with the pages or
  errors of any server, which may answer the same request differently every time, is done after at
  most one page more than the records it may hold: it has released its batch or failed.
\<close>

theorem recovery_ends:
  assumes "after_checkpoint cp size' maximum ctx = Inr p" and "maximum < usize_max"
  shows "\<exists>res. drive server (Suc maximum) p = Some res"
  by (rule drive_initial_ends [OF assms])

text \<open>
  C16: recovery releases the whole gap or nothing. Driven by the client against a node that has the
  history of the program, the pager releases a batch exactly when the checkpoint is in the history,
  at its slot and with no more newer records than the limit allows. The batch then holds precisely
  the newer records, oldest first, and the new checkpoint is the newest of them, or the old one when
  there is none; no page boundary loses, repeats or reorders a record. In every other case the
  recovery fails and releases nothing.
\<close>

theorem recovery_exact:
  assumes "after_checkpoint cp size' maximum ctx = Inr p" and "maximum < usize_max" and "valid_history json_text hs"
  shows "\<exists>res. drive (\<lambda>_. client_signature_page json_text (serves hs)) (Suc maximum) p = Some res
    \<and> (\<forall>batch. res = Inr batch \<longleftrightarrow>
         (\<exists>k<length hs. rsr_signature (hs ! k) = cp_last_signature cp \<and> rsr_slot (hs ! k) = cp_last_slot cp
            \<and> k \<le> maximum \<and> batch = gap_batch cp size' (map (converted json_text) hs) k))"
proof -
  let ?chain = "map (converted json_text) hs"
  note p = after_checkpoint_Inr [OF assms(1)]
  have wanted: "pages_wanted cp size' maximum" using p(1-3) assms(2) by (simp add: pages_wanted_def)
  have checked: "checked_history json_text hs = hs" using assms(3) by (simp add: checked_history_def)
  obtain res where res: "drive (\<lambda>_. client_signature_page json_text (serves hs)) (Suc maximum) p = Some res"
    using drive_initial_ends [OF assms(1,2)] by blast
  have "res = Inr batch \<longleftrightarrow> (\<exists>k. found_at cp maximum ?chain k \<and> batch = gap_batch cp size' ?chain k)" for batch
    using client.drive_chain [of cp size' maximum json_text hs "Suc maximum" ctx 0 res batch, unfolded checked, OF wanted]
      res p(4) [of ?chain] by simp
  then have "res = Inr batch \<longleftrightarrow> (\<exists>k<length hs. rsr_signature (hs ! k) = cp_last_signature cp
      \<and> rsr_slot (hs ! k) = cp_last_slot cp \<and> k \<le> maximum \<and> batch = gap_batch cp size' ?chain k)" for batch
    by (auto simp: found_at_def asks_for_def)
  then show ?thesis using res by blast
qed

section \<open>A short history\<close>

definition example_history :: "unit rpc_signature_record list" where
  "example_history = map (\<lambda>(n, s). \<lparr>rsr_slot = n, rsr_transaction_index = None, rsr_signature = s,
     rsr_block_time = None, rsr_confirmation_status = None, rsr_error = None\<rparr>)
     [(14, ''s14''), (13, ''s13''), (12, ''s12''), (10, ''s10''), (9, ''s9'')]"

definition example_cp :: recovery_checkpoint where
  "example_cp = \<lparr>cp_program_id = ''pump'', cp_last_slot = 10, cp_last_transaction_index = None, cp_last_signature = ''s10''\<rparr>"

definition example_ctx :: read_context where
  "example_ctx = \<lparr>ctx_commitment = Confirmed, ctx_minimum_slot = None\<rparr>"

lemma example_pager: "\<exists>p. after_checkpoint example_cp 2 8 example_ctx = Inr p"
  by (simp add: after_checkpoint_def example_cp_def signature_page_request_new_def MAX_SIGNATURE_PAGE_SIZE_def)

lemma example_history_valid: "valid_history (\<lambda>_. Inr ''err'') example_history"
  by (simp add: valid_history_def example_history_def compact_error_def)

theorem recovery_ends_witness:
  "\<exists>p res. after_checkpoint example_cp 2 8 example_ctx = Inr p
     \<and> drive (\<lambda>_ _. Inl RpcTimeout) (Suc 8) p = Some res"
  using example_pager recovery_ends [of example_cp 2 8 example_ctx] by (auto simp: usize_max_def)

theorem recovery_exact_witness:
  "\<exists>p batch. after_checkpoint example_cp 2 8 example_ctx = Inr p
     \<and> drive (\<lambda>_. client_signature_page (\<lambda>_. Inr ''err'') (serves example_history)) (Suc 8) p = Some (Inr batch)
     \<and> map sig_signature (records_oldest_first batch) = [''s12'', ''s13'', ''s14'']"
proof -
  obtain p where p: "after_checkpoint example_cp 2 8 example_ctx = Inr p" using example_pager by blast
  let ?batch = "gap_batch example_cp 2 (map (converted (\<lambda>_. Inr ''err'')) example_history) 3"
  have "(3::nat) < length example_history" "rsr_signature (example_history ! 3) = cp_last_signature example_cp"
    "rsr_slot (example_history ! 3) = cp_last_slot example_cp" "(3::nat) \<le> 8"
    by (simp_all add: example_history_def example_cp_def)
  note place = this
  have "(8::nat) < usize_max" by (simp add: usize_max_def)
  from recovery_exact [OF p this example_history_valid] obtain res where
    "drive (\<lambda>_. client_signature_page (\<lambda>_. Inr ''err'') (serves example_history)) (Suc 8) p = Some res" and
    "res = Inr ?batch \<longleftrightarrow> (\<exists>k<length example_history. rsr_signature (example_history ! k) = cp_last_signature example_cp
       \<and> rsr_slot (example_history ! k) = cp_last_slot example_cp \<and> k \<le> 8
       \<and> ?batch = gap_batch example_cp 2 (map (converted (\<lambda>_. Inr ''err'')) example_history) k)" by blast
  moreover have "\<exists>k<length example_history. rsr_signature (example_history ! k) = cp_last_signature example_cp
       \<and> rsr_slot (example_history ! k) = cp_last_slot example_cp \<and> k \<le> 8
       \<and> ?batch = gap_batch example_cp 2 (map (converted (\<lambda>_. Inr ''err'')) example_history) k"
    by (rule exI [of _ 3]) (use place in simp)
  ultimately have "drive (\<lambda>_. client_signature_page (\<lambda>_. Inr ''err'') (serves example_history)) (Suc 8) p = Some res"
    "res = Inr ?batch" by simp_all
  then have "drive (\<lambda>_. client_signature_page (\<lambda>_. Inr ''err'') (serves example_history)) (Suc 8) p = Some (Inr ?batch)"
    by simp
  moreover have "map sig_signature (records_oldest_first ?batch) = [''s12'', ''s13'', ''s14'']"
    by (simp add: gap_batch_def example_history_def)
  ultimately show ?thesis using p by (intro exI [of _ p] exI [of _ ?batch] conjI)
qed

end
