(* ===== verification/Rpc_Client_Correct.thy ===== *)
theory Rpc_Client_Correct
  imports Rpc_Client Recovery_Correct
begin

text \<open>
  The client reads what the node wrote: base-58 instruction data decodes to the bytes it encodes and
  to nothing else, and the instructions of a transaction come out in execution order, each with the
  program it names.
\<close>

section \<open>Numerals without leading zeroes\<close>

definition radix_value :: "nat \<Rightarrow> nat list \<Rightarrow> nat" where
  "radix_value b ds = foldr (\<lambda>d n. d + b * n) ds 0"

lemma radix_value_simps [simp]: "radix_value b [] = 0" "radix_value b (d # ds) = d + b * radix_value b ds"
  by (simp_all add: radix_value_def)

definition canonical :: "nat \<Rightarrow> nat list \<Rightarrow> bool" where
  "canonical b ds \<longleftrightarrow> (\<forall>d\<in>set ds. d < b) \<and> (ds = [] \<or> last ds \<noteq> 0)"

lemma canonical_Cons: "canonical b (d # ds) \<longleftrightarrow> d < b \<and> canonical b ds \<and> (ds = [] \<longrightarrow> d \<noteq> 0)"
  by (auto simp: canonical_def)

lemma canonical_zero: "canonical b ds \<Longrightarrow> radix_value b ds = 0 \<Longrightarrow> ds = []"
proof (induction ds)
  case (Cons d ds)
  then have "0 < b" "d = 0" "radix_value b ds = 0" by (auto simp: canonical_Cons)
  with Cons show ?case by (auto simp: canonical_Cons)
qed simp

lemma radix_unique:
  assumes "canonical b ds" and "canonical b es" and "radix_value b ds = radix_value b es"
  shows "ds = es"
  using assms
proof (induction ds arbitrary: es)
  case Nil
  then show ?case using canonical_zero [of b es] by simp
next
  case (Cons d ds)
  then obtain e es' where es: "es = e # es'" using canonical_zero [of b "d # ds"] by (cases es) auto
  have less: "d < b" "e < b" using Cons.prems es by (simp_all add: canonical_Cons)
  have "(d + b * radix_value b ds) mod b = (e + b * radix_value b es') mod b"
    "(d + b * radix_value b ds) div b = (e + b * radix_value b es') div b"
    using Cons.prems(3) es by simp_all
  then have "d = e" "radix_value b ds = radix_value b es'" using less by simp_all
  then show ?case using Cons.IH [of es'] Cons.prems es by (simp add: canonical_Cons)
qed

lemma canonical_length:
  assumes "canonical b ds" and "radix_value b ds < b ^ n"
  shows "length ds \<le> n"
  using assms
proof (induction n arbitrary: ds)
  case 0
  then show ?case using canonical_zero [of b ds] by simp
next
  case (Suc n)
  show ?case
  proof (cases ds)
    case (Cons d ds')
    then have "0 < b" using Suc.prems(1) by (auto simp: canonical_Cons)
    have "d + b * radix_value b ds' < b * b ^ n" using Suc.prems(2) Cons by simp
    then have "b * radix_value b ds' < b * b ^ n" by linarith
    then have "radix_value b ds' < b ^ n" using \<open>0 < b\<close> by simp
    then show ?thesis using Suc.IH [of ds'] Suc.prems(1) Cons by (simp add: canonical_Cons)
  qed simp
qed

lemma val58_radix: "val58 = radix_value 58"
  by (simp add: val58_def [abs_def] radix_value_def [abs_def])

lemma le_value_radix: "le_value bs = radix_value 256 (map unat bs)"
  by (induction bs) simp_all

section \<open>The loop of the decoder\<close>

lemma carry_bytes_value: "radix_value 256 (base256_carry_bytes c) = c"
proof (induction c rule: base256_carry_bytes.induct)
  case (1 c)
  then show ?case by (subst base256_carry_bytes.simps) simp
qed

lemma carry_bytes_canonical: "canonical 256 (base256_carry_bytes c) \<and> (base256_carry_bytes c = [] \<longleftrightarrow> c = 0)"
proof (induction c rule: base256_carry_bytes.induct)
  case (1 c)
  show ?case
  proof (cases "c = 0")
    case False
    have "c mod 256 \<noteq> 0" if "c div 256 = 0" using that False by (simp add: div_eq_0_iff)
    then show ?thesis using 1 False by (subst (1 2) base256_carry_bytes.simps) (simp add: canonical_Cons)
  qed (simp add: base256_carry_bytes.simps canonical_def)
qed

lemma add_digit_value: "radix_value 256 (base256_add_digit c bs) = 58 * radix_value 256 bs + c"
proof (induction c bs rule: base256_add_digit.induct)
  case (2 c b bs)
  have "(b * 58 + c) mod 256 + 256 * (58 * radix_value 256 bs + (b * 58 + c) div 256)
      = 58 * (256 * radix_value 256 bs) + ((b * 58 + c) mod 256 + 256 * ((b * 58 + c) div 256))"
    by (simp add: algebra_simps)
  also have "\<dots> = 58 * (256 * radix_value 256 bs) + (b * 58 + c)" by simp
  finally show ?case using 2 by simp
qed (simp add: carry_bytes_value)

lemma add_digit_canonical: "canonical 256 bs \<Longrightarrow> canonical 256 (base256_add_digit c bs)"
proof (induction c bs rule: base256_add_digit.induct)
  case (2 c b bs)
  have "base256_add_digit ((b * 58 + c) div 256) bs = [] \<Longrightarrow> (b * 58 + c) mod 256 \<noteq> 0"
  proof -
    assume e: "base256_add_digit ((b * 58 + c) div 256) bs = []"
    then have "bs = []" by (cases bs) simp_all
    then have "b \<noteq> 0" "(b * 58 + c) div 256 = 0"
      using 2(2) e carry_bytes_canonical by (auto simp: canonical_Cons)
    then show ?thesis by (simp add: div_eq_0_iff)
  qed
  then show ?case using 2 by (simp add: canonical_Cons)
qed (simp add: carry_bytes_canonical)

text \<open>Zero is the list of one zero in the loop.\<close>

definition numeral_bytes :: "nat list \<Rightarrow> bool" where
  "numeral_bytes bs \<longleftrightarrow> bs = [0] \<or> bs \<noteq> [] \<and> canonical 256 bs"

lemma add_digit_numeral:
  assumes "numeral_bytes bs" and "c < 58"
  shows "numeral_bytes (base256_add_digit c bs)"
proof (cases "bs = [0]")
  case True
  then show ?thesis
    using assms(2) by (cases "c = 0") (simp_all add: numeral_bytes_def base256_carry_bytes.simps canonical_def)
next
  case False
  then have "canonical 256 (base256_add_digit c bs)" "base256_add_digit c bs \<noteq> []"
    using assms(1) add_digit_canonical by (auto simp: numeral_bytes_def) (cases bs, simp_all)
  then show ?thesis by (simp add: numeral_bytes_def)
qed

lemma numeral_bytes_length:
  assumes "numeral_bytes bs" and "radix_value 256 bs < 256 ^ n" and "0 < n"
  shows "length bs \<le> n"
  using assms canonical_length [of 256 bs n] by (auto simp: numeral_bytes_def)

lemma position_alphabet:
  "position (\<lambda>a. a = c) ALPHABET = (if c \<in> set ALPHABET then Some (base58_index c) else None)"
proof -
  have "position (\<lambda>a. a = c) xs = (if c \<in> set xs then Some (length (takeWhile (\<lambda>a. a \<noteq> c) xs)) else None)" for xs
    by (induction xs) auto
  then show ?thesis by (simp add: base58_index_def)
qed

lemma alphabet_place:
  assumes "c \<in> set ALPHABET"
  obtains d where "d < 58" "c = ALPHABET ! d"
proof -
  have "length ALPHABET = 58" by (simp add: ALPHABET_def)
  then show ?thesis using assms that by (metis in_set_conv_nth)
qed

lemma base58_index_less: "c \<in> set ALPHABET \<Longrightarrow> base58_index c < 58"
  by (erule alphabet_place) (simp add: base58_index_nth)

abbreviation append_digits :: "string \<Rightarrow> nat \<Rightarrow> nat" where
  "append_digits \<equiv> fold (\<lambda>c n. 58 * n + base58_index c)"

lemma base58_bytes_value:
  assumes "base58_bytes z bs cs = Inr bs'" and "numeral_bytes bs"
  shows "set cs \<subseteq> set ALPHABET" and "numeral_bytes bs'" and "radix_value 256 bs' = append_digits cs (radix_value 256 bs)"
  using assms
  by (induction z bs cs arbitrary: bs' rule: base58_bytes.induct)
    (auto simp: position_alphabet ok_or_def Let_def add_digit_value add_digit_numeral base58_index_less split: if_splits)

lemma append_digits_mono: "n \<le> m \<Longrightarrow> append_digits cs n \<le> append_digits cs m"
  by (induction cs arbitrary: n m) simp_all

lemma append_digits_ge: "n \<le> append_digits cs n"
proof (induction cs arbitrary: n)
  case (Cons c cs)
  have "n \<le> append_digits cs n" by (rule Cons.IH)
  also have "\<dots> \<le> append_digits cs (58 * n + base58_index c)" by (rule append_digits_mono) simp
  finally show ?case by simp
qed simp

lemma base58_bytes_total:
  assumes "set cs \<subseteq> set ALPHABET" and "numeral_bytes bs" and "append_digits cs (radix_value 256 bs) < 256 ^ n"
    and "0 < n" and "n + z \<le> MAX_INSTRUCTION_DATA_BYTES"
  shows "\<exists>bs'. base58_bytes z bs cs = Inr bs'"
  using assms(1-3)
proof (induction cs arbitrary: bs)
  case (Cons c cs)
  let ?bs = "base256_add_digit (base58_index c) bs"
  have bs: "numeral_bytes ?bs" using Cons.prems(1,2) by (simp add: add_digit_numeral base58_index_less)
  have value': "append_digits cs (radix_value 256 ?bs) < 256 ^ n" using Cons.prems(3) by (simp add: add_digit_value)
  then have "radix_value 256 ?bs < 256 ^ n" using append_digits_ge le_less_trans by blast
  then have "length ?bs + z \<le> MAX_INSTRUCTION_DATA_BYTES" using numeral_bytes_length [OF bs _ assms(4)] assms(5) by linarith
  moreover have "\<exists>bs'. base58_bytes z ?bs cs = Inr bs'" using Cons.IH [OF _ bs value'] Cons.prems(1) by simp
  ultimately show ?case
    using Cons.prems(1)
    by (simp add: position_alphabet ok_or_def Let_def saturating_add_usize_def)
qed simp

lemma numeral_bytes_trim: "numeral_bytes bs \<Longrightarrow> base58_trim bs = bs"
  by (subst base58_trim.simps) (auto simp: numeral_bytes_def canonical_def)

section \<open>Texts and bytes\<close>

text \<open>A text is some ones and a numeral that does not start with a one; bytes are some zeroes and the rest.\<close>

lemma one_first: "c \<in> set ALPHABET \<Longrightarrow> base58_index c = 0 \<longleftrightarrow> c = CHR ''1''"
proof
  assume "c \<in> set ALPHABET" "base58_index c = 0"
  then show "c = CHR ''1''" by (simp add: base58_index_def ALPHABET_def split: if_splits)
qed simp

lemma append_ones: "append_digits (replicate z (CHR ''1'')) 0 = 0"
  by (induction z) simp_all

lemma text_digits:
  assumes "set cs \<subseteq> set ALPHABET"
  shows "append_digits cs 0 = radix_value 58 (rev (map base58_index cs))"
    and "map (\<lambda>d. ALPHABET ! d) (map base58_index cs) = cs"
proof -
  have nth: "ALPHABET ! base58_index c = c" if "c \<in> set ALPHABET" for c
    using that by (rule alphabet_place) (simp add: base58_index_nth)
  then show digits: "map (\<lambda>d. ALPHABET ! d) (map base58_index cs) = cs" using assms by (auto intro!: map_idI)
  have "\<forall>d\<in>set (rev (map base58_index cs)). d < 58" using assms base58_index_less by auto
  from fold_digits [OF this] show "append_digits cs 0 = radix_value 58 (rev (map base58_index cs))"
    using digits by (simp add: val58_radix)
qed

lemma text_canonical:
  assumes "set cs \<subseteq> set ALPHABET" and "cs = [] \<or> hd cs \<noteq> CHR ''1''"
  shows "canonical 58 (rev (map base58_index cs))"
proof (cases cs)
  case (Cons c cs')
  then have "base58_index c \<noteq> 0" using assms one_first by simp
  then show ?thesis using assms(1) base58_index_less Cons by (auto simp: canonical_def)
qed (simp add: canonical_def)

lemma trim_canonical:
  assumes "\<forall>d\<in>set ds. d < 58" and "radix_value 58 ds \<noteq> 0"
  shows "canonical 58 (base58_trim ds)"
  using assms
proof (induction ds rule: base58_trim.induct)
  case (1 ds)
  show ?case
  proof (cases "1 < length ds \<and> last ds = 0")
    case True
    then have "ds = butlast ds @ [0]" by (metis append_butlast_last_id length_0_conv not_less0)
    then have "radix_value 58 (butlast ds) \<noteq> 0" using "1.prems"(2) val58_snoc_0 [of "butlast ds"] by (metis val58_radix)
    moreover have "\<forall>d\<in>set (butlast ds). d < 58" using "1.prems"(1) by (auto dest: in_set_butlastD)
    ultimately show ?thesis using "1.IH" [OF True] True by (subst base58_trim.simps) simp
  next
    case False
    have "ds \<noteq> []" using "1.prems"(2) by auto
    moreover have "last ds \<noteq> 0" using False "1.prems"(2) \<open>ds \<noteq> []\<close> by (cases ds) (auto split: if_splits)
    ultimately show ?thesis using False "1.prems"(1) by (subst base58_trim.simps) (auto simp: canonical_def)
  qed
qed

lemma be_value_radix: "be_value bs = radix_value 256 (map unat (rev bs))"
  by (simp add: be_value_def le_value_radix rev_map)

lemma be_value_leading: "be_value (replicate z 0 @ bs) = be_value bs"
proof -
  have "le_value (cs @ replicate z 0) = le_value cs" for cs
    by (induction cs) (induction z, simp_all)
  then show ?thesis by (simp add: be_value_def)
qed

lemma bytes_canonical:
  fixes bs :: "u8 list"
  assumes "bs = [] \<or> hd bs \<noteq> 0"
  shows "canonical 256 (map unat (rev bs))"
proof -
  have "unat b < 256" for b :: u8 using unat_bound [of b] by simp
  then show ?thesis using assms by (cases bs) (auto simp: canonical_def unat_eq_zero)
qed

lemma encode_parts:
  assumes "bs = [] \<or> hd bs \<noteq> 0"
  shows "\<exists>cs. encode_base58 (replicate z 0 @ bs) = replicate z (CHR ''1'') @ cs \<and> set cs \<subseteq> set ALPHABET
    \<and> (cs = [] \<longleftrightarrow> bs = []) \<and> (cs = [] \<or> hd cs \<noteq> CHR ''1'') \<and> append_digits cs 0 = be_value bs"
proof (cases "bs = []")
  case True
  have "takeWhile (\<lambda>b. b = 0) (replicate z (0 :: u8)) = replicate z 0" by (induction z) simp_all
  then show ?thesis using True by (auto simp: encode_base58_def be_value_def)
next
  case False
  have zeroes: "takeWhile (\<lambda>b. b = 0) (replicate z 0 @ bs) = replicate z 0"
    using assms False by (induction z) (cases bs, simp_all)
  let ?ds = "base58_trim (base58_digits [0] (replicate z 0 @ bs))"
  have value': "radix_value 58 (base58_digits [0] (replicate z 0 @ bs)) = be_value bs"
    using val58_digits [of "[0]" "replicate z 0 @ bs"] by (simp add: val58_radix be_value_leading)
  have "be_value bs \<noteq> 0"
    using canonical_zero [OF bytes_canonical [OF assms]] False by (auto simp: be_value_radix)
  moreover have small: "\<forall>d\<in>set (base58_digits [0] (replicate z 0 @ bs)). d < 58"
    using base58_digits_small [of "[0]"] by auto
  ultimately have ds: "canonical 58 ?ds" "radix_value 58 ?ds = be_value bs"
    using trim_canonical [OF small] value' base58_trim_facts by (simp_all add: val58_radix)
  then have nonempty: "?ds \<noteq> []" using \<open>be_value bs \<noteq> 0\<close> by auto
  have less: "\<forall>d\<in>set ?ds. d < 58" using ds(1) by (simp add: canonical_def)
  let ?cs = "map (\<lambda>d. ALPHABET ! d) (rev ?ds)"
  have "length ALPHABET = 58" by (simp add: ALPHABET_def)
  then have "set ?cs \<subseteq> set ALPHABET" using less by auto
  moreover have "hd ?cs \<noteq> CHR ''1''"
  proof -
    have last: "last ?ds < 58" "last ?ds \<noteq> 0" using less ds(1) nonempty by (auto simp: canonical_def)
    have "hd ?cs = ALPHABET ! last ?ds" using nonempty by (simp add: hd_map hd_rev)
    then show ?thesis using last base58_index_nth [OF last(1)] by auto
  qed
  moreover have "append_digits ?cs 0 = be_value bs" using fold_digits [OF less] ds(2) by (simp add: val58_radix)
  moreover have "encode_base58 (replicate z 0 @ bs) = replicate z (CHR ''1'') @ ?cs"
    using False zeroes by (simp add: encode_base58_def Let_def)
  ultimately show ?thesis using False nonempty by (intro exI [of _ ?cs]) auto
qed

lemma leading_split: "xs = replicate (length (takeWhile (\<lambda>x. x = a) xs)) a @ dropWhile (\<lambda>x. x = a) xs"
  by (induction xs) auto

lemma leading_rest: "dropWhile (\<lambda>x. x = a) xs = [] \<or> hd (dropWhile (\<lambda>x. x = a) xs) \<noteq> a"
  by (induction xs) auto

lemma leading_ones: "cs = [] \<or> hd cs \<noteq> CHR ''1'' \<Longrightarrow>
    length (takeWhile (\<lambda>c. c = CHR ''1'') (replicate z (CHR ''1'') @ cs)) = z"
  by (induction z) (cases cs, simp_all)

lemma decode_parts:
  assumes "cs = [] \<or> hd cs \<noteq> CHR ''1''"
  shows "decode_base58 (replicate z (CHR ''1'') @ cs) =
    result_bind (base58_bytes z [0] (replicate z (CHR ''1'') @ cs)) (\<lambda>bytes.
      Inr (replicate z 0 @ (if cs = [] then [] else map of_nat (rev (base58_trim bytes)))))"
  using leading_ones [OF assms, of z] by (cases "cs = []") (simp_all add: decode_base58_def Let_def)

lemma zero_numeral: "numeral_bytes [0]" "radix_value 256 [0] = 0"
  by (simp_all add: numeral_bytes_def)

lemma numeral_of_bytes:
  assumes "numeral_bytes bs'" and "radix_value 256 bs' = be_value bs" and "hd bs \<noteq> (0 :: u8)" and "bs \<noteq> []"
  shows "map of_nat (rev bs') = bs"
proof -
  have canon: "canonical 256 (map unat (rev bs))" by (rule bytes_canonical) (use assms in simp)
  then have "radix_value 256 bs' \<noteq> 0"
    using canonical_zero [OF canon] assms(2,4) by (auto simp: be_value_radix)
  then have "canonical 256 bs'" using assms(1) by (auto simp: numeral_bytes_def)
  then have "bs' = map unat (rev bs)" using radix_unique [OF _ canon] assms(2) by (simp add: be_value_radix)
  then show ?thesis by (simp add: rev_map comp_def)
qed

lemma decode_encode:
  assumes "length bytes < MAX_INSTRUCTION_DATA_BYTES"
  shows "decode_base58 (encode_base58 bytes) = Inr bytes"
proof -
  define z where "z = length (takeWhile (\<lambda>b. b = 0) bytes)"
  define bs where "bs = dropWhile (\<lambda>b. b = 0) bytes"
  have bytes: "bytes = replicate z 0 @ bs"
    unfolding z_def bs_def by (rule leading_split)
  have bs: "bs = [] \<or> hd bs \<noteq> 0" unfolding bs_def by (rule leading_rest)
  obtain cs where cs: "encode_base58 bytes = replicate z (CHR ''1'') @ cs" "set cs \<subseteq> set ALPHABET" "cs = [] \<longleftrightarrow> bs = []"
    "cs = [] \<or> hd cs \<noteq> CHR ''1''" "append_digits cs 0 = be_value bs"
    using encode_parts [OF bs, of z] bytes by auto
  have value': "append_digits (replicate z (CHR ''1'') @ cs) 0 = be_value bs" using append_ones [of z] cs(5) by simp
  have "be_value bs < 256 ^ max 1 (length bs)"
  proof -
    have "be_value bs < 256 ^ length bs" using le_value_bound [of "rev bs"] by (simp add: be_value_def)
    also have "\<dots> \<le> 256 ^ max 1 (length bs)" by (rule power_increasing) simp_all
    finally show ?thesis .
  qed
  moreover have "max 1 (length bs) + z \<le> MAX_INSTRUCTION_DATA_BYTES" using assms bytes by (simp add: max_def)
  moreover have "set (replicate z (CHR ''1'') @ cs) \<subseteq> set ALPHABET" using cs(2) by (auto simp: ALPHABET_def)
  ultimately obtain bs' where run: "base58_bytes z [0] (replicate z (CHR ''1'') @ cs) = Inr bs'"
    using base58_bytes_total [OF _ zero_numeral(1), of "replicate z (CHR ''1'') @ cs" "max 1 (length bs)" z] value' zero_numeral(2)
    by fastforce
  note b = base58_bytes_value [OF run zero_numeral(1)]
  have "radix_value 256 bs' = be_value bs" using b(3) zero_numeral(2) value' by simp
  then have "bs \<noteq> [] \<Longrightarrow> map of_nat (rev (base58_trim bs')) = bs"
    using numeral_of_bytes [OF b(2)] bs numeral_bytes_trim [OF b(2)] by auto
  then show ?thesis using decode_parts [OF cs(4), of z] run cs(1,3) bytes by auto
qed

lemma encode_decode:
  assumes "decode_base58 text' = Inr bytes"
  shows "encode_base58 bytes = text'"
proof -
  define z where "z = length (takeWhile (\<lambda>c. c = CHR ''1'') text')"
  define cs where "cs = dropWhile (\<lambda>c. c = CHR ''1'') text'"
  have split: "text' = replicate z (CHR ''1'') @ cs"
    unfolding z_def cs_def by (rule leading_split)
  have cs: "cs = [] \<or> hd cs \<noteq> CHR ''1''" unfolding cs_def by (rule leading_rest)
  obtain bs' where run: "base58_bytes z [0] text' = Inr bs'"
    and bytes: "bytes = replicate z 0 @ (if cs = [] then [] else map of_nat (rev (base58_trim bs')))"
    using assms decode_parts [OF cs, of z] split by (auto simp: result_bind_Inr)
  note b = base58_bytes_value [OF run zero_numeral(1)]
  have alphabet: "set cs \<subseteq> set ALPHABET" using b(1) split by simp
  have value': "radix_value 256 bs' = append_digits cs 0" using b(3) zero_numeral(2) split append_ones [of z] by simp
  define bs where "bs = (if cs = [] then [] else map (of_nat :: nat \<Rightarrow> u8) (rev bs'))"
  have bytes': "bytes = replicate z 0 @ bs" using bytes numeral_bytes_trim [OF b(2)] by (simp add: bs_def)
  have nz: "canonical 256 bs' \<and> bs' \<noteq> []" if "cs \<noteq> []"
  proof -
    have "radix_value 256 bs' \<noteq> 0"
      using that canonical_zero [OF text_canonical [OF alphabet cs]] text_digits(1) [OF alphabet] value' by auto
    then show ?thesis using b(2) by (auto simp: numeral_bytes_def)
  qed
  have bytes_back: "map unat (rev bs) = bs'" if "cs \<noteq> []"
  proof -
    have "unat (of_nat d :: u8) = d" if "d \<in> set bs'" for d
      using that nz [OF \<open>cs \<noteq> []\<close>] by (auto simp: canonical_def unat_of_nat)
    then show ?thesis using that by (auto simp: bs_def rev_map intro!: map_idI)
  qed
  have hd: "bs = [] \<or> hd bs \<noteq> 0"
  proof (cases "cs = []")
    case False
    have "last (map unat (rev bs)) \<noteq> 0" "bs \<noteq> []" using bytes_back [OF False] nz [OF False] by (auto simp: canonical_def)
    then show ?thesis by (cases bs) auto
  qed (simp add: bs_def)
  obtain cs' where cs': "encode_base58 bytes = replicate z (CHR ''1'') @ cs'" "set cs' \<subseteq> set ALPHABET" "cs' = [] \<longleftrightarrow> bs = []"
    "cs' = [] \<or> hd cs' \<noteq> CHR ''1''" "append_digits cs' 0 = be_value bs"
    using encode_parts [OF hd, of z] bytes' by auto
  have "be_value bs = append_digits cs 0"
    using bytes_back value' by (cases "cs = []") (simp_all add: bs_def be_value_radix)
  then have "radix_value 58 (rev (map base58_index cs')) = radix_value 58 (rev (map base58_index cs))"
    using cs'(5) text_digits(1) alphabet cs'(2) by simp
  then have "map base58_index cs' = map base58_index cs"
    using radix_unique [OF text_canonical [OF cs'(2,4)] text_canonical [OF alphabet cs]] by simp
  then have "cs' = cs" using text_digits(2) alphabet cs'(2) by metis
  then show ?thesis using cs'(1) split by simp
qed

text \<open>
  C38: instruction data round-trips. The decoder of the RPC client and the base-58 encoder of the
  event decoder are inverse to each other: a text decodes to some bytes, shorter than the limit,
  exactly when it is their encoding. Leading zero bytes are kept, a text with a letter outside the
  alphabet is refused, and no two texts decode to the same bytes.
\<close>

theorem instruction_data_roundtrip:
  assumes "length bytes < MAX_INSTRUCTION_DATA_BYTES"
  shows "decode_base58 text' = Inr bytes \<longleftrightarrow> text' = encode_base58 bytes"
  using decode_encode [OF assms] encode_decode [of text' bytes] by auto

theorem instruction_data_roundtrip_witness:
  "decode_base58 (encode_base58 [0, 228, 69]) = Inr [0, 228, 69]"
  using instruction_data_roundtrip [of "[0, 228, 69]" "encode_base58 [0, 228, 69]"]
  by (simp add: MAX_INSTRUCTION_DATA_BYTES_def)

end
