(* ===== verification/Discovery_Store.thy ===== *)
theory Discovery_Store
  imports Window_Finalization Maintenance
begin

text \<open>
  The durable discovery projection: the queue of observation work with its leases
  (\<open>crates/persistence/src/work.rs\<close>), the insertion of observations (\<open>observations.rs\<close>), and the
  candidates with their counters (\<open>discovery.rs\<close>, \<open>discovery_validation.rs\<close>, \<open>discovery_storage.rs\<close>,
  \<open>discovery_activity.rs\<close>). A table is a list of rows or a map from its key. A transaction is a
  function from the store to a result and the new store; one that fails is rolled back. A database
  that fails in between is one more error that leaves the store as it was. JSON columns hold the
  values they encode, counters are integers, and times are microseconds since the epoch.
\<close>

section \<open>Tables\<close>

datatype work_state = WorkPending | WorkProcessing | WorkComplete | WorkFailed

record work_item =
  wi_id :: i64
  wi_observation_id :: i64
  wi_kind :: string
  wi_state :: work_state
  wi_attempts :: int
  wi_available_at :: int
  wi_claimed_at :: "int option"
  wi_finished_at :: "int option"
  wi_lease_owner :: "string option"
  wi_lease_expires_at :: "int option"
  wi_last_error_code :: "string option"

record 'json chain_row =
  chain_id :: i64
  chain_first_seen_at :: int
  chain_observation :: "'json normalized_observation"

record 'v stored_token_row =
  str_mint :: string
  str_stage :: string
  str_observed_slot :: i64
  str_source_work_id :: "i64 option"
  str_decision_source :: string
  str_decision_version :: string
  str_token :: 'v

text \<open>
  A window with its opening observation, the time at which a window admitted an observation, and what
  finalizing a window stores: its snapshot, its assessment and the results of the rules.
\<close>

record 'v window_entry =
  we_row :: "'v window_identity_row"
  we_opening_observation :: "i64 option"
  we_opening_coordinate :: "string \<times> u16 \<times> u16"

record membership_row =
  mem_window :: i64
  mem_observation :: i64
  mem_admitted_at :: i64

record 'v assessment_row =
  asm_window :: i64
  asm_ruleset_revision :: i64
  asm_finalized_at :: i64
  asm_stored :: "'v stored_finalization_row"
  asm_rules :: "rule_result list"

record projection_state_row =
  ps_sequence :: int
  ps_mode :: string
  ps_observed :: int
  ps_queued_facts :: int
  ps_qualified :: int
  ps_qualification_pending :: int
  ps_qualification_rejected :: int
  ps_qualification_unknown :: int
  ps_processing_failures :: int
  ps_approved :: int
  ps_flow_per_minute :: "i64 option"

record reason_summary =
  rs_reason_code :: string
  rs_count :: int
  rs_last_seen_unix_ms :: i64

text \<open>The key that the activity tables share: network, program, venue, market, mint and quote mint.\<close>

type_synonym activity_key = "string \<times> string \<times> string \<times> string \<times> string \<times> string"

record activity_row =
  ar_trades :: int
  ar_buys :: int
  ar_sells :: int
  ar_base_volume_units :: nat
  ar_quote_volume_units :: nat

record ('v, 'json) discovery_store =
  ds_observations :: "'json chain_row list"
  ds_next_observation_id :: i64
  ds_work :: "work_item list"
  ds_next_work_id :: i64
  ds_windows :: "'v window_entry list"
  ds_next_window_id :: i64
  ds_members :: "membership_row list"
  ds_assessments :: "'v assessment_row list"
  ds_tokens :: "'v stored_token_row list"
  ds_state :: projection_state_row
  ds_failures :: "reason_summary list"
  ds_rejections :: "reason_summary list"
  ds_unknowns :: "reason_summary list"
  ds_activity :: "activity_key \<Rightarrow> activity_row option"
  ds_traders :: "(activity_key \<times> string) list"
  ds_events :: "(string \<times> int) list"

type_synonym ('x, 'v, 'json, 'a) transaction =
  "('v, 'json) discovery_store \<Rightarrow> ('x persistence_error, 'a \<times> ('v, 'json) discovery_store) result"

definition commit :: "('x, 'v, 'json, 'a) transaction \<Rightarrow> ('v, 'json) discovery_store
      \<Rightarrow> ('x persistence_error, 'a) result \<times> ('v, 'json) discovery_store" where
  "commit t s = (case t s of Inl e \<Rightarrow> (Inl e, s) | Inr (x, s') \<Rightarrow> (Inr x, s'))"

section \<open>Work\<close>

definition MAX_CLAIM_BATCH :: u32 where
  "MAX_CLAIM_BATCH = 1000"

record 'json claimed_observation_work =
  cw_work_id :: i64
  cw_observation_id :: i64
  cw_work_kind :: string
  cw_attempts :: u32
  cw_lease_owner :: string
  cw_lease_expires_at_unix_ms :: i64
  cw_observation :: "'json normalized_observation"

datatype work_failure_disposition = RetryScheduled | PermanentlyFailed

record 'json owned_work =
  ow_work_id :: i64
  ow_observation_id :: i64
  ow_work_kind :: string
  ow_attempts :: int
  ow_observation :: "'json normalized_observation"

definition find_observation :: "('v, 'json) discovery_store \<Rightarrow> i64 \<Rightarrow> 'json normalized_observation option" where
  "find_observation s oid = map_option chain_observation (find (\<lambda>r. chain_id r = oid) (ds_observations s))"

definition update_work :: "(work_item \<Rightarrow> bool) \<Rightarrow> (work_item \<Rightarrow> work_item) \<Rightarrow> ('v, 'json) discovery_store \<Rightarrow> ('v, 'json) discovery_store" where
  "update_work where_clause f s = s\<lparr>ds_work := map (\<lambda>w. if where_clause w then f w else w) (ds_work s)\<rparr>"

definition claimable_work :: "int \<Rightarrow> string \<Rightarrow> work_item \<Rightarrow> bool" where
  "claimable_work now kind w \<longleftrightarrow>
     wi_kind w = kind \<and> wi_attempts w < 2147483647
     \<and> (wi_state w = WorkPending \<and> wi_available_at w \<le> now
        \<or> wi_state w = WorkProcessing
          \<and> (case wi_lease_expires_at w of None \<Rightarrow> True | Some t \<Rightarrow> t \<le> now))"

definition claim_update :: "int \<Rightarrow> string \<Rightarrow> i64 \<Rightarrow> work_item \<Rightarrow> work_item" where
  "claim_update now worker lease_millis w =
     w\<lparr>wi_state := WorkProcessing, wi_attempts := wi_attempts w + 1, wi_claimed_at := Some now,
       wi_finished_at := None, wi_lease_owner := Some worker,
       wi_lease_expires_at := Some (now + lease_millis * 1000)\<rparr>"

text \<open>A timestamp in milliseconds, rounded as the cast to \<open>BIGINT\<close> rounds.\<close>

definition unix_ms :: "int \<Rightarrow> i64" where
  "unix_ms t = (t + 500) div 1000"

definition claimed_work ::
    "string \<Rightarrow> int \<Rightarrow> ('v, 'json) discovery_store \<Rightarrow> work_item \<Rightarrow> 'json claimed_observation_work list" where
  "claimed_work worker expires s w =
     (case find_observation s (wi_observation_id w) of
        None \<Rightarrow> []
      | Some obs \<Rightarrow>
          [\<lparr>cw_work_id = wi_id w, cw_observation_id = wi_observation_id w, cw_work_kind = wi_kind w,
            cw_attempts = of_int (wi_attempts w), cw_lease_owner = worker,
            cw_lease_expires_at_unix_ms = unix_ms expires, cw_observation = obs\<rparr>])"

definition claim_observation_work ::
    "int \<Rightarrow> i64 list \<Rightarrow> string \<Rightarrow> string \<Rightarrow> u32 \<Rightarrow> duration \<Rightarrow> ('v, 'json) discovery_store
      \<Rightarrow> ('x persistence_error, 'json claimed_observation_work list) result \<times> ('v, 'json) discovery_store" where
  "claim_observation_work now locked kind worker limit lease s =
     (case result_bind (require_non_empty kind ''work_kind'') (\<lambda>_.
           result_bind (require_non_empty worker ''worker_id'') (\<lambda>_.
           if limit = 0 then Inl (MustBePositive ''claim limit'')
           else if MAX_CLAIM_BATCH < limit then Inl (LimitTooLarge ''claim limit'' MAX_CLAIM_BATCH)
           else duration_millis lease ''lease_duration'' False)) of
        Inl e \<Rightarrow> (Inl e, s)
      | Inr lease_millis \<Rightarrow>
          let ids = select_ids (\<lambda>w. (wi_available_at w, wi_id w)) (claimable_work now kind) locked (unat limit) (ds_work s);
              s' = update_work (\<lambda>w. wi_id w \<in> set ids) (claim_update now worker lease_millis) s;
              claimed = sort_key wi_id (filter (\<lambda>w. wi_id w \<in> set ids) (ds_work s'))
          in (Inr (concat (map (claimed_work worker (now + lease_millis * 1000) s') claimed)), s'))"

definition owns_lease :: "int \<Rightarrow> i64 \<Rightarrow> string \<Rightarrow> work_item \<Rightarrow> bool" where
  "owns_lease now wid worker w \<longleftrightarrow>
     wi_id w = wid \<and> wi_state w = WorkProcessing \<and> wi_lease_owner w = Some worker
     \<and> (case wi_lease_expires_at w of None \<Rightarrow> False | Some t \<Rightarrow> now < t)"

definition renew_observation_work_lease ::
    "int \<Rightarrow> i64 \<Rightarrow> string \<Rightarrow> duration \<Rightarrow> ('v, 'json) discovery_store
      \<Rightarrow> ('x persistence_error, i64) result \<times> ('v, 'json) discovery_store" where
  "renew_observation_work_lease now wid worker lease s =
     (case result_bind (require_non_empty worker ''worker_id'') (\<lambda>_. duration_millis lease ''lease_duration'' False) of
        Inl e \<Rightarrow> (Inl e, s)
      | Inr lease_millis \<Rightarrow>
          let expires = now + lease_millis * 1000 in
          if list_ex (owns_lease now wid worker) (ds_work s)
          then (Inr (unix_ms expires),
                update_work (owns_lease now wid worker) (\<lambda>w. w\<lparr>wi_lease_expires_at := Some expires\<rparr>) s)
          else (Inl (WorkLeaseLost wid worker), s))"

definition lock_owned_work ::
    "int \<Rightarrow> i64 \<Rightarrow> string \<Rightarrow> ('v, 'json) discovery_store \<Rightarrow> ('x persistence_error, 'json owned_work) result" where
  "lock_owned_work now wid worker s =
     (case find (owns_lease now wid worker) (ds_work s) of
        None \<Rightarrow> Inl (WorkLeaseLost wid worker)
      | Some w \<Rightarrow>
          (case find_observation s (wi_observation_id w) of
             None \<Rightarrow> Inl (WorkLeaseLost wid worker)
           | Some obs \<Rightarrow>
               Inr \<lparr>ow_work_id = wi_id w, ow_observation_id = wi_observation_id w, ow_work_kind = wi_kind w,
                    ow_attempts = wi_attempts w, ow_observation = obs\<rparr>))"

definition mark_work_complete :: "int \<Rightarrow> i64 \<Rightarrow> ('v, 'json) discovery_store \<Rightarrow> ('v, 'json) discovery_store" where
  "mark_work_complete now wid =
     update_work (\<lambda>w. wi_id w = wid)
       (\<lambda>w. w\<lparr>wi_state := WorkComplete, wi_finished_at := Some now, wi_lease_owner := None,
              wi_lease_expires_at := None\<rparr>)"

definition complete_observation_work ::
    "int \<Rightarrow> i64 \<Rightarrow> string \<Rightarrow> ('v, 'json) discovery_store \<Rightarrow> ('x persistence_error, unit) result \<times> ('v, 'json) discovery_store" where
  "complete_observation_work now wid worker =
     commit (\<lambda>s.
       result_bind (require_non_empty worker ''worker_id'') (\<lambda>_.
       result_bind (lock_owned_work now wid worker s) (\<lambda>work.
       if ow_work_kind work = ''DISCOVERY'' then Inl (DiscoveryOutcomeRequired wid)
       else Inr ((), mark_work_complete now wid s))))"

text \<open>\<open>INSERT\<close> a reason once, or count it once more.\<close>

definition upsert_reason :: "string \<Rightarrow> i64 \<Rightarrow> reason_summary list \<Rightarrow> reason_summary list" where
  "upsert_reason reason seen rows =
     (if list_ex (\<lambda>r. rs_reason_code r = reason) rows
      then map (\<lambda>r. if rs_reason_code r = reason
             then r\<lparr>rs_count := rs_count r + 1, rs_last_seen_unix_ms := max (rs_last_seen_unix_ms r) seen\<rparr>
             else r) rows
      else rows @ [\<lparr>rs_reason_code = reason, rs_count = 1, rs_last_seen_unix_ms = seen\<rparr>])"

definition upsert_rejection_summary :: "string \<Rightarrow> i64 \<Rightarrow> ('v, 'json) discovery_store \<Rightarrow> ('v, 'json) discovery_store" where
  "upsert_rejection_summary reason seen s = s\<lparr>ds_failures := upsert_reason reason seen (ds_failures s)\<rparr>"

text \<open>An update of the single row of counters, its new sequence, and the event that carries it.\<close>

definition advance :: "(projection_state_row \<Rightarrow> projection_state_row) \<Rightarrow> ('v, 'json) discovery_store \<Rightarrow> ('v, 'json) discovery_store" where
  "advance f s = s\<lparr>ds_state := (f (ds_state s))\<lparr>ps_sequence := ps_sequence (ds_state s) + 1\<rparr>\<rparr>"

definition append_projection_event :: "string \<Rightarrow> ('v, 'json) discovery_store \<Rightarrow> ('v, 'json) discovery_store" where
  "append_projection_event kind s = s\<lparr>ds_events := ds_events s @ [(kind, ps_sequence (ds_state s))]\<rparr>"

definition fail_projection :: "projection_state_row \<Rightarrow> projection_state_row" where
  "fail_projection p =
     p\<lparr>ps_queued_facts := max (ps_queued_facts p - 1) 0, ps_processing_failures := ps_processing_failures p + 1\<rparr>"

definition record_terminal_discovery_failure ::
    "'json owned_work \<Rightarrow> string \<Rightarrow> ('v, 'json) discovery_store \<Rightarrow> ('v, 'json) discovery_store" where
  "record_terminal_discovery_failure work error_code =
     append_projection_event ''DISCOVERY_WORK_FAILED''
     \<circ> upsert_rejection_summary error_code (received_time_unix_ms (ow_observation work))
     \<circ> advance fail_projection"

definition fail_work :: "int \<Rightarrow> string \<Rightarrow> i64 \<Rightarrow> bool \<Rightarrow> work_item \<Rightarrow> work_item" where
  "fail_work now error_code retry_millis permanently_failed w =
     (if permanently_failed
      then w\<lparr>wi_state := WorkFailed, wi_finished_at := Some now, wi_last_error_code := Some error_code,
             wi_lease_owner := None, wi_lease_expires_at := None\<rparr>
      else w\<lparr>wi_state := WorkPending, wi_available_at := now + retry_millis * 1000, wi_claimed_at := None,
             wi_finished_at := None, wi_last_error_code := Some error_code, wi_lease_owner := None,
             wi_lease_expires_at := None\<rparr>)"

definition retry_or_fail_observation_work ::
    "int \<Rightarrow> i64 \<Rightarrow> string \<Rightarrow> string \<Rightarrow> duration \<Rightarrow> u32 \<Rightarrow> ('v, 'json) discovery_store
      \<Rightarrow> ('x persistence_error, work_failure_disposition) result \<times> ('v, 'json) discovery_store" where
  "retry_or_fail_observation_work now wid worker error_code retry_after max_attempts =
     commit (\<lambda>s.
       result_bind (require_non_empty worker ''worker_id'') (\<lambda>_.
       result_bind (require_non_empty error_code ''error_code'') (\<lambda>_.
       if max_attempts = 0 then Inl (MustBePositive ''max_attempts'')
       else if 2147483647 < max_attempts then Inl (ValueOutOfRange ''max_attempts'')
       else result_bind (duration_millis retry_after ''retry_after'' True) (\<lambda>retry_millis.
       result_bind (lock_owned_work now wid worker s) (\<lambda>work.
       let permanently_failed = int (unat max_attempts) \<le> ow_attempts work;
           s1 = update_work (\<lambda>w. wi_id w = wid) (fail_work now error_code retry_millis permanently_failed) s in
       if permanently_failed
       then Inr (PermanentlyFailed,
              if ow_work_kind work = ''DISCOVERY'' then record_terminal_discovery_failure work error_code s1 else s1)
       else Inr (RetryScheduled, s1))))))"

end
