(* ===== verification/Discovery_Projection.thy ===== *)
theory Discovery_Projection
  imports Discovery_Store
begin

text \<open>
  The insertion of observations, \<open>crates/persistence/src/observations.rs\<close>, once per chain identity and
  with the work it queues, and the checks and merges of candidates,
  \<open>crates/persistence/src/discovery_validation.rs\<close>.
\<close>

section \<open>Observations\<close>

definition validate_length :: "string \<Rightarrow> string \<Rightarrow> usize \<Rightarrow> ('x persistence_error, unit) result" where
  "validate_length v field maximum = (if maximum < length v then Inl (FieldTooLong field maximum) else Inr ())"

definition MAX_EVIDENCE_BASE64_BYTES :: usize where
  "MAX_EVIDENCE_BASE64_BYTES = 16384"

definition validate_evidence_base64 ::
    "(string \<Rightarrow> ('b, u8 list) result) \<Rightarrow> string \<Rightarrow> string \<Rightarrow> ('x persistence_error, unit) result" where
  "validate_evidence_base64 base64_decode v field =
     result_bind (require_non_empty v field) (\<lambda>_.
     result_bind (validate_length v field MAX_EVIDENCE_BASE64_BYTES) (\<lambda>_.
     case base64_decode v of Inl _ \<Rightarrow> Inl (InvalidBase64Field field) | Inr _ \<Rightarrow> Inr ()))"

definition same_identity :: "observation_key \<Rightarrow> observation_key \<Rightarrow> bool" where
  "same_identity k k' \<longleftrightarrow>
     key_network k = key_network k' \<and> key_program k = key_program k'
     \<and> signature (key_coordinate k) = signature (key_coordinate k')
     \<and> instruction_index (key_coordinate k) = instruction_index (key_coordinate k')
     \<and> event_index (key_coordinate k) = event_index (key_coordinate k')"

definition with_transport ::
    "i64 \<Rightarrow> commitment \<Rightarrow> u64 option \<Rightarrow> 'json normalized_observation \<Rightarrow> 'json normalized_observation" where
  "with_transport received c tx obs =
     obs\<lparr>received_time_unix_ms := received, obs_commitment := c,
         obs_key := (obs_key obs)\<lparr>key_coordinate := (key_coordinate (obs_key obs))\<lparr>transaction_index := tx\<rparr>\<rparr>\<rparr>"

definition compatible_replay :: "'json normalized_observation \<Rightarrow> 'json normalized_observation \<Rightarrow> bool" where
  "compatible_replay stored incoming \<longleftrightarrow>
     (case (transaction_index (key_coordinate (obs_key stored)), transaction_index (key_coordinate (obs_key incoming))) of
        (Some i, Some i') \<Rightarrow> i = i'
      | _ \<Rightarrow> True)
     \<and> with_transport (received_time_unix_ms stored) (obs_commitment stored)
         (transaction_index (key_coordinate (obs_key stored))) incoming = stored"

definition opens_window :: "('v, 'json) discovery_store \<Rightarrow> i64 \<Rightarrow> bool" where
  "opens_window s oid \<longleftrightarrow> list_ex (\<lambda>w. we_opening_observation w = Some oid) (ds_windows s)"

definition move_receipt :: "i64 \<Rightarrow> i64 \<Rightarrow> ('v, 'json) discovery_store \<Rightarrow> ('v, 'json) discovery_store" where
  "move_receipt oid received s =
     s\<lparr>ds_observations := map (\<lambda>r. if chain_id r = oid
          then r\<lparr>chain_observation := (chain_observation r)\<lparr>received_time_unix_ms := received\<rparr>\<rparr> else r) (ds_observations s),
       ds_members := map (\<lambda>m. if mem_observation m = oid
          then m\<lparr>mem_admitted_at := min (mem_admitted_at m) received\<rparr> else m) (ds_members s)\<rparr>"

text \<open>The answer is the id of the row and whether it is new.\<close>

definition insert_chain_observation ::
    "int \<Rightarrow> 'json normalized_observation \<Rightarrow> ('x, 'v, 'json, i64 \<times> bool) transaction" where
  "insert_chain_observation now obs s =
     (case find (\<lambda>r. same_identity (obs_key (chain_observation r)) (obs_key obs)) (ds_observations s) of
        None \<Rightarrow>
          Inr ((ds_next_observation_id s, True),
            s\<lparr>ds_observations := ds_observations s @ [\<lparr>chain_id = ds_next_observation_id s, chain_first_seen_at = now, chain_observation = obs\<rparr>],
              ds_next_observation_id := ds_next_observation_id s + 1\<rparr>)
      | Some row \<Rightarrow>
          if \<not> compatible_replay (chain_observation row) obs
          then Inl (ObservationEvidenceConflict (network_name (key_network (obs_key obs)))
                 (source_program_name (key_program (obs_key obs))) (signature (key_coordinate (obs_key obs)))
                 (instruction_index (key_coordinate (obs_key obs))) (event_index (key_coordinate (obs_key obs))))
          else Inr ((chain_id row, False),
            if received_time_unix_ms obs < received_time_unix_ms (chain_observation row) \<and> \<not> opens_window s (chain_id row)
            then move_receipt (chain_id row) (received_time_unix_ms obs) s else s))"

definition prepare_observation ::
    "(string \<Rightarrow> ('b, u8 list) result) \<Rightarrow> 'json normalized_observation \<Rightarrow> ('x persistence_error, unit) result" where
  "prepare_observation base64_decode obs =
     (if key_network (obs_key obs) \<noteq> market_network (obs_market obs) then Inl NetworkMismatch
      else result_bind (validate_evidence_base64 base64_decode (source_evidence_base64 obs) ''source_evidence_base64'') (\<lambda>_.
      result_bind (to_i64 (slot (key_coordinate (obs_key obs))) ''slot'') (\<lambda>_.
      case transaction_index (key_coordinate (obs_key obs)) of
        None \<Rightarrow> Inr ()
      | Some i \<Rightarrow> result_bind (to_i64 i ''transaction_index'') (\<lambda>_. Inr ()))))"

definition insert_chain_observation_unprepared ::
    "(string \<Rightarrow> ('b, u8 list) result) \<Rightarrow> int \<Rightarrow> 'json normalized_observation \<Rightarrow> ('x, 'v, 'json, i64 \<times> bool) transaction" where
  "insert_chain_observation_unprepared base64_decode now obs s =
     result_bind (prepare_observation base64_decode obs) (\<lambda>_. insert_chain_observation now obs s)"

definition new_work :: "i64 \<Rightarrow> i64 \<Rightarrow> int \<Rightarrow> work_item" where
  "new_work wid oid now =
     \<lparr>wi_id = wid, wi_observation_id = oid, wi_kind = ''DISCOVERY'', wi_state = WorkPending, wi_attempts = 0,
      wi_available_at = now, wi_claimed_at = None, wi_finished_at = None, wi_lease_owner = None,
      wi_lease_expires_at = None, wi_last_error_code = None\<rparr>"

definition enqueue_discovery_work :: "int \<Rightarrow> i64 \<Rightarrow> ('v, 'json) discovery_store \<Rightarrow> ('v, 'json) discovery_store" where
  "enqueue_discovery_work now oid s =
     append_projection_event ''DISCOVERY_QUEUED_FACTS_CHANGED''
       (advance (\<lambda>p. p\<lparr>ps_queued_facts := ps_queued_facts p + 1\<rparr>)
         (s\<lparr>ds_work := ds_work s @ [new_work (ds_next_work_id s) oid now],
            ds_next_work_id := ds_next_work_id s + 1\<rparr>))"

definition insert_observation ::
    "(string \<Rightarrow> ('b, u8 list) result) \<Rightarrow> int \<Rightarrow> 'json normalized_observation \<Rightarrow> ('v, 'json) discovery_store
      \<Rightarrow> ('x persistence_error, bool) result \<times> ('v, 'json) discovery_store" where
  "insert_observation base64_decode now obs =
     commit (\<lambda>s.
       result_bind (insert_chain_observation_unprepared base64_decode now obs s) (\<lambda>((oid, is_new), s1).
       Inr (is_new, if is_new then enqueue_discovery_work now oid s1 else s1)))"

section \<open>Candidates\<close>

definition ensure_discovery_work :: "string \<Rightarrow> i64 \<Rightarrow> ('x persistence_error, unit) result" where
  "ensure_discovery_work actual wid =
     (if actual = ''DISCOVERY'' then Inr () else Inl (UnexpectedWorkKind wid ''DISCOVERY'' actual))"

definition validate_unsigned_decimal :: "string \<Rightarrow> string \<Rightarrow> ('x persistence_error, unit) result" where
  "validate_unsigned_decimal v field =
     (if v = [] \<or> \<not> list_all (\<lambda>c. CHR ''0'' \<le> c \<and> c \<le> CHR ''9'') v then Inl (InvalidUnsignedDecimal field) else Inr ())"

fun source_matches_venue :: "source_program \<Rightarrow> venue \<Rightarrow> bool" where
  "source_matches_venue SourcePump v \<longleftrightarrow> v = VenuePumpBondingCurve"
| "source_matches_venue SourcePumpSwap v \<longleftrightarrow> v = VenuePumpSwap"
| "source_matches_venue SourceRaydiumCpmm v \<longleftrightarrow> v = VenueRaydiumCpmm"
| "source_matches_venue SourceRaydiumClmm v \<longleftrightarrow> v = VenueRaydiumClmm"
| "source_matches_venue SourceRaydiumAmmV4 v \<longleftrightarrow> v = VenueRaydiumAmmV4"

definition optional_text :: "string option \<Rightarrow> string \<Rightarrow> ('x persistence_error, unit) result" where
  "optional_text v field =
     (if (case v of None \<Rightarrow> False | Some t \<Rightarrow> trim_is_empty t) then Inl (EmptyField field) else Inr ())"

definition qualification_passes :: "discovery_token \<Rightarrow> bool" where
  "qualification_passes t \<longleftrightarrow>
     (case dt_qualification t of
        None \<Rightarrow> False
      | Some q \<Rightarrow> sum_decision q = DecisionPass \<and> sum_completeness q = WindowComplete)"

definition activity_totals_valid :: "discovery_token \<Rightarrow> bool" where
  "activity_totals_valid t \<longleftrightarrow>
     (let a = dt_activity t in
      checked_add_word (act_buys a) (act_sells a) = Some (act_trades a)
      \<and> act_unique_traders a \<le> act_trades a \<and> dt_first_observed_unix_ms t \<le> dt_last_observed_unix_ms t
      \<and> source_matches_venue (dt_source_program t) (dt_primary_venue t))"

definition summary_totals_valid :: "discovery_window_summary \<Rightarrow> bool" where
  "summary_totals_valid q \<longleftrightarrow>
     checked_add_word (sum_buys q) (sum_sells q) = Some (sum_trades q)
     \<and> sum_unique_traders q \<le> sum_trades q \<and> sum_unique_buyers q \<le> sum_buys q \<and> sum_unique_sellers q \<le> sum_sells q
     \<and> sum_opened_unix_ms q < sum_closed_unix_ms q \<and> sum_opened_unix_ms q \<le> sum_evaluated_unix_ms q
     \<and> (case sum_maximum_single_wallet_quote_share_bps q of None \<Rightarrow> True | Some share \<Rightarrow> share \<le> 10000)"

definition validate_summary :: "discovery_window_summary \<Rightarrow> ('x persistence_error, unit) result" where
  "validate_summary q =
     result_bind (validate_unsigned_decimal (sum_buy_base_volume_units q) ''qualification volume'') (\<lambda>_.
     result_bind (validate_unsigned_decimal (sum_sell_base_volume_units q) ''qualification volume'') (\<lambda>_.
     result_bind (validate_unsigned_decimal (sum_buy_quote_volume_units q) ''qualification volume'') (\<lambda>_.
     result_bind (validate_unsigned_decimal (sum_sell_quote_volume_units q) ''qualification volume'') (\<lambda>_.
     if \<not> summary_totals_valid q then Inl InvalidActivityTotals else Inr ()))))"

definition validate_token_shape :: "discovery_token \<Rightarrow> ('x persistence_error, unit) result" where
  "validate_token_shape t =
     result_bind (require_non_empty (dt_mint t) ''token mint'') (\<lambda>_.
     result_bind (require_non_empty (dt_market_address t) ''token market_address'') (\<lambda>_.
     result_bind (require_non_empty (dt_last_event_kind t) ''token last_event_kind'') (\<lambda>_.
     result_bind (require_non_empty (dt_latest_signature t) ''token latest_signature'') (\<lambda>_.
     result_bind (optional_text (dt_name t) ''token name'') (\<lambda>_.
     result_bind (optional_text (dt_symbol t) ''token symbol'') (\<lambda>_.
     result_bind (optional_text (dt_quote_mint t) ''token quote_mint'') (\<lambda>_.
     result_bind (validate_unsigned_decimal (act_base_volume_units (dt_activity t)) ''activity.base_volume_units'') (\<lambda>_.
     result_bind (validate_unsigned_decimal (act_quote_volume_units (dt_activity t)) ''activity.quote_volume_units'') (\<lambda>_.
     if \<not> activity_totals_valid t then Inl InvalidActivityTotals
     else result_bind (case dt_qualification t of None \<Rightarrow> Inr () | Some q \<Rightarrow> validate_summary q) (\<lambda>_.
     if is_qualified_stage (dt_stage t) \<and> \<not> qualification_passes t
     then Inl (InvalidStoredValue ''token qualification'' (discovery_stage_name (dt_stage t)))
     else Inr ()))))))))))"

definition observed_at :: "'json normalized_observation \<Rightarrow> i64" where
  "observed_at obs = (case source_event_time_unix_ms obs of Some t \<Rightarrow> t | None \<Rightarrow> received_time_unix_ms obs)"

definition source_checks :: "discovery_token \<Rightarrow> 'json normalized_observation \<Rightarrow> (bool \<times> string) list" where
  "source_checks t obs =
     [(dt_mint t = mint (obs_market obs), ''mint''),
      (dt_primary_venue t = venue (obs_market obs), ''primary_venue''),
      (dt_market_address t = market_address (obs_market obs), ''market_address''),
      (dt_quote_mint t = quote_mint (obs_market obs), ''quote_mint''),
      (dt_source_program t = key_program (obs_key obs), ''source_program''),
      (dt_last_event_kind t = event_kind obs, ''event_kind''),
      (dt_observed_slot t = slot (key_coordinate (obs_key obs)), ''observed_slot''),
      (dt_latest_signature t = signature (key_coordinate (obs_key obs)), ''latest_signature''),
      (dt_last_observed_unix_ms t = observed_at obs, ''last_observed_unix_ms'')]"

definition validate_token_source ::
    "discovery_token \<Rightarrow> 'json normalized_observation \<Rightarrow> ('x persistence_error, unit) result" where
  "validate_token_source t obs =
     (case first_mismatch (source_checks t obs) of
        None \<Rightarrow> Inr () | Some field \<Rightarrow> Inl (DiscoverySourceMismatch field))"

definition token_matches_observation_market :: "discovery_token \<Rightarrow> 'json normalized_observation \<Rightarrow> bool" where
  "token_matches_observation_market t obs \<longleftrightarrow>
     dt_mint t = mint (obs_market obs) \<and> dt_primary_venue t = venue (obs_market obs)
     \<and> dt_market_address t = market_address (obs_market obs) \<and> dt_quote_mint t = quote_mint (obs_market obs)
     \<and> dt_source_program t = key_program (obs_key obs)"

definition validate_promotion_identity ::
    "discovery_token \<Rightarrow> discovery_token \<Rightarrow> ('x persistence_error, unit) result" where
  "validate_promotion_identity existing promoted =
     (case first_mismatch
        [(dt_mint existing = dt_mint promoted, ''mint''),
         (dt_primary_venue existing = dt_primary_venue promoted, ''primary_venue''),
         (dt_market_address existing = dt_market_address promoted, ''market_address''),
         (dt_quote_mint existing = dt_quote_mint promoted, ''quote_mint''),
         (dt_source_program existing = dt_source_program promoted, ''source_program'')] of
        None \<Rightarrow> Inr () | Some field \<Rightarrow> Inl (DiscoverySourceMismatch field))"

definition validate_stored_stage :: "string \<Rightarrow> discovery_stage \<Rightarrow> ('x persistence_error, unit) result" where
  "validate_stored_stage stored stage =
     (if stored = discovery_stage_name stage then Inr ()
      else Inl (InvalidStoredValue ''discovery_tokens.stage'' (stored @ ''/'' @ discovery_stage_name stage)))"

definition same_market :: "discovery_token \<Rightarrow> discovery_token \<Rightarrow> bool" where
  "same_market existing incoming \<longleftrightarrow>
     dt_primary_venue existing = dt_primary_venue incoming \<and> dt_market_address existing = dt_market_address incoming
     \<and> dt_quote_mint existing = dt_quote_mint incoming \<and> dt_source_program existing = dt_source_program incoming"

definition or_else :: "'a option \<Rightarrow> 'a option \<Rightarrow> 'a option" where
  "or_else a b = (case a of Some _ \<Rightarrow> a | None \<Rightarrow> b)"

definition merge_observation :: "discovery_token \<Rightarrow> discovery_token \<Rightarrow> discovery_token" where
  "merge_observation existing observed =
     (let preserve_decision = is_qualified_stage (dt_stage existing) \<and> same_market existing observed;
          merged = observed\<lparr>dt_first_observed_unix_ms :=
                min (dt_first_observed_unix_ms observed) (dt_first_observed_unix_ms existing),
              dt_last_observed_unix_ms := max (dt_last_observed_unix_ms observed) (dt_last_observed_unix_ms existing),
              dt_name := or_else (dt_name observed) (dt_name existing),
              dt_symbol := or_else (dt_symbol observed) (dt_symbol existing)\<rparr>
      in if preserve_decision
         then merged\<lparr>dt_stage := dt_stage existing, dt_qualification := dt_qualification existing,
                dt_risk_score := or_else (dt_risk_score observed) (dt_risk_score existing),
                dt_opportunity_score := or_else (dt_opportunity_score observed) (dt_opportunity_score existing)\<rparr>
         else merged)"

definition enrich_metadata_from_stale_creation ::
    "discovery_token \<Rightarrow> discovery_token \<Rightarrow> 'json normalized_observation \<Rightarrow> bool \<times> discovery_token" where
  "enrich_metadata_from_stale_creation existing stale obs =
     (case payload obs of
        TokenCreated _ _ _ _ _ \<Rightarrow>
          let named = (dt_name existing = None \<and> dt_name stale \<noteq> None);
              symboled = (dt_symbol existing = None \<and> dt_symbol stale \<noteq> None);
              t1 = (if named then existing\<lparr>dt_name := dt_name stale\<rparr> else existing);
              t2 = (if symboled then t1\<lparr>dt_symbol := dt_symbol stale\<rparr> else t1)
          in (named \<or> symboled, t2)
      | _ \<Rightarrow> (False, existing))"

definition merge_approval :: "discovery_token \<Rightarrow> discovery_token \<Rightarrow> discovery_token" where
  "merge_approval existing approved =
     (let merged =
        (if dt_observed_slot approved < dt_observed_slot existing
         then existing\<lparr>dt_risk_score := dt_risk_score approved, dt_opportunity_score := dt_opportunity_score approved,
                dt_qualification := or_else (dt_qualification approved) (dt_qualification existing)\<rparr>
         else approved\<lparr>dt_first_observed_unix_ms :=
                  min (dt_first_observed_unix_ms approved) (dt_first_observed_unix_ms existing),
                dt_name := or_else (dt_name approved) (dt_name existing),
                dt_symbol := or_else (dt_symbol approved) (dt_symbol existing),
                dt_qualification := or_else (dt_qualification approved) (dt_qualification existing)\<rparr>)
      in merged\<lparr>dt_stage := StageApproved\<rparr>)"

end
