(* ===== verification/Discovery_Commits.thy ===== *)
theory Discovery_Commits
  imports Discovery_Projection
begin

text \<open>
  The transactions on the candidates, \<open>crates/persistence/src/discovery.rs\<close>, with the rows they store
  (\<open>discovery_storage.rs\<close>) and the running activity of a market (\<open>discovery_activity.rs\<close>). A number
  that no longer fits its column of \<open>discovery_activity\<close> is an error of the database, given as a
  parameter. Encoding a candidate as JSON and reading it back are those of \<open>window_json\<close>.
\<close>

section \<open>Activity\<close>

definition activity_key_of :: "'json normalized_observation \<Rightarrow> activity_key" where
  "activity_key_of obs =
     (network_name (key_network (obs_key obs)), source_program_name (key_program (obs_key obs)),
      venue_name (venue (obs_market obs)), market_address (obs_market obs), mint (obs_market obs),
      observation_quote_mint (obs_market obs))"

definition empty_activity :: activity_row where
  "empty_activity =
     \<lparr>ar_trades = 0, ar_buys = 0, ar_sells = 0, ar_base_volume_units = 0, ar_quote_volume_units = 0\<rparr>"

text \<open>The columns are \<open>BIGINT\<close> and \<open>NUMERIC(39, 0)\<close>.\<close>

definition activity_fits :: "activity_row \<Rightarrow> bool" where
  "activity_fits a \<longleftrightarrow>
     ar_trades a \<le> i64_max \<and> ar_buys a \<le> i64_max \<and> ar_sells a \<le> i64_max
     \<and> ar_base_volume_units a < 10 ^ 39 \<and> ar_quote_volume_units a < 10 ^ 39"

definition count_trade :: "trade_side \<Rightarrow> u64 \<Rightarrow> u64 \<Rightarrow> activity_row \<Rightarrow> activity_row" where
  "count_trade side base quote a =
     \<lparr>ar_trades = ar_trades a + 1, ar_buys = ar_buys a + of_bool (side = Buy),
      ar_sells = ar_sells a + of_bool (side = Sell), ar_base_volume_units = ar_base_volume_units a + unat base,
      ar_quote_volume_units = ar_quote_volume_units a + unat quote\<rparr>"

definition unique_traders_of :: "('v, 'json) discovery_store \<Rightarrow> activity_key \<Rightarrow> nat" where
  "unique_traders_of s k = length (filter (\<lambda>p. fst p = k) (ds_traders s))"

definition read_activity ::
    "('v, 'json) discovery_store \<Rightarrow> activity_key \<Rightarrow> activity_row \<Rightarrow> ('x persistence_error, discovery_activity) result" where
  "read_activity s k a =
     result_bind (to_u64 (ar_trades a) ''discovery_activity.trades'') (\<lambda>n_trades.
     result_bind (to_u64 (ar_buys a) ''discovery_activity.buys'') (\<lambda>n_buys.
     result_bind (to_u64 (ar_sells a) ''discovery_activity.sells'') (\<lambda>n_sells.
     result_bind (to_u64 (int (unique_traders_of s k)) ''discovery_activity.unique_traders'') (\<lambda>n_unique.
     Inr \<lparr>act_trades = n_trades, act_buys = n_buys, act_sells = n_sells, act_unique_traders = n_unique,
          act_base_volume_units = show_nat (ar_base_volume_units a),
          act_quote_volume_units = show_nat (ar_quote_volume_units a)\<rparr>))))"

definition insert_trader :: "activity_key \<Rightarrow> string \<Rightarrow> ('v, 'json) discovery_store \<Rightarrow> ('v, 'json) discovery_store" where
  "insert_trader k trader s =
     (if (k, trader) \<in> set (ds_traders s) then s else s\<lparr>ds_traders := ds_traders s @ [(k, trader)]\<rparr>)"

definition apply_observation_activity ::
    "'x \<Rightarrow> 'json normalized_observation \<Rightarrow> ('x, 'v, 'json, discovery_activity) transaction" where
  "apply_observation_activity out_of_range obs s =
     (let k = activity_key_of obs;
          row = (case ds_activity s k of None \<Rightarrow> empty_activity | Some a \<Rightarrow> a)
      in case payload obs of
           Trade side trader base quote _ _ \<Rightarrow>
             result_bind (require_non_empty trader ''trade wallet'') (\<lambda>_.
             let row' = count_trade side base quote row;
                 s' = (insert_trader k trader s)\<lparr>ds_activity := (ds_activity s)(k \<mapsto> row')\<rparr>
             in if \<not> activity_fits row' then Inl (DatabaseError out_of_range)
                else result_bind (read_activity s' k row') (\<lambda>activity. Inr (activity, s')))
         | _ \<Rightarrow>
             let s' = s\<lparr>ds_activity := (ds_activity s)(k \<mapsto> row)\<rparr>
             in result_bind (read_activity s' k row) (\<lambda>activity. Inr (activity, s')))"

section \<open>Stored candidates\<close>

definition find_token :: "('v, 'json) discovery_store \<Rightarrow> string \<Rightarrow> 'v stored_token_row option" where
  "find_token s m = find (\<lambda>r. str_mint r = m) (ds_tokens s)"

definition update_token ::
    "string \<Rightarrow> ('v stored_token_row \<Rightarrow> 'v stored_token_row) \<Rightarrow> ('v, 'json) discovery_store \<Rightarrow> ('v, 'json) discovery_store" where
  "update_token m f s = s\<lparr>ds_tokens := map (\<lambda>r. if str_mint r = m then f r else r) (ds_tokens s)\<rparr>"

record discovery_observation =
  candidate_token :: discovery_token
  validation_source :: string
  validation_version :: string

record discovery_rejection =
  rej_mint :: string
  rej_reason_code :: string
  rej_seen_at_unix_ms :: i64
  rej_decision_source :: string
  rej_decision_version :: string

datatype projection_mutation =
    Inserted
  | Updated
  | DemotedByMarketChange
  | StaleObservationIgnored
  | MetadataEnrichedFromStaleCreation
  | Promoted
  | AlreadyApproved

text \<open>The row that \<open>insert_discovery_token\<close> and \<open>update_discovery_token\<close> write for a candidate.\<close>

definition token_row ::
    "('x, 'v) window_json \<Rightarrow> discovery_token \<Rightarrow> i64 \<Rightarrow> string \<Rightarrow> string
      \<Rightarrow> ('x persistence_error, 'v stored_token_row) result" where
  "token_row j t wid source version =
     result_bind (to_i64 (dt_observed_slot t) ''observed_slot'') (\<lambda>observed_slot.
     result_bind (map_err SerializationError (token_to_value j t)) (\<lambda>v.
     Inr \<lparr>str_mint = dt_mint t, str_stage = discovery_stage_name (dt_stage t), str_observed_slot = observed_slot,
          str_source_work_id = Some wid, str_decision_source = source, str_decision_version = version,
          str_token = v\<rparr>))"

definition insert_discovery_token ::
    "('x, 'v) window_json \<Rightarrow> discovery_token \<Rightarrow> i64 \<Rightarrow> string \<Rightarrow> string \<Rightarrow> ('x, 'v, 'json, unit) transaction" where
  "insert_discovery_token j t wid source version s =
     result_bind (token_row j t wid source version) (\<lambda>row. Inr ((), s\<lparr>ds_tokens := ds_tokens s @ [row]\<rparr>))"

definition update_discovery_token ::
    "('x, 'v) window_json \<Rightarrow> discovery_token \<Rightarrow> i64 \<Rightarrow> string \<Rightarrow> string \<Rightarrow> ('x, 'v, 'json, unit) transaction" where
  "update_discovery_token j t wid source version s =
     result_bind (token_row j t wid source version) (\<lambda>row. Inr ((), update_token (dt_mint t) (\<lambda>_. row) s))"

definition update_discovery_token_metadata ::
    "('x, 'v) window_json \<Rightarrow> discovery_token \<Rightarrow> ('x, 'v, 'json, unit) transaction" where
  "update_discovery_token_metadata j t s =
     result_bind (map_err SerializationError (token_to_value j t)) (\<lambda>v.
     Inr ((), update_token (dt_mint t) (\<lambda>r. r\<lparr>str_token := v\<rparr>) s))"

section \<open>Observing a candidate\<close>

definition observe_existing ::
    "('x, 'v) window_json \<Rightarrow> discovery_token \<Rightarrow> 'json normalized_observation \<Rightarrow> 'v stored_token_row
      \<Rightarrow> ('x persistence_error, projection_mutation \<times> discovery_token \<times> bool \<times> bool) result" where
  "observe_existing j cand obs existing =
     result_bind (map_err SerializationError (token_from_value j (str_token existing))) (\<lambda>stored.
     result_bind (validate_stored_stage (str_stage existing) (dt_stage stored)) (\<lambda>_.
     result_bind (to_i64 (dt_observed_slot cand) ''observed_slot'') (\<lambda>candidate_slot.
     if candidate_slot < str_observed_slot existing
     then let (changed, enriched) = enrich_metadata_from_stale_creation stored cand obs in
       Inr (if changed then MetadataEnrichedFromStaleCreation else StaleObservationIgnored, enriched, False, False)
     else let merged = merge_observation stored cand;
              approval_removed = (dt_stage stored = StageApproved \<and> dt_stage merged \<noteq> StageApproved);
              qualification_removed = (is_qualified_stage (dt_stage stored) \<and> \<not> is_qualified_stage (dt_stage merged))
       in Inr (if approval_removed \<or> qualification_removed then DemotedByMarketChange else Updated,
               merged, approval_removed, qualification_removed))))"

definition observe_candidate ::
    "('x, 'v) window_json \<Rightarrow> discovery_token \<Rightarrow> 'json normalized_observation \<Rightarrow> 'v stored_token_row option
      \<Rightarrow> ('x persistence_error, projection_mutation \<times> discovery_token \<times> bool \<times> bool) result" where
  "observe_candidate j cand obs existing =
     (case existing of
        None \<Rightarrow> Inr (Inserted, cand, False, False)
      | Some row \<Rightarrow> observe_existing j cand obs row)"

definition store_candidate ::
    "('x, 'v) window_json \<Rightarrow> projection_mutation \<Rightarrow> discovery_token \<Rightarrow> i64 \<Rightarrow> string \<Rightarrow> string
      \<Rightarrow> ('x, 'v, 'json, unit) transaction" where
  "store_candidate j mutation t wid source version s =
     (case mutation of
        Inserted \<Rightarrow> insert_discovery_token j t wid source version s
      | Updated \<Rightarrow> update_discovery_token j t wid source version s
      | DemotedByMarketChange \<Rightarrow> update_discovery_token j t wid source version s
      | MetadataEnrichedFromStaleCreation \<Rightarrow> update_discovery_token_metadata j t s
      | _ \<Rightarrow> Inr ((), s))"

definition publish_activity ::
    "('x, 'v) window_json \<Rightarrow> discovery_token \<Rightarrow> 'json normalized_observation \<Rightarrow> discovery_activity
      \<Rightarrow> ('x, 'v, 'json, unit) transaction" where
  "publish_activity j t obs activity s =
     (if token_matches_observation_market t obs
      then update_discovery_token_metadata j (t\<lparr>dt_activity := activity\<rparr>) s else Inr ((), s))"

definition observe_projection :: "bool \<Rightarrow> bool \<Rightarrow> bool \<Rightarrow> projection_state_row \<Rightarrow> projection_state_row" where
  "observe_projection is_new approval_removed qualification_removed p =
     p\<lparr>ps_observed := ps_observed p + of_bool is_new, ps_queued_facts := max (ps_queued_facts p - 1) 0,
       ps_approved := max (ps_approved p - of_bool approval_removed) 0,
       ps_qualified := max (ps_qualified p - of_bool qualification_removed) 0\<rparr>"

definition validate_candidate :: "string \<Rightarrow> discovery_observation \<Rightarrow> ('x persistence_error, unit) result" where
  "validate_candidate worker c =
     result_bind (require_non_empty worker ''worker_id'') (\<lambda>_.
     result_bind (require_non_empty (validation_source c) ''validation_source'') (\<lambda>_.
     result_bind (require_non_empty (validation_version c) ''validation_version'') (\<lambda>_.
     result_bind (validate_token_shape (candidate_token c)) (\<lambda>_.
     if dt_stage (candidate_token c) \<noteq> StageObserved then Inl ObservationMustBeUnapproved else Inr ()))))"

definition observe_transaction ::
    "('x, 'v) window_json \<Rightarrow> 'x \<Rightarrow> int \<Rightarrow> i64 \<Rightarrow> string \<Rightarrow> discovery_observation
      \<Rightarrow> ('x, 'v, 'json, projection_mutation) transaction" where
  "observe_transaction j out_of_range now wid worker c s =
     result_bind (lock_owned_work now wid worker s) (\<lambda>work.
     let obs = ow_observation work; cand = candidate_token c in
     result_bind (ensure_discovery_work (ow_work_kind work) wid) (\<lambda>_.
     result_bind (validate_token_source cand obs) (\<lambda>_.
     result_bind (observe_candidate j cand obs (find_token s (dt_mint cand)))
       (\<lambda>(mutation, t, approval_removed, qualification_removed).
     result_bind (store_candidate j mutation t wid (validation_source c) (validation_version c) s) (\<lambda>(_, s1).
     result_bind (apply_observation_activity out_of_range obs s1) (\<lambda>(activity, s2).
     result_bind (publish_activity j t obs activity s2) (\<lambda>(_, s3).
     Inr (mutation,
       append_projection_event ''DISCOVERY_TOKEN_OBSERVED''
         (mark_work_complete now wid
           (advance (observe_projection (mutation = Inserted) approval_removed qualification_removed) s3))))))))))"

definition commit_discovery_observation ::
    "('x, 'v) window_json \<Rightarrow> 'x \<Rightarrow> int \<Rightarrow> i64 \<Rightarrow> string \<Rightarrow> discovery_observation \<Rightarrow> ('v, 'json) discovery_store
      \<Rightarrow> ('x persistence_error, projection_mutation) result \<times> ('v, 'json) discovery_store" where
  "commit_discovery_observation j out_of_range now wid worker c =
     commit (\<lambda>s. result_bind (validate_candidate worker c) (\<lambda>_. observe_transaction j out_of_range now wid worker c s))"

section \<open>Promotion and rejection\<close>

definition validate_approval :: "discovery_token \<Rightarrow> string \<Rightarrow> string \<Rightarrow> ('x persistence_error, unit) result" where
  "validate_approval t source version =
     result_bind (require_non_empty source ''decision_source'') (\<lambda>_.
     result_bind (require_non_empty version ''decision_version'') (\<lambda>_.
     if dt_stage t \<noteq> StageApproved then Inl ApprovalMustBeExplicit
     else if \<not> qualification_passes t then Inl (CandidateNotQualified (dt_mint t))
     else validate_token_shape t))"

definition approve_transaction ::
    "('x, 'v) window_json \<Rightarrow> discovery_token \<Rightarrow> string \<Rightarrow> string \<Rightarrow> ('x, 'v, 'json, projection_mutation) transaction" where
  "approve_transaction j t source version s =
     result_bind (ok_or (CandidateNotObserved (dt_mint t)) (find_token s (dt_mint t))) (\<lambda>existing.
     result_bind (map_err SerializationError (token_from_value j (str_token existing))) (\<lambda>stored.
     result_bind (validate_stored_stage (str_stage existing) (dt_stage stored)) (\<lambda>_.
     if \<not> is_qualified_stage (dt_stage stored) \<or> \<not> qualification_passes stored
     then Inl (CandidateNotQualified (dt_mint t))
     else result_bind (validate_promotion_identity stored t) (\<lambda>_.
     let was_approved = dt_stage stored = StageApproved; promoted = merge_approval stored t in
     result_bind (map_err SerializationError (token_to_value j promoted)) (\<lambda>v.
     result_bind (to_i64 (dt_observed_slot promoted) ''observed_slot'') (\<lambda>observed_slot.
     Inr (if was_approved then AlreadyApproved else Promoted,
       append_projection_event ''DISCOVERY_TOKEN_APPROVED''
         (advance (\<lambda>p. p\<lparr>ps_approved := ps_approved p + of_bool (\<not> was_approved)\<rparr>)
           (update_token (dt_mint promoted)
             (\<lambda>r. r\<lparr>str_stage := ''APPROVED'', str_observed_slot := observed_slot, str_decision_source := source,
                    str_decision_version := version, str_token := v\<rparr>) s)))))))))"

definition commit_discovery_approval ::
    "('x, 'v) window_json \<Rightarrow> discovery_token \<Rightarrow> string \<Rightarrow> string \<Rightarrow> ('v, 'json) discovery_store
      \<Rightarrow> ('x persistence_error, projection_mutation) result \<times> ('v, 'json) discovery_store" where
  "commit_discovery_approval j t source version =
     commit (\<lambda>s. result_bind (validate_approval t source version) (\<lambda>_. approve_transaction j t source version s))"

definition validate_rejection :: "string \<Rightarrow> discovery_rejection \<Rightarrow> ('x persistence_error, unit) result" where
  "validate_rejection worker r =
     result_bind (require_non_empty worker ''worker_id'') (\<lambda>_.
     result_bind (require_non_empty (rej_mint r) ''rejection mint'') (\<lambda>_.
     result_bind (require_non_empty (rej_reason_code r) ''reason_code'') (\<lambda>_.
     result_bind (require_non_empty (rej_decision_source r) ''decision_source'') (\<lambda>_.
     require_non_empty (rej_decision_version r) ''decision_version''))))"

definition reject_transaction ::
    "int \<Rightarrow> i64 \<Rightarrow> string \<Rightarrow> discovery_rejection \<Rightarrow> ('x, 'v, 'json, unit) transaction" where
  "reject_transaction now wid worker r s =
     result_bind (lock_owned_work now wid worker s) (\<lambda>work.
     result_bind (ensure_discovery_work (ow_work_kind work) wid) (\<lambda>_.
     if rej_mint r \<noteq> mint (obs_market (ow_observation work)) then Inl (DiscoverySourceMismatch ''mint'')
     else Inr ((),
       append_projection_event ''DISCOVERY_TOKEN_REJECTED''
         (mark_work_complete now wid
           (upsert_rejection_summary (rej_reason_code r) (rej_seen_at_unix_ms r)
             (advance fail_projection s))))))"

definition commit_discovery_rejection ::
    "int \<Rightarrow> i64 \<Rightarrow> string \<Rightarrow> discovery_rejection \<Rightarrow> ('v, 'json) discovery_store
      \<Rightarrow> ('x persistence_error, unit) result \<times> ('v, 'json) discovery_store" where
  "commit_discovery_rejection now wid worker r =
     commit (\<lambda>s. result_bind (validate_rejection worker r) (\<lambda>_. reject_transaction now wid worker r s))"

section \<open>Settings and counters\<close>

definition set_discovery_mode :: "discovery_mode \<Rightarrow> ('v, 'json) discovery_store \<Rightarrow> bool \<times> ('v, 'json) discovery_store" where
  "set_discovery_mode mode s =
     (if ps_mode (ds_state s) = discovery_mode_name mode then (False, s)
      else (True, append_projection_event ''DISCOVERY_MODE_CHANGED''
        (advance (\<lambda>p. p\<lparr>ps_mode := discovery_mode_name mode\<rparr>) s)))"

definition flow_i64 :: "u64 option \<Rightarrow> ('x persistence_error, i64 option) result" where
  "flow_i64 flow =
     (case flow of None \<Rightarrow> Inr None | Some v \<Rightarrow> result_bind (to_i64 v ''flow_per_minute'') (\<lambda>i. Inr (Some i)))"

definition set_discovery_flow_per_minute ::
    "u64 option \<Rightarrow> ('v, 'json) discovery_store \<Rightarrow> ('x persistence_error, bool) result \<times> ('v, 'json) discovery_store" where
  "set_discovery_flow_per_minute flow =
     commit (\<lambda>s. result_bind (flow_i64 flow) (\<lambda>flow'.
       if ps_flow_per_minute (ds_state s) = flow' then Inr (False, s)
       else Inr (True, append_projection_event ''DISCOVERY_FLOW_CHANGED''
         (advance (\<lambda>p. p\<lparr>ps_flow_per_minute := flow'\<rparr>) s))))"

definition counted :: "('v, 'json) discovery_store \<Rightarrow> projection_state_row \<Rightarrow> projection_state_row" where
  "counted s p =
     p\<lparr>ps_observed := int (length (ds_tokens s)),
       ps_approved := int (length (filter (\<lambda>r. str_stage r = ''APPROVED'') (ds_tokens s))),
       ps_queued_facts := int (length (filter (\<lambda>w. wi_kind w = ''DISCOVERY''
           \<and> (wi_state w = WorkPending \<or> wi_state w = WorkProcessing)) (ds_work s))),
       ps_qualified := int (length (filter (\<lambda>r. str_stage r = ''QUALIFIED'' \<or> str_stage r = ''APPROVED'') (ds_tokens s))),
       ps_qualification_pending := int (length (filter (\<lambda>w. row_status (we_row w) = ''ACTIVE'') (ds_windows s))),
       ps_qualification_rejected :=
         int (length (filter (\<lambda>a. sf_decision (asm_stored a) = ''REJECT'') (ds_assessments s))),
       ps_qualification_unknown :=
         int (length (filter (\<lambda>a. sf_decision (asm_stored a) = ''UNKNOWN'') (ds_assessments s))),
       ps_processing_failures := sum_list (map rs_count (ds_failures s))\<rparr>"

definition rebuild_discovery_projection ::
    "('v, 'json) discovery_store \<Rightarrow> ('x persistence_error, u64) result \<times> ('v, 'json) discovery_store" where
  "rebuild_discovery_projection s =
     (let s' = append_projection_event ''DISCOVERY_REBUILT'' (advance (counted s) s)
      in (to_u64 (ps_sequence (ds_state s')) ''discovery_projection_state.sequence'', s'))"

section \<open>Reading the projection\<close>

definition DEFAULT_DISCOVERY_SNAPSHOT_LIMIT :: u32 where
  "DEFAULT_DISCOVERY_SNAPSHOT_LIMIT = 500"

definition MAX_DISCOVERY_SNAPSHOT_LIMIT :: u32 where
  "MAX_DISCOVERY_SNAPSHOT_LIMIT = 5000"

record rejection_summary =
  rejected_reason_code :: string
  rejected_count :: u64
  rejected_last_seen_unix_ms :: i64

record discovery_snapshot =
  snap_sequence :: u64
  snap_mode :: discovery_mode
  snap_tokens :: "discovery_token list"
  snap_tokens_total :: u64
  snap_tokens_truncated :: bool
  snap_counters :: discovery_counters
  snap_rejection_reasons :: "rejection_summary list"

definition mode_shows :: "discovery_mode \<Rightarrow> string \<Rightarrow> bool" where
  "mode_shows mode stage \<longleftrightarrow>
     (case mode of
        ObserveAll \<Rightarrow> True
      | QualifiedOnly \<Rightarrow> stage = ''QUALIFIED'' \<or> stage = ''APPROVED''
      | ApprovedOnly \<Rightarrow> stage = ''APPROVED'')"

definition visible_rows :: "discovery_mode \<Rightarrow> ('v, 'json) discovery_store \<Rightarrow> 'v stored_token_row list" where
  "visible_rows mode s =
     sort_key (\<lambda>r. (- str_observed_slot r, str_mint r)) (filter (\<lambda>r. mode_shows mode (str_stage r)) (ds_tokens s))"

definition read_token :: "('x, 'v) window_json \<Rightarrow> 'v stored_token_row \<Rightarrow> ('x persistence_error, discovery_token) result" where
  "read_token j r =
     result_bind (map_err SerializationError (token_from_value j (str_token r))) (\<lambda>t.
     result_bind (validate_token_shape t) (\<lambda>_. Inr t))"

definition read_visible_token ::
    "('x, 'v) window_json \<Rightarrow> discovery_mode \<Rightarrow> 'v stored_token_row \<Rightarrow> ('x persistence_error, discovery_token) result" where
  "read_visible_token j mode r =
     result_bind (read_token j r) (\<lambda>t.
     if mode = QualifiedOnly \<and> \<not> is_qualified_stage (dt_stage t) \<or> mode = ApprovedOnly \<and> dt_stage t \<noteq> StageApproved
     then Inl (InvalidStoredValue ''discovery_tokens.stage'' (discovery_stage_name (dt_stage t)))
     else Inr t)"

fun collect_results :: "('a \<Rightarrow> ('e, 'b) result) \<Rightarrow> 'a list \<Rightarrow> ('e, 'b list) result" where
  "collect_results f [] = Inr []"
| "collect_results f (x # xs) = result_bind (f x) (\<lambda>y. result_bind (collect_results f xs) (\<lambda>ys. Inr (y # ys)))"

definition read_rejection :: "reason_summary \<Rightarrow> ('x persistence_error, rejection_summary) result" where
  "read_rejection r =
     result_bind (to_u64 (rs_count r) ''qualification_rejection_summaries.count'') (\<lambda>n.
     Inr \<lparr>rejected_reason_code = rs_reason_code r, rejected_count = n,
          rejected_last_seen_unix_ms = rs_last_seen_unix_ms r\<rparr>)"

definition read_counters :: "projection_state_row \<Rightarrow> ('x persistence_error, discovery_counters) result" where
  "read_counters p =
     result_bind (to_u64 (ps_observed p) ''discovery_projection_state.observed'') (\<lambda>n_observed.
     result_bind (to_u64 (ps_queued_facts p) ''discovery_projection_state.queued_facts'') (\<lambda>n_queued.
     result_bind (to_u64 (ps_qualified p) ''discovery_projection_state.qualified'') (\<lambda>n_qualified.
     result_bind (to_u64 (ps_qualification_pending p) ''discovery_projection_state.qualification_pending'') (\<lambda>n_pending.
     result_bind (to_u64 (ps_qualification_rejected p) ''discovery_projection_state.qualification_rejected'') (\<lambda>n_rejected.
     result_bind (to_u64 (ps_qualification_unknown p) ''discovery_projection_state.qualification_unknown'') (\<lambda>n_unknown.
     result_bind (to_u64 (ps_processing_failures p) ''discovery_projection_state.processing_failures'') (\<lambda>n_failures.
     result_bind (to_u64 (ps_approved p) ''discovery_projection_state.approved'') (\<lambda>n_approved.
     result_bind (case ps_flow_per_minute p of
         None \<Rightarrow> Inr None
       | Some flow \<Rightarrow> result_bind (to_u64 flow ''discovery_projection_state.flow_per_minute'') (\<lambda>v. Inr (Some v))) (\<lambda>flow.
     Inr \<lparr>cnt_observed = n_observed, cnt_pending = n_queued, cnt_qualified = n_qualified,
          cnt_qualification_pending = n_pending, cnt_qualification_rejected = n_rejected,
          cnt_qualification_unknown = n_unknown, cnt_processing_failures = n_failures,
          cnt_approved = n_approved, cnt_rejected = n_rejected, cnt_flow_per_minute = flow\<rparr>)))))))))"

definition visible_total :: "discovery_mode \<Rightarrow> projection_state_row \<Rightarrow> int" where
  "visible_total mode p =
     (case mode of ObserveAll \<Rightarrow> ps_observed p | QualifiedOnly \<Rightarrow> ps_qualified p | ApprovedOnly \<Rightarrow> ps_approved p)"

definition load_discovery_snapshot_bounded ::
    "('x, 'v) window_json \<Rightarrow> u32 \<Rightarrow> ('v, 'json) discovery_store \<Rightarrow> ('x persistence_error, discovery_snapshot) result" where
  "load_discovery_snapshot_bounded j limit s =
     (if limit = 0 then Inl (MustBePositive ''discovery snapshot limit'')
      else if MAX_DISCOVERY_SNAPSHOT_LIMIT < limit
      then Inl (LimitTooLarge ''discovery snapshot limit'' MAX_DISCOVERY_SNAPSHOT_LIMIT)
      else let p = ds_state s in
        result_bind (parse_discovery_mode (ps_mode p)) (\<lambda>mode.
        result_bind (collect_results (read_visible_token j mode) (take (unat limit) (visible_rows mode s))) (\<lambda>tokens.
        result_bind (collect_results read_rejection
            (sort_key (\<lambda>r. (- rs_count r, rs_reason_code r)) (ds_rejections s))) (\<lambda>reasons.
        result_bind (to_u64 (visible_total mode p) ''discovery_tokens.visible_count'') (\<lambda>n_total.
        result_bind (to_u64 (ps_sequence p) ''discovery_projection_state.sequence'') (\<lambda>sequence.
        result_bind (read_counters p) (\<lambda>counters.
        Inr \<lparr>snap_sequence = sequence, snap_mode = mode, snap_tokens = tokens, snap_tokens_total = n_total,
             snap_tokens_truncated = (of_nat (length tokens) < n_total), snap_counters = counters,
             snap_rejection_reasons = reasons\<rparr>)))))))"

definition load_discovery_snapshot ::
    "('x, 'v) window_json \<Rightarrow> ('v, 'json) discovery_store \<Rightarrow> ('x persistence_error, discovery_snapshot) result" where
  "load_discovery_snapshot j = load_discovery_snapshot_bounded j DEFAULT_DISCOVERY_SNAPSHOT_LIMIT"

definition load_discovery_token ::
    "('x, 'v) window_json \<Rightarrow> string \<Rightarrow> ('v, 'json) discovery_store \<Rightarrow> ('x persistence_error, discovery_token option) result" where
  "load_discovery_token j m s =
     result_bind (require_non_empty m ''discovery mint'') (\<lambda>_.
     case find_token s m of
       None \<Rightarrow> Inr None
     | Some r \<Rightarrow> result_bind (read_token j r) (\<lambda>t. Inr (Some t)))"

end
