(* ===== verification/Window_Store.thy ===== *)
theory Window_Store
  imports Discovery_Commits
begin

text \<open>
  Observation windows in the store: the transactions and queries of
  \<open>crates/persistence/src/discovery_windows.rs\<close> on the tables of \<open>Discovery_Store\<close>. The checks, the
  canonical payload and the finalizing transaction on the rows it reads are those of
  \<open>Window_Finalization\<close>; here its rows are read from the tables and what it writes is stored. The advisory lock
  of a mint is implicit: a transaction runs alone. Constraints of the schema on settings revisions and on
  blank columns are not modelled.
\<close>

section \<open>Queries\<close>

definition find_window :: "('v, 'json) discovery_store \<Rightarrow> i64 \<Rightarrow> 'v window_entry option" where
  "find_window s wid = find (\<lambda>w. row_id (we_row w) = wid) (ds_windows s)"

definition is_member :: "('v, 'json) discovery_store \<Rightarrow> i64 \<Rightarrow> i64 \<Rightarrow> bool" where
  "is_member s wid oid \<longleftrightarrow> list_ex (\<lambda>m. mem_window m = wid \<and> mem_observation m = oid) (ds_members s)"

definition member_order :: "'json chain_row \<Rightarrow> int \<times> nat \<times> string \<times> nat \<times> nat" where
  "member_order r =
     (let obs = chain_observation r; c = key_coordinate (obs_key obs) in
      (received_time_unix_ms obs, unat (slot c), signature c, unat (instruction_index c), unat (event_index c)))"

definition load_window_observations :: "('v, 'json) discovery_store \<Rightarrow> i64 \<Rightarrow> 'json normalized_observation list" where
  "load_window_observations s wid =
     map chain_observation (sort_key member_order (filter (\<lambda>r. is_member s wid (chain_id r)) (ds_observations s)))"

fun work_state_name :: "work_state \<Rightarrow> string" where
  "work_state_name WorkPending = ''PENDING''"
| "work_state_name WorkProcessing = ''PROCESSING''"
| "work_state_name WorkComplete = ''COMPLETE''"
| "work_state_name WorkFailed = ''FAILED''"

definition outstanding :: "work_item \<Rightarrow> bool" where
  "outstanding w \<longleftrightarrow> wi_kind w = ''DISCOVERY'' \<and> (wi_state w = WorkPending \<or> wi_state w = WorkProcessing)"

definition readiness_row :: "('v, 'json) discovery_store \<Rightarrow> 'v window_entry \<Rightarrow> projection_readiness_row" where
  "readiness_row s w =
     \<lparr>opening_work_status = map_option (\<lambda>k. work_state_name (wi_state k))
        (find (\<lambda>k. Some (wi_observation_id k) = we_opening_observation w \<and> wi_kind k = ''DISCOVERY'') (ds_work s)),
      projection_work_pending =
        list_ex (\<lambda>k. outstanding k \<and> is_member s (row_id (we_row w)) (wi_observation_id k)) (ds_work s),
      candidate_projection_present = (find_token s (row_mint (we_row w)) \<noteq> None)\<rparr>"

definition load_discovery_window_projection_readiness ::
    "('v, 'json) discovery_store \<Rightarrow> i64 \<Rightarrow> ('x persistence_error, projection_readiness) result" where
  "load_discovery_window_projection_readiness s wid =
     result_bind (ok_or (DiscoveryWindowNotActive wid) (find_window s wid)) (\<lambda>w. Inr (readiness_of (readiness_row s w)))"

definition load_discovery_window ::
    "('x, 'v) window_json \<Rightarrow> 'x \<Rightarrow> ('v, 'json) discovery_store \<Rightarrow> i64 \<Rightarrow> ('x persistence_error, 'json discovery_window_record) result" where
  "load_discovery_window j row_not_found s wid =
     result_bind (ok_or (DatabaseError row_not_found) (find_window s wid)) (\<lambda>w.
     into_record j (we_row w) (load_window_observations s wid))"

definition active_window_ids :: "('v window_identity_row \<Rightarrow> bool) \<Rightarrow> ('v, 'json) discovery_store \<Rightarrow> i64 list" where
  "active_window_ids where_clause s =
     map row_id (sort_key (\<lambda>r. (row_closes_at_unix_ms r, row_id r))
       (filter (\<lambda>r. row_status r = ''ACTIVE'' \<and> where_clause r) (map we_row (ds_windows s))))"

definition load_active_discovery_window_ids :: "string option \<Rightarrow> ('v, 'json) discovery_store \<Rightarrow> i64 list" where
  "load_active_discovery_window_ids run =
     active_window_ids (\<lambda>r. case run of None \<Rightarrow> True | Some run_id \<Rightarrow> row_collector_run_id r = run_id)"

definition load_interrupted_discovery_window_ids ::
    "string \<Rightarrow> ('v, 'json) discovery_store \<Rightarrow> ('x persistence_error, i64 list) result" where
  "load_interrupted_discovery_window_ids run s =
     (if trim_is_empty run then Inl (EmptyField ''current_collector_run_id'')
      else Inr (active_window_ids (\<lambda>r. row_collector_run_id r \<noteq> run) s))"

section \<open>Opening a window\<close>

record ('x, 'v) settings_json =
  prefilter_to_value :: "prefilter_defaults \<Rightarrow> ('x, 'v) result"
  qualification_to_value :: "qualification_defaults \<Rightarrow> ('x, 'v) result"

definition opening_coordinate :: "'json normalized_observation \<Rightarrow> string \<times> u16 \<times> u16" where
  "opening_coordinate obs =
     (let c = key_coordinate (obs_key obs) in (signature c, instruction_index c, event_index c))"

definition same_opening :: "'json normalized_observation \<Rightarrow> new_discovery_window \<Rightarrow> 'v window_entry \<Rightarrow> bool" where
  "same_opening obs w e \<longleftrightarrow>
     row_network (we_row e) = network_name (key_network (obs_key obs))
     \<and> row_source_program (we_row e) = source_program_name (key_program (obs_key obs))
     \<and> we_opening_coordinate e = opening_coordinate obs
     \<and> row_target_kind (we_row e) = target_kind_name (nw_target_kind w)
     \<and> row_target_address (we_row e) = nw_target_address w"

definition new_window_entry ::
    "('x, 'v) settings_json \<Rightarrow> i64 \<Rightarrow> i64 \<Rightarrow> 'json normalized_observation \<Rightarrow> new_discovery_window
      \<Rightarrow> ('x persistence_error, 'v window_entry) result" where
  "new_window_entry enc wid oid obs w =
     result_bind (to_i64 (nw_prefilter_revision w) ''prefilter_revision'') (\<lambda>prefilter_revision.
     result_bind (map_err SerializationError (prefilter_to_value enc (nw_prefilter_values w))) (\<lambda>prefilter_values.
     result_bind (to_i64 (sq_revision (nw_qualification w)) ''qualification_revision'') (\<lambda>qualification_revision.
     result_bind (map_err SerializationError (qualification_to_value enc (sq_values (nw_qualification w))))
       (\<lambda>qualification_values.
     Inr \<lparr>we_row = \<lparr>row_id = wid, row_network = network_name (key_network (obs_key obs)),
            row_source_program = source_program_name (key_program (obs_key obs)),
            row_venue = venue_name (venue (obs_market obs)), row_market_address = market_address (obs_market obs),
            row_mint = mint (obs_market obs), row_quote_mint = observation_quote_mint (obs_market obs),
            row_target_kind = target_kind_name (nw_target_kind w), row_target_address = nw_target_address w,
            row_opened_at_unix_ms = nw_opened_at_unix_ms w, row_closes_at_unix_ms = nw_closes_at_unix_ms w,
            row_collector_run_id = nw_collector_run_id w, row_prefilter_revision = prefilter_revision,
            row_prefilter_values = prefilter_values, row_qualification_revision = qualification_revision,
            row_qualification_values = qualification_values, row_status = ''ACTIVE''\<rparr>,
          we_opening_observation = Some oid, we_opening_coordinate = opening_coordinate obs\<rparr>))))"

definition insert_membership :: "i64 \<Rightarrow> i64 \<Rightarrow> i64 \<Rightarrow> ('v, 'json) discovery_store \<Rightarrow> ('v, 'json) discovery_store" where
  "insert_membership wid oid admitted s =
     (if is_member s wid oid
      then s\<lparr>ds_members := map (\<lambda>m. if mem_window m = wid \<and> mem_observation m = oid
             then m\<lparr>mem_admitted_at := min (mem_admitted_at m) admitted\<rparr> else m) (ds_members s)\<rparr>
      else s\<lparr>ds_members := ds_members s @ [\<lparr>mem_window = wid, mem_observation = oid, mem_admitted_at = admitted\<rparr>]\<rparr>)"

definition insert_window :: "'v window_entry \<Rightarrow> i64 \<Rightarrow> i64 \<Rightarrow> ('v, 'json) discovery_store \<Rightarrow> ('v, 'json) discovery_store" where
  "insert_window e oid received s =
     append_projection_event ''QUALIFICATION_WINDOW_OPENED''
       (advance (\<lambda>p. p\<lparr>ps_qualification_pending := ps_qualification_pending p + 1\<rparr>)
         (insert_membership (row_id (we_row e)) oid received
           (s\<lparr>ds_windows := ds_windows s @ [e], ds_next_window_id := ds_next_window_id s + 1\<rparr>)))"

text \<open>
  A window with the same opening is validated and everything is rolled back. A second window on the
  same opening observation violates a unique column, an error of the database.
\<close>

definition open_discovery_window ::
    "('x, 'v) settings_json \<Rightarrow> (string \<Rightarrow> ('b, u8 list) result) \<Rightarrow> 'x \<Rightarrow> int \<Rightarrow> 'json normalized_observation
      \<Rightarrow> new_discovery_window \<Rightarrow> ('v, 'json) discovery_store
      \<Rightarrow> ('x persistence_error, opened_discovery_window) result \<times> ('v, 'json) discovery_store" where
  "open_discovery_window enc base64_decode not_unique now obs w =
     commit (\<lambda>s.
       result_bind (validate_new_window obs w) (\<lambda>_.
       result_bind (insert_chain_observation_unprepared base64_decode now obs s) (\<lambda>((oid, is_new), s1).
       let s2 = (if is_new then enqueue_discovery_work now oid s1 else s1); wid = ds_next_window_id s2 in
       result_bind (new_window_entry enc wid oid obs w) (\<lambda>e.
       case find (same_opening obs w) (ds_windows s2) of
         Some existing \<Rightarrow>
           result_bind (validate_existing_window (we_row existing) obs w) (\<lambda>_.
           Inr (\<lparr>opened_window_id = row_id (we_row existing), opened_observation_inserted = False,
                 opened_window_created = False, opened_replayed = True\<rparr>, s))
       | None \<Rightarrow>
           if opens_window s2 oid then Inl (DatabaseError not_unique)
           else Inr (\<lparr>opened_window_id = wid, opened_observation_inserted = is_new,
                      opened_window_created = True, opened_replayed = False\<rparr>,
                     insert_window e oid (received_time_unix_ms obs) s2)))))"

definition insert_window_observation ::
    "(string \<Rightarrow> ('b, u8 list) result) \<Rightarrow> int \<Rightarrow> i64 \<Rightarrow> 'json normalized_observation \<Rightarrow> ('v, 'json) discovery_store
      \<Rightarrow> ('x persistence_error, bool) result \<times> ('v, 'json) discovery_store" where
  "insert_window_observation base64_decode now wid obs =
     commit (\<lambda>s.
       result_bind (ok_or (DiscoveryWindowNotActive wid) (find_window s wid)) (\<lambda>e.
       result_bind (insert_chain_observation_unprepared base64_decode now obs s) (\<lambda>((oid, is_new), s1).
       if \<not> is_new \<and> is_member s1 wid oid then Inr (False, s1)
       else let admitted = (if is_new then obs else case find_observation s1 oid of None \<Rightarrow> obs | Some stored \<Rightarrow> stored) in
         result_bind (validate_window_membership (we_row e) admitted) (\<lambda>_.
         let s2 = (if is_new then enqueue_discovery_work now oid s1 else s1) in
         Inr (is_new, insert_membership wid oid (received_time_unix_ms admitted) s2)))))"

section \<open>Finalizing a window\<close>

definition newer_window_exists :: "('v, 'json) discovery_store \<Rightarrow> 'v window_identity_row \<Rightarrow> bool" where
  "newer_window_exists s r \<longleftrightarrow>
     list_ex (\<lambda>e. row_mint (we_row e) = row_mint r \<and> row_id (we_row e) \<noteq> row_id r
       \<and> (row_opened_at_unix_ms r < row_opened_at_unix_ms (we_row e)
          \<or> row_opened_at_unix_ms (we_row e) = row_opened_at_unix_ms r \<and> row_id r < row_id (we_row e))) (ds_windows s)"

definition current_projection :: "('v, 'json) discovery_store \<Rightarrow> 'v window_identity_row \<Rightarrow> 'v current_projection_row option" where
  "current_projection s r =
     map_option (\<lambda>t. \<lparr>cur_token = str_token t,
         cur_belongs_to_window = list_ex (\<lambda>k. Some (wi_id k) = str_source_work_id t
           \<and> is_member s (row_id r) (wi_observation_id k)) (ds_work s)\<rparr>)
       (find_token s (row_mint r))"

definition finalization_reads_of :: "('v, 'json) discovery_store \<Rightarrow> i64 \<Rightarrow> ('v, 'json, 'x) finalization_reads" where
  "finalization_reads_of s wid =
     (let w = find_window s wid in
      \<lparr>read_lock_identity = map_option (\<lambda>e. (row_network (we_row e), row_mint (we_row e))) w,
       read_window = map_option we_row w,
       read_existing = map_option asm_stored (find (\<lambda>a. asm_window a = wid) (ds_assessments s)),
       read_readiness = map_option (readiness_row s) w,
       read_observation_count = int (length (filter (\<lambda>m. mem_window m = wid) (ds_members s))),
       read_observations = Inr (load_window_observations s wid),
       read_projection = (case w of None \<Rightarrow> None | Some e \<Rightarrow> current_projection s (we_row e)),
       read_newer_window_exists = (case w of None \<Rightarrow> False | Some e \<Rightarrow> newer_window_exists s (we_row e))\<rparr>)"

definition finalize_projection :: "'v finalization_writes \<Rightarrow> projection_state_row \<Rightarrow> projection_state_row" where
  "finalize_projection w p =
     p\<lparr>ps_qualification_pending := max (ps_qualification_pending p - 1) 0,
       ps_qualified := max (ps_qualified p + write_qualified_delta w) 0,
       ps_qualification_rejected := ps_qualification_rejected p + write_rejected w,
       ps_qualification_unknown := ps_qualification_unknown p + write_unknown w,
       ps_approved := max (ps_approved p - write_approval_removed w) 0\<rparr>"

definition store_token ::
    "('x, 'v) window_json \<Rightarrow> 'v window_identity_row \<Rightarrow> discovery_token option \<Rightarrow> ('v, 'json) discovery_store
      \<Rightarrow> ('v, 'json) discovery_store" where
  "store_token j r t s =
     (case t of
        None \<Rightarrow> s
      | Some t \<Rightarrow>
          (case token_to_value j t of
             Inl _ \<Rightarrow> s
           | Inr v \<Rightarrow>
               update_token (dt_mint t)
                 (\<lambda>row. row\<lparr>str_stage := discovery_stage_name (dt_stage t), str_decision_source := ''WINDOW_QUALIFICATION'',
                   str_decision_version := show_int (row_qualification_revision r), str_token := v\<rparr>) s))"

definition set_finalized :: "i64 \<Rightarrow> ('v, 'json) discovery_store \<Rightarrow> ('v, 'json) discovery_store" where
  "set_finalized wid s =
     s\<lparr>ds_windows := map (\<lambda>e. if row_id (we_row e) = wid
         then e\<lparr>we_row := (we_row e)\<lparr>row_status := ''FINALIZED''\<rparr>\<rparr> else e) (ds_windows s)\<rparr>"

definition upsert_decision_summaries ::
    "assessment_decision \<Rightarrow> string list \<Rightarrow> i64 \<Rightarrow> ('v, 'json) discovery_store \<Rightarrow> ('v, 'json) discovery_store" where
  "upsert_decision_summaries decision reasons seen s =
     (case decision of
        Reject \<Rightarrow> s\<lparr>ds_rejections := fold (\<lambda>r. upsert_reason r seen) reasons (ds_rejections s)\<rparr>
      | Unknown \<Rightarrow> s\<lparr>ds_unknowns := fold (\<lambda>r. upsert_reason r seen) reasons (ds_unknowns s)\<rparr>
      | Pass \<Rightarrow> s)"

definition apply_finalization ::
    "('x, 'v) window_json \<Rightarrow> 'v window_identity_row \<Rightarrow> 'v finalize_discovery_window \<Rightarrow> 'v finalization_writes
      \<Rightarrow> ('v, 'json) discovery_store \<Rightarrow> ('v, 'json) discovery_store" where
  "apply_finalization j r f w s =
     append_projection_event ''QUALIFICATION_WINDOW_FINALIZED''
       (upsert_decision_summaries (fin_decision f) (write_reasons w) (fin_finalized_at_unix_ms f)
         (advance (finalize_projection w)
           (set_finalized (row_id r)
             (store_token j r (write_token w)
               (s\<lparr>ds_assessments := ds_assessments s @ [\<lparr>asm_window = row_id r,
                    asm_ruleset_revision = row_qualification_revision r, asm_finalized_at = write_finalized_at w,
                    asm_stored = write_stored w, asm_rules = write_rules w\<rparr>]\<rparr>)))))"

definition finalize_discovery_window_tx ::
    "('x, 'v) window_json \<Rightarrow> 'v finalize_discovery_window \<Rightarrow> ('v, 'json) discovery_store
      \<Rightarrow> ('x persistence_error, bool) result \<times> ('v, 'json) discovery_store" where
  "finalize_discovery_window_tx j f =
     commit (\<lambda>s.
       result_bind (finalize_window j (finalization_reads_of s (fin_window_id f)) f) (\<lambda>written.
       case (written, find_window s (fin_window_id f)) of
         (Some w, Some e) \<Rightarrow> Inr (True, apply_finalization j (we_row e) f w s)
       | _ \<Rightarrow> Inr (False, s)))"

section \<open>Retention\<close>

text \<open>
  The first statement of \<open>prune_retained_history\<close> (\<open>retention.rs\<close>) on these tables: an observation is deleted with
  its work and its memberships, and a reference to it becomes \<open>NULL\<close>.
\<close>

definition prunable :: "i64 \<Rightarrow> ('v, 'json) discovery_store \<Rightarrow> 'json chain_row \<Rightarrow> bool" where
  "prunable before s r \<longleftrightarrow>
     chain_first_seen_at r < before * 1000
     \<and> list_ex (\<lambda>k. wi_observation_id k = chain_id r) (ds_work s)
     \<and> list_all (\<lambda>k. wi_observation_id k = chain_id r \<longrightarrow>
          (wi_state k = WorkComplete \<or> wi_state k = WorkFailed)
          \<and> (case wi_finished_at k of None \<Rightarrow> False | Some t \<Rightarrow> t < before * 1000)) (ds_work s)
     \<and> list_all (\<lambda>e. row_status (we_row e) = ''ACTIVE'' \<longrightarrow> \<not> is_member s (row_id (we_row e)) (chain_id r)) (ds_windows s)"

definition forget :: "('a \<Rightarrow> bool) \<Rightarrow> 'a option \<Rightarrow> 'a option" where
  "forget deleted reference = (case reference of None \<Rightarrow> None | Some x \<Rightarrow> if deleted x then None else Some x)"

definition delete_observations :: "i64 list \<Rightarrow> ('v, 'json) discovery_store \<Rightarrow> ('v, 'json) discovery_store" where
  "delete_observations ids s =
     (let gone = map wi_id (filter (\<lambda>k. wi_observation_id k \<in> set ids) (ds_work s)) in
      s\<lparr>ds_observations := filter (\<lambda>r. chain_id r \<notin> set ids) (ds_observations s),
        ds_work := filter (\<lambda>k. wi_observation_id k \<notin> set ids) (ds_work s),
        ds_members := filter (\<lambda>m. mem_observation m \<notin> set ids) (ds_members s),
        ds_windows := map (\<lambda>e. e\<lparr>we_opening_observation := forget (\<lambda>x. x \<in> set ids) (we_opening_observation e)\<rparr>) (ds_windows s),
        ds_tokens := map (\<lambda>t. t\<lparr>str_source_work_id := forget (\<lambda>x. x \<in> set gone) (str_source_work_id t)\<rparr>) (ds_tokens s)\<rparr>)"

definition prune_terminal_observations ::
    "i64 \<Rightarrow> i64 list \<Rightarrow> u32 \<Rightarrow> ('v, 'json) discovery_store \<Rightarrow> nat \<times> ('v, 'json) discovery_store" where
  "prune_terminal_observations before locked batch_size s =
     (let ids = select_ids (\<lambda>r. (chain_first_seen_at r, chain_id r)) (prunable before s) locked (unat batch_size) (ds_observations s)
      in (length ids, delete_observations ids s))"

end
