(* ===== verification/Store_Invariant.thy ===== *)
theory Store_Invariant
  imports Window_Store Window_Finalization_Correct
begin

text \<open>
  What every transaction keeps of the durable discovery store: the keys are unique, every stored
  candidate can be read back, the counters count the rows of the tables, the running activity adds
  up, and the events carry ever greater sequence numbers. The store is a state machine whose steps
  are the transactions of all clients, in any order and with any arguments.
\<close>

section \<open>Tables with a key\<close>

text \<open>What changing the row of one key does to the number of rows with a property.\<close>

lemma count_update_key:
  assumes "distinct (map k xs)" and "x \<in> set xs" and "k x = i"
  shows "int (length (filter P (map (\<lambda>y. if k y = i then f y else y) xs)))
    = int (length (filter P xs)) + of_bool (P (f x)) - of_bool (P x)"
  using assms
proof (induction xs)
  case (Cons y ys)
  have absent: "map (\<lambda>y. if k y = i then f y else y) zs = zs" if "i \<notin> k ` set zs" for zs
    using that by (induction zs) auto
  show ?case
  proof (cases "k y = i")
    case True
    with Cons.prems have "x = y" "i \<notin> k ` set ys" by (force simp: image_iff)+
    with True absent [of ys] show ?thesis by simp
  next
    case False
    with Cons show ?thesis by auto
  qed
qed simp

lemma update_absent_key: "i \<notin> k ` set xs \<Longrightarrow> map (\<lambda>y. if k y = i then f y else y) xs = xs"
  by (induction xs) auto

lemma find_key_Some:
  assumes "find (\<lambda>x. k x = i) xs = Some x"
  shows "x \<in> set xs" and "k x = i"
  using assms by (auto simp: find_Some_iff)

lemma find_key_None: "find (\<lambda>x. k x = i) xs = None \<longleftrightarrow> i \<notin> k ` set xs"
  by (auto simp: find_None_iff)

lemma filter_map_same: "(\<And>x. x \<in> set xs \<Longrightarrow> P (f x) = P x) \<Longrightarrow> length (filter P (map f xs)) = length (filter P xs)"
  by (induction xs) auto

section \<open>Reasons\<close>

definition reasons_ok :: "reason_summary list \<Rightarrow> bool" where
  "reasons_ok rows \<longleftrightarrow> distinct (map rs_reason_code rows) \<and> (\<forall>r \<in> set rows. 1 \<le> rs_count r)"

lemma upsert_reason_ok:
  assumes "reasons_ok rows"
  shows "reasons_ok (upsert_reason reason seen rows)"
proof (cases "list_ex (\<lambda>r. rs_reason_code r = reason) rows")
  case True
  define f where "f r = (if rs_reason_code r = reason then (r :: reason_summary)\<lparr>rs_count := rs_count r + 1,
      rs_last_seen_unix_ms := max (rs_last_seen_unix_ms r) seen\<rparr> else r)" for r
  have codes: "map rs_reason_code (map f rows) = map rs_reason_code rows"
    by (induction rows) (auto simp: f_def)
  have counts: "\<forall>r \<in> set (map f rows). 1 \<le> rs_count r"
    using assms by (auto simp: reasons_ok_def f_def)
  have "upsert_reason reason seen rows = map f rows"
    using True by (simp add: upsert_reason_def f_def)
  then show ?thesis
    using assms counts codes unfolding reasons_ok_def by presburger
next
  case False
  then show ?thesis using assms by (auto simp: reasons_ok_def upsert_reason_def list_ex_iff)
qed

lemma upsert_reason_total:
  assumes "distinct (map rs_reason_code rows)"
  shows "sum_list (map rs_count (upsert_reason reason seen rows)) = sum_list (map rs_count rows) + 1"
proof (cases "list_ex (\<lambda>r. rs_reason_code r = reason) rows")
  case True
  have "sum_list (map rs_count (map (\<lambda>r. if rs_reason_code r = reason then r\<lparr>rs_count := rs_count r + 1,
      rs_last_seen_unix_ms := max (rs_last_seen_unix_ms r) seen\<rparr> else r) rows)) = sum_list (map rs_count rows) + 1"
    using assms True
  proof (induction rows)
    case (Cons r rows)
    show ?case
    proof (cases "rs_reason_code r = reason")
      case True
      with Cons.prems have "reason \<notin> rs_reason_code ` set rows" by auto
      with True show ?thesis by (simp add: update_absent_key)
    next
      case False
      with Cons show ?thesis by simp
    qed
  qed simp
  with True show ?thesis by (simp add: upsert_reason_def)
next
  case False
  then show ?thesis by (simp add: upsert_reason_def)
qed

section \<open>The shape of a candidate\<close>

text \<open>What \<open>validate_token_shape\<close> accepts, as a predicate on each part.\<close>

definition decimal :: "string \<Rightarrow> bool" where
  "decimal v \<longleftrightarrow> v \<noteq> [] \<and> list_all (\<lambda>c. CHR ''0'' \<le> c \<and> c \<le> CHR ''9'') v"

definition text_present :: "string option \<Rightarrow> bool" where
  "text_present v \<longleftrightarrow> (case v of None \<Rightarrow> True | Some t \<Rightarrow> \<not> trim_is_empty t)"

definition activity_shaped :: "discovery_activity \<Rightarrow> bool" where
  "activity_shaped a \<longleftrightarrow>
     checked_add_word (act_buys a) (act_sells a) = Some (act_trades a) \<and> act_unique_traders a \<le> act_trades a
     \<and> decimal (act_base_volume_units a) \<and> decimal (act_quote_volume_units a)"

definition summary_shaped :: "discovery_window_summary \<Rightarrow> bool" where
  "summary_shaped q \<longleftrightarrow>
     decimal (sum_buy_base_volume_units q) \<and> decimal (sum_sell_base_volume_units q)
     \<and> decimal (sum_buy_quote_volume_units q) \<and> decimal (sum_sell_quote_volume_units q) \<and> summary_totals_valid q"

definition market_shaped :: "discovery_token \<Rightarrow> bool" where
  "market_shaped t \<longleftrightarrow>
     \<not> trim_is_empty (dt_mint t) \<and> \<not> trim_is_empty (dt_market_address t) \<and> text_present (dt_quote_mint t)
     \<and> \<not> trim_is_empty (dt_last_event_kind t) \<and> \<not> trim_is_empty (dt_latest_signature t)
     \<and> source_matches_venue (dt_source_program t) (dt_primary_venue t)"

definition decision_shaped :: "discovery_token \<Rightarrow> bool" where
  "decision_shaped t \<longleftrightarrow>
     (case dt_qualification t of None \<Rightarrow> True | Some q \<Rightarrow> summary_shaped q)
     \<and> (is_qualified_stage (dt_stage t) \<longrightarrow> qualification_passes t)"

definition token_shaped :: "discovery_token \<Rightarrow> bool" where
  "token_shaped t \<longleftrightarrow>
     market_shaped t \<and> text_present (dt_name t) \<and> text_present (dt_symbol t)
     \<and> dt_first_observed_unix_ms t \<le> dt_last_observed_unix_ms t \<and> activity_shaped (dt_activity t) \<and> decision_shaped t"

lemma require_non_empty_Inr [result_simps]: "require_non_empty v field = Inr u \<longleftrightarrow> \<not> trim_is_empty v"
  by (simp add: require_non_empty_def)

lemma optional_text_Inr [result_simps]: "optional_text v field = Inr u \<longleftrightarrow> text_present v"
  by (simp add: optional_text_def text_present_def split: option.split)

lemma validate_unsigned_decimal_Inr [result_simps]: "validate_unsigned_decimal v field = Inr u \<longleftrightarrow> decimal v"
  by (auto simp: validate_unsigned_decimal_def decimal_def)

lemma validate_summary_Inr [result_simps]: "validate_summary q = Inr u \<longleftrightarrow> summary_shaped q"
  by (auto simp: validate_summary_def result_simps summary_shaped_def)

lemma validate_token_shape_Inr [result_simps]: "validate_token_shape t = Inr u \<longleftrightarrow> token_shaped t"
proof -
  have q: "(case dt_qualification t of None \<Rightarrow> Inr () | Some q \<Rightarrow> validate_summary q) = (Inr () :: ('x persistence_error, unit) result)
    \<longleftrightarrow> (case dt_qualification t of None \<Rightarrow> True | Some q \<Rightarrow> summary_shaped q)"
    by (simp add: validate_summary_Inr split: option.split)
  show ?thesis
    unfolding validate_token_shape_def token_shaped_def decision_shaped_def market_shaped_def activity_shaped_def
    using q by (auto simp: result_simps activity_totals_valid_def Let_def)
qed

lemma decimal_show_nat [simp]: "decimal (show_nat n)"
proof -
  have "CHR ''0'' \<le> digit_char d \<and> digit_char d \<le> CHR ''9''" if "d < 10" for d
    using that by (simp add: digit_char_def less_eq_char_def)
  then show ?thesis
    using show_nat_digits by (fastforce simp: decimal_def list_all_iff)
qed

lemma decimal_show_word [simp]: "decimal (show_word w)"
  by (simp add: show_word_def)

lemma token_shaped_activity:
  "token_shaped t \<Longrightarrow> activity_shaped a \<Longrightarrow> token_shaped (t\<lparr>dt_activity := a\<rparr>)"
  by (simp add: token_shaped_def market_shaped_def decision_shaped_def qualification_passes_def)

lemma text_present_or_else: "text_present a \<Longrightarrow> text_present b \<Longrightarrow> text_present (or_else a b)"
  by (cases a) (simp_all add: or_else_def)

lemma merge_observation_parts [simp]:
  "dt_mint (merge_observation t c) = dt_mint c"
  "dt_observed_slot (merge_observation t c) = dt_observed_slot c"
  by (simp_all add: merge_observation_def Let_def)

lemma merge_observation_shaped:
  assumes "token_shaped t" and "token_shaped c" and "dt_stage c = StageObserved"
  shows "token_shaped (merge_observation t c)"
  using assms
  by (auto simp: token_shaped_def market_shaped_def decision_shaped_def merge_observation_def Let_def
      text_present_or_else qualification_passes_def is_qualified_stage_def)

lemma enrich_shaped:
  assumes "enrich_metadata_from_stale_creation t c obs = (changed, t')" and "token_shaped t" and "token_shaped c"
  shows "token_shaped t'" and "dt_mint t' = dt_mint t" and "dt_stage t' = dt_stage t"
  using assms
  by (auto simp: enrich_metadata_from_stale_creation_def Let_def token_shaped_def market_shaped_def decision_shaped_def
      qualification_passes_def split: observation_payload.splits if_splits)

lemma merge_approval_shaped:
  assumes "token_shaped t" and "token_shaped c" and "qualification_passes c"
  shows "token_shaped (merge_approval t c)"
  using assms
  by (auto simp: token_shaped_def market_shaped_def decision_shaped_def merge_approval_def Let_def or_else_def
      text_present_or_else qualification_passes_def is_qualified_stage_def split: option.splits)

lemma merge_approval_parts [simp]: "dt_stage (merge_approval t c) = StageApproved"
  by (simp add: merge_approval_def Let_def)

lemma merge_approval_mint: "dt_mint t = dt_mint c \<Longrightarrow> dt_mint (merge_approval t c) = dt_mint c"
  by (simp add: merge_approval_def Let_def)

section \<open>The invariant\<close>

text \<open>The documented behaviour of \<open>serde_json\<close> on candidates: what was written is read back.\<close>

definition token_codec :: "('x, 'v) window_json \<Rightarrow> bool" where
  "token_codec j \<longleftrightarrow> (\<forall>t v. token_to_value j t = Inr v \<longrightarrow> token_from_value j v = Inr t)"

definition row_ok :: "('x, 'v) window_json \<Rightarrow> 'v stored_token_row \<Rightarrow> bool" where
  "row_ok j r \<longleftrightarrow>
     (case token_from_value j (str_token r) of
        Inl _ \<Rightarrow> False
      | Inr t \<Rightarrow> token_shaped t \<and> dt_mint t = str_mint r \<and> discovery_stage_name (dt_stage t) = str_stage r)"

definition tokens_ok :: "('x, 'v) window_json \<Rightarrow> 'v stored_token_row list \<Rightarrow> bool" where
  "tokens_ok j rows \<longleftrightarrow> distinct (map str_mint rows) \<and> (\<forall>r \<in> set rows. row_ok j r)"

definition work_ok :: "work_item list \<Rightarrow> i64 \<Rightarrow> bool" where
  "work_ok ws n \<longleftrightarrow> distinct (map wi_id ws) \<and> (\<forall>w \<in> set ws. wi_id w < n)"

definition window_ok :: "'v window_entry \<Rightarrow> bool" where
  "window_ok e \<longleftrightarrow>
     (row_status (we_row e) = ''ACTIVE'' \<or> row_status (we_row e) = ''FINALIZED'')
     \<and> row_opened_at_unix_ms (we_row e) < row_closes_at_unix_ms (we_row e)"

definition windows_ok :: "'v window_entry list \<Rightarrow> i64 \<Rightarrow> bool" where
  "windows_ok es n \<longleftrightarrow>
     distinct (map (\<lambda>e. row_id (we_row e)) es) \<and> (\<forall>e \<in> set es. row_id (we_row e) < n \<and> window_ok e)"

definition events_ok :: "(string \<times> int) list \<Rightarrow> int \<Rightarrow> bool" where
  "events_ok es n \<longleftrightarrow> sorted_wrt (<) (map snd es) \<and> (\<forall>e \<in> set es. snd e \<le> n)"

definition activity_total_ok :: "activity_row \<Rightarrow> nat \<Rightarrow> bool" where
  "activity_total_ok a traders \<longleftrightarrow>
     0 \<le> ar_buys a \<and> 0 \<le> ar_sells a \<and> ar_trades a = ar_buys a + ar_sells a \<and> int traders \<le> ar_trades a \<and> activity_fits a"

definition activity_ok :: "('v, 'json) discovery_store \<Rightarrow> bool" where
  "activity_ok s \<longleftrightarrow>
     (\<forall>k. activity_total_ok (case ds_activity s k of None \<Rightarrow> empty_activity | Some a \<Rightarrow> a) (unique_traders_of s k))"

definition settings_ok :: "projection_state_row \<Rightarrow> bool" where
  "settings_ok p \<longleftrightarrow>
     (\<exists>mode. ps_mode p = discovery_mode_name mode) \<and> (case ps_flow_per_minute p of None \<Rightarrow> True | Some v \<Rightarrow> 0 \<le> v)
     \<and> 0 \<le> ps_sequence p"

definition counters_ok :: "('v, 'json) discovery_store \<Rightarrow> bool" where
  "counters_ok s \<longleftrightarrow> counted s (ds_state s) = ds_state s"

definition store_ok :: "('x, 'v) window_json \<Rightarrow> ('v, 'json) discovery_store \<Rightarrow> bool" where
  "store_ok j s \<longleftrightarrow>
     tokens_ok j (ds_tokens s) \<and> work_ok (ds_work s) (ds_next_work_id s) \<and> windows_ok (ds_windows s) (ds_next_window_id s)
     \<and> events_ok (ds_events s) (ps_sequence (ds_state s)) \<and> activity_ok s \<and> settings_ok (ds_state s)
     \<and> reasons_ok (ds_failures s) \<and> reasons_ok (ds_rejections s) \<and> counters_ok s"

text \<open>The counters of a store, one by one.\<close>

definition stage_count :: "string list \<Rightarrow> 'v stored_token_row list \<Rightarrow> int" where
  "stage_count stages rows = int (length (filter (\<lambda>r. str_stage r \<in> set stages) rows))"

definition work_count :: "work_item list \<Rightarrow> int" where
  "work_count ws = int (length (filter outstanding ws))"

definition open_count :: "'v window_entry list \<Rightarrow> int" where
  "open_count es = int (length (filter (\<lambda>e. row_status (we_row e) = ''ACTIVE'') es))"

definition decision_count :: "string \<Rightarrow> 'v assessment_row list \<Rightarrow> int" where
  "decision_count d rows = int (length (filter (\<lambda>a. sf_decision (asm_stored a) = d) rows))"

lemmas count_defs = stage_count_def work_count_def open_count_def decision_count_def

lemma counts_nonneg [simp]:
  "0 \<le> stage_count stages rows" "0 \<le> work_count ws" "0 \<le> open_count es" "0 \<le> decision_count d as"
  by (simp_all add: count_defs)

lemma counters_ok_iff:
  "counters_ok s \<longleftrightarrow>
     ps_observed (ds_state s) = int (length (ds_tokens s))
     \<and> ps_approved (ds_state s) = stage_count [''APPROVED''] (ds_tokens s)
     \<and> ps_queued_facts (ds_state s) = work_count (ds_work s)
     \<and> ps_qualified (ds_state s) = stage_count [''QUALIFIED'', ''APPROVED''] (ds_tokens s)
     \<and> ps_qualification_pending (ds_state s) = open_count (ds_windows s)
     \<and> ps_qualification_rejected (ds_state s) = decision_count ''REJECT'' (ds_assessments s)
     \<and> ps_qualification_unknown (ds_state s) = decision_count ''UNKNOWN'' (ds_assessments s)
     \<and> ps_processing_failures (ds_state s) = sum_list (map rs_count (ds_failures s))"
  unfolding counters_ok_def counted_def count_defs outstanding_def [abs_def]
  by (cases "ds_state s") (auto simp: eq_commute)

lemma store_ok_frame [simp]:
  "store_ok j (s\<lparr>ds_observations := os, ds_next_observation_id := n, ds_members := ms\<rparr>) = store_ok j s"
  "store_ok j (s\<lparr>ds_members := ms\<rparr>) = store_ok j s"
  "store_ok j (s\<lparr>ds_unknowns := us\<rparr>) = store_ok j s"
  by (simp_all add: store_ok_def counters_ok_iff activity_ok_def unique_traders_of_def)

lemma events_ok_snoc: "events_ok es n \<Longrightarrow> events_ok (es @ [(k, n + 1)]) (n + 1)"
  by (fastforce simp: events_ok_def sorted_wrt_append)

lemmas publish_defs = advance_def append_projection_event_def

text \<open>A published change of the counters, on tables that fit them.\<close>

lemma store_ok_publish:
  assumes "store_ok j s"
    and tables: "tokens_ok j (ds_tokens s')" "work_ok (ds_work s') (ds_next_work_id s')"
      "windows_ok (ds_windows s') (ds_next_window_id s')" "activity_ok s'" "reasons_ok (ds_failures s')"
      "reasons_ok (ds_rejections s')"
    and same: "ds_events s' = ds_events s" "ds_state s' = ds_state s"
    and settings: "settings_ok (f (ds_state s))"
    and counters: "counters_ok (s'\<lparr>ds_state := f (ds_state s)\<rparr>)"
  shows "store_ok j (append_projection_event kind (advance f s'))"
  using assms events_ok_snoc [of "ds_events s" "ps_sequence (ds_state s)" kind]
  by (simp add: store_ok_def publish_defs counters_ok_iff activity_ok_def unique_traders_of_def settings_ok_def)

end
