(* ===== verification/Store_Work.thy ===== *)
theory Store_Work
  imports Store_Invariant
begin

text \<open>
  The transactions on observations and on their work keep the invariant of the store: insertion with
  the queued work, claims, renewals, completions, retries and permanent failures, and rejections.
\<close>

section \<open>Observations\<close>

lemma insert_chain_frame:
  assumes "insert_chain_observation_unprepared b64 now obs s = Inr (r, s1)"
  obtains os n ms where "s1 = s\<lparr>ds_observations := os, ds_next_observation_id := n, ds_members := ms\<rparr>"
proof -
  have frame: "\<exists>os n ms. s1 = s\<lparr>ds_observations := os, ds_next_observation_id := n, ds_members := ms\<rparr>"
    if "s1 = s\<lparr>ds_observations := os\<rparr> \<or> s1 = s\<lparr>ds_observations := os, ds_next_observation_id := n\<rparr>
      \<or> s1 = s\<lparr>ds_observations := os, ds_members := ms\<rparr> \<or> s1 = s" for os n ms
    using that
    by (elim disjE; intro exI [of _ "ds_observations s1"] exI [of _ "ds_next_observation_id s1"] exI [of _ "ds_members s1"]) simp_all
  have "\<exists>os n ms. s1 = s\<lparr>ds_observations := os\<rparr> \<or> s1 = s\<lparr>ds_observations := os, ds_next_observation_id := n\<rparr>
      \<or> s1 = s\<lparr>ds_observations := os, ds_members := ms\<rparr> \<or> s1 = s"
    using assms
    by (auto simp: insert_chain_observation_unprepared_def insert_chain_observation_def move_receipt_def result_simps
        split: option.splits if_splits)
  with frame show thesis by (metis that)
qed

lemma insert_chain_ok:
  assumes "insert_chain_observation_unprepared b64 now obs s = Inr (r, s1)"
  shows "store_ok j s1 = store_ok j s"
  using insert_chain_frame [OF assms] by (metis store_ok_frame(1))

lemma settings_ok_counts [simp]:
  "settings_ok (p\<lparr>ps_queued_facts := n\<rparr>) = settings_ok p" "settings_ok (p\<lparr>ps_observed := n\<rparr>) = settings_ok p"
  "settings_ok (p\<lparr>ps_approved := n\<rparr>) = settings_ok p" "settings_ok (p\<lparr>ps_qualified := n\<rparr>) = settings_ok p"
  "settings_ok (p\<lparr>ps_qualification_pending := n\<rparr>) = settings_ok p"
  "settings_ok (p\<lparr>ps_qualification_rejected := n\<rparr>) = settings_ok p"
  "settings_ok (p\<lparr>ps_qualification_unknown := n\<rparr>) = settings_ok p"
  "settings_ok (p\<lparr>ps_processing_failures := n\<rparr>) = settings_ok p"
  by (simp_all add: settings_ok_def)

lemma enqueue_ok:
  assumes "store_ok j s"
  shows "store_ok j (enqueue_discovery_work now oid s)"
  unfolding enqueue_discovery_work_def
  using assms
  by (intro store_ok_publish [of j s])
     (auto simp: store_ok_def counters_ok_iff activity_ok_def unique_traders_of_def work_ok_def work_count_def new_work_def
       outstanding_def)

lemma enqueue_if_ok: "store_ok j s \<Longrightarrow> store_ok j (if b then enqueue_discovery_work now oid s else s)"
  by (simp add: enqueue_ok)

lemma commit_cases:
  assumes "\<And>x s'. t s = Inr (x, s') \<Longrightarrow> P s'" and "P s"
  shows "P (snd (commit t s))"
  using assms by (auto simp: commit_def split: sum.splits prod.splits)

lemma insert_observation_ok:
  assumes "store_ok j s"
  shows "store_ok j (snd (insert_observation b64 now obs s))"
  unfolding insert_observation_def
  by (rule commit_cases) (auto simp: result_simps assms insert_chain_ok enqueue_ok split: if_splits)

section \<open>Work\<close>

lemma unique_work:
  assumes "work_ok ws n" and "w \<in> set ws" and "w' \<in> set ws" and "wi_id w = wi_id w'"
  shows "w = w'"
  using assms unfolding work_ok_def by (metis distinct_map inj_onD)

lemma work_ok_update:
  assumes "work_ok ws n" and "\<And>w. wi_id (f w) = wi_id w"
  shows "work_ok (map (\<lambda>w. if P w then f w else w) ws) n"
proof -
  have "map wi_id (map (\<lambda>w. if P w then f w else w) ws) = map wi_id ws"
    using assms(2) by (induction ws) auto
  moreover have "\<forall>w \<in> set (map (\<lambda>w. if P w then f w else w) ws). wi_id w < n"
    using assms by (auto simp: work_ok_def)
  ultimately show ?thesis using assms(1) unfolding work_ok_def by presburger
qed

lemma update_work_kept:
  assumes "store_ok j s" and id: "\<And>w. wi_id (f w) = wi_id w"
    and same: "\<And>w. w \<in> set (ds_work s) \<Longrightarrow> P w \<Longrightarrow> outstanding (f w) = outstanding w"
  shows "store_ok j (update_work P f s)"
proof -
  have "work_count (map (\<lambda>w. if P w then f w else w) (ds_work s)) = work_count (ds_work s)"
    unfolding work_count_def using same by (subst filter_map_same) auto
  then show ?thesis
    using assms(1) work_ok_update [of "ds_work s" "ds_next_work_id s" f P, OF _ id]
    by (simp add: store_ok_def counters_ok_iff activity_ok_def unique_traders_of_def update_work_def)
qed

lemma work_count_settled:
  assumes "work_ok ws n" and "w \<in> set ws" and "wi_id w = wid" and "outstanding w" and "\<not> outstanding (f w)"
  shows "work_count (map (\<lambda>w. if wi_id w = wid then f w else w) ws) = work_count ws - 1" and "1 \<le> work_count ws"
proof -
  show "work_count (map (\<lambda>w. if wi_id w = wid then f w else w) ws) = work_count ws - 1"
    using assms count_update_key [of wi_id ws w wid outstanding f] by (simp add: work_count_def work_ok_def)
  have "w \<in> set (filter outstanding ws)" using assms by simp
  then show "1 \<le> work_count ws"
    unfolding work_count_def by (metis One_nat_def Suc_leI int_ops(2) length_pos_if_in_set of_nat_mono)
qed

lemma lock_owned_workD:
  assumes "lock_owned_work now wid worker s = Inr work"
  obtains w where "w \<in> set (ds_work s)" "owns_lease now wid worker w" "wi_id w = wid" "wi_state w = WorkProcessing"
    "wi_kind w = ow_work_kind work" "wi_attempts w = ow_attempts work"
    "find_observation s (wi_observation_id w) = Some (ow_observation work)"
proof -
  obtain w where w: "find (owns_lease now wid worker) (ds_work s) = Some w"
    and work: "find_observation s (wi_observation_id w) = Some (ow_observation work)" "wi_kind w = ow_work_kind work"
      "wi_attempts w = ow_attempts work"
    using assms by (auto simp: lock_owned_work_def split: option.splits)
  have "w \<in> set (ds_work s)" "owns_lease now wid worker w"
    using w by (auto simp: find_Some_iff)
  then show thesis using work by (intro that) (auto simp: owns_lease_def)
qed

lemma claim_ok:
  assumes "store_ok j s"
  shows "store_ok j (snd (claim_observation_work now locked kind worker limit lease s))"
proof -
  have id: "wi_id (claim_update now worker ms w) = wi_id w" for ms w
    by (simp add: claim_update_def)
  have claimable: "outstanding (claim_update now worker ms w) = outstanding w"
    if member: "w \<in> set (ds_work s)" and selected: "wi_id w \<in> set (select_ids (\<lambda>w. (wi_available_at w, wi_id w)) (claimable_work now kind) locked n (ds_work s))"
    for ms w n
  proof -
    obtain w' where "w' \<in> set (ds_work s)" "claimable_work now kind w'" "wi_id w = wi_id w'"
      using selected by (auto simp: select_ids_def dest!: in_set_takeD)
    with member assms have "claimable_work now kind w"
      using unique_work [of "ds_work s" _ w w'] by (auto simp: store_ok_def)
    then show ?thesis
      by (auto simp: claimable_work_def claim_update_def outstanding_def)
  qed
  show ?thesis
    unfolding claim_observation_work_def Let_def
    using assms by (auto split: sum.splits intro!: update_work_kept [OF assms] id claimable)
qed

lemma renew_ok:
  assumes "store_ok j s"
  shows "store_ok j (snd (renew_observation_work_lease now wid worker lease s))"
  unfolding renew_observation_work_lease_def Let_def
  using assms by (auto split: sum.splits intro!: update_work_kept simp: outstanding_def)

lemma complete_ok:
  assumes "store_ok j s"
  shows "store_ok j (snd (complete_observation_work now wid worker s))"
  unfolding complete_observation_work_def
proof (rule commit_cases)
  fix x s'
  assume "result_bind (require_non_empty worker ''worker_id'') (\<lambda>_. result_bind (lock_owned_work now wid worker s)
    (\<lambda>work. if ow_work_kind work = ''DISCOVERY'' then Inl (DiscoveryOutcomeRequired wid)
      else Inr ((), mark_work_complete now wid s))) = (Inr (x, s') :: ('x persistence_error, _) result)"
  then obtain work where work: "lock_owned_work now wid worker s = (Inr work :: ('x persistence_error, _) result)"
    and kind: "ow_work_kind work \<noteq> ''DISCOVERY''" and s': "s' = mark_work_complete now wid s"
    by (auto simp: result_simps split: if_splits)
  obtain w where w: "w \<in> set (ds_work s)" "wi_id w = wid" "wi_kind w = ow_work_kind work"
    using work by (rule lock_owned_workD)
  show "store_ok j s'"
    unfolding s' mark_work_complete_def
  proof (rule update_work_kept [OF assms])
    fix w' assume "w' \<in> set (ds_work s)" "wi_id w' = wid"
    then have "w' = w" using unique_work [of "ds_work s" _ w' w] w assms by (auto simp: store_ok_def)
    then show "outstanding (w'\<lparr>wi_state := WorkComplete, wi_finished_at := Some now, wi_lease_owner := None,
              wi_lease_expires_at := None\<rparr>) = outstanding w'"
      using kind w by (simp add: outstanding_def)
  qed simp
qed (rule assms)

text \<open>Settling one item of discovery work as a failure.\<close>

lemma upsert_commutes:
  "upsert_rejection_summary reason seen (advance f s) = advance f (upsert_rejection_summary reason seen s)"
  "mark_work_complete now wid (advance f s) = advance f (mark_work_complete now wid s)"
  "mark_work_complete now wid (upsert_rejection_summary reason seen s)
     = upsert_rejection_summary reason seen (mark_work_complete now wid s)"
  by (simp_all add: upsert_rejection_summary_def advance_def mark_work_complete_def update_work_def)

lemma settle_failed_ok:
  assumes "store_ok j s" and w: "w \<in> set (ds_work s)" "wi_id w = wid" "outstanding w"
    and f: "\<And>w. wi_id (f w) = wi_id w" "\<not> outstanding (f w)"
  shows "store_ok j (append_projection_event kind (advance fail_projection
    (upsert_rejection_summary reason seen (update_work (\<lambda>w. wi_id w = wid) f s))))"
proof -
  let ?ws = "map (\<lambda>w. if wi_id w = wid then f w else w) (ds_work s)"
  have wk: "work_ok (ds_work s) (ds_next_work_id s)" using assms(1) by (simp add: store_ok_def)
  note count = work_count_settled [where f = f, OF wk w(1,2,3) f(2)]
  have "reasons_ok (upsert_reason reason seen (ds_failures s))"
    using assms(1) upsert_reason_ok by (auto simp: store_ok_def)
  moreover have "sum_list (map rs_count (upsert_reason reason seen (ds_failures s)))
      = sum_list (map rs_count (ds_failures s)) + 1"
    using assms(1) upsert_reason_total by (auto simp: store_ok_def reasons_ok_def)
  moreover have "work_ok ?ws (ds_next_work_id s)" using work_ok_update [OF wk f(1)] .
  ultimately show ?thesis
    using assms(1) count
    by (intro store_ok_publish [of j s])
       (simp_all add: store_ok_def counters_ok_iff activity_ok_def unique_traders_of_def upsert_rejection_summary_def
         update_work_def fail_projection_def)
qed

lemma retry_ok:
  assumes "store_ok j s"
  shows "store_ok j (snd (retry_or_fail_observation_work now wid worker error_code retry_after max_attempts s
     :: ('x persistence_error, _) result \<times> _))"
  unfolding retry_or_fail_observation_work_def
proof (rule commit_cases, goal_cases)
  case (1 x s')
  then obtain work ms where work: "lock_owned_work now wid worker s = (Inr work :: ('x persistence_error, _) result)"
    and s': "s' = (let gone = int (unat max_attempts) \<le> ow_attempts work;
       s1 = update_work (\<lambda>w. wi_id w = wid) (fail_work now error_code ms gone) s in
       if gone \<and> ow_work_kind work = ''DISCOVERY'' then record_terminal_discovery_failure work error_code s1 else s1)"
    by (auto simp: result_simps Let_def split: if_splits)
  obtain w where w: "w \<in> set (ds_work s)" "wi_id w = wid" "wi_kind w = ow_work_kind work" "wi_state w = WorkProcessing"
    using work by (rule lock_owned_workD)
  have id: "wi_id (fail_work now error_code ms b w) = wi_id w" for b w by (simp add: fail_work_def)
  define gone where "gone \<longleftrightarrow> int (unat max_attempts) \<le> ow_attempts work"
  show ?case
  proof (cases "gone \<and> ow_work_kind work = ''DISCOVERY''")
    case True
    then have "s' = append_projection_event ''DISCOVERY_WORK_FAILED'' (advance fail_projection
      (upsert_rejection_summary error_code (received_time_unix_ms (ow_observation work))
        (update_work (\<lambda>w. wi_id w = wid) (fail_work now error_code ms True) s)))"
      unfolding s' Let_def gone_def [symmetric] by (simp add: record_terminal_discovery_failure_def upsert_commutes)
    moreover have "outstanding w" using w True by (simp add: outstanding_def)
    moreover have "\<not> outstanding (fail_work now error_code ms True w)" by (simp add: fail_work_def outstanding_def)
    ultimately show ?thesis
      using settle_failed_ok [where f = "fail_work now error_code ms True", OF assms w(1,2) _ id] by simp
  next
    case False
    then have "s' = update_work (\<lambda>w. wi_id w = wid) (fail_work now error_code ms gone) s"
      unfolding s' Let_def gone_def [symmetric] by auto
    moreover have "outstanding (fail_work now error_code ms gone w') = outstanding w'"
      if "w' \<in> set (ds_work s)" "wi_id w' = wid" for w'
    proof -
      have "w' = w" using that unique_work [of "ds_work s" _ w' w] w assms by (auto simp: store_ok_def)
      with False w show ?thesis by (auto simp: outstanding_def fail_work_def)
    qed
    ultimately show ?thesis using update_work_kept [OF assms id] by simp
  qed
qed (rule assms)

lemma reject_ok:
  assumes "store_ok j s"
  shows "store_ok j (snd (commit_discovery_rejection now wid worker r s :: ('x persistence_error, _) result \<times> _))"
  unfolding commit_discovery_rejection_def
proof (rule commit_cases, goal_cases)
  case (1 x s')
  then obtain work where work: "lock_owned_work now wid worker s = (Inr work :: ('x persistence_error, _) result)"
    and kind: "ow_work_kind work = ''DISCOVERY''"
    and s': "s' = append_projection_event ''DISCOVERY_TOKEN_REJECTED'' (advance fail_projection
      (upsert_rejection_summary (rej_reason_code r) (rej_seen_at_unix_ms r) (mark_work_complete now wid s)))"
    by (auto simp: result_simps reject_transaction_def ensure_discovery_work_def upsert_commutes split: if_splits)
  obtain w where w: "w \<in> set (ds_work s)" "wi_id w = wid" "wi_kind w = ow_work_kind work" "wi_state w = WorkProcessing"
    using work by (rule lock_owned_workD)
  show ?case
    unfolding s' mark_work_complete_def
    using w kind by (intro settle_failed_ok [OF assms w(1,2)]) (simp_all add: outstanding_def)
qed (rule assms)

end
