(* ===== verification/Store_Candidates.thy ===== *)
theory Store_Candidates
  imports Store_Work
begin

text \<open>
  The transactions on candidates keep the invariant of the store: the running activity, the
  observation of a candidate in each of its cases, its approval, the settings and the repair of the
  counters.
\<close>

section \<open>Activity\<close>

lemma nat_of_i64: "0 \<le> x \<Longrightarrow> x \<le> i64_max \<Longrightarrow> unat (of_int x :: u64) = nat x"
  by (simp add: unat_eq_nat_uint uint_word_of_int_eq take_bit_int_eq_self i64_max_def)

lemma read_activity_shaped:
  assumes "activity_total_ok a (unique_traders_of s k)" and "read_activity s k a = Inr r"
  shows "activity_shaped r"
proof -
  have bounds: "0 \<le> ar_buys a" "ar_buys a \<le> i64_max" "0 \<le> ar_sells a" "ar_sells a \<le> i64_max"
    "0 \<le> ar_trades a" "ar_trades a \<le> i64_max" "int (unique_traders_of s k) \<le> ar_trades a"
    "ar_trades a = ar_buys a + ar_sells a"
    using assms(1) by (auto simp: activity_total_ok_def activity_fits_def)
  have unique: "unat (of_nat (unique_traders_of s k) :: u64) = unique_traders_of s k"
    using nat_of_i64 [of "int (unique_traders_of s k)"] bounds by simp
  have "act_buys r = of_int (ar_buys a)" "act_sells r = of_int (ar_sells a)" "act_trades r = of_int (ar_trades a)"
    "act_unique_traders r = of_nat (unique_traders_of s k)"
    "decimal (act_base_volume_units r)" "decimal (act_quote_volume_units r)"
    using assms(2) by (auto simp: read_activity_def result_simps)
  then show ?thesis
    using bounds unique nat_of_i64 [of "ar_trades a"] nat_of_i64 [of "ar_buys a"] nat_of_i64 [of "ar_sells a"]
    by (simp add: activity_shaped_def checked_simps word_le_nat_alt nat_add_distrib)
qed

lemma read_activity_store: "read_activity (s\<lparr>ds_activity := act\<rparr>) k a = read_activity s k a"
  by (simp add: read_activity_def unique_traders_of_def)

lemma activity_frame:
  assumes "apply_observation_activity e obs s = Inr (a, s')"
  obtains act tr where "s' = s\<lparr>ds_activity := act, ds_traders := tr\<rparr>"
proof -
  have "\<exists>act tr. s' = s\<lparr>ds_activity := act\<rparr> \<or> s' = s\<lparr>ds_traders := tr, ds_activity := act\<rparr>"
    using assms
    by (auto simp: apply_observation_activity_def Let_def result_simps insert_trader_def
        split: observation_payload.splits if_splits)
  then show thesis
    by (elim exE disjE; intro that [where act = "ds_activity s'" and tr = "ds_traders s'"]) simp_all
qed

lemma activity_okD: "activity_ok s \<Longrightarrow> activity_total_ok (case ds_activity s k of None \<Rightarrow> empty_activity | Some a \<Rightarrow> a) (unique_traders_of s k)"
  unfolding activity_ok_def by (rule spec)

lemma insert_trader_count:
  "unique_traders_of (insert_trader k trader s) k' \<le> unique_traders_of s k' + of_bool (k' = k)"
  "k' \<noteq> k \<Longrightarrow> unique_traders_of (insert_trader k trader s) k' = unique_traders_of s k'"
  by (auto simp: insert_trader_def unique_traders_of_def)

lemma count_trade_ok:
  assumes "activity_total_ok a n" and "m \<le> n + 1" and "activity_fits (count_trade side base quote a)"
  shows "activity_total_ok (count_trade side base quote a) m"
  using assms by (cases side) (auto simp: activity_total_ok_def count_trade_def)

lemma apply_activity_ok:
  fixes e :: 'x
  assumes "activity_ok s" and "apply_observation_activity e obs s = Inr (a, s')"
  shows "activity_ok s'" and "activity_shaped a"
proof -
  define k where "k = activity_key_of obs"
  define row where "row = (case ds_activity s k of None \<Rightarrow> empty_activity | Some a \<Rightarrow> a)"
  have row: "activity_total_ok row (unique_traders_of s k)"
    using activity_okD [OF assms(1)] by (simp add: row_def)
  consider (trade) side trader base quote br qr where "payload obs = Trade side trader base quote br qr"
    | (other) "s' = s\<lparr>ds_activity := (ds_activity s)(k \<mapsto> row)\<rparr>" "read_activity s' k row = (Inr a :: ('x persistence_error, _) result)"
    using assms(2) unfolding apply_observation_activity_def Let_def k_def [symmetric] row_def [symmetric]
    by (cases "payload obs") (auto simp: result_simps)
  then have "activity_ok s' \<and> activity_shaped a"
  proof cases
    case trade
    let ?row = "count_trade side base quote row" and ?s = "insert_trader k trader s"
    have s': "s' = ?s\<lparr>ds_activity := (ds_activity s)(k \<mapsto> ?row)\<rparr>" and fits: "activity_fits ?row"
      and read: "read_activity s' k ?row = (Inr a :: ('x persistence_error, _) result)"
      using assms(2) trade unfolding apply_observation_activity_def Let_def k_def [symmetric] row_def [symmetric]
      by (auto simp: result_simps split: if_splits)
    have traders: "unique_traders_of s' k' = unique_traders_of ?s k'" for k'
      by (simp add: s' unique_traders_of_def)
    have new: "activity_total_ok ?row (unique_traders_of s' k)"
      using insert_trader_count(1) [of k trader s k] by (intro count_trade_ok [OF row _ fits]) (simp add: traders)
    have "activity_ok s'"
      unfolding activity_ok_def
    proof
      fix k'
      show "activity_total_ok (case ds_activity s' k' of None \<Rightarrow> empty_activity | Some a \<Rightarrow> a) (unique_traders_of s' k')"
      proof (cases "k' = k")
        case True
        then show ?thesis using new by (simp add: s')
      next
        case False
        then show ?thesis
          using activity_okD [OF assms(1), of k'] insert_trader_count(2) [OF False, of trader s] traders by (simp add: s')
      qed
    qed
    then show ?thesis using read_activity_shaped [OF new read] by simp
  next
    case other
    have "unique_traders_of s' k' = unique_traders_of s k'" for k'
      by (simp add: other unique_traders_of_def)
    then have "activity_total_ok row (unique_traders_of s' k)" "activity_ok s'"
      using row activity_okD [OF assms(1)] unfolding activity_ok_def by (simp_all add: other(1) row_def)
    then show ?thesis using read_activity_shaped other(2) by blast
  qed
  then show "activity_ok s'" "activity_shaped a" by simp_all
qed

section \<open>Rows of candidates\<close>

lemma row_okE:
  assumes "row_ok j r"
  obtains t where "token_from_value j (str_token r) = Inr t" "token_shaped t" "dt_mint t = str_mint r"
    "str_stage r = discovery_stage_name (dt_stage t)"
  using assms by (auto simp: row_ok_def split: sum.splits)

lemma row_okI:
  assumes "token_codec j" and "token_to_value j t = Inr (str_token r)" and "token_shaped t" and "dt_mint t = str_mint r"
    and "str_stage r = discovery_stage_name (dt_stage t)"
  shows "row_ok j r"
proof -
  have "token_from_value j (str_token r) = Inr t" using assms(1,2) by (simp add: token_codec_def)
  then show ?thesis using assms by (simp add: row_ok_def)
qed

lemma tokens_ok_update:
  assumes "tokens_ok j rows" and "\<And>r. r \<in> set rows \<Longrightarrow> str_mint r = m \<Longrightarrow> row_ok j (f r) \<and> str_mint (f r) = m"
  shows "tokens_ok j (map (\<lambda>r. if str_mint r = m then f r else r) rows)"
proof -
  have "map str_mint (map (\<lambda>r. if str_mint r = m then f r else r) rows) = map str_mint rows"
    using assms(2) by (induction rows) auto
  moreover have "\<forall>r \<in> set (map (\<lambda>r. if str_mint r = m then f r else r) rows). row_ok j r"
    using assms by (auto simp: tokens_ok_def)
  ultimately show ?thesis using assms(1) unfolding tokens_ok_def by presburger
qed

lemma stage_count_update:
  assumes "tokens_ok j rows" and "r \<in> set rows" and "str_mint r = m"
  shows "stage_count stages (map (\<lambda>r. if str_mint r = m then f r else r) rows)
    = stage_count stages rows + of_bool (str_stage (f r) \<in> set stages) - of_bool (str_stage r \<in> set stages)"
  using assms count_update_key [of str_mint rows r m "\<lambda>r. str_stage r \<in> set stages" f]
  by (simp add: stage_count_def tokens_ok_def)

lemma stage_count_same:
  "(\<And>r. str_stage (f r) = str_stage r) \<Longrightarrow> stage_count stages (map (\<lambda>r. if P r then f r else r) rows) = stage_count stages rows"
  unfolding stage_count_def by (subst filter_map_same) auto

lemma stage_count_pos: "r \<in> set rows \<Longrightarrow> str_stage r \<in> set stages \<Longrightarrow> 1 \<le> stage_count stages rows"
proof -
  assume "r \<in> set rows" "str_stage r \<in> set stages"
  then have "r \<in> set (filter (\<lambda>r. str_stage r \<in> set stages) rows)" by simp
  then show ?thesis unfolding stage_count_def by (metis One_nat_def Suc_leI int_ops(2) length_pos_if_in_set of_nat_mono)
qed

lemma stage_name_sets [simp]:
  "discovery_stage_name st \<in> set [''APPROVED''] \<longleftrightarrow> st = StageApproved"
  "discovery_stage_name st \<in> set [''QUALIFIED'', ''APPROVED''] \<longleftrightarrow> is_qualified_stage st"
  by (cases st; simp add: is_qualified_stage_def)+

lemma find_tokenD:
  assumes "find_token s m = Some r"
  shows "r \<in> set (ds_tokens s)" and "str_mint r = m"
  using assms find_key_Some [of str_mint m] by (auto simp: find_token_def)

section \<open>Observing a candidate\<close>

text \<open>What a new or merged candidate does to the rows and to the counts of the stages.\<close>

definition observed_rows ::
    "('x, 'v) window_json \<Rightarrow> 'v stored_token_row list \<Rightarrow> discovery_token \<Rightarrow> bool \<Rightarrow> bool \<Rightarrow> bool \<Rightarrow> 'v stored_token_row list \<Rightarrow> bool" where
  "observed_rows j rows t is_new ar qr rows' \<longleftrightarrow>
     tokens_ok j rows' \<and> token_shaped t \<and> (\<exists>r \<in> set rows'. str_mint r = dt_mint t \<and> str_stage r = discovery_stage_name (dt_stage t))
     \<and> length rows' = length rows + of_bool is_new
     \<and> stage_count [''APPROVED''] rows' = stage_count [''APPROVED''] rows - of_bool ar
     \<and> stage_count [''QUALIFIED'', ''APPROVED''] rows' = stage_count [''QUALIFIED'', ''APPROVED''] rows - of_bool qr"

lemma token_row_ok:
  assumes "token_codec j" and "token_shaped t" and "token_row j t wid source version = Inr r"
  shows "row_ok j r" and "str_mint r = dt_mint t" and "str_stage r = discovery_stage_name (dt_stage t)"
proof -
  show "str_mint r = dt_mint t" "str_stage r = discovery_stage_name (dt_stage t)"
    using assms(3) by (auto simp: token_row_def result_simps)
  then show "row_ok j r"
    using assms by (intro row_okI [OF assms(1), of t]) (auto simp: token_row_def result_simps)
qed

lemma insert_candidate_rows:
  assumes "token_codec j" and "tokens_ok j (ds_tokens s)" and "token_shaped t" and "dt_stage t = StageObserved"
    and "find_token s (dt_mint t) = None" and "insert_discovery_token j t wid source version s = Inr (u, s1)"
  obtains rows where "s1 = s\<lparr>ds_tokens := rows\<rparr>" "observed_rows j (ds_tokens s) t True False False rows"
proof -
  obtain r where r: "token_row j t wid source version = Inr r" and s1: "s1 = s\<lparr>ds_tokens := ds_tokens s @ [r]\<rparr>"
    using assms(6) by (auto simp: insert_discovery_token_def result_simps)
  note row = token_row_ok [OF assms(1,3) r]
  have "dt_mint t \<notin> str_mint ` set (ds_tokens s)"
    using assms(5) find_key_None [of str_mint "dt_mint t" "ds_tokens s"] by (simp add: find_token_def)
  then have "tokens_ok j (ds_tokens s @ [r])" using assms(2) row by (simp add: tokens_ok_def)
  then show thesis
    using row assms(3,4) by (intro that [OF s1]) (simp add: observed_rows_def stage_count_def)
qed

lemma update_candidate_rows:
  assumes "token_codec j" and "tokens_ok j (ds_tokens s)" and "token_shaped t" and "r \<in> set (ds_tokens s)"
    and "str_mint r = dt_mint t" and "str_stage r = discovery_stage_name old"
    and "update_discovery_token j t wid source version s = Inr (u, s1)"
    and stages: "dt_stage t = StageApproved \<Longrightarrow> old = StageApproved"
      "is_qualified_stage (dt_stage t) \<Longrightarrow> is_qualified_stage old"
  obtains rows where "s1 = s\<lparr>ds_tokens := rows\<rparr>"
    "observed_rows j (ds_tokens s) t False (old = StageApproved \<and> dt_stage t \<noteq> StageApproved)
       (is_qualified_stage old \<and> \<not> is_qualified_stage (dt_stage t)) rows"
proof -
  obtain r' where r': "token_row j t wid source version = Inr r'"
    and s1: "s1 = s\<lparr>ds_tokens := map (\<lambda>r. if str_mint r = dt_mint t then r' else r) (ds_tokens s)\<rparr>"
    using assms(7) by (auto simp: update_discovery_token_def update_token_def result_simps)
  note row = token_row_ok [OF assms(1,3) r']
  let ?rows = "map (\<lambda>r. if str_mint r = dt_mint t then r' else r) (ds_tokens s)"
  have "tokens_ok j ?rows" using row by (intro tokens_ok_update [OF assms(2)]) simp
  moreover have "\<exists>r \<in> set ?rows. str_mint r = dt_mint t \<and> str_stage r = discovery_stage_name (dt_stage t)"
    using row assms(4,5) by force
  moreover note stage_count_update [OF assms(2,4,5), of "[''APPROVED'']" "\<lambda>_. r'"]
    stage_count_update [OF assms(2,4,5), of "[''QUALIFIED'', ''APPROVED'']" "\<lambda>_. r'"]
  ultimately show thesis
    using assms(3) stages unfolding row assms(6) stage_name_sets
    by (intro that [OF s1]) (auto simp: observed_rows_def of_bool_def split: if_splits)
qed

lemma metadata_rows:
  assumes "token_codec j" and "tokens_ok j rows" and "token_shaped t" and "r \<in> set rows"
    and "str_mint r = dt_mint t" and "str_stage r = discovery_stage_name (dt_stage t)" and "token_to_value j t = Inr v"
  shows "observed_rows j rows t False False False (map (\<lambda>r. if str_mint r = dt_mint t then r\<lparr>str_token := v\<rparr> else r) rows)"
proof -
  let ?rows = "map (\<lambda>r. if str_mint r = dt_mint t then r\<lparr>str_token := v\<rparr> else r) rows"
  have only: "x = r" if "x \<in> set rows" "str_mint x = dt_mint t" for x
    using that assms(2,4,5) unfolding tokens_ok_def by (metis distinct_map inj_onD)
  have "row_ok j (r\<lparr>str_token := v\<rparr>)"
    using assms(3,5,6,7) by (intro row_okI [OF assms(1), of t]) simp_all
  then have "tokens_ok j ?rows"
    using only assms(5) by (intro tokens_ok_update [OF assms(2)]) auto
  moreover have "\<exists>x \<in> set ?rows. str_mint x = dt_mint t \<and> str_stage x = discovery_stage_name (dt_stage t)"
    using assms(4-6) by (intro bexI [of _ "r\<lparr>str_token := v\<rparr>"]) (auto simp: image_iff intro!: bexI [of _ r])
  ultimately show ?thesis
    using assms(3) by (simp add: observed_rows_def stage_count_same)
qed

lemma metadata_update:
  assumes "update_discovery_token_metadata j t s = Inr (u, s1)"
  obtains v where "token_to_value j t = Inr v"
    "s1 = s\<lparr>ds_tokens := map (\<lambda>r. if str_mint r = dt_mint t then r\<lparr>str_token := v\<rparr> else r) (ds_tokens s)\<rparr>"
  using assms by (auto simp: update_discovery_token_metadata_def update_token_def result_simps)

lemma stage_name_inj [simp]: "discovery_stage_name a = discovery_stage_name b \<longleftrightarrow> a = b"
  by (cases a; cases b) simp_all

text \<open>The stage that is preserved by a merge, and the one that is not.\<close>

lemma merge_stage:
  assumes "dt_stage c = StageObserved"
  shows "dt_stage (merge_observation t c) = (if is_qualified_stage (dt_stage t) \<and> same_market t c then dt_stage t else StageObserved)"
  using assms by (simp add: merge_observation_def Let_def)

lemma store_candidate_rows:
  fixes j :: "('x, 'v) window_json" and s :: "('v, 'json) discovery_store"
  assumes "token_codec j" and tokens: "tokens_ok j (ds_tokens s)" and c: "token_shaped c" "dt_stage c = StageObserved"
    and observed: "observe_candidate j c obs (find_token s (dt_mint c)) = Inr (mutation, t, ar, qr)"
    and stored: "store_candidate j mutation t wid source version s = Inr (u, s1)"
  obtains rows where "s1 = s\<lparr>ds_tokens := rows\<rparr>" "observed_rows j (ds_tokens s) t (mutation = Inserted) ar qr rows"
proof (cases "find_token s (dt_mint c)")
  case None
  then have m: "mutation = Inserted" "t = c" "\<not> ar" "\<not> qr" using observed by (simp_all add: observe_candidate_def)
  then have "insert_discovery_token j c wid source version s = Inr (u, s1)" using stored by (simp add: store_candidate_def)
  then obtain rows where "s1 = s\<lparr>ds_tokens := rows\<rparr>" "observed_rows j (ds_tokens s) c True False False rows"
    by (rule insert_candidate_rows [OF assms(1) tokens c None])
  then show thesis using m that by simp
next
  case (Some r)
  note r = find_tokenD [OF Some]
  obtain old where old: "token_from_value j (str_token r) = Inr old" "token_shaped old" "dt_mint old = str_mint r"
    "str_stage r = discovery_stage_name (dt_stage old)"
    using tokens r(1) row_okE [of j r] unfolding tokens_ok_def by blast
  have ex: "observe_existing j c obs r = Inr (mutation, t, ar, qr)"
    using observed Some by (simp add: observe_candidate_def)
  obtain slot_i64 where slot: "to_i64 (dt_observed_slot c) ''observed_slot'' = (Inr slot_i64 :: ('x persistence_error, _) result)"
    using ex unfolding observe_existing_def result_bind_Inr by blast
  have stage: "validate_stored_stage (str_stage r) (dt_stage old) = (Inr () :: ('x persistence_error, _) result)"
    by (simp add: validate_stored_stage_def old(4))
  note ex' = ex [unfolded observe_existing_def map_err_def old(1) sum.case result_bind.simps stage slot]
  show thesis
  proof (cases "slot_i64 < str_observed_slot r")
    case True
    obtain changed t' where "enrich_metadata_from_stale_creation old c obs = (changed, t')" by fastforce
    with ex' True have enriched: "enrich_metadata_from_stale_creation old c obs = (changed, t)"
      and m: "\<not> ar" "\<not> qr" "mutation = (if changed then MetadataEnrichedFromStaleCreation else StaleObservationIgnored)"
      by simp_all
    note t = enrich_shaped [OF enriched old(2) c(1)]
    show thesis
    proof (cases changed)
      case True
      then obtain v where v: "token_to_value j t = Inr v"
        and s1: "s1 = s\<lparr>ds_tokens := map (\<lambda>r. if str_mint r = dt_mint t then r\<lparr>str_token := v\<rparr> else r) (ds_tokens s)\<rparr>"
        using stored m metadata_update [of j t s u s1] by (auto simp: store_candidate_def)
      show thesis
        using metadata_rows [OF assms(1) tokens t(1) r(1) _ _ v] t old r m True by (intro that [OF s1]) simp
    next
      case False
      with stored m have s1: "s1 = s\<lparr>ds_tokens := ds_tokens s\<rparr>" by (simp add: store_candidate_def)
      show thesis
        using tokens t old r m False by (intro that [OF s1]) (auto simp: observed_rows_def)
    qed
  next
    case False
    with ex' have t: "t = merge_observation old c" and m: "mutation = Updated \<or> mutation = DemotedByMarketChange"
      "ar = (dt_stage old = StageApproved \<and> dt_stage t \<noteq> StageApproved)"
      "qr = (is_qualified_stage (dt_stage old) \<and> \<not> is_qualified_stage (dt_stage t))"
      by (auto simp: Let_def split: if_splits)
    have shaped: "token_shaped t" unfolding t by (rule merge_observation_shaped [OF old(2) c])
    have up: "update_discovery_token j t wid source version s = Inr (u, s1)"
      using stored m(1) by (auto simp: store_candidate_def)
    have stages: "dt_stage t = StageApproved \<Longrightarrow> dt_stage old = StageApproved"
      "is_qualified_stage (dt_stage t) \<Longrightarrow> is_qualified_stage (dt_stage old)"
      using merge_stage [OF c(2), of old] by (auto simp: t is_qualified_stage_def split: if_splits)
    obtain rows where "s1 = s\<lparr>ds_tokens := rows\<rparr>" "observed_rows j (ds_tokens s) t False ar qr rows"
      using update_candidate_rows [OF assms(1) tokens shaped r(1) _ old(4) up stages] r(2) m t by auto
    then show thesis using m(1) by (intro that) auto
  qed
qed

lemma publish_activity_rows:
  assumes "token_codec j" and "observed_rows j rows0 t b ar qr (ds_tokens s)" and "activity_shaped a"
    and "publish_activity j t obs a s = Inr (u, s1)"
  obtains rows where "s1 = s\<lparr>ds_tokens := rows\<rparr>" "tokens_ok j rows" "length rows = length (ds_tokens s)"
    "\<And>stages. stage_count stages rows = stage_count stages (ds_tokens s)"
proof (cases "token_matches_observation_market t obs")
  case True
  let ?t = "t\<lparr>dt_activity := a\<rparr>"
  have tokens: "tokens_ok j (ds_tokens s)" and shaped: "token_shaped ?t"
    using assms(2,3) token_shaped_activity by (auto simp: observed_rows_def)
  obtain r where r: "r \<in> set (ds_tokens s)" "str_mint r = dt_mint ?t" "str_stage r = discovery_stage_name (dt_stage ?t)"
    using assms(2) by (auto simp: observed_rows_def)
  obtain v where v: "token_to_value j ?t = Inr v"
    and s1: "s1 = s\<lparr>ds_tokens := map (\<lambda>r. if str_mint r = dt_mint ?t then r\<lparr>str_token := v\<rparr> else r) (ds_tokens s)\<rparr>"
    using assms(4) True metadata_update [of j ?t s u s1] by (auto simp: publish_activity_def)
  show thesis
    using metadata_rows [OF assms(1) tokens shaped r v]
    by (intro that [OF s1]) (auto simp: observed_rows_def stage_count_same)
next
  case False
  with assms(4) have "s1 = s" by (simp add: publish_activity_def)
  then show thesis using assms(2) by (intro that [of "ds_tokens s"]) (auto simp: observed_rows_def)
qed

lemma observe_ok:
  fixes j :: "('x, 'v) window_json"
  assumes "token_codec j" and ok: "store_ok j s"
  shows "store_ok j (snd (commit_discovery_observation j e now wid worker c s))"
  unfolding commit_discovery_observation_def
proof (rule commit_cases, goal_cases)
  case (1 mutation s')
  then obtain work t ar qr s1 a s2 s3 where
    c: "token_shaped (candidate_token c)" "dt_stage (candidate_token c) = StageObserved"
    and work: "lock_owned_work now wid worker s = (Inr work :: ('x persistence_error, _) result)"
    and kind: "ow_work_kind work = ''DISCOVERY''"
    and observed: "observe_candidate j (candidate_token c) (ow_observation work) (find_token s (dt_mint (candidate_token c)))
      = Inr (mutation, t, ar, qr)"
    and stored: "store_candidate j mutation t wid (validation_source c) (validation_version c) s = Inr ((), s1)"
    and act: "apply_observation_activity e (ow_observation work) s1 = Inr (a, s2)"
    and pub: "publish_activity j t (ow_observation work) a s2 = Inr ((), s3)"
    and s': "s' = append_projection_event ''DISCOVERY_TOKEN_OBSERVED'' (advance (observe_projection (mutation = Inserted) ar qr)
      (mark_work_complete now wid s3))"
    by (auto simp: result_simps validate_candidate_def observe_transaction_def ensure_discovery_work_def Let_def
        upsert_commutes split: if_splits)
  have tokens: "tokens_ok j (ds_tokens s)" and wk: "work_ok (ds_work s) (ds_next_work_id s)" and a_ok: "activity_ok s"
    using ok by (simp_all add: store_ok_def)
  obtain rows where s1: "s1 = s\<lparr>ds_tokens := rows\<rparr>" and rows: "observed_rows j (ds_tokens s) t (mutation = Inserted) ar qr rows"
    by (rule store_candidate_rows [OF assms(1) tokens c observed stored])
  have "activity_ok s1" using a_ok by (simp add: s1 activity_ok_def unique_traders_of_def)
  note activity = apply_activity_ok [OF this act]
  obtain acts traders where s2: "s2 = s1\<lparr>ds_activity := acts, ds_traders := traders\<rparr>"
    using act by (rule activity_frame)
  have rows2: "observed_rows j (ds_tokens s) t (mutation = Inserted) ar qr (ds_tokens s2)" using rows by (simp add: s1 s2)
  obtain rows3 where s3: "s3 = s2\<lparr>ds_tokens := rows3\<rparr>" and rows3: "tokens_ok j rows3" "length rows3 = length (ds_tokens s2)"
    "\<And>stages. stage_count stages rows3 = stage_count stages (ds_tokens s2)"
    using publish_activity_rows [OF assms(1) rows2 activity(2) pub] by metis
  have a3: "activity_ok (mark_work_complete now wid s3)"
    using activity(1) by (simp add: s3 activity_ok_def unique_traders_of_def mark_work_complete_def update_work_def)
  obtain w where w: "w \<in> set (ds_work s)" "wi_id w = wid" "wi_kind w = ow_work_kind work" "wi_state w = WorkProcessing"
    using work by (rule lock_owned_workD)
  define f where "f w = (w :: work_item)\<lparr>wi_state := WorkComplete, wi_finished_at := Some now, wi_lease_owner := None,
    wi_lease_expires_at := None\<rparr>" for w
  have "outstanding w" "\<not> outstanding (f w)" using w kind by (simp_all add: outstanding_def f_def)
  note count = work_count_settled [where f = f, OF wk w(1,2) this] and wk' = work_ok_update [where f = f, OF wk]
  have ws: "ds_work (mark_work_complete now wid s3) = map (\<lambda>w. if wi_id w = wid then f w else w) (ds_work s)"
    by (simp add: mark_work_complete_def update_work_def s3 s2 s1 f_def)
  have same: "ds_tokens (mark_work_complete now wid s3) = rows3" "ds_state (mark_work_complete now wid s3) = ds_state s"
    "ds_events (mark_work_complete now wid s3) = ds_events s" "ds_windows (mark_work_complete now wid s3) = ds_windows s"
    "ds_assessments (mark_work_complete now wid s3) = ds_assessments s" "ds_failures (mark_work_complete now wid s3) = ds_failures s"
    "ds_rejections (mark_work_complete now wid s3) = ds_rejections s" "ds_next_work_id (mark_work_complete now wid s3) = ds_next_work_id s"
    "ds_next_window_id (mark_work_complete now wid s3) = ds_next_window_id s"
    by (simp_all add: mark_work_complete_def update_work_def s3 s2 s1)
  have st: "stage_count [''APPROVED''] rows3 = stage_count [''APPROVED''] (ds_tokens s) - of_bool ar"
    "stage_count [''QUALIFIED'', ''APPROVED''] rows3 = stage_count [''QUALIFIED'', ''APPROVED''] (ds_tokens s) - of_bool qr"
    "length rows3 = length (ds_tokens s) + of_bool (mutation = Inserted)"
    using rows2 rows3 by (simp_all add: observed_rows_def)
  then have pos: "of_bool ar \<le> stage_count [''APPROVED''] (ds_tokens s)"
    "of_bool qr \<le> stage_count [''QUALIFIED'', ''APPROVED''] (ds_tokens s)"
    using counts_nonneg(1) [of "[''APPROVED'']" rows3] counts_nonneg(1) [of "[''QUALIFIED'', ''APPROVED'']" rows3] by linarith+
  show ?case
    unfolding s'
  proof (rule store_ok_publish [OF ok])
    show "counters_ok ((mark_work_complete now wid s3)\<lparr>ds_state := observe_projection (mutation = Inserted) ar qr (ds_state s)\<rparr>)"
      using ok count st pos by (simp add: counters_ok_iff store_ok_def same ws observe_projection_def)
    show "settings_ok (observe_projection (mutation = Inserted) ar qr (ds_state s))"
      using ok by (simp add: observe_projection_def store_ok_def)
    show "work_ok (ds_work (mark_work_complete now wid s3)) (ds_next_work_id (mark_work_complete now wid s3))"
      unfolding ws same by (rule wk') (simp add: f_def)
  qed (use ok rows3 a3 in \<open>simp_all add: same store_ok_def\<close>)
qed (rule ok)

section \<open>Approval, settings and repair\<close>

lemma approve_ok:
  fixes j :: "('x, 'v) window_json"
  assumes "token_codec j" and ok: "store_ok j s"
  shows "store_ok j (snd (commit_discovery_approval j t source version s))"
  unfolding commit_discovery_approval_def
proof (rule commit_cases, goal_cases)
  case (1 mutation s')
  then obtain r old v n where t: "token_shaped t" "qualification_passes t"
    and find: "find_token s (dt_mint t) = Some r" and old: "token_from_value j (str_token r) = Inr old"
    and q: "is_qualified_stage (dt_stage old)" and same_mint: "dt_mint old = dt_mint t"
    and v: "token_to_value j (merge_approval old t) = Inr v"
    and s': "s' = append_projection_event ''DISCOVERY_TOKEN_APPROVED''
      (advance (\<lambda>p. p\<lparr>ps_approved := ps_approved p + of_bool (dt_stage old \<noteq> StageApproved)\<rparr>)
        (update_token (dt_mint (merge_approval old t)) (\<lambda>r. r\<lparr>str_stage := ''APPROVED'', str_observed_slot := n,
            str_decision_source := source, str_decision_version := version, str_token := v\<rparr>) s))"
    by (auto simp: result_simps validate_approval_def approve_transaction_def Let_def validate_promotion_identity_def
        split: if_splits option.splits)
  note r = find_tokenD [OF find]
  have tokens: "tokens_ok j (ds_tokens s)" using ok by (simp add: store_ok_def)
  have row: "row_ok j r" using tokens r by (simp add: tokens_ok_def)
  then have rs: "token_shaped old" "str_stage r = discovery_stage_name (dt_stage old)"
    using old by (auto simp: row_ok_def)
  let ?m = "merge_approval old t"
  define f where "f r = (r :: 'v stored_token_row)\<lparr>str_stage := ''APPROVED'', str_observed_slot := n, str_decision_source := source,
      str_decision_version := version, str_token := v\<rparr>" for r
  have mint: "dt_mint ?m = dt_mint t" by (rule merge_approval_mint [OF same_mint])
  have "row_ok j (f x)" if "str_mint x = dt_mint t" for x
    using that merge_approval_shaped [OF rs(1) t] v mint by (intro row_okI [OF assms(1), of ?m]) (simp_all add: f_def)
  then have tokens': "tokens_ok j (map (\<lambda>r. if str_mint r = dt_mint t then f r else r) (ds_tokens s))"
    by (intro tokens_ok_update [OF tokens]) (simp add: f_def)
  have f_stage: "str_stage (f r) = discovery_stage_name StageApproved" by (simp add: f_def)
  have counts: "stage_count [''APPROVED''] (map (\<lambda>r. if str_mint r = dt_mint t then f r else r) (ds_tokens s))
      = stage_count [''APPROVED''] (ds_tokens s) + of_bool (dt_stage old \<noteq> StageApproved)"
    "stage_count [''QUALIFIED'', ''APPROVED''] (map (\<lambda>r. if str_mint r = dt_mint t then f r else r) (ds_tokens s))
      = stage_count [''QUALIFIED'', ''APPROVED''] (ds_tokens s)"
    using q stage_count_update [OF tokens r, of "[''APPROVED'']" f] stage_count_update [OF tokens r, of "[''QUALIFIED'', ''APPROVED'']" f]
    unfolding f_stage rs(2) stage_name_sets by (simp_all add: is_qualified_stage_def)
  show ?case
    unfolding s' mint update_token_def f_def [symmetric]
    using ok tokens' counts
    by (intro store_ok_publish [OF ok]) (simp_all add: store_ok_def counters_ok_iff activity_ok_def unique_traders_of_def)
qed (rule ok)

lemma republish_ok:
  assumes "store_ok j s" and "settings_ok (f (ds_state s))"
    and "counters_ok (s\<lparr>ds_state := f (ds_state s)\<rparr>)"
  shows "store_ok j (append_projection_event kind (advance f s))"
  using assms by (intro store_ok_publish [OF assms(1)]) (simp_all add: store_ok_def)

lemma mode_ok:
  assumes "store_ok j s"
  shows "store_ok j (snd (set_discovery_mode mode s))"
proof -
  have "store_ok j (append_projection_event ''DISCOVERY_MODE_CHANGED'' (advance (\<lambda>p. p\<lparr>ps_mode := discovery_mode_name mode\<rparr>) s))"
    using assms by (intro republish_ok) (auto simp: store_ok_def settings_ok_def counters_ok_iff)
  with assms show ?thesis by (simp add: set_discovery_mode_def)
qed

lemma flow_ok:
  assumes "store_ok j s"
  shows "store_ok j (snd (set_discovery_flow_per_minute flow s :: ('x persistence_error, bool) result \<times> _))"
  unfolding set_discovery_flow_per_minute_def
proof (rule commit_cases, goal_cases)
  case (1 b s')
  then obtain f where f: "flow_i64 flow = (Inr f :: ('x persistence_error, _) result)"
    and s': "s' = s \<or> s' = append_projection_event ''DISCOVERY_FLOW_CHANGED'' (advance (\<lambda>p. p\<lparr>ps_flow_per_minute := f\<rparr>) s)"
    by (auto simp: result_simps split: if_splits)
  have "case f of None \<Rightarrow> True | Some v \<Rightarrow> 0 \<le> v"
    using f by (auto simp: flow_i64_def to_i64_def result_simps split: option.splits if_splits)
  then have "store_ok j (append_projection_event ''DISCOVERY_FLOW_CHANGED'' (advance (\<lambda>p. p\<lparr>ps_flow_per_minute := f\<rparr>) s))"
    using assms by (intro republish_ok) (simp_all add: store_ok_def settings_ok_def counters_ok_iff)
  with s' assms show ?case by auto
qed (rule assms)

lemma rebuild_ok: "store_ok j s \<Longrightarrow> store_ok j (snd (rebuild_discovery_projection s))"
  unfolding rebuild_discovery_projection_def Let_def snd_conv
  by (intro republish_ok) (simp_all add: store_ok_def counters_ok_def [of s])

end
