(* ===== verification/Store_Windows.thy ===== *)
theory Store_Windows
  imports Store_Candidates
begin

text \<open>
  The transactions on windows keep the invariant of the store: opening a window, admitting an
  observation, finalizing, and the deletion of old observations.
\<close>

section \<open>Opening and admission\<close>

lemma membership_ok [simp]: "store_ok j (insert_membership wid oid t s) = store_ok j s"
  by (simp add: insert_membership_def)

lemma insert_window_ok:
  assumes ok: "store_ok j s" and "row_id (we_row e) = ds_next_window_id s" and "window_ok e"
    and "row_status (we_row e) = ''ACTIVE''"
  shows "store_ok j (insert_window e oid received s)"
proof -
  let ?s = "s\<lparr>ds_windows := ds_windows s @ [e], ds_next_window_id := ds_next_window_id s + 1\<rparr>"
  have parts: "insert_membership wid oid received ?s = ?s\<lparr>ds_members := ds_members (insert_membership wid oid received ?s)\<rparr>" for wid
    by (simp add: insert_membership_def)
  have windows: "windows_ok (ds_windows s @ [e]) (ds_next_window_id s + 1)"
    using ok assms(2,3) by (force simp: store_ok_def windows_ok_def)
  show ?thesis
    unfolding insert_window_def
    using ok windows assms(4)
    by (subst parts, intro store_ok_publish [OF ok])
       (simp_all add: store_ok_def counters_ok_iff activity_ok_def unique_traders_of_def open_count_def)
qed

lemma open_ok:
  fixes enc :: "('x, 'v) settings_json"
  assumes ok: "store_ok j s"
  shows "store_ok j (snd (open_discovery_window enc b64 e now obs w s))"
  unfolding open_discovery_window_def
proof (rule commit_cases, goal_cases)
  case (1 opened s')
  then obtain oid is_new s1 where chain: "insert_chain_observation_unprepared b64 now obs s = (Inr ((oid, is_new), s1) :: ('x persistence_error, _) result)"
    and valid: "validate_new_window obs w = (Inr () :: ('x persistence_error, _) result)"
    and rest: "(let s2 = (if is_new then enqueue_discovery_work now oid s1 else s1) in
       s' = s \<or> (\<exists>entry. new_window_entry enc (ds_next_window_id s2) oid obs w = (Inr entry :: ('x persistence_error, _) result)
         \<and> s' = insert_window entry oid (received_time_unix_ms obs) s2))"
    by (auto simp: result_simps Let_def split: option.splits if_splits)
  define s2 where "s2 = (if is_new then enqueue_discovery_work now oid s1 else s1)"
  have s2: "store_ok j s2" unfolding s2_def using ok insert_chain_ok [OF chain, of j] by (simp add: enqueue_ok)
  have bounds: "nw_opened_at_unix_ms w < nw_closes_at_unix_ms w"
    using valid by (auto simp: validate_new_window_def split: if_splits)
  have "store_ok j s'" if entry: "new_window_entry enc (ds_next_window_id s2) oid obs w = (Inr entry :: ('x persistence_error, _) result)"
    and s': "s' = insert_window entry oid (received_time_unix_ms obs) s2" for entry
  proof -
    have "row_id (we_row entry) = ds_next_window_id s2" "window_ok entry" "row_status (we_row entry) = ''ACTIVE''"
      using entry bounds by (auto simp: new_window_entry_def result_simps window_ok_def)
    then show ?thesis unfolding s' by (rule insert_window_ok [OF s2])
  qed
  with rest ok show ?case unfolding s2_def [symmetric] Let_def by auto
qed (rule ok)

lemma admit_ok:
  fixes s :: "('v, 'json) discovery_store"
  assumes ok: "store_ok j s"
  shows "store_ok j (snd (insert_window_observation b64 now wid obs s :: ('x persistence_error, bool) result \<times> _))"
  unfolding insert_window_observation_def
proof (rule commit_cases, goal_cases)
  case (1 b s')
  then obtain e :: "'v window_entry" and oid is_new s1 where chain: "insert_chain_observation_unprepared b64 now obs s = (Inr ((oid, is_new), s1) :: ('x persistence_error, _) result)"
    and body: "(if \<not> is_new \<and> is_member s1 wid oid then Inr (False, s1)
       else let admitted = (if is_new then obs else case find_observation s1 oid of None \<Rightarrow> obs | Some stored \<Rightarrow> stored) in
         result_bind (validate_window_membership (we_row e) admitted) (\<lambda>_.
         let s2 = (if is_new then enqueue_discovery_work now oid s1 else s1) in
         Inr (is_new, insert_membership wid oid (received_time_unix_ms admitted) s2))) = (Inr (b, s') :: ('x persistence_error, _) result)"
    by (auto simp: result_simps simp del: split_paired_Ex split_paired_All)
  have rest: "s' = s1 \<or> (\<exists>t. s' = insert_membership wid oid t (if is_new then enqueue_discovery_work now oid s1 else s1))"
    using body by (cases is_new) (auto simp: result_simps Let_def split: if_splits)
  show ?case using rest ok insert_chain_ok [OF chain, of j] by (auto simp: enqueue_ok)
qed (rule ok)

section \<open>Finalization\<close>

lemma pass_is_complete:
  assumes "evaluate_qualification snap p = Inr a" and "qa_decision a = Pass"
  shows "completeness snap = Complete"
  using assms
  by (cases "completeness snap")
     (auto simp: evaluate_qualification_def result_simps incomplete_assessment_def Let_def is_complete_def split: if_splits)

text \<open>What a finalization that writes has passed.\<close>

lemma finalize_window_SomeD:
  fixes j :: "('x, 'v) window_json" and reads :: "('v, 'json, 'x) finalization_reads"
  assumes "finalize_window j reads f = Inr (Some w)"
  obtains row and os :: "'json normalized_observation list" and rec where "read_window reads = Some row" "row_status row \<noteq> ''FINALIZED''"
    "validate_finalization f = (Inr () :: ('x persistence_error, _) result)"
    "validate_finalization_for_window row f = (Inr () :: ('x persistence_error, _) result)"
    "into_record j row os = Inr rec"
    "build_discovery_window_finalization j rec (fin_finalized_at_unix_ms f) (fin_completeness_reason f) = Inr f"
    "finalization_commit j reads row f = Inr w"
proof -
  from assms obtain net m row where row: "read_window reads = Some row"
    and ok: "validate_finalization f = (Inr () :: ('x persistence_error, _) result)"
      "validate_finalization_for_window row f = (Inr () :: ('x persistence_error, _) result)"
    and rest: "\<not> (row_network row \<noteq> net \<or> row_mint row \<noteq> m)" "finalize_window j reads f = Inr (Some w)"
      "read_lock_identity reads = Some (net, m)"
    unfolding finalize_window_def Let_def by (auto simp: result_simps split: if_splits)
  have "row_status row \<noteq> ''FINALIZED''"
    using rest row ok unfolding finalize_window_def Let_def by (auto split: option.splits if_splits)
  moreover have "\<exists>(os :: 'json normalized_observation list) rec. into_record j row os = Inr rec
    \<and> build_discovery_window_finalization j rec (fin_finalized_at_unix_ms f) (fin_completeness_reason f) = Inr f
    \<and> finalization_commit j reads row f = Inr w"
    using rest row ok calculation unfolding finalize_window_def Let_def by (auto simp: result_simps split: if_splits)
  ultimately show thesis using row ok that by blast
qed

lemma checked_decimal_sum_decimal: "checked_decimal_sum a b field = Inr v \<Longrightarrow> decimal v"
  by (auto simp: checked_decimal_sum_def result_simps split: if_splits)

lemma final_summary_shaped:
  fixes j :: "('x, 'v) window_json"
  assumes "validate_finalization_for_window row f = (Inr () :: ('x persistence_error, _) result)"
    and "into_record j row os = Inr rec"
    and "build_discovery_window_finalization j rec t reason = Inr f"
    and "row_opened_at_unix_ms row < row_closes_at_unix_ms row" and "row_opened_at_unix_ms row \<le> fin_finalized_at_unix_ms f"
  shows "summary_shaped (fin_summary f)"
proof (rule build_finalization_parts [OF assms(3)])
  fix snap a
  assume "canonical_discovery_summary rec snap a t = (Inr (fin_summary f) :: ('x persistence_error, _) result)"
  note sm = canonical_summary_Inr [OF this]
  have valid: "checked_add_word (sum_buys (fin_summary f)) (sum_sells (fin_summary f)) = Some (sum_trades (fin_summary f))"
    "sum_unique_traders (fin_summary f) \<le> sum_trades (fin_summary f)" "sum_unique_buyers (fin_summary f) \<le> sum_buys (fin_summary f)"
    "sum_unique_sellers (fin_summary f) \<le> sum_sells (fin_summary f)"
    "case sum_maximum_single_wallet_quote_share_bps (fin_summary f) of None \<Rightarrow> True | Some share \<Rightarrow> share \<le> 10000"
    "sum_opened_unix_ms (fin_summary f) = row_opened_at_unix_ms row" "sum_closed_unix_ms (fin_summary f) = row_closes_at_unix_ms row"
    "sum_evaluated_unix_ms (fin_summary f) = fin_finalized_at_unix_ms f"
    using assms(1) unfolding validate_finalization_for_window_def Let_def
    by (auto simp: result_simps not_less split: if_splits option.splits)
  have decimals: "decimal (sum_buy_base_volume_units (fin_summary f))" "decimal (sum_sell_base_volume_units (fin_summary f))"
    "decimal (sum_buy_quote_volume_units (fin_summary f))" "decimal (sum_sell_quote_volume_units (fin_summary f))"
    by (simp_all only: sm decimal_show_word)
  show ?thesis
    using valid decimals assms(4,5) by (simp add: summary_shaped_def summary_totals_valid_def)
qed

lemma final_pass_complete:
  fixes j :: "('x, 'v) window_json"
  assumes "build_discovery_window_finalization j rec t reason = Inr f" and "fin_decision f = Pass"
  shows "sum_decision (fin_summary f) = DecisionPass" and "sum_completeness (fin_summary f) = WindowComplete"
proof -
  have "sum_decision (fin_summary f) = DecisionPass \<and> sum_completeness (fin_summary f) = WindowComplete"
  proof (rule build_finalization_parts [OF assms(1)])
    fix snap a
    assume sm: "canonical_discovery_summary rec snap a t = (Inr (fin_summary f) :: ('x persistence_error, _) result)"
      and a: "evaluate_qualification snap (window_qualification_policy rec) = Inr a" "fin_decision f = qa_decision a"
    have "completeness snap = Complete" using pass_is_complete [OF a(1)] a(2) assms(2) by simp
    then show ?thesis
      using assms(2) a(2) by (simp add: canonical_summary_Inr [OF sm] contract_completeness_iff)
  qed
  then show "sum_decision (fin_summary f) = DecisionPass" "sum_completeness (fin_summary f) = WindowComplete" by simp_all
qed

lemma apply_to_token_shaped:
  assumes "apply_to_token f t = Inr t'" and "token_shaped t" and "summary_shaped (fin_summary f)"
    and "fin_decision f = Pass \<Longrightarrow> sum_decision (fin_summary f) = DecisionPass \<and> sum_completeness (fin_summary f) = WindowComplete"
  shows "token_shaped t'" and "dt_mint t' = dt_mint t" and "dt_stage t' = next_stage (dt_stage t) (fin_decision f)"
proof -
  obtain base quote where base: "decimal base" and quote: "decimal quote" and t': "t' = t\<lparr>dt_stage := next_stage (dt_stage t) (fin_decision f),
    dt_qualification := Some (fin_summary f), dt_activity := \<lparr>act_trades = sum_trades (fin_summary f), act_buys = sum_buys (fin_summary f),
    act_sells = sum_sells (fin_summary f), act_unique_traders = sum_unique_traders (fin_summary f), act_base_volume_units = base,
    act_quote_volume_units = quote\<rparr>\<rparr>"
    using assms(1) checked_decimal_sum_decimal unfolding apply_to_token_def Let_def result_bind_Inr by blast
  show "dt_mint t' = dt_mint t" "dt_stage t' = next_stage (dt_stage t) (fin_decision f)" by (simp_all add: t')
  have "is_qualified_stage (next_stage (dt_stage t) (fin_decision f)) \<Longrightarrow> fin_decision f = Pass"
    by (auto simp: next_stage_def is_qualified_stage_def split: if_splits)
  then show "token_shaped t'"
    using assms(2-4) base quote
    by (auto simp: t' token_shaped_def market_shaped_def decision_shaped_def activity_shaped_def qualification_passes_def
        summary_shaped_def summary_totals_valid_def)
qed

text \<open>What it writes, and what that does to the rows of the candidates.\<close>

lemma finalization_commitD:
  fixes j :: "('x, 'v) window_json"
  assumes "finalization_commit j reads row f = Inr w"
  shows "sf_decision (write_stored w) = assessment_decision_name (fin_decision f)"
    and "write_rejected w = of_bool (fin_decision f = Reject)" and "write_unknown w = of_bool (fin_decision f = Unknown)"
    and "write_token w = None \<and> write_qualified_delta w = 0 \<and> write_approval_removed w = 0
      \<or> (\<exists>p t t'. read_projection reads = Some p \<and> token_from_value j (cur_token p) = Inr t
          \<and> validate_projection_matches_window t row = (Inr () :: ('x persistence_error, _) result)
          \<and> apply_to_token f t = (Inr t' :: ('x persistence_error, _) result) \<and> (\<exists>v. token_to_value j t' = Inr v) \<and> write_token w = Some t'
          \<and> write_qualified_delta w = of_bool (fin_decision f = Pass) - of_bool (is_qualified_stage (dt_stage t))
          \<and> write_approval_removed w = of_bool (dt_stage t = StageApproved \<and> fin_decision f \<noteq> Pass))"
proof -
  define current where "current = (case read_projection reads of
      Some p \<Rightarrow> if cur_belongs_to_window p \<and> \<not> read_newer_window_exists reads then Some (cur_token p) else None | None \<Rightarrow> None)"
  obtain stored token where stored: "stored_row j f = Inr stored"
    and token: "(case current of None \<Rightarrow> Inr None | Some v \<Rightarrow> result_bind (finalization_token j row f v) (\<lambda>p. Inr (Some p)))
      = (Inr token :: ('x persistence_error, _) result)"
    and w: "write_stored w = stored" "write_rejected w = of_bool (fin_decision f = Reject)"
      "write_unknown w = of_bool (fin_decision f = Unknown)" "write_token w = map_option snd token"
      "write_qualified_delta w = (if token = None then 0 else of_bool (fin_decision f = Pass)
         - of_bool (case token of None \<Rightarrow> False | Some (t, _) \<Rightarrow> is_qualified_stage (dt_stage t)))"
      "write_approval_removed w = (if token = None then 0
         else of_bool ((case token of None \<Rightarrow> False | Some (t, _) \<Rightarrow> dt_stage t = StageApproved) \<and> fin_decision f \<noteq> Pass))"
    using assms unfolding finalization_commit_def Let_def current_def [symmetric] result_bind_Inr by (elim exE conjE) force
  show "sf_decision (write_stored w) = assessment_decision_name (fin_decision f)"
    unfolding w(1) using stored unfolding stored_row_def result_bind_Inr by force
  show "write_rejected w = of_bool (fin_decision f = Reject)" "write_unknown w = of_bool (fin_decision f = Unknown)" using w by simp_all
  show "write_token w = None \<and> write_qualified_delta w = 0 \<and> write_approval_removed w = 0
      \<or> (\<exists>p t t'. read_projection reads = Some p \<and> token_from_value j (cur_token p) = Inr t
          \<and> validate_projection_matches_window t row = (Inr () :: ('x persistence_error, _) result)
          \<and> apply_to_token f t = (Inr t' :: ('x persistence_error, _) result) \<and> (\<exists>v. token_to_value j t' = Inr v) \<and> write_token w = Some t'
          \<and> write_qualified_delta w = of_bool (fin_decision f = Pass) - of_bool (is_qualified_stage (dt_stage t))
          \<and> write_approval_removed w = of_bool (dt_stage t = StageApproved \<and> fin_decision f \<noteq> Pass))"
  proof (cases current)
    case None
    with token w show ?thesis by simp
  next
    case (Some v)
    then obtain p where p: "read_projection reads = Some p" "v = cur_token p"
      unfolding current_def by (auto split: option.splits if_splits)
    from token Some obtain t t' where "token = Some (t, t')" "finalization_token j row f v = (Inr (t, t') :: ('x persistence_error, _) result)"
      by (auto simp: result_simps)
    then show ?thesis using p w unfolding finalization_token_def result_bind_Inr map_err_Inr by auto
  qed
qed

lemma store_token_rows:
  fixes j :: "('x, 'v) window_json" and s :: "('v, 'json) discovery_store"
  assumes "token_codec j" and tokens: "tokens_ok j (ds_tokens s)"
    and commit: "finalization_commit j reads row f = Inr w" and proj: "read_projection reads = current_projection s row"
    and summary: "summary_shaped (fin_summary f)"
    and pass: "fin_decision f = Pass \<Longrightarrow> sum_decision (fin_summary f) = DecisionPass \<and> sum_completeness (fin_summary f) = WindowComplete"
    and same: "ds_tokens s0 = ds_tokens s"
  obtains rows where "store_token j row (write_token w) s0 = s0\<lparr>ds_tokens := rows\<rparr>" "tokens_ok j rows"
    "length rows = length (ds_tokens s)"
    "stage_count [''APPROVED''] rows = stage_count [''APPROVED''] (ds_tokens s) - write_approval_removed w"
    "stage_count [''QUALIFIED'', ''APPROVED''] rows = stage_count [''QUALIFIED'', ''APPROVED''] (ds_tokens s) + write_qualified_delta w"
  using finalization_commitD(4) [OF commit]
proof (elim disjE conjE exE)
  assume "write_token w = None" "write_qualified_delta w = 0" "write_approval_removed w = 0"
  then show thesis using tokens same by (intro that [of "ds_tokens s"]) (simp_all add: store_token_def)
next
  fix p t t' v
  assume p: "read_projection reads = Some p" and t: "token_from_value j (cur_token p) = Inr t"
    and matches: "validate_projection_matches_window t row = (Inr () :: ('x persistence_error, _) result)"
    and t': "apply_to_token f t = (Inr t' :: ('x persistence_error, _) result)" and v: "token_to_value j t' = Inr v"
    and w: "write_token w = Some t'" "write_qualified_delta w = of_bool (fin_decision f = Pass) - of_bool (is_qualified_stage (dt_stage t))"
      "write_approval_removed w = of_bool (dt_stage t = StageApproved \<and> fin_decision f \<noteq> Pass)"
  obtain r where find: "find_token s (row_mint row) = Some r" and cur: "cur_token p = str_token r"
    using p proj by (auto simp: current_projection_def)
  note r = find_tokenD [OF find]
  have "row_ok j r" using tokens r by (simp add: tokens_ok_def)
  then have old: "token_shaped t" "dt_mint t = str_mint r" "str_stage r = discovery_stage_name (dt_stage t)"
    using t cur by (auto simp: row_ok_def)
  note new = apply_to_token_shaped [OF t' old(1) summary pass]
  define g where "g row0 = (row0 :: 'v stored_token_row)\<lparr>str_stage := discovery_stage_name (dt_stage t'),
    str_decision_source := ''WINDOW_QUALIFICATION'', str_decision_version := show_int (row_qualification_revision row), str_token := v\<rparr>" for row0
  have mint: "dt_mint t' = str_mint r" using new(2) old(2) by simp
  have stored: "store_token j row (write_token w) s0
      = s0\<lparr>ds_tokens := map (\<lambda>x. if str_mint x = dt_mint t' then g x else x) (ds_tokens s)\<rparr>"
    by (simp add: store_token_def w v update_token_def g_def same)
  have g_stage: "str_stage (g x) = discovery_stage_name (next_stage (dt_stage t) (fin_decision f))" for x by (simp add: g_def new)
  have "row_ok j (g x)" if "str_mint x = dt_mint t'" for x
    using that v new(1) by (intro row_okI [OF assms(1), of t']) (simp_all add: g_def)
  then have "tokens_ok j (map (\<lambda>x. if str_mint x = dt_mint t' then g x else x) (ds_tokens s))"
    by (intro tokens_ok_update [OF tokens]) (simp add: g_def)
  then show thesis
    using stage_count_update [OF tokens r(1) mint [symmetric], of "[''APPROVED'']" g]
      stage_count_update [OF tokens r(1) mint [symmetric], of "[''QUALIFIED'', ''APPROVED'']" g] w(2,3)
    unfolding g_stage old(3) stage_name_sets
    by (intro that [OF stored]) (auto simp: next_stage_def is_qualified_stage_def of_bool_def split: if_splits)
qed

lemma fold_upsert_ok: "reasons_ok rows \<Longrightarrow> reasons_ok (fold (\<lambda>r. upsert_reason r seen) reasons rows)"
  by (induction reasons arbitrary: rows) (simp_all add: upsert_reason_ok)

lemma upsert_decision_parts:
  "upsert_decision_summaries d reasons seen (advance g s) = advance g (upsert_decision_summaries d reasons seen s)"
  "ds_tokens (upsert_decision_summaries d reasons seen s) = ds_tokens s" "ds_work (upsert_decision_summaries d reasons seen s) = ds_work s"
  "ds_windows (upsert_decision_summaries d reasons seen s) = ds_windows s"
  "ds_next_work_id (upsert_decision_summaries d reasons seen s) = ds_next_work_id s"
  "ds_next_window_id (upsert_decision_summaries d reasons seen s) = ds_next_window_id s"
  "ds_events (upsert_decision_summaries d reasons seen s) = ds_events s" "ds_state (upsert_decision_summaries d reasons seen s) = ds_state s"
  "ds_activity (upsert_decision_summaries d reasons seen s) = ds_activity s" "ds_traders (upsert_decision_summaries d reasons seen s) = ds_traders s"
  "ds_failures (upsert_decision_summaries d reasons seen s) = ds_failures s"
  "ds_assessments (upsert_decision_summaries d reasons seen s) = ds_assessments s"
  "ds_observations (upsert_decision_summaries d reasons seen s) = ds_observations s"
  "ds_members (upsert_decision_summaries d reasons seen s) = ds_members s"
  by (simp_all add: upsert_decision_summaries_def advance_def split: assessment_decision.split)

lemma upsert_decision_ok: "reasons_ok (ds_rejections s) \<Longrightarrow> reasons_ok (ds_rejections (upsert_decision_summaries d reasons seen s))"
  by (simp add: upsert_decision_summaries_def fold_upsert_ok split: assessment_decision.split)

lemma finalized_windows:
  assumes "windows_ok es n" and "e \<in> set es" and "row_id (we_row e) = wid" and "row_status (we_row e) = ''ACTIVE''"
  defines "es' \<equiv> map (\<lambda>e. if row_id (we_row e) = wid then e\<lparr>we_row := (we_row e)\<lparr>row_status := ''FINALIZED''\<rparr>\<rparr> else e) es"
  shows "windows_ok es' n" and "open_count es' = open_count es - 1" and "1 \<le> open_count es"
proof -
  have "map (\<lambda>e. row_id (we_row e)) es' = map (\<lambda>e. row_id (we_row e)) es" unfolding es'_def by (induction es) auto
  moreover have "\<forall>e \<in> set es'. row_id (we_row e) < n \<and> window_ok e"
    using assms(1) by (auto simp: es'_def windows_ok_def window_ok_def)
  ultimately show "windows_ok es' n" using assms(1) unfolding windows_ok_def by presburger
  show count: "open_count es' = open_count es - 1"
  proof -
    have "distinct (map (\<lambda>e. row_id (we_row e)) es)" using assms(1) by (simp add: windows_ok_def)
    from count_update_key [OF this assms(2,3), of "\<lambda>e. row_status (we_row e) = ''ACTIVE''"
      "\<lambda>e. e\<lparr>we_row := (we_row e)\<lparr>row_status := ''FINALIZED''\<rparr>\<rparr>"]
    show ?thesis unfolding es'_def [symmetric] open_count_def assms(4) by simp
  qed
  then show "1 \<le> open_count es" using counts_nonneg(3) [of es'] by linarith
qed

lemma decision_count_snoc [simp]:
  "decision_count d (as @ [a]) = decision_count d as + of_bool (sf_decision (asm_stored a) = d)"
  by (simp add: decision_count_def)

lemma decision_names [simp]:
  "assessment_decision_name d = ''REJECT'' \<longleftrightarrow> d = Reject" "assessment_decision_name d = ''UNKNOWN'' \<longleftrightarrow> d = Unknown"
  by (cases d; simp)+

lemma finalize_ok:
  fixes j :: "('x, 'v) window_json" and s :: "('v, 'json) discovery_store"
  assumes codec: "token_codec j" and ok: "store_ok j s"
    and clock: "sum_opened_unix_ms (fin_summary f) \<le> fin_finalized_at_unix_ms f"
  shows "store_ok j (snd (finalize_discovery_window_tx j f s))"
  unfolding finalize_discovery_window_tx_def
proof (rule commit_cases, goal_cases)
  case (1 b s')
  let ?reads = "finalization_reads_of s (fin_window_id f) :: ('v, 'json, 'x) finalization_reads"
  consider "s' = s" | w e where "finalize_window j ?reads f = Inr (Some w)" "find_window s (fin_window_id f) = Some e"
      "s' = apply_finalization j (we_row e) f w s"
    using 1 by (auto simp: result_simps split: option.splits)
  then show ?case
  proof cases
    case 1
    then show ?thesis using ok by simp
  next
    case 2
    have e: "e \<in> set (ds_windows s)" "row_id (we_row e) = fin_window_id f"
      using 2(2) find_key_Some [of "\<lambda>e. row_id (we_row e)" "fin_window_id f" "ds_windows s" e] by (auto simp: find_window_def)
    have read: "read_window ?reads = Some (we_row e)" "read_projection ?reads = current_projection s (we_row e)"
      using 2(2) by (simp_all add: finalization_reads_of_def Let_def)
    obtain os :: "'json normalized_observation list" and rec where active: "row_status (we_row e) \<noteq> ''FINALIZED''"
      and valid: "validate_finalization_for_window (we_row e) f = (Inr () :: ('x persistence_error, _) result)"
      and rec: "into_record j (we_row e) os = Inr rec"
        "build_discovery_window_finalization j rec (fin_finalized_at_unix_ms f) (fin_completeness_reason f) = Inr f"
      and commit: "finalization_commit j ?reads (we_row e) f = Inr w"
      using finalize_window_SomeD [OF 2(1)] read(1) by (metis option.inject)
    have win: "windows_ok (ds_windows s) (ds_next_window_id s)" and tokens: "tokens_ok j (ds_tokens s)" using ok by (simp_all add: store_ok_def)
    have w_ok: "window_ok e" using win e by (simp add: windows_ok_def)
    then have status: "row_status (we_row e) = ''ACTIVE''" using active by (simp add: window_ok_def)
    have opened: "row_opened_at_unix_ms (we_row e) \<le> fin_finalized_at_unix_ms f"
      using valid clock by (auto simp: validate_finalization_for_window_def Let_def result_simps split: if_splits)
    have summary: "summary_shaped (fin_summary f)"
      using final_summary_shaped [OF valid rec(1,2) _ opened] w_ok by (simp add: window_ok_def)
    have pass: "fin_decision f = Pass \<Longrightarrow> sum_decision (fin_summary f) = DecisionPass \<and> sum_completeness (fin_summary f) = WindowComplete"
      using final_pass_complete [OF rec(2)] by blast
    let ?asm = "\<lparr>asm_window = row_id (we_row e), asm_ruleset_revision = row_qualification_revision (we_row e),
      asm_finalized_at = write_finalized_at w, asm_stored = write_stored w, asm_rules = write_rules w\<rparr>"
    let ?s0 = "s\<lparr>ds_assessments := ds_assessments s @ [?asm]\<rparr>"
    obtain rows where rows: "store_token j (we_row e) (write_token w) ?s0 = ?s0\<lparr>ds_tokens := rows\<rparr>" "tokens_ok j rows"
      "length rows = length (ds_tokens s)"
      "stage_count [''APPROVED''] rows = stage_count [''APPROVED''] (ds_tokens s) - write_approval_removed w"
      "stage_count [''QUALIFIED'', ''APPROVED''] rows = stage_count [''QUALIFIED'', ''APPROVED''] (ds_tokens s) + write_qualified_delta w"
      using store_token_rows [OF codec tokens commit read(2) summary pass, of ?s0] by auto
    let ?s1 = "upsert_decision_summaries (fin_decision f) (write_reasons w) (fin_finalized_at_unix_ms f)
      (set_finalized (row_id (we_row e)) (?s0\<lparr>ds_tokens := rows\<rparr>))"
    have s': "s' = append_projection_event ''QUALIFICATION_WINDOW_FINALIZED'' (advance (finalize_projection w) ?s1)"
      by (simp only: 2(3) apply_finalization_def rows(1) upsert_decision_parts(1))
    note done_window = finalized_windows [OF win e(1) refl status] and written = finalization_commitD [OF commit]
    have pos: "0 \<le> stage_count [''APPROVED''] (ds_tokens s) - write_approval_removed w"
      "0 \<le> stage_count [''QUALIFIED'', ''APPROVED''] (ds_tokens s) + write_qualified_delta w"
      using counts_nonneg(1) [of "[''APPROVED'']" rows] counts_nonneg(1) [of "[''QUALIFIED'', ''APPROVED'']" rows] rows(4,5) by simp_all
    show ?thesis
      unfolding s'
      using ok rows(2-5) done_window written(1-3) pos
      by (intro store_ok_publish [OF ok])
         (simp_all add: store_ok_def counters_ok_iff activity_ok_def unique_traders_of_def upsert_decision_parts set_finalized_def
           finalize_projection_def upsert_decision_ok)
  qed
qed (rule ok)

section \<open>Retention\<close>

lemma prune_ok:
  fixes s :: "('v, 'json) discovery_store"
  assumes ok: "store_ok j s"
  shows "store_ok j (snd (prune_terminal_observations before locked batch_size s))"
proof -
  define ids where "ids = select_ids (\<lambda>r. (chain_first_seen_at r, chain_id r)) (prunable before s) locked (unat batch_size) (ds_observations s)"
  have gone: "\<not> outstanding k" if k: "k \<in> set (ds_work s)" "wi_observation_id k \<in> set ids" for k
  proof -
    obtain r where "prunable before s r" "chain_id r = wi_observation_id k"
      using k(2) by (auto simp: ids_def select_ids_def dest!: in_set_takeD)
    with k(1) show ?thesis by (auto simp: prunable_def list_all_iff outstanding_def)
  qed
  have "filter outstanding (filter (\<lambda>k. wi_observation_id k \<notin> set ids) (ds_work s)) = filter outstanding (ds_work s)"
    using gone by (auto simp: filter_filter intro!: filter_cong)
  then have count: "work_count (filter (\<lambda>k. wi_observation_id k \<notin> set ids) (ds_work s)) = work_count (ds_work s)"
    by (simp add: work_count_def)
  have work: "work_ok (filter (\<lambda>k. wi_observation_id k \<notin> set ids) (ds_work s)) (ds_next_work_id s)"
    using ok by (auto simp: store_ok_def work_ok_def distinct_map_filter)
  have "str_mint \<circ> (\<lambda>t :: 'v stored_token_row. t\<lparr>str_source_work_id := g t\<rparr>) = str_mint" for g by (rule ext) simp
  then have tokens: "tokens_ok j (map (\<lambda>t. t\<lparr>str_source_work_id := g t\<rparr>) (ds_tokens s))" for g
    using ok by (auto simp: store_ok_def tokens_ok_def row_ok_def split: sum.splits)
  have "(\<lambda>e. row_id (we_row e)) \<circ> (\<lambda>e :: 'v window_entry. e\<lparr>we_opening_observation := g e\<rparr>) = (\<lambda>e. row_id (we_row e))" for g by (rule ext) simp
  then have windows: "windows_ok (map (\<lambda>e. e\<lparr>we_opening_observation := g e\<rparr>) (ds_windows s)) (ds_next_window_id s)" for g
    using ok by (auto simp: store_ok_def windows_ok_def window_ok_def)
  show ?thesis
    unfolding prune_terminal_observations_def Let_def snd_conv ids_def [symmetric] delete_observations_def
    using ok count work tokens windows
    by (simp add: store_ok_def counters_ok_iff activity_ok_def unique_traders_of_def stage_count_def open_count_def filter_map o_def)
qed

end
