(* ===== verification/Store_System.thy ===== *)
theory Store_System
  imports Store_Windows
begin

text \<open>
  The store as a state machine: every transaction of every client is a step, whatever its arguments,
  its clock and its outcome. The locale \<open>step_invariant\<close> carries an invariant along the steps; the
  store is an instance of it.
\<close>

section \<open>Steps\<close>

locale step_invariant =
  fixes initial :: "'s \<Rightarrow> bool" and step :: "'s \<Rightarrow> 's \<Rightarrow> bool" and I :: "'s \<Rightarrow> bool"
  assumes initial_kept: "initial s \<Longrightarrow> I s"
    and step_kept: "step s s' \<Longrightarrow> I s \<Longrightarrow> I s'"
begin

lemma kept_along: "step\<^sup>*\<^sup>* s s' \<Longrightarrow> I s \<Longrightarrow> I s'"
  by (induction rule: rtranclp_induct) (auto intro: step_kept)

lemma reachable_kept: "initial s \<Longrightarrow> step\<^sup>*\<^sup>* s s' \<Longrightarrow> I s'"
  by (blast intro: kept_along initial_kept)

end

text \<open>
  The parameters are the JSON encodings, the decoder of base64 and, as an argument of a step, the
  error of the database. A step that finalizes a window takes its time from a clock that has not gone
  back before the window was opened.
\<close>

inductive store_step ::
    "('x, 'v) window_json \<Rightarrow> ('x, 'v) settings_json \<Rightarrow> (string \<Rightarrow> ('b, u8 list) result)
      \<Rightarrow> ('v, 'json) discovery_store \<Rightarrow> ('v, 'json) discovery_store \<Rightarrow> bool"
  for j :: "('x, 'v) window_json" and enc :: "('x, 'v) settings_json" and b64 :: "string \<Rightarrow> ('b, u8 list) result" where
  step_insert: "store_step j enc b64 s (snd (insert_observation b64 now obs s :: ('x persistence_error, bool) result \<times> _))"
| step_open: "store_step j enc b64 s (snd (open_discovery_window enc b64 e now obs w s))"
| step_admit: "store_step j enc b64 s (snd (insert_window_observation b64 now wid obs s :: ('x persistence_error, bool) result \<times> _))"
| step_claim: "store_step j enc b64 s
    (snd (claim_observation_work now locked kind worker limit lease s :: ('x persistence_error, _) result \<times> _))"
| step_renew: "store_step j enc b64 s (snd (renew_observation_work_lease now wid worker lease s :: ('x persistence_error, _) result \<times> _))"
| step_complete: "store_step j enc b64 s (snd (complete_observation_work now wid worker s :: ('x persistence_error, unit) result \<times> _))"
| step_retry: "store_step j enc b64 s
    (snd (retry_or_fail_observation_work now wid worker error_code retry_after max_attempts s :: ('x persistence_error, _) result \<times> _))"
| step_observe: "store_step j enc b64 s (snd (commit_discovery_observation j e now wid worker c s))"
| step_reject: "store_step j enc b64 s (snd (commit_discovery_rejection now wid worker r s :: ('x persistence_error, unit) result \<times> _))"
| step_approve: "store_step j enc b64 s (snd (commit_discovery_approval j t source version s))"
| step_mode: "store_step j enc b64 s (snd (set_discovery_mode mode s))"
| step_flow: "store_step j enc b64 s (snd (set_discovery_flow_per_minute flow s :: ('x persistence_error, bool) result \<times> _))"
| step_rebuild: "store_step j enc b64 s (snd (rebuild_discovery_projection s :: ('x persistence_error, u64) result \<times> _))"
| step_finalize: "sum_opened_unix_ms (fin_summary f) \<le> fin_finalized_at_unix_ms f \<Longrightarrow>
    store_step j enc b64 s (snd (finalize_discovery_window_tx j f s))"
| step_prune: "store_step j enc b64 s (snd (prune_terminal_observations before locked batch_size s))"

text \<open>The tables after the migrations.\<close>

definition store_new :: "('v, 'json) discovery_store" where
  "store_new =
     \<lparr>ds_observations = [], ds_next_observation_id = 1, ds_work = [], ds_next_work_id = 1, ds_windows = [],
      ds_next_window_id = 1, ds_members = [], ds_assessments = [], ds_tokens = [],
      ds_state = \<lparr>ps_sequence = 1, ps_mode = ''QUALIFIED_ONLY'', ps_observed = 0, ps_queued_facts = 0, ps_qualified = 0,
        ps_qualification_pending = 0, ps_qualification_rejected = 0, ps_qualification_unknown = 0,
        ps_processing_failures = 0, ps_approved = 0, ps_flow_per_minute = None\<rparr>,
      ds_failures = [], ds_rejections = [], ds_unknowns = [], ds_activity = (\<lambda>_. None), ds_traders = [], ds_events = []\<rparr>"

lemma store_new_ok: "store_ok j store_new"
proof -
  have "activity_total_ok empty_activity 0"
    by (simp add: activity_total_ok_def empty_activity_def activity_fits_def i64_max_def)
  moreover have "\<exists>mode. ''QUALIFIED_ONLY'' = discovery_mode_name mode"
    by (rule exI [of _ QualifiedOnly]) simp
  ultimately show ?thesis
    by (simp add: store_ok_def store_new_def tokens_ok_def work_ok_def windows_ok_def events_ok_def activity_ok_def
        unique_traders_of_def settings_ok_def reasons_ok_def counters_ok_iff count_defs)
qed

interpretation store: step_invariant "\<lambda>s. token_codec j \<and> s = store_new" "store_step j enc b64" "\<lambda>s. token_codec j \<and> store_ok j s"
  for j :: "('x, 'v) window_json" and enc :: "('x, 'v) settings_json" and b64 :: "string \<Rightarrow> ('b, u8 list) result"
proof
  fix s :: "('v, 'json) discovery_store"
  assume "token_codec j \<and> s = store_new"
  then show "token_codec j \<and> store_ok j s" by (simp add: store_new_ok)
next
  fix s s' :: "('v, 'json) discovery_store"
  assume "store_step j enc b64 s s'" and ok: "token_codec j \<and> store_ok j s"
  then show "token_codec j \<and> store_ok j s'"
    by (induction rule: store_step.induct)
       (simp_all add: insert_observation_ok open_ok admit_ok claim_ok renew_ok complete_ok retry_ok observe_ok reject_ok approve_ok
         mode_ok flow_ok rebuild_ok finalize_ok prune_ok)
qed

definition reachable_store ::
    "('x, 'v) window_json \<Rightarrow> ('x, 'v) settings_json \<Rightarrow> (string \<Rightarrow> ('b, u8 list) result) \<Rightarrow> ('v, 'json) discovery_store \<Rightarrow> bool" where
  "reachable_store j enc b64 s \<longleftrightarrow> (store_step j enc b64)\<^sup>*\<^sup>* store_new s"

lemma reachable_ok: "token_codec j \<Longrightarrow> reachable_store j enc b64 s \<Longrightarrow> store_ok j s"
  using store.reachable_kept [of j store_new enc b64 s] by (simp add: reachable_store_def)

lemma reachable_step: "reachable_store j enc b64 s \<Longrightarrow> store_step j enc b64 s s' \<Longrightarrow> reachable_store j enc b64 s'"
  unfolding reachable_store_def by (rule rtranclp.rtrancl_into_rtrancl)

end
