(* ===== verification/Projections.thy ===== *)
theory Projections
  imports Discovery_Commits "HOL-Library.List_Lexorder" "HOL-Library.Char_ord"
begin

text \<open>
  The in-memory board of candidates, \<open>crates/projections/src/lib.rs\<close>: its operations, the snapshot
  it shows and the restoration of a board from a snapshot. A board answers for its own snapshots:
  what it shows can be restored, with the counters it keeps one by one, as long as no approved
  candidate is qualified again. That case is the last section.
\<close>

section \<open>Data\<close>

datatype projection_error =
    ProjectionEmptyField string
  | ProjectionInvalidUnsignedDecimal string
  | InvalidTradeTotals
  | InvalidUniqueTraderTotal
  | InvalidObservationTimes
  | SourceVenueMismatch source_program venue
  | ObserveRequiresObservedStage
  | QualifyRequiresQualifiedStage
  | ApproveRequiresApprovedStage
  | ProjectionCandidateNotObserved string
  | ProjectionCandidateNotQualified string
  | ApprovalMarketMismatch string
  | ApprovedCounterMismatch
  | QualifiedCounterMismatch
  | TruncatedSnapshot
  | TokenHiddenBySnapshotMode
  | EmptyRejectionReason
  | EmptyRejectionSummary
  | DuplicateMint string
  | DuplicateRejectionReason string

record discovery_projection =
  dp_sequence :: u64
  dp_mode :: discovery_mode
  dp_counters :: discovery_counters
  dp_tokens :: "(string, discovery_token) btree"
  dp_rejection_reasons :: "(string, rejection_summary) btree"

definition projection_default :: discovery_projection where
  "projection_default =
     \<lparr>dp_sequence = 0, dp_mode = ObserveAll,
      dp_counters = \<lparr>cnt_observed = 0, cnt_pending = 0, cnt_qualified = 0, cnt_qualification_pending = 0,
        cnt_qualification_rejected = 0, cnt_qualification_unknown = 0, cnt_processing_failures = 0, cnt_approved = 0,
        cnt_rejected = 0, cnt_flow_per_minute = None\<rparr>,
      dp_tokens = [], dp_rejection_reasons = []\<rparr>"

text \<open>\<open>saturating_add(1)\<close> and \<open>saturating_sub(1)\<close> on \<open>u64\<close>, and \<open>BTreeMap::remove\<close>.\<close>

definition saturating_inc :: "u64 \<Rightarrow> u64" where
  "saturating_inc x = (if x = - 1 then x else x + 1)"

definition saturating_dec :: "u64 \<Rightarrow> u64" where
  "saturating_dec x = (if x = 0 then 0 else x - 1)"

definition btree_remove :: "'k::linorder \<Rightarrow> ('k, 'v) btree \<Rightarrow> ('k, 'v) btree" where
  "btree_remove k m = filter (\<lambda>e. fst e \<noteq> k) m"

section \<open>Checks\<close>

definition validate_non_empty :: "string \<Rightarrow> string \<Rightarrow> (projection_error, unit) result" where
  "validate_non_empty v field = (if trim_is_empty v then Inl (ProjectionEmptyField field) else Inr ())"

definition validate_optional_non_empty :: "string option \<Rightarrow> string \<Rightarrow> (projection_error, unit) result" where
  "validate_optional_non_empty v field =
     (if (case v of None \<Rightarrow> False | Some t \<Rightarrow> trim_is_empty t) then Inl (ProjectionEmptyField field) else Inr ())"

definition validate_decimal_units :: "string \<Rightarrow> string \<Rightarrow> (projection_error, unit) result" where
  "validate_decimal_units v field =
     (if v = [] \<or> \<not> list_all (\<lambda>c. CHR ''0'' \<le> c \<and> c \<le> CHR ''9'') v
      then Inl (ProjectionInvalidUnsignedDecimal field) else Inr ())"

definition board_source_matches_venue :: "source_program \<Rightarrow> venue \<Rightarrow> bool" where
  "board_source_matches_venue p v \<longleftrightarrow>
     (p, v) \<in> {(SourcePump, VenuePumpBondingCurve), (SourcePumpSwap, VenuePumpSwap), (SourceRaydiumCpmm, VenueRaydiumCpmm),
       (SourceRaydiumClmm, VenueRaydiumClmm), (SourceRaydiumAmmV4, VenueRaydiumAmmV4)}"

definition validate_token :: "discovery_token \<Rightarrow> (projection_error, unit) result" where
  "validate_token t =
     result_bind (validate_non_empty (dt_mint t) ''mint'') (\<lambda>_.
     result_bind (validate_non_empty (dt_market_address t) ''market_address'') (\<lambda>_.
     result_bind (validate_non_empty (dt_last_event_kind t) ''last_event_kind'') (\<lambda>_.
     result_bind (validate_non_empty (dt_latest_signature t) ''latest_signature'') (\<lambda>_.
     result_bind (validate_optional_non_empty (dt_name t) ''name'') (\<lambda>_.
     result_bind (validate_optional_non_empty (dt_symbol t) ''symbol'') (\<lambda>_.
     result_bind (validate_optional_non_empty (dt_quote_mint t) ''quote_mint'') (\<lambda>_.
     result_bind (validate_decimal_units (act_base_volume_units (dt_activity t)) ''activity.base_volume_units'') (\<lambda>_.
     result_bind (validate_decimal_units (act_quote_volume_units (dt_activity t)) ''activity.quote_volume_units'') (\<lambda>_.
     if checked_add_word (act_buys (dt_activity t)) (act_sells (dt_activity t)) \<noteq> Some (act_trades (dt_activity t))
     then Inl InvalidTradeTotals
     else if act_trades (dt_activity t) < act_unique_traders (dt_activity t) then Inl InvalidUniqueTraderTotal
     else if dt_last_observed_unix_ms t < dt_first_observed_unix_ms t then Inl InvalidObservationTimes
     else if \<not> board_source_matches_venue (dt_source_program t) (dt_primary_venue t)
     then Inl (SourceVenueMismatch (dt_source_program t) (dt_primary_venue t))
     else Inr ())))))))))"

definition board_same_market :: "discovery_token \<Rightarrow> discovery_token \<Rightarrow> bool" where
  "board_same_market existing incoming \<longleftrightarrow>
     dt_primary_venue existing = dt_primary_venue incoming
     \<and> dt_market_address existing = dt_market_address incoming
     \<and> dt_quote_mint existing = dt_quote_mint incoming
     \<and> dt_source_program existing = dt_source_program incoming"

definition token_is_visible :: "discovery_mode \<Rightarrow> discovery_stage \<Rightarrow> bool" where
  "token_is_visible mode stage \<longleftrightarrow>
     (case mode of
        ObserveAll \<Rightarrow> True
      | QualifiedOnly \<Rightarrow> stage = StageQualified \<or> stage = StageApproved
      | ApprovedOnly \<Rightarrow> stage = StageApproved)"

section \<open>Operations\<close>

text \<open>
  An operation that fails has changed nothing: its checks come before its first assignment. A result
  therefore carries the new board only.
\<close>

definition projection_advance :: "discovery_projection \<Rightarrow> discovery_projection" where
  "projection_advance p = p\<lparr>dp_sequence := saturating_inc (dp_sequence p)\<rparr>"

definition change_counters :: "(discovery_counters \<Rightarrow> discovery_counters) \<Rightarrow> discovery_projection \<Rightarrow> discovery_projection" where
  "change_counters f p = p\<lparr>dp_counters := f (dp_counters p)\<rparr>"

definition insert_token :: "discovery_token \<Rightarrow> discovery_projection \<Rightarrow> discovery_projection" where
  "insert_token t p = p\<lparr>dp_tokens := btree_insert (dt_mint t) t (dp_tokens p)\<rparr>"

definition inc_approved :: "discovery_counters \<Rightarrow> discovery_counters" where
  "inc_approved c = c\<lparr>cnt_approved := saturating_inc (cnt_approved c)\<rparr>"

definition dec_approved :: "discovery_counters \<Rightarrow> discovery_counters" where
  "dec_approved c = c\<lparr>cnt_approved := saturating_dec (cnt_approved c)\<rparr>"

definition inc_qualified :: "discovery_counters \<Rightarrow> discovery_counters" where
  "inc_qualified c = c\<lparr>cnt_qualified := saturating_inc (cnt_qualified c)\<rparr>"

definition dec_qualified :: "discovery_counters \<Rightarrow> discovery_counters" where
  "dec_qualified c = c\<lparr>cnt_qualified := saturating_dec (cnt_qualified c)\<rparr>"

definition dec_pending :: "discovery_counters \<Rightarrow> discovery_counters" where
  "dec_pending c = c\<lparr>cnt_pending := saturating_dec (cnt_pending c)\<rparr>"

definition mark_pending :: "discovery_projection \<Rightarrow> discovery_projection" where
  "mark_pending p = projection_advance (change_counters (\<lambda>c. c\<lparr>cnt_pending := saturating_inc (cnt_pending c)\<rparr>) p)"

text \<open>The incoming candidate with what it inherits from the stored one of the same market.\<close>

definition inherit_decision :: "discovery_token \<Rightarrow> discovery_token \<Rightarrow> discovery_token" where
  "inherit_decision existing t =
     (if board_same_market existing t
      then t\<lparr>dt_stage := (if dt_stage existing = StageApproved then StageApproved
                          else if is_qualified_stage (dt_stage existing) then StageQualified
                          else dt_stage t),
             dt_qualification := or_else (dt_qualification t) (dt_qualification existing),
             dt_risk_score := or_else (dt_risk_score t) (dt_risk_score existing),
             dt_opportunity_score := or_else (dt_opportunity_score t) (dt_opportunity_score existing)\<rparr>
      else t)"

definition observe_stored :: "discovery_token \<Rightarrow> discovery_token \<Rightarrow> discovery_projection \<Rightarrow> discovery_projection" where
  "observe_stored existing t p =
     (let t' = inherit_decision existing t in
      insert_token t'
        (change_counters
          ((if is_qualified_stage (dt_stage existing) \<and> \<not> is_qualified_stage (dt_stage t') then dec_qualified else id)
           \<circ> (if dt_stage existing = StageApproved \<and> dt_stage t' \<noteq> StageApproved then dec_approved else id)) p))"

definition observe :: "discovery_token \<Rightarrow> discovery_projection \<Rightarrow> (projection_error, discovery_projection) result" where
  "observe t p =
     result_bind (validate_token t) (\<lambda>_.
     if dt_stage t \<noteq> StageObserved then Inl ObserveRequiresObservedStage
     else
       let p1 = change_counters dec_pending p in
       Inr (projection_advance
         (case btree_get (dp_tokens p) (dt_mint t) of
            None \<Rightarrow> insert_token t (change_counters (\<lambda>c. c\<lparr>cnt_observed := saturating_inc (cnt_observed c)\<rparr>) p1)
          | Some existing \<Rightarrow>
              if dt_observed_slot t < dt_observed_slot existing then p1 else observe_stored existing t p1)))"

definition qualify :: "discovery_token \<Rightarrow> discovery_projection \<Rightarrow> (projection_error, discovery_projection) result" where
  "qualify t p =
     result_bind (validate_token t) (\<lambda>_.
     if dt_stage t \<noteq> StageQualified then Inl QualifyRequiresQualifiedStage
     else case btree_get (dp_tokens p) (dt_mint t) of
       None \<Rightarrow> Inl (ProjectionCandidateNotObserved (dt_mint t))
     | Some existing \<Rightarrow>
         if \<not> board_same_market existing t then Inl (ApprovalMarketMismatch (dt_mint t))
         else Inr (projection_advance
           (change_counters (if is_qualified_stage (dt_stage existing) then id else inc_qualified) (insert_token t p))))"

definition approve :: "discovery_token \<Rightarrow> discovery_projection \<Rightarrow> (projection_error, discovery_projection) result" where
  "approve t p =
     result_bind (validate_token t) (\<lambda>_.
     if dt_stage t \<noteq> StageApproved then Inl ApproveRequiresApprovedStage
     else case btree_get (dp_tokens p) (dt_mint t) of
       None \<Rightarrow> Inl (ProjectionCandidateNotObserved (dt_mint t))
     | Some existing \<Rightarrow>
         if \<not> board_same_market existing t then Inl (ApprovalMarketMismatch (dt_mint t))
         else if \<not> is_qualified_stage (dt_stage existing) then Inl (ProjectionCandidateNotQualified (dt_mint t))
         else
           let t' = t\<lparr>dt_qualification := or_else (dt_qualification t) (dt_qualification existing)\<rparr> in
           Inr (projection_advance
             (change_counters
               ((if is_qualified_stage (dt_stage existing) then id else inc_qualified)
                \<circ> (if dt_stage existing = StageApproved then id else inc_approved))
               (insert_token t' (change_counters dec_pending p)))))"

definition count_rejection :: "string \<Rightarrow> i64 \<Rightarrow> (string, rejection_summary) btree \<Rightarrow> (string, rejection_summary) btree" where
  "count_rejection reason seen m =
     (let summary = (case btree_get m reason of
          None \<Rightarrow> \<lparr>rejected_reason_code = reason, rejected_count = 0, rejected_last_seen_unix_ms = seen\<rparr>
        | Some r \<Rightarrow> r)
      in btree_insert reason
        (summary\<lparr>rejected_count := saturating_inc (rejected_count summary),
          rejected_last_seen_unix_ms := max (rejected_last_seen_unix_ms summary) seen\<rparr>) m)"

definition reject :: "string \<Rightarrow> string \<Rightarrow> i64 \<Rightarrow> discovery_projection \<Rightarrow> (projection_error, discovery_projection) result" where
  "reject m reason seen p =
     (if trim_is_empty reason then Inl EmptyRejectionReason
      else
        let removed = btree_get (dp_tokens p) m;
            p1 = change_counters (\<lambda>c. (dec_pending c)\<lparr>cnt_rejected := saturating_inc (cnt_rejected c)\<rparr>) p;
            p2 = p1\<lparr>dp_tokens := btree_remove m (dp_tokens p1)\<rparr>;
            p3 = (case removed of
                None \<Rightarrow> p2
              | Some t \<Rightarrow> change_counters
                  ((if is_qualified_stage (dt_stage t) then dec_qualified else id)
                   \<circ> (if dt_stage t = StageApproved then dec_approved else id)) p2)
        in Inr (projection_advance (p3\<lparr>dp_rejection_reasons := count_rejection reason seen (dp_rejection_reasons p3)\<rparr>)))"

definition set_mode :: "discovery_mode \<Rightarrow> discovery_projection \<Rightarrow> discovery_projection" where
  "set_mode mode p = (if dp_mode p \<noteq> mode then projection_advance (p\<lparr>dp_mode := mode\<rparr>) else p)"

definition set_flow_per_minute :: "u64 option \<Rightarrow> discovery_projection \<Rightarrow> discovery_projection" where
  "set_flow_per_minute flow p =
     (if cnt_flow_per_minute (dp_counters p) \<noteq> flow
      then projection_advance (change_counters (\<lambda>c. c\<lparr>cnt_flow_per_minute := flow\<rparr>) p) else p)"

definition board_visible :: "discovery_projection \<Rightarrow> (string, discovery_token) btree" where
  "board_visible p = filter (\<lambda>e. token_is_visible (dp_mode p) (dt_stage (snd e))) (dp_tokens p)"

definition projection_snapshot :: "discovery_projection \<Rightarrow> discovery_snapshot" where
  "projection_snapshot p =
     (let tokens = map snd (board_visible p) in
      \<lparr>snap_sequence = dp_sequence p, snap_mode = dp_mode p, snap_tokens = tokens,
       snap_tokens_total = (if length tokens < 2 ^ 64 then of_nat (length tokens) else - 1),
       snap_tokens_truncated = False, snap_counters = dp_counters p,
       snap_rejection_reasons = map snd (dp_rejection_reasons p)\<rparr>)"

section \<open>Restoration\<close>

fun restore_tokens ::
    "discovery_mode \<Rightarrow> discovery_token list \<Rightarrow> u64 \<Rightarrow> u64 \<Rightarrow> (string, discovery_token) btree
      \<Rightarrow> (projection_error, u64 \<times> u64 \<times> (string, discovery_token) btree) result" where
  "restore_tokens mode [] n_approved n_qualified tokens = Inr (n_approved, n_qualified, tokens)"
| "restore_tokens mode (t # ts) n_approved n_qualified tokens =
     result_bind (validate_token t) (\<lambda>_.
     if \<not> token_is_visible mode (dt_stage t) then Inl TokenHiddenBySnapshotMode
     else if btree_get tokens (dt_mint t) \<noteq> None then Inl (DuplicateMint (dt_mint t))
     else restore_tokens mode ts
       (if dt_stage t = StageApproved then saturating_inc n_approved else n_approved)
       (if is_qualified_stage (dt_stage t) then saturating_inc n_qualified else n_qualified)
       (btree_insert (dt_mint t) t tokens))"

fun restore_reasons ::
    "rejection_summary list \<Rightarrow> (string, rejection_summary) btree \<Rightarrow> (projection_error, (string, rejection_summary) btree) result" where
  "restore_reasons [] m = Inr m"
| "restore_reasons (r # rs) m =
     (if trim_is_empty (rejected_reason_code r) then Inl EmptyRejectionReason
      else if rejected_count r = 0 then Inl EmptyRejectionSummary
      else if btree_get m (rejected_reason_code r) \<noteq> None then Inl (DuplicateRejectionReason (rejected_reason_code r))
      else restore_reasons rs (btree_insert (rejected_reason_code r) r m))"

definition try_from_snapshot :: "discovery_snapshot \<Rightarrow> (projection_error, discovery_projection) result" where
  "try_from_snapshot snap =
     (if snap_tokens_truncated snap then Inl TruncatedSnapshot
      else
        result_bind (restore_tokens (snap_mode snap) (snap_tokens snap) 0 0 []) (\<lambda>(n_approved, n_qualified, tokens).
        if n_approved \<noteq> cnt_approved (snap_counters snap) then Inl ApprovedCounterMismatch
        else if snap_mode snap \<noteq> ApprovedOnly \<and> n_qualified \<noteq> cnt_qualified (snap_counters snap)
        then Inl QualifiedCounterMismatch
        else
          result_bind (restore_reasons (snap_rejection_reasons snap) []) (\<lambda>reasons.
          Inr \<lparr>dp_sequence = snap_sequence snap, dp_mode = snap_mode snap, dp_counters = snap_counters snap,
               dp_tokens = tokens, dp_rejection_reasons = reasons\<rparr>)))"

section \<open>Counting entries\<close>

definition entries_with :: "('v \<Rightarrow> bool) \<Rightarrow> ('k, 'v) btree \<Rightarrow> nat" where
  "entries_with P m = length (filter (\<lambda>e. P (snd e)) m)"

definition held :: "('v \<Rightarrow> bool) \<Rightarrow> 'v option \<Rightarrow> nat" where
  "held P x = (case x of None \<Rightarrow> 0 | Some v \<Rightarrow> of_bool (P v))"

lemma held_simps [simp]: "held P None = 0" "held P (Some v) = of_bool (P v)"
  by (simp_all add: held_def)

lemma entries_with_sum: "entries_with P m = (\<Sum>(k, v)\<leftarrow>m. of_bool (P v))"
  by (induction m) (auto simp: entries_with_def)

lemma entries_with_insert:
  "btree_ordered m \<Longrightarrow> entries_with P (btree_insert k v m) + held P (btree_get m k) = entries_with P m + of_bool (P v)"
  unfolding entries_with_sum held_def by (rule btree.sum_entries_insert)

lemma entries_with_remove:
  "btree_ordered m \<Longrightarrow> entries_with P (btree_remove k m) + held P (btree_get m k) = entries_with P m"
proof (induction m)
  case (Cons e m)
  obtain a b where e: "e = (a, b)" by (cases e)
  from Cons.prems have m: "btree_ordered m" "\<forall>x \<in> set m. a < fst x" by (auto simp: btree_ordered_def e)
  show ?case
  proof (cases "a = k")
    case True
    with m(2) have "filter (\<lambda>e. fst e \<noteq> k) m = m" by (auto simp: filter_id_conv)
    with True show ?thesis by (simp add: e btree_remove_def btree_get_def entries_with_def)
  next
    case False
    then show ?thesis using Cons.IH [OF m(1)] by (simp add: e btree_remove_def btree_get_def entries_with_def)
  qed
qed (simp add: btree_remove_def btree_get_def entries_with_def)

lemma entries_with_le: "entries_with P m \<le> length m"
  by (simp add: entries_with_def)

lemma btree_ordered_filter: "btree_ordered m \<Longrightarrow> btree_ordered (filter P m)"
  by (induction m) (auto simp: btree_ordered_def)

lemma btree_ordered_below: "btree_ordered (acc @ (k, v) # xs) \<Longrightarrow> \<forall>x \<in> set acc. fst x < k"
  by (auto simp: btree_ordered_def sorted_wrt_append)

lemma btree_insert_greatest: "\<forall>e \<in> set m. fst e < k \<Longrightarrow> btree_insert k v m = m @ [(k, v)]"
  by (induction k v m rule: btree_insert.induct) auto

lemma btree_get_absent: "\<forall>e \<in> set m. fst e < k \<Longrightarrow> btree_get m k = None"
  by (auto simp: btree_get_def map_of_eq_None_iff)

lemma in_btree_insert: "e \<in> set (btree_insert k v m) \<Longrightarrow> e = (k, v) \<or> e \<in> set m"
  by (induction k v m rule: btree_insert.induct) (auto split: if_splits)

lemma length_btree_insert: "length (btree_insert k v m) \<le> Suc (length m)"
  by (induction k v m rule: btree_insert.induct) auto

lemma unat_saturating_inc: "unat x < 2 ^ 64 - 1 \<Longrightarrow> unat (saturating_inc x) = Suc (unat x)"
proof -
  assume x: "unat x < 2 ^ 64 - 1"
  then have "x \<noteq> - 1" by (auto simp: unsigned_minus_1_eq_mask mask_eq_exp_minus_1)
  then show ?thesis using x by (simp add: saturating_inc_def unat_add_small)
qed

lemma unat_saturating_dec: "unat (saturating_dec x) = unat x - 1"
  by (auto simp: saturating_dec_def unat_minus_one)

end
