(* ===== verification/Projections_Correct.thy ===== *)
theory Projections_Correct
  imports Projections
begin

text \<open>
  The counters of the board and the round trip through a snapshot: the invariant of the board, that
  every operation keeps it, and that the snapshot of a board restores the board.
\<close>

section \<open>The invariant of the board\<close>

definition approved_token :: "discovery_token \<Rightarrow> bool" where
  "approved_token t \<longleftrightarrow> dt_stage t = StageApproved"

definition qualified_token :: "discovery_token \<Rightarrow> bool" where
  "qualified_token t \<longleftrightarrow> is_qualified_stage (dt_stage t)"

lemmas stage_defs = approved_token_def qualified_token_def is_qualified_stage_def

definition tokens_filed :: "(string, discovery_token) btree \<Rightarrow> bool" where
  "tokens_filed m \<longleftrightarrow> btree_ordered m \<and> (\<forall>e \<in> set m. fst e = dt_mint (snd e) \<and> validate_token (snd e) = Inr ())"

definition reasons_filed :: "(string, rejection_summary) btree \<Rightarrow> bool" where
  "reasons_filed m \<longleftrightarrow>
     btree_ordered m
     \<and> (\<forall>e \<in> set m. fst e = rejected_reason_code (snd e) \<and> \<not> trim_is_empty (fst e) \<and> rejected_count (snd e) \<noteq> 0)"

definition tally_exact :: "discovery_counters \<Rightarrow> (string, discovery_token) btree \<Rightarrow> bool" where
  "tally_exact c m \<longleftrightarrow>
     unat (cnt_approved c) = entries_with approved_token m \<and> unat (cnt_qualified c) = entries_with qualified_token m"

definition board_ok :: "nat \<Rightarrow> discovery_projection \<Rightarrow> bool" where
  "board_ok n p \<longleftrightarrow>
     tokens_filed (dp_tokens p) \<and> reasons_filed (dp_rejection_reasons p) \<and> tally_exact (dp_counters p) (dp_tokens p)
     \<and> length (dp_tokens p) \<le> n"

lemma tokens_filed_insert:
  "tokens_filed m \<Longrightarrow> validate_token t = Inr () \<Longrightarrow> tokens_filed (btree_insert (dt_mint t) t m)"
  by (auto simp: tokens_filed_def dest!: in_btree_insert)

lemma tokens_filed_filter: "tokens_filed m \<Longrightarrow> tokens_filed (filter P m)"
  by (simp add: tokens_filed_def btree_ordered_filter)

lemma reasons_filed_count:
  assumes "reasons_filed m" and "\<not> trim_is_empty reason"
  shows "reasons_filed (count_rejection reason seen m)"
proof -
  have stored: "rejected_reason_code r = reason" if "btree_get m reason = Some r" for r
    using that assms(1) by (auto simp: reasons_filed_def btree_get_def dest!: map_of_SomeD)
  have "saturating_inc x \<noteq> 0" for x
    by (auto simp: saturating_inc_def) (metis add.commute add_eq_0_iff)
  then show ?thesis
    using assms stored by (auto simp: count_rejection_def Let_def reasons_filed_def dest!: in_btree_insert split: option.splits)
qed

text \<open>A candidate is filed, and the counters change by what it brings and what it replaces.\<close>

lemma tally_insert:
  assumes "btree_ordered m" and "tally_exact c m"
    and "unat (cnt_approved c') + held approved_token (btree_get m k) = unat (cnt_approved c) + of_bool (approved_token t)"
    and "unat (cnt_qualified c') + held qualified_token (btree_get m k) = unat (cnt_qualified c) + of_bool (qualified_token t)"
  shows "tally_exact c' (btree_insert k t m)"
  using assms(2-4) entries_with_insert [OF assms(1), of approved_token k t] entries_with_insert [OF assms(1), of qualified_token k t]
  by (simp add: tally_exact_def)

lemma tally_remove:
  assumes "btree_ordered m" and "tally_exact c m"
    and "unat (cnt_approved c') + held approved_token (btree_get m k) = unat (cnt_approved c)"
    and "unat (cnt_qualified c') + held qualified_token (btree_get m k) = unat (cnt_qualified c)"
  shows "tally_exact c' (btree_remove k m)"
  using assms(2-4) entries_with_remove [OF assms(1), of approved_token k] entries_with_remove [OF assms(1), of qualified_token k]
  by (simp add: tally_exact_def)

lemma tally_held:
  assumes "btree_ordered m" and "tally_exact c m"
  shows "held approved_token (btree_get m k) \<le> unat (cnt_approved c)"
    and "held qualified_token (btree_get m k) \<le> unat (cnt_qualified c)"
  using assms(2) entries_with_remove [OF assms(1), of approved_token k] entries_with_remove [OF assms(1), of qualified_token k]
  by (simp_all add: tally_exact_def)

lemma tally_small:
  assumes "board_ok n p" and "n < 2 ^ 64 - 1"
  shows "unat (cnt_approved (dp_counters p)) < 2 ^ 64 - 1" and "unat (cnt_qualified (dp_counters p)) < 2 ^ 64 - 1"
  using assms entries_with_le [of approved_token "dp_tokens p"] entries_with_le [of qualified_token "dp_tokens p"]
  by (simp_all add: board_ok_def tally_exact_def)

lemma board_insert:
  assumes "board_ok n p" and "validate_token t = Inr ()"
    and "dp_tokens p' = btree_insert (dt_mint t) t (dp_tokens p)" and "dp_rejection_reasons p' = dp_rejection_reasons p"
    and "unat (cnt_approved (dp_counters p')) + held approved_token (btree_get (dp_tokens p) (dt_mint t))
      = unat (cnt_approved (dp_counters p)) + of_bool (approved_token t)"
    and "unat (cnt_qualified (dp_counters p')) + held qualified_token (btree_get (dp_tokens p) (dt_mint t))
      = unat (cnt_qualified (dp_counters p)) + of_bool (qualified_token t)"
  shows "board_ok (Suc n) p'"
proof -
  have "btree_ordered (dp_tokens p)" using assms(1) by (simp add: board_ok_def tokens_filed_def)
  then show ?thesis
    using assms tally_insert [OF _ _ assms(5,6)] length_btree_insert [of "dt_mint t" t "dp_tokens p"]
      tokens_filed_insert [of "dp_tokens p" t]
    by (simp add: board_ok_def)
qed

lemmas board_defs = projection_advance_def change_counters_def insert_token_def inc_approved_def dec_approved_def
  inc_qualified_def dec_qualified_def dec_pending_def

section \<open>The operations keep it\<close>

lemma validate_token_frame [simp]:
  "validate_token (t\<lparr>dt_stage := s, dt_qualification := q, dt_risk_score := r, dt_opportunity_score := op\<rparr>) = validate_token t"
  "validate_token (t\<lparr>dt_qualification := q\<rparr>) = validate_token t"
  by (simp_all add: validate_token_def)

lemma inherit_valid [simp]: "validate_token (inherit_decision e t) = validate_token t"
  "dt_mint (inherit_decision e t) = dt_mint t"
  by (simp_all add: inherit_decision_def)

lemma observe_keeps:
  assumes "board_ok n p" and "n < 2 ^ 64 - 1" and "observe t p = Inr p'"
  shows "board_ok (Suc n) p'"
proof -
  from assms(3) have t: "validate_token t = Inr ()" "dt_stage t = StageObserved"
    by (auto simp: observe_def result_simps split: if_splits)
  have filed: "btree_ordered (dp_tokens p)" "tally_exact (dp_counters p) (dp_tokens p)"
    using assms(1) by (simp_all add: board_ok_def tokens_filed_def)
  show ?thesis
  proof (cases "btree_get (dp_tokens p) (dt_mint t)")
    case None
    then show ?thesis
      using assms(3) t by (intro board_insert [OF assms(1) t(1)]) (auto simp: observe_def Let_def board_defs stage_defs)
  next
    case (Some existing)
    show ?thesis
    proof (cases "dt_observed_slot t < dt_observed_slot existing")
      case True
      with Some assms(1,3) t show ?thesis by (auto simp: observe_def Let_def board_defs board_ok_def tally_exact_def)
    next
      case False
      let ?t = "inherit_decision existing t"
      have p': "p' = projection_advance (observe_stored existing t (change_counters dec_pending p))"
        using assms(3) t Some False by (simp add: observe_def Let_def)
      have a: "approved_token ?t \<longrightarrow> approved_token existing" "qualified_token ?t \<longrightarrow> qualified_token existing"
        "approved_token ?t \<longrightarrow> qualified_token ?t" "approved_token existing \<longrightarrow> qualified_token existing"
        using t(2) by (auto simp: inherit_decision_def stage_defs split: if_splits)
      show ?thesis
        using a Some tally_held [OF filed, of "dt_mint t"]
        by (intro board_insert [OF assms(1), of ?t])
           (auto simp: p' observe_stored_def Let_def board_defs t(1) unat_saturating_dec
             approved_token_def [symmetric] qualified_token_def [symmetric])
    qed
  qed
qed

lemma qualify_keeps:
  assumes "board_ok n p" and "n < 2 ^ 64 - 1" and "qualify t p = Inr p'"
    and "held approved_token (btree_get (dp_tokens p) (dt_mint t)) = 0"
  shows "board_ok (Suc n) p'"
proof -
  from assms(3) obtain existing where t: "validate_token t = Inr ()" "dt_stage t = StageQualified"
    and existing: "btree_get (dp_tokens p) (dt_mint t) = Some existing"
    and p': "p' = projection_advance
      (change_counters (if is_qualified_stage (dt_stage existing) then id else inc_qualified) (insert_token t p))"
    by (auto simp: qualify_def result_simps split: if_splits option.splits)
  show ?thesis
    using assms(4) existing t(2) unat_saturating_inc [OF tally_small(2) [OF assms(1,2)]]
    by (intro board_insert [OF assms(1) t(1)]) (auto simp: p' board_defs stage_defs)
qed

lemma approve_keeps:
  assumes "board_ok n p" and "n < 2 ^ 64 - 1" and "approve t p = Inr p'"
  shows "board_ok (Suc n) p'"
proof -
  from assms(3) obtain existing where t: "validate_token t = Inr ()" "dt_stage t = StageApproved"
    and existing: "btree_get (dp_tokens p) (dt_mint t) = Some existing" "is_qualified_stage (dt_stage existing)"
    and p': "p' = projection_advance (change_counters (if dt_stage existing = StageApproved then id else inc_approved)
      (insert_token (t\<lparr>dt_qualification := or_else (dt_qualification t) (dt_qualification existing)\<rparr>) (change_counters dec_pending p)))"
    by (auto simp: approve_def result_simps Let_def split: if_splits option.splits)
  show ?thesis
    using existing t unat_saturating_inc [OF tally_small(1) [OF assms(1,2)]]
    by (intro board_insert [OF assms(1), of "t\<lparr>dt_qualification := or_else (dt_qualification t) (dt_qualification existing)\<rparr>"])
       (auto simp: p' board_defs stage_defs)
qed

lemma reject_keeps:
  assumes "board_ok n p" and "reject m reason seen p = Inr p'"
  shows "board_ok (Suc n) p'"
proof -
  let ?c = "dp_counters p'"
  have reason: "\<not> trim_is_empty reason" using assms(2) by (auto simp: reject_def split: if_splits)
  have filed: "btree_ordered (dp_tokens p)" "tally_exact (dp_counters p) (dp_tokens p)"
    using assms(1) by (simp_all add: board_ok_def tokens_filed_def)
  have p': "dp_tokens p' = btree_remove m (dp_tokens p)"
    "dp_rejection_reasons p' = count_rejection reason seen (dp_rejection_reasons p)"
    "unat (cnt_approved ?c) = unat (cnt_approved (dp_counters p)) - held approved_token (btree_get (dp_tokens p) m)"
    "unat (cnt_qualified ?c) = unat (cnt_qualified (dp_counters p)) - held qualified_token (btree_get (dp_tokens p) m)"
    using assms(2)
    by (auto simp: reject_def Let_def board_defs unat_saturating_dec stage_defs split: if_splits option.splits)
  have "tally_exact ?c (btree_remove m (dp_tokens p))"
    using tally_held [OF filed, of m] by (intro tally_remove [OF filed]) (simp_all add: p')
  then show ?thesis
    using assms(1) reasons_filed_count [OF _ reason]
    by (auto simp: board_ok_def p' btree_remove_def tokens_filed_filter intro: le_SucI order_trans [OF length_filter_le])
qed

section \<open>Runs\<close>

text \<open>
  A board after \<open>n\<close> operations, from the empty one. Qualifying is restricted to candidates that are
  not approved.
\<close>

inductive projection_run :: "nat \<Rightarrow> discovery_projection \<Rightarrow> bool" where
  run_default: "projection_run 0 projection_default"
| run_pending: "projection_run n p \<Longrightarrow> projection_run (Suc n) (mark_pending p)"
| run_observe: "projection_run n p \<Longrightarrow> observe t p = Inr p' \<Longrightarrow> projection_run (Suc n) p'"
| run_qualify: "projection_run n p \<Longrightarrow> qualify t p = Inr p'
    \<Longrightarrow> held approved_token (btree_get (dp_tokens p) (dt_mint t)) = 0 \<Longrightarrow> projection_run (Suc n) p'"
| run_approve: "projection_run n p \<Longrightarrow> approve t p = Inr p' \<Longrightarrow> projection_run (Suc n) p'"
| run_reject: "projection_run n p \<Longrightarrow> reject m reason seen p = Inr p' \<Longrightarrow> projection_run (Suc n) p'"
| run_mode: "projection_run n p \<Longrightarrow> projection_run (Suc n) (set_mode mode p)"
| run_flow: "projection_run n p \<Longrightarrow> projection_run (Suc n) (set_flow_per_minute flow p)"

lemma projection_run_ok: "projection_run n p \<Longrightarrow> n < 2 ^ 64 \<Longrightarrow> board_ok n p"
proof (induction rule: projection_run.induct)
  case run_default
  then show ?case
    by (simp add: projection_default_def board_ok_def tokens_filed_def reasons_filed_def tally_exact_def entries_with_def)
next
  case (run_observe n p t p')
  then show ?case by (intro observe_keeps [of n p t]) simp_all
next
  case (run_qualify n p t p')
  then show ?case by (intro qualify_keeps [of n p t]) simp_all
next
  case (run_approve n p t p')
  then show ?case by (intro approve_keeps [of n p t]) simp_all
next
  case (run_reject n p m reason seen p')
  then show ?case by (intro reject_keeps [of n p m reason seen]) simp_all
qed (auto simp: mark_pending_def set_mode_def set_flow_per_minute_def board_defs board_ok_def tally_exact_def)

section \<open>Restoring a board\<close>

lemma restore_tokens_filed:
  assumes "tokens_filed (acc @ xs)" and "\<forall>e \<in> set xs. token_is_visible mode (dt_stage (snd e))"
    and "unat a + length xs < 2 ^ 64" and "unat q + length xs < 2 ^ 64"
  shows "\<exists>a' q'. restore_tokens mode (map snd xs) a q acc = Inr (a', q', acc @ xs)
    \<and> unat a' = unat a + entries_with approved_token xs \<and> unat q' = unat q + entries_with qualified_token xs"
  using assms
proof (induction xs arbitrary: a q acc)
  case Nil
  then show ?case by (simp add: entries_with_def)
next
  case (Cons e xs)
  obtain t where e: "e = (dt_mint t, t)" and t: "validate_token t = Inr ()" "token_is_visible mode (dt_stage t)"
    using Cons.prems(1,2) by (cases e) (auto simp: tokens_filed_def)
  have below: "\<forall>x \<in> set acc. fst x < dt_mint t"
    using Cons.prems(1) unfolding tokens_filed_def e by (intro btree_ordered_below) (rule conjunct1)
  let ?a = "if dt_stage t = StageApproved then saturating_inc a else a"
  let ?q = "if is_qualified_stage (dt_stage t) then saturating_inc q else q"
  have inc: "unat ?a = unat a + of_bool (approved_token t)" "unat ?q = unat q + of_bool (qualified_token t)"
    using Cons.prems(3,4) unat_saturating_inc by (auto simp: approved_token_def qualified_token_def)
  have bounds: "unat ?a + length xs < 2 ^ 64" "unat ?q + length xs < 2 ^ 64" unfolding inc using Cons.prems(3,4) by simp_all
  have filed: "tokens_filed ((acc @ [e]) @ xs)" using Cons.prems(1) by simp
  obtain a' q' where rest: "restore_tokens mode (map snd xs) ?a ?q (acc @ [e]) = Inr (a', q', (acc @ [e]) @ xs)"
    "unat a' = unat ?a + entries_with approved_token xs" "unat q' = unat ?q + entries_with qualified_token xs"
    using Cons.IH [OF filed _ bounds] Cons.prems(2) by auto
  have "restore_tokens mode (map snd (e # xs)) a q acc = Inr (a', q', acc @ e # xs)"
    using t below rest(1) by (simp add: e btree_get_absent btree_insert_greatest)
  then show ?case using rest(2,3) inc by (auto simp: entries_with_def e)
qed

lemma restore_reasons_filed:
  "reasons_filed (acc @ xs) \<Longrightarrow> restore_reasons (map snd xs) acc = Inr (acc @ xs)"
proof (induction xs arbitrary: acc)
  case (Cons e xs)
  obtain r where e: "e = (rejected_reason_code r, r)" and r: "\<not> trim_is_empty (rejected_reason_code r)" "rejected_count r \<noteq> 0"
    using Cons.prems by (cases e) (auto simp: reasons_filed_def)
  have "\<forall>x \<in> set acc. fst x < rejected_reason_code r"
    using Cons.prems unfolding reasons_filed_def e by (intro btree_ordered_below) (rule conjunct1)
  then show ?case
    using Cons.IH [of "acc @ [e]"] Cons.prems r by (simp add: e btree_get_absent btree_insert_greatest)
qed simp

lemma visible_counts:
  "entries_with approved_token (board_visible p) = entries_with approved_token (dp_tokens p)"
  "dp_mode p \<noteq> ApprovedOnly \<Longrightarrow> entries_with qualified_token (board_visible p) = entries_with qualified_token (dp_tokens p)"
  unfolding entries_with_def board_visible_def filter_filter
  by (cases "dp_mode p"; auto simp: token_is_visible_def stage_defs intro!: arg_cong [of _ _ length] filter_cong)+

lemma board_restores:
  assumes "board_ok n p" and "n < 2 ^ 64"
  shows "try_from_snapshot (projection_snapshot p) = Inr (p\<lparr>dp_tokens := board_visible p\<rparr>)"
proof -
  have filed: "tokens_filed ([] @ board_visible p)"
    using assms(1) tokens_filed_filter by (simp add: board_ok_def board_visible_def)
  have small: "length (board_visible p) < 2 ^ 64"
    using assms by (simp add: board_ok_def board_visible_def le_less_trans [OF length_filter_le])
  obtain a q where restored: "restore_tokens (dp_mode p) (map snd (board_visible p)) 0 0 [] = Inr (a, q, board_visible p)"
    and "unat a = entries_with approved_token (board_visible p)" "unat q = entries_with qualified_token (board_visible p)"
    using restore_tokens_filed [OF filed, of "dp_mode p" 0 0] small by (auto simp: board_visible_def)
  then have "a = cnt_approved (dp_counters p)" "dp_mode p \<noteq> ApprovedOnly \<Longrightarrow> q = cnt_qualified (dp_counters p)"
    using assms(1) by (auto simp: visible_counts board_ok_def tally_exact_def word_unat_eq_iff)
  moreover have "restore_reasons (map snd (dp_rejection_reasons p)) [] = Inr (dp_rejection_reasons p)"
    using restore_reasons_filed [of "[]"] assms(1) by (simp add: board_ok_def)
  ultimately show ?thesis
    using restored by (auto simp: try_from_snapshot_def projection_snapshot_def Let_def)
qed

text \<open>
  C37: a board can always be restored from what it shows. After any sequence of operations in which
  no approved candidate is qualified again, the snapshot of the board passes every check of the
  restoration: no candidate is refused or hidden, none occurs twice, and the counters of approved
  and qualified candidates agree with the candidates. The restored board is the old one with the
  candidates its mode shows; in the mode that shows all, it is the old board itself.
\<close>

theorem projection_restores:
  assumes "projection_run n p" and "n < 2 ^ 64"
  shows "try_from_snapshot (projection_snapshot p) = Inr (p\<lparr>dp_tokens := board_visible p\<rparr>)
    \<and> (dp_mode p = ObserveAll \<longrightarrow> try_from_snapshot (projection_snapshot p) = Inr p)"
proof -
  have "dp_mode p = ObserveAll \<Longrightarrow> p\<lparr>dp_tokens := board_visible p\<rparr> = p"
    by (simp add: board_visible_def token_is_visible_def)
  with board_restores [OF projection_run_ok [OF assms] assms(2)] show ?thesis by auto
qed

section \<open>A board with one candidate\<close>

definition board_token :: "discovery_stage \<Rightarrow> discovery_token" where
  "board_token stage =
     \<lparr>dt_mint = ''M'', dt_name = None, dt_symbol = None, dt_primary_venue = VenuePumpBondingCurve, dt_market_address = ''A'',
      dt_quote_mint = None, dt_source_program = SourcePump, dt_stage = stage, dt_last_event_kind = ''CREATE'',
      dt_observed_slot = 1, dt_first_observed_unix_ms = 10, dt_last_observed_unix_ms = 10, dt_latest_signature = ''S'',
      dt_activity = \<lparr>act_trades = 0, act_buys = 0, act_sells = 0, act_unique_traders = 0, act_base_volume_units = ''0'',
        act_quote_volume_units = ''0''\<rparr>,
      dt_qualification = None, dt_risk_score = None, dt_opportunity_score = None\<rparr>"

lemma board_token_valid [simp]: "validate_token (board_token stage) = Inr ()"
  by (simp add: validate_token_def board_token_def validate_non_empty_def validate_optional_non_empty_def validate_decimal_units_def
      printable_not_blank checked_simps board_source_matches_venue_def less_eq_char_def del: trim_is_empty.simps)

lemma board_token_fields [simp]:
  "dt_mint (board_token stage) = ''M''" "dt_stage (board_token stage) = stage" "dt_qualification (board_token stage) = None"
  "board_same_market (board_token stage) (board_token stage')"
  "board_same_market (board_token stage\<lparr>dt_qualification := None\<rparr>) (board_token stage')"
  by (simp_all add: board_token_def board_same_market_def)

definition board_approved :: "(projection_error, discovery_projection) result" where
  "board_approved =
     result_bind (observe (board_token StageObserved) projection_default) (\<lambda>p.
     result_bind (qualify (board_token StageQualified) p) (\<lambda>p'. approve (board_token StageApproved) p'))"

lemmas board_eval = observe_def qualify_def approve_def projection_default_def Let_def board_defs btree_get_def
  saturating_inc_def saturating_dec_def is_qualified_stage_def or_else_def

theorem projection_restores_witness:
  "\<exists>p. board_approved = Inr p \<and> try_from_snapshot (projection_snapshot p) = Inr p"
proof -
  obtain p1 where p1: "observe (board_token StageObserved) projection_default = Inr p1" "dp_mode p1 = ObserveAll"
    and t1: "dp_tokens p1 = [(''M'', board_token StageObserved)]"
    by (simp add: board_eval)
  obtain p2 where p2: "qualify (board_token StageQualified) p1 = Inr p2" "dp_mode p2 = ObserveAll"
    and t2: "dp_tokens p2 = [(''M'', board_token StageQualified)]"
    using p1(2) t1 by (simp add: qualify_def btree_get_def board_defs)
  obtain p3 where p3: "approve (board_token StageApproved) p2 = Inr p3" "dp_mode p3 = ObserveAll"
    using p2(2) t2 by (simp add: approve_def btree_get_def board_defs Let_def is_qualified_stage_def)
  have "projection_run 1 p1" using run_observe [OF run_default p1(1)] by simp
  then have "projection_run (Suc 1) p2" by (rule run_qualify [OF _ p2(1)]) (simp add: t1 btree_get_def approved_token_def)
  then have "projection_run (Suc (Suc 1)) p3" by (rule run_approve [OF _ p3(1)])
  then have "try_from_snapshot (projection_snapshot p3) = Inr p3"
    using projection_restores [THEN conjunct2, of "Suc (Suc 1)" p3] p3(2) by simp
  moreover have "board_approved = Inr p3" by (simp add: board_approved_def p1 p2 p3)
  ultimately show ?thesis by blast
qed

section \<open>Qualifying an approved candidate\<close>

text \<open>
  Qualifying a candidate that is approved already demotes it to a qualified one, and the counter of
  approved candidates keeps counting it. The board then refuses its own snapshot.
\<close>

lemma requalified_board_not_restored:
  "\<exists>p p'. board_approved = Inr p \<and> qualify (board_token StageQualified) p = Inr p'
    \<and> entries_with approved_token (dp_tokens p') = 0 \<and> cnt_approved (dp_counters p') = 1
    \<and> try_from_snapshot (projection_snapshot p') = Inl ApprovedCounterMismatch"
  by (simp add: board_approved_def board_eval entries_with_def approved_token_def try_from_snapshot_def projection_snapshot_def
      board_visible_def token_is_visible_def)

end
