(* ===== verification/Discovery_Worker.thy ===== *)
theory Discovery_Worker
  imports Store_Claims Normalization_Correct Effects
begin

text \<open>
  The worker that turns recorded observations into candidates, \<open>apps/server/src/jobs/discovery.rs\<close>.
  It claims leased work, renews each lease, and commits the candidate of the observation or hands the
  work back. Every call of the database is one transaction of the store at the time of the clock; while
  the worker waits for it, other tasks run. The events for the browser are counted, tracing is left out.
\<close>

section \<open>Trimming\<close>

text \<open>\<open>str::trim\<close> on UTF-8: white space characters are dropped from both ends.\<close>

fun trim_start :: "string \<Rightarrow> string" where
  "trim_start [] = []"
| "trim_start (c # cs) =
     (if white_space_1 c then trim_start cs
      else case cs of
        [] \<Rightarrow> c # cs
      | d # ds \<Rightarrow>
          if white_space_2 c d then trim_start ds
          else case ds of
            [] \<Rightarrow> c # cs
          | e # es \<Rightarrow> if white_space_3 c d e then trim_start es else c # cs)"

fun trim_end :: "string \<Rightarrow> string" where
  "trim_end [] = []"
| "trim_end (c # cs) = (if trim_is_empty (c # cs) then [] else c # trim_end cs)"

definition trim :: "string \<Rightarrow> string" where
  "trim s = trim_end (trim_start s)"

lemma trim_end_Nil: "trim_end s = [] \<longleftrightarrow> trim_is_empty s"
  by (cases s) simp_all

lemma trim_start_empty: "trim_is_empty (trim_start s) = trim_is_empty s"
  by (induction s rule: trim_start.induct) (auto split: list.splits)

lemma trim_Nil: "trim s = [] \<longleftrightarrow> trim_is_empty s"
  by (simp add: trim_def trim_end_Nil trim_start_empty)

definition non_empty :: "string \<Rightarrow> string option" where
  "non_empty v = (let v' = trim v in if v' = [] then None else Some v')"

section \<open>Candidates\<close>

definition DISCOVERY_WORK_KIND :: string where
  "DISCOVERY_WORK_KIND = ''DISCOVERY''"

definition VALIDATION_SOURCE :: string where
  "VALIDATION_SOURCE = ''PUMP_STRUCTURAL_DECODER''"

definition discovery_token :: "'json normalized_observation \<Rightarrow> discovery_token" where
  "discovery_token obs =
     (let (name, symbol) = (case payload obs of
            TokenCreated name symbol _ _ _ \<Rightarrow> (non_empty name, non_empty symbol)
          | _ \<Rightarrow> (None, None));
          seen = (case source_event_time_unix_ms obs of Some t \<Rightarrow> t | None \<Rightarrow> received_time_unix_ms obs)
      in \<lparr>dt_mint = mint (obs_market obs), dt_name = name, dt_symbol = symbol, dt_primary_venue = venue (obs_market obs),
          dt_market_address = market_address (obs_market obs), dt_quote_mint = quote_mint (obs_market obs),
          dt_source_program = key_program (obs_key obs), dt_stage = StageObserved, dt_last_event_kind = event_kind obs,
          dt_observed_slot = slot (key_coordinate (obs_key obs)), dt_first_observed_unix_ms = seen,
          dt_last_observed_unix_ms = seen, dt_latest_signature = signature (key_coordinate (obs_key obs)),
          dt_activity = \<lparr>act_trades = 0, act_buys = 0, act_sells = 0, act_unique_traders = 0,
            act_base_volume_units = ''0'', act_quote_volume_units = ''0''\<rparr>,
          dt_qualification = None, dt_risk_score = None, dt_opportunity_score = None\<rparr>)"

definition discovery_candidate :: "'json normalized_observation \<Rightarrow> discovery_observation" where
  "discovery_candidate obs =
     \<lparr>candidate_token = discovery_token obs, validation_source = VALIDATION_SOURCE, validation_version = decoder_version obs\<rparr>"

fun persistence_error_code :: "'x persistence_error \<Rightarrow> string" where
  "persistence_error_code (DatabaseError _) = ''DISCOVERY_DATABASE_ERROR''"
| "persistence_error_code (SerializationError _) = ''DISCOVERY_SERIALIZATION_ERROR''"
| "persistence_error_code (WorkLeaseLost _ _) = ''DISCOVERY_WORK_LEASE_LOST''"
| "persistence_error_code (DiscoverySourceMismatch _) = ''DISCOVERY_SOURCE_MISMATCH''"
| "persistence_error_code InvalidActivityTotals = ''DISCOVERY_INVALID_CANDIDATE''"
| "persistence_error_code (InvalidUnsignedDecimal _) = ''DISCOVERY_INVALID_CANDIDATE''"
| "persistence_error_code (EmptyField _) = ''DISCOVERY_INVALID_CANDIDATE''"
| "persistence_error_code _ = ''DISCOVERY_PROCESSING_ERROR''"

section \<open>The worker\<close>

record discovery_worker_config =
  wc_worker_id :: string
  wc_claim_batch :: u32
  wc_lease_duration :: duration
  wc_retry_after :: duration
  wc_maximum_attempts :: u32
  wc_idle_poll_interval :: duration

text \<open>The settings that \<open>for_process\<close> gives for a process id and a start time. The pause of an idle worker only delays it.\<close>

definition for_process :: "u32 \<Rightarrow> i64 \<Rightarrow> discovery_worker_config" where
  "for_process pid started =
     \<lparr>wc_worker_id = ''soldisco-discovery-'' @ show_word pid @ ''-'' @ show_int started, wc_claim_batch = 64,
      wc_lease_duration = 30000, wc_retry_after = 500, wc_maximum_attempts = 5,
      wc_idle_poll_interval = 250\<rparr>"

text \<open>
  What the worker sees: the store, the clock of the database, the rows that others have locked, an
  error with which the database answers if it is down, and the cancellation.
\<close>

record ('v, 'json, 'x) worker_world =
  ww_store :: "('v, 'json) discovery_store"
  ww_now :: int
  ww_locked :: "i64 list"
  ww_outage :: "'x option"
  ww_cancelled :: bool
  ww_published :: nat

type_synonym ('v, 'json, 'x, 'a) worker_exec = "(('v, 'json, 'x) worker_world, 'x persistence_error, 'a) exec"

type_synonym ('v, 'json, 'x) others = "('v, 'json, 'x) worker_world \<Rightarrow> ('v, 'json, 'x) worker_world"

definition worker_call ::
    "('v, 'json, 'x) others
      \<Rightarrow> (('v, 'json, 'x) worker_world \<Rightarrow> ('v, 'json) discovery_store \<Rightarrow> ('x persistence_error, 'a) result \<times> ('v, 'json) discovery_store)
      \<Rightarrow> ('v, 'json, 'x, 'a) worker_exec" where
  "worker_call others call w =
     (let w1 = others w in
      case ww_outage w1 of
        Some e \<Rightarrow> (Inl (DatabaseError e), w1)
      | None \<Rightarrow> (case call w1 (ww_store w1) of (r, s) \<Rightarrow> (r, w1\<lparr>ww_store := s\<rparr>)))"

definition publish_discovery :: "('v, 'json, 'x, unit) worker_exec" where
  "publish_discovery = exec_modify (\<lambda>w. w\<lparr>ww_published := Suc (ww_published w)\<rparr>)"

definition hand_back ::
    "('v, 'json, 'x) others \<Rightarrow> discovery_worker_config \<Rightarrow> i64 \<Rightarrow> 'x persistence_error \<Rightarrow> ('v, 'json, 'x, unit) worker_exec" where
  "hand_back others cfg wid e w =
     (case worker_call others (\<lambda>w. retry_or_fail_observation_work (ww_now w) wid (wc_worker_id cfg)
          (persistence_error_code e) (wc_retry_after cfg) (wc_maximum_attempts cfg)) w of
        (Inr PermanentlyFailed, w') \<Rightarrow> publish_discovery w'
      | (Inr RetryScheduled, w') \<Rightarrow> (Inr (), w')
      | (Inl (WorkLeaseLost _ _), w') \<Rightarrow> (Inr (), w')
      | (Inl e', w') \<Rightarrow> (Inl e', w'))"

definition commit_work ::
    "('x, 'v) window_json \<Rightarrow> 'x \<Rightarrow> ('v, 'json, 'x) others \<Rightarrow> discovery_worker_config \<Rightarrow> 'json claimed_observation_work
      \<Rightarrow> ('v, 'json, 'x, unit) worker_exec" where
  "commit_work j out_of_range others cfg work w =
     (case worker_call others (\<lambda>w. commit_discovery_observation j out_of_range (ww_now w) (cw_work_id work)
          (wc_worker_id cfg) (discovery_candidate (cw_observation work))) w of
        (Inr _, w') \<Rightarrow> publish_discovery w'
      | (Inl (WorkLeaseLost _ _), w') \<Rightarrow> (Inr (), w')
      | (Inl e, w') \<Rightarrow> hand_back others cfg (cw_work_id work) e w')"

definition handle_work ::
    "('x, 'v) window_json \<Rightarrow> 'x \<Rightarrow> ('v, 'json, 'x) others \<Rightarrow> discovery_worker_config \<Rightarrow> 'json claimed_observation_work
      \<Rightarrow> ('v, 'json, 'x, unit) worker_exec" where
  "handle_work j out_of_range others cfg work w =
     (case worker_call others (\<lambda>w. renew_observation_work_lease (ww_now w) (cw_work_id work) (wc_worker_id cfg)
          (wc_lease_duration cfg)) w of
        (Inl (WorkLeaseLost _ _), w') \<Rightarrow> (Inr (), w')
      | (Inl e, w') \<Rightarrow> (Inl e, w')
      | (Inr _, w') \<Rightarrow> commit_work j out_of_range others cfg work w')"

text \<open>The loop over a claimed batch; the answer is whether the worker goes on.\<close>

fun work_through ::
    "('x, 'v) window_json \<Rightarrow> 'x \<Rightarrow> ('v, 'json, 'x) others \<Rightarrow> discovery_worker_config \<Rightarrow> 'json claimed_observation_work list
      \<Rightarrow> ('v, 'json, 'x, bool) worker_exec" where
  "work_through j out_of_range others cfg [] = exec_return True"
| "work_through j out_of_range others cfg (work # works) =
     (\<lambda>w. if ww_cancelled w then (Inr False, w)
          else exec_bind (handle_work j out_of_range others cfg work)
            (\<lambda>_. work_through j out_of_range others cfg works) w)"

definition claim_batch ::
    "('v, 'json, 'x) others \<Rightarrow> discovery_worker_config \<Rightarrow> ('v, 'json, 'x, 'json claimed_observation_work list) worker_exec" where
  "claim_batch others cfg =
     worker_call others (\<lambda>w. claim_observation_work (ww_now w) (ww_locked w) DISCOVERY_WORK_KIND (wc_worker_id cfg)
       (wc_claim_batch cfg) (wc_lease_duration cfg))"

partial_function (option) run_discovery_worker ::
    "('x, 'v) window_json \<Rightarrow> 'x \<Rightarrow> ('v, 'json, 'x) others \<Rightarrow> discovery_worker_config \<Rightarrow> ('v, 'json, 'x) worker_world
      \<Rightarrow> (('x persistence_error, unit) result \<times> ('v, 'json, 'x) worker_world) option" where
  "run_discovery_worker j out_of_range others cfg w =
     (if ww_cancelled w then Some (Inr (), w)
      else case claim_batch others cfg w of
        (Inl e, w1) \<Rightarrow> Some (Inl e, w1)
      | (Inr claimed, w1) \<Rightarrow>
          if claimed = [] then
            (let w2 = others w1 in
             if ww_cancelled w2 then Some (Inr (), w2) else run_discovery_worker j out_of_range others cfg w2)
          else (case work_through j out_of_range others cfg claimed w1 of
              (Inl e, w2) \<Rightarrow> Some (Inl e, w2)
            | (Inr goes_on, w2) \<Rightarrow>
                if goes_on then run_discovery_worker j out_of_range others cfg w2 else Some (Inr (), w2)))"

end
