(* ===== verification/Discovery_Worker_Correct.thy ===== *)
theory Discovery_Worker_Correct
  imports Discovery_Worker
begin

text \<open>
  The worker as a client of the store: whatever it does is a sequence of transactions, and what the
  normalization made of a decoded event is never refused. Between the decoder and the projection no
  fact is lost to validation.
\<close>

section \<open>Trimmed text\<close>

lemma blank_append: "trim_is_empty a \<Longrightarrow> trim_is_empty b \<Longrightarrow> trim_is_empty (a @ b)"
proof (induction a rule: trim_is_empty.induct)
  case (2 c cs)
  consider (one) "white_space_1 c" "trim_is_empty cs"
    | (two) d ds where "\<not> white_space_1 c" "cs = d # ds" "white_space_2 c d" "trim_is_empty ds"
    | (three) d e es where "\<not> white_space_1 c" "cs = d # e # es" "\<not> white_space_2 c d" "white_space_3 c d e" "trim_is_empty es"
    using "2.prems"(1) by (auto split: list.splits if_splits)
  then show ?case
  proof cases
    case one
    then show ?thesis using 2 by simp
  next
    case two
    then show ?thesis using 2 by simp
  next
    case three
    then show ?thesis using 2 by simp
  qed
qed simp

lemma trim_end_split: "\<exists>b. s = trim_end s @ b \<and> trim_is_empty b"
proof (induction s)
  case (Cons c cs)
  then obtain b where b: "cs = trim_end cs @ b" "trim_is_empty b" by blast
  show ?case
  proof (cases "trim_is_empty (c # cs)")
    case True
    then show ?thesis by (intro exI [of _ "c # cs"]) simp
  next
    case False
    then have "trim_end (c # cs) = c # trim_end cs" by (simp only: trim_end.simps if_False)
    then show ?thesis using b by (intro exI [of _ b]) simp
  qed
qed simp

lemma trim_not_blank: "trim s \<noteq> [] \<Longrightarrow> \<not> trim_is_empty (trim s)"
  using trim_end_split [of "trim_start s"] blank_append [of "trim s"]
  by (metis trim_Nil trim_def trim_start_empty)

lemma text_present_simps [simp]: "text_present None" "text_present (Some t) \<longleftrightarrow> \<not> trim_is_empty t"
  by (simp_all add: text_present_def)

lemma non_empty_present [simp]: "text_present (non_empty v)"
  by (simp add: non_empty_def text_present_def Let_def trim_not_blank del: trim_is_empty.simps)

section \<open>Observations that name their market\<close>

definition market_named :: "market_identity \<Rightarrow> bool" where
  "market_named m \<longleftrightarrow> \<not> trim_is_empty (mint m) \<and> \<not> trim_is_empty (market_address m) \<and> text_present (quote_mint m)"

definition observation_named :: "'json normalized_observation \<Rightarrow> bool" where
  "observation_named obs \<longleftrightarrow>
     market_named (obs_market obs) \<and> \<not> trim_is_empty (event_kind obs) \<and> \<not> trim_is_empty (signature (key_coordinate (obs_key obs)))
     \<and> \<not> trim_is_empty (decoder_version obs) \<and> source_matches_venue (key_program (obs_key obs)) (venue (obs_market obs))
     \<and> (case payload obs of Trade _ trader _ _ _ _ \<Rightarrow> \<not> trim_is_empty trader | _ \<Rightarrow> True)"

lemma candidate_shaped:
  assumes "observation_named obs"
  shows "token_shaped (discovery_token obs)"
  using assms
  by (auto simp: observation_named_def market_named_def discovery_token_def Let_def token_shaped_def market_shaped_def
      activity_shaped_def decision_shaped_def checked_simps decimal_def is_qualified_stage_def less_eq_char_def
      split: observation_payload.splits prod.splits)

lemma candidate_valid:
  assumes "observation_named obs" and "\<not> trim_is_empty worker"
  shows "validate_candidate worker (discovery_candidate obs) = (Inr () :: ('x persistence_error, unit) result)"
proof -
  have "validate_token_shape (discovery_token obs) = (Inr () :: ('x persistence_error, unit) result)"
    using candidate_shaped [OF assms(1)] by (simp add: validate_token_shape_Inr)
  moreover
  have "dt_stage (discovery_token obs) = StageObserved" by (simp add: discovery_token_def Let_def split: prod.splits)
  ultimately show ?thesis
    using assms
    by (auto simp: validate_candidate_def discovery_candidate_def observation_named_def VALIDATION_SOURCE_def require_non_empty_def
        printable_not_blank simp del: trim_is_empty.simps)
qed

lemma candidate_source: "validate_token_source (discovery_token obs) obs = Inr ()"
  by (simp add: validate_token_source_def source_checks_def discovery_token_def observed_at_def Let_def split: prod.splits)

section \<open>Normalized events\<close>

definition registry_named :: "market_registry \<Rightarrow> bool" where
  "registry_named reg \<longleftrightarrow> (\<forall>key m. markets reg key = Some m \<longrightarrow> market_named (reg_identity m))"

lemma valid_pubkey_not_blank: "valid_pubkey s \<Longrightarrow> \<not> trim_is_empty s"
  using encode_base58_not_blank [of "pubkey_bytes s"] by (simp add: valid_pubkey_def pubkey_bytes_def)

lemmas valid_event_defs = valid_pump_create_def valid_pump_complete_def valid_pump_migration_def valid_pump_swap_create_pool_def

lemma registered_pump_named:
  "registry_named reg \<Longrightarrow> pump_market reg m = Inr market \<Longrightarrow> market_named market"
  by (auto simp: registry_named_def pump_market_def result_simps split: if_splits)

lemma registered_pool_named:
  "registry_named reg \<Longrightarrow> oriented_pool reg p = Inr (market, o') \<Longrightarrow> market_named market"
  by (auto simp: registry_named_def oriented_pool_def pump_swap_market_def result_simps split: if_splits)

lemma created_pool_named:
  assumes "valid_event (EventPumpSwapCreatePool e)" and "normalize_pump_swap_pair n (pool_base_mint e) (pool_quote_mint e) = Some pair"
  shows "market_named (pump_swap_market_identity n (pool_pool e) pair)"
  using assms(1) normalize_pair_cases [OF assms(2)] valid_pubkey_not_blank
  by (auto simp: valid_event_defs market_named_def pump_swap_market_identity_def text_present_def split: if_splits)

lemma normalize_create_pool_parts:
  "normalize_create_pool n e = Inr (kind, market, p, disc) \<Longrightarrow>
     \<exists>pair. normalize_pump_swap_pair n (pool_base_mint e) (pool_quote_mint e) = Some pair
       \<and> market = pump_swap_market_identity n (pool_pool e) pair \<and> kind = ''CREATE_POOL''"
  by (auto simp: normalize_create_pool_def result_simps Let_def case_prod_beta)

lemma normalize_parts_named:
  assumes "valid_event ev" and "registry_ok reg" and "registry_named reg"
    and "normalize_parts n reg ev = (Inr (kind, market, p, disc) :: ('j normalization_error, normalized_parts) result)"
  shows "market_named market \<and> \<not> trim_is_empty kind
    \<and> source_matches_venue (pump_source_program (event_program ev)) (venue market)"
proof (cases "pool_flow ev")
  case (Some flow)
  obtain pool rest' where flow: "pool_flow ev = Some (pool, rest')" using Some by (cases flow) auto
  obtain o' where pool: "oriented_pool reg pool = (Inr (market, o') :: ('j normalization_error, _) result)"
    using normalize_parts_flow [OF assms(4) flow] by blast
  have "kind \<in> {''BUY'', ''SELL'', ''LIQUIDITY_DEPOSIT'', ''LIQUIDITY_WITHDRAW''}"
    using assms(4) pool flow
    by (cases ev; cases o')
       (auto simp: normalize_pool_defs require_non_zero_trade_amounts_def orient_source_amounts_def trade_event_kind_def split: if_splits)
  then have "\<not> trim_is_empty kind" by (auto simp: printable_not_blank simp del: trim_is_empty.simps)
  moreover have "pump_source_program (event_program ev) = SourcePumpSwap" using flow by (cases ev) simp_all
  ultimately show ?thesis
    using registered_pool_named [OF assms(3) pool] registry_ok_pool [OF assms(2) pool] by simp
next
  case None
  have created: ?thesis if ev: "ev = EventPumpSwapCreatePool e" for e
  proof -
    obtain pair where pair: "normalize_pump_swap_pair n (pool_base_mint e) (pool_quote_mint e) = Some pair"
      "market = pump_swap_market_identity n (pool_pool e) pair" "kind = ''CREATE_POOL''"
      using normalize_create_pool_parts [OF assms(4) [unfolded ev normalize_parts.simps]] by blast
    then show ?thesis
      using created_pool_named [OF assms(1) [unfolded ev] pair(1)] ev
      by (simp add: printable_not_blank pump_swap_market_identity_def del: trim_is_empty.simps)
  qed
  have traded: ?thesis if ev: "ev = EventTrade e" for e
  proof -
    have pump: "pump_market reg (trade_mint e) = (Inr market :: ('j normalization_error, _) result)" and "kind = ''TRADE''"
      using assms(4) by (auto simp: ev normalize_trade_def result_simps split: if_splits)
    then show ?thesis
      using registered_pump_named [OF assms(3) pump] registry_ok_pump [OF assms(2) pump]
      by (simp add: ev printable_not_blank del: trim_is_empty.simps)
  qed
  from None show ?thesis
    using assms(1,4) valid_pubkey_not_blank created traded
    by (cases ev)
       (auto simp: Let_def bonding_curve_market_def market_named_def valid_event_defs printable_not_blank
         simp del: trim_is_empty.simps)
qed

lemma normalized_named:
  fixes to_value :: "pump_event \<Rightarrow> ('j, 'json) result"
  assumes "decode_anchor_event program_id coordinate bytes = (Inr d :: ('b pump_error, decoded_pump_event) result)"
    and "\<not> trim_is_empty (signature coordinate)" and "market_reachable reg" and "registry_named reg"
    and "normalize_pump_event to_value sha256 base64_encode d n c received raw reg = Inr ne"
  shows "observation_named (norm_observation ne)"
proof -
  have d: "valid_event (decoded_event d)" "decoded_program d = event_program (decoded_event d)" "decoded_coordinate d = coordinate"
    using assms(1) by (simp_all add: decode_anchor_event_iff)
  from assms(5) obtain details kind market p disc
    where parts: "normalize_parts n reg (decoded_event d) = (Inr (kind, market, p, disc) :: ('j normalization_error, _) result)"
      and ne: "obs_market (norm_observation ne) = market" "event_kind (norm_observation ne) = kind"
        "payload (norm_observation ne) = p" "decoder_version (norm_observation ne) = DECODER_VERSION"
        "key_program (obs_key (norm_observation ne)) = pump_source_program (decoded_program d)"
        "key_coordinate (obs_key (norm_observation ne)) = coordinate"
    unfolding normalize_pump_event_Inr using d(3) by auto
  have "case p of Trade _ trader _ _ _ _ \<Rightarrow> \<not> trim_is_empty trader | _ \<Rightarrow> True"
  proof (cases p)
    case (Trade s w b q br qr)
    then show ?thesis
      using normalize_parts_trade [OF parts [unfolded Trade]] valid_event_wallet [OF d(1)] valid_pubkey_not_blank by auto
  qed simp_all
  moreover have "\<not> trim_is_empty DECODER_VERSION"
    by (simp add: DECODER_VERSION_def printable_not_blank del: trim_is_empty.simps)
  ultimately show ?thesis
    using normalize_parts_named [OF d(1) market_reachable_ok [OF assms(3)] assms(4) parts] assms(2) d(2)
    by (simp add: observation_named_def ne)
qed

section \<open>Committing a candidate\<close>

definition encodes_all :: "('x, 'v) window_json \<Rightarrow> bool" where
  "encodes_all j \<longleftrightarrow> (\<forall>t. \<exists>v. token_to_value j t = Inr v)"

text \<open>The running totals of the market have room for the observation.\<close>

definition activity_room :: "('v, 'json) discovery_store \<Rightarrow> 'json normalized_observation \<Rightarrow> bool" where
  "activity_room s obs \<longleftrightarrow>
     (case payload obs of
        Trade side trader base quote _ _ \<Rightarrow>
          activity_fits (count_trade side base quote
            (case ds_activity s (activity_key_of obs) of None \<Rightarrow> empty_activity | Some a \<Rightarrow> a))
      | _ \<Rightarrow> True)"

lemma read_activity_total:
  "0 \<le> ar_trades a \<Longrightarrow> 0 \<le> ar_buys a \<Longrightarrow> 0 \<le> ar_sells a \<Longrightarrow> \<exists>r. read_activity s k a = Inr r"
  by (simp add: read_activity_def to_u64_def)

lemma activity_applies:
  fixes e :: 'x
  assumes "activity_ok s" and "activity_room s obs" and "observation_named obs"
  shows "\<exists>a s'. apply_observation_activity e obs s = Inr (a, s')"
proof -
  let ?row = "case ds_activity s (activity_key_of obs) of None \<Rightarrow> empty_activity | Some a \<Rightarrow> a"
  have row: "0 \<le> ar_trades ?row" "0 \<le> ar_buys ?row" "0 \<le> ar_sells ?row"
    using activity_okD [OF assms(1), of "activity_key_of obs"] by (auto simp: activity_total_ok_def)
  obtain r0 where "read_activity (s\<lparr>ds_activity := (ds_activity s)(activity_key_of obs \<mapsto> ?row)\<rparr>) (activity_key_of obs) ?row
      = (Inr r0 :: ('x persistence_error, _) result)" using row read_activity_total by blast
  then show ?thesis
  proof (cases "payload obs")
    case (Trade side trader base quote br qr)
    let ?row' = "count_trade side base quote ?row"
    have "0 \<le> ar_trades ?row'" "0 \<le> ar_buys ?row'" "0 \<le> ar_sells ?row'" using row by (simp_all add: count_trade_def)
    then obtain r where "read_activity ((insert_trader (activity_key_of obs) trader s)\<lparr>ds_activity := (ds_activity s)(activity_key_of obs \<mapsto> ?row')\<rparr>)
        (activity_key_of obs) ?row' = (Inr r :: ('x persistence_error, _) result)"
      using read_activity_total by blast
    then show ?thesis
      using assms(2,3) Trade
      by (simp add: apply_observation_activity_def Let_def activity_room_def observation_named_def require_non_empty_def)
  qed (simp_all add: apply_observation_activity_def Let_def)
qed

lemma token_row_total:
  fixes j :: "('x, 'v) window_json"
  assumes "encodes_all j" and "unat (dt_observed_slot t) < 2 ^ 63"
  shows "\<exists>r. token_row j t wid source version = Inr r \<and> str_mint r = dt_mint t"
proof -
  obtain v where "token_to_value j t = Inr v" using assms(1) by (auto simp: encodes_all_def)
  then show ?thesis using assms(2) by (simp add: token_row_def to_i64_small map_err_def)
qed

text \<open>What becomes of the candidate beside the stored one, and that it is stored.\<close>

lemma candidate_observed:
  fixes j :: "('x, 'v) window_json" and s :: "('v, 'json) discovery_store"
  assumes "store_ok j s" and "unat (dt_observed_slot c) < 2 ^ 63"
  obtains m t ar qr where "observe_candidate j c obs (find_token s (dt_mint c)) = Inr (m, t, ar, qr)"
    "m = Inserted \<longleftrightarrow> find_token s (dt_mint c) = None" "dt_mint t = dt_mint c"
    "m \<in> {Inserted, Updated, DemotedByMarketChange} \<Longrightarrow> dt_observed_slot t = dt_observed_slot c"
proof (cases "find_token s (dt_mint c)")
  case None
  then show thesis using that [of Inserted c False False] by (simp add: observe_candidate_def)
next
  case (Some r)
  have r: "row_ok j r" "str_mint r = dt_mint c"
    using Some assms(1) find_key_Some [of str_mint "dt_mint c" "ds_tokens s" r]
    by (auto simp: find_token_def store_ok_def tokens_ok_def)
  then obtain t where t: "token_from_value j (str_token r) = Inr t" "dt_mint t = dt_mint c"
    "str_stage r = discovery_stage_name (dt_stage t)" by (auto elim: row_okE)
  have slot: "to_i64 (dt_observed_slot c) ''observed_slot'' = (Inr (int (unat (dt_observed_slot c))) :: ('x persistence_error, _) result)"
    using assms(2) by (rule to_i64_small)
  obtain changed t' where enriched: "enrich_metadata_from_stale_creation t c obs = (changed, t')" by fastforce
  then have mint': "dt_mint t' = dt_mint t"
    by (auto simp: enrich_metadata_from_stale_creation_def Let_def split: observation_payload.splits if_splits)
  show thesis
  proof (cases "int (unat (dt_observed_slot c)) < str_observed_slot r")
    case True
    then show thesis
      using that [of "if changed then MetadataEnrichedFromStaleCreation else StaleObservationIgnored" t' False False] Some t slot enriched mint'
      by (cases changed) (auto simp: observe_candidate_def observe_existing_def map_err_def validate_stored_stage_def)
  next
    case False
    define ar where "ar = (dt_stage t = StageApproved \<and> dt_stage (merge_observation t c) \<noteq> StageApproved)"
    define qr where "qr = (is_qualified_stage (dt_stage t) \<and> \<not> is_qualified_stage (dt_stage (merge_observation t c)))"
    have "observe_candidate j c obs (find_token s (dt_mint c)) =
        Inr (if ar \<or> qr then DemotedByMarketChange else Updated, merge_observation t c, ar, qr)"
      using False Some t slot
      by (auto simp: observe_candidate_def observe_existing_def map_err_def validate_stored_stage_def Let_def ar_def qr_def)
    then show thesis using that [of _ "merge_observation t c" ar qr] Some by simp
  qed
qed

lemma find_token_update: "find_token (update_token m f s) m' =
    map_option (\<lambda>r. if str_mint r = m then f r else r) (find_token s m')" if "\<And>r. str_mint r = m \<Longrightarrow> str_mint (f r) = m"
  unfolding find_token_def update_token_def using that by (simp add: find_map_same)

lemma candidate_stored:
  fixes j :: "('x, 'v) window_json" and s :: "('v, 'json) discovery_store"
  assumes "encodes_all j" and "m = Inserted \<longleftrightarrow> find_token s (dt_mint t) = None"
    and "m \<in> {Inserted, Updated, DemotedByMarketChange} \<Longrightarrow> unat (dt_observed_slot t) < 2 ^ 63"
  obtains rows where "store_candidate j m t wid source version s = Inr ((), s\<lparr>ds_tokens := rows\<rparr>)"
    "find_token (s\<lparr>ds_tokens := rows\<rparr>) (dt_mint t) \<noteq> None"
proof -
  have "\<exists>rows. store_candidate j m t wid source version s = Inr ((), s\<lparr>ds_tokens := rows\<rparr>)
      \<and> find_token (s\<lparr>ds_tokens := rows\<rparr>) (dt_mint t) \<noteq> None"
  proof (cases "m \<in> {Inserted, Updated, DemotedByMarketChange}")
    case True
    then obtain r where r: "token_row j t wid source version = Inr r" "str_mint r = dt_mint t"
      using token_row_total [OF assms(1)] assms(3) by blast
    show ?thesis
    proof (cases "m = Inserted")
      case True
      then show ?thesis using r assms(2)
        by (auto simp: store_candidate_def insert_discovery_token_def find_token_def find_append intro!: exI [of _ "ds_tokens s @ [r]"])
    next
      case False
      then have "store_candidate j m t wid source version s = Inr ((), update_token (dt_mint t) (\<lambda>_. r) s)"
        using True r by (auto simp: store_candidate_def update_discovery_token_def)
      moreover have "find_token (update_token (dt_mint t) (\<lambda>_. r) s) (dt_mint t) \<noteq> None"
        using assms(2) False r(2) by (subst find_token_update) auto
      ultimately show ?thesis unfolding update_token_def by blast
    qed
  next
    case False
    obtain v where v: "token_to_value j t = Inr v" using assms(1) by (auto simp: encodes_all_def)
    have present: "find_token s (dt_mint t) \<noteq> None" using assms(2) False by auto
    show ?thesis
    proof (cases "m = MetadataEnrichedFromStaleCreation")
      case True
      then have "store_candidate j m t wid source version s = Inr ((), update_token (dt_mint t) (\<lambda>r. r\<lparr>str_token := v\<rparr>) s)"
        using v by (simp add: store_candidate_def update_discovery_token_metadata_def map_err_def)
      moreover have "find_token (update_token (dt_mint t) (\<lambda>r. r\<lparr>str_token := v\<rparr>) s) (dt_mint t) \<noteq> None"
        using present by (subst find_token_update) auto
      ultimately show ?thesis unfolding update_token_def by blast
    next
      case other: False
      then show ?thesis using False present
        by (intro exI [of _ "ds_tokens s"]) (auto simp: store_candidate_def split: projection_mutation.splits)
    qed
  qed
  then show thesis using that by blast
qed

lemma activity_frame_tokens:
  "activity_ok (s\<lparr>ds_tokens := rows\<rparr>) = activity_ok s" "activity_room (s\<lparr>ds_tokens := rows\<rparr>) obs = activity_room s obs"
  by (simp_all add: activity_ok_def activity_room_def unique_traders_of_def split: observation_payload.split)

lemma publish_activity_total:
  fixes j :: "('x, 'v) window_json" and s :: "('v, 'json) discovery_store"
  assumes "encodes_all j"
  obtains rows where "publish_activity j t obs a s = Inr ((), s\<lparr>ds_tokens := rows\<rparr>)"
    "find_token (s\<lparr>ds_tokens := rows\<rparr>) m = None \<longleftrightarrow> find_token s m = None"
proof (cases "token_matches_observation_market t obs")
  case True
  obtain v where v: "token_to_value j (t\<lparr>dt_activity := a\<rparr>) = Inr v" using assms by (auto simp: encodes_all_def)
  let ?f = "\<lambda>r :: 'v stored_token_row. r\<lparr>str_token := v\<rparr>"
  let ?rows = "ds_tokens (update_token (dt_mint t) ?f s)"
  have rows: "s\<lparr>ds_tokens := ?rows\<rparr> = update_token (dt_mint t) ?f s" by (simp add: update_token_def)
  show thesis
  proof (rule that [of ?rows])
    show "publish_activity j t obs a s = Inr ((), s\<lparr>ds_tokens := ?rows\<rparr>)"
      unfolding rows using True v by (simp add: publish_activity_def update_discovery_token_metadata_def map_err_def)
    show "find_token (s\<lparr>ds_tokens := ?rows\<rparr>) m = None \<longleftrightarrow> find_token s m = None"
      unfolding rows by (subst find_token_update) auto
  qed
next
  case False
  then show thesis using that [of "ds_tokens s"] by (simp add: publish_activity_def)
qed

lemma commit_succeeds:
  fixes j :: "('x, 'v) window_json" and s :: "('v, 'json) discovery_store"
  assumes "store_ok j s" and "encodes_all j" and named: "observation_named obs" and "\<not> trim_is_empty worker"
    and lock: "lock_owned_work now wid worker s = (Inr work :: ('x persistence_error, _) result)"
    and work: "ow_work_kind work = ''DISCOVERY''" "ow_observation work = obs"
    and slot: "unat (slot (key_coordinate (obs_key obs))) < 2 ^ 63" and room: "activity_room s obs"
  shows "\<exists>m s'. commit_discovery_observation j e now wid worker (discovery_candidate obs) s = (Inr m, s')
    \<and> find_token s' (mint (obs_market obs)) \<noteq> None
    \<and> ds_work s' = map (\<lambda>w. if wi_id w = wid then w\<lparr>wi_state := WorkComplete, wi_finished_at := Some now,
        wi_lease_owner := None, wi_lease_expires_at := None\<rparr> else w) (ds_work s)"
proof -
  let ?c = "discovery_token obs"
  have c: "dt_mint ?c = mint (obs_market obs)" "dt_observed_slot ?c = slot (key_coordinate (obs_key obs))"
    by (simp_all add: discovery_token_def Let_def split: prod.splits)
  obtain m t ar qr where observed: "observe_candidate j ?c obs (find_token s (dt_mint ?c)) = Inr (m, t, ar, qr)"
    and fresh: "m = Inserted \<longleftrightarrow> find_token s (dt_mint t) = None" and mint_t: "dt_mint t = dt_mint ?c"
    and slot_t: "m \<in> {Inserted, Updated, DemotedByMarketChange} \<Longrightarrow> unat (dt_observed_slot t) < 2 ^ 63"
    using candidate_observed [OF assms(1), of ?c obs] slot unfolding c(2) by metis
  obtain rows where stored: "store_candidate j m t wid VALIDATION_SOURCE (decoder_version obs) s = Inr ((), s\<lparr>ds_tokens := rows\<rparr>)"
    and found: "find_token (s\<lparr>ds_tokens := rows\<rparr>) (dt_mint t) \<noteq> None"
    using candidate_stored [OF assms(2) fresh slot_t] by metis
  obtain a s2 where applied: "apply_observation_activity e obs (s\<lparr>ds_tokens := rows\<rparr>) = Inr (a, s2)"
    using activity_applies [of "s\<lparr>ds_tokens := rows\<rparr>" obs e] assms(1) named room
    by (auto simp: activity_frame_tokens store_ok_def)
  obtain act tr where s2: "s2 = s\<lparr>ds_tokens := rows\<rparr>\<lparr>ds_activity := act, ds_traders := tr\<rparr>"
    using activity_frame [OF applied] by metis
  obtain rows' where published: "publish_activity j t obs a s2 = Inr ((), s2\<lparr>ds_tokens := rows'\<rparr>)"
    and kept: "find_token (s2\<lparr>ds_tokens := rows'\<rparr>) (dt_mint t) = None \<longleftrightarrow> find_token s2 (dt_mint t) = None"
    using publish_activity_total [OF assms(2)] by metis
  have run: "observe_transaction j e now wid worker (discovery_candidate obs) s =
      Inr (m, append_projection_event ''DISCOVERY_TOKEN_OBSERVED'' (mark_work_complete now wid
        (Discovery_Store.advance (observe_projection (m = Inserted) ar qr) (s2\<lparr>ds_tokens := rows'\<rparr>))))"
    by (simp add: observe_transaction_def lock work Let_def ensure_discovery_work_def discovery_candidate_def candidate_source
        observed stored applied published)
  have valid: "validate_candidate worker (discovery_candidate obs) = (Inr () :: ('x persistence_error, unit) result)"
    by (rule candidate_valid [OF named assms(4)])
  have "find_token s2 (dt_mint t) \<noteq> None" using found by (simp add: s2 find_token_def)
  with kept have "find_token (s2\<lparr>ds_tokens := rows'\<rparr>) (mint (obs_market obs)) \<noteq> None" using mint_t c(1) by simp
  then show ?thesis
    by (simp add: commit_discovery_observation_def commit_def valid run publish_defs mark_work_complete_def update_work_def
        find_token_def s2)
qed

section \<open>The worker is a client of the store\<close>

definition client_step ::
    "('x, 'v) window_json \<Rightarrow> ('x, 'v) settings_json \<Rightarrow> (string \<Rightarrow> ('b, u8 list) result)
      \<Rightarrow> ('v, 'json, 'x) worker_world \<Rightarrow> ('v, 'json, 'x) worker_world \<Rightarrow> bool" where
  "client_step j enc b64 w w' \<longleftrightarrow> (store_step j enc b64)\<^sup>*\<^sup>* (ww_store w) (ww_store w')"

interpretation worker_client: effect_order "client_step j enc b64" for j enc b64
  by unfold_locales (auto simp: client_step_def)

lemma confined_call:
  fixes others :: "('v, 'json, 'x) others"
  assumes "\<And>w. client_step j enc b64 w (others w)" and "\<And>w s. store_step j enc b64 s (snd (call w s))"
  shows "confined (client_step j enc b64) (worker_call others call)"
  unfolding confined_def
proof
  fix w :: "('v, 'json, 'x) worker_world"
  show "client_step j enc b64 w (snd (worker_call others call w))"
    using assms(1) [of w] assms(2) [where w = "others w" and s = "ww_store (others w)"]
    by (auto simp: worker_call_def Let_def client_step_def split: option.splits prod.splits
        intro: rtranclp.rtrancl_into_rtrancl)
qed

lemma confined_publish: "confined (client_step j enc b64) publish_discovery"
  by (simp add: confined_def publish_discovery_def exec_simps client_step_def)

lemma confined_then:
  assumes "confined (client_step j enc b64) m"
    and "\<And>r w w'. m w = (r, w') \<Longrightarrow> client_step j enc b64 w w' \<Longrightarrow> client_step j enc b64 w (snd (k r w'))"
  shows "confined (client_step j enc b64) (\<lambda>w. case m w of (r, w') \<Rightarrow> k r w')"
  unfolding confined_def using assms(2) worker_client.confined_run [OF assms(1)] by (auto split: prod.split)

lemma confined_hand_back:
  assumes "\<And>w. client_step j enc b64 w (others w)"
  shows "confined (client_step j enc b64) (hand_back others cfg wid e)"
  unfolding hand_back_def [abs_def]
proof (rule confined_then [OF confined_call [OF assms step_retry]], goal_cases)
  case (1 r w w')
  moreover have "client_step j enc b64 w (snd (publish_discovery w'))"
    using 1(2) confined_publish worker_client.effect_trans by (fastforce simp: confined_def)
  ultimately show ?case by (simp split: sum.split work_failure_disposition.split persistence_error.split)
qed

lemma confined_commit_work:
  assumes "\<And>w. client_step j enc b64 w (others w)"
  shows "confined (client_step j enc b64) (commit_work j out_of_range others cfg work)"
  unfolding commit_work_def [abs_def]
proof (rule confined_then [OF confined_call [OF assms step_observe]], goal_cases)
  case (1 r w w')
  moreover have "client_step j enc b64 w (snd (publish_discovery w'))"
    using 1(2) confined_publish worker_client.effect_trans by (fastforce simp: confined_def)
  moreover have "client_step j enc b64 w (snd (hand_back others cfg (cw_work_id work) e w'))" for e
    using 1(2) confined_hand_back [OF assms, of cfg "cw_work_id work" e] worker_client.effect_trans by (fastforce simp: confined_def)
  ultimately show ?case by (simp split: sum.split persistence_error.split)
qed

lemma confined_handle_work:
  assumes "\<And>w. client_step j enc b64 w (others w)"
  shows "confined (client_step j enc b64) (handle_work j out_of_range others cfg work)"
  unfolding handle_work_def [abs_def]
proof (rule confined_then [OF confined_call [OF assms step_renew]], goal_cases)
  case (1 r w w')
  moreover have "client_step j enc b64 w (snd (commit_work j out_of_range others cfg work w'))"
    using 1(2) confined_commit_work [OF assms, of out_of_range cfg work] worker_client.effect_trans by (fastforce simp: confined_def)
  ultimately show ?case by (simp split: sum.split persistence_error.split)
qed

lemma confined_work_through:
  assumes "\<And>w. client_step j enc b64 w (others w)"
  shows "confined (client_step j enc b64) (work_through j out_of_range others cfg works)"
proof (induction works)
  case (Cons work works)
  have "confined (client_step j enc b64)
      (exec_bind (handle_work j out_of_range others cfg work) (\<lambda>_. work_through j out_of_range others cfg works))"
    by (rule worker_client.confined_bind [OF confined_handle_work [OF assms] Cons.IH])
  then show ?case by (simp add: confined_def worker_client.effect_refl)
qed (simp add: worker_client.confined_pure)

lemma worker_run_confined:
  assumes "\<And>w. client_step j enc b64 w (others w)" and "run_discovery_worker j out_of_range others cfg w = Some (r, w')"
  shows "client_step j enc b64 w w'"
proof -
  have "(\<forall>w. client_step j enc b64 w (others w)) \<longrightarrow> client_step j enc b64 w (snd (r, w'))"
  proof (rule run_discovery_worker.raw_induct
      [where P = "\<lambda>j out_of_range others cfg w out. (\<forall>w. client_step j enc b64 w (others w)) \<longrightarrow> client_step j enc b64 w (snd out)",
        OF _ assms(2)], rule impI, goal_cases)
    case (1 run j out_of_range others cfg w out)
    have others: "\<And>w. client_step j enc b64 w (others w)" using 1(3) by blast
    have again: "client_step j enc b64 w' (snd out)" if "run j out_of_range others cfg w' = Some out" for w'
      using 1(1) [OF that] 1(3) by blast
    obtain rc w1 where claim: "claim_batch others cfg w = (rc, w1)" by fastforce
    have w1: "client_step j enc b64 w w1"
      using worker_client.confined_run [OF confined_call [OF others step_claim] claim [unfolded claim_batch_def]] .
    have through: "client_step j enc b64 w w2" if "work_through j out_of_range others cfg works w1 = (rt, w2)" for works rt w2
      using worker_client.confined_run [OF confined_work_through [OF others] that] w1 worker_client.effect_trans by blast
    have "client_step j enc b64 w (others w1)" using others w1 worker_client.effect_trans by blast
    with 1(2) claim w1 through show ?case
      by (auto simp: Let_def worker_client.effect_refl split: if_splits sum.splits prod.splits
          dest!: again intro: worker_client.effect_trans)
  qed
  then show ?thesis using assms(1) by simp
qed

text \<open>
  C18: no fact is lost between the decoder and the projection. Whatever event the program emitted and
  the decoder accepted, once it is normalized on a registry of markets that have names, the worker
  that holds the lease on it commits its candidate: the checks on the candidate, on its agreement with
  the observation and on the stored candidate all pass, the work is completed, and a candidate for the
  mint is stored. This holds in every reachable store with room in the running totals of the market,
  when candidates can be written as JSON.
\<close>

theorem normalized_facts_are_committed:
  fixes j :: "('x, 'v) window_json" and s :: "('v, 'json) discovery_store" and to_value :: "pump_event \<Rightarrow> ('j, 'json) result"
  assumes "decode_anchor_event program_id coordinate bytes = (Inr d :: ('b pump_error, decoded_pump_event) result)"
    and "\<not> trim_is_empty (signature coordinate)" and "unat (slot coordinate) < 2 ^ 63"
    and "market_reachable reg" and "registry_named reg"
    and "normalize_pump_event to_value sha256 base64_encode d n c received raw reg = Inr ne"
    and "token_codec j" and "encodes_all j" and "reachable_store j enc b64 s"
    and "lock_owned_work now wid worker s = (Inr work :: ('x persistence_error, _) result)"
    and "ow_work_kind work = ''DISCOVERY''" and "ow_observation work = norm_observation ne"
    and "\<not> trim_is_empty worker" and "activity_room s (norm_observation ne)"
  shows "\<exists>m s'. commit_discovery_observation j e now wid worker (discovery_candidate (ow_observation work)) s = (Inr m, s')
    \<and> find_token s' (mint (obs_market (norm_observation ne))) \<noteq> None
    \<and> (\<exists>w \<in> set (ds_work s'). wi_id w = wid) \<and> (\<forall>w \<in> set (ds_work s'). wi_id w = wid \<longrightarrow> wi_state w = WorkComplete)"
proof -
  have "key_coordinate (obs_key (norm_observation ne)) = coordinate"
    using assms(1,6) by (auto simp: normalize_pump_event_Inr decode_anchor_event_iff)
  then obtain m s' where s': "commit_discovery_observation j e now wid worker (discovery_candidate (norm_observation ne)) s = (Inr m, s')"
      "find_token s' (mint (obs_market (norm_observation ne))) \<noteq> None"
    and work: "ds_work s' = map (\<lambda>w. if wi_id w = wid then w\<lparr>wi_state := WorkComplete, wi_finished_at := Some now,
        wi_lease_owner := None, wi_lease_expires_at := None\<rparr> else w) (ds_work s)"
    using commit_succeeds [OF reachable_ok [OF assms(7,9)] assms(8) normalized_named [OF assms(1,2,4,5,6)] assms(13,10,11,12) _ assms(14)]
      assms(3) by metis
  obtain w0 where "w0 \<in> set (ds_work s)" "wi_id w0 = wid"
    using assms(10) by (auto simp: lock_owned_work_def owns_lease_def find_Some_iff split: option.splits) (metis nth_mem)
  then have "\<exists>w \<in> set (ds_work s'). wi_id w = wid" unfolding work set_map bex_simps(7) by (intro bexI [of _ w0]) simp_all
  moreover have "\<forall>w \<in> set (ds_work s'). wi_id w = wid \<longrightarrow> wi_state w = WorkComplete"
    unfolding work list_all_iff [symmetric] list.pred_map by (simp add: list_all_iff)
  ultimately show ?thesis using s' assms(12) by auto
qed

section \<open>A sale on its way\<close>

lemma claimed_after_insert:
  fixes obs :: "'json normalized_observation"
  assumes "prepare_observation b64 obs = (Inr () :: (unit persistence_error, unit) result)"
  defines "s1 \<equiv> snd (insert_observation b64 0 obs store_new :: (unit persistence_error, bool) result \<times> (example_json, 'json) discovery_store)"
  defines "s2 \<equiv> snd (claim_observation_work 0 [] ''DISCOVERY'' ''w'' 10 1000 s1 :: (unit persistence_error, _) result \<times> _)"
  shows "reachable_store example_codec example_settings b64 s2"
    and "lock_owned_work 1 1 ''w'' s2 = (Inr \<lparr>ow_work_id = 1, ow_observation_id = 1, ow_work_kind = ''DISCOVERY'',
      ow_attempts = 1, ow_observation = obs\<rparr> :: (unit persistence_error, _) result)"
    and "ds_activity s2 = (\<lambda>_. None)"
proof -
  have "reachable_store example_codec example_settings b64 s1"
    unfolding s1_def reachable_store_def by (intro r_into_rtranclp step_insert)
  then show "reachable_store example_codec example_settings b64 s2"
    unfolding s2_def by (rule reachable_step) (rule step_claim)
  have s1: "s1 = store_new\<lparr>ds_observations := [\<lparr>chain_id = 1, chain_first_seen_at = 0, chain_observation = obs\<rparr>],
     ds_next_observation_id := 2, ds_work := [new_work 1 1 0], ds_next_work_id := 2,
     ds_state := (ds_state store_new)\<lparr>ps_queued_facts := 1, ps_sequence := 2\<rparr>,
     ds_events := [(''DISCOVERY_QUEUED_FACTS_CHANGED'', 2)]\<rparr>"
    by (simp add: s1_def insert_observation_def commit_def insert_chain_observation_unprepared_def assms(1)
        insert_chain_observation_def store_new_def enqueue_discovery_work_def publish_defs new_work_def)
  have f1: "ds_work s1 = [new_work 1 1 0]" "ds_activity s1 = (\<lambda>_. None)"
    "ds_observations s1 = [\<lparr>chain_id = 1, chain_first_seen_at = 0, chain_observation = obs\<rparr>]"
    by (subst s1, simp add: store_new_def)+
  have s2: "ds_work s2 = [claim_update 0 ''w'' 1000 (new_work 1 1 0)]" "ds_observations s2 = ds_observations s1" "ds_activity s2 = ds_activity s1"
    by (simp_all add: s2_def f1 claim_observation_work_def require_non_empty_def printable_not_blank MAX_CLAIM_BATCH_def
        duration_millis_def i64_max_def Let_def select_ids_def claimable_work_def new_work_def update_work_def claimed_work_def
        find_observation_def del: trim_is_empty.simps)
  show "ds_activity s2 = (\<lambda>_. None)" by (simp add: s2 f1)
  show "lock_owned_work 1 1 ''w'' s2 = (Inr \<lparr>ow_work_id = 1, ow_observation_id = 1, ow_work_kind = ''DISCOVERY'',
      ow_attempts = 1, ow_observation = obs\<rparr> :: (unit persistence_error, _) result)"
    by (simp add: lock_owned_work_def s2 f1 owns_lease_def claim_update_def new_work_def find_observation_def)
qed

theorem normalized_facts_are_committed_witness:
  "\<exists>ne (s :: (example_json, unit) discovery_store) m s'. example_sale [65] = Inr ne \<and> reachable_store example_codec example_settings example_decode s
     \<and> commit_discovery_observation example_codec () 1 1 ''w'' (discovery_candidate (norm_observation ne)) s = (Inr m, s')
     \<and> find_token s' ''token'' \<noteq> None"
proof -
  obtain ne where ne: "example_sale [65] = Inr ne" using example_sale_ok [of "[65]"] by blast
  let ?obs = "norm_observation ne"
  let ?s = "snd (claim_observation_work 0 [] ''DISCOVERY'' ''w'' 10 1000 (snd (insert_observation example_decode 0 ?obs store_new
    :: (unit persistence_error, bool) result \<times> (example_json, unit) discovery_store)) :: (unit persistence_error, _) result \<times> _)"
  have obs: "obs_market ?obs = example_pool_market (example_key 9)" "key_network (obs_key ?obs) = SolanaMainnet"
    "source_evidence_base64 ?obs = ''A''" "key_coordinate (obs_key ?obs) = example_coordinate"
    "payload ?obs = Trade Buy (example_key 1) 8 5 (Some 80) (Some 50)"
    using ne unfolding example_sale_def
    by (auto simp: normalize_pump_event_Inr example_sell_event_def normalize_sell_def example_sell_def
        require_non_zero_trade_amounts_def example_pool_lookup orient_source_amounts_def Let_def example_encode_def char_of_byte_def char_of_eq_iff)
  have prepared: "prepare_observation example_decode ?obs = (Inr () :: (unit persistence_error, unit) result)"
    by (simp add: prepare_observation_def obs example_pool_market_def validate_evidence_base64_def require_non_empty_def printable_not_blank
        validate_length_def MAX_EVIDENCE_BASE64_BYTES_def example_decode_def example_coordinate_def event_coordinate_def to_i64_def i64_max_def
        del: trim_is_empty.simps)
  note claimed = claimed_after_insert [OF prepared]
  have "registry_named (example_pool_registry (example_key 9))"
    using encode_base58_not_blank [of "replicate 32 9"]
    by (auto simp: registry_named_def market_named_def example_pool_registry_def register_pump_swap_pool_def normalize_pump_swap_pair_def
        is_supported_quote_mint_def markets_insert_def market_registry_default_def pump_swap_market_identity_def Let_def
        printable_not_blank WRAPPED_SOL_MINT_def example_key_def simp del: trim_is_empty.simps split: if_splits)
  moreover have "activity_room s2 ?obs" if "ds_activity s2 = (\<lambda>_. None)" for s2 :: "(example_json, unit) discovery_store"
    using that by (simp add: activity_room_def obs count_trade_def empty_activity_def activity_fits_def i64_max_def)
  moreover have "encodes_all example_codec" by (simp add: encodes_all_def example_codec_def)
  moreover have "\<not> trim_is_empty (signature example_coordinate)" "unat (slot example_coordinate) < 2 ^ 63" "\<not> trim_is_empty ''w''"
    by (simp_all add: example_coordinate_def event_coordinate_def printable_not_blank del: trim_is_empty.simps)
  ultimately obtain m s' where "commit_discovery_observation example_codec () 1 1 ''w'' (discovery_candidate ?obs) ?s = (Inr m, s')"
    "find_token s' (mint (obs_market ?obs)) \<noteq> None"
    using normalized_facts_are_committed [OF example_sell_decodes [where 'b = unit] _ _ example_reachable _ ne [unfolded example_sale_def]
        example_token_codec _ claimed(1,2), of "()"] claimed(3)
    by auto
  moreover have "mint (obs_market ?obs) = ''token''" by (simp add: obs example_pool_market_def)
  ultimately have "commit_discovery_observation example_codec () 1 1 ''w'' (discovery_candidate ?obs) ?s = (Inr m, s')"
    "find_token s' ''token'' \<noteq> None" by simp_all
  then show ?thesis using ne claimed(1) by (intro exI [of _ ne] exI [of _ ?s] exI [of _ m] exI [of _ s'] conjI)
qed

end
