(* ===== verification/Settings_Store.thy ===== *)
theory Settings_Store
  imports Batch_Process Pipeline
begin

text \<open>
  The saved settings, \<open>crates/persistence/src/prefilter_defaults.rs\<close> and \<open>qualification_defaults.rs\<close>:
  two tables with a revision each, seeded once and replaced under an optimistic lock. Both promise the
  same to the operators who edit them, which the locale \<open>versioned_settings\<close> states and from which
  the history of accepted edits is derived once. A failing database is a parameter.
\<close>

section \<open>Prefilter settings\<close>

record prefilter_defaults_row =
  pfr_revision :: i64
  pfr_max_event_age_ms :: i64
  pfr_observation_window_ms :: i64
  pfr_max_active_windows :: i64
  pfr_rpc_requests_per_second :: i64
  pfr_rpc_max_in_flight :: i64
  pfr_rpc_request_timeout_ms :: i64
  pfr_rpc_rate_limit_cooldown_ms :: i64

definition i64_to_u32 :: "i64 \<Rightarrow> string \<Rightarrow> ('x persistence_error, u32) result" where
  "i64_to_u32 v field =
     (if 0 \<le> v \<and> v < 2 ^ 32 then Inr (of_int v) else Inl (InvalidStoredValue field (show_int v)))"

definition prefilter_from_row :: "prefilter_defaults_row \<Rightarrow> ('x persistence_error, stored_prefilter_defaults) result" where
  "prefilter_from_row row =
     result_bind (to_u64 (pfr_max_event_age_ms row) ''prefilter_defaults.max_event_age_ms'') (\<lambda>age.
     result_bind (to_u64 (pfr_observation_window_ms row) ''prefilter_defaults.observation_window_ms'') (\<lambda>window.
     result_bind (i64_to_u32 (pfr_max_active_windows row) ''prefilter_defaults.max_active_windows'') (\<lambda>active.
     result_bind (i64_to_u32 (pfr_rpc_requests_per_second row) ''prefilter_defaults.rpc_requests_per_second'') (\<lambda>rate.
     result_bind (i64_to_u32 (pfr_rpc_max_in_flight row) ''prefilter_defaults.rpc_max_in_flight'') (\<lambda>in_flight.
     result_bind (to_u64 (pfr_rpc_request_timeout_ms row) ''prefilter_defaults.rpc_request_timeout_ms'') (\<lambda>timeout.
     result_bind (to_u64 (pfr_rpc_rate_limit_cooldown_ms row) ''prefilter_defaults.rpc_rate_limit_cooldown_ms'') (\<lambda>cooldown.
     let values = \<lparr>pd_max_event_age_ms = age, pd_observation_window_ms = window, pd_max_active_windows = active,
           pd_rpc_requests_per_second = rate, pd_rpc_max_in_flight = in_flight, pd_rpc_request_timeout_ms = timeout,
           pd_rpc_rate_limit_cooldown_ms = cooldown\<rparr>
     in result_bind (map_err InvalidPrefilterDefaults (prefilter_validate values)) (\<lambda>_.
        result_bind (to_u64 (pfr_revision row) ''prefilter_defaults.revision'') (\<lambda>revision.
        Inr \<lparr>sp_values = values, sp_revision = revision\<rparr>)))))))))"

text \<open>The columns that \<open>INSERT\<close> and \<open>UPDATE\<close> bind.\<close>

definition prefilter_bind :: "i64 \<Rightarrow> prefilter_defaults \<Rightarrow> ('x persistence_error, prefilter_defaults_row) result" where
  "prefilter_bind revision v =
     result_bind (to_i64 (pd_max_event_age_ms v) ''max_event_age_ms'') (\<lambda>age.
     result_bind (to_i64 (pd_observation_window_ms v) ''observation_window_ms'') (\<lambda>window.
     result_bind (to_i64 (pd_rpc_request_timeout_ms v) ''rpc_request_timeout_ms'') (\<lambda>timeout.
     result_bind (to_i64 (pd_rpc_rate_limit_cooldown_ms v) ''rpc_rate_limit_cooldown_ms'') (\<lambda>cooldown.
     Inr \<lparr>pfr_revision = revision, pfr_max_event_age_ms = age, pfr_observation_window_ms = window,
          pfr_max_active_windows = int (unat (pd_max_active_windows v)),
          pfr_rpc_requests_per_second = int (unat (pd_rpc_requests_per_second v)),
          pfr_rpc_max_in_flight = int (unat (pd_rpc_max_in_flight v)),
          pfr_rpc_request_timeout_ms = timeout, pfr_rpc_rate_limit_cooldown_ms = cooldown\<rparr>))))"

text \<open>The table holds at most its one row; an absent row is an error of the database.\<close>

type_synonym prefilter_table = "prefilter_defaults_row option"

definition load_prefilter_defaults :: "'x \<Rightarrow> prefilter_table \<Rightarrow> ('x persistence_error, stored_prefilter_defaults) result" where
  "load_prefilter_defaults e t = (case t of None \<Rightarrow> Inl (DatabaseError e) | Some row \<Rightarrow> prefilter_from_row row)"

definition initialize_prefilter_defaults ::
    "'x \<Rightarrow> prefilter_defaults \<Rightarrow> prefilter_table
      \<Rightarrow> ('x persistence_error, stored_prefilter_defaults) result \<times> prefilter_table" where
  "initialize_prefilter_defaults e v t =
     (case result_bind (map_err InvalidPrefilterDefaults (prefilter_validate v)) (\<lambda>_. prefilter_bind 1 v) of
        Inl err \<Rightarrow> (Inl err, t)
      | Inr row \<Rightarrow>
          let t' = (case t of None \<Rightarrow> Some row | Some existing \<Rightarrow> Some existing)
          in (load_prefilter_defaults e t', t'))"

definition update_prefilter_defaults ::
    "'x \<Rightarrow> u64 \<Rightarrow> prefilter_defaults \<Rightarrow> prefilter_table
      \<Rightarrow> ('x persistence_error, stored_prefilter_defaults) result \<times> prefilter_table" where
  "update_prefilter_defaults e expected v t =
     (if expected = 0 then (Inl (MustBePositive ''prefilter expected_revision''), t)
      else case result_bind (map_err InvalidPrefilterDefaults (prefilter_validate v)) (\<lambda>_.
          result_bind (to_i64 expected ''prefilter expected_revision'') (\<lambda>revision.
          result_bind (prefilter_bind (revision + 1) v) (\<lambda>row. Inr (revision, row)))) of
        Inl err \<Rightarrow> (Inl err, t)
      | Inr (revision, row) \<Rightarrow>
          (case t of
             None \<Rightarrow> (Inl (PrefilterDefaultsRevisionConflict expected None), t)
           | Some current \<Rightarrow>
               if pfr_revision current = revision then
                 (if i64_max < revision + 1 then (Inl (DatabaseError e), t) else (prefilter_from_row row, Some row))
               else (result_bind (to_u64 (pfr_revision current) ''prefilter_defaults.revision'') (\<lambda>actual.
                   Inl (PrefilterDefaultsRevisionConflict expected (Some actual))), t)))"

section \<open>Qualification settings\<close>

record qualification_defaults_row =
  qdr_revision :: i64
  qdr_minimum_trades :: i64
  qdr_minimum_unique_traders :: i64
  qdr_minimum_buys :: i64
  qdr_minimum_sells :: i64
  qdr_minimum_native_quote_volume_units :: string
  qdr_minimum_stable_quote_volume_units :: string
  qdr_maximum_single_wallet_quote_share_bps :: int

definition parse_u64_decimal :: "string \<Rightarrow> string \<Rightarrow> ('x persistence_error, u64) result" where
  "parse_u64_decimal v field =
     (case parse_unsigned (2 ^ 64 - 1) v of None \<Rightarrow> Inl (InvalidStoredValue field v) | Some n \<Rightarrow> Inr (of_nat n))"

definition qualification_from_row ::
    "qualification_defaults_row \<Rightarrow> ('x persistence_error, stored_qualification_defaults) result" where
  "qualification_from_row row =
     result_bind (i64_to_u32 (qdr_minimum_trades row) ''minimum_trades'') (\<lambda>trades.
     result_bind (i64_to_u32 (qdr_minimum_unique_traders row) ''minimum_unique_traders'') (\<lambda>traders.
     result_bind (i64_to_u32 (qdr_minimum_buys row) ''minimum_buys'') (\<lambda>buys.
     result_bind (i64_to_u32 (qdr_minimum_sells row) ''minimum_sells'') (\<lambda>sells.
     result_bind (parse_u64_decimal (qdr_minimum_native_quote_volume_units row) ''minimum_native_quote_volume_units'') (\<lambda>native.
     result_bind (parse_u64_decimal (qdr_minimum_stable_quote_volume_units row) ''minimum_stable_quote_volume_units'') (\<lambda>stable.
     result_bind (let share = qdr_maximum_single_wallet_quote_share_bps row in
         if 0 \<le> share \<and> share < 2 ^ 16 then Inr (of_int share)
         else Inl (InvalidStoredValue ''maximum_single_wallet_quote_share_bps'' (show_int share))) (\<lambda>share.
     let values = \<lparr>qd_minimum_trades = trades, qd_minimum_unique_traders = traders, qd_minimum_buys = buys,
           qd_minimum_sells = sells, qd_minimum_native_quote_volume_units = native,
           qd_minimum_stable_quote_volume_units = stable, qd_maximum_single_wallet_quote_share_bps = share\<rparr>
     in result_bind (map_err InvalidQualificationDefaults (qualification_validate values)) (\<lambda>_.
        result_bind (to_u64 (qdr_revision row) ''qualification_defaults.revision'') (\<lambda>revision.
        Inr \<lparr>sq_values = values, sq_revision = revision\<rparr>)))))))))"

text \<open>The append-only revisions, the number the sequence gives next, and the current revision.\<close>

record qualification_table =
  qt_revisions :: "qualification_defaults_row list"
  qt_next_revision :: i64
  qt_current :: "i64 option"

definition insert_revision :: "qualification_defaults \<Rightarrow> qualification_table \<Rightarrow> i64 \<times> qualification_table" where
  "insert_revision v t =
     (qt_next_revision t,
      t\<lparr>qt_revisions := qt_revisions t @ [\<lparr>qdr_revision = qt_next_revision t,
          qdr_minimum_trades = int (unat (qd_minimum_trades v)),
          qdr_minimum_unique_traders = int (unat (qd_minimum_unique_traders v)),
          qdr_minimum_buys = int (unat (qd_minimum_buys v)), qdr_minimum_sells = int (unat (qd_minimum_sells v)),
          qdr_minimum_native_quote_volume_units = show_word (qd_minimum_native_quote_volume_units v),
          qdr_minimum_stable_quote_volume_units = show_word (qd_minimum_stable_quote_volume_units v),
          qdr_maximum_single_wallet_quote_share_bps = int (unat (qd_maximum_single_wallet_quote_share_bps v))\<rparr>],
        qt_next_revision := qt_next_revision t + 1\<rparr>)"

definition load_qualification_current ::
    "'x \<Rightarrow> qualification_table \<Rightarrow> ('x persistence_error, stored_qualification_defaults) result" where
  "load_qualification_current e t =
     (case qt_current t of
        None \<Rightarrow> Inl (DatabaseError e)
      | Some revision \<Rightarrow>
          (case find (\<lambda>r. qdr_revision r = revision) (qt_revisions t) of
             None \<Rightarrow> Inl (DatabaseError e)
           | Some row \<Rightarrow> qualification_from_row row))"

definition initialize_qualification_defaults ::
    "'x \<Rightarrow> qualification_defaults \<Rightarrow> qualification_table
      \<Rightarrow> ('x persistence_error, stored_qualification_defaults) result \<times> qualification_table" where
  "initialize_qualification_defaults e v t =
     (case map_err InvalidQualificationDefaults (qualification_validate v) of
        Inl err \<Rightarrow> (Inl err, t)
      | Inr _ \<Rightarrow>
          let t' = (if qt_current t = None
             then (case insert_revision v t of (revision, t1) \<Rightarrow> t1\<lparr>qt_current := Some revision\<rparr>) else t)
          in (load_qualification_current e t', t'))"

definition update_qualification_defaults ::
    "'x \<Rightarrow> u64 \<Rightarrow> qualification_defaults \<Rightarrow> qualification_table
      \<Rightarrow> ('x persistence_error, stored_qualification_defaults) result \<times> qualification_table" where
  "update_qualification_defaults e expected v t =
     (if expected = 0 then (Inl (MustBePositive ''qualification expected_revision''), t)
      else case result_bind (map_err InvalidQualificationDefaults (qualification_validate v)) (\<lambda>_.
          to_i64 expected ''qualification expected_revision'') of
        Inl err \<Rightarrow> (Inl err, t)
      | Inr revision \<Rightarrow>
          if qt_current t \<noteq> Some revision then
            (case qt_current t of
               None \<Rightarrow> Inl (QualificationDefaultsRevisionConflict expected None)
             | Some actual \<Rightarrow> result_bind (to_u64 actual ''qualification_defaults_current.revision'') (\<lambda>actual.
                 Inl (QualificationDefaultsRevisionConflict expected (Some actual))), t)
          else
            (case insert_revision v t of (next_revision, t1) \<Rightarrow>
               let t' = t1\<lparr>qt_current := Some next_revision\<rparr> in (load_qualification_current e t', t')))"

section \<open>What both promise\<close>

text \<open>
  An edit of an operator or of a starting server, and the history of accepted values: the first
  initialization is accepted, and an update that names the current revision.
\<close>

datatype 'v settings_edit = Initialize 'v | Update u64 'v

fun accept_edit :: "('v \<Rightarrow> bool) \<Rightarrow> 'v settings_edit \<Rightarrow> 'v list \<Rightarrow> 'v list" where
  "accept_edit ok (Initialize v) h = (if h = [] \<and> ok v then [v] else h)"
| "accept_edit ok (Update expected v) h = (if h \<noteq> [] \<and> ok v \<and> unat expected = length h then h @ [v] else h)"

lemma length_accept_edit: "length (accept_edit ok x h) \<le> Suc (length h)"
  by (cases x) simp_all

lemma length_accepted: "length (fold (accept_edit ok) xs h) \<le> length xs + length h"
proof (induction xs arbitrary: h)
  case (Cons x xs)
  then show ?case using length_accept_edit [of ok x h] by (fastforce intro: order_trans)
qed simp

lemma accepted_all: "list_all ok h \<Longrightarrow> list_all ok (fold (accept_edit ok) xs h)"
proof (induction xs arbitrary: h)
  case (Cons x xs)
  moreover have "list_all ok (accept_edit ok x h)" using Cons.prems by (cases x) simp_all
  ultimately show ?case by simp
qed simp

locale versioned_settings =
  fixes empty :: 't and init :: "'v \<Rightarrow> 't \<Rightarrow> 't" and update :: "u64 \<Rightarrow> 'v \<Rightarrow> 't \<Rightarrow> 't"
    and load :: "'t \<Rightarrow> ('v \<times> u64) option" and ok :: "'v \<Rightarrow> bool" and holds :: "'t \<Rightarrow> 'v list \<Rightarrow> bool"
  assumes holds_empty: "holds empty []"
    and init_first: "holds t [] \<Longrightarrow> ok v \<Longrightarrow> holds (init v t) [v]"
    and init_again: "holds t h \<Longrightarrow> h \<noteq> [] \<or> \<not> ok v \<Longrightarrow> init v t = t"
    and update_current: "holds t h \<Longrightarrow> h \<noteq> [] \<Longrightarrow> ok v \<Longrightarrow> unat expected = length h \<Longrightarrow> length h < 2 ^ 63 - 1
      \<Longrightarrow> holds (update expected v t) (h @ [v])"
    and update_stale: "holds t h \<Longrightarrow> h = [] \<or> \<not> ok v \<or> unat expected \<noteq> length h \<Longrightarrow> update expected v t = t"
    and load_latest: "holds t h \<Longrightarrow> load t = (if h = [] then None else Some (last h, of_nat (length h)))"
begin

fun edit :: "'v settings_edit \<Rightarrow> 't \<Rightarrow> 't" where
  "edit (Initialize v) t = init v t"
| "edit (Update expected v) t = update expected v t"

lemma edit_holds:
  assumes "holds t h" and "length h < 2 ^ 63 - 1"
  shows "holds (edit x t) (accept_edit ok x h)"
proof (cases x)
  case (Initialize v)
  then show ?thesis
    using assms(1) init_first [of t v] init_again [OF assms(1), of v] by (cases "h = [] \<and> ok v") auto
next
  case (Update expected v)
  then show ?thesis
    using update_current [OF assms(1) _ _ _ assms(2), of v expected] update_stale [OF assms(1), of v expected] assms(1)
    by (cases "h \<noteq> [] \<and> ok v \<and> unat expected = length h") auto
qed

lemma edits_hold:
  "holds t h \<Longrightarrow> length h + length xs < 2 ^ 63 \<Longrightarrow> holds (fold edit xs t) (fold (accept_edit ok) xs h)"
proof (induction xs arbitrary: t h)
  case (Cons x xs)
  moreover have "length (accept_edit ok x h) + length xs < 2 ^ 63"
    using Cons.prems(2) length_accept_edit [of ok x h] by simp
  ultimately show ?case using edit_holds [of t h x] by simp
qed simp

lemma load_after:
  "length xs < 2 ^ 63 \<Longrightarrow> load (fold edit xs empty) =
     (let h = fold (accept_edit ok) xs [] in if h = [] then None else Some (last h, of_nat (length h)))"
  using load_latest [OF edits_hold [OF holds_empty]] by (simp add: Let_def)

text \<open>Of two updates that name the same revision, whatever happens between, one changes nothing.\<close>

lemma no_lost_update:
  assumes "holds t h" and "update expected v t \<noteq> t" and "length h + length xs < 2 ^ 63 - 1"
  shows "update expected w (fold edit xs (update expected v t)) = fold edit xs (update expected v t)"
proof -
  have h: "h \<noteq> []" "ok v" "unat expected = length h" using update_stale [OF assms(1), of v expected] assms(2) by blast+
  have longer: "length h' \<le> length (fold (accept_edit ok) xs h')" for h'
  proof (induction xs arbitrary: h')
    case (Cons x xs)
    have "length h' \<le> length (accept_edit ok x h')" by (cases x) simp_all
    then show ?case using Cons [of "accept_edit ok x h'"] by simp
  qed simp
  have "holds (fold edit xs (update expected v t)) (fold (accept_edit ok) xs (h @ [v]))"
    using assms(3) by (intro edits_hold update_current [OF assms(1) h]) simp_all
  then show ?thesis using longer [of "h @ [v]"] h(3) by (intro update_stale) auto
qed

end

section \<open>Both tables keep the promise\<close>

lemma i64_to_u32_uint: "i64_to_u32 (uint x) field = Inr x"
  using uint_lt2p [of x] by (simp add: i64_to_u32_def)

lemma to_u64_uint: "to_u64 (uint x) field = Inr x"
  by (simp add: to_u64_def)

lemma to_u64_of_nat: "to_u64 (int n) field = Inr (of_nat n)"
  by (simp add: to_u64_def)

lemma revision_eq: "int n = uint x \<longleftrightarrow> n = unat x"
  by (metis uint_nat of_nat_eq_iff)

text \<open>The row that holds given values under a revision.\<close>

definition prefilter_row :: "nat \<Rightarrow> prefilter_defaults \<Rightarrow> prefilter_defaults_row" where
  "prefilter_row n v =
     \<lparr>pfr_revision = int n, pfr_max_event_age_ms = uint (pd_max_event_age_ms v),
      pfr_observation_window_ms = uint (pd_observation_window_ms v), pfr_max_active_windows = uint (pd_max_active_windows v),
      pfr_rpc_requests_per_second = uint (pd_rpc_requests_per_second v), pfr_rpc_max_in_flight = uint (pd_rpc_max_in_flight v),
      pfr_rpc_request_timeout_ms = uint (pd_rpc_request_timeout_ms v),
      pfr_rpc_rate_limit_cooldown_ms = uint (pd_rpc_rate_limit_cooldown_ms v)\<rparr>"

lemma prefilter_row_revision [simp]: "pfr_revision (prefilter_row n v) = int n"
  by (simp add: prefilter_row_def)

lemma prefilter_bound:
  assumes "prefilter_validate v = Inr ()"
  shows "prefilter_bind (int n) v = Inr (prefilter_row n v)"
proof -
  have small: "unat (pd_max_event_age_ms v) < 2 ^ 63" "unat (pd_observation_window_ms v) < 2 ^ 63"
    "unat (pd_rpc_request_timeout_ms v) < 2 ^ 63" "unat (pd_rpc_rate_limit_cooldown_ms v) < 2 ^ 63"
    using assms unfolding prefilter_validate_Inr by simp_all
  then show ?thesis by (simp add: prefilter_bind_def to_i64_small prefilter_row_def)
qed

lemma prefilter_read:
  "prefilter_validate v = Inr () \<Longrightarrow> prefilter_from_row (prefilter_row n v) = Inr \<lparr>sp_values = v, sp_revision = of_nat n\<rparr>"
  by (cases v) (simp add: prefilter_from_row_def prefilter_row_def to_u64_uint to_u64_of_nat i64_to_u32_uint map_err_def Let_def)

definition prefilter_holds :: "prefilter_table \<Rightarrow> prefilter_defaults list \<Rightarrow> bool" where
  "prefilter_holds t h \<longleftrightarrow>
     list_all (\<lambda>v. prefilter_validate v = Inr ()) h
     \<and> t = (if h = [] then None else Some (prefilter_row (length h) (last h)))"

definition loaded_prefilter :: "prefilter_table \<Rightarrow> (prefilter_defaults \<times> u64) option" where
  "loaded_prefilter t =
     (case load_prefilter_defaults () t of Inl _ \<Rightarrow> None | Inr s \<Rightarrow> Some (sp_values s, sp_revision s))"

interpretation saved_prefilter: versioned_settings None "\<lambda>v t. snd (initialize_prefilter_defaults () v t)"
    "\<lambda>n v t. snd (update_prefilter_defaults () n v t)" loaded_prefilter "\<lambda>v. prefilter_validate v = Inr ()" prefilter_holds
proof
  show "prefilter_holds None []" by (simp add: prefilter_holds_def)
next
  fix t v assume "prefilter_holds t []" and ok: "prefilter_validate v = Inr ()"
  then show "prefilter_holds (snd (initialize_prefilter_defaults () v t)) [v]"
    using prefilter_bound [OF ok, of 1, where 'a = unit]
    by (simp add: prefilter_holds_def initialize_prefilter_defaults_def map_err_def Let_def)
next
  fix t h v assume "prefilter_holds t h" and "h \<noteq> [] \<or> prefilter_validate v \<noteq> Inr ()"
  then show "snd (initialize_prefilter_defaults () v t) = t"
    by (auto simp: prefilter_holds_def initialize_prefilter_defaults_def map_err_def Let_def split: sum.splits option.splits)
next
  fix t h v and expected :: u64
  assume t: "prefilter_holds t h" "h \<noteq> []" and ok: "prefilter_validate v = Inr ()" and n: "unat expected = length h" "length h < 2 ^ 63 - 1"
  have "expected \<noteq> 0" using t(2) n(1) by auto
  moreover have "to_i64 expected ''prefilter expected_revision'' = (Inr (int (length h)) :: (unit persistence_error, _) result)"
    using n to_i64_small [of expected] by simp
  moreover have "prefilter_bind (int (length h) + 1) v = (Inr (prefilter_row (Suc (length h)) v) :: (unit persistence_error, _) result)"
    using prefilter_bound [OF ok, of "Suc (length h)"] by (simp add: add.commute)
  moreover have "\<not> i64_max < int (length h) + 1" using n(2) by (simp add: i64_max_def)
  ultimately show "prefilter_holds (snd (update_prefilter_defaults () expected v t)) (h @ [v])"
    using t ok by (simp add: prefilter_holds_def update_prefilter_defaults_def map_err_def)
next
  fix t h v and expected :: u64
  assume "prefilter_holds t h" and "h = [] \<or> prefilter_validate v \<noteq> Inr () \<or> unat expected \<noteq> length h"
  then show "snd (update_prefilter_defaults () expected v t) = t"
    by (auto simp: prefilter_holds_def update_prefilter_defaults_def map_err_def to_i64_def result_simps revision_eq
        split: sum.splits option.splits if_splits)
next
  fix t h assume "prefilter_holds t h"
  then show "loaded_prefilter t = (if h = [] then None else Some (last h, of_nat (length h)))"
    using prefilter_read [of "last h" "length h", where 'a = unit]
    by (auto simp: prefilter_holds_def loaded_prefilter_def load_prefilter_defaults_def list_all_iff)
qed

definition qualification_row :: "nat \<Rightarrow> qualification_defaults \<Rightarrow> qualification_defaults_row" where
  "qualification_row n v =
     \<lparr>qdr_revision = int n, qdr_minimum_trades = uint (qd_minimum_trades v),
      qdr_minimum_unique_traders = uint (qd_minimum_unique_traders v), qdr_minimum_buys = uint (qd_minimum_buys v),
      qdr_minimum_sells = uint (qd_minimum_sells v),
      qdr_minimum_native_quote_volume_units = show_word (qd_minimum_native_quote_volume_units v),
      qdr_minimum_stable_quote_volume_units = show_word (qd_minimum_stable_quote_volume_units v),
      qdr_maximum_single_wallet_quote_share_bps = uint (qd_maximum_single_wallet_quote_share_bps v)\<rparr>"

lemma parse_shown: "parse_u64_decimal (show_word x) field = Inr x" for x :: u64
proof -
  have "unat x \<le> 2 ^ 64 - 1" using unat_bound [of x] by simp
  then show ?thesis by (simp add: parse_u64_decimal_def show_word_def parse_unsigned_show_nat)
qed

lemma qualification_read:
  "qualification_validate v = Inr () \<Longrightarrow>
     qualification_from_row (qualification_row n v) = Inr \<lparr>sq_values = v, sq_revision = of_nat n\<rparr>"
  using uint_lt2p [of "qd_maximum_single_wallet_quote_share_bps v"]
  by (cases v) (simp add: qualification_from_row_def qualification_row_def to_u64_of_nat i64_to_u32_uint parse_shown map_err_def Let_def)

text \<open>Every accepted revision stays in the table under its number.\<close>

definition qualification_rows :: "qualification_defaults list \<Rightarrow> qualification_defaults_row list" where
  "qualification_rows h = map (\<lambda>i. qualification_row (Suc i) (h ! i)) [0..<length h]"

lemma qualification_rows_snoc: "qualification_rows (h @ [v]) = qualification_rows h @ [qualification_row (Suc (length h)) v]"
  by (simp add: qualification_rows_def nth_append)

lemma qualification_rows_find:
  assumes "i < length h"
  shows "find (\<lambda>r. qdr_revision r = int (Suc i)) (qualification_rows h) = Some (qualification_row (Suc i) (h ! i))"
proof -
  have "length (qualification_rows h) = length h" by (simp add: qualification_rows_def)
  moreover have "qualification_rows h ! k = qualification_row (Suc k) (h ! k)" if "k < length h" for k
    using that by (simp add: qualification_rows_def)
  ultimately show ?thesis using assms by (auto simp: find_Some_iff qualification_row_def intro!: exI [of _ i])
qed

definition qualification_holds :: "qualification_table \<Rightarrow> qualification_defaults list \<Rightarrow> bool" where
  "qualification_holds t h \<longleftrightarrow>
     list_all (\<lambda>v. qualification_validate v = Inr ()) h \<and> qt_revisions t = qualification_rows h
     \<and> qt_next_revision t = int (Suc (length h)) \<and> qt_current t = (if h = [] then None else Some (int (length h)))"

definition qualification_table_new :: qualification_table where
  "qualification_table_new = \<lparr>qt_revisions = [], qt_next_revision = 1, qt_current = None\<rparr>"

definition loaded_qualification :: "qualification_table \<Rightarrow> (qualification_defaults \<times> u64) option" where
  "loaded_qualification t =
     (case load_qualification_current () t of Inl _ \<Rightarrow> None | Inr s \<Rightarrow> Some (sq_values s, sq_revision s))"

lemma inserted_revision:
  assumes "qualification_holds t h" and "qualification_validate v = Inr ()"
  shows "qualification_holds ((snd (insert_revision v t))\<lparr>qt_current := Some (fst (insert_revision v t))\<rparr>) (h @ [v])"
  using assms by (simp add: qualification_holds_def insert_revision_def qualification_rows_snoc qualification_row_def)

lemma qualification_loads:
  assumes "qualification_holds t h"
  shows "load_qualification_current e t =
    (if h = [] then Inl (DatabaseError e) else Inr \<lparr>sq_values = last h, sq_revision = of_nat (length h)\<rparr>)"
proof (cases h rule: rev_cases)
  case Nil
  then show ?thesis using assms by (simp add: qualification_holds_def load_qualification_current_def)
next
  case (snoc h' v)
  have "find (\<lambda>r. qdr_revision r = int (length h)) (qt_revisions t) = Some (qualification_row (length h) v)"
    using qualification_rows_find [of "length h'" h] assms snoc by (simp add: qualification_holds_def nth_append)
  then show ?thesis
    using assms snoc by (simp add: qualification_holds_def load_qualification_current_def qualification_read)
qed

interpretation saved_qualification: versioned_settings qualification_table_new
    "\<lambda>v t. snd (initialize_qualification_defaults () v t)" "\<lambda>n v t. snd (update_qualification_defaults () n v t)"
    loaded_qualification "\<lambda>v. qualification_validate v = Inr ()" qualification_holds
proof
  show "qualification_holds qualification_table_new []"
    by (simp add: qualification_holds_def qualification_table_new_def qualification_rows_def)
next
  fix t v assume t: "qualification_holds t []" and ok: "qualification_validate v = Inr ()"
  then show "qualification_holds (snd (initialize_qualification_defaults () v t)) [v]"
    using inserted_revision [OF t ok]
    by (cases "insert_revision v t") (simp add: initialize_qualification_defaults_def map_err_def qualification_holds_def Let_def)
next
  fix t h v assume "qualification_holds t h" and "h \<noteq> [] \<or> qualification_validate v \<noteq> Inr ()"
  then show "snd (initialize_qualification_defaults () v t) = t"
    by (auto simp: qualification_holds_def initialize_qualification_defaults_def map_err_def Let_def split: sum.splits)
next
  fix t h v and expected :: u64
  assume t: "qualification_holds t h" "h \<noteq> []" and ok: "qualification_validate v = Inr ()"
    and n: "unat expected = length h" "length h < 2 ^ 63 - 1"
  have "expected \<noteq> 0" using t(2) n(1) by auto
  moreover have "to_i64 expected ''qualification expected_revision'' = (Inr (int (length h)) :: (unit persistence_error, _) result)"
    using n to_i64_small [of expected] by simp
  moreover have "qt_current t = Some (int (length h))" using t by (simp add: qualification_holds_def)
  ultimately show "qualification_holds (snd (update_qualification_defaults () expected v t)) (h @ [v])"
    using inserted_revision [OF t(1) ok] ok
    by (cases "insert_revision v t") (simp add: update_qualification_defaults_def map_err_def Let_def)
next
  fix t h v and expected :: u64
  assume "qualification_holds t h" and "h = [] \<or> qualification_validate v \<noteq> Inr () \<or> unat expected \<noteq> length h"
  then show "snd (update_qualification_defaults () expected v t) = t"
    by (auto simp: qualification_holds_def update_qualification_defaults_def map_err_def to_i64_def result_simps revision_eq
        split: sum.splits option.splits if_splits)
next
  fix t h assume "qualification_holds t h"
  then show "loaded_qualification t = (if h = [] then None else Some (last h, of_nat (length h)))"
    by (simp add: loaded_qualification_def qualification_loads)
qed

section \<open>The history of edits\<close>

definition edit_prefilter :: "prefilter_defaults settings_edit \<Rightarrow> prefilter_table \<Rightarrow> prefilter_table" where
  "edit_prefilter x t =
     (case x of
        Initialize v \<Rightarrow> snd (initialize_prefilter_defaults () v t)
      | Update expected v \<Rightarrow> snd (update_prefilter_defaults () expected v t))"

definition edit_qualification :: "qualification_defaults settings_edit \<Rightarrow> qualification_table \<Rightarrow> qualification_table" where
  "edit_qualification x t =
     (case x of
        Initialize v \<Rightarrow> snd (initialize_qualification_defaults () v t)
      | Update expected v \<Rightarrow> snd (update_qualification_defaults () expected v t))"


definition example_saved_prefilter :: prefilter_defaults where
  "example_saved_prefilter = \<lparr>pd_max_event_age_ms = 15000, pd_observation_window_ms = 60000, pd_max_active_windows = 128,
     pd_rpc_requests_per_second = 1, pd_rpc_max_in_flight = 4, pd_rpc_request_timeout_ms = 5000,
     pd_rpc_rate_limit_cooldown_ms = 5000\<rparr>"


end
