(* ===== verification/Durable_Facts.thy ===== *)
theory Durable_Facts
  imports Batch_Process Discovery_Projection
begin

text \<open>
  The small durable facts of \<open>crates/persistence/src\<close>: recovery checkpoints (\<open>checkpoints.rs\<close>),
  PumpSwap pool identities (\<open>pump_swap.rs\<close>), the network a database belongs to
  (\<open>network_binding.rs\<close>), quarantined evidence (\<open>quarantine.rs\<close>) and collection gaps
  (\<open>collection_gaps.rs\<close>). Each is one table behind an insertion that may meet an existing row; a
  statement whose guard fails leaves the row as it was. A failing database is a parameter, and a
  text column is ordered by the rank its collation gives a text, a parameter too.
\<close>

section \<open>Insertions that meet a row\<close>

text \<open>\<open>INSERT ... ON CONFLICT (key) DO UPDATE ... WHERE guard\<close>, and whether a row is returned.\<close>

definition on_conflict_update ::
    "('r \<Rightarrow> 'r \<Rightarrow> bool) \<Rightarrow> ('r \<Rightarrow> 'r \<Rightarrow> 'r) \<Rightarrow> 'k \<Rightarrow> 'r \<Rightarrow> ('k \<rightharpoonup> 'r) \<Rightarrow> bool \<times> ('k \<rightharpoonup> 'r)" where
  "on_conflict_update guard merge k r t =
     (case t k of
        None \<Rightarrow> (True, t(k \<mapsto> r))
      | Some old \<Rightarrow> if guard old r then (True, t(k \<mapsto> merge old r)) else (False, t))"

definition option_result :: "('a \<Rightarrow> ('e, 'b) result) \<Rightarrow> 'a option \<Rightarrow> ('e, 'b option) result" where
  "option_result f x = (case x of None \<Rightarrow> Inr None | Some a \<Rightarrow> result_bind (f a) (\<lambda>b. Inr (Some b)))"

section \<open>Recovery checkpoints\<close>

record stored_checkpoint =
  ckp_network :: network
  ckp_source_program :: source_program
  ckp_checkpoint_kind :: string
  ckp_last_slot :: u64
  ckp_last_transaction_index :: "u64 option"
  ckp_last_signature :: string

record checkpoint_row =
  cpr_last_slot :: i64
  cpr_last_transaction_index :: "i64 option"
  cpr_last_signature :: string

type_synonym checkpoint_table = "string \<times> string \<times> string \<rightharpoonup> checkpoint_row"

definition load_recovery_checkpoint ::
    "network \<Rightarrow> source_program \<Rightarrow> string \<Rightarrow> checkpoint_table \<Rightarrow> ('x persistence_error, stored_checkpoint option) result" where
  "load_recovery_checkpoint net program kind t =
     result_bind (require_non_empty kind ''checkpoint_kind'') (\<lambda>_.
     option_result (\<lambda>row.
       result_bind (to_u64 (cpr_last_slot row) ''recovery_checkpoints.last_slot'') (\<lambda>last_slot.
       result_bind (option_result (\<lambda>v. to_u64 v ''recovery_checkpoints.last_transaction_index'')
           (cpr_last_transaction_index row)) (\<lambda>last_transaction_index.
       Inr \<lparr>ckp_network = net, ckp_source_program = program, ckp_checkpoint_kind = kind, ckp_last_slot = last_slot,
            ckp_last_transaction_index = last_transaction_index, ckp_last_signature = cpr_last_signature row\<rparr>)))
       (t (network_name net, source_program_name program, kind)))"

definition checkpoint_advances :: "checkpoint_row \<Rightarrow> checkpoint_row \<Rightarrow> bool" where
  "checkpoint_advances old new \<longleftrightarrow>
     cpr_last_slot old < cpr_last_slot new
     \<or> cpr_last_slot old = cpr_last_slot new
       \<and> (case (cpr_last_transaction_index old, cpr_last_transaction_index new) of
            (Some i, Some j) \<Rightarrow> i < j | _ \<Rightarrow> False)"

definition checkpoint_bind :: "stored_checkpoint \<Rightarrow> ('x persistence_error, checkpoint_row) result" where
  "checkpoint_bind c =
     result_bind (require_non_empty (ckp_checkpoint_kind c) ''checkpoint_kind'') (\<lambda>_.
     result_bind (require_non_empty (ckp_last_signature c) ''last_signature'') (\<lambda>_.
     result_bind (to_i64 (ckp_last_slot c) ''last_slot'') (\<lambda>last_slot.
     result_bind (option_result (\<lambda>v. to_i64 v ''last_transaction_index'') (ckp_last_transaction_index c)) (\<lambda>index.
     Inr \<lparr>cpr_last_slot = last_slot, cpr_last_transaction_index = index, cpr_last_signature = ckp_last_signature c\<rparr>))))"

definition checkpoint_key :: "stored_checkpoint \<Rightarrow> string \<times> string \<times> string" where
  "checkpoint_key c = (network_name (ckp_network c), source_program_name (ckp_source_program c), ckp_checkpoint_kind c)"

definition save_recovery_checkpoint ::
    "stored_checkpoint \<Rightarrow> checkpoint_table \<Rightarrow> ('x persistence_error, bool) result \<times> checkpoint_table" where
  "save_recovery_checkpoint c t =
     (case checkpoint_bind c of
        Inl err \<Rightarrow> (Inl err, t)
      | Inr row \<Rightarrow>
          (case on_conflict_update checkpoint_advances (\<lambda>_ new. new) (checkpoint_key c) row t of
             (updated, t') \<Rightarrow> (Inr updated, t')))"

section \<open>Pool identities\<close>

record pump_swap_pool_columns =
  psr_pool_address :: string
  psr_base_mint :: string
  psr_quote_mint :: string
  psr_observed_slot :: i64
  psr_observed_signature :: string

type_synonym pool_table = "string \<times> string \<rightharpoonup> pump_swap_pool_columns"

definition pool_from_row :: "network \<Rightarrow> pump_swap_pool_columns \<Rightarrow> ('x persistence_error, pump_swap_pool_row) result" where
  "pool_from_row net row =
     result_bind (to_u64 (psr_observed_slot row) ''pump_swap_pools.observed_slot'') (\<lambda>observed_slot.
     Inr \<lparr>swap_pool_network = net, swap_pool_address = psr_pool_address row, swap_pool_base_mint = psr_base_mint row,
          swap_pool_quote_mint = psr_quote_mint row, swap_pool_observed_slot = observed_slot,
          swap_pool_observed_signature = psr_observed_signature row\<rparr>)"

definition validate_pool :: "pump_swap_pool_row \<Rightarrow> ('x persistence_error, unit) result" where
  "validate_pool p =
     result_bind (require_non_empty (swap_pool_address p) ''PumpSwap pool_address'') (\<lambda>_.
     result_bind (require_non_empty (swap_pool_base_mint p) ''PumpSwap base_mint'') (\<lambda>_.
     result_bind (require_non_empty (swap_pool_quote_mint p) ''PumpSwap quote_mint'') (\<lambda>_.
     result_bind (require_non_empty (swap_pool_observed_signature p) ''PumpSwap observed_signature'') (\<lambda>_.
     if swap_pool_base_mint p = swap_pool_quote_mint p then Inl IdenticalPoolMints else Inr ()))))"

definition load_pump_swap_pool ::
    "network \<Rightarrow> string \<Rightarrow> pool_table \<Rightarrow> ('x persistence_error, pump_swap_pool_row option) result" where
  "load_pump_swap_pool net address t =
     result_bind (require_non_empty address ''PumpSwap pool_address'') (\<lambda>_.
     option_result (pool_from_row net) (t (network_name net, address)))"

definition pool_supersedes :: "pump_swap_pool_columns \<Rightarrow> pump_swap_pool_columns \<Rightarrow> bool" where
  "pool_supersedes old new \<longleftrightarrow>
     psr_base_mint old = psr_base_mint new \<and> psr_quote_mint old = psr_quote_mint new
     \<and> psr_observed_slot old \<le> psr_observed_slot new"

definition pool_bind :: "pump_swap_pool_row \<Rightarrow> ('x persistence_error, pump_swap_pool_columns) result" where
  "pool_bind p =
     result_bind (validate_pool p) (\<lambda>_.
     result_bind (to_i64 (swap_pool_observed_slot p) ''PumpSwap observed_slot'') (\<lambda>observed_slot.
     Inr \<lparr>psr_pool_address = swap_pool_address p, psr_base_mint = swap_pool_base_mint p,
          psr_quote_mint = swap_pool_quote_mint p, psr_observed_slot = observed_slot,
          psr_observed_signature = swap_pool_observed_signature p\<rparr>))"

definition pool_key :: "pump_swap_pool_row \<Rightarrow> string \<times> string" where
  "pool_key p = (network_name (swap_pool_network p), swap_pool_address p)"

definition upsert_swap_pool ::
    "pump_swap_pool_row \<Rightarrow> pool_table \<Rightarrow> ('x persistence_error, bool) result \<times> pool_table" where
  "upsert_swap_pool p t =
     (case pool_bind p of
        Inl err \<Rightarrow> (Inl err, t)
      | Inr row \<Rightarrow>
          (case on_conflict_update pool_supersedes (\<lambda>_ new. new) (pool_key p) row t of
             (True, t') \<Rightarrow> (Inr True, t')
           | (False, t') \<Rightarrow>
               (result_bind (load_pump_swap_pool (swap_pool_network p) (swap_pool_address p) t') (\<lambda>existing.
                  case existing of
                    None \<Rightarrow> Inr False
                  | Some existing \<Rightarrow>
                      if swap_pool_base_mint existing \<noteq> swap_pool_base_mint p
                         \<or> swap_pool_quote_mint existing \<noteq> swap_pool_quote_mint p
                      then Inl (PumpSwapPoolIdentityConflict (swap_pool_address p)) else Inr False), t')))"

section \<open>The network of the database\<close>

type_synonym network_binding = "string option"

definition bind_network :: "network \<Rightarrow> network_binding \<Rightarrow> ('x persistence_error, bool) result \<times> network_binding" where
  "bind_network net t =
     (let (inserted, bound) = (case t of None \<Rightarrow> (True, network_name net) | Some bound \<Rightarrow> (False, bound))
      in case parse_network bound of
           Inl err \<Rightarrow> (Inl err, t)
         | Inr bound_network \<Rightarrow>
             if bound_network \<noteq> net then (Inl (DatabaseNetworkMismatch bound_network net), t)
             else (Inr inserted, Some bound))"

definition bound_network :: "network_binding \<Rightarrow> ('x persistence_error, network option) result" where
  "bound_network t = option_result parse_network t"

section \<open>Quarantined evidence\<close>

record stored_quarantine_row =
  sqr_transaction_index :: "i64 option"
  sqr_decoder_version :: string
  sqr_reason_code :: string
  sqr_reason_detail :: string
  sqr_evidence_base64 :: string
  sqr_occurrences :: i64
  sqr_first_seen_at :: int
  sqr_last_seen_at :: int

type_synonym quarantine_key = "string \<times> string \<times> i64 \<times> string \<times> int \<times> int"
type_synonym quarantine_table = "quarantine_key \<rightharpoonup> stored_quarantine_row"

definition MAX_DECODER_VERSION_BYTES :: usize where
  "MAX_DECODER_VERSION_BYTES = 128"

definition MAX_REASON_CODE_BYTES :: usize where
  "MAX_REASON_CODE_BYTES = 128"

definition MAX_REASON_DETAIL_BYTES :: usize where
  "MAX_REASON_DETAIL_BYTES = 2048"

text \<open>A detail is the text its parts are printed as; how foreign errors print is a parameter.\<close>

definition validate_record ::
    "(string \<Rightarrow> ('b, u8 list) result) \<Rightarrow> (('b, 'j) reason_detail \<Rightarrow> string) \<Rightarrow> ('b, 'j) intake_quarantine_record
      \<Rightarrow> ('x persistence_error, unit) result" where
  "validate_record base64_decode detail_text r =
     result_bind (require_non_empty (signature (key_coordinate (iq_key r))) ''quarantine signature'') (\<lambda>_.
     result_bind (require_non_empty (iq_decoder_version r) ''decoder_version'') (\<lambda>_.
     result_bind (require_non_empty (iq_reason_code r) ''reason_code'') (\<lambda>_.
     result_bind (require_non_empty (iq_evidence_base64 r) ''evidence_base64'') (\<lambda>_.
     result_bind (validate_length (iq_decoder_version r) ''decoder_version'' MAX_DECODER_VERSION_BYTES) (\<lambda>_.
     result_bind (validate_length (iq_reason_code r) ''reason_code'' MAX_REASON_CODE_BYTES) (\<lambda>_.
     result_bind (validate_length (detail_text (iq_reason_detail r)) ''reason_detail'' MAX_REASON_DETAIL_BYTES) (\<lambda>_.
     result_bind (validate_length (iq_evidence_base64 r) ''evidence_base64'' MAX_EVIDENCE_BASE64_BYTES) (\<lambda>_.
     validate_evidence_base64 base64_decode (iq_evidence_base64 r) ''evidence_base64''))))))))"

definition quarantine_key_of :: "observation_key \<Rightarrow> ('x persistence_error, quarantine_key) result" where
  "quarantine_key_of k =
     result_bind (to_i64 (slot (key_coordinate k)) ''quarantine slot'') (\<lambda>slot'.
     Inr (network_name (key_network k), source_program_name (key_program k), slot', signature (key_coordinate k),
          int (unat (instruction_index (key_coordinate k))), int (unat (event_index (key_coordinate k)))))"

definition merge_quarantine :: "stored_quarantine_row \<Rightarrow> stored_quarantine_row \<Rightarrow> stored_quarantine_row" where
  "merge_quarantine old new =
     new\<lparr>sqr_transaction_index :=
           (case sqr_transaction_index new of None \<Rightarrow> sqr_transaction_index old | Some i \<Rightarrow> Some i),
         sqr_occurrences := sqr_occurrences old + 1, sqr_first_seen_at := sqr_first_seen_at old\<rparr>"

definition quarantine_bind ::
    "(string \<Rightarrow> ('b, u8 list) result) \<Rightarrow> (('b, 'j) reason_detail \<Rightarrow> string) \<Rightarrow> int \<Rightarrow> ('b, 'j) intake_quarantine_record
      \<Rightarrow> ('x persistence_error, quarantine_key \<times> stored_quarantine_row) result" where
  "quarantine_bind base64_decode detail_text now r =
     result_bind (validate_record base64_decode detail_text r) (\<lambda>_.
     result_bind (quarantine_key_of (iq_key r)) (\<lambda>k.
     result_bind (option_result (\<lambda>v. to_i64 v ''quarantine transaction_index'')
         (transaction_index (key_coordinate (iq_key r)))) (\<lambda>index.
     Inr (k, \<lparr>sqr_transaction_index = index, sqr_decoder_version = iq_decoder_version r,
        sqr_reason_code = iq_reason_code r, sqr_reason_detail = detail_text (iq_reason_detail r),
        sqr_evidence_base64 = iq_evidence_base64 r, sqr_occurrences = 1, sqr_first_seen_at = now,
        sqr_last_seen_at = now\<rparr>))))"

definition insert_quarantine ::
    "'x \<Rightarrow> (string \<Rightarrow> ('b, u8 list) result) \<Rightarrow> (('b, 'j) reason_detail \<Rightarrow> string) \<Rightarrow> int \<Rightarrow> ('b, 'j) intake_quarantine_record
      \<Rightarrow> quarantine_table \<Rightarrow> ('x persistence_error, u64) result \<times> quarantine_table" where
  "insert_quarantine e base64_decode detail_text now r t =
     (case quarantine_bind base64_decode detail_text now r of
        Inl err \<Rightarrow> (Inl err, t)
      | Inr (k, row) \<Rightarrow>
          if (case t k of None \<Rightarrow> False | Some old \<Rightarrow> i64_max < sqr_occurrences old + 1) then (Inl (DatabaseError e), t)
          else (case on_conflict_update (\<lambda>_ _. True) merge_quarantine k row t of
             (_, t') \<Rightarrow>
               (case t' k of
                  None \<Rightarrow> (Inl (DatabaseError e), t')
                | Some stored \<Rightarrow> (to_u64 (sqr_occurrences stored) ''intake_quarantine.occurrences'', t'))))"

text \<open>The row read back; a stored detail is plain text.\<close>

record ('b, 'j) stored_intake_quarantine =
  siq_record :: "('b, 'j) intake_quarantine_record"
  siq_occurrences :: u64
  siq_first_seen_unix_ms :: i64
  siq_last_seen_unix_ms :: i64

definition u16_column :: "int \<Rightarrow> string \<Rightarrow> ('x persistence_error, u16) result" where
  "u16_column v field =
     (if 0 \<le> v \<and> v < 2 ^ 16 then Inr (of_int v) else Inl (InvalidStoredValue field (show_int v)))"

definition stored_record ::
    "(int \<Rightarrow> i64) \<Rightarrow> quarantine_key \<Rightarrow> stored_quarantine_row \<Rightarrow> ('x persistence_error, ('b, 'j) stored_intake_quarantine) result" where
  "stored_record millis k row =
     (case k of (net_name, program_name, slot', sig, instruction, event) \<Rightarrow>
        result_bind (parse_network net_name) (\<lambda>net.
        result_bind (parse_source_program program_name) (\<lambda>program.
        result_bind (to_u64 slot' ''intake_quarantine.slot'') (\<lambda>s.
        result_bind (option_result (\<lambda>v. to_u64 v ''intake_quarantine.transaction_index'') (sqr_transaction_index row)) (\<lambda>index.
        result_bind (u16_column instruction ''intake_quarantine.instruction_index'') (\<lambda>instruction.
        result_bind (u16_column event ''intake_quarantine.event_index'') (\<lambda>event.
        result_bind (to_u64 (sqr_occurrences row) ''intake_quarantine.occurrences'') (\<lambda>occurrences.
        Inr \<lparr>siq_record = \<lparr>iq_key = \<lparr>key_network = net, key_program = program, key_coordinate =
                 \<lparr>slot = s, transaction_index = index, signature = sig, instruction_index = instruction, event_index = event\<rparr>\<rparr>,
               iq_decoder_version = sqr_decoder_version row, iq_reason_code = sqr_reason_code row,
               iq_reason_detail = TextDetail (sqr_reason_detail row), iq_evidence_base64 = sqr_evidence_base64 row\<rparr>,
             siq_occurrences = occurrences, siq_first_seen_unix_ms = millis (sqr_first_seen_at row),
             siq_last_seen_unix_ms = millis (sqr_last_seen_at row)\<rparr>))))))))"

definition load_intake_quarantine ::
    "(int \<Rightarrow> i64) \<Rightarrow> observation_key \<Rightarrow> quarantine_table
      \<Rightarrow> ('x persistence_error, ('b, 'j) stored_intake_quarantine option) result" where
  "load_intake_quarantine millis k t =
     result_bind (require_non_empty (signature (key_coordinate k)) ''quarantine signature'') (\<lambda>_.
     result_bind (quarantine_key_of k) (\<lambda>columns.
     option_result (stored_record millis columns) (t columns)))"

end
