(* ===== verification/Collection_Gaps.thy ===== *)
theory Collection_Gaps
  imports Durable_Facts Discovery_Commits
begin

text \<open>
  Collection gaps, \<open>crates/persistence/src/collection_gaps.rs\<close>: stretches of the chain a collector may
  have missed, recorded once while they are open and closed by a position that does not precede them.
  What the database makes of a time, as a timestamp and back in milliseconds, is a parameter.
\<close>

section \<open>Rows\<close>

record collection_position =
  pos_slot :: u64
  pos_transaction_index :: "u64 option"
  pos_signature :: string

record new_collection_gap =
  ng_network :: network
  ng_source_program :: source_program
  ng_reason_code :: string
  ng_prior_checkpoint :: collection_position
  ng_detected_at_unix_ms :: i64
  ng_details :: string

record collection_gap =
  cg_gap_id :: i64
  cg_network :: network
  cg_source_program :: source_program
  cg_reason_code :: string
  cg_prior_checkpoint :: collection_position
  cg_detected_at_unix_ms :: i64
  cg_details :: string
  cg_resolved_through :: "collection_position option"
  cg_resolved_at_unix_ms :: "i64 option"

record collection_gap_row =
  gr_gap_id :: i64
  gr_network :: string
  gr_source_program :: string
  gr_reason_code :: string
  gr_prior_slot :: i64
  gr_prior_transaction_index :: "i64 option"
  gr_prior_signature :: string
  gr_detected_at :: int
  gr_details :: string
  gr_resolved_slot :: "i64 option"
  gr_resolved_transaction_index :: "i64 option"
  gr_resolved_signature :: "string option"
  gr_resolved_at :: "int option"

record gap_table =
  gt_rows :: "collection_gap_row list"
  gt_next_id :: i64

definition MAX_DETAILS_BYTES :: usize where
  "MAX_DETAILS_BYTES = 2048"

section \<open>Validation\<close>

definition validate_position :: "collection_position \<Rightarrow> string \<Rightarrow> ('x persistence_error, unit) result" where
  "validate_position p field = require_non_empty (pos_signature p) field"

definition validate_new_gap :: "new_collection_gap \<Rightarrow> ('x persistence_error, unit) result" where
  "validate_new_gap g =
     result_bind (require_non_empty (ng_reason_code g) ''collection gap reason_code'') (\<lambda>_.
     result_bind (require_non_empty (ng_details g) ''collection gap details'') (\<lambda>_.
     result_bind (validate_length (ng_reason_code g) ''collection gap reason_code'' MAX_REASON_CODE_BYTES) (\<lambda>_.
     result_bind (validate_length (ng_details g) ''collection gap details'' MAX_DETAILS_BYTES) (\<lambda>_.
     validate_position (ng_prior_checkpoint g) ''collection gap prior checkpoint signature''))))"

definition position_precedes :: "collection_position \<Rightarrow> u64 \<Rightarrow> u64 option \<Rightarrow> bool" where
  "position_precedes p prior_slot prior_index \<longleftrightarrow>
     pos_slot p < prior_slot
     \<or> pos_slot p = prior_slot
       \<and> (case (pos_transaction_index p, prior_index) of (Some i, Some j) \<Rightarrow> i < j | _ \<Rightarrow> False)"

section \<open>Operations\<close>

definition gap_identity :: "collection_gap_row \<Rightarrow> string \<times> string \<times> string \<times> i64 \<times> string" where
  "gap_identity r = (gr_network r, gr_source_program r, gr_reason_code r, gr_prior_slot r, gr_prior_signature r)"

definition gap_active :: "collection_gap_row \<Rightarrow> bool" where
  "gap_active r \<longleftrightarrow> gr_resolved_slot r = None"

definition gap_bind :: "'x \<Rightarrow> (i64 \<Rightarrow> int option) \<Rightarrow> i64 \<Rightarrow> new_collection_gap \<Rightarrow> ('x persistence_error, collection_gap_row) result" where
  "gap_bind e timestamp gap_id g =
     result_bind (validate_new_gap g) (\<lambda>_.
     result_bind (to_i64 (pos_slot (ng_prior_checkpoint g)) ''prior checkpoint slot'') (\<lambda>prior_slot.
     result_bind (option_result (\<lambda>v. to_i64 v ''prior checkpoint transaction_index'')
         (pos_transaction_index (ng_prior_checkpoint g))) (\<lambda>prior_index.
     result_bind (ok_or (DatabaseError e) (timestamp (ng_detected_at_unix_ms g))) (\<lambda>detected_at.
     Inr \<lparr>gr_gap_id = gap_id, gr_network = network_name (ng_network g),
          gr_source_program = source_program_name (ng_source_program g), gr_reason_code = ng_reason_code g,
          gr_prior_slot = prior_slot, gr_prior_transaction_index = prior_index,
          gr_prior_signature = pos_signature (ng_prior_checkpoint g), gr_detected_at = detected_at,
          gr_details = ng_details g, gr_resolved_slot = None, gr_resolved_transaction_index = None,
          gr_resolved_signature = None, gr_resolved_at = None\<rparr>))))"

definition merge_gap :: "collection_gap_row \<Rightarrow> collection_gap_row \<Rightarrow> collection_gap_row" where
  "merge_gap old new =
     old\<lparr>gr_prior_transaction_index :=
           (case gr_prior_transaction_index old of None \<Rightarrow> gr_prior_transaction_index new | Some i \<Rightarrow> Some i),
         gr_detected_at := min (gr_detected_at old) (gr_detected_at new), gr_details := gr_details new\<rparr>"

text \<open>The identifier is drawn before the row meets an open gap of the same identity.\<close>

definition record_collection_gap ::
    "'x \<Rightarrow> (i64 \<Rightarrow> int option) \<Rightarrow> new_collection_gap \<Rightarrow> gap_table \<Rightarrow> ('x persistence_error, i64) result \<times> gap_table" where
  "record_collection_gap e timestamp g t =
     (case gap_bind e timestamp (gt_next_id t) g of
        Inl err \<Rightarrow> (Inl err, t)
      | Inr new \<Rightarrow>
          let same = (\<lambda>r. gap_active r \<and> gap_identity r = gap_identity new)
          in case find same (gt_rows t) of
               Some old \<Rightarrow>
                 (Inr (gr_gap_id old),
                  \<lparr>gt_rows = map (\<lambda>r. if same r then merge_gap r new else r) (gt_rows t), gt_next_id = gt_next_id t + 1\<rparr>)
             | None \<Rightarrow> (Inr (gr_gap_id new), \<lparr>gt_rows = gt_rows t @ [new], gt_next_id = gt_next_id t + 1\<rparr>))"

definition resolve_row :: "int \<Rightarrow> i64 \<Rightarrow> i64 option \<Rightarrow> string \<Rightarrow> collection_gap_row \<Rightarrow> collection_gap_row" where
  "resolve_row now slot' index sig r =
     r\<lparr>gr_resolved_slot := Some slot', gr_resolved_transaction_index := index, gr_resolved_signature := Some sig,
       gr_resolved_at := Some now\<rparr>"

definition resolve_collection_gap ::
    "int \<Rightarrow> i64 \<Rightarrow> collection_position \<Rightarrow> gap_table \<Rightarrow> ('x persistence_error, bool) result \<times> gap_table" where
  "resolve_collection_gap now gap_id p t =
     (case validate_position p ''resolved through signature'' of
        Inl err \<Rightarrow> (Inl err, t)
      | Inr _ \<Rightarrow>
          let open_gap = (\<lambda>r. gr_gap_id r = gap_id \<and> gap_active r)
          in case find open_gap (gt_rows t) of
               None \<Rightarrow> (Inr False, t)
             | Some prior \<Rightarrow>
                 (case result_bind (to_u64 (gr_prior_slot prior) ''collection_gaps.prior_checkpoint_slot'') (\<lambda>prior_slot.
                     result_bind (option_result (\<lambda>v. to_u64 v ''collection_gaps.prior_checkpoint_transaction_index'')
                         (gr_prior_transaction_index prior)) (\<lambda>prior_index.
                     if position_precedes p prior_slot prior_index then Inl InvalidGapResolution
                     else result_bind (to_i64 (pos_slot p) ''resolved through slot'') (\<lambda>resolved_slot.
                       result_bind (option_result (\<lambda>v. to_i64 v ''resolved through transaction_index'')
                           (pos_transaction_index p)) (\<lambda>resolved_index.
                       Inr (resolved_slot, resolved_index))))) of
                    Inl err \<Rightarrow> (Inl err, t)
                  | Inr (resolved_slot, resolved_index) \<Rightarrow>
                      (Inr True,
                       t\<lparr>gt_rows := map (\<lambda>r. if open_gap r then resolve_row now resolved_slot resolved_index (pos_signature p) r
                                           else r) (gt_rows t)\<rparr>)))"

definition map_gap :: "(i64 option \<Rightarrow> i64 option \<Rightarrow> string option \<Rightarrow> string) \<Rightarrow> (int \<Rightarrow> i64) \<Rightarrow> collection_gap_row \<Rightarrow> ('x persistence_error, collection_gap) result" where
  "map_gap show_parts millis row =
     result_bind
       (case (gr_resolved_slot row, gr_resolved_signature row) of
          (Some slot', Some sig) \<Rightarrow>
            result_bind (to_u64 slot' ''collection_gaps.resolved_through_slot'') (\<lambda>s.
            result_bind (option_result (\<lambda>v. to_u64 v ''collection_gaps.resolved_through_transaction_index'')
                (gr_resolved_transaction_index row)) (\<lambda>i.
            Inr (Some \<lparr>pos_slot = s, pos_transaction_index = i, pos_signature = sig\<rparr>)))
        | _ \<Rightarrow>
            if gr_resolved_slot row = None \<and> gr_resolved_transaction_index row = None \<and> gr_resolved_signature row = None
            then Inr None
            else Inl (InvalidStoredValue ''collection_gaps.resolution''
                (show_parts (gr_resolved_slot row) (gr_resolved_transaction_index row) (gr_resolved_signature row))))
     (\<lambda>resolved_through.
     result_bind (parse_network (gr_network row)) (\<lambda>net.
     result_bind (parse_source_program (gr_source_program row)) (\<lambda>program.
     result_bind (to_u64 (gr_prior_slot row) ''collection_gaps.prior_checkpoint_slot'') (\<lambda>prior_slot.
     result_bind (option_result (\<lambda>v. to_u64 v ''collection_gaps.prior_checkpoint_transaction_index'')
         (gr_prior_transaction_index row)) (\<lambda>prior_index.
     Inr \<lparr>cg_gap_id = gr_gap_id row, cg_network = net, cg_source_program = program, cg_reason_code = gr_reason_code row,
          cg_prior_checkpoint = \<lparr>pos_slot = prior_slot, pos_transaction_index = prior_index,
            pos_signature = gr_prior_signature row\<rparr>,
          cg_detected_at_unix_ms = millis (gr_detected_at row), cg_details = gr_details row,
          cg_resolved_through = resolved_through, cg_resolved_at_unix_ms = map_option millis (gr_resolved_at row)\<rparr>)))))"

definition active_rows :: "network \<Rightarrow> source_program \<Rightarrow> gap_table \<Rightarrow> collection_gap_row list" where
  "active_rows net program t =
     filter (\<lambda>r. gr_network r = network_name net \<and> gr_source_program r = source_program_name program \<and> gap_active r)
       (gt_rows t)"

definition load_active_collection_gaps ::
    "(i64 option \<Rightarrow> i64 option \<Rightarrow> string option \<Rightarrow> string) \<Rightarrow> (int \<Rightarrow> i64) \<Rightarrow> network \<Rightarrow> source_program \<Rightarrow> gap_table
      \<Rightarrow> ('x persistence_error, collection_gap list) result" where
  "load_active_collection_gaps show_parts millis net program t =
     collect_results (map_gap show_parts millis)
       (sort_key (\<lambda>r. (gr_detected_at r, gr_gap_id r)) (active_rows net program t))"

definition count_active_collection_gaps ::
    "network \<Rightarrow> source_program \<Rightarrow> gap_table \<Rightarrow> ('x persistence_error, u64) result" where
  "count_active_collection_gaps net program t =
     to_u64 (int (length (active_rows net program t))) ''collection_gaps.active_count''"

end
