(* ===== verification/Durable_Facts_Correct.thy ===== *)
theory Durable_Facts_Correct
  imports Collection_Gaps
begin

text \<open>
  What the durable facts promise. A guard that is a transitive relation makes an insertion keep the
  best row it has seen, which the locale \<open>guarded_rows\<close> proves once for checkpoints and for pools. A
  database belongs to one network for good, a quarantined coordinate counts its occurrences, and an
  open gap stays open until a position that does not precede it closes it.
\<close>

section \<open>Guarded insertions\<close>

locale guarded_rows =
  fixes guard :: "'r \<Rightarrow> 'r \<Rightarrow> bool"
  assumes guard_trans: "guard a b \<Longrightarrow> guard b c \<Longrightarrow> guard a c"
begin

definition put :: "'k \<times> 'r \<Rightarrow> ('k \<rightharpoonup> 'r) \<Rightarrow> ('k \<rightharpoonup> 'r)" where
  "put x t = snd (on_conflict_update guard (\<lambda>_ new. new) (fst x) (snd x) t)"

definition best :: "('k \<times> 'r) list \<Rightarrow> 'k \<Rightarrow> 'r \<Rightarrow> bool" where
  "best xs k r \<longleftrightarrow>
     (k, r) \<in> set xs \<and> (\<forall>r'. (k, r') \<in> set xs \<longrightarrow> r' = r \<or> guard r' r \<or> \<not> guard r r')"

definition rows_of :: "('k \<times> 'r) list \<Rightarrow> 'k \<Rightarrow> 'r list" where
  "rows_of xs k = map snd (filter (\<lambda>x. fst x = k) xs)"

lemma rows_of_empty: "rows_of xs k = [] \<longleftrightarrow> (\<forall>r. (k, r) \<notin> set xs)"
  by (auto simp: rows_of_def filter_empty_conv)

lemma put_at: "put (k, r) t = (case t k of None \<Rightarrow> t(k \<mapsto> r) | Some old \<Rightarrow> if guard old r then t(k \<mapsto> r) else t)"
  by (simp add: put_def on_conflict_update_def split: option.split)

lemma best_replaced:
  assumes "best xs k r" and "guard r r'"
  shows "best (xs @ [(k, r')]) k r'"
proof -
  have "x = r' \<or> guard x r' \<or> \<not> guard r' x" if "(k, x) \<in> set xs" for x
  proof -
    have "x = r \<or> guard x r \<or> \<not> guard r x" using assms(1) that by (simp add: best_def)
    then show ?thesis using assms(2) guard_trans by metis
  qed
  then show ?thesis by (auto simp: best_def)
qed

lemma best_kept: "best xs k r \<Longrightarrow> k' \<noteq> k \<or> \<not> guard r r' \<Longrightarrow> best (xs @ [(k', r')]) k r"
  by (auto simp: best_def)

definition holds :: "('k \<times> 'r) list \<Rightarrow> 'k \<Rightarrow> 'r option \<Rightarrow> bool" where
  "holds xs k x =
     (case x of
        None \<Rightarrow> rows_of xs k = []
      | Some r \<Rightarrow> best xs k r \<and> (hd (rows_of xs k) = r \<or> guard (hd (rows_of xs k)) r))"

lemma rows_of_snoc: "rows_of (xs @ [(k', r)]) k = rows_of xs k @ (if k' = k then [r] else [])"
  by (simp add: rows_of_def)

lemma holds_snoc:
  assumes t: "holds xs k (t k)"
  shows "holds (xs @ [(k', r)]) k (put (k', r) t k)"
proof (cases "k' = k")
  case False
  then show ?thesis using t by (auto simp: holds_def put_at rows_of_snoc best_kept split: option.splits)
next
  case True
  show ?thesis
  proof (cases "t k")
    case None
    then show ?thesis using t True rows_of_empty [of xs k] by (auto simp: holds_def put_at rows_of_snoc best_def)
  next
    case (Some old)
    then have old: "best xs k old" and first: "hd (rows_of xs k) = old \<or> guard (hd (rows_of xs k)) old"
      using t by (auto simp: holds_def)
    have "rows_of xs k \<noteq> []" using old rows_of_empty [of xs k] by (auto simp: best_def)
    moreover have "hd (rows_of xs k) = r \<or> guard (hd (rows_of xs k)) r" if "guard old r" using first that guard_trans by blast
    ultimately show ?thesis
      using True Some first best_replaced [OF old, of r] best_kept [OF old, of k r] by (auto simp: holds_def put_at rows_of_snoc)
  qed
qed

lemma kept: "holds xs k (fold put xs Map.empty k)"
proof (induction xs rule: rev_induct)
  case Nil
  then show ?case by (simp add: holds_def rows_of_def)
next
  case (snoc x xs)
  then show ?case using holds_snoc by (cases x) simp
qed

end

interpretation checkpoint_rows: guarded_rows checkpoint_advances
  by unfold_locales (auto simp: checkpoint_advances_def split: option.splits)

interpretation pool_rows: guarded_rows pool_supersedes
  by unfold_locales (auto simp: pool_supersedes_def)

text \<open>A sequence of calls is a sequence of insertions of the rows that were accepted.\<close>

definition accepted_rows :: "('a \<Rightarrow> ('e, 'r) result) \<Rightarrow> ('a \<Rightarrow> 'k) \<Rightarrow> 'a list \<Rightarrow> ('k \<times> 'r) list" where
  "accepted_rows row key xs = concat (map (\<lambda>x. case row x of Inl _ \<Rightarrow> [] | Inr r \<Rightarrow> [(key x, r)]) xs)"

lemma accepted_rows_iff: "(k, r) \<in> set (accepted_rows row key xs) \<longleftrightarrow> (\<exists>x\<in>set xs. row x = Inr r \<and> key x = k)"
  by (force simp: accepted_rows_def split: sum.splits)

lemma fold_accepted:
  assumes "\<And>x t. f x t = (case row x of Inl _ \<Rightarrow> t | Inr r \<Rightarrow> g (key x, r) t)"
  shows "fold f xs t = fold g (accepted_rows row key xs) t"
  by (induction xs arbitrary: t) (auto simp: assms accepted_rows_def split: sum.split)

section \<open>Checkpoints\<close>

lemma option_result_None [simp]: "option_result f None = Inr None"
  by (simp add: option_result_def)

lemma option_result_Some [simp]: "option_result f (Some a) = result_bind (f a) (\<lambda>b. Inr (Some b))"
  by (simp add: option_result_def)

lemma to_i64_Inr: "to_i64 v field = Inr n \<longleftrightarrow> n = int (unat v) \<and> int (unat v) \<le> i64_max"
  by (auto simp: to_i64_def)

lemma to_u64_unat [simp]: "to_u64 (int (unat v)) field = Inr v"
  by (simp add: to_u64_def)

lemma optional_index:
  "option_result (\<lambda>v. to_i64 v field) x = Inr y \<Longrightarrow>
     option_result (\<lambda>v. to_u64 v field') y = Inr x \<and> y = map_option (\<lambda>v. int (unat v)) x"
  by (cases x) (auto simp: to_i64_Inr result_simps simp del: of_nat_unat)

text \<open>What the table accepts, and when one checkpoint of a source is later than another.\<close>

definition valid_checkpoint :: "stored_checkpoint \<Rightarrow> bool" where
  "valid_checkpoint c \<longleftrightarrow>
     \<not> trim_is_empty (ckp_checkpoint_kind c) \<and> \<not> trim_is_empty (ckp_last_signature c) \<and> unat (ckp_last_slot c) < 2 ^ 63
     \<and> (case ckp_last_transaction_index c of None \<Rightarrow> True | Some i \<Rightarrow> unat i < 2 ^ 63)"

definition later_checkpoint :: "stored_checkpoint \<Rightarrow> stored_checkpoint \<Rightarrow> bool" where
  "later_checkpoint c c' \<longleftrightarrow>
     ckp_last_slot c < ckp_last_slot c'
     \<or> ckp_last_slot c = ckp_last_slot c'
       \<and> (case (ckp_last_transaction_index c, ckp_last_transaction_index c') of (Some i, Some j) \<Rightarrow> i < j | _ \<Rightarrow> False)"

definition saved_checkpoints :: "stored_checkpoint list \<Rightarrow> checkpoint_table" where
  "saved_checkpoints cs =
     fold (\<lambda>c t. snd (save_recovery_checkpoint c t :: (unit persistence_error, bool) result \<times> _)) cs Map.empty"

lemma unat_i64: "int (unat v) \<le> i64_max \<longleftrightarrow> unat v < 9223372036854775808" for v :: u64
  unfolding i64_max_def by (simp del: of_nat_unat) linarith

lemma checkpoint_bound:
  "valid_checkpoint c \<longleftrightarrow> (\<exists>row. checkpoint_bind c = Inr row)"
  by (auto simp: valid_checkpoint_def checkpoint_bind_def require_non_empty_def to_i64_def unat_i64 result_simps
      simp del: of_nat_unat split: option.splits if_splits)

lemma checkpoint_columns:
  assumes "checkpoint_bind c = Inr row"
  shows "row = \<lparr>cpr_last_slot = int (unat (ckp_last_slot c)),
      cpr_last_transaction_index = map_option (\<lambda>v. int (unat v)) (ckp_last_transaction_index c),
      cpr_last_signature = ckp_last_signature c\<rparr>"
  using assms optional_index by (auto simp: checkpoint_bind_def result_simps to_i64_Inr simp del: of_nat_unat)

lemma index_read: "option_result (\<lambda>v. to_u64 v field) (map_option (\<lambda>v. int (unat v)) x) = Inr x"
  by (cases x) (simp_all del: of_nat_unat)

lemma checkpoint_read:
  assumes "checkpoint_bind c = Inr row" and "t (checkpoint_key c) = Some row"
  shows "load_recovery_checkpoint (ckp_network c) (ckp_source_program c) (ckp_checkpoint_kind c) t = Inr (Some c)"
proof -
  have "\<not> trim_is_empty (ckp_checkpoint_kind c)"
    using assms(1) by (auto simp: checkpoint_bind_def require_non_empty_def result_simps split: if_splits)
  then show ?thesis
    using assms(2) by (simp add: load_recovery_checkpoint_def checkpoint_key_def checkpoint_columns [OF assms(1)]
        require_non_empty_def index_read del: of_nat_unat)
qed

lemma checkpoint_later:
  assumes "checkpoint_bind c = Inr row" and "checkpoint_bind c' = Inr row'"
  shows "checkpoint_advances row row' \<longleftrightarrow> later_checkpoint c c'"
  by (auto simp: checkpoint_columns [OF assms(1)] checkpoint_columns [OF assms(2)] checkpoint_advances_def
      later_checkpoint_def word_less_def word_uint_eq_iff split: option.splits)

lemma checkpoint_advances_asym: "checkpoint_advances a b \<Longrightarrow> \<not> checkpoint_advances b a"
  by (auto simp: checkpoint_advances_def split: option.splits)

lemma checkpoint_key_iff:
  "checkpoint_key c = (network_name net, source_program_name program, kind) \<longleftrightarrow>
     ckp_network c = net \<and> ckp_source_program c = program \<and> ckp_checkpoint_kind c = kind"
  by (cases net; cases program; cases "ckp_network c"; cases "ckp_source_program c") (simp_all add: checkpoint_key_def)

abbreviation checkpoint_source :: "stored_checkpoint \<Rightarrow> network \<times> source_program \<times> string" where
  "checkpoint_source c \<equiv> (ckp_network c, ckp_source_program c, ckp_checkpoint_kind c)"

text \<open>
  A recovery checkpoint never moves back. Whatever checkpoints are saved in whatever order, the one
  that is loaded for a source is one of the valid ones saved for that source, and none of them is
  later: recovery never starts before what was already acknowledged, and a source without a valid
  save has none.
\<close>

theorem checkpoint_is_latest:
  assumes "\<not> trim_is_empty kind"
  shows "case load_recovery_checkpoint net program kind (saved_checkpoints cs) :: ('x persistence_error, _) result of
      Inl _ \<Rightarrow> False
    | Inr None \<Rightarrow> \<forall>c\<in>set cs. checkpoint_source c = (net, program, kind) \<longrightarrow> \<not> valid_checkpoint c
    | Inr (Some c) \<Rightarrow> c \<in> set cs \<and> valid_checkpoint c \<and> checkpoint_source c = (net, program, kind)
        \<and> (\<forall>c'\<in>set cs. checkpoint_source c' = (net, program, kind) \<and> valid_checkpoint c' \<longrightarrow> \<not> later_checkpoint c c')"
proof -
  let ?key = "(network_name net, source_program_name program, kind)"
  let ?bind = "checkpoint_bind :: _ \<Rightarrow> (unit persistence_error, _) result"
  let ?rows = "accepted_rows ?bind checkpoint_key cs"
  have "saved_checkpoints cs = fold checkpoint_rows.put ?rows Map.empty"
    unfolding saved_checkpoints_def
    by (rule fold_accepted) (auto simp: save_recovery_checkpoint_def checkpoint_rows.put_def split: sum.split prod.split)
  then have kept: "checkpoint_rows.holds ?rows ?key (saved_checkpoints cs ?key)" using checkpoint_rows.kept by simp
  show ?thesis
  proof (cases "saved_checkpoints cs ?key")
    case None
    then have "(?key, row) \<notin> set ?rows" for row
      using kept checkpoint_rows.rows_of_empty [of ?rows ?key] by (auto simp: checkpoint_rows.holds_def)
    then have "\<not> valid_checkpoint c" if "c \<in> set cs" "checkpoint_source c = (net, program, kind)" for c
      using that checkpoint_bound [of c, where 'a = unit] by (auto simp: accepted_rows_iff checkpoint_key_iff)
    then show ?thesis using None assms by (auto simp: load_recovery_checkpoint_def require_non_empty_def)
  next
    case (Some row)
    then have best: "checkpoint_rows.best ?rows ?key row" using kept by (simp add: checkpoint_rows.holds_def)
    then obtain c where c: "c \<in> set cs" "?bind c = Inr row" "checkpoint_key c = ?key"
      unfolding checkpoint_rows.best_def accepted_rows_iff by auto
    have "load_recovery_checkpoint net program kind (saved_checkpoints cs) = (Inr (Some c) :: ('x persistence_error, _) result)"
      using checkpoint_read [OF c(2)] Some c(3) by (auto simp: checkpoint_key_iff)
    moreover have "\<not> later_checkpoint c c'"
      if c': "c' \<in> set cs" "checkpoint_source c' = (net, program, kind)" "valid_checkpoint c'" for c'
    proof -
      obtain row' where row': "?bind c' = Inr row'" using c'(3) checkpoint_bound by blast
      then have "(?key, row') \<in> set ?rows" using c' by (auto simp: accepted_rows_iff checkpoint_key_iff)
      then have "row' = row \<or> checkpoint_advances row' row \<or> \<not> checkpoint_advances row row'"
        using best by (simp add: checkpoint_rows.best_def)
      then have "\<not> checkpoint_advances row row'" using checkpoint_advances_asym by blast
      then show ?thesis using checkpoint_later [OF c(2) row'] by simp
    qed
    moreover have "valid_checkpoint c" using c(2) checkpoint_bound [of c, where 'a = unit] by simp
    moreover have "checkpoint_source c = (net, program, kind)" using c(3) by (simp add: checkpoint_key_iff)
    ultimately show ?thesis using c(1) by simp
  qed
qed

definition example_checkpoint :: "u64 \<Rightarrow> u64 option \<Rightarrow> stored_checkpoint" where
  "example_checkpoint n i = \<lparr>ckp_network = SolanaMainnet, ckp_source_program = SourcePump, ckp_checkpoint_kind = ''COLLECTOR'',
     ckp_last_slot = n, ckp_last_transaction_index = i, ckp_last_signature = ''signature''\<rparr>"

theorem checkpoint_is_latest_witness:
  "\<exists>c. load_recovery_checkpoint SolanaMainnet SourcePump ''COLLECTOR''
         (saved_checkpoints [example_checkpoint 7 (Some 2), example_checkpoint 6 (Some 9), example_checkpoint 7 (Some 5)])
       = (Inr (Some c) :: (unit persistence_error, _) result) \<and> \<not> later_checkpoint c (example_checkpoint 7 (Some 5))"
proof -
  let ?cs = "[example_checkpoint 7 (Some 2), example_checkpoint 6 (Some 9), example_checkpoint 7 (Some 5)]"
  have kind: "\<not> trim_is_empty ''COLLECTOR''" by (simp add: printable_not_blank del: trim_is_empty.simps)
  have "valid_checkpoint (example_checkpoint 7 (Some 5))"
    by (simp add: valid_checkpoint_def example_checkpoint_def printable_not_blank del: trim_is_empty.simps)
  then show ?thesis
    using checkpoint_is_latest [OF kind, of ?cs SolanaMainnet SourcePump, where 'x = unit]
    by (auto simp: example_checkpoint_def split: sum.splits option.splits)
qed

section \<open>Pools\<close>

definition saved_pools :: "pump_swap_pool_row list \<Rightarrow> pool_table" where
  "saved_pools ps = fold (\<lambda>p t. snd (upsert_swap_pool p t :: (unit persistence_error, bool) result \<times> _)) ps Map.empty"

definition valid_pool :: "pump_swap_pool_row \<Rightarrow> bool" where
  "valid_pool p \<longleftrightarrow> validate_pool p = (Inr () :: (unit persistence_error, unit) result) \<and> unat (swap_pool_observed_slot p) < 2 ^ 63"

lemma validate_pool_Inr:
  "validate_pool p = Inr () \<longleftrightarrow>
     \<not> trim_is_empty (swap_pool_address p) \<and> \<not> trim_is_empty (swap_pool_base_mint p) \<and> \<not> trim_is_empty (swap_pool_quote_mint p)
     \<and> \<not> trim_is_empty (swap_pool_observed_signature p) \<and> swap_pool_base_mint p \<noteq> swap_pool_quote_mint p"
  by (auto simp: validate_pool_def require_non_empty_def result_simps split: if_splits)

definition pool_columns :: "pump_swap_pool_row \<Rightarrow> pump_swap_pool_columns" where
  "pool_columns p = \<lparr>psr_pool_address = swap_pool_address p, psr_base_mint = swap_pool_base_mint p,
     psr_quote_mint = swap_pool_quote_mint p, psr_observed_slot = int (unat (swap_pool_observed_slot p)),
     psr_observed_signature = swap_pool_observed_signature p\<rparr>"

lemma pool_bound: "pool_bind p = Inr row \<longleftrightarrow> valid_pool p \<and> row = pool_columns p"
  by (auto simp: pool_bind_def valid_pool_def validate_pool_Inr to_i64_Inr unat_i64 pool_columns_def result_simps simp del: of_nat_unat)

lemma pool_bind_valid: "valid_pool p \<Longrightarrow> pool_bind p = Inr (pool_columns p)"
  by (simp add: pool_bound)

lemma pool_bind_case:
  "(case pool_bind p :: ('x persistence_error, _) result of Inl _ \<Rightarrow> a | Inr row \<Rightarrow> f row) = (if valid_pool p then f (pool_columns p) else a)"
proof (cases "valid_pool p")
  case True
  then show ?thesis by (simp add: pool_bind_valid)
next
  case False
  then have "pool_bind p \<noteq> (Inr row :: ('x persistence_error, _) result)" for row by (simp add: pool_bound)
  then show ?thesis using False by (cases "pool_bind p :: ('x persistence_error, _) result") auto
qed

lemma pool_read: "pool_from_row (swap_pool_network p) (pool_columns p) = Inr p"
  by (simp add: pool_from_row_def pool_columns_def del: of_nat_unat)

lemma pool_key_iff: "pool_key p = (network_name net, address) \<longleftrightarrow> swap_pool_network p = net \<and> swap_pool_address p = address"
  by (cases net; cases "swap_pool_network p") (simp_all add: pool_key_def)

abbreviation pool_mints :: "pump_swap_pool_row \<Rightarrow> string \<times> string" where
  "pool_mints p \<equiv> (swap_pool_base_mint p, swap_pool_quote_mint p)"

abbreviation saves_of :: "network \<Rightarrow> string \<Rightarrow> pump_swap_pool_row list \<Rightarrow> pump_swap_pool_row list" where
  "saves_of net address ps \<equiv>
     filter (\<lambda>p. swap_pool_network p = net \<and> swap_pool_address p = address \<and> valid_pool p) ps"

lemma pool_rows_of:
  "pool_rows.rows_of (accepted_rows (pool_bind :: _ \<Rightarrow> (unit persistence_error, _) result) pool_key ps) (network_name net, address)
     = map pool_columns (saves_of net address ps)"
  by (induction ps) (auto simp: pool_rows.rows_of_def accepted_rows_def pool_bind_case pool_key_iff)

lemma pool_saved:
  "saved_pools ps = fold pool_rows.put (accepted_rows (pool_bind :: _ \<Rightarrow> (unit persistence_error, _) result) pool_key ps) Map.empty"
  unfolding saved_pools_def
  by (rule fold_accepted) (auto simp: upsert_swap_pool_def pool_rows.put_def split: sum.split prod.split bool.split)

lemma pool_loads:
  "valid_pool p \<Longrightarrow> t (pool_key p) = Some (pool_columns p) \<Longrightarrow>
     load_pump_swap_pool (swap_pool_network p) (swap_pool_address p) t = Inr (Some p)"
  by (simp add: load_pump_swap_pool_def require_non_empty_def valid_pool_def validate_pool_Inr pool_key_def pool_read)

lemma pool_conflict:
  assumes p: "valid_pool p" "t (pool_key p) = Some (pool_columns p)"
    and q: "valid_pool q" "pool_key q = pool_key p" "pool_mints q \<noteq> pool_mints p"
  shows "upsert_swap_pool q t = (Inl (PumpSwapPoolIdentityConflict (swap_pool_address q)), t)"
proof -
  have "\<not> pool_supersedes (pool_columns p) (pool_columns q)" using q(3) by (auto simp: pool_supersedes_def pool_columns_def)
  moreover have "swap_pool_network q = swap_pool_network p" "swap_pool_address q = swap_pool_address p"
    using q(2) pool_key_iff [of q "swap_pool_network p" "swap_pool_address p"] by (auto simp: pool_key_def)
  ultimately show ?thesis
    using p q by (auto simp: upsert_swap_pool_def pool_bind_valid on_conflict_update_def pool_loads)
qed

text \<open>
  C28: a pool keeps its identity. Whatever pools are stored in whatever order, the pool loaded for an
  address has the mints of the first valid one stored for that address, none of those with the same
  mints was observed in a later slot, and a pool with other mints is refused as a conflict and changes
  nothing: a replay or a forged event cannot turn the pool of one token into that of another.
\<close>

theorem pool_identity_permanent:
  assumes "saves_of net address ps \<noteq> []"
  shows "\<exists>p\<in>set (saves_of net address ps).
      load_pump_swap_pool net address (saved_pools ps) = (Inr (Some p) :: ('x persistence_error, _) result)
    \<and> pool_mints p = pool_mints (hd (saves_of net address ps))
    \<and> (\<forall>q\<in>set (saves_of net address ps). pool_mints q = pool_mints p \<longrightarrow> swap_pool_observed_slot q \<le> swap_pool_observed_slot p)
    \<and> (\<forall>q. swap_pool_network q = net \<and> swap_pool_address q = address \<and> valid_pool q \<and> pool_mints q \<noteq> pool_mints p \<longrightarrow>
         upsert_swap_pool q (saved_pools ps) = (Inl (PumpSwapPoolIdentityConflict address), saved_pools ps))"
proof -
  let ?rows = "accepted_rows (pool_bind :: _ \<Rightarrow> (unit persistence_error, _) result) pool_key ps"
  let ?key = "(network_name net, address)"
  have "pool_rows.holds ?rows ?key (saved_pools ps ?key)" using pool_rows.kept by (simp add: pool_saved)
  moreover have "pool_rows.rows_of ?rows ?key \<noteq> []" using assms by (simp add: pool_rows_of)
  ultimately obtain row where row: "saved_pools ps ?key = Some row" and best: "pool_rows.best ?rows ?key row"
      and first: "hd (pool_rows.rows_of ?rows ?key) = row \<or> pool_supersedes (hd (pool_rows.rows_of ?rows ?key)) row"
    by (auto simp: pool_rows.holds_def split: option.splits)
  obtain p where p: "p \<in> set (saves_of net address ps)" "row = pool_columns p"
    using best by (auto simp: pool_rows.best_def accepted_rows_iff pool_bound pool_key_iff)
  have net: "swap_pool_network p = net" "swap_pool_address p = address" "valid_pool p" using p(1) by auto
  have stored: "saved_pools ps (pool_key p) = Some (pool_columns p)" using row p(2) net by (simp add: pool_key_def)
  have "pool_mints p = pool_mints (hd (saves_of net address ps))"
    using first p(2) assms by (auto simp: pool_rows_of hd_map pool_supersedes_def pool_columns_def)
  moreover have "swap_pool_observed_slot q \<le> swap_pool_observed_slot p"
    if "q \<in> set (saves_of net address ps)" "pool_mints q = pool_mints p" for q
  proof -
    have "(?key, pool_columns q) \<in> set ?rows" using that(1) by (auto simp: accepted_rows_iff pool_bound pool_key_iff)
    then have "pool_columns q = row \<or> pool_supersedes (pool_columns q) row \<or> \<not> pool_supersedes row (pool_columns q)"
      using best by (simp add: pool_rows.best_def)
    then show ?thesis using that(2) p(2) by (auto simp: pool_supersedes_def pool_columns_def word_le_def)
  qed
  moreover have "upsert_swap_pool q (saved_pools ps) = (Inl (PumpSwapPoolIdentityConflict address), saved_pools ps)"
    if "swap_pool_network q = net \<and> swap_pool_address q = address \<and> valid_pool q \<and> pool_mints q \<noteq> pool_mints p" for q
    using that net pool_conflict [where t = "saved_pools ps" and p = p and q = q] stored by (auto simp: pool_key_def)
  moreover have "load_pump_swap_pool net address (saved_pools ps) = Inr (Some p)"
    using pool_loads [where t = "saved_pools ps" and p = p] stored net by simp
  ultimately show ?thesis using p(1) by blast
qed

definition example_swap_pool :: "string \<Rightarrow> u64 \<Rightarrow> pump_swap_pool_row" where
  "example_swap_pool base n = \<lparr>swap_pool_network = SolanaMainnet, swap_pool_address = ''pool'', swap_pool_base_mint = base,
     swap_pool_quote_mint = ''quote'', swap_pool_observed_slot = n, swap_pool_observed_signature = ''signature''\<rparr>"

theorem pool_identity_permanent_witness:
  "\<exists>p. load_pump_swap_pool SolanaMainnet ''pool'' (saved_pools [example_swap_pool ''token'' 7, example_swap_pool ''other'' 9])
       = (Inr (Some p) :: (unit persistence_error, _) result) \<and> swap_pool_base_mint p = ''token''"
proof -
  let ?ps = "[example_swap_pool ''token'' 7, example_swap_pool ''other'' 9]"
  have valid: "valid_pool (example_swap_pool ''token'' 7)" "valid_pool (example_swap_pool ''other'' 9)"
    by (simp_all add: valid_pool_def validate_pool_Inr example_swap_pool_def printable_not_blank del: trim_is_empty.simps)
  then have "saves_of SolanaMainnet ''pool'' ?ps = ?ps" by (simp add: example_swap_pool_def)
  then show ?thesis
    using pool_identity_permanent [of SolanaMainnet "''pool''" ?ps, where 'x = unit] by (auto simp: example_swap_pool_def)
qed

section \<open>The network of the database\<close>

definition bind_networks :: "network list \<Rightarrow> network_binding \<Rightarrow> network_binding" where
  "bind_networks ns t = fold (\<lambda>n t. snd (bind_network n t :: (unit persistence_error, bool) result \<times> _)) ns t"

lemma bind_network_bound:
  "bind_network n (Some (network_name m)) =
     (if n = m then Inr False else Inl (DatabaseNetworkMismatch m n), Some (network_name m))"
  by (simp add: bind_network_def)

lemma bind_networks_bound: "bind_networks ns (Some (network_name m)) = Some (network_name m)"
  unfolding bind_networks_def by (induction ns) (simp_all add: bind_network_bound)

text \<open>
  A database belongs to the network it was first bound to. After any sequence of servers that bind
  it, for any networks, it is bound to the first of them; a server of that network is let in and one
  of another network is refused with both networks named, without a change.
\<close>

theorem network_binding_permanent:
  "bound_network (bind_networks ns None) = Inr (case ns of [] \<Rightarrow> None | m # _ \<Rightarrow> Some m)
   \<and> bind_network n (bind_networks ns None) =
       (case ns of
          [] \<Rightarrow> (Inr True, Some (network_name n))
        | m # _ \<Rightarrow> (if n = m then Inr False else Inl (DatabaseNetworkMismatch m n), bind_networks ns None))"
proof (cases ns)
  case Nil
  then show ?thesis by (simp add: bind_networks_def bound_network_def bind_network_def)
next
  case (Cons m ms)
  have "bind_networks ns None = bind_networks ms (Some (network_name m))"
    by (simp add: Cons bind_networks_def bind_network_def)
  then show ?thesis using Cons by (simp add: bind_networks_bound bound_network_def bind_network_bound)
qed

section \<open>Quarantine\<close>

definition occurrences :: "quarantine_table \<Rightarrow> quarantine_key \<Rightarrow> int" where
  "occurrences t k = (case t k of None \<Rightarrow> 0 | Some row \<Rightarrow> sqr_occurrences row)"

definition quarantined_under ::
    "(string \<Rightarrow> ('b, u8 list) result) \<Rightarrow> (('b, 'j) reason_detail \<Rightarrow> string) \<Rightarrow> quarantine_key \<Rightarrow> int \<times> ('b, 'j) intake_quarantine_record \<Rightarrow> bool" where
  "quarantined_under base64_decode detail_text k x \<longleftrightarrow>
     validate_record base64_decode detail_text (snd x) = (Inr () :: (unit persistence_error, unit) result)
     \<and> quarantine_key_of (iq_key (snd x)) = (Inr k :: (unit persistence_error, _) result)
     \<and> (case transaction_index (key_coordinate (iq_key (snd x))) of None \<Rightarrow> True | Some i \<Rightarrow> int (unat i) \<le> i64_max)"

definition quarantine_all ::
    "(string \<Rightarrow> ('b, u8 list) result) \<Rightarrow> (('b, 'j) reason_detail \<Rightarrow> string) \<Rightarrow> (int \<times> ('b, 'j) intake_quarantine_record) list
      \<Rightarrow> quarantine_table" where
  "quarantine_all base64_decode detail_text xs =
     fold (\<lambda>x t. snd (insert_quarantine () base64_decode detail_text (fst x) (snd x) t)) xs Map.empty"

lemma quarantine_bound:
  fixes r :: "('b, 'j) intake_quarantine_record"
  assumes "quarantine_bind base64_decode detail_text now r = (Inr (k, row) :: (unit persistence_error, _) result)"
  shows "quarantined_under base64_decode detail_text k (now, r)" and "sqr_occurrences row = 1"
  using assms
  by (auto simp: quarantine_bind_def quarantined_under_def result_simps to_i64_def simp del: of_nat_unat split: option.splits if_splits)

lemma quarantine_refused:
  fixes r :: "('b, 'j) intake_quarantine_record"
  assumes "quarantine_bind base64_decode detail_text now r = (Inl err :: (unit persistence_error, _) result)"
  shows "\<not> quarantined_under base64_decode detail_text k (now, r)"
  using assms
  by (auto simp: quarantine_bind_def quarantined_under_def to_i64_def simp del: of_nat_unat split: option.splits)

lemma quarantined_under_unique:
  "quarantined_under d f k x \<Longrightarrow> quarantined_under d f k' x \<Longrightarrow> k' = k"
  by (simp add: quarantined_under_def)

lemma insert_counts:
  assumes "\<And>k. occurrences t k < i64_max"
  shows "occurrences (snd (insert_quarantine () base64_decode detail_text now r t)) k =
    occurrences t k + (if quarantined_under base64_decode detail_text k (now, r) then 1 else 0)"
proof (cases "quarantine_bind base64_decode detail_text now r :: (unit persistence_error, _) result")
  case (Inl err)
  then show ?thesis using quarantine_refused [OF Inl] by (simp add: insert_quarantine_def)
next
  case (Inr x)
  then obtain k' row where bound: "quarantine_bind base64_decode detail_text now r = (Inr (k', row) :: (unit persistence_error, _) result)"
    by (cases x) auto
  have "quarantined_under base64_decode detail_text k (now, r) \<longleftrightarrow> k = k'"
    using quarantine_bound(1) [OF bound] quarantined_under_unique by metis
  moreover have "sqr_occurrences row = 1" by (rule quarantine_bound(2) [OF bound])
  moreover have "\<not> i64_max < sqr_occurrences old + 1" if "t k' = Some old" for old
    using assms [of k'] that by (simp add: occurrences_def)
  ultimately show ?thesis
    using bound by (auto simp: insert_quarantine_def on_conflict_update_def occurrences_def merge_quarantine_def split: option.splits)
qed

text \<open>
  Quarantine counts and never grows by a replay. Whatever evidence is quarantined, the occurrences
  stored for a chain coordinate are the number of accepted records with that coordinate, and there is a
  row for a coordinate only if one was accepted.
\<close>

theorem quarantine_counts:
  assumes "int (length xs) \<le> i64_max"
  shows "occurrences (quarantine_all base64_decode detail_text xs) k =
    int (length (filter (quarantined_under base64_decode detail_text k) xs))"
  using assms
proof (induction xs arbitrary: k rule: rev_induct)
  case Nil
  then show ?case by (simp add: quarantine_all_def occurrences_def)
next
  case (snoc x xs)
  let ?t = "quarantine_all base64_decode detail_text xs"
  have IH: "occurrences ?t k = int (length (filter (quarantined_under base64_decode detail_text k) xs))" for k
    using snoc by simp
  have "occurrences ?t k < i64_max" for k
    using IH [of k] snoc.prems of_nat_mono [OF length_filter_le, of "quarantined_under base64_decode detail_text k" xs, where 'a = int]
    by (simp del: length_filter_le)
  then have "occurrences (snd (insert_quarantine () base64_decode detail_text (fst x) (snd x) ?t)) k =
      occurrences ?t k + (if quarantined_under base64_decode detail_text k x then 1 else 0)"
    using insert_counts [of ?t base64_decode detail_text "fst x" "snd x" k] by simp
  then show ?case using IH [of k] by (simp add: quarantine_all_def)
qed

definition example_quarantine :: "(unit, unit) intake_quarantine_record" where
  "example_quarantine = \<lparr>iq_key = \<lparr>key_network = SolanaMainnet, key_program = SourcePump, key_coordinate =
       \<lparr>slot = 1, transaction_index = None, signature = ''signature'', instruction_index = 2, event_index = 3\<rparr>\<rparr>,
     iq_decoder_version = ''pump-v1'', iq_reason_code = ''MALFORMED'', iq_reason_detail = TextDetail ''short'',
     iq_evidence_base64 = ''AAAA''\<rparr>"

theorem quarantine_counts_witness:
  "occurrences (quarantine_all (\<lambda>_. Inr []) (\<lambda>_. ''short'') [(10, example_quarantine), (20, example_quarantine)])
     (''SOLANA_MAINNET'', ''PUMP'', 1, ''signature'', 2, 3) = 2"
proof -
  let ?xs = "[(10, example_quarantine), (20, example_quarantine)]"
  let ?k = "(''SOLANA_MAINNET'', ''PUMP'', 1, ''signature'', 2, 3)"
  have "quarantined_under (\<lambda>_. Inr []) (\<lambda>_. ''short'') ?k (n, example_quarantine)" for n
    by (simp add: quarantined_under_def validate_record_def example_quarantine_def require_non_empty_def printable_not_blank
        validate_length_def MAX_DECODER_VERSION_BYTES_def MAX_REASON_CODE_BYTES_def MAX_REASON_DETAIL_BYTES_def
        MAX_EVIDENCE_BASE64_BYTES_def validate_evidence_base64_def quarantine_key_of_def to_i64_def i64_max_def del: trim_is_empty.simps)
  then show ?thesis using quarantine_counts [of ?xs "\<lambda>_. Inr []" "\<lambda>_. ''short''" ?k] by (simp add: i64_max_def)
qed

end
