(* ===== verification/Collection_Gaps_Correct.thy ===== *)
theory Collection_Gaps_Correct
  imports Durable_Facts_Correct Store_Claims
begin

text \<open>
  The life of a collection gap: the invariant of the table, how a row may change, and that an open gap
  is listed until a position at or after its checkpoint closes it for good.
\<close>

section \<open>The invariant of the table\<close>

abbreviation column :: "u64 \<Rightarrow> i64" where
  "column v \<equiv> int (unat v)"

text \<open>The columns of a row that was written, with the checkpoint and the resolution they hold.\<close>

definition gap_columns :: "collection_gap_row \<Rightarrow> network \<Rightarrow> source_program \<Rightarrow> u64 \<Rightarrow> u64 option \<Rightarrow> bool" where
  "gap_columns r net program s i \<longleftrightarrow>
     gr_network r = network_name net \<and> gr_source_program r = source_program_name program
     \<and> gr_prior_slot r = column s \<and> gr_prior_transaction_index r = map_option column i"

definition gap_closed :: "collection_gap_row \<Rightarrow> u64 \<Rightarrow> u64 option \<Rightarrow> collection_position \<Rightarrow> bool" where
  "gap_closed r s i p \<longleftrightarrow>
     gr_resolved_slot r = Some (column (pos_slot p))
     \<and> gr_resolved_transaction_index r = map_option column (pos_transaction_index p)
     \<and> gr_resolved_signature r = Some (pos_signature p) \<and> \<not> position_precedes p s i"

definition gap_open :: "collection_gap_row \<Rightarrow> bool" where
  "gap_open r \<longleftrightarrow> gr_resolved_slot r = None \<and> gr_resolved_transaction_index r = None \<and> gr_resolved_signature r = None"

definition gap_row_ok :: "collection_gap_row \<Rightarrow> bool" where
  "gap_row_ok r \<longleftrightarrow> (\<exists>net program s i. gap_columns r net program s i \<and> (gap_open r \<or> (\<exists>p. gap_closed r s i p)))"

definition gaps_ok :: "gap_table \<Rightarrow> bool" where
  "gaps_ok t \<longleftrightarrow>
     (\<forall>r\<in>set (gt_rows t). gap_row_ok r \<and> gr_gap_id r < gt_next_id t)
     \<and> distinct (map gr_gap_id (gt_rows t)) \<and> distinct (map gap_identity (filter gap_active (gt_rows t)))"

text \<open>How a row may change: its identity never, and nothing once it is closed.\<close>

definition gap_evolves :: "collection_gap_row \<Rightarrow> collection_gap_row \<Rightarrow> bool" where
  "gap_evolves r r' \<longleftrightarrow>
     gr_gap_id r' = gr_gap_id r \<and> gap_identity r' = gap_identity r \<and> (\<not> gap_active r \<longrightarrow> r' = r)"

datatype gap_edit = RecordGap new_collection_gap | ResolveGap int i64 collection_position

definition edit_gaps :: "(i64 \<Rightarrow> int option) \<Rightarrow> gap_edit \<Rightarrow> gap_table \<Rightarrow> gap_table" where
  "edit_gaps timestamp x t =
     (case x of
        RecordGap g \<Rightarrow> snd (record_collection_gap () timestamp g t)
      | ResolveGap now gap_id p \<Rightarrow> snd (resolve_collection_gap now gap_id p t :: (unit persistence_error, bool) result \<times> _))"

definition gap_table_new :: gap_table where
  "gap_table_new = \<lparr>gt_rows = [], gt_next_id = 1\<rparr>"

section \<open>Recording\<close>

lemma gap_bound:
  assumes "gap_bind e timestamp n g = Inr r"
  shows "gr_gap_id r = n" and "gap_open r" and "gap_active r"
    and "\<exists>s i. gap_columns r (ng_network g) (ng_source_program g) s i"
  using assms
  by (auto simp: gap_bind_def gap_open_def gap_active_def gap_columns_def result_simps to_i64_Inr simp del: of_nat_unat
      dest!: optional_index)

lemma merge_gap_identity [simp]:
  "gr_gap_id (merge_gap r new) = gr_gap_id r" "gap_identity (merge_gap r new) = gap_identity r"
  "gap_active (merge_gap r new) = gap_active r"
  by (simp_all add: merge_gap_def gap_identity_def gap_active_def)

lemma gap_row_ok_active: "gap_row_ok r \<Longrightarrow> gap_active r \<Longrightarrow> gap_open r"
  by (auto simp: gap_row_ok_def gap_active_def gap_closed_def)

lemma merged_gap_row_ok:
  assumes "gap_row_ok r" and "gap_active r" and "gap_columns new net program s i"
  shows "gap_row_ok (merge_gap r new)"
proof -
  have "gap_open (merge_gap r new)" using gap_row_ok_active [OF assms(1,2)] by (simp add: gap_open_def merge_gap_def)
  moreover obtain net' program' s' i' where "gap_columns r net' program' s' i'" using assms(1) by (auto simp: gap_row_ok_def)
  then have "gap_columns (merge_gap r new) net' program' s' (case i' of None \<Rightarrow> i | Some j \<Rightarrow> Some j)"
    using assms(3) by (auto simp: gap_columns_def merge_gap_def split: option.split)
  ultimately show ?thesis by (auto simp: gap_row_ok_def)
qed

text \<open>Replacing rows by rows of the same identity and state keeps the table's keys.\<close>

lemma gaps_ok_map:
  assumes "gaps_ok t" and "\<And>r. r \<in> set (gt_rows t) \<Longrightarrow> gap_row_ok (f r)"
    and "\<And>r. gap_evolves r (f r)" and "\<And>r. gap_active (f r) \<Longrightarrow> gap_active r" and "gt_next_id t \<le> n"
  shows "gaps_ok \<lparr>gt_rows = map f (gt_rows t), gt_next_id = n\<rparr>"
proof -
  have ids: "map (gr_gap_id \<circ> f) rs = map gr_gap_id rs" for rs using assms(3) by (simp add: gap_evolves_def)
  have "map gap_identity (filter gap_active (map f rs)) = map gap_identity (filter (\<lambda>r. gap_active (f r)) rs)" for rs
    using assms(3) by (induction rs) (simp_all add: gap_evolves_def)
  moreover have "filter (\<lambda>r. gap_active (f r)) rs = filter (\<lambda>r. gap_active (f r)) (filter gap_active rs)" for rs
    using assms(4) by (induction rs) auto
  ultimately have "distinct (map gap_identity (filter gap_active (map f (gt_rows t))))"
    using assms(1) distinct_map_filter unfolding gaps_ok_def by metis
  moreover have "gr_gap_id (f r) < n" if "r \<in> set (gt_rows t)" for r
    using assms(1,3,5) that by (fastforce simp: gaps_ok_def gap_evolves_def)
  moreover have "distinct (map gr_gap_id (map f (gt_rows t)))"
    using assms(1) ids [of "gt_rows t"] by (simp add: gaps_ok_def del: map_eq_conv)
  ultimately show ?thesis using assms(2) by (simp add: gaps_ok_def)
qed

lemma map_gap_evolves: "(\<And>r. gap_evolves r (f r)) \<Longrightarrow> \<forall>r\<in>set rs. \<exists>r'\<in>set (map f rs). gap_evolves r r'"
  by auto

lemma record_keeps:
  assumes "gaps_ok t"
  shows "gaps_ok (snd (record_collection_gap e timestamp g t))
    \<and> (\<forall>r\<in>set (gt_rows t). \<exists>r'\<in>set (gt_rows (snd (record_collection_gap e timestamp g t))). gap_evolves r r')"
proof (cases "gap_bind e timestamp (gt_next_id t) g")
  case (Inl err)
  then show ?thesis using assms by (auto simp: record_collection_gap_def gap_evolves_def)
next
  case (Inr new)
  note new = gap_bound [OF Inr]
  obtain s i where columns: "gap_columns new (ng_network g) (ng_source_program g) s i" using new(4) by blast
  let ?same = "\<lambda>r. gap_active r \<and> gap_identity r = gap_identity new"
  let ?f = "\<lambda>r. if ?same r then merge_gap r new else r"
  show ?thesis
  proof (cases "find ?same (gt_rows t)")
    case (Some old)
    have "gap_row_ok (?f r)" if "r \<in> set (gt_rows t)" for r
      using assms that merged_gap_row_ok [OF _ _ columns] by (auto simp: gaps_ok_def)
    then have "gaps_ok \<lparr>gt_rows = map ?f (gt_rows t), gt_next_id = gt_next_id t + 1\<rparr>"
      by (intro gaps_ok_map [OF assms]) (auto simp: gap_evolves_def split: if_splits)
    moreover have "\<forall>r\<in>set (gt_rows t). \<exists>r'\<in>set (map ?f (gt_rows t)). gap_evolves r r'"
      by (rule map_gap_evolves) (simp add: gap_evolves_def)
    ultimately show ?thesis using Inr Some by (simp add: record_collection_gap_def Let_def)
  next
    case None
    have "gap_row_ok new" using columns new(2) by (auto simp: gap_row_ok_def)
    moreover have "gap_identity new \<notin> gap_identity ` set (filter gap_active (gt_rows t))" using None by (auto simp: find_None_iff)
    ultimately have "gaps_ok \<lparr>gt_rows = gt_rows t @ [new], gt_next_id = gt_next_id t + 1\<rparr>"
      using assms new by (fastforce simp: gaps_ok_def)
    then show ?thesis using Inr None by (auto simp: record_collection_gap_def Let_def gap_evolves_def)
  qed
qed

section \<open>Closing\<close>

lemma resolve_row_simps [simp]:
  "gr_gap_id (resolve_row now s i sig r) = gr_gap_id r" "gap_identity (resolve_row now s i sig r) = gap_identity r"
  "\<not> gap_active (resolve_row now s i sig r)"
  by (simp_all add: resolve_row_def gap_identity_def gap_active_def)

lemma resolved_gap_row_ok:
  assumes "gap_columns r net program s i" and "\<not> position_precedes p s i"
  shows "gap_row_ok (resolve_row now (column (pos_slot p)) (map_option column (pos_transaction_index p)) (pos_signature p) r)"
    (is "gap_row_ok ?r")
proof -
  have "gap_columns ?r net program s i" using assms(1) by (simp add: gap_columns_def resolve_row_def)
  moreover have "gap_closed ?r s i p" using assms(2) by (simp add: gap_closed_def resolve_row_def)
  ultimately show ?thesis unfolding gap_row_ok_def by blast
qed

lemma resolve_cases:
  assumes t: "gaps_ok t"
  obtains (unchanged) "snd (resolve_collection_gap now gap_id p t :: ('x persistence_error, bool) result \<times> _) = t"
  | (closed) prior net program s i where
      "prior \<in> set (gt_rows t)" "gr_gap_id prior = gap_id" "gap_columns prior net program s i" "\<not> position_precedes p s i"
      "snd (resolve_collection_gap now gap_id p t :: ('x persistence_error, bool) result \<times> _) =
        t\<lparr>gt_rows := map (\<lambda>r. if gr_gap_id r = gap_id \<and> gap_active r
          then resolve_row now (column (pos_slot p)) (map_option column (pos_transaction_index p)) (pos_signature p) r
          else r) (gt_rows t)\<rparr>"
proof (cases "find (\<lambda>r. gr_gap_id r = gap_id \<and> gap_active r) (gt_rows t)")
  case None
  then show ?thesis by (intro unchanged) (simp add: resolve_collection_gap_def split: sum.split)
next
  case (Some prior)
  then have prior: "prior \<in> set (gt_rows t)" "gr_gap_id prior = gap_id" by (auto simp: find_Some_iff)
  then obtain net program s i where columns: "gap_columns prior net program s i" using t by (auto simp: gaps_ok_def gap_row_ok_def)
  show ?thesis
  proof (cases "\<not> trim_is_empty (pos_signature p) \<and> \<not> position_precedes p s i \<and> column (pos_slot p) \<le> i64_max
      \<and> (case pos_transaction_index p of None \<Rightarrow> True | Some j \<Rightarrow> column j \<le> i64_max)")
    case True
    then show ?thesis using Some columns
      by (intro closed [OF prior columns])
        (auto simp: resolve_collection_gap_def validate_position_def require_non_empty_def gap_columns_def index_read to_i64_def
          simp del: of_nat_unat split: option.splits)
  next
    case False
    then show ?thesis using Some columns
      by (intro unchanged)
        (auto simp: resolve_collection_gap_def validate_position_def require_non_empty_def gap_columns_def index_read to_i64_def
          simp del: of_nat_unat split: option.splits)
  qed
qed

lemma unique_gap: "gaps_ok t \<Longrightarrow> r \<in> set (gt_rows t) \<Longrightarrow> r' \<in> set (gt_rows t) \<Longrightarrow> gr_gap_id r = gr_gap_id r' \<Longrightarrow> r = r'"
  by (auto simp: gaps_ok_def distinct_map dest: inj_onD)

lemma resolve_keeps:
  fixes now gap_id p
  defines "f \<equiv> \<lambda>t. snd (resolve_collection_gap now gap_id p t :: ('x persistence_error, bool) result \<times> gap_table)"
  assumes "gaps_ok t"
  shows "gaps_ok (f t) \<and> (\<forall>r\<in>set (gt_rows t). \<exists>r'\<in>set (gt_rows (f t)). gap_evolves r r')"
proof (rule resolve_cases [OF assms(2), of now gap_id p, where 'x = 'x], goal_cases unchanged closed)
  case unchanged
  then show ?thesis using assms(2) by (auto simp: f_def gap_evolves_def)
next
  case (closed prior net program s i)
  let ?g = "\<lambda>r. if gr_gap_id r = gap_id \<and> gap_active r
    then resolve_row now (column (pos_slot p)) (map_option column (pos_transaction_index p)) (pos_signature p) r else r"
  have "gap_row_ok (?g r)" if r: "r \<in> set (gt_rows t)" for r
  proof (cases "gr_gap_id r = gap_id")
    case True
    then have "r = prior" using unique_gap [OF assms(2) r closed(1)] closed(2) by simp
    then show ?thesis using resolved_gap_row_ok [OF closed(3,4)] assms(2) r by (auto simp: gaps_ok_def)
  qed (use assms(2) r in \<open>simp add: gaps_ok_def\<close>)
  then have "gaps_ok \<lparr>gt_rows = map ?g (gt_rows t), gt_next_id = gt_next_id t\<rparr>"
    by (intro gaps_ok_map [OF assms(2)]) (auto simp: gap_evolves_def split: if_splits)
  moreover have "\<forall>r\<in>set (gt_rows t). \<exists>r'\<in>set (map ?g (gt_rows t)). gap_evolves r r'"
    by (rule map_gap_evolves) (simp add: gap_evolves_def)
  ultimately show ?thesis using closed(5) by (simp add: f_def gaps_ok_def)
qed

section \<open>The life of a gap\<close>

lemma edit_keeps:
  "gaps_ok t \<Longrightarrow> gaps_ok (edit_gaps timestamp x t)
     \<and> (\<forall>r\<in>set (gt_rows t). \<exists>r'\<in>set (gt_rows (edit_gaps timestamp x t)). gap_evolves r r')"
  using record_keeps resolve_keeps by (cases x) (simp_all add: edit_gaps_def)

lemma gap_evolves_trans: "gap_evolves a b \<Longrightarrow> gap_evolves b c \<Longrightarrow> gap_evolves a c"
  by (auto simp: gap_evolves_def gap_active_def)

lemma edits_keep:
  "gaps_ok t \<Longrightarrow> gaps_ok (fold (edit_gaps timestamp) xs t)
     \<and> (\<forall>r\<in>set (gt_rows t). \<exists>r'\<in>set (gt_rows (fold (edit_gaps timestamp) xs t)). gap_evolves r r')"
proof (induction xs arbitrary: t)
  case Nil
  then show ?case by (auto simp: gap_evolves_def)
next
  case (Cons x xs)
  have step: "gaps_ok (edit_gaps timestamp x t)" "\<forall>r\<in>set (gt_rows t). \<exists>r'\<in>set (gt_rows (edit_gaps timestamp x t)). gap_evolves r r'"
    using edit_keeps [OF Cons.prems] by simp_all
  then show ?case using Cons.IH [OF step(1)] gap_evolves_trans by simp metis
qed

text \<open>How a stored gap reads: open or closed, and closed only by a position that does not precede it.\<close>

definition reads_as :: "(int \<Rightarrow> i64) \<Rightarrow> collection_gap_row \<Rightarrow> collection_gap \<Rightarrow> bool" where
  "reads_as millis r g \<longleftrightarrow>
     cg_gap_id g = gr_gap_id r \<and> (gap_active r \<longleftrightarrow> cg_resolved_through g = None)
     \<and> (case cg_resolved_through g of
          None \<Rightarrow> True
        | Some p \<Rightarrow> \<not> position_precedes p (pos_slot (cg_prior_checkpoint g)) (pos_transaction_index (cg_prior_checkpoint g)))"

lemma map_gap_reads:
  assumes "gap_row_ok r"
  shows "\<exists>g. map_gap show_parts millis r = Inr g \<and> reads_as millis r g"
proof -
  obtain net program s i where columns: "gap_columns r net program s i" and state: "gap_open r \<or> (\<exists>p. gap_closed r s i p)"
    using assms unfolding gap_row_ok_def by blast
  from state show ?thesis
  proof
    assume "gap_open r"
    then show ?thesis using columns
      by (simp add: map_gap_def gap_open_def gap_columns_def index_read reads_as_def gap_active_def del: of_nat_unat)
  next
    assume "\<exists>p. gap_closed r s i p"
    then obtain p where p: "gap_closed r s i p" by blast
    then show ?thesis using columns
      by (simp add: map_gap_def gap_closed_def gap_columns_def index_read reads_as_def gap_active_def position_precedes_def
          del: of_nat_unat)
  qed
qed

lemma active_gaps_load:
  assumes "gaps_ok t"
  shows "\<exists>gs. load_active_collection_gaps show_parts millis net program t = (Inr gs :: ('x persistence_error, _) result)
    \<and> list_all2 (reads_as millis) (sort_key (\<lambda>r. (gr_detected_at r, gr_gap_id r)) (active_rows net program t)) gs"
proof -
  let ?rows = "sort_key (\<lambda>r. (gr_detected_at r, gr_gap_id r)) (active_rows net program t)"
  have "\<forall>r\<in>set ?rows. \<exists>g. map_gap show_parts millis r = (Inr g :: ('x persistence_error, _) result) \<and> reads_as millis r g"
    using assms by (auto simp: gaps_ok_def active_rows_def intro!: map_gap_reads)
  from bchoice [OF this] obtain f
    where f: "\<forall>r\<in>set ?rows. map_gap show_parts millis r = (Inr (f r) :: ('x persistence_error, _) result) \<and> reads_as millis r (f r)" by blast
  have "collect_results (map_gap show_parts millis) ?rows = (Inr (map f ?rows) :: ('x persistence_error, _) result)" using f by (intro collect_results_map) blast
  moreover have "list_all2 (reads_as millis) ?rows (map f ?rows)" using f by (simp add: list_all2_map2 list_all2_same)
  ultimately show ?thesis by (auto simp: load_active_collection_gaps_def)
qed

text \<open>
  C26: a gap stays open until it is passed. Whatever gaps are recorded and closed, in any order, a
  recorded gap keeps its number and its identity for ever, is listed as long as it is open, and is
  closed at most once, by a position that does not precede the checkpoint it was recorded with; two
  open gaps never share an identity, and the count of open gaps is the length of their list.
\<close>

theorem gap_open_until_passed:
  fixes timestamp xs ys
  defines "t \<equiv> fold (edit_gaps timestamp) xs gap_table_new"
  shows "(\<forall>r\<in>set (gt_rows t). \<exists>r'\<in>set (gt_rows (fold (edit_gaps timestamp) ys t)).
        gr_gap_id r' = gr_gap_id r \<and> gap_identity r' = gap_identity r \<and> (\<not> gap_active r \<longrightarrow> r' = r))
    \<and> (\<forall>r\<in>set (gt_rows t). \<exists>g. map_gap show_parts millis r = (Inr g :: ('x persistence_error, _) result) \<and> reads_as millis r g)
    \<and> distinct (map gap_identity (filter gap_active (gt_rows t)))
    \<and> (\<exists>gs. load_active_collection_gaps show_parts millis net program t = (Inr gs :: ('x persistence_error, _) result)
        \<and> set (map cg_gap_id gs) = set (map gr_gap_id (active_rows net program t))
        \<and> count_active_collection_gaps net program t = (Inr (of_nat (length gs)) :: ('x persistence_error, _) result))"
proof -
  have "gaps_ok gap_table_new" by (simp add: gaps_ok_def gap_table_new_def)
  then have ok: "gaps_ok t" using edits_keep by (simp add: t_def)
  obtain gs where gs: "load_active_collection_gaps show_parts millis net program t = (Inr gs :: ('x persistence_error, _) result)"
      and reads: "list_all2 (reads_as millis) (sort_key (\<lambda>r. (gr_detected_at r, gr_gap_id r)) (active_rows net program t)) gs"
    using active_gaps_load [OF ok, where 'x = 'x] by blast
  have "length gs = length (active_rows net program t)" using list_all2_lengthD [OF reads] by simp
  then have count: "count_active_collection_gaps net program t = (Inr (of_nat (length gs)) :: ('x persistence_error, _) result)"
    by (simp add: count_active_collection_gaps_def to_u64_def)
  have "map cg_gap_id gs = map gr_gap_id (sort_key (\<lambda>r. (gr_detected_at r, gr_gap_id r)) (active_rows net program t))"
    using reads by (induction rule: list_all2_induct) (simp_all add: reads_as_def)
  then have "set (map cg_gap_id gs) = set (map gr_gap_id (active_rows net program t))" by (metis set_map set_sort)
  moreover have "distinct (map gap_identity (filter gap_active (gt_rows t)))" using ok by (simp add: gaps_ok_def)
  moreover have "\<forall>r\<in>set (gt_rows t). \<exists>g. map_gap show_parts millis r = (Inr g :: ('x persistence_error, _) result) \<and> reads_as millis r g"
    using ok by (auto simp: gaps_ok_def intro!: map_gap_reads)
  moreover have "\<forall>r\<in>set (gt_rows t). \<exists>r'\<in>set (gt_rows (fold (edit_gaps timestamp) ys t)).
        gr_gap_id r' = gr_gap_id r \<and> gap_identity r' = gap_identity r \<and> (\<not> gap_active r \<longrightarrow> r' = r)"
    using edits_keep [OF ok, of timestamp ys] by (simp add: gap_evolves_def)
  ultimately show ?thesis using gs count by blast
qed

definition example_gap :: new_collection_gap where
  "example_gap = \<lparr>ng_network = SolanaMainnet, ng_source_program = SourcePump, ng_reason_code = ''DISCONNECTED'',
     ng_prior_checkpoint = \<lparr>pos_slot = 7, pos_transaction_index = Some 2, pos_signature = ''signature''\<rparr>,
     ng_detected_at_unix_ms = 1000, ng_details = ''closed''\<rparr>"

theorem gap_open_until_passed_witness:
  "\<exists>gs. load_active_collection_gaps (\<lambda>_ _ _. []) id SolanaMainnet SourcePump
          (fold (edit_gaps Some) [RecordGap example_gap] gap_table_new) = (Inr gs :: (unit persistence_error, _) result)
      \<and> set (map cg_gap_id gs) = {1}"
proof -
  let ?t = "fold (edit_gaps Some) [RecordGap example_gap] gap_table_new"
  have "active_rows SolanaMainnet SourcePump ?t = gt_rows ?t \<and> map gr_gap_id (gt_rows ?t) = [1]"
    by (simp add: edit_gaps_def record_collection_gap_def gap_bind_def validate_new_gap_def validate_position_def require_non_empty_def
        example_gap_def printable_not_blank validate_length_def MAX_REASON_CODE_BYTES_def MAX_DETAILS_BYTES_def to_i64_def
        i64_max_def gap_table_new_def Let_def active_rows_def gap_active_def del: trim_is_empty.simps)
  then show ?thesis
    using gap_open_until_passed [of Some "[RecordGap example_gap]" "[]" "\<lambda>_ _ _. []" id SolanaMainnet SourcePump, where 'x = unit]
    by auto
qed

end
