(* ===== verification/Spec2Isabelle.thy ===== *)
theory Spec2Isabelle
  imports Windows_Claims Normalization_Correct Collector_System Batch_Decode_Correct
    Finalization_Claims Maintenance Pipeline_Correct Finalizer_Correct Rpc_Client_Correct Store_Claims
    Projections_Correct Discovery_Worker_Correct Settings_Store Collection_Gaps_Correct
begin

text \<open>
  \<^bold>\<open>Soldisco.\<close> The server watches the Pump and PumpSwap programs of the Solana network. It reads log
  notifications, decodes the events in them, opens an observation window of fixed length on every newly
  discovered market, collects what happens there, summarizes the window when it closes, and decides by
  fixed rules whether the market qualifies. Everything it learns is kept in PostgreSQL and shown on a
  board. A decision must rest on complete evidence: wherever the server may have missed or lost a part,
  the window has to be known as incomplete and no decision may be drawn from it. That requirement, and
  the exactness of what is counted, are what most of the theorems are about.

  \<^bold>\<open>Parts, in the order of the data.\<close>

  \<^item> Facts and shared data. \<open>Prelude\<close> (machine integers, results, shared lemmas), \<open>Text\<close> (strings as
    UTF-8 bytes), \<open>Ordered_Map\<close> (\<open>BTreeMap\<close>, locale \<open>ordered_map\<close>), \<open>Effects\<close> (fallible code on a
    state, locale \<open>effect_order\<close>), \<open>Domain\<close> (\<open>crates/domain\<close>, \<open>crates/risk-engine\<close>,
    \<open>crates/source-raydium\<close>), \<open>Contracts\<close> (\<open>crates/api-contracts\<close>), \<open>Persistence_Values\<close>
    (\<open>error.rs\<close> and \<open>values.rs\<close> of \<open>crates/persistence/src\<close>).

  \<^item> Decoding. \<open>Pump_Model\<close>, \<open>Borsh\<close> and \<open>Pump_Decoder\<close> (\<open>crates/source-pump\<close>). Every layout is an
    instance of the locale \<open>codec\<close>; a payload decodes exactly when it is the encoding of an event.

  \<^item> RPC. \<open>Rpc_Model\<close>, \<open>Rpc_Client\<close> and \<open>Recovery\<close> (\<open>model.rs\<close>, \<open>http.rs\<close> and \<open>recovery.rs\<close> of
    \<open>crates/solana-rpc/src\<close>) with \<open>Recovery_Correct\<close> and \<open>Rpc_Client_Correct\<close>: instruction data
    round-trips through base-58, and the recovery after an outage releases the whole gap or nothing
    and ends whatever the node answers (locale \<open>page_source\<close>).

  \<^item> Intake. \<open>Log_Scope\<close> (the two walks over a log in \<open>apps/server/src/jobs/intake.rs\<close>),
    \<open>Log_Scope_Correct\<close> and \<open>Log_Pairing\<close> (the walks against a specification by recursion on the tree
    of invocations, locale \<open>log_walk\<close>), \<open>Intake\<close> and \<open>Intake_Correct\<close> (classification of a
    notification, which fails closed), \<open>Normalization\<close> and \<open>Normalization_Correct\<close> (\<open>normalization.rs\<close>
    and \<open>pump_swap_pair.rs\<close>: the registry of markets and the translation of all nine events).

  \<^item> Windows. \<open>Windows\<close>, \<open>Windows_Correct\<close> and \<open>Windows_Claims\<close> (\<open>crates/discovery-engine/src/lib.rs\<close>):
    tokens as handles to shared cells, the registry, and finalization claims, as a transition system
    whose steps are the critical sections of the code. The locales \<open>cell_op\<close> and \<open>registry_op\<close> state
    what an operation may do to a cell and to the registry; every operation is an instance.

  \<^item> Collection. \<open>Discovery_Rpc\<close> (the gate of \<open>discovery_rpc.rs\<close>), \<open>Collector\<close> (\<open>collector.rs\<close>, a task
    cut at its waiting points), \<open>Pending_Activity\<close>, \<open>Ledger\<close> (who owns an admission, locale \<open>owner\<close>),
    \<open>Collector_Correct\<close> and \<open>Collector_System\<close>: no admission is lost, and work that is dropped marks
    its window for good.

  \<^item> Processing. \<open>Batch_Decode\<close>, \<open>Batch_Process\<close> and \<open>Pipeline\<close> with their \<open>_Correct\<close> theories
    (\<open>pipeline.rs\<close>): decoding with corroboration and quarantine, normalization, storage and
    settlement of a batch, the loops of the processor and of the pipeline, its supervision and the
    hydration after a restart. Awaited database calls may interleave any other task; the locale
    \<open>processor\<close> carries the collector's transition system through them.

  \<^item> Snapshots and decisions. \<open>Ratio\<close>, \<open>Snapshot\<close>, \<open>Snapshot_Correct\<close> and \<open>Qualification\<close>
    (\<open>snapshot.rs\<close> and \<open>qualification.rs\<close> of \<open>crates/discovery-engine/src\<close>): the machine arithmetic
    computes the mathematical summary of the window, and the decision is the one the exact trades give.
    The verdict is an instance of the locale \<open>verdict\<close>, as is that of the risk engine.

  \<^item> Finalization. \<open>Window_Finalization\<close>, \<open>Window_Finalization_Correct\<close> and \<open>Finalization_Claims\<close>
    (\<open>discovery_windows.rs\<close>: the canonical payload and the finalizing transaction), \<open>Finalizer\<close> and
    \<open>Finalizer_Correct\<close> (\<open>apps/server/src/jobs/qualification.rs\<close>, locale \<open>finalizer_calls\<close>).

  \<^item> The durable store. \<open>Discovery_Store\<close> (\<open>work.rs\<close> and the tables), \<open>Discovery_Projection\<close>
    (\<open>observations.rs\<close>, \<open>discovery_validation.rs\<close>), \<open>Discovery_Commits\<close> (\<open>discovery.rs\<close>,
    \<open>discovery_storage.rs\<close>, \<open>discovery_activity.rs\<close>), \<open>Window_Store\<close> (the statements of
    \<open>discovery_windows.rs\<close>). \<open>Store_Invariant\<close> states what every transaction keeps, \<open>Store_Work\<close>,
    \<open>Store_Candidates\<close> and \<open>Store_Windows\<close> show it for each of them, \<open>Store_System\<close> makes the
    store a state machine with an invariant (locale \<open>step_invariant\<close>), and \<open>Store_Claims\<close> draws the
    conclusions: the counters count the tables, a promoted candidate has a complete passing window,
    and the projection always loads.

  \<^item> Around the store. \<open>Discovery_Worker\<close> and \<open>Discovery_Worker_Correct\<close>
    (\<open>apps/server/src/jobs/discovery.rs\<close>): the worker only performs transactions of the store, and
    what was decoded and normalized is never refused. \<open>Projections\<close> and \<open>Projections_Correct\<close>
    (\<open>crates/projections\<close>): the board and the round trip through its snapshot. \<open>Settings_Store\<close>
    (\<open>prefilter_defaults.rs\<close>, \<open>qualification_defaults.rs\<close>; locale \<open>versioned_settings\<close>): both groups
    of settings are a history of accepted edits. \<open>Durable_Facts\<close>, \<open>Durable_Facts_Correct\<close>,
    \<open>Collection_Gaps\<close> and \<open>Collection_Gaps_Correct\<close> (\<open>checkpoints.rs\<close>, \<open>pump_swap.rs\<close>,
    \<open>network_binding.rs\<close>, \<open>quarantine.rs\<close>, \<open>collection_gaps.rs\<close>; locale \<open>guarded_rows\<close>): checkpoints
    do not move back, a pool keeps its identity, a database its network, and a gap stays open until it
    is passed. \<open>Maintenance\<close> (\<open>maintenance.rs\<close>, \<open>retention.rs\<close>): pruning deletes history only and ends.

  \<^bold>\<open>How the code is rendered.\<close> Unsigned integers are words of their width and signed ones \<open>int\<close> with
  the bounds written out where they can be left. Structs are records, enums datatypes, a \<open>Result\<close> is a
  sum with the error on the left, a \<open>?\<close> is \<open>result_bind\<close> or \<open>exec_bind\<close>, and every early return is a
  branch. Shared atomics live in a store of cells. A critical section, a transaction and the part of
  an \<open>async\<close> function between two waiting points are one step each; what runs in between is any step of
  the other tasks. A statement that changes rows is a function on the table; a transaction that fails
  leaves the tables as they were. The clock of a step is an argument.

  \<^bold>\<open>Parameters.\<close> SHA-256, base64, serde and the JSON codec, the HTTP exchange, the PostgreSQL driver and
  its conversion of times, and the printing of foreign errors are parameters. What a theorem needs of
  one is a named hypothesis (for example \<open>token_codec\<close>, that a stored candidate decodes to itself), and a
  witness instantiates it with a concrete function.

  \<^bold>\<open>Loops and bounds.\<close> Loops over data are structural recursions or folds. The three loops that may run
  for ever are partial functions in the option type, where not returning is the value \<open>None\<close>: the
  pruning loop and the drain at shutdown, which are proved to return, and the loop of the discovery
  worker, which runs until it is cancelled. The recovery loop has a bound on its pages that is proved to
  suffice whatever the node answers. The loops of the pipeline and of the processor run over the finite
  list of the inputs they receive, so that a theorem about every list covers every moment of a run.

  \<^bold>\<open>Not modelled.\<close> The web socket client (\<open>crates/solana-rpc/src/pubsub.rs\<close>) and the construction of the
  HTTP client are input and output over third-party crates. Of the server, \<open>config.rs\<close>, \<open>state.rs\<close>,
  \<open>supervisor.rs\<close>, \<open>main.rs\<close> and the HTTP routes read the environment, hold handles and serve responses;
  the settings and states they pass on are arguments of the pipeline. Of the persistence layer, the
  connection pool, migrations, the screening tables and two listings for hydration are left out. Tracing,
  the event bus of the browser, the serde derives and the web client are left out throughout.
\<close>

end
